(* ===== verification/Prelude.thy ===== *)
theory Prelude
  imports Main "HOL-Library.Word" "HOL-Library.Monad_Syntax" "HOL-Library.List_Lexorder"
    "HOL-Library.Char_ord"
begin

section \<open>Shared vocabulary of the development\<close>

text \<open>
  What every component of the model uses: Rust strings as lists of Unicode code points, the
  \<open>Vec\<close> operations that panic out of range (a panic is \<open>None\<close>), checked subtraction,
  association lists for hash maps, and two locales: \<open>total_machine\<close>, the contract
  "every step is defined on states that satisfy the invariant, and keeps it", and
  \<open>keyed_store\<close>, the laws of an insert/remove/lookup table.
\<close>

named_theorems wf_defs \<open>definitions of the well-formedness predicates\<close>
named_theorems vec_simps \<open>how the panicking vector operations evaluate in range\<close>
named_theorems keeps \<open>facts saying that an operation keeps an invariant\<close>

subsection \<open>Machine integers\<close>

type_synonym u8 = "8 word"
type_synonym u16 = "16 word"

text \<open>The exclusive upper bound of \<open>u64\<close>; counters of that type are \<open>nat\<close>s checked against it.\<close>

definition u64_limit :: nat where
  "u64_limit = 2 ^ 64"

text \<open>\<open>usize\<close> subtraction: an underflow is an arithmetic panic.\<close>

definition usize_sub :: "nat \<Rightarrow> nat \<Rightarrow> nat option" where
  "usize_sub a b = (if b \<le> a then Some (a - b) else None)"

text \<open>\<open>u64::checked_add(1).expect(..)\<close>: panics when the counter is exhausted.\<close>

definition u64_succ :: "nat \<Rightarrow> nat option" where
  "u64_succ n = (if n + 1 < u64_limit then Some (n + 1) else None)"

lemma usize_sub_Some [simp]: "usize_sub a b = Some c \<longleftrightarrow> b \<le> a \<and> c = a - b"
  by (auto simp: usize_sub_def)

lemma usize_sub_le [simp]: "b \<le> a \<Longrightarrow> usize_sub a b = Some (a - b)"
  by (simp add: usize_sub_def)

lemma u64_succ_Some [simp]: "u64_succ n = Some m \<longleftrightarrow> m = Suc n \<and> Suc n < u64_limit"
  by (auto simp: u64_succ_def)

subsection \<open>Strings\<close>

text \<open>
  A Rust \<open>char\<close> is a Unicode scalar value; a \<open>String\<close> whose text matters is the list of
  its code points. Identifiers that are only compared stay HOL strings.
\<close>

type_synonym rchar = nat
type_synonym rstring = "rchar list"

definition lit :: "string \<Rightarrow> rstring" where
  "lit s = map of_char s"

lemma lit_append [simp]: "lit (s @ t) = lit s @ lit t"
  by (simp add: lit_def)

text \<open>The number of bytes a code point takes in UTF-8, and the byte length of a string.\<close>

definition utf8_len :: "rchar \<Rightarrow> nat" where
  "utf8_len c = (if c < 0x80 then 1 else if c < 0x800 then 2 else if c < 0x10000 then 3 else 4)"

definition byte_len :: "rstring \<Rightarrow> nat" where
  "byte_len s = sum_list (map utf8_len s)"

lemma utf8_len_bounds: "1 \<le> utf8_len c" "utf8_len c \<le> 4"
  by (simp_all add: utf8_len_def)

lemma byte_len_simps [simp]:
  "byte_len [] = 0" "byte_len (c # s) = utf8_len c + byte_len s"
  "byte_len (s @ t) = byte_len s + byte_len t"
  by (simp_all add: byte_len_def)

lemma byte_len_pos: "s \<noteq> [] \<Longrightarrow> 0 < byte_len s"
proof (cases s)
  case (Cons c t)
  then show ?thesis using utf8_len_bounds(1) [of c] by simp
qed simp

text \<open>\<open>format!("{n}")\<close> on an unsigned integer: decimal digits, no leading zero.\<close>

fun dec :: "nat \<Rightarrow> rstring" where
  "dec n = (if n < 10 then [48 + n] else dec (n div 10) @ [48 + n mod 10])"

declare dec.simps [simp del]

text \<open>Its inverse, and the proof that it is one.\<close>

definition undec :: "rstring \<Rightarrow> nat" where
  "undec s = foldl (\<lambda>acc c. acc * 10 + (c - 48)) 0 s"

lemma undec_dec [simp]: "undec (dec n) = n"
proof (induction n rule: dec.induct)
  case (1 n)
  show ?case
  proof (cases "n < 10")
    case True
    then show ?thesis by (simp add: dec.simps undec_def)
  next
    case False
    then have "undec (dec n) = undec (dec (n div 10)) * 10 + n mod 10"
      by (simp add: dec.simps [of n] undec_def)
    also have "\<dots> = n" using "1" [OF False] by simp
    finally show ?thesis .
  qed
qed

lemma dec_digits: "c \<in> set (dec n) \<Longrightarrow> 48 \<le> c \<and> c < 58"
proof (induction n rule: dec.induct)
  case (1 n)
  show ?case
  proof (cases "n < 10")
    case True
    with "1.prems" show ?thesis by (simp add: dec.simps)
  next
    case False
    with "1.prems" have "c \<in> set (dec (n div 10)) \<or> c = 48 + n mod 10"
      by (auto simp: dec.simps [of n])
    with "1.IH" [OF False] show ?thesis by auto
  qed
qed

lemma dec_nonempty [simp]: "dec n \<noteq> []"
  by (simp add: dec.simps)

subsection \<open>Vectors: reads and writes that panic out of range\<close>

definition vec_get :: "'a list \<Rightarrow> nat \<Rightarrow> 'a option" where
  "vec_get xs i = (if i < length xs then Some (xs ! i) else None)"

definition vec_set :: "'a list \<Rightarrow> nat \<Rightarrow> 'a \<Rightarrow> 'a list option" where
  "vec_set xs i x = (if i < length xs then Some (xs[i := x]) else None)"

text \<open>\<open>Vec::remove(i)\<close>: the element and the rest; panics when \<open>i \<ge> len\<close>.\<close>

definition vec_remove :: "nat \<Rightarrow> 'a list \<Rightarrow> ('a \<times> 'a list) option" where
  "vec_remove i xs = (if i < length xs then Some (xs ! i, take i xs @ drop (Suc i) xs) else None)"

text \<open>\<open>Vec::insert(i, x)\<close>: panics when \<open>i > len\<close>.\<close>

definition vec_insert :: "nat \<Rightarrow> 'a \<Rightarrow> 'a list \<Rightarrow> 'a list option" where
  "vec_insert i x xs = (if i \<le> length xs then Some (take i xs @ x # drop i xs) else None)"

text \<open>\<open>Vec::resize(n, x)\<close>.\<close>

definition vec_resize :: "nat \<Rightarrow> 'a \<Rightarrow> 'a list \<Rightarrow> 'a list" where
  "vec_resize n x xs = take n xs @ replicate (n - length xs) x"

text \<open>\<open>for c in &mut xs[i..] { *c = x }\<close> and \<open>for c in &mut xs[..=i] { *c = x }\<close>.\<close>

definition fill_from :: "nat \<Rightarrow> 'a \<Rightarrow> 'a list \<Rightarrow> 'a list option" where
  "fill_from i x xs = (if i \<le> length xs then Some (take i xs @ replicate (length xs - i) x) else None)"

definition fill_upto :: "nat \<Rightarrow> 'a \<Rightarrow> 'a list \<Rightarrow> 'a list option" where
  "fill_upto i x xs = (if i < length xs then Some (replicate (Suc i) x @ drop (Suc i) xs) else None)"

lemma vec_in_range [vec_simps]:
  "i < length xs \<Longrightarrow> vec_get xs i = Some (xs ! i)"
  "i < length xs \<Longrightarrow> vec_set xs i x = Some (xs[i := x])"
  "i < length xs \<Longrightarrow> vec_remove i xs = Some (xs ! i, take i xs @ drop (Suc i) xs)"
  "i \<le> length xs \<Longrightarrow> vec_insert i x xs = Some (take i xs @ x # drop i xs)"
  "i \<le> length xs \<Longrightarrow> fill_from i x xs = Some (take i xs @ replicate (length xs - i) x)"
  "i < length xs \<Longrightarrow> fill_upto i x xs = Some (replicate (Suc i) x @ drop (Suc i) xs)"
  by (simp_all add: vec_get_def vec_set_def vec_remove_def vec_insert_def fill_from_def fill_upto_def)

lemma vec_get_Some: "vec_get xs i = Some x \<longleftrightarrow> i < length xs \<and> x = xs ! i"
  by (auto simp: vec_get_def)

lemma vec_set_Some: "vec_set xs i x = Some ys \<longleftrightarrow> i < length xs \<and> ys = xs[i := x]"
  by (auto simp: vec_set_def)

lemma length_vec_resize [simp]: "length (vec_resize n x xs) = n"
  by (simp add: vec_resize_def)

lemma length_insert_nth: "length (take j xs @ x # drop j xs) = Suc (length xs)"
  by simp

lemma set_insert_nth: "set (take j xs @ x # drop j xs) = insert x (set xs)"
proof -
  have "set (take j xs) \<union> set (drop j xs) = set xs"
    by (metis append_take_drop_id set_append)
  then show ?thesis by simp
qed

subsection \<open>Iterating a fallible step\<close>

text \<open>\<open>for _ in 0..n { step }\<close> and \<open>for x in xs { step }\<close> over a state, stopping at a panic.\<close>

fun iter_opt :: "nat \<Rightarrow> ('s \<Rightarrow> 's option) \<Rightarrow> 's \<Rightarrow> 's option" where
  "iter_opt 0 f s = Some s"
| "iter_opt (Suc n) f s = f s \<bind> iter_opt n f"

fun fold_opt :: "('e \<Rightarrow> 's \<Rightarrow> 's option) \<Rightarrow> 'e list \<Rightarrow> 's \<Rightarrow> 's option" where
  "fold_opt f [] s = Some s"
| "fold_opt f (e # es) s = f e s \<bind> fold_opt f es"

lemma iter_opt_total:
  assumes "\<And>s. P s \<Longrightarrow> \<exists>s'. f s = Some s' \<and> P s'" and "P s"
  shows "\<exists>s'. iter_opt n f s = Some s' \<and> P s'"
  using assms(2)
proof (induction n arbitrary: s)
  case (Suc n)
  from assms(1) [OF Suc.prems] obtain s' where s': "f s = Some s'" "P s'" by blast
  from Suc.IH [OF s'(2)] s'(1) show ?case by simp
qed simp

lemma fold_opt_append:
  "fold_opt f (xs @ ys) s = fold_opt f xs s \<bind> fold_opt f ys"
  by (induction xs arbitrary: s) (auto simp: bind_assoc split: bind_split)

text \<open>The contract of a component whose steps never panic on states that satisfy its invariant.\<close>

locale total_machine =
  fixes step :: "'e \<Rightarrow> 's \<Rightarrow> 's option"
    and inv :: "'s \<Rightarrow> bool"
    and ok :: "'e \<Rightarrow> bool"
  assumes step_total: "inv s \<Longrightarrow> ok e \<Longrightarrow> \<exists>s'. step e s = Some s' \<and> inv s'"
begin

lemma run_total:
  assumes "inv s" and "list_all ok es"
  shows "\<exists>s'. fold_opt step es s = Some s' \<and> inv s'"
  using assms
proof (induction es arbitrary: s)
  case (Cons e es)
  from Cons.prems have "inv s" "ok e" by simp_all
  from step_total [OF this] obtain s' where s': "step e s = Some s'" "inv s'" by blast
  from Cons.IH [OF s'(2)] Cons.prems s'(1) show ?case by simp
qed simp

lemma run_keeps_inv: "inv s \<Longrightarrow> list_all ok es \<Longrightarrow> fold_opt step es s = Some s' \<Longrightarrow> inv s'"
  using run_total by fastforce

lemma prefix_runs:
  "inv s \<Longrightarrow> list_all ok (es @ es') \<Longrightarrow> \<exists>t. fold_opt step es s = Some t \<and> inv t"
  using run_total by simp

end

subsection \<open>Hash maps as association lists\<close>

text \<open>\<open>iter_mut().find(P)\<close> and a change of what it finds.\<close>

fun update_first :: "('a \<Rightarrow> bool) \<Rightarrow> ('a \<Rightarrow> 'a) \<Rightarrow> 'a list \<Rightarrow> 'a list" where
  "update_first P f [] = []"
| "update_first P f (x # xs) = (if P x then f x # xs else x # update_first P f xs)"

text \<open>
  A \<open>HashMap\<close> or \<open>DashMap\<close> is an association list with distinct keys. The order of the list
  stands for the unspecified iteration order of the map: what is proved holds for every order.
\<close>

type_synonym ('k, 'v) amap = "('k \<times> 'v) list"

fun al_put :: "'k \<Rightarrow> 'v \<Rightarrow> ('k, 'v) amap \<Rightarrow> ('k, 'v) amap" where
  "al_put k v [] = [(k, v)]"
| "al_put k v ((k', v') # m) = (if k' = k then (k, v) # m else (k', v') # al_put k v m)"

definition al_del :: "'k \<Rightarrow> ('k, 'v) amap \<Rightarrow> ('k, 'v) amap" where
  "al_del k m = filter (\<lambda>(k', _). k' \<noteq> k) m"

definition al_keys :: "('k, 'v) amap \<Rightarrow> 'k list" where
  "al_keys m = map fst m"

definition al_wf :: "('k, 'v) amap \<Rightarrow> bool" where
  "al_wf m \<longleftrightarrow> distinct (map fst m)"

lemma map_of_al_put: "map_of (al_put k v m) = (map_of m)(k \<mapsto> v)"
  by (induction m) (auto simp: fun_eq_iff)

lemma set_keys_al_put: "fst ` set (al_put k v m) = insert k (fst ` set m)"
  by (induction k v m rule: al_put.induct) (simp_all add: insert_commute)

lemma al_wf_put: "al_wf m \<Longrightarrow> al_wf (al_put k v m)"
  by (induction m) (auto simp: al_wf_def set_keys_al_put)

lemma map_of_al_del: "map_of (al_del k m) = (map_of m)(k := None)"
  by (induction m) (auto simp: fun_eq_iff al_del_def)

lemma al_wf_filter: "al_wf m \<Longrightarrow> al_wf (filter P m)"
  by (simp add: al_wf_def distinct_map_filter)

lemma al_wf_del: "al_wf m \<Longrightarrow> al_wf (al_del k m)"
  by (simp add: al_del_def al_wf_filter)

lemma map_of_filter_kv:
  "al_wf m \<Longrightarrow> map_of (filter (\<lambda>(k, v). P k v) m) k =
     (case map_of m k of None \<Rightarrow> None | Some v \<Rightarrow> if P k v then Some v else None)"
proof (induction m)
  case (Cons kv m)
  obtain k' v' where kv: "kv = (k', v')" by fastforce
  from Cons.prems have wf: "al_wf m" and new: "k' \<notin> fst ` set m"
    by (auto simp: al_wf_def kv)
  from new have "map_of m k' = None" by (simp add: map_of_eq_None_iff)
  with Cons.IH [OF wf] show ?case by (auto simp: kv split: option.splits)
qed simp

lemma al_put_length: "length (al_put k v m) = (if k \<in> fst ` set m then length m else Suc (length m))"
  by (induction k v m rule: al_put.induct) simp_all

locale keyed_store =
  fixes put :: "'k \<Rightarrow> 'v \<Rightarrow> 'm \<Rightarrow> 'm"
    and del :: "'k \<Rightarrow> 'm \<Rightarrow> 'm"
    and look :: "'m \<Rightarrow> 'k \<Rightarrow> 'v option"
    and wf :: "'m \<Rightarrow> bool"
  assumes look_put: "wf m \<Longrightarrow> look (put k v m) k' = (if k' = k then Some v else look m k')"
    and look_del: "wf m \<Longrightarrow> look (del k m) k' = (if k' = k then None else look m k')"
    and wf_put: "wf m \<Longrightarrow> wf (put k v m)"
    and wf_del: "wf m \<Longrightarrow> wf (del k m)"
begin

lemma look_put_same: "wf m \<Longrightarrow> look (put k v m) k = Some v"
  by (simp add: look_put)

lemma look_put_other: "wf m \<Longrightarrow> k' \<noteq> k \<Longrightarrow> look (put k v m) k' = look m k'"
  by (simp add: look_put)

lemma look_del_same: "wf m \<Longrightarrow> look (del k m) k = None"
  by (simp add: look_del)

lemma look_del_put: "wf m \<Longrightarrow> look (del k (put k v m)) k' = look (del k m) k'"
  by (simp add: look_del look_put wf_put)

end

interpretation amap: keyed_store al_put al_del map_of al_wf
  by unfold_locales (auto simp: map_of_al_put map_of_al_del al_wf_put al_wf_del)

end
