(* ===== verification/VtData.thy ===== *)
theory VtData
  imports Prelude
begin

section \<open>The data of the server-side terminal\<close>

text \<open>
  \<open>src/src/vt_screen/data.rs\<close>: attributes, colours, cells, the cursor and the grid of one
  screen buffer, with its resize and scroll operations, plus the tracked private modes. A
  Rust panic (an index out of range, an arithmetic underflow) is \<open>None\<close>.
\<close>

subsection \<open>Types\<close>

datatype command_state = Idle | CommandStart | Executing

record command_result =
  cr_exit_code :: int
  cr_duration_ms :: nat
  cr_method :: string

text \<open>An \<open>Instant\<close> is a number of milliseconds on the monotonic clock.\<close>

record pending_command =
  pc_start_time :: nat
  pc_output_buf :: "u8 list"

datatype sync_event = SyncStart | SyncStop

datatype osc_action = Bell | Notify "rstring option" rstring

datatype mouse_protocol = MouseNone | X10 | MouseNormal | MouseButton | MouseAny

datatype mouse_encoding = EncDefault | Sgr | SgrPixels

record private_modes =
  pm_mouse :: mouse_protocol
  pm_encoding :: mouse_encoding
  pm_cursor_keys :: bool
  pm_keypad :: bool
  pm_bracketed_paste :: bool
  pm_focus_event :: bool

definition default_modes :: private_modes where
  "default_modes = \<lparr>pm_mouse = MouseNone, pm_encoding = EncDefault, pm_cursor_keys = False,
     pm_keypad = False, pm_bracketed_paste = False, pm_focus_event = False\<rparr>"

definition soft_reset :: "private_modes \<Rightarrow> private_modes" where
  "soft_reset m = m\<lparr>pm_cursor_keys := False, pm_keypad := False, pm_bracketed_paste := False,
     pm_focus_event := False\<rparr>"

datatype color = Indexed u8 | Rgb u8 u8 u8

record cell_attrs =
  at_fg :: "color option"
  at_bg :: "color option"
  at_bold :: bool
  at_dim :: bool
  at_italic :: bool
  at_underline :: bool
  at_inverse :: bool
  at_strikethrough :: bool

definition default_attrs :: cell_attrs where
  "default_attrs = \<lparr>at_fg = None, at_bg = None, at_bold = False, at_dim = False,
     at_italic = False, at_underline = False, at_inverse = False, at_strikethrough = False\<rparr>"

definition MAX_COMBINING :: nat where
  "MAX_COMBINING = 3"

text \<open>\<open>[char; MAX_COMBINING]\<close> and the number of its slots in use.\<close>

record cell =
  cl_ch :: rchar
  cl_combining :: "rchar list"
  cl_combining_len :: nat
  cl_attrs :: cell_attrs

definition mk_cell :: "rchar \<Rightarrow> cell_attrs \<Rightarrow> cell" where
  "mk_cell c a = \<lparr>cl_ch = c, cl_combining = replicate MAX_COMBINING 0, cl_combining_len = 0,
     cl_attrs = a\<rparr>"

definition SPACE :: rchar where
  "SPACE = 0x20"

definition default_cell :: cell where
  "default_cell = mk_cell SPACE default_attrs"

definition push_combining :: "rchar \<Rightarrow> cell \<Rightarrow> cell" where
  "push_combining c cl =
     (let n = cl_combining_len cl in
      if n < MAX_COMBINING
      then cl\<lparr>cl_combining := (cl_combining cl)[n := c], cl_combining_len := n + 1\<rparr>
      else cl)"

text \<open>\<open>Cell::write_to\<close>: what the cell appends to the output.\<close>

definition cell_text :: "cell \<Rightarrow> rstring" where
  "cell_text cl = cl_ch cl # take (cl_combining_len cl) (cl_combining cl)"

record cursor_state =
  cu_row :: nat
  cu_col :: nat
  cu_attrs :: cell_attrs

definition default_cursor :: cursor_state where
  "default_cursor = \<lparr>cu_row = 0, cu_col = 0, cu_attrs = default_attrs\<rparr>"

type_synonym row = "cell list"

record screen_buffer =
  sb_cells :: "row list"
  sb_cursor :: cursor_state
  sb_scroll_top :: nat
  sb_scroll_bottom :: nat
  sb_cols :: nat
  sb_rows :: nat

definition blank_line :: "nat \<Rightarrow> row" where
  "blank_line n = replicate n default_cell"

subsection \<open>The replay string of the private modes\<close>

definition ESC :: rstring where
  "ESC = [0x1b]"

text \<open>The bytes \<open>ESC [ ? n h\<close>.\<close>

definition decset :: "string \<Rightarrow> rstring" where
  "decset n = ESC @ lit ''[?'' @ lit n @ lit ''h''"

definition write_replay :: "private_modes \<Rightarrow> rstring" where
  "write_replay m =
     (case pm_encoding m of EncDefault \<Rightarrow> [] | Sgr \<Rightarrow> decset ''1006'' | SgrPixels \<Rightarrow> decset ''1016'') @
     (case pm_mouse m of MouseNone \<Rightarrow> [] | X10 \<Rightarrow> decset ''9'' | MouseNormal \<Rightarrow> decset ''1000''
        | MouseButton \<Rightarrow> decset ''1002'' | MouseAny \<Rightarrow> decset ''1003'') @
     (if pm_cursor_keys m then decset ''1'' else []) @
     (if pm_keypad m then decset ''66'' else []) @
     (if pm_bracketed_paste m then decset ''2004'' else [])"

subsection \<open>Which cells are blank\<close>

definition has_attrs :: "cell_attrs \<Rightarrow> bool" where
  "has_attrs a \<longleftrightarrow> at_fg a \<noteq> None \<or> at_bg a \<noteq> None \<or> at_bold a \<or> at_dim a \<or> at_italic a \<or>
     at_underline a \<or> at_inverse a \<or> at_strikethrough a"

definition blank_cell :: "cell \<Rightarrow> bool" where
  "blank_cell c \<longleftrightarrow> (cl_ch c = SPACE \<or> cl_ch c = 0) \<and> \<not> has_attrs (cl_attrs c)"

definition blank_row :: "row \<Rightarrow> bool" where
  "blank_row r \<longleftrightarrow> list_all blank_cell r"

subsection \<open>Operations of a screen buffer\<close>

text \<open>\<open>ScreenBuffer::new\<close>: \<open>rows - 1\<close> underflows for a screen of no rows.\<close>

definition new_buffer :: "nat \<Rightarrow> nat \<Rightarrow> screen_buffer option" where
  "new_buffer cols rows = do {
     bottom \<leftarrow> usize_sub rows 1;
     Some \<lparr>sb_cells = replicate rows (blank_line cols), sb_cursor = default_cursor,
       sb_scroll_top = 0, sb_scroll_bottom = bottom, sb_cols = cols, sb_rows = rows\<rparr>
   }"

text \<open>The scrollback ring: at most 10000 rows, the oldest dropped first.\<close>

definition SCROLLBACK_CAP :: nat where
  "SCROLLBACK_CAP = 10000"

definition push_scrollback :: "row \<Rightarrow> row list \<Rightarrow> row list" where
  "push_scrollback r sb =
     (let sb' = sb @ [r] in if length sb' > SCROLLBACK_CAP then tl sb' else sb')"

text \<open>
  \<open>ScreenBuffer::resize\<close>, in its two loops: blank rows below the cursor are popped, then rows
  that still do not fit leave from the top, into the scrollback when there is one.
\<close>

fun trim_blank :: "nat \<Rightarrow> nat \<Rightarrow> row list \<Rightarrow> nat \<times> row list" where
  "trim_blank 0 crow cells = (0, cells)"
| "trim_blank (Suc excess) crow cells =
     (if length cells > crow + 1 \<and> cells \<noteq> [] \<and> blank_row (last cells)
      then trim_blank excess crow (butlast cells)
      else (Suc excess, cells))"

fun evict_top :: "nat \<Rightarrow> row list \<Rightarrow> row list option \<Rightarrow> nat \<Rightarrow>
    (row list \<times> row list option \<times> nat) option" where
  "evict_top 0 cells sb crow = Some (cells, sb, crow)"
| "evict_top (Suc n) cells sb crow = do {
     (r, cells') \<leftarrow> vec_remove 0 cells;
     evict_top n cells' (map_option (push_scrollback r) sb) (crow - 1)
   }"

text \<open>The rows of the resized buffer, not yet of the new width, and the cursor's row.\<close>

definition resized_rows ::
    "nat \<Rightarrow> nat \<Rightarrow> screen_buffer \<Rightarrow> row list option \<Rightarrow> (row list \<times> row list option \<times> nat) option" where
  "resized_rows cols rows b scrollback =
     (let old_rows = length (sb_cells b); crow = cu_row (sb_cursor b)
      in if rows < old_rows then
           (case trim_blank (old_rows - rows) crow (sb_cells b) of
              (excess, cells') \<Rightarrow> evict_top excess cells' scrollback crow)
         else if rows > old_rows then
           Some (vec_resize rows (blank_line cols) (sb_cells b), scrollback, crow)
         else Some (sb_cells b, scrollback, crow))"

definition resize_buffer ::
    "nat \<Rightarrow> nat \<Rightarrow> screen_buffer \<Rightarrow> row list option \<Rightarrow> (screen_buffer \<times> row list option) option" where
  "resize_buffer cols rows b scrollback = do {
     let old_cols = (case sb_cells b of [] \<Rightarrow> 0 | r # _ \<Rightarrow> length r);
     (cells1, scrollback', crow1) \<leftarrow> resized_rows cols rows b scrollback;
     let cells2 = (if cols \<noteq> old_cols then map (vec_resize cols default_cell) cells1 else cells1);
     bottom \<leftarrow> usize_sub rows 1;
     crow2 \<leftarrow> (if crow1 \<ge> rows then usize_sub rows 1 else Some crow1);
     ccol2 \<leftarrow> (if cu_col (sb_cursor b) \<ge> cols then usize_sub cols 1 else Some (cu_col (sb_cursor b)));
     Some (b\<lparr>sb_cells := cells2, sb_cols := cols, sb_rows := rows, sb_scroll_top := 0,
              sb_scroll_bottom := bottom,
              sb_cursor := (sb_cursor b)\<lparr>cu_row := crow2, cu_col := ccol2\<rparr>\<rparr>, scrollback')
   }"

definition scroll_up :: "screen_buffer \<Rightarrow> row list \<Rightarrow> (screen_buffer \<times> row list) option" where
  "scroll_up b scrollback = do {
     (r, cells1) \<leftarrow> vec_remove (sb_scroll_top b) (sb_cells b);
     let scrollback' = (if sb_scroll_top b = 0 then push_scrollback r scrollback else scrollback);
     cells2 \<leftarrow> vec_insert (sb_scroll_bottom b) (blank_line (sb_cols b)) cells1;
     Some (b\<lparr>sb_cells := cells2\<rparr>, scrollback')
   }"

definition scroll_down :: "screen_buffer \<Rightarrow> screen_buffer option" where
  "scroll_down b = do {
     (r, cells1) \<leftarrow> vec_remove (sb_scroll_bottom b) (sb_cells b);
     cells2 \<leftarrow> vec_insert (sb_scroll_top b) (blank_line (sb_cols b)) cells1;
     Some (b\<lparr>sb_cells := cells2\<rparr>)
   }"

subsection \<open>The well-formedness invariant\<close>

definition cursor_ok :: "nat \<Rightarrow> nat \<Rightarrow> cursor_state \<Rightarrow> bool" where
  "cursor_ok cols rows c \<longleftrightarrow> cu_row c < rows \<and> cu_col c \<le> cols"

definition grid_ok :: "nat \<Rightarrow> nat \<Rightarrow> row list \<Rightarrow> bool" where
  "grid_ok cols rows g \<longleftrightarrow> length g = rows \<and> list_all (\<lambda>r. length r = cols) g"

text \<open>
  A buffer of \<open>rows \<times> cols\<close> cells, at least two columns wide so that a wide character fits,
  with the cursor (one column past the end is the pending-wrap position) and the scroll
  region inside it.
\<close>

definition buffer_wf :: "nat \<Rightarrow> nat \<Rightarrow> screen_buffer \<Rightarrow> bool" where
  "buffer_wf cols rows b \<longleftrightarrow> sb_cols b = cols \<and> sb_rows b = rows \<and> 2 \<le> cols \<and> 1 \<le> rows \<and>
     grid_ok cols rows (sb_cells b) \<and> cursor_ok cols rows (sb_cursor b) \<and>
     sb_scroll_top b < rows \<and> sb_scroll_bottom b < rows"

definition scrollback_ok :: "row list \<Rightarrow> bool" where
  "scrollback_ok sb \<longleftrightarrow> length sb \<le> SCROLLBACK_CAP"

declare cursor_ok_def [wf_defs] buffer_wf_def [wf_defs]

lemma grid_ok_length: "grid_ok cols rows g \<Longrightarrow> length g = rows"
  by (simp add: grid_ok_def)

lemma grid_ok_row: "grid_ok cols rows g \<Longrightarrow> i < rows \<Longrightarrow> length (g ! i) = cols"
  by (auto simp: grid_ok_def list_all_length)

lemma grid_ok_update [keeps]:
  "grid_ok cols rows g \<Longrightarrow> length r = cols \<Longrightarrow> grid_ok cols rows (g[i := r])"
  by (auto simp: grid_ok_def list_all_iff dest: set_update_subset_insert [THEN subsetD])

lemma length_blank_line [simp]: "length (blank_line n) = n"
  by (simp add: blank_line_def)

text \<open>Taking a row out of the grid and putting a blank one in, wherever, keeps its shape.\<close>

lemma grid_move:
  assumes "grid_ok cols rows g" and "i < rows" and "j < rows"
  shows "\<exists>r g1 g2. vec_remove i g = Some (r, g1) \<and> length r = cols \<and>
    vec_insert j (blank_line cols) g1 = Some g2 \<and> grid_ok cols rows g2"
proof -
  have len: "length g = rows" and rows: "\<And>r. r \<in> set g \<Longrightarrow> length r = cols"
    using assms(1) by (auto simp: grid_ok_def list_all_iff)
  define g1 where "g1 = take i g @ drop (Suc i) g"
  define g2 where "g2 = take j g1 @ blank_line cols # drop j g1"
  have len1: "length g1 = rows - 1" using len assms(2) by (simp add: g1_def)
  have rows1: "length r = cols" if "r \<in> set g1" for r
    using that rows by (auto simp: g1_def dest: in_set_takeD in_set_dropD)
  have len2: "length g2 = rows" using len1 assms(2) by (simp add: g2_def length_insert_nth)
  have "length r = cols" if "r \<in> set g2" for r
    using that rows1 by (auto simp: g2_def dest: in_set_takeD in_set_dropD)
  with len2 have "grid_ok cols rows g2" by (simp add: grid_ok_def list_all_iff)
  moreover have "vec_remove i g = Some (g ! i, g1)"
    using len assms(2) by (simp add: vec_remove_def g1_def)
  moreover have "vec_insert j (blank_line cols) g1 = Some g2"
    using len1 assms(3) by (simp add: vec_insert_def g2_def)
  moreover have "length (g ! i) = cols" using len rows assms(2) by simp
  ultimately show ?thesis by blast
qed

lemma scrollback_ok_push [keeps]: "scrollback_ok sb \<Longrightarrow> scrollback_ok (push_scrollback r sb)"
  by (auto simp: scrollback_ok_def push_scrollback_def Let_def SCROLLBACK_CAP_def)

lemma new_buffer_wf:
  assumes "2 \<le> cols" and "1 \<le> rows"
  shows "\<exists>b. new_buffer cols rows = Some b \<and> buffer_wf cols rows b"
  using assms
  by (simp add: new_buffer_def usize_sub_def wf_defs grid_ok_def default_cursor_def list_all_length)

lemma scroll_up_wf:
  assumes b: "buffer_wf cols rows b" and sb: "scrollback_ok sb"
  shows "\<exists>b' sb'. scroll_up b sb = Some (b', sb') \<and> buffer_wf cols rows b' \<and> scrollback_ok sb' \<and>
    sb_cursor b' = sb_cursor b \<and> sb_scroll_bottom b' = sb_scroll_bottom b"
proof -
  from b have "grid_ok cols rows (sb_cells b)" "sb_scroll_top b < rows" "sb_scroll_bottom b < rows"
    by (simp_all add: wf_defs)
  from grid_move [OF this] obtain r g1 g2 where
    "vec_remove (sb_scroll_top b) (sb_cells b) = Some (r, g1)"
    "vec_insert (sb_scroll_bottom b) (blank_line cols) g1 = Some g2" "grid_ok cols rows g2" by blast
  with b sb show ?thesis by (simp add: scroll_up_def wf_defs keeps)
qed

lemma scroll_down_wf:
  assumes b: "buffer_wf cols rows b"
  shows "\<exists>b'. scroll_down b = Some b' \<and> buffer_wf cols rows b' \<and> sb_cursor b' = sb_cursor b"
proof -
  from b have "grid_ok cols rows (sb_cells b)" "sb_scroll_bottom b < rows" "sb_scroll_top b < rows"
    by (simp_all add: wf_defs)
  from grid_move [OF this] obtain r g1 g2 where
    "vec_remove (sb_scroll_bottom b) (sb_cells b) = Some (r, g1)"
    "vec_insert (sb_scroll_top b) (blank_line cols) g1 = Some g2" "grid_ok cols rows g2" by blast
  with b show ?thesis by (simp add: scroll_down_def wf_defs)
qed

end
