(* ===== verification/VtRender.thy ===== *)
theory VtRender
  imports VtData
begin

section \<open>Rendering a buffer to escape sequences\<close>

text \<open>
  \<open>src/src/vt_screen/render.rs\<close>: the text a client replays to repaint a buffer. Rows are
  addressed absolutely, attributes are emitted when they change, and the scroll region and the
  cursor are restored last.
\<close>

text \<open>\<open>join\<close> of a list of strings with a separator.\<close>

fun join :: "rstring \<Rightarrow> rstring list \<Rightarrow> rstring" where
  "join sep [] = []"
| "join sep [s] = s"
| "join sep (s # t # ss) = s @ sep @ join sep (t # ss)"

fun color_eq :: "color option \<Rightarrow> color option \<Rightarrow> bool" where
  "color_eq None None = True"
| "color_eq (Some (Indexed x)) (Some (Indexed y)) = (x = y)"
| "color_eq (Some (Rgb r1 g1 b1)) (Some (Rgb r2 g2 b2)) = (r1 = r2 \<and> g1 = g2 \<and> b1 = b2)"
| "color_eq _ _ = False"

definition attrs_eq :: "cell_attrs \<Rightarrow> cell_attrs \<Rightarrow> bool" where
  "attrs_eq a b \<longleftrightarrow> color_eq (at_fg a) (at_fg b) \<and> color_eq (at_bg a) (at_bg b) \<and>
     at_bold a = at_bold b \<and> at_dim a = at_dim b \<and> at_italic a = at_italic b \<and>
     at_underline a = at_underline b \<and> at_inverse a = at_inverse b \<and>
     at_strikethrough a = at_strikethrough b"

text \<open>
  The parameters of one colour. \<open>lo\<close>, \<open>hi\<close> and \<open>ext\<close> are 30, 90 and 38 for the foreground,
  40, 100 and 48 for the background. Each of these sums is computed in \<open>u8\<close>; none overflows,
  since \<open>c < 8\<close> or \<open>8 \<le> c < 16\<close> there.
\<close>

fun color_params :: "nat \<Rightarrow> nat \<Rightarrow> string \<Rightarrow> color option \<Rightarrow> rstring list" where
  "color_params lo hi ext (Some (Indexed c)) =
     (if unat c < 8 then [dec (lo + unat c)]
      else if unat c < 16 then [dec (hi + unat c - 8)]
      else [lit ext @ lit '';5;'' @ dec (unat c)])"
| "color_params lo hi ext (Some (Rgb r g b)) =
     [lit ext @ lit '';2;'' @ dec (unat r) @ lit '';'' @ dec (unat g) @ lit '';'' @ dec (unat b)]"
| "color_params lo hi ext None = []"

definition sgr_param_strings :: "cell_attrs \<Rightarrow> rstring list" where
  "sgr_param_strings a =
     [lit ''0''] @
     (if at_bold a then [lit ''1''] else []) @
     (if at_dim a then [lit ''2''] else []) @
     (if at_italic a then [lit ''3''] else []) @
     (if at_underline a then [lit ''4''] else []) @
     (if at_inverse a then [lit ''7''] else []) @
     (if at_strikethrough a then [lit ''9''] else []) @
     color_params 30 90 ''38'' (at_fg a) @
     color_params 40 100 ''48'' (at_bg a)"

definition encode_sgr :: "cell_attrs \<Rightarrow> rstring" where
  "encode_sgr a = ESC @ lit ''['' @ join (lit '';'') (sgr_param_strings a) @ lit ''m''"

definition sgr_reset :: rstring where
  "sgr_reset = ESC @ lit ''[0m''"

text \<open>\<open>rposition(..).map_or(0, |i| i + 1)\<close>: one past the last cell that satisfies \<open>P\<close>.\<close>

definition last_content :: "('a \<Rightarrow> bool) \<Rightarrow> 'a list \<Rightarrow> nat" where
  "last_content P r = length (rev (dropWhile (\<lambda>c. \<not> P c) (rev r)))"

definition visible_cell :: "cell \<Rightarrow> bool" where
  "visible_cell c \<longleftrightarrow> (cl_ch c \<noteq> SPACE \<and> cl_ch c \<noteq> 0) \<or> has_attrs (cl_attrs c)"

text \<open>
  The cells of one row. The second component is \<open>prev_attrs\<close>, which the caller carries along;
  the right half of a wide character (\<open>'\0'\<close>) emits nothing.
\<close>

fun render_cells :: "row \<Rightarrow> cell_attrs \<Rightarrow> rstring \<times> cell_attrs" where
  "render_cells [] prev = ([], prev)"
| "render_cells (c # cs) prev =
     (if cl_ch c = 0 then render_cells cs prev
      else
        (let sgr = (if \<not> attrs_eq (cl_attrs c) prev then encode_sgr (cl_attrs c) else []);
             prev' = (if \<not> attrs_eq (cl_attrs c) prev then cl_attrs c else prev);
             (rest, prev'') = render_cells cs prev'
         in (sgr @ cell_text c @ rest, prev'')))"

text \<open>One row up to its last content, then a reset if attributes are still on.\<close>

definition render_line :: "row \<Rightarrow> cell_attrs \<Rightarrow> rstring \<times> cell_attrs" where
  "render_line r prev =
     (let (out, prev') = render_cells (take (last_content visible_cell r) r) prev
      in if has_attrs prev' then (out @ sgr_reset, default_attrs) else (out, prev'))"

definition goto_row :: "nat \<Rightarrow> rstring" where
  "goto_row i = ESC @ lit ''['' @ dec (i + 1) @ lit '';1H'' @ ESC @ lit ''[2K''"

fun render_rows :: "nat \<Rightarrow> row list \<Rightarrow> cell_attrs \<Rightarrow> rstring" where
  "render_rows i [] prev = []"
| "render_rows i (r # rs) prev =
     (let (out, prev') = render_line r prev
      in goto_row i @ out @ render_rows (i + 1) rs prev')"

definition render_buffer :: "screen_buffer \<Rightarrow> rstring" where
  "render_buffer b = render_rows 0 (sb_cells b) default_attrs @ sgr_reset"

text \<open>\<open>buf.rows - 1\<close> underflows on a buffer of no rows, as in the code.\<close>

definition restore_cursor_state :: "screen_buffer \<Rightarrow> rstring option" where
  "restore_cursor_state b = do {
     bottom \<leftarrow> (if sb_scroll_top b \<noteq> 0 then Some (sb_scroll_bottom b) else usize_sub (sb_rows b) 1);
     Some ((if sb_scroll_top b \<noteq> 0 \<or> sb_scroll_bottom b \<noteq> bottom
            then ESC @ lit ''['' @ dec (sb_scroll_top b + 1) @ lit '';'' @ dec (sb_scroll_bottom b + 1) @ lit ''r''
            else []) @
           ESC @ lit ''['' @ dec (cu_row (sb_cursor b) + 1) @ lit '';'' @ dec (cu_col (sb_cursor b) + 1) @ lit ''H'')
   }"

subsection \<open>Facts about rendering\<close>

text \<open>\<open>attrs_eq\<close>, field by field, is equality.\<close>

lemma color_eq_iff: "color_eq a b \<longleftrightarrow> a = b"
  by (cases "(a, b)" rule: color_eq.cases) auto

lemma attrs_eq_iff: "attrs_eq a b \<longleftrightarrow> a = b"
  by (cases a; cases b) (auto simp: attrs_eq_def color_eq_iff)

lemma has_attrs_iff: "has_attrs a \<longleftrightarrow> a \<noteq> default_attrs"
  by (cases a) (auto simp: has_attrs_def default_attrs_def)

lemma visible_cell_iff: "visible_cell c \<longleftrightarrow> \<not> blank_cell c"
  by (auto simp: visible_cell_def blank_cell_def)

lemma last_content_le: "last_content P r \<le> length r"
  by (simp add: last_content_def) (metis length_dropWhile_le length_rev)

text \<open>Nothing that satisfies \<open>P\<close> lies past the last content.\<close>

lemma drop_last_content: "c \<in> set (drop (last_content P r) r) \<Longrightarrow> \<not> P c"
proof -
  let ?d = "dropWhile (\<lambda>c. \<not> P c) (rev r)" and ?t = "takeWhile (\<lambda>c. \<not> P c) (rev r)"
  have "rev r = ?t @ ?d" by simp
  then have "r = rev ?d @ rev ?t" by (metis rev_append rev_rev_ident)
  then have "drop (last_content P r) r = rev ?t"
    by (metis append_eq_conv_conj last_content_def)
  then show "c \<in> set (drop (last_content P r) r) \<Longrightarrow> \<not> P c"
    by (metis set_rev set_takeWhileD)
qed

text \<open>Every rendered line leaves the attributes reset, so lines are independent of one another.\<close>

lemma render_line_reset: "snd (render_line r prev) = default_attrs"
  by (auto simp: render_line_def has_attrs_iff split: prod.splits)

lemma restore_cursor_state_total: "1 \<le> sb_rows b \<Longrightarrow> \<exists>s. restore_cursor_state b = Some s"
  by (simp add: restore_cursor_state_def usize_sub_def)

end
