(* ===== verification/Utf8.thy ===== *)
theory Utf8
  imports Prelude
begin

section \<open>UTF-8 text as the code slices and decodes it\<close>

text \<open>
  The parts of the standard library's \<open>str\<close> that the terminal and the session rely on:
  byte offsets into a string, character boundaries, slicing at a byte offset (which panics off
  a boundary), lossy and strict decoding of bytes, and \<open>str::parse::<i32>\<close>. Strings are lists
  of code points; \<open>byte_len\<close> is what \<open>str::len\<close> returns.
\<close>

subsection \<open>Boundaries and slices\<close>

fun is_char_boundary :: "rstring \<Rightarrow> nat \<Rightarrow> bool" where
  "is_char_boundary [] i = (i = 0)"
| "is_char_boundary (c # s) i =
     (i = 0 \<or> (utf8_len c \<le> i \<and> is_char_boundary s (i - utf8_len c)))"

text \<open>\<open>&s[..i]\<close> and \<open>&s[i..]\<close> together: \<open>None\<close> when \<open>i\<close> is not a boundary.\<close>

fun split_bytes :: "nat \<Rightarrow> rstring \<Rightarrow> (rstring \<times> rstring) option" where
  "split_bytes i [] = (if i = 0 then Some ([], []) else None)"
| "split_bytes i (c # s) =
     (if i = 0 then Some ([], c # s)
      else if utf8_len c \<le> i
      then map_option (\<lambda>(a, b). (c # a, b)) (split_bytes (i - utf8_len c) s)
      else None)"

text \<open>\<open>while end > lo && !s.is_char_boundary(end) { end -= 1 }\<close>, with \<open>fuel = end - lo\<close>.\<close>

fun back_off :: "rstring \<Rightarrow> nat \<Rightarrow> nat \<Rightarrow> nat" where
  "back_off s lo 0 = lo"
| "back_off s lo (Suc n) =
     (if is_char_boundary s (lo + Suc n) then lo + Suc n else back_off s lo n)"

lemma split_bytes_boundary: "is_char_boundary s i \<longleftrightarrow> (\<exists>a b. split_bytes i s = Some (a, b))"
proof (induction s arbitrary: i)
  case (Cons c s)
  show ?case using Cons.IH [of "i - utf8_len c"] by (auto simp: split: option.splits)
qed auto

lemma split_bytes_Some: "split_bytes i s = Some (a, b) \<Longrightarrow> s = a @ b \<and> byte_len a = i"
proof (induction s arbitrary: i a)
  case (Cons c s)
  show ?case
  proof (cases "i = 0")
    case False
    with Cons.prems obtain a' where "utf8_len c \<le> i" "a = c # a'"
      "split_bytes (i - utf8_len c) s = Some (a', b)" by (auto split: if_splits)
    with Cons.IH show ?thesis by fastforce
  qed (use Cons.prems in simp)
qed (auto split: if_splits)

lemma split_bytes_append [simp]: "split_bytes (byte_len a) (a @ b) = Some (a, b)"
proof (induction a)
  case Nil
  show ?case by (cases b) auto
next
  case (Cons c a)
  then show ?case using utf8_len_bounds(1) [of c] by simp
qed

lemma boundary_iff_prefix: "is_char_boundary s i \<longleftrightarrow> (\<exists>a b. s = a @ b \<and> byte_len a = i)"
proof
  assume "is_char_boundary s i"
  then show "\<exists>a b. s = a @ b \<and> byte_len a = i"
    unfolding split_bytes_boundary using split_bytes_Some by blast
next
  assume "\<exists>a b. s = a @ b \<and> byte_len a = i"
  then show "is_char_boundary s i"
    unfolding split_bytes_boundary using split_bytes_append by blast
qed

lemma boundary_0 [simp]: "is_char_boundary s 0"
  by (cases s) auto

lemma boundary_len [simp]: "is_char_boundary s (byte_len s)"
  unfolding boundary_iff_prefix by (rule exI [of _ s], rule exI [of _ "[]"]) simp

lemma back_off_boundary: "is_char_boundary s lo \<Longrightarrow> is_char_boundary s (back_off s lo n)"
  by (induction n) auto

lemma back_off_bounds: "lo \<le> back_off s lo n \<and> back_off s lo n \<le> lo + n"
  by (induction n) auto

text \<open>It stops at the last boundary of the range.\<close>

lemma back_off_greatest:
  "is_char_boundary s i \<Longrightarrow> lo \<le> i \<Longrightarrow> i \<le> lo + n \<Longrightarrow> i \<le> back_off s lo n"
proof (induction n)
  case (Suc n)
  show ?case
  proof (cases "i = lo + Suc n")
    case False
    with Suc show ?thesis by auto
  qed (use Suc.prems in simp)
qed simp

text \<open>A window of at least four bytes always holds a boundary past its start.\<close>

lemma back_off_progress:
  assumes lo: "is_char_boundary s lo" and n: "4 \<le> n" and len: "lo < byte_len s"
  shows "lo < back_off s lo n"
proof -
  from lo obtain a b where s: "s = a @ b" "byte_len a = lo" by (auto simp: boundary_iff_prefix)
  with len obtain c b' where b: "b = c # b'" by (cases b) auto
  have "is_char_boundary s (lo + utf8_len c)"
    unfolding boundary_iff_prefix
    by (rule exI [of _ "a @ [c]"], rule exI [of _ b']) (simp add: s b)
  with n utf8_len_bounds [of c] have "lo + utf8_len c \<le> back_off s lo n"
    by (intro back_off_greatest) auto
  with utf8_len_bounds(1) [of c] show ?thesis by simp
qed

subsection \<open>Decoding bytes\<close>

definition REPLACEMENT :: rchar where
  "REPLACEMENT = 0xFFFD"

definition is_cont :: "nat \<Rightarrow> bool" where
  "is_cont b \<longleftrightarrow> 0x80 \<le> b \<and> b < 0xC0"

text \<open>How many continuation bytes a lead byte wants; 0 for a byte that cannot lead.\<close>

definition conts_of :: "nat \<Rightarrow> nat" where
  "conts_of b = (if 0xC2 \<le> b \<and> b \<le> 0xDF then 1 else if 0xE0 \<le> b \<and> b \<le> 0xEF then 2
     else if 0xF0 \<le> b \<and> b \<le> 0xF4 then 3 else 0)"

text \<open>The second byte also excludes overlong forms, surrogates and values past \<open>U+10FFFF\<close>.\<close>

definition second_ok :: "nat \<Rightarrow> nat \<Rightarrow> bool" where
  "second_ok lead b \<longleftrightarrow> is_cont b \<and> (lead = 0xE0 \<longrightarrow> 0xA0 \<le> b) \<and> (lead = 0xED \<longrightarrow> b < 0xA0) \<and>
     (lead = 0xF0 \<longrightarrow> 0x90 \<le> b) \<and> (lead = 0xF4 \<longrightarrow> b < 0x90)"

definition lead_bits :: "nat \<Rightarrow> nat" where
  "lead_bits b = (if b < 0xE0 then b - 0xC0 else if b < 0xF0 then b - 0xE0 else b - 0xF0)"

text \<open>Collect \<open>k\<close> continuation bytes: the character when all are there, and the rest.\<close>

fun take_conts :: "nat \<Rightarrow> nat \<Rightarrow> nat list \<Rightarrow> rchar option \<times> nat list" where
  "take_conts 0 acc bs = (Some acc, bs)"
| "take_conts (Suc k) acc [] = (None, [])"
| "take_conts (Suc k) acc (b # bs) =
     (if is_cont b then take_conts k (acc * 64 + (b - 0x80)) bs else (None, b # bs))"

text \<open>
  One step of decoding: a character, or \<open>None\<close> for a maximal ill-formed prefix (which
  \<open>from_utf8_lossy\<close> turns into one \<open>U+FFFD\<close>), and the remaining bytes.
\<close>

fun decode_step :: "nat \<Rightarrow> nat list \<Rightarrow> rchar option \<times> nat list" where
  "decode_step b bs =
     (if b < 0x80 then (Some b, bs)
      else case conts_of b of
        0 \<Rightarrow> (None, bs)
      | Suc k \<Rightarrow>
          (case bs of
             [] \<Rightarrow> (None, [])
           | b2 # bs' \<Rightarrow>
               if second_ok b b2 then take_conts k (lead_bits b * 64 + (b2 - 0x80)) bs'
               else (None, bs)))"

lemma take_conts_length: "length (snd (take_conts k acc bs)) \<le> length bs"
  by (induction k acc bs rule: take_conts.induct) auto

lemma decode_step_length: "length (snd (decode_step b bs)) \<le> length bs"
proof (cases bs)
  case (Cons b2 bs')
  then show ?thesis
    using take_conts_length [of "conts_of b - 1" "lead_bits b * 64 + (b2 - 0x80)" bs']
    by (auto split: nat.splits intro: le_SucI)
qed (auto split: nat.splits)

function decode_bytes :: "nat list \<Rightarrow> rchar option list" where
  "decode_bytes [] = []"
| "decode_bytes (b # bs) = (let (c, bs') = decode_step b bs in c # decode_bytes bs')"
  by pat_completeness auto
termination
proof (relation "measure length")
  fix b :: nat and bs x c bs'
  assume "x = decode_step b bs" "(c, bs') = x"
  then have "snd (decode_step b bs) = bs'" by (metis snd_conv)
  then show "(bs', b # bs) \<in> measure length" using decode_step_length [of b bs] by auto
qed simp

definition from_utf8_lossy :: "u8 list \<Rightarrow> rstring" where
  "from_utf8_lossy bs =
     map (\<lambda>c. case c of None \<Rightarrow> REPLACEMENT | Some c \<Rightarrow> c) (decode_bytes (map unat bs))"

definition from_utf8 :: "u8 list \<Rightarrow> rstring option" where
  "from_utf8 bs = those (decode_bytes (map unat bs))"

subsection \<open>Parsing an i32\<close>

definition is_digit :: "rchar \<Rightarrow> bool" where
  "is_digit c \<longleftrightarrow> 48 \<le> c \<and> c \<le> 57"

definition parse_digits :: "rstring \<Rightarrow> nat option" where
  "parse_digits s = (if s \<noteq> [] \<and> list_all is_digit s then Some (undec s) else None)"

text \<open>\<open>str::parse::<i32>\<close>: an optional sign, at least one digit, and the value in range.\<close>

definition parse_i32 :: "rstring \<Rightarrow> int option" where
  "parse_i32 s =
     (let (neg, body) = (case s of [] \<Rightarrow> (False, [])
        | c # r \<Rightarrow> if c = of_char CHR ''-'' then (True, r) else if c = of_char CHR ''+'' then (False, r)
                  else (False, s))
      in case parse_digits body of
           None \<Rightarrow> None
         | Some n \<Rightarrow>
             let v = (if neg then - int n else int n)
             in if - (2 ^ 31) \<le> v \<and> v < 2 ^ 31 then Some v else None)"

end
