(* ===== verification/VtPerformer.thy ===== *)
theory VtPerformer
  imports VtRender Utf8
begin

section \<open>Applying parsed sequences to the screen\<close>

text \<open>
  \<open>src/src/vt_screen/performer.rs\<close>: what each callback of the \<open>vte\<close> parser does to the
  screen, the command tracking, the notifications and the private modes. The parser is not
  part of the repository: its callbacks are the constructors of \<open>vte_action\<close>, and the width
  table of the crate \<open>unicode_width\<close> is the parameter \<open>width\<close> of what uses it.
\<close>

subsection \<open>Notification payloads\<close>

definition TRUNC_MAX :: nat where
  "TRUNC_MAX = 4 * 1024"

text \<open>The slice panics off a character boundary; the loop makes sure it is on one.\<close>

definition truncate_utf8 :: "rstring \<Rightarrow> rstring option" where
  "truncate_utf8 s =
     (if byte_len s \<le> TRUNC_MAX then Some s
      else map_option fst (split_bytes (back_off s 0 TRUNC_MAX) s))"

lemma truncate_utf8_spec:
  "\<exists>t rest. truncate_utf8 s = Some t \<and> s = t @ rest \<and> byte_len t \<le> TRUNC_MAX \<and>
     (\<forall>t'. (\<exists>r'. s = t' @ r') \<and> byte_len t' \<le> TRUNC_MAX \<longrightarrow> byte_len t' \<le> byte_len t)"
proof (cases "byte_len s \<le> TRUNC_MAX")
  case True
  then show ?thesis by (auto simp: truncate_utf8_def)
next
  case False
  let ?e = "back_off s 0 TRUNC_MAX"
  have "is_char_boundary s ?e" by (simp add: back_off_boundary)
  then obtain t rest where sp: "split_bytes ?e s = Some (t, rest)"
    unfolding split_bytes_boundary by blast
  from split_bytes_Some [OF sp] have t: "s = t @ rest" "byte_len t = ?e" by simp_all
  moreover have "?e \<le> TRUNC_MAX" using back_off_bounds [of 0 s TRUNC_MAX] by simp
  moreover have "byte_len t' \<le> ?e" if "s = t' @ r'" "byte_len t' \<le> TRUNC_MAX" for t' r'
    using that by (intro back_off_greatest) (auto simp: boundary_iff_prefix)
  ultimately show ?thesis using False sp by (auto simp: truncate_utf8_def)
qed

subsection \<open>The performer and the parser's callbacks\<close>

record performer =
  pf_screen :: screen_buffer
  pf_scrollback :: "row list"
  pf_saved_cursor :: "cursor_state option"
  pf_pending_switch :: "bool option"
  pf_using_alternate :: bool
  pf_command_state :: command_state
  pf_pending_command :: "pending_command option"
  pf_command_results :: "command_result list"
  pf_sync_events :: "sync_event list"
  pf_osc_actions :: "osc_action list"
  pf_private_modes :: private_modes

datatype vte_action =
    VPrint rchar
  | VExecute u8
  | VHook
  | VPut u8
  | VUnhook
  | VOsc "u8 list list" bool
  | VCsi "u16 list list" "u8 list" bool char
  | VEsc "u8 list" bool u8

definition bytes_lit :: "string \<Rightarrow> u8 list" where
  "bytes_lit s = map of_char s"

definition set_cursor :: "nat \<Rightarrow> nat \<Rightarrow> screen_buffer \<Rightarrow> screen_buffer" where
  "set_cursor r c b = b\<lparr>sb_cursor := (sb_cursor b)\<lparr>cu_row := r, cu_col := c\<rparr>\<rparr>"

abbreviation crow :: "screen_buffer \<Rightarrow> nat" where "crow b \<equiv> cu_row (sb_cursor b)"
abbreviation ccol :: "screen_buffer \<Rightarrow> nat" where "ccol b \<equiv> cu_col (sb_cursor b)"

subsection \<open>Printing\<close>

text \<open>\<open>cursor.row += 1\<close>, or a scroll when that leaves the scroll region at the bottom.\<close>

definition line_feed :: "screen_buffer \<times> row list \<Rightarrow> (screen_buffer \<times> row list) option" where
  "line_feed = (\<lambda>(b, sb).
     (let b1 = set_cursor (crow b + 1) (ccol b) b
      in if crow b1 > sb_scroll_bottom b1
         then scroll_up (set_cursor (sb_scroll_bottom b1) (ccol b1) b1) sb
         else Some (b1, sb)))"

text \<open>The wrap to the next line: column 0, then the line feed.\<close>

definition line_wrap :: "screen_buffer \<times> row list \<Rightarrow> (screen_buffer \<times> row list) option" where
  "line_wrap = (\<lambda>(b, sb). line_feed (set_cursor (crow b) 0 b, sb))"

definition set_cell :: "nat \<Rightarrow> nat \<Rightarrow> cell \<Rightarrow> row list \<Rightarrow> row list option" where
  "set_cell r c x g = do { rw \<leftarrow> vec_get g r; rw' \<leftarrow> vec_set rw c x; vec_set g r rw' }"

definition get_cell :: "nat \<Rightarrow> nat \<Rightarrow> row list \<Rightarrow> cell option" where
  "get_cell r c g = do { rw \<leftarrow> vec_get g r; vec_get rw c }"

text \<open>A zero-width character joins the cell before the cursor.\<close>

definition print_combining :: "rchar \<Rightarrow> screen_buffer \<Rightarrow> screen_buffer option" where
  "print_combining ch b =
     (if crow b < sb_rows b \<and> ccol b > 0 then do {
        prev \<leftarrow> get_cell (crow b) (ccol b - 1) (sb_cells b);
        if cl_ch prev \<noteq> SPACE \<and> cl_ch prev \<noteq> 0
        then do {
          g \<leftarrow> set_cell (crow b) (ccol b - 1) (push_combining ch prev) (sb_cells b);
          Some (b\<lparr>sb_cells := g\<rparr>)
        }
        else Some b
      } else Some b)"

text \<open>The cell at the cursor, with the halves of wide characters it breaks cleared.\<close>

definition put_cell :: "(rchar \<Rightarrow> nat option) \<Rightarrow> nat \<Rightarrow> rchar \<Rightarrow> screen_buffer \<Rightarrow> screen_buffer option" where
  "put_cell width w ch b = do {
     let r = crow b; let c = ccol b; let a = cu_attrs (sb_cursor b);
     old \<leftarrow> map_option cl_ch (get_cell r c (sb_cells b));
     g1 \<leftarrow> (if old = 0 \<and> c > 0 then set_cell r (c - 1) default_cell (sb_cells b) else Some (sb_cells b));
     g2 \<leftarrow> (if old \<noteq> 0 \<and> old \<noteq> SPACE \<and> width old = Some 2 \<and> c + 1 < sb_cols b
            then set_cell r (c + 1) default_cell g1 else Some g1);
     g3 \<leftarrow> set_cell r c (mk_cell ch a) g2;
     g4 \<leftarrow> (if w = 2 \<and> c + 1 < sb_cols b then set_cell r (c + 1) (mk_cell 0 a) g3 else Some g3);
     Some (b\<lparr>sb_cells := g4\<rparr>)
   }"

definition print_screen ::
    "(rchar \<Rightarrow> nat option) \<Rightarrow> rchar \<Rightarrow> screen_buffer \<times> row list \<Rightarrow> (screen_buffer \<times> row list) option" where
  "print_screen width ch = (\<lambda>(b, sb).
     (let w = (case width ch of None \<Rightarrow> 0 | Some n \<Rightarrow> n)
      in if w = 0 then map_option (\<lambda>b'. (b', sb)) (print_combining ch b)
         else do {
           (b1, sb1) \<leftarrow> (if ccol b \<ge> sb_cols b then line_wrap (b, sb) else Some (b, sb));
           (b2, sb2) \<leftarrow> (if w = 2 \<and> ccol b1 + 1 \<ge> sb_cols b1 then line_wrap (b1, sb1) else Some (b1, sb1));
           b3 \<leftarrow> (if crow b2 < sb_rows b2 \<and> ccol b2 < sb_cols b2 then put_cell width w ch b2 else Some b2);
           Some (set_cursor (crow b3) (ccol b3 + w) b3, sb2)
         }))"

subsection \<open>Control characters\<close>

definition tab_stop :: "screen_buffer \<Rightarrow> screen_buffer option" where
  "tab_stop b =
     (let c = (ccol b div 8 + 1) * 8
      in if c \<ge> sb_cols b
         then map_option (\<lambda>c'. set_cursor (crow b) c' b) (usize_sub (sb_cols b) 1)
         else Some (set_cursor (crow b) c b))"

definition perf_execute :: "u8 \<Rightarrow> performer \<Rightarrow> performer option" where
  "perf_execute byte p =
     (let b = pf_screen p; n = unat byte
      in if n = 0x08 \<and> ccol b > 0 then Some (p\<lparr>pf_screen := set_cursor (crow b) (ccol b - 1) b\<rparr>)
         else if n = 0x09 then map_option (\<lambda>b'. p\<lparr>pf_screen := b'\<rparr>) (tab_stop b)
         else if 0x0A \<le> n \<and> n \<le> 0x0C then
           map_option (\<lambda>(b', sb'). p\<lparr>pf_screen := b', pf_scrollback := sb'\<rparr>) (line_feed (b, pf_scrollback p))
         else if n = 0x0D then Some (p\<lparr>pf_screen := set_cursor (crow b) 0 b\<rparr>)
         else if n = 0x07 then Some (p\<lparr>pf_osc_actions := pf_osc_actions p @ [Bell]\<rparr>)
         else Some p)"

subsection \<open>Private modes: CSI ? Ps h and CSI ? Ps l\<close>

text \<open>\<open>pending_switch\<close> asks for the alternate screen; \<open>feed\<close> acts on it after the byte.\<close>

definition decset_step :: "u16 \<Rightarrow> performer \<Rightarrow> performer" where
  "decset_step w p =
     (let n = unat w; m = pf_private_modes p
      in if n = 1 then p\<lparr>pf_private_modes := m\<lparr>pm_cursor_keys := True\<rparr>\<rparr>
         else if n = 9 then p\<lparr>pf_private_modes := m\<lparr>pm_mouse := X10\<rparr>\<rparr>
         else if n = 47 \<or> n = 1047 \<or> n = 1049 then p\<lparr>pf_pending_switch := Some True\<rparr>
         else if n = 66 then p\<lparr>pf_private_modes := m\<lparr>pm_keypad := True\<rparr>\<rparr>
         else if n = 1000 then p\<lparr>pf_private_modes := m\<lparr>pm_mouse := MouseNormal\<rparr>\<rparr>
         else if n = 1002 then p\<lparr>pf_private_modes := m\<lparr>pm_mouse := MouseButton\<rparr>\<rparr>
         else if n = 1003 then p\<lparr>pf_private_modes := m\<lparr>pm_mouse := MouseAny\<rparr>\<rparr>
         else if n = 1004 then p\<lparr>pf_private_modes := m\<lparr>pm_focus_event := True\<rparr>\<rparr>
         else if n = 1006 then p\<lparr>pf_private_modes := m\<lparr>pm_encoding := Sgr\<rparr>\<rparr>
         else if n = 1016 then p\<lparr>pf_private_modes := m\<lparr>pm_encoding := SgrPixels\<rparr>\<rparr>
         else if n = 2004 then p\<lparr>pf_private_modes := m\<lparr>pm_bracketed_paste := True\<rparr>\<rparr>
         else if n = 2026 then p\<lparr>pf_sync_events := pf_sync_events p @ [SyncStart]\<rparr>
         else p)"

definition decrst_step :: "u16 \<Rightarrow> performer \<Rightarrow> performer" where
  "decrst_step w p =
     (let n = unat w; m = pf_private_modes p
      in if n = 1 then p\<lparr>pf_private_modes := m\<lparr>pm_cursor_keys := False\<rparr>\<rparr>
         else if n = 9 \<or> n = 1000 \<or> n = 1002 \<or> n = 1003 then
           p\<lparr>pf_private_modes := m\<lparr>pm_mouse := MouseNone\<rparr>\<rparr>
         else if n = 47 \<or> n = 1047 \<or> n = 1049 then p\<lparr>pf_pending_switch := Some False\<rparr>
         else if n = 66 then p\<lparr>pf_private_modes := m\<lparr>pm_keypad := False\<rparr>\<rparr>
         else if n = 1004 then p\<lparr>pf_private_modes := m\<lparr>pm_focus_event := False\<rparr>\<rparr>
         else if n = 1006 \<or> n = 1016 then p\<lparr>pf_private_modes := m\<lparr>pm_encoding := EncDefault\<rparr>\<rparr>
         else if n = 2004 then p\<lparr>pf_private_modes := m\<lparr>pm_bracketed_paste := False\<rparr>\<rparr>
         else if n = 2026 then p\<lparr>pf_sync_events := pf_sync_events p @ [SyncStop]\<rparr>
         else p)"

subsection \<open>Standard CSI sequences\<close>

text \<open>\<open>if p0 == 0 { 1 } else { p0 }\<close>.\<close>

definition or_one :: "nat \<Rightarrow> nat" where
  "or_one n = (if n = 0 then 1 else n)"

definition csi_cursor_up :: "nat \<Rightarrow> screen_buffer \<Rightarrow> screen_buffer option" where
  "csi_cursor_up p0 b = Some (set_cursor (crow b - or_one p0) (ccol b) b)"

definition csi_cursor_down :: "nat \<Rightarrow> screen_buffer \<Rightarrow> screen_buffer option" where
  "csi_cursor_down p0 b = do {
     m \<leftarrow> usize_sub (sb_rows b) 1;
     Some (set_cursor (min (crow b + or_one p0) m) (ccol b) b) }"

definition csi_cursor_forward :: "nat \<Rightarrow> screen_buffer \<Rightarrow> screen_buffer option" where
  "csi_cursor_forward p0 b = do {
     m \<leftarrow> usize_sub (sb_cols b) 1;
     Some (set_cursor (crow b) (min (ccol b + or_one p0) m) b) }"

definition csi_cursor_back :: "nat \<Rightarrow> screen_buffer \<Rightarrow> screen_buffer option" where
  "csi_cursor_back p0 b = Some (set_cursor (crow b) (ccol b - or_one p0) b)"

definition csi_cursor_position :: "nat \<Rightarrow> nat \<Rightarrow> screen_buffer \<Rightarrow> screen_buffer option" where
  "csi_cursor_position p0 p1 b = do {
     mr \<leftarrow> usize_sub (sb_rows b) 1;
     mc \<leftarrow> usize_sub (sb_cols b) 1;
     Some (set_cursor (min (or_one p0 - 1) mr) (min (or_one p1 - 1) mc) b) }"

text \<open>Every cell of row \<open>r\<close> becomes the default cell; the index may panic.\<close>

definition clear_row :: "nat \<Rightarrow> row list \<Rightarrow> row list option" where
  "clear_row r g = do { rw \<leftarrow> vec_get g r; vec_set g r (map (\<lambda>_. default_cell) rw) }"

definition modify_row :: "nat \<Rightarrow> (row \<Rightarrow> row option) \<Rightarrow> row list \<Rightarrow> row list option" where
  "modify_row r f g = do { rw \<leftarrow> vec_get g r; rw' \<leftarrow> f rw; vec_set g r rw' }"

definition csi_erase_display :: "nat \<Rightarrow> screen_buffer \<Rightarrow> screen_buffer option" where
  "csi_erase_display p0 b =
     (if p0 = 0 then do {
        g1 \<leftarrow> modify_row (crow b) (fill_from (ccol b) default_cell) (sb_cells b);
        g2 \<leftarrow> fold_opt clear_row [crow b + 1..<sb_rows b] g1;
        Some (b\<lparr>sb_cells := g2\<rparr>)
      } else if p0 = 1 then do {
        g1 \<leftarrow> fold_opt clear_row [0..<crow b] (sb_cells b);
        m \<leftarrow> usize_sub (sb_cols b) 1;
        g2 \<leftarrow> modify_row (crow b) (fill_upto (min (ccol b) m) default_cell) g1;
        Some (b\<lparr>sb_cells := g2\<rparr>)
      } else if p0 = 2 \<or> p0 = 3 then
        Some (b\<lparr>sb_cells := map (map (\<lambda>_. default_cell)) (sb_cells b)\<rparr>)
      else Some b)"

definition csi_erase_line :: "nat \<Rightarrow> screen_buffer \<Rightarrow> screen_buffer option" where
  "csi_erase_line p0 b =
     (if p0 = 0 then do {
        g \<leftarrow> modify_row (crow b) (fill_from (ccol b) default_cell) (sb_cells b);
        Some (b\<lparr>sb_cells := g\<rparr>)
      } else if p0 = 1 then do {
        m \<leftarrow> usize_sub (sb_cols b) 1;
        g \<leftarrow> modify_row (crow b) (fill_upto (min (ccol b) m) default_cell) (sb_cells b);
        Some (b\<lparr>sb_cells := g\<rparr>)
      } else if p0 = 2 then do {
        g \<leftarrow> clear_row (crow b) (sb_cells b);
        Some (b\<lparr>sb_cells := g\<rparr>)
      } else Some b)"

definition csi_insert_lines :: "nat \<Rightarrow> screen_buffer \<Rightarrow> screen_buffer option" where
  "csi_insert_lines p0 b = do {
     g \<leftarrow> iter_opt (or_one p0) (\<lambda>g. do {
            g1 \<leftarrow> (if sb_scroll_bottom b < length g then map_option snd (vec_remove (sb_scroll_bottom b) g)
                   else Some g);
            vec_insert (crow b) (blank_line (sb_cols b)) g1 }) (sb_cells b);
     Some (b\<lparr>sb_cells := g\<rparr>) }"

definition csi_delete_lines :: "nat \<Rightarrow> screen_buffer \<Rightarrow> screen_buffer option" where
  "csi_delete_lines p0 b = do {
     g \<leftarrow> iter_opt (or_one p0) (\<lambda>g. do {
            g1 \<leftarrow> (if crow b < length g then map_option snd (vec_remove (crow b) g) else Some g);
            vec_insert (sb_scroll_bottom b) (blank_line (sb_cols b)) g1 }) (sb_cells b);
     Some (b\<lparr>sb_cells := g\<rparr>) }"

definition csi_delete_chars :: "nat \<Rightarrow> screen_buffer \<Rightarrow> screen_buffer option" where
  "csi_delete_chars p0 b = do {
     g \<leftarrow> iter_opt (or_one p0) (modify_row (crow b) (\<lambda>rw.
            if ccol b < length rw
            then map_option (\<lambda>(_, rw'). rw' @ [default_cell]) (vec_remove (ccol b) rw)
            else Some rw)) (sb_cells b);
     Some (b\<lparr>sb_cells := g\<rparr>) }"

definition csi_insert_chars :: "nat \<Rightarrow> screen_buffer \<Rightarrow> screen_buffer option" where
  "csi_insert_chars p0 b = do {
     g \<leftarrow> iter_opt (or_one p0) (modify_row (crow b) (\<lambda>rw.
            map_option (take (sb_cols b)) (vec_insert (ccol b) default_cell rw))) (sb_cells b);
     Some (b\<lparr>sb_cells := g\<rparr>) }"

definition csi_scroll_up ::
    "nat \<Rightarrow> screen_buffer \<times> row list \<Rightarrow> (screen_buffer \<times> row list) option" where
  "csi_scroll_up p0 = iter_opt (or_one p0) (\<lambda>(b, sb). scroll_up b sb)"

definition csi_scroll_down :: "nat \<Rightarrow> screen_buffer \<Rightarrow> screen_buffer option" where
  "csi_scroll_down p0 = iter_opt (or_one p0) scroll_down"

definition csi_scroll_region :: "nat \<Rightarrow> nat \<Rightarrow> screen_buffer \<Rightarrow> screen_buffer option" where
  "csi_scroll_region p0 p1 b = do {
     let top = or_one p0;
     let bottom = (if p1 = 0 then sb_rows b else p1);
     m \<leftarrow> usize_sub (sb_rows b) 1;
     bottom' \<leftarrow> usize_sub bottom 1;
     Some (set_cursor 0 0 (b\<lparr>sb_scroll_top := min (top - 1) m, sb_scroll_bottom := min bottom' m\<rparr>)) }"

definition csi_line_position :: "nat \<Rightarrow> screen_buffer \<Rightarrow> screen_buffer option" where
  "csi_line_position p0 b = do {
     m \<leftarrow> usize_sub (sb_rows b) 1;
     Some (set_cursor (min (or_one p0 - 1) m) (ccol b) b) }"

definition csi_column_position :: "nat \<Rightarrow> screen_buffer \<Rightarrow> screen_buffer option" where
  "csi_column_position p0 b = do {
     m \<leftarrow> usize_sub (sb_cols b) 1;
     Some (set_cursor (crow b) (min (or_one p0 - 1) m) b) }"

definition csi_erase_chars :: "nat \<Rightarrow> screen_buffer \<Rightarrow> screen_buffer option" where
  "csi_erase_chars p0 b = do {
     g \<leftarrow> fold_opt (\<lambda>i g. if ccol b + i < sb_cols b then set_cell (crow b) (ccol b + i) default_cell g
            else Some g) [0..<or_one p0] (sb_cells b);
     Some (b\<lparr>sb_cells := g\<rparr>) }"

subsection \<open>SGR: select graphic rendition\<close>

text \<open>
  The items are pairs of a code and its first colon sub-parameter. The index arithmetic of the
  loop is the pattern of the remaining list: after 38 or 48, a mode item is consumed; after
  mode 5 one more item, after mode 2 three more when they are there; any other mode item is
  consumed alone.
\<close>

type_synonym sgr_item = "u16 \<times> u16 option"

definition to_u8 :: "u16 \<Rightarrow> u8" where
  "to_u8 w = ucast w"

text \<open>What one code other than 38 and 48 does.\<close>

definition sgr_simple :: "nat \<Rightarrow> u16 option \<Rightarrow> cell_attrs \<Rightarrow> cell_attrs" where
  "sgr_simple n sub a =
     (if n = 0 then default_attrs
      else if n = 1 then a\<lparr>at_bold := True\<rparr>
      else if n = 2 then a\<lparr>at_dim := True\<rparr>
      else if n = 3 then a\<lparr>at_italic := True\<rparr>
      else if n = 4 then a\<lparr>at_underline := (sub \<noteq> Some 0)\<rparr>
      else if n = 7 then a\<lparr>at_inverse := True\<rparr>
      else if n = 9 then a\<lparr>at_strikethrough := True\<rparr>
      else if n = 21 \<or> n = 22 then a\<lparr>at_bold := False, at_dim := False\<rparr>
      else if n = 23 then a\<lparr>at_italic := False\<rparr>
      else if n = 24 then a\<lparr>at_underline := False\<rparr>
      else if n = 27 then a\<lparr>at_inverse := False\<rparr>
      else if n = 29 then a\<lparr>at_strikethrough := False\<rparr>
      else if 30 \<le> n \<and> n \<le> 37 then a\<lparr>at_fg := Some (Indexed (of_nat (n - 30)))\<rparr>
      else if n = 39 then a\<lparr>at_fg := None\<rparr>
      else if 40 \<le> n \<and> n \<le> 47 then a\<lparr>at_bg := Some (Indexed (of_nat (n - 40)))\<rparr>
      else if n = 49 then a\<lparr>at_bg := None\<rparr>
      else if 90 \<le> n \<and> n \<le> 97 then a\<lparr>at_fg := Some (Indexed (of_nat (n - 90 + 8)))\<rparr>
      else if 100 \<le> n \<and> n \<le> 107 then a\<lparr>at_bg := Some (Indexed (of_nat (n - 100 + 8)))\<rparr>
      else a)"

text \<open>The extended colour after 38 or 48: the colour, if any, and the items left.\<close>

fun sgr_extended :: "sgr_item list \<Rightarrow> color option \<times> sgr_item list" where
  "sgr_extended [] = (None, [])"
| "sgr_extended ((mode, _) # rest) =
     (if unat mode = 5 then
        (case rest of [] \<Rightarrow> (None, []) | (c, _) # rest' \<Rightarrow> (Some (Indexed (to_u8 c)), rest'))
      else if unat mode = 2 then
        (case rest of
           (r, _) # (g, _) # (bl, _) # rest' \<Rightarrow> (Some (Rgb (to_u8 r) (to_u8 g) (to_u8 bl)), rest')
         | _ \<Rightarrow> (None, rest))
      else (None, rest))"

lemma sgr_extended_length: "length (snd (sgr_extended items)) \<le> length items"
proof (cases items)
  case (Cons it rest)
  then show ?thesis by (cases it) (auto split: list.splits)
qed simp

function sgr_loop :: "sgr_item list \<Rightarrow> cell_attrs \<Rightarrow> cell_attrs" where
  "sgr_loop [] a = a"
| "sgr_loop ((code, sub) # rest) a =
     (if unat code = 38 then
        (case sgr_extended rest of (c, rest') \<Rightarrow>
           sgr_loop rest' (case c of None \<Rightarrow> a | Some col \<Rightarrow> a\<lparr>at_fg := Some col\<rparr>))
      else if unat code = 48 then
        (case sgr_extended rest of (c, rest') \<Rightarrow>
           sgr_loop rest' (case c of None \<Rightarrow> a | Some col \<Rightarrow> a\<lparr>at_bg := Some col\<rparr>))
      else sgr_loop rest (sgr_simple (unat code) sub a))"
  by pat_completeness auto
termination
proof (relation "measure (length o fst)")
  fix code sub rest a c rest'
  assume "(c, rest') = sgr_extended rest"
  then have "length rest' \<le> length rest" using sgr_extended_length [of rest] by (metis snd_conv)
  then show "((rest', case c of None \<Rightarrow> a | Some col \<Rightarrow> a\<lparr>at_fg := Some col\<rparr>), (code, sub) # rest, a)
      \<in> measure (length o fst)"
    and "((rest', case c of None \<Rightarrow> a | Some col \<Rightarrow> a\<lparr>at_bg := Some col\<rparr>), (code, sub) # rest, a)
      \<in> measure (length o fst)" by auto
qed auto

definition sgr_items :: "u16 list list \<Rightarrow> sgr_item list" where
  "sgr_items params = concat (map (\<lambda>sub. case sub of [] \<Rightarrow> [] | [c] \<Rightarrow> [(c, None)] | c # d # _ \<Rightarrow> [(c, Some d)]) params)"

definition apply_sgr :: "u16 list list \<Rightarrow> cell_attrs \<Rightarrow> cell_attrs" where
  "apply_sgr params a = (if params = [] then default_attrs else sgr_loop (sgr_items params) a)"

definition csi_sgr :: "u16 list list \<Rightarrow> screen_buffer \<Rightarrow> screen_buffer option" where
  "csi_sgr params b =
     Some (b\<lparr>sb_cursor := (sb_cursor b)\<lparr>cu_attrs := apply_sgr params (cu_attrs (sb_cursor b))\<rparr>\<rparr>)"

end
