(* ===== verification/VtDispatch.thy ===== *)
theory VtDispatch
  imports VtPerformer
begin

section \<open>Dispatching the parser's callbacks\<close>

text \<open>
  \<open>src/src/vt_screen/performer.rs\<close>, continued: the \<open>Perform\<close> implementation itself. Each
  callback takes the time \<open>now\<close> at which it runs, which is what its calls of
  \<open>Instant::now\<close> and \<open>elapsed\<close> read.
\<close>

subsection \<open>OSC 133: shell integration\<close>

definition elapsed_ms :: "nat \<Rightarrow> pending_command \<Rightarrow> nat" where
  "elapsed_ms now pc = (now - pc_start_time pc) mod 2 ^ 64"

definition start_command :: "nat \<Rightarrow> pending_command" where
  "start_command now = \<lparr>pc_start_time = now, pc_output_buf = []\<rparr>"

definition osc133_prompt :: "performer \<Rightarrow> performer" where
  "osc133_prompt p = p\<lparr>pf_command_state := Idle, pf_pending_command := None\<rparr>"

text \<open>Command start: a second start without a finish force-finishes the first.\<close>

definition osc133_start :: "nat \<Rightarrow> performer \<Rightarrow> performer" where
  "osc133_start now p =
     (let results =
        (if pf_command_state p = CommandStart \<or> pf_command_state p = Executing
         then (case pf_pending_command p of
                 Some pc \<Rightarrow> pf_command_results p @
                   [\<lparr>cr_exit_code = -1, cr_duration_ms = elapsed_ms now pc, cr_method = ''interrupted''\<rparr>]
               | None \<Rightarrow> pf_command_results p)
         else pf_command_results p)
      in p\<lparr>pf_command_results := results, pf_command_state := CommandStart,
           pf_pending_command := Some (start_command now)\<rparr>)"

definition osc133_exit_code :: "u8 list list \<Rightarrow> int" where
  "osc133_exit_code params =
     (if length params \<ge> 3
      then (case from_utf8 (params ! 2) of
              None \<Rightarrow> -1
            | Some s \<Rightarrow> (case parse_i32 s of None \<Rightarrow> -1 | Some n \<Rightarrow> n))
      else -1)"

definition osc133_finish :: "nat \<Rightarrow> u8 list list \<Rightarrow> performer \<Rightarrow> performer" where
  "osc133_finish now params p =
     p\<lparr>pf_command_results := pf_command_results p @
         [\<lparr>cr_exit_code = osc133_exit_code params,
           cr_duration_ms = (case pf_pending_command p of None \<Rightarrow> 0 | Some pc \<Rightarrow> elapsed_ms now pc),
           cr_method = ''shell_integration''\<rparr>],
       pf_command_state := Idle, pf_pending_command := None\<rparr>"

definition dispatch_osc133 :: "nat \<Rightarrow> u8 list list \<Rightarrow> performer \<Rightarrow> performer" where
  "dispatch_osc133 now params p =
     (if length params < 2 then p
      else
        (let cmd = params ! 1
         in if cmd = bytes_lit ''A'' then osc133_prompt p
            else if cmd = bytes_lit ''B'' then osc133_start now p
            else if cmd = bytes_lit ''D'' then osc133_finish now params p
            else p))"

subsection \<open>OSC 9 and OSC 777: notifications\<close>

text \<open>Segments joined with \<open>;\<close> again.\<close>

fun join_segments :: "u8 list list \<Rightarrow> u8 list" where
  "join_segments [] = []"
| "join_segments [s] = s"
| "join_segments (s # t # ss) = s @ bytes_lit '';'' @ join_segments (t # ss)"

definition push_osc :: "osc_action \<Rightarrow> performer \<Rightarrow> performer" where
  "push_osc a p = p\<lparr>pf_osc_actions := pf_osc_actions p @ [a]\<rparr>"

text \<open>\<open>params[1..]\<close> panics on an empty list.\<close>

definition dispatch_osc9 :: "u8 list list \<Rightarrow> performer \<Rightarrow> performer option" where
  "dispatch_osc9 params p =
     (if length params > 1 \<and> (params ! 1 = bytes_lit ''4'' \<or> params ! 1 = bytes_lit ''9'') then Some p
      else if params = [] then None
      else
        (let msg = join_segments (tl params)
         in if msg = [] then Some (push_osc Bell p)
            else do {
              body \<leftarrow> truncate_utf8 (from_utf8_lossy msg);
              Some (push_osc (Notify None body) p)
            }))"

text \<open>\<open>payload.find(';')\<close> splits the title from the body at the first semicolon.\<close>

definition split_title :: "rstring \<Rightarrow> rstring option \<times> rstring" where
  "split_title s =
     (case dropWhile (\<lambda>c. c \<noteq> of_char CHR '';'') s of
        [] \<Rightarrow> (None, s)
      | _ # rest \<Rightarrow> (Some (takeWhile (\<lambda>c. c \<noteq> of_char CHR '';'') s), rest))"

definition dispatch_osc777 :: "u8 list list \<Rightarrow> performer \<Rightarrow> performer option" where
  "dispatch_osc777 params p =
     (if \<not> (length params > 1 \<and> (params ! 1 = bytes_lit ''notifysend'' \<or> params ! 1 = bytes_lit ''notify''))
      then Some p
      else do {
        let payload = from_utf8_lossy (join_segments (drop 2 params));
        let (title, body) = split_title payload;
        title' \<leftarrow> (case title of None \<Rightarrow> Some None | Some t \<Rightarrow> map_option Some (truncate_utf8 t));
        body' \<leftarrow> truncate_utf8 body;
        Some (push_osc (Notify title' body') p)
      })"

definition osc_dispatch :: "nat \<Rightarrow> u8 list list \<Rightarrow> performer \<Rightarrow> performer option" where
  "osc_dispatch now params p =
     (case params of
        [] \<Rightarrow> None
      | p0 # _ \<Rightarrow>
          if p0 = bytes_lit ''133'' then Some (dispatch_osc133 now params p)
          else if p0 = bytes_lit ''9'' then dispatch_osc9 params p
          else if p0 = bytes_lit ''777'' then dispatch_osc777 params p
          else Some p)"

subsection \<open>CSI\<close>

text \<open>An operation of the screen alone, and one that also touches the scrollback.\<close>

definition on_screen :: "(screen_buffer \<Rightarrow> screen_buffer option) \<Rightarrow> performer \<Rightarrow> performer option" where
  "on_screen f p = map_option (\<lambda>b. p\<lparr>pf_screen := b\<rparr>) (f (pf_screen p))"

definition on_both ::
    "(screen_buffer \<times> row list \<Rightarrow> (screen_buffer \<times> row list) option) \<Rightarrow> performer \<Rightarrow> performer option" where
  "on_both f p =
     map_option (\<lambda>(b, sb). p\<lparr>pf_screen := b, pf_scrollback := sb\<rparr>) (f (pf_screen p, pf_scrollback p))"

definition csi_private :: "u16 list list \<Rightarrow> char \<Rightarrow> performer \<Rightarrow> performer" where
  "csi_private params action p =
     (let ps = concat params
      in if action = CHR ''h'' then fold decset_step ps p
         else if action = CHR ''l'' then fold decrst_step ps p
         else p)"

definition csi_param :: "u16 list list \<Rightarrow> nat \<Rightarrow> nat" where
  "csi_param params i = (let ps = concat params in if i < length ps then unat (ps ! i) else 0)"

definition csi_standard :: "u16 list list \<Rightarrow> char \<Rightarrow> performer \<Rightarrow> performer option" where
  "csi_standard params a p =
     (let p0 = csi_param params 0; p1 = csi_param params 1
      in if a = CHR ''A'' then on_screen (csi_cursor_up p0) p
         else if a = CHR ''B'' then on_screen (csi_cursor_down p0) p
         else if a = CHR ''C'' then on_screen (csi_cursor_forward p0) p
         else if a = CHR ''D'' then on_screen (csi_cursor_back p0) p
         else if a = CHR ''H'' \<or> a = CHR ''f'' then on_screen (csi_cursor_position p0 p1) p
         else if a = CHR ''J'' then on_screen (csi_erase_display p0) p
         else if a = CHR ''K'' then on_screen (csi_erase_line p0) p
         else if a = CHR ''L'' then on_screen (csi_insert_lines p0) p
         else if a = CHR ''M'' then on_screen (csi_delete_lines p0) p
         else if a = CHR ''P'' then on_screen (csi_delete_chars p0) p
         else if a = CHR ''@'' then on_screen (csi_insert_chars p0) p
         else if a = CHR ''S'' then on_both (csi_scroll_up p0) p
         else if a = CHR ''T'' then on_screen (csi_scroll_down p0) p
         else if a = CHR ''r'' then on_screen (csi_scroll_region p0 p1) p
         else if a = CHR ''d'' then on_screen (csi_line_position p0) p
         else if a = CHR ''G'' \<or> a = CHR 0x60 then on_screen (csi_column_position p0) p
         else if a = CHR ''X'' then on_screen (csi_erase_chars p0) p
         else if a = CHR ''m'' then on_screen (csi_sgr params) p
         else Some p)"

definition csi_dispatch ::
    "u16 list list \<Rightarrow> u8 list \<Rightarrow> char \<Rightarrow> performer \<Rightarrow> performer option" where
  "csi_dispatch params intermediates action p =
     (if intermediates = bytes_lit ''?'' then Some (csi_private params action p)
      else if intermediates = bytes_lit ''!'' \<and> action = CHR ''p'' then
        Some (p\<lparr>pf_private_modes := soft_reset (pf_private_modes p)\<rparr>)
      else if intermediates \<noteq> [] then Some p
      else csi_standard params action p)"

subsection \<open>ESC\<close>

definition save_cursor :: "performer \<Rightarrow> performer" where
  "save_cursor p = p\<lparr>pf_saved_cursor := Some (sb_cursor (pf_screen p))\<rparr>"

definition restore_cursor :: "performer \<Rightarrow> performer" where
  "restore_cursor p =
     (case pf_saved_cursor p of
        None \<Rightarrow> p
      | Some c \<Rightarrow> p\<lparr>pf_screen := (pf_screen p)\<lparr>sb_cursor := c\<rparr>\<rparr>)"

definition reverse_index :: "screen_buffer \<Rightarrow> screen_buffer option" where
  "reverse_index b =
     (if crow b = sb_scroll_top b then scroll_down b
      else if crow b > 0 then Some (set_cursor (crow b - 1) (ccol b) b)
      else Some b)"

definition esc_dispatch :: "u8 list \<Rightarrow> u8 \<Rightarrow> performer \<Rightarrow> performer option" where
  "esc_dispatch intermediates byte p =
     (if intermediates = bytes_lit ''7'' \<or> (intermediates = [] \<and> [byte] = bytes_lit ''7'')
      then Some (save_cursor p)
      else if intermediates = bytes_lit ''8'' \<or> (intermediates = [] \<and> [byte] = bytes_lit ''8'')
      then Some (restore_cursor p)
      else if intermediates = [] \<and> [byte] = bytes_lit ''M'' then on_screen reverse_index p
      else if intermediates = [] \<and> [byte] = bytes_lit ''c''
      then Some (p\<lparr>pf_private_modes := default_modes\<rparr>)
      else Some p)"

subsection \<open>The \<open>Perform\<close> implementation\<close>

fun perform :: "(rchar \<Rightarrow> nat option) \<Rightarrow> nat \<Rightarrow> vte_action \<Rightarrow> performer \<Rightarrow> performer option" where
  "perform width now (VPrint c) p = on_both (print_screen width c) p"
| "perform width now (VExecute b) p = perf_execute b p"
| "perform width now VHook p = Some p"
| "perform width now (VPut b) p = Some p"
| "perform width now VUnhook p = Some p"
| "perform width now (VOsc params bell) p = osc_dispatch now params p"
| "perform width now (VCsi params ims ign action) p = csi_dispatch params ims action p"
| "perform width now (VEsc ims ign b) p = esc_dispatch ims b p"

end
