(* ===== verification/VtSafety.thy ===== *)
theory VtSafety
  imports VtDispatch
begin

section \<open>The performer never panics on a well-formed screen\<close>

text \<open>
  One lemma per operation: on a well-formed buffer it is defined and its result is
  well-formed. \<open>perf_wf\<close> is the invariant of the performer; the last lemma covers every
  callback, and interprets the contract \<open>total_machine\<close> on \<open>perform\<close>.
\<close>

definition perf_wf :: "nat \<Rightarrow> nat \<Rightarrow> performer \<Rightarrow> bool" where
  "perf_wf cols rows p \<longleftrightarrow> buffer_wf cols rows (pf_screen p) \<and> scrollback_ok (pf_scrollback p) \<and>
     (case pf_saved_cursor p of None \<Rightarrow> True | Some c \<Rightarrow> cursor_ok cols rows c)"

text \<open>What is used of the width table: no character is wider than two columns.\<close>

definition width_ok :: "(rchar \<Rightarrow> nat option) \<Rightarrow> bool" where
  "width_ok width \<longleftrightarrow> (\<forall>c n. width c = Some n \<longrightarrow> n \<le> 2)"

text \<open>What is used of the parser: an OSC callback carries at least one segment.\<close>

fun action_ok :: "vte_action \<Rightarrow> bool" where
  "action_ok (VOsc params bell) = (params \<noteq> [])"
| "action_ok _ = True"

definition stays_wf :: "nat \<Rightarrow> nat \<Rightarrow> screen_buffer option \<Rightarrow> bool" where
  "stays_wf cols rows r \<longleftrightarrow> (\<exists>b. r = Some b \<and> buffer_wf cols rows b)"

definition stays_wf2 :: "nat \<Rightarrow> nat \<Rightarrow> (screen_buffer \<times> row list) option \<Rightarrow> bool" where
  "stays_wf2 cols rows r \<longleftrightarrow> (\<exists>b sb. r = Some (b, sb) \<and> buffer_wf cols rows b \<and> scrollback_ok sb)"

subsection \<open>Grids\<close>

lemma grid_modify_row:
  assumes g: "grid_ok cols rows g" and r: "r < rows"
    and f: "\<And>rw. length rw = cols \<Longrightarrow> \<exists>rw'. f rw = Some rw' \<and> length rw' = cols"
  shows "\<exists>g'. modify_row r f g = Some g' \<and> grid_ok cols rows g'"
proof -
  from g r have len: "r < length g" and row: "length (g ! r) = cols"
    by (simp_all add: grid_ok_length grid_ok_row)
  from f [OF row] obtain rw' where "f (g ! r) = Some rw'" "length rw' = cols" by blast
  with len g show ?thesis by (simp add: modify_row_def vec_simps grid_ok_update)
qed

lemma clear_row_modify: "clear_row r = modify_row r (\<lambda>rw. Some (map (\<lambda>_. default_cell) rw))"
  by (simp add: clear_row_def modify_row_def fun_eq_iff)

lemma set_cell_modify: "set_cell r c x = modify_row r (\<lambda>rw. vec_set rw c x)"
  by (simp add: set_cell_def modify_row_def fun_eq_iff)

lemma grid_clear_row:
  "grid_ok cols rows g \<Longrightarrow> r < rows \<Longrightarrow> \<exists>g'. clear_row r g = Some g' \<and> grid_ok cols rows g'"
  unfolding clear_row_modify by (rule grid_modify_row) auto

lemma grid_set_cell:
  "grid_ok cols rows g \<Longrightarrow> r < rows \<Longrightarrow> c < cols \<Longrightarrow>
     \<exists>g'. set_cell r c x g = Some g' \<and> grid_ok cols rows g'"
  unfolding set_cell_modify by (rule grid_modify_row) (auto simp: vec_simps)

lemma grid_get_cell:
  "grid_ok cols rows g \<Longrightarrow> r < rows \<Longrightarrow> c < cols \<Longrightarrow> \<exists>x. get_cell r c g = Some x"
  by (simp add: get_cell_def vec_get_def grid_ok_length grid_ok_row)

lemma grid_clear_rows:
  "grid_ok cols rows g \<Longrightarrow> \<forall>r \<in> set rs. r < rows \<Longrightarrow>
     \<exists>g'. fold_opt clear_row rs g = Some g' \<and> grid_ok cols rows g'"
proof (induction rs arbitrary: g)
  case (Cons r rs)
  from Cons.prems have "r < rows" by simp
  from grid_clear_row [OF Cons.prems(1) this] obtain g' where
    "clear_row r g = Some g'" "grid_ok cols rows g'" by blast
  with Cons show ?case by simp
qed simp

lemma wf_cells:
  assumes "buffer_wf cols rows b" and "\<exists>g. r = Some g \<and> grid_ok cols rows g"
  shows "stays_wf cols rows (r \<bind> (\<lambda>g. Some (b\<lparr>sb_cells := g\<rparr>)))"
  using assms by (auto simp: stays_wf_def wf_defs)

lemma wf_cursor: "buffer_wf cols rows b \<Longrightarrow> crow b < rows \<and> ccol b \<le> cols"
  by (simp add: wf_defs)

lemma wf_grid: "buffer_wf cols rows b \<Longrightarrow> grid_ok cols rows (sb_cells b)"
  by (simp add: wf_defs)

lemma wf_dims:
  "buffer_wf cols rows b \<Longrightarrow> sb_cols b = cols" "buffer_wf cols rows b \<Longrightarrow> sb_rows b = rows"
  "buffer_wf cols rows b \<Longrightarrow> 1 \<le> rows" "buffer_wf cols rows b \<Longrightarrow> 2 \<le> cols"
  by (simp_all add: wf_defs)

lemma set_cursor_wf: "buffer_wf cols rows b \<Longrightarrow> r < rows \<Longrightarrow> c \<le> cols \<Longrightarrow> buffer_wf cols rows (set_cursor r c b)"
  by (simp add: wf_defs set_cursor_def)

lemma set_cursor_simps [simp]:
  "crow (set_cursor r c b) = r" "ccol (set_cursor r c b) = c"
  "sb_scroll_bottom (set_cursor r c b) = sb_scroll_bottom b"
  "sb_scroll_top (set_cursor r c b) = sb_scroll_top b"
  "sb_cols (set_cursor r c b) = sb_cols b" "sb_rows (set_cursor r c b) = sb_rows b"
  "sb_cells (set_cursor r c b) = sb_cells b"
  "set_cursor r c (set_cursor r' c' b) = set_cursor r c b"
  by (simp_all add: set_cursor_def)

subsection \<open>Printing and control characters\<close>

lemma line_feed_wf:
  assumes b: "buffer_wf cols rows b" and sb: "scrollback_ok sb"
  shows "\<exists>b' sb'. line_feed (b, sb) = Some (b', sb') \<and> buffer_wf cols rows b' \<and>
    scrollback_ok sb' \<and> ccol b' = ccol b"
proof -
  let ?b1 = "set_cursor (sb_scroll_bottom b) (ccol b) b"
  from b have col: "ccol b \<le> cols" and bot: "sb_scroll_bottom b < rows" by (simp_all add: wf_defs)
  with b have "buffer_wf cols rows ?b1" by (intro set_cursor_wf) auto
  from scroll_up_wf [OF this sb] obtain b' sb' where
    "scroll_up ?b1 sb = Some (b', sb')" "buffer_wf cols rows b'" "scrollback_ok sb'"
    "ccol b' = ccol ?b1" by auto
  moreover have "buffer_wf cols rows (set_cursor (crow b + 1) (ccol b) b)"
    if "\<not> sb_scroll_bottom b < crow b + 1" using that b bot col by (intro set_cursor_wf) auto
  ultimately show ?thesis using sb
    by (cases "sb_scroll_bottom b < crow b + 1") (auto simp: line_feed_def Let_def)
qed

lemma line_wrap_wf:
  assumes "buffer_wf cols rows b" and "scrollback_ok sb"
  shows "\<exists>b' sb'. line_wrap (b, sb) = Some (b', sb') \<and> buffer_wf cols rows b' \<and>
    scrollback_ok sb' \<and> ccol b' = 0"
proof -
  have "buffer_wf cols rows (set_cursor (crow b) 0 b)"
    using assms(1) by (intro set_cursor_wf) (auto simp: wf_cursor)
  from line_feed_wf [OF this assms(2)] show ?thesis by (simp add: line_wrap_def)
qed

lemma print_combining_wf: "buffer_wf cols rows b \<Longrightarrow> stays_wf cols rows (print_combining ch b)"
proof -
  assume b: "buffer_wf cols rows b"
  note g = wf_grid [OF b] and d = wf_cursor [OF b]
  show ?thesis
  proof (cases "ccol b > 0")
    case True
    from d True have i: "crow b < rows" "ccol b - 1 < cols" by auto
    from grid_get_cell [OF g i] obtain x where x: "get_cell (crow b) (ccol b - 1) (sb_cells b) = Some x" ..
    from grid_set_cell [OF g i] obtain g' where
      "set_cell (crow b) (ccol b - 1) (push_combining ch x) (sb_cells b) = Some g'"
      "grid_ok cols rows g'" by blast
    with x b show ?thesis by (simp add: print_combining_def stays_wf_def wf_defs)
  qed (simp add: print_combining_def stays_wf_def b)
qed

text \<open>A conditional cell write, as \<open>put_cell\<close> chains four of.\<close>

lemma grid_set_cell_if:
  assumes "grid_ok cols rows g" and "r < rows" and "P \<Longrightarrow> c < cols"
  shows "\<exists>g'. (if P then set_cell r c x g else Some g) = Some g' \<and> grid_ok cols rows g'"
  using assms grid_set_cell [of cols rows g r c x] by (cases P) auto

lemma put_cell_wf:
  assumes b: "buffer_wf cols rows b" and c: "ccol b < cols"
  shows "\<exists>b'. put_cell width w ch b = Some b' \<and> buffer_wf cols rows b' \<and> sb_cursor b' = sb_cursor b"
proof -
  let ?r = "crow b" and ?c = "ccol b" and ?a = "cu_attrs (sb_cursor b)"
  have r: "?r < rows" and cols: "sb_cols b = cols" using b by (auto simp: wf_cursor wf_dims)
  obtain x where x: "get_cell ?r ?c (sb_cells b) = Some x"
    using grid_get_cell [OF wf_grid [OF b] r c] ..
  let ?old = "cl_ch x"
  obtain g1 where g1: "(if ?old = 0 \<and> ?c > 0 then set_cell ?r (?c - 1) default_cell (sb_cells b)
      else Some (sb_cells b)) = Some g1" "grid_ok cols rows g1"
    by (atomize_elim, rule grid_set_cell_if [OF wf_grid [OF b] r]) (use c in auto)
  obtain g2 where g2: "(if ?old \<noteq> 0 \<and> ?old \<noteq> SPACE \<and> width ?old = Some 2 \<and> ?c + 1 < sb_cols b
      then set_cell ?r (?c + 1) default_cell g1 else Some g1) = Some g2" "grid_ok cols rows g2"
    by (atomize_elim, rule grid_set_cell_if [OF g1(2) r]) (use cols in auto)
  obtain g3 where g3: "set_cell ?r ?c (mk_cell ch ?a) g2 = Some g3" "grid_ok cols rows g3"
    using grid_set_cell [OF g2(2) r c] by blast
  obtain g4 where g4: "(if w = 2 \<and> ?c + 1 < sb_cols b then set_cell ?r (?c + 1) (mk_cell 0 ?a) g3
      else Some g3) = Some g4" "grid_ok cols rows g4"
    by (atomize_elim, rule grid_set_cell_if [OF g3(2) r]) (use cols in auto)
  have "put_cell width w ch b = Some (b\<lparr>sb_cells := g4\<rparr>)"
    unfolding put_cell_def Let_def x option.map bind.bind_lunit g1(1) g2(1) g3(1) g4(1) ..
  with g4(2) b show ?thesis by (simp add: wf_defs)
qed

lemma print_screen_wf:
  assumes w: "width_ok width" and b: "buffer_wf cols rows b" and sb: "scrollback_ok sb"
  shows "stays_wf2 cols rows (print_screen width ch (b, sb))"
proof -
  define n where "n = (case width ch of None \<Rightarrow> 0 | Some n \<Rightarrow> n)"
  have n2: "n \<le> 2" using w by (auto simp: n_def width_ok_def split: option.splits)
  note dims = wf_dims [OF b]
  show ?thesis
  proof (cases "n = 0")
    case True
    with print_combining_wf [OF b, of ch] sb show ?thesis
      by (auto simp: print_screen_def n_def [symmetric] stays_wf_def stays_wf2_def)
  next
    case False
    obtain b1 sb1 where 1: "(if ccol b \<ge> sb_cols b then line_wrap (b, sb) else Some (b, sb)) = Some (b1, sb1)"
      "buffer_wf cols rows b1" "scrollback_ok sb1" "ccol b1 < cols"
      using line_wrap_wf [OF b sb] b sb dims by (cases "ccol b \<ge> sb_cols b") auto
    note dims1 = wf_dims [OF 1(2)]
    obtain b2 sb2 where 2: "(if n = 2 \<and> ccol b1 + 1 \<ge> sb_cols b1 then line_wrap (b1, sb1) else Some (b1, sb1)) = Some (b2, sb2)"
      "buffer_wf cols rows b2" "scrollback_ok sb2" "ccol b2 + n \<le> cols"
      using line_wrap_wf [OF 1(2,3)] 1 n2 dims1 by (cases "n = 2 \<and> ccol b1 + 1 \<ge> sb_cols b1") auto
    note dims2 = wf_dims [OF 2(2)]
    have c2: "ccol b2 < cols" and r2: "crow b2 < rows" using 2 False wf_cursor [OF 2(2)] by auto
    obtain b3 where 3: "put_cell width n ch b2 = Some b3" "buffer_wf cols rows b3" "sb_cursor b3 = sb_cursor b2"
      using put_cell_wf [OF 2(2) c2] by blast
    have "buffer_wf cols rows (set_cursor (crow b3) (ccol b3 + n) b3)"
      using 3 2(4) r2 by (intro set_cursor_wf) auto
    moreover have "print_screen width ch (b, sb) = Some (set_cursor (crow b3) (ccol b3 + n) b3, sb2)"
      using False 1(1) 2(1) 3(1) c2 r2 dims2
      by (simp add: print_screen_def n_def [symmetric])
    ultimately show ?thesis using 2(3) by (auto simp: stays_wf2_def)
  qed
qed

lemma tab_stop_wf: "buffer_wf cols rows b \<Longrightarrow> stays_wf cols rows (tab_stop b)"
  by (auto simp: tab_stop_def stays_wf_def Let_def usize_sub_def wf_dims wf_cursor intro!: set_cursor_wf)
    (auto simp: wf_defs)

subsection \<open>CSI operations\<close>

lemma csi_cursor_wf:
  assumes b: "buffer_wf cols rows b"
  shows "stays_wf cols rows (csi_cursor_up p0 b)" "stays_wf cols rows (csi_cursor_down p0 b)"
    "stays_wf cols rows (csi_cursor_forward p0 b)" "stays_wf cols rows (csi_cursor_back p0 b)"
    "stays_wf cols rows (csi_cursor_position p0 p1 b)" "stays_wf cols rows (csi_line_position p0 b)"
    "stays_wf cols rows (csi_column_position p0 b)"
  using wf_cursor [OF b] wf_dims [OF b] b
  by (auto simp: stays_wf_def csi_cursor_up_def csi_cursor_down_def csi_cursor_forward_def
      csi_cursor_back_def csi_cursor_position_def csi_line_position_def csi_column_position_def
      usize_sub_def intro!: set_cursor_wf)

lemma grid_fill_from:
  assumes b: "buffer_wf cols rows b"
  shows "\<exists>g. modify_row (crow b) (fill_from (ccol b) default_cell) (sb_cells b) = Some g \<and> grid_ok cols rows g"
  using wf_cursor [OF b] by (intro grid_modify_row wf_grid [OF b]) (auto simp: fill_from_def)

lemma grid_fill_upto:
  assumes b: "buffer_wf cols rows b" and g: "grid_ok cols rows g"
  shows "\<exists>g'. modify_row (crow b) (fill_upto (min (ccol b) (sb_cols b - 1)) default_cell) g = Some g' \<and>
    grid_ok cols rows g'"
  using wf_cursor [OF b] wf_dims [OF b] by (intro grid_modify_row g) (auto simp: fill_upto_def)

lemma grid_clear_all: "grid_ok cols rows g \<Longrightarrow> grid_ok cols rows (map (map (\<lambda>_. default_cell)) g)"
  by (auto simp: grid_ok_def list_all_iff)

lemma csi_erase_display_wf:
  assumes b: "buffer_wf cols rows b"
  shows "stays_wf cols rows (csi_erase_display p0 b)"
proof -
  note d = wf_dims [OF b] and c = wf_cursor [OF b]
  obtain g where g: "modify_row (crow b) (fill_from (ccol b) default_cell) (sb_cells b) = Some g"
    "grid_ok cols rows g" using grid_fill_from [OF b] by blast
  obtain g0 where g0: "fold_opt clear_row [crow b + 1..<sb_rows b] g = Some g0" "grid_ok cols rows g0"
    using grid_clear_rows [OF g(2), of "[crow b + 1..<sb_rows b]"] d by auto
  obtain h where h: "fold_opt clear_row [0..<crow b] (sb_cells b) = Some h" "grid_ok cols rows h"
    using grid_clear_rows [OF wf_grid [OF b], of "[0..<crow b]"] c by auto
  obtain h0 where h0: "modify_row (crow b) (fill_upto (min (ccol b) (sb_cols b - 1)) default_cell) h = Some h0"
    "grid_ok cols rows h0" using grid_fill_upto [OF b h(2)] by blast
  from d have "Suc 0 \<le> cols" by simp
  with b g g0 h h0 grid_clear_all [OF wf_grid [OF b]] show ?thesis
    by (simp add: csi_erase_display_def stays_wf_def wf_defs)
qed

lemma csi_erase_line_wf:
  assumes b: "buffer_wf cols rows b"
  shows "stays_wf cols rows (csi_erase_line p0 b)"
proof -
  note d = wf_dims [OF b]
  have m: "Suc 0 \<le> sb_cols b" using d b by (simp add: wf_defs)
  have "crow b < rows" using wf_cursor [OF b] by simp
  note wf_cells [OF b grid_fill_from [OF b]] wf_cells [OF b grid_fill_upto [OF b wf_grid [OF b]]]
    wf_cells [OF b grid_clear_row [OF wf_grid [OF b] this]]
  then show ?thesis using b m by (simp add: csi_erase_line_def stays_wf_def)
qed

text \<open>IL and DL move lines between the cursor and the bottom of the scroll region.\<close>

lemma grid_move_iter:
  assumes g: "grid_ok cols rows g" and i: "i < rows" and j: "j < rows"
  shows "\<exists>g'. iter_opt n (\<lambda>g. do {
      g1 \<leftarrow> (if i < length g then map_option snd (vec_remove i g) else Some g);
      vec_insert j (blank_line cols) g1 }) g = Some g' \<and> grid_ok cols rows g'"
proof (rule iter_opt_total [where P = "grid_ok cols rows", OF _ g])
  fix g assume g: "grid_ok cols rows g"
  from grid_move [OF g i j] grid_ok_length [OF g] i
  show "\<exists>g'. (do { g1 \<leftarrow> (if i < length g then map_option snd (vec_remove i g) else Some g);
      vec_insert j (blank_line cols) g1 }) = Some g' \<and> grid_ok cols rows g'"
    by fastforce
qed

lemma csi_lines_wf:
  assumes b: "buffer_wf cols rows b"
  shows "stays_wf cols rows (csi_insert_lines p0 b)" "stays_wf cols rows (csi_delete_lines p0 b)"
proof -
  have i: "crow b < rows" and j: "sb_scroll_bottom b < rows" and c: "sb_cols b = cols"
    using b by (auto simp: wf_defs)
  show "stays_wf cols rows (csi_insert_lines p0 b)" unfolding csi_insert_lines_def c
    by (rule wf_cells [OF b]) (rule grid_move_iter [OF wf_grid [OF b] j i])
  show "stays_wf cols rows (csi_delete_lines p0 b)" unfolding csi_delete_lines_def c
    by (rule wf_cells [OF b]) (rule grid_move_iter [OF wf_grid [OF b] i j])
qed

lemma csi_chars_wf:
  assumes b: "buffer_wf cols rows b"
  shows "stays_wf cols rows (csi_delete_chars p0 b)" "stays_wf cols rows (csi_insert_chars p0 b)"
proof -
  have r: "crow b < rows" and c: "ccol b \<le> cols" "sb_cols b = cols" using b by (auto simp: wf_defs)
  show "stays_wf cols rows (csi_delete_chars p0 b)" unfolding csi_delete_chars_def
    by (rule wf_cells [OF b], rule iter_opt_total [where P = "grid_ok cols rows", OF _ wf_grid [OF b]], rule grid_modify_row [OF _ r])
      (auto simp: vec_remove_def)
  show "stays_wf cols rows (csi_insert_chars p0 b)" unfolding csi_insert_chars_def
    by (rule wf_cells [OF b], rule iter_opt_total [where P = "grid_ok cols rows", OF _ wf_grid [OF b]], rule grid_modify_row [OF _ r])
      (use c in \<open>auto simp: vec_insert_def\<close>)
qed

lemma csi_erase_chars_wf:
  assumes b: "buffer_wf cols rows b"
  shows "stays_wf cols rows (csi_erase_chars p0 b)"
proof -
  have r: "crow b < rows" and c: "sb_cols b = cols" using b by (auto simp: wf_defs)
  have "\<exists>g'. fold_opt (\<lambda>i g. if ccol b + i < sb_cols b then set_cell (crow b) (ccol b + i) default_cell g
      else Some g) is g = Some g' \<and> grid_ok cols rows g'" if "grid_ok cols rows g" for "is" g
    using that
  proof (induction "is" arbitrary: g)
    case (Cons i "is")
    obtain g1 where "(if ccol b + i < sb_cols b then set_cell (crow b) (ccol b + i) default_cell g
        else Some g) = Some g1" "grid_ok cols rows g1"
      by (atomize_elim, rule grid_set_cell_if [OF Cons.prems r]) (use c in auto)
    with Cons.IH show ?case by simp
  qed simp
  from wf_cells [OF b this [OF wf_grid [OF b]]] show ?thesis by (simp add: csi_erase_chars_def)
qed

lemma csi_scroll_up_wf:
  assumes "buffer_wf cols rows b" and "scrollback_ok sb"
  shows "stays_wf2 cols rows (csi_scroll_up p0 (b, sb))"
proof -
  have "\<exists>s'. iter_opt (or_one p0) (\<lambda>(b, sb). scroll_up b sb) (b, sb) = Some s' \<and>
      buffer_wf cols rows (fst s') \<and> scrollback_ok (snd s')"
    by (rule iter_opt_total [where P = "\<lambda>s. buffer_wf cols rows (fst s) \<and> scrollback_ok (snd s)"])
      (use assms scroll_up_wf in \<open>fastforce+\<close>)
  then show ?thesis by (auto simp: csi_scroll_up_def stays_wf2_def)
qed

lemma csi_scroll_down_wf:
  "buffer_wf cols rows b \<Longrightarrow> stays_wf cols rows (csi_scroll_down p0 b)"
  unfolding csi_scroll_down_def stays_wf_def
  by (rule iter_opt_total [where P = "buffer_wf cols rows"]) (use scroll_down_wf in blast)+

lemma csi_scroll_region_wf: "buffer_wf cols rows b \<Longrightarrow> stays_wf cols rows (csi_scroll_region p0 p1 b)"
  by (auto simp: csi_scroll_region_def stays_wf_def wf_defs set_cursor_def usize_sub_def)

lemma csi_sgr_wf: "buffer_wf cols rows b \<Longrightarrow> stays_wf cols rows (csi_sgr params b)"
  by (simp add: csi_sgr_def stays_wf_def wf_defs)

lemmas csi_wf = csi_cursor_wf csi_erase_display_wf csi_erase_line_wf csi_lines_wf csi_chars_wf
  csi_erase_chars_wf csi_scroll_down_wf csi_scroll_region_wf csi_sgr_wf

subsection \<open>Every callback\<close>

definition safe_result :: "nat \<Rightarrow> nat \<Rightarrow> performer option \<Rightarrow> bool" where
  "safe_result cols rows r \<longleftrightarrow> (\<exists>p. r = Some p \<and> perf_wf cols rows p)"

lemma safe_Some [simp]: "safe_result cols rows (Some p) \<longleftrightarrow> perf_wf cols rows p"
  by (simp add: safe_result_def)

text \<open>Fields the invariant does not read.\<close>

lemma perf_wf_frame [simp]:
  "perf_wf cols rows (p\<lparr>pf_private_modes := m\<rparr>) = perf_wf cols rows p"
  "perf_wf cols rows (p\<lparr>pf_pending_switch := sw\<rparr>) = perf_wf cols rows p"
  "perf_wf cols rows (p\<lparr>pf_sync_events := ev\<rparr>) = perf_wf cols rows p"
  "perf_wf cols rows (p\<lparr>pf_osc_actions := oa\<rparr>) = perf_wf cols rows p"
  by (simp_all add: perf_wf_def)

lemma on_screen_safe:
  "perf_wf cols rows p \<Longrightarrow> stays_wf cols rows (f (pf_screen p)) \<Longrightarrow> safe_result cols rows (on_screen f p)"
  by (auto simp: on_screen_def stays_wf_def perf_wf_def safe_result_def)

lemma on_both_safe:
  "perf_wf cols rows p \<Longrightarrow> stays_wf2 cols rows (f (pf_screen p, pf_scrollback p)) \<Longrightarrow>
     safe_result cols rows (on_both f p)"
  by (auto simp: on_both_def stays_wf2_def perf_wf_def safe_result_def)

lemma perf_execute_on:
  "perf_execute byte p =
     (if unat byte = 0x09 then on_screen tab_stop p
      else if 0x0A \<le> unat byte \<and> unat byte \<le> 0x0C then on_both line_feed p
      else perf_execute byte p)"
  by (auto simp: perf_execute_def on_screen_def on_both_def Let_def)

lemma perf_execute_safe:
  assumes p: "perf_wf cols rows p"
  shows "safe_result cols rows (perf_execute byte p)"
proof -
  from p have b: "buffer_wf cols rows (pf_screen p)" "scrollback_ok (pf_scrollback p)"
    by (simp_all add: perf_wf_def)
  have lf: "stays_wf2 cols rows (line_feed (pf_screen p, pf_scrollback p))"
    using line_feed_wf [OF b] by (auto simp: stays_wf2_def)
  consider "unat byte = 0x09" | "0x0A \<le> unat byte \<and> unat byte \<le> 0x0C"
    | "unat byte \<noteq> 0x09" "\<not> (0x0A \<le> unat byte \<and> unat byte \<le> 0x0C)" by blast
  then show ?thesis
  proof cases
    case 1
    with on_screen_safe [where f = tab_stop, OF p tab_stop_wf [OF b(1)]] show ?thesis
      by (subst perf_execute_on) simp
  next
    case 2
    with on_both_safe [where f = line_feed, OF p lf] show ?thesis by (subst perf_execute_on) auto
  next
    case 3
    with p wf_cursor [OF b(1)] show ?thesis
      by (auto simp: perf_execute_def Let_def perf_wf_def intro!: set_cursor_wf)
  qed
qed

lemma mode_steps_keep [simp]:
  "perf_wf cols rows (decset_step w p) = perf_wf cols rows p"
  "perf_wf cols rows (decrst_step w p) = perf_wf cols rows p"
  by (simp_all add: decset_step_def decrst_step_def Let_def perf_wf_def)

lemma fold_modes_keep:
  "perf_wf cols rows (fold decset_step ps p) = perf_wf cols rows p"
  "perf_wf cols rows (fold decrst_step ps p) = perf_wf cols rows p"
  by (induction ps arbitrary: p) simp_all

lemma csi_standard_safe:
  assumes p: "perf_wf cols rows p"
  shows "safe_result cols rows (csi_standard params a p)"
proof -
  from p have b: "buffer_wf cols rows (pf_screen p)" "scrollback_ok (pf_scrollback p)"
    by (simp_all add: perf_wf_def)
  show ?thesis unfolding csi_standard_def Let_def
    using p by (simp add: on_screen_safe on_both_safe csi_wf [OF b(1)] csi_scroll_up_wf [OF b])
qed

lemma csi_dispatch_safe: "perf_wf cols rows p \<Longrightarrow> safe_result cols rows (csi_dispatch params ims a p)"
  by (auto simp: csi_dispatch_def csi_private_def Let_def fold_modes_keep csi_standard_safe)

lemma esc_dispatch_safe:
  assumes p: "perf_wf cols rows p"
  shows "safe_result cols rows (esc_dispatch ims byte p)"
proof -
  from p have b: "buffer_wf cols rows (pf_screen p)" by (simp add: perf_wf_def)
  have "stays_wf cols rows (reverse_index (pf_screen p))"
    using scroll_down_wf [OF b] b wf_cursor [OF b]
    by (auto simp: reverse_index_def stays_wf_def intro!: set_cursor_wf)
  with p show ?thesis
    by (auto simp: esc_dispatch_def on_screen_safe save_cursor_def restore_cursor_def perf_wf_def
        wf_defs split: option.splits)
qed

lemma osc_dispatch_safe:
  assumes p: "perf_wf cols rows p" and ne: "params \<noteq> []"
  shows "safe_result cols rows (osc_dispatch now params p)"
proof -
  have t: "\<exists>t. truncate_utf8 s = Some t" for s using truncate_utf8_spec by blast
  have push: "perf_wf cols rows (push_osc a p)" for a using p by (simp add: push_osc_def perf_wf_def)
  have o133: "perf_wf cols rows (dispatch_osc133 now params p)"
    using p by (simp add: dispatch_osc133_def Let_def osc133_prompt_def osc133_start_def
        osc133_finish_def perf_wf_def)
  have o9: "safe_result cols rows (dispatch_osc9 params p)"
    using p ne push t [of "from_utf8_lossy (join_segments (tl params))"]
    by (auto simp: dispatch_osc9_def Let_def)
  obtain ti bo where s: "split_title (from_utf8_lossy (join_segments (drop 2 params))) = (ti, bo)" by fastforce
  obtain ti' where "(case ti of None \<Rightarrow> Some None | Some t \<Rightarrow> map_option Some (truncate_utf8 t)) = Some ti'"
  proof (cases ti)
    case (Some x)
    from t [of x] obtain y where "truncate_utf8 x = Some y" ..
    with Some that show ?thesis by simp
  qed (use that in simp)
  moreover obtain bo' where "truncate_utf8 bo = Some bo'" using t by blast
  ultimately have "safe_result cols rows (dispatch_osc777 params p)"
    using p push s by (simp add: dispatch_osc777_def)
  with p ne o133 o9 show ?thesis by (cases params) (auto simp: osc_dispatch_def)
qed

lemma perform_safe:
  assumes w: "width_ok width" and p: "perf_wf cols rows p" and a: "action_ok a"
  shows "safe_result cols rows (perform width now a p)"
proof (cases a)
  case (VPrint c)
  from p w have "stays_wf2 cols rows (print_screen width c (pf_screen p, pf_scrollback p))"
    by (auto simp: perf_wf_def intro: print_screen_wf)
  with p VPrint show ?thesis by (simp add: on_both_safe)
qed (use p a in \<open>auto simp: perf_execute_safe osc_dispatch_safe csi_dispatch_safe esc_dispatch_safe\<close>)

subsection \<open>What no callback changes\<close>

text \<open>Which buffer the performer works on is decided by \<open>feed\<close> alone.\<close>

lemma mode_steps_alternate [simp]:
  "pf_using_alternate (decset_step w p) = pf_using_alternate p"
  "pf_using_alternate (decrst_step w p) = pf_using_alternate p"
  by (simp_all add: decset_step_def decrst_step_def Let_def)

lemma fold_modes_alternate [simp]:
  "pf_using_alternate (fold decset_step ps p) = pf_using_alternate p"
  "pf_using_alternate (fold decrst_step ps p) = pf_using_alternate p"
  by (induction ps arbitrary: p) simp_all

lemma on_screen_alternate: "on_screen f p = Some p' \<Longrightarrow> pf_using_alternate p' = pf_using_alternate p"
  by (auto simp: on_screen_def)

lemma on_both_alternate: "on_both f p = Some p' \<Longrightarrow> pf_using_alternate p' = pf_using_alternate p"
  by (auto simp: on_both_def)

lemma osc_dispatch_alternate:
  "osc_dispatch now params p = Some p' \<Longrightarrow> pf_using_alternate p' = pf_using_alternate p"
  by (auto simp: osc_dispatch_def dispatch_osc9_def dispatch_osc777_def dispatch_osc133_def
      osc133_prompt_def osc133_start_def osc133_finish_def push_osc_def Let_def bind_eq_Some_conv
      split: list.splits if_splits prod.splits)

lemma csi_standard_alternate:
  "csi_standard params a p = Some p' \<Longrightarrow> pf_using_alternate p' = pf_using_alternate p"
  by (simp add: csi_standard_def Let_def on_screen_alternate on_both_alternate split: if_splits)

lemma perform_alternate:
  "perform width now a p = Some p' \<Longrightarrow> pf_using_alternate p' = pf_using_alternate p"
proof (induction width now a p rule: perform.induct)
  case (2 width now b p)
  then show ?case by (auto simp: perf_execute_def Let_def split: if_splits)
next
  case (7 width now params ims ign action p)
  then show ?case
    by (auto simp: csi_dispatch_def csi_private_def Let_def csi_standard_alternate split: if_splits)
next
  case (8 width now ims ign b p)
  then show ?case
    by (auto simp: esc_dispatch_def save_cursor_def restore_cursor_def on_screen_alternate
        split: if_splits option.splits)
qed (simp_all add: on_both_alternate osc_dispatch_alternate)

lemma fold_perform_alternate:
  "fold_opt (perform width now) as p = Some p' \<Longrightarrow> pf_using_alternate p' = pf_using_alternate p"
  by (induction as arbitrary: p) (auto simp: bind_eq_Some_conv dest!: perform_alternate)

end
