(* ===== verification/VtScreen.thy ===== *)
theory VtScreen
  imports VtSafety
begin

section \<open>The virtual screen\<close>

text \<open>
  \<open>src/src/vt_screen/screen.rs\<close>: the terminal a session keeps on the server. \<open>feed\<close> runs the
  bytes of the PTY through the parser and the performer and switches between the primary and
  the alternate buffer; \<open>resize\<close> changes the size of both; the snapshot functions produce what
  a reconnecting client replays. The parser is the parameter \<open>advance\<close>: from a parser state and
  a byte, the next state and the callbacks it makes, in order.
\<close>

subsection \<open>State\<close>

record 'ps virtual_screen =
  vs_primary :: screen_buffer
  vs_alternate :: screen_buffer
  vs_using_alternate :: bool
  vs_scrollback :: "row list"
  vs_parser :: 'ps
  vs_cols :: nat
  vs_rows :: nat
  vs_saved_cursor :: "cursor_state option"
  vs_command_state :: command_state
  vs_pending_command :: "pending_command option"
  vs_command_results :: "command_result list"
  vs_last_output_time :: "nat option"
  vs_sync_events :: "sync_event list"
  vs_osc_actions :: "osc_action list"
  vs_private_modes :: private_modes

type_synonym 'ps advance = "'ps \<Rightarrow> u8 \<Rightarrow> 'ps \<times> vte_action list"

text \<open>\<open>VirtualScreen::new\<close>, with the parser's own initial state.\<close>

definition new_screen :: "'ps \<Rightarrow> nat \<Rightarrow> nat \<Rightarrow> 'ps virtual_screen option" where
  "new_screen parser cols rows = do {
     prim \<leftarrow> new_buffer cols rows;
     alt \<leftarrow> new_buffer cols rows;
     Some \<lparr>vs_primary = prim, vs_alternate = alt, vs_using_alternate = False, vs_scrollback = [],
       vs_parser = parser, vs_cols = cols, vs_rows = rows, vs_saved_cursor = None,
       vs_command_state = Idle, vs_pending_command = None, vs_command_results = [],
       vs_last_output_time = None, vs_sync_events = [], vs_osc_actions = [],
       vs_private_modes = default_modes\<rparr>
   }"

definition drain_sync_events :: "'ps virtual_screen \<Rightarrow> sync_event list \<times> 'ps virtual_screen" where
  "drain_sync_events vs = (vs_sync_events vs, vs\<lparr>vs_sync_events := []\<rparr>)"

definition drain_command_results :: "'ps virtual_screen \<Rightarrow> command_result list \<times> 'ps virtual_screen" where
  "drain_command_results vs = (vs_command_results vs, vs\<lparr>vs_command_results := []\<rparr>)"

definition drain_osc_actions :: "'ps virtual_screen \<Rightarrow> osc_action list \<times> 'ps virtual_screen" where
  "drain_osc_actions vs = (vs_osc_actions vs, vs\<lparr>vs_osc_actions := []\<rparr>)"

definition active_buffer :: "'ps virtual_screen \<Rightarrow> screen_buffer" where
  "active_buffer vs = (if vs_using_alternate vs then vs_alternate vs else vs_primary vs)"

subsection \<open>Command tracking\<close>

definition take_command_output :: "'ps virtual_screen \<Rightarrow> rstring \<times> 'ps virtual_screen" where
  "take_command_output vs =
     (case vs_pending_command vs of
        None \<Rightarrow> ([], vs)
      | Some pc \<Rightarrow> (from_utf8_lossy (pc_output_buf pc),
                   vs\<lparr>vs_pending_command := Some (pc\<lparr>pc_output_buf := []\<rparr>)\<rparr>))"

definition tracking :: "command_state \<Rightarrow> bool" where
  "tracking s \<longleftrightarrow> s = CommandStart \<or> s = Executing"

definition has_shell_integration :: "'ps virtual_screen \<Rightarrow> bool" where
  "has_shell_integration vs \<longleftrightarrow> vs_command_results vs \<noteq> [] \<or> tracking (vs_command_state vs)"

definition should_check_prompt :: "nat \<Rightarrow> 'ps virtual_screen \<Rightarrow> bool" where
  "should_check_prompt now vs \<longleftrightarrow>
     (case vs_last_output_time vs of None \<Rightarrow> False | Some t \<Rightarrow> 100 \<le> now - t) \<and>
     vs_command_state vs = Idle"

text \<open>\<open>char::is_whitespace\<close>, and \<open>str::trim_end\<close>.\<close>

definition is_whitespace :: "rchar \<Rightarrow> bool" where
  "is_whitespace c \<longleftrightarrow> (9 \<le> c \<and> c \<le> 13) \<or> c = 32 \<or> c = 0x85 \<or> c = 0xA0 \<or> c = 0x1680 \<or>
     (0x2000 \<le> c \<and> c \<le> 0x200A) \<or> c = 0x2028 \<or> c = 0x2029 \<or> c = 0x202F \<or> c = 0x205F \<or> c = 0x3000"

definition trim_end :: "rstring \<Rightarrow> rstring" where
  "trim_end s = rev (dropWhile is_whitespace (rev s))"

definition prompt_patterns :: "string list" where
  "prompt_patterns = [''^[#$%>] ?$'', ''^[a-zA-Z0-9_.'' @ [CHR 0x5C] @ ''-]+@[a-zA-Z0-9_.'' @ [CHR 0x5C] @ ''-]+[:~].*[$#] ?$'',
     ''^[a-zA-Z0-9_.'' @ [CHR 0x5C] @ ''-]+@.*'' @ [CHR 0x5C] @ ''$ ?$'']"

text \<open>
  \<open>detect_prompt\<close>: the text of the cursor line up to the cursor is matched against the
  patterns by the crate \<open>regex\<close>, the parameter \<open>is_match\<close>.
\<close>

definition detect_prompt ::
    "(string \<Rightarrow> rstring \<Rightarrow> bool) \<Rightarrow> nat \<Rightarrow> 'ps virtual_screen \<Rightarrow>
     (command_result option \<times> 'ps virtual_screen) option" where
  "detect_prompt is_match now vs =
     (let buf = active_buffer vs; r = crow buf
      in if r \<ge> sb_rows buf then Some (None, vs)
         else do {
           rw \<leftarrow> vec_get (sb_cells buf) r;
           let line = trim_end (map (\<lambda>c. if cl_ch c = 0 then SPACE else cl_ch c) (take (ccol buf + 1) rw));
           if list_ex (\<lambda>re. is_match re line) prompt_patterns
           then Some (Some \<lparr>cr_exit_code = -1,
                   cr_duration_ms = (case vs_pending_command vs of None \<Rightarrow> 0 | Some pc \<Rightarrow> elapsed_ms now pc),
                   cr_method = ''prompt_detection''\<rparr>,
                 vs\<lparr>vs_command_state := Idle, vs_pending_command := None\<rparr>)
           else Some (None, vs)
         })"

definition begin_command_tracking :: "nat \<Rightarrow> 'ps virtual_screen \<Rightarrow> 'ps virtual_screen" where
  "begin_command_tracking now vs =
     vs\<lparr>vs_command_state := CommandStart, vs_pending_command := Some (start_command now)\<rparr>"

definition finish_command_tracking ::
    "nat \<Rightarrow> int \<Rightarrow> 'ps virtual_screen \<Rightarrow> (rstring \<times> command_result) \<times> 'ps virtual_screen" where
  "finish_command_tracking now exit_code vs =
     ((case vs_pending_command vs of None \<Rightarrow> [] | Some pc \<Rightarrow> from_utf8_lossy (pc_output_buf pc),
       \<lparr>cr_exit_code = exit_code,
        cr_duration_ms = (case vs_pending_command vs of None \<Rightarrow> 0 | Some pc \<Rightarrow> elapsed_ms now pc),
        cr_method = ''timeout''\<rparr>),
      vs\<lparr>vs_pending_command := None, vs_command_state := Idle\<rparr>)"

subsection \<open>Feeding output\<close>

definition OUTPUT_CAP :: nat where
  "OUTPUT_CAP = 1024 * 1024"

definition collect_output :: "u8 list \<Rightarrow> pending_command \<Rightarrow> pending_command" where
  "collect_output bytes pc =
     (let buf = pc_output_buf pc @ filter (\<lambda>b. unat b \<ge> 0x20 \<and> unat b \<noteq> 0x7f) bytes
      in pc\<lparr>pc_output_buf := (if length buf > OUTPUT_CAP then drop (512 * 1024) buf else buf)\<rparr>)"

definition collect_step :: "u8 list \<Rightarrow> 'ps virtual_screen \<Rightarrow> 'ps virtual_screen" where
  "collect_step bytes vs =
     (if tracking (vs_command_state vs)
      then vs\<lparr>vs_pending_command := map_option (collect_output bytes) (vs_pending_command vs)\<rparr>
      else vs)"

text \<open>
  The performer borrows the fields of the screen: \<open>borrow\<close> builds it on one of the two
  buffers, \<open>give_back\<close> is what its writes have done to the screen.
\<close>

definition borrow :: "bool \<Rightarrow> 'ps virtual_screen \<Rightarrow> performer" where
  "borrow alt vs =
     \<lparr>pf_screen = (if alt then vs_alternate vs else vs_primary vs),
      pf_scrollback = vs_scrollback vs, pf_saved_cursor = vs_saved_cursor vs,
      pf_pending_switch = None, pf_using_alternate = alt,
      pf_command_state = vs_command_state vs, pf_pending_command = vs_pending_command vs,
      pf_command_results = vs_command_results vs, pf_sync_events = vs_sync_events vs,
      pf_osc_actions = vs_osc_actions vs, pf_private_modes = vs_private_modes vs\<rparr>"

definition give_back :: "performer \<Rightarrow> 'ps virtual_screen \<Rightarrow> 'ps virtual_screen" where
  "give_back p vs =
     (if pf_using_alternate p then vs\<lparr>vs_alternate := pf_screen p\<rparr> else vs\<lparr>vs_primary := pf_screen p\<rparr>)
     \<lparr>vs_scrollback := pf_scrollback p, vs_saved_cursor := pf_saved_cursor p,
      vs_command_state := pf_command_state p, vs_pending_command := pf_pending_command p,
      vs_command_results := pf_command_results p, vs_sync_events := pf_sync_events p,
      vs_osc_actions := pf_osc_actions p, vs_private_modes := pf_private_modes p\<rparr>"

text \<open>What follows each byte: \<open>pending_switch\<close> is taken and acted on.\<close>

definition switch_step ::
    "performer \<times> 'ps virtual_screen \<Rightarrow> (performer \<times> 'ps virtual_screen) option" where
  "switch_step = (\<lambda>(p, vs).
     (case pf_pending_switch p of
        None \<Rightarrow> Some (p, vs)
      | Some enter \<Rightarrow>
          let p1 = p\<lparr>pf_pending_switch := None\<rparr>
          in if enter \<and> \<not> pf_using_alternate p1 then do {
               let vs1 = give_back p1 vs;
               alt \<leftarrow> new_buffer (vs_cols vs1) (vs_rows vs1);
               let vs2 = vs1\<lparr>vs_saved_cursor := Some (sb_cursor (vs_primary vs1)), vs_alternate := alt\<rparr>;
               Some (borrow True vs2, vs2)
             }
             else if \<not> enter \<and> pf_using_alternate p1 then
               let vs1 = give_back p1 vs; p2 = borrow False vs1
               in Some ((case vs_saved_cursor vs1 of
                           None \<Rightarrow> p2
                         | Some c \<Rightarrow> p2\<lparr>pf_screen := (pf_screen p2)\<lparr>sb_cursor := c\<rparr>\<rparr>), vs1)
             else Some (p1, vs)))"

definition byte_step ::
    "'ps advance \<Rightarrow> (rchar \<Rightarrow> nat option) \<Rightarrow> nat \<Rightarrow> u8 \<Rightarrow> performer \<times> 'ps virtual_screen \<Rightarrow>
     (performer \<times> 'ps virtual_screen) option" where
  "byte_step advance width now byte = (\<lambda>(p, vs).
     (case advance (vs_parser vs) byte of
        (parser', actions) \<Rightarrow>
          fold_opt (perform width now) actions p \<bind>
          (\<lambda>p'. switch_step (p', vs\<lparr>vs_parser := parser'\<rparr>))))"

definition feed ::
    "'ps advance \<Rightarrow> (rchar \<Rightarrow> nat option) \<Rightarrow> nat \<Rightarrow> u8 list \<Rightarrow> 'ps virtual_screen \<Rightarrow>
     'ps virtual_screen option" where
  "feed advance width now bytes vs = do {
     let vs1 = collect_step bytes (vs\<lparr>vs_last_output_time := Some now\<rparr>);
     (p, vs2) \<leftarrow> fold_opt (byte_step advance width now) bytes (borrow (vs_using_alternate vs1) vs1, vs1);
     Some ((give_back p vs2)\<lparr>vs_using_alternate := pf_using_alternate p\<rparr>)
   }"

subsection \<open>Resizing\<close>

definition resize_screen :: "nat \<Rightarrow> nat \<Rightarrow> 'ps virtual_screen \<Rightarrow> 'ps virtual_screen option" where
  "resize_screen cols rows vs = do {
     (prim, sb) \<leftarrow> resize_buffer cols rows (vs_primary vs) (Some (vs_scrollback vs));
     (alt, _) \<leftarrow> resize_buffer cols rows (vs_alternate vs) None;
     Some (vs\<lparr>vs_cols := cols, vs_rows := rows, vs_primary := prim, vs_alternate := alt,
              vs_scrollback := (case sb of None \<Rightarrow> vs_scrollback vs | Some s \<Rightarrow> s)\<rparr>)
   }"

subsection \<open>Snapshots\<close>

definition CRLF :: rstring where
  "CRLF = [13, 10]"

definition scrollback_line :: "row \<Rightarrow> rstring" where
  "scrollback_line r = fst (render_line r default_attrs) @ CRLF"

text \<open>The loop: the text of the open chunk, its number of lines, and the chunks made so far.\<close>

fun chunk_loop :: "nat \<Rightarrow> row list \<Rightarrow> rstring \<Rightarrow> nat \<Rightarrow> rstring list" where
  "chunk_loop n [] cur k = (if cur \<noteq> [] then [cur] else [])"
| "chunk_loop n (r # rs) cur k =
     (let cur' = cur @ scrollback_line r; k' = k + 1
      in if k' \<ge> n then cur' # chunk_loop n rs [] 0 else chunk_loop n rs cur' k')"

definition snapshot_scrollback_chunks :: "nat \<Rightarrow> 'ps virtual_screen \<Rightarrow> rstring list" where
  "snapshot_scrollback_chunks n vs = (if vs_scrollback vs = [] then [] else chunk_loop n (vs_scrollback vs) [] 0)"

definition hide_cursor :: rstring where "hide_cursor = ESC @ lit ''[?25l''"
definition show_cursor :: rstring where "show_cursor = ESC @ lit ''[?25h''"
definition enter_alternate :: rstring where "enter_alternate = ESC @ lit ''[?1049h''"

definition scroll_out_padding :: "'ps virtual_screen \<Rightarrow> rstring" where
  "scroll_out_padding vs =
     (let pending = min (length (vs_scrollback vs)) (vs_rows vs - 1)
      in if pending > 0 then ESC @ lit ''['' @ dec (vs_rows vs) @ lit '';1H'' @ replicate pending 10 else [])"

definition snapshot_for_replay :: "'ps virtual_screen \<Rightarrow> rstring option" where
  "snapshot_for_replay vs = do {
     prim_cursor \<leftarrow> restore_cursor_state (vs_primary vs);
     body \<leftarrow>
       (if vs_using_alternate vs then do {
          alt_cursor \<leftarrow> restore_cursor_state (vs_alternate vs);
          Some (prim_cursor @ enter_alternate @ sgr_reset @ render_buffer (vs_alternate vs) @
                write_replay (vs_private_modes vs) @ alt_cursor)
        } else Some (write_replay (vs_private_modes vs) @ prim_cursor));
     Some (hide_cursor @ scroll_out_padding vs @ sgr_reset @ render_buffer (vs_primary vs) @ body @ show_cursor)
   }"

definition snapshot_screen :: "'ps virtual_screen \<Rightarrow> rstring option" where
  "snapshot_screen vs = do {
     let buf = active_buffer vs;
     cursor \<leftarrow> restore_cursor_state buf;
     Some (hide_cursor @ sgr_reset @ (if vs_using_alternate vs then enter_alternate else []) @
           render_buffer buf @ write_replay (vs_private_modes vs) @ cursor @ show_cursor)
   }"

definition plain_visible :: "cell \<Rightarrow> bool" where
  "plain_visible c \<longleftrightarrow> cl_ch c \<noteq> SPACE \<and> cl_ch c \<noteq> 0"

definition plain_line :: "row \<Rightarrow> rstring" where
  "plain_line r = map (\<lambda>c. if cl_ch c = 0 then SPACE else cl_ch c) (take (last_content plain_visible r) r)"

definition snapshot_plain :: "'ps virtual_screen \<Rightarrow> rstring" where
  "snapshot_plain vs = join [10] (map plain_line (sb_cells (active_buffer vs)))"

definition snapshot_scrollback_plain :: "nat option \<Rightarrow> 'ps virtual_screen \<Rightarrow> rstring list" where
  "snapshot_scrollback_plain max_lines vs =
     (if vs_scrollback vs = [] then []
      else
        (let skip = (case max_lines of Some m \<Rightarrow> length (vs_scrollback vs) - m | None \<Rightarrow> 0)
         in map plain_line (drop skip (vs_scrollback vs))))"

definition cursor_position :: "'ps virtual_screen \<Rightarrow> nat \<times> nat" where
  "cursor_position vs = (crow (active_buffer vs), ccol (active_buffer vs))"

end
