(* ===== verification/VtReplay.thy ===== *)
theory VtReplay
  imports VtDispatch VtScreen
begin

section \<open>What a client that replays the output gets back\<close>

text \<open>
  The strings written by \<open>src/src/vt_screen/render.rs\<close>, \<open>data.rs\<close> and \<open>screen.rs\<close> against the
  meaning the performer gives to them: the attribute encoder and the private modes are read
  back by \<open>apply_sgr\<close> and \<open>decset_step\<close>, and the scrollback chunks add up to the scrollback.
  \<open>pieces\<close>, \<open>csi_params\<close> and \<open>decset_codes\<close> are specifications: the way ECMA-48 writes the
  parameters of a control sequence.
\<close>

subsection \<open>Parameters of a control sequence\<close>

fun pieces :: "rchar \<Rightarrow> rstring \<Rightarrow> rstring list" where
  "pieces s [] = [[]]"
| "pieces s (c # cs) =
     (if c = s then [] # pieces s cs
      else (case pieces s cs of [] \<Rightarrow> [[c]] | p # ps \<Rightarrow> (c # p) # ps))"

definition csi_params :: "rstring \<Rightarrow> u16 list list" where
  "csi_params s = map (\<lambda>p. [of_nat (undec p)]) (pieces 59 s)"

lemma pieces_nonempty [simp]: "pieces s cs \<noteq> []"
  by (cases cs) (auto split: list.splits)

lemma split_on_free: "s \<notin> set xs \<Longrightarrow> pieces s xs = [xs]"
  by (induction xs) auto

lemma pieces_append: "pieces s (xs @ s # ys) = pieces s xs @ pieces s ys"
  by (induction xs) (auto split: list.splits)

lemma split_on_join: "xs \<noteq> [] \<Longrightarrow> pieces s (join [s] xs) = concat (map (pieces s) xs)"
  by (induction "[s]" xs rule: join.induct) (simp_all add: pieces_append)

lemma dec_free: "c < 48 \<or> 58 \<le> c \<Longrightarrow> c \<notin> set (dec n)"
  using dec_digits by fastforce

lemma split_on_dec: "pieces 59 (dec n) = [dec n]"
  by (rule split_on_free) (simp add: dec_free)

lemma split_on_dec_append: "pieces 59 (dec n @ 59 # ys) = dec n # pieces 59 ys"
  by (simp add: pieces_append split_on_dec)

subsection \<open>Attributes\<close>

text \<open>The codes that \<open>encode_sgr\<close> writes, as numbers.\<close>

fun color_codes :: "nat \<Rightarrow> nat \<Rightarrow> nat \<Rightarrow> color option \<Rightarrow> nat list" where
  "color_codes lo hi ext (Some (Indexed c)) =
     (if unat c < 8 then [lo + unat c] else if unat c < 16 then [hi + unat c - 8] else [ext, 5, unat c])"
| "color_codes lo hi ext (Some (Rgb r g b)) = [ext, 2, unat r, unat g, unat b]"
| "color_codes lo hi ext None = []"

definition flag_code :: "bool \<Rightarrow> nat \<Rightarrow> nat list" where
  "flag_code b n = (if b then [n] else [])"

definition sgr_codes :: "cell_attrs \<Rightarrow> nat list" where
  "sgr_codes a = [0] @ flag_code (at_bold a) 1 @ flag_code (at_dim a) 2 @ flag_code (at_italic a) 3 @
     flag_code (at_underline a) 4 @ flag_code (at_inverse a) 7 @ flag_code (at_strikethrough a) 9 @
     color_codes 30 90 38 (at_fg a) @ color_codes 40 100 48 (at_bg a)"

definition params_of :: "rstring list \<Rightarrow> nat list" where
  "params_of xs = map undec (concat (map (pieces 59) xs))"

lemma params_of_simps [simp]:
  "params_of [] = []" "params_of (xs @ ys) = params_of xs @ params_of ys"
  "params_of (if b then xs else ys) = (if b then params_of xs else params_of ys)"
  by (simp_all add: params_of_def)

lemma params_of_digit:
  "params_of [lit ''0''] = [0]" "params_of [lit ''1''] = [1]" "params_of [lit ''2''] = [2]"
  "params_of [lit ''3''] = [3]" "params_of [lit ''4''] = [4]" "params_of [lit ''7''] = [7]"
  "params_of [lit ''9''] = [9]"
  by (simp_all add: params_of_def lit_def undec_def)

lemma split_on_ext:
  "pieces 59 (lit ''38'' @ lit '';5;'' @ s) = lit ''38'' # lit ''5'' # pieces 59 s"
  "pieces 59 (lit ''48'' @ lit '';5;'' @ s) = lit ''48'' # lit ''5'' # pieces 59 s"
  "pieces 59 (lit ''38'' @ lit '';2;'' @ s) = lit ''38'' # lit ''2'' # pieces 59 s"
  "pieces 59 (lit ''48'' @ lit '';2;'' @ s) = lit ''48'' # lit ''2'' # pieces 59 s"
  by (simp_all add: lit_def)

lemma undec_lit:
  "undec (lit ''38'') = 38" "undec (lit ''48'') = 48" "undec (lit ''5'') = 5" "undec (lit ''2'') = 2"
  by (simp_all add: lit_def undec_def)

lemma lit_semicolon: "lit '';'' = [59]"
  by (simp add: lit_def)

lemma split_on_semicolon: "pieces 59 (s @ lit '';'' @ t) = pieces 59 s @ pieces 59 t"
  by (simp add: lit_semicolon pieces_append)

lemma params_of_single: "params_of [s] = map undec (pieces 59 s)"
  by (simp add: params_of_def)

lemma params_of_color:
  "params_of (color_params 30 90 ''38'' c) = color_codes 30 90 38 c"
  "params_of (color_params 40 100 ''48'' c) = color_codes 40 100 48 c"
proof -
  show "params_of (color_params 30 90 ''38'' c) = color_codes 30 90 38 c"
  proof (cases c)
    case (Some col)
    then show ?thesis
      by (cases col) (simp_all only: Some color_params.simps color_codes.simps params_of_simps params_of_single split_on_ext
          split_on_semicolon split_on_dec list.map undec_lit undec_dec append_Cons append_Nil split: if_split)
  qed simp
  show "params_of (color_params 40 100 ''48'' c) = color_codes 40 100 48 c"
  proof (cases c)
    case (Some col)
    then show ?thesis
      by (cases col) (simp_all only: Some color_params.simps color_codes.simps params_of_simps params_of_single split_on_ext
          split_on_semicolon split_on_dec list.map undec_lit undec_dec append_Cons append_Nil split: if_split)
  qed simp
qed

lemma params_of_sgr: "params_of (sgr_param_strings a) = sgr_codes a"
  unfolding sgr_param_strings_def sgr_codes_def flag_code_def params_of_simps params_of_color params_of_digit ..

text \<open>Codes as the items of the loop.\<close>

definition items :: "nat list \<Rightarrow> sgr_item list" where
  "items ns = map (\<lambda>n. (of_nat n, None)) ns"

lemma items_simps [simp]:
  "items [] = []" "items (n # ns) = (of_nat n, None) # items ns" "items (ns @ ms) = items ns @ items ms"
  by (simp_all add: items_def)

lemma sgr_items_single: "sgr_items (map (\<lambda>n. [of_nat n]) ns) = items ns"
  by (induction ns) (simp_all add: sgr_items_def)

lemma unat_u16: "n < 65536 \<Longrightarrow> unat (of_nat n :: u16) = n"
  by (simp add: unat_of_nat take_bit_nat_eq_self)

lemma unat_u8_less: "unat (c :: u8) < 256"
  using unsigned_less [of c] by simp

lemma to_u8_ucast: "to_u8 (ucast c) = c"
  by (rule bit_word_eqI) (auto simp: to_u8_def bit_simps)

lemma sgr_loop_flag:
  "sgr_loop (items (flag_code b 1) @ rest) a = sgr_loop rest (a\<lparr>at_bold := at_bold a \<or> b\<rparr>)"
  "sgr_loop (items (flag_code b 2) @ rest) a = sgr_loop rest (a\<lparr>at_dim := at_dim a \<or> b\<rparr>)"
  "sgr_loop (items (flag_code b 3) @ rest) a = sgr_loop rest (a\<lparr>at_italic := at_italic a \<or> b\<rparr>)"
  "sgr_loop (items (flag_code b 4) @ rest) a = sgr_loop rest (a\<lparr>at_underline := at_underline a \<or> b\<rparr>)"
  "sgr_loop (items (flag_code b 7) @ rest) a = sgr_loop rest (a\<lparr>at_inverse := at_inverse a \<or> b\<rparr>)"
  "sgr_loop (items (flag_code b 9) @ rest) a = sgr_loop rest (a\<lparr>at_strikethrough := at_strikethrough a \<or> b\<rparr>)"
  by (simp_all add: flag_code_def sgr_simple_def)

text \<open>A colour code between \<open>lo\<close> and \<open>lo + 7\<close>, and one for the bright colours.\<close>

lemma sgr_loop_color_code:
  "n < 1000 \<Longrightarrow> n \<noteq> 38 \<Longrightarrow> n \<noteq> 48 \<Longrightarrow>
     sgr_loop ((of_nat n, None) # rest) a = sgr_loop rest (sgr_simple n None a)"
  by (simp add: unat_u16)

lemma sgr_simple_color:
  "m < 8 \<Longrightarrow> sgr_simple (30 + m) s a = a\<lparr>at_fg := Some (Indexed (of_nat m))\<rparr>"
  "m < 8 \<Longrightarrow> sgr_simple (40 + m) s a = a\<lparr>at_bg := Some (Indexed (of_nat m))\<rparr>"
  "8 \<le> m \<Longrightarrow> m < 16 \<Longrightarrow> sgr_simple (82 + m) s a = a\<lparr>at_fg := Some (Indexed (of_nat m))\<rparr>"
  "8 \<le> m \<Longrightarrow> m < 16 \<Longrightarrow> sgr_simple (92 + m) s a = a\<lparr>at_bg := Some (Indexed (of_nat m))\<rparr>"
  by (auto simp: sgr_simple_def)

lemma sgr_loop_ext:
  "sgr_loop ((38, None) # (5, None) # (c, None) # rest) a = sgr_loop rest (a\<lparr>at_fg := Some (Indexed (to_u8 c))\<rparr>)"
  "sgr_loop ((48, None) # (5, None) # (c, None) # rest) a = sgr_loop rest (a\<lparr>at_bg := Some (Indexed (to_u8 c))\<rparr>)"
  "sgr_loop ((38, None) # (2, None) # (r, None) # (g, None) # (bl, None) # rest) a =
     sgr_loop rest (a\<lparr>at_fg := Some (Rgb (to_u8 r) (to_u8 g) (to_u8 bl))\<rparr>)"
  "sgr_loop ((48, None) # (2, None) # (r, None) # (g, None) # (bl, None) # rest) a =
     sgr_loop rest (a\<lparr>at_bg := Some (Rgb (to_u8 r) (to_u8 g) (to_u8 bl))\<rparr>)"
  by simp_all

lemma sgr_loop_fg:
  "sgr_loop (items (color_codes 30 90 38 c) @ rest) a =
     sgr_loop rest (case c of None \<Rightarrow> a | Some col \<Rightarrow> a\<lparr>at_fg := Some col\<rparr>)"
proof (cases "(30 :: nat, 90 :: nat, 38 :: nat, c)" rule: color_codes.cases)
  case (1 lo hi ext k)
  then show ?thesis
    by (simp add: sgr_loop_color_code sgr_simple_color sgr_loop_ext to_u8_ucast del: sgr_loop.simps of_nat_add)
qed (simp_all add: sgr_loop_ext to_u8_ucast del: sgr_loop.simps)

lemma sgr_loop_bg:
  "sgr_loop (items (color_codes 40 100 48 c) @ rest) a =
     sgr_loop rest (case c of None \<Rightarrow> a | Some col \<Rightarrow> a\<lparr>at_bg := Some col\<rparr>)"
proof (cases "(40 :: nat, 100 :: nat, 48 :: nat, c)" rule: color_codes.cases)
  case (1 lo hi ext k)
  then show ?thesis
    by (simp add: sgr_loop_color_code sgr_simple_color sgr_loop_ext to_u8_ucast del: sgr_loop.simps of_nat_add)
qed (simp_all add: sgr_loop_ext to_u8_ucast del: sgr_loop.simps)

lemma sgr_codes_apply: "sgr_loop (items (sgr_codes a)) b = a"
proof -
  have reset: "sgr_loop (items [0] @ rest) b = sgr_loop rest default_attrs" for rest
    by (simp add: sgr_simple_def)
  have last: "sgr_loop (items (color_codes 40 100 48 c)) x =
      (case c of None \<Rightarrow> x | Some col \<Rightarrow> x\<lparr>at_bg := Some col\<rparr>)" for c x
    using sgr_loop_bg [of c "[]" x] by simp
  show ?thesis
    unfolding sgr_codes_def items_simps(3)
    by (simp only: reset sgr_loop_flag sgr_loop_fg last)
       (cases a; simp add: default_attrs_def split: option.split)
qed

text \<open>
  C38. The attribute encoder is read back exactly: whatever attributes were set before, applying
  the sequence written for a cell leaves precisely the attributes of that cell.
\<close>

theorem sgr_roundtrip:
  "\<exists>ps. encode_sgr a = ESC @ lit ''['' @ ps @ lit ''m'' \<and> apply_sgr (csi_params ps) b = a"
proof (intro exI conjI)
  let ?ps = "join (lit '';'') (sgr_param_strings a)"
  show "encode_sgr a = ESC @ lit ''['' @ ?ps @ lit ''m''" by (simp add: encode_sgr_def)
  have ne: "sgr_param_strings a \<noteq> []" by (simp add: sgr_param_strings_def)
  have "csi_params ?ps = map (\<lambda>n. [of_nat n]) (params_of (sgr_param_strings a))"
    by (simp add: csi_params_def params_of_def lit_semicolon split_on_join [OF ne] comp_def map_concat)
  then have "csi_params ?ps = map (\<lambda>n. [of_nat n]) (sgr_codes a)" by (simp add: params_of_sgr)
  moreover have "sgr_codes a \<noteq> []" by (simp add: sgr_codes_def)
  ultimately show "apply_sgr (csi_params ?ps) b = a"
    by (simp add: apply_sgr_def sgr_items_single sgr_codes_apply)
qed

subsection \<open>Private modes\<close>

text \<open>The mode numbers set by a string of \<open>ESC [ ? n h\<close> sequences.\<close>

definition decset_codes :: "rstring \<Rightarrow> u16 list" where
  "decset_codes s = map (\<lambda>p. of_nat (undec (butlast (drop 2 p)))) (tl (pieces 0x1b s))"

definition mode_names :: "private_modes \<Rightarrow> string list" where
  "mode_names m =
     (case pm_encoding m of EncDefault \<Rightarrow> [] | Sgr \<Rightarrow> [''1006''] | SgrPixels \<Rightarrow> [''1016'']) @
     (case pm_mouse m of MouseNone \<Rightarrow> [] | X10 \<Rightarrow> [''9''] | MouseNormal \<Rightarrow> [''1000'']
        | MouseButton \<Rightarrow> [''1002''] | MouseAny \<Rightarrow> [''1003'']) @
     (if pm_cursor_keys m then [''1''] else []) @ (if pm_keypad m then [''66''] else []) @
     (if pm_bracketed_paste m then [''2004''] else [])"

lemma write_replay_names: "write_replay m = concat (map decset (mode_names m))"
  by (simp add: write_replay_def mode_names_def split: mouse_encoding.split mouse_protocol.split)

lemma split_on_decset:
  "0x1b \<notin> set (lit n) \<Longrightarrow> tl (pieces 0x1b (decset n @ s)) =
     (lit ''[?'' @ lit n @ lit ''h'' @ hd (pieces 0x1b s)) # tl (pieces 0x1b s)"
proof -
  assume n: "0x1b \<notin> set (lit n)"
  have glue: "0x1b \<notin> set xs \<Longrightarrow> pieces 0x1b (xs @ ys) = (xs @ hd (pieces 0x1b ys)) # tl (pieces 0x1b ys)"
    for xs ys by (induction xs) (auto split: list.splits)
  have "0x1b \<notin> set (lit ''[?'' @ lit n @ lit ''h'')" using n by (simp add: lit_def)
  from glue [OF this, of s] show ?thesis by (simp add: decset_def ESC_def)
qed

lemma hd_split_on_decsets:
  "hd (pieces 0x1b (concat (map decset ns))) = []"
  by (cases ns) (simp_all add: decset_def ESC_def)

lemma decset_codes_concat:
  "list_all (\<lambda>n. 0x1b \<notin> set (lit n)) ns \<Longrightarrow>
     decset_codes (concat (map decset ns)) = map (\<lambda>n. of_nat (undec (lit n))) ns"
proof (induction ns)
  case Nil
  then show ?case by (simp add: decset_codes_def)
next
  case (Cons n ns)
  have "butlast (drop 2 (lit ''[?'' @ lit n @ lit ''h'')) = lit n" by (simp add: lit_def butlast_append)
  with Cons show ?case by (simp add: decset_codes_def split_on_decset hd_split_on_decsets)
qed

lemma mode_names_free: "list_all (\<lambda>n. 0x1b \<notin> set (lit n)) (mode_names m)"
  by (simp add: mode_names_def lit_def split: mouse_encoding.split mouse_protocol.split)

definition mode_codes :: "private_modes \<Rightarrow> u16 list" where
  "mode_codes m =
     (case pm_encoding m of EncDefault \<Rightarrow> [] | Sgr \<Rightarrow> [1006] | SgrPixels \<Rightarrow> [1016]) @
     (case pm_mouse m of MouseNone \<Rightarrow> [] | X10 \<Rightarrow> [9] | MouseNormal \<Rightarrow> [1000]
        | MouseButton \<Rightarrow> [1002] | MouseAny \<Rightarrow> [1003]) @
     (if pm_cursor_keys m then [1] else []) @ (if pm_keypad m then [66] else []) @
     (if pm_bracketed_paste m then [2004] else [])"

lemma decset_codes_replay: "decset_codes (write_replay m) = mode_codes m"
  unfolding write_replay_names decset_codes_concat [OF mode_names_free]
  by (simp add: mode_names_def mode_codes_def lit_def undec_def split: mouse_encoding.split mouse_protocol.split)

lemma fold_decset_encoding:
  "fold decset_step (case e of EncDefault \<Rightarrow> [] | Sgr \<Rightarrow> [1006] | SgrPixels \<Rightarrow> [1016]) p =
     (if e = EncDefault then p else p\<lparr>pf_private_modes := (pf_private_modes p)\<lparr>pm_encoding := e\<rparr>\<rparr>)"
  by (cases e) (simp_all add: decset_step_def)

lemma fold_decset_mouse:
  "fold decset_step (case k of MouseNone \<Rightarrow> [] | X10 \<Rightarrow> [9] | MouseNormal \<Rightarrow> [1000]
        | MouseButton \<Rightarrow> [1002] | MouseAny \<Rightarrow> [1003]) p =
     (if k = MouseNone then p else p\<lparr>pf_private_modes := (pf_private_modes p)\<lparr>pm_mouse := k\<rparr>\<rparr>)"
  by (cases k) (simp_all add: decset_step_def)

lemma fold_decset_flags:
  "fold decset_step (if b then [1] else []) p =
     (if b then p\<lparr>pf_private_modes := (pf_private_modes p)\<lparr>pm_cursor_keys := True\<rparr>\<rparr> else p)"
  "fold decset_step (if b then [66] else []) p =
     (if b then p\<lparr>pf_private_modes := (pf_private_modes p)\<lparr>pm_keypad := True\<rparr>\<rparr> else p)"
  "fold decset_step (if b then [2004] else []) p =
     (if b then p\<lparr>pf_private_modes := (pf_private_modes p)\<lparr>pm_bracketed_paste := True\<rparr>\<rparr> else p)"
  by (simp_all add: decset_step_def)


subsection \<open>Scrollback chunks\<close>

definition chunk_text :: "row list \<Rightarrow> rstring" where
  "chunk_text g = concat (map scrollback_line g)"

lemma chunk_text_empty: "chunk_text g = [] \<longleftrightarrow> g = []"
  by (cases g) (simp_all add: chunk_text_def scrollback_line_def CRLF_def)

definition groups_ok :: "nat \<Rightarrow> row list list \<Rightarrow> bool" where
  "groups_ok n gs \<longleftrightarrow> list_all (\<lambda>g. length g = n) (butlast gs) \<and> list_all (\<lambda>g. g \<noteq> [] \<and> length g \<le> n) gs"

lemma chunk_text_Nil [simp]: "chunk_text [] = []"
  by (simp add: chunk_text_def)

lemma groups_ok_Cons: "groups_ok n (g # gs) \<longleftrightarrow>
    (if gs = [] then g \<noteq> [] \<and> length g \<le> n else g \<noteq> [] \<and> length g = n \<and> groups_ok n gs)"
  by (auto simp: groups_ok_def)

lemma chunk_loop_groups:
  "length g < max 1 n \<Longrightarrow> \<exists>gs. chunk_loop n rs (chunk_text g) (length g) = map chunk_text gs \<and>
     concat gs = g @ rs \<and> groups_ok (max 1 n) gs"
proof (induction rs arbitrary: g)
  case Nil
  show ?case
  proof (cases "g = []")
    case True
    then show ?thesis by (intro exI [of _ "[]"]) (simp add: chunk_text_empty groups_ok_def)
  next
    case False
    with Nil show ?thesis by (intro exI [of _ "[g]"]) (simp add: chunk_text_empty groups_ok_Cons)
  qed
next
  case (Cons r rs)
  have joined: "chunk_text g @ scrollback_line r = chunk_text (g @ [r])" by (simp add: chunk_text_def)
  show ?case
  proof (cases "Suc (length g) \<ge> n")
    case True
    from Cons.IH [of "[]"] obtain gs where
      "chunk_loop n rs [] 0 = map chunk_text gs" "concat gs = rs" "groups_ok (max 1 n) gs"
      by (auto simp: less_max_iff_disj)
    with True Cons.prems show ?thesis
      by (intro exI [of _ "(g @ [r]) # gs"]) (auto simp: joined Let_def groups_ok_Cons)
  next
    case False
    with Cons.IH [of "g @ [r]"] show ?thesis by (simp add: joined Let_def)
  qed
qed

text \<open>
  Whatever the chunk size, the scrollback chunks are the scrollback's lines in order, each
  line rendered whole: every chunk but the last holds exactly the requested number of lines
  (at least one), the last one no more, and none is empty. So concatenating them gives the same
  text for every chunk size.
\<close>

theorem scrollback_chunks_complete:
  "\<exists>gs. snapshot_scrollback_chunks n vs = map chunk_text gs \<and> concat gs = vs_scrollback vs \<and>
     groups_ok (max 1 n) gs \<and>
     concat (snapshot_scrollback_chunks n vs) = concat (map scrollback_line (vs_scrollback vs))"
proof -
  from chunk_loop_groups [of "[]" n "vs_scrollback vs"] obtain gs where
    gs: "chunk_loop n (vs_scrollback vs) [] 0 = map chunk_text gs" "concat gs = vs_scrollback vs"
      "groups_ok (max 1 n) gs" by (auto simp: less_max_iff_disj)
  then have c: "snapshot_scrollback_chunks n vs = map chunk_text gs"
    by (auto simp: snapshot_scrollback_chunks_def)
  have "concat (map chunk_text gs) = chunk_text (concat gs)"
    by (induction gs) (simp_all add: chunk_text_def)
  then have "concat (snapshot_scrollback_chunks n vs) = concat (map scrollback_line (vs_scrollback vs))"
    using c gs(2) by (simp add: chunk_text_def)
  with c gs show ?thesis by blast
qed

end
