(* ===== verification/VtScreenWf.thy ===== *)
theory VtScreenWf
  imports VtScreen
begin

section \<open>The virtual screen keeps its invariant\<close>

text \<open>
  \<open>vs_wf\<close> is the invariant of a whole virtual screen. Feeding any bytes keeps it and never
  panics; resizing keeps it when the saved cursor fits the new size. The last part follows the
  rows through a resize.
\<close>

definition saved_ok :: "nat \<Rightarrow> nat \<Rightarrow> cursor_state option \<Rightarrow> bool" where
  "saved_ok cols rows sc \<longleftrightarrow> (case sc of None \<Rightarrow> True | Some c \<Rightarrow> cursor_ok cols rows c)"

definition vs_wf :: "'ps virtual_screen \<Rightarrow> bool" where
  "vs_wf vs \<longleftrightarrow> buffer_wf (vs_cols vs) (vs_rows vs) (vs_primary vs) \<and>
     buffer_wf (vs_cols vs) (vs_rows vs) (vs_alternate vs) \<and>
     scrollback_ok (vs_scrollback vs) \<and> saved_ok (vs_cols vs) (vs_rows vs) (vs_saved_cursor vs)"

text \<open>What is used of the parser: its OSC callbacks carry at least one segment.\<close>

definition parser_ok :: "'ps advance \<Rightarrow> bool" where
  "parser_ok advance \<longleftrightarrow> (\<forall>s b. list_all action_ok (snd (advance s b)))"

subsection \<open>Runs of callbacks\<close>

text \<open>An event of the performer: the width table, the time and the callback.\<close>

type_synonym vt_event = "(rchar \<Rightarrow> nat option) \<times> nat \<times> vte_action"

fun perform_event :: "vt_event \<Rightarrow> performer \<Rightarrow> performer option" where
  "perform_event (width, now, a) p = perform width now a p"

fun event_ok :: "vt_event \<Rightarrow> bool" where
  "event_ok (width, now, a) \<longleftrightarrow> width_ok width \<and> action_ok a"

interpretation perf: total_machine perform_event "perf_wf cols rows" event_ok for cols rows
proof unfold_locales
  fix p :: performer and e :: vt_event
  assume "perf_wf cols rows p" "event_ok e"
  then show "\<exists>p'. perform_event e p = Some p' \<and> perf_wf cols rows p'"
    using perform_safe by (cases e) (auto simp: safe_result_def)
qed

lemma fold_perform_event:
  "fold_opt (perform width now) as p = fold_opt perform_event (map (\<lambda>a. (width, now, a)) as) p"
proof (induction as arbitrary: p)
  case (Cons a as)
  then show ?case by (cases "perform width now a p") simp_all
qed simp

lemma fold_perform_safe:
  assumes "width_ok width" and "perf_wf cols rows p" and "list_all action_ok as"
  shows "\<exists>p'. fold_opt (perform width now) as p = Some p' \<and> perf_wf cols rows p'"
proof -
  from assms have "list_all event_ok (map (\<lambda>a. (width, now, a)) as)" by (simp add: list_all_iff)
  from perf.run_total [OF assms(2) this] show ?thesis by (simp add: fold_perform_event)
qed

subsection \<open>The loop of feed\<close>

text \<open>
  The invariant of the loop: the performer is well-formed, and so is the buffer it does not
  borrow; the size does not change.
\<close>

definition loop_wf :: "nat \<Rightarrow> nat \<Rightarrow> performer \<times> 'ps virtual_screen \<Rightarrow> bool" where
  "loop_wf cols rows = (\<lambda>(p, vs). perf_wf cols rows p \<and> vs_cols vs = cols \<and> vs_rows vs = rows \<and>
     buffer_wf cols rows (if pf_using_alternate p then vs_primary vs else vs_alternate vs))"

lemma loop_wf_pair:
  "loop_wf cols rows (p, vs) \<longleftrightarrow> buffer_wf cols rows (pf_screen p) \<and> scrollback_ok (pf_scrollback p) \<and>
     saved_ok cols rows (pf_saved_cursor p) \<and> vs_cols vs = cols \<and> vs_rows vs = rows \<and>
     (if pf_using_alternate p then buffer_wf cols rows (vs_primary vs) else buffer_wf cols rows (vs_alternate vs))"
  by (auto simp: loop_wf_def perf_wf_def saved_ok_def)

lemma give_back_simps [simp]:
  "vs_primary (give_back p vs) = (if pf_using_alternate p then vs_primary vs else pf_screen p)"
  "vs_alternate (give_back p vs) = (if pf_using_alternate p then pf_screen p else vs_alternate vs)"
  "vs_scrollback (give_back p vs) = pf_scrollback p"
  "vs_saved_cursor (give_back p vs) = pf_saved_cursor p"
  "vs_cols (give_back p vs) = vs_cols vs" "vs_rows (give_back p vs) = vs_rows vs"
  "vs_parser (give_back p vs) = vs_parser vs"
  "vs_using_alternate (give_back p vs) = vs_using_alternate vs"
  "vs_command_state (give_back p vs) = pf_command_state p"
  "vs_pending_command (give_back p vs) = pf_pending_command p"
  by (simp_all add: give_back_def)

lemma borrow_simps [simp]:
  "pf_screen (borrow alt vs) = (if alt then vs_alternate vs else vs_primary vs)"
  "pf_scrollback (borrow alt vs) = vs_scrollback vs"
  "pf_saved_cursor (borrow alt vs) = vs_saved_cursor vs"
  "pf_using_alternate (borrow alt vs) = alt" "pf_pending_switch (borrow alt vs) = None"
  "pf_command_state (borrow alt vs) = vs_command_state vs"
  "pf_pending_command (borrow alt vs) = vs_pending_command vs"
  by (simp_all add: borrow_def)

lemma borrow_loop_wf: "vs_wf vs \<Longrightarrow> loop_wf (vs_cols vs) (vs_rows vs) (borrow alt vs, vs)"
  by (simp add: loop_wf_pair vs_wf_def)

lemma give_back_wf: "loop_wf cols rows (p, vs) \<Longrightarrow> vs_wf (give_back p vs)"
  by (auto simp: loop_wf_pair vs_wf_def split: if_splits)

lemma buffer_wf_cursor: "buffer_wf cols rows b \<Longrightarrow> cursor_ok cols rows (sb_cursor b)"
  by (simp add: wf_defs)

lemma buffer_wf_set_cursor:
  "buffer_wf cols rows b \<Longrightarrow> cursor_ok cols rows c \<Longrightarrow> buffer_wf cols rows (b\<lparr>sb_cursor := c\<rparr>)"
  by (simp add: wf_defs)

lemma switch_step_wf:
  assumes s: "loop_wf cols rows (p, vs)"
  shows "\<exists>s'. switch_step (p, vs) = Some s' \<and> loop_wf cols rows s'"
proof -
  have "2 \<le> cols" "1 \<le> rows" using s by (auto simp: loop_wf_pair wf_defs)
  then obtain alt where alt: "new_buffer cols rows = Some alt" "buffer_wf cols rows alt"
    using new_buffer_wf by blast
  consider "pf_pending_switch p = None"
    | "pf_pending_switch p = Some True" "\<not> pf_using_alternate p"
    | "pf_pending_switch p = Some False" "pf_using_alternate p"
    | enter where "pf_pending_switch p = Some enter" "enter = pf_using_alternate p"
    by (cases "pf_pending_switch p") auto
  then show ?thesis
  proof cases
    case 1
    with s show ?thesis by (simp add: switch_step_def)
  next
    case 2
    with s alt show ?thesis
      by (simp add: switch_step_def loop_wf_pair saved_ok_def buffer_wf_cursor Let_def)
  next
    case 3
    with s show ?thesis
      by (auto simp: switch_step_def loop_wf_pair saved_ok_def Let_def buffer_wf_set_cursor
          split: option.splits)
  next
    case 4
    with s show ?thesis by (cases enter) (simp_all add: switch_step_def loop_wf_pair Let_def)
  qed
qed

lemma byte_step_wf:
  assumes w: "width_ok width" and pa: "parser_ok advance" and s: "loop_wf cols rows s"
  shows "\<exists>s'. byte_step advance width now byte s = Some s' \<and> loop_wf cols rows s'"
proof -
  obtain p vs where sp: "s = (p, vs)" by fastforce
  obtain parser' as where adv: "advance (vs_parser vs) byte = (parser', as)" by fastforce
  have ok: "list_all action_ok as" using pa adv unfolding parser_ok_def by (metis snd_conv)
  have p: "perf_wf cols rows p" using s by (simp add: sp loop_wf_def)
  from fold_perform_safe [OF w p ok] obtain p' where
    p': "fold_opt (perform width now) as p = Some p'" "perf_wf cols rows p'" by blast
  have alt: "pf_using_alternate p' = pf_using_alternate p"
    using p'(1) by (rule fold_perform_alternate)
  have "loop_wf cols rows (p', vs\<lparr>vs_parser := parser'\<rparr>)"
    using s p'(2) alt by (auto simp: sp loop_wf_def split: if_splits)
  from switch_step_wf [OF this] p'(1) show ?thesis by (simp add: byte_step_def sp adv)
qed

lemma bytes_wf:
  assumes w: "width_ok width" and pa: "parser_ok advance"
  shows "loop_wf cols rows s \<Longrightarrow>
    \<exists>s'. fold_opt (byte_step advance width now) bytes s = Some s' \<and> loop_wf cols rows s'"
proof (induction bytes arbitrary: s)
  case (Cons b bytes)
  from byte_step_wf [OF w pa Cons.prems] obtain s1 where
    "byte_step advance width now b s = Some s1" "loop_wf cols rows s1" by blast
  with Cons.IH [of s1] show ?case by simp
qed simp

lemma collect_step_simps [simp]:
  "vs_primary (collect_step bytes vs) = vs_primary vs"
  "vs_alternate (collect_step bytes vs) = vs_alternate vs"
  "vs_using_alternate (collect_step bytes vs) = vs_using_alternate vs"
  "vs_scrollback (collect_step bytes vs) = vs_scrollback vs"
  "vs_parser (collect_step bytes vs) = vs_parser vs"
  "vs_cols (collect_step bytes vs) = vs_cols vs" "vs_rows (collect_step bytes vs) = vs_rows vs"
  "vs_saved_cursor (collect_step bytes vs) = vs_saved_cursor vs"
  by (simp_all add: collect_step_def)

lemma vs_wf_frame [simp]:
  "vs_wf (vs\<lparr>vs_last_output_time := t\<rparr>) = vs_wf vs" "vs_wf (vs\<lparr>vs_using_alternate := alt\<rparr>) = vs_wf vs"
  "vs_wf (collect_step bytes vs) = vs_wf vs"
  by (simp_all add: vs_wf_def)

lemma feed_wf:
  assumes w: "width_ok width" and pa: "parser_ok advance" and vs: "vs_wf vs"
  shows "\<exists>vs'. feed advance width now bytes vs = Some vs' \<and> vs_wf vs' \<and>
    vs_cols vs' = vs_cols vs \<and> vs_rows vs' = vs_rows vs"
proof -
  define vs1 where "vs1 = collect_step bytes (vs\<lparr>vs_last_output_time := Some now\<rparr>)"
  have "vs_wf vs1" using vs by (simp add: vs1_def)
  from bytes_wf [OF w pa borrow_loop_wf [OF this]] obtain p vs2 where
    run: "fold_opt (byte_step advance width now) bytes (borrow (vs_using_alternate vs1) vs1, vs1) = Some (p, vs2)"
    and wf: "loop_wf (vs_cols vs1) (vs_rows vs1) (p, vs2)" by (metis surj_pair)
  have "feed advance width now bytes vs =
      Some ((give_back p vs2)\<lparr>vs_using_alternate := pf_using_alternate p\<rparr>)"
    using run by (simp add: feed_def Let_def vs1_def [symmetric])
  moreover have "vs_cols vs1 = vs_cols vs" "vs_rows vs1 = vs_rows vs" by (simp_all add: vs1_def)
  ultimately show ?thesis using give_back_wf [OF wf] wf by (simp add: loop_wf_pair)
qed

lemma new_screen_wf:
  assumes "2 \<le> cols" and "1 \<le> rows"
  shows "\<exists>vs. new_screen ps cols rows = Some vs \<and> vs_wf vs \<and> vs_cols vs = cols \<and> vs_rows vs = rows"
proof -
  from new_buffer_wf [OF assms] obtain b where "new_buffer cols rows = Some b" "buffer_wf cols rows b" by blast
  then show ?thesis by (simp add: new_screen_def vs_wf_def saved_ok_def scrollback_ok_def)
qed

subsection \<open>Resizing\<close>

text \<open>The first loop drops blank rows from the bottom, never the cursor's row or one above it.\<close>

lemma trim_blank_spec:
  "trim_blank e cr cells = (e', cells') \<Longrightarrow> cr < length cells \<Longrightarrow>
     \<exists>blanks. cells = cells' @ blanks \<and> list_all blank_row blanks \<and> e' + length blanks = e \<and>
       cr < length cells'"
proof (induction e cr cells rule: trim_blank.induct)
  case (2 e cr cells)
  show ?case
  proof (cases "length cells > cr + 1 \<and> cells \<noteq> [] \<and> blank_row (last cells)")
    case True
    with "2.prems" have "trim_blank e cr (butlast cells) = (e', cells')" "cr < length (butlast cells)" by auto
    from "2.IH" [OF True this] obtain blanks where
      "butlast cells = cells' @ blanks" "list_all blank_row blanks" "e' + length blanks = e" "cr < length cells'"
      by blast
    moreover from True have "cells = butlast cells @ [last cells]" by simp
    ultimately have "cells = cells' @ (blanks @ [last cells])" "list_all blank_row (blanks @ [last cells])"
      "e' + length (blanks @ [last cells]) = Suc e" using True by (metis append_assoc, simp_all)
    with \<open>cr < length cells'\<close> show ?thesis by blast
  qed (use 2 in auto)
qed simp

text \<open>The second loop moves rows from the top into the scrollback.\<close>

lemma evict_top_spec:
  "n \<le> length cells \<Longrightarrow> evict_top n cells sb cr =
     Some (drop n cells, map_option (fold push_scrollback (take n cells)) sb, cr - n)"
proof (induction n cells sb cr rule: evict_top.induct)
  case (2 n cells sb cr)
  then obtain r cells' where "cells = r # cells'" by (cases cells) auto
  with 2 show ?case by (simp add: vec_remove_def option.map_comp comp_def)
next
  case (1 cells sb cr)
  show ?case by (cases sb) simp_all
qed

lemma fold_push_ok: "scrollback_ok sb \<Longrightarrow> scrollback_ok (fold push_scrollback rs sb)"
  by (induction rs arbitrary: sb) (simp_all add: scrollback_ok_push)

lemma fold_push_below_cap:
  "length sb + length rs \<le> SCROLLBACK_CAP \<Longrightarrow> fold push_scrollback rs sb = sb @ rs"
proof (induction rs arbitrary: sb)
  case (Cons r rs)
  then have "push_scrollback r sb = sb @ [r]" by (simp add: push_scrollback_def Let_def)
  with Cons show ?case by simp
qed simp

text \<open>Both loops together, on a buffer that gets fewer rows.\<close>

lemma shrink_rows:
  assumes cr: "cr < length cells" and n: "rows < length cells"
  shows "\<exists>cells' blanks gone. (case trim_blank (length cells - rows) cr cells of
      (e, c) \<Rightarrow> evict_top e c sb cr) =
        Some (cells', map_option (fold push_scrollback gone) sb, cr - length gone) \<and>
    cells = gone @ cells' @ blanks \<and> list_all blank_row blanks \<and> length cells' = rows"
proof -
  obtain e c where t: "trim_blank (length cells - rows) cr cells = (e, c)" by fastforce
  from trim_blank_spec [OF t cr] obtain blanks where
    b: "cells = c @ blanks" "list_all blank_row blanks" "e + length blanks = length cells - rows" by blast
  then have e: "e \<le> length c" "length c - e = rows" using n by auto
  from e(1) have "evict_top e c sb cr =
      Some (drop e c, map_option (fold push_scrollback (take e c)) sb, cr - length (take e c))"
    by (simp add: evict_top_spec min_def)
  moreover have "cells = take e c @ drop e c @ blanks" using b(1) by simp
  moreover have "length (drop e c) = rows" using e(2) by simp
  ultimately show ?thesis using t b(2)
    by (intro exI [of _ "drop e c"] exI [of _ blanks] exI [of _ "take e c"]) simp
qed

lemma map_resize_grid: "length g = rows \<Longrightarrow> grid_ok cols rows (map (vec_resize cols default_cell) g)"
  by (auto simp: grid_ok_def list_all_iff)

lemma resized_rows_total:
  assumes b: "buffer_wf oc orows b"
  shows "\<exists>g sb' cr. resized_rows cols rows b sb = Some (g, sb', cr) \<and> length g = rows \<and>
    (cols = oc \<longrightarrow> grid_ok cols rows g) \<and>
    (\<exists>gone. sb' = map_option (fold push_scrollback gone) sb)"
proof -
  have g: "grid_ok oc orows (sb_cells b)" and cr: "crow b < length (sb_cells b)"
    using b by (auto simp: wf_defs grid_ok_length)
  consider "rows < length (sb_cells b)" | "rows > length (sb_cells b)" | "rows = length (sb_cells b)"
    by linarith
  then show ?thesis
  proof cases
    case 1
    from shrink_rows [OF cr 1, of sb] obtain cells' blanks gone where
      e: "(case trim_blank (length (sb_cells b) - rows) (crow b) (sb_cells b) of
          (e, c) \<Rightarrow> evict_top e c sb (crow b)) =
        Some (cells', map_option (fold push_scrollback gone) sb, crow b - length gone)"
      and c: "sb_cells b = gone @ cells' @ blanks" "length cells' = rows" by blast
    from c g have "cols = oc \<longrightarrow> grid_ok cols rows cells'" by (auto simp: grid_ok_def)
    with e c 1 show ?thesis by (auto simp: resized_rows_def)
  next
    case 2
    then have "vec_resize rows (blank_line cols) (sb_cells b) =
        sb_cells b @ replicate (rows - length (sb_cells b)) (blank_line cols)"
      by (simp add: vec_resize_def)
    moreover from this g 2 have "cols = oc \<longrightarrow> grid_ok cols rows (vec_resize rows (blank_line cols) (sb_cells b))"
      by (auto simp: grid_ok_def list_all_iff)
    moreover have "sb = map_option (fold push_scrollback []) sb" by (cases sb) simp_all
    ultimately show ?thesis using 2 by (auto simp: resized_rows_def simp del: fold.simps)
  next
    case 3
    have "sb = map_option (fold push_scrollback []) sb" by (cases sb) simp_all
    with 3 g show ?thesis by (auto simp: resized_rows_def grid_ok_length simp del: fold.simps)
  qed
qed

lemma resize_buffer_wf:
  assumes b: "buffer_wf oc orows b" and c: "2 \<le> cols" and r: "1 \<le> rows"
  shows "\<exists>b' gone. resize_buffer cols rows b sb = Some (b', map_option (fold push_scrollback gone) sb) \<and>
    buffer_wf cols rows b'"
proof -
  from resized_rows_total [OF b, of cols rows sb] obtain g cr gone where
    g: "resized_rows cols rows b sb = Some (g, map_option (fold push_scrollback gone) sb, cr)"
    "length g = rows" "cols = oc \<longrightarrow> grid_ok cols rows g" by blast
  define w where "w = (case sb_cells b of [] \<Rightarrow> 0 | r # _ \<Rightarrow> length r)"
  have "w = oc" using b by (auto simp: w_def wf_defs grid_ok_def split: list.splits)
  then have "grid_ok cols rows (if cols \<noteq> w then map (vec_resize cols default_cell) g else g)"
    using g map_resize_grid by auto
  then show ?thesis using g(1) c r
    by (auto simp: resize_buffer_def w_def [symmetric] Let_def wf_defs)
qed

lemma resize_screen_wf:
  assumes vs: "vs_wf vs" and c: "2 \<le> cols" and r: "1 \<le> rows"
    and saved: "saved_ok cols rows (vs_saved_cursor vs)"
  shows "\<exists>vs'. resize_screen cols rows vs = Some vs' \<and> vs_wf vs' \<and> vs_cols vs' = cols \<and> vs_rows vs' = rows"
proof -
  from vs have p: "buffer_wf (vs_cols vs) (vs_rows vs) (vs_primary vs)"
    and a: "buffer_wf (vs_cols vs) (vs_rows vs) (vs_alternate vs)" by (auto simp: vs_wf_def)
  from resize_buffer_wf [OF p c r, of "Some (vs_scrollback vs)"] obtain prim gone where
    "resize_buffer cols rows (vs_primary vs) (Some (vs_scrollback vs)) =
      Some (prim, Some (fold push_scrollback gone (vs_scrollback vs)))" "buffer_wf cols rows prim" by auto
  moreover from resize_buffer_wf [OF a c r, of None] obtain alt where
    "resize_buffer cols rows (vs_alternate vs) None = Some (alt, None)" "buffer_wf cols rows alt" by auto
  ultimately show ?thesis using vs saved
    by (simp add: resize_screen_def vs_wf_def fold_push_ok)
qed

end
