(* ===== verification/VtChunking.thy ===== *)
theory VtChunking
  imports VtScreenWf
begin

section \<open>How the PTY's output is cut into reads does not matter\<close>

text \<open>
  A session feeds the screen whatever a read of the PTY returned. Here two feeds are compared
  with one: everything but the bytes collected for a running command is the same. \<open>settle\<close> is
  the screen after the performer has given its fields back; \<open>reopen\<close> is how \<open>feed\<close> starts.
\<close>

definition settle :: "performer \<times> 'ps virtual_screen \<Rightarrow> 'ps virtual_screen" where
  "settle = (\<lambda>(p, vs). (give_back p vs)\<lparr>vs_using_alternate := pf_using_alternate p\<rparr>)"

definition reopen :: "'ps virtual_screen \<Rightarrow> performer \<times> 'ps virtual_screen" where
  "reopen vs = (borrow (vs_using_alternate vs) vs, vs)"

definition run_bytes ::
    "'ps advance \<Rightarrow> (rchar \<Rightarrow> nat option) \<Rightarrow> nat \<Rightarrow> u8 list \<Rightarrow> 'ps virtual_screen \<Rightarrow> 'ps virtual_screen option" where
  "run_bytes advance width now bytes vs =
     map_option settle (fold_opt (byte_step advance width now) bytes (reopen vs))"

text \<open>Forgetting the output collected so far.\<close>

abbreviation no_output :: "pending_command option \<Rightarrow> pending_command option" where
  "no_output \<equiv> map_option (\<lambda>pc. pc\<lparr>pc_output_buf := []\<rparr>)"

definition forget_output :: "performer \<Rightarrow> performer" where
  "forget_output p = p\<lparr>pf_pending_command := no_output (pf_pending_command p)\<rparr>"

definition screen_view :: "'ps virtual_screen \<Rightarrow> 'ps virtual_screen" where
  "screen_view vs = vs\<lparr>vs_pending_command := no_output (vs_pending_command vs)\<rparr>"

lemma feed_run_bytes:
  "feed advance width now bytes vs =
     run_bytes advance width now bytes (collect_step bytes (vs\<lparr>vs_last_output_time := Some now\<rparr>))"
  by (cases "fold_opt (byte_step advance width now) bytes
        (reopen (collect_step bytes (vs\<lparr>vs_last_output_time := Some now\<rparr>)))")
    (auto simp: feed_def run_bytes_def reopen_def settle_def Let_def)

subsection \<open>Forgetting commutes with every callback\<close>

lemma elapsed_forget [simp]: "elapsed_ms now (pc\<lparr>pc_output_buf := []\<rparr>) = elapsed_ms now pc"
  by (simp add: elapsed_ms_def)

lemma on_forget:
  "on_screen f (forget_output p) = map_option forget_output (on_screen f p)"
  "on_both g (forget_output p) = map_option forget_output (on_both g p)"
  by (cases "f (pf_screen p)"; simp add: on_screen_def forget_output_def)
     (cases "g (pf_screen p, pf_scrollback p)"; auto simp: on_both_def forget_output_def)

lemma decset_forget: "decset_step w (forget_output p) = forget_output (decset_step w p)"
  by (simp add: decset_step_def forget_output_def Let_def)

lemma decrst_forget: "decrst_step w (forget_output p) = forget_output (decrst_step w p)"
  by (simp add: decrst_step_def forget_output_def Let_def)

lemma private_forget: "csi_private params a (forget_output p) = forget_output (csi_private params a p)"
proof -
  have "fold decset_step ws (forget_output p) = forget_output (fold decset_step ws p)" for ws
    by (induction ws arbitrary: p) (simp_all add: decset_forget)
  moreover have "fold decrst_step ws (forget_output p) = forget_output (fold decrst_step ws p)" for ws
    by (induction ws arbitrary: p) (simp_all add: decrst_forget)
  ultimately show ?thesis by (simp add: csi_private_def Let_def)
qed

lemma standard_forget: "csi_standard params a (forget_output p) = map_option forget_output (csi_standard params a p)"
  unfolding csi_standard_def Let_def on_forget by (simp only: if_distrib [of "map_option forget_output"] option.map)

lemma execute_forget: "perf_execute b (forget_output p) = map_option forget_output (perf_execute b p)"
  by (cases "tab_stop (pf_screen p)"; cases "line_feed (pf_screen p, pf_scrollback p)")
    (auto simp: perf_execute_def forget_output_def Let_def)

lemma esc_forget: "esc_dispatch ims b (forget_output p) = map_option forget_output (esc_dispatch ims b p)"
  unfolding esc_dispatch_def on_forget if_distrib [of "map_option forget_output"] option.map
  by (simp add: forget_output_def save_cursor_def restore_cursor_def split: option.split)

lemma osc133_forget: "dispatch_osc133 now params (forget_output p) = forget_output (dispatch_osc133 now params p)"
  by (cases "pf_pending_command p")
    (simp_all add: dispatch_osc133_def osc133_prompt_def osc133_start_def osc133_finish_def forget_output_def
      start_command_def Let_def)

lemma push_forget: "push_osc a (forget_output p) = forget_output (push_osc a p)"
  by (simp add: push_osc_def forget_output_def)

lemma osc9_forget: "dispatch_osc9 params (forget_output p) = map_option forget_output (dispatch_osc9 params p)"
  by (cases "truncate_utf8 (from_utf8_lossy (join_segments (tl params)))")
    (auto simp: dispatch_osc9_def push_forget Let_def)

lemma osc777_forget: "dispatch_osc777 params (forget_output p) = map_option forget_output (dispatch_osc777 params p)"
proof -
  obtain title body where sp: "split_title (from_utf8_lossy (join_segments (drop 2 params))) = (title, body)"
    by fastforce
  show ?thesis
    by (cases title; cases "truncate_utf8 (the title)"; cases "truncate_utf8 body")
      (simp_all add: dispatch_osc777_def push_forget Let_def sp)
qed

lemma osc_forget: "osc_dispatch now params (forget_output p) = map_option forget_output (osc_dispatch now params p)"
  by (cases params) (simp_all add: osc_dispatch_def osc133_forget osc9_forget osc777_forget)

lemma csi_forget: "csi_dispatch params ims a (forget_output p) = map_option forget_output (csi_dispatch params ims a p)"
  unfolding csi_dispatch_def private_forget standard_forget if_distrib [of "map_option forget_output"] option.map
  by (simp add: forget_output_def)

lemma perform_forget: "perform width now a (forget_output p) = map_option forget_output (perform width now a p)"
  by (cases a) (simp_all add: on_forget execute_forget osc_forget csi_forget esc_forget)

lemma actions_forget:
  "fold_opt (perform width now) as (forget_output p) = map_option forget_output (fold_opt (perform width now) as p)"
proof (induction as arbitrary: p)
  case (Cons a as)
  then show ?case by (cases "perform width now a p") (simp_all add: perform_forget)
qed simp

subsection \<open>Forgetting commutes with the loop\<close>

definition forget_pair :: "performer \<times> 'ps virtual_screen \<Rightarrow> performer \<times> 'ps virtual_screen" where
  "forget_pair = (\<lambda>(p, vs). (forget_output p, screen_view vs))"

lemma give_back_forget: "give_back (forget_output p) (screen_view vs) = screen_view (give_back p vs)"
  by (simp add: give_back_def forget_output_def screen_view_def)

lemma borrow_forget: "borrow alt (screen_view vs) = forget_output (borrow alt vs)"
  by (simp add: borrow_def forget_output_def screen_view_def)

lemma forget_simps [simp]:
  "pf_pending_switch (forget_output p) = pf_pending_switch p"
  "pf_using_alternate (forget_output p) = pf_using_alternate p"
  "(forget_output p)\<lparr>pf_pending_switch := sw\<rparr> = forget_output (p\<lparr>pf_pending_switch := sw\<rparr>)"
  "(forget_output p)\<lparr>pf_screen := b\<rparr> = forget_output (p\<lparr>pf_screen := b\<rparr>)"
  "pf_screen (forget_output p) = pf_screen p"
  by (simp_all add: forget_output_def)

lemma view_simps [simp]:
  "vs_cols (screen_view vs) = vs_cols vs" "vs_rows (screen_view vs) = vs_rows vs"
  "vs_primary (screen_view vs) = vs_primary vs" "vs_parser (screen_view vs) = vs_parser vs"
  "vs_saved_cursor (screen_view vs) = vs_saved_cursor vs"
  "vs_using_alternate (screen_view vs) = vs_using_alternate vs"
  "(screen_view vs)\<lparr>vs_saved_cursor := c\<rparr> = screen_view (vs\<lparr>vs_saved_cursor := c\<rparr>)"
  "(screen_view vs)\<lparr>vs_alternate := b\<rparr> = screen_view (vs\<lparr>vs_alternate := b\<rparr>)"
  "(screen_view vs)\<lparr>vs_parser := ps\<rparr> = screen_view (vs\<lparr>vs_parser := ps\<rparr>)"
  "(screen_view vs)\<lparr>vs_using_alternate := alt\<rparr> = screen_view (vs\<lparr>vs_using_alternate := alt\<rparr>)"
  "(screen_view vs)\<lparr>vs_last_output_time := t\<rparr> = screen_view (vs\<lparr>vs_last_output_time := t\<rparr>)"
  by (simp_all add: screen_view_def)

lemma switch_forget:
  "switch_step (forget_output p, screen_view vs) = map_option forget_pair (switch_step (p, vs))"
proof (cases "pf_pending_switch p")
  case None
  then show ?thesis by (simp add: switch_step_def forget_pair_def)
next
  case (Some enter)
  show ?thesis
  proof (cases "enter \<and> \<not> pf_using_alternate p")
    case True
    with Some show ?thesis
      by (cases "new_buffer (vs_cols vs) (vs_rows vs)")
        (simp_all add: switch_step_def forget_pair_def give_back_forget borrow_forget Let_def)
  next
    case False
    with Some show ?thesis
      by (cases "vs_saved_cursor (give_back (p\<lparr>pf_pending_switch := None\<rparr>) vs)")
        (auto simp: switch_step_def forget_pair_def give_back_forget borrow_forget Let_def)
  qed
qed

lemma byte_forget:
  "byte_step advance width now b (forget_pair s) = map_option forget_pair (byte_step advance width now b s)"
proof -
  obtain p vs where s: "s = (p, vs)" by fastforce
  obtain ps as where "advance (vs_parser vs) b = (ps, as)" by fastforce
  then show ?thesis
    by (cases "fold_opt (perform width now) as p")
      (simp_all add: s byte_step_def forget_pair_def actions_forget switch_forget [unfolded forget_pair_def])
qed

lemma bytes_forget:
  "fold_opt (byte_step advance width now) bs (forget_pair s) =
     map_option forget_pair (fold_opt (byte_step advance width now) bs s)"
proof (induction bs arbitrary: s)
  case (Cons b bs)
  then show ?case by (cases "byte_step advance width now b s") (simp_all add: byte_forget)
qed simp

lemma run_bytes_view: "run_bytes advance width now bs (screen_view vs) =
    map_option screen_view (run_bytes advance width now bs vs)"
proof -
  have "reopen (screen_view vs) = forget_pair (reopen vs)"
    by (simp add: reopen_def forget_pair_def borrow_forget)
  moreover have "settle (forget_pair s) = screen_view (settle s)" for s :: "performer \<times> 'a virtual_screen"
    by (cases s) (simp add: settle_def forget_pair_def give_back_forget)
  ultimately show ?thesis by (simp add: run_bytes_def bytes_forget option.map_comp comp_def)
qed

subsection \<open>Closing and reopening between two bytes changes nothing\<close>

definition idle_switch :: "performer \<times> 'ps virtual_screen \<Rightarrow> bool" where
  "idle_switch s \<longleftrightarrow> pf_pending_switch (fst s) = None"

lemma reopen_idle: "idle_switch (reopen vs)"
  by (simp add: idle_switch_def reopen_def)

lemma byte_step_idle: "byte_step advance width now b s = Some s' \<Longrightarrow> idle_switch s'"
  by (cases s) (auto simp: byte_step_def switch_step_def idle_switch_def Let_def
      split: prod.splits option.splits if_splits bind_splits)

lemma borrow_settle: "idle_switch (p, vs) \<Longrightarrow> reopen (settle (p, vs)) = (p, settle (p, vs))"
  by (cases p) (simp add: idle_switch_def reopen_def settle_def borrow_def give_back_def)

lemma give_back_settle:
  "pf_using_alternate p' = pf_using_alternate p \<Longrightarrow>
     give_back p' (settle (p, vs)) = (give_back p' vs)\<lparr>vs_using_alternate := pf_using_alternate p\<rparr>"
  by (simp add: settle_def give_back_def)

lemma switch_settle:
  assumes "pf_using_alternate p' = pf_using_alternate p"
  shows "map_option settle (switch_step (p', (settle (p, vs))\<lparr>vs_parser := ps\<rparr>)) =
    map_option settle (switch_step (p', vs\<lparr>vs_parser := ps\<rparr>))"
proof -
  have size: "vs_cols (settle (p, vs)) = vs_cols vs" "vs_rows (settle (p, vs)) = vs_rows vs"
    "pf_using_alternate p \<Longrightarrow> vs_primary (settle (p, vs)) = vs_primary vs"
    by (simp_all add: settle_def)
  have gb: "give_back q ((settle (p, vs))\<lparr>vs_parser := ps\<rparr>) =
      (give_back q (vs\<lparr>vs_parser := ps\<rparr>))\<lparr>vs_using_alternate := pf_using_alternate p\<rparr>"
    if "pf_using_alternate q = pf_using_alternate p" for q
    using that by (simp add: settle_def give_back_def)
  have b: "borrow alt (v\<lparr>vs_using_alternate := u\<rparr>) = borrow alt v" for alt u and v :: "'a virtual_screen"
    by (simp add: borrow_def)
  have st: "settle (q, v\<lparr>vs_using_alternate := u\<rparr>) = settle (q, v)" for q u and v :: "'a virtual_screen"
    by (simp add: settle_def give_back_def)
  have sw: "v\<lparr>vs_using_alternate := u, vs_saved_cursor := c, vs_alternate := al\<rparr> =
      v\<lparr>vs_saved_cursor := c, vs_alternate := al, vs_using_alternate := u\<rparr>" for u c al and v :: "'a virtual_screen"
    by simp
  show ?thesis
  proof (cases "pf_pending_switch p'")
    case None
    then show ?thesis using assms gb [of p'] by (simp add: switch_step_def settle_def)
  next
    case (Some enter)
    define q where "q = p'\<lparr>pf_pending_switch := None\<rparr>"
    have q: "pf_using_alternate q = pf_using_alternate p" using assms by (simp add: q_def)
    have qa: "pf_using_alternate q = pf_using_alternate p'" by (simp add: q_def)
    show ?thesis
    proof (cases "enter \<noteq> pf_using_alternate p'")
      case True
      with Some assms show ?thesis
        by (cases enter; cases "new_buffer (vs_cols vs) (vs_rows vs)";
            cases "vs_saved_cursor (give_back q (vs\<lparr>vs_parser := ps\<rparr>))")
          (simp_all add: switch_step_def q_def [symmetric] qa gb [OF q] b st sw size Let_def)
    next
      case False
      with Some assms gb [OF q] show ?thesis
        by (auto simp: switch_step_def q_def [symmetric] qa settle_def Let_def)
    qed
  qed
qed

lemma byte_step_settle:
  assumes "idle_switch s"
  shows "map_option settle (byte_step advance width now b s) =
    map_option settle (byte_step advance width now b (reopen (settle s)))"
proof -
  obtain p vs where s: "s = (p, vs)" by fastforce
  obtain ps as where adv: "advance (vs_parser vs) b = (ps, as)" by fastforce
  have ps: "vs_parser (settle (p, vs)) = vs_parser vs" by (simp add: settle_def)
  show ?thesis
  proof (cases "fold_opt (perform width now) as p")
    case None
    with adv ps assms show ?thesis by (simp add: s borrow_settle byte_step_def)
  next
    case (Some p')
    from fold_perform_alternate [OF this] have "pf_using_alternate p' = pf_using_alternate p" .
    with Some adv ps assms show ?thesis by (simp add: s borrow_settle byte_step_def switch_settle)
  qed
qed

lemma bytes_settle:
  "idle_switch s \<Longrightarrow> map_option settle (fold_opt (byte_step advance width now) bs s) =
     run_bytes advance width now bs (settle s)"
proof (induction bs arbitrary: s)
  case Nil
  obtain p vs where s: "s = (p, vs)" by fastforce
  have "settle (reopen (settle (p, vs))) = settle (p, vs)"
    using Nil by (simp add: s borrow_settle) (simp add: settle_def give_back_def)
  then show ?case by (simp add: run_bytes_def s)
next
  case (Cons b bs)
  let ?f = "byte_step advance width now"
  note same = byte_step_settle [OF Cons.prems, of advance width now b]
  show ?case
  proof (cases "?f b s")
    case None
    with same have "?f b (reopen (settle s)) = None" by simp
    with None show ?thesis by (simp add: run_bytes_def)
  next
    case (Some t)
    with same obtain t' where t': "?f b (reopen (settle s)) = Some t'" "settle t' = settle t"
      by (cases "?f b (reopen (settle s))") auto
    have "map_option settle (fold_opt ?f bs t) = run_bytes advance width now bs (settle t)"
      using Cons.IH byte_step_idle [OF Some] by blast
    moreover have "map_option settle (fold_opt ?f bs t') = run_bytes advance width now bs (settle t')"
      using Cons.IH byte_step_idle [OF t'(1)] by blast
    ultimately show ?thesis using Some t' by (simp add: run_bytes_def)
  qed
qed

lemma run_bytes_append:
  "run_bytes advance width now (xs @ ys) vs =
     run_bytes advance width now xs vs \<bind> run_bytes advance width now ys"
proof (cases "fold_opt (byte_step advance width now) xs (reopen vs)")
  case None
  then show ?thesis by (simp add: run_bytes_def fold_opt_append)
next
  case (Some s)
  have "idle_switch s"
  proof (cases xs rule: rev_cases)
    case Nil
    with Some show ?thesis using reopen_idle [of vs] by simp
  next
    case (snoc bs b)
    with Some show ?thesis by (auto simp: fold_opt_append intro: byte_step_idle split: bind_splits)
  qed
  from bytes_settle [OF this, of advance width now ys] Some show ?thesis
    by (simp add: run_bytes_def fold_opt_append)
qed

lemma switch_step_time: "switch_step (p, vs) = Some (p', vs') \<Longrightarrow> vs_last_output_time vs' = vs_last_output_time vs"
  by (auto simp: switch_step_def give_back_def Let_def split: option.splits if_splits bind_splits)

lemma bytes_time: "fold_opt (byte_step advance width now) bs s = Some s' \<Longrightarrow>
    vs_last_output_time (snd s') = vs_last_output_time (snd s)"
proof (induction bs arbitrary: s)
  case (Cons b bs)
  then obtain t where t: "byte_step advance width now b s = Some t"
    "fold_opt (byte_step advance width now) bs t = Some s'" by (auto split: bind_splits)
  have "vs_last_output_time (snd t) = vs_last_output_time (snd s)"
    using t(1) by (cases s; cases t) (auto simp: byte_step_def dest!: switch_step_time split: prod.splits bind_splits)
  with Cons.IH [OF t(2)] show ?case by simp
qed simp

lemma feed_view: "map_option screen_view (feed advance width now bs vs) =
    run_bytes advance width now bs (screen_view (vs\<lparr>vs_last_output_time := Some now\<rparr>))"
proof -
  have "screen_view (collect_step bs v) = screen_view v" for v :: "'a virtual_screen"
    by (simp add: collect_step_def collect_output_def screen_view_def option.map_comp comp_def Let_def)
  then show ?thesis by (simp add: feed_run_bytes run_bytes_view [symmetric])
qed

lemma feed_time: "feed advance width now bs vs = Some vs' \<Longrightarrow> vs_last_output_time vs' = Some now"
  by (auto simp: feed_run_bytes run_bytes_def settle_def reopen_def collect_step_def give_back_def
      dest!: bytes_time split: if_splits)

text \<open>
  C2. Reading the PTY in two pieces and feeding them one after the other leaves the same
  terminal as one feed of the whole: the same cells, scrollback, cursors, parser state, modes,
  sync events, notifications and command results, and a panic in exactly the same cases. Only
  the bytes collected for a running command are left out of the comparison (they are capped by
  the chunk).
\<close>

theorem feed_append:
  "map_option screen_view (feed advance width now (xs @ ys) vs) =
     map_option screen_view (feed advance width now xs vs \<bind> feed advance width now ys)"
proof (cases "feed advance width now xs vs")
  case None
  then have "run_bytes advance width now xs (screen_view (vs\<lparr>vs_last_output_time := Some now\<rparr>)) = None"
    using feed_view [of advance width now xs vs] by simp
  then show ?thesis using None by (simp add: feed_view run_bytes_append del: view_simps)
next
  case (Some v)
  have v: "v\<lparr>vs_last_output_time := Some now\<rparr> = v" using feed_time [OF Some] by simp
  have "run_bytes advance width now xs (screen_view (vs\<lparr>vs_last_output_time := Some now\<rparr>)) = Some (screen_view v)"
    using feed_view [of advance width now xs vs] Some by simp
  then show ?thesis using Some by (simp add: feed_view run_bytes_append v del: view_simps)
qed

end
