(* ===== verification/VtProps.thy ===== *)
theory VtProps
  imports VtScreenWf
begin

section \<open>Properties of the virtual screen\<close>

text \<open>
  What a session relies on: no output and no resize makes the screen panic, text lands in the
  cells it should, rows survive a resize, and command tracking stays consistent. The closed
  theorems at the end run the model on inputs on which the code does not do what it should.
\<close>

subsection \<open>Concrete parsers for the witnesses\<close>

definition narrow :: "rchar \<Rightarrow> nat option" where
  "narrow = (\<lambda>c. Some 1)"

text \<open>A parser for plain text: printable ASCII is printed, everything else executed.\<close>

definition plain_parser :: "unit advance" where
  "plain_parser = (\<lambda>_ b. ((), if 32 \<le> unat b \<and> unat b < 127 then [VPrint (unat b)] else [VExecute b]))"

lemma plain_parser_ok: "parser_ok plain_parser"
  by (simp add: parser_ok_def plain_parser_def)

lemma narrow_ok: "width_ok narrow"
  by (simp add: width_ok_def narrow_def)

text \<open>One that hands out a script, one group of callbacks for each byte.\<close>

fun script_parser :: "vte_action list list \<Rightarrow> u8 \<Rightarrow> vte_action list list \<times> vte_action list" where
  "script_parser [] b = ([], [])"
| "script_parser (as # rest) b = (rest, as)"

subsection \<open>No panic\<close>

text \<open>
  C1. Feeding any bytes to a well-formed screen of at least two columns and one row never
  panics, whatever sequences the parser recognises in them: every index, subtraction and
  insertion of the performer is in range. The screen stays well-formed (cells in a full grid,
  cursor and scroll region inside, scrollback within its cap) and keeps its size.
\<close>

theorem feed_never_panics:
  assumes "width_ok width" and "parser_ok advance" and "vs_wf vs"
  shows "\<exists>vs'. feed advance width now bytes vs = Some vs' \<and> vs_wf vs' \<and>
    vs_cols vs' = vs_cols vs \<and> vs_rows vs' = vs_rows vs"
  using assms by (rule feed_wf)

lemma small_screen: "\<exists>vs. new_screen () 4 2 = Some vs \<and> vs_wf vs"
  using new_screen_wf [of 4 2 "()"] by auto

lemma feed_never_panics_witness:
  "\<exists>vs vs'. new_screen () 4 2 = Some vs \<and>
    feed plain_parser narrow 7 [104, 105, 13, 10, 33] vs = Some vs' \<and> vs_wf vs'"
  using small_screen feed_never_panics [OF narrow_ok plain_parser_ok] by blast

text \<open>
  Resizing a well-formed screen to at least two columns and one row never panics and gives
  a well-formed screen of the new size, when the cursor saved by DECSC (if any) lies within the
  new size; see \<open>stale_saved_cursor_panics\<close> for what happens otherwise.
\<close>

theorem resize_never_panics:
  assumes "vs_wf vs" and "2 \<le> cols" and "1 \<le> rows" and "saved_ok cols rows (vs_saved_cursor vs)"
  shows "\<exists>vs'. resize_screen cols rows vs = Some vs' \<and> vs_wf vs' \<and> vs_cols vs' = cols \<and> vs_rows vs' = rows"
  using assms by (rule resize_screen_wf)

lemma resize_never_panics_witness:
  "\<exists>vs vs'. new_screen () 4 2 = Some vs \<and> resize_screen 3 5 vs = Some vs' \<and> vs_wf vs' \<and> vs_rows vs' = 5"
proof -
  from small_screen obtain vs where vs: "new_screen () 4 2 = Some vs" "vs_wf vs" by blast
  then have "saved_ok 3 5 (vs_saved_cursor vs)" by (auto simp: new_screen_def saved_ok_def split: bind_splits)
  from resize_never_panics [OF vs(2) _ _ this] vs(1) show ?thesis by auto
qed

subsection \<open>Rows survive a resize\<close>

lemma resized_rows_keeps:
  assumes b: "buffer_wf oc orows b"
    and cap: "length sb + length (sb_cells b) \<le> SCROLLBACK_CAP"
    and r: "resized_rows cols rows b (Some sb) = Some (g, sb', cr)"
  shows "\<exists>gone blanks. sb' = Some (sb @ gone) \<and> cr = crow b - length gone \<and>
    (if rows < orows then sb_cells b = gone @ g @ blanks \<and> list_all blank_row blanks
     else gone = [] \<and> g = sb_cells b @ replicate (rows - orows) (blank_line cols))"
proof -
  have len: "length (sb_cells b) = orows" and cr: "crow b < length (sb_cells b)"
    using b by (auto simp: wf_defs grid_ok_length)
  show ?thesis
  proof (cases "rows < orows")
    case True
    with len have n: "rows < length (sb_cells b)" by simp
    from shrink_rows [OF cr n, of "Some sb"] obtain cells' blanks gone where
      s: "(case trim_blank (length (sb_cells b) - rows) (crow b) (sb_cells b) of
          (e, c) \<Rightarrow> evict_top e c (Some sb) (crow b)) =
        Some (cells', map_option (fold push_scrollback gone) (Some sb), crow b - length gone)"
      and c: "sb_cells b = gone @ cells' @ blanks" "list_all blank_row blanks" by blast
    have "length gone \<le> length (sb_cells b)" using c(1) by simp
    with cap have "fold push_scrollback gone sb = sb @ gone" by (intro fold_push_below_cap) simp
    with s r n have "g = cells'" "sb' = Some (sb @ gone)" "cr = crow b - length gone"
      by (auto simp: resized_rows_def)
    with c True show ?thesis by auto
  next
    case False
    with r len show ?thesis
      by (cases "rows = orows") (auto simp: resized_rows_def vec_resize_def)
  qed
qed

text \<open>
  A resize that keeps the width loses no row with content. Shrinking moves rows from the top
  of the primary screen to the end of the scrollback and drops only blank rows from the bottom,
  so scrollback followed by screen reads as before; growing appends blank rows and leaves the
  scrollback alone. The cursor's row moves up by the number of rows that left.
\<close>

theorem resize_keeps_rows:
  assumes "vs_wf vs" and "1 \<le> rows"
    and "length (vs_scrollback vs) + vs_rows vs \<le> SCROLLBACK_CAP"
    and "resize_screen (vs_cols vs) rows vs = Some vs'"
  shows "\<exists>gone blanks. vs_scrollback vs' = vs_scrollback vs @ gone \<and>
    crow (vs_primary vs') = min (crow (vs_primary vs) - length gone) (rows - 1) \<and>
    (if rows < vs_rows vs
     then sb_cells (vs_primary vs) = gone @ sb_cells (vs_primary vs') @ blanks \<and> list_all blank_row blanks
     else gone = [] \<and> sb_cells (vs_primary vs') =
       sb_cells (vs_primary vs) @ replicate (rows - vs_rows vs) (blank_line (vs_cols vs)))"
proof -
  define b where "b = vs_primary vs"
  have b: "buffer_wf (vs_cols vs) (vs_rows vs) b" using assms(1) by (simp add: vs_wf_def b_def)
  then have len: "length (sb_cells b) = vs_rows vs" by (auto simp: wf_defs grid_ok_length)
  have w: "(case sb_cells b of [] \<Rightarrow> 0 | r # _ \<Rightarrow> length r) = vs_cols vs"
    using b by (auto simp: wf_defs grid_ok_def split: list.splits)
  from assms(4) obtain b' sb' where
    rb: "resize_buffer (vs_cols vs) rows b (Some (vs_scrollback vs)) = Some (b', sb')"
    and vs': "vs_primary vs' = b'" "vs_scrollback vs' = (case sb' of None \<Rightarrow> vs_scrollback vs | Some s \<Rightarrow> s)"
    by (auto simp: resize_screen_def b_def split: bind_splits)
  from rb w obtain cr where
    rr: "resized_rows (vs_cols vs) rows b (Some (vs_scrollback vs)) = Some (sb_cells b', sb', cr)"
    and cr: "crow b' = (if cr \<ge> rows then rows - 1 else cr)"
    by (auto simp: resize_buffer_def Let_def split: bind_splits if_splits)
  have "length (vs_scrollback vs) + length (sb_cells b) \<le> SCROLLBACK_CAP" using assms(3) len by simp
  from resized_rows_keeps [OF b this rr] obtain gone blanks where
    g: "sb' = Some (vs_scrollback vs @ gone)" "cr = crow b - length gone"
    "if rows < vs_rows vs then sb_cells b = gone @ sb_cells b' @ blanks \<and> list_all blank_row blanks
     else gone = [] \<and> sb_cells b' = sb_cells b @ replicate (rows - vs_rows vs) (blank_line (vs_cols vs))" by blast
  have "crow b' = min (crow b - length gone) (rows - 1)" using cr g(2) assms(2) by auto
  then show ?thesis unfolding vs'(1) b_def [symmetric]
    by (rule_tac exI [where x = gone], rule_tac exI [where x = blanks]) (simp add: vs' g)
qed

lemma resize_keeps_rows_witness:
  "\<exists>vs vs' gone blanks. new_screen () 4 2 = Some vs \<and> resize_screen 4 1 vs = Some vs' \<and>
    sb_cells (vs_primary vs) = gone @ sb_cells (vs_primary vs') @ blanks \<and> list_all blank_row blanks"
proof -
  from small_screen obtain vs where vs: "new_screen () 4 2 = Some vs" "vs_wf vs" by blast
  then have f: "vs_cols vs = 4" "vs_rows vs = 2" "vs_scrollback vs = []" "saved_ok 4 1 (vs_saved_cursor vs)"
    by (auto simp: new_screen_def saved_ok_def split: bind_splits)
  from resize_screen_wf [OF vs(2) _ _ f(4)] obtain vs' where r: "resize_screen 4 1 vs = Some vs'" by auto
  from resize_keeps_rows [OF vs(2), of 1 vs'] f r obtain gone blanks where
    "sb_cells (vs_primary vs) = gone @ sb_cells (vs_primary vs') @ blanks" "list_all blank_row blanks"
    by (auto simp: SCROLLBACK_CAP_def)
  with vs(1) r show ?thesis by blast
qed

subsection \<open>Inputs the code does not handle\<close>

definition csi :: "u16 list list \<Rightarrow> char \<Rightarrow> vte_action" where
  "csi params action = VCsi params [] False action"

definition esc :: "u8 \<Rightarrow> vte_action" where
  "esc b = VEsc [] False b"

text \<open>
  DECSC remembers the cursor as it is, and \<open>resize\<close> does not adjust it. On a 2x2 screen:
  save the cursor in the second row, shrink to one row, restore it (DECRC), erase the line: the
  row index is past the end of the grid and the erase panics. The first three steps succeed,
  the last one is a panic.
\<close>

theorem stale_saved_cursor_panics:
  "do {
     let saving = [csi [[2], [1]] CHR ''H'', esc 0x37];
     let erasing = [esc 0x38, csi [] CHR ''K''];
     vs1 \<leftarrow> new_screen [saving, erasing] 2 2;
     vs2 \<leftarrow> feed script_parser narrow 0 [0] vs1;
     vs3 \<leftarrow> resize_screen 2 1 vs2;
     Some (feed script_parser narrow 0 [0] vs3)
   } = Some None"
  by code_simp

text \<open>
  A screen one column wide is accepted, but a wide character leaves its cursor two columns
  past the start, beyond the pending-wrap position, and erasing to the end of the line panics.
\<close>

theorem one_column_wide_char_panics:
  "do {
     vs \<leftarrow> new_screen [[VPrint 0x4E00, csi [] CHR ''K'']] 1 2;
     Some (feed script_parser (\<lambda>_. Some 2) 0 [0] vs)
   } = Some None"
  by (simp add: new_screen_def new_buffer_def feed_def collect_step_def tracking_def byte_step_def borrow_def
      on_both_def print_screen_def line_wrap_def line_feed_def set_cursor_def put_cell_def get_cell_def
      set_cell_def vec_get_def vec_set_def blank_line_def default_cursor_def default_cell_def mk_cell_def
      SPACE_def csi_def csi_dispatch_def bytes_lit_def csi_standard_def csi_param_def on_screen_def
      csi_erase_line_def modify_row_def fill_from_def scroll_up_def Let_def)

text \<open>
  Rows scrolled off while the alternate screen is active go into the scrollback, although
  the scrollback is documented to belong to the primary screen: entering the alternate screen
  of a 2x1 terminal, printing \<open>x\<close> and a line feed leaves the row \<open>x\<close> in the scrollback.
\<close>

theorem alternate_rows_reach_scrollback:
  "map_option (\<lambda>vs. (vs_using_alternate vs, map (map cl_ch) (vs_scrollback vs)))
     (do {
        vs \<leftarrow> new_screen [[VCsi [[1049]] [0x3F] False CHR ''h''], [VPrint 0x78, VExecute 10]] 2 1;
        feed script_parser narrow 0 [0, 0] vs
      }) = Some (True, [[0x78, 0x20]])"
  by code_simp

text \<open>
  In the colon form of an extended colour only the first sub-parameter is read, so
  \<open>CSI 38:5:196 ; 1 m\<close> sets no colour, and the bold that follows is consumed as the colour
  mode and lost, while the semicolon form sets both.
\<close>

theorem colon_color_swallows_next:
  "apply_sgr [[38, 5, 196], [1]] default_attrs = default_attrs \<and>
   apply_sgr [[38], [5], [196], [1]] default_attrs =
     default_attrs\<lparr>at_fg := Some (Indexed 196), at_bold := True\<rparr>"
  by code_simp

end
