(* ===== verification/VtText.thy ===== *)
theory VtText
  imports VtProps
begin

section \<open>Text on the screen, and command tracking\<close>

text \<open>
  What printing a line of text does to the cells, and the invariant that ties the state of the
  command tracker to the pending command whose output it collects.
\<close>

subsection \<open>Printing\<close>

definition overwrite :: "nat \<Rightarrow> 'a list \<Rightarrow> 'a list \<Rightarrow> 'a list" where
  "overwrite c xs row = take c row @ xs @ drop (c + length xs) row"

text \<open>Cells that are no half of a wide character.\<close>

definition single_cells :: "(rchar \<Rightarrow> nat option) \<Rightarrow> row \<Rightarrow> bool" where
  "single_cells width r \<longleftrightarrow> list_all (\<lambda>x. cl_ch x \<noteq> 0 \<and> width (cl_ch x) \<noteq> Some 2) r"

lemma overwrite_Cons: "c < length r \<Longrightarrow> overwrite c (x # xs) r = overwrite (Suc c) xs (r[c := x])"
  by (simp add: overwrite_def take_Suc_conv_app_nth)

lemma overwrite_Nil: "overwrite c [] r = r"
  by (simp add: overwrite_def)

lemma print_narrow:
  assumes b: "buffer_wf cols rows b" and w: "width ch = Some 1" and c: "ccol b < cols"
    and old: "single_cells width (drop (ccol b) (sb_cells b ! crow b))"
  shows "print_screen width ch (b, sb) = Some (set_cursor (crow b) (ccol b + 1)
    (b\<lparr>sb_cells := (sb_cells b)[crow b := (sb_cells b ! crow b)[ccol b := mk_cell ch (cu_attrs (sb_cursor b))]]\<rparr>), sb)"
proof -
  let ?row = "sb_cells b ! crow b"
  have r: "crow b < length (sb_cells b)" "crow b < sb_rows b" "sb_cols b = cols"
    using b by (auto simp: wf_defs grid_ok_length)
  then have len: "length ?row = cols" using b by (auto simp: wf_defs grid_ok_def list_all_iff)
  have "cl_ch (?row ! ccol b) \<noteq> 0" "width (cl_ch (?row ! ccol b)) \<noteq> Some 2"
    using old c len by (simp_all add: single_cells_def Cons_nth_drop_Suc [symmetric])
  with r len c w show ?thesis
    by (simp add: print_screen_def put_cell_def get_cell_def set_cell_def vec_simps set_cursor_def Let_def)
qed

lemma print_narrow_wf:
  assumes b: "buffer_wf cols rows b" and c: "ccol b < cols"
  shows "buffer_wf cols rows (set_cursor (crow b) (ccol b + 1)
    (b\<lparr>sb_cells := (sb_cells b)[crow b := (sb_cells b ! crow b)[ccol b := x]]\<rparr>))"
proof -
  have g: "grid_ok cols rows (sb_cells b)" and r: "crow b < rows" using b by (auto simp: wf_defs)
  then have "length (sb_cells b ! crow b) = cols" by (auto simp: grid_ok_def list_all_iff)
  with g have "grid_ok cols rows ((sb_cells b)[crow b := (sb_cells b ! crow b)[ccol b := x]])"
    by (auto simp: grid_ok_def list_all_iff dest: set_update_subset_insert [THEN subsetD])
  with b c show ?thesis by (simp add: wf_defs set_cursor_def)
qed

text \<open>
  Printing a text of single-width characters that fits before the right margin, over cells
  that hold no wide characters, writes exactly those characters with the current attributes
  into the cursor's row from the cursor's column on, changes no other cell and nothing in the
  scrollback, and leaves the cursor right after the text (past the last column if the text
  fills the row: the wrap is deferred).
\<close>

theorem print_text:
  assumes "buffer_wf cols rows b" and "list_all (\<lambda>ch. width ch = Some 1) s"
    and "single_cells width (drop (ccol b) (sb_cells b ! crow b))" and "ccol b + length s \<le> cols"
  shows "fold_opt (print_screen width) s (b, sb) = Some (set_cursor (crow b) (ccol b + length s)
    (b\<lparr>sb_cells := (sb_cells b)[crow b :=
       overwrite (ccol b) (map (\<lambda>ch. mk_cell ch (cu_attrs (sb_cursor b))) s) (sb_cells b ! crow b)]\<rparr>), sb)"
  using assms
proof (induction s arbitrary: b)
  case Nil
  then show ?case by (simp add: overwrite_Nil set_cursor_def)
next
  case (Cons ch s)
  let ?a = "cu_attrs (sb_cursor b)" and ?row = "sb_cells b ! crow b" and ?c = "ccol b"
  let ?b1 = "set_cursor (crow b) (?c + 1) (b\<lparr>sb_cells := (sb_cells b)[crow b := ?row[?c := mk_cell ch ?a]]\<rparr>)"
  have c: "?c < cols" using Cons.prems(4) by simp
  have r: "crow b < length (sb_cells b)" using Cons.prems(1) by (auto simp: wf_defs grid_ok_length)
  then have len: "length ?row = cols" using Cons.prems(1) by (auto simp: wf_defs grid_ok_def list_all_iff)
  have one: "print_screen width ch (b, sb) = Some (?b1, sb)"
    using print_narrow [OF Cons.prems(1) _ c Cons.prems(3)] Cons.prems(2) by simp
  have "single_cells width (drop (ccol ?b1) (sb_cells ?b1 ! crow ?b1))"
    using Cons.prems(3) r len c
    by (simp add: set_cursor_def single_cells_def Cons_nth_drop_Suc [symmetric])
  from Cons.IH [OF print_narrow_wf [OF Cons.prems(1) c] _ this] Cons.prems(2,4)
  have "fold_opt (print_screen width) s (?b1, sb) = Some (set_cursor (crow ?b1) (ccol ?b1 + length s)
      (?b1\<lparr>sb_cells := (sb_cells ?b1)[crow ?b1 :=
         overwrite (ccol ?b1) (map (\<lambda>ch. mk_cell ch (cu_attrs (sb_cursor ?b1))) s) (sb_cells ?b1 ! crow ?b1)]\<rparr>), sb)"
    by (simp add: set_cursor_def)
  with one r len c show ?case by (simp add: set_cursor_def overwrite_Cons)
qed

lemma print_text_witness:
  "\<exists>b. new_buffer 4 2 = Some b \<and>
    fold_opt (print_screen narrow) [104, 105] (b, []) =
      Some (set_cursor 0 2 (b\<lparr>sb_cells := [[mk_cell 104 default_attrs, mk_cell 105 default_attrs,
        default_cell, default_cell], blank_line 4]\<rparr>), [])"
proof -
  obtain b where b: "new_buffer 4 2 = Some b" "buffer_wf 4 2 b" using new_buffer_wf [of 4 2] by auto
  then have f: "sb_cells b = [blank_line 4, blank_line 4]" "sb_cursor b = default_cursor"
    by (auto simp: new_buffer_def numeral_2_eq_2)
  have "fold_opt (print_screen narrow) [104, 105] (b, []) = Some (set_cursor (crow b) (ccol b + length [104, 105 :: nat])
    (b\<lparr>sb_cells := (sb_cells b)[crow b :=
       overwrite (ccol b) (map (\<lambda>ch. mk_cell ch (cu_attrs (sb_cursor b))) [104, 105]) (sb_cells b ! crow b)]\<rparr>), [])"
    by (rule print_text [OF b(2)])
      (simp_all add: f narrow_def single_cells_def default_cursor_def blank_line_def default_cell_def mk_cell_def SPACE_def
          list_all_iff)
  with b(1) show ?thesis
    by (simp add: f default_cursor_def overwrite_def blank_line_def numeral_eq_Suc)
qed

subsection \<open>Command tracking\<close>

text \<open>A command is being tracked exactly when there is a pending command; its buffer is capped.\<close>

definition commands_ok :: "command_state \<Rightarrow> pending_command option \<Rightarrow> bool" where
  "commands_ok st pc \<longleftrightarrow> (tracking st \<longleftrightarrow> pc \<noteq> None) \<and>
     (case pc of None \<Rightarrow> True | Some c \<Rightarrow> length (pc_output_buf c) \<le> OUTPUT_CAP)"

abbreviation pf_commands_ok :: "performer \<Rightarrow> bool" where
  "pf_commands_ok p \<equiv> commands_ok (pf_command_state p) (pf_pending_command p)"

abbreviation vs_commands_ok :: "'ps virtual_screen \<Rightarrow> bool" where
  "vs_commands_ok vs \<equiv> commands_ok (vs_command_state vs) (vs_pending_command vs)"

definition same_commands :: "performer \<Rightarrow> performer \<Rightarrow> bool" where
  "same_commands p p' \<longleftrightarrow> pf_command_state p' = pf_command_state p \<and> pf_pending_command p' = pf_pending_command p"

lemma same_commands_refl [simp]: "same_commands p p"
  by (simp add: same_commands_def)

lemma same_commands_modes [simp]: "same_commands p (p\<lparr>pf_private_modes := m\<rparr>)"
  by (simp add: same_commands_def)

lemma same_commands_fold:
  "(\<And>x p. same_commands p (f x p)) \<Longrightarrow> same_commands p (fold f xs p)"
  by (induction xs arbitrary: p) (simp_all add: same_commands_def)

lemma private_commands: "same_commands p (csi_private params a p)"
proof -
  have "same_commands p (decset_step w p)" "same_commands p (decrst_step w p)" for w p
    by (simp_all add: same_commands_def decset_step_def decrst_step_def Let_def)
  then show ?thesis by (simp add: csi_private_def same_commands_fold Let_def)
qed

lemma on_commands:
  "on_screen f p = Some p' \<Longrightarrow> same_commands p p'" "on_both g p = Some p' \<Longrightarrow> same_commands p p'"
  by (auto simp: on_screen_def on_both_def same_commands_def)

lemma standard_commands: "csi_standard params a p = Some p' \<Longrightarrow> same_commands p p'"
  by (simp only: csi_standard_def Let_def split: if_split_asm) ((erule on_commands | simp)+)

lemma osc133_commands: "pf_commands_ok p \<Longrightarrow> pf_commands_ok (dispatch_osc133 now params p)"
  by (simp add: dispatch_osc133_def osc133_prompt_def osc133_start_def osc133_finish_def commands_ok_def
      tracking_def start_command_def Let_def)

lemma osc_commands: "osc_dispatch now params p = Some p' \<Longrightarrow> pf_commands_ok p \<Longrightarrow> pf_commands_ok p'"
  by (auto simp: osc_dispatch_def osc133_commands dispatch_osc9_def dispatch_osc777_def push_osc_def Let_def
      split: list.splits if_splits option.splits prod.splits bind_splits)

lemma other_commands:
  "perf_execute b p = Some p' \<Longrightarrow> same_commands p p'"
  "csi_dispatch params ims a p = Some p' \<Longrightarrow> same_commands p p'"
  "esc_dispatch ims b p = Some p' \<Longrightarrow> same_commands p p'"
  subgoal by (auto simp: perf_execute_def same_commands_def Let_def split: if_splits)
  subgoal using private_commands [of p params a]
    by (auto simp: csi_dispatch_def split: if_splits dest: standard_commands)
  subgoal by (auto simp: esc_dispatch_def save_cursor_def restore_cursor_def on_screen_def same_commands_def
        split: if_splits option.splits)
  done

lemma perform_commands:
  assumes "perform width now a p = Some p'" and "pf_commands_ok p"
  shows "pf_commands_ok p'"
proof (cases "\<exists>params bell. a = VOsc params bell")
  case True
  with assms show ?thesis by (auto dest: osc_commands)
next
  case False
  with assms(1) have "same_commands p p'"
    by (cases a) (auto dest: other_commands on_commands)
  with assms(2) show ?thesis by (simp add: same_commands_def)
qed

lemma actions_commands:
  "fold_opt (perform width now) as p = Some p' \<Longrightarrow> pf_commands_ok p \<Longrightarrow> pf_commands_ok p'"
  by (induction as arbitrary: p) (auto split: bind_splits dest: perform_commands)

lemma switch_commands: "switch_step (p, vs) = Some (p', vs') \<Longrightarrow> same_commands p p'"
  by (auto simp: switch_step_def same_commands_def Let_def split: option.splits if_splits bind_splits)

lemma byte_commands:
  "byte_step advance width now b s = Some s' \<Longrightarrow> pf_commands_ok (fst s) \<Longrightarrow> pf_commands_ok (fst s')"
  by (cases s; cases s')
    (auto simp: byte_step_def same_commands_def split: prod.splits bind_splits
      dest!: actions_commands switch_commands)

lemma bytes_commands:
  "fold_opt (byte_step advance width now) bs s = Some s' \<Longrightarrow> pf_commands_ok (fst s) \<Longrightarrow> pf_commands_ok (fst s')"
  by (induction bs arbitrary: s) (auto split: bind_splits dest: byte_commands)

lemma collect_commands:
  "vs_commands_ok vs \<Longrightarrow> length bytes \<le> 512 * 1024 \<Longrightarrow> vs_commands_ok (collect_step bytes vs)"
  using length_filter_le [of "\<lambda>b. 0x20 \<le> unat b \<and> unat b \<noteq> 0x7f" bytes]
  by (clarsimp simp: collect_step_def collect_output_def commands_ok_def tracking_def OUTPUT_CAP_def Let_def
      split: option.splits; linarith)

text \<open>
  The command tracker is consistent after every read of the PTY (at most 64 KiB, well below
  the bound assumed): a command is being tracked if and only if there is a pending command, so
  no OSC 133 sequence is lost on a missing start time, and the collected output never exceeds
  its cap of one MiB.
\<close>

theorem feed_keeps_commands:
  assumes "vs_commands_ok vs" and "length bytes \<le> 512 * 1024"
    and "feed advance width now bytes vs = Some vs'"
  shows "vs_commands_ok vs'"
proof -
  let ?vs1 = "collect_step bytes (vs\<lparr>vs_last_output_time := Some now\<rparr>)"
  from assms(3) obtain p vs2 where
    run: "fold_opt (byte_step advance width now) bytes (borrow (vs_using_alternate ?vs1) ?vs1, ?vs1) = Some (p, vs2)"
    and vs': "vs' = (give_back p vs2)\<lparr>vs_using_alternate := pf_using_alternate p\<rparr>"
    by (auto simp: feed_def Let_def split: bind_splits)
  have "vs_commands_ok ?vs1" using assms(1,2) by (intro collect_commands) simp_all
  then have "pf_commands_ok p" using bytes_commands [OF run] by simp
  then show ?thesis by (simp add: vs')
qed

lemma feed_keeps_commands_witness:
  "\<exists>vs vs'. new_screen () 4 2 = Some vs \<and> feed plain_parser narrow 3 [104] (begin_command_tracking 0 vs) = Some vs' \<and>
    vs_commands_ok vs'"
proof -
  from small_screen obtain vs where vs: "new_screen () 4 2 = Some vs" "vs_wf vs" by blast
  from vs(2) have "vs_wf (begin_command_tracking 0 vs)" by (simp add: begin_command_tracking_def vs_wf_def)
  from feed_wf [OF narrow_ok plain_parser_ok this] obtain vs' where
    f: "feed plain_parser narrow 3 [104] (begin_command_tracking 0 vs) = Some vs'" by blast
  have "vs_commands_ok (begin_command_tracking 0 vs)"
    by (simp add: begin_command_tracking_def commands_ok_def tracking_def start_command_def)
  from feed_keeps_commands [OF this _ f] vs(1) f show ?thesis by auto
qed

text \<open>The other entry points keep it too.\<close>

lemma tracking_keeps_commands:
  "vs_commands_ok (begin_command_tracking now vs)"
  "vs_commands_ok (snd (finish_command_tracking now code vs))"
  "vs_commands_ok vs \<Longrightarrow> vs_commands_ok (snd (take_command_output vs))"
  by (simp_all add: begin_command_tracking_def finish_command_tracking_def take_command_output_def
      commands_ok_def tracking_def start_command_def split: option.splits)

lemma detect_prompt_commands:
  "vs_commands_ok vs \<Longrightarrow> detect_prompt is_match now vs = Some (res, vs') \<Longrightarrow> vs_commands_ok vs'"
  by (auto simp: detect_prompt_def commands_ok_def tracking_def Let_def split: if_splits bind_splits)

end
