(* ===== verification/Attention.thy ===== *)
theory Attention
  imports Prelude "HOL-Library.Product_Lexorder"
begin

section \<open>The attention ledger\<close>

text \<open>
  \<open>src/src/attention/types.rs\<close> and \<open>src/src/attention/ledger.rs\<close>: which panes and which
  notifications a user has not looked at yet. The ledger numbers events, keeps the unread ones
  of each pane, answers with deltas that clients apply to their copy, and remembers completed
  requests so that a retry is not applied twice. Times are milliseconds; every \<open>u64\<close> counter is
  a \<open>nat\<close> whose increment panics at the end of the range, and a panic is \<open>None\<close>.
\<close>

subsection \<open>Types\<close>

datatype severity = Info | Success | Warning | Error | Urgent

text \<open>The derived order of the enum: by position.\<close>

fun severity_rank :: "severity \<Rightarrow> nat" where
  "severity_rank Info = 0"
| "severity_rank Success = 1"
| "severity_rank Warning = 2"
| "severity_rank Error = 3"
| "severity_rank Urgent = 4"

instantiation severity :: linorder
begin

definition less_eq_severity :: "severity \<Rightarrow> severity \<Rightarrow> bool" where
  "less_eq_severity a b \<longleftrightarrow> severity_rank a \<le> severity_rank b"

definition less_severity :: "severity \<Rightarrow> severity \<Rightarrow> bool" where
  "less_severity a b \<longleftrightarrow> severity_rank a < severity_rank b"

instance
proof
  fix x y z :: severity
  show "x < y \<longleftrightarrow> x \<le> y \<and> \<not> y \<le> x" by (auto simp: less_eq_severity_def less_severity_def)
  show "x \<le> x" by (simp add: less_eq_severity_def)
  show "x \<le> y \<Longrightarrow> y \<le> z \<Longrightarrow> x \<le> z" by (simp add: less_eq_severity_def)
  show "x \<le> y \<Longrightarrow> y \<le> x \<Longrightarrow> x = y"
    by (cases x; cases y) (simp_all add: less_eq_severity_def)
  show "x \<le> y \<or> y \<le> x" by (auto simp: less_eq_severity_def)
qed

end

fun severity_str :: "severity \<Rightarrow> string" where
  "severity_str Info = ''info''"
| "severity_str Success = ''success''"
| "severity_str Warning = ''warning''"
| "severity_str Error = ''error''"
| "severity_str Urgent = ''urgent''"

record unread_event =
  ue_seq :: nat
  ue_occurred_at :: nat
  ue_severity :: severity

record pane_attention =
  pa_read_through :: nat
  pa_latest :: nat
  pa_unread :: "unread_event list"
  pa_read_at :: "nat option"

record notif_attention =
  na_event_seq :: nat
  na_occurred_at :: nat
  na_severity :: severity
  na_read :: bool
  na_read_at :: "nat option"

record pane_delta =
  pd_pane_id :: string
  pd_latest :: "nat option"
  pd_read_through :: "nat option"
  pd_first_unread_at :: "nat option"
  pd_severity :: "severity option"
  pd_removed :: "bool option"

record notif_delta =
  nd_notif_id :: string
  nd_read :: "bool option"
  nd_removed :: "bool option"

record state_delta =
  sd_epoch :: string
  sd_revision :: nat
  sd_panes :: "pane_delta list"
  sd_notifs :: "notif_delta list"

type_synonym snapshot = state_delta

datatype attention_target = TPane string | TNotif string

datatype target_status = Applied | StaleEpoch | Invalid | NotFound | Conflict

type_synonym target_result = "attention_target \<times> target_status"

record mark_read_result =
  mr_request_id :: string
  mr_epoch :: string
  mr_applied_at_revision :: "nat option"
  mr_results :: "target_result list"

datatype producer_outcome =
    AcceptedPane string nat nat
  | AcceptedNotif string nat nat
  | Suppressed string
  | OutcomeNotFound

datatype dedup_outcome = OMarkRead mark_read_result | OProducer producer_outcome

datatype dedup_state = InFlight nat nat | Done nat dedup_outcome

record dedup_entry =
  de_payload_hash :: nat
  de_state :: dedup_state

datatype reserve_result = Reserved nat | Replay dedup_outcome | RConflict | RInFlight

datatype ingest_source =
    SBell bool
  | SOscNotify bool
  | SCommandComplete bool
  | SKeywordMatch bool
  | SPlugin

datatype ingest_gate_result = GAccepted | GSuppressed string

definition pane_removed :: "string \<Rightarrow> pane_delta" where
  "pane_removed pid = \<lparr>pd_pane_id = pid, pd_latest = None, pd_read_through = None,
     pd_first_unread_at = None, pd_severity = None, pd_removed = Some True\<rparr>"

definition notif_removed :: "string \<Rightarrow> notif_delta" where
  "notif_removed pid = \<lparr>nd_notif_id = pid, nd_read = None, nd_removed = Some True\<rparr>"

subsection \<open>The ingest gate\<close>

text \<open>
  The part of \<open>NotificationConfig\<close> (\<open>src/src/settings/types/notification.rs\<close>) that the gate
  reads; keyword rules, channels, sounds and hooks are not used here.
\<close>

record bell_config =
  bell_enabled :: bool
  bell_debounce_ms :: nat

record command_complete_config =
  cc_enabled :: bool
  cc_threshold_seconds :: nat

record notification_config =
  nc_enabled :: bool
  nc_bell :: bell_config
  nc_osc_notify :: bool
  nc_osc_notify_debounce_ms :: nat
  nc_idle_reminder :: bool
  nc_command_complete :: command_complete_config

definition evaluate_ingest_gate :: "notification_config \<Rightarrow> ingest_source \<Rightarrow> ingest_gate_result" where
  "evaluate_ingest_gate cfg source =
     (if \<not> nc_enabled cfg then GSuppressed ''notification_disabled''
      else
        (case source of
           SBell dup \<Rightarrow>
             if \<not> bell_enabled (nc_bell cfg) then GSuppressed ''bell_disabled''
             else if dup then GSuppressed ''bell_debounce_duplicate'' else GAccepted
         | SPlugin \<Rightarrow> GAccepted
         | SOscNotify dup \<Rightarrow>
             if dup then GSuppressed ''osc_debounce_duplicate''
             else if nc_osc_notify cfg then GAccepted else GSuppressed ''osc_notify_disabled''
         | SCommandComplete matched \<Rightarrow>
             if cc_enabled (nc_command_complete cfg) \<and> matched then GAccepted
             else GSuppressed ''command_complete_not_matched''
         | SKeywordMatch matched \<Rightarrow>
             if matched then GAccepted else GSuppressed ''keyword_match_not_matched''))"

subsection \<open>The ledger's state\<close>

record attention_ledger =
  lg_epoch :: string
  lg_next_event_seq :: nat
  lg_next_dedup_generation :: nat
  lg_revision :: nat
  lg_panes :: "(string, pane_attention) amap"
  lg_notifs :: "(string, notif_attention) amap"
  lg_dedup :: "(string \<times> string, dedup_entry) amap"

definition UNREAD_CAP :: nat where "UNREAD_CAP = 100"
definition UNREAD_TTL :: nat where "UNREAD_TTL = 72 * 60 * 60 * 1000"
definition IDENTITY_CAP :: nat where "IDENTITY_CAP = 512"
definition DEDUP_TTL :: nat where "DEDUP_TTL = 10 * 60 * 1000"
definition RESERVATION_TIMEOUT :: nat where "RESERVATION_TIMEOUT = 30 * 1000"

definition with_epoch :: "string \<Rightarrow> attention_ledger" where
  "with_epoch e = \<lparr>lg_epoch = e, lg_next_event_seq = 1, lg_next_dedup_generation = 1,
     lg_revision = 0, lg_panes = [], lg_notifs = [], lg_dedup = []\<rparr>"

text \<open>\<open>saturating_sub\<close> is the truncated subtraction of \<open>nat\<close>.\<close>

definition is_expired :: "nat \<Rightarrow> nat \<Rightarrow> nat \<Rightarrow> bool" where
  "is_expired start duration now = (now - start \<ge> duration)"

definition take_event_seq :: "attention_ledger \<Rightarrow> (nat \<times> attention_ledger) option" where
  "take_event_seq l = map_option (\<lambda>n. (lg_next_event_seq l, l\<lparr>lg_next_event_seq := n\<rparr>)) (u64_succ (lg_next_event_seq l))"

definition take_dedup_generation :: "attention_ledger \<Rightarrow> (nat \<times> attention_ledger) option" where
  "take_dedup_generation l =
     map_option (\<lambda>n. (lg_next_dedup_generation l, l\<lparr>lg_next_dedup_generation := n\<rparr>)) (u64_succ (lg_next_dedup_generation l))"

definition bump_revision :: "attention_ledger \<Rightarrow> attention_ledger option" where
  "bump_revision l = map_option (\<lambda>n. l\<lparr>lg_revision := n\<rparr>) (u64_succ (lg_revision l))"

subsection \<open>Deltas\<close>

fun upsert_pane_delta :: "pane_delta \<Rightarrow> pane_delta list \<Rightarrow> pane_delta list" where
  "upsert_pane_delta d [] = [d]"
| "upsert_pane_delta d (e # ds) = (if pd_pane_id e = pd_pane_id d then d # ds else e # upsert_pane_delta d ds)"

fun upsert_notif_delta :: "notif_delta \<Rightarrow> notif_delta list \<Rightarrow> notif_delta list" where
  "upsert_notif_delta d [] = [d]"
| "upsert_notif_delta d (e # ds) = (if nd_notif_id e = nd_notif_id d then d # ds else e # upsert_notif_delta d ds)"

definition push_unique :: "string \<Rightarrow> string list \<Rightarrow> string list" where
  "push_unique v vs = (if list_ex (\<lambda>x. x = v) vs then vs else vs @ [v])"

text \<open>\<open>iter().map(..).max()\<close>.\<close>

fun max_severity :: "severity list \<Rightarrow> severity option" where
  "max_severity [] = None"
| "max_severity (s # ss) = Some (case max_severity ss of None \<Rightarrow> s | Some t \<Rightarrow> max s t)"

definition pane_delta_of :: "string \<Rightarrow> pane_attention \<Rightarrow> pane_delta" where
  "pane_delta_of pid p = \<lparr>pd_pane_id = pid, pd_latest = Some (pa_latest p),
     pd_read_through = Some (pa_read_through p),
     pd_first_unread_at = (case pa_unread p of [] \<Rightarrow> None | e # _ \<Rightarrow> Some (ue_occurred_at e)),
     pd_severity = max_severity (map ue_severity (pa_unread p)), pd_removed = None\<rparr>"

text \<open>Indexing the map with an absent key panics.\<close>

definition pane_delta :: "attention_ledger \<Rightarrow> string \<Rightarrow> pane_delta option" where
  "pane_delta l pid = map_option (pane_delta_of pid) (map_of (lg_panes l) pid)"

definition notif_delta :: "attention_ledger \<Rightarrow> string \<Rightarrow> notif_delta option" where
  "notif_delta l pid = map_option (\<lambda>n. \<lparr>nd_notif_id = pid, nd_read = Some (na_read n), nd_removed = None\<rparr>) (map_of (lg_notifs l) pid)"

type_synonym deltas = "pane_delta list \<times> notif_delta list"

definition upsert_pane :: "attention_ledger \<Rightarrow> string \<Rightarrow> pane_delta list \<Rightarrow> pane_delta list option" where
  "upsert_pane l pid ds = map_option (\<lambda>d. upsert_pane_delta d ds) (pane_delta l pid)"

definition upsert_notif :: "attention_ledger \<Rightarrow> string \<Rightarrow> notif_delta list \<Rightarrow> notif_delta list option" where
  "upsert_notif l pid ds = map_option (\<lambda>d. upsert_notif_delta d ds) (notif_delta l pid)"

definition mk_delta :: "attention_ledger \<Rightarrow> deltas \<Rightarrow> state_delta" where
  "mk_delta l ds = \<lparr>sd_epoch = lg_epoch l, sd_revision = lg_revision l, sd_panes = fst ds, sd_notifs = snd ds\<rparr>"

definition finish_delta :: "attention_ledger \<Rightarrow> deltas \<Rightarrow> (attention_ledger \<times> state_delta option) option" where
  "finish_delta l ds =
     (if fst ds = [] \<and> snd ds = [] then Some (l, None)
      else map_option (\<lambda>l'. (l', Some (mk_delta l' ds))) (bump_revision l))"

subsection \<open>Expiry\<close>

definition dedup_live :: "nat \<Rightarrow> dedup_entry \<Rightarrow> bool" where
  "dedup_live now e \<longleftrightarrow>
     (case de_state e of
        InFlight reserved_at _ \<Rightarrow> \<not> is_expired reserved_at RESERVATION_TIMEOUT now
      | Done done_at _ \<Rightarrow> \<not> is_expired done_at DEDUP_TTL now)"

definition sweep_dedup :: "nat \<Rightarrow> attention_ledger \<Rightarrow> attention_ledger" where
  "sweep_dedup now l = l\<lparr>lg_dedup := filter (\<lambda>(_, e). dedup_live now e) (lg_dedup l)\<rparr>"

text \<open>One pane of the first loop of \<open>expire_into\<close>, and whether it changed.\<close>

definition expire_pane :: "nat \<Rightarrow> pane_attention \<Rightarrow> pane_attention \<times> bool" where
  "expire_pane now p =
     (let q = dropWhile (\<lambda>e. is_expired (ue_occurred_at e) UNREAD_TTL now) (pa_unread p)
      in if pa_unread p \<noteq> [] \<and> q = []
         then (p\<lparr>pa_unread := [], pa_read_through := pa_latest p, pa_read_at := Some now\<rparr>, True)
         else (p\<lparr>pa_unread := q\<rparr>, length q < length (pa_unread p)))"

definition expire_notif :: "nat \<Rightarrow> notif_attention \<Rightarrow> notif_attention \<times> bool" where
  "expire_notif now n =
     (if \<not> na_read n \<and> is_expired (na_occurred_at n) UNREAD_TTL now
      then (n\<lparr>na_read := True, na_read_at := Some now\<rparr>, True) else (n, False))"

definition old_read :: "nat \<Rightarrow> nat option \<Rightarrow> bool" where
  "old_read now t = (case t of None \<Rightarrow> False | Some t \<Rightarrow> is_expired t UNREAD_TTL now)"

definition collect_pane :: "nat \<Rightarrow> pane_attention \<Rightarrow> bool" where
  "collect_pane now p \<longleftrightarrow> pa_unread p = [] \<and> old_read now (pa_read_at p)"

definition collect_notif :: "nat \<Rightarrow> notif_attention \<Rightarrow> bool" where
  "collect_notif now n \<longleftrightarrow> na_read n \<and> old_read now (na_read_at n)"

text \<open>The keys whose value the loop changed, in iteration order.\<close>

definition changed_keys :: "('v \<Rightarrow> 'v \<times> bool) \<Rightarrow> (string, 'v) amap \<Rightarrow> string list" where
  "changed_keys f m = fold push_unique (map fst (filter (\<lambda>(_, v). snd (f v)) m)) []"

definition update_values :: "('v \<Rightarrow> 'v \<times> bool) \<Rightarrow> (string, 'v) amap \<Rightarrow> (string, 'v) amap" where
  "update_values f m = map (\<lambda>(k, v). (k, fst (f v))) m"

definition expire_state :: "nat \<Rightarrow> attention_ledger \<Rightarrow> attention_ledger" where
  "expire_state now l =
     (let l1 = sweep_dedup now l
      in l1\<lparr>lg_panes := filter (\<lambda>(_, p). \<not> collect_pane now p) (update_values (expire_pane now) (lg_panes l1)),
            lg_notifs := filter (\<lambda>(_, n). \<not> collect_notif now n) (update_values (expire_notif now) (lg_notifs l1))\<rparr>)"

definition expire_into :: "nat \<Rightarrow> attention_ledger \<Rightarrow> deltas \<Rightarrow> (attention_ledger \<times> deltas) option" where
  "expire_into now l = (\<lambda>(pds, nds). do {
     let changed_panes = changed_keys (expire_pane now) (lg_panes l);
     let changed_notifs = changed_keys (expire_notif now) (lg_notifs l);
     let removed_panes = map fst (filter (\<lambda>(_, p). collect_pane now p) (update_values (expire_pane now) (lg_panes l)));
     let removed_notifs = map fst (filter (\<lambda>(_, n). collect_notif now n) (update_values (expire_notif now) (lg_notifs l)));
     let l' = expire_state now l;
     pds1 \<leftarrow> fold_opt (upsert_pane l') (filter (\<lambda>pid. pid \<in> fst ` set (lg_panes l')) changed_panes) pds;
     nds1 \<leftarrow> fold_opt (upsert_notif l') (filter (\<lambda>pid. pid \<in> fst ` set (lg_notifs l')) changed_notifs) nds;
     let pds2 = fold (\<lambda>pid. upsert_pane_delta (pane_removed pid)) removed_panes pds1;
     let nds2 = fold (\<lambda>pid. upsert_notif_delta (notif_removed pid)) removed_notifs nds1;
     Some (l', (pds2, nds2))
   })"

subsection \<open>Identity caps\<close>

text \<open>\<open>Iterator::min_by\<close>: the first of the least elements.\<close>

fun min_by :: "('a \<Rightarrow> 'k::linorder) \<Rightarrow> 'a list \<Rightarrow> 'a option" where
  "min_by key [] = None"
| "min_by key (x # xs) = Some (fold (\<lambda>y best. if key y < key best then y else best) xs x)"

definition or_zero :: "nat option \<Rightarrow> nat" where
  "or_zero t = (case t of None \<Rightarrow> 0 | Some n \<Rightarrow> n)"

text \<open>
  The pane to evict: the one read longest ago; with every pane unread, the one whose oldest
  unread event is oldest. Comparing the heads panics on a pane without unread events.
\<close>

definition pane_victim :: "(string, pane_attention) amap \<Rightarrow> string option" where
  "pane_victim ps =
     (case min_by (\<lambda>(pid, p). (or_zero (pa_read_at p), pa_latest p, pid)) (filter (\<lambda>(_, p). pa_unread p = []) ps) of
        Some (pid, _) \<Rightarrow> Some pid
      | None \<Rightarrow>
          if list_ex (\<lambda>(_, p). pa_unread p = []) ps then None
          else map_option fst (min_by (\<lambda>(pid, p). (ue_occurred_at (hd (pa_unread p)), ue_seq (hd (pa_unread p)), pid)) ps))"

definition notif_victim :: "(string, notif_attention) amap \<Rightarrow> string option" where
  "notif_victim ns =
     (case min_by (\<lambda>(pid, n). (or_zero (na_read_at n), na_event_seq n, pid)) (filter (\<lambda>(_, n). na_read n) ns) of
        Some (pid, _) \<Rightarrow> Some pid
      | None \<Rightarrow> map_option fst (min_by (\<lambda>(pid, n). (na_occurred_at n, na_event_seq n, pid)) ns))"

lemma min_by_in: "min_by key xs = Some x \<Longrightarrow> x \<in> set xs"
proof (cases xs)
  case (Cons a as)
  have "fold (\<lambda>y best. if key y < key best then y else best) as b \<in> insert b (set as)" for b
    by (induction as arbitrary: b) auto
  then show "min_by key xs = Some x \<Longrightarrow> ?thesis" using Cons by auto
qed simp

lemma min_by_None [simp]: "min_by key xs = None \<longleftrightarrow> xs = []"
  by (cases xs) simp_all

lemma pane_victim_in: "pane_victim ps = Some v \<Longrightarrow> v \<in> fst ` set ps"
  by (force simp: pane_victim_def split: option.splits if_splits dest!: min_by_in)

lemma notif_victim_in: "notif_victim ns = Some v \<Longrightarrow> v \<in> fst ` set ns"
  by (force simp: notif_victim_def split: option.splits dest!: min_by_in)

lemma al_del_shorter: "v \<in> fst ` set m \<Longrightarrow> length (al_del v m) < length m"
  by (auto simp: al_del_def intro: length_filter_less [where x = "(v, w)" for w])

text \<open>The two \<open>while\<close> loops: each turn removes its victim, so they end.\<close>

function evict_panes ::
    "(string, pane_attention) amap \<Rightarrow> pane_delta list \<Rightarrow> ((string, pane_attention) amap \<times> pane_delta list) option" where
  "evict_panes ps ds =
     (if length ps > IDENTITY_CAP
      then (case pane_victim ps of
              None \<Rightarrow> None
            | Some v \<Rightarrow> evict_panes (al_del v ps) (upsert_pane_delta (pane_removed v) ds))
      else Some (ps, ds))"
  by pat_completeness auto
termination
  by (relation "measure (length o fst)") (simp_all add: al_del_shorter pane_victim_in)

function evict_notifs ::
    "(string, notif_attention) amap \<Rightarrow> notif_delta list \<Rightarrow> ((string, notif_attention) amap \<times> notif_delta list) option" where
  "evict_notifs ns ds =
     (if length ns > IDENTITY_CAP
      then (case notif_victim ns of
              None \<Rightarrow> None
            | Some v \<Rightarrow> evict_notifs (al_del v ns) (upsert_notif_delta (notif_removed v) ds))
      else Some (ns, ds))"
  by pat_completeness auto
termination
  by (relation "measure (length o fst)") (simp_all add: al_del_shorter notif_victim_in)

declare evict_panes.simps [simp del] evict_notifs.simps [simp del]

definition enforce_identity_caps :: "attention_ledger \<Rightarrow> deltas \<Rightarrow> (attention_ledger \<times> deltas) option" where
  "enforce_identity_caps l = (\<lambda>(pds, nds). do {
     (ps, pds') \<leftarrow> evict_panes (lg_panes l) pds;
     (ns, nds') \<leftarrow> evict_notifs (lg_notifs l) nds;
     Some (l\<lparr>lg_panes := ps, lg_notifs := ns\<rparr>, (pds', nds'))
   })"

subsection \<open>Recording events\<close>

definition new_pane :: pane_attention where
  "new_pane = \<lparr>pa_read_through = 0, pa_latest = 0, pa_unread = [], pa_read_at = None\<rparr>"

definition add_event :: "nat \<Rightarrow> nat \<Rightarrow> severity \<Rightarrow> pane_attention \<Rightarrow> pane_attention" where
  "add_event seq occurred_at sev p =
     (let q = pa_unread p @ [\<lparr>ue_seq = seq, ue_occurred_at = occurred_at, ue_severity = sev\<rparr>]
      in p\<lparr>pa_latest := seq, pa_unread := drop (length q - UNREAD_CAP) q, pa_read_at := None\<rparr>)"

definition record_pane_event ::
    "string \<Rightarrow> nat \<Rightarrow> severity \<Rightarrow> nat \<Rightarrow> attention_ledger \<Rightarrow> ((nat \<times> state_delta) \<times> attention_ledger) option" where
  "record_pane_event pid occurred_at sev now l = do {
     (l1, pds, nds) \<leftarrow> expire_into now l ([], []);
     (seq, l2) \<leftarrow> take_event_seq l1;
     let p = (case map_of (lg_panes l2) pid of None \<Rightarrow> new_pane | Some p \<Rightarrow> p);
     let l3 = l2\<lparr>lg_panes := al_put pid (add_event seq occurred_at sev p) (lg_panes l2)\<rparr>;
     pds1 \<leftarrow> upsert_pane l3 pid pds;
     (l4, ds) \<leftarrow> enforce_identity_caps l3 (pds1, nds);
     l5 \<leftarrow> bump_revision l4;
     Some ((seq, mk_delta l5 ds), l5)
   }"

definition record_notif_event ::
    "string \<Rightarrow> nat \<Rightarrow> severity \<Rightarrow> nat \<Rightarrow> attention_ledger \<Rightarrow> ((nat \<times> state_delta) \<times> attention_ledger) option" where
  "record_notif_event pid occurred_at sev now l = do {
     (l1, pds, nds) \<leftarrow> expire_into now l ([], []);
     (seq, l2) \<leftarrow> take_event_seq l1;
     let l3 = l2\<lparr>lg_notifs := al_put pid \<lparr>na_event_seq = seq, na_occurred_at = occurred_at,
                na_severity = sev, na_read = False, na_read_at = None\<rparr> (lg_notifs l2)\<rparr>;
     nds1 \<leftarrow> upsert_notif l3 pid nds;
     (l4, ds) \<leftarrow> enforce_identity_caps l3 (pds, nds1);
     l5 \<leftarrow> bump_revision l4;
     Some ((seq, mk_delta l5 ds), l5)
   }"

subsection \<open>Marking as read\<close>

text \<open>The third branch of the match in the first loop: the pane, and whether it changed.\<close>

definition read_pane :: "nat \<Rightarrow> nat \<Rightarrow> pane_attention \<Rightarrow> pane_attention \<times> bool" where
  "read_pane through now p =
     (let w = max (pa_read_through p) through;
          q = dropWhile (\<lambda>e. ue_seq e \<le> w) (pa_unread p);
          p1 = p\<lparr>pa_read_through := w, pa_unread := q\<rparr>;
          emptied = (q = [] \<and> pa_unread p \<noteq> []);
          p2 = (if emptied then p1\<lparr>pa_read_through := pa_latest p1, pa_read_at := Some now\<rparr> else p1)
      in (p2, pa_read_through p2 \<noteq> pa_read_through p \<or> emptied))"

text \<open>The state of the two loops: the ledger, the results, whether any target was accepted, and
  the targets that changed.\<close>

record marking =
  mk_ledger :: attention_ledger
  mk_results :: "target_result list"
  mk_accepted :: bool
  mk_panes :: "string list"
  mk_notifs :: "string list"

definition mark_pane :: "nat \<Rightarrow> string \<times> nat \<Rightarrow> marking \<Rightarrow> marking" where
  "mark_pane now = (\<lambda>(pid, through) m.
     (case map_of (lg_panes (mk_ledger m)) pid of
        None \<Rightarrow> m\<lparr>mk_results := mk_results m @ [(TPane pid, NotFound)]\<rparr>
      | Some p \<Rightarrow>
          if through > pa_latest p then m\<lparr>mk_results := mk_results m @ [(TPane pid, Invalid)]\<rparr>
          else
            (let (p', changed) = read_pane through now p
             in m\<lparr>mk_ledger := (mk_ledger m)\<lparr>lg_panes := al_put pid p' (lg_panes (mk_ledger m))\<rparr>,
                  mk_results := mk_results m @ [(TPane pid, Applied)], mk_accepted := True,
                  mk_panes := (if changed then push_unique pid (mk_panes m) else mk_panes m)\<rparr>)))"

definition mark_notif :: "nat \<Rightarrow> string \<Rightarrow> marking \<Rightarrow> marking" where
  "mark_notif now pid m =
     (case map_of (lg_notifs (mk_ledger m)) pid of
        None \<Rightarrow> m\<lparr>mk_results := mk_results m @ [(TNotif pid, NotFound)]\<rparr>
      | Some n \<Rightarrow>
          (let m1 = m\<lparr>mk_results := mk_results m @ [(TNotif pid, Applied)], mk_accepted := True\<rparr>
           in if na_read n then m1
              else m1\<lparr>mk_ledger := (mk_ledger m)\<lparr>lg_notifs :=
                        al_put pid (n\<lparr>na_read := True, na_read_at := Some now\<rparr>) (lg_notifs (mk_ledger m))\<rparr>,
                      mk_notifs := push_unique pid (mk_notifs m)\<rparr>))"

definition stale_results :: "(string \<times> nat) list \<Rightarrow> string list \<Rightarrow> target_result list" where
  "stale_results panes notifs =
     map (\<lambda>(pid, _). (TPane pid, StaleEpoch)) panes @ map (\<lambda>pid. (TNotif pid, StaleEpoch)) notifs"

type_synonym mark_read_reply = "state_delta option \<times> target_result list \<times> nat option"

definition mark_read ::
    "string \<Rightarrow> (string \<times> nat) list \<Rightarrow> string list \<Rightarrow> nat \<Rightarrow> attention_ledger \<Rightarrow>
     (mark_read_reply \<times> attention_ledger) option" where
  "mark_read epoch panes notifs now l = do {
     (l1, pds, nds) \<leftarrow> expire_into now l ([], []);
     if epoch \<noteq> lg_epoch l1 then do {
       (l2, ds) \<leftarrow> enforce_identity_caps l1 (pds, nds);
       (l3, d) \<leftarrow> finish_delta l2 ds;
       Some ((d, stale_results panes notifs, None), l3)
     } else do {
       let m = fold (mark_notif now) notifs (fold (mark_pane now) panes
                 \<lparr>mk_ledger = l1, mk_results = [], mk_accepted = False, mk_panes = [], mk_notifs = []\<rparr>);
       let l2 = mk_ledger m;
       pds1 \<leftarrow> fold_opt (upsert_pane l2) (mk_panes m) pds;
       nds1 \<leftarrow> fold_opt (upsert_notif l2) (mk_notifs m) nds;
       (l3, ds) \<leftarrow> enforce_identity_caps l2 (pds1, nds1);
       (l4, d) \<leftarrow> finish_delta l3 ds;
       Some ((d, mk_results m, if mk_accepted m then Some (lg_revision l4) else None), l4)
     }
   }"

definition pane_closed :: "string \<Rightarrow> nat \<Rightarrow> attention_ledger \<Rightarrow> (state_delta option \<times> attention_ledger) option" where
  "pane_closed pid now l = do {
     (l1, pds, nds) \<leftarrow> expire_into now l ([], []);
     let l2 = l1\<lparr>lg_panes := al_del pid (lg_panes l1)\<rparr>;
     let pds1 = (if map_of (lg_panes l1) pid \<noteq> None then upsert_pane_delta (pane_removed pid) pds else pds);
     (l3, ds) \<leftarrow> enforce_identity_caps l2 (pds1, nds);
     (l4, d) \<leftarrow> finish_delta l3 ds;
     Some (d, l4)
   }"

definition sweep :: "nat \<Rightarrow> attention_ledger \<Rightarrow> (state_delta option \<times> attention_ledger) option" where
  "sweep now l = do {
     (l1, ds) \<leftarrow> expire_into now l ([], []);
     (l2, ds') \<leftarrow> enforce_identity_caps l1 ds;
     (l3, d) \<leftarrow> finish_delta l2 ds';
     Some (d, l3)
   }"

subsection \<open>Deduplication\<close>

definition fresh_reservation ::
    "string \<times> string \<Rightarrow> nat \<Rightarrow> nat \<Rightarrow> attention_ledger \<Rightarrow> (reserve_result \<times> attention_ledger) option" where
  "fresh_reservation key hash now l = do {
     (g, l1) \<leftarrow> take_dedup_generation l;
     Some (Reserved g, l1\<lparr>lg_dedup :=
       al_put key \<lparr>de_payload_hash = hash, de_state = InFlight now g\<rparr> (lg_dedup l1)\<rparr>)
   }"

definition reserve ::
    "string \<Rightarrow> string \<Rightarrow> nat \<Rightarrow> nat \<Rightarrow> attention_ledger \<Rightarrow> (reserve_result \<times> attention_ledger) option" where
  "reserve client request hash now l =
     (let key = (client, request)
      in case map_of (lg_dedup l) key of
           None \<Rightarrow> fresh_reservation key hash now l
         | Some e \<Rightarrow>
             (case de_state e of
                InFlight reserved_at _ \<Rightarrow>
                  if is_expired reserved_at RESERVATION_TIMEOUT now then fresh_reservation key hash now l
                  else if de_payload_hash e \<noteq> hash then Some (RConflict, l)
                  else Some (RInFlight, l)
              | Done done_at outcome \<Rightarrow>
                  if is_expired done_at DEDUP_TTL now then fresh_reservation key hash now l
                  else if de_payload_hash e \<noteq> hash then Some (RConflict, l)
                  else Some (Replay outcome, l)))"

definition complete ::
    "string \<times> string \<Rightarrow> nat \<Rightarrow> dedup_outcome \<Rightarrow> nat \<Rightarrow> attention_ledger \<Rightarrow> bool \<times> attention_ledger" where
  "complete key g outcome now l =
     (case map_of (lg_dedup l) key of
        None \<Rightarrow> (False, l)
      | Some e \<Rightarrow>
          (case de_state e of
             InFlight _ active \<Rightarrow>
               if active = g
               then (True, l\<lparr>lg_dedup := al_put key (e\<lparr>de_state := Done now outcome\<rparr>) (lg_dedup l)\<rparr>)
               else (False, l)
           | Done _ _ \<Rightarrow> (False, l)))"

subsection \<open>Reads\<close>

definition attention_snapshot :: "attention_ledger \<Rightarrow> snapshot" where
  "attention_snapshot l =
     \<lparr>sd_epoch = lg_epoch l, sd_revision = lg_revision l,
      sd_panes = sort_key pd_pane_id (map (\<lambda>(pid, p). pane_delta_of pid p) (lg_panes l)),
      sd_notifs = sort_key nd_notif_id
        (map (\<lambda>(pid, n). \<lparr>nd_notif_id = pid, nd_read = Some (na_read n), nd_removed = None\<rparr>) (lg_notifs l))\<rparr>"

definition first_unread_at :: "attention_ledger \<Rightarrow> string \<Rightarrow> nat option" where
  "first_unread_at l pid =
     (case map_of (lg_panes l) pid of
        None \<Rightarrow> None
      | Some p \<Rightarrow> (case pa_unread p of [] \<Rightarrow> None | e # _ \<Rightarrow> Some (ue_occurred_at e)))"

end
