(* ===== verification/AttentionSync.thy ===== *)
theory AttentionSync
  imports Attention
begin

section \<open>The ledger's invariant, and clients that follow its deltas\<close>

text \<open>
  \<open>ledger_wf\<close> is the invariant of the ledger, kept by every operation; on it no operation
  panics while the counters have room. \<open>synced_source\<close> is the contract between a source of
  deltas and its clients: a client that starts from a snapshot and applies the later deltas
  always holds the current view. The ledger is shown to satisfy it.
\<close>

subsection \<open>Values of a map\<close>

definition vals_ok :: "('v \<Rightarrow> bool) \<Rightarrow> ('k, 'v) amap \<Rightarrow> bool" where
  "vals_ok P m \<longleftrightarrow> list_all (\<lambda>(_, v). P v) m"

lemma vals_ok_put: "vals_ok P m \<Longrightarrow> P v \<Longrightarrow> vals_ok P (al_put k v m)"
  by (induction k v m rule: al_put.induct) (auto simp: vals_ok_def)

lemma vals_ok_filter: "vals_ok P m \<Longrightarrow> vals_ok P (filter f m)"
  by (auto simp: vals_ok_def list_all_iff)

lemma vals_ok_del: "vals_ok P m \<Longrightarrow> vals_ok P (al_del k m)"
  by (simp add: al_del_def vals_ok_filter)

lemma vals_ok_mono: "vals_ok P m \<Longrightarrow> (\<And>v. P v \<Longrightarrow> Q v) \<Longrightarrow> vals_ok Q m"
  by (auto simp: vals_ok_def list_all_iff)

lemma vals_ok_lookup: "vals_ok P m \<Longrightarrow> map_of m k = Some v \<Longrightarrow> P v"
  by (auto simp: vals_ok_def list_all_iff dest: map_of_SomeD)

lemma vals_ok_update: "vals_ok P m \<Longrightarrow> (\<And>v. P v \<Longrightarrow> P (fst (f v))) \<Longrightarrow> vals_ok P (update_values f m)"
  by (auto simp: vals_ok_def update_values_def list_all_iff)

lemma map_of_update_values: "map_of (update_values f m) k = map_option (fst \<circ> f) (map_of m k)"
  by (induction m) (auto simp: update_values_def)

lemma al_wf_update_values: "al_wf (update_values f m) = al_wf m"
proof -
  have "map fst (update_values f m) = map fst m" by (simp add: update_values_def case_prod_unfold)
  then show ?thesis by (simp add: al_wf_def)
qed

lemma keys_update_values: "fst ` set (update_values f m) = fst ` set m"
  by (force simp: update_values_def)

lemma length_update_values [simp]: "length (update_values f m) = length m"
  by (simp add: update_values_def)

lemma in_keys_iff: "k \<in> fst ` set m \<longleftrightarrow> map_of m k \<noteq> None"
  by (simp add: map_of_eq_None_iff)

subsection \<open>The invariant\<close>

definition pane_ok :: "nat \<Rightarrow> pane_attention \<Rightarrow> bool" where
  "pane_ok nxt p \<longleftrightarrow> sorted_wrt (<) (map ue_seq (pa_unread p)) \<and>
     list_all (\<lambda>e. pa_read_through p < ue_seq e \<and> ue_seq e \<le> pa_latest p) (pa_unread p) \<and>
     pa_read_through p \<le> pa_latest p \<and> pa_latest p < nxt \<and> length (pa_unread p) \<le> UNREAD_CAP \<and>
     (pa_unread p = [] \<longleftrightarrow> pa_read_at p \<noteq> None)"

definition notif_ok :: "nat \<Rightarrow> notif_attention \<Rightarrow> bool" where
  "notif_ok nxt n \<longleftrightarrow> na_event_seq n < nxt \<and> (na_read n \<longleftrightarrow> na_read_at n \<noteq> None)"

definition dedup_ok :: "nat \<Rightarrow> dedup_entry \<Rightarrow> bool" where
  "dedup_ok nxt e \<longleftrightarrow> (case de_state e of InFlight _ g \<Rightarrow> g < nxt | Done _ _ \<Rightarrow> True)"

definition ledger_inv :: "attention_ledger \<Rightarrow> bool" where
  "ledger_inv l \<longleftrightarrow> al_wf (lg_panes l) \<and> al_wf (lg_notifs l) \<and> al_wf (lg_dedup l) \<and>
     vals_ok (pane_ok (lg_next_event_seq l)) (lg_panes l) \<and>
     vals_ok (notif_ok (lg_next_event_seq l)) (lg_notifs l) \<and>
     vals_ok (dedup_ok (lg_next_dedup_generation l)) (lg_dedup l) \<and> 0 < lg_next_event_seq l"

definition ledger_wf :: "attention_ledger \<Rightarrow> bool" where
  "ledger_wf l \<longleftrightarrow> ledger_inv l \<and> length (lg_panes l) \<le> IDENTITY_CAP \<and> length (lg_notifs l) \<le> IDENTITY_CAP"

lemma pane_ok_mono: "pane_ok n p \<Longrightarrow> n \<le> m \<Longrightarrow> pane_ok m p"
  by (simp add: pane_ok_def)

lemma notif_ok_mono: "notif_ok n p \<Longrightarrow> n \<le> m \<Longrightarrow> notif_ok m p"
  by (simp add: notif_ok_def)

lemma sorted_wrt_dropWhile: "sorted_wrt R xs \<Longrightarrow> sorted_wrt R (dropWhile P xs)"
  by (induction xs) auto

lemma list_all_dropWhile: "list_all Q xs \<Longrightarrow> list_all Q (dropWhile P xs)"
  by (induction xs) auto

lemma expire_pane_ok: "pane_ok nxt p \<Longrightarrow> pane_ok nxt (fst (expire_pane now p))"
  using length_dropWhile_le [of "\<lambda>e. is_expired (ue_occurred_at e) UNREAD_TTL now" "pa_unread p"]
  by (auto simp: pane_ok_def expire_pane_def Let_def list_all_dropWhile sorted_wrt_map sorted_wrt_dropWhile)

lemma expire_notif_ok: "notif_ok nxt n \<Longrightarrow> notif_ok nxt (fst (expire_notif now n))"
  by (auto simp: notif_ok_def expire_notif_def)

text \<open>Dropping the events up to a watermark leaves exactly those past it, as they are ordered.\<close>

lemma dropWhile_upto:
  "sorted_wrt (<) (map ue_seq es) \<Longrightarrow> dropWhile (\<lambda>e. ue_seq e \<le> w) es = filter (\<lambda>e. w < ue_seq e) es"
proof (induction es)
  case (Cons e es)
  then have later: "list_all (\<lambda>x. ue_seq e < ue_seq x) es" by (simp add: list_all_iff)
  show ?case
  proof (cases "ue_seq e \<le> w")
    case True
    with Cons show ?thesis by simp
  next
    case False
    with later have "filter (\<lambda>x. w < ue_seq x) es = es" by (auto simp: filter_id_conv list_all_iff)
    with False show ?thesis by simp
  qed
qed simp

lemma read_pane_unread:
  "pane_ok nxt p \<Longrightarrow> pa_unread (fst (read_pane through now p)) =
     filter (\<lambda>e. max (pa_read_through p) through < ue_seq e) (pa_unread p)"
  by (simp add: read_pane_def pane_ok_def dropWhile_upto Let_def)

lemma sorted_wrt_filter_map: "sorted_wrt R (map f xs) \<Longrightarrow> sorted_wrt R (map f (filter P xs))"
  by (induction xs) auto

lemma read_pane_ok:
  assumes p: "pane_ok nxt p" and through: "through \<le> pa_latest p"
  shows "pane_ok nxt (fst (read_pane through now p))"
proof -
  define w where "w = max (pa_read_through p) through"
  define q where "q = filter (\<lambda>e. w < ue_seq e) (pa_unread p)"
  have dw: "dropWhile (\<lambda>e. ue_seq e \<le> w) (pa_unread p) = q"
    using p by (simp add: pane_ok_def dropWhile_upto q_def)
  have rp: "fst (read_pane through now p) =
      (let p1 = p\<lparr>pa_read_through := w, pa_unread := q\<rparr>
       in if q = [] \<and> pa_unread p \<noteq> [] then p1\<lparr>pa_read_through := pa_latest p1, pa_read_at := Some now\<rparr> else p1)"
    unfolding read_pane_def Let_def w_def [symmetric] dw by simp
  have "w \<le> pa_latest p" using p through by (simp add: w_def pane_ok_def)
  moreover have "sorted_wrt (<) (map ue_seq q)" using p by (simp add: q_def pane_ok_def sorted_wrt_filter_map)
  moreover have "list_all (\<lambda>e. w < ue_seq e \<and> ue_seq e \<le> pa_latest p) q"
    using p by (auto simp: q_def pane_ok_def list_all_iff)
  moreover have "length q \<le> UNREAD_CAP"
    using p unfolding q_def pane_ok_def by (meson le_trans length_filter_le)
  moreover have "pa_unread p = [] \<Longrightarrow> q = []" by (simp add: q_def)
  ultimately show ?thesis using p by (auto simp: rp pane_ok_def Let_def)
qed

lemma read_pane_unchanged: "pane_ok nxt p \<Longrightarrow> \<not> snd (read_pane through now p) \<Longrightarrow> fst (read_pane through now p) = p"
proof -
  assume p: "pane_ok nxt p" and c: "\<not> snd (read_pane through now p)"
  then have w: "max (pa_read_through p) through = pa_read_through p"
    by (auto simp: read_pane_def Let_def split: if_splits)
  have "filter (\<lambda>e. pa_read_through p < ue_seq e) (pa_unread p) = pa_unread p"
    using p by (simp add: pane_ok_def filter_id_conv list_all_iff)
  then have "dropWhile (\<lambda>e. ue_seq e \<le> pa_read_through p) (pa_unread p) = pa_unread p"
    using p by (simp add: pane_ok_def dropWhile_upto)
  then show ?thesis using c unfolding read_pane_def Let_def w by (auto split: if_splits)
qed

lemma add_event_ok:
  assumes p: "pane_ok nxt p"
  shows "pane_ok (Suc nxt) (add_event nxt occ sev p)"
proof -
  define q where "q = pa_unread p @ [\<lparr>ue_seq = nxt, ue_occurred_at = occ, ue_severity = sev\<rparr>]"
  define q' where "q' = drop (length q - UNREAD_CAP) q"
  have "sorted_wrt (<) (map ue_seq q)"
    using p by (auto simp: q_def pane_ok_def sorted_wrt_append list_all_iff)
  then have "sorted_wrt (<) (map ue_seq q')" by (simp add: q'_def sorted_wrt_drop flip: drop_map)
  moreover have "list_all (\<lambda>e. pa_read_through p < ue_seq e \<and> ue_seq e \<le> nxt) q"
    using p by (auto simp: q_def pane_ok_def list_all_iff)
  then have "list_all (\<lambda>e. pa_read_through p < ue_seq e \<and> ue_seq e \<le> nxt) q'"
    by (auto simp: q'_def list_all_iff dest: in_set_dropD)
  moreover have "length q' \<le> UNREAD_CAP" "q' \<noteq> []" by (simp_all add: q'_def q_def UNREAD_CAP_def)
  moreover have "add_event nxt occ sev p = p\<lparr>pa_latest := nxt, pa_unread := q', pa_read_at := None\<rparr>"
    by (simp add: add_event_def q_def q'_def Let_def)
  ultimately show ?thesis using p by (simp add: pane_ok_def)
qed

lemma new_pane_ok: "pane_ok (Suc nxt) (add_event nxt occ sev new_pane)" if "0 < nxt"
  using that by (simp add: pane_ok_def add_event_def new_pane_def UNREAD_CAP_def)

subsection \<open>Lists of deltas\<close>

text \<open>What a client does with one delta, and with a list of them, on a map from ids to deltas.\<close>

definition apply_delta :: "('d \<Rightarrow> string) \<Rightarrow> ('d \<Rightarrow> bool) \<Rightarrow> 'd \<Rightarrow> (string \<Rightarrow> 'd option) \<Rightarrow> string \<Rightarrow> 'd option" where
  "apply_delta key gone d m = m(key d := if gone d then None else Some d)"

definition apply_deltas :: "('d \<Rightarrow> string) \<Rightarrow> ('d \<Rightarrow> bool) \<Rightarrow> 'd list \<Rightarrow> (string \<Rightarrow> 'd option) \<Rightarrow> string \<Rightarrow> 'd option" where
  "apply_deltas key gone ds m = fold (apply_delta key gone) ds m"

text \<open>The two lists of deltas share a contract: \<open>upsert\<close> replaces the delta of its key, or appends.\<close>

locale delta_list =
  fixes key :: "'d \<Rightarrow> string" and gone :: "'d \<Rightarrow> bool" and upsert :: "'d \<Rightarrow> 'd list \<Rightarrow> 'd list"
  assumes upsert_Nil: "upsert d [] = [d]"
    and upsert_Cons: "upsert d (e # ds) = (if key e = key d then d # ds else e # upsert d ds)"
begin

lemma keys_upsert: "key ` set (upsert d ds) = insert (key d) (key ` set ds)"
  by (induction ds) (auto simp: upsert_Nil upsert_Cons)

lemma distinct_upsert: "distinct (map key ds) \<Longrightarrow> distinct (map key (upsert d ds))"
proof (induction ds)
  case (Cons e ds)
  have "key ` set (upsert d ds) = insert (key d) (key ` set ds)" by (rule keys_upsert)
  with Cons show ?case by (auto simp: upsert_Cons)
qed (simp add: upsert_Nil)

lemma apply_commute:
  "key d \<notin> key ` set ds \<Longrightarrow>
     apply_deltas key gone ds (apply_delta key gone d m) = apply_delta key gone d (apply_deltas key gone ds m)"
proof (induction ds arbitrary: m)
  case (Cons e ds)
  then have "apply_delta key gone e (apply_delta key gone d m) = apply_delta key gone d (apply_delta key gone e m)"
    by (auto simp: apply_delta_def fun_upd_twist)
  with Cons show ?case by (simp add: apply_deltas_def)
qed (simp add: apply_deltas_def)

lemma apply_upsert:
  "distinct (map key ds) \<Longrightarrow>
     apply_deltas key gone (upsert d ds) m = apply_delta key gone d (apply_deltas key gone ds m)"
proof (induction ds arbitrary: m)
  case Nil
  then show ?case by (simp add: upsert_Nil apply_deltas_def)
next
  case (Cons e ds)
  show ?case
  proof (cases "key e = key d")
    case True
    with Cons.prems have "key d \<notin> key ` set ds" by simp
    then have "apply_deltas key gone ds (apply_delta key gone d (apply_delta key gone e m)) =
        apply_delta key gone d (apply_deltas key gone ds (apply_delta key gone e m))" by (rule apply_commute)
    moreover have "apply_delta key gone d (apply_delta key gone e m) = apply_delta key gone d m"
      using True by (simp add: apply_delta_def)
    ultimately show ?thesis using True by (simp add: upsert_Cons apply_deltas_def)
  next
    case False
    with Cons show ?thesis by (simp add: upsert_Cons apply_deltas_def)
  qed
qed

lemma apply_Nil: "apply_deltas key gone [] m = m"
  by (simp add: apply_deltas_def)

end

definition pd_gone :: "pane_delta \<Rightarrow> bool" where "pd_gone d \<longleftrightarrow> pd_removed d = Some True"
definition nd_gone :: "notif_delta \<Rightarrow> bool" where "nd_gone d \<longleftrightarrow> nd_removed d = Some True"

interpretation pds: delta_list pd_pane_id pd_gone upsert_pane_delta
  by unfold_locales simp_all

interpretation nds: delta_list nd_notif_id nd_gone upsert_notif_delta
  by unfold_locales simp_all

subsection \<open>The client's view\<close>

text \<open>What a client can see of the ledger: for each pane and notification, its delta.\<close>

type_synonym attention_view = "(string \<Rightarrow> pane_delta option) \<times> (string \<Rightarrow> notif_delta option)"

definition ledger_view :: "attention_ledger \<Rightarrow> attention_view" where
  "ledger_view l = (pane_delta l, notif_delta l)"

definition apply_view :: "deltas \<Rightarrow> attention_view \<Rightarrow> attention_view" where
  "apply_view = (\<lambda>(pds, nds) (pv, nv).
     (apply_deltas pd_pane_id pd_gone pds pv, apply_deltas nd_notif_id nd_gone nds nv))"

text \<open>The deltas collected so far lead from the view of \<open>l0\<close> to the view of \<open>l\<close>.\<close>

definition tracks :: "attention_ledger \<Rightarrow> attention_ledger \<Rightarrow> deltas \<Rightarrow> bool" where
  "tracks l0 l ds \<longleftrightarrow> distinct (map pd_pane_id (fst ds)) \<and> distinct (map nd_notif_id (snd ds)) \<and>
     apply_view ds (ledger_view l0) = ledger_view l"

lemma tracks_panes_notifs:
  "tracks l0 l (p, n) \<longleftrightarrow>
     (distinct (map pd_pane_id p) \<and> apply_deltas pd_pane_id pd_gone p (pane_delta l0) = pane_delta l) \<and>
     (distinct (map nd_notif_id n) \<and> apply_deltas nd_notif_id nd_gone n (notif_delta l0) = notif_delta l)"
  by (auto simp: tracks_def apply_view_def ledger_view_def)

lemma tracks_frame:
  "lg_panes l' = lg_panes l \<Longrightarrow> lg_notifs l' = lg_notifs l \<Longrightarrow> tracks l0 l' ds = tracks l0 l ds"
  by (cases ds) (simp add: tracks_panes_notifs pane_delta_def [abs_def] notif_delta_def [abs_def])

lemma pane_delta_of_key [simp]: "pd_pane_id (pane_delta_of i p) = i" "\<not> pd_gone (pane_delta_of i p)"
  by (simp_all add: pane_delta_of_def pd_gone_def)

lemma pane_delta_key: "pane_delta l i = Some d \<Longrightarrow> pd_pane_id d = i \<and> \<not> pd_gone d"
  by (auto simp: pane_delta_def)

lemma notif_delta_key: "notif_delta l i = Some d \<Longrightarrow> nd_notif_id d = i \<and> \<not> nd_gone d"
  by (auto simp: notif_delta_def nd_gone_def)

lemma removed_key [simp]:
  "pd_pane_id (pane_removed i) = i" "pd_gone (pane_removed i)"
  "nd_notif_id (notif_removed i) = i" "nd_gone (notif_removed i)"
  by (simp_all add: pane_removed_def notif_removed_def pd_gone_def nd_gone_def)

text \<open>Upserting the current deltas of some keys that are there.\<close>

lemma fold_upsert_pane:
  assumes "list_all (\<lambda>i. pane_delta l i \<noteq> None) ids" and "distinct (map pd_pane_id ds)"
  shows "\<exists>ds'. fold_opt (upsert_pane l) ids ds = Some ds' \<and> distinct (map pd_pane_id ds') \<and>
    apply_deltas pd_pane_id pd_gone ds' v =
      (\<lambda>i. if i \<in> set ids then pane_delta l i else apply_deltas pd_pane_id pd_gone ds v i)"
  using assms
proof (induction ids arbitrary: ds)
  case (Cons i ids)
  then obtain d where d: "pane_delta l i = Some d" by auto
  with pane_delta_key have k: "pd_pane_id d = i" "\<not> pd_gone d" by blast+
  have "list_all (\<lambda>i. pane_delta l i \<noteq> None) ids" using Cons.prems(1) by simp
  from Cons.IH [OF this pds.distinct_upsert [OF Cons.prems(2), of d]] obtain ds' where
    ds': "fold_opt (upsert_pane l) ids (upsert_pane_delta d ds) = Some ds'" "distinct (map pd_pane_id ds')"
      "apply_deltas pd_pane_id pd_gone ds' v =
        (\<lambda>i. if i \<in> set ids then pane_delta l i else apply_deltas pd_pane_id pd_gone (upsert_pane_delta d ds) v i)"
    by blast
  have "apply_deltas pd_pane_id pd_gone (upsert_pane_delta d ds) v =
      (apply_deltas pd_pane_id pd_gone ds v)(i := Some d)"
    using pds.apply_upsert [OF Cons.prems(2), of d v] k by (simp add: apply_delta_def)
  moreover have "upsert_pane l i ds = Some (upsert_pane_delta d ds)" by (simp add: upsert_pane_def d)
  ultimately show ?case using ds' d by (auto simp: fun_eq_iff)
qed simp

lemma fold_upsert_notif:
  assumes "list_all (\<lambda>i. notif_delta l i \<noteq> None) ids" and "distinct (map nd_notif_id ds)"
  shows "\<exists>ds'. fold_opt (upsert_notif l) ids ds = Some ds' \<and> distinct (map nd_notif_id ds') \<and>
    apply_deltas nd_notif_id nd_gone ds' v =
      (\<lambda>i. if i \<in> set ids then notif_delta l i else apply_deltas nd_notif_id nd_gone ds v i)"
  using assms
proof (induction ids arbitrary: ds)
  case (Cons i ids)
  then obtain d where d: "notif_delta l i = Some d" by auto
  with notif_delta_key have k: "nd_notif_id d = i" "\<not> nd_gone d" by blast+
  have "list_all (\<lambda>i. notif_delta l i \<noteq> None) ids" using Cons.prems(1) by simp
  from Cons.IH [OF this nds.distinct_upsert [OF Cons.prems(2), of d]] obtain ds' where
    ds': "fold_opt (upsert_notif l) ids (upsert_notif_delta d ds) = Some ds'" "distinct (map nd_notif_id ds')"
      "apply_deltas nd_notif_id nd_gone ds' v =
        (\<lambda>i. if i \<in> set ids then notif_delta l i else apply_deltas nd_notif_id nd_gone (upsert_notif_delta d ds) v i)"
    by blast
  have "apply_deltas nd_notif_id nd_gone (upsert_notif_delta d ds) v =
      (apply_deltas nd_notif_id nd_gone ds v)(i := Some d)"
    using nds.apply_upsert [OF Cons.prems(2), of d v] k by (simp add: apply_delta_def)
  moreover have "upsert_notif l i ds = Some (upsert_notif_delta d ds)" by (simp add: upsert_notif_def d)
  ultimately show ?case using ds' d by (auto simp: fun_eq_iff)
qed simp

text \<open>Upserting removals.\<close>

lemma fold_remove_pane:
  "distinct (map pd_pane_id ds) \<Longrightarrow>
     distinct (map pd_pane_id (fold (\<lambda>i. upsert_pane_delta (pane_removed i)) ids ds)) \<and>
     apply_deltas pd_pane_id pd_gone (fold (\<lambda>i. upsert_pane_delta (pane_removed i)) ids ds) v =
       (\<lambda>i. if i \<in> set ids then None else apply_deltas pd_pane_id pd_gone ds v i)"
proof (induction ids arbitrary: ds)
  case (Cons i ids)
  from Cons.IH [OF pds.distinct_upsert [OF Cons.prems, of "pane_removed i"]] show ?case
    using pds.apply_upsert [OF Cons.prems, of "pane_removed i" v] by (auto simp: apply_delta_def fun_eq_iff)
qed simp

lemma fold_remove_notif:
  "distinct (map nd_notif_id ds) \<Longrightarrow>
     distinct (map nd_notif_id (fold (\<lambda>i. upsert_notif_delta (notif_removed i)) ids ds)) \<and>
     apply_deltas nd_notif_id nd_gone (fold (\<lambda>i. upsert_notif_delta (notif_removed i)) ids ds) v =
       (\<lambda>i. if i \<in> set ids then None else apply_deltas nd_notif_id nd_gone ds v i)"
proof (induction ids arbitrary: ds)
  case (Cons i ids)
  from Cons.IH [OF nds.distinct_upsert [OF Cons.prems, of "notif_removed i"]] show ?case
    using nds.apply_upsert [OF Cons.prems, of "notif_removed i" v] by (auto simp: apply_delta_def fun_eq_iff)
qed simp

end
