(* ===== verification/AttentionOps.thy ===== *)
theory AttentionOps
  imports AttentionSync
begin

section \<open>The operations of the ledger\<close>

text \<open>
  Each stage of an operation keeps the invariant and leads the client's view along; the
  operations are put together from them, and \<open>synced_source\<close> is interpreted on the ledger.
\<close>

subsection \<open>Expiry\<close>

definition pane_view :: "(string, pane_attention) amap \<Rightarrow> string \<Rightarrow> pane_delta option" where
  "pane_view ps = (\<lambda>i. map_option (pane_delta_of i) (map_of ps i))"

definition notif_delta_of :: "string \<Rightarrow> notif_attention \<Rightarrow> notif_delta" where
  "notif_delta_of i n = \<lparr>nd_notif_id = i, nd_read = Some (na_read n), nd_removed = None\<rparr>"

definition notif_view :: "(string, notif_attention) amap \<Rightarrow> string \<Rightarrow> notif_delta option" where
  "notif_view ns = (\<lambda>i. map_option (notif_delta_of i) (map_of ns i))"

lemma views: "pane_delta l = pane_view (lg_panes l)" "notif_delta l = notif_view (lg_notifs l)"
  by (auto simp: fun_eq_iff pane_delta_def pane_view_def notif_delta_def notif_view_def notif_delta_of_def [abs_def])

lemma al_wf_map_of: "al_wf m \<Longrightarrow> (k, v) \<in> set m \<longleftrightarrow> map_of m k = Some v"
  by (simp add: al_wf_def map_of_eq_Some_iff)

lemma set_push_unique: "set (push_unique v vs) = insert v (set vs)"
  by (auto simp: push_unique_def list_ex_iff)

lemma set_fold_push_unique: "set (fold push_unique ks acc) = set ks \<union> set acc"
  by (induction ks arbitrary: acc) (auto simp: set_push_unique)

lemma changed_keys_iff:
  "al_wf m \<Longrightarrow> k \<in> set (changed_keys f m) \<longleftrightarrow> (\<exists>v. map_of m k = Some v \<and> snd (f v))"
  by (force simp: changed_keys_def set_fold_push_unique al_wf_map_of [symmetric])

lemma removed_keys_iff:
  "al_wf m \<Longrightarrow> k \<in> set (map fst (filter (\<lambda>(_, v). P v) (update_values f m))) \<longleftrightarrow>
     (\<exists>v. map_of m k = Some v \<and> P (fst (f v)))"
proof -
  assume m: "al_wf m"
  have "k \<in> set (map fst (filter (\<lambda>(_, v). P v) (update_values f m))) \<longleftrightarrow>
      (\<exists>w. map_of (update_values f m) k = Some w \<and> P w)"
    using m by (force simp: al_wf_map_of [symmetric] al_wf_update_values)
  then show ?thesis by (auto simp: map_of_update_values)
qed

lemma map_of_kept:
  "al_wf m \<Longrightarrow> map_of (filter (\<lambda>(_, v). \<not> P v) (update_values f m)) k =
     (case map_of m k of None \<Rightarrow> None | Some v \<Rightarrow> if P (fst (f v)) then None else Some (fst (f v)))"
  by (auto simp: map_of_filter_kv [where P = "\<lambda>_ v. \<not> P v"] al_wf_update_values map_of_update_values split: option.split)

lemma dropWhile_shorter: "length (dropWhile P xs) < length xs \<or> dropWhile P xs = xs"
proof (cases xs)
  case (Cons x ys)
  then show ?thesis using length_dropWhile_le [of P ys] by auto
qed simp

lemma expire_pane_unchanged: "\<not> snd (expire_pane now p) \<Longrightarrow> fst (expire_pane now p) = p"
  using dropWhile_shorter [of "\<lambda>e. is_expired (ue_occurred_at e) UNREAD_TTL now" "pa_unread p"]
  unfolding expire_pane_def Let_def by (auto split: if_splits)

lemma expire_notif_unchanged: "\<not> snd (expire_notif now n) \<Longrightarrow> fst (expire_notif now n) = n"
  by (auto simp: expire_notif_def split: if_splits)

lemma expire_state_simps [simp]:
  "lg_epoch (expire_state now l) = lg_epoch l"
  "lg_next_event_seq (expire_state now l) = lg_next_event_seq l"
  "lg_next_dedup_generation (expire_state now l) = lg_next_dedup_generation l"
  "lg_revision (expire_state now l) = lg_revision l"
  "lg_panes (expire_state now l) = filter (\<lambda>(_, p). \<not> collect_pane now p) (update_values (expire_pane now) (lg_panes l))"
  "lg_notifs (expire_state now l) = filter (\<lambda>(_, n). \<not> collect_notif now n) (update_values (expire_notif now) (lg_notifs l))"
  "lg_dedup (expire_state now l) = filter (\<lambda>(_, e). dedup_live now e) (lg_dedup l)"
  by (simp_all add: expire_state_def sweep_dedup_def Let_def)

lemma expire_state_inv: "ledger_inv l \<Longrightarrow> ledger_inv (expire_state now l)"
  unfolding ledger_inv_def expire_state_simps
  by (intro conjI al_wf_filter vals_ok_filter vals_ok_update)
    (auto simp: al_wf_update_values expire_pane_ok expire_notif_ok)

lemma expire_state_wf: "ledger_wf l \<Longrightarrow> ledger_wf (expire_state now l)"
  unfolding ledger_wf_def expire_state_simps
  by (auto simp: expire_state_inv intro!: le_trans [OF length_filter_le])

lemma expire_tracks_panes:
  assumes m: "al_wf (lg_panes l)"
  shows "\<exists>ds. fold_opt (upsert_pane (expire_state now l))
      (filter (\<lambda>i. i \<in> fst ` set (lg_panes (expire_state now l))) (changed_keys (expire_pane now) (lg_panes l))) [] = Some ds \<and>
    (let ds' = fold (\<lambda>i. upsert_pane_delta (pane_removed i)) (map fst (filter (\<lambda>(_, p). collect_pane now p)
        (update_values (expire_pane now) (lg_panes l)))) ds
     in distinct (map pd_pane_id ds') \<and> apply_deltas pd_pane_id pd_gone ds' (pane_delta l) = pane_delta (expire_state now l))"
proof -
  let ?l = "expire_state now l"
  let ?ids = "filter (\<lambda>i. i \<in> fst ` set (lg_panes ?l)) (changed_keys (expire_pane now) (lg_panes l))"
  let ?gone = "map fst (filter (\<lambda>(_, p). collect_pane now p) (update_values (expire_pane now) (lg_panes l)))"
  have mo: "map_of (lg_panes ?l) i = (case map_of (lg_panes l) i of None \<Rightarrow> None
      | Some p \<Rightarrow> if collect_pane now (fst (expire_pane now p)) then None else Some (fst (expire_pane now p)))" for i
    using map_of_kept [OF m, of "collect_pane now" "expire_pane now" i] by simp
  have "list_all (\<lambda>i. pane_delta ?l i \<noteq> None) ?ids"
    unfolding list_all_iff set_filter in_keys_iff by (simp add: pane_delta_def)
  then have "\<exists>ds. fold_opt (upsert_pane ?l) ?ids [] = Some ds \<and> distinct (map pd_pane_id ds) \<and>
      apply_deltas pd_pane_id pd_gone ds (pane_delta l) = (\<lambda>i. if i \<in> set ?ids then pane_delta ?l i else pane_delta l i)"
    using fold_upsert_pane [of ?l ?ids "[]" "pane_delta l", unfolded pds.apply_Nil] by simp
  then obtain ds where
    ds: "fold_opt (upsert_pane ?l) ?ids [] = Some ds" "distinct (map pd_pane_id ds)"
    "apply_deltas pd_pane_id pd_gone ds (pane_delta l) = (\<lambda>i. if i \<in> set ?ids then pane_delta ?l i else pane_delta l i)"
    by blast
  note rm = fold_remove_pane [OF ds(2), of ?gone "pane_delta l"]
  have eq: "(if i \<in> set ?gone then None else if i \<in> set ?ids then pane_delta ?l i else pane_delta l i) = pane_delta ?l i" for i
  proof (cases "map_of (lg_panes l) i")
    case None
    then have "i \<notin> set ?gone" "pane_delta ?l i = None" "pane_delta l i = None"
      unfolding removed_keys_iff [OF m] by (simp_all add: pane_delta_def mo del: expire_state_simps)
    then show ?thesis by simp
  next
    case (Some p)
    then have g: "i \<in> set ?gone \<longleftrightarrow> collect_pane now (fst (expire_pane now p))"
      unfolding removed_keys_iff [OF m] by simp
    have c: "i \<in> set ?ids \<longleftrightarrow> snd (expire_pane now p) \<and> \<not> collect_pane now (fst (expire_pane now p))"
      unfolding set_filter in_keys_iff mo using Some by (auto simp: changed_keys_iff [OF m])
    show ?thesis
    proof (cases "snd (expire_pane now p)")
      case True
      with g c show ?thesis by (simp add: pane_delta_def mo Some del: expire_state_simps)
    next
      case False
      then have "fst (expire_pane now p) = p" by (rule expire_pane_unchanged)
      with g c False show ?thesis by (simp add: pane_delta_def mo Some del: expire_state_simps)
    qed
  qed
  have "apply_deltas pd_pane_id pd_gone (fold (\<lambda>i. upsert_pane_delta (pane_removed i)) ?gone ds) (pane_delta l) = pane_delta ?l"
    unfolding conjunct2 [OF rm] ds(3) by (intro ext) (rule eq)
  with ds(1) conjunct1 [OF rm] show ?thesis unfolding Let_def by blast
qed

lemma expire_tracks_notifs:
  assumes m: "al_wf (lg_notifs l)"
  shows "\<exists>ds. fold_opt (upsert_notif (expire_state now l))
      (filter (\<lambda>i. i \<in> fst ` set (lg_notifs (expire_state now l))) (changed_keys (expire_notif now) (lg_notifs l))) [] = Some ds \<and>
    (let ds' = fold (\<lambda>i. upsert_notif_delta (notif_removed i)) (map fst (filter (\<lambda>(_, p). collect_notif now p)
        (update_values (expire_notif now) (lg_notifs l)))) ds
     in distinct (map nd_notif_id ds') \<and> apply_deltas nd_notif_id nd_gone ds' (notif_delta l) = notif_delta (expire_state now l))"
proof -
  let ?l = "expire_state now l"
  let ?ids = "filter (\<lambda>i. i \<in> fst ` set (lg_notifs ?l)) (changed_keys (expire_notif now) (lg_notifs l))"
  let ?gone = "map fst (filter (\<lambda>(_, p). collect_notif now p) (update_values (expire_notif now) (lg_notifs l)))"
  have mo: "map_of (lg_notifs ?l) i = (case map_of (lg_notifs l) i of None \<Rightarrow> None
      | Some p \<Rightarrow> if collect_notif now (fst (expire_notif now p)) then None else Some (fst (expire_notif now p)))" for i
    using map_of_kept [OF m, of "collect_notif now" "expire_notif now" i] by simp
  have "list_all (\<lambda>i. notif_delta ?l i \<noteq> None) ?ids"
    unfolding list_all_iff set_filter in_keys_iff by (simp add: notif_delta_def)
  then have "\<exists>ds. fold_opt (upsert_notif ?l) ?ids [] = Some ds \<and> distinct (map nd_notif_id ds) \<and>
      apply_deltas nd_notif_id nd_gone ds (notif_delta l) = (\<lambda>i. if i \<in> set ?ids then notif_delta ?l i else notif_delta l i)"
    using fold_upsert_notif [of ?l ?ids "[]" "notif_delta l", unfolded nds.apply_Nil] by simp
  then obtain ds where
    ds: "fold_opt (upsert_notif ?l) ?ids [] = Some ds" "distinct (map nd_notif_id ds)"
    "apply_deltas nd_notif_id nd_gone ds (notif_delta l) = (\<lambda>i. if i \<in> set ?ids then notif_delta ?l i else notif_delta l i)"
    by blast
  note rm = fold_remove_notif [OF ds(2), of ?gone "notif_delta l"]
  have eq: "(if i \<in> set ?gone then None else if i \<in> set ?ids then notif_delta ?l i else notif_delta l i) = notif_delta ?l i" for i
  proof (cases "map_of (lg_notifs l) i")
    case None
    then have "i \<notin> set ?gone" "notif_delta ?l i = None" "notif_delta l i = None"
      unfolding removed_keys_iff [OF m] by (simp_all add: notif_delta_def mo del: expire_state_simps)
    then show ?thesis by simp
  next
    case (Some n)
    then have g: "i \<in> set ?gone \<longleftrightarrow> collect_notif now (fst (expire_notif now n))"
      unfolding removed_keys_iff [OF m] by simp
    have c: "i \<in> set ?ids \<longleftrightarrow> snd (expire_notif now n) \<and> \<not> collect_notif now (fst (expire_notif now n))"
      unfolding set_filter in_keys_iff mo using Some by (auto simp: changed_keys_iff [OF m])
    show ?thesis
    proof (cases "snd (expire_notif now n)")
      case True
      with g c show ?thesis by (simp add: notif_delta_def mo Some del: expire_state_simps)
    next
      case False
      then have "fst (expire_notif now n) = n" by (rule expire_notif_unchanged)
      with g c False show ?thesis by (simp add: notif_delta_def mo Some del: expire_state_simps)
    qed
  qed
  have "apply_deltas nd_notif_id nd_gone (fold (\<lambda>i. upsert_notif_delta (notif_removed i)) ?gone ds) (notif_delta l) = notif_delta ?l"
    unfolding conjunct2 [OF rm] ds(3) by (intro ext) (rule eq)
  with ds(1) conjunct1 [OF rm] show ?thesis unfolding Let_def by blast
qed

lemma expire_into_ok:
  assumes "ledger_wf l"
  shows "\<exists>ds. expire_into now l ([], []) = Some (expire_state now l, ds) \<and> tracks l (expire_state now l) ds"
proof -
  from assms have m: "al_wf (lg_panes l)" "al_wf (lg_notifs l)" by (simp_all add: ledger_wf_def ledger_inv_def)
  from expire_tracks_panes [OF m(1), of now] expire_tracks_notifs [OF m(2), of now] show ?thesis
    by (auto simp: expire_into_def tracks_panes_notifs Let_def simp del: expire_state_simps)
qed

subsection \<open>Eviction\<close>

lemma pane_victim_some: "ps \<noteq> [] \<Longrightarrow> \<exists>v. pane_victim ps = Some v"
proof -
  assume ne: "ps \<noteq> []"
  show ?thesis
  proof (cases "filter (\<lambda>(_, p). pa_unread p = []) ps = []")
    case True
    then have "\<not> list_ex (\<lambda>(_, p). pa_unread p = []) ps" by (auto simp: filter_empty_conv list_ex_iff)
    with True ne show ?thesis by (cases ps) (simp_all add: pane_victim_def)
  next
    case False
    then obtain x xs where "filter (\<lambda>(_, p). pa_unread p = []) ps = x # xs" by (cases "filter (\<lambda>(_, p). pa_unread p = []) ps") auto
    then show ?thesis by (auto simp: pane_victim_def split: prod.split)
  qed
qed

lemma notif_victim_some: "ns \<noteq> [] \<Longrightarrow> \<exists>v. notif_victim ns = Some v"
  by (cases ns) (auto simp: notif_victim_def split: option.split prod.split)

lemma evict_panes_ok:
  "distinct (map pd_pane_id ds) \<Longrightarrow> apply_deltas pd_pane_id pd_gone ds v = pane_view ps \<Longrightarrow>
     \<exists>P ds'. evict_panes ps ds = Some (filter P ps, ds') \<and> length (filter P ps) \<le> IDENTITY_CAP \<and>
       distinct (map pd_pane_id ds') \<and> apply_deltas pd_pane_id pd_gone ds' v = pane_view (filter P ps)"
proof (induction ps ds rule: evict_panes.induct)
  case (1 ps ds)
  show ?case
  proof (cases "length ps > IDENTITY_CAP")
    case False
    with "1.prems" show ?thesis
      by (intro exI [of _ "\<lambda>_. True"]) (simp add: evict_panes.simps [of ps])
  next
    case True
    then have "ps \<noteq> []" by auto
    then obtain w where w: "pane_victim ps = Some w" using pane_victim_some by blast
    have "apply_deltas pd_pane_id pd_gone (upsert_pane_delta (pane_removed w) ds) v = (pane_view ps)(w := None)"
      using pds.apply_upsert [OF "1.prems"(1), of "pane_removed w" v] "1.prems"(2) by (simp add: apply_delta_def)
    also have "\<dots> = pane_view (al_del w ps)" by (auto simp: pane_view_def map_of_al_del fun_eq_iff)
    finally have a: "apply_deltas pd_pane_id pd_gone (upsert_pane_delta (pane_removed w) ds) v = pane_view (al_del w ps)" .
    from "1.IH" [OF True w pds.distinct_upsert [OF "1.prems"(1)] a] True w show ?thesis
      by (auto simp: evict_panes.simps [of ps] al_del_def)
  qed
qed

lemma evict_notifs_ok:
  "distinct (map nd_notif_id ds) \<Longrightarrow> apply_deltas nd_notif_id nd_gone ds v = notif_view ns \<Longrightarrow>
     \<exists>P ds'. evict_notifs ns ds = Some (filter P ns, ds') \<and> length (filter P ns) \<le> IDENTITY_CAP \<and>
       distinct (map nd_notif_id ds') \<and> apply_deltas nd_notif_id nd_gone ds' v = notif_view (filter P ns)"
proof (induction ns ds rule: evict_notifs.induct)
  case (1 ns ds)
  show ?case
  proof (cases "length ns > IDENTITY_CAP")
    case False
    with "1.prems" show ?thesis
      by (intro exI [of _ "\<lambda>_. True"]) (simp add: evict_notifs.simps [of ns])
  next
    case True
    then have "ns \<noteq> []" by auto
    then obtain w where w: "notif_victim ns = Some w" using notif_victim_some by blast
    have "apply_deltas nd_notif_id nd_gone (upsert_notif_delta (notif_removed w) ds) v = (notif_view ns)(w := None)"
      using nds.apply_upsert [OF "1.prems"(1), of "notif_removed w" v] "1.prems"(2) by (simp add: apply_delta_def)
    also have "\<dots> = notif_view (al_del w ns)" by (auto simp: notif_view_def map_of_al_del fun_eq_iff)
    finally have a: "apply_deltas nd_notif_id nd_gone (upsert_notif_delta (notif_removed w) ds) v = notif_view (al_del w ns)" .
    from "1.IH" [OF True w nds.distinct_upsert [OF "1.prems"(1)] a] True w show ?thesis
      by (auto simp: evict_notifs.simps [of ns] al_del_def)
  qed
qed

definition same_counters :: "attention_ledger \<Rightarrow> attention_ledger \<Rightarrow> bool" where
  "same_counters l l' \<longleftrightarrow> lg_epoch l' = lg_epoch l \<and> lg_next_event_seq l' = lg_next_event_seq l \<and>
     lg_next_dedup_generation l' = lg_next_dedup_generation l \<and> lg_revision l' = lg_revision l \<and>
     lg_dedup l' = lg_dedup l"

lemma enforce_ok:
  assumes "ledger_inv l" and "tracks l0 l (p, n)"
  shows "\<exists>l' ds. enforce_identity_caps l (p, n) = Some (l', ds) \<and> ledger_wf l' \<and> tracks l0 l' ds \<and> same_counters l l'"
proof -
  from assms(2) have t: "distinct (map pd_pane_id p)" "apply_deltas pd_pane_id pd_gone p (pane_delta l0) = pane_view (lg_panes l)"
    "distinct (map nd_notif_id n)" "apply_deltas nd_notif_id nd_gone n (notif_delta l0) = notif_view (lg_notifs l)"
    by (simp_all add: tracks_panes_notifs views)
  from evict_panes_ok [OF t(1,2)] obtain P p' where
    P: "evict_panes (lg_panes l) p = Some (filter P (lg_panes l), p')" "length (filter P (lg_panes l)) \<le> IDENTITY_CAP"
    "distinct (map pd_pane_id p')" "apply_deltas pd_pane_id pd_gone p' (pane_delta l0) = pane_view (filter P (lg_panes l))"
    by blast
  from evict_notifs_ok [OF t(3,4)] obtain N n' where
    N: "evict_notifs (lg_notifs l) n = Some (filter N (lg_notifs l), n')" "length (filter N (lg_notifs l)) \<le> IDENTITY_CAP"
    "distinct (map nd_notif_id n')" "apply_deltas nd_notif_id nd_gone n' (notif_delta l0) = notif_view (filter N (lg_notifs l))"
    by blast
  define l' where "l' = l\<lparr>lg_panes := filter P (lg_panes l), lg_notifs := filter N (lg_notifs l)\<rparr>"
  have "ledger_wf l'" using assms(1) P(2) N(2)
    by (simp add: l'_def ledger_wf_def ledger_inv_def al_wf_filter vals_ok_filter)
  moreover have "tracks l0 l' (p', n')" using P(3,4) N(3,4) by (simp add: tracks_panes_notifs views l'_def)
  moreover have "enforce_identity_caps l (p, n) = Some (l', (p', n'))"
    using P(1) N(1) by (simp add: enforce_identity_caps_def l'_def)
  moreover have "same_counters l l'" by (simp add: same_counters_def l'_def)
  ultimately show ?thesis by blast
qed

end
