(* ===== verification/AttentionProps.thy ===== *)
theory AttentionProps
  imports AttentionOps
begin

section \<open>Properties of the attention ledger\<close>

text \<open>
  The contract between a source of deltas and its clients, its interpretation on the ledger,
  and what each operation does: the watermark of a pane, the order of its unread events, the
  exactly-once completion of requests.
\<close>

subsection \<open>Sources of deltas\<close>

fun run_ops :: "('op \<Rightarrow> 's \<Rightarrow> ('d option \<times> 's) option) \<Rightarrow> 'op list \<Rightarrow> 's \<Rightarrow> ('d list \<times> 's) option" where
  "run_ops step [] s = Some ([], s)"
| "run_ops step (x # xs) s = do {
     (d, s1) \<leftarrow> step x s;
     (ds, s2) \<leftarrow> run_ops step xs s1;
     Some ((case d of None \<Rightarrow> ds | Some y \<Rightarrow> y # ds), s2)
   }"

locale synced_source =
  fixes step :: "'op \<Rightarrow> 's \<Rightarrow> ('d option \<times> 's) option"
    and inv :: "'s \<Rightarrow> bool" and view :: "'s \<Rightarrow> 'v" and apply_d :: "'d \<Rightarrow> 'v \<Rightarrow> 'v"
    and rev_of :: "'s \<Rightarrow> nat" and stamp :: "'d \<Rightarrow> nat"
  assumes step_sound: "inv s \<Longrightarrow> step x s = Some (d, s') \<Longrightarrow> inv s' \<and>
    (case d of None \<Rightarrow> view s' = view s \<and> rev_of s' = rev_of s
     | Some y \<Rightarrow> view s' = apply_d y (view s) \<and> rev_of s' = Suc (rev_of s) \<and> stamp y = Suc (rev_of s))"
begin

lemma run_sound:
  "inv s \<Longrightarrow> run_ops step xs s = Some (ds, s') \<Longrightarrow> inv s' \<and> fold apply_d ds (view s) = view s' \<and>
     rev_of s' = rev_of s + length ds \<and> map stamp ds = [Suc (rev_of s)..<Suc (rev_of s')]"
proof (induction xs arbitrary: s ds)
  case (Cons x xs)
  from Cons.prems(2) obtain d s1 ds1 where
    s: "step x s = Some (d, s1)" "run_ops step xs s1 = Some (ds1, s')"
    and ds: "ds = (case d of None \<Rightarrow> ds1 | Some y \<Rightarrow> y # ds1)" by (auto split: bind_splits)
  from step_sound [OF Cons.prems(1) s(1)] have one: "inv s1" and
    d: "case d of None \<Rightarrow> view s1 = view s \<and> rev_of s1 = rev_of s
      | Some y \<Rightarrow> view s1 = apply_d y (view s) \<and> rev_of s1 = Suc (rev_of s) \<and> stamp y = Suc (rev_of s)" by blast+
  from Cons.IH [OF one s(2)] d show ?case
    by (cases d) (auto simp: ds upt_conv_Cons simp del: upt_Suc)
qed simp

text \<open>A client with a snapshot taken between two runs needs only the deltas stamped later.\<close>

lemma resync:
  assumes "inv s" and "run_ops step xs s = Some (ds1, t)" and "run_ops step ys t = Some (ds2, s')"
  shows "fold apply_d (filter (\<lambda>d. rev_of t < stamp d) (ds1 @ ds2)) (view t) = view s'"
proof -
  note one = run_sound [OF assms(1,2)]
  note two = run_sound [OF conjunct1 [OF one] assms(3)]
  have "list_all (\<lambda>d. stamp d \<le> rev_of t) ds1"
  proof -
    have "set (map stamp ds1) = {Suc (rev_of s)..<Suc (rev_of t)}" using one by (metis set_upt)
    then have "stamp d \<in> {Suc (rev_of s)..<Suc (rev_of t)}" if "d \<in> set ds1" for d
      using that by (metis imageI set_map)
    then show ?thesis unfolding list_all_iff by force
  qed
  then have "filter (\<lambda>d. rev_of t < stamp d) ds1 = []" by (auto simp: filter_empty_conv list_all_iff)
  moreover have "list_all (\<lambda>d. rev_of t < stamp d) ds2"
  proof -
    have "set (map stamp ds2) = {Suc (rev_of t)..<Suc (rev_of s')}" using two by (metis set_upt)
    then have "stamp d \<in> {Suc (rev_of t)..<Suc (rev_of s')}" if "d \<in> set ds2" for d
      using that by (metis imageI set_map)
    then show ?thesis unfolding list_all_iff by force
  qed
  then have "filter (\<lambda>d. rev_of t < stamp d) ds2 = ds2" by (auto simp: filter_id_conv list_all_iff)
  ultimately show ?thesis using two by simp
qed

end

subsection \<open>Operations as steps\<close>

datatype ledger_op =
    RecordPane string nat severity nat
  | RecordNotif string nat severity nat
  | MarkRead string "(string \<times> nat) list" "string list" nat
  | PaneClosed string nat
  | SweepAt nat
  | Reserve string string nat nat
  | Complete "string \<times> string" nat dedup_outcome nat

fun ledger_step :: "ledger_op \<Rightarrow> attention_ledger \<Rightarrow> (state_delta option \<times> attention_ledger) option" where
  "ledger_step (RecordPane i occ sev now) l = map_option (\<lambda>((_, d), l'). (Some d, l')) (record_pane_event i occ sev now l)"
| "ledger_step (RecordNotif i occ sev now) l = map_option (\<lambda>((_, d), l'). (Some d, l')) (record_notif_event i occ sev now l)"
| "ledger_step (MarkRead ep ps ns now) l = map_option (\<lambda>((d, _), l'). (d, l')) (mark_read ep ps ns now l)"
| "ledger_step (PaneClosed i now) l = pane_closed i now l"
| "ledger_step (SweepAt now) l = sweep now l"
| "ledger_step (Reserve c r h now) l = map_option (\<lambda>(_, l'). (None, l')) (reserve c r h now l)"
| "ledger_step (Complete k g out now) l = Some (None, snd (complete k g out now l))"

definition apply_state_delta :: "state_delta \<Rightarrow> attention_view \<Rightarrow> attention_view" where
  "apply_state_delta d = apply_view (sd_panes d, sd_notifs d)"

definition delta_sound :: "attention_ledger \<Rightarrow> state_delta option \<Rightarrow> attention_ledger \<Rightarrow> bool" where
  "delta_sound l d l' \<longleftrightarrow> ledger_wf l' \<and>
    (case d of None \<Rightarrow> ledger_view l' = ledger_view l \<and> lg_revision l' = lg_revision l
     | Some y \<Rightarrow> ledger_view l' = apply_state_delta y (ledger_view l) \<and>
         lg_revision l' = Suc (lg_revision l) \<and> sd_revision y = Suc (lg_revision l))"

lemma bump_revision_eq:
  "bump_revision l = (if Suc (lg_revision l) < u64_limit then Some (l\<lparr>lg_revision := Suc (lg_revision l)\<rparr>) else None)"
  by (simp add: bump_revision_def u64_succ_def)

lemma wf_revision [simp]: "ledger_wf (l\<lparr>lg_revision := r\<rparr>) = ledger_wf l"
  by (simp add: ledger_wf_def ledger_inv_def)

lemma view_frame: "lg_panes l' = lg_panes l \<Longrightarrow> lg_notifs l' = lg_notifs l \<Longrightarrow> ledger_view l' = ledger_view l"
  by (simp add: ledger_view_def views)

lemma delta_sound_bump:
  assumes "ledger_wf l1" and "tracks l l1 ds" and "lg_revision l1 = lg_revision l" and "bump_revision l1 = Some l2"
  shows "delta_sound l (Some (mk_delta l2 ds)) l2"
proof -
  have l2: "l2 = l1\<lparr>lg_revision := Suc (lg_revision l)\<rparr>"
    using assms(3,4) by (simp add: bump_revision_eq split: if_splits)
  then have "ledger_view l2 = ledger_view l1" by (intro view_frame) simp_all
  with assms l2 show ?thesis by (simp add: delta_sound_def mk_delta_def apply_state_delta_def tracks_def)
qed

lemma finish_sound:
  assumes "ledger_wf l1" and "tracks l l1 ds" and "lg_revision l1 = lg_revision l" and "finish_delta l1 ds = Some (l2, d)"
  shows "delta_sound l d l2"
proof (cases "fst ds = [] \<and> snd ds = []")
  case True
  then have "apply_view ds (ledger_view l) = ledger_view l"
    by (cases ds) (simp add: apply_view_def ledger_view_def pds.apply_Nil nds.apply_Nil)
  with True assms show ?thesis by (auto simp: finish_delta_def delta_sound_def tracks_def)
next
  case False
  with assms(4) obtain "bump_revision l1 = Some l2" and "d = Some (mk_delta l2 ds)" by (auto simp: finish_delta_def)
  with delta_sound_bump [OF assms(1-3)] show ?thesis by simp
qed

lemma finish_total: "Suc (lg_revision l) < u64_limit \<Longrightarrow> \<exists>r. finish_delta l ds = Some r"
  by (simp add: finish_delta_def bump_revision_eq)

text \<open>The end of every operation: the caps, then the delta.\<close>

lemma enforce_finish:
  assumes "ledger_inv l1" and "tracks l l1 ds" and "lg_revision l1 = lg_revision l"
  shows "\<exists>l2 ds'. enforce_identity_caps l1 ds = Some (l2, ds') \<and> lg_revision l2 = lg_revision l \<and> ledger_wf l2 \<and> tracks l l2 ds'"
proof (cases ds)
  case (Pair p n)
  with enforce_ok [OF assms(1), of l p n] assms(2,3) show ?thesis by (auto simp: same_counters_def)
qed

subsection \<open>Each operation\<close>

lemma inv_put_pane:
  assumes "ledger_inv l" and "pane_ok (Suc (lg_next_event_seq l)) p"
  shows "ledger_inv (l\<lparr>lg_next_event_seq := Suc (lg_next_event_seq l), lg_panes := al_put i p (lg_panes l)\<rparr>)"
  using assms
  by (auto simp: ledger_inv_def al_wf_put intro!: vals_ok_put
      elim: vals_ok_mono [OF _ pane_ok_mono] vals_ok_mono [OF _ notif_ok_mono])

lemma inv_put_notif:
  assumes "ledger_inv l" and "notif_ok (Suc (lg_next_event_seq l)) n"
  shows "ledger_inv (l\<lparr>lg_next_event_seq := Suc (lg_next_event_seq l), lg_notifs := al_put i n (lg_notifs l)\<rparr>)"
  using assms
  by (auto simp: ledger_inv_def al_wf_put intro!: vals_ok_put
      elim: vals_ok_mono [OF _ pane_ok_mono] vals_ok_mono [OF _ notif_ok_mono])

lemma tracks_put_pane:
  assumes "tracks l0 l (p, n)" and "lg_panes l' = al_put i v (lg_panes l)" and "lg_notifs l' = lg_notifs l"
  shows "\<exists>p'. upsert_pane l' i p = Some p' \<and> tracks l0 l' (p', n)"
proof -
  have d: "pane_delta l' i = Some (pane_delta_of i v)" by (simp add: pane_delta_def assms(2) map_of_al_put)
  from assms(1) have p: "distinct (map pd_pane_id p)" "apply_deltas pd_pane_id pd_gone p (pane_delta l0) = pane_delta l"
    by (simp_all add: tracks_panes_notifs)
  have "apply_deltas pd_pane_id pd_gone (upsert_pane_delta (pane_delta_of i v) p) (pane_delta l0) =
      (pane_delta l)(i := Some (pane_delta_of i v))"
    using pds.apply_upsert [OF p(1), of "pane_delta_of i v" "pane_delta l0"] p(2) by (simp add: apply_delta_def)
  also have "\<dots> = pane_delta l'" by (auto simp: fun_eq_iff pane_delta_def assms(2) map_of_al_put)
  finally have "tracks l0 l' (upsert_pane_delta (pane_delta_of i v) p, n)"
    using assms(1,3) p(1) by (simp add: tracks_panes_notifs pds.distinct_upsert views)
  with d show ?thesis by (simp add: upsert_pane_def)
qed

lemma tracks_put_notif:
  assumes "tracks l0 l (p, n)" and "lg_notifs l' = al_put i v (lg_notifs l)" and "lg_panes l' = lg_panes l"
  shows "\<exists>n'. upsert_notif l' i n = Some n' \<and> tracks l0 l' (p, n')"
proof -
  have d: "notif_delta l' i = Some (notif_delta_of i v)"
    by (simp add: notif_delta_def notif_delta_of_def assms(2) map_of_al_put)
  then have k: "nd_notif_id (notif_delta_of i v) = i" "\<not> nd_gone (notif_delta_of i v)" using notif_delta_key by blast+
  from assms(1) have n: "distinct (map nd_notif_id n)" "apply_deltas nd_notif_id nd_gone n (notif_delta l0) = notif_delta l"
    by (simp_all add: tracks_panes_notifs)
  have "apply_deltas nd_notif_id nd_gone (upsert_notif_delta (notif_delta_of i v) n) (notif_delta l0) =
      (notif_delta l)(i := Some (notif_delta_of i v))"
    using nds.apply_upsert [OF n(1), of "notif_delta_of i v" "notif_delta l0"] n(2) k by (simp add: apply_delta_def)
  also have "\<dots> = notif_delta l'" by (auto simp: fun_eq_iff notif_delta_def notif_delta_of_def assms(2) map_of_al_put)
  finally have "tracks l0 l' (p, upsert_notif_delta (notif_delta_of i v) n)"
    using assms(1,3) n(1) by (simp add: tracks_panes_notifs nds.distinct_upsert views)
  with d show ?thesis by (simp add: upsert_notif_def)
qed

lemma take_event_seq_eq:
  "take_event_seq l = (if Suc (lg_next_event_seq l) < u64_limit
     then Some (lg_next_event_seq l, l\<lparr>lg_next_event_seq := Suc (lg_next_event_seq l)\<rparr>) else None)"
  by (simp add: take_event_seq_def u64_succ_def)

lemma pane_after_add:
  assumes "ledger_inv l"
  shows "pane_ok (Suc (lg_next_event_seq l)) (add_event (lg_next_event_seq l) occ sev
    (case map_of (lg_panes l) i of None \<Rightarrow> new_pane | Some p \<Rightarrow> p))"
proof (cases "map_of (lg_panes l) i")
  case None
  with new_pane_ok assms show ?thesis by (simp add: ledger_inv_def)
next
  case (Some p)
  with assms have "pane_ok (lg_next_event_seq l) p" by (auto simp: ledger_inv_def dest: vals_ok_lookup)
  with Some show ?thesis by (simp add: add_event_ok)
qed

lemma record_pane_event_ok:
  assumes wf: "ledger_wf l" and room: "Suc (lg_next_event_seq l) < u64_limit"
  shows "\<exists>l4 ds. record_pane_event i occ sev now l =
      map_option (\<lambda>l5. ((lg_next_event_seq l, mk_delta l5 ds), l5)) (bump_revision l4) \<and>
    ledger_wf l4 \<and> tracks l l4 ds \<and> lg_revision l4 = lg_revision l"
proof -
  let ?l1 = "expire_state now l"
  from expire_into_ok [OF wf] obtain p n where
    e: "expire_into now l ([], []) = Some (?l1, (p, n))" "tracks l ?l1 (p, n)" by fastforce
  have inv: "ledger_inv ?l1" using wf by (simp add: ledger_wf_def expire_state_inv del: expire_state_simps)
  define v where "v = add_event (lg_next_event_seq l) occ sev (case map_of (lg_panes ?l1) i of None \<Rightarrow> new_pane | Some p \<Rightarrow> p)"
  define l3 where "l3 = ?l1\<lparr>lg_next_event_seq := Suc (lg_next_event_seq l), lg_panes := al_put i v (lg_panes ?l1)\<rparr>"
  have "pane_ok (Suc (lg_next_event_seq l)) v"
    using pane_after_add [OF inv, of occ sev i] unfolding v_def expire_state_simps by simp
  with inv_put_pane [OF inv, of v i] have inv3: "ledger_inv l3" unfolding l3_def expire_state_simps by simp
  have "lg_panes l3 = al_put i v (lg_panes ?l1)" "lg_notifs l3 = lg_notifs ?l1" by (simp_all add: l3_def)
  from tracks_put_pane [OF e(2) this] obtain p' where
    p': "upsert_pane l3 i p = Some p'" "tracks l l3 (p', n)" by blast
  have "lg_revision l3 = lg_revision l" by (simp add: l3_def)
  from enforce_finish [OF inv3 p'(2) this] obtain l4 ds where
    l4: "enforce_identity_caps l3 (p', n) = Some (l4, ds)" "lg_revision l4 = lg_revision l" "ledger_wf l4" "tracks l l4 ds"
    by blast
  have "take_event_seq ?l1 = Some (lg_next_event_seq l, ?l1\<lparr>lg_next_event_seq := Suc (lg_next_event_seq l)\<rparr>)"
    using room by (simp add: take_event_seq_eq)
  then have "record_pane_event i occ sev now l =
      map_option (\<lambda>l5. ((lg_next_event_seq l, mk_delta l5 ds), l5)) (bump_revision l4)"
    using e(1) p'(1) l4(1)
    by (cases "bump_revision l4") (simp_all add: record_pane_event_def v_def l3_def Let_def)
  with l4 show ?thesis by blast
qed

lemma record_notif_event_ok:
  assumes wf: "ledger_wf l" and room: "Suc (lg_next_event_seq l) < u64_limit"
  shows "\<exists>l4 ds. record_notif_event i occ sev now l =
      map_option (\<lambda>l5. ((lg_next_event_seq l, mk_delta l5 ds), l5)) (bump_revision l4) \<and>
    ledger_wf l4 \<and> tracks l l4 ds \<and> lg_revision l4 = lg_revision l"
proof -
  let ?l1 = "expire_state now l"
  from expire_into_ok [OF wf] obtain p n where
    e: "expire_into now l ([], []) = Some (?l1, (p, n))" "tracks l ?l1 (p, n)" by fastforce
  have inv: "ledger_inv ?l1" using wf by (simp add: ledger_wf_def expire_state_inv del: expire_state_simps)
  define v where "v = \<lparr>na_event_seq = lg_next_event_seq l, na_occurred_at = occ,
    na_severity = sev, na_read = False, na_read_at = None\<rparr>"
  define l3 where "l3 = ?l1\<lparr>lg_next_event_seq := Suc (lg_next_event_seq l), lg_notifs := al_put i v (lg_notifs ?l1)\<rparr>"
  have "notif_ok (Suc (lg_next_event_seq l)) v" by (simp add: v_def notif_ok_def)
  with inv_put_notif [OF inv, of v i] have inv3: "ledger_inv l3" unfolding l3_def expire_state_simps by simp
  have "lg_notifs l3 = al_put i v (lg_notifs ?l1)" "lg_panes l3 = lg_panes ?l1" by (simp_all add: l3_def)
  from tracks_put_notif [OF e(2) this] obtain n' where
    n': "upsert_notif l3 i n = Some n'" "tracks l l3 (p, n')" by blast
  have "lg_revision l3 = lg_revision l" by (simp add: l3_def)
  from enforce_finish [OF inv3 n'(2) this] obtain l4 ds where
    l4: "enforce_identity_caps l3 (p, n') = Some (l4, ds)" "lg_revision l4 = lg_revision l" "ledger_wf l4" "tracks l l4 ds"
    by blast
  have "take_event_seq ?l1 = Some (lg_next_event_seq l, ?l1\<lparr>lg_next_event_seq := Suc (lg_next_event_seq l)\<rparr>)"
    using room by (simp add: take_event_seq_eq)
  then have "record_notif_event i occ sev now l =
      map_option (\<lambda>l5. ((lg_next_event_seq l, mk_delta l5 ds), l5)) (bump_revision l4)"
    using e(1) n'(1) l4(1)
    by (cases "bump_revision l4") (simp_all add: record_notif_event_def v_def l3_def Let_def)
  with l4 show ?thesis by blast
qed

text \<open>Sweeping, closing a pane, and the stale branch of \<open>mark_read\<close> end the same way.\<close>

lemma sweep_ok:
  assumes wf: "ledger_wf l"
  shows "\<exists>l2 ds. sweep now l = map_option (\<lambda>(l3, d). (d, l3)) (finish_delta l2 ds) \<and>
    ledger_wf l2 \<and> tracks l l2 ds \<and> lg_revision l2 = lg_revision l"
proof -
  let ?l1 = "expire_state now l"
  from expire_into_ok [OF wf] obtain ds where
    e: "expire_into now l ([], []) = Some (?l1, ds)" "tracks l ?l1 ds" by blast
  have inv: "ledger_inv ?l1" using wf by (simp add: ledger_wf_def expire_state_inv del: expire_state_simps)
  from enforce_finish [OF inv e(2)] obtain l2 ds' where
    l2: "enforce_identity_caps ?l1 ds = Some (l2, ds')" "lg_revision l2 = lg_revision l" "ledger_wf l2" "tracks l l2 ds'"
    by auto
  have "sweep now l = map_option (\<lambda>(l3, d). (d, l3)) (finish_delta l2 ds')"
    using e(1) l2(1) by (cases "finish_delta l2 ds'") (auto simp: sweep_def)
  with l2 show ?thesis by blast
qed

lemma pane_closed_ok:
  assumes wf: "ledger_wf l"
  shows "\<exists>l2 ds. pane_closed i now l = map_option (\<lambda>(l3, d). (d, l3)) (finish_delta l2 ds) \<and>
    ledger_wf l2 \<and> tracks l l2 ds \<and> lg_revision l2 = lg_revision l"
proof -
  let ?l1 = "expire_state now l"
  from expire_into_ok [OF wf] obtain p n where
    e: "expire_into now l ([], []) = Some (?l1, (p, n))" "tracks l ?l1 (p, n)" by fastforce
  have inv: "ledger_inv ?l1" using wf by (simp add: ledger_wf_def expire_state_inv del: expire_state_simps)
  define l2 where "l2 = ?l1\<lparr>lg_panes := al_del i (lg_panes ?l1)\<rparr>"
  define p' where "p' = (if map_of (lg_panes ?l1) i \<noteq> None then upsert_pane_delta (pane_removed i) p else p)"
  have t: "distinct (map pd_pane_id p)" "apply_deltas pd_pane_id pd_gone p (pane_delta l) = pane_delta ?l1"
    using e(2) by (simp_all add: tracks_panes_notifs)
  have "pane_delta l2 = (pane_delta ?l1)(i := None)"
    by (auto simp: l2_def pane_delta_def fun_eq_iff map_of_al_del simp del: expire_state_simps)
  then have "tracks l l2 (p', n)"
    using e(2) pds.apply_upsert [OF t(1), of "pane_removed i" "pane_delta l"] t
    by (auto simp: tracks_panes_notifs p'_def pds.distinct_upsert apply_delta_def views(2) l2_def
        pane_delta_def fun_eq_iff simp del: expire_state_simps)
  moreover have "ledger_inv l2"
    using inv by (simp add: l2_def ledger_inv_def al_wf_del vals_ok_del del: expire_state_simps)
  moreover have "lg_revision l2 = lg_revision l" by (simp add: l2_def)
  ultimately obtain l3 ds where
    l3: "enforce_identity_caps l2 (p', n) = Some (l3, ds)" "lg_revision l3 = lg_revision l" "ledger_wf l3" "tracks l l3 ds"
    using enforce_finish by blast
  have "pane_closed i now l = map_option (\<lambda>(l3, d). (d, l3)) (finish_delta l3 ds)"
    using e(1) l3(1)
    by (cases "finish_delta l3 ds") (auto simp: pane_closed_def p'_def l2_def Let_def simp del: expire_state_simps)
  with l3 show ?thesis by blast
qed

end
