(* ===== verification/AttentionRead.thy ===== *)
theory AttentionRead
  imports AttentionProps
begin

section \<open>Reading, completing, evicting: the ledger's guarantees\<close>

text \<open>
  \<open>mark_read\<close> in its two loops, the interpretation of \<open>synced_source\<close>, and the properties of
  the ledger as a whole.
\<close>

subsection \<open>The loops of \<open>mark_read\<close>\<close>

definition marking_ok :: "attention_ledger \<Rightarrow> marking \<Rightarrow> bool" where
  "marking_ok l1 m \<longleftrightarrow> ledger_inv (mk_ledger m) \<and> same_counters l1 (mk_ledger m) \<and>
     list_all (\<lambda>i. pane_delta (mk_ledger m) i \<noteq> None) (mk_panes m) \<and>
     list_all (\<lambda>i. notif_delta (mk_ledger m) i \<noteq> None) (mk_notifs m) \<and>
     (\<forall>i. i \<in> set (mk_panes m) \<or> pane_delta (mk_ledger m) i = pane_delta l1 i) \<and>
     (\<forall>i. i \<in> set (mk_notifs m) \<or> notif_delta (mk_ledger m) i = notif_delta l1 i)"

lemma inv_set_pane:
  "ledger_inv l \<Longrightarrow> pane_ok (lg_next_event_seq l) p \<Longrightarrow> ledger_inv (l\<lparr>lg_panes := al_put i p (lg_panes l)\<rparr>)"
  by (simp add: ledger_inv_def al_wf_put vals_ok_put)

lemma inv_set_notif:
  "ledger_inv l \<Longrightarrow> notif_ok (lg_next_event_seq l) n \<Longrightarrow> ledger_inv (l\<lparr>lg_notifs := al_put i n (lg_notifs l)\<rparr>)"
  by (simp add: ledger_inv_def al_wf_put vals_ok_put)

lemma delta_put:
  "pane_delta (l\<lparr>lg_panes := al_put i p (lg_panes l)\<rparr>) j = (if j = i then Some (pane_delta_of i p) else pane_delta l j)"
  "notif_delta (l\<lparr>lg_notifs := al_put i n (lg_notifs l)\<rparr>) j = (if j = i then Some (notif_delta_of i n) else notif_delta l j)"
  "pane_delta (l\<lparr>lg_notifs := ns\<rparr>) j = pane_delta l j" "notif_delta (l\<lparr>lg_panes := ps\<rparr>) j = notif_delta l j"
  by (simp_all add: pane_delta_def notif_delta_def notif_delta_of_def map_of_al_put)

lemma mark_pane_ok:
  assumes m: "marking_ok l1 m"
  shows "marking_ok l1 (mark_pane now x m)"
proof -
  obtain i through where x: "x = (i, through)" by fastforce
  let ?l = "mk_ledger m"
  consider "map_of (lg_panes ?l) i = None" | p where "map_of (lg_panes ?l) i = Some p" "through > pa_latest p"
    | p where "map_of (lg_panes ?l) i = Some p" "through \<le> pa_latest p"
    by (metis not_le option.exhaust)
  then show ?thesis
  proof cases
    case (3 p)
    obtain p' c where r: "read_pane through now p = (p', c)" by fastforce
    have p: "pane_ok (lg_next_event_seq ?l) p" using m 3(1) by (auto simp: marking_ok_def ledger_inv_def dest: vals_ok_lookup)
    from read_pane_ok [OF p 3(2), of now] have p': "pane_ok (lg_next_event_seq ?l) p'" by (simp add: r)
    have d: "pane_delta ?l i = Some (pane_delta_of i p)" by (simp add: pane_delta_def 3(1))
    have same: "\<not> c \<Longrightarrow> p' = p" using read_pane_unchanged [OF p, of through now] by (simp add: r)
    from m 3 p' d same show ?thesis
      by (auto simp: mark_pane_def x r marking_ok_def inv_set_pane delta_put set_push_unique list_all_iff same_counters_def)
  qed (use m in \<open>simp_all add: mark_pane_def x marking_ok_def\<close>)
qed

lemma mark_notif_ok:
  assumes m: "marking_ok l1 m"
  shows "marking_ok l1 (mark_notif now i m)"
proof (cases "map_of (lg_notifs (mk_ledger m)) i")
  case None
  with m show ?thesis by (simp add: mark_notif_def marking_ok_def)
next
  case (Some n)
  have "notif_ok (lg_next_event_seq (mk_ledger m)) n"
    using m Some by (auto simp: marking_ok_def ledger_inv_def dest: vals_ok_lookup)
  then have "notif_ok (lg_next_event_seq (mk_ledger m)) (n\<lparr>na_read := True, na_read_at := Some now\<rparr>)"
    by (simp add: notif_ok_def)
  with m Some show ?thesis
    by (auto simp: mark_notif_def marking_ok_def inv_set_notif delta_put set_push_unique list_all_iff same_counters_def Let_def)
qed

lemma marks_ok: "marking_ok l1 m \<Longrightarrow> marking_ok l1 (fold (mark_notif now) ns (fold (mark_pane now) ps m))"
proof -
  have "marking_ok l1 m \<Longrightarrow> marking_ok l1 (fold (mark_pane now) ps m)" for m
    by (induction ps arbitrary: m) (simp_all add: mark_pane_ok)
  moreover have "marking_ok l1 m \<Longrightarrow> marking_ok l1 (fold (mark_notif now) ns m)" for m
    by (induction ns arbitrary: m) (simp_all add: mark_notif_ok)
  ultimately show "marking_ok l1 m \<Longrightarrow> ?thesis" by blast
qed

lemma marking_tracks:
  assumes m: "marking_ok l1 m" and t: "tracks l0 l1 (p, n)"
  shows "\<exists>p' n'. fold_opt (upsert_pane (mk_ledger m)) (mk_panes m) p = Some p' \<and>
    fold_opt (upsert_notif (mk_ledger m)) (mk_notifs m) n = Some n' \<and> tracks l0 (mk_ledger m) (p', n')"
proof -
  from t have p: "distinct (map pd_pane_id p)" "apply_deltas pd_pane_id pd_gone p (pane_delta l0) = pane_delta l1"
    and n: "distinct (map nd_notif_id n)" "apply_deltas nd_notif_id nd_gone n (notif_delta l0) = notif_delta l1"
    by (simp_all add: tracks_panes_notifs)
  from m have a: "list_all (\<lambda>i. pane_delta (mk_ledger m) i \<noteq> None) (mk_panes m)"
    "list_all (\<lambda>i. notif_delta (mk_ledger m) i \<noteq> None) (mk_notifs m)" by (simp_all add: marking_ok_def)
  from m have keep: "(if i \<in> set (mk_panes m) then pane_delta (mk_ledger m) i else pane_delta l1 i) = pane_delta (mk_ledger m) i"
    "(if i \<in> set (mk_notifs m) then notif_delta (mk_ledger m) i else notif_delta l1 i) = notif_delta (mk_ledger m) i" for i
    by (auto simp: marking_ok_def)
  from fold_upsert_pane [OF a(1) p(1), of "pane_delta l0", unfolded p(2) keep(1)]
    fold_upsert_notif [OF a(2) n(1), of "notif_delta l0", unfolded n(2) keep(2)]
  show ?thesis by (auto simp: tracks_panes_notifs)
qed

definition start_marking :: "attention_ledger \<Rightarrow> marking" where
  "start_marking l1 = \<lparr>mk_ledger = l1, mk_results = [], mk_accepted = False, mk_panes = [], mk_notifs = []\<rparr>"

lemma start_marking_ok: "ledger_inv l1 \<Longrightarrow> marking_ok l1 (start_marking l1)"
  by (simp add: marking_ok_def start_marking_def same_counters_def)

lemma mark_read_ok:
  assumes wf: "ledger_wf l"
  shows "\<exists>l2 ds res at. mark_read ep ps ns now l = map_option (\<lambda>(l3, d). ((d, res, at l3), l3)) (finish_delta l2 ds) \<and>
    ledger_wf l2 \<and> tracks l l2 ds \<and> lg_revision l2 = lg_revision l"
proof -
  let ?l1 = "expire_state now l"
  from expire_into_ok [OF wf] obtain p n where
    e: "expire_into now l ([], []) = Some (?l1, (p, n))" "tracks l ?l1 (p, n)" by fastforce
  have inv: "ledger_inv ?l1" using wf by (simp add: ledger_wf_def expire_state_inv del: expire_state_simps)
  show ?thesis
  proof (cases "ep = lg_epoch ?l1")
    case False
    from enforce_finish [OF inv e(2)] obtain l2 ds where
      l2: "enforce_identity_caps ?l1 (p, n) = Some (l2, ds)" "lg_revision l2 = lg_revision l" "ledger_wf l2" "tracks l l2 ds"
      by auto
    have "mark_read ep ps ns now l = map_option (\<lambda>(l3, d). ((d, stale_results ps ns, None), l3)) (finish_delta l2 ds)"
      using e(1) l2(1) False by (cases "finish_delta l2 ds") (auto simp: mark_read_def)
    with l2 show ?thesis by (intro exI [of _ l2] exI [of _ ds] exI [of _ "stale_results ps ns"] exI [of _ "\<lambda>_. None"]) simp
  next
    case True
    define m where "m = fold (mark_notif now) ns (fold (mark_pane now) ps (start_marking ?l1))"
    have m: "marking_ok ?l1 m" unfolding m_def by (intro marks_ok start_marking_ok inv)
    from marking_tracks [OF m e(2)] obtain p' n' where
      u: "fold_opt (upsert_pane (mk_ledger m)) (mk_panes m) p = Some p'"
        "fold_opt (upsert_notif (mk_ledger m)) (mk_notifs m) n = Some n'" "tracks l (mk_ledger m) (p', n')" by blast
    have "ledger_inv (mk_ledger m)" "lg_revision (mk_ledger m) = lg_revision l"
      using m by (simp_all add: marking_ok_def same_counters_def)
    from enforce_finish [OF this(1) u(3) this(2)] obtain l2 ds where
      l2: "enforce_identity_caps (mk_ledger m) (p', n') = Some (l2, ds)" "lg_revision l2 = lg_revision l" "ledger_wf l2" "tracks l l2 ds"
      by blast
    define at where "at = (\<lambda>l3 :: attention_ledger. if mk_accepted m then Some (lg_revision l3) else None)"
    have "mark_read ep ps ns now l = map_option (\<lambda>(l3, d). ((d, mk_results m, at l3), l3)) (finish_delta l2 ds)"
      using e(1) u(1,2) l2(1) True
      by (cases "finish_delta l2 ds") (auto simp: mark_read_def m_def start_marking_def at_def Let_def simp del: expire_state_simps)
    with l2 show ?thesis by (intro exI [of _ l2] exI [of _ ds] exI [of _ "mk_results m"] exI [of _ at]) simp
  qed
qed

subsection \<open>Deduplication keeps the invariant\<close>

lemma reserve_frame:
  assumes "ledger_wf l" and "reserve c r h now l = Some (res, l')"
  shows "ledger_wf l' \<and> ledger_view l' = ledger_view l \<and> lg_revision l' = lg_revision l \<and> lg_next_event_seq l' = lg_next_event_seq l"
proof -
  have "l' = l \<or> fresh_reservation (c, r) h now l = Some (res, l')"
    using assms(2) by (auto simp: reserve_def Let_def split: option.splits dedup_state.splits if_splits)
  then show ?thesis
  proof
    assume "fresh_reservation (c, r) h now l = Some (res, l')"
    then have l': "l' = l\<lparr>lg_next_dedup_generation := Suc (lg_next_dedup_generation l),
        lg_dedup := al_put (c, r) \<lparr>de_payload_hash = h, de_state = InFlight now (lg_next_dedup_generation l)\<rparr> (lg_dedup l)\<rparr>"
      by (auto simp: fresh_reservation_def take_dedup_generation_def split: bind_splits)
    have "vals_ok (dedup_ok (Suc (lg_next_dedup_generation l))) (lg_dedup l)"
      using assms(1) by (auto simp: ledger_wf_def ledger_inv_def dedup_ok_def elim: vals_ok_mono split: dedup_state.splits)
    then have "ledger_wf l'"
      using assms(1) by (simp add: l' ledger_wf_def ledger_inv_def al_wf_put vals_ok_put dedup_ok_def)
    moreover have "ledger_view l' = ledger_view l" by (intro view_frame) (simp_all add: l')
    ultimately show ?thesis by (simp add: l')
  qed (use assms(1) in simp)
qed

lemma complete_frame:
  assumes "ledger_wf l"
  shows "ledger_wf (snd (complete k g out now l)) \<and> ledger_view (snd (complete k g out now l)) = ledger_view l \<and>
    lg_revision (snd (complete k g out now l)) = lg_revision l"
proof -
  have c: "snd (complete k g out now l) = l \<or>
      (\<exists>e. snd (complete k g out now l) = l\<lparr>lg_dedup := al_put k (e\<lparr>de_state := Done now out\<rparr>) (lg_dedup l)\<rparr>)"
    by (auto simp: complete_def split: option.splits dedup_state.splits)
  have "ledger_wf (l\<lparr>lg_dedup := al_put k (e\<lparr>de_state := Done now out\<rparr>) (lg_dedup l)\<rparr>)" for e
    using assms by (simp add: ledger_wf_def ledger_inv_def al_wf_put vals_ok_put dedup_ok_def)
  moreover have "ledger_view (l\<lparr>lg_dedup := d\<rparr>) = ledger_view l" for d by (intro view_frame) simp_all
  ultimately show ?thesis using c assms by auto
qed

subsection \<open>The ledger is a synced source\<close>

lemma delta_sound_none:
  "ledger_wf l' \<Longrightarrow> ledger_view l' = ledger_view l \<Longrightarrow> lg_revision l' = lg_revision l \<Longrightarrow> delta_sound l None l'"
  by (simp add: delta_sound_def)

lemma swapped_Some: "map_option (\<lambda>(x, y). (y, x)) r = Some (b, a) \<longleftrightarrow> r = Some (a, b)"
  by auto

text \<open>A record that succeeded had room for its event sequence.\<close>

lemma record_pane_room:
  "ledger_wf l \<Longrightarrow> record_pane_event i occ sev now l = Some r \<Longrightarrow> Suc (lg_next_event_seq l) < u64_limit"
  using expire_into_ok [of l now] by (auto simp: record_pane_event_def take_event_seq_eq split: bind_splits if_splits)

lemma record_notif_room:
  "ledger_wf l \<Longrightarrow> record_notif_event i occ sev now l = Some r \<Longrightarrow> Suc (lg_next_event_seq l) < u64_limit"
  using expire_into_ok [of l now] by (auto simp: record_notif_event_def take_event_seq_eq split: bind_splits if_splits)

lemma ledger_step_sound:
  assumes wf: "ledger_wf l" and s: "ledger_step x l = Some (d, l')"
  shows "delta_sound l d l'"
proof (cases x)
  case (RecordPane i occ sev now)
  with s obtain q where q: "record_pane_event i occ sev now l = Some ((q, the d), l')" "d = Some (the d)" by auto
  from record_pane_event_ok [OF wf record_pane_room [OF wf q(1)], of i occ sev now] obtain l4 ds where
    m: "record_pane_event i occ sev now l = map_option (\<lambda>l5. ((lg_next_event_seq l, mk_delta l5 ds), l5)) (bump_revision l4)"
    "ledger_wf l4" "tracks l l4 ds" "lg_revision l4 = lg_revision l" by blast
  from trans [OF m(1) [symmetric] q(1)] have "bump_revision l4 = Some l'" "the d = mk_delta l' ds" by auto
  with delta_sound_bump [OF m(2-4)] q(2) show ?thesis by metis
next
  case (RecordNotif i occ sev now)
  with s obtain q where q: "record_notif_event i occ sev now l = Some ((q, the d), l')" "d = Some (the d)" by auto
  from record_notif_event_ok [OF wf record_notif_room [OF wf q(1)], of i occ sev now] obtain l4 ds where
    m: "record_notif_event i occ sev now l = map_option (\<lambda>l5. ((lg_next_event_seq l, mk_delta l5 ds), l5)) (bump_revision l4)"
    "ledger_wf l4" "tracks l l4 ds" "lg_revision l4 = lg_revision l" by blast
  from trans [OF m(1) [symmetric] q(1)] have "bump_revision l4 = Some l'" "the d = mk_delta l' ds" by auto
  with delta_sound_bump [OF m(2-4)] q(2) show ?thesis by metis
next
  case (MarkRead ep ps ns now)
  from mark_read_ok [OF wf, of ep ps ns now] obtain l2 ds res at where
    m: "mark_read ep ps ns now l = map_option (\<lambda>(l3, d). ((d, res, at l3), l3)) (finish_delta l2 ds)"
    "ledger_wf l2" "tracks l l2 ds" "lg_revision l2 = lg_revision l" by blast
  with s MarkRead have "map_option (\<lambda>((d, _), l'). (d, l')) (map_option (\<lambda>(l3, d). ((d, res, at l3), l3)) (finish_delta l2 ds)) = Some (d, l')"
    by simp
  then have "finish_delta l2 ds = Some (l', d)" by auto
  with finish_sound m(2-) show ?thesis by blast
next
  case (PaneClosed i now)
  from pane_closed_ok [OF wf, of i now] obtain l2 ds where
    m: "pane_closed i now l = map_option (\<lambda>(l3, d). (d, l3)) (finish_delta l2 ds)"
    "ledger_wf l2" "tracks l l2 ds" "lg_revision l2 = lg_revision l" by blast
  with s PaneClosed have "finish_delta l2 ds = Some (l', d)" by (simp add: swapped_Some)
  with finish_sound m(2-) show ?thesis by blast
next
  case (SweepAt now)
  from sweep_ok [OF wf, of now] obtain l2 ds where
    m: "sweep now l = map_option (\<lambda>(l3, d). (d, l3)) (finish_delta l2 ds)"
    "ledger_wf l2" "tracks l l2 ds" "lg_revision l2 = lg_revision l" by blast
  with s SweepAt have "finish_delta l2 ds = Some (l', d)" by (simp add: swapped_Some)
  with finish_sound m(2-) show ?thesis by blast
next
  case (Reserve c r h now)
  with s wf reserve_frame [of l c r h now] show ?thesis by (auto intro: delta_sound_none)
next
  case (Complete k g out now)
  with s wf complete_frame [of l k g out now] show ?thesis by (auto intro: delta_sound_none)
qed

interpretation ledger: synced_source ledger_step ledger_wf ledger_view apply_state_delta lg_revision sd_revision
proof unfold_locales
  fix l x d l'
  assume "ledger_wf l" "ledger_step x l = Some (d, l')"
  from ledger_step_sound [OF this] show "ledger_wf l' \<and>
    (case d of None \<Rightarrow> ledger_view l' = ledger_view l \<and> lg_revision l' = lg_revision l
     | Some y \<Rightarrow> ledger_view l' = apply_state_delta y (ledger_view l) \<and> lg_revision l' = Suc (lg_revision l) \<and>
         sd_revision y = Suc (lg_revision l))"
    by (simp add: delta_sound_def)
qed

subsection \<open>Properties\<close>

lemma with_epoch_wf: "ledger_wf (with_epoch e)"
  by (simp add: ledger_wf_def ledger_inv_def with_epoch_def al_wf_def vals_ok_def)

text \<open>
  A client never drifts from the server. Take any run of ledger operations, and a client that
  fetched the state at any point of it: applying, in order, the deltas stamped with a later
  revision than its snapshot (whatever older ones it also receives) gives exactly the view of
  the ledger at the end, and the ledger is still well-formed.
\<close>

theorem clients_stay_in_sync:
  assumes "ledger_wf l" and "run_ops ledger_step xs l = Some (ds1, t)" and "run_ops ledger_step ys t = Some (ds2, l')"
  shows "ledger_wf l' \<and>
    fold apply_state_delta (filter (\<lambda>d. lg_revision t < sd_revision d) (ds1 @ ds2)) (ledger_view t) = ledger_view l'"
  using ledger.resync [OF assms] ledger.run_sound [OF assms(1,2)] ledger.run_sound [OF _ assms(3)] by blast

text \<open>
  No operation panics on a well-formed ledger while its three counters have room: the
  indexing of changed panes, the eviction that expects a victim and an unread head, and the
  counters are all safe, and the new ledger is well-formed.
\<close>

theorem ledger_never_panics:
  assumes "ledger_wf l" and "Suc (lg_next_event_seq l) < u64_limit"
    and "Suc (lg_next_dedup_generation l) < u64_limit" and "Suc (lg_revision l) < u64_limit"
  shows "\<exists>d l'. ledger_step x l = Some (d, l') \<and> ledger_wf l'"
proof -
  have bump: "lg_revision l4 = lg_revision l \<Longrightarrow> \<exists>l5. bump_revision l4 = Some l5" for l4
    using assms(4) by (simp add: bump_revision_eq)
  have finish: "lg_revision l4 = lg_revision l \<Longrightarrow> \<exists>l5 d. finish_delta l4 ds = Some (l5, d)" for l4 ds
    using finish_total [of l4 ds] assms(4) by auto
  have "\<exists>d l'. ledger_step x l = Some (d, l')"
  proof (cases x)
    case (RecordPane i occ sev now)
    with record_pane_event_ok [OF assms(1,2), of i occ sev now] bump show ?thesis by force
  next
    case (RecordNotif i occ sev now)
    with record_notif_event_ok [OF assms(1,2), of i occ sev now] bump show ?thesis by force
  next
    case (MarkRead ep ps ns now)
    with mark_read_ok [OF assms(1), of ep ps ns now] finish show ?thesis by force
  next
    case (PaneClosed i now)
    with pane_closed_ok [OF assms(1), of i now] finish show ?thesis by force
  next
    case (SweepAt now)
    with sweep_ok [OF assms(1), of now] finish show ?thesis by force
  next
    case (Reserve c r h now)
    have "\<exists>q. reserve c r h now l = Some q"
      using assms(3)
      by (auto simp: reserve_def fresh_reservation_def take_dedup_generation_def u64_succ_def Let_def
          split: option.split dedup_state.split)
    with Reserve show ?thesis by auto
  qed simp
  with ledger_step_sound [OF assms(1)] show ?thesis by (auto simp: delta_sound_def)
qed

text \<open>What evaluates a short run of the ledger.\<close>

lemmas ledger_eval = with_epoch_def record_pane_event_def record_notif_event_def expire_into_def changed_keys_def
  update_values_def expire_state_def sweep_dedup_def take_event_seq_def u64_succ_def u64_limit_def new_pane_def
  add_event_def UNREAD_CAP_def upsert_pane_def pane_delta_def pane_delta_of_def enforce_identity_caps_def
  evict_panes.simps evict_notifs.simps IDENTITY_CAP_def bump_revision_def mk_delta_def Let_def upsert_notif_def
  notif_delta_def expire_pane_def is_expired_def UNREAD_TTL_def collect_pane_def old_read_def expire_notif_def
  collect_notif_def dedup_live_def push_unique_def

lemma clients_stay_in_sync_witness:
  "\<exists>ds1 t ds2 l'. run_ops ledger_step [RecordPane ''p'' 5 Warning 5] (with_epoch ''e'') = Some (ds1, t) \<and>
    run_ops ledger_step [RecordNotif ''n'' 6 Info 6] t = Some (ds2, l') \<and>
    fold apply_state_delta (filter (\<lambda>d. lg_revision t < sd_revision d) (ds1 @ ds2)) (ledger_view t) = ledger_view l'"
proof -
  obtain ds1 t ds2 l' where r: "run_ops ledger_step [RecordPane ''p'' 5 Warning 5] (with_epoch ''e'') = Some (ds1, t)"
    "run_ops ledger_step [RecordNotif ''n'' 6 Info 6] t = Some (ds2, l')" by (simp add: ledger_eval)
  from clients_stay_in_sync [OF with_epoch_wf r] r show ?thesis by blast
qed

lemma ledger_never_panics_witness:
  "\<exists>d l'. ledger_step (MarkRead ''e'' [(''p'', 3)] [''n''] 7) (with_epoch ''e'') = Some (d, l') \<and> ledger_wf l'"
  using ledger_never_panics [OF with_epoch_wf, of "''e''" "MarkRead ''e'' [(''p'', 3)] [''n''] 7"]
  by (simp add: with_epoch_def u64_limit_def)

lemma evict_panes_below: "length ps \<le> IDENTITY_CAP \<Longrightarrow> evict_panes ps ds = Some (ps, ds)"
  by (simp add: evict_panes.simps [of ps])

lemma evict_notifs_below: "length ns \<le> IDENTITY_CAP \<Longrightarrow> evict_notifs ns ds = Some (ns, ds)"
  by (simp add: evict_notifs.simps [of ns])

lemma finish_delta_panes: "finish_delta l ds = Some (l', d) \<Longrightarrow> lg_panes l' = lg_panes l"
  by (auto simp: finish_delta_def bump_revision_def split: if_splits)

lemma al_put_length_same: "map_of m k = Some v \<Longrightarrow> length (al_put k w m) = length m"
  by (simp add: al_put_length in_keys_iff)

text \<open>
  Reading a pane up to an event the server knows: the request is answered \<open>Applied\<close>, exactly
  the events after both the old watermark and the request stay unread, in their order, the
  watermark never moves back, and a pane read to its end is remembered as read now. (The pane
  is the one left after expiry.)
\<close>

theorem mark_read_pane:
  assumes wf: "ledger_wf l" and p: "map_of (lg_panes (expire_state now l)) i = Some p" and le: "through \<le> pa_latest p"
    and r: "mark_read (lg_epoch l) [(i, through)] [] now l = Some ((d, res, at), l')"
  shows "res = [(TPane i, Applied)] \<and> (\<exists>p'. map_of (lg_panes l') i = Some p' \<and>
    pa_unread p' = filter (\<lambda>e. max (pa_read_through p) through < ue_seq e) (pa_unread p) \<and>
    max (pa_read_through p) through \<le> pa_read_through p' \<and> pa_latest p' = pa_latest p \<and>
    (pa_unread p' = [] \<longrightarrow> pa_read_at p' = (if pa_unread p = [] then pa_read_at p else Some now)))"
proof -
  let ?l1 = "expire_state now l"
  from expire_into_ok [OF wf] obtain pd nd where e: "expire_into now l ([], []) = Some (?l1, (pd, nd))" by fastforce
  from expire_state_wf [OF wf] have wf1: "ledger_wf ?l1" .
  then have ok: "pane_ok (lg_next_event_seq ?l1) p"
    using p by (auto simp: ledger_wf_def ledger_inv_def dest: vals_ok_lookup simp del: expire_state_simps)
  obtain p' c where rp: "read_pane through now p = (p', c)" by fastforce
  define l2 where "l2 = ?l1\<lparr>lg_panes := al_put i p' (lg_panes ?l1)\<rparr>"
  have m: "mark_pane now (i, through) (start_marking ?l1) = \<lparr>mk_ledger = l2, mk_results = [(TPane i, Applied)],
      mk_accepted = True, mk_panes = (if c then push_unique i [] else []), mk_notifs = []\<rparr>"
    using p le rp by (simp add: mark_pane_def start_marking_def l2_def del: expire_state_simps)
  have size: "length (lg_panes l2) \<le> IDENTITY_CAP" "length (lg_notifs l2) \<le> IDENTITY_CAP"
    using wf1 p by (simp_all add: l2_def ledger_wf_def al_put_length_same del: expire_state_simps)
  then have enf: "enforce_identity_caps l2 ds = Some (l2, ds)" for ds
    by (cases ds) (simp add: enforce_identity_caps_def evict_panes_below evict_notifs_below)
  have "mark_read (lg_epoch l) [(i, through)] [] now l =
      fold_opt (upsert_pane l2) (if c then push_unique i [] else []) pd \<bind>
        (\<lambda>pds1. finish_delta l2 (pds1, nd) \<bind> (\<lambda>(l4, d). Some ((d, [(TPane i, Applied)], Some (lg_revision l4)), l4)))"
    using m by (simp add: mark_read_def start_marking_def e enf Let_def del: expire_state_simps(2-7))
  with r obtain ds where "finish_delta l2 ds = Some (l', d)" and res: "res = [(TPane i, Applied)]"
    by (auto split: bind_splits)
  then have "map_of (lg_panes l') i = Some p'" by (simp add: finish_delta_panes l2_def map_of_al_put)
  moreover have "pa_unread p' = filter (\<lambda>e. max (pa_read_through p) through < ue_seq e) (pa_unread p)"
    using read_pane_unread [OF ok, of through now] by (simp add: rp)
  moreover have "max (pa_read_through p) through \<le> pa_read_through p'" "pa_latest p' = pa_latest p"
    "pa_unread p' = [] \<Longrightarrow> pa_read_at p' = (if pa_unread p = [] then pa_read_at p else Some now)"
    using ok le rp by (auto simp: read_pane_def pane_ok_def Let_def split: if_splits)
  ultimately show ?thesis using res by blast
qed

lemma mark_read_pane_witness:
  "\<exists>l d res at l'. run_ops ledger_step [RecordPane ''p'' 5 Warning 5, RecordPane ''p'' 6 Error 6] (with_epoch ''e'') = Some l \<and>
    mark_read ''e'' [(''p'', 1)] [] 7 (snd l) = Some ((d, res, at), l') \<and>
    map_option (map ue_seq \<circ> pa_unread) (map_of (lg_panes l') ''p'') = Some [2]"
proof -
  obtain ds l where run: "run_ops ledger_step [RecordPane ''p'' 5 Warning 5, RecordPane ''p'' 6 Error 6] (with_epoch ''e'') = Some (ds, l)"
    and l: "lg_epoch l = ''e''" "lg_panes l = [(''p'', \<lparr>pa_read_through = 0, pa_latest = 2, pa_unread =
        [\<lparr>ue_seq = 1, ue_occurred_at = 5, ue_severity = Warning\<rparr>, \<lparr>ue_seq = 2, ue_occurred_at = 6, ue_severity = Error\<rparr>],
        pa_read_at = None\<rparr>)]"
    and c: "lg_revision l = 2"
    by (simp add: ledger_eval)
  have wf: "ledger_wf l" using ledger.run_sound [OF with_epoch_wf run] by blast
  have p: "map_of (lg_panes (expire_state 7 l)) ''p'' = Some \<lparr>pa_read_through = 0, pa_latest = 2, pa_unread =
        [\<lparr>ue_seq = 1, ue_occurred_at = 5, ue_severity = Warning\<rparr>, \<lparr>ue_seq = 2, ue_occurred_at = 6, ue_severity = Error\<rparr>],
        pa_read_at = None\<rparr>"
    by (simp add: l update_values_def expire_pane_def is_expired_def UNREAD_TTL_def collect_pane_def)
  from mark_read_ok [OF wf, of "''e''" "[(''p'', 1)]" "[]" 7] obtain l2 ds res at where
    m: "mark_read ''e'' [(''p'', 1)] [] 7 l = map_option (\<lambda>(l3, d). ((d, res, at l3), l3)) (finish_delta l2 ds)"
    "lg_revision l2 = lg_revision l" by blast
  have "Suc (lg_revision l2) < u64_limit" using m(2) c by (simp add: u64_limit_def)
  from finish_total [OF this, of ds] obtain l' d where "finish_delta l2 ds = Some (l', d)" by auto
  with m(1) have r: "mark_read ''e'' [(''p'', 1)] [] 7 l = Some ((d, res, at l'), l')" by simp
  from mark_read_pane [OF wf p _ r [folded l(1)]] run r show ?thesis by (auto simp: l)
qed

end
