(* ===== verification/AttentionDedup.thy ===== *)
theory AttentionDedup
  imports AttentionRead
begin

section \<open>Requests, eviction and the ingest gate\<close>

text \<open>
  That a request is applied at most once, that eviction takes the identity read longest ago and
  an unread one only as a last resort, and what the ingest gate lets through.
\<close>

subsection \<open>Deduplication\<close>

lemma complete_in_flight:
  "map_of (lg_dedup l) k = Some e \<Longrightarrow> de_state e = InFlight t g \<Longrightarrow>
     complete k g out now l = (True, l\<lparr>lg_dedup := al_put k (e\<lparr>de_state := Done now out\<rparr>) (lg_dedup l)\<rparr>)"
  by (simp add: complete_def)

lemma reserved_entry:
  assumes "reserve c r h t0 l = Some (Reserved g, l1)"
  shows "g = lg_next_dedup_generation l \<and> map_of (lg_dedup l1) (c, r) = Some \<lparr>de_payload_hash = h, de_state = InFlight t0 g\<rparr>"
proof -
  from assms have "fresh_reservation (c, r) h t0 l = Some (Reserved g, l1)"
    by (auto simp: reserve_def Let_def split: option.splits dedup_state.splits if_splits)
  then show ?thesis
    by (auto simp: fresh_reservation_def take_dedup_generation_def map_of_al_put split: bind_splits)
qed

text \<open>
  A request is applied once. A reservation gets a generation no entry of the ledger holds, so
  an owner whose reservation was reclaimed cannot complete it. Its owner can complete it, once;
  afterwards no one can, and for the replay horizon a retry with the same payload gets the
  recorded outcome back and one with another payload a conflict, without touching the ledger.
\<close>

theorem request_applied_once:
  assumes wf: "ledger_wf l" and r: "reserve c r h t0 l = Some (Reserved g, l1)"
  shows "list_all (\<lambda>(_, e). case de_state e of InFlight _ g' \<Rightarrow> g' \<noteq> g | Done _ _ \<Rightarrow> True) (lg_dedup l) \<and>
    (\<forall>g' out' t. g' \<noteq> g \<longrightarrow> complete (c, r) g' out' t l1 = (False, l1)) \<and>
    (\<exists>l2. complete (c, r) g out t1 l1 = (True, l2) \<and>
      (\<forall>g' out' t. complete (c, r) g' out' t l2 = (False, l2)) \<and>
      (\<forall>h' t2. t2 - t1 < DEDUP_TTL \<longrightarrow>
         reserve c r h' t2 l2 = Some (if h' = h then Replay out else RConflict, l2)))"
proof -
  from reserved_entry [OF r] have g: "g = lg_next_dedup_generation l"
    and e: "map_of (lg_dedup l1) (c, r) = Some \<lparr>de_payload_hash = h, de_state = InFlight t0 g\<rparr>" by auto
  define l2 where "l2 = l1\<lparr>lg_dedup := al_put (c, r) \<lparr>de_payload_hash = h, de_state = Done t1 out\<rparr> (lg_dedup l1)\<rparr>"
  have "complete (c, r) g out t1 l1 = (True, l2)" using e by (simp add: complete_def l2_def)
  moreover have d: "map_of (lg_dedup l2) (c, r) = Some \<lparr>de_payload_hash = h, de_state = Done t1 out\<rparr>"
    by (simp add: l2_def map_of_al_put)
  then have "complete (c, r) g' out' t l2 = (False, l2)" for g' out' t by (simp add: complete_def)
  moreover have "reserve c r h' t2 l2 = Some (if h' = h then Replay out else RConflict, l2)" if "t2 - t1 < DEDUP_TTL" for h' t2
    using that d by (simp add: reserve_def is_expired_def)
  moreover have "complete (c, r) g' out' t l1 = (False, l1)" if "g' \<noteq> g" for g' out' t
    using that e by (simp add: complete_def)
  moreover have "list_all (\<lambda>(_, e). case de_state e of InFlight _ g' \<Rightarrow> g' \<noteq> g | Done _ _ \<Rightarrow> True) (lg_dedup l)"
    using wf by (auto simp: ledger_wf_def ledger_inv_def vals_ok_def dedup_ok_def list_all_iff g split: dedup_state.splits)
  ultimately show ?thesis by blast
qed

lemma request_applied_once_witness:
  "\<exists>g l1 l2. reserve ''c'' ''r'' 7 100 (with_epoch ''e'') = Some (Reserved g, l1) \<and>
    complete (''c'', ''r'') g (OProducer OutcomeNotFound) 200 l1 = (True, l2) \<and>
    reserve ''c'' ''r'' 7 300 l2 = Some (Replay (OProducer OutcomeNotFound), l2)"
proof -
  obtain g l1 where r: "reserve ''c'' ''r'' 7 100 (with_epoch ''e'') = Some (Reserved g, l1)"
    by (simp add: reserve_def fresh_reservation_def take_dedup_generation_def with_epoch_def u64_succ_def u64_limit_def)
  from request_applied_once [OF with_epoch_wf r, of "OProducer OutcomeNotFound" 200] r show ?thesis
    by (auto simp: DEDUP_TTL_def)
qed

subsection \<open>Eviction\<close>

lemma fold_min_le:
  fixes key :: "'a \<Rightarrow> 'k::linorder"
  shows "key (fold (\<lambda>y best. if key y < key best then y else best) xs b) \<le> key b \<and>
    list_all (\<lambda>y. key (fold (\<lambda>y best. if key y < key best then y else best) xs b) \<le> key y) xs"
proof (induction xs arbitrary: b)
  case (Cons x xs)
  let ?f = "\<lambda>y best. if key y < key best then y else best"
  from Cons.IH [of "?f x b"] have "key (fold ?f xs (?f x b)) \<le> key (?f x b)"
    "list_all (\<lambda>y. key (fold ?f xs (?f x b)) \<le> key y) xs" by blast+
  moreover have "key (?f x b) \<le> key b" "key (?f x b) \<le> key x" by (auto simp: not_less)
  ultimately show ?case by (auto intro: order_trans)
qed simp

lemma min_by_least: "min_by key xs = Some x \<Longrightarrow> x \<in> set xs \<and> list_all (\<lambda>y. key x \<le> key y) xs"
proof -
  assume m: "min_by key xs = Some x"
  then have "x \<in> set xs" by (rule min_by_in)
  moreover have "list_all (\<lambda>y. key x \<le> key y) xs"
    using m fold_min_le [of key "tl xs" "hd xs"] by (cases xs) auto
  ultimately show ?thesis by blast
qed

text \<open>
  Which pane is evicted over the cap: one that has been read, whenever there is one, and
  among the read ones the one read longest ago (then the least recent, then the least id); only
  if every pane has unread events does one of those go, the one whose oldest unread event is
  the oldest.
\<close>

theorem pane_victim_policy:
  assumes "pane_victim ps = Some v"
  shows "\<exists>p. (v, p) \<in> set ps \<and>
    (if list_ex (\<lambda>(_, q). pa_unread q = []) ps
     then pa_unread p = [] \<and> list_all (\<lambda>(i, q). pa_unread q \<noteq> [] \<or>
       (or_zero (pa_read_at p), pa_latest p, v) \<le> (or_zero (pa_read_at q), pa_latest q, i)) ps
     else list_all (\<lambda>(i, q). (ue_occurred_at (hd (pa_unread p)), ue_seq (hd (pa_unread p)), v) \<le>
       (ue_occurred_at (hd (pa_unread q)), ue_seq (hd (pa_unread q)), i)) ps)"
proof -
  let ?key = "\<lambda>(i, p). (or_zero (pa_read_at p), pa_latest p, i)"
  let ?head = "\<lambda>(i, p). (ue_occurred_at (hd (pa_unread p)), ue_seq (hd (pa_unread p)), i)"
  let ?read = "filter (\<lambda>(_, p). pa_unread p = []) ps"
  show ?thesis
  proof (cases "min_by ?key ?read")
    case (Some x)
    obtain i p where x: "x = (i, p)" by fastforce
    from assms Some have v: "v = i" by (simp add: pane_victim_def x)
    from min_by_least [OF Some] have "(v, p) \<in> set ps" "pa_unread p = []"
      "list_all (\<lambda>(j, q). ?key (v, p) \<le> ?key (j, q)) ?read" unfolding x v by (simp_all add: case_prod_unfold)
    moreover from this have "list_ex (\<lambda>(_, q). pa_unread q = []) ps" by (auto simp: list_ex_iff)
    ultimately show ?thesis by (intro exI [of _ p]) (auto simp: list_all_iff)
  next
    case None
    then have none: "\<not> list_ex (\<lambda>(_, q). pa_unread q = []) ps" by (auto simp: filter_empty_conv list_ex_iff)
    with assms None obtain x where x: "min_by ?head ps = Some x" "v = fst x" by (auto simp: pane_victim_def)
    obtain p where xp: "x = (v, p)" using x(2) by (cases x) simp
    from min_by_least [OF x(1)] have "(v, p) \<in> set ps" "list_all (\<lambda>(j, q). ?head (v, p) \<le> ?head (j, q)) ps"
      unfolding xp by (simp_all add: case_prod_unfold)
    with none show ?thesis by (intro exI [of _ p]) (simp add: case_prod_unfold)
  qed
qed

lemma pane_victim_policy_witness:
  "\<exists>p. pane_victim [(''a'', \<lparr>pa_read_through = 0, pa_latest = 1, pa_unread = [\<lparr>ue_seq = 1, ue_occurred_at = 2,
       ue_severity = Info\<rparr>], pa_read_at = None\<rparr>), (''b'', p)] = Some ''b'' \<and> pa_unread p = []"
proof -
  let ?a = "\<lparr>pa_read_through = 0, pa_latest = 1, pa_unread = [\<lparr>ue_seq = 1, ue_occurred_at = 2, ue_severity = Info\<rparr>], pa_read_at = None\<rparr>"
  let ?b = "\<lparr>pa_read_through = 2, pa_latest = 2, pa_unread = [], pa_read_at = Some 9\<rparr>"
  have v: "pane_victim [(''a'', ?a), (''b'', ?b)] = Some ''b''" by (simp add: pane_victim_def)
  from pane_victim_policy [OF v] v show ?thesis by (intro exI [of _ ?b]) auto
qed

subsection \<open>The ingest gate\<close>

text \<open>
  What the gate accepts: nothing while notifications are off; bells when bells are on and
  OSC notifications when those are on, unless they repeat within the debounce window; command
  completions when that rule is on and matched; keyword matches that matched; plugins always.
\<close>

theorem gate_accepts_iff:
  "evaluate_ingest_gate cfg source = GAccepted \<longleftrightarrow> nc_enabled cfg \<and>
     (case source of
        SBell dup \<Rightarrow> bell_enabled (nc_bell cfg) \<and> \<not> dup
      | SOscNotify dup \<Rightarrow> nc_osc_notify cfg \<and> \<not> dup
      | SCommandComplete matched \<Rightarrow> cc_enabled (nc_command_complete cfg) \<and> matched
      | SKeywordMatch matched \<Rightarrow> matched
      | SPlugin \<Rightarrow> True)"
  by (simp add: evaluate_ingest_gate_def split: ingest_source.split)

end
