(* ===== verification/Layout.thy ===== *)
theory Layout
  imports Prelude
begin

section \<open>Pane layouts\<close>

text \<open>
  \<open>src/src/session/layout.rs\<close>: a tab's panes are the leaves of a tree of splits, kept as a JSON
  value. JSON objects are \<open>BTreeMap\<close>s, here lists sorted by key. Floating-point numbers are an
  abstract type \<open>'f\<close> with \<open>recip n\<close> for \<open>1.0 / n\<close> (\<open>0.5\<close> is \<open>recip 2\<close>): the model never
  computes with them. The UUIDs drawn for new splits are the parameter \<open>uid\<close>, by the position
  in the tree at which one is drawn.
\<close>

subsection \<open>JSON values\<close>

datatype 'f json =
    JNull
  | JBool bool
  | JInt int
  | JFloat 'f
  | JStr string
  | JArr "'f json list"
  | JObj "(string \<times> 'f json) list"

fun obj_put :: "string \<Rightarrow> 'v \<Rightarrow> (string \<times> 'v) list \<Rightarrow> (string \<times> 'v) list" where
  "obj_put k v [] = [(k, v)]"
| "obj_put k v ((k', v') # m) =
     (if k = k' then (k, v) # m else if k < k' then (k, v) # (k', v') # m else (k', v') # obj_put k v m)"

text \<open>\<open>json!\<close> with an object literal.\<close>

definition mk_obj :: "(string \<times> 'f json) list \<Rightarrow> 'f json" where
  "mk_obj kvs = JObj (fold (\<lambda>(k, v). obj_put k v) kvs [])"

fun jget :: "'f json \<Rightarrow> string \<Rightarrow> 'f json option" where
  "jget (JObj m) k = map_of m k"
| "jget _ k = None"

text \<open>\<open>value[k] = v\<close> on an object.\<close>

fun jset :: "string \<Rightarrow> 'f json \<Rightarrow> 'f json \<Rightarrow> 'f json" where
  "jset k v (JObj m) = JObj (obj_put k v m)"
| "jset k v j = j"

fun as_str :: "'f json \<Rightarrow> string option" where
  "as_str (JStr s) = Some s"
| "as_str _ = None"

fun as_array :: "'f json \<Rightarrow> 'f json list option" where
  "as_array (JArr xs) = Some xs"
| "as_array _ = None"

definition get_str :: "'f json \<Rightarrow> string \<Rightarrow> string option" where
  "get_str n k = jget n k \<bind> as_str"

definition kids :: "'f json \<Rightarrow> 'f json list option" where
  "kids n = jget n ''children'' \<bind> as_array"

lemma map_of_obj_put: "map_of (obj_put k v m) = (map_of m)(k \<mapsto> v)"
  by (induction k v m rule: obj_put.induct) (auto simp: fun_eq_iff)

lemma jget_jset_same: "jget n k \<noteq> None \<Longrightarrow> jget (jset k v n) k = Some v"
  by (cases n) (auto simp: map_of_obj_put)

lemma jget_jset_other: "k' \<noteq> k \<Longrightarrow> jget (jset k v n) k' = jget n k'"
  by (cases n) (simp_all add: map_of_obj_put)

lemma get_str_obj: "get_str n k = Some s \<Longrightarrow> \<exists>m. n = JObj m"
  by (cases n) (auto simp: get_str_def)

lemma jget_jset_obj: "get_str n t = Some s \<Longrightarrow> jget (jset k v n) k = Some v"
  by (auto dest!: get_str_obj simp: map_of_obj_put)

lemma kids_smaller: "kids n = Some cs \<Longrightarrow> c \<in> set cs \<Longrightarrow> size c < size n"
proof -
  assume k: "kids n = Some cs" and c: "c \<in> set cs"
  then obtain m where n: "n = JObj m" and "map_of m ''children'' = Some (JArr cs)"
    by (cases n; simp add: kids_def split: bind_splits; cases "the (jget n ''children'')"; auto)
  then have "(''children'', JArr cs) \<in> set m" by (auto dest: map_of_SomeD)
  then have "size_prod (\<lambda>_. 0) size (''children'', JArr cs) \<le> size_list (size_prod (\<lambda>_. 0) size) m"
    by (intro size_list_estimation') auto
  moreover have "size c \<le> size_list size cs" using c by (rule size_list_estimation') simp
  ultimately show ?thesis by (simp add: n)
qed

subsection \<open>Reading a layout\<close>

text \<open>\<open>layout_has_pane\<close> looks at every node's \<open>paneId\<close> and \<open>children\<close>, whatever its type.\<close>

function layout_has_pane :: "'f json \<Rightarrow> string \<Rightarrow> bool" where
  "layout_has_pane n p \<longleftrightarrow> get_str n ''paneId'' = Some p \<or>
     (case kids n of None \<Rightarrow> False | Some cs \<Rightarrow> list_ex (\<lambda>b. b) (map (\<lambda>c. layout_has_pane c p) cs))"
  by pat_completeness auto
termination by (relation "measure (size o fst)") (auto dest: kids_smaller)

function collect_leaf_pane_ids :: "'f json \<Rightarrow> string list" where
  "collect_leaf_pane_ids n =
     (case get_str n ''type'' of
        None \<Rightarrow> []
      | Some t \<Rightarrow>
          if t = ''leaf'' then (case get_str n ''paneId'' of None \<Rightarrow> [] | Some p \<Rightarrow> [p])
          else if t = ''split'' then (case kids n of None \<Rightarrow> [] | Some cs \<Rightarrow> concat (map collect_leaf_pane_ids cs))
          else [])"
  by pat_completeness auto
termination by (relation "measure size") (auto dest: kids_smaller)

definition leaf_kind :: "'f json \<Rightarrow> string" where
  "leaf_kind n = (case get_str n ''kind'' of None \<Rightarrow> ''terminal'' | Some k \<Rightarrow> k)"

function collect_terminal_leaf_pane_ids :: "'f json \<Rightarrow> string list" where
  "collect_terminal_leaf_pane_ids n =
     (case get_str n ''type'' of
        None \<Rightarrow> []
      | Some t \<Rightarrow>
          if t = ''leaf'' then
            (if leaf_kind n = ''terminal'' then (case get_str n ''paneId'' of None \<Rightarrow> [] | Some p \<Rightarrow> [p]) else [])
          else if t = ''split'' then
            (case kids n of None \<Rightarrow> [] | Some cs \<Rightarrow> concat (map collect_terminal_leaf_pane_ids cs))
          else [])"
  by pat_completeness auto
termination by (relation "measure size") (auto dest: kids_smaller)

text \<open>\<open>Iterator::find_map\<close> and \<open>filter_map\<close> over results already computed.\<close>

fun first_some :: "'a option list \<Rightarrow> 'a option" where
  "first_some [] = None"
| "first_some (Some x # xs) = Some x"
| "first_some (None # xs) = first_some xs"

definition all_some :: "'a option list \<Rightarrow> 'a list" where
  "all_some xs = concat (map (\<lambda>x. case x of None \<Rightarrow> [] | Some y \<Rightarrow> [y]) xs)"

function first_leaf_id :: "'f json \<Rightarrow> string option" where
  "first_leaf_id n =
     (case get_str n ''type'' of
        None \<Rightarrow> None
      | Some t \<Rightarrow>
          if t = ''leaf'' then get_str n ''paneId''
          else if t = ''split'' then (case kids n of None \<Rightarrow> None | Some cs \<Rightarrow> first_some (map first_leaf_id cs))
          else None)"
  by pat_completeness auto
termination by (relation "measure size") (auto dest: kids_smaller)

function extract_leaf_from_layout :: "'f json \<Rightarrow> string \<Rightarrow> 'f json option" where
  "extract_leaf_from_layout n p =
     (case get_str n ''type'' of
        None \<Rightarrow> None
      | Some t \<Rightarrow>
          if t = ''leaf'' then
            (case get_str n ''paneId'' of None \<Rightarrow> None | Some q \<Rightarrow> if q = p then Some n else None)
          else if t = ''split'' then
            (case kids n of None \<Rightarrow> None | Some cs \<Rightarrow> first_some (map (\<lambda>c. extract_leaf_from_layout c p) cs))
          else None)"
  by pat_completeness auto
termination by (relation "measure (size o fst)") (auto dest: kids_smaller)

subsection \<open>Removing a pane\<close>

text \<open>\<open>u32::try_from(n).unwrap_or(1)\<close>.\<close>

definition ratio_den :: "nat \<Rightarrow> nat" where
  "ratio_den n = (if n < 2 ^ 32 then n else 1)"

definition even_ratios :: "(nat \<Rightarrow> 'f) \<Rightarrow> nat \<Rightarrow> 'f json" where
  "even_ratios recip n = JArr (replicate n (JFloat (recip (ratio_den n))))"

text \<open>What becomes of a split whose children have been filtered.\<close>

definition rebuild_split :: "(nat \<Rightarrow> 'f) \<Rightarrow> 'f json \<Rightarrow> 'f json list \<Rightarrow> 'f json list \<Rightarrow> 'f json option" where
  "rebuild_split recip n old new =
     (if new = [] then None
      else if length new = length old then Some (jset ''children'' (JArr new) n)
      else if length new = 1 then Some (hd new)
      else Some (jset ''ratios'' (even_ratios recip (length new)) (jset ''children'' (JArr new) n)))"

function remove_pane_from_layout :: "(nat \<Rightarrow> 'f) \<Rightarrow> 'f json \<Rightarrow> string \<Rightarrow> 'f json option" where
  "remove_pane_from_layout recip n p =
     (case get_str n ''type'' of
        None \<Rightarrow> None
      | Some t \<Rightarrow>
          if t = ''leaf'' then
            (case get_str n ''paneId'' of None \<Rightarrow> None | Some q \<Rightarrow> if q = p then None else Some n)
          else if t = ''split'' then
            (case kids n of
               None \<Rightarrow> None
             | Some cs \<Rightarrow> rebuild_split recip n cs (all_some (map (\<lambda>c. remove_pane_from_layout recip c p) cs)))
          else Some n)"
  by pat_completeness auto
termination by (relation "measure (\<lambda>(r, n, p). size n)") (auto dest: kids_smaller)

subsection \<open>The kind of a leaf\<close>

function ensure_leaf_kind :: "'f json \<Rightarrow> 'f json" where
  "ensure_leaf_kind n =
     (case get_str n ''type'' of
        None \<Rightarrow> n
      | Some t \<Rightarrow>
          if t = ''leaf'' then (if jget n ''kind'' = None then jset ''kind'' (JStr ''terminal'') n else n)
          else if t = ''split'' then
            (case kids n of None \<Rightarrow> n | Some cs \<Rightarrow> jset ''children'' (JArr (map ensure_leaf_kind cs)) n)
          else n)"
  by pat_completeness auto
termination by (relation "measure size") (auto dest: kids_smaller)

subsection \<open>Inserting\<close>

definition normalize_split_direction :: "string \<Rightarrow> string" where
  "normalize_split_direction d =
     (if d = ''top'' \<or> d = ''bottom'' \<or> d = ''vertical'' then ''vertical'' else ''horizontal'')"

text \<open>
  The loop over the children of a split: each child with what the recursive call made of it. A
  changed child that became a split along the parent's axis is flattened into the parent.
\<close>

definition spliced :: "string \<Rightarrow> bool \<Rightarrow> 'f json \<Rightarrow> 'f json list" where
  "spliced axis changed u =
     (if changed \<and> get_str u ''type'' = Some ''split'' \<and>
         map_option normalize_split_direction (get_str u ''direction'') = Some axis
      then (case kids u of Some ks \<Rightarrow> ks | None \<Rightarrow> [u])
      else [u])"

fun splice_loop :: "string \<Rightarrow> bool \<Rightarrow> ('f json \<times> 'f json option) list \<Rightarrow> 'f json list \<times> bool" where
  "splice_loop axis found [] = ([], found)"
| "splice_loop axis found ((c, None) # rest) = splice_loop axis found rest"
| "splice_loop axis found ((c, Some u) # rest) =
     (let changed = (found \<or> u \<noteq> c); (out, f) = splice_loop axis changed rest
      in (spliced axis changed u @ out, f))"

definition set_ratio :: "(nat \<Rightarrow> 'f) \<Rightarrow> nat \<Rightarrow> 'f json \<Rightarrow> 'f json" where
  "set_ratio recip n c = jset ''ratio'' (JFloat (recip (ratio_den n))) c"

definition merge_children :: "(nat \<Rightarrow> 'f) \<Rightarrow> 'f json \<Rightarrow> string \<Rightarrow> ('f json \<times> 'f json option) list \<Rightarrow> 'f json" where
  "merge_children recip n axis pairs =
     (let (new, found) = splice_loop axis False pairs; k = length new
      in if \<not> found then n
         else jset ''ratios'' (even_ratios recip k) (jset ''children'' (JArr (map (set_ratio recip k) new)) n))"

text \<open>
  \<open>insert_subtree_into_layout\<close> and \<open>insert_pane_into_layout_inner\<close> are the same traversal with
  a different replacement for the target leaf: \<open>wrap\<close> gets the fresh id of the split and the
  leaf.
\<close>

function insert_at :: "(nat \<Rightarrow> 'f) \<Rightarrow> (string \<Rightarrow> 'f json \<Rightarrow> 'f json) \<Rightarrow> string \<Rightarrow> (nat list \<Rightarrow> string) \<Rightarrow>
    'f json \<Rightarrow> 'f json option" where
  "insert_at recip wrap target uid n =
     (case get_str n ''type'' of
        None \<Rightarrow> None
      | Some t \<Rightarrow>
          if t = ''leaf'' then
            (case get_str n ''paneId'' of
               None \<Rightarrow> None
             | Some p \<Rightarrow> Some (if p = target then wrap (uid []) n else n))
          else if t = ''split'' then
            (case get_str n ''direction'' of
               None \<Rightarrow> None
             | Some d \<Rightarrow>
                 (case kids n of
                    None \<Rightarrow> None
                  | Some cs \<Rightarrow>
                      Some (merge_children recip n (normalize_split_direction d)
                        (map (\<lambda>i. (cs ! i, insert_at recip wrap target (\<lambda>p. uid (i # p)) (cs ! i))) [0..<length cs]))))
          else Some n)"
  by pat_completeness auto
termination by (relation "measure (\<lambda>(r, w, t, u, n). size n)") (auto dest: kids_smaller nth_mem)

definition wrap_subtree :: "(nat \<Rightarrow> 'f) \<Rightarrow> string \<Rightarrow> 'f json \<Rightarrow> string \<Rightarrow> 'f json \<Rightarrow> 'f json" where
  "wrap_subtree recip direction subtree split_id leaf =
     mk_obj [(''type'', JStr ''split''), (''id'', JStr split_id),
       (''direction'', JStr (normalize_split_direction direction)),
       (''children'', JArr (if direction = ''left'' \<or> direction = ''top'' then [subtree, leaf] else [leaf, subtree])),
       (''ratios'', JArr [JFloat (recip 2), JFloat (recip 2)])]"

definition new_leaf :: "string \<Rightarrow> string option \<Rightarrow> string option \<Rightarrow> 'f json" where
  "new_leaf new_pane_id title shell_type =
     (let l = mk_obj [(''type'', JStr ''leaf''), (''paneId'', JStr new_pane_id),
         (''title'', JStr (case title of None \<Rightarrow> ''Terminal'' | Some s \<Rightarrow> s)),
         (''ratio'', JInt 1), (''zoomed'', JBool False)]
      in case shell_type of None \<Rightarrow> l | Some st \<Rightarrow> jset ''shell_type'' (JStr st) l)"

definition wrap_pane :: "(nat \<Rightarrow> 'f) \<Rightarrow> string \<Rightarrow> string \<Rightarrow> string option \<Rightarrow> string option \<Rightarrow> string \<Rightarrow> 'f json \<Rightarrow> 'f json" where
  "wrap_pane recip direction new_pane_id title shell_type split_id leaf =
     mk_obj [(''type'', JStr ''split''), (''id'', JStr split_id), (''direction'', JStr direction),
       (''children'', JArr [leaf, new_leaf new_pane_id title shell_type]),
       (''ratios'', JArr [JFloat (recip 2), JFloat (recip 2)])]"

definition insert_subtree_into_layout ::
    "(nat \<Rightarrow> 'f) \<Rightarrow> (nat list \<Rightarrow> string) \<Rightarrow> 'f json \<Rightarrow> string \<Rightarrow> string \<Rightarrow> 'f json \<Rightarrow> 'f json option" where
  "insert_subtree_into_layout recip uid layout target direction subtree =
     insert_at recip (wrap_subtree recip direction subtree) target uid layout"

definition insert_pane_into_layout_inner ::
    "(nat \<Rightarrow> 'f) \<Rightarrow> (nat list \<Rightarrow> string) \<Rightarrow> 'f json \<Rightarrow> string \<Rightarrow> string \<Rightarrow> string \<Rightarrow> string option \<Rightarrow> string option \<Rightarrow>
     'f json option" where
  "insert_pane_into_layout_inner recip uid layout target direction new_pane_id title shell_type =
     insert_at recip (wrap_pane recip direction new_pane_id title shell_type) target uid layout"

definition insert_pane_into_layout ::
    "(nat \<Rightarrow> 'f) \<Rightarrow> (nat list \<Rightarrow> string) \<Rightarrow> 'f json \<Rightarrow> string \<Rightarrow> string \<Rightarrow> string \<Rightarrow> 'f json option" where
  "insert_pane_into_layout recip uid layout target direction new_pane_id =
     insert_pane_into_layout_inner recip uid layout target direction new_pane_id None None"

definition insert_pane_into_layout_with_info ::
    "(nat \<Rightarrow> 'f) \<Rightarrow> (nat list \<Rightarrow> string) \<Rightarrow> 'f json \<Rightarrow> string \<Rightarrow> string \<Rightarrow> string \<Rightarrow> string \<Rightarrow> string \<Rightarrow> 'f json option" where
  "insert_pane_into_layout_with_info recip uid layout target direction new_pane_id title shell_type =
     insert_pane_into_layout_inner recip uid layout target direction new_pane_id (Some title) (Some shell_type)"

text \<open>The recursive equations apply to any node, so they are used through their cases only.\<close>

declare layout_has_pane.simps [simp del] collect_leaf_pane_ids.simps [simp del]
  collect_terminal_leaf_pane_ids.simps [simp del] first_leaf_id.simps [simp del]
  extract_leaf_from_layout.simps [simp del] remove_pane_from_layout.simps [simp del]
  ensure_leaf_kind.simps [simp del] insert_at.simps [simp del]

end
