(* ===== verification/LayoutProps.thy ===== *)
theory LayoutProps
  imports Layout "HOL-Library.Multiset"
begin

section \<open>Properties of layout edits\<close>

text \<open>
  \<open>layout_ok\<close> is the shape the server builds: leaves with a pane id, splits with a direction and
  at least two children. On such trees every edit is described by what it does to the list of
  pane ids, from left to right, and gives such a tree again.
\<close>

subsection \<open>Well-formed layouts\<close>

inductive layout_ok :: "'f json \<Rightarrow> bool" where
  leaf: "get_str n ''type'' = Some ''leaf'' \<Longrightarrow> get_str n ''paneId'' = Some p \<Longrightarrow> kids n = None \<Longrightarrow> layout_ok n"
| split: "get_str n ''type'' = Some ''split'' \<Longrightarrow> get_str n ''direction'' = Some d \<Longrightarrow>
    get_str n ''paneId'' = None \<Longrightarrow> kids n = Some cs \<Longrightarrow> 2 \<le> length cs \<Longrightarrow>
    (\<And>c. c \<in> set cs \<Longrightarrow> layout_ok c) \<Longrightarrow> layout_ok n"

abbreviation ids :: "'f json \<Rightarrow> string list" where
  "ids \<equiv> collect_leaf_pane_ids"

lemma ids_leaf: "get_str n ''type'' = Some ''leaf'' \<Longrightarrow> get_str n ''paneId'' = Some p \<Longrightarrow> ids n = [p]"
  by (simp add: collect_leaf_pane_ids.simps)

lemma ids_split: "get_str n ''type'' = Some ''split'' \<Longrightarrow> kids n = Some cs \<Longrightarrow> ids n = concat (map ids cs)"
  by (simp add: collect_leaf_pane_ids.simps [of n])

lemma ids_nonempty: "layout_ok n \<Longrightarrow> ids n \<noteq> []"
proof (induction rule: layout_ok.induct)
  case (leaf n p)
  then show ?case by (simp add: ids_leaf)
next
  case (split n d cs)
  then obtain c where "c \<in> set cs" by (cases cs) auto
  with split show ?case by (auto simp: ids_split)
qed

text \<open>Two nodes that agree on the fields a layout reads are alike.\<close>

definition same_node :: "'f json \<Rightarrow> 'f json \<Rightarrow> bool" where
  "same_node m n \<longleftrightarrow> get_str m ''type'' = get_str n ''type'' \<and> get_str m ''direction'' = get_str n ''direction'' \<and>
     get_str m ''paneId'' = get_str n ''paneId''"

lemma same_node_jset:
  "k \<notin> {''type'', ''direction'', ''paneId''} \<Longrightarrow> same_node (jset k v n) n"
  by (simp add: same_node_def get_str_def jget_jset_other [OF not_sym])

lemma kids_jset: "k \<noteq> ''children'' \<Longrightarrow> kids (jset k v n) = kids n"
  by (simp add: kids_def jget_jset_other [OF not_sym])

lemma kids_set: "get_str n ''type'' = Some t \<Longrightarrow> kids (jset ''children'' (JArr cs) n) = Some cs"
  by (simp add: kids_def jget_jset_obj)

lemma ok_same_node: "layout_ok n \<Longrightarrow> same_node m n \<Longrightarrow> kids m = kids n \<Longrightarrow> layout_ok m \<and> ids m = ids n"
proof (induction rule: layout_ok.induct)
  case (leaf n p)
  then show ?case by (auto simp: same_node_def ids_leaf intro: layout_ok.leaf)
next
  case (split n d cs)
  then have m: "get_str m ''type'' = Some ''split''" "get_str m ''direction'' = Some d"
    "get_str m ''paneId'' = None" "kids m = Some cs" by (simp_all add: same_node_def)
  with split show ?case using layout_ok.split [OF m(1-4)] by (auto simp: ids_split)
qed

lemma set_ratio_ok: "layout_ok c \<Longrightarrow> layout_ok (set_ratio recip k c) \<and> ids (set_ratio recip k c) = ids c"
  by (rule ok_same_node) (simp_all add: set_ratio_def same_node_jset kids_jset)

text \<open>A split with new children, and possibly new ratios.\<close>

lemma split_with:
  assumes "get_str n ''type'' = Some ''split''" and "get_str n ''direction'' = Some d" and "get_str n ''paneId'' = None"
    and "2 \<le> length cs" and "list_all layout_ok cs"
  shows "layout_ok (jset ''children'' (JArr cs) n) \<and> ids (jset ''children'' (JArr cs) n) = concat (map ids cs)"
    and "layout_ok (jset ''ratios'' v (jset ''children'' (JArr cs) n)) \<and>
      ids (jset ''ratios'' v (jset ''children'' (JArr cs) n)) = concat (map ids cs)"
proof -
  let ?m = "jset ''children'' (JArr cs) n"
  have m: "get_str ?m ''type'' = Some ''split''" "get_str ?m ''direction'' = Some d" "get_str ?m ''paneId'' = None"
    using assms(1-3) by (simp_all add: get_str_def jget_jset_other)
  have k: "kids ?m = Some cs" using kids_set [OF assms(1)] .
  have "layout_ok ?m" using layout_ok.split [OF m k assms(4)] assms(5) by (simp add: list_all_iff)
  moreover have "ids ?m = concat (map ids cs)" using ids_split [OF m(1) k] .
  ultimately show one: "layout_ok ?m \<and> ids ?m = concat (map ids cs)" ..
  have "same_node (jset ''ratios'' v ?m) ?m" "kids (jset ''ratios'' v ?m) = kids ?m"
    by (simp_all add: same_node_jset kids_jset)
  with one ok_same_node show "layout_ok (jset ''ratios'' v ?m) \<and> ids (jset ''ratios'' v ?m) = concat (map ids cs)"
    by metis
qed

subsection \<open>Removing\<close>

lemma all_some_Cons: "all_some (x # xs) = (case x of None \<Rightarrow> [] | Some y \<Rightarrow> [y]) @ all_some xs"
  by (simp add: all_some_def)

lemma remove_children:
  assumes "\<And>c. c \<in> set cs \<Longrightarrow> (case f c of None \<Rightarrow> filter P (ids c) = [] | Some r \<Rightarrow> layout_ok r \<and> ids r = filter P (ids c))"
  shows "list_all layout_ok (all_some (map f cs)) \<and> concat (map ids (all_some (map f cs))) = filter P (concat (map ids cs))"
  using assms
proof (induction cs)
  case (Cons c cs)
  have "case f c of None \<Rightarrow> filter P (ids c) = [] | Some r \<Rightarrow> layout_ok r \<and> ids r = filter P (ids c)"
    by (rule Cons.prems) simp
  moreover have "list_all layout_ok (all_some (map f cs)) \<and> concat (map ids (all_some (map f cs))) = filter P (concat (map ids cs))"
    by (rule Cons.IH) (rule Cons.prems, simp)
  ultimately show ?case by (cases "f c") (simp_all add: all_some_Cons)
qed (simp add: all_some_def)

text \<open>
  Removing a pane removes exactly that pane: the panes left, in order, are the old ones
  without it; the result is \<open>None\<close> exactly when none is left; and it is again a well-formed
  layout, in particular no split with fewer than two children remains.
\<close>

theorem remove_pane_ids:
  assumes "layout_ok n"
  shows "case remove_pane_from_layout recip n p of
      None \<Rightarrow> filter (\<lambda>q. q \<noteq> p) (ids n) = []
    | Some r \<Rightarrow> layout_ok r \<and> ids r = filter (\<lambda>q. q \<noteq> p) (ids n)"
  using assms
proof (induction rule: layout_ok.induct)
  case (leaf n q)
  then show ?case by (auto simp: remove_pane_from_layout.simps ids_leaf intro: layout_ok.leaf)
next
  case (split n d cs)
  let ?new = "all_some (map (\<lambda>c. remove_pane_from_layout recip c p) cs)"
  have new: "list_all layout_ok ?new" "concat (map ids ?new) = filter (\<lambda>q. q \<noteq> p) (ids n)"
    using remove_children [where cs = cs and f = "\<lambda>c. remove_pane_from_layout recip c p" and P = "\<lambda>q. q \<noteq> p"] split.IH
    by (simp_all add: ids_split [OF split.hyps(1,4)])
  have r: "remove_pane_from_layout recip n p = rebuild_split recip n cs ?new"
    using split.hyps by (simp add: remove_pane_from_layout.simps [of recip n])
  note with_new = split_with [OF split.hyps(1-3), of ?new]
  consider "?new = []" | c where "?new = [c]" | "2 \<le> length ?new"
  proof (cases ?new)
    case (Cons c rest)
    with that show ?thesis by (cases rest) simp_all
  qed (use that in simp)
  then show ?case
  proof cases
    case 1
    then show ?thesis using new(2) by (simp add: r rebuild_split_def)
  next
    case 2
    then show ?thesis using new split.hyps(5) by (simp add: r rebuild_split_def)
  next
    case 3
    then have "?new \<noteq> []" "length ?new \<noteq> 1" by auto
    with with_new [OF 3 new(1)] new(2) show ?thesis by (simp add: r rebuild_split_def del: One_nat_def)
  qed
qed

subsection \<open>A layout for the witnesses\<close>

definition leaf_node :: "string \<Rightarrow> 'f json" where
  "leaf_node p = JObj [(''paneId'', JStr p), (''type'', JStr ''leaf'')]"

definition pair_node :: "string \<Rightarrow> 'f json \<Rightarrow> 'f json \<Rightarrow> 'f json" where
  "pair_node d a b = JObj [(''children'', JArr [a, b]), (''direction'', JStr d), (''type'', JStr ''split'')]"

lemma leaf_node_ok: "layout_ok (leaf_node p)" "ids (leaf_node p) = [p]"
proof -
  have l: "get_str (leaf_node p) ''type'' = Some ''leaf''" "get_str (leaf_node p) ''paneId'' = Some p"
    "kids (leaf_node p) = None"
    by (simp_all add: leaf_node_def get_str_def kids_def)
  show "layout_ok (leaf_node p)" "ids (leaf_node p) = [p]"
    by (rule layout_ok.leaf [OF l], rule ids_leaf [OF l(1,2)])
qed

lemma pair_node_ok: "layout_ok a \<Longrightarrow> layout_ok b \<Longrightarrow> layout_ok (pair_node d a b) \<and> ids (pair_node d a b) = ids a @ ids b"
proof -
  assume ab: "layout_ok a" "layout_ok b"
  have n: "get_str (pair_node d a b) ''type'' = Some ''split''" "get_str (pair_node d a b) ''direction'' = Some d"
    "get_str (pair_node d a b) ''paneId'' = None" "kids (pair_node d a b) = Some [a, b]"
    by (simp_all add: pair_node_def get_str_def kids_def)
  from layout_ok.split [OF n] ab ids_split [OF n(1,4)] show ?thesis by auto
qed

definition sample :: "nat json" where
  "sample = pair_node ''vertical'' (leaf_node ''a'') (pair_node ''horizontal'' (leaf_node ''b'') (leaf_node ''c''))"

lemma sample_ok: "layout_ok sample" "ids sample = [''a'', ''b'', ''c'']"
  by (simp_all add: sample_def leaf_node_ok pair_node_ok)

lemma remove_pane_ids_witness:
  "\<exists>r. remove_pane_from_layout (\<lambda>n. n) sample ''b'' = Some r \<and> layout_ok r \<and> ids r = [''a'', ''c'']"
  using remove_pane_ids [OF sample_ok(1), where recip = "\<lambda>n. n" and p = "''b''"] by (simp add: sample_ok split: option.splits)

subsection \<open>Inserting\<close>

text \<open>What is asked of the node that replaces the target leaf.\<close>

definition wrapper_ok :: "(string \<Rightarrow> 'f json \<Rightarrow> 'f json) \<Rightarrow> string \<Rightarrow> string list \<Rightarrow> bool" where
  "wrapper_ok wrap target new \<longleftrightarrow> 2 \<le> length new \<and>
     (\<forall>sid l. layout_ok l \<and> ids l = [target] \<longrightarrow> layout_ok (wrap sid l) \<and> ids (wrap sid l) = new)"

definition replace_id :: "string \<Rightarrow> string list \<Rightarrow> string list \<Rightarrow> string list" where
  "replace_id target new is = concat (map (\<lambda>i. if i = target then new else [i]) is)"

lemma replace_id_simps [simp]:
  "replace_id t new [] = []" "replace_id t new (i # is) = (if i = t then new else [i]) @ replace_id t new is"
  "replace_id t new (is @ js) = replace_id t new is @ replace_id t new js"
  by (simp_all add: replace_id_def)

lemma replace_id_other: "t \<notin> set is \<Longrightarrow> replace_id t new is = is"
  by (induction "is") auto

lemma replace_id_longer: "2 \<le> length new \<Longrightarrow> length is \<le> length (replace_id t new is) \<and>
    (t \<in> set is \<longrightarrow> length is < length (replace_id t new is))"
  by (induction "is") auto

lemma spliced_ok: "layout_ok u \<Longrightarrow> list_all layout_ok (spliced axis ch u) \<and>
    concat (map ids (spliced axis ch u)) = ids u \<and> spliced axis ch u \<noteq> []"
proof (cases "spliced axis ch u = [u]")
  case False
  assume u: "layout_ok u"
  from False obtain ks where k: "get_str u ''type'' = Some ''split''" "kids u = Some ks" "spliced axis ch u = ks"
    by (auto simp: spliced_def split: if_splits option.splits)
  from u k show ?thesis by (cases rule: layout_ok.cases) (auto simp: list_all_iff ids_split)
qed simp

lemma splice_loop_ok:
  "list_all (\<lambda>(c, r). layout_ok c \<and> (\<exists>u. r = Some u \<and> layout_ok u)) ps \<Longrightarrow>
     (case splice_loop axis found ps of (out, f) \<Rightarrow>
        list_all layout_ok out \<and> concat (map ids out) = concat (map (\<lambda>(_, r). ids (the r)) ps) \<and>
        length ps \<le> length out \<and> (f \<longleftrightarrow> found \<or> list_ex (\<lambda>(c, r). the r \<noteq> c) ps))"
proof (induction axis found ps rule: splice_loop.induct)
  case (3 axis found c u rest)
  let ?ch = "found \<or> u \<noteq> c"
  obtain out f where rest: "splice_loop axis ?ch rest = (out, f)" by fastforce
  from "3.prems" have u: "layout_ok u"
    and r: "list_all (\<lambda>(c, r). layout_ok c \<and> (\<exists>u. r = Some u \<and> layout_ok u)) rest" by simp_all
  from "3.IH" [OF refl r] rest have ih: "list_all layout_ok out" "concat (map ids out) = concat (map (\<lambda>(_, r). ids (the r)) rest)"
    "length rest \<le> length out" "f \<longleftrightarrow> ?ch \<or> list_ex (\<lambda>(c, r). the r \<noteq> c) rest" by simp_all
  from spliced_ok [OF u, where axis = axis and ch = ?ch] have s: "list_all layout_ok (spliced axis ?ch u)"
    "concat (map ids (spliced axis ?ch u)) = ids u" "1 \<le> length (spliced axis ?ch u)"
    by (auto simp: Suc_le_eq)
  with ih rest show ?case by (auto simp: Let_def)
qed auto

lemma merge_children_ok:
  assumes n: "get_str n ''type'' = Some ''split''" "get_str n ''direction'' = Some d" "get_str n ''paneId'' = None"
    and k: "kids n = Some cs" "2 \<le> length cs" "list_all layout_ok cs"
    and us: "length us = length cs" "list_all layout_ok us"
  shows "let r = merge_children recip n axis (zip cs (map Some us)) in
    if us = cs then r = n else layout_ok r \<and> ids r = concat (map ids us)"
proof -
  let ?ps = "zip cs (map Some us)"
  have ps: "list_all (\<lambda>(c, r). layout_ok c \<and> (\<exists>u. r = Some u \<and> layout_ok u)) ?ps"
    using k(3) us by (auto simp: list_all_iff set_zip)
  have "map (\<lambda>(_, r). ids (the r)) ?ps = map ids us" by (rule nth_equalityI) (simp_all add: us(1))
  then have uids: "concat (map (\<lambda>(_, r). ids (the r)) ?ps) = concat (map ids us)" by simp
  have "list_ex (\<lambda>(c, r). the r \<noteq> c) ?ps \<longleftrightarrow> (\<exists>i<length cs. us ! i \<noteq> cs ! i)"
    using us(1) by (simp add: list_ex_length cong: conj_cong)
  also have "\<dots> \<longleftrightarrow> us \<noteq> cs" using us(1) by (auto simp: list_eq_iff_nth_eq)
  finally have ex: "list_ex (\<lambda>(c, r). the r \<noteq> c) ?ps \<longleftrightarrow> us \<noteq> cs" .
  obtain out f where o: "splice_loop axis False ?ps = (out, f)" by fastforce
  from splice_loop_ok [OF ps, where axis = axis and found = False] o uids ex have out: "list_all layout_ok out"
    "concat (map ids out) = concat (map ids us)" "length cs \<le> length out" "f \<longleftrightarrow> us \<noteq> cs"
    using us(1) by auto
  let ?out = "map (set_ratio recip (length out)) out"
  have "list_all layout_ok ?out" using out(1) by (auto simp: list_all_iff set_ratio_ok)
  moreover have "map ids ?out = map ids out" using out(1) by (auto simp: list_all_iff set_ratio_ok)
  then have "concat (map ids ?out) = concat (map ids us)" using out(2) by metis
  ultimately show ?thesis
    using split_with(2) [OF n, of ?out "even_ratios recip (length out)"] k(2) out(3,4) o
    by (auto simp: merge_children_def Let_def)
qed

text \<open>The traversal, for any replacement of the target leaf that is well-formed.\<close>

lemma insert_at_ok:
  assumes w: "wrapper_ok wrap t new"
  shows "layout_ok n \<Longrightarrow> \<exists>r. insert_at recip wrap t uid n = Some r \<and>
    (if t \<in> set (ids n) then layout_ok r \<and> ids r = replace_id t new (ids n) else r = n)"
proof (induction arbitrary: uid rule: layout_ok.induct)
  case (leaf n p)
  then have n: "layout_ok n" "ids n = [p]" by (auto intro: layout_ok.leaf simp: ids_leaf)
  from w n have "p = t \<Longrightarrow> layout_ok (wrap sid n) \<and> ids (wrap sid n) = new" for sid
    unfolding wrapper_ok_def by blast
  with leaf n show ?case by (simp add: insert_at.simps [of recip])
next
  case (split n d cs)
  define us where "us = map (\<lambda>i. the (insert_at recip wrap t (\<lambda>p. uid (i # p)) (cs ! i))) [0..<length cs]"
  have u: "insert_at recip wrap t (\<lambda>p. uid (i # p)) (cs ! i) = Some (us ! i)"
    "if t \<in> set (ids (cs ! i)) then layout_ok (us ! i) \<and> ids (us ! i) = replace_id t new (ids (cs ! i)) else us ! i = cs ! i"
    if "i < length cs" for i
    using split.IH [OF nth_mem [OF that], of "\<lambda>p. uid (i # p)"] that by (auto simp: us_def)
  have len: "length us = length cs" by (simp add: us_def)
  have ok_cs: "list_all layout_ok cs" using split.hyps(6) by (simp add: list_all_iff)
  have ok_us: "list_all layout_ok us"
    unfolding list_all_length len using u(2) ok_cs by (fastforce simp: list_all_length split: if_splits)
  have each: "ids (us ! i) = replace_id t new (ids (cs ! i))" if "i < length cs" for i
    using u(2) [OF that] by (auto simp: replace_id_other split: if_splits)
  have "map ids us = map (\<lambda>c. replace_id t new (ids c)) cs"
    by (rule nth_equalityI) (simp_all add: len each)
  moreover have "concat (map (\<lambda>c. replace_id t new (ids c)) xs) = replace_id t new (concat (map ids xs))" for xs :: "'a json list"
    by (induction xs) simp_all
  ultimately have all: "concat (map ids us) = replace_id t new (ids n)"
    by (simp add: ids_split [OF split.hyps(1,4)])
  have same: "us = cs \<longleftrightarrow> t \<notin> set (ids n)"
  proof
    assume "us = cs"
    with all have "replace_id t new (ids n) = ids n" by (simp add: ids_split [OF split.hyps(1,4)])
    then show "t \<notin> set (ids n)" using replace_id_longer [of new "ids n" t] w by (auto simp: wrapper_ok_def)
  next
    assume "t \<notin> set (ids n)"
    then have "t \<notin> set (ids (cs ! i))" if "i < length cs" for i
      using that by (auto simp: ids_split [OF split.hyps(1,4)])
    with u(2) show "us = cs" by (intro nth_equalityI) (simp_all add: len)
  qed
  have "map (\<lambda>i. (cs ! i, insert_at recip wrap t (\<lambda>p. uid (i # p)) (cs ! i))) [0..<length cs] = zip cs (map Some us)"
    by (rule nth_equalityI) (simp_all add: len u(1))
  then have "insert_at recip wrap t uid n = Some (merge_children recip n (normalize_split_direction d) (zip cs (map Some us)))"
    using split.hyps by (simp add: insert_at.simps [of recip wrap t uid n])
  with merge_children_ok [OF split.hyps(1-5) ok_cs len ok_us, where recip = recip and axis = "normalize_split_direction d"] same all
  show ?case by (auto simp: Let_def)
qed

lemma get_mk_obj: "jget (mk_obj kvs) k = map_of (rev kvs) k"
proof -
  have "map_of (fold (\<lambda>(k, v). obj_put k v) kvs m) k = (map_of m ++ map_of (rev kvs)) k" for m :: "(string \<times> 'a json) list"
  proof (induction kvs arbitrary: m)
    case (Cons kv kvs)
    then show ?case by (cases kv) (auto simp: map_of_obj_put map_add_def split: option.splits)
  qed simp
  then show ?thesis by (simp add: mk_obj_def)
qed

lemma new_leaf_ok: "layout_ok (new_leaf p title st)" "ids (new_leaf p title st) = [p]"
proof -
  have l: "get_str (new_leaf p title st) ''type'' = Some ''leaf''" "get_str (new_leaf p title st) ''paneId'' = Some p"
    "kids (new_leaf p title st) = None"
    by (simp_all add: new_leaf_def get_str_def kids_def get_mk_obj jget_jset_other Let_def split: option.split)
  show "layout_ok (new_leaf p title st)" "ids (new_leaf p title st) = [p]"
    by (rule layout_ok.leaf [OF l], rule ids_leaf [OF l(1,2)])
qed

lemma mk_split_ok:
  assumes "list_all layout_ok [a, b]"
  shows "layout_ok (mk_obj [(''type'', JStr ''split''), (''id'', JStr i), (''direction'', JStr d), (''children'', JArr [a, b]),
      (''ratios'', r)])" (is "layout_ok ?n")
    and "ids (mk_obj [(''type'', JStr ''split''), (''id'', JStr i), (''direction'', JStr d), (''children'', JArr [a, b]),
      (''ratios'', r)]) = ids a @ ids b"
proof -
  have n: "get_str ?n ''type'' = Some ''split''" "get_str ?n ''direction'' = Some d" "get_str ?n ''paneId'' = None"
    "kids ?n = Some [a, b]" by (simp_all add: get_str_def kids_def get_mk_obj)
  show "layout_ok ?n" using layout_ok.split [OF n] assms by auto
  show "ids ?n = ids a @ ids b" using ids_split [OF n(1,4)] by simp
qed

lemma wrap_subtree_wrapper:
  assumes "layout_ok s"
  shows "wrapper_ok (wrap_subtree recip d s) t (if d = ''left'' \<or> d = ''top'' then ids s @ [t] else t # ids s)"
proof -
  have "1 \<le> length (ids s)" using ids_nonempty [OF assms] by (cases "ids s") simp_all
  then show ?thesis using assms by (simp add: wrapper_ok_def wrap_subtree_def mk_split_ok)
qed

lemma wrap_pane_wrapper: "wrapper_ok (wrap_pane recip d p title st) t [t, p]"
  by (simp add: wrapper_ok_def wrap_pane_def mk_split_ok new_leaf_ok)

text \<open>
  Splitting a pane puts the new pane right after it and changes the order of no other pane;
  the result is a well-formed layout (nested splits along the same axis are flattened, but no
  pane is lost or duplicated by that). A target that is not there leaves the layout as it is.
\<close>

theorem insert_pane_ids:
  assumes "layout_ok n"
  shows "\<exists>r. insert_pane_into_layout_inner recip uid n t d p title st = Some r \<and>
    (if t \<in> set (ids n) then layout_ok r \<and> ids r = replace_id t [t, p] (ids n) else r = n)"
  unfolding insert_pane_into_layout_inner_def by (rule insert_at_ok [OF wrap_pane_wrapper assms])

lemma insert_pane_ids_witness:
  "\<exists>r. insert_pane_into_layout_inner (\<lambda>n. n) (\<lambda>_. ''s'') sample ''b'' ''horizontal'' ''new'' None None = Some r \<and>
    ids r = [''a'', ''b'', ''new'', ''c'']"
  using insert_pane_ids [OF sample_ok(1), where recip = "\<lambda>n. n" and uid = "\<lambda>_. ''s''" and t = "''b''"
      and d = "''horizontal''" and p = "''new''" and title = None and st = None]
  by (auto simp: sample_ok)

subsection \<open>Moving a pane\<close>

lemma first_some_None: "first_some xs = None \<longleftrightarrow> list_all (\<lambda>x. x = None) xs"
  by (induction xs rule: first_some.induct) auto

lemma first_some_in: "first_some xs = Some y \<Longrightarrow> Some y \<in> set xs"
  by (induction xs rule: first_some.induct) auto

lemma extract_leaf_ok:
  "layout_ok n \<Longrightarrow> case extract_leaf_from_layout n p of
      None \<Rightarrow> p \<notin> set (ids n) | Some l \<Rightarrow> p \<in> set (ids n) \<and> layout_ok l \<and> ids l = [p]"
proof (induction rule: layout_ok.induct)
  case (leaf n q)
  then show ?case by (auto simp: extract_leaf_from_layout.simps [of n] ids_leaf intro: layout_ok.leaf)
next
  case (split n d cs)
  have e: "extract_leaf_from_layout n p = first_some (map (\<lambda>c. extract_leaf_from_layout c p) cs)"
    using split.hyps by (simp add: extract_leaf_from_layout.simps [of n])
  show ?case
  proof (cases "extract_leaf_from_layout n p")
    case None
    then have "list_all (\<lambda>c. extract_leaf_from_layout c p = None) cs"
      unfolding e first_some_None by (simp add: list_all_iff)
    with split.IH None show ?thesis by (fastforce simp: ids_split [OF split.hyps(1,4)] list_all_iff)
  next
    case (Some l)
    then have "Some l \<in> set (map (\<lambda>c. extract_leaf_from_layout c p) cs)" unfolding e by (rule first_some_in)
    then obtain c where "c \<in> set cs" "extract_leaf_from_layout c p = Some l" by auto
    with split.IH Some show ?thesis by (fastforce simp: ids_split [OF split.hyps(1,4)])
  qed
qed

lemma replace_id_mset:
  "distinct is \<Longrightarrow> t \<in> set is \<Longrightarrow> mset (replace_id t new is) = mset is - {#t#} + mset new"
proof (induction "is")
  case (Cons i "is")
  show ?case
  proof (cases "i = t")
    case True
    with Cons.prems show ?thesis by (simp add: replace_id_other)
  next
    case False
    with Cons show ?thesis by simp
  qed
qed simp

text \<open>
  Moving a pane within a layout of distinct panes (extract the leaf, remove it, insert it
  beside another pane) always succeeds, and afterwards the layout is well-formed and holds
  exactly the same panes, each once.
\<close>

theorem move_pane_keeps_panes:
  assumes "layout_ok n" and "distinct (ids n)" and "p \<in> set (ids n)" and "t \<in> set (ids n)" and "p \<noteq> t"
  shows "\<exists>l r r'. extract_leaf_from_layout n p = Some l \<and> remove_pane_from_layout recip n p = Some r \<and>
    insert_subtree_into_layout recip uid r t d l = Some r' \<and> layout_ok r' \<and> mset (ids r') = mset (ids n)"
proof -
  from extract_leaf_ok [OF assms(1), of p] assms(3) obtain l where
    l: "extract_leaf_from_layout n p = Some l" "layout_ok l" "ids l = [p]" by (auto split: option.splits)
  have t: "t \<in> set (filter (\<lambda>q. q \<noteq> p) (ids n))" using assms(4,5) by simp
  then have "filter (\<lambda>q. q \<noteq> p) (ids n) \<noteq> []" by (metis empty_iff list.set(1))
  then obtain r where r: "remove_pane_from_layout recip n p = Some r" "layout_ok r" "ids r = filter (\<lambda>q. q \<noteq> p) (ids n)"
    using remove_pane_ids [OF assms(1), where recip = recip and p = p]
    by (cases "remove_pane_from_layout recip n p") simp_all
  define new where "new = (if d = ''left'' \<or> d = ''top'' then ids l @ [t] else t # ids l)"
  from insert_at_ok [OF wrap_subtree_wrapper [OF l(2), where recip = recip and d = d and t = t] r(2), where recip = recip and uid = uid] obtain r' where
    r': "insert_subtree_into_layout recip uid r t d l = Some r'" "layout_ok r'" "ids r' = replace_id t new (ids r)"
    using t r(3) by (auto simp: insert_subtree_into_layout_def new_def)
  have "distinct (ids r)" "t \<in> set (ids r)" using assms(2) r(3) t by simp_all
  then have "mset (ids r') = mset (ids r) - {#t#} + mset new" by (simp add: r'(3) replace_id_mset)
  also have "\<dots> = mset (ids r) + {#p#}" using \<open>t \<in> set (ids r)\<close> by (simp add: new_def l(3))
  also have "ids r = remove1 p (ids n)"
    using assms(2) by (simp add: r(3) distinct_remove1_removeAll removeAll_filter_not_eq eq_commute)
  finally have "mset (ids r') = mset (ids n)" using assms(3) by simp
  with l(1) r(1) r' show ?thesis by blast
qed

lemma move_pane_keeps_panes_witness:
  "\<exists>l r r'. extract_leaf_from_layout sample ''a'' = Some l \<and> remove_pane_from_layout (\<lambda>n. n) sample ''a'' = Some r \<and>
    insert_subtree_into_layout (\<lambda>n. n) (\<lambda>_. ''s'') r ''c'' ''left'' l = Some r' \<and>
    mset (ids r') = {#''a'', ''b'', ''c''#}"
proof -
  have "distinct (ids sample)" "''a'' \<in> set (ids sample)" "''c'' \<in> set (ids sample)" by (simp_all add: sample_ok)
  from move_pane_keeps_panes [OF sample_ok(1) this, where recip = "\<lambda>n. n" and uid = "\<lambda>_. ''s''" and d = "''left''"]
  show ?thesis by (auto simp: sample_ok)
qed

subsection \<open>Queries, and the kind of a leaf\<close>

text \<open>
  The two searches agree with the list of panes: a layout has a pane exactly when its id is
  among the leaves' ids, and the first leaf is the head of that list.
\<close>

theorem layout_queries_agree:
  assumes "layout_ok n"
  shows "(layout_has_pane n p \<longleftrightarrow> p \<in> set (ids n)) \<and> first_leaf_id n = Some (hd (ids n))"
  using assms
proof (induction rule: layout_ok.induct)
  case (leaf n q)
  then have "ids n = [q]" by (simp add: ids_leaf)
  with leaf show ?case by (auto simp: first_leaf_id.simps [of n] layout_has_pane.simps [of n])
next
  case (split n d cs)
  then have ids: "ids n = concat (map ids cs)" by (simp add: ids_split)
  have "layout_has_pane n p \<longleftrightarrow> list_ex (\<lambda>c. layout_has_pane c p) cs"
    using split.hyps by (simp add: layout_has_pane.simps [of n] list_ex_iff)
  then have "layout_has_pane n p \<longleftrightarrow> p \<in> set (ids n)" using split.IH by (auto simp: ids list_ex_iff)
  moreover obtain c rest where cs: "cs = c # rest" using split.hyps(5) by (cases cs) auto
  then have "first_leaf_id c = Some (hd (ids c))" "ids c \<noteq> []" using split.IH split.hyps(6) by (auto dest: ids_nonempty)
  then have "first_leaf_id n = Some (hd (ids n))"
    using split.hyps by (simp add: first_leaf_id.simps [of n] ids cs)
  ultimately show ?case by blast
qed

lemma layout_queries_agree_witness:
  "layout_has_pane sample ''b'' \<and> \<not> layout_has_pane sample ''x'' \<and> first_leaf_id sample = Some ''a''"
  using layout_queries_agree [OF sample_ok(1), where p = "''b''"] layout_queries_agree [OF sample_ok(1), where p = "''x''"]
  by (simp add: sample_ok)

abbreviation terminal_ids :: "'f json \<Rightarrow> string list" where
  "terminal_ids \<equiv> collect_terminal_leaf_pane_ids"

lemma terminal_split:
  "get_str n ''type'' = Some ''split'' \<Longrightarrow> kids n = Some cs \<Longrightarrow> terminal_ids n = concat (map terminal_ids cs)"
  by (simp add: collect_terminal_leaf_pane_ids.simps [of n])

text \<open>Every leaf carries a kind.\<close>

inductive kinds_present :: "'f json \<Rightarrow> bool" where
  kleaf: "get_str n ''type'' = Some ''leaf'' \<Longrightarrow> jget n ''kind'' \<noteq> None \<Longrightarrow> kinds_present n"
| ksplit: "get_str n ''type'' = Some ''split'' \<Longrightarrow> kids n = Some cs \<Longrightarrow> (\<And>c. c \<in> set cs \<Longrightarrow> kinds_present c) \<Longrightarrow>
    kinds_present n"

inductive_cases kinds_presentE: "kinds_present n"

text \<open>
  Tagging the leaves completes an old layout and does nothing else: afterwards every leaf has
  a kind, the layout is well-formed with the same panes in the same order, and the same panes
  count as terminals (so the same panes own a PTY).
\<close>

theorem ensure_leaf_kind_completes:
  assumes "layout_ok n"
  shows "kinds_present (ensure_leaf_kind n) \<and> layout_ok (ensure_leaf_kind n) \<and>
    ids (ensure_leaf_kind n) = ids n \<and> terminal_ids (ensure_leaf_kind n) = terminal_ids n"
  using assms
proof (induction rule: layout_ok.induct)
  case (leaf n p)
  have n: "layout_ok n" using layout_ok.leaf [OF leaf] .
  let ?m = "jset ''kind'' (JStr ''terminal'') n"
  show ?case
  proof (cases "jget n ''kind''")
    case None
    have "same_node ?m n" "kids ?m = kids n" by (simp_all add: same_node_jset kids_jset)
    from ok_same_node [OF n this] have "layout_ok ?m" "ids ?m = ids n" by blast+
    moreover have "get_str ?m ''type'' = Some ''leaf''" "get_str ?m ''paneId'' = Some p"
      using leaf by (simp_all add: get_str_def jget_jset_other)
    moreover have "jget ?m ''kind'' = Some (JStr ''terminal'')" using jget_jset_obj [OF leaf(1)] .
    ultimately show ?thesis using leaf None
      by (auto simp: ensure_leaf_kind.simps [of n] collect_terminal_leaf_pane_ids.simps [of n]
          collect_terminal_leaf_pane_ids.simps [of ?m] leaf_kind_def get_str_def [of _ "''kind''"] intro: kleaf)
  next
    case (Some k)
    with leaf n show ?thesis by (auto simp: ensure_leaf_kind.simps [of n] intro: kleaf)
  qed
next
  case (split n d cs)
  let ?new = "map ensure_leaf_kind cs"
  let ?m = "jset ''children'' (JArr ?new) n"
  have e: "ensure_leaf_kind n = ?m" using split.hyps by (simp add: ensure_leaf_kind.simps [of n])
  have "list_all layout_ok ?new" "2 \<le> length ?new" using split by (auto simp: list_all_iff)
  from split_with(1) [OF split.hyps(1-3) this(2,1)] have m: "layout_ok ?m" "ids ?m = concat (map ids ?new)" by blast+
  have t: "get_str ?m ''type'' = Some ''split''" using split.hyps(1) by (simp add: get_str_def jget_jset_other)
  have k: "kids ?m = Some ?new" by (rule kids_set [OF split.hyps(1)])
  have "map ids ?new = map ids cs" "map terminal_ids ?new = map terminal_ids cs" using split.IH by simp_all
  then have "ids ?m = ids n" "terminal_ids ?m = terminal_ids n"
    using m(2) terminal_split [OF t k] terminal_split [OF split.hyps(1,4)] ids_split [OF split.hyps(1,4)] by metis+
  moreover have "kinds_present ?m" by (rule ksplit [OF t k]) (use split.IH in auto)
  ultimately show ?case using m(1) e by simp
qed

lemma ensure_leaf_kind_completes_witness:
  "kinds_present (ensure_leaf_kind sample) \<and> ids (ensure_leaf_kind sample) = [''a'', ''b'', ''c'']"
  using ensure_leaf_kind_completes [OF sample_ok(1)] by (simp add: sample_ok)

text \<open>Once every leaf has a kind, tagging again changes no leaf.\<close>

lemma ensure_leaf_kind_stable: "get_str n ''type'' = Some ''leaf'' \<Longrightarrow> kinds_present n \<Longrightarrow> ensure_leaf_kind n = n"
  by (auto elim: kinds_presentE simp: ensure_leaf_kind.simps [of n])

end
