(* ===== verification/Expiry.thy ===== *)
theory Expiry
  imports Prelude
begin

section \<open>Clocks, and stores whose entries are issued, checked and withdrawn\<close>

text \<open>
  The access-control stores (login sessions, verification codes, agent tokens) read a monotonic
  clock (\<open>Instant\<close>, here nanoseconds) or the wall clock (seconds since the epoch). They share
  a contract, stated by the locale \<open>revocable\<close>: a credential that is no longer live stays so
  until it is issued again, and only a live one is granted.
\<close>

type_synonym instant = nat
type_synonym unix_secs = nat

definition NANOS :: nat where
  "NANOS = 1000000000"

text \<open>\<open>Duration::from_secs\<close>, and \<open>Instant::duration_since\<close>, which saturates at zero.\<close>

definition from_secs :: "nat \<Rightarrow> nat" where
  "from_secs n = n * NANOS"

definition duration_since :: "instant \<Rightarrow> instant \<Rightarrow> nat" where
  "duration_since a b = a - b"

definition as_secs :: "nat \<Rightarrow> nat" where
  "as_secs d = d div NANOS"

definition u64_saturating_mul :: "nat \<Rightarrow> nat \<Rightarrow> nat" where
  "u64_saturating_mul a b = min (a * b) (u64_limit - 1)"

definition u64_saturating_add :: "nat \<Rightarrow> nat \<Rightarrow> nat" where
  "u64_saturating_add a b = min (a + b) (u64_limit - 1)"

lemma set_keys_al_del: "fst ` set (al_del k m) = fst ` set m - {k}"
  by (force simp: al_del_def)

lemma set_keys_filter: "fst ` set (filter P m) \<subseteq> fst ` set m"
  by auto

lemma list_all_al_put: "list_all P m \<Longrightarrow> P (k, v) \<Longrightarrow> list_all P (al_put k v m)"
  by (induction m) auto

lemma list_all_al_del: "list_all P m \<Longrightarrow> list_all P (al_del k m)"
  by (simp add: al_del_def list_all_iff)

lemma list_all_filter: "list_all P m \<Longrightarrow> list_all P (filter Q m)"
  by (simp add: list_all_iff)

lemma list_all_lookup: "list_all P m \<Longrightarrow> map_of m k = Some v \<Longrightarrow> P (k, v)"
  by (auto simp: list_all_iff dest: map_of_SomeD)

text \<open>A sequence of operations, with the results they return.\<close>

fun run_steps :: "('op \<Rightarrow> 's \<Rightarrow> 'r \<times> 's) \<Rightarrow> 'op list \<Rightarrow> 's \<Rightarrow> ('op \<times> 'r) list \<times> 's" where
  "run_steps step [] s = ([], s)"
| "run_steps step (op # ops) s =
     (let (r, s') = step op s; (rs, s'') = run_steps step ops s' in ((op, r) # rs, s''))"

lemma run_steps_Cons:
  "run_steps step (op # ops) s =
     ((op, fst (step op s)) # fst (run_steps step ops (snd (step op s))), snd (run_steps step ops (snd (step op s))))"
  by (simp split: prod.splits)

lemma run_steps_append:
  "run_steps step (xs @ ys) s =
     (fst (run_steps step xs s) @ fst (run_steps step ys (snd (run_steps step xs s))),
      snd (run_steps step ys (snd (run_steps step xs s))))"
  by (induction xs arbitrary: s) (simp_all add: run_steps_Cons del: run_steps.simps(2))

locale revocable =
  fixes step :: "'op \<Rightarrow> 's \<Rightarrow> 'r \<times> 's"
    and inv :: "'s \<Rightarrow> bool"
    and live :: "'k \<Rightarrow> 's \<Rightarrow> bool"
    and issues :: "'k \<Rightarrow> 'op \<Rightarrow> bool"
    and grants :: "'k \<Rightarrow> 'op \<Rightarrow> 'r \<Rightarrow> bool"
  assumes inv_step: "inv s \<Longrightarrow> inv (snd (step op s))"
    and dead_stays_dead: "inv s \<Longrightarrow> \<not> live k s \<Longrightarrow> \<not> issues k op \<Longrightarrow> \<not> live k (snd (step op s))"
    and granted_is_live: "inv s \<Longrightarrow> grants k op (fst (step op s)) \<Longrightarrow> live k s"
begin

lemma inv_run: "inv s \<Longrightarrow> inv (snd (run_steps step ops s))"
  by (induction ops arbitrary: s) (simp_all add: run_steps_Cons inv_step del: run_steps.simps(2))

lemma dead_run:
  "inv s \<Longrightarrow> \<not> live k s \<Longrightarrow> list_all (\<lambda>op. \<not> issues k op) ops \<Longrightarrow>
     \<not> live k (snd (run_steps step ops s)) \<and> list_all (\<lambda>(op, r). \<not> grants k op r) (fst (run_steps step ops s))"
proof (induction ops arbitrary: s)
  case (Cons op ops)
  from Cons.prems have "\<not> live k (snd (step op s))" by (intro dead_stays_dead) simp_all
  with Cons show ?case using granted_is_live inv_step by (auto simp: run_steps_Cons simp del: run_steps.simps(2))
qed simp

lemma never_granted:
  "inv s \<Longrightarrow> \<not> live k s \<Longrightarrow> list_all (\<lambda>op. \<not> issues k op) ops \<Longrightarrow>
     list_all (\<lambda>(op, r). \<not> grants k op r) (fst (run_steps step ops s))"
  using dead_run by blast

end

end
