(* ===== verification/StrOps.thy ===== *)
theory StrOps
  imports Utf8
begin

unbundle bit_operations_syntax

section \<open>The string operations the access-control code uses\<close>

text \<open>
  Trimming, splitting, prefixes, ASCII case and number parsing of the standard library's \<open>str\<close>,
  its UTF-8 bytes, and the comparison \<open>constant_time_eq\<close> of \<open>auth/mod.rs\<close> with the proof that
  it decides equality.
\<close>

type_synonym u32 = "32 word"

subsection \<open>Trimming, splitting, prefixes\<close>

text \<open>\<open>char::is_whitespace\<close>: the Unicode property \<open>White_Space\<close>.\<close>

definition is_whitespace :: "rchar \<Rightarrow> bool" where
  "is_whitespace c \<longleftrightarrow> (9 \<le> c \<and> c \<le> 13) \<or> c = 32 \<or> c = 0x85 \<or> c = 0xA0 \<or> c = 0x1680 \<or>
     (0x2000 \<le> c \<and> c \<le> 0x200A) \<or> c = 0x2028 \<or> c = 0x2029 \<or> c = 0x202F \<or> c = 0x205F \<or> c = 0x3000"

definition trim :: "rstring \<Rightarrow> rstring" where
  "trim s = rev (dropWhile is_whitespace (rev (dropWhile is_whitespace s)))"

fun split_on :: "rchar \<Rightarrow> rstring \<Rightarrow> rstring list" where
  "split_on c [] = [[]]"
| "split_on c (x # s) =
     (if x = c then [] # split_on c s
      else case split_on c s of p # ps \<Rightarrow> (x # p) # ps | [] \<Rightarrow> [[x]])"

fun split_once :: "rchar \<Rightarrow> rstring \<Rightarrow> (rstring \<times> rstring) option" where
  "split_once c [] = None"
| "split_once c (x # s) =
     (if x = c then Some ([], s)
      else map_option (\<lambda>(a, b). (x # a, b)) (split_once c s))"

fun strip_prefix :: "rstring \<Rightarrow> rstring \<Rightarrow> rstring option" where
  "strip_prefix [] s = Some s"
| "strip_prefix (p # ps) [] = None"
| "strip_prefix (p # ps) (x # s) = (if p = x then strip_prefix ps s else None)"

definition starts_with :: "rstring \<Rightarrow> rstring \<Rightarrow> bool" where
  "starts_with s p \<longleftrightarrow> strip_prefix p s \<noteq> None"

definition to_ascii_lower :: "rchar \<Rightarrow> rchar" where
  "to_ascii_lower c = (if 65 \<le> c \<and> c \<le> 90 then c + 32 else c)"

definition eq_ignore_ascii_case :: "rstring \<Rightarrow> rstring \<Rightarrow> bool" where
  "eq_ignore_ascii_case a b \<longleftrightarrow> map to_ascii_lower a = map to_ascii_lower b"

text \<open>\<open>parse::<uN>()\<close>: an optional \<open>+\<close>, then digits; \<open>limit\<close> is the exclusive bound of the type.\<close>

definition u32_limit :: nat where
  "u32_limit = 2 ^ 32"

definition parse_unsigned :: "nat \<Rightarrow> rstring \<Rightarrow> nat option" where
  "parse_unsigned limit s =
     (let ds = (case s of c # t \<Rightarrow> if c = 43 then t else s | [] \<Rightarrow> []) in
      case parse_digits ds of Some n \<Rightarrow> if n < limit then Some n else None | None \<Rightarrow> None)"

lemma strip_prefix_Some: "strip_prefix p s = Some r \<longleftrightarrow> s = p @ r"
  by (induction p s rule: strip_prefix.induct) auto

lemma starts_with_iff: "starts_with s p \<longleftrightarrow> (\<exists>r. s = p @ r)"
  by (auto simp: starts_with_def strip_prefix_Some)

lemma split_on_nonempty [simp]: "split_on c s \<noteq> []"
  by (induction s) (auto split: list.splits)

lemma split_on_no_sep: "c \<notin> set s \<Longrightarrow> split_on c s = [s]"
  by (induction s) auto

lemma split_on_append: "c \<notin> set s \<Longrightarrow> split_on c (s @ c # t) = s # split_on c t"
  by (induction s) auto

lemma split_once_Some: "split_once c s = Some (a, b) \<longleftrightarrow> c \<notin> set a \<and> s = a @ c # b"
proof (induction s arbitrary: a)
  case (Cons x s)
  show ?case
  proof (cases "x = c")
    case False
    then show ?thesis by (cases a) (auto simp: Cons.IH)
  qed (cases a; auto)
qed simp

lemma trim_idem_nonspace: "\<forall>c\<in>set s. \<not> is_whitespace c \<Longrightarrow> trim s = s"
proof -
  assume s: "\<forall>c\<in>set s. \<not> is_whitespace c"
  have keep: "dropWhile is_whitespace t = t" if "\<forall>c\<in>set t. \<not> is_whitespace c" for t
    using that by (cases t) auto
  show "trim s = s" using keep [of s] keep [of "rev s"] s by (simp add: trim_def)
qed

subsection \<open>UTF-8 bytes\<close>

definition utf8_nats :: "rchar \<Rightarrow> nat list" where
  "utf8_nats c =
     (if c < 0x80 then [c]
      else if c < 0x800 then [0xC0 + c div 64, 0x80 + c mod 64]
      else if c < 0x10000 then [0xE0 + c div 4096, 0x80 + c div 64 mod 64, 0x80 + c mod 64]
      else [0xF0 + c div 262144, 0x80 + c div 4096 mod 64, 0x80 + c div 64 mod 64, 0x80 + c mod 64])"

definition str_bytes :: "rstring \<Rightarrow> u8 list" where
  "str_bytes s = map of_nat (concat (map utf8_nats s))"

text \<open>What makes a list of numbers a Rust string: every element is a Unicode code point.\<close>

definition valid_str :: "rstring \<Rightarrow> bool" where
  "valid_str s \<longleftrightarrow> list_all (\<lambda>c. c < 0x110000) s"

lemma length_str_bytes: "length (str_bytes s) = byte_len s"
  by (induction s) (auto simp: str_bytes_def utf8_nats_def utf8_len_def)

lemma utf8_nats_bytes:
  assumes "c < 0x110000" shows "list_all (\<lambda>b. b < 256) (utf8_nats c)"
proof -
  have m: "x mod 64 < 64" for x :: nat by simp
  have d: "c < 0x800 \<Longrightarrow> c div 64 < 32" "c < 0x10000 \<Longrightarrow> c div 4096 < 16" "c div 262144 < 5"
    using assms by (simp_all add: div_less_iff_less_mult)
  have b: "128 + x mod 64 < 256" for x :: nat using m [of x] by linarith
  show ?thesis using d by (auto simp: utf8_nats_def b)
qed

text \<open>A decoder for the encoding's numbers, which shows the encoding to be uniquely readable.\<close>

fun utf8_read :: "nat list \<Rightarrow> rchar" where
  "utf8_read [a] = a"
| "utf8_read [a, b] = (a - 0xC0) * 64 + (b - 0x80)"
| "utf8_read [a, b, c] = ((a - 0xE0) * 64 + (b - 0x80)) * 64 + (c - 0x80)"
| "utf8_read [a, b, c, d] = (((a - 0xF0) * 64 + (b - 0x80)) * 64 + (c - 0x80)) * 64 + (d - 0x80)"
| "utf8_read _ = 0"

definition utf8_width :: "nat \<Rightarrow> nat" where
  "utf8_width a = (if a < 0x80 then 1 else if a < 0xE0 then 2 else if a < 0xF0 then 3 else 4)"

lemma div64: "c div 64 div 64 = c div (4096::nat)" "c div 64 div 64 div 64 = c div (262144::nat)"
  "c div 4096 div 64 = c div (262144::nat)"
  by (simp_all add: div_mult2_eq [symmetric])

lemma utf8_read_nats: "utf8_read (utf8_nats c) = c"
proof -
  have e: "x div 64 * 64 + x mod 64 = x" for x :: nat by simp
  have "c div 4096 * 64 + c div 64 mod 64 = c div 64" using e [of "c div 64"] by (simp only: div64)
  moreover have "c div 262144 * 64 + c div 4096 mod 64 = c div 4096" using e [of "c div 4096"] by (simp only: div64)
  ultimately show ?thesis by (simp add: utf8_nats_def)
qed

lemma utf8_nats_ne [simp]: "utf8_nats x \<noteq> []"
  by (simp add: utf8_nats_def)

lemma utf8_width_nats: "c < 0x110000 \<Longrightarrow> utf8_width (hd (utf8_nats c)) = length (utf8_nats c)"
proof -
  have d: "c < 0x800 \<Longrightarrow> c div 64 < 32" "c < 0x10000 \<Longrightarrow> c div 4096 < 16"
    by (simp_all add: div_less_iff_less_mult)
  show ?thesis using d by (auto simp: utf8_nats_def utf8_width_def)
qed

lemma utf8_nats_inj:
  assumes "c < 0x110000" "c' < 0x110000" and eq: "utf8_nats c @ r = utf8_nats c' @ r'"
  shows "c = c' \<and> r = r'"
proof -
  have "hd (utf8_nats c) = hd (utf8_nats c')" using arg_cong [OF eq, of hd] by simp
  then have "length (utf8_nats c) = length (utf8_nats c')" using utf8_width_nats assms(1,2) by metis
  with eq have "utf8_nats c = utf8_nats c'" "r = r'" by simp_all
  then show ?thesis by (metis utf8_read_nats)
qed

lemma concat_utf8_inj:
  "valid_str a \<Longrightarrow> valid_str b \<Longrightarrow> concat (map utf8_nats a) = concat (map utf8_nats b) \<Longrightarrow> a = b"
proof (induction a arbitrary: b)
  case Nil
  then show ?case by (cases b) simp_all
next
  case (Cons x a)
  then obtain y b' where b: "b = y # b'" by (cases b) simp_all
  from Cons.prems have "x = y \<and> concat (map utf8_nats a) = concat (map utf8_nats b')"
    by (intro utf8_nats_inj) (simp_all add: b valid_str_def)
  with Cons show ?case by (simp add: b valid_str_def)
qed

lemma concat_utf8_bytes: "valid_str s \<Longrightarrow> list_all (\<lambda>b. b < 256) (concat (map utf8_nats s))"
  by (induction s) (auto simp: valid_str_def utf8_nats_bytes)

lemma map_of_nat_inj:
  "list_all (\<lambda>b. b < 256) xs \<Longrightarrow> list_all (\<lambda>b. b < 256) ys \<Longrightarrow>
     map of_nat xs = (map of_nat ys :: u8 list) \<Longrightarrow> xs = ys"
proof (induction xs arbitrary: ys)
  case (Cons x xs)
  then obtain y zs where ys: "ys = y # zs" by (cases ys) auto
  with Cons.prems have "x = y" by (auto simp: word_of_nat_eq_iff take_bit_nat_eq_self)
  with Cons ys show ?case by simp
qed simp

lemma str_bytes_inj: "valid_str a \<Longrightarrow> valid_str b \<Longrightarrow> str_bytes a = str_bytes b \<Longrightarrow> a = b"
  unfolding str_bytes_def using concat_utf8_inj concat_utf8_bytes map_of_nat_inj by metis

subsection \<open>Comparing secrets\<close>

definition constant_time_eq :: "rstring \<Rightarrow> rstring \<Rightarrow> bool" where
  "constant_time_eq a b =
     (if byte_len a \<noteq> byte_len b then False
      else fold (\<lambda>(x, y) acc. acc OR (x XOR y)) (zip (str_bytes a) (str_bytes b)) 0 = 0)"

lemma or_eq_0: "a OR b = 0 \<longleftrightarrow> a = 0 \<and> b = (0 :: 'a :: len word)"
  by (auto simp: bit_eq_iff bit_or_iff)

lemma xor_eq_0: "a XOR b = 0 \<longleftrightarrow> a = (b :: 'a :: len word)"
  by (auto simp: bit_eq_iff bit_xor_iff)

lemma xor_fold_0:
  "length xs = length ys \<Longrightarrow>
     fold (\<lambda>(x, y) acc. acc OR (x XOR y)) (zip xs ys) acc = 0 \<longleftrightarrow> acc = (0 :: u8) \<and> xs = ys"
  by (induction xs ys arbitrary: acc rule: list_induct2) (auto simp: or_eq_0 xor_eq_0)

lemma constant_time_eq_iff: "valid_str a \<Longrightarrow> valid_str b \<Longrightarrow> constant_time_eq a b \<longleftrightarrow> a = b"
  by (auto simp: constant_time_eq_def xor_fold_0 length_str_bytes dest: str_bytes_inj)

lemma constant_time_eq_refl [simp]: "constant_time_eq a a"
  by (simp add: constant_time_eq_def xor_fold_0)

end
