(* ===== verification/AuthAddr.thy ===== *)
theory AuthAddr
  imports StrOps
begin

unbundle bit_operations_syntax

section \<open>Addresses, headers and where a request really comes from\<close>

text \<open>
  The address half of \<open>auth/mod.rs\<close>: \<open>IpAddr\<close> with the standard library's parser, the three
  forms of whitelist entry (CIDR block, IPv4 wildcard, exact address), \<open>real_client_ip\<close>, which
  believes \<open>X-Forwarded-For\<close> when the direct peer is a trusted proxy, and the test for requests
  a foreign web page scripted in the user's browser.
\<close>

subsection \<open>Addresses\<close>

datatype ip_addr = V4 "32 word" | V6 "128 word"

definition v4_octets :: "32 word \<Rightarrow> u8 list" where
  "v4_octets w = [ucast (drop_bit 24 w), ucast (drop_bit 16 w), ucast (drop_bit 8 w), ucast w]"

definition is_loopback :: "ip_addr \<Rightarrow> bool" where
  "is_loopback ip = (case ip of V4 w \<Rightarrow> drop_bit 24 w = 127 | V6 w \<Rightarrow> w = 1)"

text \<open>\<open>char::to_digit\<close> and the reader \<open>read_number\<close>: digits while they last, within a count and a bound.\<close>

definition to_digit :: "nat \<Rightarrow> rchar \<Rightarrow> nat option" where
  "to_digit radix c =
     (let d = (if 48 \<le> c \<and> c \<le> 57 then c - 48 else if 97 \<le> c \<and> c \<le> 122 then c - 87
               else if 65 \<le> c \<and> c \<le> 90 then c - 55 else radix) in
      if d < radix then Some d else None)"

fun read_digits :: "nat \<Rightarrow> nat \<Rightarrow> nat \<Rightarrow> nat \<Rightarrow> nat \<Rightarrow> rstring \<Rightarrow> (nat \<times> nat \<times> rstring) option" where
  "read_digits radix most limit k acc [] = Some (k, acc, [])"
| "read_digits radix most limit k acc (c # s) =
     (case to_digit radix c of
        None \<Rightarrow> Some (k, acc, c # s)
      | Some d \<Rightarrow>
          if limit \<le> acc * radix + d \<or> most < Suc k then None
          else read_digits radix most limit (Suc k) (acc * radix + d) s)"

definition read_number :: "nat \<Rightarrow> nat \<Rightarrow> bool \<Rightarrow> nat \<Rightarrow> rstring \<Rightarrow> (nat \<times> rstring) option" where
  "read_number radix most zeros limit s =
     (case read_digits radix most limit 0 0 s of
        None \<Rightarrow> None
      | Some (k, n, r) \<Rightarrow>
          if k = 0 then None
          else if \<not> zeros \<and> 1 < k \<and> s \<noteq> [] \<and> hd s = 48 then None
          else Some (n, r))"

definition read_separator :: "rchar \<Rightarrow> nat \<Rightarrow> (rstring \<Rightarrow> ('a \<times> rstring) option) \<Rightarrow> rstring \<Rightarrow> ('a \<times> rstring) option" where
  "read_separator sep i rd s =
     (if 0 < i then (case s of c # t \<Rightarrow> if c = sep then rd t else None | [] \<Rightarrow> None) else rd s)"

definition read_octet :: "nat \<Rightarrow> rstring \<Rightarrow> (nat \<times> rstring) option" where
  "read_octet i = read_separator 46 i (read_number 10 3 False 256)"

definition read_ipv4 :: "rstring \<Rightarrow> (nat list \<times> rstring) option" where
  "read_ipv4 s =
     do {
       (a, s) \<leftarrow> read_octet 0 s;
       (b, s) \<leftarrow> read_octet 1 s;
       (c, s) \<leftarrow> read_octet 2 s;
       (d, s) \<leftarrow> read_octet 3 s;
       Some ([a, b, c, d], s)
     }"

text \<open>\<open>read_groups\<close>: \<open>left\<close> slots of \<open>limit\<close> are still to fill; an IPv4 tail needs two of them.\<close>

fun read_groups :: "nat \<Rightarrow> nat \<Rightarrow> rstring \<Rightarrow> nat list \<times> bool \<times> rstring" where
  "read_groups 0 limit s = ([], False, s)"
| "read_groups (Suc k) limit s =
     (let i = limit - Suc k in
      case (if 0 < k then read_separator 58 i read_ipv4 s else None) of
        Some (v4, r) \<Rightarrow> ([v4 ! 0 * 256 + v4 ! 1, v4 ! 2 * 256 + v4 ! 3], True, r)
      | None \<Rightarrow>
          (case read_separator 58 i (read_number 16 4 True 65536) s of
             None \<Rightarrow> ([], False, s)
           | Some (g, r) \<Rightarrow> let (gs, v4, r') = read_groups k limit r in (g # gs, v4, r')))"

definition read_ipv6 :: "rstring \<Rightarrow> (nat list \<times> rstring) option" where
  "read_ipv6 s =
     (let (hd_groups, v4, r) = read_groups 8 8 s in
      if length hd_groups = 8 then Some (hd_groups, r)
      else if v4 then None
      else case r of
        c # d # t \<Rightarrow>
          if c = 58 \<and> d = 58
          then (let limit = 8 - (length hd_groups + 1); (tl_groups, _, r') = read_groups limit limit t in
                Some (hd_groups @ replicate (8 - length hd_groups - length tl_groups) 0 @ tl_groups, r'))
          else None
      | _ \<Rightarrow> None)"

text \<open>\<open>str::parse::<IpAddr>()\<close>: one of the two notations, and nothing after it.\<close>

definition parse_ip :: "rstring \<Rightarrow> ip_addr option" where
  "parse_ip s =
     (case read_ipv4 s of
        Some (os, r) \<Rightarrow> if r = [] then Some (V4 (of_nat (foldl (\<lambda>acc b. acc * 256 + b) 0 os))) else None
      | None \<Rightarrow>
          (case read_ipv6 s of
             Some (gs, r) \<Rightarrow> if r = [] then Some (V6 (of_nat (foldl (\<lambda>acc g. acc * 65536 + g) 0 gs))) else None
           | None \<Rightarrow> None))"

subsection \<open>Whitelist entries\<close>

definition matches_cidr :: "ip_addr \<Rightarrow> rstring \<Rightarrow> bool" where
  "matches_cidr ip cidr =
     (case split_once 47 cidr of
        None \<Rightarrow> False
      | Some (addr_str, prefix_str) \<Rightarrow>
          (case parse_unsigned u32_limit prefix_str of
             None \<Rightarrow> False
           | Some prefix_len \<Rightarrow>
               (case (ip, parse_ip addr_str) of
                  (V4 ip4, Some (V4 net4)) \<Rightarrow>
                    if 32 < prefix_len then False
                    else let mask = (if prefix_len = 0 then 0 else push_bit (32 - prefix_len) (NOT 0)) in
                      ip4 AND mask = net4 AND mask
                | (V6 ip6, Some (V6 net6)) \<Rightarrow>
                    if 128 < prefix_len then False
                    else let mask = (if prefix_len = 0 then 0 else push_bit (128 - prefix_len) (NOT 0)) in
                      ip6 AND mask = net6 AND mask
                | _ \<Rightarrow> False)))"

fun match_parts :: "u8 list \<Rightarrow> rstring list \<Rightarrow> bool" where
  "match_parts octets [] = True"
| "match_parts octets (p # ps) =
     (if p = lit ''*'' then match_parts (tl octets) ps
      else case parse_unsigned 256 p of
        Some n \<Rightarrow> if hd octets \<noteq> of_nat n then False else match_parts (tl octets) ps
      | None \<Rightarrow> False)"

definition matches_wildcard :: "ip_addr \<Rightarrow> rstring \<Rightarrow> bool" where
  "matches_wildcard ip pattern =
     (case ip of
        V6 _ \<Rightarrow> False
      | V4 ipv4 \<Rightarrow>
          let parts = split_on 46 pattern in
          if length parts \<noteq> 4 then False else match_parts (v4_octets ipv4) parts)"

fun is_ip_whitelisted :: "ip_addr \<Rightarrow> rstring list \<Rightarrow> bool" where
  "is_ip_whitelisted ip [] = False"
| "is_ip_whitelisted ip (raw # whitelist) =
     (let entry = trim raw in
      if 47 \<in> set entry then (if matches_cidr ip entry then True else is_ip_whitelisted ip whitelist)
      else if 42 \<in> set entry then (if matches_wildcard ip entry then True else is_ip_whitelisted ip whitelist)
      else if parse_ip entry = Some ip then True
      else is_ip_whitelisted ip whitelist)"

subsection \<open>Headers and the real client\<close>

text \<open>
  A \<open>HeaderMap\<close>: \<open>None\<close> when the header is absent, \<open>Some None\<close> when its value is not visible
  ASCII text (\<open>to_str\<close> fails), \<open>Some (Some s)\<close> otherwise.
\<close>

type_synonym headers = "string \<Rightarrow> rstring option option"

definition header_str :: "headers \<Rightarrow> string \<Rightarrow> rstring option" where
  "header_str hs name = (case hs name of Some v \<Rightarrow> v | None \<Rightarrow> None)"

fun first_untrusted :: "rstring list \<Rightarrow> rstring list \<Rightarrow> ip_addr option" where
  "first_untrusted trusted [] = None"
| "first_untrusted trusted (part # parts) =
     (case parse_ip (trim part) of
        Some ip \<Rightarrow> if \<not> is_ip_whitelisted ip trusted then Some ip else first_untrusted trusted parts
      | None \<Rightarrow> first_untrusted trusted parts)"

definition real_client_ip :: "headers \<Rightarrow> ip_addr \<Rightarrow> rstring list \<Rightarrow> ip_addr" where
  "real_client_ip hs conn_ip trusted =
     (if \<not> is_ip_whitelisted conn_ip trusted then conn_ip
      else (case header_str hs ''x-forwarded-for'' of
              None \<Rightarrow> conn_ip
            | Some s \<Rightarrow>
                (case first_untrusted trusted (split_on 44 s) of Some ip \<Rightarrow> ip | None \<Rightarrow> conn_ip)))"

text \<open>\<open>check_ws_origin\<close> is switched off in the code: it accepts every request.\<close>

definition check_ws_origin :: "headers \<Rightarrow> rstring list \<Rightarrow> ip_addr \<Rightarrow> rstring list \<Rightarrow> bool" where
  "check_ws_origin hs allowed client trusted = True"

definition origin_authority :: "rstring \<Rightarrow> rstring" where
  "origin_authority o_str =
     (case strip_prefix (lit ''https://'') o_str of Some r \<Rightarrow> r
      | None \<Rightarrow> (case strip_prefix (lit ''http://'') o_str of Some r \<Rightarrow> r
      | None \<Rightarrow> (case strip_prefix (lit ''tauri://'') o_str of Some r \<Rightarrow> r
      | None \<Rightarrow> (case strip_prefix (lit ''asset://'') o_str of Some r \<Rightarrow> r
      | None \<Rightarrow> o_str))))"

definition local_origin :: "rstring \<Rightarrow> bool" where
  "local_origin authority =
     (let host = hd (split_on 58 authority) in
      eq_ignore_ascii_case host (lit ''localhost'') \<or> eq_ignore_ascii_case host (lit ''127.0.0.1'') \<or>
      eq_ignore_ascii_case host (lit ''tauri.localhost''))"

definition is_cross_site_browser_request :: "headers \<Rightarrow> bool" where
  "is_cross_site_browser_request hs =
     (case map_option origin_authority (header_str hs ''origin'') of
        None \<Rightarrow> False
      | Some authority \<Rightarrow>
          if local_origin authority then False
          else (case header_str hs ''sec-fetch-site'' of
                  Some s \<Rightarrow> eq_ignore_ascii_case s (lit ''cross-site'')
                | None \<Rightarrow>
                    (case header_str hs ''host'' of
                       Some host \<Rightarrow> \<not> eq_ignore_ascii_case authority host
                     | None \<Rightarrow> False)))"


subsection \<open>What an entry means\<close>

text \<open>
  The reference reading of an address: its bits, most significant first. A CIDR block is then the
  set of addresses of its family that share its first \<open>n\<close> bits.
\<close>

definition ip_bits :: "ip_addr \<Rightarrow> bool list" where
  "ip_bits ip = (case ip of V4 w \<Rightarrow> map (bit w) (rev [0..<32]) | V6 w \<Rightarrow> map (bit w) (rev [0..<128]))"

lemma masked_eq_iff:
  fixes a b :: "'a :: len word"
  shows "a AND push_bit k (NOT 0) = b AND push_bit k (NOT 0) \<longleftrightarrow> (\<forall>i. k \<le> i \<longrightarrow> i < LENGTH('a) \<longrightarrow> bit a i = bit b i)"
  by (auto simp: bit_eq_iff bit_and_iff bit_not_iff bit_mask_iff not_less)

lemma take_rev_upt: "n \<le> m \<Longrightarrow> take n (rev [0..<m]) = rev [m - n..<m]"
  by (simp add: take_rev)

lemma take_bits_eq:
  assumes "n \<le> m"
  shows "take n (map f (rev [0..<m])) = take n (map g (rev [0..<m])) \<longleftrightarrow> (\<forall>i. m - n \<le> i \<longrightarrow> i < m \<longrightarrow> f i = g i)"
  using assms by (auto simp: take_map take_rev_upt)

lemma cidr_word:
  fixes a b :: "'a :: len word"
  assumes "LENGTH('a) = L" and "n \<le> L"
  shows "(let mask = (if n = 0 then 0 else push_bit (L - n) (NOT 0)) in a AND mask = b AND mask) \<longleftrightarrow>
    take n (map (bit a) (rev [0..<L])) = take n (map (bit b) (rev [0..<L]))"
  unfolding take_bits_eq [OF assms(2)] Let_def using masked_eq_iff [of a "L - n" b] assms(1) by auto

lemma split_once_append: "c \<notin> set a \<Longrightarrow> split_once c (a @ c # b) = Some (a, b)"
  by (simp add: split_once_Some)

text \<open>
  A CIDR entry \<open>addr/n\<close> admits exactly the addresses of its family that agree with \<open>addr\<close>
  on the first \<open>n\<close> bits. A prefix longer than the address admits nothing, and \<open>/0\<close>, whose shift
  by the full width the code avoids, admits the whole family.
\<close>

theorem cidr_is_prefix:
  assumes net: "parse_ip addr = Some net" and n: "parse_unsigned u32_limit p = Some n" and "47 \<notin> set addr"
  shows "matches_cidr ip (addr @ 47 # p) \<longleftrightarrow>
    n \<le> length (ip_bits ip) \<and> length (ip_bits net) = length (ip_bits ip) \<and>
    take n (ip_bits net) = take n (ip_bits ip)"
proof -
  have m: "matches_cidr ip (addr @ 47 # p) \<longleftrightarrow>
      (case (ip, net) of
         (V4 a, V4 b) \<Rightarrow> n \<le> 32 \<and> (let mask = (if n = 0 then 0 else push_bit (32 - n) (NOT 0)) in a AND mask = b AND mask)
       | (V6 a, V6 b) \<Rightarrow> n \<le> 128 \<and> (let mask = (if n = 0 then 0 else push_bit (128 - n) (NOT 0)) in a AND mask = b AND mask)
       | _ \<Rightarrow> False)"
    unfolding matches_cidr_def split_once_append [OF assms(3)] by (auto simp: net n split: ip_addr.splits)
  have 4: "n \<le> 32 \<Longrightarrow> (let mask = (if n = 0 then 0 else push_bit (32 - n) (NOT 0)) in a AND mask = b AND mask) \<longleftrightarrow>
      take n (map (bit a) (rev [0..<32])) = take n (map (bit b) (rev [0..<32]))" for a b :: "32 word"
    by (rule cidr_word) simp_all
  have 6: "n \<le> 128 \<Longrightarrow> (let mask = (if n = 0 then 0 else push_bit (128 - n) (NOT 0)) in a AND mask = b AND mask) \<longleftrightarrow>
      take n (map (bit a) (rev [0..<128])) = take n (map (bit b) (rev [0..<128]))" for a b :: "128 word"
    by (rule cidr_word) simp_all
  show ?thesis
    unfolding m using 4 6 by (cases ip; cases net) (auto simp: ip_bits_def simp del: upt_Suc)
qed

lemmas parse_eval = parse_ip_def read_ipv4_def read_octet_def read_number_def read_separator_def lit_def to_digit_def

lemma read_groups_numeral: "read_groups (numeral v) limit s =
     (let i = limit - numeral v in
      case (if 0 < pred_numeral v then read_separator 58 i read_ipv4 s else None) of
        Some (v4, r) \<Rightarrow> ([v4 ! 0 * 256 + v4 ! 1, v4 ! 2 * 256 + v4 ! 3], True, r)
      | None \<Rightarrow>
          (case read_separator 58 i (read_number 16 4 True 65536) s of
             None \<Rightarrow> ([], False, s)
           | Some (g, r) \<Rightarrow> let (gs, v4, r') = read_groups (pred_numeral v) limit r in (g # gs, v4, r')))"
  by (simp add: numeral_eq_Suc)

lemma replicate_num: "replicate (numeral v) x = x # replicate (pred_numeral v) x"
  by (simp add: numeral_eq_Suc)

lemma parse_eval_example: "parse_ip (lit ''10.0.0.0'') = Some (V4 0x0a000000)" "parse_unsigned u32_limit (lit ''8'') = Some 8"
  by (simp_all add: parse_eval parse_unsigned_def parse_digits_def is_digit_def undec_def u32_limit_def Let_def)

lemma cidr_is_prefix_witness:
  "matches_cidr (V4 0x0a010203) (lit ''10.0.0.0/8'') \<longleftrightarrow>
    8 \<le> length (ip_bits (V4 0x0a010203)) \<and> length (ip_bits (V4 0x0a000000)) = length (ip_bits (V4 0x0a010203)) \<and>
    take 8 (ip_bits (V4 0x0a000000)) = take 8 (ip_bits (V4 0x0a010203))"
proof -
  have "47 \<notin> set (lit ''10.0.0.0'')" "lit ''10.0.0.0/8'' = lit ''10.0.0.0'' @ 47 # lit ''8''" by (simp_all add: lit_def)
  with cidr_is_prefix [OF parse_eval_example, of "V4 0x0a010203"] show ?thesis by simp
qed

end
