(* ===== verification/AuthSession.thy ===== *)
theory AuthSession
  imports Expiry AuthAddr
begin

section \<open>Login sessions\<close>

text \<open>
  \<open>auth/session.rs\<close>: the store of browser sessions, their idle time-to-live, the throttled
  refresh of \<open>last_used\<close>, revocation and the background clean-up. Every operation reads the
  clock where the code does; \<open>validate_session\<close> also takes what the other threads do to the
  store between its two lookups.
\<close>

subsection \<open>State\<close>

definition DEFAULT_SESSION_TTL_DAYS :: nat where
  "DEFAULT_SESSION_TTL_DAYS = 7"

definition SECS_PER_DAY :: nat where
  "SECS_PER_DAY = 86400"

definition LAST_USED_WRITE_THROTTLE :: nat where
  "LAST_USED_WRITE_THROTTLE = from_secs 60"

record session_info =
  si_id :: rstring
  si_created_at :: unix_secs
  si_last_used :: unix_secs
  si_source_ip :: "ip_addr option"
  si_user_agent :: "rstring option"

record session_entry =
  se_id :: rstring
  se_created_at :: instant
  se_last_used :: instant
  se_source_ip :: "ip_addr option"
  se_user_agent :: "rstring option"

record session_store =
  ss_sessions :: "(rstring, session_entry) amap"
  ss_ttl_secs :: nat
  ss_throttle :: nat

text \<open>\<open>instant_to_unix\<close> with the base pair the process fixes on first use.\<close>

definition instant_to_unix :: "instant \<times> unix_secs \<Rightarrow> instant \<Rightarrow> unix_secs" where
  "instant_to_unix base t = u64_saturating_add (snd base) (as_secs (duration_since t (fst base)))"

definition to_info :: "instant \<times> unix_secs \<Rightarrow> session_entry \<Rightarrow> session_info" where
  "to_info base e = \<lparr>si_id = se_id e, si_created_at = instant_to_unix base (se_created_at e),
     si_last_used = instant_to_unix base (se_last_used e), si_source_ip = se_source_ip e,
     si_user_agent = se_user_agent e\<rparr>"

definition ttl_from_days :: "nat \<Rightarrow> nat" where
  "ttl_from_days days = u64_saturating_mul (if days = 0 then DEFAULT_SESSION_TTL_DAYS else days) SECS_PER_DAY"

definition with_throttle :: "nat \<Rightarrow> nat \<Rightarrow> session_store" where
  "with_throttle ttl throttle = \<lparr>ss_sessions = [], ss_ttl_secs = ttl, ss_throttle = throttle\<rparr>"

definition new_session_store :: "nat \<Rightarrow> session_store" where
  "new_session_store days = with_throttle (ttl_from_days days) LAST_USED_WRITE_THROTTLE"

subsection \<open>Operations\<close>

definition update_ttl_days :: "nat \<Rightarrow> session_store \<Rightarrow> session_store" where
  "update_ttl_days days s = s\<lparr>ss_ttl_secs := ttl_from_days days\<rparr>"

definition current_ttl :: "session_store \<Rightarrow> nat" where
  "current_ttl s =
     (if ss_ttl_secs s = 0 then from_secs (DEFAULT_SESSION_TTL_DAYS * SECS_PER_DAY)
      else from_secs (ss_ttl_secs s))"

definition create_session ::
  "rstring \<Rightarrow> instant \<Rightarrow> ip_addr option \<Rightarrow> rstring option \<Rightarrow> session_store \<Rightarrow> session_store" where
  "create_session uuid now ip ua s =
     s\<lparr>ss_sessions := al_put uuid \<lparr>se_id = uuid, se_created_at = now, se_last_used = now,
        se_source_ip = ip, se_user_agent = ua\<rparr> (ss_sessions s)\<rparr>"

definition drop_session :: "rstring \<Rightarrow> session_store \<Rightarrow> session_store" where
  "drop_session k s = s\<lparr>ss_sessions := al_del k (ss_sessions s)\<rparr>"

text \<open>
  The lock on the entry is released between the first lookup and the second; \<open>others\<close> is the
  effect of whatever ran in between. \<open>n1\<close>, \<open>n2\<close>, \<open>n3\<close> are the three clock readings.
\<close>

definition validate_session ::
  "(session_store \<Rightarrow> session_store) \<Rightarrow> instant \<Rightarrow> instant \<Rightarrow> instant \<Rightarrow> rstring \<Rightarrow> session_store \<Rightarrow>
     bool \<times> session_store" where
  "validate_session others n1 n2 n3 k s =
     (let ttl = current_ttl s in
      case map_of (ss_sessions s) k of
        None \<Rightarrow> (False, s)
      | Some e \<Rightarrow>
          let elapsed = duration_since n1 (se_last_used e) in
          if ttl < elapsed then (False, drop_session k (others s))
          else if elapsed < ss_throttle s then (True, s)
          else let s = others s in
            (case map_of (ss_sessions s) k of
               None \<Rightarrow> (False, s)
             | Some e \<Rightarrow>
                 if ttl < duration_since n2 (se_last_used e) then (False, drop_session k s)
                 else (True, s\<lparr>ss_sessions := al_put k (e\<lparr>se_last_used := n3\<rparr>) (ss_sessions s)\<rparr>)))"

definition revoke_session :: "rstring \<Rightarrow> session_store \<Rightarrow> bool \<times> session_store" where
  "revoke_session k s = (map_of (ss_sessions s) k \<noteq> None, drop_session k s)"

definition revoke_all_sessions :: "session_store \<Rightarrow> session_store" where
  "revoke_all_sessions s = s\<lparr>ss_sessions := []\<rparr>"

definition revoke_all_except :: "rstring \<Rightarrow> session_store \<Rightarrow> session_store" where
  "revoke_all_except keep s = s\<lparr>ss_sessions := filter (\<lambda>(k, _). k = keep) (ss_sessions s)\<rparr>"

definition list_sessions :: "instant \<times> unix_secs \<Rightarrow> instant \<Rightarrow> session_store \<Rightarrow> session_info list" where
  "list_sessions base now s =
     map (to_info base \<circ> snd)
       (filter (\<lambda>(_, e). duration_since now (se_last_used e) \<le> current_ttl s) (ss_sessions s))"

text \<open>One turn of the clean-up task's loop.\<close>

definition cleanup_sessions :: "instant \<Rightarrow> session_store \<Rightarrow> session_store" where
  "cleanup_sessions now s =
     s\<lparr>ss_sessions := filter (\<lambda>(_, e). duration_since now (se_last_used e) \<le> current_ttl s) (ss_sessions s)\<rparr>"

text \<open>A check that no other thread interferes with, at one clock reading.\<close>

definition validate_at :: "instant \<Rightarrow> rstring \<Rightarrow> session_store \<Rightarrow> bool \<times> session_store" where
  "validate_at now = validate_session (\<lambda>s. s) now now now"

datatype session_op =
    SCreate rstring instant "ip_addr option" "rstring option"
  | SValidate rstring instant
  | SRevoke rstring
  | SRevokeAll
  | SRevokeAllExcept rstring
  | SUpdateTtl nat
  | SCleanup instant

fun session_step :: "session_op \<Rightarrow> session_store \<Rightarrow> bool \<times> session_store" where
  "session_step (SCreate k now ip ua) s = (True, create_session k now ip ua s)"
| "session_step (SValidate k now) s = validate_at now k s"
| "session_step (SRevoke k) s = revoke_session k s"
| "session_step SRevokeAll s = (True, revoke_all_sessions s)"
| "session_step (SRevokeAllExcept k) s = (True, revoke_all_except k s)"
| "session_step (SUpdateTtl d) s = (True, update_ttl_days d s)"
| "session_step (SCleanup now) s = (True, cleanup_sessions now s)"

definition session_live :: "rstring \<Rightarrow> session_store \<Rightarrow> bool" where
  "session_live k s \<longleftrightarrow> k \<in> fst ` set (ss_sessions s)"

definition session_issues :: "rstring \<Rightarrow> session_op \<Rightarrow> bool" where
  "session_issues k op = (case op of SCreate k' _ _ _ \<Rightarrow> k' = k | _ \<Rightarrow> False)"

definition session_grants :: "rstring \<Rightarrow> session_op \<Rightarrow> bool \<Rightarrow> bool" where
  "session_grants k op r = (case op of SValidate k' _ \<Rightarrow> k' = k \<and> r | _ \<Rightarrow> False)"

subsection \<open>What a check answers\<close>

lemma live_iff: "session_live k s \<longleftrightarrow> (\<exists>e. map_of (ss_sessions s) k = Some e)"
  by (metis map_of_eq_None_iff not_None_eq session_live_def)

lemma validate_at_cases:
  "validate_at now k s =
     (case map_of (ss_sessions s) k of
        None \<Rightarrow> (False, s)
      | Some e \<Rightarrow>
          if current_ttl s < duration_since now (se_last_used e) then (False, drop_session k s)
          else if duration_since now (se_last_used e) < ss_throttle s then (True, s)
          else (True, s\<lparr>ss_sessions := al_put k (e\<lparr>se_last_used := now\<rparr>) (ss_sessions s)\<rparr>))"
  by (simp add: validate_at_def validate_session_def Let_def split: option.splits)

lemma drop_session_dead: "\<not> session_live k (drop_session k s)"
  by (simp add: session_live_def drop_session_def set_keys_al_del)

lemma drop_session_live: "session_live k (drop_session k' s) \<Longrightarrow> session_live k s"
  by (simp add: session_live_def drop_session_def set_keys_al_del)

lemma session_dead_step:
  assumes "\<not> session_live k s" and "\<not> session_issues k op"
  shows "\<not> session_live k (snd (session_step op s))"
proof (cases op)
  case (SCreate k' now ip ua)
  with assms show ?thesis
    by (simp add: session_live_def session_issues_def create_session_def set_keys_al_put eq_commute)
next
  case (SValidate k' now)
  show ?thesis
  proof (cases "map_of (ss_sessions s) k'")
    case (Some e)
    then have "k' \<noteq> k" using assms(1) live_iff by blast
    with SValidate Some assms(1) show ?thesis
      by (auto simp: validate_at_cases session_live_def set_keys_al_put drop_session_def set_keys_al_del)
  qed (use SValidate assms(1) in \<open>simp add: validate_at_cases\<close>)
next
  case (SRevoke k')
  with assms show ?thesis using drop_session_live by (auto simp: revoke_session_def)
qed (use assms in \<open>auto simp: session_live_def revoke_all_sessions_def revoke_all_except_def update_ttl_days_def cleanup_sessions_def\<close>)

interpretation ses: revocable session_step "\<lambda>_. True" session_live session_issues session_grants
proof unfold_locales
  fix k s op
  show True ..
  show "\<not> session_live k s \<Longrightarrow> \<not> session_issues k op \<Longrightarrow> \<not> session_live k (snd (session_step op s))"
    by (rule session_dead_step)
  assume "session_grants k op (fst (session_step op s))"
  then obtain now where "op = SValidate k now" "fst (validate_at now k s)"
    by (auto simp: session_grants_def split: session_op.splits)
  then show "session_live k s" by (auto simp: validate_at_cases live_iff split: option.splits)
qed

end
