(* ===== verification/AuthCode.thy ===== *)
theory AuthCode
  imports Expiry AuthAddr
begin

section \<open>Verification codes\<close>

text \<open>
  \<open>auth/verification_code.rs\<close>: six-digit one-time codes handed out per request id under a
  per-address rate limit, checked with a bounded number of guesses, and expired by age. The
  request id and the drawn number are parameters of \<open>create_code\<close>.
\<close>

subsection \<open>State\<close>

definition MAX_ATTEMPTS :: nat where
  "MAX_ATTEMPTS = 5"

definition RATE_WINDOW :: nat where
  "RATE_WINDOW = from_secs 60"

record code_entry =
  ce_code :: rstring
  ce_created_at :: instant
  ce_attempts :: nat
  ce_consumed :: bool

datatype verify_outcome = VOk | VNotFound | VExpired | VConsumed | VTooManyAttempts | VMismatch

datatype rate_limit_error = RateLimitError

record rate_window =
  rw_start :: instant
  rw_count :: nat

record code_store =
  cs_codes :: "(rstring, code_entry) amap"
  cs_rate :: "(ip_addr, rate_window) amap"
  cs_ttl :: nat
  cs_limit :: nat

definition new_code_store :: "nat \<Rightarrow> nat \<Rightarrow> code_store" where
  "new_code_store ttl limit = \<lparr>cs_codes = [], cs_rate = [], cs_ttl = max ttl 1, cs_limit = max limit 1\<rparr>"

definition update_code_ttl :: "nat \<Rightarrow> code_store \<Rightarrow> code_store" where
  "update_code_ttl ttl s = s\<lparr>cs_ttl := max ttl 1\<rparr>"

definition update_rate_limit :: "nat \<Rightarrow> code_store \<Rightarrow> code_store" where
  "update_rate_limit limit s = s\<lparr>cs_limit := max limit 1\<rparr>"

definition code_ttl :: "code_store \<Rightarrow> nat" where
  "code_ttl s = from_secs (cs_ttl s)"

subsection \<open>Operations\<close>

text \<open>\<open>generate_code\<close>: the drawn number, zero-padded to six places.\<close>

definition generate_code :: "nat \<Rightarrow> rstring" where
  "generate_code n = replicate (6 - length (dec n)) 48 @ dec n"

text \<open>The rate window of an address, after \<open>entry(client_ip).or_insert(..)\<close>.\<close>

definition rate_entry :: "ip_addr \<Rightarrow> instant \<Rightarrow> code_store \<Rightarrow> rate_window" where
  "rate_entry ip now s = (case map_of (cs_rate s) ip of Some w \<Rightarrow> w | None \<Rightarrow> \<lparr>rw_start = now, rw_count = 0\<rparr>)"

definition create_code ::
  "ip_addr \<Rightarrow> instant \<Rightarrow> rstring \<Rightarrow> nat \<Rightarrow> code_store \<Rightarrow> (rate_limit_error + rstring \<times> rstring) \<times> code_store" where
  "create_code ip now uuid n s =
     (let w = rate_entry ip now s;
          fresh = duration_since now (rw_start w) < RATE_WINDOW in
      if fresh \<and> cs_limit s \<le> rw_count w
      then (Inl RateLimitError, s\<lparr>cs_rate := al_put ip w (cs_rate s)\<rparr>)
      else let w' = (if fresh then w\<lparr>rw_count := rw_count w + 1\<rparr> else \<lparr>rw_start = now, rw_count = 1\<rparr>);
               code = generate_code n in
        (Inr (uuid, code),
         s\<lparr>cs_rate := al_put ip w' (cs_rate s),
           cs_codes := al_put uuid \<lparr>ce_code = code, ce_created_at = now, ce_attempts = 0, ce_consumed = False\<rparr>
             (cs_codes s)\<rparr>))"

definition drop_code :: "rstring \<Rightarrow> code_store \<Rightarrow> code_store" where
  "drop_code k s = s\<lparr>cs_codes := al_del k (cs_codes s)\<rparr>"

definition put_code :: "rstring \<Rightarrow> code_entry \<Rightarrow> code_store \<Rightarrow> code_store" where
  "put_code k e s = s\<lparr>cs_codes := al_put k e (cs_codes s)\<rparr>"

definition verify_code :: "rstring \<Rightarrow> rstring \<Rightarrow> instant \<Rightarrow> code_store \<Rightarrow> verify_outcome \<times> code_store" where
  "verify_code request_id code now s =
     (case map_of (cs_codes s) request_id of
        None \<Rightarrow> (VNotFound, s)
      | Some e \<Rightarrow>
          if code_ttl s < duration_since now (ce_created_at e) then (VExpired, drop_code request_id s)
          else if ce_consumed e then (VConsumed, s)
          else if MAX_ATTEMPTS \<le> ce_attempts e then (VTooManyAttempts, drop_code request_id s)
          else if constant_time_eq (ce_code e) code
          then (VOk, put_code request_id (e\<lparr>ce_consumed := True\<rparr>) s)
          else let e' = e\<lparr>ce_attempts := ce_attempts e + 1\<rparr> in
            if MAX_ATTEMPTS \<le> ce_attempts e' then (VTooManyAttempts, drop_code request_id (put_code request_id e' s))
            else (VMismatch, put_code request_id e' s))"

text \<open>One tick of the clean-up task.\<close>

definition cleanup_codes :: "instant \<Rightarrow> code_store \<Rightarrow> code_store" where
  "cleanup_codes now s =
     s\<lparr>cs_codes := filter (\<lambda>(_, e). \<not> ce_consumed e \<and> duration_since now (ce_created_at e) \<le> code_ttl s) (cs_codes s),
       cs_rate := filter (\<lambda>(_, w). duration_since now (rw_start w) < RATE_WINDOW) (cs_rate s)\<rparr>"

datatype code_op =
    CCreate ip_addr instant rstring nat
  | CVerify rstring rstring instant
  | CUpdateTtl nat
  | CUpdateLimit nat
  | CCleanup instant

datatype code_result = Issued "rate_limit_error + rstring \<times> rstring" | Checked verify_outcome | Updated

fun code_step :: "code_op \<Rightarrow> code_store \<Rightarrow> code_result \<times> code_store" where
  "code_step (CCreate ip now uuid n) s = (let (r, s') = create_code ip now uuid n s in (Issued r, s'))"
| "code_step (CVerify k c now) s = (let (r, s') = verify_code k c now s in (Checked r, s'))"
| "code_step (CUpdateTtl ttl) s = (Updated, update_code_ttl ttl s)"
| "code_step (CUpdateLimit l) s = (Updated, update_rate_limit l s)"
| "code_step (CCleanup now) s = (Updated, cleanup_codes now s)"

subsection \<open>Invariant, and how many guesses a code has left\<close>

definition codes_wf :: "code_store \<Rightarrow> bool" where
  "codes_wf s \<longleftrightarrow> al_wf (cs_codes s) \<and> al_wf (cs_rate s) \<and> 1 \<le> cs_limit s \<and> 1 \<le> cs_ttl s \<and>
     list_all (\<lambda>(_, e). ce_attempts e < MAX_ATTEMPTS) (cs_codes s)"

definition guesses_left :: "rstring \<Rightarrow> code_store \<Rightarrow> nat" where
  "guesses_left k s =
     (case map_of (cs_codes s) k of
        None \<Rightarrow> 0
      | Some e \<Rightarrow> if ce_consumed e then 0 else MAX_ATTEMPTS - ce_attempts e)"

definition code_live :: "rstring \<Rightarrow> code_store \<Rightarrow> bool" where
  "code_live k s \<longleftrightarrow> 0 < guesses_left k s"

definition code_issues :: "rstring \<Rightarrow> code_op \<Rightarrow> bool" where
  "code_issues k op = (case op of CCreate _ _ k' _ \<Rightarrow> k' = k | _ \<Rightarrow> False)"

text \<open>An outcome of \<open>k\<close> that accepted it, and one for which the code was compared at all.\<close>

definition code_grants :: "rstring \<Rightarrow> code_op \<Rightarrow> code_result \<Rightarrow> bool" where
  "code_grants k op r = (case op of CVerify k' _ _ \<Rightarrow> k' = k \<and> r = Checked VOk | _ \<Rightarrow> False)"

definition code_guess :: "rstring \<Rightarrow> code_op \<Rightarrow> code_result \<Rightarrow> bool" where
  "code_guess k op r = (case op of CVerify k' _ _ \<Rightarrow> k' = k \<and>
     (r = Checked VOk \<or> r = Checked VMismatch \<or> r = Checked VTooManyAttempts) | _ \<Rightarrow> False)"

lemma attempts_below: "codes_wf s \<Longrightarrow> map_of (cs_codes s) k = Some e \<Longrightarrow> ce_attempts e < MAX_ATTEMPTS"
  by (drule list_all_lookup [rotated, where P = "\<lambda>(_, e). ce_attempts e < MAX_ATTEMPTS"]) (simp_all add: codes_wf_def)

lemma codes_wf_put: "codes_wf s \<Longrightarrow> ce_attempts e < MAX_ATTEMPTS \<Longrightarrow> codes_wf (put_code k e s)"
  by (simp add: codes_wf_def put_code_def al_wf_put list_all_al_put)

lemma codes_wf_drop: "codes_wf s \<Longrightarrow> codes_wf (drop_code k s)"
  by (simp add: codes_wf_def drop_code_def al_wf_del list_all_al_del)

lemma drop_put_code: "codes_wf s \<Longrightarrow> codes_wf (drop_code k (put_code k e s))"
proof -
  assume wf: "codes_wf s"
  have "al_del k (al_put k e m) = al_del k m" for m :: "(rstring, code_entry) amap"
    by (induction m) (auto simp: al_del_def)
  then show ?thesis using codes_wf_drop [OF wf, of k] by (simp add: drop_code_def put_code_def)
qed

lemma codes_wf_verify: "codes_wf s \<Longrightarrow> codes_wf (snd (verify_code k c now s))"
  using attempts_below [of s k]
  by (auto simp: verify_code_def Let_def codes_wf_put codes_wf_drop drop_put_code split: option.splits)

lemma codes_wf_create: "codes_wf s \<Longrightarrow> codes_wf (snd (create_code ip now uuid n s))"
  by (simp add: create_code_def Let_def codes_wf_def al_wf_put list_all_al_put MAX_ATTEMPTS_def)

lemma codes_wf_step [keeps]: "codes_wf s \<Longrightarrow> codes_wf (snd (code_step op s))"
  using codes_wf_verify codes_wf_create
  by (cases op)
    (auto simp: split_beta codes_wf_def cleanup_codes_def update_code_ttl_def update_rate_limit_def al_wf_filter list_all_filter)

lemma codes_wf_new: "codes_wf (new_code_store ttl limit)"
  by (simp add: codes_wf_def new_code_store_def al_wf_def)


lemma guesses_left_put: "guesses_left k (put_code k' e s) =
    (if k = k' then (if ce_consumed e then 0 else MAX_ATTEMPTS - ce_attempts e) else guesses_left k s)"
  by (simp add: guesses_left_def put_code_def map_of_al_put)

lemma guesses_left_drop: "guesses_left k (drop_code k' s) = (if k = k' then 0 else guesses_left k s)"
  by (simp add: guesses_left_def drop_code_def map_of_al_del)

lemma guesses_left_create:
  "guesses_left k (snd (create_code ip now uuid n s)) = (if k = uuid \<and> \<not> isl (fst (create_code ip now uuid n s))
     then MAX_ATTEMPTS else guesses_left k s)"
  by (simp add: guesses_left_def create_code_def Let_def map_of_al_put)

lemma guesses_left_config [simp]:
  "guesses_left k (update_code_ttl ttl s) = guesses_left k s"
  "guesses_left k (update_rate_limit l s) = guesses_left k s"
  by (simp_all add: guesses_left_def update_code_ttl_def update_rate_limit_def)

lemma guesses_left_cleanup: "codes_wf s \<Longrightarrow> guesses_left k (cleanup_codes now s) \<le> guesses_left k s"
  by (simp add: guesses_left_def cleanup_codes_def codes_wf_def
      map_of_filter_kv [where P = "\<lambda>_ e. \<not> ce_consumed e \<and> duration_since now (ce_created_at e) \<le> code_ttl s"]
      split: option.splits)

text \<open>Each guess takes one from the stock of its request; nothing but issuing it again adds to it.\<close>

lemma guesses_left_verify:
  "(if k' = k \<and> (fst (verify_code k' c now s) = VOk \<or> fst (verify_code k' c now s) = VMismatch) then 1 else 0)
     + guesses_left k (snd (verify_code k' c now s)) \<le> guesses_left k s"
proof (cases "k' = k")
  case True
  show ?thesis
    by (simp add: True verify_code_def Let_def guesses_left_put guesses_left_drop split: option.splits)
      (auto simp: guesses_left_def MAX_ATTEMPTS_def)
next
  case False
  then show ?thesis by (simp add: verify_code_def Let_def guesses_left_put guesses_left_drop split: option.splits)
qed

lemma granted_then_dead: "fst (verify_code k c now s) = VOk \<Longrightarrow> guesses_left k (snd (verify_code k c now s)) = 0"
  by (auto simp: verify_code_def Let_def guesses_left_put split: option.splits if_splits)

lemma granted_left: "fst (verify_code k c now s) = VOk \<Longrightarrow> 0 < guesses_left k s"
  by (auto simp: verify_code_def Let_def guesses_left_def split: option.splits if_splits)

interpretation cod: revocable code_step codes_wf code_live code_issues code_grants
proof unfold_locales
  fix k s op
  assume wf: "codes_wf s"
  show "codes_wf (snd (code_step op s))" by (rule codes_wf_step [OF wf])
  show "\<not> code_live k s \<Longrightarrow> \<not> code_issues k op \<Longrightarrow> \<not> code_live k (snd (code_step op s))"
    using guesses_left_verify [of _ k _ _ s] guesses_left_cleanup [OF wf, of k]
    by (cases op)
      (auto simp: code_live_def code_issues_def guesses_left_create split_beta)
  show "code_grants k op (fst (code_step op s)) \<Longrightarrow> code_live k s"
    by (auto simp: code_grants_def code_live_def granted_left split_beta split: code_op.splits)
qed

end
