(* ===== verification/AuthGate.thy ===== *)
theory AuthGate
  imports AuthSession AuthCode
begin

section \<open>The gate in front of every route\<close>

text \<open>
  The rest of \<open>auth/mod.rs\<close>: the session cookie, brute-force accounting and lockout, and
  \<open>auth_middleware\<close>, which decides for each request whether the route runs. The process-wide
  statics of the module (failure map, global counters, cookie port) are fields of one state.
  A handler reads each clock once.
\<close>

subsection \<open>State\<close>

record clocks =
  mono :: instant
  wall_ms :: nat

text \<open>\<open>SystemTime::now()\<close> in whole seconds, and in milliseconds cut to \<open>u64\<close>.\<close>

definition unix :: "clocks \<Rightarrow> unix_secs" where
  "unix c = wall_ms c div 1000"

definition unix_ms :: "clocks \<Rightarrow> nat" where
  "unix_ms c = (if wall_ms c < u64_limit then wall_ms c else 0)"

record fail_record =
  fr_count :: u32
  fr_last_fail :: instant

record lockout_state =
  lk_fails :: "(ip_addr, fail_record) amap"
  lk_global_count :: u32
  lk_window_start :: unix_secs

definition no_failures :: lockout_state where
  "no_failures = \<lparr>lk_fails = [], lk_global_count = 0, lk_window_start = 0\<rparr>"

text \<open>The fields of \<open>settings.auth\<close> that access control reads, and \<open>ip_whitelist\<close> beside them.\<close>

record auth_settings =
  as_trusted_proxies :: "rstring list"
  as_ip_whitelist :: "rstring list"
  as_lockout_strategy :: string
  as_lockout_max_failures :: nat
  as_lockout_secs :: nat
  as_global_max_failures :: nat
  as_global_lockout_secs :: nat
  as_login_method :: string
  as_session_ttl_days :: nat

record request =
  rq_path :: rstring
  rq_query :: "rstring option"
  rq_headers :: headers

subsection \<open>Cookies and tokens\<close>

definition session_cookie_name :: "nat \<Rightarrow> rstring" where
  "session_cookie_name port = lit ''dinotty_session_'' @ dec port"

text \<open>The cookie port is fixed by the first call; another port afterwards is a panic.\<close>

definition check_port_conflict :: "nat \<Rightarrow> nat \<Rightarrow> bool" where
  "check_port_conflict existing new \<longleftrightarrow> existing \<noteq> new"

definition set_session_cookie_port :: "nat \<Rightarrow> nat option \<Rightarrow> nat option option" where
  "set_session_cookie_port port cell =
     (case cell of
        None \<Rightarrow> Some (Some port)
      | Some existing \<Rightarrow> if check_port_conflict existing port then None else Some cell)"

text \<open>\<open>default_port\<close> with the build-time variable as parameter.\<close>

definition default_port :: "rstring option \<Rightarrow> nat" where
  "default_port env =
     (case env of
        None \<Rightarrow> 8999
      | Some s \<Rightarrow> (case parse_unsigned 65536 s of Some p \<Rightarrow> p | None \<Rightarrow> 8999))"

definition configured_session_cookie_port :: "rstring option \<Rightarrow> nat option \<Rightarrow> nat" where
  "configured_session_cookie_port env cell = (case cell of Some p \<Rightarrow> p | None \<Rightarrow> default_port env)"

fun find_cookie :: "rstring \<Rightarrow> rstring list \<Rightarrow> rstring option" where
  "find_cookie prefix [] = None"
| "find_cookie prefix (pair # pairs) =
     (case strip_prefix prefix (trim pair) of Some rest \<Rightarrow> Some rest | None \<Rightarrow> find_cookie prefix pairs)"

definition extract_session_cookie :: "headers \<Rightarrow> nat \<Rightarrow> rstring option" where
  "extract_session_cookie hs port =
     (case header_str hs ''cookie'' of
        None \<Rightarrow> None
      | Some raw \<Rightarrow> find_cookie (session_cookie_name port @ lit ''='') (split_on 59 raw))"

definition bearer :: "headers \<Rightarrow> rstring option" where
  "bearer hs =
     (case header_str hs ''authorization'' of
        None \<Rightarrow> None
      | Some v \<Rightarrow> map_option trim (strip_prefix (lit ''Bearer '') v))"

definition check_token :: "headers \<Rightarrow> rstring \<Rightarrow> bool" where
  "check_token hs token = (case bearer hs of Some t \<Rightarrow> constant_time_eq t token | None \<Rightarrow> False)"

definition has_valid_session_cookie :: "headers \<Rightarrow> nat \<Rightarrow> instant \<Rightarrow> session_store \<Rightarrow> bool \<times> session_store" where
  "has_valid_session_cookie hs port now s =
     (case extract_session_cookie hs port of
        None \<Rightarrow> (False, s)
      | Some sid \<Rightarrow> validate_at now sid s)"

definition has_valid_auth :: "headers \<Rightarrow> nat \<Rightarrow> instant \<Rightarrow> rstring \<Rightarrow> session_store \<Rightarrow> bool \<times> session_store" where
  "has_valid_auth hs port now token s =
     (let (ok, s') = has_valid_session_cookie hs port now s in
      if ok then (True, s') else (check_token hs token, s'))"

subsection \<open>Brute-force accounting\<close>

definition record_auth_failure :: "ip_addr \<Rightarrow> nat \<Rightarrow> clocks \<Rightarrow> lockout_state \<Rightarrow> u32 \<times> lockout_state" where
  "record_auth_failure ip global_lockout_secs now l =
     (let old = (case map_of (lk_fails l) ip of Some r \<Rightarrow> fr_count r | None \<Rightarrow> 0);
          count = old + 1;
          l = l\<lparr>lk_fails := al_put ip \<lparr>fr_count = count, fr_last_fail = mono now\<rparr> (lk_fails l)\<rparr> in
      (count,
       if global_lockout_secs < unix now - lk_window_start l
       then l\<lparr>lk_global_count := 1, lk_window_start := unix now\<rparr>
       else l\<lparr>lk_global_count := lk_global_count l + 1\<rparr>))"

definition get_fail_count :: "ip_addr \<Rightarrow> lockout_state \<Rightarrow> u32" where
  "get_fail_count ip l = (case map_of (lk_fails l) ip of Some r \<Rightarrow> fr_count r | None \<Rightarrow> 0)"

definition check_lockout :: "ip_addr \<Rightarrow> auth_settings \<Rightarrow> clocks \<Rightarrow> lockout_state \<Rightarrow> nat option \<times> lockout_state" where
  "check_lockout real_ip cfg now l =
     (if as_lockout_strategy cfg = ''off'' then (None, l)
      else if as_lockout_strategy cfg = ''global'' then
        (if as_global_max_failures cfg \<le> unat (lk_global_count l) \<and>
            unix now - lk_window_start l < as_global_lockout_secs cfg
         then (Some (as_global_lockout_secs cfg - (unix now - lk_window_start l)), l)
         else (None, l))
      else case map_of (lk_fails l) real_ip of
        None \<Rightarrow> (None, l)
      | Some rec \<Rightarrow>
          if as_lockout_max_failures cfg \<le> unat (fr_count rec) then
            (let elapsed = as_secs (duration_since (mono now) (fr_last_fail rec)) in
             if elapsed < as_lockout_secs cfg then (Some (as_lockout_secs cfg - elapsed), l)
             else (None, l\<lparr>lk_fails := al_del real_ip (lk_fails l)\<rparr>))
          else (None, l))"

subsection \<open>The middleware\<close>

text \<open>Paths let through before any check, and paths that leave authentication to their own handler.\<close>

definition public_path :: "rstring \<Rightarrow> bool" where
  "public_path path \<longleftrightarrow>
     path = lit ''/'' \<or> path = lit ''/api/token-configured'' \<or> path = lit ''/manifest.json'' \<or>
     path = lit ''/sw.js'' \<or> path = lit ''/logo.png'' \<or>
     starts_with path (lit ''/assets/'') \<or> starts_with path (lit ''/icons/'')"

definition self_checked_path :: "rstring \<Rightarrow> bool" where
  "self_checked_path path \<longleftrightarrow>
     path = lit ''/ws/events'' \<or> starts_with path (lit ''/preview/'') \<or> starts_with path (lit ''/__srv/'')"

definition login_path :: "rstring \<Rightarrow> bool" where
  "login_path path \<longleftrightarrow> path = lit ''/api/auth'' \<or> path = lit ''/api/auth/request-code''"

definition is_agent_managed_path :: "rstring \<Rightarrow> bool" where
  "is_agent_managed_path path =
     (case split_on 47 (dropWhile (\<lambda>c. c = 47) path) of
        [a, b] \<Rightarrow> (a = lit ''api'' \<and> b = lit ''tokens'') \<or>
                  (a = lit ''mcp'' \<and> (b = lit ''sse'' \<or> b = lit ''message''))
      | [a, b, c, d] \<Rightarrow> a = lit ''api'' \<and>
          (b = lit ''tokens'' \<or>
           b = lit ''sessions'' \<and> (d = lit ''run'' \<or> d = lit ''send'' \<or> d = lit ''read''))
      | a # b # rest \<Rightarrow> a = lit ''api'' \<and> b = lit ''tokens''
      | _ \<Rightarrow> False)"

datatype gate =
    Pass
  | Forbidden string
  | TooManyRequests nat
  | Unauthorized

record gate_state =
  gs_sessions :: session_store
  gs_lockout :: lockout_state

text \<open>The part after the whitelist: login routes, lockout, agent routes, cookie, bearer token.\<close>

definition credential_gate ::
  "request \<Rightarrow> rstring \<Rightarrow> auth_settings \<Rightarrow> ip_addr \<Rightarrow> nat \<Rightarrow> clocks \<Rightarrow> gate_state \<Rightarrow> gate \<times> gate_state" where
  "credential_gate rq token cfg real_ip port now g =
     (if login_path (rq_path rq) then (Pass, g)
      else case check_lockout real_ip cfg now (gs_lockout g) of
        (Some retry_after, l) \<Rightarrow> (TooManyRequests retry_after, g\<lparr>gs_lockout := l\<rparr>)
      | (None, l) \<Rightarrow>
          let g = g\<lparr>gs_lockout := l\<rparr> in
          if is_agent_managed_path (rq_path rq) then (Pass, g)
          else let (ok, s) = has_valid_session_cookie (rq_headers rq) port (mono now) (gs_sessions g);
                   g = g\<lparr>gs_sessions := s\<rparr> in
            if ok then (Pass, g)
            else if check_token (rq_headers rq) token then (Pass, g)
            else (Unauthorized, g))"

definition auth_middleware ::
  "request \<Rightarrow> rstring \<Rightarrow> auth_settings \<Rightarrow> ip_addr \<Rightarrow> nat \<Rightarrow> clocks \<Rightarrow> gate_state \<Rightarrow> gate \<times> gate_state" where
  "auth_middleware rq token cfg client_ip port now g =
     (let path = rq_path rq in
      if token = [] then (Pass, g)
      else if public_path path then (Pass, g)
      else if self_checked_path path then (Pass, g)
      else
        let real_ip = real_client_ip (rq_headers rq) client_ip (as_trusted_proxies cfg);
            cross_site = is_cross_site_browser_request (rq_headers rq) in
        if path = lit ''/api/auto-token'' \<and> (\<not> is_loopback real_ip \<or> cross_site)
        then (Forbidden ''auto-token is only available from localhost'', g)
        else if is_ip_whitelisted real_ip (as_ip_whitelist cfg) then
          (if cross_site then (Forbidden ''cross-site requests are not allowed'', g) else (Pass, g))
        else credential_gate rq token cfg real_ip port now g)"

end
