(* ===== verification/AuthHandlers.thy ===== *)
theory AuthHandlers
  imports AuthGate
begin

section \<open>The authentication endpoints\<close>

text \<open>
  \<open>auth/handlers.rs\<close>: login by token or by verification code, requesting a code, logout, the
  session list and its revocations, and the master token. A handler maps the request and the state
  to a response and the new state; what it publishes on the event bus and writes to the audit log
  is appended to two logs of the state. Fresh identifiers and the drawn code number are parameters.
\<close>

subsection \<open>State and responses\<close>

datatype bus_event =
    AuthLoginFailed ip_addr string u32 "nat option"
  | VerificationCode rstring rstring nat
  | VerificationCodeConsumed rstring ip_addr "rstring option" nat

datatype audit_detail =
    DIp ip_addr
  | DFailed ip_addr string u32
  | DRequest rstring ip_addr
  | DBy string
  | DEmpty

record audit_entry =
  ae_token_id :: rstring
  ae_action :: string
  ae_resource :: string
  ae_details :: audit_detail

record auth_state =
  au_sessions :: session_store
  au_codes :: code_store
  au_lockout :: lockout_state
  au_token :: rstring
  au_saved_token :: rstring
  au_events :: "bus_event list"
  au_audit :: "audit_entry list"

record response =
  rs_status :: nat
  rs_error :: string
  rs_cookie :: "rstring option"
  rs_retry :: "nat option"
  rs_request_id :: "rstring option"
  rs_token :: "rstring option"

definition reply :: "nat \<Rightarrow> string \<Rightarrow> response" where
  "reply status err = \<lparr>rs_status = status, rs_error = err, rs_cookie = None, rs_retry = None,
     rs_request_id = None, rs_token = None\<rparr>"

datatype login_body = LToken rstring | LCode rstring rstring

definition publish :: "bus_event \<Rightarrow> auth_state \<Rightarrow> auth_state" where
  "publish e st = st\<lparr>au_events := au_events st @ [e]\<rparr>"

definition audit :: "rstring \<Rightarrow> string \<Rightarrow> string \<Rightarrow> audit_detail \<Rightarrow> auth_state \<Rightarrow> auth_state" where
  "audit actor act res d st =
     st\<lparr>au_audit := au_audit st @ [\<lparr>ae_token_id = actor, ae_action = act, ae_resource = res, ae_details = d\<rparr>]\<rparr>"

subsection \<open>Cookies\<close>

text \<open>\<open>ttl_days * 86_400\<close> is \<open>u64\<close> arithmetic and wraps in a release build.\<close>

definition cookie_max_age :: "nat \<Rightarrow> nat" where
  "cookie_max_age ttl_days = (ttl_days * 86400) mod u64_limit"

definition build_session_cookie :: "rstring \<Rightarrow> nat \<Rightarrow> nat \<Rightarrow> rstring" where
  "build_session_cookie session_id ttl_days port =
     session_cookie_name port @ lit ''='' @ session_id @
     lit ''; HttpOnly; SameSite=Lax; Path=/; Max-Age='' @ dec (cookie_max_age ttl_days)"

definition clear_session_cookie :: "nat \<Rightarrow> rstring" where
  "clear_session_cookie port =
     session_cookie_name port @ lit ''=; HttpOnly; SameSite=Lax; Path=/; Max-Age=0''"

subsection \<open>Login\<close>

text \<open>A failed attempt: counted, published and audited, as three branches of \<open>login\<close> do.\<close>

definition login_failed :: "ip_addr \<Rightarrow> string \<Rightarrow> u32 \<Rightarrow> nat option \<Rightarrow> auth_state \<Rightarrow> auth_state" where
  "login_failed ip reason attempt_count locked_until st =
     audit (lit ''anonymous'') ''login_failed'' ''auth'' (DFailed ip reason attempt_count)
       (publish (AuthLoginFailed ip reason attempt_count locked_until) st)"

definition count_failure :: "ip_addr \<Rightarrow> string \<Rightarrow> auth_settings \<Rightarrow> clocks \<Rightarrow> auth_state \<Rightarrow> auth_state" where
  "count_failure ip reason cfg now st =
     (let (n, l) = record_auth_failure ip (as_global_lockout_secs cfg) now (au_lockout st) in
      login_failed ip reason n None (st\<lparr>au_lockout := l\<rparr>))"

definition create_session_response ::
  "ip_addr \<Rightarrow> headers \<Rightarrow> auth_settings \<Rightarrow> nat \<Rightarrow> clocks \<Rightarrow> rstring \<Rightarrow> auth_state \<Rightarrow> response \<times> auth_state" where
  "create_session_response ip hs cfg port now uuid st =
     (let st = st\<lparr>au_sessions := create_session uuid (mono now) (Some ip) (header_str hs ''user-agent'') (au_sessions st)\<rparr>;
          cookie = build_session_cookie uuid (as_session_ttl_days cfg) port in
      ((reply 200 '''')\<lparr>rs_cookie := Some cookie\<rparr>, audit uuid ''login'' ''session'' (DIp ip) st))"

definition handle_token_login ::
  "ip_addr \<Rightarrow> headers \<Rightarrow> rstring \<Rightarrow> rstring \<Rightarrow> auth_settings \<Rightarrow> nat \<Rightarrow> clocks \<Rightarrow> rstring \<Rightarrow> auth_state \<Rightarrow>
     response \<times> auth_state" where
  "handle_token_login ip hs token stored cfg port now uuid st =
     (if \<not> constant_time_eq (trim token) stored
      then (reply 401 ''unauthorized'', count_failure ip ''token_mismatch'' cfg now st)
      else create_session_response ip hs cfg port now uuid st)"

fun outcome_error :: "verify_outcome \<Rightarrow> string" where
  "outcome_error VOk = ''''"
| "outcome_error VNotFound = ''code not found''"
| "outcome_error VExpired = ''code expired''"
| "outcome_error VConsumed = ''code already used''"
| "outcome_error VTooManyAttempts = ''too many attempts''"
| "outcome_error VMismatch = ''code mismatch''"

definition handle_code_login ::
  "ip_addr \<Rightarrow> headers \<Rightarrow> rstring \<Rightarrow> rstring \<Rightarrow> auth_settings \<Rightarrow> nat \<Rightarrow> clocks \<Rightarrow> rstring \<Rightarrow> auth_state \<Rightarrow>
     response \<times> auth_state" where
  "handle_code_login ip hs request_id code cfg port now uuid st =
     (let (outcome, cs) = verify_code request_id code (mono now) (au_codes st);
          st = st\<lparr>au_codes := cs\<rparr> in
      if outcome = VOk then
        create_session_response ip hs cfg port now uuid
          (audit (lit ''anonymous'') ''login'' ''verification_code'' (DRequest request_id ip)
            (publish (VerificationCodeConsumed request_id ip (header_str hs ''user-agent'') (unix_ms now)) st))
      else (reply 401 (outcome_error outcome), st))"

definition login ::
  "login_body \<Rightarrow> headers \<Rightarrow> ip_addr \<Rightarrow> auth_settings \<Rightarrow> nat \<Rightarrow> clocks \<Rightarrow> rstring \<Rightarrow> auth_state \<Rightarrow> response \<times> auth_state" where
  "login body hs addr cfg port now uuid st =
     (let stored = au_token st in
      if stored = [] then (reply 400 ''no token configured'', st)
      else
        let ip = real_client_ip hs addr (as_trusted_proxies cfg) in
        case check_lockout ip cfg now (au_lockout st) of
          (Some retry_after, l) \<Rightarrow>
            let st = st\<lparr>au_lockout := l\<rparr> in
            ((reply 429 ''too many failed attempts, please try again later'')\<lparr>rs_retry := Some retry_after\<rparr>,
             login_failed ip ''locked_out'' (get_fail_count ip l) (Some (u64_saturating_add (unix now) retry_after)) st)
        | (None, l) \<Rightarrow>
            let st = st\<lparr>au_lockout := l\<rparr> in
            (case body of
               LToken token \<Rightarrow>
                 if trim token = [] then (reply 400 ''token cannot be empty'', st)
                 else if as_login_method cfg = ''token''
                 then handle_token_login ip hs token stored cfg port now uuid st
                 else (reply 401 ''login method mismatch'', count_failure ip ''wrong_login_method'' cfg now st)
             | LCode request_id code \<Rightarrow>
                 if trim request_id = [] \<or> trim code = [] then (reply 400 ''request_id and code are required'', st)
                 else if as_login_method cfg = ''verification_code''
                 then handle_code_login ip hs request_id code cfg port now uuid st
                 else (reply 401 ''login method mismatch'', count_failure ip ''wrong_login_method'' cfg now st)))"

subsection \<open>Codes, logout and sessions\<close>

definition request_code ::
  "headers \<Rightarrow> ip_addr \<Rightarrow> auth_settings \<Rightarrow> clocks \<Rightarrow> rstring \<Rightarrow> nat \<Rightarrow> auth_state \<Rightarrow> response \<times> auth_state" where
  "request_code hs addr cfg now uuid n st =
     (let ip = real_client_ip hs addr (as_trusted_proxies cfg) in
      case create_code ip (mono now) uuid n (au_codes st) of
        (Inl _, cs) \<Rightarrow> (reply 429 ''rate limited, try again later'', st\<lparr>au_codes := cs\<rparr>)
      | (Inr (request_id, code), cs) \<Rightarrow>
          ((reply 200 '''')\<lparr>rs_request_id := Some request_id\<rparr>,
           audit (lit ''anonymous'') ''request_verification_code'' ''auth'' (DIp ip)
             (publish (VerificationCode request_id code (unix_ms now)) (st\<lparr>au_codes := cs\<rparr>))))"

definition logout :: "headers \<Rightarrow> nat \<Rightarrow> auth_state \<Rightarrow> response \<times> auth_state" where
  "logout hs port st =
     ((reply 200 '''')\<lparr>rs_cookie := Some (clear_session_cookie port)\<rparr>,
      (case extract_session_cookie hs port of
         None \<Rightarrow> st
       | Some sid \<Rightarrow>
           let st = audit sid ''logout'' ''session'' DEmpty st in
           st\<lparr>au_sessions := snd (revoke_session sid (au_sessions st))\<rparr>))"

text \<open>\<open>put_settings\<close> itself is the settings component's; here only the time-to-live it hands on.\<close>

definition put_settings_with_session_ttl :: "nat \<Rightarrow> auth_state \<Rightarrow> auth_state" where
  "put_settings_with_session_ttl days st = st\<lparr>au_sessions := update_ttl_days days (au_sessions st)\<rparr>"

definition revoke_session_endpoint :: "rstring \<Rightarrow> auth_state \<Rightarrow> bool \<times> auth_state" where
  "revoke_session_endpoint sid st =
     (let (ok, ss) = revoke_session sid (au_sessions st) in
      (ok, audit sid ''revoke'' ''session'' (DBy ''user'') (st\<lparr>au_sessions := ss\<rparr>)))"

definition revoke_other_sessions :: "headers \<Rightarrow> nat \<Rightarrow> auth_state \<Rightarrow> auth_state" where
  "revoke_other_sessions hs port st =
     st\<lparr>au_sessions := (case extract_session_cookie hs port of
        Some sid \<Rightarrow> revoke_all_except sid (au_sessions st)
      | None \<Rightarrow> revoke_all_sessions (au_sessions st))\<rparr>"

subsection \<open>The master token\<close>

definition token_configured :: "auth_state \<Rightarrow> bool" where
  "token_configured st \<longleftrightarrow> au_token st \<noteq> []"

text \<open>\<open>server_mode\<close> is the build feature \<open>server\<close>.\<close>

definition auto_token :: "bool \<Rightarrow> ip_addr \<Rightarrow> auth_state \<Rightarrow> response" where
  "auto_token server_mode addr st =
     (if server_mode then reply 404 ''not available''
      else if \<not> is_loopback addr then reply 403 ''auto-token is only available from localhost''
      else if au_token st = [] then reply 404 ''no token''
      else (reply 200 '''')\<lparr>rs_token := Some (au_token st)\<rparr>)"

text \<open>\<open>saves\<close> tells whether \<open>settings::save_token\<close> succeeds.\<close>

definition update_master_token :: "bool \<Rightarrow> rstring \<Rightarrow> auth_state \<Rightarrow> response \<times> auth_state" where
  "update_master_token saves token st =
     (let new_token = trim token in
      if new_token = [] then (reply 400 ''token cannot be empty'', st)
      else
        let st = st\<lparr>au_token := new_token\<rparr> in
        if \<not> saves then (reply 500 ''failed to save'', st)
        else (reply 200 '''', st\<lparr>au_saved_token := new_token, au_sessions := revoke_all_sessions (au_sessions st)\<rparr>))"

end
