(* ===== verification/AuthStoreProps.thy ===== *)
theory AuthStoreProps
  imports AuthSession AuthCode
begin

section \<open>What the session and code stores guarantee\<close>

text \<open>
  Revocation is final, a session lives as long as it is used, a verification code is accepted at
  most once after at most five guesses, and an address gets a bounded number of codes per window.
\<close>

subsection \<open>Sessions\<close>

text \<open>
  Revocation is final. After a session is revoked, alone, with all others or with all others
  but one, no check of it succeeds, whatever operations follow, unless a session with the same id
  is created again.
\<close>

theorem revoked_session_stays_out:
  assumes "list_all (\<lambda>op. \<not> session_issues k op) ops" and "k \<noteq> keep"
    and "s' = snd (revoke_session k s) \<or> s' = revoke_all_sessions s \<or> s' = revoke_all_except keep s"
  shows "list_all (\<lambda>(op, r). \<not> session_grants k op r) (fst (run_steps session_step ops s'))"
proof -
  have "\<not> session_live k (snd (revoke_session k s))" by (simp add: revoke_session_def drop_session_dead)
  moreover have "\<not> session_live k (revoke_all_sessions s)" "\<not> session_live k (revoke_all_except keep s)"
    using assms(2) by (auto simp: session_live_def revoke_all_sessions_def revoke_all_except_def)
  ultimately have "\<not> session_live k s'" using assms(3) by blast
  then show ?thesis using assms(1) by (intro ses.never_granted) simp_all
qed

lemma revoked_session_stays_out_witness:
  "list_all (\<lambda>(op, r). \<not> session_grants [97] op r)
     (fst (run_steps session_step [SValidate [97] 5, SCreate [98] 6 None None, SValidate [97] 7]
       (snd (revoke_session [97] (create_session [97] 0 None None (new_session_store 7))))))"
  by (rule revoked_session_stays_out [where keep = "[98]" and s = "create_session [97] 0 None None (new_session_store 7)"])
    (simp_all add: session_issues_def)

text \<open>The session was used at \<open>t\<close>, up to the lag that the write throttle allows.\<close>

definition used_at :: "rstring \<Rightarrow> instant \<Rightarrow> session_store \<Rightarrow> bool" where
  "used_at k t s \<longleftrightarrow> (\<exists>e. map_of (ss_sessions s) k = Some e \<and> se_last_used e \<le> t \<and> t \<le> se_last_used e + ss_throttle s)"

lemma validate_config [simp]:
  "current_ttl (snd (validate_at t k s)) = current_ttl s" "ss_throttle (snd (validate_at t k s)) = ss_throttle s"
  by (auto simp: validate_at_cases current_ttl_def drop_session_def split: option.splits)

lemma validate_use:
  assumes "used_at k t0 s" "t0 \<le> t" "ss_throttle s \<le> current_ttl s"
  shows "if fst (validate_at t k s) then used_at k t (snd (validate_at t k s)) \<and> t - t0 \<le> current_ttl s
         else \<not> session_live k (snd (validate_at t k s)) \<and> current_ttl s - ss_throttle s < t - t0"
proof -
  from assms(1) obtain e where e: "map_of (ss_sessions s) k = Some e" "se_last_used e \<le> t0" "t0 \<le> se_last_used e + ss_throttle s"
    by (auto simp: used_at_def)
  consider "current_ttl s < t - se_last_used e" | "t - se_last_used e \<le> current_ttl s" "t - se_last_used e < ss_throttle s"
    | "t - se_last_used e \<le> current_ttl s" "ss_throttle s \<le> t - se_last_used e" by linarith
  then show ?thesis
    by cases (use e assms(2,3) in \<open>auto simp: validate_at_cases duration_since_def drop_session_dead used_at_def map_of_al_put\<close>)
qed

abbreviation checks :: "rstring \<Rightarrow> instant list \<Rightarrow> session_store \<Rightarrow> bool list" where
  "checks k ts s \<equiv> map snd (fst (run_steps session_step (map (SValidate k) ts) s))"

lemma checks_dead: "\<not> session_live k s \<Longrightarrow> list_all Not (checks k ts s)"
  by (induction ts arbitrary: s)
    (simp_all add: run_steps_Cons validate_at_cases live_iff del: run_steps.simps(2) split: option.splits)

lemma checks_length [simp]: "length (checks k ts s) = length ts"
  by (induction ts arbitrary: s) (simp_all add: run_steps_Cons del: run_steps.simps(2))

lemma checks_Cons: "checks k (t # ts) s = fst (validate_at t k s) # checks k ts (snd (validate_at t k s))"
  by (simp add: run_steps_Cons del: run_steps.simps(2))

lemma checks_kept_alive:
  "used_at k t0 s \<Longrightarrow> ss_throttle s \<le> current_ttl s \<Longrightarrow> sorted (t0 # ts) \<Longrightarrow>
     (\<And>i. i < length ts \<Longrightarrow> ts ! i - (t0 # ts) ! i \<le> current_ttl s - ss_throttle s) \<Longrightarrow>
     list_all (\<lambda>b. b) (checks k ts s)"
proof (induction ts arbitrary: t0 s)
  case (Cons t ts)
  from Cons.prems(4) [of 0] have "t - t0 \<le> current_ttl s - ss_throttle s" by simp
  with validate_use [of k t0 s t] Cons.prems(1-3) have v: "fst (validate_at t k s)" "used_at k t (snd (validate_at t k s))"
    by (auto split: if_splits)
  have "list_all (\<lambda>b. b) (checks k ts (snd (validate_at t k s)))"
  proof (rule Cons.IH [OF v(2)])
    show "ts ! i - (t # ts) ! i \<le> current_ttl (snd (validate_at t k s)) - ss_throttle (snd (validate_at t k s))"
      if "i < length ts" for i using Cons.prems(4) [of "Suc i"] that by simp
  qed (use Cons.prems in simp_all)
  with v(1) show ?case by (simp only: checks_Cons list.pred_inject(2) simp_thms)
qed simp

lemma checks_idle:
  "used_at k t0 s \<or> \<not> session_live k s \<Longrightarrow> ss_throttle s \<le> current_ttl s \<Longrightarrow> sorted (t0 # ts) \<Longrightarrow>
     i < length ts \<Longrightarrow> current_ttl s < ts ! i - (t0 # ts) ! i \<Longrightarrow> i \<le> j \<Longrightarrow> j < length ts \<Longrightarrow> \<not> checks k ts s ! j"
proof (induction ts arbitrary: t0 s i j)
  case (Cons t ts)
  let ?s' = "snd (validate_at t k s)"
  have after: "used_at k t ?s' \<or> \<not> session_live k ?s'"
    using Cons.prems(1-3) validate_use [of k t0 s t] session_dead_step [of k s "SValidate k t"]
    by (auto simp: session_issues_def split: if_splits)
  show ?case
  proof (cases i)
    case 0
    with Cons.prems have "\<not> fst (validate_at t k s)" "\<not> session_live k ?s'"
      using validate_use [of k t0 s t] session_dead_step [of k s "SValidate k t"] ses.granted_is_live [where s = s and k = k and op = "SValidate k t"]
      by (auto simp: session_issues_def session_grants_def split: if_splits)
    with checks_dead [of k ?s' ts] Cons.prems(7) show ?thesis
      by (cases j) (auto simp only: checks_Cons list_all_length nth_Cons_0 nth_Cons_Suc checks_length length_Cons)
  next
    case (Suc i')
    then obtain j' where j: "j = Suc j'" using Cons.prems(6) by (cases j) auto
    have "\<not> checks k ts ?s' ! j'"
      by (rule Cons.IH [OF after, where i = i']) (use Cons.prems Suc j in simp_all)
    then show ?thesis by (simp only: j checks_Cons nth_Cons_Suc not_False_eq_True)
  qed
qed simp

text \<open>
  A session lives while it is used. Checks of a session at times that never lie further apart
  than the time-to-live less the write throttle all succeed, although the throttle skips most
  writes of \<open>last_used\<close>; and once two consecutive checks lie further apart than the time-to-live,
  that check and every later one fails.
\<close>

theorem session_lives_while_used:
  assumes "sorted (t0 # ts)" and "ss_throttle s \<le> current_ttl s"
  shows "((\<forall>i<length ts. ts ! i - (t0 # ts) ! i \<le> current_ttl s - ss_throttle s) \<longrightarrow>
      list_all (\<lambda>b. b) (map snd (fst (run_steps session_step (map (SValidate k) ts) (create_session k t0 ip ua s))))) \<and>
    (\<forall>i j. i \<le> j \<and> j < length ts \<and> current_ttl s < ts ! i - (t0 # ts) ! i \<longrightarrow>
      \<not> map snd (fst (run_steps session_step (map (SValidate k) ts) (create_session k t0 ip ua s))) ! j)"
proof -
  let ?s = "create_session k t0 ip ua s"
  have u: "used_at k t0 ?s" by (simp add: used_at_def create_session_def map_of_al_put)
  have c: "current_ttl ?s = current_ttl s" "ss_throttle ?s = ss_throttle s"
    by (simp_all add: create_session_def current_ttl_def)
  have "list_all (\<lambda>b. b) (checks k ts ?s)"
    if "\<forall>i<length ts. ts ! i - (t0 # ts) ! i \<le> current_ttl s - ss_throttle s"
    using checks_kept_alive [OF u _ assms(1)] assms(2) c that by simp
  moreover have "\<not> checks k ts ?s ! j" if "i \<le> j" "j < length ts" "current_ttl s < ts ! i - (t0 # ts) ! i" for i j
    by (rule checks_idle [of k t0 ?s ts i j]) (use u c assms that in simp_all)
  ultimately show ?thesis by blast
qed

lemma session_lives_while_used_witness:
  "\<not> map snd (fst (run_steps session_step (map (SValidate [97]) [5, 700000 * NANOS])
      (create_session [97] 0 None None (new_session_store 7)))) ! 1"
proof -
  have c: "current_ttl (new_session_store 7) = 604800 * NANOS" "ss_throttle (new_session_store 7) = 60 * NANOS"
    by (simp_all add: new_session_store_def with_throttle_def current_ttl_def ttl_from_days_def u64_saturating_mul_def
      u64_limit_def from_secs_def LAST_USED_WRITE_THROTTLE_def SECS_PER_DAY_def)
  have "sorted [0, 5, 700000 * NANOS]" "ss_throttle (new_session_store 7) \<le> current_ttl (new_session_store 7)"
    by (simp_all only: c) (simp_all add: NANOS_def)
  from session_lives_while_used [OF this, of "[97]" None None] show ?thesis
    by (elim conjE allE [of _ "1 :: nat"]) (simp add: c NANOS_def)
qed

subsection \<open>Verification codes\<close>

text \<open>The entry of a request keeps the code that was issued for it.\<close>

definition code_is :: "rstring \<Rightarrow> rstring \<Rightarrow> code_store \<Rightarrow> bool" where
  "code_is k code s \<longleftrightarrow> (case map_of (cs_codes s) k of Some e \<Rightarrow> ce_code e = code | None \<Rightarrow> True)"

lemma code_is_verify: "code_is k code s \<Longrightarrow> code_is k code (snd (verify_code k' c now s))"
  by (auto simp: code_is_def verify_code_def Let_def put_code_def drop_code_def map_of_al_put map_of_al_del split: option.splits)

lemma code_is_step:
  assumes "codes_wf s" "code_is k code s" "\<not> code_issues k op"
  shows "code_is k code (snd (code_step op s))"
proof (cases op)
  case (CCleanup now)
  with assms(1,2) show ?thesis
    by (simp add: code_is_def cleanup_codes_def codes_wf_def
        map_of_filter_kv [where P = "\<lambda>_ e. \<not> ce_consumed e \<and> duration_since now (ce_created_at e) \<le> code_ttl s"]
        split: option.splits)
next
  case (CVerify k' c now)
  with assms(2) show ?thesis by (simp add: code_is_verify split_beta)
qed (use assms in \<open>auto simp: code_issues_def split_beta code_is_def create_code_def Let_def map_of_al_put update_code_ttl_def update_rate_limit_def\<close>)

abbreviation guesses :: "rstring \<Rightarrow> code_op list \<Rightarrow> code_store \<Rightarrow> (code_op \<times> code_result) list" where
  "guesses k ops s \<equiv> filter (\<lambda>(op, r). code_guess k op r) (fst (run_steps code_step ops s))"

abbreviation accepted :: "rstring \<Rightarrow> code_op list \<Rightarrow> code_store \<Rightarrow> (code_op \<times> code_result) list" where
  "accepted k ops s \<equiv> filter (\<lambda>(op, r). code_grants k op r) (fst (run_steps code_step ops s))"

lemma guess_step:
  assumes "codes_wf s" "\<not> code_issues k op"
  shows "(if code_guess k op (fst (code_step op s)) then 1 else 0) + guesses_left k (snd (code_step op s)) \<le> guesses_left k s"
proof (cases op)
  case (CVerify k' c now)
  show ?thesis
  proof (cases "map_of (cs_codes s) k'")
    case (Some e)
    with attempts_below [OF assms(1) Some] show ?thesis
      by (auto simp: CVerify verify_code_def Let_def guesses_left_put guesses_left_drop code_guess_def split_beta)
        (auto simp: guesses_left_def MAX_ATTEMPTS_def)
  qed (simp add: CVerify code_guess_def verify_code_def)
qed (use assms guesses_left_cleanup [OF assms(1)] in \<open>auto simp: code_guess_def code_issues_def guesses_left_create split_beta\<close>)

lemma guesses_bounded:
  "codes_wf s \<Longrightarrow> list_all (\<lambda>op. \<not> code_issues k op) ops \<Longrightarrow> length (guesses k ops s) \<le> guesses_left k s"
proof (induction ops arbitrary: s)
  case (Cons op ops)
  have "length (guesses k ops (snd (code_step op s))) \<le> guesses_left k (snd (code_step op s))"
    using Cons by (intro Cons.IH) (simp_all add: codes_wf_step)
  with guess_step [of s k op] Cons.prems show ?case by (simp add: run_steps_Cons del: run_steps.simps(2) split: if_splits)
qed simp

lemma accepted_once:
  "codes_wf s \<Longrightarrow> list_all (\<lambda>op. \<not> code_issues k op) ops \<Longrightarrow> length (accepted k ops s) \<le> 1"
proof (induction ops arbitrary: s)
  case (Cons op ops)
  have wf: "codes_wf (snd (code_step op s))" using Cons.prems by (simp add: codes_wf_step)
  show ?case
  proof (cases "code_grants k op (fst (code_step op s))")
    case True
    then have "\<not> code_live k (snd (code_step op s))"
      by (auto simp: code_grants_def code_live_def split_beta granted_then_dead split: code_op.splits)
    from cod.never_granted [OF wf this, where ops = ops] Cons.prems have "accepted k ops (snd (code_step op s)) = []"
      by (simp add: list_all_iff filter_empty_conv split_beta)
    then show ?thesis by (simp add: run_steps_Cons del: run_steps.simps(2))
  next
    case False
    with Cons.IH [OF wf] Cons.prems show ?thesis by (simp add: run_steps_Cons del: run_steps.simps(2))
  qed
qed simp

lemma accepted_code:
  "codes_wf s \<Longrightarrow> code_is k code s \<Longrightarrow> list_all (\<lambda>op. \<not> code_issues k op) ops \<Longrightarrow>
     list_all (\<lambda>(op, r). case op of CVerify _ c _ \<Rightarrow> constant_time_eq code c | _ \<Rightarrow> False) (accepted k ops s)"
proof (induction ops arbitrary: s)
  case (Cons op ops)
  have "code_grants k op (fst (code_step op s)) \<Longrightarrow> case op of CVerify _ c _ \<Rightarrow> constant_time_eq code c | _ \<Rightarrow> False"
    using Cons.prems(2)
    by (auto simp: code_grants_def verify_code_def Let_def split_beta code_is_def split: code_op.splits option.splits if_splits)
  with Cons code_is_step codes_wf_step show ?case by (simp add: run_steps_Cons del: run_steps.simps(2))
qed simp

text \<open>
  C17. A verification code is good for one login and five guesses. From the moment it is issued,
  whatever creations, checks, setting changes and clean-ups follow (no other request getting the
  same id), at most five checks of its request compare the presented code, at most one is
  accepted, and the accepted one presented exactly the issued code.
\<close>

theorem code_used_once:
  assumes "codes_wf s" and "create_code ip now k n s = (Inr (k', code), s1)"
    and "list_all (\<lambda>op. \<not> code_issues k op) ops"
  shows "length (filter (\<lambda>(op, r). code_guess k op r) (fst (run_steps code_step ops s1))) \<le> 5 \<and>
    length (filter (\<lambda>(op, r). code_grants k op r) (fst (run_steps code_step ops s1))) \<le> 1 \<and>
    list_all (\<lambda>(op, r). case op of CVerify _ c _ \<Rightarrow> constant_time_eq code c | _ \<Rightarrow> False)
      (filter (\<lambda>(op, r). code_grants k op r) (fst (run_steps code_step ops s1)))"
proof -
  have s1: "s1 = snd (create_code ip now k n s)" and r: "fst (create_code ip now k n s) = Inr (k', code)"
    using assms(2) by simp_all
  have wf: "codes_wf s1" using codes_wf_create [OF assms(1)] by (simp add: s1)
  have "code_is k code s1" using r by (auto simp: s1 code_is_def create_code_def Let_def map_of_al_put split: if_splits)
  moreover have "guesses_left k s1 = 5" using r by (simp add: s1 guesses_left_create MAX_ATTEMPTS_def)
  ultimately show ?thesis
    using guesses_bounded [OF wf assms(3)] accepted_once [OF wf assms(3)] accepted_code [OF wf _ assms(3)] by auto
qed

lemma code_used_once_witness:
  "length (filter (\<lambda>(op, r). code_grants [97] op r) (fst (run_steps code_step
      [CVerify [97] (lit ''000007'') 5, CVerify [97] (lit ''000007'') 6]
      (snd (create_code (V4 1) 0 [97] 7 (new_code_store 300 5)))))) \<le> 1"
proof -
  have "\<exists>code. fst (create_code (V4 1) 0 [97] 7 (new_code_store 300 5)) = Inr ([97], code)"
    by (simp add: create_code_def Let_def rate_entry_def new_code_store_def)
  then obtain code where "create_code (V4 1) 0 [97] 7 (new_code_store 300 5) =
      (Inr ([97], code), snd (create_code (V4 1) 0 [97] 7 (new_code_store 300 5)))" by (metis prod.collapse)
  from code_used_once [OF codes_wf_new this, of "[CVerify [97] (lit ''000007'') 5, CVerify [97] (lit ''000007'') 6]"]
  show ?thesis by (simp only: code_issues_def code_op.case list.pred_inject not_False_eq_True simp_thms)
qed

text \<open>The codes the address can still get while every operation happens in \<open>[t, t + 60s)\<close>.\<close>

definition issue_budget :: "ip_addr \<Rightarrow> instant \<Rightarrow> code_store \<Rightarrow> nat" where
  "issue_budget ip t s =
     (case map_of (cs_rate s) ip of
        None \<Rightarrow> cs_limit s
      | Some w \<Rightarrow> (cs_limit s - rw_count w) + (if rw_start w < t then cs_limit s else 0))"

definition op_in :: "instant \<Rightarrow> code_op \<Rightarrow> bool" where
  "op_in t op = (case op of
      CCreate _ now _ _ \<Rightarrow> t \<le> now \<and> now < t + RATE_WINDOW
    | CVerify _ _ now \<Rightarrow> t \<le> now \<and> now < t + RATE_WINDOW
    | CCleanup now \<Rightarrow> t \<le> now \<and> now < t + RATE_WINDOW
    | CUpdateTtl _ \<Rightarrow> True
    | CUpdateLimit _ \<Rightarrow> False)"

definition issued_to :: "ip_addr \<Rightarrow> code_op \<Rightarrow> code_result \<Rightarrow> bool" where
  "issued_to ip op r = (case (op, r) of (CCreate ip' _ _ _, Issued (Inr _)) \<Rightarrow> ip' = ip | _ \<Rightarrow> False)"

lemma cs_rate_verify [simp]: "cs_rate (snd (verify_code k c now s)) = cs_rate s" "cs_limit (snd (verify_code k c now s)) = cs_limit s"
  by (auto simp: verify_code_def Let_def drop_code_def put_code_def split: option.splits)

lemma limit_step: "op_in t op \<Longrightarrow> cs_limit (snd (code_step op s)) = cs_limit s"
  by (cases op) (auto simp: op_in_def create_code_def Let_def cleanup_codes_def update_code_ttl_def split_beta)

lemma budget_step:
  assumes "codes_wf s" "op_in t op"
  shows "(if issued_to ip op (fst (code_step op s)) then 1 else 0) + issue_budget ip t (snd (code_step op s)) \<le> issue_budget ip t s"
proof (cases op)
  case (CCreate ip' now k n)
  with assms have "1 \<le> cs_limit s" "t \<le> now" "now < t + RATE_WINDOW" by (auto simp: op_in_def codes_wf_def)
  then show ?thesis
  proof (cases "ip' = ip")
    case True
    with \<open>1 \<le> cs_limit s\<close> \<open>t \<le> now\<close> \<open>now < t + RATE_WINDOW\<close> show ?thesis
      by (cases "map_of (cs_rate s) ip")
        (auto simp: CCreate create_code_def Let_def rate_entry_def issued_to_def issue_budget_def map_of_al_put duration_since_def)
  next
    case False
    then show ?thesis
      by (simp add: CCreate create_code_def Let_def issued_to_def issue_budget_def map_of_al_put split: option.splits)
  qed
next
  case (CCleanup now)
  with assms have "al_wf (cs_rate s)" "t \<le> now" "now < t + RATE_WINDOW" by (auto simp: op_in_def codes_wf_def)
  then show ?thesis
    by (simp add: CCleanup cleanup_codes_def issued_to_def issue_budget_def
        map_of_filter_kv [where P = "\<lambda>_ w. duration_since now (rw_start w) < RATE_WINDOW"] split: option.splits)
      (auto simp: duration_since_def)
qed (use assms in \<open>auto simp: op_in_def issued_to_def issue_budget_def split_beta update_code_ttl_def split: option.splits\<close>)

text \<open>
  The rate limit holds over any minute, not only over the minutes the code counts by. While
  all operations fall into one interval of the window's length and the limit is not changed, an
  address that has no window yet gets at most the limit, and any address at most what its old
  window still allows plus the limit, hence at most twice the limit.
\<close>

theorem codes_rate_limited:
  assumes "codes_wf s" and "list_all (op_in t) ops"
  shows "length (filter (\<lambda>(op, r). issued_to ip op r) (fst (run_steps code_step ops s)))
    \<le> (case map_of (cs_rate s) ip of
        None \<Rightarrow> cs_limit s
      | Some w \<Rightarrow> (cs_limit s - rw_count w) + (if rw_start w < t then cs_limit s else 0))"
  unfolding issue_budget_def [symmetric] using assms
proof (induction ops arbitrary: s)
  case (Cons op ops)
  have "length (filter (\<lambda>(op, r). issued_to ip op r) (fst (run_steps code_step ops (snd (code_step op s)))))
      \<le> issue_budget ip t (snd (code_step op s))"
    using Cons by (intro Cons.IH) (simp_all add: codes_wf_step)
  with budget_step [of s t op ip] Cons.prems show ?case
    by (simp add: run_steps_Cons del: run_steps.simps(2) split: if_splits)
qed simp

lemma codes_rate_limited_witness:
  "length (filter (\<lambda>(op, r). issued_to (V4 1) op r) (fst (run_steps code_step
      [CCreate (V4 1) 0 [97] 7, CCreate (V4 1) 1 [98] 8] (new_code_store 300 1)))) \<le> 1"
proof -
  have "list_all (op_in 0) [CCreate (V4 1) 0 [97] 7, CCreate (V4 1) 1 [98] 8]"
    by (simp add: op_in_def RATE_WINDOW_def from_secs_def NANOS_def)
  from codes_rate_limited [OF codes_wf_new this, of "V4 1" 300 1] show ?thesis
    by (simp add: new_code_store_def del: run_steps.simps)
qed

lemma length_dec: "n < 10 ^ Suc k \<Longrightarrow> length (dec n) \<le> Suc k"
proof (induction k arbitrary: n)
  case (Suc k)
  then have "n div 10 < 10 ^ Suc k" by (simp add: div_less_iff_less_mult)
  from Suc.IH [OF this] show ?case by (simp add: dec.simps [of n])
qed (simp add: dec.simps)

lemma undec_pad: "undec (replicate m 48 @ s) = undec s"
  by (induction m) (simp_all add: undec_def)

text \<open>
  Codes are six decimal digits, and different draws below one million give different codes.
\<close>

theorem codes_are_six_digits:
  assumes "n < 1000000"
  shows "length (generate_code n) = 6 \<and> list_all is_digit (generate_code n) \<and> undec (generate_code n) = n"
proof -
  have "n < 10 ^ Suc 5" using assms by simp
  from length_dec [OF this] have "length (dec n) \<le> 6" by simp
  then show ?thesis
    using dec_digits [of _ n] by (fastforce simp: generate_code_def undec_pad list_all_iff is_digit_def)
qed

lemma codes_are_six_digits_witness: "length (generate_code 42) = 6 \<and> undec (generate_code 42) = 42"
  using codes_are_six_digits [of 42] by simp

end
