(* ===== verification/AuthProps.thy ===== *)
theory AuthProps
  imports AuthHandlers AuthStoreProps
begin

section \<open>What the gate and the login endpoint guarantee\<close>

text \<open>
  When a protected route runs, which logins create a session, how many wrong guesses an address
  gets, that session cookies of two servers do not clash, and the places where the code does less
  than it means to.
\<close>

subsection \<open>Lockout\<close>

lemma check_lockout_state:
  "snd (check_lockout ip cfg now l) = l \<or>
   snd (check_lockout ip cfg now l) = l\<lparr>lk_fails := al_del ip (lk_fails l)\<rparr>"
  by (auto simp: check_lockout_def Let_def split: option.splits)

lemma fail_count_check: "get_fail_count k (snd (check_lockout ip cfg now l)) = get_fail_count k l \<or>
    get_fail_count k (snd (check_lockout ip cfg now l)) = 0"
  using check_lockout_state [of ip cfg now l] by (auto simp: get_fail_count_def map_of_al_del)

subsection \<open>The middleware\<close>

definition protected_path :: "rstring \<Rightarrow> bool" where
  "protected_path p \<longleftrightarrow> \<not> public_path p \<and> \<not> self_checked_path p \<and> \<not> login_path p \<and> \<not> is_agent_managed_path p"

text \<open>The cookie names a session the store still accepts.\<close>

definition cookie_ok :: "headers \<Rightarrow> nat \<Rightarrow> instant \<Rightarrow> session_store \<Rightarrow> bool" where
  "cookie_ok hs port now s =
     (case extract_session_cookie hs port of
        None \<Rightarrow> False
      | Some sid \<Rightarrow> (case map_of (ss_sessions s) sid of
          None \<Rightarrow> False
        | Some e \<Rightarrow> duration_since now (se_last_used e) \<le> current_ttl s))"

lemma cookie_check: "fst (has_valid_session_cookie hs port now s) \<longleftrightarrow> cookie_ok hs port now s"
  by (simp add: has_valid_session_cookie_def cookie_ok_def validate_at_cases split: option.splits)

lemma bearer_check:
  "valid_str token \<Longrightarrow> pred_option valid_str (bearer hs) \<Longrightarrow> check_token hs token \<longleftrightarrow> bearer hs = Some token"
  by (cases "bearer hs") (auto simp: check_token_def constant_time_eq_iff)

lemma credential_gate_iff:
  assumes "\<not> login_path (rq_path rq)" "\<not> is_agent_managed_path (rq_path rq)"
    and "valid_str token" "pred_option valid_str (bearer (rq_headers rq))"
  shows "fst (credential_gate rq token cfg ip port now g) = Pass \<longleftrightarrow>
    fst (check_lockout ip cfg now (gs_lockout g)) = None \<and>
    (cookie_ok (rq_headers rq) port (mono now) (gs_sessions g) \<or> bearer (rq_headers rq) = Some token)"
proof -
  obtain r l where "check_lockout ip cfg now (gs_lockout g) = (r, l)" by fastforce
  then show ?thesis
    using assms cookie_check [of "rq_headers rq" port "mono now" "gs_sessions g"]
    by (cases r) (auto simp: credential_gate_def Let_def split_beta bearer_check)
qed

text \<open>
  C7. Who passes the gate. With a master token configured, a request for a protected path runs
  exactly if the peer is whitelisted and the request is not one a foreign page scripted, or the
  peer is not locked out and presents the cookie of a session that is still alive or the master
  token itself as bearer token; and the path that hands out the token additionally needs a
  loopback peer and no foreign page.
\<close>

theorem protected_route_runs_iff:
  assumes "token \<noteq> []" and "protected_path (rq_path rq)"
    and "valid_str token" and "pred_option valid_str (bearer (rq_headers rq))"
  shows "fst (auth_middleware rq token cfg client_ip port now g) = Pass \<longleftrightarrow>
    (let ip = real_client_ip (rq_headers rq) client_ip (as_trusted_proxies cfg);
         cross = is_cross_site_browser_request (rq_headers rq) in
     (rq_path rq = lit ''/api/auto-token'' \<longrightarrow> is_loopback ip \<and> \<not> cross) \<and>
     (if is_ip_whitelisted ip (as_ip_whitelist cfg) then \<not> cross
      else fst (check_lockout ip cfg now (gs_lockout g)) = None \<and>
        (cookie_ok (rq_headers rq) port (mono now) (gs_sessions g) \<or>
         bearer (rq_headers rq) = Some token)))"
proof -
  have p: "\<not> public_path (rq_path rq)" "\<not> self_checked_path (rq_path rq)"
    "\<not> login_path (rq_path rq)" "\<not> is_agent_managed_path (rq_path rq)"
    using assms(2) by (simp_all add: protected_path_def)
  show ?thesis
    by (simp add: auth_middleware_def Let_def p assms(1) credential_gate_iff [OF p(3,4) assms(3,4)])
qed

definition sample_settings :: auth_settings where
  "sample_settings = \<lparr>as_trusted_proxies = [], as_ip_whitelist = [], as_lockout_strategy = ''ip'',
     as_lockout_max_failures = 2, as_lockout_secs = 60, as_global_max_failures = 50, as_global_lockout_secs = 60,
     as_login_method = ''token'', as_session_ttl_days = 7\<rparr>"

definition sample_gate :: gate_state where
  "sample_gate = \<lparr>gs_sessions = new_session_store 7, gs_lockout = no_failures\<rparr>"

lemmas path_eval = protected_path_def public_path_def self_checked_path_def login_path_def is_agent_managed_path_def
  starts_with_def lit_def

lemma protected_route_runs_iff_witness:
  "fst (auth_middleware
     \<lparr>rq_path = lit ''/api/tabs'', rq_query = None, rq_headers = [''authorization'' \<mapsto> Some (lit ''Bearer abc'')]\<rparr>
     (lit ''abc'') sample_settings (V4 1) 8999 \<lparr>mono = 0, wall_ms = 0\<rparr> sample_gate) = Pass"
proof -
  let ?hs = "[''authorization'' \<mapsto> Some (lit ''Bearer abc'')]"
  have b: "bearer ?hs = Some (lit ''abc'')"
    by (simp add: bearer_def header_str_def lit_def trim_def is_whitespace_def)
  have p: "protected_path (rq_path \<lparr>rq_path = lit ''/api/tabs'', rq_query = None, rq_headers = ?hs\<rparr>)"
    by (simp add: path_eval)
  have v: "lit ''abc'' \<noteq> []" "valid_str (lit ''abc'')" by (simp_all add: lit_def valid_str_def)
  have "pred_option valid_str (bearer (rq_headers \<lparr>rq_path = lit ''/api/tabs'', rq_query = None, rq_headers = ?hs\<rparr>))"
    by (simp add: b v)
  from protected_route_runs_iff [OF v(1) p v(2) this, of sample_settings "V4 1" 8999 "\<lparr>mono = 0, wall_ms = 0\<rparr>" sample_gate]
  show ?thesis
    by (simp add: b sample_settings_def sample_gate_def no_failures_def check_lockout_def real_client_ip_def Let_def)
      (simp add: lit_def)
qed

text \<open>
  Guessing the token at the gate is never counted. Whatever a request presents and however
  often it is refused, the middleware raises no address's failure count and leaves the global one
  alone; only the login endpoint counts. The lockout therefore does not limit bearer guesses.
\<close>

theorem gate_counts_no_failures:
  "list_all (\<lambda>ip. get_fail_count ip (gs_lockout (snd (auth_middleware rq token cfg client_ip port now g)))
        \<in> {0, get_fail_count ip (gs_lockout g)}) ips \<and>
    lk_global_count (gs_lockout (snd (auth_middleware rq token cfg client_ip port now g))) = lk_global_count (gs_lockout g)"
proof -
  let ?ok = "\<lambda>g'. list_all (\<lambda>ip. get_fail_count ip (gs_lockout g') \<in> {0, get_fail_count ip (gs_lockout g)}) ips \<and>
    lk_global_count (gs_lockout g') = lk_global_count (gs_lockout g)"
  have "?ok (snd (credential_gate rq token cfg ip port now g))" for ip
  proof -
    obtain r l where c: "check_lockout ip cfg now (gs_lockout g) = (r, l)" by fastforce
    have "l = gs_lockout g \<or> l = (gs_lockout g)\<lparr>lk_fails := al_del ip (lk_fails (gs_lockout g))\<rparr>"
      using check_lockout_state [of ip cfg now "gs_lockout g"] c by simp
    then have "?ok (g'\<lparr>gs_lockout := l\<rparr>)" "?ok (g'\<lparr>gs_lockout := l, gs_sessions := s\<rparr>)" for g' s
      by (auto simp: get_fail_count_def map_of_al_del list_all_iff)
    then show ?thesis by (cases r) (auto simp: credential_gate_def Let_def split_beta c list_all_iff)
  qed
  then show ?thesis by (simp add: auth_middleware_def Let_def list_all_iff)
qed

lemma parse_loopback:
  "parse_ip (lit ''127.0.0.1'') = Some (V4 0x7f000001)" "parse_ip (lit ''::1'') = Some (V6 1)"
  "parse_ip (lit ''203.0.113.7'') = Some (V4 0xcb007107)"
  by (simp_all add: parse_eval read_ipv6_def read_groups_numeral replicate_num)

lemma trimmed_literals:
  "trim (lit ''127.0.0.1'') = lit ''127.0.0.1''" "trim (lit ''::1'') = lit ''::1''"
  "47 \<notin> set (lit ''127.0.0.1'')" "42 \<notin> set (lit ''127.0.0.1'')" "47 \<notin> set (lit ''::1'')" "42 \<notin> set (lit ''::1'')"
  by (simp_all add: lit_def trim_def is_whitespace_def)

text \<open>The desktop default whitelist, and a same-host reverse proxy declared as trusted.\<close>

definition proxied_settings :: auth_settings where
  "proxied_settings = sample_settings\<lparr>as_trusted_proxies := [lit ''127.0.0.1''],
     as_ip_whitelist := [lit ''127.0.0.1'', lit ''::1'']\<rparr>"

definition forged_request :: request where
  "forged_request = \<lparr>rq_path = lit ''/api/auto-token'', rq_query = None,
     rq_headers = [''x-forwarded-for'' \<mapsto> Some (lit ''::1,203.0.113.7'')]\<rparr>"


subsection \<open>Login\<close>

text \<open>A credential the login endpoint accepts, given the configured method.\<close>

definition credential_ok :: "login_body \<Rightarrow> auth_settings \<Rightarrow> clocks \<Rightarrow> auth_state \<Rightarrow> bool" where
  "credential_ok body cfg now st =
     (case body of
        LToken token \<Rightarrow> as_login_method cfg = ''token'' \<and> trim token \<noteq> [] \<and> constant_time_eq (trim token) (au_token st)
      | LCode k code \<Rightarrow> as_login_method cfg = ''verification_code'' \<and> trim k \<noteq> [] \<and> trim code \<noteq> [] \<and>
          fst (verify_code k code (mono now) (au_codes st)) = VOk)"

lemma log_fields [simp]:
  "au_sessions (publish e st) = au_sessions st" "au_sessions (audit a b c d st) = au_sessions st"
  "au_lockout (publish e st) = au_lockout st" "au_lockout (audit a b c d st) = au_lockout st"
  "au_codes (publish e st) = au_codes st" "au_codes (audit a b c d st) = au_codes st"
  "au_token (publish e st) = au_token st" "au_token (audit a b c d st) = au_token st"
  by (simp_all add: publish_def audit_def)

lemma failed_fields [simp]:
  "au_sessions (login_failed ip r n u st) = au_sessions st" "au_lockout (login_failed ip r n u st) = au_lockout st"
  "au_sessions (count_failure ip r cfg now st) = au_sessions st"
  "au_lockout (count_failure ip r cfg now st) = snd (record_auth_failure ip (as_global_lockout_secs cfg) now (au_lockout st))"
  by (simp_all add: login_failed_def count_failure_def split_beta)

lemma session_response [simp]:
  "rs_status (fst (create_session_response ip hs cfg port now uuid st)) = 200"
  "rs_error (fst (create_session_response ip hs cfg port now uuid st)) = ''''"
  "rs_cookie (fst (create_session_response ip hs cfg port now uuid st)) =
     Some (build_session_cookie uuid (as_session_ttl_days cfg) port)"
  "au_sessions (snd (create_session_response ip hs cfg port now uuid st)) =
     create_session uuid (mono now) (Some ip) (header_str hs ''user-agent'') (au_sessions st)"
  "au_lockout (snd (create_session_response ip hs cfg port now uuid st)) = au_lockout st"
  by (simp_all add: create_session_response_def Let_def reply_def)

lemma reply_simps [simp]:
  "rs_status (reply n e) = n" "rs_error (reply n e) = e" "rs_cookie (reply n e) = None" "rs_retry (reply n e) = None"
  by (simp_all add: reply_def)

lemma code_login:
  "rs_status (fst (handle_code_login ip hs k c cfg port now uuid st)) =
     (if fst (verify_code k c (mono now) (au_codes st)) = VOk then 200 else 401)"
  "au_sessions (snd (handle_code_login ip hs k c cfg port now uuid st)) =
     (if fst (verify_code k c (mono now) (au_codes st)) = VOk
      then create_session uuid (mono now) (Some ip) (header_str hs ''user-agent'') (au_sessions st) else au_sessions st)"
  "rs_cookie (fst (handle_code_login ip hs k c cfg port now uuid st)) =
     (if fst (verify_code k c (mono now) (au_codes st)) = VOk
      then Some (build_session_cookie uuid (as_session_ttl_days cfg) port) else None)"
  "au_lockout (snd (handle_code_login ip hs k c cfg port now uuid st)) = au_lockout st"
  by (simp_all add: handle_code_login_def split_beta Let_def)

text \<open>
  Login opens a session exactly for a good credential. A token is configured, the address is
  not locked out and the credential fits the configured method and is right: then the answer is
  200 with the cookie of the new session, which the store accepts at once. In every other case
  the answer is an error without cookie and the sessions are as before.
\<close>

theorem login_opens_session_iff:
  "if au_token st \<noteq> [] \<and>
      fst (check_lockout (real_client_ip hs addr (as_trusted_proxies cfg)) cfg now (au_lockout st)) = None \<and>
      credential_ok body cfg now st
   then rs_status (fst (login body hs addr cfg port now uuid st)) = 200 \<and>
     rs_cookie (fst (login body hs addr cfg port now uuid st)) =
       Some (build_session_cookie uuid (as_session_ttl_days cfg) port) \<and>
     fst (validate_at (mono now) uuid (au_sessions (snd (login body hs addr cfg port now uuid st))))
   else rs_status (fst (login body hs addr cfg port now uuid st)) \<in> {400, 401, 429} \<and>
     rs_cookie (fst (login body hs addr cfg port now uuid st)) = None \<and>
     au_sessions (snd (login body hs addr cfg port now uuid st)) = au_sessions st"
proof -
  obtain r l where c: "check_lockout (real_client_ip hs addr (as_trusted_proxies cfg)) cfg now (au_lockout st) = (r, l)"
    by fastforce
  have v: "fst (validate_at (mono now) uuid (create_session uuid (mono now) ip ua ss))" for ip ua ss
    by (simp add: validate_at_cases create_session_def map_of_al_put duration_since_def)
  show ?thesis
  proof (cases r)
    case (Some n)
    then show ?thesis by (simp add: login_def Let_def c)
  next
    case None
    then show ?thesis
      by (cases body) (simp_all add: login_def Let_def c credential_ok_def handle_token_login_def code_login v)
  qed
qed

text \<open>
  Wrong guesses: the answers of \<open>login\<close> that told the address its credential, or the method it
  used, was wrong.
\<close>

type_synonym login_request = "login_body \<times> headers \<times> ip_addr \<times> clocks \<times> rstring"

definition login_step :: "auth_settings \<Rightarrow> nat \<Rightarrow> login_request \<Rightarrow> auth_state \<Rightarrow> response \<times> auth_state" where
  "login_step cfg port rq st = (case rq of (body, hs, addr, now, uuid) \<Rightarrow> login body hs addr cfg port now uuid st)"

definition wrong_guess :: "auth_settings \<Rightarrow> ip_addr \<Rightarrow> login_request \<Rightarrow> response \<Rightarrow> bool" where
  "wrong_guess cfg ip rq r =
     (case rq of (body, hs, addr, now, uuid) \<Rightarrow> real_client_ip hs addr (as_trusted_proxies cfg) = ip \<and>
        (rs_error r = ''unauthorized'' \<or> rs_error r = ''login method mismatch''))"

definition within :: "auth_settings \<Rightarrow> instant \<Rightarrow> login_request \<Rightarrow> bool" where
  "within cfg t rq = (case rq of (body, hs, addr, now, uuid) \<Rightarrow>
     t \<le> mono now \<and> mono now < t + from_secs (as_lockout_secs cfg))"

text \<open>The failures the address may still make before it is locked out, from time \<open>t\<close> on.\<close>

definition guess_budget :: "auth_settings \<Rightarrow> ip_addr \<Rightarrow> lockout_state \<Rightarrow> nat" where
  "guess_budget cfg ip l = (case map_of (lk_fails l) ip of
      None \<Rightarrow> max 1 (as_lockout_max_failures cfg)
    | Some r \<Rightarrow> as_lockout_max_failures cfg - unat (fr_count r))"

definition recent :: "ip_addr \<Rightarrow> instant \<Rightarrow> lockout_state \<Rightarrow> bool" where
  "recent ip t l \<longleftrightarrow> (case map_of (lk_fails l) ip of None \<Rightarrow> True | Some r \<Rightarrow> t \<le> fr_last_fail r)"

lemma elapsed_recent:
  assumes "t \<le> lf" "t \<le> now" "now < t + from_secs n"
  shows "as_secs (duration_since now lf) < n"
proof -
  have "now - lf < n * NANOS" using assms by (simp add: from_secs_def)
  then show ?thesis by (simp add: as_secs_def duration_since_def div_less_iff_less_mult NANOS_def)
qed

lemma check_lockout_other: "k \<noteq> ip \<Longrightarrow> map_of (lk_fails (snd (check_lockout k cfg now l))) ip = map_of (lk_fails l) ip"
  using check_lockout_state [of k cfg now l] by (auto simp: map_of_al_del)

lemma check_lockout_open:
  assumes "as_lockout_strategy cfg \<noteq> ''off''" "as_lockout_strategy cfg \<noteq> ''global''"
    and "recent ip t l" "t \<le> mono now" "mono now < t + from_secs (as_lockout_secs cfg)"
  shows "snd (check_lockout ip cfg now l) = l" and
    "fst (check_lockout ip cfg now l) = None \<Longrightarrow>
       (case map_of (lk_fails l) ip of None \<Rightarrow> True | Some r \<Rightarrow> unat (fr_count r) < as_lockout_max_failures cfg)"
  using assms elapsed_recent [OF _ assms(4,5)]
  by (auto simp: check_lockout_def recent_def Let_def split: option.splits if_splits)

lemma record_budget:
  assumes "as_lockout_max_failures cfg < 2 ^ 32"
    and "case map_of (lk_fails l) ip of None \<Rightarrow> True | Some r \<Rightarrow> unat (fr_count r) < as_lockout_max_failures cfg"
  shows "1 + guess_budget cfg ip (snd (record_auth_failure ip secs now l)) \<le> guess_budget cfg ip l"
proof -
  have s: "unat (w + 1) = Suc (unat w)" if "unat w < as_lockout_max_failures cfg" for w :: u32
  proof -
    have "unat w + 1 < 2 ^ 32" using that assms(1) by linarith
    then show ?thesis by (simp add: unat_word_ariths)
  qed
  show ?thesis
    using assms(2)
    by (cases "map_of (lk_fails l) ip") (auto simp: guess_budget_def record_auth_failure_def Let_def map_of_al_put s)
qed

lemma record_other:
  "k \<noteq> ip \<Longrightarrow> map_of (lk_fails (snd (record_auth_failure k secs now l))) ip = map_of (lk_fails l) ip"
  by (simp add: record_auth_failure_def Let_def map_of_al_put)

lemma record_recent: "t \<le> mono now \<Longrightarrow> recent ip t (snd (record_auth_failure ip secs now l))"
  by (simp add: record_auth_failure_def Let_def map_of_al_put recent_def)

text \<open>A login either leaves the counters as the lockout check left them, or counts one failure.\<close>

lemma login_lockout:
  fixes hs addr cfg body port now uuid st
  defines "ip \<equiv> real_client_ip hs addr (as_trusted_proxies cfg)"
  defines "r \<equiv> login body hs addr cfg port now uuid st"
  defines "l \<equiv> snd (check_lockout ip cfg now (au_lockout st))"
  shows "au_lockout (snd r) = au_lockout st \<and> rs_error (fst r) \<notin> {''unauthorized'', ''login method mismatch''} \<or>
    au_lockout (snd r) = l \<and> rs_error (fst r) \<notin> {''unauthorized'', ''login method mismatch''} \<or>
    au_lockout (snd r) = snd (record_auth_failure ip (as_global_lockout_secs cfg) now l) \<and>
      fst (check_lockout ip cfg now (au_lockout st)) = None"
proof -
  obtain u l' where c: "check_lockout ip cfg now (au_lockout st) = (u, l')" by fastforce
  have o: "outcome_error v \<notin> {''unauthorized'', ''login method mismatch''}" for v by (cases v) simp_all
  have h: "rs_error (fst (handle_code_login ip hs k d cfg port now uuid s)) \<notin> {''unauthorized'', ''login method mismatch''}" for k d s
    using o by (auto simp: handle_code_login_def split_beta Let_def)
  show ?thesis
    unfolding r_def login_def
    by (cases "au_token st = []"; cases u; cases body)
      (use h in \<open>auto simp: Let_def ip_def [symmetric] c l_def handle_token_login_def code_login\<close>)
qed

lemma login_step_budget:
  assumes strat: "as_lockout_strategy cfg \<noteq> ''off''" "as_lockout_strategy cfg \<noteq> ''global''"
    and max: "as_lockout_max_failures cfg < 2 ^ 32"
    and rec: "recent ip t (au_lockout st)" and win: "within cfg t rq"
  shows "recent ip t (au_lockout (snd (login_step cfg port rq st))) \<and>
    (if wrong_guess cfg ip rq (fst (login_step cfg port rq st)) then 1 else 0)
      + guess_budget cfg ip (au_lockout (snd (login_step cfg port rq st))) \<le> guess_budget cfg ip (au_lockout st)"
proof -
  obtain body hs addr now uuid where rq: "rq = (body, hs, addr, now, uuid)" by (cases rq)
  define k where "k = real_client_ip hs addr (as_trusted_proxies cfg)"
  define l where "l = snd (check_lockout k cfg now (au_lockout st))"
  have t: "t \<le> mono now" "mono now < t + from_secs (as_lockout_secs cfg)" using win by (simp_all add: within_def rq)
  note cases = login_lockout [where hs = hs and addr = addr and cfg = cfg and body = body and port = port and now = now and uuid = uuid and st = st, folded k_def, folded l_def]
  have same: "map_of (lk_fails l') ip = map_of (lk_fails (au_lockout st)) ip \<Longrightarrow>
      recent ip t l' \<and> guess_budget cfg ip l' = guess_budget cfg ip (au_lockout st)" for l'
    using rec by (simp add: recent_def guess_budget_def)
  show ?thesis
  proof (cases "k = ip")
    case True
    note chk = check_lockout_open [OF strat rec t]
    have "l = au_lockout st" using chk(1) by (simp add: l_def True)
    with cases chk(2) True have
      "au_lockout (snd (login_step cfg port rq st)) = au_lockout st \<and> \<not> wrong_guess cfg ip rq (fst (login_step cfg port rq st)) \<or>
       au_lockout (snd (login_step cfg port rq st)) =
         snd (record_auth_failure ip (as_global_lockout_secs cfg) now (au_lockout st)) \<and>
       (case map_of (lk_fails (au_lockout st)) ip of None \<Rightarrow> True | Some r \<Rightarrow> unat (fr_count r) < as_lockout_max_failures cfg)"
      by (simp add: login_step_def wrong_guess_def rq) blast
    then show ?thesis
    proof (elim disjE conjE)
      assume a: "au_lockout (snd (login_step cfg port rq st)) =
          snd (record_auth_failure ip (as_global_lockout_secs cfg) now (au_lockout st))"
        and b: "case map_of (lk_fails (au_lockout st)) ip of None \<Rightarrow> True | Some r \<Rightarrow> unat (fr_count r) < as_lockout_max_failures cfg"
      from record_budget [OF max b, of "as_global_lockout_secs cfg" now] record_recent [OF t(1)] show ?thesis
        unfolding a by simp
    qed (use rec in simp)
  next
    case False
    have l: "map_of (lk_fails l) ip = map_of (lk_fails (au_lockout st)) ip"
      unfolding l_def by (rule check_lockout_other [OF False])
    have "au_lockout (snd (login body hs addr cfg port now uuid st)) = au_lockout st \<or>
        au_lockout (snd (login body hs addr cfg port now uuid st)) = l \<or>
        au_lockout (snd (login body hs addr cfg port now uuid st)) = snd (record_auth_failure k (as_global_lockout_secs cfg) now l)"
      using cases by blast
    then have "map_of (lk_fails (au_lockout (snd (login_step cfg port rq st)))) ip = map_of (lk_fails (au_lockout st)) ip"
      by (elim disjE) (simp_all add: login_step_def rq l record_other [OF False])
    from same [OF this] have "recent ip t (au_lockout (snd (login_step cfg port rq st)))"
      "guess_budget cfg ip (au_lockout (snd (login_step cfg port rq st))) = guess_budget cfg ip (au_lockout st)" by blast+
    moreover have "\<not> wrong_guess cfg ip rq r" for r using False by (simp add: wrong_guess_def rq k_def)
    ultimately show ?thesis by simp
  qed
qed

text \<open>
  C18. Wrong guesses are bounded. Under the per-address lockout, while all logins fall into one
  interval shorter than the lockout time, an address without earlier failures is told at most
  \<open>max 1 max_failures\<close> times that its token or method was wrong, whatever it, and every other
  address in between, tries; all its further attempts are answered without looking at them.
\<close>

theorem login_guesses_bounded:
  assumes "as_lockout_strategy cfg \<noteq> ''off''" and "as_lockout_strategy cfg \<noteq> ''global''"
    and "as_lockout_max_failures cfg < 2 ^ 32"
    and "map_of (lk_fails (au_lockout st)) ip = None" and "list_all (within cfg t) rqs"
  shows "length (filter (\<lambda>(rq, r). wrong_guess cfg ip rq r) (fst (run_steps (login_step cfg port) rqs st)))
    \<le> max 1 (as_lockout_max_failures cfg)"
proof -
  have "recent ip t (au_lockout s) \<Longrightarrow> list_all (within cfg t) rqs \<Longrightarrow>
    length (filter (\<lambda>(rq, r). wrong_guess cfg ip rq r) (fst (run_steps (login_step cfg port) rqs s)))
      \<le> guess_budget cfg ip (au_lockout s)" for s
  proof (induction rqs arbitrary: s)
    case (Cons rq rqs)
    from Cons.prems have w: "within cfg t rq" "list_all (within cfg t) rqs" by simp_all
    from login_step_budget [OF assms(1-3) Cons.prems(1) w(1), of port] Cons.IH [OF _ w(2)]
    show ?case by (fastforce simp: run_steps_Cons simp del: run_steps.simps(2) split: if_splits)
  qed simp
  from this [OF _ assms(5), of st] show ?thesis using assms(4) by (simp add: recent_def guess_budget_def)
qed

definition sample_state :: auth_state where
  "sample_state = \<lparr>au_sessions = new_session_store 7, au_codes = new_code_store 300 5, au_lockout = no_failures,
     au_token = lit ''abc'', au_saved_token = lit ''abc'', au_events = [], au_audit = []\<rparr>"

lemma login_guesses_bounded_witness:
  "length (filter (\<lambda>(rq, r). wrong_guess sample_settings (V4 9) rq r)
     (fst (run_steps (login_step sample_settings 8999)
       (replicate 4 (LToken (lit ''x''), \<lambda>_. None, V4 9, \<lparr>mono = 5, wall_ms = 0\<rparr>, [97])) sample_state))) \<le> 2"
proof -
  have s: "as_lockout_strategy sample_settings \<noteq> ''off''" "as_lockout_strategy sample_settings \<noteq> ''global''"
    "as_lockout_max_failures sample_settings < 2 ^ 32" "map_of (lk_fails (au_lockout sample_state)) (V4 9) = None"
    by (simp_all add: sample_settings_def sample_state_def no_failures_def)
  have "list_all (within sample_settings 0)
      (replicate 4 (LToken (lit ''x''), \<lambda>_. None, V4 9, \<lparr>mono = 5, wall_ms = 0\<rparr>, [97]))"
    by (simp add: list_all_iff within_def from_secs_def NANOS_def sample_settings_def)
  from login_guesses_bounded [OF s this, of 8999] show ?thesis by (simp add: sample_settings_def)
qed

subsection \<open>Cookies and the master token\<close>

text \<open>
  The zero time-to-live breaks the browser. \<open>session_ttl_days = 0\<close> means seven days to the
  session store, but the cookie of the login carries \<open>Max-Age=0\<close>: the browser drops it at once.
\<close>

theorem zero_ttl_cookie_is_dead:
  "current_ttl (new_session_store 0) = from_secs (7 * 86400) \<and>
   build_session_cookie sid 0 port = session_cookie_name port @ lit ''='' @ sid @ lit ''; HttpOnly; SameSite=Lax; Path=/; Max-Age=0''"
  by (simp add: current_ttl_def new_session_store_def with_throttle_def ttl_from_days_def u64_saturating_mul_def u64_limit_def
      DEFAULT_SESSION_TTL_DAYS_def SECS_PER_DAY_def build_session_cookie_def cookie_max_age_def dec.simps lit_def)

text \<open>
  Changing the master token without saving it leaves old sessions in. When the new token
  cannot be written to disk, it is in force all the same, but the sessions opened with the old
  token, which the success path revokes, stay valid.
\<close>

theorem unsaved_token_keeps_sessions:
  "update_master_token False (lit ''new'') st = (reply 500 ''failed to save'', st\<lparr>au_token := lit ''new''\<rparr>)"
  by (simp add: update_master_token_def Let_def lit_def trim_def is_whitespace_def)

lemma dec_inj [simp]: "dec m = dec n \<longleftrightarrow> m = n"
  by (metis undec_dec)

lemma name_no_sep: "c \<in> set (session_cookie_name port) \<Longrightarrow> c \<noteq> 59 \<and> c \<noteq> 61 \<and> \<not> is_whitespace c"
  using dec_digits [of c port] by (auto simp: session_cookie_name_def lit_def is_whitespace_def)

lemma eq_split: "61 \<notin> set a \<Longrightarrow> 61 \<notin> set b \<Longrightarrow> a @ 61 # x = b @ 61 # y \<longleftrightarrow> a = b \<and> x = y"
proof (induction a arbitrary: b)
  case Nil
  then show ?case by (cases b) auto
next
  case (Cons c a)
  then show ?case by (cases b) auto
qed

text \<open>The \<open>Cookie\<close> header of a browser that holds the session cookies of several ports.\<close>

fun cookie_header :: "(nat \<times> rstring) list \<Rightarrow> rstring" where
  "cookie_header [] = []"
| "cookie_header [(p, sid)] = session_cookie_name p @ lit ''='' @ sid"
| "cookie_header ((p, sid) # cs) = session_cookie_name p @ lit ''='' @ sid @ lit ''; '' @ cookie_header cs"

definition cookie_text :: "rstring \<Rightarrow> bool" where
  "cookie_text s \<longleftrightarrow> list_all (\<lambda>c. c \<noteq> 59 \<and> \<not> is_whitespace c) s"

lemma trim_padded: "cookie_text s \<Longrightarrow> trim s = s \<and> trim (32 # s) = s"
  using trim_idem_nonspace [of s] by (simp add: cookie_text_def trim_def list_all_iff is_whitespace_def)

lemma strip_name:
  "strip_prefix (session_cookie_name port @ lit ''='') (session_cookie_name p @ lit ''='' @ sid) =
     (if p = port then Some sid else None)"
proof -
  have n: "61 \<notin> set (session_cookie_name q)" for q using name_no_sep by blast
  have i: "session_cookie_name p = session_cookie_name q \<longleftrightarrow> p = q" for q by (simp add: session_cookie_name_def)
  have "strip_prefix (session_cookie_name port @ lit ''='') (session_cookie_name p @ lit ''='' @ sid) = Some r \<longleftrightarrow>
      p = port \<and> r = sid" for r
    using eq_split [OF n n, of p sid port r] by (auto simp: strip_prefix_Some i lit_def)
  then show ?thesis by (metis not_None_eq)
qed

lemma find_in_header:
  "list_all (\<lambda>(_, sid). cookie_text sid) cs \<Longrightarrow>
     find_cookie (session_cookie_name port @ lit ''='') (split_on 59 (cookie_header cs)) = map_of cs port \<and>
     find_cookie (session_cookie_name port @ lit ''='') (split_on 59 (32 # cookie_header cs)) = map_of cs port"
proof (induction cs rule: cookie_header.induct)
  case 1
  have "session_cookie_name port @ lit ''='' \<noteq> []" by (simp add: lit_def)
  then have "strip_prefix (session_cookie_name port @ lit ''='') [] = None"
    by (cases "session_cookie_name port @ lit ''=''") simp_all
  then show ?case by (simp add: trim_def is_whitespace_def)
next
  case (2 p sid)
  then have c: "cookie_text (session_cookie_name p @ lit ''='' @ sid)"
    using name_no_sep [of _ p] by (auto simp: cookie_text_def list_all_iff lit_def is_whitespace_def)
  then have "59 \<notin> set (session_cookie_name p @ lit ''='' @ sid)" by (auto simp: cookie_text_def list_all_iff)
  then have "split_on 59 (cookie_header [(p, sid)]) = [session_cookie_name p @ lit ''='' @ sid]"
    "split_on 59 (32 # cookie_header [(p, sid)]) = [32 # session_cookie_name p @ lit ''='' @ sid]"
    by (simp_all add: split_on_no_sep)
  with trim_padded [OF c] show ?case by (simp add: strip_name)
next
  case (3 p sid c cs)
  then have t: "cookie_text (session_cookie_name p @ lit ''='' @ sid)"
    using name_no_sep [of _ p] by (auto simp: cookie_text_def list_all_iff lit_def is_whitespace_def)
  then have n: "59 \<notin> set (session_cookie_name p @ lit ''='' @ sid)" by (auto simp: cookie_text_def list_all_iff)
  have h: "cookie_header ((p, sid) # c # cs) = (session_cookie_name p @ lit ''='' @ sid) @ 59 # 32 # cookie_header (c # cs)"
    by (simp add: lit_def)
  have "split_on 59 (cookie_header ((p, sid) # c # cs)) =
      (session_cookie_name p @ lit ''='' @ sid) # split_on 59 (32 # cookie_header (c # cs))"
    unfolding h by (rule split_on_append [OF n])
  moreover have "split_on 59 (32 # cookie_header ((p, sid) # c # cs)) =
      (32 # session_cookie_name p @ lit ''='' @ sid) # split_on 59 (32 # cookie_header (c # cs))"
    unfolding h using split_on_append [of 59 "32 # session_cookie_name p @ lit ''='' @ sid"] n by simp
  ultimately show ?case using 3 trim_padded [OF t] by (simp add: strip_name del: split_on.simps cookie_header.simps)
qed

text \<open>
  Cookies of several servers on one host do not mix. From the cookie header of a browser that
  holds the session cookies of any number of ports, each server reads the session id it set
  itself, and nothing when it set none, although the names share a prefix.
\<close>

theorem session_cookie_roundtrip:
  assumes "list_all (\<lambda>(_, sid). cookie_text sid) cookies"
    and "header_str hs ''cookie'' = Some (cookie_header cookies)"
  shows "extract_session_cookie hs port = map_of cookies port"
  using find_in_header [OF assms(1), of port] by (simp add: extract_session_cookie_def assms(2))

lemma session_cookie_roundtrip_witness:
  "extract_session_cookie [''cookie'' \<mapsto> Some (cookie_header [(89991, lit ''a''), (8999, lit ''b'')])] 8999 = Some (lit ''b'')"
proof -
  have "list_all (\<lambda>(_, sid). cookie_text sid) [(89991 :: nat, lit ''a''), (8999, lit ''b'')]"
    by (simp add: cookie_text_def lit_def is_whitespace_def)
  from session_cookie_roundtrip [OF this, of "[''cookie'' \<mapsto> Some (cookie_header [(89991, lit ''a''), (8999, lit ''b'')])]" 8999]
  show ?thesis by (simp add: header_str_def)
qed

end
