(* ===== verification/AgentToken.thy ===== *)
theory AgentToken
  imports AuthGate
begin

section \<open>Agent tokens\<close>

text \<open>
  \<open>token.rs\<close>: scoped tokens for agents, their capabilities and scopes, the manager that creates,
  changes, revokes, validates and expires them, the middleware of the agent routes and the HTTP
  handlers. SHA-256, the random bytes, the clock, the file system (whether a save succeeds, what
  a path resolves to) and the try-lock on the master token are parameters.
\<close>

subsection \<open>Capabilities and scopes\<close>

record agent_token =
  at_id :: string
  at_name :: string
  at_token_hash :: rstring
  at_token_prefix :: rstring
  at_capabilities :: "string set"
  at_scopes :: "(string, rstring list) amap"
  at_created_at :: nat
  at_expires_at :: "nat option"
  at_last_used_at :: "nat option"
  at_description :: string

record token_info =
  ti_token_id :: string
  ti_is_global :: bool
  ti_capabilities :: "string set"
  ti_scopes :: "(string, rstring list) amap"

definition ALL_CAPABILITIES :: "string list" where
  "ALL_CAPABILITIES = [''terminal:read'', ''terminal:write'', ''terminal:create'', ''terminal:kill'',
     ''workspace:read'', ''workspace:write'', ''workspace:execute'', ''plugin:exec'',
     ''settings:read'', ''settings:write'']"

definition global_info :: token_info where
  "global_info = \<lparr>ti_token_id = ''global'', ti_is_global = True, ti_capabilities = set ALL_CAPABILITIES, ti_scopes = []\<rparr>"

definition has_capability :: "token_info \<Rightarrow> string \<Rightarrow> bool" where
  "has_capability info cap \<longleftrightarrow> ti_is_global info \<or> cap \<in> ti_capabilities info"

definition check_scope :: "token_info \<Rightarrow> string \<Rightarrow> rstring \<Rightarrow> bool" where
  "check_scope info cap resource =
     (if ti_is_global info then True
      else if cap \<notin> ti_capabilities info then False
      else (case map_of (ti_scopes info) cap of
              Some scopes \<Rightarrow> list_ex (\<lambda>s. s = resource) scopes
            | None \<Rightarrow> True))"

text \<open>
  A canonical path is the list of its components; \<open>canon\<close> resolves a path text, \<open>home\<close> is the home
  directory. Joining an absolute path replaces the directory, as \<open>Path::join\<close> does.
\<close>

definition path_join :: "rstring \<Rightarrow> rstring \<Rightarrow> rstring" where
  "path_join dir rest =
     (case rest of
        c # _ \<Rightarrow> if c = 47 then rest else if dir \<noteq> [] \<and> last dir = 47 then dir @ rest else dir @ 47 # rest
      | [] \<Rightarrow> if dir \<noteq> [] \<and> last dir = 47 then dir else dir @ [47])"

definition expand_home :: "rstring option \<Rightarrow> rstring \<Rightarrow> rstring" where
  "expand_home home s =
     (case strip_prefix (lit ''~/'') s of
        Some rest \<Rightarrow> (case home of Some h \<Rightarrow> path_join h rest | None \<Rightarrow> s)
      | None \<Rightarrow> s)"

definition path_starts_with :: "rstring list \<Rightarrow> rstring list \<Rightarrow> bool" where
  "path_starts_with path dir \<longleftrightarrow> take (length dir) path = dir"

definition check_path_scope ::
  "(rstring \<Rightarrow> rstring list option) \<Rightarrow> rstring option \<Rightarrow> token_info \<Rightarrow> string \<Rightarrow> rstring list \<Rightarrow> bool" where
  "check_path_scope canon home info cap path =
     (if ti_is_global info then True
      else if cap \<notin> ti_capabilities info then False
      else (case map_of (ti_scopes info) cap of
              None \<Rightarrow> True
            | Some scopes \<Rightarrow>
                list_ex (\<lambda>s. case canon (expand_home home s) of
                               Some dir \<Rightarrow> path_starts_with path dir
                             | None \<Rightarrow> False) scopes))"

subsection \<open>Secrets\<close>

definition hex_digit :: "nat \<Rightarrow> rchar" where
  "hex_digit d = (if d < 10 then 48 + d else 87 + d)"

definition hex_encode :: "u8 list \<Rightarrow> rstring" where
  "hex_encode bs = concat (map (\<lambda>b. [hex_digit (unat b div 16), hex_digit (unat b mod 16)]) bs)"

type_synonym sha = "u8 list \<Rightarrow> u8 list"

definition hash_token :: "sha \<Rightarrow> rstring \<Rightarrow> rstring" where
  "hash_token sha token = hex_encode (sha (str_bytes token))"

definition generate_token_string :: "u8 list \<Rightarrow> rstring" where
  "generate_token_string bytes = lit ''dnt_'' @ hex_encode bytes"

subsection \<open>The manager\<close>

record token_manager =
  tm_tokens :: "(string, agent_token) amap"
  tm_revoked :: "(rstring, nat) amap"
  tm_global :: rstring
  tm_file :: "agent_token list"

text \<open>\<open>load\<close>: the entries of the token file, inserted in order; an unreadable file gives none.\<close>

definition load_tokens :: "agent_token list \<Rightarrow> (string, agent_token) amap" where
  "load_tokens file = fold (\<lambda>t m. al_put (at_id t) t m) file []"

definition new_manager :: "rstring \<Rightarrow> agent_token list \<Rightarrow> token_manager" where
  "new_manager global file = \<lparr>tm_tokens = load_tokens file, tm_revoked = [], tm_global = global, tm_file = file\<rparr>"

definition list_tokens :: "token_manager \<Rightarrow> agent_token list" where
  "list_tokens m = map snd (tm_tokens m)"

definition get_token :: "string \<Rightarrow> token_manager \<Rightarrow> agent_token option" where
  "get_token i m = map_of (tm_tokens m) i"

text \<open>\<open>save\<close>: \<open>None\<close> is success, \<open>Some e\<close> the error of the file system.\<close>

definition save_tokens :: "string option \<Rightarrow> token_manager \<Rightarrow> (string + unit) \<times> token_manager" where
  "save_tokens io m = (case io of Some e \<Rightarrow> (Inl e, m) | None \<Rightarrow> (Inr (), m\<lparr>tm_file := list_tokens m\<rparr>))"

definition u64_add :: "nat \<Rightarrow> nat \<Rightarrow> nat" where
  "u64_add a b = (a + b) mod u64_limit"

definition u64_sub :: "nat \<Rightarrow> nat \<Rightarrow> nat" where
  "u64_sub a b = (a + u64_limit - b) mod u64_limit"

text \<open>The generated text is ASCII, so its first twelve bytes are its first twelve characters.\<close>

definition make_token ::
  "sha \<Rightarrow> string \<Rightarrow> rstring \<Rightarrow> nat \<Rightarrow> string \<Rightarrow> string \<Rightarrow> string set \<Rightarrow> (string, rstring list) amap \<Rightarrow> nat option \<Rightarrow> agent_token" where
  "make_token sha uuid raw now name descr caps scopes expires_in =
     \<lparr>at_id = uuid, at_name = name, at_token_hash = hash_token sha raw,
      at_token_prefix = take (min 12 (byte_len raw)) raw @ lit ''...'', at_capabilities = caps, at_scopes = scopes,
      at_created_at = now, at_expires_at = map_option (u64_add now) expires_in, at_last_used_at = None,
      at_description = descr\<rparr>"

definition create_agent_token ::
  "sha \<Rightarrow> string option \<Rightarrow> string \<Rightarrow> u8 list \<Rightarrow> nat \<Rightarrow> string \<Rightarrow> string \<Rightarrow> string set \<Rightarrow> (string, rstring list) amap \<Rightarrow>
     nat option \<Rightarrow> token_manager \<Rightarrow> (string + rstring \<times> agent_token) \<times> token_manager" where
  "create_agent_token sha io uuid bytes now name descr caps scopes expires_in m =
     (let raw = generate_token_string bytes;
          t = make_token sha uuid raw now name descr caps scopes expires_in in
      case save_tokens io (m\<lparr>tm_tokens := al_put uuid t (tm_tokens m)\<rparr>) of
        (Inl e, m') \<Rightarrow> (Inl e, m')
      | (Inr _, m') \<Rightarrow> (Inr (raw, t), m'))"

definition patch_token ::
  "string option \<Rightarrow> string set option \<Rightarrow> (string, rstring list) amap option \<Rightarrow> agent_token \<Rightarrow> agent_token" where
  "patch_token name caps scopes t =
     (let t = (case name of Some n \<Rightarrow> t\<lparr>at_name := n\<rparr> | None \<Rightarrow> t);
          t = (case caps of Some c \<Rightarrow> t\<lparr>at_capabilities := c\<rparr> | None \<Rightarrow> t) in
      case scopes of Some s \<Rightarrow> t\<lparr>at_scopes := s\<rparr> | None \<Rightarrow> t)"

definition update_agent_token ::
  "string option \<Rightarrow> string \<Rightarrow> string option \<Rightarrow> string set option \<Rightarrow> (string, rstring list) amap option \<Rightarrow>
     token_manager \<Rightarrow> (string + agent_token) \<times> token_manager" where
  "update_agent_token io i name caps scopes m =
     (case map_of (tm_tokens m) i of
        None \<Rightarrow> (Inl ''token not found'', m)
      | Some t \<Rightarrow>
          let t = patch_token name caps scopes t in
          (case save_tokens io (m\<lparr>tm_tokens := al_put i t (tm_tokens m)\<rparr>) of
             (Inl e, m') \<Rightarrow> (Inl e, m')
           | (Inr _, m') \<Rightarrow> (Inr t, m')))"

definition revoke_agent_token :: "string option \<Rightarrow> string \<Rightarrow> nat \<Rightarrow> token_manager \<Rightarrow> (string + unit) \<times> token_manager" where
  "revoke_agent_token io i now m =
     (case map_of (tm_tokens m) i of
        None \<Rightarrow> (Inl ''token not found'', m)
      | Some t \<Rightarrow>
          save_tokens io (m\<lparr>tm_tokens := al_del i (tm_tokens m),
            tm_revoked := al_put (at_token_hash t) now (tm_revoked m)\<rparr>))"

definition find_by_hash :: "rstring \<Rightarrow> token_manager \<Rightarrow> agent_token option" where
  "find_by_hash h m = find (\<lambda>t. at_token_hash t = h) (list_tokens m)"

definition expired_token :: "nat \<Rightarrow> agent_token \<Rightarrow> bool" where
  "expired_token now t = (case at_expires_at t of Some e \<Rightarrow> e < now | None \<Rightarrow> False)"

text \<open>\<open>readable\<close>: whether \<open>try_read\<close> on the master token succeeds.\<close>

definition validate_token :: "sha \<Rightarrow> bool \<Rightarrow> nat \<Rightarrow> rstring \<Rightarrow> token_manager \<Rightarrow> token_info option" where
  "validate_token sha readable now raw m =
     (if \<not> readable then None
      else if tm_global m \<noteq> [] \<and> constant_time_eq raw (tm_global m) then Some global_info
      else let h = hash_token sha raw in
        (case find_by_hash h m of
           None \<Rightarrow> None
         | Some t \<Rightarrow>
             if map_of (tm_revoked m) h \<noteq> None then None
             else if expired_token now t then None
             else Some \<lparr>ti_token_id = at_id t, ti_is_global = False,
                        ti_capabilities = at_capabilities t, ti_scopes = at_scopes t\<rparr>))"

fun touch_first :: "rstring \<Rightarrow> nat \<Rightarrow> (string, agent_token) amap \<Rightarrow> (string, agent_token) amap" where
  "touch_first h now [] = []"
| "touch_first h now ((i, t) # m) =
     (if at_token_hash t = h then (i, t\<lparr>at_last_used_at := Some now\<rparr>) # m else (i, t) # touch_first h now m)"

definition touch_token :: "sha \<Rightarrow> nat \<Rightarrow> rstring \<Rightarrow> token_manager \<Rightarrow> token_manager" where
  "touch_token sha now raw m = m\<lparr>tm_tokens := touch_first (hash_token sha raw) now (tm_tokens m)\<rparr>"

text \<open>One turn of the hourly clean-up; the ids to remove are collected first, from the tokens themselves.\<close>

definition cleanup_tokens :: "nat \<Rightarrow> token_manager \<Rightarrow> token_manager" where
  "cleanup_tokens now m =
     (let expired = map at_id (filter (expired_token now) (list_tokens m));
          old = map fst (filter (\<lambda>(_, at). 86400 < u64_sub now at) (tm_revoked m)) in
      m\<lparr>tm_tokens := fold al_del expired (tm_tokens m), tm_revoked := fold al_del old (tm_revoked m)\<rparr>)"

end
