(* ===== verification/AgentGate.thy ===== *)
theory AgentGate
  imports AgentToken
begin

section \<open>The agent routes: middleware and token handlers\<close>

text \<open>
  The HTTP half of \<open>token.rs\<close>: \<open>sessions_token_middleware\<close>, which finds the caller's token and
  decides whether the route runs and with which rights, and the handlers that manage tokens.
\<close>

subsection \<open>The middleware\<close>

text \<open>The first \<open>token=\<close> pair of the query string.\<close>

fun find_query_token :: "rstring list \<Rightarrow> rstring option" where
  "find_query_token [] = None"
| "find_query_token (pair # pairs) =
     (case split_once 61 pair of
        Some (k, v) \<Rightarrow> if k = lit ''token'' then Some v else find_query_token pairs
      | None \<Rightarrow> find_query_token pairs)"

definition query_token :: "request \<Rightarrow> rstring option" where
  "query_token rq = (case rq_query rq of Some q \<Rightarrow> find_query_token (split_on 38 q) | None \<Rightarrow> None)"

definition raw_token :: "request \<Rightarrow> rstring option" where
  "raw_token rq = (case bearer (rq_headers rq) of Some t \<Rightarrow> Some t | None \<Rightarrow> query_token rq)"

definition is_ws_upgrade :: "request \<Rightarrow> bool" where
  "is_ws_upgrade rq =
     (case header_str (rq_headers rq) ''upgrade'' of
        Some v \<Rightarrow> eq_ignore_ascii_case v (lit ''websocket'')
      | None \<Rightarrow> False)"

datatype agent_gate = RunAs token_info | Deny string

definition sessions_token_middleware ::
  "sha \<Rightarrow> bool \<Rightarrow> request \<Rightarrow> rstring \<Rightarrow> nat \<Rightarrow> clocks \<Rightarrow> session_store \<Rightarrow> token_manager \<Rightarrow>
     agent_gate \<times> session_store \<times> token_manager" where
  "sessions_token_middleware sha readable rq global port now ss m =
     (case raw_token rq of
        None \<Rightarrow>
          if is_ws_upgrade rq then (Deny ''WS requires Bearer or ?token= query param'', ss, m)
          else
            (let (ok, ss') = has_valid_session_cookie (rq_headers rq) port (mono now) ss in
             if ok then (RunAs global_info, ss', m)
             else (Deny ''Missing or invalid credentials'', ss', m))
      | Some raw \<Rightarrow>
          if global \<noteq> [] \<and> constant_time_eq raw global then (RunAs global_info, ss, m)
          else
            (case validate_token sha readable (unix now) raw m of
               Some info \<Rightarrow> (RunAs info, ss, touch_token sha (unix now) raw m)
             | None \<Rightarrow> (Deny ''Invalid or expired token'', ss, m)))"

subsection \<open>Handlers\<close>

text \<open>What a handler answers: the status, and the token shown, listed or created.\<close>

record token_reply =
  tr_status :: nat
  tr_code :: string
  tr_raw :: "rstring option"
  tr_tokens :: "agent_token list"

definition token_error :: "nat \<Rightarrow> string \<Rightarrow> token_reply" where
  "token_error status code = \<lparr>tr_status = status, tr_code = code, tr_raw = None, tr_tokens = []\<rparr>"

definition token_ok :: "nat \<Rightarrow> rstring option \<Rightarrow> agent_token list \<Rightarrow> token_reply" where
  "token_ok status raw ts = \<lparr>tr_status = status, tr_code = '''', tr_raw = raw, tr_tokens = ts\<rparr>"

record create_request =
  cr_name :: string
  cr_description :: string
  cr_capabilities :: "string set"
  cr_scopes :: "(string, rstring list) amap"
  cr_expires_in :: "nat option"

record update_request =
  ur_name :: "string option"
  ur_capabilities :: "string set option"
  ur_scopes :: "(string, rstring list) amap option"

definition create_token_handler ::
  "sha \<Rightarrow> string option \<Rightarrow> string \<Rightarrow> u8 list \<Rightarrow> nat \<Rightarrow> token_info \<Rightarrow> create_request \<Rightarrow> token_manager \<Rightarrow>
     token_reply \<times> token_manager" where
  "create_token_handler sha io uuid bytes now info req m =
     (if \<not> has_capability info ''settings:write'' then (token_error 403 ''CAPABILITY_DENIED'', m)
      else if \<not> cr_capabilities req \<subseteq> set ALL_CAPABILITIES then (token_error 400 ''INVALID_REQUEST'', m)
      else (case create_agent_token sha io uuid bytes now (cr_name req) (cr_description req)
                   (cr_capabilities req) (cr_scopes req) (cr_expires_in req) m of
              (Inr (raw, t), m') \<Rightarrow> (token_ok 201 (Some raw) [t], m')
            | (Inl e, m') \<Rightarrow> (token_error 500 ''INTERNAL_ERROR'', m')))"

definition list_tokens_handler :: "token_info \<Rightarrow> token_manager \<Rightarrow> token_reply" where
  "list_tokens_handler info m =
     (if \<not> has_capability info ''settings:read'' then token_error 403 ''CAPABILITY_DENIED''
      else token_ok 200 None (list_tokens m))"

definition get_token_handler :: "token_info \<Rightarrow> string \<Rightarrow> token_manager \<Rightarrow> token_reply" where
  "get_token_handler info i m =
     (if \<not> has_capability info ''settings:read'' then token_error 403 ''CAPABILITY_DENIED''
      else (case get_token i m of Some t \<Rightarrow> token_ok 200 None [t] | None \<Rightarrow> token_error 404 ''NOT_FOUND''))"

definition update_token_handler ::
  "string option \<Rightarrow> token_info \<Rightarrow> string \<Rightarrow> update_request \<Rightarrow> token_manager \<Rightarrow> token_reply \<times> token_manager" where
  "update_token_handler io info i req m =
     (if \<not> has_capability info ''settings:write'' then (token_error 403 ''CAPABILITY_DENIED'', m)
      else (case update_agent_token io i (ur_name req) (ur_capabilities req) (ur_scopes req) m of
              (Inr t, m') \<Rightarrow> (token_ok 200 None [t], m')
            | (Inl e, m') \<Rightarrow> (token_error 404 ''NOT_FOUND'', m')))"

definition revoke_token_handler ::
  "string option \<Rightarrow> nat \<Rightarrow> token_info \<Rightarrow> string \<Rightarrow> token_manager \<Rightarrow> token_reply \<times> token_manager" where
  "revoke_token_handler io now info i m =
     (if \<not> has_capability info ''settings:write'' then (token_error 403 ''CAPABILITY_DENIED'', m)
      else (case revoke_agent_token io i now m of
              (Inr _, m') \<Rightarrow> (token_ok 200 None [], m')
            | (Inl e, m') \<Rightarrow> (token_error 404 ''NOT_FOUND'', m')))"

subsection \<open>Sequences of manager operations\<close>

datatype token_op =
    TCreate "string option" string "u8 list" nat string string "string set" "(string, rstring list) amap" "nat option"
  | TUpdate "string option" string "string option" "string set option" "(string, rstring list) amap option"
  | TRevoke "string option" string nat
  | TValidate bool nat rstring
  | TTouch nat rstring
  | TCleanup nat

fun token_step :: "sha \<Rightarrow> token_op \<Rightarrow> token_manager \<Rightarrow> token_info option \<times> token_manager" where
  "token_step sha (TCreate io uuid bytes now name descr caps scopes ex) m =
     (None, snd (create_agent_token sha io uuid bytes now name descr caps scopes ex m))"
| "token_step sha (TUpdate io i name caps scopes) m = (None, snd (update_agent_token io i name caps scopes m))"
| "token_step sha (TRevoke io i now) m = (None, snd (revoke_agent_token io i now m))"
| "token_step sha (TValidate readable now raw) m = (validate_token sha readable now raw m, m)"
| "token_step sha (TTouch now raw) m = (None, touch_token sha now raw m)"
| "token_step sha (TCleanup now) m = (None, cleanup_tokens now m)"

definition token_live :: "rstring \<Rightarrow> token_manager \<Rightarrow> bool" where
  "token_live h m \<longleftrightarrow> \<not> list_all (\<lambda>(_, t). at_token_hash t \<noteq> h) (tm_tokens m)"

definition token_issues :: "sha \<Rightarrow> rstring \<Rightarrow> token_op \<Rightarrow> bool" where
  "token_issues sha h op =
     (case op of TCreate io uuid bytes now name descr caps scopes ex \<Rightarrow> hash_token sha (generate_token_string bytes) = h
      | _ \<Rightarrow> False)"

text \<open>A text that hashes to \<open>h\<close> was accepted as an agent token.\<close>

definition token_grants :: "sha \<Rightarrow> rstring \<Rightarrow> token_op \<Rightarrow> token_info option \<Rightarrow> bool" where
  "token_grants sha h op r =
     (case op of
        TValidate readable now raw \<Rightarrow> hash_token sha raw = h \<and>
          (case r of Some info \<Rightarrow> \<not> ti_is_global info | None \<Rightarrow> False)
      | _ \<Rightarrow> False)"

lemma saved_tokens [simp]: "tm_tokens (snd (save_tokens io m)) = tm_tokens m" "tm_revoked (snd (save_tokens io m)) = tm_revoked m"
  "tm_global (snd (save_tokens io m)) = tm_global m"
  by (simp_all add: save_tokens_def split: option.splits)

lemma create_tokens: "tm_tokens (snd (create_agent_token sha io uuid bytes now name descr caps scopes ex m)) =
    al_put uuid (make_token sha uuid (generate_token_string bytes) now name descr caps scopes ex) (tm_tokens m)"
  by (simp add: create_agent_token_def Let_def save_tokens_def split: option.splits)

lemma patch_hash [simp]: "at_token_hash (patch_token name caps scopes t) = at_token_hash t"
  by (simp add: patch_token_def Let_def split: option.splits)

lemma update_tokens: "tm_tokens (snd (update_agent_token io i name caps scopes m)) =
    (case map_of (tm_tokens m) i of
       None \<Rightarrow> tm_tokens m
     | Some t \<Rightarrow> al_put i (patch_token name caps scopes t) (tm_tokens m))"
  by (simp add: update_agent_token_def Let_def save_tokens_def split: option.splits)

lemma revoke_tokens: "tm_tokens (snd (revoke_agent_token io i now m)) =
    (case map_of (tm_tokens m) i of None \<Rightarrow> tm_tokens m | Some t \<Rightarrow> al_del i (tm_tokens m))"
  by (simp add: revoke_agent_token_def split: option.splits)

lemma list_all_fold_del: "list_all P m \<Longrightarrow> list_all P (fold al_del ks m)"
  by (induction ks arbitrary: m) (simp_all add: list_all_al_del)

lemma touch_dead:
  "list_all (\<lambda>(_, t). at_token_hash t \<noteq> h) m \<Longrightarrow> list_all (\<lambda>(_, t). at_token_hash t \<noteq> h) (touch_first h' now m)"
  by (induction h' now m rule: touch_first.induct) auto

lemma find_by_hash_live: "find_by_hash h m = Some t \<Longrightarrow> token_live h m"
  by (auto simp: find_by_hash_def list_tokens_def token_live_def find_Some_iff list_all_length split_beta)

lemma token_dead_step:
  assumes dead: "\<not> token_live h m" and op: "\<not> token_issues sha h op"
  shows "\<not> token_live h (snd (token_step sha op m))"
proof -
  let ?P = "\<lambda>(_, t). at_token_hash t \<noteq> h"
  have d: "list_all ?P (tm_tokens m)" using dead by (simp add: token_live_def)
  have u: "at_token_hash t \<noteq> h" if "map_of (tm_tokens m) i = Some t" for i t
    using list_all_lookup [OF d that] by simp
  show ?thesis
    by (cases op)
      (use d op in \<open>auto simp: token_live_def create_tokens update_tokens revoke_tokens token_issues_def make_token_def
        touch_token_def cleanup_tokens_def Let_def
        intro!: list_all_al_put list_all_al_del list_all_fold_del touch_dead dest: u split: option.splits\<close>)
qed

interpretation tok: revocable "token_step sha" "\<lambda>_. True" token_live "token_issues sha" "token_grants sha"
proof unfold_locales
  fix h m op
  show True ..
  show "\<not> token_live h m \<Longrightarrow> \<not> token_issues sha h op \<Longrightarrow> \<not> token_live h (snd (token_step sha op m))"
    by (rule token_dead_step)
  show "token_grants sha h op (fst (token_step sha op m)) \<Longrightarrow> token_live h m"
    by (auto simp: token_grants_def validate_token_def Let_def global_info_def
        split: token_op.splits option.splits if_splits dest: find_by_hash_live)
qed

end
