(* ===== verification/TokenProps.thy ===== *)
theory TokenProps
  imports AgentGate
begin

section \<open>What agent tokens may do\<close>

text \<open>
  Which tokens are accepted, who runs an agent route and with which rights, that revocation is
  final and scopes confine, that tokens survive a restart, and the places where the code grants
  or forgets more than it says.
\<close>

subsection \<open>Validation\<close>

lemma find_iff: "find_by_hash h m = Some t \<Longrightarrow> t \<in> set (list_tokens m) \<and> at_token_hash t = h"
  by (auto simp: find_by_hash_def find_Some_iff)

text \<open>
  C19. Revocation is final. Revoking a token whose hash no other stored token has makes every text
  with that hash unacceptable as an agent token, in every later sequence of creations, changes,
  revocations, checks and clean-ups, as long as no new token happens to get the same hash. This
  holds even when the token file cannot be written.
\<close>

theorem revoked_token_stays_out:
  assumes "map_of (tm_tokens m) i = Some t" and "al_wf (tm_tokens m)"
    and "list_all (\<lambda>(j, u). j = i \<or> at_token_hash u \<noteq> at_token_hash t) (tm_tokens m)"
    and "list_all (\<lambda>op. \<not> token_issues sha (at_token_hash t) op) ops"
  shows "list_all (\<lambda>(op, r). \<not> token_grants sha (at_token_hash t) op r)
    (fst (run_steps (token_step sha) ops (snd (revoke_agent_token io i now m))))"
proof -
  have "\<not> token_live (at_token_hash t) (snd (revoke_agent_token io i now m))"
    using assms(1,3) by (auto simp: token_live_def revoke_tokens al_del_def list_all_iff)
  then show ?thesis by (rule tok.never_granted [OF TrueI _ assms(4)])
qed

definition sample_token :: agent_token where
  "sample_token = \<lparr>at_id = ''t1'', at_name = ''n'', at_token_hash = [49], at_token_prefix = [], at_capabilities = {''settings:write''},
     at_scopes = [], at_created_at = 0, at_expires_at = None, at_last_used_at = None, at_description = ''''\<rparr>"

definition sample_manager :: token_manager where
  "sample_manager = \<lparr>tm_tokens = [(''t1'', sample_token)], tm_revoked = [], tm_global = [], tm_file = [sample_token]\<rparr>"

lemma revoked_token_stays_out_witness:
  "list_all (\<lambda>(op, r). \<not> token_grants (\<lambda>b. b) (at_token_hash sample_token) op r)
    (fst (run_steps (token_step (\<lambda>b. b)) [TValidate True 5 [1], TCleanup 9, TValidate True 10 [1]]
      (snd (revoke_agent_token None ''t1'' 4 sample_manager))))"
  by (rule revoked_token_stays_out) (simp_all add: sample_manager_def al_wf_def token_issues_def)

text \<open>
  Which texts are tokens. Given the try-lock, a text is accepted exactly if it equals the
  master token, which then has every right, or the first stored token with its hash is neither
  revoked nor expired; an agent token carries just the capabilities and scopes stored for it.
\<close>

theorem validate_token_spec:
  assumes "valid_str raw" and "valid_str (tm_global m)"
  shows "validate_token sha True now raw m =
    (if tm_global m \<noteq> [] \<and> raw = tm_global m then Some global_info
     else case find_by_hash (hash_token sha raw) m of
       None \<Rightarrow> None
     | Some t \<Rightarrow>
         if map_of (tm_revoked m) (hash_token sha raw) = None \<and> (\<forall>e. at_expires_at t = Some e \<longrightarrow> now \<le> e)
         then Some \<lparr>ti_token_id = at_id t, ti_is_global = False, ti_capabilities = at_capabilities t, ti_scopes = at_scopes t\<rparr>
         else None)"
  using constant_time_eq_iff [OF assms]
  by (auto simp: validate_token_def Let_def expired_token_def split: option.splits)

lemma validate_token_spec_witness:
  "validate_token (\<lambda>b. b) True 5 (lit ''x'') (sample_manager\<lparr>tm_global := lit ''x''\<rparr>) = Some global_info"
  using validate_token_spec [of "lit ''x''" "sample_manager\<lparr>tm_global := lit ''x''\<rparr>" "\<lambda>b. b" 5]
  by (simp add: lit_def valid_str_def)

subsection \<open>The agent gate\<close>

definition session_cookie_ok :: "headers \<Rightarrow> nat \<Rightarrow> instant \<Rightarrow> session_store \<Rightarrow> bool" where
  "session_cookie_ok hs port now ss = fst (has_valid_session_cookie hs port now ss)"

text \<open>
  With which rights an agent route runs. It runs with every right exactly if the presented
  text is the master token, or no text is presented, the request is no WebSocket upgrade and its
  cookie names a live session; it runs with an agent's rights exactly if the presented text is not
  the master token and validates as that agent's token. In every other case it does not run.
\<close>

theorem agent_route_rights:
  assumes "tm_global m = global"
  shows "fst (sessions_token_middleware sha readable rq global port now ss m) = RunAs info \<longleftrightarrow>
    (case raw_token rq of
       None \<Rightarrow> info = global_info \<and> \<not> is_ws_upgrade rq \<and> session_cookie_ok (rq_headers rq) port (mono now) ss
     | Some raw \<Rightarrow>
         if global \<noteq> [] \<and> constant_time_eq raw global then info = global_info
         else readable \<and> (\<exists>t. find_by_hash (hash_token sha raw) m = Some t \<and>
           map_of (tm_revoked m) (hash_token sha raw) = None \<and> \<not> expired_token (unix now) t \<and>
           info = \<lparr>ti_token_id = at_id t, ti_is_global = False, ti_capabilities = at_capabilities t, ti_scopes = at_scopes t\<rparr>))"
  using assms
  by (auto simp: sessions_token_middleware_def session_cookie_ok_def split_beta Let_def validate_token_def split: option.splits)

lemma agent_route_rights_witness:
  "fst (sessions_token_middleware (\<lambda>b. b) True \<lparr>rq_path = [], rq_query = Some (lit ''a=b&token=x''), rq_headers = \<lambda>_. None\<rparr>
     (lit ''x'') 8999 \<lparr>mono = 0, wall_ms = 0\<rparr> (new_session_store 7) (sample_manager\<lparr>tm_global := lit ''x''\<rparr>)) = RunAs global_info"
  by (subst agent_route_rights)
    (simp_all add: raw_token_def bearer_def header_str_def query_token_def lit_def)

text \<open>
  Managing tokens needs the capability. Without \<open>settings:write\<close> no handler changes the
  manager, without \<open>settings:read\<close> none shows a token, and the answer is 403; and what \<open>create\<close>
  stores has only capabilities the program knows.
\<close>

theorem handlers_need_capability:
  "(if has_capability info ''settings:write'' then
      snd (create_token_handler sha io uuid bytes now info req m) = m \<or>
      cr_capabilities req \<subseteq> set ALL_CAPABILITIES
    else create_token_handler sha io uuid bytes now info req m = (token_error 403 ''CAPABILITY_DENIED'', m) \<and>
      update_token_handler io info i upd m = (token_error 403 ''CAPABILITY_DENIED'', m) \<and>
      revoke_token_handler io now info i m = (token_error 403 ''CAPABILITY_DENIED'', m)) \<and>
   (if has_capability info ''settings:read'' then tr_tokens (list_tokens_handler info m) = list_tokens m
    else tr_tokens (list_tokens_handler info m) = [] \<and> tr_tokens (get_token_handler info i m) = [] \<and>
      tr_status (list_tokens_handler info m) = 403)"
  by (simp add: create_token_handler_def update_token_handler_def revoke_token_handler_def list_tokens_handler_def
      get_token_handler_def token_error_def token_ok_def)

definition all_rights_request :: create_request where
  "all_rights_request = \<lparr>cr_name = ''x'', cr_description = '''', cr_capabilities = set ALL_CAPABILITIES, cr_scopes = [], cr_expires_in = None\<rparr>"

text \<open>
  \<open>settings:write\<close> is every right, and changes are not checked as creations are. A token that
  may only write settings creates, in one request, a token with all capabilities, whose text the
  answer shows it; and an update stores capability names the program does not know, which
  creation refuses.
\<close>

theorem settings_write_escalates:
  "tr_raw (fst (create_token_handler sha None uuid bytes now (info\<lparr>ti_capabilities := {''settings:write''}\<rparr>) all_rights_request m)) =
     Some (generate_token_string bytes) \<and>
   map_of (tm_tokens (snd (create_token_handler sha None uuid bytes now (info\<lparr>ti_capabilities := {''settings:write''}\<rparr>) all_rights_request m))) uuid =
     Some (make_token sha uuid (generate_token_string bytes) now ''x'' '''' (set ALL_CAPABILITIES) [] None) \<and>
   fst (create_token_handler sha None uuid bytes now global_info (all_rights_request\<lparr>cr_capabilities := {''root''}\<rparr>) m) =
     token_error 400 ''INVALID_REQUEST'' \<and>
   tr_tokens (fst (update_token_handler None global_info ''t1'' \<lparr>ur_name = None, ur_capabilities = Some {''root''}, ur_scopes = None\<rparr> sample_manager)) =
     [sample_token\<lparr>at_capabilities := {''root''}\<rparr>]"
  by (simp add: create_token_handler_def has_capability_def create_agent_token_def save_tokens_def Let_def token_ok_def
      token_error_def map_of_al_put all_rights_request_def global_info_def ALL_CAPABILITIES_def update_token_handler_def
      update_agent_token_def patch_token_def sample_manager_def)

subsection \<open>Scopes\<close>

text \<open>
  Scopes confine. A scope check that succeeds implies the capability; when the token is not
  global and has scopes for it, the resource is one of them, and a path lies in the tree of one of
  the directories they resolve to. A scope that resolves to nothing admits nothing.
\<close>

theorem scopes_confine:
  assumes "\<not> ti_is_global info" and "map_of (ti_scopes info) cap = Some scopes"
  shows "(check_scope info cap resource \<longleftrightarrow> has_capability info cap \<and> resource \<in> set scopes) \<and>
    (check_path_scope canon home info cap path \<longleftrightarrow> has_capability info cap \<and>
      (\<exists>s\<in>set scopes. \<exists>dir rest. canon (expand_home home s) = Some dir \<and> path = dir @ rest))"
proof -
  have "path_starts_with path dir \<longleftrightarrow> (\<exists>rest. path = dir @ rest)" for dir
    by (metis append_eq_conv_conj append_take_drop_id path_starts_with_def)
  then show ?thesis
    using assms by (auto simp: check_scope_def check_path_scope_def has_capability_def list_ex_iff split: option.splits) fastforce+
qed

lemma scopes_confine_witness:
  "check_scope \<lparr>ti_token_id = ''t'', ti_is_global = False, ti_capabilities = {''workspace:read''},
      ti_scopes = [(''workspace:read'', [lit ''p''])]\<rparr> ''workspace:read'' (lit ''p'')"
  using scopes_confine [of "\<lparr>ti_token_id = ''t'', ti_is_global = False, ti_capabilities = {''workspace:read''},
      ti_scopes = [(''workspace:read'', [lit ''p''])]\<rparr>" "''workspace:read''" "[lit ''p'']" "lit ''p''"]
  by (simp add: has_capability_def)

subsection \<open>Files and clocks\<close>

lemma find_snoc: "find P (xs @ [y]) = (case find P xs of Some z \<Rightarrow> Some z | None \<Rightarrow> if P y then Some y else None)"
  by (induction xs) auto

lemma load_lookup:
  "map_of (fold (\<lambda>t m. al_put (at_id t) t m) ts m0) i =
     (case find (\<lambda>t. at_id t = i) (rev ts) of Some t \<Rightarrow> Some t | None \<Rightarrow> map_of m0 i)"
proof (induction ts arbitrary: m0)
  case (Cons t ts)
  show ?case by (simp add: Cons.IH find_snoc map_of_al_put split: option.splits)
qed simp

text \<open>The manager files every token under its own id.\<close>

definition manager_wf :: "token_manager \<Rightarrow> bool" where
  "manager_wf m \<longleftrightarrow> al_wf (tm_tokens m) \<and> list_all (\<lambda>(i, t). at_id t = i) (tm_tokens m)"

lemma patch_id [simp]: "at_id (patch_token name caps scopes t) = at_id t"
  by (simp add: patch_token_def Let_def split: option.splits)

lemma fold_del_wf: "al_wf m \<Longrightarrow> al_wf (fold al_del ks m)"
  by (induction ks arbitrary: m) (simp_all add: al_wf_del)

lemma touch_wf: "al_wf m \<Longrightarrow> al_wf (touch_first h now m)"
proof -
  have "map fst (touch_first h now m) = map fst m" by (induction h now m rule: touch_first.induct) auto
  then show "al_wf m \<Longrightarrow> al_wf (touch_first h now m)" by (simp add: al_wf_def)
qed

lemma touch_ids: "list_all (\<lambda>(i, t). at_id t = i) m \<Longrightarrow> list_all (\<lambda>(i, t). at_id t = i) (touch_first h now m)"
  by (induction h now m rule: touch_first.induct) auto

lemma manager_wf_step [keeps]: "manager_wf m \<Longrightarrow> manager_wf (snd (token_step sha op m))"
proof -
  assume wf: "manager_wf m"
  then have p: "list_all (\<lambda>(i, t). at_id t = i) (tm_tokens m)" by (simp add: manager_wf_def)
  have i: "at_id t = j" if "map_of (tm_tokens m) j = Some t" for j t
    using list_all_lookup [OF p that] by simp
  show ?thesis
    by (cases op)
      (use wf i in \<open>auto simp: manager_wf_def create_tokens update_tokens revoke_tokens make_token_def touch_token_def
        cleanup_tokens_def Let_def al_wf_put al_wf_del list_all_al_put list_all_al_del list_all_fold_del fold_del_wf
        touch_ids touch_wf split: option.splits\<close>)
qed

lemma load_saved:
  assumes "manager_wf m"
  shows "map_of (load_tokens (list_tokens m)) = map_of (tm_tokens m)"
proof
  fix i
  have wf: "al_wf (tm_tokens m)" "list_all (\<lambda>(i, t). at_id t = i) (tm_tokens m)" using assms by (simp_all add: manager_wf_def)
  show "map_of (load_tokens (list_tokens m)) i = map_of (tm_tokens m) i"
  proof (cases "map_of (tm_tokens m) i")
    case None
    then have "find (\<lambda>t. at_id t = i) (rev (list_tokens m)) = None"
      using wf(2) by (force simp: find_None_iff list_tokens_def list_all_iff map_of_eq_None_iff)
    then show ?thesis by (simp add: load_tokens_def load_lookup None)
  next
    case (Some t)
    have t: "t \<in> set (list_tokens m)" "at_id t = i"
      using map_of_SomeD [OF Some] list_all_lookup [OF wf(2) Some] by (force simp: list_tokens_def)+
    have u: "u = t" if "u \<in> set (list_tokens m)" "at_id u = i" for u
    proof -
      from that wf(2) have "(i, u) \<in> set (tm_tokens m)" by (force simp: list_tokens_def list_all_iff)
      then show ?thesis using wf(1) Some by (simp add: al_wf_def)
    qed
    obtain v where v: "find (\<lambda>t. at_id t = i) (rev (list_tokens m)) = Some v"
      using t by (cases "find (\<lambda>t. at_id t = i) (rev (list_tokens m))") (auto simp: find_None_iff)
    then obtain n where n: "n < length (rev (list_tokens m))" "at_id v = i" "v = rev (list_tokens m) ! n"
      by (auto simp: find_Some_iff)
    have "v \<in> set (list_tokens m) \<and> at_id v = i" using nth_mem [OF n(1)] n(2,3) by simp
    with u have "v = t" by blast
    then show ?thesis by (simp add: load_tokens_def load_lookup v Some)
  qed
qed

text \<open>
  Tokens survive a restart. After any history of a manager that files its tokens under their
  ids, a change that was saved, or a save at any point, leaves a file from which a new process
  loads the same tokens.
\<close>

theorem tokens_survive_restart:
  assumes "manager_wf m" and "m1 = snd (run_steps (token_step sha) ops m)"
    and "m2 = snd (save_tokens None m1)"
  shows "get_token i (new_manager global (tm_file m2)) = get_token i m2"
proof -
  have "manager_wf (snd (run_steps (token_step sha) ops m))" using assms(1)
    by (induction ops arbitrary: m) (simp_all add: run_steps_Cons manager_wf_step del: run_steps.simps(2))
  then show ?thesis using load_saved [of m1] assms(2,3) by (simp add: get_token_def new_manager_def save_tokens_def)
qed

lemma tokens_survive_restart_witness:
  "get_token ''t1'' (new_manager [] (tm_file (snd (save_tokens None (snd (run_steps (token_step (\<lambda>b. b)) [TTouch 3 [1]] sample_manager)))))) =
   get_token ''t1'' (snd (save_tokens None (snd (run_steps (token_step (\<lambda>b. b)) [TTouch 3 [1]] sample_manager))))"
  by (rule tokens_survive_restart [OF _ refl refl]) (simp add: sample_manager_def sample_token_def manager_wf_def al_wf_def)

text \<open>
  A revocation that cannot be saved comes back. When writing the token file fails, the handler
  answers 404 as if there were no such token, although the token is gone from memory; the list of
  revoked hashes is never written, so the next process loads the token from the old file and
  accepts it again.
\<close>

theorem unsaved_revocation_comes_back:
  "let t = sample_token\<lparr>at_token_hash := hash_token sha raw\<rparr>;
       m = sample_manager\<lparr>tm_tokens := [(''t1'', t)], tm_file := [t]\<rparr>;
       (answer, m') = revoke_token_handler (Some io) now global_info ''t1'' m in
   answer = token_error 404 ''NOT_FOUND'' \<and> validate_token sha True now raw m' = None \<and>
   validate_token sha True now raw (new_manager [] (tm_file m')) \<noteq> None"
proof -
  let ?t = "sample_token\<lparr>at_token_hash := hash_token sha raw\<rparr>"
  have "revoke_token_handler (Some io) now global_info ''t1'' (sample_manager\<lparr>tm_tokens := [(''t1'', ?t)], tm_file := [?t]\<rparr>) =
    (token_error 404 ''NOT_FOUND'', \<lparr>tm_tokens = [], tm_revoked = [(hash_token sha raw, now)], tm_global = [], tm_file = [?t]\<rparr>)"
    by (simp add: revoke_token_handler_def has_capability_def global_info_def revoke_agent_token_def
        save_tokens_def al_del_def sample_manager_def)
  then show ?thesis
    by (simp add: validate_token_def new_manager_def load_tokens_def find_by_hash_def list_tokens_def expired_token_def
        sample_token_def Let_def)
qed

text \<open>
  A huge lifetime is no lifetime. \<open>now + expires_in\<close> is unchecked \<open>u64\<close> arithmetic: a token
  created to live \<open>2^64 - 1\<close> seconds wraps to one second before its creation and has expired at once.
\<close>

theorem huge_lifetime_expires_at_once:
  assumes "1 \<le> now" and "now < u64_limit"
  shows "expired_token now (make_token sha uuid raw now name descr caps scopes (Some (u64_limit - 1)))"
  using assms by (simp add: expired_token_def make_token_def u64_add_def u64_limit_def mod_if)

lemma huge_lifetime_expires_at_once_witness:
  "expired_token 1700000000 (make_token (\<lambda>b. b) ''t'' [] 1700000000 ''n'' '''' {} [] (Some (u64_limit - 1)))"
  by (rule huge_lifetime_expires_at_once) (simp_all add: u64_limit_def)

end
