(* ===== verification/ProcLedger.thy ===== *)
theory ProcLedger
  imports StrOps Expiry
begin

section \<open>The process ledger and the boot sweep\<close>

text \<open>
  \<open>session/ledger.rs\<close> on Linux: the file in which every server process notes the shells it started,
  and the sweep that, after a crash, ends the shells nobody owns any more. The operating system is
  a record of functions of the moment a call is made; a world holds that moment and the signals
  sent so far, so that what is killed, and on what evidence, can be stated.
\<close>

subsection \<open>Entries and files\<close>

record process_identity =
  pi_pid :: nat
  pi_start_time :: nat

record ledger_entry =
  le_pane_id :: string
  le_pid :: nat
  le_pgid :: nat
  le_proc_start_time :: nat
  le_spawned_at :: nat
  le_owner :: process_identity

record process_ledger =
  pl_schema_version :: nat
  pl_entries :: "ledger_entry list"

definition SCHEMA_VERSION :: nat where
  "SCHEMA_VERSION = 1"

definition empty_ledger :: process_ledger where
  "empty_ledger = \<lparr>pl_schema_version = SCHEMA_VERSION, pl_entries = []\<rparr>"

text \<open>What is on disk: nothing, something that cannot be read or parsed, or a ledger of some version.\<close>

datatype ledger_file = NoFile | Unreadable | Corrupt | Stored process_ledger

definition read_ledger :: "ledger_file \<Rightarrow> process_ledger" where
  "read_ledger f =
     (case f of
        NoFile \<Rightarrow> empty_ledger
      | Unreadable \<Rightarrow> empty_ledger
      | Corrupt \<Rightarrow> empty_ledger
      | Stored l \<Rightarrow> if pl_schema_version l = SCHEMA_VERSION then l else empty_ledger)"

text \<open>\<open>write_ledger\<close> replaces the file by renaming: a failure leaves the old one.\<close>

definition write_ledger :: "string option \<Rightarrow> process_ledger \<Rightarrow> ledger_file \<Rightarrow> (string + unit) \<times> ledger_file" where
  "write_ledger io l f = (case io of Some e \<Rightarrow> (Inl e, f) | None \<Rightarrow> (Inr (), Stored l))"

subsection \<open>The lock\<close>

definition LOCK_RETRIES :: nat where
  "LOCK_RETRIES = 8"

datatype flock_result = Locked | WouldBlock | LockError string

text \<open>\<open>LedgerLock::acquire\<close> with the answers of \<open>flock\<close>; \<open>left\<close> attempts remain before giving up.\<close>

fun acquire_loop :: "(nat \<Rightarrow> flock_result) \<Rightarrow> nat \<Rightarrow> nat \<Rightarrow> string + unit" where
  "acquire_loop flock n left =
     (case flock n of
        Locked \<Rightarrow> Inr ()
      | WouldBlock \<Rightarrow> (case left of 0 \<Rightarrow> Inl ''would block'' | Suc k \<Rightarrow> acquire_loop flock (Suc n) k)
      | LockError e \<Rightarrow> Inl e)"

declare acquire_loop.simps [simp del]

definition acquire_lock :: "(nat \<Rightarrow> flock_result) \<Rightarrow> string + unit" where
  "acquire_lock flock = acquire_loop flock 1 (LOCK_RETRIES - 1)"

subsection \<open>Adding and removing entries\<close>

definition same_slot :: "string \<Rightarrow> process_identity \<Rightarrow> ledger_entry \<Rightarrow> bool" where
  "same_slot pane owner e \<longleftrightarrow> le_pane_id e = pane \<and> le_owner e = owner"

definition add_entry_at ::
  "(nat \<Rightarrow> flock_result) \<Rightarrow> string option \<Rightarrow> nat \<Rightarrow> string \<Rightarrow> nat \<Rightarrow> nat \<Rightarrow> nat \<Rightarrow> process_identity \<Rightarrow>
     ledger_file \<Rightarrow> (string + unit) \<times> ledger_file" where
  "add_entry_at flock io now_ms pane pid pgid start owner f =
     (case acquire_lock flock of
        Inl e \<Rightarrow> (Inl e, f)
      | Inr _ \<Rightarrow>
          let l = read_ledger f;
              es = filter (\<lambda>e. \<not> same_slot pane owner e) (pl_entries l) @
                [\<lparr>le_pane_id = pane, le_pid = pid, le_pgid = pgid, le_proc_start_time = start,
                  le_spawned_at = now_ms, le_owner = owner\<rparr>] in
          write_ledger io (l\<lparr>pl_entries := es\<rparr>) f)"

definition remove_entry_at ::
  "(nat \<Rightarrow> flock_result) \<Rightarrow> string option \<Rightarrow> string \<Rightarrow> process_identity \<Rightarrow> ledger_file \<Rightarrow> (string + unit) \<times> ledger_file" where
  "remove_entry_at flock io pane owner f =
     (if f = NoFile then (Inr (), f)
      else case acquire_lock flock of
        Inl e \<Rightarrow> (Inl e, f)
      | Inr _ \<Rightarrow>
          let l = read_ledger f; es = filter (\<lambda>e. \<not> same_slot pane owner e) (pl_entries l) in
          if length es = length (pl_entries l) then (Inr (), f)
          else write_ledger io (l\<lparr>pl_entries := es\<rparr>) f)"

subsection \<open>The operating system\<close>

datatype errno = ESRCH | EPERM | EOTHER string

record os =
  os_kill :: "nat \<Rightarrow> int \<Rightarrow> nat \<Rightarrow> errno option"
  os_stat :: "nat \<Rightarrow> nat \<Rightarrow> rstring option"
  os_proc :: "nat \<Rightarrow> string + rstring list"

record world =
  w_time :: nat
  w_signals :: "(nat \<times> int \<times> nat) list"

definition SIGTERM :: nat where "SIGTERM = 15"
definition SIGKILL :: nat where "SIGKILL = 9"

definition i32_limit :: nat where
  "i32_limit = 2 ^ 31"

datatype probe = Alive | Dead | Unknown string

text \<open>\<open>kill\<close> with signal 0 only asks; any other signal is noted in the world.\<close>

definition kill :: "os \<Rightarrow> int \<Rightarrow> nat \<Rightarrow> world \<Rightarrow> errno option \<times> world" where
  "kill os target signal w =
     (os_kill os (w_time w) target signal,
      w\<lparr>w_time := Suc (w_time w),
        w_signals := w_signals w @ (if signal = 0 then [] else [(w_time w, target, signal)])\<rparr>)"

definition probe_kill :: "os \<Rightarrow> int \<Rightarrow> world \<Rightarrow> probe \<times> world" where
  "probe_kill os target w =
     (let (r, w) = kill os target 0 w in
      (case r of
         None \<Rightarrow> Alive
       | Some ESRCH \<Rightarrow> Dead
       | Some EPERM \<Rightarrow> Alive
       | Some (EOTHER e) \<Rightarrow> Unknown e, w))"

definition process_probe :: "os \<Rightarrow> nat \<Rightarrow> world \<Rightarrow> probe \<times> world" where
  "process_probe os pid w = (if i32_limit \<le> pid then (Dead, w) else probe_kill os (int pid) w)"

definition group_probe :: "os \<Rightarrow> nat \<Rightarrow> world \<Rightarrow> probe \<times> world" where
  "group_probe os pgid w = (if i32_limit \<le> pgid then (Dead, w) else probe_kill os (- int pgid) w)"

definition signal_process :: "os \<Rightarrow> nat \<Rightarrow> nat \<Rightarrow> world \<Rightarrow> errno option \<times> world" where
  "signal_process os pid signal w =
     (if i32_limit \<le> pid then (Some (EOTHER ''pid exceeds i32''), w) else kill os (int pid) signal w)"

definition signal_group :: "os \<Rightarrow> nat \<Rightarrow> nat \<Rightarrow> world \<Rightarrow> errno option \<times> world" where
  "signal_group os pgid signal w =
     (if i32_limit \<le> pgid then (Some (EOTHER ''pgid exceeds i32''), w) else kill os (- int pgid) signal w)"

text \<open>
  \<open>linux_stat\<close>: the fields after the last closing parenthesis (the command name may hold anything),
  of which the third is the process group and the twentieth the start time.
\<close>

fun split_whitespace :: "rstring \<Rightarrow> rstring list" where
  "split_whitespace [] = []"
| "split_whitespace (c # s) =
     (if is_whitespace c then split_whitespace s
      else case s of
        [] \<Rightarrow> [[c]]
      | d # _ \<Rightarrow>
          if is_whitespace d then [c] # split_whitespace s
          else (case split_whitespace s of p # ps \<Rightarrow> (c # p) # ps | [] \<Rightarrow> [[c]]))"

fun after_last :: "rchar \<Rightarrow> rstring \<Rightarrow> rstring option" where
  "after_last c [] = None"
| "after_last c (x # s) = (case after_last c s of Some r \<Rightarrow> Some r | None \<Rightarrow> if x = c then Some s else None)"

definition nth_field :: "nat \<Rightarrow> nat \<Rightarrow> rstring list \<Rightarrow> nat option" where
  "nth_field limit i fs = (if i < length fs then parse_unsigned limit (fs ! i) else None)"

definition parse_stat :: "rstring \<Rightarrow> (nat \<times> nat) option" where
  "parse_stat stat =
     do {
       rest \<leftarrow> after_last 41 stat;
       pgid \<leftarrow> nth_field u32_limit 2 (split_whitespace rest);
       start \<leftarrow> nth_field u64_limit 19 (split_whitespace rest);
       Some (pgid, start)
     }"

definition linux_stat :: "os \<Rightarrow> nat \<Rightarrow> world \<Rightarrow> (nat \<times> nat) option \<times> world" where
  "linux_stat os pid w = (os_stat os (w_time w) pid \<bind> parse_stat, w\<lparr>w_time := Suc (w_time w)\<rparr>)"

definition process_start_time :: "os \<Rightarrow> nat \<Rightarrow> world \<Rightarrow> nat option \<times> world" where
  "process_start_time os pid w = (let (r, w) = linux_stat os pid w in (map_option snd r, w))"

text \<open>\<open>snapshot_group\<close>: the members of a group, with their start times, from the names in \<open>/proc\<close>.
  The code's \<open>HashMap\<close> has no fixed order of iteration; here it is the order of insertion.\<close>

fun scan_proc :: "os \<Rightarrow> nat \<Rightarrow> rstring list \<Rightarrow> (nat, nat) amap \<Rightarrow> world \<Rightarrow> (nat, nat) amap \<times> world" where
  "scan_proc os pgid [] members w = (members, w)"
| "scan_proc os pgid (name # names) members w =
     (case parse_unsigned u32_limit name of
        None \<Rightarrow> scan_proc os pgid names members w
      | Some pid \<Rightarrow>
          let (r, w) = linux_stat os pid w in
          scan_proc os pgid names
            (case r of Some (g, start) \<Rightarrow> if g = pgid then al_put pid start members else members | None \<Rightarrow> members) w)"

definition snapshot_group :: "os \<Rightarrow> nat \<Rightarrow> world \<Rightarrow> (string + (nat, nat) amap) \<times> world" where
  "snapshot_group os pgid w =
     (case os_proc os (w_time w) of
        Inl e \<Rightarrow> (Inl e, w\<lparr>w_time := Suc (w_time w)\<rparr>)
      | Inr names \<Rightarrow>
          let (members, w) = scan_proc os pgid names [] (w\<lparr>w_time := Suc (w_time w)\<rparr>) in (Inr members, w))"

definition identity_probe :: "os \<Rightarrow> nat \<Rightarrow> nat \<Rightarrow> world \<Rightarrow> probe \<times> world" where
  "identity_probe os pid expected w =
     (let (p, w) = process_probe os pid w in
      if p = Alive then
        (let (st, w) = process_start_time os pid w in
         (case st of
            Some actual \<Rightarrow> if actual = expected then Alive else Dead
          | None \<Rightarrow> Unknown ''start time'', w))
      else (p, w))"

text \<open>The calls of the running process, which first has to identify itself as an owner.\<close>

definition current_owner :: "os \<Rightarrow> nat \<Rightarrow> world \<Rightarrow> (string + process_identity) \<times> world" where
  "current_owner os pid w =
     (let (st, w) = process_start_time os pid w in
      (case st of
         None \<Rightarrow> Inl ''cannot read owner process start time''
       | Some start \<Rightarrow> Inr \<lparr>pi_pid = pid, pi_start_time = start\<rparr>, w))"

definition add_entry ::
  "(nat \<Rightarrow> flock_result) \<Rightarrow> string option \<Rightarrow> os \<Rightarrow> nat \<Rightarrow> nat \<Rightarrow> string \<Rightarrow> nat \<Rightarrow> nat \<Rightarrow> nat \<Rightarrow> ledger_file \<Rightarrow> world \<Rightarrow>
     (string + unit) \<times> ledger_file \<times> world" where
  "add_entry flock io os self now_ms pane pid pgid start f w =
     (let (own, w) = current_owner os self w in
      case own of
        Inl e \<Rightarrow> (Inl e, f, w)
      | Inr owner \<Rightarrow> let (r, f') = add_entry_at flock io now_ms pane pid pgid start owner f in (r, f', w))"

definition remove_entry ::
  "(nat \<Rightarrow> flock_result) \<Rightarrow> string option \<Rightarrow> os \<Rightarrow> nat \<Rightarrow> string \<Rightarrow> ledger_file \<Rightarrow> world \<Rightarrow>
     (string + unit) \<times> ledger_file \<times> world" where
  "remove_entry flock io os self pane f w =
     (if f = NoFile then (Inr (), f, w)
      else
        let (own, w) = current_owner os self w in
        case own of
          Inl e \<Rightarrow> (Inl e, f, w)
        | Inr owner \<Rightarrow> let (r, f') = remove_entry_at flock io pane owner f in (r, f', w))"

subsection \<open>The sweep\<close>

datatype sweep_outcome = Swept | Skipped string

text \<open>The second half of \<open>sweep_entry\<close>: every member still alive under its recorded identity is killed.\<close>

fun kill_members :: "os \<Rightarrow> (nat, nat) amap \<Rightarrow> world \<Rightarrow> sweep_outcome option \<times> world" where
  "kill_members os [] w = (None, w)"
| "kill_members os ((pid, start) # rest) w =
     (let (p, w) = identity_probe os pid start w in
      case p of
        Alive \<Rightarrow>
          let (r, w) = signal_process os pid SIGKILL w in
          if r = None \<or> r = Some ESRCH then kill_members os rest w else (Some (Skipped ''KILL''), w)
      | Dead \<Rightarrow> kill_members os rest w
      | Unknown e \<Rightarrow> (Some (Skipped ''re-verify''), w))"

definition final_probe :: "os \<Rightarrow> ledger_entry \<Rightarrow> world \<Rightarrow> sweep_outcome \<times> world" where
  "final_probe os e w =
     (let (p, w) = group_probe os (le_pgid e) w in
      (case p of
         Dead \<Rightarrow> Swept
       | Alive \<Rightarrow> Skipped ''process group still alive after KILL''
       | Unknown x \<Rightarrow> Skipped ''post-KILL group probe'', w))"

definition kill_phase :: "os \<Rightarrow> ledger_entry \<Rightarrow> (nat, nat) amap \<Rightarrow> world \<Rightarrow> sweep_outcome \<times> world" where
  "kill_phase os e before w =
     (let (s, w) = snapshot_group os (le_pgid e) w in
      case s of
        Inl err \<Rightarrow> (Skipped ''post-TERM snapshot'', w)
      | Inr after \<Rightarrow>
          if after = [] then (Skipped ''live group had no verifiable members'', w)
          else if \<not> list_all (\<lambda>(pid, start). map_of before pid = Some start) after
          then (Skipped ''group member identity changed after TERM'', w)
          else (let (r, w) = kill_members os after w in
            case r of Some out \<Rightarrow> (out, w) | None \<Rightarrow> final_probe os e w))"

definition term_phase :: "os \<Rightarrow> ledger_entry \<Rightarrow> (nat, nat) amap \<Rightarrow> world \<Rightarrow> sweep_outcome \<times> world" where
  "term_phase os e before w =
     (let (r, w) = signal_group os (le_pgid e) SIGTERM w in
      case r of
        Some err \<Rightarrow> (if err = ESRCH then Swept else Skipped ''TERM failed'', w)
      | None \<Rightarrow>
          let (p, w) = group_probe os (le_pgid e) w in
          (case p of
             Dead \<Rightarrow> (Swept, w)
           | Unknown x \<Rightarrow> (Skipped ''post-TERM group probe'', w)
           | Alive \<Rightarrow> kill_phase os e before w))"

definition sweep_entry :: "os \<Rightarrow> ledger_entry \<Rightarrow> world \<Rightarrow> sweep_outcome \<times> world" where
  "sweep_entry os e w =
     (let (p, w) = group_probe os (le_pgid e) w in
      case p of
        Dead \<Rightarrow> (Swept, w)
      | Unknown x \<Rightarrow> (Skipped ''group probe'', w)
      | Alive \<Rightarrow>
          let (s, w) = snapshot_group os (le_pgid e) w in
          (case s of
             Inl err \<Rightarrow> (Skipped ''group snapshot'', w)
           | Inr before \<Rightarrow>
               if map_of before (le_pid e) \<noteq> Some (le_proc_start_time e)
               then (Skipped ''recorded process identity mismatch'', w)
               else term_phase os e before w))"

record sweep_summary =
  sw_entries :: nat
  sw_kept_foreign :: nat
  sw_swept :: nat
  sw_skipped :: nat

fun sweep_loop ::
  "os \<Rightarrow> ledger_entry list \<Rightarrow> ledger_entry list \<Rightarrow> sweep_summary \<Rightarrow> world \<Rightarrow> ledger_entry list \<times> sweep_summary \<times> world" where
  "sweep_loop os [] kept sm w = (kept, sm, w)"
| "sweep_loop os (e # es) kept sm w =
     (let (p, w) = identity_probe os (pi_pid (le_owner e)) (pi_start_time (le_owner e)) w in
      case p of
        Alive \<Rightarrow> sweep_loop os es (kept @ [e]) (sm\<lparr>sw_kept_foreign := sw_kept_foreign sm + 1\<rparr>) w
      | Unknown x \<Rightarrow> sweep_loop os es (kept @ [e]) (sm\<lparr>sw_skipped := sw_skipped sm + 1\<rparr>) w
      | Dead \<Rightarrow>
          let (out, w) = sweep_entry os e w in
          (case out of
             Swept \<Rightarrow> sweep_loop os es kept (sm\<lparr>sw_swept := sw_swept sm + 1\<rparr>) w
           | Skipped r \<Rightarrow> sweep_loop os es (kept @ [e]) (sm\<lparr>sw_skipped := sw_skipped sm + 1\<rparr>) w))"

definition sweep_at ::
  "(nat \<Rightarrow> flock_result) \<Rightarrow> string option \<Rightarrow> os \<Rightarrow> ledger_file \<Rightarrow> world \<Rightarrow> (string + sweep_summary) \<times> ledger_file \<times> world" where
  "sweep_at flock io os f w =
     (case acquire_lock flock of
        Inl e \<Rightarrow> (Inl e, f, w)
      | Inr _ \<Rightarrow>
          let l = read_ledger f;
              sm = \<lparr>sw_entries = length (pl_entries l), sw_kept_foreign = 0, sw_swept = 0, sw_skipped = 0\<rparr>;
              (kept, sm, w) = sweep_loop os (pl_entries l) [] sm w;
              (r, f') = write_ledger io (l\<lparr>pl_entries := kept\<rparr>) f in
          (case r of Inl e \<Rightarrow> Inl e | Inr _ \<Rightarrow> Inr sm, f', w))"

text \<open>\<open>boot_sweep\<close>: a sweep that could not run reports nothing done.\<close>

definition boot_sweep ::
  "(nat \<Rightarrow> flock_result) \<Rightarrow> string option \<Rightarrow> os \<Rightarrow> ledger_file \<Rightarrow> world \<Rightarrow> sweep_summary \<times> ledger_file \<times> world" where
  "boot_sweep flock io os f w =
     (let (r, f', w') = sweep_at flock io os f w in
      (case r of Inr sm \<Rightarrow> sm | Inl e \<Rightarrow> \<lparr>sw_entries = 0, sw_kept_foreign = 0, sw_swept = 0, sw_skipped = 0\<rparr>, f', w'))"

text \<open>\<open>process_group_id\<close>, with the answer of \<open>getpgid\<close>, which is negative for an error.\<close>

definition process_group_id :: "(nat \<Rightarrow> int) \<Rightarrow> nat \<Rightarrow> nat option" where
  "process_group_id getpgid pid =
     (if i32_limit \<le> pid then None
      else let g = getpgid pid in if g < 0 \<or> g = 0 then None else Some (nat g))"

text \<open>\<open>termination_confirmed\<close>: the process and its group are gone, or were never recorded.\<close>

definition termination_confirmed ::
  "(nat \<Rightarrow> flock_result) \<Rightarrow> os \<Rightarrow> nat \<Rightarrow> string \<Rightarrow> ledger_file \<Rightarrow> world \<Rightarrow> bool \<times> world" where
  "termination_confirmed flock os self pane f w =
     (if f = NoFile then (True, w)
      else
        let (own, w) = current_owner os self w in
        case own of
          Inl e \<Rightarrow> (False, w)
        | Inr owner \<Rightarrow>
            (case acquire_lock flock of
               Inl e \<Rightarrow> (False, w)
             | Inr _ \<Rightarrow>
                 (case find (same_slot pane owner) (pl_entries (read_ledger f)) of
                    None \<Rightarrow> (True, w)
                  | Some e \<Rightarrow>
                      let (p, w) = identity_probe os (le_pid e) (le_proc_start_time e) w in
                      if p = Dead then (let (g, w) = group_probe os (le_pgid e) w in (g = Dead, w))
                      else (False, w))))"

end
