(* ===== verification/ProcLedgerProps.thy ===== *)
theory ProcLedgerProps
  imports ProcLedger "HOL-Library.Sublist"
begin

section \<open>What the sweep may kill, and what the ledger promises\<close>

text \<open>
  Every signal of the boot sweep rests on evidence read from the system at an earlier moment. The
  lemmas follow one entry through the phases of \<open>sweep_entry\<close>; the properties put them together for
  the whole sweep, and read the file as a map from a pane and its owner to the recorded process.
\<close>

definition stat_at :: "os \<Rightarrow> nat \<Rightarrow> nat \<Rightarrow> (nat \<times> nat) option" where
  "stat_at os t pid = os_stat os t pid \<bind> parse_stat"

text \<open>At moment \<open>t\<close> the process \<open>pid\<close> does not exist, or at the next one it is another process.\<close>

definition process_gone :: "os \<Rightarrow> nat \<Rightarrow> nat \<Rightarrow> nat \<Rightarrow> bool" where
  "process_gone os t pid start \<longleftrightarrow>
     i32_limit \<le> pid \<or> os_kill os t (int pid) 0 = Some ESRCH \<or>
     (\<exists>g st. stat_at os (Suc t) pid = Some (g, st) \<and> st \<noteq> start)"

definition group_gone :: "os \<Rightarrow> nat \<Rightarrow> nat \<Rightarrow> bool" where
  "group_gone os t pgid \<longleftrightarrow>
     i32_limit \<le> pgid \<or> os_kill os t (- int pgid) 0 = Some ESRCH \<or> os_kill os t (- int pgid) SIGTERM = Some ESRCH"

text \<open>
  A member of the entry's group was seen before the TERM and, right before the KILL, still is the
  process it was; the TERM went to a group whose leader was the recorded process.
\<close>

definition term_evidence :: "os \<Rightarrow> ledger_entry \<Rightarrow> nat \<Rightarrow> nat \<Rightarrow> bool" where
  "term_evidence os e t0 t \<longleftrightarrow>
     (\<exists>t1. t0 \<le> t1 \<and> t1 < t \<and> stat_at os t1 (le_pid e) = Some (le_pgid e, le_proc_start_time e))"

definition kill_evidence :: "os \<Rightarrow> ledger_entry \<Rightarrow> nat \<Rightarrow> nat \<Rightarrow> nat \<Rightarrow> bool" where
  "kill_evidence os e t0 pid t \<longleftrightarrow>
     (\<exists>tt t1 start g. term_evidence os e t0 tt \<and> tt < t \<and> os_kill os tt (- int (le_pgid e)) SIGTERM = None \<and>
        t0 \<le> t1 \<and> t1 < tt \<and> stat_at os t1 pid = Some (le_pgid e, start) \<and>
        tt < t - 1 \<and> stat_at os (t - 1) pid = Some (g, start))"

definition justified :: "os \<Rightarrow> ledger_entry \<Rightarrow> nat \<Rightarrow> nat \<times> int \<times> nat \<Rightarrow> bool" where
  "justified os e t0 = (\<lambda>(t, target, signal).
     (signal = SIGTERM \<and> target = - int (le_pgid e) \<and> term_evidence os e t0 t) \<or>
     (\<exists>pid. signal = SIGKILL \<and> target = int pid \<and> kill_evidence os e t0 pid t))"

text \<open>What a call adds to the world: time passes, and only signals of a kind are sent.\<close>

definition sends :: "(nat \<times> int \<times> nat \<Rightarrow> bool) \<Rightarrow> world \<Rightarrow> world \<Rightarrow> bool" where
  "sends P w w' \<longleftrightarrow> w_time w \<le> w_time w' \<and> (\<exists>new. w_signals w' = w_signals w @ new \<and> list_all P new)"

abbreviation quiet :: "world \<Rightarrow> world \<Rightarrow> bool" where
  "quiet \<equiv> sends (\<lambda>_. False)"

lemma quiet_iff: "quiet w w' \<longleftrightarrow> w_time w \<le> w_time w' \<and> w_signals w' = w_signals w"
proof -
  have "list_all (\<lambda>_. False) new \<longleftrightarrow> new = []" for new :: "(nat \<times> int \<times> nat) list" by (cases new) auto
  then show ?thesis by (auto simp: sends_def)
qed

lemma sends_refl [simp]: "sends P w w"
  by (auto simp: sends_def)

lemma sends_trans [trans]: "sends P w w' \<Longrightarrow> sends P w' w'' \<Longrightarrow> sends P w w''"
  by (fastforce simp: sends_def)

lemma sends_mono: "sends P w w' \<Longrightarrow> (\<And>x. P x \<Longrightarrow> Q x) \<Longrightarrow> sends Q w w'"
  unfolding sends_def by (metis list.pred_mono_strong)

lemma quiet_sends: "quiet w w' \<Longrightarrow> sends P w w'"
  by (erule sends_mono) simp

subsection \<open>Probes and snapshots only look\<close>

lemma kill_time: "kill os target sg w = (r, w') \<Longrightarrow> w_time w' = Suc (w_time w) \<and> r = os_kill os (w_time w) target sg"
  by (auto simp: kill_def)

lemma probe_kill_quiet:
  assumes "probe_kill os target w = (p, w')"
  shows "quiet w w' \<and> (p = Dead \<longrightarrow> os_kill os (w_time w) target 0 = Some ESRCH) \<and> w_time w' = Suc (w_time w)"
  using assms by (auto simp: probe_kill_def kill_def quiet_iff split: option.splits errno.splits)

lemma group_probe_quiet:
  assumes "group_probe os pgid w = (p, w')"
  shows "quiet w w' \<and> (p = Dead \<longrightarrow> group_gone os (w_time w) pgid)"
  using assms probe_kill_quiet [of os "- int pgid" w p w']
  by (auto simp: group_probe_def group_gone_def split: if_splits)

lemma linux_stat_quiet:
  "linux_stat os pid w = (r, w') \<Longrightarrow> w' = w\<lparr>w_time := Suc (w_time w)\<rparr> \<and> r = stat_at os (w_time w) pid"
  by (auto simp: linux_stat_def stat_at_def)

lemma identity_probe_quiet:
  assumes "identity_probe os pid start w = (p, w')"
  shows "quiet w w' \<and> (p = Dead \<longrightarrow> process_gone os (w_time w) pid start) \<and>
    (p = Alive \<longrightarrow> w_time w < w_time w' - 1 \<and> (\<exists>g. stat_at os (w_time w' - 1) pid = Some (g, start)))"
proof -
  obtain p1 w1 where p1: "process_probe os pid w = (p1, w1)" by force
  have q: "quiet w w1 \<and> (p1 = Dead \<longrightarrow> process_gone os (w_time w) pid start) \<and> (p1 = Alive \<longrightarrow> w_time w1 = Suc (w_time w))"
    using p1 probe_kill_quiet [of os "int pid" w p1 w1]
    by (auto simp: process_probe_def process_gone_def split: if_splits)
  show ?thesis
    using assms q p1
    by (auto simp: identity_probe_def process_start_time_def linux_stat_def process_gone_def quiet_iff stat_at_def
        split: if_splits option.splits)
qed

lemma scan_proc_quiet:
  "scan_proc os pgid names ms w = (ms', w') \<Longrightarrow>
     quiet w w' \<and>
     (map_of ms' pid = Some start \<longrightarrow> map_of ms pid = Some start \<or>
        (\<exists>t. w_time w \<le> t \<and> t < w_time w' \<and> stat_at os t pid = Some (pgid, start)))"
proof (induction names arbitrary: ms w)
  case (Cons name names)
  show ?case
  proof (cases "parse_unsigned u32_limit name")
    case None
    then show ?thesis using Cons by simp
  next
    case (Some p)
    let ?w = "w\<lparr>w_time := Suc (w_time w)\<rparr>" and ?r = "stat_at os (w_time w) p"
    let ?ms = "case ?r of Some (g, st) \<Rightarrow> if g = pgid then al_put p st ms else ms | None \<Rightarrow> ms"
    have "scan_proc os pgid names ?ms ?w = (ms', w')"
      using Cons.prems Some by (simp add: linux_stat_def stat_at_def)
    from Cons.IH [OF this]
    have "quiet ?w w'" and
      m: "map_of ms' pid = Some start \<Longrightarrow> map_of ?ms pid = Some start \<or>
        (\<exists>t. Suc (w_time w) \<le> t \<and> t < w_time w' \<and> stat_at os t pid = Some (pgid, start))" by auto
    then have "w_time w < w_time w'" "quiet w w'" by (auto simp: quiet_iff)
    moreover have "map_of ?ms pid = Some start \<Longrightarrow> map_of ms pid = Some start \<or> stat_at os (w_time w) pid = Some (pgid, start)"
      by (auto simp: map_of_al_put split: option.splits if_splits)
    ultimately show ?thesis using m by (meson Suc_leD order_refl)
  qed
qed simp

lemma snapshot_group_quiet:
  assumes "snapshot_group os pgid w = (s, w')"
  shows "quiet w w' \<and> (\<forall>ms. s = Inr ms \<longrightarrow> map_of ms pid = Some start \<longrightarrow>
     (\<exists>t. w_time w \<le> t \<and> t < w_time w' \<and> stat_at os t pid = Some (pgid, start)))"
proof (cases "os_proc os (w_time w)")
  case (Inl e)
  then show ?thesis using assms by (auto simp: snapshot_group_def quiet_iff)
next
  case (Inr names)
  let ?w = "w\<lparr>w_time := Suc (w_time w)\<rparr>"
  obtain ms where s: "s = Inr ms" and "scan_proc os pgid names [] ?w = (ms, w')"
    using assms Inr by (auto simp: snapshot_group_def split: prod.splits)
  from scan_proc_quiet [OF this(2), of pid start]
  have "quiet ?w w'" and "map_of ms pid = Some start \<longrightarrow> (\<exists>t. Suc (w_time w) \<le> t \<and> t < w_time w' \<and> stat_at os t pid = Some (pgid, start))"
    by auto
  then show ?thesis using s by (auto simp: quiet_iff dest: Suc_leD)
qed

subsection \<open>One entry\<close>

definition re_verified :: "os \<Rightarrow> (nat \<times> nat) set \<Rightarrow> nat \<Rightarrow> nat \<times> int \<times> nat \<Rightarrow> bool" where
  "re_verified os ms t0 = (\<lambda>(t, target, signal).
     \<exists>pid start g. signal = SIGKILL \<and> (pid, start) \<in> ms \<and> target = int pid \<and> t0 < t - 1 \<and> stat_at os (t - 1) pid = Some (g, start))"

lemma signal_sends:
  "signal_process os pid sg w = (r, w') \<Longrightarrow> P (w_time w, int pid, sg) \<Longrightarrow> sends P w w'"
  "signal_group os pgid sg w = (r', w'') \<Longrightarrow> P (w_time w, - int pgid, sg) \<Longrightarrow> sends P w w''"
  by (auto simp: signal_process_def signal_group_def kill_def sends_def split: if_splits)

lemma kill_members_sends:
  "kill_members os ms w = (r, w') \<Longrightarrow> sends (re_verified os (set ms) (w_time w)) w w' \<and> r \<noteq> Some Swept"
proof (induction ms arbitrary: w)
  case (Cons m ms)
  obtain pid start where m: "m = (pid, start)" by force
  let ?P = "re_verified os (set (m # ms)) (w_time w)"
  obtain p w1 where p: "identity_probe os pid start w = (p, w1)" by force
  note q = identity_probe_quiet [OF p]
  have rest: "kill_members os ms v = (r, w') \<Longrightarrow> w_time w \<le> w_time v \<Longrightarrow> sends ?P v w' \<and> r \<noteq> Some Swept" for v
    by (drule Cons.IH) (auto simp: re_verified_def elim!: sends_mono)
  show ?case
  proof (cases p)
    case Alive
    obtain k w2 where k: "signal_process os pid SIGKILL w1 = (k, w2)" by force
    have "?P (w_time w1, int pid, SIGKILL)"
      using q Alive m by (auto simp: re_verified_def)
    then have s2: "sends ?P w w2" using q signal_sends(1) [OF k] by (blast intro: sends_trans quiet_sends)
    then have "w_time w \<le> w_time w2" by (simp add: sends_def)
    then show ?thesis
      using Cons.prems m p Alive k s2 rest [of w2] by (auto split: if_splits intro: sends_trans)
  next
    case Dead
    then show ?thesis
      using Cons.prems m p q rest [of w1] by (auto simp: quiet_iff intro: sends_trans [OF quiet_sends])
  next
    case (Unknown x)
    then show ?thesis using Cons.prems m p q by (auto intro: quiet_sends)
  qed
qed simp

lemma final_probe_quiet:
  "final_probe os e w = (out, w') \<Longrightarrow> quiet w w' \<and> (out = Swept \<longrightarrow> group_gone os (w_time w) (le_pgid e))"
  using group_probe_quiet [of os "le_pgid e" w]
  by (auto simp: final_probe_def split: prod.splits probe.splits)

definition seen_before :: "os \<Rightarrow> ledger_entry \<Rightarrow> (nat, nat) amap \<Rightarrow> nat \<Rightarrow> nat \<Rightarrow> bool" where
  "seen_before os e before t0 tt \<longleftrightarrow>
     (\<forall>pid start. map_of before pid = Some start \<longrightarrow>
        (\<exists>t1. t0 \<le> t1 \<and> t1 < tt \<and> stat_at os t1 pid = Some (le_pgid e, start)))"

lemma kill_phase_sends:
  assumes run: "kill_phase os e before w = (out, w')"
    and seen: "seen_before os e before t0 tt" and tt: "t0 \<le> tt" "tt < w_time w"
    and ev: "term_evidence os e t0 tt" "os_kill os tt (- int (le_pgid e)) SIGTERM = None"
  shows "sends (justified os e t0) w w' \<and> (out = Swept \<longrightarrow> (\<exists>t\<ge>t0. group_gone os t (le_pgid e)))"
proof -
  obtain s w1 where s: "snapshot_group os (le_pgid e) w = (s, w1)" by force
  have q1: "quiet w w1" using snapshot_group_quiet [OF s] by blast
  show ?thesis
  proof (cases "\<exists>ms. s = Inr ms \<and> ms \<noteq> [] \<and> list_all (\<lambda>(pid, start). map_of before pid = Some start) ms")
    case False
    then show ?thesis using run s q1 by (auto simp: kill_phase_def quiet_sends split: sum.splits if_splits)
  next
    case True
    then obtain ms where ms: "s = Inr ms" "ms \<noteq> []" "list_all (\<lambda>(pid, start). map_of before pid = Some start) ms" by auto
    obtain r w2 where r: "kill_members os ms w1 = (r, w2)" by force
    have "tt < w_time w1" using q1 tt by (simp add: quiet_iff)
    then have "re_verified os (set ms) (w_time w1) x \<Longrightarrow> justified os e t0 x" for x
      using ms(3) seen ev unfolding re_verified_def justified_def kill_evidence_def seen_before_def list_all_iff
      by (fastforce split: prod.splits)
    then have "sends (justified os e t0) w1 w2" and r': "r \<noteq> Some Swept"
      using kill_members_sends [OF r] by (auto elim: sends_mono)
    with q1 have s2: "sends (justified os e t0) w w2" by (blast intro: sends_trans quiet_sends)
    have t2: "t0 \<le> w_time w2" using s2 tt by (simp add: sends_def)
    show ?thesis
    proof (cases r)
      case None
      then have f: "final_probe os e w2 = (out, w')" using run s ms r by (simp add: kill_phase_def)
      show ?thesis using final_probe_quiet [OF f] s2 t2 by (blast intro: sends_trans quiet_sends)
    next
      case (Some o1)
      then show ?thesis using run s ms r r' s2 by (auto simp: kill_phase_def)
    qed
  qed
qed

lemma term_phase_sends:
  assumes run: "term_phase os e before w = (out, w')"
    and seen: "seen_before os e before t0 (w_time w)" and t0: "t0 \<le> w_time w"
    and ev: "term_evidence os e t0 (w_time w)"
  shows "sends (justified os e t0) w w' \<and> (out = Swept \<longrightarrow> (\<exists>t\<ge>t0. group_gone os t (le_pgid e)))"
proof -
  obtain r w1 where r: "signal_group os (le_pgid e) SIGTERM w = (r, w1)" by force
  have s1: "sends (justified os e t0) w w1"
    using signal_sends(2) [OF r] ev by (simp add: justified_def)
  show ?thesis
  proof (cases r)
    case (Some err)
    then show ?thesis
      using run r s1 t0 by (auto simp: term_phase_def signal_group_def kill_def group_gone_def split: if_splits)
  next
    case None
    obtain p w2 where p: "group_probe os (le_pgid e) w1 = (p, w2)" by force
    note q2 = group_probe_quiet [OF p]
    have k: "os_kill os (w_time w) (- int (le_pgid e)) SIGTERM = None" "w_time w < w_time w1"
      using r None by (auto simp: signal_group_def kill_def split: if_splits)
    have s2: "sends (justified os e t0) w w2" using s1 q2 by (blast intro: sends_trans quiet_sends)
    show ?thesis
    proof (cases p)
      case Alive
      then have "kill_phase os e before w2 = (out, w')" using run r None p by (simp add: term_phase_def)
      from kill_phase_sends [OF this seen t0 _ ev k(1)] q2 k(2) s2 show ?thesis
        by (auto simp: quiet_iff intro: sends_trans)
    next
      case Dead
      then show ?thesis using run r None p s2 q2 t0 k(2) by (auto simp: term_phase_def intro!: exI [of _ "w_time w1"])
    next
      case (Unknown x)
      then show ?thesis using run r None p s2 by (auto simp: term_phase_def)
    qed
  qed
qed

lemma sweep_entry_sends:
  assumes run: "sweep_entry os e w = (out, w')"
  shows "sends (justified os e (w_time w)) w w' \<and> (out = Swept \<longrightarrow> (\<exists>t\<ge>w_time w. group_gone os t (le_pgid e)))"
proof -
  obtain p w1 where p: "group_probe os (le_pgid e) w = (p, w1)" by force
  obtain s w2 where s: "snapshot_group os (le_pgid e) w1 = (s, w2)" by force
  note q1 = group_probe_quiet [OF p] and q2 = snapshot_group_quiet [OF s]
  have q: "quiet w w2" using q1 q2 by (blast intro: sends_trans)
  show ?thesis
  proof (cases "p = Alive \<and> (\<exists>ms. s = Inr ms \<and> map_of ms (le_pid e) = Some (le_proc_start_time e))")
    case False
    have "w' = w1 \<or> w' = w2" "out = Swept \<Longrightarrow> p = Dead"
      using run p s False by (auto simp: sweep_entry_def split: probe.splits sum.splits if_splits)
    then show ?thesis using q1 q by (auto simp: quiet_sends)
  next
    case True
    then obtain ms where ms: "p = Alive" "s = Inr ms" "map_of ms (le_pid e) = Some (le_proc_start_time e)" by auto
    then have t: "term_phase os e ms w2 = (out, w')" using run p s by (simp add: sweep_entry_def)
    have "w_time w \<le> w_time w1" using q1 by (simp add: quiet_iff)
    moreover have "\<exists>t\<ge>w_time w1. t < w_time w2 \<and> stat_at os t pid = Some (le_pgid e, start)"
      if "map_of ms pid = Some start" for pid start
      using q2 [of pid start] ms(2) that by simp
    ultimately have mem: "\<exists>t\<ge>w_time w. t < w_time w2 \<and> stat_at os t pid = Some (le_pgid e, start)"
      if "map_of ms pid = Some start" for pid start
      using that by (meson le_trans)
    have "seen_before os e ms (w_time w) (w_time w2)" using mem by (simp add: seen_before_def)
    moreover have "term_evidence os e (w_time w) (w_time w2)" using mem ms(3) by (simp add: term_evidence_def)
    ultimately have "sends (justified os e (w_time w)) w2 w' \<and> (out = Swept \<longrightarrow> (\<exists>t\<ge>w_time w. group_gone os t (le_pgid e)))"
      using term_phase_sends [OF t] q by (simp add: quiet_iff)
    then show ?thesis using q by (blast intro: sends_trans quiet_sends)
  qed
qed

subsection \<open>The whole ledger\<close>

lemma justified_earlier: "justified os e t0 x \<Longrightarrow> t1 \<le> t0 \<Longrightarrow> justified os e t1 x"
  unfolding justified_def term_evidence_def kill_evidence_def by (fastforce split: prod.splits)

text \<open>A signal serves an entry whose owner was found gone first.\<close>

definition serves :: "os \<Rightarrow> ledger_entry set \<Rightarrow> nat \<Rightarrow> nat \<times> int \<times> nat \<Rightarrow> bool" where
  "serves os es t0 x \<longleftrightarrow>
     (\<exists>e t. e \<in> es \<and> t0 \<le> t \<and> process_gone os t (pi_pid (le_owner e)) (pi_start_time (le_owner e)) \<and> justified os e t x)"

text \<open>An entry may go when its owner is gone and after that its group is.\<close>

definition orphan_gone :: "os \<Rightarrow> nat \<Rightarrow> ledger_entry \<Rightarrow> bool" where
  "orphan_gone os t0 e \<longleftrightarrow>
     (\<exists>t1 t2. t0 \<le> t1 \<and> t1 \<le> t2 \<and> process_gone os t1 (pi_pid (le_owner e)) (pi_start_time (le_owner e)) \<and>
        group_gone os t2 (le_pgid e))"

lemma orphan_gone_earlier: "orphan_gone os t0 e \<Longrightarrow> t1 \<le> t0 \<Longrightarrow> orphan_gone os t1 e"
  unfolding orphan_gone_def by (meson le_trans)

lemma serves_mono: "serves os es t0 x \<Longrightarrow> es \<subseteq> es' \<Longrightarrow> t1 \<le> t0 \<Longrightarrow> serves os es' t1 x"
  unfolding serves_def by (meson le_trans subsetD)

definition sweep_step :: "os \<Rightarrow> ledger_entry \<Rightarrow> world \<Rightarrow> probe \<times> sweep_outcome \<times> world" where
  "sweep_step os e w =
     (let (p, w1) = identity_probe os (pi_pid (le_owner e)) (pi_start_time (le_owner e)) w in
      if p = Dead then (let (out, w2) = sweep_entry os e w1 in (p, out, w2)) else (p, Skipped [], w1))"

lemma sweep_step_sends:
  assumes run: "sweep_step os e w = (p, out, w')"
  shows "sends (serves os {e} (w_time w)) w w' \<and> (p = Dead \<and> out = Swept \<longrightarrow> orphan_gone os (w_time w) e)"
proof -
  obtain p1 w1 where p: "identity_probe os (pi_pid (le_owner e)) (pi_start_time (le_owner e)) w = (p1, w1)" by force
  note q = identity_probe_quiet [OF p]
  show ?thesis
  proof (cases "p1 = Dead")
    case True
    then have s: "sweep_entry os e w1 = (out, w')" "p = Dead" using run p by (auto simp: sweep_step_def split: prod.splits)
    have g: "process_gone os (w_time w) (pi_pid (le_owner e)) (pi_start_time (le_owner e))" and t: "w_time w \<le> w_time w1"
      using q True by (auto simp: quiet_iff)
    have "serves os {e} (w_time w) x" if "justified os e (w_time w1) x" for x
      using justified_earlier [OF that t] g by (auto simp: serves_def)
    then have "sends (serves os {e} (w_time w)) w1 w'" using sweep_entry_sends [OF s(1)] by (blast intro: sends_mono)
    moreover have "orphan_gone os (w_time w) e" if "out = Swept"
      using sweep_entry_sends [OF s(1)] that g t unfolding orphan_gone_def by (meson le_trans order_refl)
    ultimately show ?thesis using q by (blast intro: sends_trans quiet_sends)
  next
    case False
    then show ?thesis using run p q by (auto simp: sweep_step_def quiet_sends)
  qed
qed

definition counts :: "sweep_summary \<Rightarrow> nat" where
  "counts sm = sw_kept_foreign sm + sw_swept sm + sw_skipped sm"

text \<open>What the loop has decided once it is through.\<close>

inductive swept_well :: "os \<Rightarrow> nat \<Rightarrow> ledger_entry list \<Rightarrow> ledger_entry list \<Rightarrow> bool" for os t0 where
  swept_none: "swept_well os t0 [] []"
| swept_keep: "swept_well os t0 es kept \<Longrightarrow> swept_well os t0 (e # es) (e # kept)"
| swept_drop: "swept_well os t0 es kept \<Longrightarrow> orphan_gone os t0 e \<Longrightarrow> swept_well os t0 (e # es) kept"

lemma swept_well_earlier: "swept_well os t0 es kept \<Longrightarrow> t1 \<le> t0 \<Longrightarrow> swept_well os t1 es kept"
  by (induction rule: swept_well.induct) (auto intro: swept_well.intros orphan_gone_earlier)

lemma swept_well_subseq: "swept_well os t0 es kept \<Longrightarrow> subseq kept es"
  by (induction rule: swept_well.induct) auto

lemma swept_well_dropped: "swept_well os t0 es kept \<Longrightarrow> e \<in> set es \<Longrightarrow> e \<notin> set kept \<Longrightarrow> orphan_gone os t0 e"
  by (induction rule: swept_well.induct) auto

lemma sweep_loop_step:
  assumes "sweep_step os e w = (p, out, w1)"
  shows "sweep_loop os (e # es) kept sm w =
    (case p of
       Alive \<Rightarrow> sweep_loop os es (kept @ [e]) (sm\<lparr>sw_kept_foreign := sw_kept_foreign sm + 1\<rparr>) w1
     | Unknown x \<Rightarrow> sweep_loop os es (kept @ [e]) (sm\<lparr>sw_skipped := sw_skipped sm + 1\<rparr>) w1
     | Dead \<Rightarrow> (case out of
         Swept \<Rightarrow> sweep_loop os es kept (sm\<lparr>sw_swept := sw_swept sm + 1\<rparr>) w1
       | Skipped r \<Rightarrow> sweep_loop os es (kept @ [e]) (sm\<lparr>sw_skipped := sw_skipped sm + 1\<rparr>) w1))"
  using assms by (auto simp: sweep_step_def split: prod.splits if_splits probe.splits sweep_outcome.splits)

lemma sweep_loop_spec:
  "sweep_loop os es kept sm w = (kept', sm', w') \<Longrightarrow>
     sends (serves os (set es) (w_time w)) w w' \<and>
     (\<exists>k. kept' = kept @ k \<and> swept_well os (w_time w) es k \<and>
        length k = (sw_kept_foreign sm' - sw_kept_foreign sm) + (sw_skipped sm' - sw_skipped sm)) \<and>
     sw_kept_foreign sm \<le> sw_kept_foreign sm' \<and> sw_skipped sm \<le> sw_skipped sm' \<and>
     sw_entries sm' = sw_entries sm \<and> counts sm' = counts sm + length es"
proof (induction es arbitrary: kept sm w)
  case (Cons e es)
  obtain p out w1 where st: "sweep_step os e w = (p, out, w1)" using prod_cases3 by blast
  note s = sweep_step_sends [OF st]
  have t: "w_time w \<le> w_time w1" using s by (simp add: sends_def)
  have s1: "sends (serves os (set (e # es)) (w_time w)) w w1"
    using s by (auto elim!: sends_mono serves_mono)
  have s2: "sends (serves os (set (e # es)) (w_time w)) w w'" if "sends (serves os (set es) (w_time w1)) w1 w'"
    by (rule sends_trans [OF s1 sends_mono [OF that]]) (auto elim: serves_mono intro: t)
  show ?case
  proof (cases "p = Dead \<and> out = Swept")
    case True
    then have "sweep_loop os es kept (sm\<lparr>sw_swept := sw_swept sm + 1\<rparr>) w1 = (kept', sm', w')"
      using Cons.prems sweep_loop_step [OF st] by simp
    from Cons.IH [OF this] show ?thesis
      using s s2 True by (auto simp: counts_def intro!: swept_drop elim: swept_well_earlier [OF _ t])
  next
    case False
    have k: "swept_well os (w_time w1) es k \<Longrightarrow> swept_well os (w_time w) (e # es) (e # k)" for k
      by (intro swept_keep swept_well_earlier [OF _ t])
    show ?thesis
    proof (cases "p = Alive")
      case True
      then have "sweep_loop os es (kept @ [e]) (sm\<lparr>sw_kept_foreign := sw_kept_foreign sm + 1\<rparr>) w1 = (kept', sm', w')"
        using Cons.prems sweep_loop_step [OF st] by simp
      from Cons.IH [OF this] show ?thesis using s2 k by (auto simp: counts_def)
    next
      case False
      then have "sweep_loop os es (kept @ [e]) (sm\<lparr>sw_skipped := sw_skipped sm + 1\<rparr>) w1 = (kept', sm', w')"
        using Cons.prems sweep_loop_step [OF st] \<open>\<not> (p = Dead \<and> out = Swept)\<close>
        by (auto split: probe.splits sweep_outcome.splits)
      from Cons.IH [OF this] show ?thesis using s2 k by (auto simp: counts_def)
    qed
  qed
qed (simp add: counts_def swept_none)

text \<open>
  C24. Every signal the boot sweep sends is a TERM to the group of a recorded shell or a KILL to a
  member of that group. It is sent only after the entry's owner was found gone; the TERM, after the
  group's leader was seen to be the recorded process; the KILL, after the TERM succeeded, to a process
  that was in the group before the TERM and whose start time is unchanged at the moment just before the KILL.
\<close>
theorem sweep_kills_only_orphans:
  assumes "sweep_at flock io os f w = (r, f', w')"
  shows "\<exists>new. w_signals w' = w_signals w @ new \<and>
    (\<forall>(t, target, sig) \<in> set new. \<exists>e \<in> set (pl_entries (read_ledger f)). \<exists>t0 \<ge> w_time w.
       process_gone os t0 (pi_pid (le_owner e)) (pi_start_time (le_owner e)) \<and>
       (sig = SIGTERM \<and> target = - int (le_pgid e) \<and> term_evidence os e t0 t \<or>
        (\<exists>pid. sig = SIGKILL \<and> target = int pid \<and> kill_evidence os e t0 pid t)))"
proof (cases "acquire_lock flock")
  case (Inl e)
  then show ?thesis using assms by (simp add: sweep_at_def)
next
  case (Inr u)
  let ?l = "read_ledger f"
  let ?sm = "\<lparr>sw_entries = length (pl_entries ?l), sw_kept_foreign = 0, sw_swept = 0, sw_skipped = 0\<rparr>"
  obtain kept sm where "sweep_loop os (pl_entries ?l) [] ?sm w = (kept, sm, w')"
    using assms Inr by (auto simp: sweep_at_def Let_def split: prod.splits)
  then have "sends (serves os (set (pl_entries ?l)) (w_time w)) w w'" by (blast dest: sweep_loop_spec)
  then show ?thesis unfolding sends_def list_all_iff serves_def justified_def by fastforce
qed

text \<open>
  A sweep that returns a summary leaves on disk the entries it kept, in their order; every entry
  it dropped had an owner that was gone and then a process group that was gone. The summary counts
  each entry once, and the kept ones are those of living owners and those it could not verify. A
  sweep that fails leaves the file as it was.
\<close>
theorem sweep_drops_only_gone:
  assumes "sweep_at flock io os f w = (r, f', w')"
  shows "case r of
      Inl e \<Rightarrow> f' = f
    | Inr sm \<Rightarrow>
        let es = pl_entries (read_ledger f); kept = pl_entries (read_ledger f') in
        subseq kept es \<and> (\<forall>e \<in> set es - set kept. orphan_gone os (w_time w) e) \<and>
        sw_entries sm = length es \<and> length kept = sw_kept_foreign sm + sw_skipped sm \<and>
        length es = length kept + sw_swept sm"
proof (cases "acquire_lock flock")
  case (Inl e)
  then show ?thesis using assms by (auto simp: sweep_at_def)
next
  case (Inr u)
  let ?l = "read_ledger f"
  let ?sm = "\<lparr>sw_entries = length (pl_entries ?l), sw_kept_foreign = 0, sw_swept = 0, sw_skipped = 0\<rparr>"
  obtain kept sm where l: "sweep_loop os (pl_entries ?l) [] ?sm w = (kept, sm, w')"
    and w: "write_ledger io (?l\<lparr>pl_entries := kept\<rparr>) f = (case r of Inl e \<Rightarrow> Inl e | Inr _ \<Rightarrow> Inr (), f')"
    and r: "r = Inr sm \<or> (\<exists>e. r = Inl e)"
    using assms Inr by (auto simp: sweep_at_def Let_def split: prod.splits sum.splits)
  have v: "pl_schema_version ?l = SCHEMA_VERSION" by (simp add: read_ledger_def empty_ledger_def split: ledger_file.split)
  show ?thesis
  proof (cases r)
    case (Inl e)
    then show ?thesis using w by (simp add: write_ledger_def split: option.splits)
  next
    case (Inr s)
    then have "pl_entries (read_ledger f') = kept" "s = sm"
      using w r v by (auto simp: write_ledger_def read_ledger_def split: option.splits)
    then show ?thesis
      using sweep_loop_spec [OF l] Inr
      by (auto simp: Let_def counts_def dest: swept_well_subseq swept_well_dropped)
  qed
qed

subsection \<open>The ledger as a map\<close>

type_synonym slot = "string \<times> process_identity"

definition slot_of :: "ledger_entry \<Rightarrow> slot" where
  "slot_of e = (le_pane_id e, le_owner e)"

definition slots :: "ledger_file \<Rightarrow> slot \<Rightarrow> ledger_entry option" where
  "slots f = map_of (map (\<lambda>e. (slot_of e, e)) (pl_entries (read_ledger f)))"

definition one_per_slot :: "ledger_file \<Rightarrow> bool" where
  "one_per_slot f \<longleftrightarrow> distinct (map slot_of (pl_entries (read_ledger f)))"

lemma same_slot_iff: "same_slot p ow e \<longleftrightarrow> slot_of e = (p, ow)"
  by (auto simp: same_slot_def slot_of_def)

lemma read_version [simp]: "pl_schema_version (read_ledger f) = SCHEMA_VERSION"
  by (simp add: read_ledger_def empty_ledger_def split: ledger_file.split)

lemma read_stored: "pl_schema_version l = SCHEMA_VERSION \<Longrightarrow> read_ledger (Stored l) = l"
  by (simp add: read_ledger_def)

lemma read_NoFile [simp]: "pl_entries (read_ledger NoFile) = []"
  by (simp add: read_ledger_def empty_ledger_def)

lemma map_of_remove_slot:
  "map_of (map (\<lambda>e. (slot_of e, e)) (filter (\<lambda>e. slot_of e \<noteq> k) es)) = (map_of (map (\<lambda>e. (slot_of e, e)) es))(k := None)"
  by (induction es) (auto simp: fun_eq_iff)

lemma slots_None: "k \<notin> slot_of ` set es \<Longrightarrow> map_of (map (\<lambda>e. (slot_of e, e)) es) k = None"
  by (induction es) auto

text \<open>
  C25. The ledger file refines a map from a pane and its owner to the recorded process: adding updates
  one key, removing deletes one key, and nobody else's entries are touched; at most one entry per key
  is kept. A call that fails, for want of the lock or of the write, leaves the file as it was.
\<close>
theorem ledger_refines_map:
  assumes "one_per_slot f"
  shows "(case add_entry_at flock io now pane pid pgid start owner f of
      (Inr _, f') \<Rightarrow> one_per_slot f' \<and> slots f' = (slots f)((pane, owner) \<mapsto>
         \<lparr>le_pane_id = pane, le_pid = pid, le_pgid = pgid, le_proc_start_time = start, le_spawned_at = now, le_owner = owner\<rparr>)
    | (Inl _, f') \<Rightarrow> f' = f) \<and>
   (case remove_entry_at flock io pane owner f of
      (Inr _, f') \<Rightarrow> one_per_slot f' \<and> slots f' = (slots f)((pane, owner) := None)
    | (Inl _, f') \<Rightarrow> f' = f)"
proof -
  let ?k = "(pane, owner)" and ?es = "pl_entries (read_ledger f)"
  let ?fs = "filter (\<lambda>e. slot_of e \<noteq> ?k) ?es"
  have k: "slot_of \<lparr>le_pane_id = pane, le_pid = pid, le_pgid = pgid, le_proc_start_time = start, le_spawned_at = now,
      le_owner = owner\<rparr> = ?k" by (simp add: slot_of_def)
  have d: "distinct (map slot_of ?fs)" using assms by (simp add: one_per_slot_def distinct_map_filter)
  have n: "map_of (map (\<lambda>e. (slot_of e, e)) ?fs) = (slots f)(?k := None)"
    by (simp add: slots_def map_of_remove_slot)
  have a: "map_of (map (\<lambda>e. (slot_of e, e)) (?fs @ [x])) = (slots f)(?k \<mapsto> x)" if "slot_of x = ?k" for x
    using that n by (auto simp: map_add_def fun_eq_iff split: option.splits)
  have same: "(slots f)(?k := None) = slots f" if "length ?fs = length ?es"
  proof -
    have "?fs = ?es" using that by (metis filter_id_conv length_filter_less less_irrefl)
    then show ?thesis using n by (simp add: slots_def)
  qed
  show ?thesis
    using assms d k a n same
    by (auto simp: add_entry_at_def remove_entry_at_def same_slot_iff write_ledger_def one_per_slot_def slots_def Let_def
        read_stored split: sum.splits option.splits)
qed

lemma ledger_refines_map_witness:
  "let f = Stored \<lparr>pl_schema_version = 1, pl_entries = []\<rparr>; me = \<lparr>pi_pid = 1, pi_start_time = 2\<rparr> in
   slots (snd (add_entry_at (\<lambda>_. Locked) None 9 ''p'' 7 7 100 me f)) (''p'', me) =
     Some \<lparr>le_pane_id = ''p'', le_pid = 7, le_pgid = 7, le_proc_start_time = 100, le_spawned_at = 9, le_owner = me\<rparr>"
  using ledger_refines_map [where f = "Stored \<lparr>pl_schema_version = 1, pl_entries = []\<rparr>" and flock = "\<lambda>_. Locked" and io = None
      and now = 9 and pane = "''p''" and pid = 7 and pgid = 7 and start = 100 and owner = "\<lparr>pi_pid = 1, pi_start_time = 2\<rparr>"]
  by (auto simp: one_per_slot_def read_ledger_def SCHEMA_VERSION_def Let_def add_entry_at_def acquire_lock_def
      acquire_loop.simps write_ledger_def)

subsection \<open>An exit is confirmed\<close>

lemma find_slot: "find (same_slot pane owner) (pl_entries (read_ledger f)) = slots f (pane, owner)"
proof -
  have "find (\<lambda>e. slot_of e = k) es = map_of (map (\<lambda>e. (slot_of e, e)) es) k" for k es by (induction es) auto
  then show ?thesis by (simp add: slots_def same_slot_iff [abs_def])
qed

text \<open>
  When the exit of a pane's process is confirmed, the ledger holds nothing for the pane and this
  owner, or the recorded process was found gone and after it its group; and asking sends no signal.
\<close>
theorem confirmed_exit_is_gone:
  assumes "termination_confirmed flock os self pane f w = (ok, w')"
  shows "w_signals w' = w_signals w \<and>
    (ok \<longrightarrow> f = NoFile \<or>
       (\<exists>owner. fst (current_owner os self w) = Inr owner \<and>
          (case slots f (pane, owner) of
             None \<Rightarrow> True
           | Some e \<Rightarrow> \<exists>t1 t2. w_time w < t1 \<and> t1 \<le> t2 \<and>
               process_gone os t1 (le_pid e) (le_proc_start_time e) \<and> group_gone os t2 (le_pgid e))))"
proof (cases "f = NoFile")
  case True
  then show ?thesis using assms by (simp add: termination_confirmed_def)
next
  case False
  obtain own w1 where own: "current_owner os self w = (own, w1)" by force
  then have q1: "w_time w1 = Suc (w_time w)" "w_signals w1 = w_signals w"
    by (auto simp: current_owner_def process_start_time_def linux_stat_def)
  show ?thesis
  proof (cases "\<exists>owner e. own = Inr owner \<and> acquire_lock flock = Inr () \<and> slots f (pane, owner) = Some e")
    case False
    then have "w' = w1" using assms \<open>f \<noteq> NoFile\<close> own
      by (auto simp: termination_confirmed_def find_slot split: sum.splits option.splits)
    then show ?thesis
      using assms \<open>f \<noteq> NoFile\<close> own q1 False
      by (auto simp: termination_confirmed_def find_slot split: sum.splits option.splits)
  next
    case True
    then obtain owner e where oe: "own = Inr owner" "acquire_lock flock = Inr ()" "slots f (pane, owner) = Some e" by auto
    obtain p w2 where p: "identity_probe os (le_pid e) (le_proc_start_time e) w1 = (p, w2)" by force
    obtain g w3 where g: "group_probe os (le_pgid e) w2 = (g, w3)" by force
    note q2 = identity_probe_quiet [OF p] and q3 = group_probe_quiet [OF g]
    have "\<exists>t1 t2. w_time w < t1 \<and> t1 \<le> t2 \<and> process_gone os t1 (le_pid e) (le_proc_start_time e) \<and> group_gone os t2 (le_pgid e)"
      if "p = Dead" "g = Dead"
      using that q1(1) q2 q3 unfolding quiet_iff by (metis lessI)
    then show ?thesis
      using assms \<open>f \<noteq> NoFile\<close> own oe p g q1 q2 q3
      by (auto simp: termination_confirmed_def find_slot quiet_iff split: if_splits)
  qed
qed

subsection \<open>Reading \<open>/proc/<pid>/stat\<close>\<close>

lemma after_last_append: "c \<notin> set t \<Longrightarrow> after_last c (s @ c # t) = Some t"
proof -
  have none: "c \<notin> set t \<Longrightarrow> after_last c t = None" for t by (induction t) auto
  assume "c \<notin> set t"
  then show ?thesis using none by (induction s) auto
qed

lemma split_whitespace_blank: "\<forall>c \<in> set s. is_whitespace c \<Longrightarrow> split_whitespace s = []"
  by (induction s) auto

lemma split_whitespace_word:
  assumes "w \<noteq> []" "\<forall>c \<in> set w. \<not> is_whitespace c" "s = [] \<or> is_whitespace (hd s)"
  shows "split_whitespace (w @ s) = w # split_whitespace s"
  using assms(1,2)
proof (induction w)
  case (Cons c w)
  show ?case
  proof (cases w)
    case Nil
    then show ?thesis using Cons.prems assms(3) by (cases s) auto
  next
    case (Cons d w')
    then show ?thesis using Cons.IH Cons.prems by simp
  qed
qed simp

definition stat_line :: "rstring \<Rightarrow> rstring \<Rightarrow> rstring list \<Rightarrow> rstring" where
  "stat_line pid name fs = pid @ [32, 40] @ name @ [41] @ concat (map (\<lambda>x. 32 # x) fs) @ [10]"

definition stat_fields :: "rstring list \<Rightarrow> bool" where
  "stat_fields fs \<longleftrightarrow> list_all (\<lambda>x. x \<noteq> [] \<and> 41 \<notin> set x \<and> list_all (\<lambda>c. \<not> is_whitespace c) x) fs"

lemma split_whitespace_fields:
  "stat_fields fs \<Longrightarrow> split_whitespace (concat (map (\<lambda>x. 32 # x) fs) @ [10]) = fs"
proof (induction fs)
  case Nil
  show ?case by (simp add: is_whitespace_def)
next
  case (Cons x fs)
  let ?r = "concat (map (\<lambda>x. 32 # x) fs) @ [10]"
  have "is_whitespace (hd ?r)" by (cases fs) (simp_all add: is_whitespace_def)
  moreover have "x \<noteq> []" "\<forall>c \<in> set x. \<not> is_whitespace c" using Cons.prems by (simp_all add: stat_fields_def list_all_iff)
  ultimately have "split_whitespace (x @ ?r) = x # split_whitespace ?r" by (intro split_whitespace_word) auto
  then show ?case using Cons by (simp add: stat_fields_def is_whitespace_def)
qed

lemma command_name_parses:
  assumes "stat_fields fs"
  shows "parse_stat (stat_line pid name fs) =
    (if 19 < length fs
     then case (parse_unsigned u32_limit (fs ! 2), parse_unsigned u64_limit (fs ! 19)) of
         (Some pgid, Some start) \<Rightarrow> Some (pgid, start)
       | _ \<Rightarrow> None
     else None)"
proof -
  have "41 \<notin> set (concat (map (\<lambda>x. 32 # x) fs) @ [10 :: rchar])"
    using assms by (auto simp: stat_fields_def list_all_iff)
  from after_last_append [OF this, of "pid @ [32, 40] @ name"]
  have "after_last 41 (stat_line pid name fs) = Some (concat (map (\<lambda>x. 32 # x) fs) @ [10])"
    by (simp add: stat_line_def)
  then show ?thesis
    using split_whitespace_fields [OF assms]
    by (auto simp: parse_stat_def nth_field_def split: option.splits)
qed

text \<open>
  A process cannot disguise itself by its command name: whatever the name holds, closing
  parentheses and spaces included, the process group and start time read from the kernel's line are
  its third and twentieth field after the name.
\<close>
theorem command_name_cannot_spoof:
  assumes "stat_fields fs"
  shows "parse_stat (stat_line pid name fs) =
    (if 19 < length fs
     then case (parse_unsigned u32_limit (fs ! 2), parse_unsigned u64_limit (fs ! 19)) of
         (Some pgid, Some start) \<Rightarrow> Some (pgid, start)
       | _ \<Rightarrow> None
     else None)"
  using assms by (rule command_name_parses)

definition demo_fields :: "rstring list" where
  "demo_fields = lit ''S'' # lit ''1'' # lit ''7'' # replicate 16 (lit ''0'') @ [lit ''100'']"

lemma demo_fields_ok:
  "stat_fields demo_fields" "19 < length demo_fields" "demo_fields ! 2 = lit ''7''" "demo_fields ! 19 = lit ''100''"
  by (simp_all add: demo_fields_def stat_fields_def lit_def is_whitespace_def nth_append list_all_iff)

lemma demo_numbers: "parse_unsigned u32_limit (lit ''7'') = Some 7" "parse_unsigned u64_limit (lit ''100'') = Some 100"
  by (simp_all add: parse_unsigned_def parse_digits_def is_digit_def undec_def u32_limit_def u64_limit_def lit_def Let_def)

lemma command_name_cannot_spoof_witness:
  "parse_stat (stat_line (lit ''7'') (lit ''sh) S 1 2 (x'') demo_fields) = Some (7, 100)"
  by (simp only: command_name_cannot_spoof [OF demo_fields_ok(1)] demo_fields_ok demo_numbers if_True prod.case option.case)

subsection \<open>A sweep that kills\<close>

text \<open>A shell with process 7, started at 100, whose server 5 is gone; the group dies by the KILL at moment 10.\<close>

definition demo_os :: os where
  "demo_os = \<lparr>os_kill = (\<lambda>t target sg. if target = 5 \<or> 11 \<le> t then Some ESRCH else None),
     os_stat = (\<lambda>t pid. if pid = 7 then Some (stat_line (lit ''7'') (lit ''sh'') demo_fields) else None),
     os_proc = (\<lambda>t. Inr [lit ''7'', lit ''self''])\<rparr>"

definition demo_entry :: ledger_entry where
  "demo_entry = \<lparr>le_pane_id = ''p'', le_pid = 7, le_pgid = 7, le_proc_start_time = 100, le_spawned_at = 1,
     le_owner = \<lparr>pi_pid = 5, pi_start_time = 50\<rparr>\<rparr>"

abbreviation demo_world :: world where
  "demo_world \<equiv> \<lparr>w_time = 0, w_signals = []\<rparr>"

abbreviation demo_file :: ledger_file where
  "demo_file \<equiv> Stored \<lparr>pl_schema_version = 1, pl_entries = [demo_entry]\<rparr>"

lemma demo_stat: "parse_stat (stat_line (lit ''7'') (lit ''sh'') demo_fields) = Some (7, 100)"
  by (rule trans [OF command_name_parses [OF demo_fields_ok(1)]]) (simp only: demo_fields_ok demo_numbers if_True prod.case option.case)

lemma demo_self: "parse_unsigned u32_limit (lit ''self'') = None"
  by (simp add: parse_unsigned_def parse_digits_def is_digit_def lit_def)

lemma demo_kill:
  "kill demo_os target sg \<lparr>w_time = t, w_signals = ss\<rparr> =
     (if target = 5 \<or> 11 \<le> t then Some ESRCH else None,
      \<lparr>w_time = Suc t, w_signals = ss @ (if sg = 0 then [] else [(t, target, sg)])\<rparr>)"
  by (simp add: kill_def demo_os_def)

lemma demo_probes:
  "identity_probe demo_os 5 50 \<lparr>w_time = t, w_signals = ss\<rparr> = (Dead, \<lparr>w_time = Suc t, w_signals = ss\<rparr>)"
  "t < 10 \<Longrightarrow> identity_probe demo_os 7 100 \<lparr>w_time = t, w_signals = ss\<rparr> = (Alive, \<lparr>w_time = t + 2, w_signals = ss\<rparr>)"
  "group_probe demo_os 7 \<lparr>w_time = t, w_signals = ss\<rparr> = (if t < 11 then Alive else Dead, \<lparr>w_time = Suc t, w_signals = ss\<rparr>)"
  "snapshot_group demo_os 7 \<lparr>w_time = t, w_signals = ss\<rparr> = (Inr [(7, 100)], \<lparr>w_time = t + 2, w_signals = ss\<rparr>)"
  by (simp_all add: identity_probe_def process_probe_def group_probe_def probe_kill_def demo_kill i32_limit_def
      process_start_time_def snapshot_group_def linux_stat_def demo_os_def [THEN arg_cong, of os_stat]
      demo_os_def [THEN arg_cong, of os_proc] demo_stat demo_numbers demo_self)

lemma demo_signals:
  "t < 11 \<Longrightarrow> signal_process demo_os 7 SIGKILL \<lparr>w_time = t, w_signals = ss\<rparr> = (None, \<lparr>w_time = Suc t, w_signals = ss @ [(t, 7, SIGKILL)]\<rparr>)"
  "t < 11 \<Longrightarrow> signal_group demo_os 7 SIGTERM \<lparr>w_time = t, w_signals = ss\<rparr> = (None, \<lparr>w_time = Suc t, w_signals = ss @ [(t, -7, SIGTERM)]\<rparr>)"
  by (simp_all add: signal_process_def signal_group_def demo_kill i32_limit_def SIGKILL_def SIGTERM_def)

lemma demo_entry_fields [simp]:
  "le_pid demo_entry = 7" "le_pgid demo_entry = 7" "le_proc_start_time demo_entry = 100"
  "le_owner demo_entry = \<lparr>pi_pid = 5, pi_start_time = 50\<rparr>"
  by (simp_all add: demo_entry_def)

lemma demo_sweep:
  "sweep_at (\<lambda>_. Locked) None demo_os demo_file demo_world =
     (Inr \<lparr>sw_entries = 1, sw_kept_foreign = 0, sw_swept = 1, sw_skipped = 0\<rparr>,
      Stored \<lparr>pl_schema_version = 1, pl_entries = []\<rparr>,
      \<lparr>w_time = 12, w_signals = [(4, -7, SIGTERM), (10, 7, SIGKILL)]\<rparr>)"
  by (simp add: sweep_at_def acquire_lock_def acquire_loop.simps read_ledger_def SCHEMA_VERSION_def write_ledger_def
      sweep_entry_def term_phase_def kill_phase_def final_probe_def demo_probes demo_signals)

lemma sweep_kills_only_orphans_witness:
  "\<exists>t0. process_gone demo_os t0 5 50 \<and> kill_evidence demo_os demo_entry t0 7 10"
  using sweep_kills_only_orphans [OF demo_sweep] by (auto simp: SIGTERM_def SIGKILL_def read_ledger_def SCHEMA_VERSION_def)

lemma sweep_drops_only_gone_witness:
  "orphan_gone demo_os 0 demo_entry"
  using sweep_drops_only_gone [OF demo_sweep] by (simp add: read_ledger_def SCHEMA_VERSION_def Let_def)

lemma confirmed_exit_is_gone_witness:
  "w_signals (snd (termination_confirmed (\<lambda>_. Locked) demo_os 7 ''p'' demo_file demo_world)) = []"
  using confirmed_exit_is_gone [OF prod.collapse [symmetric], of "\<lambda>_. Locked" demo_os 7 "''p''" demo_file demo_world] by simp

end
