(* ===== verification/SessionCore.thy ===== *)
theory SessionCore
  imports VtScreenWf Expiry
begin

section \<open>A session: its screen, its clients and the output they get\<close>

text \<open>
  \<open>session/mod.rs\<close> and \<open>session/backend.rs\<close>: what a session does with the output of its process.
  Output goes to the clients over bounded channels; while the program draws a synchronized update
  (DEC mode 2026) it is buffered; a client that joins gets a snapshot of the screen first. Every
  lock-protected step of the code is one function on the session's state. What the operating system
  answers (a lock that is taken, a failing write or resize) is a parameter.
\<close>

subsection \<open>Channels\<close>

text \<open>
  \<open>tokio::sync::mpsc\<close>: everything ever accepted, how much of it the receiver took, and whether the
  receiver is gone. \<open>capacity\<close> is \<open>None\<close> for an unbounded channel.
\<close>

record 'a chan =
  ch_sent :: "'a list"
  ch_taken :: nat
  ch_closed :: bool
  ch_capacity :: "nat option"

definition new_chan :: "nat option \<Rightarrow> 'a chan" where
  "new_chan cap = \<lparr>ch_sent = [], ch_taken = 0, ch_closed = False, ch_capacity = cap\<rparr>"

definition chan_full :: "'a chan \<Rightarrow> bool" where
  "chan_full ch = (case ch_capacity ch of None \<Rightarrow> False | Some n \<Rightarrow> n \<le> length (ch_sent ch) - ch_taken ch)"

definition try_send :: "'a \<Rightarrow> 'a chan \<Rightarrow> bool \<times> 'a chan" where
  "try_send x ch =
     (if ch_closed ch \<or> chan_full ch then (False, ch) else (True, ch\<lparr>ch_sent := ch_sent ch @ [x]\<rparr>))"

definition chan_recv :: "'a chan \<Rightarrow> 'a option \<times> 'a chan" where
  "chan_recv ch =
     (if ch_taken ch < length (ch_sent ch) then (Some (ch_sent ch ! ch_taken ch), ch\<lparr>ch_taken := Suc (ch_taken ch)\<rparr>)
      else (None, ch))"

definition chan_close :: "'a chan \<Rightarrow> 'a chan" where
  "chan_close ch = ch\<lparr>ch_closed := True\<rparr>"

subsection \<open>State\<close>

datatype client_event =
    Output rstring
  | Resize nat nat
  | SessionExit string "int option"
  | SyncBegin
  | SyncEnd
  | ReplayBegin nat nat
  | ReplayEnd

record sync_state =
  sy_active :: bool
  sy_buffer :: "rstring list"
  sy_bytes :: nat

record client_endpoint =
  ce_client :: nat
  ce_tx :: "client_event chan"
  ce_snapshot_pending :: bool

datatype session_status = Connected | Detached instant

datatype ssh_cmd = SshInput "u8 list" | SshResize nat nat | SshClose

text \<open>The local process: what was written to it and the size it was told.\<close>

record local_pty =
  lp_written :: "u8 list"
  lp_size :: "nat \<times> nat"

datatype session_backend = LocalPty local_pty | SshBackend | ExitedBackend

record 'ps session =
  se_backend :: session_backend
  se_is_ssh :: bool
  se_screen :: "'ps virtual_screen"
  se_clients :: "client_endpoint list"
  se_next_client :: nat
  se_tauri_client :: "nat option"
  se_status :: session_status
  se_is_connected :: bool
  se_size :: "nat \<times> nat"
  se_exited :: bool
  se_sync :: sync_state
  se_ssh_cmds :: "ssh_cmd chan option"

definition SYNC_BUFFER_LIMIT :: nat where
  "SYNC_BUFFER_LIMIT = 256 * 1024"

definition FLUSH_CHUNK_SIZE :: nat where
  "FLUSH_CHUNK_SIZE = 64 * 1024"

definition CLIENT_CHANNEL :: nat where
  "CLIENT_CHANNEL = 10240"

definition new_sync :: sync_state where
  "new_sync = \<lparr>sy_active = False, sy_buffer = [], sy_bytes = 0\<rparr>"

subsection \<open>Status and exit\<close>

definition set_status :: "session_status \<Rightarrow> 'ps session \<Rightarrow> 'ps session" where
  "set_status st s =
     (case st of
        Connected \<Rightarrow> s\<lparr>se_is_connected := True, se_status := Connected\<rparr>
      | Detached since \<Rightarrow> s\<lparr>se_status := Detached since, se_is_connected := False\<rparr>)"

definition mark_exited :: "'ps session \<Rightarrow> 'ps session" where
  "mark_exited s = s\<lparr>se_exited := True\<rparr>"

definition mark_failed_attach :: "instant \<Rightarrow> 'ps session \<Rightarrow> 'ps session" where
  "mark_failed_attach now s = mark_exited (set_status (Detached now) s)"

definition send_ssh :: "ssh_cmd \<Rightarrow> 'ps session \<Rightarrow> bool \<times> 'ps session" where
  "send_ssh cmd s =
     (case se_ssh_cmds s of
        None \<Rightarrow> (False, s)
      | Some ch \<Rightarrow> let (ok, ch') = try_send cmd ch in (ok, s\<lparr>se_ssh_cmds := Some ch'\<rparr>))"

text \<open>\<open>kill_child\<close> does nothing while somebody else holds the backend.\<close>

definition kill_backend_sync :: "bool \<Rightarrow> 'ps session \<Rightarrow> 'ps session" where
  "kill_backend_sync held s =
     (if held then s
      else let s' = s\<lparr>se_backend := ExitedBackend\<rparr> in
        case se_backend s of
          LocalPty p \<Rightarrow> mark_exited s'
        | SshBackend \<Rightarrow> mark_exited (snd (send_ssh SshClose s'))
        | ExitedBackend \<Rightarrow> s')"

definition kill_backend_async :: "'ps session \<Rightarrow> 'ps session" where
  "kill_backend_async s =
     (case se_ssh_cmds s of None \<Rightarrow> s | Some _ \<Rightarrow> mark_exited (snd (send_ssh SshClose s)))"

text \<open>\<open>waited\<close>: whether the child was seen to end within the polling window.\<close>

definition kill_child_and_confirm :: "bool \<Rightarrow> bool \<Rightarrow> 'ps session \<Rightarrow> bool \<times> 'ps session" where
  "kill_child_and_confirm held waited s =
     (if held then (False, s)
      else
        let (confirmed, s') =
          (case se_backend s of
             LocalPty p \<Rightarrow> (waited, s)
           | SshBackend \<Rightarrow> send_ssh SshClose s
           | ExitedBackend \<Rightarrow> (True, s)) in
        (confirmed, if confirmed then s'\<lparr>se_backend := ExitedBackend\<rparr> else s'))"

subsection \<open>Input\<close>

text \<open>\<open>io\<close>: no failure, or an error after some bytes were written.\<close>

definition write_input_locked :: "(string \<times> nat) option \<Rightarrow> u8 list \<Rightarrow> 'ps session \<Rightarrow> (string + unit) \<times> 'ps session" where
  "write_input_locked io data s =
     (case se_backend s of
        LocalPty p \<Rightarrow>
          (case io of
             Some (e, n) \<Rightarrow> (Inl e, s\<lparr>se_backend := LocalPty (p\<lparr>lp_written := lp_written p @ take n data\<rparr>)\<rparr>)
           | None \<Rightarrow> (Inr (), s\<lparr>se_backend := LocalPty (p\<lparr>lp_written := lp_written p @ data\<rparr>)\<rparr>))
      | SshBackend \<Rightarrow> (Inl ''use write_input_async for SSH sessions'', s)
      | ExitedBackend \<Rightarrow> (Inl ''session exited'', s))"

definition write_input_sync :: "bool \<Rightarrow> (string \<times> nat) option \<Rightarrow> u8 list \<Rightarrow> 'ps session \<Rightarrow> (string + unit) \<times> 'ps session" where
  "write_input_sync held io data s =
     (if held then (Inl ''backend lock held'', s) else write_input_locked io data s)"

definition write_input_async :: "(string \<times> nat) option \<Rightarrow> u8 list \<Rightarrow> 'ps session \<Rightarrow> (string + unit) \<times> 'ps session" where
  "write_input_async io data s =
     (if se_is_ssh s then
        (if se_ssh_cmds s = None then (Inl ''SSH session not initialized'', s)
         else let (ok, s') = send_ssh (SshInput data) s in
           (if ok then Inr () else Inl ''SSH cmd channel closed'', s'))
      else
        case se_backend s of
          SshBackend \<Rightarrow> (Inr (), s)
        | _ \<Rightarrow> write_input_locked io data s)"

subsection \<open>Output to the clients\<close>

definition prune :: "client_endpoint list \<Rightarrow> client_endpoint list" where
  "prune cs = filter (\<lambda>c. \<not> ch_closed (ce_tx c)) cs"

definition deliver :: "client_event \<Rightarrow> client_endpoint \<Rightarrow> client_endpoint" where
  "deliver ev c = c\<lparr>ce_tx := snd (try_send ev (ce_tx c))\<rparr>"

definition send_chunk_to_clients :: "rstring \<Rightarrow> client_endpoint list \<Rightarrow> client_endpoint list" where
  "send_chunk_to_clients chunk cs =
     map (\<lambda>c. if ce_snapshot_pending c then c else deliver (Output chunk) c) (prune cs)"

definition enqueue_control :: "client_event \<Rightarrow> 'ps session \<Rightarrow> 'ps session" where
  "enqueue_control ev s = s\<lparr>se_clients := map (deliver ev) (prune (se_clients s))\<rparr>"

text \<open>
  The loop of \<open>flush_sync_buffer_locked\<close> over byte offsets: a window that held no character boundary
  would not move \<open>start\<close>, and the loop would not end.
\<close>

definition slice_bytes :: "nat \<Rightarrow> nat \<Rightarrow> rstring \<Rightarrow> rstring option" where
  "slice_bytes start end s = do { (a, _) \<leftarrow> split_bytes end s; (_, b) \<leftarrow> split_bytes start a; Some b }"

partial_function (option) flush_loop ::
  "rstring \<Rightarrow> nat \<Rightarrow> client_endpoint list \<Rightarrow> client_endpoint list option" where
  "flush_loop combined start cs =
     (if start < byte_len combined then
        let top = min (start + FLUSH_CHUNK_SIZE) (byte_len combined);
            end = back_off combined start (top - start) in
        (case slice_bytes start end combined of
           None \<Rightarrow> None
         | Some chunk \<Rightarrow> flush_loop combined end (send_chunk_to_clients chunk cs))
      else Some cs)"

definition flush_sync_buffer :: "'ps session \<Rightarrow> 'ps session option" where
  "flush_sync_buffer s =
     (let data = sy_buffer (se_sync s);
          s1 = s\<lparr>se_sync := (se_sync s)\<lparr>sy_buffer := [], sy_bytes := 0\<rparr>\<rparr> in
      if data = [] then Some s1
      else do { cs \<leftarrow> flush_loop (concat data) 0 (se_clients s1); Some (s1\<lparr>se_clients := cs\<rparr>) })"

definition broadcast :: "rstring \<Rightarrow> 'ps session \<Rightarrow> 'ps session option" where
  "broadcast msg s =
     (if se_exited s then Some s
      else
        let sy = se_sync s in
        if sy_active sy then
          let s1 = s\<lparr>se_sync := sy\<lparr>sy_buffer := sy_buffer sy @ [msg], sy_bytes := sy_bytes sy + byte_len msg\<rparr>\<rparr> in
          if sy_bytes (se_sync s1) < SYNC_BUFFER_LIMIT then Some s1 else flush_sync_buffer s1
        else Some (s\<lparr>se_clients := send_chunk_to_clients msg (se_clients s)\<rparr>))"

definition set_sync_mode :: "bool \<Rightarrow> 'ps session \<Rightarrow> 'ps session option" where
  "set_sync_mode active s =
     (if active then
        (if sy_active (se_sync s) then Some s
         else Some (enqueue_control SyncBegin (s\<lparr>se_sync := (se_sync s)\<lparr>sy_active := True\<rparr>\<rparr>)))
      else
        if \<not> sy_active (se_sync s) then Some s
        else do {
          s' \<leftarrow> flush_sync_buffer (s\<lparr>se_sync := (se_sync s)\<lparr>sy_active := False\<rparr>\<rparr>);
          Some (enqueue_control SyncEnd s')
        })"

subsection \<open>Resizing and snapshots\<close>

definition resize_pty :: "string option \<Rightarrow> nat \<Rightarrow> nat \<Rightarrow> 'ps session \<Rightarrow> (string + unit) \<times> 'ps session" where
  "resize_pty io cols rows s =
     (case se_backend s of
        LocalPty p \<Rightarrow>
          (case io of
             Some e \<Rightarrow> (Inl e, s)
           | None \<Rightarrow> (Inr (), s\<lparr>se_backend := LocalPty (p\<lparr>lp_size := (cols, rows)\<rparr>)\<rparr>))
      | _ \<Rightarrow> (Inr (), s))"

text \<open>The size and the screen follow; resizing the screen may panic.\<close>

definition set_size :: "nat \<Rightarrow> nat \<Rightarrow> 'ps session \<Rightarrow> 'ps session option" where
  "set_size cols rows s =
     do { vs \<leftarrow> resize_screen cols rows (se_screen s); Some (s\<lparr>se_size := (cols, rows), se_screen := vs\<rparr>) }"

definition resize :: "bool \<Rightarrow> string option \<Rightarrow> nat \<Rightarrow> nat \<Rightarrow> 'ps session \<Rightarrow> ((string + unit) \<times> 'ps session) option" where
  "resize held io cols rows s =
     (if se_exited s then Some (Inr (), s)
      else
        let (r, s1) = (if held then (Inr (), s) else resize_pty io cols rows s) in
        case r of
          Inl e \<Rightarrow> Some (Inl e, s1)
        | Inr _ \<Rightarrow> do { s2 \<leftarrow> set_size cols rows s1; Some (Inr (), s2) })"

definition resize_async :: "string option \<Rightarrow> nat \<Rightarrow> nat \<Rightarrow> 'ps session \<Rightarrow> ((string + unit) \<times> 'ps session) option" where
  "resize_async io cols rows s =
     (if se_exited s then Some (Inr (), s)
      else
        let (r, s1) = (if se_is_ssh s then (Inr (), snd (send_ssh (SshResize cols rows) s)) else resize_pty io cols rows s) in
        case r of
          Inl e \<Rightarrow> Some (Inl e, s1)
        | Inr _ \<Rightarrow> do { s2 \<leftarrow> set_size cols rows s1; Some (Inr (), s2) })"

text \<open>The part of \<open>atomic_resize_and_snapshot_for_client\<close> under the clients' lock; only the first client of that id counts.\<close>

definition replay_events :: "nat \<Rightarrow> nat \<Rightarrow> rstring list \<Rightarrow> rstring \<Rightarrow> client_event list" where
  "replay_events cols rows chunks snap = ReplayBegin cols rows # map Output chunks @ [Output snap, ReplayEnd]"

definition replay_to_client :: "nat \<Rightarrow> nat \<Rightarrow> nat \<Rightarrow> 'ps session \<Rightarrow> ((string + unit) \<times> 'ps session) option" where
  "replay_to_client cid cols rows s =
     (let cs = prune (se_clients s) in
      if find (\<lambda>c. ce_client c = cid) cs = None
      then Some (Inl ''snapshot target client not found or disconnected'', s\<lparr>se_clients := cs\<rparr>)
      else do {
        snap \<leftarrow> snapshot_for_replay (se_screen s);
        let evs = replay_events cols rows (snapshot_scrollback_chunks 200 (se_screen s)) snap;
        Some (Inr (), s\<lparr>se_clients :=
          update_first (\<lambda>c. ce_client c = cid) (\<lambda>c. (fold deliver evs c)\<lparr>ce_snapshot_pending := False\<rparr>) cs\<rparr>)
      })"

definition break_sync :: "'ps session \<Rightarrow> 'ps session option" where
  "break_sync s = (if sy_active (se_sync s) then set_sync_mode False s else Some s)"

definition atomic_resize_and_snapshot_for_client ::
  "string option \<Rightarrow> nat \<Rightarrow> nat \<Rightarrow> nat \<Rightarrow> 'ps session \<Rightarrow> ((string + unit) \<times> 'ps session) option" where
  "atomic_resize_and_snapshot_for_client io cid cols rows s =
     do {
       s1 \<leftarrow> break_sync s;
       (r, s2) \<leftarrow> resize_async io cols rows s1;
       (case r of Inl e \<Rightarrow> Some (Inl e, s2) | Inr _ \<Rightarrow> replay_to_client cid cols rows s2)
     }"

definition apply_and_broadcast_resize ::
  "bool \<Rightarrow> string option \<Rightarrow> nat \<Rightarrow> nat \<Rightarrow> nat \<Rightarrow> 'ps session \<Rightarrow> 'ps session option" where
  "apply_and_broadcast_resize held io origin cols rows s =
     do {
       s0 \<leftarrow> break_sync s;
       let s1 = s0\<lparr>se_clients := prune (se_clients s0)\<rparr>;
       if \<not> list_ex (\<lambda>c. ce_client c = origin) (se_clients s1) then Some s1
       else do {
         (r, s2) \<leftarrow> resize held io cols rows s1;
         (case r of
            Inl e \<Rightarrow> Some s2
          | Inr _ \<Rightarrow> Some (s2\<lparr>se_clients :=
              map (\<lambda>c. if ce_client c = origin then c else deliver (Resize cols rows) c) (prune (se_clients s2))\<rparr>))
       }
     }"

subsection \<open>Clients come and go\<close>

definition clear_tauri_client_if :: "nat \<Rightarrow> 'ps session \<Rightarrow> 'ps session" where
  "clear_tauri_client_if cid s = (if se_tauri_client s = Some cid then s\<lparr>se_tauri_client := None\<rparr> else s)"

definition add_client :: "'ps session \<Rightarrow> nat \<times> 'ps session" where
  "add_client s =
     (se_next_client s,
      s\<lparr>se_next_client := (se_next_client s + 1) mod u64_limit,
        se_clients := se_clients s @
          [\<lparr>ce_client = se_next_client s, ce_tx = new_chan (Some CLIENT_CHANNEL), ce_snapshot_pending = True\<rparr>]\<rparr>)"

definition remove_client :: "nat \<Rightarrow> 'ps session \<Rightarrow> 'ps session" where
  "remove_client cid s = s\<lparr>se_clients := filter (\<lambda>c. ce_client c \<noteq> cid) (se_clients s)\<rparr>"

definition notify_exit_and_mark_exited :: "string \<Rightarrow> int option \<Rightarrow> 'ps session \<Rightarrow> bool \<times> 'ps session" where
  "notify_exit_and_mark_exited pane code s =
     (\<not> se_exited s, enqueue_control (SessionExit pane code) (mark_exited s))"

definition has_clients :: "'ps session \<Rightarrow> bool \<times> 'ps session" where
  "has_clients s = (let cs = prune (se_clients s) in (cs \<noteq> [], s\<lparr>se_clients := cs\<rparr>))"

text \<open>What the clients do on their own: take an event from their channel, or hang up.\<close>

definition on_client :: "nat \<Rightarrow> (client_event chan \<Rightarrow> client_event chan) \<Rightarrow> 'ps session \<Rightarrow> 'ps session" where
  "on_client cid f s =
     s\<lparr>se_clients := map (\<lambda>c. if ce_client c = cid then c\<lparr>ce_tx := f (ce_tx c)\<rparr> else c) (se_clients s)\<rparr>"

end
