(* ===== verification/PtyStream.thy ===== *)
theory PtyStream
  imports SessionCore StrOps
begin

section \<open>From the terminal process to the clients\<close>

text \<open>
  \<open>pty.rs\<close>: the reader, which feeds each read to the virtual screen and queues the bytes, and
  \<open>broadcast_task\<close>, which turns the queued bytes into text, carries an incomplete character over to
  the next batch, and ends a synchronized update that takes too long. Publishing a command's result
  on the bus is kept as a list.
\<close>

subsection \<open>Decoding a stream\<close>

text \<open>\<open>std::str::from_utf8\<close> with \<open>Utf8Error::valid_up_to\<close>: the longest well-formed prefix and what follows it.\<close>

function valid_prefix :: "nat list \<Rightarrow> rstring \<times> nat list" where
  "valid_prefix [] = ([], [])"
| "valid_prefix (b # bs) =
     (case decode_step b bs of
        (None, _) \<Rightarrow> ([], b # bs)
      | (Some c, bs') \<Rightarrow> (let (s, r) = valid_prefix bs' in (c # s, r)))"
  by pat_completeness auto
termination
proof (relation "measure length")
  fix b :: nat and bs x y x2
  assume "(x, y) = decode_step b bs"
  then have "y = snd (decode_step b bs)" by (metis snd_conv)
  then show "(y, b # bs) \<in> measure length" using decode_step_length [of b bs] by auto
qed simp

text \<open>The end of one turn of the loop: the texts broadcast, and the bytes kept for the next batch.\<close>

definition decode_batch :: "u8 list \<Rightarrow> u8 list \<Rightarrow> rstring list \<times> u8 list" where
  "decode_batch tail batch =
     (let bytes = tail @ batch;
          (s, rest) = valid_prefix (map unat bytes);
          kept = drop (length bytes - length rest) bytes in
      if rest = [] then ([s], [])
      else
        let msgs = (if s \<noteq> [] then [s] else []) in
        if 3 < length kept then (msgs @ [[REPLACEMENT]], []) else (msgs, kept))"

subsection \<open>The broadcast task\<close>

record pending_result =
  pr_exit_code :: int
  pr_duration_ms :: nat
  pr_stdout :: rstring
  pr_method :: string

record 'ps pty_state =
  py_session :: "'ps session"
  py_pending :: "pending_result list"
  py_queue :: "u8 list list"
  py_tail :: "u8 list"
  py_sync_started :: "instant option"
  py_published :: "pending_result list"

definition SYNC_TIMEOUT :: nat where
  "SYNC_TIMEOUT = 500 * 1000 * 1000"

text \<open>The check of both branches; only a batch starts the clock.\<close>

definition sync_watch :: "bool \<Rightarrow> instant \<Rightarrow> 'ps pty_state \<Rightarrow> 'ps pty_state option" where
  "sync_watch on_batch now p =
     (if sy_active (se_sync (py_session p)) then
        (case py_sync_started p of
           Some started \<Rightarrow>
             if SYNC_TIMEOUT < duration_since now started then
               do { s \<leftarrow> set_sync_mode False (py_session p); Some (p\<lparr>py_session := s, py_sync_started := None\<rparr>) }
             else Some p
         | None \<Rightarrow> Some (if on_batch then p\<lparr>py_sync_started := Some now\<rparr> else p))
      else Some (p\<lparr>py_sync_started := None\<rparr>))"

definition publish_results :: "'ps pty_state \<Rightarrow> 'ps pty_state" where
  "publish_results p = p\<lparr>py_published := py_published p @ py_pending p, py_pending := []\<rparr>"

text \<open>A turn that finds output: it takes everything queued as one batch. \<open>None\<close> inside is the end of the task.\<close>

definition on_batch :: "instant \<Rightarrow> 'ps pty_state \<Rightarrow> 'ps pty_state option option" where
  "on_batch now p =
     (if py_queue p = [] then Some (Some p)
      else if se_exited (py_session p) then Some None
      else do {
        let batch = concat (py_queue p);
        p1 \<leftarrow> sync_watch True now (p\<lparr>py_queue := []\<rparr>);
        let p2 = publish_results p1;
        let (msgs, kept) = decode_batch (py_tail p2) batch;
        s \<leftarrow> fold_opt broadcast msgs (py_session p2);
        Some (Some (p2\<lparr>py_session := s, py_tail := kept\<rparr>))
      })"

definition on_tick :: "instant \<Rightarrow> 'ps pty_state \<Rightarrow> 'ps pty_state option option" where
  "on_tick now p =
     (if se_exited (py_session p) then Some None
      else do { p1 \<leftarrow> sync_watch False now p; Some (Some p1) })"

subsection \<open>The reader\<close>

definition apply_sync_events :: "sync_event list \<Rightarrow> 'ps session \<Rightarrow> 'ps session option" where
  "apply_sync_events evs s =
     fold_opt (\<lambda>e s. set_sync_mode (case e of SyncStart \<Rightarrow> True | SyncStop \<Rightarrow> False) s) evs s"

fun take_outputs :: "nat \<Rightarrow> 'ps virtual_screen \<Rightarrow> rstring list \<times> 'ps virtual_screen" where
  "take_outputs 0 vs = ([], vs)"
| "take_outputs (Suc n) vs =
     (let (out, vs1) = take_command_output vs; (outs, vs2) = take_outputs n vs1 in (out # outs, vs2))"

definition pending_of :: "command_result \<Rightarrow> rstring \<Rightarrow> pending_result" where
  "pending_of r out =
     \<lparr>pr_exit_code = cr_exit_code r, pr_duration_ms = cr_duration_ms r, pr_stdout = out, pr_method = cr_method r\<rparr>"

text \<open>
  One read: the notifications of the OSC sequences are handed out, the synchronized updates take
  effect, and only then are the bytes queued. A panic inside \<open>feed\<close> is caught; \<open>wreck\<close> is the screen
  it leaves.
\<close>

definition reader_step ::
  "'ps advance \<Rightarrow> (rchar \<Rightarrow> nat option) \<Rightarrow> ('ps virtual_screen \<Rightarrow> 'ps virtual_screen) \<Rightarrow> nat \<Rightarrow> u8 list \<Rightarrow> 'ps pty_state \<Rightarrow>
     (osc_action list \<times> 'ps pty_state) option" where
  "reader_step advance width wreck now data p =
     (let s = py_session p in
      case feed advance width now data (se_screen s) of
        None \<Rightarrow> Some ([], p\<lparr>py_session := s\<lparr>se_screen := wreck (se_screen s)\<rparr>, py_queue := py_queue p @ [data]\<rparr>)
      | Some vs1 \<Rightarrow>
          let (results, vs2) = drain_command_results vs1;
              (outs, vs3) = take_outputs (length results) vs2;
              (syncs, vs4) = drain_sync_events vs3;
              (osc, vs5) = drain_osc_actions vs4 in
          do {
            s1 \<leftarrow> apply_sync_events syncs (s\<lparr>se_screen := vs5\<rparr>);
            Some (osc, p\<lparr>py_session := s1, py_pending := py_pending p @ map2 pending_of results outs,
              py_queue := py_queue p @ [data]\<rparr>)
          })"

end
