(* ===== verification/SessionRun.thy ===== *)
theory SessionRun
  imports SessionCore
begin

section \<open>Runs of a session and what each step puts on the wire\<close>

text \<open>
  The steps of a session as an interleaving of its callers: the PTY's broadcast task, the resize
  task, connections that come, fetch a snapshot, read and go. \<open>step_wire\<close> says for every step what
  one client's channel is offered; the properties in \<open>SessionProps\<close> follow by induction on the run.
\<close>

datatype session_op =
    OpBroadcast rstring
  | OpSync bool
  | OpFlush
  | OpResize bool "string option" nat nat nat
  | OpResizeAsync "string option" nat nat
  | OpReplay nat nat nat
  | OpAdd
  | OpRemove nat
  | OpRecv nat
  | OpHangUp nat
  | OpHasClients
  | OpExit string "int option"

definition session_step :: "session_op \<Rightarrow> 'ps session \<Rightarrow> 'ps session option" where
  "session_step op s =
     (case op of
        OpBroadcast msg \<Rightarrow> broadcast msg s
      | OpSync b \<Rightarrow> set_sync_mode b s
      | OpFlush \<Rightarrow> flush_sync_buffer s
      | OpResize held io origin cols rows \<Rightarrow> apply_and_broadcast_resize held io origin cols rows s
      | OpResizeAsync io cols rows \<Rightarrow> map_option snd (resize_async io cols rows s)
      | OpReplay cid cols rows \<Rightarrow> map_option snd (replay_to_client cid cols rows s)
      | OpAdd \<Rightarrow> Some (snd (add_client s))
      | OpRemove cid \<Rightarrow> Some (remove_client cid s)
      | OpRecv cid \<Rightarrow> Some (on_client cid (\<lambda>ch. snd (chan_recv ch)) s)
      | OpHangUp cid \<Rightarrow> Some (on_client cid chan_close s)
      | OpHasClients \<Rightarrow> Some (snd (has_clients s))
      | OpExit pane code \<Rightarrow> Some (snd (notify_exit_and_mark_exited pane code s)))"

text \<open>\<open>atomic_resize_and_snapshot_for_client\<close> is a run of three steps when the resize succeeds.\<close>

lemma atomic_is_run:
  "atomic_resize_and_snapshot_for_client io cid cols rows s =
     do {
       s1 \<leftarrow> session_step (OpSync False) s;
       (r, s2) \<leftarrow> resize_async io cols rows s1;
       (case r of Inl e \<Rightarrow> Some (Inl e, s2) | Inr _ \<Rightarrow> replay_to_client cid cols rows s2)
     }"
  by (simp add: atomic_resize_and_snapshot_for_client_def session_step_def break_sync_def set_sync_mode_def)

subsection \<open>The flush loop ends\<close>

definition small_chunks :: "rstring list \<Rightarrow> bool" where
  "small_chunks chunks \<longleftrightarrow> list_all (\<lambda>c. c \<noteq> [] \<and> byte_len c \<le> FLUSH_CHUNK_SIZE) chunks"

lemma slice_bytes_append: "slice_bytes (byte_len a) (byte_len a + byte_len b) (a @ b @ c) = Some b"
proof -
  have "split_bytes (byte_len a + byte_len b) (a @ b @ c) = Some (a @ b, c)"
    using split_bytes_append [of "a @ b" c] by simp
  then show ?thesis by (simp add: slice_bytes_def)
qed

lemma window_prefix:
  assumes "is_char_boundary (a @ b) e" "byte_len a < e" "e \<le> byte_len a + n"
  shows "\<exists>b1 b2. b = b1 @ b2 \<and> e = byte_len a + byte_len b1 \<and> b1 \<noteq> [] \<and> byte_len b1 \<le> n"
proof -
  obtain p q where pq: "a @ b = p @ q" "byte_len p = e" using assms(1) unfolding boundary_iff_prefix by blast
  have "\<not> (\<exists>r. a = p @ r)" using assms(2) pq(2) by auto
  then obtain b1 where b1: "p = a @ b1" "b = b1 @ q"
    using pq(1) unfolding append_eq_append_conv2 by blast
  show ?thesis by (rule exI [of _ b1], rule exI [of _ q]) (use assms(2,3) pq(2) b1 in auto)
qed

lemma flush_loop_ends:
  "\<exists>chunks. concat chunks = b \<and> small_chunks chunks \<and>
     flush_loop (a @ b) (byte_len a) cs = Some (fold send_chunk_to_clients chunks cs)"
proof (induction "byte_len b" arbitrary: a b cs rule: less_induct)
  case less
  show ?case
  proof (cases "b = []")
    case True
    then show ?thesis by (intro exI [of _ "[]"]) (simp add: small_chunks_def flush_loop.simps)
  next
    case False
    let ?s = "a @ b" and ?lo = "byte_len a"
    let ?n = "min (?lo + FLUSH_CHUNK_SIZE) (byte_len ?s) - ?lo"
    let ?e = "back_off ?s ?lo ?n"
    have len: "0 < byte_len b" using False by (rule byte_len_pos)
    have lo: "is_char_boundary ?s ?lo" by (auto simp: boundary_iff_prefix)
    have "\<exists>b1 b2. b = b1 @ b2 \<and> ?e = ?lo + byte_len b1 \<and> b1 \<noteq> [] \<and> byte_len b1 \<le> FLUSH_CHUNK_SIZE"
    proof -
      have lt: "?lo < ?e"
      proof (cases "4 \<le> ?n")
        case True
        then show ?thesis using lo len by (intro back_off_progress) auto
      next
        case short: False
        then have "?lo + ?n = byte_len ?s" using len by (auto simp: FLUSH_CHUNK_SIZE_def)
        then have "byte_len ?s \<le> ?e" using boundary_len [of ?s] by (intro back_off_greatest) simp_all
        then show ?thesis using len by simp
      qed
      have bd: "is_char_boundary ?s ?e" using lo by (rule back_off_boundary)
      have le: "?e \<le> ?lo + ?n" using back_off_bounds by blast
      show ?thesis by (rule window_prefix [OF bd lt]) (use le in simp)
    qed
    then obtain b1 b2 where b: "b = b1 @ b2" "?e = ?lo + byte_len b1" "b1 \<noteq> []" "byte_len b1 \<le> FLUSH_CHUNK_SIZE" by blast
    have "0 < byte_len b1" using b(3) by (rule byte_len_pos)
    then obtain chunks where c: "concat chunks = b2" "small_chunks chunks"
      "flush_loop ((a @ b1) @ b2) (byte_len (a @ b1)) (send_chunk_to_clients b1 cs) =
         Some (fold send_chunk_to_clients chunks (send_chunk_to_clients b1 cs))"
      using less.hyps [of b2 "a @ b1"] b(1) by fastforce
    have "flush_loop ?s ?lo cs = flush_loop ?s ?e (send_chunk_to_clients b1 cs)"
      using len b(2) slice_bytes_append [of a b1 b2] by (subst flush_loop.simps) (simp add: b(1) Let_def)
    then have "flush_loop ?s ?lo cs = Some (fold send_chunk_to_clients (b1 # chunks) cs)"
      using c(3) b(1,2) by simp
    then show ?thesis using b c(1,2) by (intro exI [of _ "b1 # chunks"]) (simp add: small_chunks_def)
  qed
qed

lemma flush_sync_buffer_eq:
  "\<exists>chunks. concat chunks = concat (sy_buffer (se_sync s)) \<and> small_chunks chunks \<and>
     flush_sync_buffer s = Some (s\<lparr>se_sync := (se_sync s)\<lparr>sy_buffer := [], sy_bytes := 0\<rparr>,
       se_clients := fold send_chunk_to_clients chunks (se_clients s)\<rparr>)"
proof (cases "sy_buffer (se_sync s) = []")
  case True
  then show ?thesis by (intro exI [of _ "[]"]) (simp add: flush_sync_buffer_def small_chunks_def)
next
  case False
  then show ?thesis
    using flush_loop_ends [of "concat (sy_buffer (se_sync s))" "[]" "se_clients s"]
    by (auto simp: flush_sync_buffer_def Let_def)
qed

subsection \<open>What one client is offered\<close>

fun is_output :: "client_event \<Rightarrow> bool" where
  "is_output (Output t) = True"
| "is_output _ = False"

definition offer :: "client_event list \<Rightarrow> client_endpoint \<Rightarrow> client_endpoint" where
  "offer evs c = fold deliver (if ce_snapshot_pending c then filter (\<lambda>e. \<not> is_output e) evs else evs) c"

definition client :: "nat \<Rightarrow> 'ps session \<Rightarrow> client_endpoint option" where
  "client i s = find (\<lambda>c. ce_client c = i) (se_clients s)"

abbreviation open_client :: "client_endpoint \<Rightarrow> bool" where
  "open_client c \<equiv> \<not> ch_closed (ce_tx c)"

lemma try_send_keeps [simp]:
  "ch_closed (snd (try_send x ch)) = ch_closed ch" "ch_taken (snd (try_send x ch)) = ch_taken ch"
  "ch_capacity (snd (try_send x ch)) = ch_capacity ch"
  by (simp_all add: try_send_def)

lemma deliver_keeps [simp]:
  "ce_client (deliver ev c) = ce_client c" "ce_snapshot_pending (deliver ev c) = ce_snapshot_pending c"
  "ch_closed (ce_tx (deliver ev c)) = ch_closed (ce_tx c)" "ch_taken (ce_tx (deliver ev c)) = ch_taken (ce_tx c)"
  "ch_capacity (ce_tx (deliver ev c)) = ch_capacity (ce_tx c)"
  by (simp_all add: deliver_def)

lemma fold_deliver_keeps [simp]:
  "ce_client (fold deliver evs c) = ce_client c" "ce_snapshot_pending (fold deliver evs c) = ce_snapshot_pending c"
  "ch_closed (ce_tx (fold deliver evs c)) = ch_closed (ce_tx c)" "ch_taken (ce_tx (fold deliver evs c)) = ch_taken (ce_tx c)"
  "ch_capacity (ce_tx (fold deliver evs c)) = ch_capacity (ce_tx c)"
  by (induction evs arbitrary: c) simp_all

lemma offer_keeps [simp]:
  "ce_client (offer evs c) = ce_client c" "ce_snapshot_pending (offer evs c) = ce_snapshot_pending c"
  "ch_closed (ce_tx (offer evs c)) = ch_closed (ce_tx c)" "ch_taken (ce_tx (offer evs c)) = ch_taken (ce_tx c)"
  "ch_capacity (ce_tx (offer evs c)) = ch_capacity (ce_tx c)"
  by (simp_all add: offer_def)

lemma offer_Nil [simp]: "offer [] c = c"
  by (simp add: offer_def)

lemma offer_append: "offer (es @ fs) c = offer fs (offer es c)"
  by (simp add: offer_def)

lemma offer_control: "\<not> is_output ev \<Longrightarrow> offer [ev] c = deliver ev c"
  by (simp add: offer_def)

lemma offer_Output: "offer [Output t] c = (if ce_snapshot_pending c then c else deliver (Output t) c)"
  by (simp add: offer_def)

lemma find_map_keep:
  "(\<And>c. ce_client (f c) = ce_client c) \<Longrightarrow>
     find (\<lambda>c. ce_client c = i) (map f cs) = map_option f (find (\<lambda>c. ce_client c = i) cs)"
  by (induction cs) auto

lemma find_prune:
  "find (\<lambda>c. ce_client c = i) cs = Some c \<Longrightarrow> open_client c \<Longrightarrow> find (\<lambda>c. ce_client c = i) (prune cs) = Some c"
  by (induction cs) (auto simp: prune_def split: if_splits)

lemma find_chunk:
  assumes "find (\<lambda>c. ce_client c = i) cs = Some c" "open_client c"
  shows "find (\<lambda>c. ce_client c = i) (send_chunk_to_clients t cs) = Some (offer [Output t] c)"
proof -
  have "find (\<lambda>c. ce_client c = i) (send_chunk_to_clients t cs) =
      map_option (\<lambda>c. if ce_snapshot_pending c then c else deliver (Output t) c) (find (\<lambda>c. ce_client c = i) (prune cs))"
    unfolding send_chunk_to_clients_def by (rule find_map_keep) simp
  then show ?thesis using find_prune [OF assms] by (simp add: offer_Output)
qed

lemma find_chunks:
  "find (\<lambda>c. ce_client c = i) cs = Some c \<Longrightarrow> open_client c \<Longrightarrow>
     find (\<lambda>c. ce_client c = i) (fold send_chunk_to_clients chunks cs) = Some (offer (map Output chunks) c)"
proof (induction chunks arbitrary: cs c)
  case (Cons t chunks)
  then show ?case
    using find_chunk [OF Cons.prems, of t] offer_append [of "[Output t]" "map Output chunks" c] by simp
qed simp

lemma client_control:
  "client i s = Some c \<Longrightarrow> open_client c \<Longrightarrow> client i (enqueue_control ev s) = Some (deliver ev c)"
  using find_map_keep [of "deliver ev" i "prune (se_clients s)"] find_prune
  by (simp add: client_def enqueue_control_def)

subsection \<open>One step\<close>

text \<open>The wire as a log: the characters of the output, and the two marks of the transaction.\<close>

type_synonym log = "(rchar + bool) list"

fun flat1 :: "client_event \<Rightarrow> log" where
  "flat1 (Output t) = map Inl t"
| "flat1 SyncBegin = [Inr True]"
| "flat1 SyncEnd = [Inr False]"
| "flat1 _ = []"

definition flat :: "client_event list \<Rightarrow> log" where
  "flat evs = concat (map flat1 evs)"

definition op_log :: "bool \<Rightarrow> session_op \<Rightarrow> log" where
  "op_log active op =
     (case op of
        OpBroadcast msg \<Rightarrow> map Inl msg
      | OpSync b \<Rightarrow> if b = active then [] else [Inr b]
      | OpResize held io origin cols rows \<Rightarrow> if active then [Inr False] else []
      | _ \<Rightarrow> [])"

definition op_active :: "bool \<Rightarrow> session_op \<Rightarrow> bool" where
  "op_active active op = (case op of OpSync b \<Rightarrow> b | OpResize held io origin cols rows \<Rightarrow> False | _ \<Rightarrow> active)"

text \<open>The invariant of the transaction buffer.\<close>

definition sync_ok :: "'ps session \<Rightarrow> bool" where
  "sync_ok s \<longleftrightarrow> (\<not> sy_active (se_sync s) \<longrightarrow> sy_buffer (se_sync s) = []) \<and>
     sy_bytes (se_sync s) = byte_len (concat (sy_buffer (se_sync s))) \<and> sy_bytes (se_sync s) < SYNC_BUFFER_LIMIT"

text \<open>Operations that leave client \<open>i\<close> in place: everything but its own removal, reading and snapshot, and the exit.\<close>

fun leaves :: "nat \<Rightarrow> session_op \<Rightarrow> bool" where
  "leaves i (OpRemove j) = (i \<noteq> j)"
| "leaves i (OpRecv j) = (i \<noteq> j)"
| "leaves i (OpHangUp j) = (i \<noteq> j)"
| "leaves i (OpReplay j _ _) = (i \<noteq> j)"
| "leaves i (OpExit _ _) = False"
| "leaves i _ = True"

lemma flat_simps [simp]: "flat [] = []" "flat (e # es) = flat1 e @ flat es" "flat (es @ fs) = flat es @ flat fs"
  by (simp_all add: flat_def)

lemma flat_outputs [simp]: "flat (map Output chunks) = map Inl (concat chunks)"
  by (induction chunks) simp_all

abbreviation sbuf :: "'ps session \<Rightarrow> rstring" where
  "sbuf s \<equiv> concat (sy_buffer (se_sync s))"

abbreviation sactive :: "'ps session \<Rightarrow> bool" where
  "sactive s \<equiv> sy_active (se_sync s)"

lemma flush_wire:
  assumes c: "client i s = Some c" "open_client c"
  shows "\<exists>s' evs. flush_sync_buffer s = Some s' \<and> client i s' = Some (offer evs c) \<and> flat evs = map Inl (sbuf s) \<and>
    se_sync s' = \<lparr>sy_active = sactive s, sy_buffer = [], sy_bytes = 0\<rparr> \<and> se_exited s' = se_exited s"
proof -
  obtain chunks where f: "concat chunks = sbuf s"
    "flush_sync_buffer s = Some (s\<lparr>se_sync := (se_sync s)\<lparr>sy_buffer := [], sy_bytes := 0\<rparr>,
       se_clients := fold send_chunk_to_clients chunks (se_clients s)\<rparr>)"
    using flush_sync_buffer_eq by blast
  then show ?thesis
    using find_chunks [of i "se_clients s" c chunks] c
    by (intro exI [of _ "map Output chunks"] exI) (auto simp: client_def)
qed

lemma sync_mode_wire:
  assumes c: "client i s = Some c" "open_client c" and ok: "sync_ok s" and run: "set_sync_mode b s = Some s'"
  shows "\<exists>evs. client i s' = Some (offer evs c) \<and>
    flat evs @ map Inl (sbuf s') = map Inl (sbuf s) @ (if b = sactive s then [] else [Inr b]) \<and>
    sactive s' = b \<and> sync_ok s' \<and> se_exited s' = se_exited s"
proof -
  have L: "(0::nat) < SYNC_BUFFER_LIMIT" by (simp add: SYNC_BUFFER_LIMIT_def)
  consider "b = sactive s" | "b" "\<not> sactive s" | "\<not> b" "sactive s" by blast
  then show ?thesis
  proof cases
    case 1
    then show ?thesis using run c ok by (intro exI [of _ "[]"]) (auto simp: set_sync_mode_def split: if_splits)
  next
    case 2
    then have s': "s' = enqueue_control SyncBegin (s\<lparr>se_sync := (se_sync s)\<lparr>sy_active := True\<rparr>\<rparr>)"
      using run by (simp add: set_sync_mode_def)
    have "client i s' = Some (deliver SyncBegin c)"
      unfolding s' by (rule client_control) (use c in \<open>simp_all add: client_def\<close>)
    then show ?thesis
      using 2 ok L by (intro exI [of _ "[SyncBegin]"])
        (auto simp: s' offer_control enqueue_control_def sync_ok_def)
  next
    case 3
    let ?s1 = "s\<lparr>se_sync := (se_sync s)\<lparr>sy_active := False\<rparr>\<rparr>"
    have "client i ?s1 = Some c" using c(1) by (simp add: client_def)
    from flush_wire [OF this c(2)] obtain s2 evs where f: "flush_sync_buffer ?s1 = Some s2"
      "client i s2 = Some (offer evs c)" "flat evs = map Inl (sbuf s)"
      "se_sync s2 = \<lparr>sy_active = False, sy_buffer = [], sy_bytes = 0\<rparr>" "se_exited s2 = se_exited s" by auto
    have s': "s' = enqueue_control SyncEnd s2" using run 3 f(1) by (simp add: set_sync_mode_def)
    have "client i s' = Some (offer (evs @ [SyncEnd]) c)"
      unfolding s' using client_control [OF f(2)] c(2) by (simp add: offer_append offer_control)
    then show ?thesis
      using 3 f L by (intro exI [of _ "evs @ [SyncEnd]"]) (auto simp: s' enqueue_control_def sync_ok_def)
  qed
qed

lemma broadcast_wire:
  assumes c: "client i s = Some c" "open_client c" and ok: "sync_ok s" and ex: "\<not> se_exited s"
    and run: "broadcast msg s = Some s'"
  shows "\<exists>evs. client i s' = Some (offer evs c) \<and> flat evs @ map Inl (sbuf s') = map Inl (sbuf s) @ map Inl msg \<and>
    sactive s' = sactive s \<and> sync_ok s' \<and> se_exited s' = se_exited s"
proof (cases "sactive s")
  case False
  then have "s' = s\<lparr>se_clients := send_chunk_to_clients msg (se_clients s)\<rparr>"
    using run ex by (simp add: broadcast_def Let_def)
  then show ?thesis
    using find_chunk [of i "se_clients s" c msg] c ok False
    by (intro exI [of _ "[Output msg]"]) (auto simp: client_def sync_ok_def)
next
  case True
  let ?s1 = "s\<lparr>se_sync := (se_sync s)\<lparr>sy_buffer := sy_buffer (se_sync s) @ [msg], sy_bytes := sy_bytes (se_sync s) + byte_len msg\<rparr>\<rparr>"
  have c1: "client i ?s1 = Some c" using c(1) by (simp add: client_def)
  show ?thesis
  proof (cases "sy_bytes (se_sync ?s1) < SYNC_BUFFER_LIMIT")
    case small: True
    then have "s' = ?s1" using run ex True by (simp add: broadcast_def Let_def)
    then show ?thesis using c1 ok small True by (intro exI [of _ "[]"]) (auto simp: sync_ok_def)
  next
    case False
    then have "flush_sync_buffer ?s1 = Some s'" using run ex True by (simp add: broadcast_def Let_def)
    with flush_wire [OF c1 c(2)] obtain evs where "client i s' = Some (offer evs c)" "flat evs = map Inl (sbuf s @ msg)"
      "se_sync s' = \<lparr>sy_active = sactive s, sy_buffer = [], sy_bytes = 0\<rparr>" "se_exited s' = se_exited s" by auto
    then show ?thesis
      using True by (intro exI [of _ evs]) (auto simp: sync_ok_def SYNC_BUFFER_LIMIT_def)
  qed
qed

lemma client_cong: "se_clients s' = se_clients s \<Longrightarrow> client i s' = client i s"
  by (simp add: client_def)

lemma resize_keeps:
  "resize held io cols rows s = Some (r, s') \<Longrightarrow>
     se_clients s' = se_clients s \<and> se_sync s' = se_sync s \<and> se_exited s' = se_exited s"
  by (auto simp: resize_def resize_pty_def set_size_def Let_def
      split: if_splits sum.splits session_backend.splits option.splits bind_splits)

lemma resize_async_keeps:
  "resize_async io cols rows s = Some (r, s') \<Longrightarrow>
     se_clients s' = se_clients s \<and> se_sync s' = se_sync s \<and> se_exited s' = se_exited s"
  by (auto simp: resize_async_def resize_pty_def set_size_def send_ssh_def Let_def
      split: if_splits sum.splits session_backend.splits option.splits bind_splits prod.splits)

lemma break_sync_eq: "break_sync s = set_sync_mode False s"
  by (simp add: break_sync_def set_sync_mode_def)

lemma resize_wire:
  assumes c: "client i s = Some c" "open_client c" and ok: "sync_ok s"
    and run: "apply_and_broadcast_resize held io origin cols rows s = Some s'"
  shows "\<exists>evs. client i s' = Some (offer evs c) \<and>
    flat evs @ map Inl (sbuf s') = map Inl (sbuf s) @ (if sactive s then [Inr False] else []) \<and>
    \<not> sactive s' \<and> sync_ok s' \<and> se_exited s' = se_exited s"
proof -
  obtain s0 where s0: "set_sync_mode False s = Some s0"
    using run by (auto simp: apply_and_broadcast_resize_def break_sync_eq split: bind_splits)
  from sync_mode_wire [OF c ok s0] obtain evs where e: "client i s0 = Some (offer evs c)"
    "flat evs @ map Inl (sbuf s0) = map Inl (sbuf s) @ (if sactive s then [Inr False] else [])"
    "\<not> sactive s0" "sync_ok s0" "se_exited s0 = se_exited s" by auto
  let ?s1 = "s0\<lparr>se_clients := prune (se_clients s0)\<rparr>"
  have c1: "client i ?s1 = Some (offer evs c)" using find_prune e(1) c(2) by (simp add: client_def)
  show ?thesis
  proof (cases "list_ex (\<lambda>c. ce_client c = origin) (se_clients ?s1)")
    case False
    then have "s' = ?s1" using run s0 by (simp add: apply_and_broadcast_resize_def break_sync_eq Let_def)
    then show ?thesis using c1 e by (intro exI [of _ evs]) (simp add: sync_ok_def)
  next
    case True
    then obtain r s2 where r: "resize held io cols rows ?s1 = Some (r, s2)"
      using run s0 by (auto simp: apply_and_broadcast_resize_def break_sync_eq Let_def split: bind_splits)
    note k = resize_keeps [OF r]
    have c2: "client i s2 = Some (offer evs c)" using c1 k by (simp add: client_def)
    show ?thesis
    proof (cases r)
      case (Inl err)
      then have "s' = s2" using run s0 True r by (simp add: apply_and_broadcast_resize_def break_sync_eq Let_def)
      then show ?thesis using c2 e k by (intro exI [of _ evs]) (simp add: sync_ok_def)
    next
      case (Inr u)
      let ?f = "\<lambda>c. if ce_client c = origin then c else deliver (Resize cols rows) c"
      have s': "s' = s2\<lparr>se_clients := map ?f (prune (se_clients s2))\<rparr>"
        using run s0 True r Inr by (simp add: apply_and_broadcast_resize_def break_sync_eq Let_def)
      have "client i s' = map_option ?f (find (\<lambda>c. ce_client c = i) (prune (se_clients s2)))"
        unfolding s' client_def by (simp add: find_map_keep [of ?f])
      also have "\<dots> = Some (?f (offer evs c))" using find_prune c2 c(2) by (simp add: client_def)
      finally have c3: "client i s' = Some (?f (offer evs c))" .
      show ?thesis
      proof (cases "ce_client c = origin")
        case True
        then show ?thesis using c3 e k s' by (intro exI [of _ evs]) (simp add: sync_ok_def)
      next
        case False
        then show ?thesis
          using c3 e k s' by (intro exI [of _ "evs @ [Resize cols rows]"]) (simp add: offer_append offer_control sync_ok_def)
      qed
    qed
  qed
qed

lemma replay_other:
  assumes c: "client i s = Some c" "open_client c" and ne: "i \<noteq> cid"
    and run: "replay_to_client cid cols rows s = Some (r, s')"
  shows "client i s' = Some c \<and> se_sync s' = se_sync s \<and> se_exited s' = se_exited s"
proof -
  have u: "find (\<lambda>c. ce_client c = i) (update_first (\<lambda>c. ce_client c = cid) f cs) = find (\<lambda>c. ce_client c = i) cs"
    if "\<And>c. ce_client (f c) = ce_client c" for f cs
    using that ne by (induction cs) auto
  have keep: "ce_client ((fold deliver evs c)\<lparr>ce_snapshot_pending := False\<rparr>) = ce_client c" for evs c
    by simp
  show ?thesis
    using run c find_prune [of i "se_clients s" c]
    by (auto simp: replay_to_client_def client_def Let_def u [OF keep] split: if_splits bind_splits)
qed

lemma find_filter_keep:
  "find (\<lambda>c. ce_client c = i) cs = Some c \<Longrightarrow> i \<noteq> j \<Longrightarrow>
     find (\<lambda>c. ce_client c = i) (filter (\<lambda>c. ce_client c \<noteq> j) cs) = Some c"
  by (induction cs) (auto split: if_splits)

lemma find_append: "find P cs = Some c \<Longrightarrow> find P (cs @ ds) = Some c"
  by (induction cs) auto

lemma on_client_other: "i \<noteq> j \<Longrightarrow> client i s = Some c \<Longrightarrow> client i (on_client j f s) = Some c"
proof -
  assume a: "i \<noteq> j" "client i s = Some c"
  have "client i (on_client j f s) =
      map_option (\<lambda>c. if ce_client c = j then c\<lparr>ce_tx := f (ce_tx c)\<rparr> else c) (client i s)"
    unfolding client_def on_client_def by (simp add: find_map_keep)
  moreover have "ce_client c = i" using a(2) by (auto simp: client_def find_Some_iff)
  ultimately show ?thesis using a by simp
qed

lemma quiet_wire:
  assumes "client i s' = Some c" "se_sync s' = se_sync s" "se_exited s' = se_exited s" "sync_ok s"
  shows "\<exists>evs. client i s' = Some (offer evs c) \<and> flat evs @ map Inl (sbuf s') = map Inl (sbuf s) @ [] \<and>
    sactive s' = sactive s \<and> sync_ok s' \<and> se_exited s' = se_exited s"
  using assms by (intro exI [of _ "[]"]) (simp add: sync_ok_def)

text \<open>
  The channel of a client that stays is offered just what the step adds to the log, after what was
  still buffered: the buffer never reorders.
\<close>

lemma step_wire:
  assumes c: "client i s = Some c" "open_client c" and ok: "sync_ok s" and ex: "\<not> se_exited s"
    and op: "leaves i op" and run: "session_step op s = Some s'"
  shows "\<exists>evs. client i s' = Some (offer evs c) \<and>
    flat evs @ map Inl (sbuf s') = map Inl (sbuf s) @ op_log (sactive s) op \<and>
    sactive s' = op_active (sactive s) op \<and> sync_ok s' \<and> se_exited s' = se_exited s"
proof (cases op)
  case (OpBroadcast msg)
  then show ?thesis using broadcast_wire [OF c ok ex] run by (simp add: session_step_def op_log_def op_active_def)
next
  case (OpSync b)
  then show ?thesis using sync_mode_wire [OF c ok] run by (simp add: session_step_def op_log_def op_active_def)
next
  case OpFlush
  then have "flush_sync_buffer s = Some s'" using run by (simp add: session_step_def)
  with flush_wire [OF c] obtain evs where "client i s' = Some (offer evs c)" "flat evs = map Inl (sbuf s)"
    "se_sync s' = \<lparr>sy_active = sactive s, sy_buffer = [], sy_bytes = 0\<rparr>" "se_exited s' = se_exited s" by auto
  then show ?thesis
    using OpFlush by (intro exI [of _ evs]) (simp add: op_log_def op_active_def sync_ok_def SYNC_BUFFER_LIMIT_def)
next
  case (OpResize held io origin cols rows)
  then show ?thesis using resize_wire [OF c ok] run by (simp add: session_step_def op_log_def op_active_def)
next
  case (OpResizeAsync io cols rows)
  then obtain r where r: "resize_async io cols rows s = Some (r, s')" using run by (auto simp: session_step_def)
  have "client i s' = Some c" using resize_async_keeps [OF r] c by (simp add: client_def)
  then show ?thesis
    using quiet_wire [of i s' c s] resize_async_keeps [OF r] ok OpResizeAsync by (simp add: op_log_def op_active_def)
next
  case (OpReplay cid cols rows)
  then obtain r where r: "replay_to_client cid cols rows s = Some (r, s')" using run by (auto simp: session_step_def)
  have "i \<noteq> cid" using op OpReplay by simp
  note k = replay_other [OF c this r]
  show ?thesis using quiet_wire [of i s' c s] k ok OpReplay by (simp add: op_log_def op_active_def)
next
  case OpAdd
  then have "client i s' = Some c" "se_sync s' = se_sync s" "se_exited s' = se_exited s"
    using run c(1) by (auto simp: session_step_def add_client_def client_def find_append)
  from quiet_wire [OF this ok] OpAdd show ?thesis by (simp add: op_log_def op_active_def)
next
  case (OpRemove j)
  then have "client i s' = Some c" "se_sync s' = se_sync s" "se_exited s' = se_exited s"
    using run c(1) op by (auto simp: session_step_def remove_client_def client_def find_filter_keep)
  from quiet_wire [OF this ok] OpRemove show ?thesis by (simp add: op_log_def op_active_def)
next
  case (OpRecv j)
  then have "client i s' = Some c" "se_sync s' = se_sync s" "se_exited s' = se_exited s"
    using run c(1) op on_client_other [of i j s c] by (auto simp: session_step_def) (simp_all add: on_client_def)
  from quiet_wire [OF this ok] OpRecv show ?thesis by (simp add: op_log_def op_active_def)
next
  case (OpHangUp j)
  then have "client i s' = Some c" "se_sync s' = se_sync s" "se_exited s' = se_exited s"
    using run c(1) op on_client_other [of i j s c] by (auto simp: session_step_def) (simp_all add: on_client_def)
  from quiet_wire [OF this ok] OpHangUp show ?thesis by (simp add: op_log_def op_active_def)
next
  case OpHasClients
  then have "client i s' = Some c" "se_sync s' = se_sync s" "se_exited s' = se_exited s"
    using run c find_prune by (auto simp: session_step_def has_clients_def Let_def client_def)
  from quiet_wire [OF this ok] OpHasClients show ?thesis by (simp add: op_log_def op_active_def)
next
  case (OpExit pane code)
  then show ?thesis using op by simp
qed

end
