(* ===== verification/SessionProps.thy ===== *)
theory SessionProps
  imports SessionRun
begin

section \<open>What a session promises its clients\<close>

subsection \<open>Channels deliver in order\<close>

definition visible :: "bool \<Rightarrow> client_event list \<Rightarrow> client_event list" where
  "visible pending evs = (if pending then filter (\<lambda>e. \<not> is_output e) evs else evs)"

lemma visible_append: "visible p (es @ fs) = visible p es @ visible p fs"
  by (simp add: visible_def)

lemma deliver_sent:
  assumes "ch_capacity (ce_tx c) = Some n" "0 < n"
  shows "ch_sent (ce_tx (deliver e c)) = ch_sent (ce_tx c) @ (if open_client c \<and> length (ch_sent (ce_tx c)) - ch_taken (ce_tx c) < n then [e] else [])"
  using assms by (auto simp: deliver_def try_send_def chan_full_def)

lemma fold_deliver_sent:
  assumes "ch_capacity (ce_tx c) = Some n" "0 < n" "open_client c"
  shows "\<exists>new. ch_sent (ce_tx (fold deliver evs c)) = ch_sent (ce_tx c) @ new \<and> set new \<subseteq> set evs \<and>
    (length (ch_sent (ce_tx (fold deliver evs c))) < ch_taken (ce_tx c) + n \<longrightarrow> new = evs)"
  using assms
proof (induction evs arbitrary: c)
  case (Cons e evs)
  from Cons.IH [of "deliver e c"] Cons.prems obtain new where new:
    "ch_sent (ce_tx (fold deliver evs (deliver e c))) = ch_sent (ce_tx (deliver e c)) @ new" "set new \<subseteq> set evs"
    "length (ch_sent (ce_tx (fold deliver evs (deliver e c)))) < ch_taken (ce_tx c) + n \<longrightarrow> new = evs" by auto
  note d = deliver_sent [OF Cons.prems(1,2), of e]
  show ?case
  proof (cases "length (ch_sent (ce_tx c)) - ch_taken (ce_tx c) < n")
    case True
    then show ?thesis using new d Cons.prems by (intro exI [of _ "e # new"]) auto
  next
    case False
    then show ?thesis using new d Cons.prems(2) by (intro exI [of _ new]) auto
  qed
qed simp

lemma offer_sent:
  assumes "ch_capacity (ce_tx c) = Some n" "0 < n" "open_client c"
  shows "\<exists>new. ch_sent (ce_tx (offer evs c)) = ch_sent (ce_tx c) @ new \<and> set new \<subseteq> set (visible (ce_snapshot_pending c) evs) \<and>
    (length (ch_sent (ce_tx (offer evs c))) < ch_taken (ce_tx c) + n \<longrightarrow> new = visible (ce_snapshot_pending c) evs)"
  using fold_deliver_sent [OF assms] by (simp add: offer_def visible_def)

subsection \<open>Runs\<close>

fun run_log :: "bool \<Rightarrow> session_op list \<Rightarrow> log" where
  "run_log a [] = []"
| "run_log a (op # ops) = op_log a op @ run_log (op_active a op) ops"

definition stays :: "nat \<Rightarrow> session_op \<Rightarrow> bool" where
  "stays i op \<longleftrightarrow> leaves i op \<or> op = OpRecv i"

text \<open>How one endpoint develops while the log grows.\<close>

definition follows :: "client_endpoint \<Rightarrow> client_event list \<Rightarrow> client_endpoint \<Rightarrow> bool" where
  "follows c evs c' \<longleftrightarrow>
     ce_snapshot_pending c' = ce_snapshot_pending c \<and> open_client c' = open_client c \<and>
     ch_capacity (ce_tx c') = ch_capacity (ce_tx c) \<and> ch_taken (ce_tx c) \<le> ch_taken (ce_tx c') \<and>
     (\<exists>new. ch_sent (ce_tx c') = ch_sent (ce_tx c) @ new \<and> set new \<subseteq> set (visible (ce_snapshot_pending c) evs) \<and>
        (length (ch_sent (ce_tx c')) < ch_taken (ce_tx c) + CLIENT_CHANNEL \<longrightarrow> new = visible (ce_snapshot_pending c) evs))"

lemma follows_refl [simp]: "follows c [] c"
  by (simp add: follows_def visible_def)

lemma follows_trans:
  assumes "follows c es d" "follows d fs e"
  shows "follows c (es @ fs) e"
proof -
  obtain n1 where 1: "ch_sent (ce_tx d) = ch_sent (ce_tx c) @ n1" "set n1 \<subseteq> set (visible (ce_snapshot_pending c) es)"
    "length (ch_sent (ce_tx d)) < ch_taken (ce_tx c) + CLIENT_CHANNEL \<longrightarrow> n1 = visible (ce_snapshot_pending c) es"
    using assms(1) by (auto simp: follows_def)
  obtain n2 where 2: "ch_sent (ce_tx e) = ch_sent (ce_tx d) @ n2" "set n2 \<subseteq> set (visible (ce_snapshot_pending c) fs)"
    "length (ch_sent (ce_tx e)) < ch_taken (ce_tx d) + CLIENT_CHANNEL \<longrightarrow> n2 = visible (ce_snapshot_pending c) fs"
    using assms by (auto simp: follows_def)
  have t: "ch_taken (ce_tx c) \<le> ch_taken (ce_tx d)" using assms(1) by (simp add: follows_def)
  show ?thesis
    using assms 1 2 t by (auto simp: follows_def visible_append)
qed

lemma follows_offer:
  assumes "ch_capacity (ce_tx c) = Some CLIENT_CHANNEL" "open_client c"
  shows "follows c evs (offer evs c)"
  using offer_sent [OF assms(1) _ assms(2), of evs] assms by (simp add: follows_def CLIENT_CHANNEL_def)

lemma follows_recv: "follows c [] (c\<lparr>ce_tx := snd (chan_recv (ce_tx c))\<rparr>)"
  by (simp add: follows_def chan_recv_def visible_def)

lemma recv_wire:
  assumes "client i s = Some c"
  shows "client i (on_client i f s) = Some (c\<lparr>ce_tx := f (ce_tx c)\<rparr>)"
proof -
  have "client i (on_client i f s) =
      map_option (\<lambda>c. if ce_client c = i then c\<lparr>ce_tx := f (ce_tx c)\<rparr> else c) (client i s)"
    unfolding client_def on_client_def by (simp add: find_map_keep)
  moreover have "ce_client c = i" using assms by (auto simp: client_def find_Some_iff)
  ultimately show ?thesis using assms by simp
qed

lemma step_follows:
  assumes c: "client i s = Some c" "open_client c" "ch_capacity (ce_tx c) = Some CLIENT_CHANNEL"
    and s: "sync_ok s" "\<not> se_exited s" and op: "stays i op" and run: "session_step op s = Some s'"
  shows "\<exists>c' evs. client i s' = Some c' \<and> follows c evs c' \<and>
    flat evs @ map Inl (sbuf s') = map Inl (sbuf s) @ op_log (sactive s) op \<and>
    sactive s' = op_active (sactive s) op \<and> sync_ok s' \<and> \<not> se_exited s'"
proof (cases "op = OpRecv i")
  case True
  then have s': "s' = on_client i (\<lambda>ch. snd (chan_recv ch)) s" using run by (simp add: session_step_def)
  show ?thesis
    using recv_wire [OF c(1)] follows_recv [of c] s True
    by (intro exI [of _ "c\<lparr>ce_tx := snd (chan_recv (ce_tx c))\<rparr>"] exI [of _ "[]"])
      (simp add: s' op_log_def op_active_def on_client_def sync_ok_def client_def)
next
  case False
  then have "leaves i op" using op by (simp add: stays_def)
  from step_wire [OF c(1,2) s this run] obtain evs where e: "client i s' = Some (offer evs c)"
    "flat evs @ map Inl (sbuf s') = map Inl (sbuf s) @ op_log (sactive s) op"
    "sactive s' = op_active (sactive s) op" "sync_ok s'" "se_exited s' = se_exited s" by blast
  then show ?thesis using follows_offer [OF c(3,2)] s by blast
qed

lemma run_follows:
  assumes "client i s = Some c" "open_client c" "ch_capacity (ce_tx c) = Some CLIENT_CHANNEL"
    "sync_ok s" "\<not> se_exited s" "list_all (stays i) ops" "fold_opt session_step ops s = Some s'"
  shows "\<exists>c' evs. client i s' = Some c' \<and> follows c evs c' \<and>
    flat evs @ map Inl (sbuf s') = map Inl (sbuf s) @ run_log (sactive s) ops \<and> sync_ok s' \<and> \<not> se_exited s'"
  using assms
proof (induction ops arbitrary: s c)
  case Nil
  then show ?case by (intro exI [of _ c] exI [of _ "[]"]) simp
next
  case (Cons op ops)
  then obtain s1 where s1: "session_step op s = Some s1" "fold_opt session_step ops s1 = Some s'"
    by (auto split: bind_splits)
  from step_follows [OF Cons.prems(1-5) _ s1(1)] Cons.prems(6) obtain c1 e1 where 1:
    "client i s1 = Some c1" "follows c e1 c1" "flat e1 @ map Inl (sbuf s1) = map Inl (sbuf s) @ op_log (sactive s) op"
    "sactive s1 = op_active (sactive s) op" "sync_ok s1" "\<not> se_exited s1" by auto
  have c1: "open_client c1" "ch_capacity (ce_tx c1) = Some CLIENT_CHANNEL" using 1(2) Cons.prems by (auto simp: follows_def)
  from Cons.IH [OF 1(1) c1 1(5,6) _ s1(2)] Cons.prems(6) obtain c2 e2 where 2:
    "client i s' = Some c2" "follows c1 e2 c2" "flat e2 @ map Inl (sbuf s') = map Inl (sbuf s1) @ run_log (sactive s1) ops"
    "sync_ok s'" "\<not> se_exited s'" by auto
  have "flat (e1 @ e2) @ map Inl (sbuf s') = (flat e1 @ map Inl (sbuf s1)) @ run_log (sactive s1) ops"
    using 2(3) by simp
  also have "\<dots> = map Inl (sbuf s) @ run_log (sactive s) (op # ops)" unfolding 1(3) using 1(4) by simp
  finally show ?case using 2 follows_trans [OF 1(2) 2(2)] by blast
qed

subsection \<open>The log\<close>

fun marks :: "log \<Rightarrow> bool list" where
  "marks [] = []"
| "marks (Inl x # l) = marks l"
| "marks (Inr b # l) = b # marks l"

fun alternates :: "bool \<Rightarrow> bool list \<Rightarrow> bool" where
  "alternates a [] = True"
| "alternates a (b # bs) = (b \<noteq> a \<and> alternates b bs)"

lemma marks_chars [simp]: "marks (map Inl t @ l) = marks l" "marks (map Inl t) = []"
  by (induction t) simp_all

lemma marks_append: "marks (l @ m) = marks l @ marks m"
  by (induction l rule: marks.induct) simp_all

lemma run_log_alternates: "alternates a (marks (run_log a ops))"
proof (induction ops arbitrary: a)
  case (Cons op ops)
  have "marks (op_log a op) = (if op_active a op = a then [] else [op_active a op])"
    by (cases op) (auto simp: op_log_def op_active_def)
  then show ?case
    using Cons [of "op_active a op"] by (cases a; cases "op_active a op") (auto simp: marks_append)
qed simp

text \<open>
  C20. Order on the wire. Whatever the session does meanwhile, the events a connected client has been
  sent, with the text still buffered after them, read as one log: what was broadcast and when each
  synchronized update began and ended, in the order in which the session was told. The buffering
  neither loses nor reorders a character, and begin and end marks alternate. This holds as long as
  the client's channel never fills up.
\<close>
theorem wire_is_the_log:
  assumes "fold_opt session_step ops s = Some s'" and "client i s = Some c"
    and "open_client c" and "\<not> ce_snapshot_pending c" and "ch_capacity (ce_tx c) = Some CLIENT_CHANNEL"
    and "sync_ok s" and "\<not> se_exited s" and "list_all (stays i) ops"
  shows "\<exists>c'. client i s' = Some c' \<and> open_client c' \<and>
    (length (ch_sent (ce_tx c')) < ch_taken (ce_tx c) + CLIENT_CHANNEL \<longrightarrow>
       flat (ch_sent (ce_tx c')) @ map Inl (sbuf s') =
         flat (ch_sent (ce_tx c)) @ map Inl (sbuf s) @ run_log (sactive s) ops \<and>
       alternates (sactive s) (marks (run_log (sactive s) ops)))"
proof -
  obtain c' evs where "client i s' = Some c'" "follows c evs c'"
    "flat evs @ map Inl (sbuf s') = map Inl (sbuf s) @ run_log (sactive s) ops"
    using run_follows [OF assms(2,3,5,6,7,8,1)] by blast
  then show ?thesis using assms(3,4) run_log_alternates by (auto simp: follows_def visible_def)
qed

text \<open>
  C39. Flushing the transaction buffer ends, in non-empty chunks of at most 64 KiB cut at character
  boundaries that together are the buffer.
\<close>
theorem flush_ends_in_small_chunks:
  "\<exists>chunks. concat chunks = sbuf s \<and> small_chunks chunks \<and>
     flush_sync_buffer s = Some (s\<lparr>se_sync := (se_sync s)\<lparr>sy_buffer := [], sy_bytes := 0\<rparr>,
       se_clients := fold send_chunk_to_clients chunks (se_clients s)\<rparr>)"
  by (rule flush_sync_buffer_eq)

lemma flush_sync: "flush_sync_buffer s = Some s' \<Longrightarrow> se_sync s' = \<lparr>sy_active = sactive s, sy_buffer = [], sy_bytes = 0\<rparr>"
  using flush_sync_buffer_eq [of s] by auto

lemma sync_ok_flushed: "se_sync s = \<lparr>sy_active = b, sy_buffer = [], sy_bytes = 0\<rparr> \<Longrightarrow> sync_ok s"
  by (simp add: sync_ok_def SYNC_BUFFER_LIMIT_def)

lemma sync_ok_update [simp]:
  "sync_ok (s\<lparr>se_clients := cs\<rparr>) = sync_ok s" "sync_ok (s\<lparr>se_next_client := n\<rparr>) = sync_ok s"
  "sync_ok (s\<lparr>se_exited := e\<rparr>) = sync_ok s"
  by (simp_all add: sync_ok_def)

lemma send_ssh_keeps [simp]:
  "se_screen (snd (send_ssh cmd s)) = se_screen s" "se_clients (snd (send_ssh cmd s)) = se_clients s"
  by (simp_all add: send_ssh_def split: option.splits prod.splits)

lemma set_sync_mode_ok: "sync_ok s \<Longrightarrow> set_sync_mode b s = Some s' \<Longrightarrow> sync_ok s'"
  by (auto simp: set_sync_mode_def enqueue_control_def sync_ok_def SYNC_BUFFER_LIMIT_def
      dest!: flush_sync split: if_splits bind_splits)

lemma broadcast_ok: "sync_ok s \<Longrightarrow> broadcast msg s = Some s' \<Longrightarrow> sync_ok s'"
  by (auto simp: broadcast_def Let_def sync_ok_def SYNC_BUFFER_LIMIT_def dest!: flush_sync split: if_splits)

text \<open>
  The transaction buffer is empty outside a synchronized update, its byte count is exact and stays
  below 256 KiB, whatever the session does.
\<close>
theorem transaction_buffer_bounded:
  assumes "sync_ok s" and "session_step op s = Some s'"
  shows "sync_ok s'"
proof -
  have same: "se_sync s' = se_sync s \<Longrightarrow> ?thesis" using assms(1) by (simp add: sync_ok_def)
  show ?thesis
  proof (cases op)
    case (OpResize held io origin cols rows)
    obtain s0 where s0: "set_sync_mode False s = Some s0" "se_sync s' = se_sync s0"
      using assms(2) OpResize by (auto simp: session_step_def apply_and_broadcast_resize_def break_sync_eq Let_def
          dest!: resize_keeps split: bind_splits if_splits sum.splits)
    show ?thesis using set_sync_mode_ok [OF assms(1) s0(1)] s0(2) by (simp add: sync_ok_def)
  next
    case (OpReplay cid cols rows)
    then show ?thesis
      using assms(2) by (intro same) (auto simp: session_step_def replay_to_client_def Let_def split: if_splits bind_splits)
  qed (use assms in \<open>auto simp: session_step_def add_client_def remove_client_def on_client_def has_clients_def Let_def
      notify_exit_and_mark_exited_def enqueue_control_def mark_exited_def
      intro: same set_sync_mode_ok broadcast_ok sync_ok_flushed dest: flush_sync resize_async_keeps\<close>)
qed

subsection \<open>Joining\<close>

lemma find_update_first:
  "find P cs = Some c \<Longrightarrow> (\<And>c. P (f c) = P c) \<Longrightarrow> find P (update_first P f cs) = Some (f c)"
  by (induction cs) (auto split: if_splits)

lemma replay_target:
  assumes c: "client i s = Some c" "open_client c" and run: "replay_to_client i cols rows s = Some (r, s')"
  shows "\<exists>snap. snapshot_for_replay (se_screen s) = Some snap \<and> r = Inr () \<and> se_screen s' = se_screen s \<and> se_size s' = se_size s \<and>
    client i s' = Some ((fold deliver (replay_events cols rows (snapshot_scrollback_chunks 200 (se_screen s)) snap) c)\<lparr>ce_snapshot_pending := False\<rparr>)"
proof -
  let ?P = "\<lambda>c. ce_client c = i"
  have p: "find ?P (prune (se_clients s)) = Some c" using find_prune c by (simp add: client_def)
  show ?thesis
    using run p find_update_first [OF p, of "\<lambda>c. (fold deliver evs c)\<lparr>ce_snapshot_pending := False\<rparr>" for evs]
    by (auto simp: replay_to_client_def Let_def client_def split: bind_splits)
qed

lemma resize_async_size:
  assumes "resize_async io cols rows s = Some (Inr (), s')" "\<not> se_exited s"
  shows "se_size s' = (cols, rows)"
  using assms by (auto simp: resize_async_def set_size_def Let_def split: if_splits sum.splits bind_splits prod.splits)

text \<open>
  Joining. A client that has just been added and then fetches its snapshot, with anything happening
  in between, has received no output before the snapshot: its events are control events, then the
  replay, exactly the scrollback chunks and the snapshot of the screen at the size it asked for,
  between \<open>ReplayBegin\<close> and \<open>ReplayEnd\<close>. From then on it gets output.
\<close>
theorem join_handshake:
  assumes "add_client s = (i, s1)" and "client i s = None" and "sync_ok s" and "\<not> se_exited s"
    and "fold_opt session_step ops s1 = Some s2" and "list_all (stays i) ops"
    and "atomic_resize_and_snapshot_for_client io i cols rows s2 = Some (Inr (), s3)"
  shows "\<exists>c pre snap. client i s3 = Some c \<and> \<not> ce_snapshot_pending c \<and>
    snapshot_for_replay (se_screen s3) = Some snap \<and> se_size s3 = (cols, rows) \<and>
    (length (ch_sent (ce_tx c)) < CLIENT_CHANNEL \<longrightarrow>
       ch_sent (ce_tx c) = pre @ replay_events cols rows (snapshot_scrollback_chunks 200 (se_screen s3)) snap \<and>
       list_all (\<lambda>e. \<not> is_output e) pre)"
proof -
  let ?c0 = "\<lparr>ce_client = i, ce_tx = new_chan (Some CLIENT_CHANNEL), ce_snapshot_pending = True\<rparr>"
  have app: "find P cs = None \<Longrightarrow> P d \<Longrightarrow> find P (cs @ [d]) = Some d" for P cs and d :: client_endpoint
    by (induction cs) (auto split: if_splits)
  have c0: "client i s1 = Some ?c0" using assms(1,2) by (auto simp: add_client_def client_def app)
  have s1: "sync_ok s1" "\<not> se_exited s1" using assms(1,3,4) by (auto simp: add_client_def sync_ok_def)
  have o: "open_client ?c0" "ch_capacity (ce_tx ?c0) = Some CLIENT_CHANNEL" by (simp_all add: new_chan_def)
  from run_follows [OF c0 o s1 assms(6,5)] obtain c2 e2 where c2: "client i s2 = Some c2" "follows ?c0 e2 c2"
    "sync_ok s2" "\<not> se_exited s2" by blast
  obtain s2a s2b where st: "session_step (OpSync False) s2 = Some s2a" "resize_async io cols rows s2a = Some (Inr (), s2b)"
    "replay_to_client i cols rows s2b = Some (Inr (), s3)"
    using assms(7) by (auto simp: atomic_is_run split: bind_splits sum.splits)
  have o2: "open_client c2" "ch_capacity (ce_tx c2) = Some CLIENT_CHANNEL" using c2(2) o by (auto simp: follows_def)
  from step_follows [OF c2(1) o2 c2(3,4) _ st(1)] obtain c3 e3 where c3: "client i s2a = Some c3" "follows c2 e3 c3"
    "\<not> se_exited s2a" by (auto simp: stays_def)
  have f: "follows ?c0 (e2 @ e3) c3" by (rule follows_trans [OF c2(2) c3(2)])
  have c4: "client i s2b = Some c3" "open_client c3" using resize_async_keeps [OF st(2)] c3(1) f o by (auto simp: client_def follows_def)
  have cap: "ch_capacity (ce_tx c3) = Some CLIENT_CHANNEL" using f o by (simp add: follows_def)
  obtain snap where sn: "snapshot_for_replay (se_screen s2b) = Some snap" "se_screen s3 = se_screen s2b" "se_size s3 = se_size s2b"
    "client i s3 = Some ((fold deliver (replay_events cols rows (snapshot_scrollback_chunks 200 (se_screen s2b)) snap) c3)\<lparr>ce_snapshot_pending := False\<rparr>)"
    using replay_target [OF c4 st(3)] by blast
  let ?evs = "replay_events cols rows (snapshot_scrollback_chunks 200 (se_screen s2b)) snap"
  obtain new where new: "ch_sent (ce_tx (fold deliver ?evs c3)) = ch_sent (ce_tx c3) @ new"
    "length (ch_sent (ce_tx (fold deliver ?evs c3))) < ch_taken (ce_tx c3) + CLIENT_CHANNEL \<longrightarrow> new = ?evs"
    using fold_deliver_sent [OF cap _ c4(2), of ?evs] by (auto simp: CLIENT_CHANNEL_def)
  have "list_all (\<lambda>e. \<not> is_output e) (ch_sent (ce_tx c3))"
    using f by (auto simp: follows_def new_chan_def visible_def list_all_iff)
  moreover have "length (ch_sent (ce_tx (fold deliver ?evs c3))) < CLIENT_CHANNEL \<longrightarrow> new = ?evs" using new(2) by linarith
  ultimately show ?thesis
    using sn new(1) resize_async_size [OF st(2) c3(3)] by auto
qed

subsection \<open>Examples\<close>

definition demo_screen :: "unit virtual_screen" where
  "demo_screen = the (new_screen () 4 2)"

definition demo_client :: client_endpoint where
  "demo_client = \<lparr>ce_client = 1, ce_tx = new_chan (Some CLIENT_CHANNEL), ce_snapshot_pending = False\<rparr>"

definition demo_session :: "unit session" where
  "demo_session = \<lparr>se_backend = LocalPty \<lparr>lp_written = [], lp_size = (4, 2)\<rparr>, se_is_ssh = False, se_screen = demo_screen,
     se_clients = [demo_client], se_next_client = 2, se_tauri_client = None, se_status = Connected, se_is_connected = True,
     se_size = (4, 2), se_exited = False, se_sync = new_sync, se_ssh_cmds = None\<rparr>"

abbreviation demo_events :: "client_event list \<Rightarrow> unit session" where
  "demo_events evs \<equiv> demo_session\<lparr>se_clients := [demo_client\<lparr>ce_tx := (ce_tx demo_client)\<lparr>ch_sent := evs\<rparr>\<rparr>]\<rparr>"

lemma demo_ok [simp]: "sync_ok demo_session" "\<not> se_exited demo_session" "client 1 demo_session = Some demo_client"
  "open_client demo_client" "\<not> ce_snapshot_pending demo_client" "ch_capacity (ce_tx demo_client) = Some CLIENT_CHANNEL"
  "sbuf demo_session = []" "\<not> sactive demo_session"
  by (simp_all add: demo_session_def sync_ok_def new_sync_def SYNC_BUFFER_LIMIT_def client_def demo_client_def new_chan_def)

lemma demo_run:
  "fold_opt session_step [OpSync True, OpBroadcast [104], OpBroadcast [105], OpSync False] demo_session =
     Some (demo_events [SyncBegin, Output [104, 105], SyncEnd])"
proof -
  have "flush_loop [104, 105] 0 cs = Some (send_chunk_to_clients [104, 105] cs)" for cs
    by (subst flush_loop.simps) (simp add: FLUSH_CHUNK_SIZE_def slice_bytes_def utf8_len_def flush_loop.simps numeral_2_eq_2)
  then show ?thesis
    by (simp add: session_step_def set_sync_mode_def broadcast_def flush_sync_buffer_def enqueue_control_def prune_def
        demo_session_def demo_client_def new_sync_def new_chan_def deliver_def try_send_def chan_full_def Let_def
        SYNC_BUFFER_LIMIT_def CLIENT_CHANNEL_def send_chunk_to_clients_def utf8_len_def)
qed

lemma wire_is_the_log_witness:
  "flat [SyncBegin, Output [104, 105], SyncEnd] = [Inr True, Inl 104, Inl 105, Inr False]"
proof -
  have "client 1 (demo_events evs) = Some (demo_client\<lparr>ce_tx := (ce_tx demo_client)\<lparr>ch_sent := evs\<rparr>\<rparr>)" for evs
    by (simp add: client_def demo_client_def)
  with wire_is_the_log [OF demo_run demo_ok(3,4,5,6,1,2)] show ?thesis
    by (simp add: stays_def op_log_def op_active_def demo_client_def new_chan_def CLIENT_CHANNEL_def)
qed

lemma transaction_buffer_bounded_witness:
  "sync_ok (enqueue_control SyncBegin (demo_session\<lparr>se_sync := (se_sync demo_session)\<lparr>sy_active := True\<rparr>\<rparr>))"
  by (rule transaction_buffer_bounded [where op = "OpSync True", OF demo_ok(1)])
    (simp add: session_step_def set_sync_mode_def)

subsection \<open>The handshake completes\<close>

lemma snapshot_total:
  assumes "vs_wf vs" shows "\<exists>snap. snapshot_for_replay vs = Some snap"
proof -
  have "1 \<le> sb_rows (vs_primary vs)" "1 \<le> sb_rows (vs_alternate vs)"
    using assms by (auto simp: vs_wf_def buffer_wf_def)
  then obtain a b where "restore_cursor_state (vs_primary vs) = Some a" "restore_cursor_state (vs_alternate vs) = Some b"
    using restore_cursor_state_total by blast
  then show ?thesis by (simp add: snapshot_for_replay_def)
qed

lemma handshake_runs:
  assumes c: "client i s = Some c" "open_client c" and wf: "vs_wf (se_screen s)"
    and size: "2 \<le> cols" "1 \<le> rows" "saved_ok cols rows (vs_saved_cursor (se_screen s))"
  shows "\<exists>s' c'. atomic_resize_and_snapshot_for_client None i cols rows s = Some (Inr (), s') \<and>
    client i s' = Some c' \<and> \<not> ce_snapshot_pending c'"
proof -
  obtain s1 where s1: "set_sync_mode False s = Some s1" "se_screen s1 = se_screen s" "\<exists>c1. client i s1 = Some c1 \<and> open_client c1"
  proof (cases "sactive s")
    case False
    then show ?thesis using c that by (simp add: set_sync_mode_def)
  next
    case True
    let ?s = "s\<lparr>se_sync := (se_sync s)\<lparr>sy_active := False\<rparr>\<rparr>"
    have "client i ?s = Some c" using c(1) by (simp add: client_def)
    from flush_wire [OF this c(2)] flush_sync_buffer_eq [of ?s] obtain s2 evs where f: "flush_sync_buffer ?s = Some s2"
      "client i s2 = Some (offer evs c)" "se_screen s2 = se_screen s" by auto
    show ?thesis
      using client_control [OF f(2)] c(2) f True
      by (intro that [of "enqueue_control SyncEnd s2"]) (simp_all add: set_sync_mode_def enqueue_control_def)
  qed
  obtain vs' where r: "resize_screen cols rows (se_screen s) = Some vs'" "vs_wf vs'"
    using resize_screen_wf [OF wf size] by blast
  obtain s2 where s2: "resize_async None cols rows s1 = Some (Inr (), s2)" "vs_wf (se_screen s2)"
    "se_clients s2 = se_clients s1"
    using r s1(2) wf
    by (cases "se_exited s1"; cases "se_is_ssh s1"; cases "se_backend s1")
      (auto simp: resize_async_def resize_pty_def set_size_def)
  obtain c1 where c1: "client i s2 = Some c1" "open_client c1" using s1(3) s2(3) by (auto simp: client_def)
  have "find (\<lambda>c. ce_client c = i) (prune (se_clients s2)) = Some c1" using find_prune c1 by (simp add: client_def)
  then obtain s3 where s3: "replay_to_client i cols rows s2 = Some (Inr (), s3)"
    using snapshot_total [OF s2(2)] by (auto simp: replay_to_client_def Let_def)
  have "atomic_resize_and_snapshot_for_client None i cols rows s = Some (Inr (), s3)"
    using s1(1) s2(1) s3 by (simp add: atomic_resize_and_snapshot_for_client_def break_sync_eq)
  then show ?thesis using replay_target [OF c1 s3] by auto
qed

text \<open>
  The handshake completes. As long as the screen is well-formed and fits the requested size, and the
  process accepts the resize, a connected client gets its snapshot and stops being withheld output.
\<close>
theorem handshake_completes:
  assumes "client i s = Some c" and "open_client c" and "vs_wf (se_screen s)"
    and "2 \<le> cols" and "1 \<le> rows" and "saved_ok cols rows (vs_saved_cursor (se_screen s))"
  shows "\<exists>s' c'. atomic_resize_and_snapshot_for_client None i cols rows s = Some (Inr (), s') \<and>
    client i s' = Some c' \<and> \<not> ce_snapshot_pending c'"
  using assms by (rule handshake_runs)

lemma demo_screen_ok: "vs_wf (se_screen demo_session)" "saved_ok 4 2 (vs_saved_cursor (se_screen demo_session))"
proof -
  obtain vs where "new_screen () 4 2 = Some vs" "vs_wf vs" using new_screen_wf [of 4 2 "()"] by auto
  moreover from this have "vs_saved_cursor vs = None" by (auto simp: new_screen_def split: bind_splits)
  ultimately show "vs_wf (se_screen demo_session)" "saved_ok 4 2 (vs_saved_cursor (se_screen demo_session))"
    by (simp_all add: demo_session_def demo_screen_def saved_ok_def)
qed

lemma handshake_completes_witness:
  "\<exists>s' c'. atomic_resize_and_snapshot_for_client None 1 4 2 demo_session = Some (Inr (), s') \<and>
    client 1 s' = Some c' \<and> \<not> ce_snapshot_pending c'"
  by (rule handshake_completes [OF demo_ok(3,4) demo_screen_ok(1) _ _ demo_screen_ok(2)]) simp_all

lemma join_handshake_witness:
  "\<exists>c s3. atomic_resize_and_snapshot_for_client None 2 4 2 (snd (add_client demo_session)) = Some (Inr (), s3) \<and>
     client 2 s3 = Some c \<and> \<not> ce_snapshot_pending c \<and> se_size s3 = (4, 2)"
proof -
  let ?s1 = "snd (add_client demo_session)"
  have a: "add_client demo_session = (2, ?s1)" "client 2 demo_session = None"
    by (simp_all add: add_client_def demo_session_def client_def demo_client_def)
  obtain c1 where c1: "client 2 ?s1 = Some c1" "open_client c1"
    by (simp add: add_client_def demo_session_def client_def demo_client_def new_chan_def)
  have sc: "se_screen ?s1 = se_screen demo_session" by (simp add: add_client_def)
  obtain s3 where s3: "atomic_resize_and_snapshot_for_client None 2 4 2 ?s1 = Some (Inr (), s3)"
    using handshake_runs [OF c1, of 4 2] demo_screen_ok unfolding sc by auto
  have "fold_opt session_step [] ?s1 = Some ?s1" by simp
  from join_handshake [OF a demo_ok(1,2) this _ s3] s3 show ?thesis by auto
qed

subsection \<open>The exit\<close>

text \<open>
  Output is lost at the end. The text a program wrote in a synchronized update it did not finish
  is not sent when its exit is announced, and nothing can be broadcast afterwards: the clients see
  the exit and not the last lines.
\<close>
theorem exit_drops_buffered_output:
  assumes "client i s = Some c" and "open_client c" and "snd (notify_exit_and_mark_exited pane code s) = s'"
  shows "client i s' = Some (deliver (SessionExit pane code) c) \<and> sbuf s' = sbuf s \<and> broadcast msg s' = Some s'"
proof -
  let ?s = "mark_exited s"
  have "client i ?s = Some c" using assms(1) by (simp add: client_def mark_exited_def)
  from client_control [OF this assms(2)] show ?thesis
    using assms(3) by (auto simp: notify_exit_and_mark_exited_def broadcast_def enqueue_control_def mark_exited_def)
qed

lemma exit_drops_buffered_output_witness:
  "broadcast [108] (snd (notify_exit_and_mark_exited ''p'' None demo_session)) =
     Some (snd (notify_exit_and_mark_exited ''p'' None demo_session))"
  using exit_drops_buffered_output [OF demo_ok(3,4) refl] by blast

text \<open>A client whose channel is full misses the end of a transaction and stays in it.\<close>

lemma full_channel_misses_the_end:
  assumes "client i s = Some c" "open_client c" "chan_full (ce_tx c)" "sactive s" "sync_ok s"
  shows "\<exists>s'. set_sync_mode False s = Some s' \<and> \<not> sactive s' \<and> client i s' = Some c"
proof -
  have d: "deliver e c = c" for e using assms(3) by (simp add: deliver_def try_send_def)
  have "fold deliver evs c = c" for evs by (induction evs) (simp_all add: d)
  then have o: "offer evs c = c" for evs by (simp add: offer_def)
  obtain s' where s': "set_sync_mode False s = Some s'"
    using assms(4) flush_sync_buffer_eq [of "s\<lparr>se_sync := (se_sync s)\<lparr>sy_active := False\<rparr>\<rparr>"]
    by (auto simp: set_sync_mode_def)
  show ?thesis using sync_mode_wire [OF assms(1,2,5) s'] s' by (simp add: o)
qed

end
