(* ===== verification/PtyProps.thy ===== *)
theory PtyProps
  imports PtyStream SessionProps
begin

section \<open>Text from the process reaches the clients\<close>

subsection \<open>Decoding what was encoded\<close>

definition scalar :: "rchar \<Rightarrow> bool" where
  "scalar c \<longleftrightarrow> c < 0x110000 \<and> \<not> (0xD800 \<le> c \<and> c \<le> 0xDFFF)"

lemma digits64: "\<exists>a b. (c::nat) = a * 64 + b \<and> b < 64"
  by (intro exI [of _ "c div 64"] exI [of _ "c mod 64"]) simp

text \<open>The four shapes of an encoded character, as linear conditions.\<close>

lemma utf8_shapes:
  assumes "scalar c"
  obtains (one) "utf8_nats c = [c]" "c < 0x80"
  | (two) a b where "utf8_nats c = [0xC0 + a, 0x80 + b]" "c = a * 64 + b" "b < 64" "2 \<le> a" "a < 32"
  | (three) a b d where "utf8_nats c = [0xE0 + a, 0x80 + b, 0x80 + d]" "c = a * 4096 + b * 64 + d" "b < 64" "d < 64" "a < 16"
      "a = 0 \<longrightarrow> 32 \<le> b" "a = 13 \<longrightarrow> b < 32"
  | (four) a b d e where "utf8_nats c = [0xF0 + a, 0x80 + b, 0x80 + d, 0x80 + e]" "c = a * 262144 + b * 4096 + d * 64 + e"
      "b < 64" "d < 64" "e < 64" "a \<le> 4" "a = 0 \<longrightarrow> 16 \<le> b" "a = 4 \<longrightarrow> b < 16"
proof -
  obtain q0 e where 0: "c = q0 * 64 + e" "e < 64" using digits64 by blast
  obtain q1 d where 1: "q0 = q1 * 64 + d" "d < 64" using digits64 by blast
  obtain q2 b where 2: "q1 = q2 * 64 + b" "b < 64" using digits64 by blast
  have dm: "(x * 64 + y) div 64 = x" "(x * 64 + y) mod 64 = y" if "y < 64" for x y :: nat
    using that by simp_all
  have m0: "c div 64 = q0" "c mod 64 = e" unfolding 0(1) by (rule dm [OF 0(2)])+
  have m1: "q0 div 64 = q1" "q0 mod 64 = d" unfolding 1(1) by (rule dm [OF 1(2)])+
  have m2: "q1 div 64 = q2" "q1 mod 64 = b" unfolding 2(1) by (rule dm [OF 2(2)])+
  have "c div 4096 = q1" "c div 262144 = q2" unfolding div64 [symmetric] m0 m1 m2 by simp_all
  note m = m0 m1(2) m2(2) this
  show thesis
  proof (cases "c < 0x80")
    case True
    then show ?thesis by (intro one) (simp_all add: utf8_nats_def)
  next
    case c1: False
    show ?thesis
    proof (cases "c < 0x800")
      case True
      show ?thesis
        by (rule two [of q0 e]) (use True c1 0 m in \<open>simp_all add: utf8_nats_def\<close>)
    next
      case c2: False
      show ?thesis
      proof (cases "c < 0x10000")
        case True
        have ceq: "c = q1 * 4096 + d * 64 + e" using 0 1 by simp
        have "q1 < 16" using True ceq by linarith
        moreover have "q1 = 0 \<longrightarrow> 32 \<le> d" using c2 ceq 0(2) by auto
        moreover have "q1 = 13 \<longrightarrow> d < 32" using assms ceq True 0(2) 1(2) by (auto simp: scalar_def)
        moreover have "utf8_nats c = [0xE0 + q1, 0x80 + d, 0x80 + e]" using c1 c2 True m by (simp add: utf8_nats_def)
        ultimately show ?thesis using three ceq 0(2) 1(2) by blast
      next
        case False
        have ceq: "c = q2 * 262144 + b * 4096 + d * 64 + e" using 0 1 2 by simp
        have lim: "c < 0x110000" using assms by (simp add: scalar_def)
        have "q2 \<le> 4" using lim ceq by linarith
        moreover have "q2 = 0 \<longrightarrow> 16 \<le> b" using False ceq 0(2) 1(2) by auto
        moreover have "q2 = 4 \<longrightarrow> b < 16" using lim ceq by auto
        moreover have "utf8_nats c = [0xF0 + q2, 0x80 + b, 0x80 + d, 0x80 + e]" using c1 c2 False m by (simp add: utf8_nats_def)
        ultimately show ?thesis using four ceq 0(2) 1(2) 2(2) by blast
      qed
    qed
  qed
qed

lemma decode_step_encoded:
  assumes "scalar c" "utf8_nats c = b # bs"
  shows "decode_step b (bs @ r) = (Some c, r)"
  using assms(1)
  by (rule utf8_shapes)
    (use assms(2) in \<open>auto simp: conts_of_def second_ok_def is_cont_def lead_bits_def numeral_2_eq_2 numeral_3_eq_3\<close>)

lemma decode_step_cut:
  assumes "scalar c" "utf8_nats c = (b # bs) @ q" "q \<noteq> []"
  shows "fst (decode_step b bs) = None"
  using assms(1)
proof (rule utf8_shapes)
  fix a b1 assume "utf8_nats c = [0xC0 + a, 0x80 + b1]" "2 \<le> a" "a < 32"
  then show ?thesis using assms(2,3) by (cases bs) (auto simp: conts_of_def)
next
  fix a b1 d assume "utf8_nats c = [0xE0 + a, 0x80 + b1, 0x80 + d]" "a < 16" "b1 < 64"
  then show ?thesis
    using assms(2,3) by (cases bs; cases "tl bs") (auto simp: conts_of_def numeral_2_eq_2)
next
  fix a b1 d e assume "utf8_nats c = [0xF0 + a, 0x80 + b1, 0x80 + d, 0x80 + e]" "a \<le> 4" "b1 < 64" "d < 64"
  then show ?thesis
    using assms(2,3) by (cases bs; cases "tl bs"; cases "tl (tl bs)") (auto simp: conts_of_def numeral_3_eq_3 is_cont_def)
next
  assume "utf8_nats c = [c]" then show ?thesis using assms(2,3) by simp
qed

text \<open>A cut character: nothing, or the first bytes of one.\<close>

definition cut_char :: "nat list \<Rightarrow> bool" where
  "cut_char p \<longleftrightarrow> p = [] \<or> (\<exists>c q. scalar c \<and> utf8_nats c = p @ q \<and> q \<noteq> [])"

definition scalars :: "rstring \<Rightarrow> bool" where
  "scalars s \<longleftrightarrow> list_all scalar s"

abbreviation enc :: "rstring \<Rightarrow> nat list" where
  "enc s \<equiv> concat (map utf8_nats s)"

lemma valid_prefix_cut: "cut_char p \<Longrightarrow> valid_prefix p = ([], p)"
proof (cases p)
  case (Cons b bs)
  assume "cut_char p"
  then have "fst (decode_step b bs) = None" using Cons decode_step_cut by (auto simp: cut_char_def simp del: decode_step.simps)
  then show ?thesis using Cons by (auto simp del: decode_step.simps split: prod.splits)
qed simp

lemma valid_prefix_encoded: "scalars s \<Longrightarrow> cut_char p \<Longrightarrow> valid_prefix (enc s @ p) = (s, p)"
proof (induction s)
  case (Cons c s)
  obtain b bs where b: "utf8_nats c = b # bs" by (cases "utf8_nats c") simp_all
  have "decode_step b (bs @ enc s @ p) = (Some c, enc s @ p)"
    using decode_step_encoded [OF _ b] Cons.prems by (simp add: scalars_def del: decode_step.simps)
  then show ?case using Cons b by (simp add: scalars_def del: decode_step.simps)
qed (simp add: valid_prefix_cut)

lemma cut_short: "cut_char p \<Longrightarrow> length p \<le> 3"
proof -
  have L: "length (utf8_nats c) \<le> 4" for c by (simp add: utf8_nats_def)
  have "length p \<le> 3" if "utf8_nats c = p @ q" "q \<noteq> []" for c q
  proof -
    have "length p + length q \<le> 4" using L [of c] that(1) by simp
    moreover have "0 < length q" using that(2) by simp
    ultimately show ?thesis by linarith
  qed
  then show "cut_char p \<Longrightarrow> length p \<le> 3" by (auto simp: cut_char_def)
qed

text \<open>Every prefix of an encoded text is an encoded text and a cut character.\<close>

lemma prefix_of_encoded:
  "scalars t \<Longrightarrow> enc t = p @ q \<Longrightarrow> \<exists>s u r. t = s @ u \<and> p = enc s @ r \<and> cut_char r \<and> r @ q = enc u"
proof (induction t arbitrary: p)
  case Nil
  then show ?case by (intro exI [of _ "[]"]) (simp add: cut_char_def)
next
  case (Cons c t)
  show ?case
  proof (cases "\<exists>r. p = utf8_nats c @ r")
    case True
    then obtain r where r: "p = utf8_nats c @ r" by blast
    then have "enc t = r @ q" using Cons.prems by simp
    with Cons.IH [OF _ this] Cons.prems obtain s u r' where "t = s @ u" "r = enc s @ r'" "cut_char r'" "r' @ q = enc u"
      by (auto simp: scalars_def)
    then show ?thesis using r by (intro exI [of _ "c # s"] exI [of _ u] exI [of _ r']) simp
  next
    case False
    then obtain q' where "utf8_nats c = p @ q'" "q' \<noteq> []"
      using Cons.prems(2) by (auto simp: append_eq_append_conv2)
    then have "cut_char p" using Cons.prems(1) by (auto simp: cut_char_def scalars_def)
    then show ?thesis using Cons.prems by (intro exI [of _ "[]"] exI [of _ "c # t"] exI [of _ p]) simp
  qed
qed

subsection \<open>Streams in batches\<close>

fun decode_batches :: "u8 list \<Rightarrow> u8 list list \<Rightarrow> rstring list \<times> u8 list" where
  "decode_batches tail [] = ([], tail)"
| "decode_batches tail (b # bs) =
     (let (msgs, kept) = decode_batch tail b; (msgs', kept') = decode_batches kept bs in (msgs @ msgs', kept'))"

lemma decode_batch_good:
  assumes "scalars s" "cut_char r" "map unat (tail @ batch) = enc s @ r"
  shows "\<exists>msgs kept. decode_batch tail batch = (msgs, kept) \<and> concat msgs = s \<and> map unat kept = r"
proof -
  let ?b = "tail @ batch"
  have v: "valid_prefix (map unat ?b) = (s, r)" using assms valid_prefix_encoded by simp
  have len: "length ?b = length (enc s) + length r" using arg_cong [OF assms(3), of length] by simp
  have k: "map unat (drop (length ?b - length r) ?b) = r"
    unfolding drop_map [symmetric] assms(3) using len by simp
  then have "length (drop (length ?b - length r) ?b) \<le> 3" using cut_short [OF assms(2)] by (metis length_map)
  then show ?thesis using v k by (cases "r = []") (auto simp: decode_batch_def Let_def)
qed

lemma decode_batches_good:
  assumes "map unat tail @ map unat (concat bs) = enc t" "scalars t" "cut_char (map unat tail)"
  shows "concat (fst (decode_batches tail bs)) = t \<and> snd (decode_batches tail bs) = []"
  using assms
proof (induction bs arbitrary: tail t)
  case Nil
  then have e: "enc t = map unat tail" by simp
  have "valid_prefix (enc t @ []) = (t, [])" using Nil.prems(2) by (intro valid_prefix_encoded) (simp_all add: cut_char_def)
  moreover have "valid_prefix (map unat tail) = ([], map unat tail)" using Nil.prems(3) by (rule valid_prefix_cut)
  ultimately show ?case using e by simp
next
  case (Cons b bs)
  have "enc t = map unat (tail @ b) @ map unat (concat bs)" using Cons.prems(1) by simp
  from prefix_of_encoded [OF Cons.prems(2) this] obtain s u r where p:
    "t = s @ u" "map unat (tail @ b) = enc s @ r" "cut_char r" "r @ map unat (concat bs) = enc u" by blast
  have sc: "scalars s" "scalars u" using Cons.prems(2) p(1) by (simp_all add: scalars_def)
  from decode_batch_good [OF sc(1) p(3,2)] obtain msgs kept where d:
    "decode_batch tail b = (msgs, kept)" "concat msgs = s" "map unat kept = r" by blast
  have "concat (fst (decode_batches kept bs)) = u \<and> snd (decode_batches kept bs) = []"
    using Cons.IH [of kept u] d(3) p(3,4) sc(2) by simp
  then show ?case using d p(1) by (auto split: prod.splits)
qed

definition text_bytes :: "rstring \<Rightarrow> u8 list" where
  "text_bytes t = map of_nat (enc t)"

lemma unat_text_bytes: "scalars t \<Longrightarrow> map unat (text_bytes t) = enc t"
proof (induction t)
  case (Cons c t)
  then have "list_all (\<lambda>b. b < 256) (utf8_nats c)" by (intro utf8_nats_bytes) (simp add: scalars_def scalar_def)
  then have "map (\<lambda>b. unat (of_nat b :: u8)) (utf8_nats c) = utf8_nats c"
    by (intro map_idI) (auto simp: list_all_iff unat_of_nat)
  then show ?case using Cons by (simp add: text_bytes_def scalars_def comp_def)
qed (simp add: text_bytes_def)

lemma decode_batches_text:
  assumes "scalars t" "concat bs = text_bytes t"
  shows "concat (fst (decode_batches [] bs)) = t \<and> snd (decode_batches [] bs) = []"
  by (rule decode_batches_good) (use assms unat_text_bytes in \<open>simp_all add: cut_char_def\<close>)

text \<open>
  Text survives the pipe. However the operating system cuts the UTF-8 output of a program into
  reads, in the middle of a character included, the texts broadcast are together exactly what the
  program wrote, and no byte is left over.
\<close>
theorem text_survives_batches:
  assumes "scalars t" and "concat bs = text_bytes t"
  shows "concat (fst (decode_batches [] bs)) = t \<and> snd (decode_batches [] bs) = []"
  using assms by (rule decode_batches_text)

lemma text_survives_batches_witness:
  "concat (fst (decode_batches [] [[0xE2, 0x82], [0xAC, 0x21]])) = [0x20AC, 0x21]"
  by (rule text_survives_batches [THEN conjunct1])
    (simp_all add: scalars_def scalar_def text_bytes_def utf8_nats_def)

text \<open>
  One byte that is not UTF-8 costs the rest of its batch: everything after it, well-formed text
  included, is thrown away and replaced by a single \<open>U+FFFD\<close>, once the rest has four bytes.
\<close>
theorem bad_byte_drops_batch:
  assumes "scalars t" and "s \<noteq> []" and "scalars s" and "3 \<le> length (text_bytes t)"
  shows "decode_batch [] (text_bytes s @ [0xFF] @ text_bytes t) = ([s, [REPLACEMENT]], [])"
proof -
  have v: "valid_prefix (0xFF # enc t) = ([], 0xFF # enc t)" by (simp add: conts_of_def)
  have g: "valid_prefix (enc s @ r) = (s @ fst (valid_prefix r), snd (valid_prefix r))" if "scalars s" for s r
    using that
  proof (induction s)
    case (Cons c s)
    obtain b bs where b: "utf8_nats c = b # bs" by (cases "utf8_nats c") simp_all
    have "decode_step b (bs @ enc s @ r) = (Some c, enc s @ r)"
      using decode_step_encoded [OF _ b] Cons.prems by (simp add: scalars_def del: decode_step.simps)
    then show ?case using Cons b by (simp add: scalars_def del: decode_step.simps)
  qed simp
  have "map unat (text_bytes s @ [0xFF] @ text_bytes t) = enc s @ 0xFF # enc t"
    using assms unat_text_bytes by simp
  then have "valid_prefix (map unat (text_bytes s @ [0xFF] @ text_bytes t)) = (s, 0xFF # enc t)"
    using g [OF assms(3), of "0xFF # enc t"] v by simp
  then show ?thesis
    using assms(2,4) by (simp add: decode_batch_def Let_def text_bytes_def)
qed

lemma bad_byte_drops_batch_witness:
  "decode_batch [] (text_bytes [97] @ [0xFF] @ text_bytes (lit ''all of this is lost'')) = ([[97], [REPLACEMENT]], [])"
  by (rule bad_byte_drops_batch) (simp_all add: scalars_def scalar_def lit_def text_bytes_def utf8_nats_def)

subsection \<open>The task as a run of the session\<close>

definition pty_turn :: "instant \<times> u8 list \<Rightarrow> 'ps pty_state option \<Rightarrow> 'ps pty_state option option" where
  "pty_turn = (\<lambda>(now, data) r.
     (case r of None \<Rightarrow> Some None | Some p \<Rightarrow> on_batch now (p\<lparr>py_queue := py_queue p @ [data]\<rparr>)))"

fun chars :: "log \<Rightarrow> rstring" where
  "chars [] = []"
| "chars (Inl x # l) = x # chars l"
| "chars (Inr b # l) = chars l"

lemma chars_append [simp]: "chars (l @ m) = chars l @ chars m"
  by (induction l rule: chars.induct) simp_all

lemma chars_map [simp]: "chars (map Inl t) = t"
  by (induction t) simp_all

lemma broadcasts_fold: "fold_opt broadcast msgs = fold_opt session_step (map OpBroadcast msgs)"
proof (induction msgs)
  case (Cons m msgs)
  then show ?case by (intro ext) (simp add: session_step_def)
qed (intro ext, simp)

lemma broadcasts_run:
  "fold_opt broadcast msgs s = fold_opt session_step (map OpBroadcast msgs) s \<and>
   chars (run_log a (map OpBroadcast msgs)) = concat msgs \<and> list_all (stays i) (map OpBroadcast msgs)"
  by (induction msgs arbitrary: a) (simp_all add: broadcasts_fold op_log_def op_active_def stays_def)

lemma sync_watch_run:
  assumes "sync_watch b now p = Some p'"
  shows "\<exists>ops. fold_opt session_step ops (py_session p) = Some (py_session p') \<and> (\<forall>a. chars (run_log a ops) = []) \<and>
    list_all (stays i) ops \<and> py_tail p' = py_tail p \<and> py_queue p' = py_queue p"
proof (cases "py_session p' = py_session p \<and> py_tail p' = py_tail p \<and> py_queue p' = py_queue p")
  case True
  then show ?thesis by (intro exI [of _ "[]"]) simp
next
  case False
  then have "set_sync_mode False (py_session p) = Some (py_session p')" "py_tail p' = py_tail p" "py_queue p' = py_queue p"
    using assms by (auto simp: sync_watch_def split: if_splits option.splits bind_splits)
  then show ?thesis
    by (intro exI [of _ "[OpSync False]"]) (simp add: session_step_def op_log_def stays_def)
qed

lemma fold_opt_split: "fold_opt f (xs @ ys) s = (case fold_opt f xs s of None \<Rightarrow> None | Some s' \<Rightarrow> fold_opt f ys s')"
  by (induction xs arbitrary: s) (auto split: option.splits bind_splits)

fun op_state :: "bool \<Rightarrow> session_op list \<Rightarrow> bool" where
  "op_state a [] = a"
| "op_state a (op # ops) = op_state (op_active a op) ops"

lemma run_log_append: "run_log a (xs @ ys) = run_log a xs @ run_log (op_state a xs) ys"
  by (induction xs arbitrary: a) simp_all

lemma turn_run:
  assumes "pty_turn (now, data) (Some p) = Some (Some p')" "py_queue p = []"
  shows "\<exists>ops. fold_opt session_step ops (py_session p) = Some (py_session p') \<and>
    (\<forall>a. chars (run_log a ops) = concat (fst (decode_batch (py_tail p) data))) \<and> list_all (stays i) ops \<and>
    py_tail p' = snd (decode_batch (py_tail p) data) \<and> py_queue p' = []"
proof -
  obtain p1 where p1: "sync_watch True now (p\<lparr>py_queue := []\<rparr>) = Some p1"
    using assms by (auto simp: pty_turn_def on_batch_def split: if_splits bind_splits)
  from sync_watch_run [OF this, of i] obtain ops1 where o1: "fold_opt session_step ops1 (py_session p) = Some (py_session p1)"
    "\<forall>a. chars (run_log a ops1) = []" "list_all (stays i) ops1" "py_tail p1 = py_tail p" "py_queue p1 = []" by auto
  obtain msgs kept where d: "decode_batch (py_tail p) data = (msgs, kept)" by force
  obtain s where s: "fold_opt broadcast msgs (py_session p1) = Some s"
    "p' = (publish_results p1)\<lparr>py_session := s, py_tail := kept\<rparr>"
    using assms p1 d o1(4) by (auto simp: pty_turn_def on_batch_def publish_results_def split: if_splits bind_splits)
  let ?ops = "ops1 @ map OpBroadcast msgs"
  have "fold_opt session_step (map OpBroadcast msgs) (py_session p1) = Some s"
    using broadcasts_run [of msgs "py_session p1" True i] s(1) by simp
  then have "fold_opt session_step ?ops (py_session p) = Some (py_session p')"
    using s(2) o1(1) by (simp add: fold_opt_split)
  moreover have "chars (run_log a ?ops) = concat msgs" for a
    using o1(2) broadcasts_run [of msgs "py_session p1" "op_state a ops1" i] by (simp add: run_log_append)
  moreover have "list_all (stays i) ?ops" using o1(3) broadcasts_run [of msgs "py_session p1" True i] by simp
  ultimately show ?thesis using s(2) d o1(5) by (intro exI [of _ ?ops]) (simp add: publish_results_def)
qed

lemma turns_run:
  "fold_opt pty_turn turns (Some p) = Some (Some p') \<Longrightarrow> py_queue p = [] \<Longrightarrow>
     \<exists>ops. fold_opt session_step ops (py_session p) = Some (py_session p') \<and>
       (\<forall>a. chars (run_log a ops) = concat (fst (decode_batches (py_tail p) (map snd turns)))) \<and> list_all (stays i) ops"
proof (induction turns arbitrary: p)
  case Nil
  then show ?case by (intro exI [of _ "[]"]) simp
next
  case (Cons x turns)
  obtain now data where x: "x = (now, data)" by force
  have stop: "fold_opt pty_turn ts None = Some r \<Longrightarrow> r = None" for ts r
    by (induction ts) (auto simp: pty_turn_def)
  obtain p1 where p1: "pty_turn (now, data) (Some p) = Some (Some p1)" "fold_opt pty_turn turns (Some p1) = Some (Some p')"
  proof -
    obtain r where r: "pty_turn (now, data) (Some p) = Some r" "fold_opt pty_turn turns r = Some (Some p')"
      using Cons.prems(1) x by (auto split: bind_splits)
    moreover have "r \<noteq> None" using stop [of turns "Some p'"] r(2) by (cases r) auto
    ultimately show thesis using that by blast
  qed
  from turn_run [OF p1(1) Cons.prems(2), of i] obtain ops1 where o1: "fold_opt session_step ops1 (py_session p) = Some (py_session p1)"
    "\<forall>a. chars (run_log a ops1) = concat (fst (decode_batch (py_tail p) data))" "list_all (stays i) ops1"
    "py_tail p1 = snd (decode_batch (py_tail p) data)" "py_queue p1 = []" by blast
  from Cons.IH [OF p1(2) o1(5)] obtain ops2 where o2: "fold_opt session_step ops2 (py_session p1) = Some (py_session p')"
    "\<forall>a. chars (run_log a ops2) = concat (fst (decode_batches (py_tail p1) (map snd turns)))" "list_all (stays i) ops2" by blast
  show ?case
    using o1 o2 x by (intro exI [of _ "ops1 @ ops2"]) (auto simp: fold_opt_split run_log_append split: prod.splits)
qed


definition demo_pty :: "unit pty_state" where
  "demo_pty = \<lparr>py_session = demo_session, py_pending = [], py_queue = [], py_tail = [], py_sync_started = None, py_published = []\<rparr>"

lemma demo_turn:
  "\<exists>p. fold_opt pty_turn [(5, [0xC3]), (6, [0xA9])] (Some demo_pty) = Some (Some p) \<and>
     client 1 (py_session p) = Some (demo_client\<lparr>ce_tx := (ce_tx demo_client)\<lparr>ch_sent := [Output [0xE9]]\<rparr>\<rparr>)"
proof -
  have d: "decode_batch [] [0xC3] = ([], [0xC3])" "decode_batch [0xC3] [0xA9] = ([[0xE9]], [])"
    by (simp_all add: decode_batch_def conts_of_def second_ok_def is_cont_def lead_bits_def Let_def)
  show ?thesis
    by (simp add: pty_turn_def on_batch_def sync_watch_def publish_results_def demo_pty_def d Let_def broadcast_def
        demo_session_def demo_client_def new_sync_def send_chunk_to_clients_def prune_def new_chan_def deliver_def
        try_send_def chan_full_def CLIENT_CHANNEL_def client_def)
qed


subsection \<open>The watchdog\<close>

lemma set_sync_off: "\<exists>s'. set_sync_mode False s = Some s' \<and> \<not> sactive s' \<and> (sync_ok s \<longrightarrow> sbuf s' = [])"
proof (cases "sactive s")
  case False
  then show ?thesis by (simp add: set_sync_mode_def sync_ok_def)
next
  case True
  obtain s' where "flush_sync_buffer (s\<lparr>se_sync := (se_sync s)\<lparr>sy_active := False\<rparr>\<rparr>) = Some s'"
    using flush_sync_buffer_eq by blast
  then show ?thesis using True by (auto simp: set_sync_mode_def enqueue_control_def dest!: flush_sync)
qed

lemma sync_watch_started:
  assumes "sync_watch True now p = Some p1" "sactive (py_session p1)"
    "\<forall>st. py_sync_started p = Some st \<longrightarrow> st \<le> now"
  shows "\<exists>st \<le> now. py_sync_started p1 = Some st"
  using assms set_sync_off [of "py_session p"]
  by (auto simp: sync_watch_def split: if_splits option.splits bind_splits)

lemma flush_same:
  "flush_sync_buffer s = Some s' \<Longrightarrow>
     se_sync s' = \<lparr>sy_active = sactive s, sy_buffer = [], sy_bytes = 0\<rparr> \<and> se_exited s' = se_exited s"
  using flush_sync_buffer_eq [of s] by auto

lemma broadcast_same: "broadcast m s = Some s' \<Longrightarrow> sactive s' = sactive s \<and> se_exited s' = se_exited s \<and> (sync_ok s \<longrightarrow> sync_ok s')"
  using broadcast_ok [of s m s']
  by (auto simp: broadcast_def Let_def dest!: flush_same split: if_splits)

lemma broadcasts_same:
  "fold_opt broadcast ms s = Some s' \<Longrightarrow> sactive s' = sactive s \<and> se_exited s' = se_exited s \<and> (sync_ok s \<longrightarrow> sync_ok s')"
  by (induction ms arbitrary: s) (auto dest!: broadcast_same split: bind_splits)

lemma sync_watch_keeps:
  "sync_watch b now p = Some p1 \<Longrightarrow> se_exited (py_session p1) = se_exited (py_session p) \<and>
     (sync_ok (py_session p) \<longrightarrow> sync_ok (py_session p1))"
  by (auto simp: sync_watch_def set_sync_mode_def enqueue_control_def dest!: flush_same intro: sync_ok_flushed
      split: if_splits option.splits bind_splits)

text \<open>
  A synchronized update cannot freeze the clients. Once a batch of output has come while it is on,
  the first tick of the watchdog more than 500 ms later ends the update and sends what it held, even if
  the process never writes again.
\<close>
theorem watchdog_ends_update:
  assumes "pty_turn (now, data) (Some p) = Some (Some p1)" and "sync_ok (py_session p)"
    and "\<forall>st. py_sync_started p = Some st \<longrightarrow> st \<le> now" and "now + SYNC_TIMEOUT < later"
  shows "\<exists>p2. on_tick later p1 = Some (Some p2) \<and> \<not> sactive (py_session p2) \<and> sbuf (py_session p2) = []"
proof -
  have ex: "\<not> se_exited (py_session p)" using assms(1) by (auto simp: pty_turn_def on_batch_def split: if_splits)
  obtain q where q: "sync_watch True now (p\<lparr>py_queue := []\<rparr>) = Some q"
    using assms(1) ex by (auto simp: pty_turn_def on_batch_def split: bind_splits)
  obtain msgs kept s where p1: "fold_opt broadcast msgs (py_session q) = Some s"
    "p1 = (publish_results q)\<lparr>py_session := s, py_tail := kept\<rparr>"
    using assms(1) ex q by (auto simp: pty_turn_def on_batch_def publish_results_def split: bind_splits prod.splits)
  note k = sync_watch_keeps [OF q] and b = broadcasts_same [OF p1(1)]
  have e1: "\<not> se_exited (py_session p1)" and ok: "sync_ok (py_session p1)"
    using ex k b p1(2) assms(2) by simp_all
  show ?thesis
  proof (cases "sactive (py_session p1)")
    case False
    then show ?thesis
      using e1 ok by (auto simp: on_tick_def sync_watch_def sync_ok_def)
  next
    case True
    then have "sactive (py_session q)" using b p1(2) by simp
    from sync_watch_started [OF q this] assms(3) obtain st where st: "st \<le> now" "py_sync_started q = Some st" by auto
    then have "py_sync_started p1 = Some st" "SYNC_TIMEOUT < duration_since later st"
      using p1(2) assms(4) by (simp_all add: publish_results_def duration_since_def)
    then show ?thesis
      using set_sync_off [of "py_session p1"] True e1 ok by (auto simp: on_tick_def sync_watch_def)
  qed
qed

lemma watchdog_ends_update_witness:
  "\<exists>p1 p2. pty_turn (5, [0xC3]) (Some demo_pty) = Some (Some p1) \<and>
     on_tick 600000000 p1 = Some (Some p2) \<and> \<not> sactive (py_session p2)"
proof -
  have "decode_batch [] [0xC3] = ([], [0xC3])" by (simp add: decode_batch_def conts_of_def Let_def)
  then obtain p1 where p1: "pty_turn (5, [0xC3]) (Some demo_pty) = Some (Some p1)"
    by (simp add: pty_turn_def on_batch_def sync_watch_def publish_results_def demo_pty_def Let_def)
  have "sync_ok (py_session demo_pty)" "\<forall>st. py_sync_started demo_pty = Some st \<longrightarrow> st \<le> 5" by (simp_all add: demo_pty_def)
  from watchdog_ends_update [OF p1 this, of 600000000] show ?thesis using p1 by (auto simp: SYNC_TIMEOUT_def)
qed

end
