(* ===== verification/SyncTypes.thy ===== *)
theory SyncTypes
  imports Layout Attention SessionCore StrOps
begin

section \<open>Messages to the sync clients and events on the bus\<close>

text \<open>
  The message types of \<open>session/types.rs\<close> and \<open>events/bus.rs\<close>, with all their variants, and the
  bridge \<open>events/bridge.rs\<close> that turns a bus event into a message for the plugins. JSON payloads are
  values of the layout model's \<open>json\<close> type.
\<close>

datatype close_reason = Explicit | NaturalExit | Reaped | Shutdown

record workspace =
  ws_id :: rstring
  ws_name :: rstring
  ws_path :: rstring
  ws_order :: u32
  ws_connection :: "string option"
  ws_abbr :: "rstring option"
  ws_color :: "rstring option"

record suggestion_item =
  su_command :: string
  su_frequency :: nat

record 'f tab_info =
  ti_tab :: string
  ti_pane :: string
  ti_layout :: "'f json option"
  ti_active :: "string option"
  ti_cwd :: "rstring option"
  ti_connection :: "string option"
  ti_workspace :: "rstring option"
  ti_title :: "string option"

text \<open>What a bell and a notification have in common.\<close>

record notice =
  no_v :: nat
  no_pane :: string
  no_title :: "string option"
  no_body :: string
  no_type :: string
  no_event_seq :: string
  no_occurred_at :: nat
  no_severity :: severity
  no_notif_id :: "string option"

datatype 'f sync_msg =
    TabList "'f tab_info list" "string option"
  | TabCreated string string "'f json option" "rstring option" "string option" "rstring option"
  | TabClosed string
  | TabActivated string
  | LayoutUpdated string "'f json" string
  | PluginChanged string string
  | ProcessExited string nat "int option"
  | CommandFinished string string int nat string string
  | WorkspaceCreated workspace
  | WorkspaceUpdated workspace
  | WorkspaceDeleted rstring
  | WorkspaceActivated "rstring option"
  | WorkspaceReordered "rstring list"
  | WorkspaceList "workspace list" "rstring option"
  | SyncEvent "string option" "string option" "string option" string "'f json"
  | SyncHello string
  | Bell notice
  | Notify notice "string option"
  | StateDelta state_delta
  | SnapshotMsg snapshot
  | MarkReadResult mark_read_result
  | ResyncRequired nat
  | Suggestions "suggestion_item list"
  | MonitorData "'f json"
  | MonitorHistory "'f json list"
  | TabRenamed string string
  | TabReordered "string list"
  | MissionControlToggled bool "rstring option" "string option"
  | SelectionChanged "rstring option" "string option" "string option"
  | McSnapshot bool "rstring option" "string option"

record 'f sync_client =
  sc_id :: string
  sc_tx :: "'f sync_msg chan"

datatype 'f bus_note =
    CommandFinishedEv string string int nat string string
  | SessionCreatedEv string string
  | SessionClosedEv string "int option"
  | TabCreatedEv string string
  | TabClosedEv string
  | FileChangedEv string string
  | CustomEv string string "'f json"
  | AuthLoginFailedEv string string nat "nat option"
  | VerificationCodeEv string string nat
  | VerificationCodeConsumedEv string string "string option" nat
  | NotifyEv string "string option" string string string nat
  | ProcessExitedEv string nat "int option"
  | PluginChangedEv string string

text \<open>\<open>publish_bus_event_for_sync_msg\<close>: which messages to the clients are mirrored on the bus.\<close>

definition bus_event_for :: "'f sync_msg \<Rightarrow> 'f bus_note option" where
  "bus_event_for msg =
     (case msg of
        TabCreated t p _ _ _ _ \<Rightarrow> Some (TabCreatedEv t p)
      | TabClosed p \<Rightarrow> Some (TabClosedEv p)
      | PluginChanged i c \<Rightarrow> Some (PluginChangedEv i c)
      | ProcessExited i p c \<Rightarrow> Some (ProcessExitedEv i p c)
      | _ \<Rightarrow> None)"

subsection \<open>The bridge\<close>

definition json_opt :: "('a \<Rightarrow> 'f json) \<Rightarrow> 'a option \<Rightarrow> 'f json" where
  "json_opt f x = (case x of None \<Rightarrow> JNull | Some a \<Rightarrow> f a)"

abbreviation JNat :: "nat \<Rightarrow> 'f json" where
  "JNat n \<equiv> JInt (int n)"

text \<open>The name and the data of the event; \<open>None\<close> for what plugins emit themselves.\<close>

definition bridge_payload :: "'f bus_note \<Rightarrow> (string \<times> (string \<times> 'f json) list) option" where
  "bridge_payload e =
     (case e of
        CommandFinishedEv p c code ms _ meth \<Rightarrow> Some (''command.finished'',
          [(''pane_id'', JStr p), (''command'', JStr c), (''exit_code'', JInt code), (''duration_ms'', JNat ms), (''method'', JStr meth)])
      | SessionCreatedEv p sh \<Rightarrow> Some (''session.created'', [(''pane_id'', JStr p), (''shell_type'', JStr sh)])
      | SessionClosedEv p code \<Rightarrow> Some (''session.closed'', [(''pane_id'', JStr p), (''exit_code'', json_opt JInt code)])
      | AuthLoginFailedEv ip reason n until \<Rightarrow> Some (''auth.login_failed'',
          [(''ip'', JStr ip), (''reason'', JStr reason), (''attempt_count'', JNat n), (''locked_until'', json_opt JNat until)])
      | VerificationCodeEv r c at \<Rightarrow> Some (''auth.verification_code'',
          [(''request_id'', JStr r), (''code'', JStr c), (''occurred_at'', JNat at)])
      | VerificationCodeConsumedEv r ip ua at \<Rightarrow> Some (''auth.verification_code_consumed'',
          [(''request_id'', JStr r), (''ip'', JStr ip), (''user_agent'', json_opt JStr ua), (''occurred_at'', JNat at)])
      | TabCreatedEv t p \<Rightarrow> Some (''tab.created'', [(''tab_id'', JStr t), (''pane_id'', JStr p)])
      | TabClosedEv t \<Rightarrow> Some (''tab.closed'', [(''tab_id'', JStr t)])
      | FileChangedEv p c \<Rightarrow> Some (''file.changed'', [(''path'', JStr p), (''change_type'', JStr c)])
      | NotifyEv p t b ty sev at \<Rightarrow> Some (''notification.received'',
          [(''pane_id'', JStr p), (''title'', json_opt JStr t), (''body'', JStr b), (''notification_type'', JStr ty),
           (''severity'', JStr sev), (''occurred_at'', JNat at)])
      | ProcessExitedEv i pid code \<Rightarrow> Some (''process.exited'',
          [(''plugin_id'', JStr i), (''pid'', JNat pid), (''exit_code'', json_opt JInt code)])
      | PluginChangedEv i c \<Rightarrow> Some (''plugin.changed'', [(''plugin_id'', JStr i), (''change'', JStr c)])
      | CustomEv _ _ _ \<Rightarrow> None)"

definition map_bus_event_to_sync_event :: "'f bus_note \<Rightarrow> 'f sync_msg option" where
  "map_bus_event_to_sync_event e =
     map_option (\<lambda>(name, data). SyncEvent None None None name (mk_obj data)) (bridge_payload e)"

end
