(* ===== verification/ManagerCore.thy ===== *)
theory ManagerCore
  imports SyncTypes ProcLedger
begin

section \<open>The session manager\<close>

text \<open>
  \<open>session/manager.rs\<close>: which sessions exist, which tabs show them and in what order, who is told,
  and when a session nobody shows is reaped. A session is an \<open>Arc\<close>, so the manager's map holds
  addresses into a store: two calls mean the same session exactly if they hold the same address. Every
  block of the code under the \<open>lifecycle\<close> lock is one function. Hash maps are association lists.
\<close>

subsection \<open>State\<close>

text \<open>
  A session with the handles the manager drops when it closes it, the directory \<open>cwd_for_workspace\<close>
  answers, its directory on this host, and of its SSH parameters (if it has any) the profile, the workspace,
  and user name and host.
\<close>

record 'ps hosted =
  hs_session :: "'ps session"
  hs_input_open :: bool
  hs_output :: "u8 list list"
  hs_on_exit :: bool
  hs_cwd :: "rstring option"
  hs_profile :: "string option"
  hs_workspace :: "rstring option"
  hs_host_cwd :: "rstring option"
  hs_login :: "(string \<times> string) option"

type_synonym addr = nat

record ('f, 'ps) manager =
  mg_sessions :: "(string, addr) amap"
  mg_store :: "addr \<Rightarrow> 'ps hosted"
  mg_layouts :: "(string, 'f json) amap"
  mg_order :: "string list"
  mg_active :: "string option"
  mg_reserved :: "string list"
  mg_unowned :: "(string, instant) amap"
  mg_sync_clients :: "'f sync_client list"
  mg_bus :: "'f bus_note list"
  mg_snapshots :: nat
  mg_closed_panes :: "string list"
  mg_exit_calls :: "(string \<times> int option) list"
  mg_ledger :: ledger_file
  mg_world :: world

definition new_session_manager :: "(addr \<Rightarrow> 'ps hosted) \<Rightarrow> ledger_file \<Rightarrow> world \<Rightarrow> ('f, 'ps) manager" where
  "new_session_manager store lf w =
     \<lparr>mg_sessions = [], mg_store = store, mg_layouts = [], mg_order = [], mg_active = None, mg_reserved = [],
       mg_unowned = [], mg_sync_clients = [], mg_bus = [], mg_snapshots = 0, mg_closed_panes = [],
       mg_exit_calls = [], mg_ledger = lf, mg_world = w\<rparr>"

definition schedule_snapshot :: "('f, 'ps) manager \<Rightarrow> ('f, 'ps) manager" where
  "schedule_snapshot m = m\<lparr>mg_snapshots := Suc (mg_snapshots m)\<rparr>"

subsection \<open>Sync clients\<close>

definition publish_bus :: "'f bus_note option \<Rightarrow> ('f, 'ps) manager \<Rightarrow> ('f, 'ps) manager" where
  "publish_bus e m = (case e of None \<Rightarrow> m | Some e \<Rightarrow> m\<lparr>mg_bus := mg_bus m @ [e]\<rparr>)"

text \<open>\<open>retain(|c| c.tx.send(..).is_ok())\<close>: a client that hung up is dropped.\<close>

definition send_sync :: "'f sync_msg \<Rightarrow> 'f sync_client \<Rightarrow> 'f sync_client option" where
  "send_sync msg c = (let (ok, ch) = try_send msg (sc_tx c) in if ok then Some (c\<lparr>sc_tx := ch\<rparr>) else None)"

definition broadcast_sync :: "'f sync_msg \<Rightarrow> ('f, 'ps) manager \<Rightarrow> ('f, 'ps) manager" where
  "broadcast_sync msg m =
     publish_bus (bus_event_for msg)
       (m\<lparr>mg_sync_clients := all_some (map (send_sync msg) (mg_sync_clients m))\<rparr>)"

definition broadcast_plugin_changed :: "string \<Rightarrow> string \<Rightarrow> ('f, 'ps) manager \<Rightarrow> ('f, 'ps) manager" where
  "broadcast_plugin_changed plugin change = broadcast_sync (PluginChanged plugin change)"

definition broadcast_sync_others :: "'f sync_msg \<Rightarrow> string \<Rightarrow> ('f, 'ps) manager \<Rightarrow> ('f, 'ps) manager" where
  "broadcast_sync_others msg exclude m =
     m\<lparr>mg_sync_clients :=
       all_some (map (\<lambda>c. if sc_id c = exclude then Some c else send_sync msg c) (mg_sync_clients m))\<rparr>"

definition broadcast_sync_to :: "string \<Rightarrow> 'f sync_msg \<Rightarrow> ('f, 'ps) manager \<Rightarrow> ('f, 'ps) manager" where
  "broadcast_sync_to target msg m =
     m\<lparr>mg_sync_clients :=
       update_first (\<lambda>c. sc_id c = target) (\<lambda>c. c\<lparr>sc_tx := snd (try_send msg (sc_tx c))\<rparr>) (mg_sync_clients m)\<rparr>"

definition add_sync_client :: "string \<Rightarrow> ('f, 'ps) manager \<Rightarrow> ('f, 'ps) manager" where
  "add_sync_client uuid m =
     m\<lparr>mg_sync_clients := mg_sync_clients m @ [\<lparr>sc_id = uuid, sc_tx = new_chan None\<rparr>]\<rparr>"

subsection \<open>Tabs\<close>

definition insert_tab :: "string \<Rightarrow> 'f json \<Rightarrow> ('f, 'ps) manager \<Rightarrow> ('f, 'ps) manager" where
  "insert_tab tab v m =
     schedule_snapshot (m\<lparr>mg_order := (if tab \<in> set (mg_order m) then mg_order m else mg_order m @ [tab]),
       mg_layouts := al_put tab v (mg_layouts m)\<rparr>)"

definition remove_tab :: "string \<Rightarrow> ('f, 'ps) manager \<Rightarrow> bool \<times> ('f, 'ps) manager" where
  "remove_tab tab m =
     (let removed = map_of (mg_layouts m) tab \<noteq> None;
          m1 = m\<lparr>mg_layouts := al_del tab (mg_layouts m), mg_order := filter (\<lambda>t. t \<noteq> tab) (mg_order m)\<rparr> in
      (removed, if removed then schedule_snapshot m1 else m1))"

definition update_layout :: "string \<Rightarrow> 'f json \<Rightarrow> string option \<Rightarrow> ('f, 'ps) manager \<Rightarrow> ('f, 'ps) manager" where
  "update_layout tab v active m =
     (let m1 = insert_tab tab v m in case active of None \<Rightarrow> m1 | Some a \<Rightarrow> m1\<lparr>mg_active := Some a\<rparr>)"

definition rename_tab :: "string \<Rightarrow> string \<Rightarrow> ('f, 'ps) manager \<Rightarrow> bool \<times> ('f, 'ps) manager" where
  "rename_tab tab title m =
     (case map_of (mg_layouts m) tab of
        Some (JObj kvs) \<Rightarrow>
          (True, schedule_snapshot (m\<lparr>mg_layouts := al_put tab (JObj (obj_put ''title'' (JStr title) kvs)) (mg_layouts m)\<rparr>))
      | _ \<Rightarrow> (False, m))"

text \<open>The ids of the request that are new and known; every id of the request counts as seen.\<close>

fun requested_order :: "string list \<Rightarrow> string list \<Rightarrow> string list \<Rightarrow> string list \<times> string list" where
  "requested_order known [] seen = ([], seen)"
| "requested_order known (t # ts) seen =
     (let (new, seen') = requested_order known ts (t # seen) in
      (if t \<notin> set seen \<and> t \<in> set known then t # new else new, seen'))"

definition reorder_tabs :: "string list \<Rightarrow> ('f, 'ps) manager \<Rightarrow> string list option \<times> ('f, 'ps) manager" where
  "reorder_tabs ids m =
     (let (new, seen) = requested_order (map fst (mg_layouts m)) ids [] in
      if new = [] then (None, m)
      else
        let new_order = new @ filter (\<lambda>t. t \<notin> set seen) (mg_order m) in
        if mg_order m = new_order then (None, m)
        else (Some new_order, schedule_snapshot (m\<lparr>mg_order := new_order\<rparr>)))"

definition set_active_pane_id :: "string option \<Rightarrow> ('f, 'ps) manager \<Rightarrow> ('f, 'ps) manager" where
  "set_active_pane_id p m = schedule_snapshot (m\<lparr>mg_active := p\<rparr>)"

definition layout_of :: "'f json \<Rightarrow> 'f json option" where
  "layout_of v = jget v ''layout''"

definition is_pane_in_any_tab :: "string \<Rightarrow> ('f, 'ps) manager \<Rightarrow> bool" where
  "is_pane_in_any_tab pane m \<longleftrightarrow>
     list_ex (\<lambda>(_, v). case layout_of v of Some l \<Rightarrow> layout_has_pane l pane | None \<Rightarrow> False) (mg_layouts m)"

definition pane_is_referenced :: "string \<Rightarrow> ('f, 'ps) manager \<Rightarrow> bool" where
  "pane_is_referenced pane m \<longleftrightarrow>
     list_ex (\<lambda>(_, v). case layout_of v of Some l \<Rightarrow> pane \<in> set (collect_terminal_leaf_pane_ids l) | None \<Rightarrow> False)
       (mg_layouts m)"

definition referenced_pane_ids :: "('f, 'ps) manager \<Rightarrow> string list" where
  "referenced_pane_ids m =
     concat (map (\<lambda>(_, v). case layout_of v of Some l \<Rightarrow> collect_terminal_leaf_pane_ids l | None \<Rightarrow> []) (mg_layouts m))"

subsection \<open>Sessions and reservations\<close>

definition is_current_session :: "string \<Rightarrow> addr \<Rightarrow> ('f, 'ps) manager \<Rightarrow> bool" where
  "is_current_session pane a m \<longleftrightarrow> map_of (mg_sessions m) pane = Some a"

definition session_for_attach :: "string \<Rightarrow> ('f, 'ps) manager \<Rightarrow> addr option" where
  "session_for_attach pane m = map_of (mg_sessions m) pane"

definition insert_session :: "string \<Rightarrow> addr \<Rightarrow> ('f, 'ps) manager \<Rightarrow> bool \<times> ('f, 'ps) manager" where
  "insert_session pane a m =
     (if pane \<in> set (mg_reserved m) then (False, m)
      else if map_of (mg_sessions m) pane \<noteq> None then (False, m)
      else (True, m\<lparr>mg_unowned := al_del pane (mg_unowned m), mg_sessions := al_put pane a (mg_sessions m)\<rparr>))"

definition reserve_session :: "string \<Rightarrow> ('f, 'ps) manager \<Rightarrow> (string + unit) \<times> ('f, 'ps) manager" where
  "reserve_session pane m =
     (if map_of (mg_sessions m) pane \<noteq> None \<or> pane \<in> set (mg_reserved m)
      then (Inl ''session already exists'', m)
      else (Inr (), m\<lparr>mg_reserved := pane # mg_reserved m\<rparr>))"

text \<open>\<open>SessionReservation::publish\<close>; a reservation that is not published is given back when it is dropped.\<close>

definition drop_reservation :: "string \<Rightarrow> ('f, 'ps) manager \<Rightarrow> ('f, 'ps) manager" where
  "drop_reservation pane m = m\<lparr>mg_reserved := removeAll pane (mg_reserved m)\<rparr>"

definition publish_reserved :: "string \<Rightarrow> addr \<Rightarrow> ('f, 'ps) manager \<Rightarrow> bool \<times> ('f, 'ps) manager" where
  "publish_reserved pane a m =
     (if map_of (mg_sessions m) pane = None
      then (True, m\<lparr>mg_sessions := al_put pane a (mg_sessions m), mg_unowned := al_del pane (mg_unowned m),
                    mg_reserved := removeAll pane (mg_reserved m)\<rparr>)
      else (False, drop_reservation pane m))"

definition insert_tab_for_session ::
  "string \<Rightarrow> addr \<Rightarrow> string \<Rightarrow> 'f json \<Rightarrow> string \<Rightarrow> ('f, 'ps) manager \<Rightarrow> bool \<times> ('f, 'ps) manager" where
  "insert_tab_for_session pane a tab v active m =
     (if is_current_session pane a m then (True, update_layout tab v (Some active) m) else (False, m))"

subsection \<open>Taking a pane out of the tabs\<close>

record 'f layout_update =
  lu_tab :: string
  lu_layout :: "'f json"
  lu_active :: string

record 'f layout_changes =
  lc_closed :: "string list"
  lc_updates :: "'f layout_update list"

text \<open>What one tab becomes: untouched, emptied, or a new value, made of the layout and the active pane alone.\<close>

datatype 'f purged = Untouched | Emptied | Changed "'f json"

definition purge_entry :: "(nat \<Rightarrow> 'f) \<Rightarrow> string \<Rightarrow> 'f json \<Rightarrow> 'f purged" where
  "purge_entry recip pane v =
     (case layout_of v of
        None \<Rightarrow> Untouched
      | Some l \<Rightarrow>
          (case remove_pane_from_layout recip l pane of
             None \<Rightarrow> Emptied
           | Some l' \<Rightarrow>
               if l' = l then Untouched
               else
                 let leaves = collect_leaf_pane_ids l';
                     active = (case get_str v ''active_pane_id'' of
                                 Some a \<Rightarrow> if a \<in> set leaves then Some a else (case leaves of [] \<Rightarrow> None | p # _ \<Rightarrow> Some p)
                               | None \<Rightarrow> (case leaves of [] \<Rightarrow> None | p # _ \<Rightarrow> Some p)) in
                 Changed (case active of
                   None \<Rightarrow> mk_obj [(''layout'', l')]
                 | Some a \<Rightarrow> jset ''active_pane_id'' (JStr a) (mk_obj [(''layout'', l')]))))"

definition update_of :: "string \<Rightarrow> 'f json \<Rightarrow> 'f layout_update" where
  "update_of tab v =
     \<lparr>lu_tab = tab, lu_layout = (case layout_of v of Some l \<Rightarrow> l | None \<Rightarrow> JNull),
      lu_active = (case get_str v ''active_pane_id'' of Some a \<Rightarrow> a | None \<Rightarrow> [])\<rparr>"

definition purge_pane_from_layouts ::
  "(nat \<Rightarrow> 'f) \<Rightarrow> string \<Rightarrow> bool \<Rightarrow> ('f, 'ps) manager \<Rightarrow> 'f layout_changes \<times> ('f, 'ps) manager" where
  "purge_pane_from_layouts recip pane skip m =
     (let entries = filter (\<lambda>(tab, _). \<not> (skip \<and> tab = pane)) (mg_layouts m);
          emptied = map fst (filter (\<lambda>(_, v). purge_entry recip pane v = Emptied) entries);
          updates = all_some (map (\<lambda>(tab, v). case purge_entry recip pane v of Changed v' \<Rightarrow> Some (tab, v') | _ \<Rightarrow> None) entries);
          m1 = fold (\<lambda>(tab, v). insert_tab tab v) updates m;
          m2 = fold (\<lambda>tab m. snd (remove_tab tab m)) emptied m1 in
      (\<lparr>lc_closed = emptied, lc_updates = map (\<lambda>(tab, v). update_of tab v) updates\<rparr>, m2))"

definition broadcast_layout_changes :: "'f layout_changes \<Rightarrow> ('f, 'ps) manager \<Rightarrow> ('f, 'ps) manager" where
  "broadcast_layout_changes ch m =
     fold (\<lambda>u. broadcast_sync (LayoutUpdated (lu_tab u) (lu_layout u) (lu_active u))) (lc_updates ch)
       (fold (\<lambda>tab. broadcast_sync (TabClosed tab)) (lc_closed ch) m)"

definition recheck_publish_or_correct :: "(nat \<Rightarrow> 'f) \<Rightarrow> string \<Rightarrow> addr \<Rightarrow> ('f, 'ps) manager \<Rightarrow> ('f, 'ps) manager" where
  "recheck_publish_or_correct recip pane a m =
     (if is_current_session pane a m then m
      else let (ch, m1) = purge_pane_from_layouts recip pane True m in broadcast_layout_changes ch m1)"

definition on_pty_exited :: "(nat \<Rightarrow> 'f) \<Rightarrow> string \<Rightarrow> ('f, 'ps) manager \<Rightarrow> string option \<times> ('f, 'ps) manager" where
  "on_pty_exited recip pane m =
     (let (ch, m1) = purge_pane_from_layouts recip pane False m;
          m2 = fold (\<lambda>u. broadcast_sync (LayoutUpdated (lu_tab u) (lu_layout u) (lu_active u))) (lc_updates ch) m1 in
      (case lc_closed ch of [] \<Rightarrow> None | t # _ \<Rightarrow> Some t, m2))"

definition collect_layout_close ::
  "(nat \<Rightarrow> 'f) \<Rightarrow> string \<Rightarrow> bool \<Rightarrow> ('f, 'ps) manager \<Rightarrow> 'f layout_changes \<times> ('f, 'ps) manager" where
  "collect_layout_close recip pane fallback m =
     (let (ch, m1) = purge_pane_from_layouts recip pane False m;
          ch' = (if fallback \<and> lc_closed ch = [] \<and> lc_updates ch = [] then ch\<lparr>lc_closed := [pane]\<rparr> else ch) in
      (ch', if mg_active m1 = Some pane then m1\<lparr>mg_active := None\<rparr> else m1))"

subsection \<open>Closing a session\<close>

record 'f close_plan =
  cp_session :: addr
  cp_changes :: "'f layout_changes"

definition remove_session ::
  "(nat \<Rightarrow> 'f) \<Rightarrow> string \<Rightarrow> addr option \<Rightarrow> ('f, 'ps) manager \<Rightarrow> 'f close_plan option \<times> ('f, 'ps) manager" where
  "remove_session recip pane expected m =
     (case map_of (mg_sessions m) pane of
        None \<Rightarrow> (None, m)
      | Some a \<Rightarrow>
          if expected \<noteq> None \<and> expected \<noteq> Some a then (None, m)
          else
            let m1 = m\<lparr>mg_sessions := al_del pane (mg_sessions m), mg_unowned := al_del pane (mg_unowned m)\<rparr>;
                (ch, m2) = collect_layout_close recip pane True m1 in
            (Some \<lparr>cp_session = a, cp_changes = ch\<rparr>, m2))"

text \<open>What the operating system answers while a session is closed.\<close>

record close_env =
  ev_held :: bool
  ev_waited :: bool
  ev_exited :: bool
  ev_os :: os
  ev_self :: nat
  ev_flock :: "nat \<Rightarrow> flock_result"
  ev_io :: "string option"

text \<open>\<open>Session::natural_exit_confirmed\<close>.\<close>

definition natural_exit_confirmed :: "close_env \<Rightarrow> string \<Rightarrow> ledger_file \<Rightarrow> 'ps session \<Rightarrow> world \<Rightarrow> bool \<times> world" where
  "natural_exit_confirmed ev pane lf s w =
     (if ev_held ev then (False, w)
      else
        case se_backend s of
          LocalPty p \<Rightarrow> if ev_exited ev then termination_confirmed (ev_flock ev) (ev_os ev) (ev_self ev) pane lf w else (False, w)
        | _ \<Rightarrow> termination_confirmed (ev_flock ev) (ev_os ev) (ev_self ev) pane lf w)"

definition on_hosted :: "addr \<Rightarrow> ('ps hosted \<Rightarrow> 'ps hosted) \<Rightarrow> ('f, 'ps) manager \<Rightarrow> ('f, 'ps) manager" where
  "on_hosted a f m = m\<lparr>mg_store := (mg_store m)(a := f (mg_store m a))\<rparr>"

definition confirm_termination :: "close_env \<Rightarrow> string \<Rightarrow> close_reason \<Rightarrow> bool \<Rightarrow> addr \<Rightarrow> ('f, 'ps) manager \<Rightarrow> bool \<times> ('f, 'ps) manager" where
  "confirm_termination ev pane reason kills a m =
     (let s = hs_session (mg_store m a) in
      if kills then
        let (ok, s') = kill_child_and_confirm (ev_held ev) (ev_waited ev) s in
        (ok, on_hosted a (\<lambda>h. h\<lparr>hs_session := s'\<rparr>) m)
      else if reason = NaturalExit then
        let (ok, w) = natural_exit_confirmed ev pane (mg_ledger m) s (mg_world m) in (ok, m\<lparr>mg_world := w\<rparr>)
      else (False, m))"

definition forget_process :: "close_env \<Rightarrow> string \<Rightarrow> ('f, 'ps) manager \<Rightarrow> ('f, 'ps) manager" where
  "forget_process ev pane m =
     (let (r, lf, w) = remove_entry (ev_flock ev) (ev_io ev) (ev_os ev) (ev_self ev) pane (mg_ledger m) (mg_world m) in
      m\<lparr>mg_ledger := lf, mg_world := w\<rparr>)"

definition pane_closed_notify :: "string \<Rightarrow> ('f, 'ps) manager \<Rightarrow> ('f, 'ps) manager" where
  "pane_closed_notify pane m = m\<lparr>mg_closed_panes := mg_closed_panes m @ [pane]\<rparr>"

definition execute_close_plan ::
  "close_env \<Rightarrow> string \<Rightarrow> close_reason \<Rightarrow> bool \<Rightarrow> int option \<Rightarrow> 'f close_plan \<Rightarrow> ('f, 'ps) manager \<Rightarrow> ('f, 'ps) manager" where
  "execute_close_plan ev pane reason kills code plan m =
     (let a = cp_session plan;
          (confirmed, m1) = confirm_termination ev pane reason kills a m;
          m2 = (if confirmed then forget_process ev pane m1 else m1);
          m3 = on_hosted a (\<lambda>h. h\<lparr>hs_input_open := False, hs_output := hs_output h @ [[]],
                 hs_session := snd (notify_exit_and_mark_exited pane code (hs_session h))\<rparr>) m2;
          m4 = publish_bus (Some (SessionClosedEv pane code)) (pane_closed_notify pane m3);
          m5 = broadcast_layout_changes (cp_changes plan) m4;
          m6 = on_hosted a (\<lambda>h. h\<lparr>hs_on_exit := False\<rparr>) m5 in
      if hs_on_exit (mg_store m5 a) then m6\<lparr>mg_exit_calls := mg_exit_calls m6 @ [(pane, code)]\<rparr> else m6)"

definition close_with ::
  "(nat \<Rightarrow> 'f) \<Rightarrow> close_env \<Rightarrow> string \<Rightarrow> addr option \<Rightarrow> close_reason \<Rightarrow> bool \<Rightarrow> int option \<Rightarrow> ('f, 'ps) manager \<Rightarrow> bool \<times> ('f, 'ps) manager" where
  "close_with recip ev pane expected reason kills code m =
     (case remove_session recip pane expected m of
        (None, m1) \<Rightarrow> (False, m1)
      | (Some plan, m1) \<Rightarrow> (True, execute_close_plan ev pane reason kills code plan m1))"

definition close_session ::
  "(nat \<Rightarrow> 'f) \<Rightarrow> close_env \<Rightarrow> string \<Rightarrow> close_reason \<Rightarrow> bool \<Rightarrow> int option \<Rightarrow> ('f, 'ps) manager \<Rightarrow> bool \<times> ('f, 'ps) manager" where
  "close_session recip ev pane reason kills code = close_with recip ev pane None reason kills code"

definition kill_and_remove :: "(nat \<Rightarrow> 'f) \<Rightarrow> close_env \<Rightarrow> string \<Rightarrow> ('f, 'ps) manager \<Rightarrow> bool \<times> ('f, 'ps) manager" where
  "kill_and_remove recip ev pane = close_session recip ev pane Explicit True None"

definition close_session_for_session ::
  "(nat \<Rightarrow> 'f) \<Rightarrow> close_env \<Rightarrow> string \<Rightarrow> addr \<Rightarrow> close_reason \<Rightarrow> bool \<Rightarrow> int option \<Rightarrow> ('f, 'ps) manager \<Rightarrow> bool \<times> ('f, 'ps) manager" where
  "close_session_for_session recip ev pane a reason kills code = close_with recip ev pane (Some a) reason kills code"

definition close_pane :: "(nat \<Rightarrow> 'f) \<Rightarrow> close_env \<Rightarrow> string \<Rightarrow> ('f, 'ps) manager \<Rightarrow> bool \<times> ('f, 'ps) manager" where
  "close_pane recip ev pane m =
     (case remove_session recip pane None m of
        (Some plan, m1) \<Rightarrow> (True, execute_close_plan ev pane Explicit True None plan m1)
      | (None, m1) \<Rightarrow>
          let (ch, m2) = collect_layout_close recip pane False m1 in
          if lc_closed ch = [] \<and> lc_updates ch = [] then (False, m2)
          else (True, broadcast_layout_changes ch m2))"

subsection \<open>A tab for a session without one\<close>

definition terminal_leaf :: "string \<Rightarrow> string \<Rightarrow> 'f json" where
  "terminal_leaf pane shell =
     mk_obj [(''type'', JStr ''leaf''), (''paneId'', JStr pane), (''title'', JStr ''Terminal''),
       (''shell_type'', JStr shell), (''ratio'', JInt 1), (''zoomed'', JBool False)]"

text \<open>\<open>other0\<close> to \<open>other2\<close>: what other tasks do between the checks, the insertion and the announcement.\<close>

definition register_singleton_tab ::
  "(('f, 'ps) manager \<Rightarrow> ('f, 'ps) manager) \<Rightarrow> (('f, 'ps) manager \<Rightarrow> ('f, 'ps) manager) \<Rightarrow>
     (('f, 'ps) manager \<Rightarrow> ('f, 'ps) manager) \<Rightarrow> string \<Rightarrow> addr \<Rightarrow> string \<Rightarrow> ('f, 'ps) manager \<Rightarrow> bool \<times> ('f, 'ps) manager" where
  "register_singleton_tab other0 other1 other2 pane a shell m =
     (if \<not> is_current_session pane a m \<or> pane_is_referenced pane m then (False, m)
      else
        let layout = terminal_leaf pane shell;
            m1 = other1 (insert_tab pane (mk_obj [(''layout'', layout), (''active_pane_id'', JStr pane)]) (other0 m)) in
        if \<not> is_current_session pane a m1 then (False, snd (remove_tab pane m1))
        else
          let m2 = other2 (broadcast_sync (TabCreated pane pane (Some layout) None None None) m1) in
          if is_current_session pane a m2 then (True, m2) else (False, broadcast_sync (TabClosed pane) m2))"

subsection \<open>The list of tabs\<close>

definition stale_tab :: "('f, 'ps) manager \<Rightarrow> 'f json \<Rightarrow> bool" where
  "stale_tab m v \<longleftrightarrow>
     (case layout_of v of
        None \<Rightarrow> False
      | Some l \<Rightarrow> collect_leaf_pane_ids l = [] \<or>
          list_ex (\<lambda>p. map_of (mg_sessions m) p = None) (collect_terminal_leaf_pane_ids l))"

definition tab_info_of :: "('f, 'ps) manager \<Rightarrow> string \<Rightarrow> 'f json \<Rightarrow> 'f tab_info" where
  "tab_info_of m tab v =
     (let layout = map_option ensure_leaf_kind (layout_of v);
          pane = (case layout \<bind> first_leaf_id of Some p \<Rightarrow> p | None \<Rightarrow> tab);
          host = map_option (mg_store m) (map_of (mg_sessions m) pane) in
      \<lparr>ti_tab = tab, ti_pane = pane, ti_layout = layout, ti_active = get_str v ''active_pane_id'',
        ti_cwd = host \<bind> hs_cwd, ti_connection = host \<bind> hs_profile, ti_workspace = host \<bind> hs_workspace,
        ti_title = get_str v ''title''\<rparr>)"

fun position :: "string \<Rightarrow> string list \<Rightarrow> nat option" where
  "position t [] = None"
| "position t (x # xs) = (if x = t then Some 0 else map_option Suc (position t xs))"

text \<open>\<open>sort_by_key\<close> is stable; a tab that is not in the order comes last.\<close>

definition order_key :: "string list \<Rightarrow> string \<Rightarrow> nat" where
  "order_key order t = (case position t order of Some i \<Rightarrow> i | None \<Rightarrow> u64_limit - 1)"

definition tab_list :: "('f, 'ps) manager \<Rightarrow> ('f tab_info list \<times> string option) \<times> ('f, 'ps) manager" where
  "tab_list m =
     (let stale = map fst (filter (\<lambda>(_, v). stale_tab m v) (mg_layouts m));
          m1 = fold (\<lambda>tab m. snd (remove_tab tab m)) stale m;
          tabs = map (\<lambda>(tab, v). tab_info_of m1 tab v) (mg_layouts m1) in
      ((sort_key (\<lambda>i. order_key (mg_order m1) (ti_tab i)) tabs, mg_active m1), m1))"

subsection \<open>Reaping\<close>

definition SESSION_UNOWNED_GRACE :: nat where
  "SESSION_UNOWNED_GRACE = from_secs 60"

record reap_stats =
  rp_total :: nat
  rp_referenced :: nat
  rp_grace :: nat

fun reconcile_loop ::
  "string list \<Rightarrow> instant \<Rightarrow> string list \<Rightarrow> reap_stats \<times> (string \<times> instant) list \<times> (string, instant) amap \<Rightarrow>
     reap_stats \<times> (string \<times> instant) list \<times> (string, instant) amap" where
  "reconcile_loop refs now [] acc = acc"
| "reconcile_loop refs now (p # ps) (st, found, us) =
     (if p \<in> set refs
      then reconcile_loop refs now ps (st\<lparr>rp_referenced := Suc (rp_referenced st)\<rparr>, found, al_del p us)
      else
        let since = (case map_of us p of Some t \<Rightarrow> t | None \<Rightarrow> now);
            us' = (case map_of us p of Some t \<Rightarrow> us | None \<Rightarrow> al_put p now us);
            st' = (if duration_since now since < SESSION_UNOWNED_GRACE then st\<lparr>rp_grace := Suc (rp_grace st)\<rparr> else st) in
        reconcile_loop refs now ps (st', found @ [(p, since)], us'))"

definition reconcile_unowned_since ::
  "string list \<Rightarrow> string list \<Rightarrow> (string, instant) amap \<Rightarrow> instant \<Rightarrow>
     reap_stats \<times> (string \<times> instant) list \<times> (string, instant) amap" where
  "reconcile_unowned_since ids refs us now =
     reconcile_loop refs now ids
       (\<lparr>rp_total = length ids, rp_referenced = 0, rp_grace = 0\<rparr>, [], filter (\<lambda>(p, _). p \<in> set ids) us)"

definition scan_unowned_sessions ::
  "instant \<Rightarrow> ('f, 'ps) manager \<Rightarrow> reap_stats \<times> (string \<times> addr \<times> instant) list \<times> ('f, 'ps) manager" where
  "scan_unowned_sessions now m =
     (let (st, found, us) = reconcile_unowned_since (map fst (mg_sessions m)) (referenced_pane_ids m) (mg_unowned m) now in
      (st, all_some (map (\<lambda>(p, since). map_option (\<lambda>a. (p, a, since)) (map_of (mg_sessions m) p)) found),
       m\<lparr>mg_unowned := us\<rparr>))"

definition connected :: "addr \<Rightarrow> ('f, 'ps) manager \<Rightarrow> bool" where
  "connected a m = se_is_connected (hs_session (mg_store m a))"

definition try_reap_session ::
  "(nat \<Rightarrow> 'f) \<Rightarrow> close_env \<Rightarrow> instant \<Rightarrow> string \<Rightarrow> addr \<Rightarrow> ('f, 'ps) manager \<Rightarrow> bool \<times> ('f, 'ps) manager" where
  "try_reap_session recip ev now pane a m =
     (if pane_is_referenced pane m then (False, m\<lparr>mg_unowned := al_del pane (mg_unowned m)\<rparr>)
      else
        let since = (case map_of (mg_unowned m) pane of Some t \<Rightarrow> t | None \<Rightarrow> now);
            m1 = (case map_of (mg_unowned m) pane of
                    Some t \<Rightarrow> m | None \<Rightarrow> m\<lparr>mg_unowned := al_put pane now (mg_unowned m)\<rparr>) in
        if duration_since now since < SESSION_UNOWNED_GRACE \<or> connected a m1 then (False, m1)
        else close_with recip ev pane (Some a) Reaped True None m1)"

text \<open>One tick of the clean-up task; every reap reads the clock again.\<close>

definition reap_candidates :: "instant \<Rightarrow> (string \<times> addr \<times> instant) list \<Rightarrow> ('f, 'ps) manager \<Rightarrow> (string \<times> addr) list" where
  "reap_candidates now found m =
     map (\<lambda>(p, a, _). (p, a))
       (filter (\<lambda>(_, a, since). SESSION_UNOWNED_GRACE \<le> duration_since now since \<and> \<not> connected a m) found)"

fun reap_all ::
  "(nat \<Rightarrow> 'f) \<Rightarrow> (nat \<Rightarrow> close_env) \<Rightarrow> (nat \<Rightarrow> instant) \<Rightarrow> (string \<times> addr) list \<Rightarrow> nat \<Rightarrow> ('f, 'ps) manager \<Rightarrow> nat \<times> ('f, 'ps) manager" where
  "reap_all recip ev clock [] n m = (n, m)"
| "reap_all recip ev clock ((p, a) # rest) n m =
     (let (ok, m1) = try_reap_session recip (ev (length rest)) (clock (length rest)) p a m in
      reap_all recip ev clock rest (if ok then Suc n else n) m1)"

definition cleanup_tick ::
  "(nat \<Rightarrow> 'f) \<Rightarrow> (nat \<Rightarrow> close_env) \<Rightarrow> instant \<Rightarrow> (nat \<Rightarrow> instant) \<Rightarrow> ('f, 'ps) manager \<Rightarrow> nat \<times> ('f, 'ps) manager" where
  "cleanup_tick recip ev now clock m =
     (let (st, found, m1) = scan_unowned_sessions now m in
      reap_all recip ev clock (reap_candidates now found m1) 0 m1)"

end
