(* ===== verification/Workspaces.thy ===== *)
theory Workspaces
  imports ManagerCore
begin

section \<open>Workspaces\<close>

text \<open>
  \<open>workspace_mgmt/mod.rs\<close>: the list of workspaces, the checks on their paths, colours and
  abbreviations, the handlers with the messages they broadcast, and the attribution of a tab to a
  workspace. Path resolution, the directory test and uuids are parameters; \<open>save\<close> says whether a
  write to disk succeeds (failures are only logged).
\<close>

subsection \<open>Colours and abbreviations\<close>

definition WORKSPACE_PALETTE :: "rstring list" where
  "WORKSPACE_PALETTE =
     map lit [''#E06C75'', ''#D19A66'', ''#E5C07B'', ''#98C379'', ''#56B6C2'', ''#61AFEF'', ''#C678DD'']"

fun fnv1a_loop :: "u32 \<Rightarrow> u8 list \<Rightarrow> u32" where
  "fnv1a_loop h [] = h"
| "fnv1a_loop h (b # bs) = fnv1a_loop (xor h (ucast b) * 0x01000193) bs"

definition fnv1a32 :: "rstring \<Rightarrow> u32" where
  "fnv1a32 s = fnv1a_loop 0x811c9dc5 (str_bytes s)"

definition palette_color_for :: "rstring \<Rightarrow> rstring" where
  "palette_color_for i = WORKSPACE_PALETTE ! unat (fnv1a32 i mod 7)"

text \<open>\<open>char::is_control\<close> is the general category Cc.\<close>

definition is_control :: "rchar \<Rightarrow> bool" where
  "is_control c \<longleftrightarrow> c < 32 \<or> (127 \<le> c \<and> c < 160)"

definition is_meaningless_char :: "rchar \<Rightarrow> bool" where
  "is_meaningless_char c \<longleftrightarrow> is_control c \<or> is_whitespace c \<or> c \<in> {0x200B, 0x200C, 0x200D, 0x2060, 0xFEFF}"

definition normalize_abbr :: "rstring \<Rightarrow> rstring option" where
  "normalize_abbr raw =
     (let n = take 3 (filter (\<lambda>c. \<not> is_meaningless_char c) raw) in if n = [] then None else Some n)"

definition is_ascii_hexdigit :: "rchar \<Rightarrow> bool" where
  "is_ascii_hexdigit c \<longleftrightarrow> (48 \<le> c \<and> c \<le> 57) \<or> (65 \<le> c \<and> c \<le> 70) \<or> (97 \<le> c \<and> c \<le> 102)"

definition is_valid_hex6 :: "rstring \<Rightarrow> bool" where
  "is_valid_hex6 s \<longleftrightarrow> byte_len s = 7 \<and> (case s of [] \<Rightarrow> False | c # cs \<Rightarrow> c = 35 \<and> list_all is_ascii_hexdigit cs)"

text \<open>\<open>to_uppercase\<close>, used on ASCII text only.\<close>

definition to_ascii_upper :: "rchar \<Rightarrow> rchar" where
  "to_ascii_upper c = (if 97 \<le> c \<and> c \<le> 122 then c - 32 else c)"

definition normalize_color :: "rstring \<Rightarrow> rstring option" where
  "normalize_color raw = (if is_valid_hex6 raw then Some (map to_ascii_upper raw) else None)"

definition needs_color :: "workspace \<Rightarrow> bool" where
  "needs_color w \<longleftrightarrow> (case ws_color w of None \<Rightarrow> True | Some c \<Rightarrow> \<not> is_valid_hex6 c)"

definition migrate_colors :: "workspace list \<Rightarrow> bool \<times> workspace list" where
  "migrate_colors ws =
     (list_ex needs_color ws,
      map (\<lambda>w. if needs_color w then w\<lparr>ws_color := Some (palette_color_for (ws_id w))\<rparr> else w) ws)"

subsection \<open>Paths\<close>

text \<open>\<open>Path::components\<close> of a Unix path, without the root: empty parts and \<open>.\<close> do not count.\<close>

definition path_parts :: "rstring \<Rightarrow> rstring list" where
  "path_parts p = filter (\<lambda>c. c \<noteq> [] \<and> c \<noteq> [46]) (split_on 47 p)"

definition is_absolute :: "rstring \<Rightarrow> bool" where
  "is_absolute p \<longleftrightarrow> starts_with p [47]"

definition trim_end_slashes :: "rstring \<Rightarrow> rstring" where
  "trim_end_slashes p = rev (dropWhile (\<lambda>c. c = 47) (rev p))"

definition SENSITIVE_DIRS :: "rstring list" where
  "SENSITIVE_DIRS = map lit [''/'', ''/etc'', ''/sys'', ''/proc'', ''/dev'', ''/bin'', ''/sbin'', ''/usr'']"

text \<open>\<open>Path::starts_with\<close> and equality of paths compare components.\<close>

definition path_within :: "rstring \<Rightarrow> rstring \<Rightarrow> bool" where
  "path_within p dir \<longleftrightarrow> is_absolute p = is_absolute dir \<and> take (length (path_parts dir)) (path_parts p) = path_parts dir"

definition path_eq :: "rstring \<Rightarrow> rstring \<Rightarrow> bool" where
  "path_eq p q \<longleftrightarrow> is_absolute p = is_absolute q \<and> path_parts p = path_parts q"

definition is_sensitive :: "rstring \<Rightarrow> bool" where
  "is_sensitive p \<longleftrightarrow> list_ex (\<lambda>s. s \<noteq> [47] \<and> (path_eq p s \<or> path_within p s)) SENSITIVE_DIRS"

definition is_sensitive_workspace_target :: "rstring \<Rightarrow> bool" where
  "is_sensitive_workspace_target p \<longleftrightarrow> path_eq p [47] \<or> is_sensitive p"

definition validate_workspace_path :: "(rstring \<Rightarrow> string + rstring) \<Rightarrow> (rstring \<Rightarrow> bool) \<Rightarrow> rstring \<Rightarrow> string + rstring" where
  "validate_workspace_path canon is_dir path =
     (let t = trim path in
      if t = [] then Inl ''path cannot be empty''
      else if \<not> is_absolute t then Inl ''path must be absolute''
      else
        let raw = trim_end_slashes t; raw = (if raw = [] then [47] else raw) in
        if is_sensitive_workspace_target raw then Inl ''cannot use sensitive system directory''
        else case canon t of
          Inl e \<Rightarrow> Inl (''invalid path: '' @ e)
        | Inr c \<Rightarrow>
            if \<not> is_dir c then Inl ''path is not a directory''
            else if is_sensitive_workspace_target c then Inl ''cannot use sensitive system directory''
            else Inr c)"

text \<open>\<open>Path::file_name\<close>: the last component, unless it is \<open>..\<close>.\<close>

definition file_name :: "rstring \<Rightarrow> rstring option" where
  "file_name p = (case rev (path_parts p) of [] \<Rightarrow> None | c # _ \<Rightarrow> if c = [46, 46] then None else Some c)"

definition derive_name :: "rstring \<Rightarrow> rstring" where
  "derive_name p = (case file_name (trim_end_slashes p) of Some n \<Rightarrow> n | None \<Rightarrow> lit ''root'')"

subsection \<open>The workspace of a tab\<close>

definition cwd_in :: "rstring \<Rightarrow> rstring \<Rightarrow> bool" where
  "cwd_in cwd path \<longleftrightarrow> cwd = path \<or> (starts_with cwd path \<and> (case drop (length path) cwd of c # _ \<Rightarrow> c = 47 | [] \<Rightarrow> False))"

fun best_workspace :: "rstring \<Rightarrow> workspace list \<Rightarrow> workspace option \<Rightarrow> nat \<Rightarrow> workspace option" where
  "best_workspace cwd [] best len = best"
| "best_workspace cwd (w # ws) best len =
     (if ws_connection w \<noteq> None then best_workspace cwd ws best len
      else
        let path = trim_end_slashes (ws_path w) in
        if path = [] then best_workspace cwd ws best len
        else if cwd_in cwd path \<and> len < byte_len path then best_workspace cwd ws (Some w) (byte_len path)
        else best_workspace cwd ws best len)"

definition tab_workspace_id :: "workspace list \<Rightarrow> rstring option \<Rightarrow> string option \<Rightarrow> rstring option" where
  "tab_workspace_id wss cwd connection =
     (case connection of
        Some c \<Rightarrow> map_option ws_id (find (\<lambda>w. ws_connection w = Some c) wss)
      | None \<Rightarrow>
          (case cwd of
             None \<Rightarrow> None
           | Some d \<Rightarrow> if d = [] then None else map_option ws_id (best_workspace d wss None 0)))"

subsection \<open>State and requests\<close>

record ('f, 'ps) ws_state =
  wk_list :: "workspace list"
  wk_disk :: "workspace list"
  wk_active :: "rstring option"
  wk_active_disk :: "rstring option"
  wk_mgr :: "('f, 'ps) manager"

record create_req =
  cr_path :: rstring
  cr_name :: "rstring option"
  cr_connection :: "string option"
  cr_abbr :: "rstring option"
  cr_color :: "rstring option"

record update_req =
  up_name :: "rstring option"
  up_path :: "rstring option"
  up_connection :: "string option"
  up_abbr :: "rstring option"
  up_color :: "rstring option"

datatype ws_response = WCreated workspace | WUpdated workspace | WOk | WBad string | WConflict | WNotFound

definition save_workspaces :: "bool \<Rightarrow> ('f, 'ps) ws_state \<Rightarrow> ('f, 'ps) ws_state" where
  "save_workspaces save st = (if save then st\<lparr>wk_disk := wk_list st\<rparr> else st)"

definition save_settings :: "bool \<Rightarrow> ('f, 'ps) ws_state \<Rightarrow> ('f, 'ps) ws_state" where
  "save_settings save st = (if save then st\<lparr>wk_active_disk := wk_active st\<rparr> else st)"

definition tell :: "'f sync_msg \<Rightarrow> ('f, 'ps) ws_state \<Rightarrow> ('f, 'ps) ws_state" where
  "tell msg st = st\<lparr>wk_mgr := broadcast_sync msg (wk_mgr st)\<rparr>"

text \<open>\<open>file\<close>: what the file parses to, if it exists and parses; \<open>simplified\<close> is \<open>dunce::simplified\<close>.\<close>

definition simplify_local_workspace_paths :: "(rstring \<Rightarrow> rstring) \<Rightarrow> workspace list \<Rightarrow> workspace list" where
  "simplify_local_workspace_paths simplified =
     map (\<lambda>w. if ws_connection w = None then w\<lparr>ws_path := simplified (ws_path w)\<rparr> else w)"

definition load_workspaces :: "(rstring \<Rightarrow> rstring) \<Rightarrow> bool \<Rightarrow> workspace list option \<Rightarrow> workspace list \<times> workspace list option" where
  "load_workspaces simplified save file =
     (case file of
        None \<Rightarrow> ([], file)
      | Some ws0 \<Rightarrow>
          let (changed, ws) = migrate_colors (simplify_local_workspace_paths simplified ws0) in
          (ws, if changed \<and> save then Some ws else file))"

subsection \<open>Handlers\<close>

definition given_name :: "rstring option \<Rightarrow> rstring \<Rightarrow> rstring" where
  "given_name name path = (case name of Some n \<Rightarrow> if trim n = [] then derive_name path else n | None \<Rightarrow> derive_name path)"

definition create_workspace ::
  "(rstring \<Rightarrow> string + rstring) \<Rightarrow> (rstring \<Rightarrow> bool) \<Rightarrow> rstring \<Rightarrow> bool \<Rightarrow> create_req \<Rightarrow> ('f, 'ps) ws_state \<Rightarrow>
     ws_response \<times> ('f, 'ps) ws_state" where
  "create_workspace canon is_dir uuid save req st =
     (let path = (if cr_connection req \<noteq> None then
                    (let p = trim (cr_path req) in if p = [] then Inl ''path cannot be empty'' else Inr p)
                  else validate_workspace_path canon is_dir (cr_path req)) in
      case path of
        Inl e \<Rightarrow> (WBad e, st)
      | Inr p \<Rightarrow>
          let name = given_name (cr_name req) p in
          if list_ex (\<lambda>w. ws_path w = p \<and> ws_connection w = cr_connection req) (wk_list st) then (WConflict, st)
          else
            let color = (case cr_color req \<bind> normalize_color of Some c \<Rightarrow> c | None \<Rightarrow> palette_color_for uuid);
                w = \<lparr>ws_id = uuid, ws_name = name, ws_path = p, ws_order = of_nat (length (wk_list st)),
                     ws_connection = cr_connection req, ws_abbr = cr_abbr req \<bind> normalize_abbr, ws_color = Some color\<rparr>;
                st1 = save_workspaces save (st\<lparr>wk_list := wk_list st @ [w]\<rparr>) in
            (WCreated w, tell (WorkspaceCreated w) st1))"

fun ws_index :: "rstring \<Rightarrow> workspace list \<Rightarrow> nat option" where
  "ws_index i [] = None"
| "ws_index i (w # ws) = (if ws_id w = i then Some 0 else map_option Suc (ws_index i ws))"

text \<open>The checks on a new path; the connection of the request has been stored by then.\<close>

definition updated_path ::
  "(rstring \<Rightarrow> string + rstring) \<Rightarrow> (rstring \<Rightarrow> bool) \<Rightarrow> rstring \<Rightarrow> nat \<Rightarrow> workspace list \<Rightarrow> ws_response + rstring" where
  "updated_path canon is_dir new idx ws =
     (let others = (\<lambda>P. list_ex (\<lambda>i. i \<noteq> idx \<and> P (ws ! i)) [0..<length ws]) in
      if ws_connection (ws ! idx) \<noteq> None then
        (let p = trim new in
         if p = [] then Inl (WBad ''path cannot be empty'')
         else if others (\<lambda>w. ws_path w = p \<and> ws_connection w = ws_connection (ws ! idx)) then Inl WConflict
         else Inr p)
      else
        (case validate_workspace_path canon is_dir new of
           Inl e \<Rightarrow> Inl (WBad e)
         | Inr p \<Rightarrow> if others (\<lambda>w. ws_path w = p) then Inl WConflict else Inr p))"

definition apply_update :: "update_req \<Rightarrow> workspace \<Rightarrow> workspace" where
  "apply_update req w0 =
     (let w1 = (case up_name req of Some n \<Rightarrow> if trim n = [] then w0 else w0\<lparr>ws_name := trim n\<rparr> | None \<Rightarrow> w0);
          w2 = (case up_abbr req of Some a \<Rightarrow> w1\<lparr>ws_abbr := normalize_abbr a\<rparr> | None \<Rightarrow> w1) in
      case up_color req of
        Some c \<Rightarrow> w2\<lparr>ws_color := Some (case normalize_color c of Some x \<Rightarrow> x | None \<Rightarrow> palette_color_for (ws_id w2))\<rparr>
      | None \<Rightarrow> w2)"

definition with_connection :: "update_req \<Rightarrow> workspace \<Rightarrow> workspace" where
  "with_connection req w = (case up_connection req of Some c \<Rightarrow> w\<lparr>ws_connection := Some c\<rparr> | None \<Rightarrow> w)"

definition update_workspace ::
  "(rstring \<Rightarrow> string + rstring) \<Rightarrow> (rstring \<Rightarrow> bool) \<Rightarrow> bool \<Rightarrow> rstring \<Rightarrow> update_req \<Rightarrow> ('f, 'ps) ws_state \<Rightarrow>
     ws_response \<times> ('f, 'ps) ws_state" where
  "update_workspace canon is_dir save i req st =
     (case ws_index i (wk_list st) of
        None \<Rightarrow> (WNotFound, st)
      | Some idx \<Rightarrow>
          let w1 = with_connection req (wk_list st ! idx);
              ws1 = (wk_list st)[idx := w1];
              st1 = st\<lparr>wk_list := ws1\<rparr>;
              path = (case up_path req of
                        None \<Rightarrow> Inr w1
                      | Some new \<Rightarrow>
                          (case updated_path canon is_dir new idx ws1 of
                             Inl r \<Rightarrow> Inl r
                           | Inr p \<Rightarrow>
                               let w2 = w1\<lparr>ws_path := p\<rparr> in
                               Inr (if up_name req = None then w2\<lparr>ws_name := derive_name p\<rparr> else w2))) in
          case path of
            Inl r \<Rightarrow> (r, st1)
          | Inr w2 \<Rightarrow>
              let w = apply_update req w2;
                  st2 = save_workspaces save (st1\<lparr>wk_list := ws1[idx := w]\<rparr>) in
              (WUpdated w, tell (WorkspaceUpdated w) st2))"

definition renumber :: "workspace list \<Rightarrow> workspace list" where
  "renumber ws = map (\<lambda>(i, w). w\<lparr>ws_order := of_nat i\<rparr>) (enumerate 0 ws)"

definition delete_workspace :: "bool \<Rightarrow> bool \<Rightarrow> rstring \<Rightarrow> ('f, 'ps) ws_state \<Rightarrow> ws_response \<times> ('f, 'ps) ws_state" where
  "delete_workspace save save2 i st =
     (case ws_index i (wk_list st) of
        None \<Rightarrow> (WNotFound, st)
      | Some idx \<Rightarrow>
          let st1 = save_workspaces save (st\<lparr>wk_list := renumber (take idx (wk_list st) @ drop (Suc idx) (wk_list st))\<rparr>);
              st2 = (if wk_active st1 = Some i then save_settings save2 (st1\<lparr>wk_active := None\<rparr>) else st1) in
          (WOk, tell (WorkspaceDeleted i) st2))"

definition activate_workspace :: "bool \<Rightarrow> rstring \<Rightarrow> ('f, 'ps) ws_state \<Rightarrow> ws_response \<times> ('f, 'ps) ws_state" where
  "activate_workspace save i st =
     (WOk, tell (WorkspaceActivated (Some i)) (save_settings save (st\<lparr>wk_active := Some i\<rparr>)))"

definition deactivate_workspace :: "bool \<Rightarrow> ('f, 'ps) ws_state \<Rightarrow> ws_response \<times> ('f, 'ps) ws_state" where
  "deactivate_workspace save st =
     (WOk, tell (WorkspaceActivated None) (save_settings save (st\<lparr>wk_active := None\<rparr>)))"

text \<open>The workspace named by the \<open>n\<close>-th id of the request gets order \<open>n\<close>; the sort is stable.\<close>

fun assign_orders :: "nat \<Rightarrow> rstring list \<Rightarrow> workspace list \<Rightarrow> workspace list" where
  "assign_orders n [] ws = ws"
| "assign_orders n (i # ids) ws =
     assign_orders (Suc n) ids (update_first (\<lambda>w. ws_id w = i) (\<lambda>w. w\<lparr>ws_order := of_nat n\<rparr>) ws)"

definition reorder_workspaces :: "bool \<Rightarrow> rstring list \<Rightarrow> ('f, 'ps) ws_state \<Rightarrow> ws_response \<times> ('f, 'ps) ws_state" where
  "reorder_workspaces save ids st =
     (if list_ex (\<lambda>i. \<not> list_ex (\<lambda>w. ws_id w = i) (wk_list st)) ids then (WBad ''workspace not found'', st)
      else
        let st1 = save_workspaces save (st\<lparr>wk_list := sort_key (\<lambda>w. unat (ws_order w)) (assign_orders 0 ids (wk_list st))\<rparr>) in
        (WOk, tell (WorkspaceReordered ids) st1))"

end
