(* ===== verification/SyncOps.thy ===== *)
theory SyncOps
  imports Workspaces
begin

section \<open>The sync socket and Mission Control\<close>

text \<open>
  \<open>ws/sync.rs\<close> and \<open>mission_control/mod.rs\<close>: what a sync client's messages do to the tabs, the
  sessions, the selection of Mission Control and the other clients, and the messages a new client is
  greeted with. The socket, its ping task and the SSH prompts are I/O.
\<close>

subsection \<open>Mission Control\<close>

datatype nav_dir = NavUp | NavDown | NavLeft | NavRight

datatype mc_op =
    McToggle
  | McSet bool
  | McNavigate nav_dir
  | McConfirm
  | McCancel
  | McJump "rstring option"

record mc_snapshot =
  mc_open :: bool
  mc_workspace :: "rstring option"
  mc_tab :: "string option"

definition tab_title_for :: "('f, 'ps) manager \<Rightarrow> string \<Rightarrow> string option" where
  "tab_title_for m tab = map_of (mg_layouts m) tab \<bind> (\<lambda>v. get_str v ''title'')"

definition stored_leaf :: "'f json \<Rightarrow> string option" where
  "stored_leaf v = (case get_str v ''active_pane_id'' of Some a \<Rightarrow> Some a | None \<Rightarrow> layout_of v \<bind> first_leaf_id)"

definition tab_leaf_for :: "('f, 'ps) manager \<Rightarrow> string \<Rightarrow> string option" where
  "tab_leaf_for m tab = map_of (mg_layouts m) tab \<bind> stored_leaf"

definition resolve_activate_leaf :: "('f, 'ps) manager \<Rightarrow> string \<Rightarrow> string option" where
  "resolve_activate_leaf m pane =
     (let leaf = (case tab_leaf_for m pane of Some l \<Rightarrow> l | None \<Rightarrow> pane) in
      if is_pane_in_any_tab leaf m then Some leaf else None)"

definition tabs_of_workspace :: "'f tab_info list \<Rightarrow> workspace list \<Rightarrow> rstring option \<Rightarrow> string list" where
  "tabs_of_workspace tabs wss sel =
     map ti_tab (filter (\<lambda>t. tab_workspace_id wss (ti_cwd t) (ti_connection t) = sel) tabs)"

definition navigate_tab_in_workspace ::
  "'f tab_info list \<Rightarrow> workspace list \<Rightarrow> rstring option \<Rightarrow> string option \<Rightarrow> nav_dir \<Rightarrow> string option" where
  "navigate_tab_in_workspace tabs wss sel cur dir =
     (let filtered = tabs_of_workspace tabs wss sel in
      if filtered = [] then None
      else
        case cur \<bind> (\<lambda>c. position c filtered) of
          None \<Rightarrow> if dir = NavLeft then Some (last filtered) else Some (hd filtered)
        | Some i \<Rightarrow>
            if dir = NavLeft then (if i = 0 then None else Some (filtered ! (i - 1)))
            else (if length filtered \<le> i + 1 then None else Some (filtered ! (i + 1))))"

text \<open>The tab whose active leaf, or whose id, is the active pane; the first one the map yields.\<close>

definition tab_of_active :: "('f, 'ps) manager \<Rightarrow> string \<Rightarrow> string option" where
  "tab_of_active m active =
     map_option fst (find (\<lambda>(tab, v). stored_leaf v = Some active \<or> tab = active) (mg_layouts m))"

definition seed_mission_control_selection ::
  "bool \<Rightarrow> workspace list \<Rightarrow> mc_snapshot \<Rightarrow> ('f, 'ps) manager \<Rightarrow> mc_snapshot \<times> ('f, 'ps) manager" where
  "seed_mission_control_selection opened wss snap m =
     (if \<not> opened then (snap, m)
      else
        case mg_active m of
          None \<Rightarrow> (snap, m)
        | Some active \<Rightarrow>
            let found = tab_of_active m active; snap1 = snap\<lparr>mc_tab := found\<rparr> in
            case found of
              None \<Rightarrow> (snap1, m)
            | Some tab \<Rightarrow>
                let ((tabs, _), m1) = tab_list m in
                (snap1\<lparr>mc_workspace :=
                   find (\<lambda>t. ti_tab t = tab) tabs \<bind> (\<lambda>t. tab_workspace_id wss (ti_cwd t) (ti_connection t))\<rparr>, m1))"

definition mc_toggled :: "mc_snapshot \<Rightarrow> 'f sync_msg" where
  "mc_toggled s = MissionControlToggled (mc_open s) (mc_workspace s) (mc_tab s)"

definition open_mission_control ::
  "bool \<Rightarrow> workspace list \<Rightarrow> mc_snapshot \<Rightarrow> ('f, 'ps) manager \<Rightarrow> mc_snapshot \<times> ('f, 'ps) manager" where
  "open_mission_control target wss snap m =
     (let (s, m1) = seed_mission_control_selection target wss (snap\<lparr>mc_open := target\<rparr>) m in
      (s, broadcast_sync (mc_toggled s) m1))"

definition next_workspace :: "nav_dir \<Rightarrow> rstring option list \<Rightarrow> rstring option \<Rightarrow> rstring option" where
  "next_workspace dir all cur =
     (let i = (case find (\<lambda>i. all ! i = cur) [0..<length all] of Some i \<Rightarrow> i | None \<Rightarrow> 0) in
      all ! (if dir = NavUp then i - 1 else min (i + 1) (length all - 1)))"

definition navigate :: "nav_dir \<Rightarrow> workspace list \<Rightarrow> mc_snapshot \<Rightarrow> ('f, 'ps) manager \<Rightarrow> mc_snapshot \<times> ('f, 'ps) manager" where
  "navigate dir wss snap m =
     (if \<not> mc_open snap then (snap, m)
      else
        let ((tabs, _), m1) = tab_list m;
            s = (if dir = NavUp \<or> dir = NavDown
                 then snap\<lparr>mc_workspace := next_workspace dir (None # map (\<lambda>w. Some (ws_id w)) wss) (mc_workspace snap),
                           mc_tab := None\<rparr>
                 else snap\<lparr>mc_tab := navigate_tab_in_workspace tabs wss (mc_workspace snap) (mc_tab snap) dir\<rparr>) in
        (s, broadcast_sync (SelectionChanged (mc_workspace s) (mc_tab s) (mc_tab s \<bind> tab_title_for m1)) m1))"

definition handle_mission_control_op ::
  "mc_op \<Rightarrow> workspace list \<Rightarrow> mc_snapshot \<Rightarrow> ('f, 'ps) manager \<Rightarrow> mc_snapshot \<times> ('f, 'ps) manager" where
  "handle_mission_control_op op wss snap m =
     (case op of
        McToggle \<Rightarrow> open_mission_control (\<not> mc_open snap) wss snap m
      | McSet b \<Rightarrow> open_mission_control b wss snap m
      | McNavigate dir \<Rightarrow> navigate dir wss snap m
      | McJump w \<Rightarrow>
          if \<not> mc_open snap then (snap, m)
          else let s = snap\<lparr>mc_workspace := w, mc_tab := None\<rparr> in (s, broadcast_sync (SelectionChanged w None None) m)
      | McConfirm \<Rightarrow>
          if \<not> mc_open snap then (snap, m)
          else
            let m1 = (case mc_tab snap \<bind> tab_leaf_for m of
                        None \<Rightarrow> m
                      | Some leaf \<Rightarrow> broadcast_sync (TabActivated leaf) (set_active_pane_id (Some leaf) m));
                s = snap\<lparr>mc_open := False\<rparr> in
            (s, broadcast_sync (mc_toggled s) m1)
      | McCancel \<Rightarrow>
          if \<not> mc_open snap then (snap, m)
          else let s = snap\<lparr>mc_open := False\<rparr> in (s, broadcast_sync (mc_toggled s) m))"

subsection \<open>One client's messages\<close>

text \<open>\<open>'r\<close> is a mark-read request; what the notification pipeline and the SSH tasks are given is noted in two logs.\<close>

record ('f, 'ps, 'r) hub =
  hb_ws :: "('f, 'ps) ws_state"
  hb_mc :: mc_snapshot
  hb_marks :: "(string \<times> 'r) list"
  hb_ssh :: "(string, string list list) amap"

datatype ('f, 'r) sync_client_msg =
    CActivateTab string
  | CCreateTab "'f json" "string option" "string option"
  | CCloseTab string
  | CClosePane string
  | CUpdateLayout string "'f json" string
  | CSshAuthResponse string "string list"
  | CMarkRead 'r
  | CRenameTab string string
  | CTabReordered "string list"
  | CMissionControlOp mc_op
  | CInput "u8 list"

abbreviation hub_mgr :: "('f, 'ps, 'r) hub \<Rightarrow> ('f, 'ps) manager" where
  "hub_mgr h \<equiv> wk_mgr (hb_ws h)"

definition on_mgr :: "(('f, 'ps) manager \<Rightarrow> ('f, 'ps) manager) \<Rightarrow> ('f, 'ps, 'r) hub \<Rightarrow> ('f, 'ps, 'r) hub" where
  "on_mgr f h = h\<lparr>hb_ws := (hb_ws h)\<lparr>wk_mgr := f (hub_mgr h)\<rparr>\<rparr>"

definition tab_value :: "'f json \<Rightarrow> string \<Rightarrow> 'f json" where
  "tab_value layout active = mk_obj [(''layout'', layout), (''active_pane_id'', JStr active)]"

text \<open>\<open>evs i\<close> answers for the \<open>i\<close>-th session that is closed.\<close>

fun close_panes :: "(nat \<Rightarrow> 'f) \<Rightarrow> (nat \<Rightarrow> close_env) \<Rightarrow> nat \<Rightarrow> string list \<Rightarrow> ('f, 'ps) manager \<Rightarrow> ('f, 'ps) manager" where
  "close_panes recip evs i [] m = m"
| "close_panes recip evs i (p # ps) m = close_panes recip evs (Suc i) ps (snd (close_pane recip (evs i) p m))"

definition close_tab ::
  "(nat \<Rightarrow> 'f) \<Rightarrow> (nat \<Rightarrow> close_env) \<Rightarrow> string \<Rightarrow> string \<Rightarrow> mc_snapshot \<Rightarrow> ('f, 'ps) manager \<Rightarrow> mc_snapshot \<times> ('f, 'ps) manager" where
  "close_tab recip evs cid tab snap m =
     (let leaves = (case map_of (mg_layouts m) tab \<bind> layout_of of Some l \<Rightarrow> collect_leaf_pane_ids l | None \<Rightarrow> []);
          m1 = close_panes recip evs 0 leaves m;
          (removed, m2) = remove_tab tab m1;
          m3 = (if removed then broadcast_sync_others (TabClosed tab) cid m2 else m2) in
      if mc_tab snap = Some tab
      then (snap\<lparr>mc_tab := None\<rparr>, broadcast_sync (SelectionChanged (mc_workspace snap) None None) m3)
      else (snap, m3))"

definition type_into_active :: "(string \<times> nat) option \<Rightarrow> u8 list \<Rightarrow> mc_snapshot \<Rightarrow> ('f, 'ps) manager \<Rightarrow> ('f, 'ps) manager" where
  "type_into_active io data snap m =
     (if mc_open snap then m
      else
        case mg_active m \<bind> map_of (mg_sessions m) of
          None \<Rightarrow> m
        | Some a \<Rightarrow> on_hosted a (\<lambda>h. h\<lparr>hs_session := snd (write_input_async io data (hs_session h))\<rparr>) m)"

text \<open>The replies to the sender alone, and the new state; \<open>uuid\<close> is a fresh tab id.\<close>

definition sync_step ::
  "(nat \<Rightarrow> 'f) \<Rightarrow> (nat \<Rightarrow> close_env) \<Rightarrow> string \<Rightarrow> (string \<times> nat) option \<Rightarrow> string \<Rightarrow> ('f, 'r) sync_client_msg \<Rightarrow>
     ('f, 'ps, 'r) hub \<Rightarrow> 'f sync_msg list \<times> ('f, 'ps, 'r) hub" where
  "sync_step recip evs uuid io cid msg h =
     (case msg of
        CActivateTab pane \<Rightarrow>
          (case resolve_activate_leaf (hub_mgr h) pane of
             None \<Rightarrow> ([], h)
           | Some leaf \<Rightarrow> ([], on_mgr (\<lambda>m. broadcast_sync_others (TabActivated pane) cid (set_active_pane_id (Some leaf) m)) h))
      | CCreateTab layout tab_id pane_id \<Rightarrow>
          (let tab = (case tab_id of Some t \<Rightarrow> t | None \<Rightarrow> uuid);
               leaf = (case pane_id of Some p \<Rightarrow> p | None \<Rightarrow> (case first_leaf_id layout of Some p \<Rightarrow> p | None \<Rightarrow> tab));
               created = TabCreated tab leaf (Some layout) None None None in
           ([created], on_mgr (\<lambda>m. broadcast_sync_others created cid (update_layout tab (tab_value layout leaf) (Some leaf) m)) h))
      | CCloseTab tab \<Rightarrow>
          (let (snap, m) = close_tab recip evs cid tab (hb_mc h) (hub_mgr h) in
           ([], on_mgr (\<lambda>_. m) (h\<lparr>hb_mc := snap\<rparr>)))
      | CClosePane pane \<Rightarrow> ([], on_mgr (\<lambda>m. snd (close_pane recip (evs 0) pane m)) h)
      | CUpdateLayout tab layout active \<Rightarrow>
          ([], on_mgr (\<lambda>m. broadcast_sync_others (LayoutUpdated tab layout active) cid
                             (update_layout tab (tab_value layout active) (Some active) m)) h)
      | CSshAuthResponse pane rs \<Rightarrow>
          (case map_of (hb_ssh h) pane of
             None \<Rightarrow> ([], h)
           | Some sent \<Rightarrow> ([], h\<lparr>hb_ssh := al_put pane (sent @ [rs]) (hb_ssh h)\<rparr>))
      | CMarkRead r \<Rightarrow> ([], h\<lparr>hb_marks := hb_marks h @ [(cid, r)]\<rparr>)
      | CRenameTab tab title \<Rightarrow>
          ([], on_mgr (\<lambda>m. let (ok, m1) = rename_tab tab title m in
                           if ok then broadcast_sync_others (TabRenamed tab title) cid m1 else m1) h)
      | CTabReordered tabs \<Rightarrow>
          ([], on_mgr (\<lambda>m. let (r, m1) = reorder_tabs tabs m in
                           case r of Some order \<Rightarrow> broadcast_sync_others (TabReordered order) cid m1 | None \<Rightarrow> m1) h)
      | CMissionControlOp op \<Rightarrow>
          (let (snap, m) = handle_mission_control_op op (wk_list (hb_ws h)) (hb_mc h) (hub_mgr h) in
           ([], on_mgr (\<lambda>_. m) (h\<lparr>hb_mc := snap\<rparr>)))
      | CInput data \<Rightarrow> ([], on_mgr (type_into_active io data (hb_mc h)) h))"

subsection \<open>A client connects\<close>

text \<open>
  The client is registered before the state is read, so that nothing is missed in between (\<open>other\<close> is
  what other tasks do then); what it is greeted with goes to its socket directly, ahead of everything
  broadcast since the registration.
\<close>

definition greet ::
  "(('f, 'ps, 'r) hub \<Rightarrow> ('f, 'ps, 'r) hub) \<Rightarrow> string \<Rightarrow> suggestion_item list \<Rightarrow> 'f json list \<Rightarrow> ('f, 'ps, 'r) hub \<Rightarrow>
     'f sync_msg list \<times> ('f, 'ps, 'r) hub" where
  "greet other cid suggestions history h =
     (let h1 = other (on_mgr (add_sync_client cid) h);
          ((tabs, active), m) = tab_list (hub_mgr h1) in
      ([SyncHello cid, TabList tabs active, Suggestions suggestions] @
       (if history = [] then [] else [MonitorHistory history]) @
       [WorkspaceList (wk_list (hb_ws h1)) (wk_active (hb_ws h1)),
        McSnapshot (mc_open (hb_mc h1)) (mc_workspace (hb_mc h1)) (mc_tab (hb_mc h1))],
       on_mgr (\<lambda>_. m) h1))"

end
