(* ===== verification/Tabs.thy ===== *)
theory Tabs
  imports SyncOps
begin

section \<open>The HTTP requests on tabs and panes\<close>

text \<open>
  \<open>tabs/service.rs\<close>, \<open>tabs/handlers/*.rs\<close>, \<open>tabs/ssh.rs\<close>, \<open>tabs/types.rs\<close>: creating, splitting,
  moving, extracting, closing and renaming, over the session manager. Every access to the manager is a
  critical section of its own, so a handler takes \<open>others\<close>: what the other tasks do between two of its
  accesses (\<open>others i\<close> at the \<open>i\<close>-th gap; the identity when it runs alone).
\<close>

subsection \<open>Requests, replies and the environment\<close>

record split_req =
  sp_pane :: string
  sp_direction :: string
  sp_force_local :: bool
  sp_cwd :: "rstring option"

record create_tab_req =
  ct_cwd :: "rstring option"
  ct_source :: "string option"
  ct_argv :: "rstring list option"
  ct_title :: "string option"

record move_req =
  mv_source_tab :: string
  mv_source_pane :: "string option"
  mv_target :: string
  mv_direction :: string

record plugin_tab_req =
  pt_plugin :: string
  pt_title :: "string option"
  pt_tab :: "string option"

record ssh_params =
  sh_user :: string
  sh_host :: string
  sh_profile :: "string option"
  sh_workspace :: "rstring option"

datatype tab_error =
    BadRequest string
  | NoSuch string
  | Conflicting string
  | Unavailable string
  | ServerError string
  | GoneError string

datatype 'f tab_reply =
    TabMade string string "'f json" "rstring option" "string option" "rstring option"
  | PaneMade string "'f json"
  | TreeMoved "'f json" string
  | PaneMoved "'f json" "'f json" string
  | PaneExtracted string string "'f json" "rstring option" "string option" "rstring option"
  | PaneClosed bool
  | TabsListed "'f tab_info list" "string option"
  | TabsOk

text \<open>
  What the handlers ask of the world: whether a path is a directory, the default directory of the
  settings, the verdict of the shell probe (a code if it fails), spawning a shell in a directory, opening an
  SSH session, fresh uuids, what happens while a session is closed, and the saved SSH profiles.
\<close>

record ('f, 'ps) tab_env =
  te_is_dir :: "rstring \<Rightarrow> bool"
  te_default_root :: "rstring option"
  te_shell_error :: "string option"
  te_spawn :: "rstring option \<Rightarrow> rstring list option \<Rightarrow> string + addr \<times> 'ps hosted \<times> string"
  te_ssh :: "ssh_params \<Rightarrow> string + addr \<times> 'ps hosted"
  te_uuid :: "nat \<Rightarrow> string"
  te_split_ids :: "nat list \<Rightarrow> string"
  te_recip :: "nat \<Rightarrow> 'f"
  te_close :: "nat \<Rightarrow> close_env"
  te_profiles :: "(string \<times> ssh_params) list"

type_synonym ('f, 'ps) others = "nat \<Rightarrow> ('f, 'ps) manager \<Rightarrow> ('f, 'ps) manager"
type_synonym ('f, 'ps) tab_result = "(tab_error + 'f tab_reply) \<times> ('f, 'ps) manager"

definition alone :: "('f, 'ps) others" where
  "alone = (\<lambda>_ m. m)"

definition validate_create_tab_request :: "(rstring \<Rightarrow> bool) \<Rightarrow> create_tab_req \<Rightarrow> string + rstring option" where
  "validate_create_tab_request is_dir req =
     (case ct_argv req of
        Some [] \<Rightarrow> Inl ''argv must be a non-empty array''
      | Some (a # as) \<Rightarrow>
          if a = [] then Inl ''argv[0] must be a non-empty string''
          else if list_ex (\<lambda>x. 0 \<in> set x) (a # as) then Inl ''argv entries must not contain NUL bytes''
          else (case ct_cwd req of None \<Rightarrow> Inr None
                | Some d \<Rightarrow> if is_dir d then Inr (Some d) else Inl ''cwd must exist and be a directory'')
      | None \<Rightarrow>
          (case ct_cwd req of None \<Rightarrow> Inr None
           | Some d \<Rightarrow> if is_dir d then Inr (Some d) else Inl ''cwd must exist and be a directory''))"

definition shell_error_response :: "string \<Rightarrow> tab_error" where
  "shell_error_response code =
     (if code = ''wsl_timeout'' \<or> code = ''wsl_list_failed'' then Unavailable code else Conflicting code)"

definition or_else :: "'a option \<Rightarrow> 'a option \<Rightarrow> 'a option" where
  "or_else a b = (case a of Some x \<Rightarrow> Some x | None \<Rightarrow> b)"

subsection \<open>Sessions for new panes\<close>

text \<open>The manager's side of \<open>pty::create_session\<close> and \<open>ssh::create_ssh_session\<close>: reserve, spawn (or give the reservation back), publish, announce.\<close>

definition open_session ::
  "('f, 'ps) others \<Rightarrow> string \<Rightarrow> string + addr \<times> 'ps hosted \<times> string \<Rightarrow> ('f, 'ps) manager \<Rightarrow>
     (string + addr \<times> string) \<times> ('f, 'ps) manager" where
  "open_session others pane spawned m =
     (case reserve_session pane m of
        (Inl e, m1) \<Rightarrow> (Inl e, m1)
      | (Inr _, m1) \<Rightarrow>
          let m2 = others 0 m1 in
          case spawned of
            Inl e \<Rightarrow> (Inl e, drop_reservation pane m2)
          | Inr (a, h, shell) \<Rightarrow>
              let (ok, m3) = publish_reserved pane a (on_hosted a (\<lambda>_. h) m2) in
              if \<not> ok then (Inl ''session already exists for pane'', m3)
              else (Inr (a, shell), publish_bus (Some (SessionCreatedEv pane shell)) m3))"

definition create_pty_session ::
  "('f, 'ps) tab_env \<Rightarrow> ('f, 'ps) others \<Rightarrow> string \<Rightarrow> rstring option \<Rightarrow> rstring list option \<Rightarrow> ('f, 'ps) manager \<Rightarrow>
     (string + addr \<times> string) \<times> ('f, 'ps) manager" where
  "create_pty_session env others pane cwd argv m =
     (if argv = Some [] then (Inl ''argv must be non-empty when provided'', m)
      else open_session others pane
        (map_sum id (\<lambda>(a, h, sh). (a, h\<lparr>hs_login := None, hs_profile := None, hs_workspace := None\<rparr>, sh)) (te_spawn env cwd argv)) m)"

definition create_ssh_session ::
  "('f, 'ps) tab_env \<Rightarrow> ('f, 'ps) others \<Rightarrow> string \<Rightarrow> ssh_params \<Rightarrow> ('f, 'ps) manager \<Rightarrow>
     (string + addr \<times> string) \<times> ('f, 'ps) manager" where
  "create_ssh_session env others pane ps m =
     open_session others pane
       (map_sum id (\<lambda>(a, h). (a, h\<lparr>hs_login := Some (sh_user ps, sh_host ps), hs_profile := sh_profile ps,
          hs_workspace := sh_workspace ps, hs_host_cwd := None\<rparr>, ''ssh'')) (te_ssh env ps)) m"

definition host_of :: "('f, 'ps) manager \<Rightarrow> string \<Rightarrow> 'ps hosted option" where
  "host_of m pane = map_option (mg_store m) (map_of (mg_sessions m) pane)"

definition titled_leaf :: "string \<Rightarrow> string \<Rightarrow> string \<Rightarrow> 'f json" where
  "titled_leaf pane title shell =
     mk_obj [(''type'', JStr ''leaf''), (''paneId'', JStr pane), (''title'', JStr title),
       (''shell_type'', JStr shell), (''ratio'', JInt 1), (''zoomed'', JBool False)]"

subsection \<open>New tabs\<close>

text \<open>The directory asked for, else that of the (local) source pane, else the settings' default.\<close>

definition start_dir :: "('f, 'ps) tab_env \<Rightarrow> create_tab_req \<Rightarrow> rstring option \<Rightarrow> ('f, 'ps) manager \<Rightarrow> rstring option" where
  "start_dir env req requested m =
     or_else requested
       (or_else (ct_source req \<bind> host_of m \<bind> (\<lambda>h. if hs_login h = None then hs_host_cwd h else None)) (te_default_root env))"

text \<open>\<open>publish_tab\<close>: the tab appears only if the session is still the pane's, and is taken back if it died meanwhile.\<close>

definition publish_tab ::
  "('f, 'ps) others \<Rightarrow> string \<Rightarrow> string \<Rightarrow> addr \<Rightarrow> 'f json \<Rightarrow> rstring option \<Rightarrow> ('f, 'ps) manager \<Rightarrow> bool \<times> ('f, 'ps) manager" where
  "publish_tab others tab pane a layout shown m =
     (let (ok, m1) = insert_tab_for_session pane a tab (tab_value layout pane) pane (others 1 m) in
      if \<not> ok then (False, m1)
      else
        let m2 = others 3 (broadcast_sync (TabCreated tab pane (Some layout) shown None None) (others 2 m1)) in
        if is_current_session pane a m2 then (True, m2) else (False, broadcast_sync (TabClosed tab) m2))"

definition create_tab :: "('f, 'ps) tab_env \<Rightarrow> ('f, 'ps) others \<Rightarrow> create_tab_req \<Rightarrow> ('f, 'ps) manager \<Rightarrow> ('f, 'ps) tab_result" where
  "create_tab env others req m =
     (case validate_create_tab_request (te_is_dir env) req of
        Inl e \<Rightarrow> (Inl (BadRequest e), m)
      | Inr requested \<Rightarrow>
          (case (if ct_argv req = None then te_shell_error env else None) of
             Some code \<Rightarrow> (Inl (shell_error_response code), m)
           | None \<Rightarrow>
               let tab = te_uuid env 0; pane = te_uuid env 1 in
               case create_pty_session env others pane (start_dir env req requested m) (ct_argv req) m of
                 (Inl e, m1) \<Rightarrow> (Inl (ServerError e), m1)
               | (Inr (a, shell), m1) \<Rightarrow>
                   let shown = hs_cwd (mg_store m1 a);
                       layout = titled_leaf pane (case ct_title req of Some t \<Rightarrow> t | None \<Rightarrow> ''Terminal'') shell;
                       (ok, m2) = publish_tab others tab pane a layout shown m1 in
                   (if ok then Inr (TabMade tab pane layout shown None None)
                    else Inl (ServerError (if ct_argv req = None then ''session closed before tab creation completed''
                                           else ''command exited before tab creation completed'')), m2)))"

text \<open>
  \<open>create_ssh_quick_tab\<close> and \<open>create_ssh_tab\<close> differ in where the parameters come from; the directory
  is not told to the clients.
\<close>

definition create_ssh_tab_with ::
  "('f, 'ps) tab_env \<Rightarrow> ('f, 'ps) others \<Rightarrow> ssh_params \<Rightarrow> ('f, 'ps) manager \<Rightarrow> ('f, 'ps) tab_result" where
  "create_ssh_tab_with env others ps m =
     (let tab = te_uuid env 0; pane = te_uuid env 1 in
      case create_ssh_session env others pane ps m of
        (Inl e, m1) \<Rightarrow> (Inl (ServerError e), m1)
      | (Inr (a, shell), m1) \<Rightarrow>
          let layout = titled_leaf pane (sh_user ps @ ''@'' @ sh_host ps) ''ssh'';
              (ok, m2) = insert_tab_for_session pane a tab (tab_value layout pane) pane (others 1 m1) in
          if \<not> ok then (Inl (GoneError ''SSH session exited before tab publication''), m2)
          else
            let m3 = broadcast_sync (TabCreated tab pane (Some layout) None (sh_profile ps) (sh_workspace ps)) (others 2 m2);
                m4 = recheck_publish_or_correct (te_recip env) pane a (others 3 m3) in
            (Inr (TabMade tab pane layout None (sh_profile ps) (sh_workspace ps)), m4))"

definition create_ssh_quick_tab :: "('f, 'ps) tab_env \<Rightarrow> ('f, 'ps) others \<Rightarrow> ssh_params \<Rightarrow> ('f, 'ps) manager \<Rightarrow> ('f, 'ps) tab_result" where
  "create_ssh_quick_tab env others ps m = create_ssh_tab_with env others (ps\<lparr>sh_workspace := None\<rparr>) m"

definition create_ssh_tab ::
  "('f, 'ps) tab_env \<Rightarrow> ('f, 'ps) others \<Rightarrow> string \<Rightarrow> rstring option \<Rightarrow> ('f, 'ps) manager \<Rightarrow> ('f, 'ps) tab_result" where
  "create_ssh_tab env others profile workspace m =
     (case find (\<lambda>(i, _). i = profile) (te_profiles env) of
        None \<Rightarrow> (Inl (NoSuch ''profile not found''), m)
      | Some (_, ps) \<Rightarrow> create_ssh_tab_with env others (ps\<lparr>sh_profile := Some profile, sh_workspace := workspace\<rparr>) m)"

subsection \<open>Splitting\<close>

text \<open>The tab's layout and the checks that several handlers make on it first.\<close>

definition tab_layout :: "string \<Rightarrow> tab_error \<Rightarrow> tab_error \<Rightarrow> ('f, 'ps) manager \<Rightarrow> tab_error + 'f json" where
  "tab_layout tab missing without m =
     (case map_of (mg_layouts m) tab of
        None \<Rightarrow> Inl missing
      | Some v \<Rightarrow> (case layout_of v of None \<Rightarrow> Inl without | Some l \<Rightarrow> Inr l))"

definition layout_with_pane :: "string \<Rightarrow> string \<Rightarrow> ('f, 'ps) manager \<Rightarrow> tab_error + 'f json" where
  "layout_with_pane tab pane m =
     (case tab_layout tab (NoSuch ''tab not found'') (ServerError ''tab has no layout'') m of
        Inl e \<Rightarrow> Inl e
      | Inr l \<Rightarrow> if pane \<in> set (collect_leaf_pane_ids l) then Inr l else Inl (NoSuch ''pane not found in tab''))"

definition ssh_params_of :: "'ps hosted \<Rightarrow> ssh_params option" where
  "ssh_params_of h =
     map_option (\<lambda>(u, host). \<lparr>sh_user = u, sh_host = host, sh_profile = hs_profile h, sh_workspace = hs_workspace h\<rparr>) (hs_login h)"

text \<open>The session of the new pane: a local one in the given or the source's directory, or one to the same host.\<close>

definition split_session ::
  "('f, 'ps) tab_env \<Rightarrow> ('f, 'ps) others \<Rightarrow> split_req \<Rightarrow> string \<Rightarrow> ('f, 'ps) manager \<Rightarrow>
     (tab_error + addr) \<times> ('f, 'ps) manager" where
  "split_session env others req new m =
     (let ssh = host_of m (sp_pane req) \<bind> ssh_params_of;
          cwd = or_else (sp_cwd req) (host_of m (sp_pane req) \<bind> hs_host_cwd);
          local = (sp_force_local req \<or> ssh = None) in
      case (if local then te_shell_error env else None) of
        Some code \<Rightarrow> (Inl (shell_error_response code), m)
      | None \<Rightarrow>
          (case (if local then create_pty_session env others new cwd None m else create_ssh_session env others new (the ssh) m) of
             (Inl e, m1) \<Rightarrow> (Inl (ServerError e), m1)
           | (Inr (a, _), m1) \<Rightarrow> (Inr a, m1)))"

text \<open>The layout is the one read before the session was created.\<close>

definition split_layout :: "('f, 'ps) tab_env \<Rightarrow> split_req \<Rightarrow> string \<Rightarrow> 'f json \<Rightarrow> ('f, 'ps) manager \<Rightarrow> 'f json option" where
  "split_layout env req new layout m =
     (case host_of m new \<bind> hs_login of
        Some (user, host) \<Rightarrow>
          insert_pane_into_layout_with_info (te_recip env) (te_split_ids env) layout (sp_pane req) (sp_direction req) new
            (user @ ''@'' @ host) ''ssh''
      | None \<Rightarrow> insert_pane_into_layout (te_recip env) (te_split_ids env) layout (sp_pane req) (sp_direction req) new)"

definition split_pane ::
  "('f, 'ps) tab_env \<Rightarrow> ('f, 'ps) others \<Rightarrow> string \<Rightarrow> split_req \<Rightarrow> ('f, 'ps) manager \<Rightarrow> ('f, 'ps) tab_result" where
  "split_pane env others tab req m =
     (case layout_with_pane tab (sp_pane req) m of
        Inl e \<Rightarrow> (Inl e, m)
      | Inr layout \<Rightarrow>
          let new = te_uuid env 0 in
          case split_session env others req new m of
            (Inl e, m1) \<Rightarrow> (Inl e, m1)
          | (Inr a, m1) \<Rightarrow>
              let m2 = others 1 m1 in
              case split_layout env req new layout m2 of
                None \<Rightarrow> (Inl (ServerError ''failed to update layout''), snd (kill_and_remove (te_recip env) (te_close env 0) new m2))
              | Some l' \<Rightarrow>
                  let m3 = others 2 (insert_tab tab (tab_value l' new) m2);
                      m4 = others 3 (broadcast_sync (LayoutUpdated tab l' new) m3) in
                  (Inr (PaneMade new l'), recheck_publish_or_correct (te_recip env) new a m4))"

subsection \<open>Moving and extracting\<close>

definition first_or :: "string \<Rightarrow> 'f json \<Rightarrow> string" where
  "first_or d l = (case first_leaf_id l of Some p \<Rightarrow> p | None \<Rightarrow> d)"

text \<open>Moving a whole tab into another one.\<close>

definition move_tree ::
  "('f, 'ps) tab_env \<Rightarrow> ('f, 'ps) others \<Rightarrow> string \<Rightarrow> move_req \<Rightarrow> 'f json \<Rightarrow> 'f json \<Rightarrow> ('f, 'ps) manager \<Rightarrow> ('f, 'ps) tab_result" where
  "move_tree env others dst req src_layout dst_layout m =
     (case insert_subtree_into_layout (te_recip env) (te_split_ids env) dst_layout (mv_target req) (mv_direction req) src_layout of
        None \<Rightarrow> (Inl (ServerError ''failed to insert subtree''), m)
      | Some l' \<Rightarrow>
          let active = first_or (mv_target req) l';
              m1 = others 1 (snd (remove_tab (mv_source_tab req) (others 0 m)));
              m2 = others 2 (insert_tab dst (tab_value l' active) m1);
              m3 = others 3 (broadcast_sync (LayoutUpdated dst l' active) m2) in
          (Inr (TreeMoved l' active), broadcast_sync (TabClosed (mv_source_tab req)) m3))"

text \<open>What is left of the source and the leaf taken out of it; the two handlers word its errors differently.\<close>

definition take_leaf :: "('f, 'ps) tab_env \<Rightarrow> 'f json \<Rightarrow> string \<Rightarrow> tab_error + 'f json \<times> 'f json" where
  "take_leaf env layout pane =
     (if length (collect_leaf_pane_ids layout) < 2 then Inl (BadRequest ''source tab must have at least 2 panes'')
      else if pane \<notin> set (collect_leaf_pane_ids layout) then Inl (NoSuch ''pane not found in source tab'')
      else
        case extract_leaf_from_layout layout pane of
          None \<Rightarrow> Inl (ServerError ''failed to extract leaf'')
        | Some leaf \<Rightarrow>
            (case remove_pane_from_layout (te_recip env) layout pane of
               None \<Rightarrow> Inl (ServerError ''failed to update source layout'')
             | Some rest \<Rightarrow> Inr (leaf, rest)))"

definition move_leaf ::
  "('f, 'ps) tab_env \<Rightarrow> ('f, 'ps) others \<Rightarrow> string \<Rightarrow> move_req \<Rightarrow> string \<Rightarrow> 'f json \<Rightarrow> 'f json \<Rightarrow> ('f, 'ps) manager \<Rightarrow> ('f, 'ps) tab_result" where
  "move_leaf env others dst req pane src_layout dst_layout m =
     (case take_leaf env src_layout pane of
        Inl e \<Rightarrow> (Inl e, m)
      | Inr (leaf, rest) \<Rightarrow>
          (case insert_subtree_into_layout (te_recip env) (te_split_ids env) dst_layout (mv_target req) (mv_direction req) leaf of
             None \<Rightarrow> (Inl (ServerError ''failed to update destination layout''), m)
           | Some l' \<Rightarrow>
               let src = mv_source_tab req; kept = first_or (mv_target req) rest;
                   m1 = others 1 (insert_tab src (tab_value rest kept) (others 0 m));
                   m2 = others 2 (insert_tab dst (tab_value l' pane) m1);
                   m3 = others 3 (broadcast_sync (LayoutUpdated src rest kept) m2) in
               (Inr (PaneMoved rest l' pane), broadcast_sync (LayoutUpdated dst l' pane) m3)))"

definition move_pane ::
  "('f, 'ps) tab_env \<Rightarrow> ('f, 'ps) others \<Rightarrow> string \<Rightarrow> move_req \<Rightarrow> ('f, 'ps) manager \<Rightarrow> ('f, 'ps) tab_result" where
  "move_pane env others dst req m =
     (if mv_source_tab req = dst then (Inl (BadRequest ''source and destination tab must differ''), m)
      else
        case tab_layout (mv_source_tab req) (NoSuch ''source tab not found'') (ServerError ''source tab has no layout'') m of
          Inl e \<Rightarrow> (Inl e, m)
        | Inr src_layout \<Rightarrow>
            (case tab_layout dst (NoSuch ''destination tab not found'') (ServerError ''destination tab has no layout'') m of
               Inl e \<Rightarrow> (Inl e, m)
             | Inr dst_layout \<Rightarrow>
                 if mv_target req \<notin> set (collect_leaf_pane_ids dst_layout)
                 then (Inl (NoSuch ''target pane not found in destination tab''), m)
                 else
                   case mv_source_pane req of
                     None \<Rightarrow> move_tree env others dst req src_layout dst_layout m
                   | Some pane \<Rightarrow> move_leaf env others dst req pane src_layout dst_layout m))"

definition extract_pane ::
  "('f, 'ps) tab_env \<Rightarrow> ('f, 'ps) others \<Rightarrow> string \<Rightarrow> string \<Rightarrow> ('f, 'ps) manager \<Rightarrow> ('f, 'ps) tab_result" where
  "extract_pane env others src pane m =
     (case tab_layout src (NoSuch ''source tab not found'') (ServerError ''source tab has no layout'') m of
        Inl e \<Rightarrow> (Inl e, m)
      | Inr layout \<Rightarrow>
          (case take_leaf env layout pane of
             Inl e \<Rightarrow> (Inl e, m)
           | Inr (leaf, rest) \<Rightarrow>
               let tab = te_uuid env 0; kept = first_or pane rest;
                   m1 = others 1 (insert_tab src (tab_value rest kept) (others 0 m));
                   m2 = others 2 (insert_tab tab (tab_value leaf pane) m1);
                   m3 = others 3 (broadcast_sync (LayoutUpdated src rest kept) m2);
                   h = host_of m3 pane;
                   m4 = broadcast_sync (TabCreated tab pane (Some leaf) (h \<bind> hs_cwd) (h \<bind> hs_profile) (h \<bind> hs_workspace)) m3 in
               (Inr (PaneExtracted tab pane rest (h \<bind> hs_cwd) (h \<bind> hs_profile) (h \<bind> hs_workspace)), m4)))"

subsection \<open>Closing, activating, renaming\<close>

definition close_pane_handler ::
  "('f, 'ps) tab_env \<Rightarrow> ('f, 'ps) others \<Rightarrow> string \<Rightarrow> string \<Rightarrow> ('f, 'ps) manager \<Rightarrow> ('f, 'ps) tab_result" where
  "close_pane_handler env others tab pane m =
     (case layout_with_pane tab pane m of
        Inl e \<Rightarrow> (Inl e, m)
      | Inr layout \<Rightarrow>
          (Inr (PaneClosed (length (collect_leaf_pane_ids layout) \<le> 1)),
           snd (close_pane (te_recip env) (te_close env 0) pane (others 0 m))))"

fun kill_panes :: "('f, 'ps) tab_env \<Rightarrow> ('f, 'ps) others \<Rightarrow> nat \<Rightarrow> string list \<Rightarrow> ('f, 'ps) manager \<Rightarrow> ('f, 'ps) manager" where
  "kill_panes env others i [] m = m"
| "kill_panes env others i (p # ps) m =
     kill_panes env others (Suc i) ps (snd (kill_and_remove (te_recip env) (te_close env i) p (others i m)))"

definition close_tab_handler :: "('f, 'ps) tab_env \<Rightarrow> ('f, 'ps) others \<Rightarrow> string \<Rightarrow> ('f, 'ps) manager \<Rightarrow> ('f, 'ps) tab_result" where
  "close_tab_handler env others tab m =
     (let leaves = (case map_of (mg_layouts m) tab \<bind> layout_of of Some l \<Rightarrow> collect_leaf_pane_ids l | None \<Rightarrow> []);
          (removed, m1) = remove_tab tab (kill_panes env others 0 leaves m) in
      (Inr TabsOk, if removed then broadcast_sync (TabClosed tab) m1 else m1))"

definition activate_pane :: "('f, 'ps) others \<Rightarrow> string \<Rightarrow> string \<Rightarrow> ('f, 'ps) manager \<Rightarrow> ('f, 'ps) tab_result" where
  "activate_pane others tab pane m =
     (case map_of (mg_layouts m) tab of
        None \<Rightarrow> (Inl (NoSuch ''tab not found''), m)
      | Some v \<Rightarrow>
          let layout = (case layout_of v of Some l \<Rightarrow> l | None \<Rightarrow> JNull) in
          if pane \<notin> set (collect_leaf_pane_ids layout) then (Inl (NoSuch ''pane not found in tab''), m)
          else
            (Inr TabsOk, broadcast_sync (TabActivated pane) (others 1 (update_layout tab (tab_value layout pane) (Some pane) (others 0 m)))))"

definition update_layout_handler ::
  "('f, 'ps) others \<Rightarrow> string \<Rightarrow> 'f json \<Rightarrow> string \<Rightarrow> ('f, 'ps) manager \<Rightarrow> ('f, 'ps) tab_result" where
  "update_layout_handler others tab layout active m =
     (if map_of (mg_layouts m) tab = None then (Inl (NoSuch ''tab not found''), m)
      else
        (Inr TabsOk, broadcast_sync (LayoutUpdated tab layout active)
           (others 1 (update_layout tab (tab_value layout active) (Some active) (others 0 m)))))"

definition trim_string :: "string \<Rightarrow> string" where
  "trim_string s =
     (let ws = (\<lambda>c. is_whitespace (of_char c)) in rev (dropWhile ws (rev (dropWhile ws s))))"

definition rename_tab_handler :: "('f, 'ps) others \<Rightarrow> string \<Rightarrow> string \<Rightarrow> ('f, 'ps) manager \<Rightarrow> ('f, 'ps) tab_result" where
  "rename_tab_handler others tab title m =
     (let t = trim_string title in
      if t = [] then (Inl (BadRequest ''title must not be empty''), m)
      else
        let (ok, m1) = rename_tab tab t m in
        if ok then (Inr TabsOk, broadcast_sync (TabRenamed tab t) (others 0 m1)) else (Inl (NoSuch ''tab not found''), m1))"

definition list_tabs :: "('f, 'ps) manager \<Rightarrow> ('f, 'ps) tab_result" where
  "list_tabs m = (let ((tabs, active), m1) = tab_list m in (Inr (TabsListed tabs active), m1))"

subsection \<open>Panes without a terminal\<close>

definition insert_non_terminal_pane ::
  "('f, 'ps) tab_env \<Rightarrow> ('f, 'ps) others \<Rightarrow> string \<Rightarrow> string \<Rightarrow> string \<Rightarrow> 'f json \<Rightarrow> string \<Rightarrow> ('f, 'ps) manager \<Rightarrow> ('f, 'ps) tab_result" where
  "insert_non_terminal_pane env others tab target direction leaf new m =
     (case layout_with_pane tab target m of
        Inl e \<Rightarrow> (Inl e, m)
      | Inr layout \<Rightarrow>
          (case insert_subtree_into_layout (te_recip env) (te_split_ids env) layout target direction leaf of
             None \<Rightarrow> (Inl (ServerError ''failed to update layout''), m)
           | Some l' \<Rightarrow>
               (Inr (PaneMade new l'),
                broadcast_sync (LayoutUpdated tab l' new) (others 1 (insert_tab tab (tab_value l' new) (others 0 m))))))"

definition plain_leaf :: "string \<Rightarrow> string \<Rightarrow> string \<Rightarrow> (string \<times> string) list \<Rightarrow> 'f json" where
  "plain_leaf kind pane title extra =
     mk_obj ([(''type'', JStr ''leaf''), (''kind'', JStr kind), (''paneId'', JStr pane), (''title'', JStr title),
       (''ratio'', JInt 1), (''zoomed'', JBool False)] @ map (\<lambda>(k, v). (k, JStr v)) extra)"

definition create_plugin_pane ::
  "('f, 'ps) tab_env \<Rightarrow> ('f, 'ps) others \<Rightarrow> string \<Rightarrow> string \<Rightarrow> string \<Rightarrow> string \<Rightarrow> ('f, 'ps) manager \<Rightarrow> ('f, 'ps) tab_result" where
  "create_plugin_pane env others tab plugin target direction =
     insert_non_terminal_pane env others tab target direction
       (plain_leaf ''plugin'' (te_uuid env 0) plugin [(''pluginId'', plugin)]) (te_uuid env 0)"

definition create_files_pane ::
  "('f, 'ps) tab_env \<Rightarrow> ('f, 'ps) others \<Rightarrow> string \<Rightarrow> string \<Rightarrow> string \<Rightarrow> string \<Rightarrow> ('f, 'ps) manager \<Rightarrow> ('f, 'ps) tab_result" where
  "create_files_pane env others tab path target direction =
     insert_non_terminal_pane env others tab target direction
       (plain_leaf ''files'' (te_uuid env 0) path [(''path'', path), (''sourcePaneId'', target)]) (te_uuid env 0)"

definition create_web_pane ::
  "('f, 'ps) tab_env \<Rightarrow> ('f, 'ps) others \<Rightarrow> string \<Rightarrow> string \<Rightarrow> string \<Rightarrow> string \<Rightarrow> ('f, 'ps) manager \<Rightarrow> ('f, 'ps) tab_result" where
  "create_web_pane env others tab url target direction =
     insert_non_terminal_pane env others tab target direction
       (plain_leaf ''web'' (te_uuid env 0) url [(''url'', url), (''sourcePaneId'', target)]) (te_uuid env 0)"

text \<open>A plugin's tab and its only pane have the same id, the client's if it sends one.\<close>

definition create_plugin_tab :: "('f, 'ps) tab_env \<Rightarrow> ('f, 'ps) others \<Rightarrow> plugin_tab_req \<Rightarrow> ('f, 'ps) manager \<Rightarrow> ('f, 'ps) tab_result" where
  "create_plugin_tab env others req m =
     (let tab = (case pt_tab req of Some t \<Rightarrow> t | None \<Rightarrow> te_uuid env 0);
          layout = plain_leaf ''plugin'' tab (case pt_title req of Some t \<Rightarrow> t | None \<Rightarrow> pt_plugin req) [(''pluginId'', pt_plugin req)];
          m1 = others 0 (update_layout tab (tab_value layout tab) (Some tab) m) in
      (Inr (TabMade tab tab layout None None None), broadcast_sync (TabCreated tab tab (Some layout) None None None) m1))"

end
