(* ===== verification/ManagerProps.thy ===== *)
theory ManagerProps
  imports ManagerCore LayoutProps
begin

section \<open>Invariants of the session manager\<close>

subsection \<open>The bookkeeping invariant\<close>

text \<open>
  The tab order lists each tab exactly once; a pane has at most one session and none while it is
  reserved; no session is registered under two panes.
\<close>

definition tabs_ok :: "('f, 'ps) manager \<Rightarrow> bool" where
  "tabs_ok m \<longleftrightarrow> al_wf (mg_layouts m) \<and> distinct (mg_order m) \<and> set (mg_order m) = fst ` set (mg_layouts m)"

definition sessions_ok :: "('f, 'ps) manager \<Rightarrow> bool" where
  "sessions_ok m \<longleftrightarrow> al_wf (mg_sessions m) \<and> al_wf (mg_unowned m) \<and>
     (\<forall>p \<in> set (mg_reserved m). map_of (mg_sessions m) p = None)"

definition manager_ok :: "('f, 'ps) manager \<Rightarrow> bool" where
  "manager_ok m \<longleftrightarrow> tabs_ok m \<and> sessions_ok m"

text \<open>Parts of the state that most helpers leave alone.\<close>

definition same_tabs :: "('f, 'ps) manager \<Rightarrow> ('f, 'ps) manager \<Rightarrow> bool" where
  "same_tabs m m' \<longleftrightarrow> mg_layouts m' = mg_layouts m \<and> mg_order m' = mg_order m"

definition same_sessions :: "('f, 'ps) manager \<Rightarrow> ('f, 'ps) manager \<Rightarrow> bool" where
  "same_sessions m m' \<longleftrightarrow> mg_sessions m' = mg_sessions m \<and> mg_reserved m' = mg_reserved m \<and> mg_unowned m' = mg_unowned m"

named_theorems frames \<open>what an operation of the manager leaves alone\<close>

lemma tabs_ok_same: "same_tabs m m' \<Longrightarrow> tabs_ok m' = tabs_ok m"
  by (simp add: same_tabs_def tabs_ok_def)

lemma sessions_ok_same: "same_sessions m m' \<Longrightarrow> sessions_ok m' = sessions_ok m"
  by (simp add: same_sessions_def sessions_ok_def)

lemma tabs_ok_update [simp]:
  "tabs_ok (m\<lparr>mg_unowned := us\<rparr>) = tabs_ok m" "tabs_ok (m\<lparr>mg_sessions := ss\<rparr>) = tabs_ok m"
  "tabs_ok (m\<lparr>mg_active := act\<rparr>) = tabs_ok m" "tabs_ok (m\<lparr>mg_reserved := rs\<rparr>) = tabs_ok m"
  "tabs_ok (m\<lparr>mg_snapshots := n\<rparr>) = tabs_ok m" "tabs_ok (m\<lparr>mg_sync_clients := cs\<rparr>) = tabs_ok m"
  by (simp_all add: tabs_ok_def)

lemma same_trans:
  "same_tabs a b \<Longrightarrow> same_tabs b c \<Longrightarrow> same_tabs a c"
  "same_sessions a b \<Longrightarrow> same_sessions b c \<Longrightarrow> same_sessions a c"
  by (simp_all add: same_tabs_def same_sessions_def)

lemma same_refl [simp]: "same_tabs m m" "same_sessions m m"
  by (simp_all add: same_tabs_def same_sessions_def)

lemma broadcast_frame [frames]:
  "same_tabs m (broadcast_sync msg m)" "same_sessions m (broadcast_sync msg m)"
  by (simp_all add: broadcast_sync_def publish_bus_def same_tabs_def same_sessions_def split: option.split)

lemma fold_frame:
  assumes "\<And>x m. same_tabs m (f x m)" "\<And>x m. same_sessions m (f x m)"
  shows "same_tabs m (fold f xs m) \<and> same_sessions m (fold f xs m)"
proof (induction xs arbitrary: m)
  case (Cons x xs)
  then show ?case using assms same_trans by (metis fold_simps(2))
qed simp

lemma broadcast_changes_frame [frames]:
  "same_tabs m (broadcast_layout_changes ch m)" "same_sessions m (broadcast_layout_changes ch m)"
proof -
  let ?m1 = "fold (\<lambda>tab. broadcast_sync (TabClosed tab)) (lc_closed ch) m"
  have "same_tabs m ?m1 \<and> same_sessions m ?m1" by (rule fold_frame) (rule broadcast_frame)+
  moreover have "same_tabs ?m1 (broadcast_layout_changes ch m) \<and> same_sessions ?m1 (broadcast_layout_changes ch m)"
    unfolding broadcast_layout_changes_def by (rule fold_frame) (rule broadcast_frame)+
  ultimately show "same_tabs m (broadcast_layout_changes ch m)" "same_sessions m (broadcast_layout_changes ch m)"
    using same_trans by blast+
qed

lemma insert_tab_sessions [frames]: "same_sessions m (insert_tab tab v m)"
  by (simp add: insert_tab_def schedule_snapshot_def same_sessions_def)

lemma remove_tab_sessions [frames]: "same_sessions m (snd (remove_tab tab m))"
  by (simp add: remove_tab_def schedule_snapshot_def same_sessions_def Let_def)

lemma tabs_ok_insert: "tabs_ok m \<Longrightarrow> tabs_ok (insert_tab tab v m)"
  by (auto simp: tabs_ok_def insert_tab_def schedule_snapshot_def al_wf_put set_keys_al_put)

lemma keys_al_del: "fst ` set (al_del k m) = fst ` set m - {k}"
  by (rule set_keys_al_del)

lemma tabs_ok_remove: "tabs_ok m \<Longrightarrow> tabs_ok (snd (remove_tab tab m))"
  by (auto simp: tabs_ok_def remove_tab_def schedule_snapshot_def Let_def al_wf_del keys_al_del)

lemma fold_keeps:
  assumes "\<And>x m. P m \<Longrightarrow> P (f x m)" "P m"
  shows "P (fold f xs m)"
  using assms(2) by (induction xs arbitrary: m) (simp_all add: assms(1))

lemma fold_sessions:
  assumes "\<And>x m. same_sessions m (f x m)"
  shows "same_sessions m (fold f xs m)"
proof (induction xs arbitrary: m)
  case (Cons x xs)
  then show ?case using assms same_trans(2) by (metis fold_simps(2))
qed simp

lemma purge_ok:
  assumes "purge_pane_from_layouts recip pane skip m = (ch, m')"
  shows "(tabs_ok m \<longrightarrow> tabs_ok m') \<and> same_sessions m m'"
proof -
  obtain ups ems where m': "m' = fold (\<lambda>tab m. snd (remove_tab tab m)) ems (fold (\<lambda>(tab, v). insert_tab tab v) ups m)"
    using assms by (auto simp: purge_pane_from_layouts_def Let_def)
  let ?m1 = "fold (\<lambda>(tab, v). insert_tab tab v) ups m"
  have "tabs_ok ?m1" if "tabs_ok m"
    by (rule fold_keeps [where P = tabs_ok, OF _ that]) (auto intro: tabs_ok_insert)
  moreover have "tabs_ok m'" if "tabs_ok ?m1"
    unfolding m' by (rule fold_keeps [where P = tabs_ok, OF _ that]) (rule tabs_ok_remove)
  moreover have "same_sessions m ?m1"
    by (rule fold_sessions) (auto intro: insert_tab_sessions)
  moreover have "same_sessions ?m1 m'"
    unfolding m' by (rule fold_sessions) (rule remove_tab_sessions)
  ultimately show ?thesis using same_trans by blast
qed

lemma collect_close_ok:
  assumes "collect_layout_close recip pane fb m = (ch, m')"
  shows "(tabs_ok m \<longrightarrow> tabs_ok m') \<and> same_sessions m m'"
proof -
  obtain ch1 m1 where p: "purge_pane_from_layouts recip pane False m = (ch1, m1)" by force
  have "same_tabs m1 m' \<and> same_sessions m1 m'"
    using assms p by (auto simp: collect_layout_close_def same_tabs_def same_sessions_def)
  then show ?thesis using purge_ok [OF p] tabs_ok_same same_trans(2) by blast
qed

lemma execute_frame [frames]:
  "same_tabs m (execute_close_plan ev pane reason kills code plan m)"
  "same_sessions m (execute_close_plan ev pane reason kills code plan m)"
proof -
  obtain ok m1 where c: "confirm_termination ev pane reason kills (cp_session plan) m = (ok, m1)" by force
  have f1: "same_tabs m m1 \<and> same_sessions m m1"
    using c by (auto simp: confirm_termination_def Let_def on_hosted_def same_tabs_def same_sessions_def split: if_splits prod.splits)
  let ?m2 = "if ok then forget_process ev pane m1 else m1"
  have f2: "same_tabs m1 ?m2 \<and> same_sessions m1 ?m2"
    by (simp add: forget_process_def same_tabs_def same_sessions_def split: prod.split)
  define m4 where "m4 = publish_bus (Some (SessionClosedEv pane code)) (pane_closed_notify pane
    (on_hosted (cp_session plan) (\<lambda>h. h\<lparr>hs_input_open := False, hs_output := hs_output h @ [[]],
                 hs_session := snd (notify_exit_and_mark_exited pane code (hs_session h))\<rparr>) ?m2))"
  have f4: "same_tabs ?m2 m4 \<and> same_sessions ?m2 m4"
    by (simp add: m4_def publish_bus_def pane_closed_notify_def on_hosted_def same_tabs_def same_sessions_def)
  define m5 where "m5 = broadcast_layout_changes (cp_changes plan) m4"
  have f5: "same_tabs m4 m5 \<and> same_sessions m4 m5" unfolding m5_def by (simp add: frames)
  have e: "execute_close_plan ev pane reason kills code plan m =
      (let m6 = on_hosted (cp_session plan) (\<lambda>h. h\<lparr>hs_on_exit := False\<rparr>) m5 in
       if hs_on_exit (mg_store m5 (cp_session plan)) then m6\<lparr>mg_exit_calls := mg_exit_calls m6 @ [(pane, code)]\<rparr> else m6)"
    by (simp add: execute_close_plan_def c m5_def m4_def Let_def)
  have f6: "same_tabs m5 (execute_close_plan ev pane reason kills code plan m) \<and>
      same_sessions m5 (execute_close_plan ev pane reason kills code plan m)"
    by (simp add: e Let_def on_hosted_def same_tabs_def same_sessions_def)
  show "same_tabs m (execute_close_plan ev pane reason kills code plan m)"
    by (rule same_trans(1) [OF same_trans(1) [OF same_trans(1) [OF same_trans(1) [OF
      conjunct1 [OF f1] conjunct1 [OF f2]] conjunct1 [OF f4]] conjunct1 [OF f5]] conjunct1 [OF f6]])
  show "same_sessions m (execute_close_plan ev pane reason kills code plan m)"
    by (rule same_trans(2) [OF same_trans(2) [OF same_trans(2) [OF same_trans(2) [OF
      conjunct2 [OF f1] conjunct2 [OF f2]] conjunct2 [OF f4]] conjunct2 [OF f5]] conjunct2 [OF f6]])
qed

subsection \<open>Closing\<close>

lemma remove_session_spec:
  assumes "remove_session recip pane expected m = (r, m')"
  shows "case r of
      None \<Rightarrow> m' = m \<and> \<not> (\<exists>a. map_of (mg_sessions m) pane = Some a \<and> expected \<in> {None, Some a})
    | Some plan \<Rightarrow> map_of (mg_sessions m) pane = Some (cp_session plan) \<and> expected \<in> {None, Some (cp_session plan)} \<and>
        mg_sessions m' = al_del pane (mg_sessions m) \<and> mg_unowned m' = al_del pane (mg_unowned m) \<and>
        mg_reserved m' = mg_reserved m \<and> (tabs_ok m \<longrightarrow> tabs_ok m')"
proof (cases "\<exists>a. map_of (mg_sessions m) pane = Some a \<and> expected \<in> {None, Some a}")
  case False
  then have "r = None \<and> m' = m" using assms by (cases "map_of (mg_sessions m) pane") (auto simp: remove_session_def)
  then show ?thesis using False by simp
next
  case True
  then obtain a where a: "map_of (mg_sessions m) pane = Some a" "expected \<in> {None, Some a}" by blast
  let ?m1 = "m\<lparr>mg_sessions := al_del pane (mg_sessions m), mg_unowned := al_del pane (mg_unowned m)\<rparr>"
  obtain ch m2 where c: "collect_layout_close recip pane True ?m1 = (ch, m2)" by force
  have r: "r = Some \<lparr>cp_session = a, cp_changes = ch\<rparr>" "m' = m2"
    using assms a c by (auto simp: remove_session_def)
  have "tabs_ok ?m1 = tabs_ok m" by (simp add: tabs_ok_def)
  then show ?thesis using collect_close_ok [OF c] a r by (auto simp: same_sessions_def)
qed

lemma close_with_spec:
  assumes "close_with recip ev pane expected reason kills code m = (ok, m')"
  shows "(ok \<longleftrightarrow> (\<exists>a. map_of (mg_sessions m) pane = Some a \<and> expected \<in> {None, Some a})) \<and>
    (ok \<longrightarrow> mg_sessions m' = al_del pane (mg_sessions m) \<and> mg_unowned m' = al_del pane (mg_unowned m) \<and>
       mg_reserved m' = mg_reserved m \<and> (tabs_ok m \<longrightarrow> tabs_ok m')) \<and>
    (\<not> ok \<longrightarrow> m' = m)"
proof -
  obtain r m1 where r: "remove_session recip pane expected m = (r, m1)" by force
  note s = remove_session_spec [OF r]
  show ?thesis
  proof (cases r)
    case None
    then show ?thesis using assms r s by (auto simp: close_with_def)
  next
    case (Some plan)
    then have e: "ok" "m' = execute_close_plan ev pane reason kills code plan m1" using assms r by (auto simp: close_with_def)
    have "same_tabs m1 m'" "same_sessions m1 m'" unfolding e(2) by (rule execute_frame)+
    then show ?thesis using s Some e(1) tabs_ok_same [of m1 m'] by (auto simp: same_sessions_def)
  qed
qed

lemma try_reap_spec:
  assumes "try_reap_session recip ev now pane a m = (ok, m')"
  shows "(ok \<longleftrightarrow> \<not> pane_is_referenced pane m \<and> \<not> connected a m \<and> map_of (mg_sessions m) pane = Some a \<and>
       (\<exists>since. map_of (mg_unowned m) pane = Some since \<and> SESSION_UNOWNED_GRACE \<le> duration_since now since)) \<and>
    (ok \<longrightarrow> mg_sessions m' = al_del pane (mg_sessions m)) \<and> (\<not> ok \<longrightarrow> mg_sessions m' = mg_sessions m) \<and>
    mg_reserved m' = mg_reserved m \<and> (tabs_ok m \<longrightarrow> tabs_ok m') \<and> (al_wf (mg_unowned m) \<longrightarrow> al_wf (mg_unowned m'))"
proof -
  have g: "0 < SESSION_UNOWNED_GRACE" by (simp add: SESSION_UNOWNED_GRACE_def from_secs_def NANOS_def)
  show ?thesis
  proof (cases "pane_is_referenced pane m")
    case True
    then show ?thesis using assms by (auto simp: try_reap_session_def al_wf_del)
  next
    case False
    show ?thesis
    proof (cases "map_of (mg_unowned m) pane")
      case None
      then show ?thesis
        using assms False g by (auto simp: try_reap_session_def Let_def duration_since_def al_wf_put)
    next
      case (Some t)
      show ?thesis
      proof (cases "duration_since now t < SESSION_UNOWNED_GRACE \<or> connected a m")
        case True
        then show ?thesis using assms False Some by (auto simp: try_reap_session_def Let_def)
      next
        case go: False
        then have "close_with recip ev pane (Some a) Reaped True None m = (ok, m')"
          using assms False Some by (simp add: try_reap_session_def Let_def)
        from close_with_spec [OF this] go False Some show ?thesis by (auto simp: al_wf_del)
      qed
    qed
  qed
qed

subsection \<open>Steps\<close>

datatype 'f mgr_op =
    MInsertTab string "'f json"
  | MRemoveTab string
  | MUpdateLayout string "'f json" "string option"
  | MRename string string
  | MReorder "string list"
  | MTabFor string addr string "'f json" string
  | MSetActive "string option"
  | MInsert string addr
  | MReserve string
  | MPublish string addr
  | MDropReservation string
  | MRecheck string addr
  | MPurge string bool
  | MTabList
  | MPtyExited string
  | MClose close_env string "addr option" close_reason bool "int option"
  | MClosePane close_env string
  | MTick "nat \<Rightarrow> close_env" instant "nat \<Rightarrow> instant"
  | MAddSync string

definition mgr_step :: "(nat \<Rightarrow> 'f) \<Rightarrow> 'f mgr_op \<Rightarrow> ('f, 'ps) manager \<Rightarrow> bool \<times> ('f, 'ps) manager" where
  "mgr_step recip op m =
     (case op of
        MInsertTab tab v \<Rightarrow> (True, insert_tab tab v m)
      | MRemoveTab tab \<Rightarrow> remove_tab tab m
      | MUpdateLayout tab v a \<Rightarrow> (True, update_layout tab v a m)
      | MRename tab title \<Rightarrow> rename_tab tab title m
      | MReorder ts \<Rightarrow> (let (r, m') = reorder_tabs ts m in (r \<noteq> None, m'))
      | MTabFor p a tab v act \<Rightarrow> insert_tab_for_session p a tab v act m
      | MSetActive p \<Rightarrow> (True, set_active_pane_id p m)
      | MInsert p a \<Rightarrow> insert_session p a m
      | MReserve p \<Rightarrow> (let (r, m') = reserve_session p m in (r = Inr (), m'))
      | MPublish p a \<Rightarrow> publish_reserved p a m
      | MDropReservation p \<Rightarrow> (True, drop_reservation p m)
      | MRecheck p a \<Rightarrow> (True, recheck_publish_or_correct recip p a m)
      | MPurge p skip \<Rightarrow> (True, snd (purge_pane_from_layouts recip p skip m))
      | MTabList \<Rightarrow> (True, snd (tab_list m))
      | MPtyExited p \<Rightarrow> (let (r, m') = on_pty_exited recip p m in (r \<noteq> None, m'))
      | MClose ev p ex reason kills code \<Rightarrow> close_with recip ev p ex reason kills code m
      | MClosePane ev p \<Rightarrow> close_pane recip ev p m
      | MTick ev now clock \<Rightarrow> (let (n, m') = cleanup_tick recip ev now clock m in (0 < n, m'))
      | MAddSync uuid \<Rightarrow> (True, add_sync_client uuid m))"

subsection \<open>Reordering\<close>

lemma requested_order_spec:
  "requested_order known ts seen = (new, seen') \<Longrightarrow>
     set seen' = set seen \<union> set ts \<and> distinct new \<and> set new = {t \<in> set ts. t \<in> set known \<and> t \<notin> set seen}"
proof (induction ts arbitrary: seen new seen')
  case (Cons t ts)
  obtain n1 s1 where r: "requested_order known ts (t # seen) = (n1, s1)" by force
  from Cons.IH [OF r] Cons.prems r show ?case by (auto simp: Let_def split: if_splits)
qed simp

lemma reorder_spec:
  assumes "reorder_tabs ts m = (r, m')" "tabs_ok m"
  shows "tabs_ok m' \<and> same_sessions m m' \<and> mg_layouts m' = mg_layouts m \<and> mset (mg_order m') = mset (mg_order m) \<and>
    (case r of None \<Rightarrow> m' = m | Some o' \<Rightarrow> mg_order m' = o' \<and> o' \<noteq> mg_order m \<and>
       o' = fst (requested_order (map fst (mg_layouts m)) ts []) @ filter (\<lambda>t. t \<notin> set ts) (mg_order m))"
proof -
  obtain new seen where n: "requested_order (map fst (mg_layouts m)) ts [] = (new, seen)" by force
  note s = requested_order_spec [OF n]
  let ?o = "new @ filter (\<lambda>t. t \<notin> set seen) (mg_order m)"
  show ?thesis
  proof (cases "new = [] \<or> mg_order m = ?o")
    case True
    then have "r = None \<and> m' = m" using assms(1) n by (cases "new = []") (simp_all add: reorder_tabs_def Let_def)
    then show ?thesis using assms(2) by simp
  next
    case False
    then have r: "r = Some ?o" "m' = schedule_snapshot (m\<lparr>mg_order := ?o\<rparr>)"
      using assms(1) n by (auto simp: reorder_tabs_def Let_def)
    have o: "distinct (mg_order m)" "set (mg_order m) = fst ` set (mg_layouts m)" using assms(2) by (simp_all add: tabs_ok_def)
    have d: "distinct ?o" "set ?o = set (mg_order m)" using s o by auto
    then have "mset ?o = mset (mg_order m)" using o(1) by (metis set_eq_iff_mset_eq_distinct)
    moreover have "tabs_ok m'" using d assms(2) r(2) by (auto simp: tabs_ok_def schedule_snapshot_def)
    moreover have "filter (\<lambda>t. t \<notin> set seen) (mg_order m) = filter (\<lambda>t. t \<notin> set ts) (mg_order m)" using s by simp
    ultimately show ?thesis using r False n by (auto simp: schedule_snapshot_def same_sessions_def)
  qed
qed

text \<open>
  Reordering tabs is a permutation: no tab is lost, doubled or invented. The known tabs of the
  request come first, in the order in which the request names them, then the others in their old order;
  and the layouts are untouched. When the answer is \<open>None\<close>, nothing has changed.
\<close>
theorem reorder_permutes:
  assumes "reorder_tabs ts m = (r, m')" and "tabs_ok m"
  shows "mset (mg_order m') = mset (mg_order m) \<and> mg_layouts m' = mg_layouts m \<and>
    (case r of None \<Rightarrow> m' = m
     | Some new \<Rightarrow> mg_order m' = new \<and> new \<noteq> mg_order m \<and>
         new = fst (requested_order (map fst (mg_layouts m)) ts []) @ filter (\<lambda>t. t \<notin> set ts) (mg_order m))"
  using reorder_spec [OF assms] by (simp split: option.splits)

subsection \<open>Every step keeps the invariant\<close>

lemma al_del_None: "map_of m k = None \<Longrightarrow> al_del k m = m"
  by (induction m) (auto simp: al_del_def split: if_splits)

lemma update_layout_frame: "(tabs_ok m \<longrightarrow> tabs_ok (update_layout tab v a m)) \<and> same_sessions m (update_layout tab v a m)"
  using tabs_ok_insert [of m tab v] insert_tab_sessions [of m tab v]
  by (auto simp: update_layout_def same_sessions_def Let_def split: option.split)

lemma rename_frame:
  assumes "rename_tab tab title m = (r, m')"
  shows "(tabs_ok m \<longrightarrow> tabs_ok m') \<and> same_sessions m m'"
proof (cases "\<exists>kvs. map_of (mg_layouts m) tab = Some (JObj kvs)")
  case False
  then have "m' = m" using assms by (auto simp: rename_tab_def split: option.splits json.splits)
  then show ?thesis by simp
next
  case True
  then obtain kvs where k: "map_of (mg_layouts m) tab = Some (JObj kvs)" by blast
  then have "tab \<in> fst ` set (mg_layouts m)" by (metis domI dom_map_of_conv_image_fst)
  then have keys: "fst ` set (al_put tab v (mg_layouts m)) = fst ` set (mg_layouts m)" for v
    by (simp add: set_keys_al_put insert_absorb)
  have "m' = schedule_snapshot (m\<lparr>mg_layouts := al_put tab (JObj (obj_put ''title'' (JStr title) kvs)) (mg_layouts m)\<rparr>)"
    using assms k by (simp add: rename_tab_def)
  then show ?thesis by (simp add: schedule_snapshot_def tabs_ok_def same_sessions_def al_wf_put keys)
qed

lemma tab_list_frame: "(tabs_ok m \<longrightarrow> tabs_ok (snd (tab_list m))) \<and> same_sessions m (snd (tab_list m))"
proof -
  let ?f = "\<lambda>tab m. snd (remove_tab tab m) :: ('a, 'b) manager"
  have "tabs_ok m \<Longrightarrow> tabs_ok (fold ?f xs m)" for xs
    by (rule fold_keeps [where P = tabs_ok]) (rule tabs_ok_remove)
  moreover have "same_sessions m (fold ?f xs m)" for xs
    by (rule fold_sessions) (rule remove_tab_sessions)
  ultimately show ?thesis by (simp add: tab_list_def Let_def)
qed

lemma fold_broadcast_frame:
  "same_tabs m (fold (\<lambda>x. broadcast_sync (f x)) xs m) \<and> same_sessions m (fold (\<lambda>x. broadcast_sync (f x)) xs m)"
  by (rule fold_frame) (rule broadcast_frame)+

lemma pty_exited_frame:
  assumes "on_pty_exited recip p m = (r, m')"
  shows "(tabs_ok m \<longrightarrow> tabs_ok m') \<and> same_sessions m m'"
proof -
  obtain ch m1 where p: "purge_pane_from_layouts recip p False m = (ch, m1)" by force
  have "same_tabs m1 m' \<and> same_sessions m1 m'"
    using assms p fold_broadcast_frame [of m1 "\<lambda>u. LayoutUpdated (lu_tab u) (lu_layout u) (lu_active u)"]
    by (auto simp: on_pty_exited_def)
  then show ?thesis using purge_ok [OF p] tabs_ok_same same_trans(2) by blast
qed

lemma recheck_frame: "(tabs_ok m \<longrightarrow> tabs_ok (recheck_publish_or_correct recip p a m)) \<and>
    same_sessions m (recheck_publish_or_correct recip p a m)"
proof (cases "is_current_session p a m")
  case True
  then show ?thesis by (simp add: recheck_publish_or_correct_def)
next
  case False
  obtain ch m1 where pu: "purge_pane_from_layouts recip p True m = (ch, m1)" by force
  have r: "recheck_publish_or_correct recip p a m = broadcast_layout_changes ch m1"
    using False pu by (simp add: recheck_publish_or_correct_def)
  show ?thesis unfolding r
    using purge_ok [OF pu] broadcast_changes_frame [of m1 ch] tabs_ok_same same_trans(2) by blast
qed

lemma close_pane_frame:
  assumes "close_pane recip ev p m = (ok, m')"
  shows "(tabs_ok m \<longrightarrow> tabs_ok m') \<and> mg_reserved m' = mg_reserved m \<and>
    (mg_sessions m' = al_del p (mg_sessions m) \<and> mg_unowned m' = al_del p (mg_unowned m) \<or> same_sessions m m')"
proof -
  obtain r m1 where r: "remove_session recip p None m = (r, m1)" by force
  note s = remove_session_spec [OF r]
  show ?thesis
  proof (cases r)
    case (Some plan)
    then have e: "m' = execute_close_plan ev p Explicit True None plan m1" using assms r by (auto simp: close_pane_def)
    have "same_tabs m1 m'" "same_sessions m1 m'" unfolding e by (rule execute_frame)+
    then show ?thesis using s Some tabs_ok_same [of m1 m'] by (auto simp: same_sessions_def)
  next
    case None
    obtain ch m2 where c: "collect_layout_close recip p False m = (ch, m2)" by force
    have "m' = m2 \<or> m' = broadcast_layout_changes ch m2"
      using assms r s None c by (auto simp: close_pane_def split: if_splits)
    then have "same_tabs m2 m' \<and> same_sessions m2 m'" using broadcast_changes_frame [of m2 ch] by auto
    then show ?thesis using collect_close_ok [OF c] tabs_ok_same [of m2 m'] by (auto simp: same_sessions_def)
  qed
qed

lemma reconcile_keeps_wf:
  "reconcile_loop refs now ps (st, found, us) = (st', found', us') \<Longrightarrow> al_wf us \<Longrightarrow> al_wf us'"
  by (induction ps arbitrary: st found us)
    (auto simp: Let_def al_wf_del al_wf_put split: if_splits option.splits)

lemma scan_frame:
  assumes "scan_unowned_sessions now m = (st, found, m')"
  shows "same_tabs m m' \<and> mg_sessions m' = mg_sessions m \<and> mg_reserved m' = mg_reserved m \<and>
    mg_store m' = mg_store m \<and> (al_wf (mg_unowned m) \<longrightarrow> al_wf (mg_unowned m'))"
proof -
  obtain st' fs us where r: "reconcile_unowned_since (map fst (mg_sessions m)) (referenced_pane_ids m) (mg_unowned m) now = (st', fs, us)"
    by (metis prod_cases3)
  then have "al_wf (mg_unowned m) \<longrightarrow> al_wf us"
    using reconcile_keeps_wf al_wf_filter unfolding reconcile_unowned_since_def by blast
  then show ?thesis using assms r by (auto simp: scan_unowned_sessions_def same_tabs_def)
qed

lemma manager_ok_del:
  assumes "manager_ok m" "tabs_ok m'" "al_wf (mg_unowned m')" "mg_reserved m' = mg_reserved m"
    "mg_sessions m' = mg_sessions m \<or> mg_sessions m' = al_del p (mg_sessions m)"
  shows "manager_ok m'"
  using assms by (auto simp: manager_ok_def sessions_ok_def al_wf_del map_of_al_del)

lemma try_reap_ok: "manager_ok m \<Longrightarrow> manager_ok (snd (try_reap_session recip ev now p a m))"
  by (rule manager_ok_del [where p = p and m = m])
    (use try_reap_spec [of recip ev now p a m, OF surjective_pairing] in \<open>auto simp: manager_ok_def sessions_ok_def\<close>)

lemma reap_all_ok: "manager_ok m \<Longrightarrow> manager_ok (snd (reap_all recip ev clock cs n m))"
proof (induction recip ev clock cs n m rule: reap_all.induct)
  case (2 recip ev clock p a rest n m)
  then show ?case using try_reap_ok [of m recip "ev (length rest)" "clock (length rest)" p a]
    by (auto simp: split_beta Let_def)
qed simp

lemma manager_ok_same: "manager_ok m \<Longrightarrow> (tabs_ok m \<longrightarrow> tabs_ok m') \<and> same_sessions m m' \<Longrightarrow> manager_ok m'"
  using sessions_ok_same by (auto simp: manager_ok_def)

lemma cleanup_ok: "manager_ok m \<Longrightarrow> manager_ok (snd (cleanup_tick recip ev now clock m))"
proof -
  assume m: "manager_ok m"
  obtain st found m1 where s: "scan_unowned_sessions now m = (st, found, m1)" by (metis prod_cases3)
  have "tabs_ok m1" using scan_frame [OF s] m tabs_ok_same by (auto simp: manager_ok_def)
  then have "manager_ok m1" using m scan_frame [OF s] by (auto simp: manager_ok_def sessions_ok_def)
  then show ?thesis using reap_all_ok s by (simp add: cleanup_tick_def)
qed

lemma step_ok:
  assumes "manager_ok m"
  shows "manager_ok (snd (mgr_step recip op m))"
proof -
  note pair = surjective_pairing
  show ?thesis
  proof (cases op)
    case (MInsertTab tab v)
    then show ?thesis using manager_ok_same [OF assms conjI, OF impI insert_tab_sessions, OF tabs_ok_insert] by (simp add: mgr_step_def)
  next
    case (MRemoveTab tab)
    then show ?thesis using manager_ok_same [OF assms conjI, OF impI remove_tab_sessions, OF tabs_ok_remove] by (simp add: mgr_step_def)
  next
    case (MUpdateLayout tab v a)
    then show ?thesis using manager_ok_same [OF assms update_layout_frame] by (simp add: mgr_step_def)
  next
    case (MRename tab title)
    then show ?thesis using manager_ok_same [OF assms rename_frame [OF pair]] by (simp add: mgr_step_def)
  next
    case (MReorder ts)
    then show ?thesis using reorder_spec [OF surjective_pairing [of "reorder_tabs ts m"]] manager_ok_same [OF assms] assms
      by (simp add: mgr_step_def split_beta Let_def manager_ok_def)
  next
    case (MTabFor p a tab v act)
    then show ?thesis using manager_ok_same [OF assms update_layout_frame] assms
      by (simp add: mgr_step_def insert_tab_for_session_def)
  next
    case (MRecheck p a)
    then show ?thesis using manager_ok_same [OF assms recheck_frame] by (simp add: mgr_step_def)
  next
    case (MPurge p skip)
    then show ?thesis using manager_ok_same [OF assms purge_ok [OF pair]] by (simp add: mgr_step_def)
  next
    case MTabList
    then show ?thesis using manager_ok_same [OF assms tab_list_frame] by (simp add: mgr_step_def)
  next
    case (MPtyExited p)
    then show ?thesis using manager_ok_same [OF assms pty_exited_frame [OF pair]] by (simp add: mgr_step_def split_beta Let_def)
  next
    case (MClose ev p ex reason kills code)
    then show ?thesis using close_with_spec [OF surjective_pairing [of "close_with recip ev p ex reason kills code m"]] assms
      by (cases "fst (close_with recip ev p ex reason kills code m)")
        (auto simp: mgr_step_def manager_ok_def sessions_ok_def al_wf_del map_of_al_del)
  next
    case (MClosePane ev p)
    from close_pane_frame [OF surjective_pairing [of "close_pane recip ev p m"]] show ?thesis
      using MClosePane assms by (auto simp: mgr_step_def manager_ok_def sessions_ok_def al_wf_del map_of_al_del same_sessions_def)
  next
    case (MTick ev now clock)
    then show ?thesis using cleanup_ok [OF assms] by (simp add: mgr_step_def split_beta Let_def)
  qed (use assms in \<open>auto simp: mgr_step_def set_active_pane_id_def schedule_snapshot_def insert_session_def reserve_session_def
      publish_reserved_def drop_reservation_def add_sync_client_def manager_ok_def sessions_ok_def tabs_ok_def al_wf_put al_wf_del
      map_of_al_put map_of_al_del Let_def split: if_splits\<close>)
qed

subsection \<open>Where sessions come from and reservations go\<close>

text \<open>Most steps only take sessions away, and leave the reservations alone.\<close>

definition shrinks :: "('f, 'ps) manager \<Rightarrow> ('f, 'ps) manager \<Rightarrow> bool" where
  "shrinks m m' \<longleftrightarrow> map_of (mg_sessions m') \<subseteq>\<^sub>m map_of (mg_sessions m) \<and> mg_reserved m' = mg_reserved m"

lemma shrinks_same: "same_sessions m m' \<Longrightarrow> shrinks m m'"
  by (simp add: shrinks_def same_sessions_def)

lemma shrinks_del: "mg_sessions m' = al_del p (mg_sessions m) \<Longrightarrow> mg_reserved m' = mg_reserved m \<Longrightarrow> shrinks m m'"
  by (auto simp: shrinks_def map_of_al_del map_le_def)

lemma shrinks_trans: "shrinks a b \<Longrightarrow> shrinks b c \<Longrightarrow> shrinks a c"
  using map_le_trans by (auto simp: shrinks_def)

lemma shrinks_refl [simp]: "shrinks m m"
  by (simp add: shrinks_def)

lemma try_reap_shrinks: "shrinks m (snd (try_reap_session recip ev now p a m))"
proof -
  note s = try_reap_spec [OF surjective_pairing [of "try_reap_session recip ev now p a m"]]
  then show ?thesis
    by (cases "fst (try_reap_session recip ev now p a m)") (simp_all add: shrinks_del, simp add: shrinks_def)
qed

lemma reap_all_shrinks: "shrinks m (snd (reap_all recip ev clock cs n m))"
proof (induction cs arbitrary: n m)
  case (Cons c cs)
  obtain p a where c: "c = (p, a)" by fastforce
  obtain ok m1 where t: "try_reap_session recip (ev (length cs)) (clock (length cs)) p a m = (ok, m1)" by fastforce
  then have "shrinks m m1" using try_reap_shrinks by (metis snd_conv)
  then show ?case using shrinks_trans [OF _ Cons.IH] t c by simp
qed simp

lemma cleanup_shrinks: "shrinks m (snd (cleanup_tick recip ev now clock m))"
proof -
  obtain st found m1 where s: "scan_unowned_sessions now m = (st, found, m1)" by (metis prod_cases3)
  then have "shrinks m m1" using scan_frame [OF s] by (simp add: shrinks_def)
  then show ?thesis using reap_all_shrinks shrinks_trans s by (fastforce simp: cleanup_tick_def)
qed

lemma close_shrinks: "shrinks m (snd (close_with recip ev p ex reason kills code m))"
  using close_with_spec [OF surjective_pairing [of "close_with recip ev p ex reason kills code m"]]
  by (cases "fst (close_with recip ev p ex reason kills code m)") (auto intro: shrinks_del)

lemma close_pane_shrinks: "shrinks m (snd (close_pane recip ev p m))"
  using close_pane_frame [OF surjective_pairing [of "close_pane recip ev p m"]] by (auto intro: shrinks_del shrinks_same)

text \<open>The operations that hand out panes.\<close>

fun hands_out :: "'f mgr_op \<Rightarrow> bool" where
  "hands_out (MInsert p a) = True"
| "hands_out (MReserve p) = True"
| "hands_out (MPublish p a) = True"
| "hands_out (MDropReservation p) = True"
| "hands_out _ = False"

lemma same_sessions_update [simp]:
  "same_sessions m (m\<lparr>mg_sync_clients := cs\<rparr>)" "same_sessions m (m\<lparr>mg_active := p, mg_snapshots := n\<rparr>)"
  by (simp_all add: same_sessions_def)

lemma reorder_frame: "same_sessions m (snd (reorder_tabs ts m))"
  by (simp add: reorder_tabs_def schedule_snapshot_def same_sessions_def Let_def split: prod.split)

lemma tab_for_shrinks: "shrinks m (snd (mgr_step recip (MTabFor p a tab v act) m))"
  by (simp add: mgr_step_def insert_tab_for_session_def shrinks_same [OF conjunct2 [OF update_layout_frame]])

lemma other_steps_shrink: "\<not> hands_out op \<Longrightarrow> shrinks m (snd (mgr_step recip op m))"
  by (induction op rule: hands_out.induct)
    (simp_all only: tab_for_shrinks, auto simp: mgr_step_def split_beta Let_def set_active_pane_id_def schedule_snapshot_def add_sync_client_def
    close_shrinks close_pane_shrinks cleanup_shrinks
    intro!: shrinks_same insert_tab_sessions remove_tab_sessions reorder_frame
      conjunct2 [OF update_layout_frame] conjunct2 [OF rename_frame [OF surjective_pairing]]
      conjunct2 [OF purge_ok [OF surjective_pairing]] conjunct2 [OF recheck_frame] conjunct2 [OF tab_list_frame]
      conjunct2 [OF pty_exited_frame [OF surjective_pairing]])

lemma step_sessions:
  "map_of (mg_sessions (snd (mgr_step recip op m))) p = Some a \<Longrightarrow>
     map_of (mg_sessions m) p = Some a \<or> op = MInsert p a \<or> op = MPublish p a"
proof (cases "hands_out op")
  case False
  assume "map_of (mg_sessions (snd (mgr_step recip op m))) p = Some a"
  with other_steps_shrink [OF False, of m recip] show ?thesis by (metis shrinks_def map_le_def domI)
next
  case True
  assume "map_of (mg_sessions (snd (mgr_step recip op m))) p = Some a"
  with True show ?thesis
    by (cases op rule: hands_out.cases)
      (auto simp: mgr_step_def insert_session_def reserve_session_def publish_reserved_def drop_reservation_def map_of_al_put
        split: if_splits)
qed

lemma step_reservations:
  "p \<in> set (mg_reserved m) \<Longrightarrow> op \<noteq> MDropReservation p \<Longrightarrow> (\<And>a. op \<noteq> MPublish p a) \<Longrightarrow>
     p \<in> set (mg_reserved (snd (mgr_step recip op m)))"
proof (cases "hands_out op")
  case False
  assume "p \<in> set (mg_reserved m)"
  with other_steps_shrink [OF False, of m recip] show ?thesis by (simp add: shrinks_def)
next
  case True
  assume "p \<in> set (mg_reserved m)" "op \<noteq> MDropReservation p" "\<And>a. op \<noteq> MPublish p a"
  with True show ?thesis
    by (cases op rule: hands_out.cases)
      (auto simp: mgr_step_def insert_session_def reserve_session_def publish_reserved_def drop_reservation_def)
qed

text \<open>A registration is live from its publication to its close; the contract of revocable credentials applies.\<close>

fun registers :: "string \<times> addr \<Rightarrow> 'f mgr_op \<Rightarrow> bool" where
  "registers (p, a) (MInsert p' a') \<longleftrightarrow> p' = p \<and> a' = a"
| "registers (p, a) (MPublish p' a') \<longleftrightarrow> p' = p \<and> a' = a"
| "registers _ _ \<longleftrightarrow> False"

fun claims_close :: "string \<times> addr \<Rightarrow> 'f mgr_op \<Rightarrow> bool \<Rightarrow> bool" where
  "claims_close (p, a) (MClose ev p' (Some a') reason kills code) ok \<longleftrightarrow> p' = p \<and> a' = a \<and> ok"
| "claims_close _ _ _ \<longleftrightarrow> False"

lemma claims_close_live: "claims_close (p, a) op (fst (mgr_step recip op m)) \<Longrightarrow> map_of (mg_sessions m) p = Some a"
proof (cases op)
  case (MClose ev p' ex reason kills code)
  assume "claims_close (p, a) op (fst (mgr_step recip op m))"
  then have "p' = p" "ex = Some a" "fst (close_with recip ev p (Some a) reason kills code m)"
    using MClose by (cases ex; auto simp: mgr_step_def)+
  with close_with_spec [OF surjective_pairing [of "close_with recip ev p (Some a) reason kills code m"]] show ?thesis by simp
qed auto

interpretation registry: revocable "mgr_step recip :: 'f mgr_op \<Rightarrow> ('f, 'ps) manager \<Rightarrow> _" manager_ok
    "\<lambda>(p, a) m. map_of (mg_sessions m) p = Some a" registers claims_close
  for recip :: "nat \<Rightarrow> 'f"
proof (unfold_locales, goal_cases)
  case (1 m op)
  then show ?case by (rule step_ok)
next
  case (2 m k op)
  then show ?case using step_sessions by (cases k) fastforce
next
  case (3 m k op)
  then show ?case using claims_close_live by (cases k) fastforce
qed

text \<open>Runs of the manager.\<close>

abbreviation mgr_run :: "(nat \<Rightarrow> 'f) \<Rightarrow> 'f mgr_op list \<Rightarrow> ('f, 'ps) manager \<Rightarrow> ('f, 'ps) manager" where
  "mgr_run recip ops m \<equiv> snd (run_steps (mgr_step recip) ops m)"

lemma new_manager_ok: "manager_ok (new_session_manager store lf w)"
  by (simp add: manager_ok_def tabs_ok_def sessions_ok_def al_wf_def new_session_manager_def)

text \<open>
  C22. Whatever the handlers, readers, reapers and clients do, in whatever order, the manager's tables
  agree: the tab order lists every tab exactly once and nothing else, a pane has at most one session
  and at most one unowned-since entry, and a reserved pane has no session.
\<close>
theorem tables_stay_consistent:
  "manager_ok (mgr_run recip ops (new_session_manager store lf w))"
  by (rule registry.inv_run [OF new_manager_ok])

end
