(* ===== verification/ManagerRuns.thy ===== *)
theory ManagerRuns
  imports ManagerProps SessionProps
begin

section \<open>Runs of the session manager\<close>

text \<open>
  Consequences of the step lemmas for whole runs: a reservation keeps everyone else out of the pane
  until it is published or dropped, and of all tasks that try to close one session only one succeeds.
\<close>

subsection \<open>Reservations\<close>

lemma reserved_run:
  "manager_ok m \<Longrightarrow> p \<in> set (mg_reserved m) \<Longrightarrow>
     list_all (\<lambda>op. op \<noteq> MDropReservation p \<and> (\<forall>a. op \<noteq> MPublish p a)) ops \<Longrightarrow>
     manager_ok (mgr_run recip ops m) \<and> p \<in> set (mg_reserved (mgr_run recip ops m))"
proof (induction ops arbitrary: m)
  case (Cons op ops)
  then have "p \<in> set (mg_reserved (snd (mgr_step recip op m)))" by (intro step_reservations) simp_all
  then show ?case using Cons.IH [OF step_ok [OF Cons.prems(1)]] Cons.prems(3)
    by (simp add: run_steps_Cons del: run_steps.simps(2))
qed simp

text \<open>
  A reservation holds: once a pane is reserved, whatever else happens (other than publishing or
  dropping that very reservation) nobody can insert a session for it or reserve it again, it has no
  session, and publishing it succeeds, makes the given session the current one and frees the reservation.
\<close>
theorem reservation_holds:
  assumes "manager_ok m" and "reserve_session p m = (Inr (), m1)"
    and "list_all (\<lambda>op. op \<noteq> MDropReservation p \<and> (\<forall>a. op \<noteq> MPublish p a)) ops"
  shows "let m2 = mgr_run recip ops m1 in
    session_for_attach p m2 = None \<and> insert_session p b m2 = (False, m2) \<and>
    (\<exists>e. reserve_session p m2 = (Inl e, m2)) \<and>
    (\<exists>m3. publish_reserved p a m2 = (True, m3) \<and> is_current_session p a m3 \<and> p \<notin> set (mg_reserved m3))"
proof -
  have m1: "p \<in> set (mg_reserved m1)" "map_of (mg_sessions m) p = None" "m1 = m\<lparr>mg_reserved := p # mg_reserved m\<rparr>"
    using assms(2) by (auto simp: reserve_session_def split: if_splits)
  then have "manager_ok m1" using assms(1) by (simp add: manager_ok_def sessions_ok_def)
  note r = reserved_run [OF this m1(1) assms(3), where recip = recip]
  then have "map_of (mg_sessions (mgr_run recip ops m1)) p = None" by (simp add: manager_ok_def sessions_ok_def)
  then show ?thesis using r
    by (simp add: Let_def session_for_attach_def insert_session_def reserve_session_def publish_reserved_def
      is_current_session_def map_of_al_put)
qed

subsection \<open>Closing\<close>

lemma claimed_is_gone:
  "claims_close (p, a) op (fst (mgr_step recip op m)) \<Longrightarrow> map_of (mg_sessions (snd (mgr_step recip op m))) p = None"
proof (cases op)
  case (MClose ev p' ex reason kills code)
  assume "claims_close (p, a) op (fst (mgr_step recip op m))"
  then have "p' = p" "ex = Some a" "fst (close_with recip ev p (Some a) reason kills code m)"
    using MClose by (cases ex; auto simp: mgr_step_def)+
  with close_with_spec [OF surjective_pairing [of "close_with recip ev p (Some a) reason kills code m"]]
  show ?thesis by (simp add: MClose mgr_step_def map_of_al_del)
qed auto

lemma claims_bounded:
  "manager_ok m \<Longrightarrow> list_all (\<lambda>op. \<not> registers (p, a) op) ops \<Longrightarrow>
     length (filter (\<lambda>(op, ok). claims_close (p, a) op ok) (fst (run_steps (mgr_step recip) ops m))) \<le> 1"
proof (induction ops arbitrary: m)
  case (Cons op ops)
  let ?m1 = "snd (mgr_step recip op m)"
  let ?rest = "fst (run_steps (mgr_step recip) ops ?m1)"
  have ok: "manager_ok ?m1" by (rule step_ok [OF Cons.prems(1)])
  show ?case
  proof (cases "claims_close (p, a) op (fst (mgr_step recip op m))")
    case True
    then have "list_all (\<lambda>(op, r). \<not> claims_close (p, a) op r) ?rest"
      using registry.never_granted [OF ok, of "(p, a)" ops recip] Cons.prems(2) claimed_is_gone by fastforce
    then have "filter (\<lambda>(op, ok). claims_close (p, a) op ok) ?rest = []"
      by (induction ?rest) (auto simp: list_all_iff filter_empty_conv)
    then show ?thesis by (simp add: run_steps_Cons del: run_steps.simps(2))
  next
    case False
    then show ?thesis using Cons.IH [OF ok] Cons.prems(2) by (simp add: run_steps_Cons del: run_steps.simps(2))
  qed
qed simp

text \<open>
  A session is closed at most once: however many tasks (the handler, the reader that saw the end of
  the output, the reaper) close it in whatever order, at most one of them is told that it did; and a task
  that names a session which is no longer the pane's current one changes nothing, so a late exit of an
  old session cannot close the session that took its place.
\<close>
theorem session_closed_once:
  assumes "manager_ok m" and "list_all (\<lambda>op. \<not> registers (p, a) op) ops"
  shows "length (filter (\<lambda>(op, ok). claims_close (p, a) op ok) (fst (run_steps (mgr_step recip) ops m))) \<le> 1 \<and>
    (is_current_session p b m \<and> b \<noteq> a \<longrightarrow>
       close_session_for_session recip ev p a reason kills code m = (False, m))"
proof -
  have "close_session_for_session recip ev p a reason kills code m = (False, m)" if "is_current_session p b m" "b \<noteq> a"
    using that close_with_spec [OF surjective_pairing [of "close_with recip ev p (Some a) reason kills code m"]]
    by (auto simp: is_current_session_def close_session_for_session_def intro: prod_eqI)
  then show ?thesis using claims_bounded [OF assms] by blast
qed

subsection \<open>Examples\<close>

definition demo_os_down :: os where
  "demo_os_down = \<lparr>os_kill = (\<lambda>_ _ _. Some ESRCH), os_stat = (\<lambda>_ _. None), os_proc = (\<lambda>_. Inl ''down'')\<rparr>"

definition demo_env :: close_env where
  "demo_env = \<lparr>ev_held = False, ev_waited = True, ev_exited = True, ev_os = demo_os_down, ev_self = 1,
     ev_flock = (\<lambda>_. Locked), ev_io = None\<rparr>"

definition demo_hosted :: "unit hosted" where
  "demo_hosted = \<lparr>hs_session = demo_session\<lparr>se_is_connected := False\<rparr>, hs_input_open = True, hs_output = [], hs_on_exit = True,
     hs_cwd = None, hs_profile = None, hs_workspace = None, hs_host_cwd = None, hs_login = None\<rparr>"

definition demo_manager :: "(nat, unit) manager" where
  "demo_manager = (new_session_manager (\<lambda>_. demo_hosted) NoFile \<lparr>w_time = 0, w_signals = []\<rparr>)
     \<lparr>mg_sessions := [(''p'', 0), (''q'', 1)], mg_unowned := [(''p'', 0)],
       mg_layouts := [(''t'', mk_obj [(''layout'', terminal_leaf ''q'' ''sh''), (''active_pane_id'', JStr ''q'')])],
       mg_order := [''t'']\<rparr>"

lemma demo_manager_ok: "manager_ok demo_manager"
  by (simp add: demo_manager_def new_session_manager_def manager_ok_def tabs_ok_def sessions_ok_def al_wf_def)

lemma reservation_holds_witness:
  "session_for_attach ''new'' (mgr_run (\<lambda>n. n) [MReserve ''new'', MInsert ''new'' 5, MReserve ''new'']
     (snd (reserve_session ''new'' demo_manager))) = None"
proof -
  have "reserve_session ''new'' demo_manager = (Inr (), demo_manager\<lparr>mg_reserved := [''new'']\<rparr>)"
    by (simp add: reserve_session_def demo_manager_def new_session_manager_def)
  from reservation_holds [OF demo_manager_ok this, where ops = "[MReserve ''new'', MInsert ''new'' 5, MReserve ''new'']"
      and recip = "\<lambda>n. n"] this show ?thesis by (simp add: Let_def)
qed

lemma session_closed_once_witness:
  "length (filter (\<lambda>(op, ok). claims_close (''p'', 0) op ok)
     (fst (run_steps (mgr_step (\<lambda>n. n)) [MClose demo_env ''p'' (Some 0) Explicit True None, MClose demo_env ''p'' (Some 0) NaturalExit False (Some 1)] demo_manager))) \<le> 1"
  using session_closed_once [OF demo_manager_ok, of "''p''" 0 "[MClose demo_env ''p'' (Some 0) Explicit True None,
      MClose demo_env ''p'' (Some 0) NaturalExit False (Some 1)]" "\<lambda>n. n"] by simp

end
