(* ===== verification/ManagerReap.thy ===== *)
theory ManagerReap
  imports ManagerRuns
begin

section \<open>Who still shows a pane, and what is reaped\<close>

text \<open>
  Taking a pane out of all tabs, described by what happens to each tab; hence which panes are still
  referenced afterwards; hence exactly which sessions one tick of the clean-up task closes.
\<close>

subsection \<open>Terminal leaves of a layout without a pane\<close>

lemma tids_jset:
  assumes "get_str n ''type'' = Some ''split''" "k \<noteq> ''type''" "k \<noteq> ''children''"
  shows "collect_terminal_leaf_pane_ids (jset k v n) = collect_terminal_leaf_pane_ids n"
proof -
  have "get_str (jset k v n) ''type'' = Some ''split''" using assms by (simp add: get_str_def jget_jset_other)
  then show ?thesis using assms by (simp add: collect_terminal_leaf_pane_ids.simps [of n]
    collect_terminal_leaf_pane_ids.simps [of "jset k v n"] kids_jset)
qed

lemma tids_children:
  assumes "get_str n ''type'' = Some ''split''"
  shows "collect_terminal_leaf_pane_ids (jset ''children'' (JArr cs) n) = concat (map collect_terminal_leaf_pane_ids cs)"
proof -
  have "get_str (jset ''children'' (JArr cs) n) ''type'' = Some ''split''" using assms by (simp add: get_str_def jget_jset_other)
  then show ?thesis using kids_set [OF assms] terminal_split by blast
qed

lemma children_type: "get_str n ''type'' = Some t \<Longrightarrow> get_str (jset ''children'' v n) ''type'' = Some t"
  by (simp add: get_str_def jget_jset_other)

lemma filter_all_some:
  "(\<And>c. c \<in> set cs \<Longrightarrow> (case f c of None \<Rightarrow> filter P (g c) = [] | Some r \<Rightarrow> g r = filter P (g c))) \<Longrightarrow>
     concat (map g (all_some (map f cs))) = filter P (concat (map g cs))"
proof (induction cs)
  case (Cons c cs)
  have "case f c of None \<Rightarrow> filter P (g c) = [] | Some r \<Rightarrow> g r = filter P (g c)" by (rule Cons.prems) simp
  moreover have "concat (map g (all_some (map f cs))) = filter P (concat (map g cs))" by (rule Cons.IH, rule Cons.prems) simp
  ultimately show ?case by (cases "f c") (simp_all add: all_some_Cons)
qed (simp add: all_some_def)

text \<open>For any JSON value, well-formed or not.\<close>

lemma remove_terminal_ids:
  "case remove_pane_from_layout recip n p of
     None \<Rightarrow> filter (\<lambda>q. q \<noteq> p) (terminal_ids n) = []
   | Some r \<Rightarrow> terminal_ids r = filter (\<lambda>q. q \<noteq> p) (terminal_ids n)"
proof (induction "size n" arbitrary: n rule: less_induct)
  case less
  note unf = remove_pane_from_layout.simps [of recip n] collect_terminal_leaf_pane_ids.simps [of n]
  consider (other) "\<forall>t. get_str n ''type'' = Some t \<longrightarrow> t \<noteq> ''leaf'' \<and> t \<noteq> ''split''" | (leaf) "get_str n ''type'' = Some ''leaf''"
    | (bare) "get_str n ''type'' = Some ''split''" "kids n = None"
    | (split) cs where "get_str n ''type'' = Some ''split''" "kids n = Some cs" by auto
  then show ?case
  proof cases
    case other
    then show ?thesis by (cases "get_str n ''type''") (simp_all add: unf)
  next
    case leaf
    then obtain b where "terminal_ids n = (case get_str n ''paneId'' of None \<Rightarrow> [] | Some q \<Rightarrow> if b then [q] else [])"
      by (cases "leaf_kind n = ''terminal''"; cases "get_str n ''paneId''") (auto simp: unf(2))
    moreover have "remove_pane_from_layout recip n p = (case get_str n ''paneId'' of None \<Rightarrow> None | Some q \<Rightarrow> if q = p then None else Some n)"
      using leaf by (simp add: unf(1))
    ultimately show ?thesis by (auto split: option.split)
  next
    case bare
    then show ?thesis by (simp add: unf)
  next
    case (split cs)
    note t = split(1)
    let ?new = "all_some (map (\<lambda>c. remove_pane_from_layout recip c p) cs)"
    have new: "concat (map terminal_ids ?new) = filter (\<lambda>q. q \<noteq> p) (terminal_ids n)"
      unfolding terminal_split [OF split] by (rule filter_all_some) (rule less, rule kids_smaller [OF split(2)])
    have r: "remove_pane_from_layout recip n p = rebuild_split recip n cs ?new"
      using split by (simp add: remove_pane_from_layout.simps [of recip n])
    consider "?new = []" | c where "?new = [c]" | "2 \<le> length ?new" by (cases ?new; cases "tl ?new") auto
    then show ?thesis
    proof cases
      case 1
      then show ?thesis using new by (simp add: r rebuild_split_def)
    next
      case 2
      then show ?thesis using new tids_children [OF t, of "[c]"] by (simp add: r rebuild_split_def)
    next
      case 3
      then have "?new \<noteq> []" "length ?new \<noteq> 1" by auto
      then show ?thesis using new tids_children [OF t, of ?new]
        by (simp add: r rebuild_split_def tids_jset children_type [OF t] del: One_nat_def)
    qed
  qed
qed

subsection \<open>Taking a pane out of all tabs\<close>

lemma layouts_insert_tab: "map_of (mg_layouts (insert_tab t v m)) = (map_of (mg_layouts m))(t \<mapsto> v)"
  by (simp add: insert_tab_def schedule_snapshot_def map_of_al_put)

lemma layouts_remove_tab: "map_of (mg_layouts (snd (remove_tab t m))) = (map_of (mg_layouts m))(t := None)"
  by (simp add: remove_tab_def schedule_snapshot_def map_of_al_del Let_def)

lemma fold_insert_miss:
  "t \<notin> fst ` set ups \<Longrightarrow> map_of (mg_layouts (fold (\<lambda>(t, v). insert_tab t v) ups m)) t = map_of (mg_layouts m) t"
  by (induction ups arbitrary: m) (auto simp: layouts_insert_tab)

lemma fold_insert_hit:
  "(t, v) \<in> set ups \<Longrightarrow> (\<And>v'. (t, v') \<in> set ups \<Longrightarrow> v' = v) \<Longrightarrow>
     map_of (mg_layouts (fold (\<lambda>(t, v). insert_tab t v) ups m)) t = Some v"
proof (induction ups arbitrary: m)
  case (Cons u ups)
  obtain t' v' where u: "u = (t', v')" by fastforce
  show ?case
  proof (cases "t \<in> fst ` set ups")
    case True
    then obtain v2 where "(t, v2) \<in> set ups" by auto
    with Cons.prems(2) have "(t, v) \<in> set ups" by (metis list.set_intros(2))
    from Cons.IH [OF this] Cons.prems(2) u show ?thesis by simp
  next
    case False
    then have "t' = t" "v' = v" using Cons.prems(1) u by force+
    then show ?thesis using u by (simp add: layouts_insert_tab fold_insert_miss [OF False])
  qed
qed simp

lemma fold_remove: "map_of (mg_layouts (fold (\<lambda>t m. snd (remove_tab t m)) ts m)) t =
    (if t \<in> set ts then None else map_of (mg_layouts m) t)"
  by (induction ts arbitrary: m) (auto simp: layouts_remove_tab)

definition purged_tab :: "(nat \<Rightarrow> 'f) \<Rightarrow> string \<Rightarrow> bool \<Rightarrow> string \<Rightarrow> 'f json \<Rightarrow> 'f json option" where
  "purged_tab recip p skip t v =
     (if skip \<and> t = p then Some v
      else case purge_entry recip p v of Untouched \<Rightarrow> Some v | Emptied \<Rightarrow> None | Changed v' \<Rightarrow> Some v')"

lemma set_all_some: "x \<in> set (all_some xs) \<longleftrightarrow> Some x \<in> set xs"
  by (induction xs) (auto simp: all_some_def split: option.splits)

lemma purge_map:
  assumes "purge_pane_from_layouts recip p skip m = (ch, m')" "al_wf (mg_layouts m)"
  shows "map_of (mg_layouts m') t = map_of (mg_layouts m) t \<bind> purged_tab recip p skip t"
    and "set (lc_closed ch) = {t. \<exists>v. map_of (mg_layouts m) t = Some v \<and> \<not> (skip \<and> t = p) \<and> purge_entry recip p v = Emptied}"
    and "set (lc_updates ch) = {update_of t v' | t v' v. map_of (mg_layouts m) t = Some v \<and> \<not> (skip \<and> t = p) \<and>
      purge_entry recip p v = Changed v'}"
proof -
  let ?es = "filter (\<lambda>(tab, _). \<not> (skip \<and> tab = p)) (mg_layouts m)"
  define ems where "ems = map fst (filter (\<lambda>(_, v). purge_entry recip p v = Emptied) ?es)"
  define ups where "ups = all_some (map (\<lambda>(tab, v). case purge_entry recip p v of Changed v' \<Rightarrow> Some (tab, v') | _ \<Rightarrow> None) ?es)"
  have e: "ch = \<lparr>lc_closed = ems, lc_updates = map (\<lambda>(tab, v). update_of tab v) ups\<rparr>"
    "m' = fold (\<lambda>t m. snd (remove_tab t m)) ems (fold (\<lambda>(t, v). insert_tab t v) ups m)"
    using assms(1) unfolding purge_pane_from_layouts_def ems_def ups_def Let_def by auto
  have mem: "(t, v) \<in> set (mg_layouts m) \<longleftrightarrow> map_of (mg_layouts m) t = Some v" for t v
    using assms(2) by (auto simp: al_wf_def)
  have ems: "t \<in> set ems \<longleftrightarrow> (\<exists>v. map_of (mg_layouts m) t = Some v \<and> \<not> (skip \<and> t = p) \<and> purge_entry recip p v = Emptied)" for t
    using mem by (force simp: ems_def)
  have ups: "(t, v') \<in> set ups \<longleftrightarrow>
      (\<exists>v. map_of (mg_layouts m) t = Some v \<and> \<not> (skip \<and> t = p) \<and> purge_entry recip p v = Changed v')" for t v'
    unfolding ups_def set_all_some using mem by (force split: purged.splits)
  show "set (lc_closed ch) = {t. \<exists>v. map_of (mg_layouts m) t = Some v \<and> \<not> (skip \<and> t = p) \<and> purge_entry recip p v = Emptied}"
    using ems by (auto simp: e)
  show "set (lc_updates ch) = {update_of t v' | t v' v. map_of (mg_layouts m) t = Some v \<and> \<not> (skip \<and> t = p) \<and>
      purge_entry recip p v = Changed v'}"
    using ups by (force simp: e)
  have one: "map_of (mg_layouts (fold (\<lambda>(t, v). insert_tab t v) ups m)) t =
      (if \<exists>v'. (t, v') \<in> set ups then Some (SOME v'. (t, v') \<in> set ups) else map_of (mg_layouts m) t)"
  proof (cases "\<exists>v'. (t, v') \<in> set ups")
    case True
    then obtain v' where v': "(t, v') \<in> set ups" by blast
    then have uniq: "(t, x) \<in> set ups \<Longrightarrow> x = v'" for x using ups by fastforce
    then have "(SOME x. (t, x) \<in> set ups) = v'" using v' by blast
    then show ?thesis using fold_insert_hit [OF v' uniq] True by simp
  next
    case False
    then show ?thesis using fold_insert_miss [of t ups] by force
  qed
  show "map_of (mg_layouts m') t = map_of (mg_layouts m) t \<bind> purged_tab recip p skip t"
  proof (cases "map_of (mg_layouts m) t")
    case None
    then show ?thesis using one ems ups by (auto simp: e(2) fold_remove)
  next
    case (Some v)
    then show ?thesis using one ems [of t] ups [of t]
      by (cases "purge_entry recip p v") (auto simp: e(2) fold_remove purged_tab_def)
  qed
qed

lemma referenced_iff:
  "al_wf (mg_layouts m) \<Longrightarrow> pane_is_referenced q m \<longleftrightarrow>
     (\<exists>t v l. map_of (mg_layouts m) t = Some v \<and> layout_of v = Some l \<and> q \<in> set (terminal_ids l))"
  by (force simp: pane_is_referenced_def list_ex_iff al_wf_def split: option.splits)

lemma layout_of_changed:
  "purge_entry recip p v = Changed v' \<Longrightarrow>
     \<exists>l l'. layout_of v = Some l \<and> remove_pane_from_layout recip l p = Some l' \<and> l' \<noteq> l \<and> layout_of v' = Some l'"
  by (auto simp: purge_entry_def layout_of_def mk_obj_def Let_def split: option.splits if_splits)

lemma purged_ids:
  "(\<exists>l. layout_of v = Some l \<and> q \<in> set (terminal_ids l)) \<and> q \<noteq> p \<longleftrightarrow>
     (\<exists>v' l. purged_tab recip p False t v = Some v' \<and> layout_of v' = Some l \<and> q \<in> set (terminal_ids l))"
proof (cases "layout_of v")
  case None
  then show ?thesis by (simp add: purged_tab_def purge_entry_def)
next
  case (Some l)
  note r = remove_terminal_ids [where recip = recip and n = l and p = p]
  show ?thesis
  proof (cases "purge_entry recip p v")
    case Untouched
    then have "remove_pane_from_layout recip l p = Some l" using Some
      by (auto simp: purge_entry_def Let_def split: option.splits if_splits)
    then have "terminal_ids l = filter (\<lambda>q. q \<noteq> p) (terminal_ids l)" using r by simp
    then have "p \<notin> set (terminal_ids l)" by (metis (mono_tags, lifting) mem_Collect_eq set_filter)
    then show ?thesis using Untouched Some by (auto simp: purged_tab_def)
  next
    case Emptied
    then have "remove_pane_from_layout recip l p = None" using Some
      by (auto simp: purge_entry_def Let_def split: option.splits if_splits)
    then show ?thesis using Emptied Some r by (auto simp: purged_tab_def filter_empty_conv)
  next
    case (Changed v')
    then obtain l' where "remove_pane_from_layout recip l p = Some l'" "layout_of v' = Some l'"
      using layout_of_changed Some by fastforce
    then show ?thesis using Changed Some r by (auto simp: purged_tab_def)
  qed
qed

lemma purge_referenced:
  assumes "purge_pane_from_layouts recip p False m = (ch, m')" "tabs_ok m"
  shows "pane_is_referenced q m' \<longleftrightarrow> q \<noteq> p \<and> pane_is_referenced q m"
proof -
  have wf: "al_wf (mg_layouts m)" "al_wf (mg_layouts m')"
    using assms purge_ok [OF assms(1)] by (simp_all add: tabs_ok_def)
  have "(\<exists>l v. map_of (mg_layouts m') t = Some v \<and> layout_of v = Some l \<and> q \<in> set (terminal_ids l)) \<longleftrightarrow>
      q \<noteq> p \<and> (\<exists>l v. map_of (mg_layouts m) t = Some v \<and> layout_of v = Some l \<and> q \<in> set (terminal_ids l))" for t
    using purge_map(1) [OF assms(1) wf(1), of t] purged_ids [where q = q and p = p and recip = recip and t = t and v = "the (map_of (mg_layouts m) t)"]
    by (cases "map_of (mg_layouts m) t") (simp, auto)
  then show ?thesis unfolding referenced_iff [OF wf(1)] referenced_iff [OF wf(2)] by blast
qed

subsection \<open>Closing one session does not disturb the others\<close>

lemma hosted_connected:
  "mg_store m' = mg_store m \<Longrightarrow> connected b m' = connected b m"
  by (simp add: connected_def)

lemma broadcast_store: "mg_store (broadcast_sync msg m) = mg_store m"
  by (simp add: broadcast_sync_def publish_bus_def split: option.split)

lemma fold_store: "(\<And>x m. mg_store (f x m) = mg_store m) \<Longrightarrow> mg_store (fold f xs m) = mg_store m"
  by (induction xs arbitrary: m) simp_all

lemma changes_store: "mg_store (broadcast_layout_changes ch m) = mg_store m"
  unfolding broadcast_layout_changes_def by (simp add: fold_store broadcast_store)

lemma purge_store: "purge_pane_from_layouts recip p skip m = (ch, m') \<Longrightarrow> mg_store m' = mg_store m"
  by (auto simp: purge_pane_from_layouts_def Let_def insert_tab_def remove_tab_def schedule_snapshot_def fold_store split_beta)

lemma kill_connected: "kill_child_and_confirm held waited s = (ok, s') \<Longrightarrow> se_is_connected s' = se_is_connected s"
  by (auto simp: kill_child_and_confirm_def send_ssh_def Let_def split: if_splits session_backend.splits option.splits prod.splits)

lemma notify_connected: "se_is_connected (snd (notify_exit_and_mark_exited pane code s)) = se_is_connected s"
  by (simp add: notify_exit_and_mark_exited_def mark_exited_def enqueue_control_def Let_def split: prod.split)

lemma on_hosted_connected:
  "(\<And>h. se_is_connected (hs_session (f h)) = se_is_connected (hs_session h)) \<Longrightarrow> connected b (on_hosted a f m) = connected b m"
  by (simp add: connected_def on_hosted_def)

lemma confirm_connected:
  "confirm_termination ev pane reason kills a m = (ok, m') \<Longrightarrow> connected b m' = connected b m"
proof (cases kills)
  case True
  assume c: "confirm_termination ev pane reason kills a m = (ok, m')"
  obtain ok' s' where k: "kill_child_and_confirm (ev_held ev) (ev_waited ev) (hs_session (mg_store m a)) = (ok', s')" by fastforce
  then have "m' = on_hosted a (\<lambda>h. h\<lparr>hs_session := s'\<rparr>) m" using c True by (simp add: confirm_termination_def)
  then show ?thesis using kill_connected [OF k] by (simp add: connected_def on_hosted_def)
next
  case False
  assume "confirm_termination ev pane reason kills a m = (ok, m')"
  then show ?thesis using False by (auto simp: confirm_termination_def Let_def connected_def split: if_splits prod.splits)
qed

lemma execute_connected: "connected b (execute_close_plan ev pane reason kills code plan m) = connected b m"
proof -
  obtain ok m1 where c: "confirm_termination ev pane reason kills (cp_session plan) m = (ok, m1)" by force
  have f: "connected b (forget_process ev pane m1) = connected b m1"
    by (simp add: forget_process_def connected_def split: prod.split)
  have n: "connected b (publish_bus e (pane_closed_notify pane x)) = connected b x" for e and x :: "('a, 'b) manager"
    by (simp add: publish_bus_def pane_closed_notify_def connected_def split: option.split)
  have b: "connected b (broadcast_layout_changes ch x) = connected b x" for ch and x :: "('a, 'b) manager"
    by (rule hosted_connected [OF changes_store])
  have e: "connected b (x\<lparr>mg_exit_calls := cs\<rparr>) = connected b x" for cs and x :: "('a, 'b) manager"
    by (simp add: connected_def)
  show ?thesis using confirm_connected [OF c, of b]
    by (simp add: execute_close_plan_def c Let_def e b n f on_hosted_connected notify_connected)
qed

lemma close_effect:
  assumes "close_with recip ev p ex reason kills code m = (True, m')" "tabs_ok m"
  shows "(connected b m' \<longleftrightarrow> connected b m) \<and> (pane_is_referenced q m' \<longleftrightarrow> q \<noteq> p \<and> pane_is_referenced q m)"
proof -
  obtain a where a: "map_of (mg_sessions m) p = Some a" "ex \<in> {None, Some a}"
    using close_with_spec [OF assms(1)] by blast
  let ?m1 = "m\<lparr>mg_sessions := al_del p (mg_sessions m), mg_unowned := al_del p (mg_unowned m)\<rparr>"
  obtain ch m2 where c: "collect_layout_close recip p True ?m1 = (ch, m2)" by force
  have r: "remove_session recip p ex m = (Some \<lparr>cp_session = a, cp_changes = ch\<rparr>, m2)"
    using a c by (auto simp: remove_session_def)
  then have e: "m' = execute_close_plan ev p reason kills code \<lparr>cp_session = a, cp_changes = ch\<rparr> m2"
    using assms(1) by (simp add: close_with_def)
  obtain ch1 m3 where p: "purge_pane_from_layouts recip p False ?m1 = (ch1, m3)" by force
  have m2: "mg_store m2 = mg_store m3" "mg_layouts m2 = mg_layouts m3" using c p by (auto simp: collect_layout_close_def)
  have "pane_is_referenced q m3 \<longleftrightarrow> q \<noteq> p \<and> pane_is_referenced q ?m1"
    by (rule purge_referenced [OF p]) (use assms(2) in simp)
  moreover have "pane_is_referenced q m' = pane_is_referenced q m3"
    using execute_frame(1) [of m2 ev p reason kills code] by (simp add: e same_tabs_def pane_is_referenced_def m2)
  moreover have "connected b m' = connected b m2" unfolding e by (rule execute_connected)
  moreover have "mg_store m3 = mg_store m" using purge_store [OF p] by simp
  ultimately show ?thesis by (simp add: m2 connected_def pane_is_referenced_def)
qed

subsection \<open>One tick of the clean-up task\<close>

definition since_of :: "(string, instant) amap \<Rightarrow> instant \<Rightarrow> string \<Rightarrow> instant" where
  "since_of us now p = (case map_of us p of Some t \<Rightarrow> t | None \<Rightarrow> now)"

lemma reconcile_loop_spec:
  "distinct ps \<Longrightarrow> reconcile_loop refs now ps (st, found, us) = (st', found', us') \<Longrightarrow>
     found' = found @ map (\<lambda>p. (p, since_of us now p)) (filter (\<lambda>p. p \<notin> set refs) ps) \<and>
     (\<forall>q. map_of us' q = (if q \<in> set ps then if q \<in> set refs then None else Some (since_of us now q) else map_of us q))"
proof (induction ps arbitrary: st found us)
  case (Cons p ps)
  show ?case
  proof (cases "p \<in> set refs")
    case True
    have other: "since_of (al_del p us) now q = since_of us now q" if "q \<noteq> p" for q
      using that by (simp add: since_of_def map_of_al_del)
    have "map (\<lambda>q. (q, since_of (al_del p us) now q)) (filter (\<lambda>q. q \<notin> set refs) ps) =
        map (\<lambda>q. (q, since_of us now q)) (filter (\<lambda>q. q \<notin> set refs) ps)"
      using Cons.prems(1) by (intro map_cong) (auto intro!: other)
    with Cons.IH [of "st\<lparr>rp_referenced := Suc (rp_referenced st)\<rparr>" found "al_del p us"] Cons.prems True other
    show ?thesis by (auto simp: map_of_al_del)
  next
    case False
    define us1 where "us1 = (case map_of us p of Some t \<Rightarrow> us | None \<Rightarrow> al_put p now us)"
    define st1 where "st1 = (if duration_since now (since_of us now p) < SESSION_UNOWNED_GRACE then st\<lparr>rp_grace := Suc (rp_grace st)\<rparr> else st)"
    have m1: "map_of us1 p = Some (since_of us now p)" "q \<noteq> p \<Longrightarrow> map_of us1 q = map_of us q" for q
      by (auto simp: us1_def since_of_def map_of_al_put split: option.split)
    then have other: "since_of us1 now q = since_of us now q" if "q \<noteq> p" for q
      using that by (simp add: since_of_def)
    have e: "reconcile_loop refs now (p # ps) (st, found, us) = reconcile_loop refs now ps (st1, found @ [(p, since_of us now p)], us1)"
      using False by (simp add: us1_def st1_def since_of_def Let_def)
    have "map (\<lambda>q. (q, since_of us1 now q)) (filter (\<lambda>q. q \<notin> set refs) ps) =
        map (\<lambda>q. (q, since_of us now q)) (filter (\<lambda>q. q \<notin> set refs) ps)"
      using Cons.prems(1) by (intro map_cong) (auto intro!: other)
    with Cons.IH [of st1 "found @ [(p, since_of us now p)]" us1] Cons.prems False other m1 e
    show ?thesis by auto
  qed
qed simp

definition reapable :: "instant \<Rightarrow> string \<Rightarrow> addr \<Rightarrow> ('f, 'ps) manager \<Rightarrow> bool" where
  "reapable now p a m \<longleftrightarrow> map_of (mg_sessions m) p = Some a \<and> \<not> pane_is_referenced p m \<and> \<not> connected a m \<and>
     (\<exists>t. map_of (mg_unowned m) p = Some t \<and> SESSION_UNOWNED_GRACE \<le> duration_since now t)"

lemma grace_pos: "0 < SESSION_UNOWNED_GRACE"
  by (simp add: SESSION_UNOWNED_GRACE_def from_secs_def NANOS_def)

lemma referenced_ids: "p \<in> set (referenced_pane_ids m) \<longleftrightarrow> pane_is_referenced p m"
proof -
  have "p \<in> set (concat (map (\<lambda>(_, v). case layout_of v of Some l \<Rightarrow> terminal_ids l | None \<Rightarrow> []) ls)) \<longleftrightarrow>
      list_ex (\<lambda>(_, v). case layout_of v of Some l \<Rightarrow> p \<in> set (terminal_ids l) | None \<Rightarrow> False) ls" for ls :: "(string, 'a json) amap"
    by (induction ls) (auto split: option.splits)
  then show ?thesis unfolding referenced_pane_ids_def pane_is_referenced_def .
qed

lemma scan_spec:
  assumes "scan_unowned_sessions now m = (st, found, m1)" "manager_ok m"
  shows "distinct (map fst (reap_candidates now found m1))"
    and "(p, a) \<in> set (reap_candidates now found m1) \<longleftrightarrow> reapable now p a m"
    and "(p, a) \<in> set (reap_candidates now found m1) \<Longrightarrow> reapable now p a m1"
proof -
  let ?ids = "map fst (mg_sessions m)" and ?refs = "referenced_pane_ids m"
  let ?us = "filter (\<lambda>(p, _). p \<in> set ?ids) (mg_unowned m)"
  obtain fs us where r: "reconcile_loop ?refs now ?ids (\<lparr>rp_total = length ?ids, rp_referenced = 0, rp_grace = 0\<rparr>, [], ?us) = (st, fs, us)"
    and found: "found = all_some (map (\<lambda>(p, since). map_option (\<lambda>a. (p, a, since)) (map_of (mg_sessions m) p)) fs)"
    and m1: "m1 = m\<lparr>mg_unowned := us\<rparr>"
    using assms(1) by (auto simp: scan_unowned_sessions_def reconcile_unowned_since_def split: prod.splits)
  have wf: "distinct ?ids" "al_wf (mg_unowned m)" using assms(2) by (simp_all add: manager_ok_def sessions_ok_def al_wf_def)
  note spec = reconcile_loop_spec [OF wf(1) r]
  have us0: "map_of ?us q = (if q \<in> set ?ids then map_of (mg_unowned m) q else None)" for q
    using map_of_filter_kv [OF wf(2), of "\<lambda>p _. p \<in> set ?ids" q] by (auto split: option.split)
  have fs: "fs = map (\<lambda>p. (p, since_of ?us now p)) (filter (\<lambda>p. p \<notin> set ?refs) ?ids)" using spec by simp
  have found': "found = map (\<lambda>p. (p, the (map_of (mg_sessions m) p), since_of ?us now p)) (filter (\<lambda>p. p \<notin> set ?refs) ?ids)"
  proof -
    have "all_some (map (\<lambda>(p, since). map_option (\<lambda>a. (p, a, since)) (map_of (mg_sessions m) p)) (map (\<lambda>p. (p, g p)) ps)) =
        map (\<lambda>p. (p, the (map_of (mg_sessions m) p), g p)) ps" if "set ps \<subseteq> set ?ids" for ps and g :: "string \<Rightarrow> instant"
      using that
    proof (induction ps)
      case (Cons q ps)
      then obtain b where "map_of (mg_sessions m) q = Some b" by (metis insert_subset list.set(2) list.set_map map_of_eq_None_iff not_None_eq)
      with Cons show ?case by (simp add: all_some_Cons)
    qed (simp add: all_some_def)
    then show ?thesis unfolding found fs by simp
  qed
  have c: "reap_candidates now found m1 = map (\<lambda>p. (p, the (map_of (mg_sessions m) p)))
      (filter (\<lambda>p. SESSION_UNOWNED_GRACE \<le> duration_since now (since_of ?us now p) \<and> \<not> connected (the (map_of (mg_sessions m) p)) m1)
        (filter (\<lambda>p. p \<notin> set ?refs) ?ids))"
    unfolding reap_candidates_def found' by (simp add: filter_map o_def)
  show "distinct (map fst (reap_candidates now found m1))" unfolding c using wf(1) by (simp add: o_def)
  have conn: "connected b m1 = connected b m" for b by (simp add: m1 connected_def)
  have since: "SESSION_UNOWNED_GRACE \<le> duration_since now (since_of ?us now p) \<longleftrightarrow>
      (\<exists>t. map_of (mg_unowned m) p = Some t \<and> SESSION_UNOWNED_GRACE \<le> duration_since now t)" if "p \<in> set ?ids" for p
    using that us0 [of p] grace_pos by (auto simp: since_of_def duration_since_def split: option.splits)
  have ids: "p \<in> set ?ids \<longleftrightarrow> map_of (mg_sessions m) p \<noteq> None" for p by (simp add: map_of_eq_None_iff)
  show cand: "(p, a) \<in> set (reap_candidates now found m1) \<longleftrightarrow> reapable now p a m"
  proof -
    have "(p, a) \<in> set (reap_candidates now found m1) \<longleftrightarrow> p \<in> set ?ids \<and> a = the (map_of (mg_sessions m) p) \<and>
        SESSION_UNOWNED_GRACE \<le> duration_since now (since_of ?us now p) \<and> \<not> connected a m \<and> \<not> pane_is_referenced p m"
      unfolding c using referenced_ids [of p m] by (auto simp: conn)
    then show ?thesis using since [of p] ids [of p] by (auto simp: reapable_def)
  qed
  assume "(p, a) \<in> set (reap_candidates now found m1)"
  then have re: "reapable now p a m" using cand by simp
  then have i: "p \<in> set ?ids" "p \<notin> set ?refs" using ids by (auto simp: reapable_def referenced_ids)
  then have "map_of us p = Some (since_of ?us now p)" using spec by simp
  moreover have "pane_is_referenced p m1 = pane_is_referenced p m" by (simp add: m1 pane_is_referenced_def)
  ultimately show "reapable now p a m1" using re since [OF i(1)] conn by (auto simp: reapable_def m1)
qed

lemma reap_one:
  assumes "reapable now p a m" "now \<le> now'" "try_reap_session recip ev now' p a m = (ok, m')"
  shows "ok \<and> close_with recip ev p (Some a) Reaped True None m = (True, m')"
proof -
  obtain t where t: "map_of (mg_unowned m) p = Some t" "SESSION_UNOWNED_GRACE \<le> duration_since now' t"
    using assms(1,2) by (auto simp: reapable_def duration_since_def)
  have ok: "ok" using try_reap_spec [OF assms(3)] assms(1) t by (auto simp: reapable_def)
  have "close_with recip ev p (Some a) Reaped True None m = (ok, m')"
    using assms(1,3) t by (auto simp: try_reap_session_def reapable_def)
  with ok show ?thesis by simp
qed

lemma reap_all_spec:
  "distinct (map fst cs) \<Longrightarrow> (\<And>p a. (p, a) \<in> set cs \<Longrightarrow> reapable now p a m) \<Longrightarrow> tabs_ok m \<Longrightarrow> (\<And>i. now \<le> clock i) \<Longrightarrow>
     reap_all recip ev clock cs n m = (n', m') \<Longrightarrow>
     n' = n + length cs \<and> map_of (mg_sessions m') q = (if q \<in> fst ` set cs then None else map_of (mg_sessions m) q)"
proof (induction cs arbitrary: n m)
  case (Cons c cs)
  obtain p a where c: "c = (p, a)" by fastforce
  obtain ok m1 where t: "try_reap_session recip (ev (length cs)) (clock (length cs)) p a m = (ok, m1)" by fastforce
  have "reapable now p a m" using Cons.prems(2) c by simp
  from reap_one [OF this Cons.prems(4) t] have cl: "ok" "close_with recip (ev (length cs)) p (Some a) Reaped True None m = (True, m1)"
    by auto
  note eff = close_effect [OF cl(2) Cons.prems(3)] and spec = close_with_spec [OF cl(2)]
  have "reapable now p' a' m1" if "(p', a') \<in> set cs" for p' a'
  proof -
    have "p' \<noteq> p" using that Cons.prems(1) c by force
    moreover have "reapable now p' a' m" using Cons.prems(2) that by simp
    ultimately show ?thesis using eff spec by (simp add: reapable_def map_of_al_del)
  qed
  moreover have "reap_all recip ev clock cs (Suc n) m1 = (n', m')" using Cons.prems(5) t c cl(1) by simp
  ultimately have "n' = Suc n + length cs \<and> map_of (mg_sessions m') q = (if q \<in> fst ` set cs then None else map_of (mg_sessions m1) q)"
    using Cons.IH [of m1 "Suc n"] Cons.prems(1,3,4) spec c by simp
  then show ?case using spec c by (auto simp: map_of_al_del)
qed simp

text \<open>
  C8. One tick of the clean-up task closes exactly the abandoned sessions: those that no tab shows as a
  terminal, to which no client is connected, and which an earlier tick had already found unowned at
  least a minute ago. Every other session stays, with its identity; in particular a session that is
  visible in some tab is never reaped, and closing one session never makes another one eligible or safe.
\<close>
theorem tick_reaps_exactly:
  assumes "manager_ok m" and "\<And>i. now \<le> clock i" and "cleanup_tick recip ev now clock m = (n, m')"
  shows "map_of (mg_sessions m') p =
      (case map_of (mg_sessions m) p of
         None \<Rightarrow> None
       | Some a \<Rightarrow>
           if \<not> pane_is_referenced p m \<and> \<not> connected a m \<and>
              (\<exists>t. map_of (mg_unowned m) p = Some t \<and> SESSION_UNOWNED_GRACE \<le> duration_since now t)
           then None else Some a)"
proof -
  obtain st found m1 where s: "scan_unowned_sessions now m = (st, found, m1)" by (metis prod_cases3)
  let ?cs = "reap_candidates now found m1"
  note sp = scan_spec [OF s assms(1)]
  have m1: "tabs_ok m1" "mg_sessions m1 = mg_sessions m" using scan_frame [OF s] assms(1) tabs_ok_same by (auto simp: manager_ok_def)
  have "reap_all recip ev clock ?cs 0 m1 = (n, m')" using assms(3) s by (simp add: cleanup_tick_def)
  from reap_all_spec [OF sp(1) sp(3) m1(1) assms(2) this] have
    "map_of (mg_sessions m') p = (if p \<in> fst ` set ?cs then None else map_of (mg_sessions m) p)" by (simp add: m1(2))
  moreover have "p \<in> fst ` set ?cs \<longleftrightarrow> (\<exists>a. reapable now p a m)" using sp(2) by force
  ultimately show ?thesis by (auto simp: reapable_def split: option.splits)
qed

subsection \<open>What a change of layout forgets\<close>

text \<open>
  When a pane leaves a tab that keeps other panes, the tab's value is built anew from the layout and the
  active pane: a title given by renaming the tab is gone.
\<close>
lemma close_forgets_title: "purge_entry recip p v = Changed v' \<Longrightarrow> get_str v' ''title'' = None"
  by (auto simp: purge_entry_def mk_obj_def get_str_def Let_def split: option.splits if_splits)

end
