(* ===== verification/ManagerView.thy ===== *)
theory ManagerView
  imports ManagerReap
begin

section \<open>What the clients are told when a session closes\<close>

text \<open>
  A client keeps a table of tabs and applies the messages it gets. The messages sent when a session is
  closed bring exactly that table from the old state of the server to the new one, with one exception:
  the fallback for a pane that no tab shows closes a tab of the same name, which may be alive.
\<close>

subsection \<open>Delivery\<close>

definition client_open :: "'f sync_client \<Rightarrow> bool" where
  "client_open c \<longleftrightarrow> \<not> ch_closed (sc_tx c)"

definition push_msgs :: "'f sync_msg list \<Rightarrow> 'f sync_client \<Rightarrow> 'f sync_client" where
  "push_msgs ms c = c\<lparr>sc_tx := (sc_tx c)\<lparr>ch_sent := ch_sent (sc_tx c) @ ms\<rparr>\<rparr>"

definition unbounded_clients :: "('f, 'ps) manager \<Rightarrow> bool" where
  "unbounded_clients m \<longleftrightarrow> list_all (\<lambda>c. ch_capacity (sc_tx c) = None) (mg_sync_clients m)"

lemma push_msgs_simps [simp]:
  "client_open (push_msgs ms c) = client_open c" "ch_capacity (sc_tx (push_msgs ms c)) = ch_capacity (sc_tx c)"
  "push_msgs ms2 (push_msgs ms1 c) = push_msgs (ms1 @ ms2) c"
  by (simp_all add: push_msgs_def client_open_def)

lemma broadcast_clients:
  assumes "unbounded_clients m"
  shows "mg_sync_clients (broadcast_sync msg m) = map (push_msgs [msg]) (filter client_open (mg_sync_clients m))"
proof -
  have "all_some (map (send_sync msg) cs) = map (push_msgs [msg]) (filter client_open cs)"
    if "list_all (\<lambda>c. ch_capacity (sc_tx c) = None) cs" for cs
    using that
    by (induction cs) (auto simp: all_some_def send_sync_def try_send_def chan_full_def push_msgs_def client_open_def)
  then show ?thesis using assms
    by (simp add: broadcast_sync_def publish_bus_def unbounded_clients_def split: option.split)
qed

lemma fold_broadcast_clients:
  "unbounded_clients m \<Longrightarrow> ms \<noteq> [] \<Longrightarrow>
     mg_sync_clients (fold broadcast_sync ms m) = map (push_msgs ms) (filter client_open (mg_sync_clients m))"
proof (induction ms arbitrary: m)
  case (Cons msg ms)
  note b = broadcast_clients [OF Cons.prems(1), of msg]
  have u: "unbounded_clients (broadcast_sync msg m)"
    using Cons.prems(1) by (simp add: unbounded_clients_def b list_all_iff)
  show ?case
  proof (cases "ms = []")
    case True
    then show ?thesis by (simp add: b)
  next
    case False
    then show ?thesis using Cons.IH [OF u] by (simp add: b filter_map o_def)
  qed
qed simp

definition changes_msgs :: "'f layout_changes \<Rightarrow> 'f sync_msg list" where
  "changes_msgs ch = map TabClosed (lc_closed ch) @
     map (\<lambda>u. LayoutUpdated (lu_tab u) (lu_layout u) (lu_active u)) (lc_updates ch)"

lemma broadcast_changes_msgs: "broadcast_layout_changes ch m = fold broadcast_sync (changes_msgs ch) m"
  by (simp add: broadcast_layout_changes_def changes_msgs_def fold_map o_def)

subsection \<open>The client's table\<close>

definition apply_msg :: "'f sync_msg \<Rightarrow> (string \<Rightarrow> 'f json option) \<Rightarrow> string \<Rightarrow> 'f json option" where
  "apply_msg msg view =
     (case msg of
        TabCreated t _ l _ _ _ \<Rightarrow> view(t := l)
      | TabClosed t \<Rightarrow> view(t := None)
      | LayoutUpdated t l _ \<Rightarrow> view(t \<mapsto> l)
      | _ \<Rightarrow> view)"

definition tab_view :: "('f, 'ps) manager \<Rightarrow> string \<Rightarrow> 'f json option" where
  "tab_view m t = map_of (mg_layouts m) t \<bind> layout_of"

lemma apply_closed: "fold apply_msg (map TabClosed ts) view t = (if t \<in> set ts then None else view t)"
  by (induction ts arbitrary: view) (auto simp: apply_msg_def)

lemma apply_updates:
  "(\<And>u. u \<in> set us \<Longrightarrow> lu_tab u = t \<Longrightarrow> lu_layout u = l) \<Longrightarrow>
   fold apply_msg (map (\<lambda>u. LayoutUpdated (lu_tab u) (lu_layout u) (lu_active u)) us) view t =
     (if t \<in> lu_tab ` set us then Some l else view t)"
  by (induction us arbitrary: view) (auto simp: apply_msg_def)

lemma apply_changes_miss:
  assumes "t \<notin> lu_tab ` set (lc_updates ch)"
  shows "fold apply_msg (changes_msgs ch) view t = (if t \<in> set (lc_closed ch) then None else view t)"
proof -
  have "t \<notin> lu_tab ` set us \<Longrightarrow>
      fold apply_msg (map (\<lambda>u. LayoutUpdated (lu_tab u) (lu_layout u) (lu_active u)) us) w t = w t" for us :: "'a layout_update list" and w
    by (induction us arbitrary: w) (auto simp: apply_msg_def)
  then show ?thesis using assms by (simp add: changes_msgs_def apply_closed)
qed

lemma apply_changes_hit:
  assumes "t \<in> lu_tab ` set (lc_updates ch)" "\<And>u. u \<in> set (lc_updates ch) \<Longrightarrow> lu_tab u = t \<Longrightarrow> lu_layout u = l"
  shows "fold apply_msg (changes_msgs ch) view t = Some l"
  using apply_updates [OF assms(2)] assms(1) by (simp add: changes_msgs_def)

definition touched :: "(nat \<Rightarrow> 'f) \<Rightarrow> string \<Rightarrow> ('f, 'ps) manager \<Rightarrow> bool" where
  "touched recip p m \<longleftrightarrow> (\<exists>t v. map_of (mg_layouts m) t = Some v \<and> purge_entry recip p v \<noteq> Untouched)"

lemma purge_view:
  assumes "purge_pane_from_layouts recip p False m = (ch, m')" "al_wf (mg_layouts m)"
  shows "fold apply_msg (changes_msgs ch) (tab_view m) = tab_view m'"
    and "lc_closed ch = [] \<and> lc_updates ch = [] \<longleftrightarrow> \<not> touched recip p m"
proof -
  note pm = purge_map [OF assms]
  have up: "u \<in> set (lc_updates ch) \<and> lu_tab u = t \<longleftrightarrow>
      (\<exists>v v'. map_of (mg_layouts m) t = Some v \<and> purge_entry recip p v = Changed v' \<and> u = update_of t v')" for u t
    unfolding pm(3) by (auto simp: update_of_def)
  have closed_iff: "t \<in> set (lc_closed ch) \<longleftrightarrow> (\<exists>v. map_of (mg_layouts m) t = Some v \<and> purge_entry recip p v = Emptied)" for t
    unfolding pm(2) by simp
  have upd_iff: "t \<in> lu_tab ` set (lc_updates ch) \<longleftrightarrow>
      (\<exists>v v'. map_of (mg_layouts m) t = Some v \<and> purge_entry recip p v = Changed v')" for t
  proof -
    have "t \<in> lu_tab ` set (lc_updates ch) \<longleftrightarrow> (\<exists>u. u \<in> set (lc_updates ch) \<and> lu_tab u = t)" by auto
    then show ?thesis unfolding up by blast
  qed
  show "lc_closed ch = [] \<and> lc_updates ch = [] \<longleftrightarrow> \<not> touched recip p m"
  proof -
    have "set (lc_closed ch) = {} \<and> set (lc_updates ch) = {} \<longleftrightarrow> \<not> touched recip p m"
      unfolding pm(2,3) touched_def by (auto intro: purged.exhaust)
    then show ?thesis by simp
  qed
  show "fold apply_msg (changes_msgs ch) (tab_view m) = tab_view m'"
  proof
    fix t
    show "fold apply_msg (changes_msgs ch) (tab_view m) t = tab_view m' t"
    proof (cases "map_of (mg_layouts m) t")
      case None
      then have "t \<notin> set (lc_closed ch)" "t \<notin> lu_tab ` set (lc_updates ch)" by (simp_all only: closed_iff upd_iff) simp_all
      then show ?thesis using None pm(1) [of t]
        by (simp add: apply_changes_miss tab_view_def)
    next
      case (Some v)
      show ?thesis
      proof (cases "purge_entry recip p v")
        case Untouched
        then have "t \<notin> set (lc_closed ch)" "t \<notin> lu_tab ` set (lc_updates ch)" using Some by (simp_all only: closed_iff upd_iff) simp_all
        then show ?thesis using Some Untouched pm(1) [of t]
          by (simp add: apply_changes_miss tab_view_def purged_tab_def)
      next
        case Emptied
        then have "t \<in> set (lc_closed ch)" "t \<notin> lu_tab ` set (lc_updates ch)" using Some by (simp_all only: closed_iff upd_iff) simp_all
        then show ?thesis using Some Emptied pm(1) [of t]
          by (simp add: apply_changes_miss tab_view_def purged_tab_def)
      next
        case (Changed v')
        then obtain l' where l': "layout_of v' = Some l'" using layout_of_changed by blast
        have "t \<in> lu_tab ` set (lc_updates ch)" using Some Changed by (simp only: upd_iff) simp
        moreover have "lu_layout u = l'" if "u \<in> set (lc_updates ch)" "lu_tab u = t" for u
          using iffD1 [OF up, OF conjI, OF that] Some Changed l' by (auto simp: update_of_def)
        ultimately show ?thesis using Some Changed pm(1) [of t] l'
          by (simp add: apply_changes_hit [where l = l'] tab_view_def purged_tab_def)
      qed
    qed
  qed
qed

subsection \<open>Closing a session\<close>

lemma execute_msgs:
  assumes "execute_close_plan ev pane reason kills code plan m = m'" "unbounded_clients m" "changes_msgs (cp_changes plan) \<noteq> []"
  shows "mg_sync_clients m' = map (push_msgs (changes_msgs (cp_changes plan))) (filter client_open (mg_sync_clients m))"
proof -
  obtain ok m1 where c: "confirm_termination ev pane reason kills (cp_session plan) m = (ok, m1)" by force
  have m1: "mg_sync_clients m1 = mg_sync_clients m"
    using c by (auto simp: confirm_termination_def Let_def on_hosted_def split: if_splits prod.splits)
  have f: "mg_sync_clients (forget_process ev pane x) = mg_sync_clients x" for x :: "('a, 'b) manager"
    by (simp add: forget_process_def split: prod.split)
  have n: "mg_sync_clients (publish_bus e (pane_closed_notify pane (on_hosted a g x))) = mg_sync_clients x"
    for e g a and x :: "('a, 'b) manager"
    by (simp add: publish_bus_def pane_closed_notify_def on_hosted_def split: option.split)
  have b: "mg_sync_clients (broadcast_layout_changes (cp_changes plan) x) =
      map (push_msgs (changes_msgs (cp_changes plan))) (filter client_open (mg_sync_clients m))"
    if "mg_sync_clients x = mg_sync_clients m" for x :: "('a, 'b) manager"
    using fold_broadcast_clients [OF _ assms(3), of x] assms(2) that by (simp add: broadcast_changes_msgs unbounded_clients_def)
  show ?thesis unfolding assms(1) [symmetric] execute_close_plan_def c Let_def
    by (simp add: on_hosted_def [of _ "\<lambda>h. h\<lparr>hs_on_exit := False\<rparr>"] b n f m1)
qed

lemma close_tells:
  assumes "manager_ok m" and "unbounded_clients m"
    and "close_with recip ev p ex reason kills code m = (True, m')"
  shows "\<exists>msgs. mg_sync_clients m' = map (push_msgs msgs) (filter client_open (mg_sync_clients m)) \<and>
    (fold apply_msg msgs (tab_view m) = tab_view m' \<longleftrightarrow> touched recip p m \<or> tab_view m p = None)"
proof -
  obtain a where a: "map_of (mg_sessions m) p = Some a" "ex \<in> {None, Some a}"
    using close_with_spec [OF assms(3)] by blast
  let ?m1 = "m\<lparr>mg_sessions := al_del p (mg_sessions m), mg_unowned := al_del p (mg_unowned m)\<rparr>"
  obtain ch1 m3 where p: "purge_pane_from_layouts recip p False ?m1 = (ch1, m3)" by force
  define ch where "ch = (if lc_closed ch1 = [] \<and> lc_updates ch1 = [] then ch1\<lparr>lc_closed := [p]\<rparr> else ch1)"
  obtain m2 where m2: "collect_layout_close recip p True ?m1 = (ch, m2)" "mg_layouts m2 = mg_layouts m3"
    "mg_sync_clients m2 = mg_sync_clients m3"
    using p by (simp add: collect_layout_close_def ch_def)
  have e: "m' = execute_close_plan ev p reason kills code \<lparr>cp_session = a, cp_changes = ch\<rparr> m2"
    using a m2(1) assms(3) by (auto simp: close_with_def remove_session_def)
  have wf: "al_wf (mg_layouts ?m1)" using assms(1) by (simp add: manager_ok_def tabs_ok_def)
  note pv = purge_view [OF p wf]
  have ne: "changes_msgs ch \<noteq> []" by (auto simp: ch_def changes_msgs_def)
  have cl: "mg_sync_clients m2 = mg_sync_clients m"
  proof -
    have "mg_sync_clients (fold (\<lambda>t m. snd (remove_tab t m)) ts x) = mg_sync_clients x" for ts and x :: "('a, 'b) manager"
      by (induction ts arbitrary: x) (simp_all add: remove_tab_def schedule_snapshot_def Let_def)
    moreover have "mg_sync_clients (fold (\<lambda>(t, v). insert_tab t v) us x) = mg_sync_clients x" for us and x :: "('a, 'b) manager"
      by (induction us arbitrary: x) (simp_all add: insert_tab_def schedule_snapshot_def split_beta)
    ultimately show ?thesis using p m2(3) by (auto simp: purge_pane_from_layouts_def Let_def)
  qed
  have lay: "tab_view m' = tab_view m3"
    using execute_frame(1) [of m2 ev p reason kills code] by (simp add: e same_tabs_def tab_view_def fun_eq_iff m2(2))
  have same: "tab_view ?m1 = tab_view m" "touched recip p ?m1 = touched recip p m"
    by (simp_all add: tab_view_def fun_eq_iff touched_def)
  have view: "fold apply_msg (changes_msgs ch) (tab_view m) = tab_view m' \<longleftrightarrow> touched recip p m \<or> tab_view m p = None"
  proof (cases "touched recip p m")
    case True
    then have "ch = ch1" using pv(2) same by (auto simp: ch_def)
    then show ?thesis using pv(1) True lay same by simp
  next
    case False
    then have c: "lc_closed ch1 = []" "lc_updates ch1 = []" using pv(2) same by auto
    then have "changes_msgs ch = [TabClosed p]" "changes_msgs ch1 = []" by (simp_all add: ch_def changes_msgs_def)
    moreover from this(2) have "tab_view m3 = tab_view m" using pv(1) same by simp
    ultimately show ?thesis using False lay by (auto simp: apply_msg_def fun_eq_iff)
  qed
  have u: "unbounded_clients m2" using assms(2) cl by (simp add: unbounded_clients_def)
  have "mg_sync_clients m' = map (push_msgs (changes_msgs ch)) (filter client_open (mg_sync_clients m))"
    using execute_msgs [OF e [symmetric] u] ne by (simp add: cl)
  then show ?thesis using view by (intro exI conjI)
qed

text \<open>
  C3. Closing a session keeps every connected client's table of tabs true to the server: each open client
  gets the same messages in the same order, and applying them to the old table gives the new one; this
  fails exactly when no tab showed the pane and yet there is a tab of that name: the fallback message
  then makes the clients drop a tab which the server keeps.
\<close>
theorem close_keeps_clients_true:
  assumes "manager_ok m" and "unbounded_clients m"
    and "close_with recip ev p ex reason kills code m = (True, m')"
  shows "\<exists>msgs. mg_sync_clients m' = map (push_msgs msgs) (filter client_open (mg_sync_clients m)) \<and>
    (fold apply_msg msgs (tab_view m) = tab_view m' \<longleftrightarrow> touched recip p m \<or> tab_view m p = None)"
  by (rule close_tells [OF assms])

subsection \<open>A tab that is overwritten\<close>

lemma singleton_value:
  "layout_of (mk_obj [(''layout'', l), (''active_pane_id'', JStr p)]) = Some l"
  "terminal_ids (terminal_leaf p sh) = [p]"
  by (simp_all add: layout_of_def mk_obj_def terminal_leaf_def collect_terminal_leaf_pane_ids.simps get_str_def leaf_kind_def)

text \<open>
  A session without a tab gets one named after its pane, even if a tab of that name exists: when the
  pane was closed while its tab lived on with other panes (closing a pane does not rename the tab), the
  remaining panes of that tab are no longer shown by any tab, so the clean-up task will reap their
  sessions, although the call reports success.
\<close>
theorem singleton_tab_overwrites:
  assumes "tabs_ok m" and "is_current_session p a m" and "\<not> pane_is_referenced p m"
    and "tab_view m p = Some l" and "q \<in> set (terminal_ids l)"
    and "\<And>t l'. t \<noteq> p \<Longrightarrow> tab_view m t = Some l' \<Longrightarrow> q \<notin> set (terminal_ids l')"
  shows "\<exists>m'. register_singleton_tab id id id p a sh m = (True, m') \<and>
    pane_is_referenced q m \<and> \<not> pane_is_referenced q m'"
proof -
  let ?v = "mk_obj [(''layout'', terminal_leaf p sh), (''active_pane_id'', JStr p)]"
  let ?m1 = "insert_tab p ?v m"
  let ?m2 = "broadcast_sync (TabCreated p p (Some (terminal_leaf p sh)) None None None) ?m1"
  have wf: "al_wf (mg_layouts m)" "al_wf (mg_layouts ?m2)"
    using assms(1) tabs_ok_insert [OF assms(1), of p ?v] broadcast_frame(1) [of ?m1]
    by (simp_all add: tabs_ok_def same_tabs_def)
  have cur: "is_current_session p a ?m1" "is_current_session p a ?m2"
    using assms(2) insert_tab_sessions [of m p ?v] broadcast_frame(2) [of ?m1]
    by (simp_all add: is_current_session_def same_sessions_def)
  have r: "register_singleton_tab id id id p a sh m = (True, ?m2)"
    using assms(2,3) cur by (simp add: register_singleton_tab_def Let_def)
  have ref: "pane_is_referenced q x \<longleftrightarrow> (\<exists>t l. tab_view x t = Some l \<and> q \<in> set (terminal_ids l))"
    if "al_wf (mg_layouts x)" for x :: "('a, 'b) manager"
    unfolding referenced_iff [OF that] tab_view_def by (auto simp: bind_eq_Some_conv)
  have pq: "q \<noteq> p" using assms(3-5) ref [OF wf(1)] by blast
  have view: "tab_view ?m2 t = (if t = p then Some (terminal_leaf p sh) else tab_view m t)" for t
    using broadcast_frame(1) [of ?m1] by (simp add: tab_view_def same_tabs_def layouts_insert_tab singleton_value)
  have "pane_is_referenced q m" using ref [OF wf(1)] assms(4,5) by blast
  moreover have "\<not> pane_is_referenced q ?m2" using pq assms(6) by (auto simp: ref [OF wf(2)] view singleton_value)
  ultimately show ?thesis using r by blast
qed

subsection \<open>Examples\<close>

lemma demo_views: "tab_view demo_manager t = (if t = ''t'' then Some (terminal_leaf ''q'' ''sh'') else None)"
  by (simp add: tab_view_def demo_manager_def new_session_manager_def singleton_value)

lemma demo_facts:
  "map_of (mg_sessions demo_manager) = [''p'' \<mapsto> 0, ''q'' \<mapsto> 1]" "map_of (mg_unowned demo_manager) = [''p'' \<mapsto> 0]"
  "mg_sync_clients demo_manager = []" "pane_is_referenced q demo_manager \<longleftrightarrow> q = ''q''" "\<not> connected a demo_manager"
  by (auto simp: demo_manager_def new_session_manager_def pane_is_referenced_def singleton_value connected_def demo_hosted_def)

lemma tick_reaps_exactly_witness:
  "map_of (mg_sessions (snd (cleanup_tick (\<lambda>n. n) (\<lambda>_. demo_env) (from_secs 61) (\<lambda>_. from_secs 61) demo_manager))) ''p'' = None"
  using tick_reaps_exactly [OF demo_manager_ok _ surjective_pairing, where p = "''p''" and now = "from_secs 61"
      and clock = "\<lambda>_. from_secs 61" and ev = "\<lambda>_. demo_env" and recip = "\<lambda>n. n"]
  by (simp add: demo_facts SESSION_UNOWNED_GRACE_def from_secs_def duration_since_def)

lemma close_keeps_clients_true_witness:
  "\<exists>msgs. fold apply_msg msgs (tab_view demo_manager) =
     tab_view (snd (close_with (\<lambda>n. n) demo_env ''p'' None Explicit True None demo_manager))"
proof -
  have "fst (close_with (\<lambda>n. n) demo_env ''p'' None Explicit True None demo_manager)"
    using close_with_spec [OF surjective_pairing [of "close_with (\<lambda>n. n) demo_env ''p'' None Explicit True None demo_manager"]]
    by (simp add: demo_facts)
  then have c: "close_with (\<lambda>n. n) demo_env ''p'' None Explicit True None demo_manager =
      (True, snd (close_with (\<lambda>n. n) demo_env ''p'' None Explicit True None demo_manager))"
    by (metis prod.collapse)
  have "unbounded_clients demo_manager" by (simp add: unbounded_clients_def demo_facts)
  from close_keeps_clients_true [OF demo_manager_ok this c] show ?thesis by (auto simp: demo_views)
qed

definition stale_manager :: "(nat, unit) manager" where
  "stale_manager = demo_manager\<lparr>mg_layouts :=
     [(''p'', mk_obj [(''layout'', terminal_leaf ''q'' ''sh''), (''active_pane_id'', JStr ''q'')])], mg_order := [''p'']\<rparr>"

lemma singleton_tab_overwrites_witness:
  "\<exists>m'. register_singleton_tab id id id ''p'' 0 ''sh'' stale_manager = (True, m') \<and>
     pane_is_referenced ''q'' stale_manager \<and> \<not> pane_is_referenced ''q'' m'"
proof -
  have v: "tab_view stale_manager t = (if t = ''p'' then Some (terminal_leaf ''q'' ''sh'') else None)" for t
    by (simp add: tab_view_def stale_manager_def singleton_value)
  have "tabs_ok stale_manager" by (simp add: stale_manager_def tabs_ok_def al_wf_def)
  moreover have "is_current_session ''p'' 0 stale_manager" by (simp add: is_current_session_def stale_manager_def demo_facts)
  moreover have "\<not> pane_is_referenced ''p'' stale_manager"
    by (simp add: pane_is_referenced_def stale_manager_def singleton_value)
  ultimately show ?thesis
    by (rule singleton_tab_overwrites [where l = "terminal_leaf ''q'' ''sh''"]) (simp_all add: v singleton_value split: if_splits)
qed

end
