(* ===== verification/WorkspaceProps.thy ===== *)
theory WorkspaceProps
  imports Workspaces ManagerRuns
begin

section \<open>Properties of the workspaces\<close>

subsection \<open>Colours\<close>

lemma byte_len_ascii: "list_all (\<lambda>c. c < 128) s \<Longrightarrow> byte_len s = length s"
  by (induction s) (simp_all add: byte_len_def utf8_len_def)

lemma hex_ascii: "is_ascii_hexdigit c \<Longrightarrow> c < 128 \<and> is_ascii_hexdigit (to_ascii_upper c) \<and> to_ascii_upper c < 128"
  by (auto simp: is_ascii_hexdigit_def to_ascii_upper_def)

lemma valid_hex6_iff: "is_valid_hex6 s \<longleftrightarrow> (\<exists>cs. s = 35 # cs \<and> length cs = 6 \<and> list_all is_ascii_hexdigit cs)"
proof -
  have "byte_len (35 # cs) = Suc (length cs)" if "list_all is_ascii_hexdigit cs" for cs
    using byte_len_ascii [of "35 # cs"] that hex_ascii by (auto simp: list_all_iff)
  then show ?thesis by (auto simp: is_valid_hex6_def split: list.splits)
qed

lemma normalize_color_valid: "normalize_color raw = Some c \<Longrightarrow> is_valid_hex6 c"
  by (auto simp: normalize_color_def valid_hex6_iff to_ascii_upper_def [of 35] list_all_iff hex_ascii split: if_splits)

lemma palette_valid: "is_valid_hex6 (palette_color_for i)"
proof -
  have all: "list_all is_valid_hex6 WORKSPACE_PALETTE"
    by (simp add: WORKSPACE_PALETTE_def valid_hex6_iff lit_def is_ascii_hexdigit_def)
  have "unat (fnv1a32 i mod 7) < 7" by (simp add: unat_mod)
  also have "7 = length WORKSPACE_PALETTE" by (simp add: WORKSPACE_PALETTE_def)
  finally show ?thesis using all by (simp add: palette_color_for_def list_all_length)
qed

lemma migrated_colors: "list_all (\<lambda>w. \<not> needs_color w) (snd (migrate_colors ws))"
  by (induction ws) (simp_all add: migrate_colors_def, auto simp: needs_color_def palette_valid)

subsection \<open>The invariant\<close>

definition workspace_ok :: "workspace \<Rightarrow> bool" where
  "workspace_ok w \<longleftrightarrow> \<not> needs_color w \<and> (ws_connection w = None \<longrightarrow> \<not> is_sensitive_workspace_target (ws_path w))"

definition workspaces_ok :: "workspace list \<Rightarrow> bool" where
  "workspaces_ok ws \<longleftrightarrow> distinct (map ws_id ws) \<and> list_all workspace_ok ws"

lemma validated_path: "validate_workspace_path canon is_dir p = Inr c \<Longrightarrow> is_dir c \<and> \<not> is_sensitive_workspace_target c"
  by (auto simp: validate_workspace_path_def Let_def split: if_splits sum.splits)

lemma list_wk [simp]:
  "wk_list (save_workspaces b st) = wk_list st" "wk_list (save_settings b st) = wk_list st" "wk_list (tell msg st) = wk_list st"
  by (simp_all add: save_workspaces_def save_settings_def tell_def)

lemma ws_index_Some: "ws_index i ws = Some k \<Longrightarrow> k < length ws \<and> ws_id (ws ! k) = i"
  by (induction ws arbitrary: k) (auto split: if_splits)

lemma update_keeps:
  assumes "workspaces_ok ws" "k < length ws" "ws_id w = ws_id (ws ! k)" "workspace_ok w"
  shows "workspaces_ok (ws[k := w])"
proof -
  have "map ws_id (ws[k := w]) = map ws_id ws"
    using assms(2,3) by (simp add: map_update list_update_same_conv)
  then show ?thesis using assms set_update_subset_insert [of ws k w] by (auto simp: workspaces_ok_def list_all_iff)
qed

lemma apply_update_ok:
  "workspace_ok w \<Longrightarrow> workspace_ok (apply_update req w) \<and> ws_id (apply_update req w) = ws_id w"
  by (auto simp: apply_update_def workspace_ok_def needs_color_def palette_valid normalize_color_valid Let_def split: option.splits)

lemma renumber_list: "map ws_id (renumber ws) = map ws_id ws" "list_all workspace_ok (renumber ws) = list_all workspace_ok ws"
proof -
  have "map ws_id (map (\<lambda>(i, w). w\<lparr>ws_order := of_nat i\<rparr>) (enumerate n ws)) = map ws_id ws" for n
    by (induction ws arbitrary: n) simp_all
  then show "map ws_id (renumber ws) = map ws_id ws" by (simp add: renumber_def)
  have "list_all workspace_ok (map (\<lambda>(i, w). w\<lparr>ws_order := of_nat i\<rparr>) (enumerate n ws)) = list_all workspace_ok ws" for n
    by (induction ws arbitrary: n) (simp_all add: workspace_ok_def needs_color_def)
  then show "list_all workspace_ok (renumber ws) = list_all workspace_ok ws" by (simp add: renumber_def)
qed

lemma assign_list: "map ws_id (assign_orders n wids ws) = map ws_id ws" "list_all workspace_ok (assign_orders n wids ws) = list_all workspace_ok ws"
proof -
  have u: "map ws_id (update_first P (\<lambda>w. w\<lparr>ws_order := k\<rparr>) vs) = map ws_id vs"
    "list_all workspace_ok (update_first P (\<lambda>w. w\<lparr>ws_order := k\<rparr>) vs) = list_all workspace_ok vs" for P k vs
    by (induction vs) (simp_all add: workspace_ok_def needs_color_def)
  show "map ws_id (assign_orders n wids ws) = map ws_id ws" by (induction n wids ws rule: assign_orders.induct) (simp_all add: u)
  show "list_all workspace_ok (assign_orders n wids ws) = list_all workspace_ok ws"
    by (induction n wids ws rule: assign_orders.induct) (simp_all add: u)
qed

text \<open>The requests; \<open>canon\<close> and \<open>is_dir\<close> may answer differently each time.\<close>

datatype ws_op =
    WoCreate "rstring \<Rightarrow> string + rstring" "rstring \<Rightarrow> bool" rstring bool create_req
  | WoUpdate "rstring \<Rightarrow> string + rstring" "rstring \<Rightarrow> bool" bool rstring update_req
  | WoDelete bool bool rstring
  | WoActivate bool rstring
  | WoDeactivate bool
  | WoReorder bool "rstring list"

definition ws_step :: "ws_op \<Rightarrow> ('f, 'ps) ws_state \<Rightarrow> ws_response \<times> ('f, 'ps) ws_state" where
  "ws_step op st =
     (case op of
        WoCreate canon is_dir uuid save req \<Rightarrow> create_workspace canon is_dir uuid save req st
      | WoUpdate canon is_dir save i req \<Rightarrow> update_workspace canon is_dir save i req st
      | WoDelete save save2 i \<Rightarrow> delete_workspace save save2 i st
      | WoActivate save i \<Rightarrow> activate_workspace save i st
      | WoDeactivate save \<Rightarrow> deactivate_workspace save st
      | WoReorder save wids \<Rightarrow> reorder_workspaces save wids st)"

fun fresh_uuid :: "ws_op \<Rightarrow> workspace list \<Rightarrow> bool" where
  "fresh_uuid (WoCreate canon is_dir uuid save req) ws \<longleftrightarrow> uuid \<notin> ws_id ` set ws"
| "fresh_uuid _ ws \<longleftrightarrow> True"

lemma create_ok:
  assumes "workspaces_ok (wk_list st)" "uuid \<notin> ws_id ` set (wk_list st)"
  shows "workspaces_ok (wk_list (snd (create_workspace canon is_dir uuid save req st)))"
proof -
  have c: "is_valid_hex6 (case c \<bind> normalize_color of Some c \<Rightarrow> c | None \<Rightarrow> palette_color_for uuid)" for c
    using normalize_color_valid by (auto simp: palette_valid split: option.split bind_splits)
  show ?thesis using assms c validated_path
    by (auto simp: create_workspace_def Let_def workspaces_ok_def workspace_ok_def needs_color_def
      split: sum.splits if_splits)
qed

lemma update_ok:
  assumes "workspaces_ok (wk_list st)"
  shows "workspaces_ok (wk_list (snd (update_workspace canon is_dir save i req st)))"
proof (cases "ws_index i (wk_list st)")
  case None
  then show ?thesis using assms by (simp add: update_workspace_def)
next
  case (Some k)
  note k = ws_index_Some [OF Some]
  let ?w0 = "wk_list st ! k"
  let ?w1 = "with_connection req ?w0"
  have w0: "workspace_ok ?w0" using assms k by (simp add: workspaces_ok_def list_all_length)
  then have w1: "workspace_ok ?w1" "ws_id ?w1 = ws_id ?w0"
    by (auto simp: with_connection_def workspace_ok_def needs_color_def split: option.splits)
  have ws1: "workspaces_ok ((wk_list st)[k := ?w1])" by (rule update_keeps [OF assms _ w1(2,1)]) (use k in simp)
  have path: "workspace_ok (?w1\<lparr>ws_path := p\<rparr>)" if "updated_path canon is_dir new k ((wk_list st)[k := ?w1]) = Inr p" for new p
    using that w1 k validated_path
    by (auto simp: updated_path_def Let_def workspace_ok_def needs_color_def split: if_splits sum.splits)
  have name: "workspace_ok (w\<lparr>ws_name := n\<rparr>) = workspace_ok w" for w n by (simp add: workspace_ok_def needs_color_def)
  have final: "workspaces_ok ((wk_list st)[k := apply_update req w2])" if "workspace_ok w2" "ws_id w2 = ws_id ?w0" for w2
    by (rule update_keeps [OF assms]) (use k that apply_update_ok in simp_all)
  show ?thesis
    using Some ws1 w1 path final [of ?w1] final [of "?w1\<lparr>ws_path := p\<rparr>" for p] final [of "?w1\<lparr>ws_path := p, ws_name := n\<rparr>" for p n]
    by (auto simp: update_workspace_def Let_def name split: option.splits sum.splits)
qed

lemma delete_ok: "workspaces_ok (wk_list st) \<Longrightarrow> workspaces_ok (wk_list (snd (delete_workspace save save2 i st)))"
proof (cases "ws_index i (wk_list st)")
  case (Some k)
  assume ok: "workspaces_ok (wk_list st)"
  let ?ws = "take k (wk_list st) @ drop (Suc k) (wk_list st)"
  have k: "k < length (wk_list st)" using ws_index_Some [OF Some] by simp
  then have split: "wk_list st = take k (wk_list st) @ wk_list st ! k # drop (Suc k) (wk_list st)" by (rule id_take_nth_drop)
  have "map ws_id (wk_list st) = map ws_id (take k (wk_list st)) @ ws_id (wk_list st ! k) # map ws_id (drop (Suc k) (wk_list st))"
    by (subst split) simp
  moreover have "list_all workspace_ok (take k (wk_list st) @ wk_list st ! k # drop (Suc k) (wk_list st))"
    using ok split by (simp add: workspaces_ok_def)
  ultimately have "distinct (map ws_id ?ws)" "list_all workspace_ok ?ws" using ok by (simp_all add: workspaces_ok_def)
  then have "workspaces_ok (renumber ?ws)" by (simp add: workspaces_ok_def renumber_list)
  then show ?thesis using Some by (simp add: delete_workspace_def Let_def)
qed (simp add: delete_workspace_def)

lemma sort_ok: "workspaces_ok (sort_key f ws) = workspaces_ok ws"
proof -
  have "mset (map ws_id (sort_key f ws)) = mset (map ws_id ws)" by simp
  then have "distinct (map ws_id (sort_key f ws)) = distinct (map ws_id ws)" using mset_eq_imp_distinct_iff by blast
  then show ?thesis by (simp add: workspaces_ok_def list_all_iff)
qed

lemma reorder_ws_ok: "workspaces_ok (wk_list st) \<Longrightarrow> workspaces_ok (wk_list (snd (reorder_workspaces save xs st)))"
proof -
  assume "workspaces_ok (wk_list st)"
  then have "workspaces_ok (assign_orders 0 xs (wk_list st))" by (simp add: workspaces_ok_def assign_list)
  then have "workspaces_ok (sort_key (\<lambda>w. unat (ws_order w)) (assign_orders 0 xs (wk_list st)))" by (simp only: sort_ok)
  then show ?thesis using \<open>workspaces_ok (wk_list st)\<close> by (simp add: reorder_workspaces_def Let_def)
qed

text \<open>
  C23. Every request keeps the list of workspaces well-formed, whether it succeeds or fails: ids stay
  distinct, every workspace has a valid colour, and no local workspace, whatever the path resolution
  answers at each request, names the root directory or a directory inside the system directories.
\<close>
theorem workspaces_stay_ok:
  assumes "workspaces_ok (wk_list st)" and "fresh_uuid op (wk_list st)"
  shows "workspaces_ok (wk_list (snd (ws_step op st)))"
  using assms create_ok update_ok delete_ok reorder_ws_ok
  by (cases op) (simp_all add: ws_step_def activate_workspace_def deactivate_workspace_def)

subsection \<open>The workspace of a tab\<close>

abbreviation ws_root :: "workspace \<Rightarrow> rstring" where
  "ws_root w \<equiv> trim_end_slashes (ws_path w)"

definition holds_cwd :: "rstring \<Rightarrow> workspace \<Rightarrow> bool" where
  "holds_cwd cwd w \<longleftrightarrow> ws_connection w = None \<and> ws_root w \<noteq> [] \<and> (cwd = ws_root w \<or> (\<exists>r. cwd = ws_root w @ 47 # r))"

lemma cwd_in_iff: "cwd_in cwd path \<longleftrightarrow> cwd = path \<or> (\<exists>r. cwd = path @ 47 # r)"
proof -
  have "starts_with cwd path \<and> (case drop (length path) cwd of c # _ \<Rightarrow> c = 47 | [] \<Rightarrow> False) \<longleftrightarrow> (\<exists>r. cwd = path @ 47 # r)"
    by (auto simp: starts_with_iff split: list.splits)
  then show ?thesis by (simp add: cwd_in_def)
qed

lemma best_spec:
  "if \<forall>w \<in> set ws. holds_cwd cwd w \<longrightarrow> byte_len (ws_root w) \<le> len then best_workspace cwd ws best len = best
   else \<exists>k < length ws. best_workspace cwd ws best len = Some (ws ! k) \<and> holds_cwd cwd (ws ! k) \<and> len < byte_len (ws_root (ws ! k)) \<and>
     (\<forall>j < length ws. holds_cwd cwd (ws ! j) \<longrightarrow> byte_len (ws_root (ws ! j)) \<le> byte_len (ws_root (ws ! k)) \<and>
        (j < k \<longrightarrow> byte_len (ws_root (ws ! j)) < byte_len (ws_root (ws ! k))))"
proof (induction ws arbitrary: best len)
  case (Cons w ws)
  let ?L = "byte_len (ws_root w)"
  show ?case
  proof (cases "holds_cwd cwd w \<and> len < ?L")
    case False
    then have e: "best_workspace cwd (w # ws) best len = best_workspace cwd ws best len"
      by (auto simp: Let_def holds_cwd_def cwd_in_iff)
    have all: "(\<forall>v \<in> set (w # ws). holds_cwd cwd v \<longrightarrow> byte_len (ws_root v) \<le> len) \<longleftrightarrow>
        (\<forall>v \<in> set ws. holds_cwd cwd v \<longrightarrow> byte_len (ws_root v) \<le> len)" using False by auto
    show ?thesis
    proof (cases "\<forall>v \<in> set ws. holds_cwd cwd v \<longrightarrow> byte_len (ws_root v) \<le> len")
      case True
      then show ?thesis using Cons.IH [of len best] unfolding e all by simp
    next
      case ex: False
      then obtain k where k: "k < length ws" "best_workspace cwd ws best len = Some (ws ! k)" "holds_cwd cwd (ws ! k)"
        "len < byte_len (ws_root (ws ! k))"
        "\<forall>j < length ws. holds_cwd cwd (ws ! j) \<longrightarrow> byte_len (ws_root (ws ! j)) \<le> byte_len (ws_root (ws ! k)) \<and>
           (j < k \<longrightarrow> byte_len (ws_root (ws ! j)) < byte_len (ws_root (ws ! k)))"
        using Cons.IH [of len best] unfolding if_not_P [OF ex] by blast
      have "\<forall>j < length (w # ws). holds_cwd cwd ((w # ws) ! j) \<longrightarrow>
          byte_len (ws_root ((w # ws) ! j)) \<le> byte_len (ws_root ((w # ws) ! Suc k)) \<and>
          (j < Suc k \<longrightarrow> byte_len (ws_root ((w # ws) ! j)) < byte_len (ws_root ((w # ws) ! Suc k)))"
        using k(4,5) False by (auto simp: less_Suc_eq_0_disj nth_Cons split: nat.split)
      then show ?thesis unfolding e all using ex k by (auto intro!: exI [of _ "Suc k"])
    qed
  next
    case True
    then have e: "best_workspace cwd (w # ws) best len = best_workspace cwd ws (Some w) ?L"
      by (auto simp: Let_def holds_cwd_def cwd_in_iff)
    have no: "\<not> (\<forall>v \<in> set (w # ws). holds_cwd cwd v \<longrightarrow> byte_len (ws_root v) \<le> len)" using True by auto
    show ?thesis
    proof (cases "\<forall>v \<in> set ws. holds_cwd cwd v \<longrightarrow> byte_len (ws_root v) \<le> ?L")
      case all: True
      then have "best_workspace cwd ws (Some w) ?L = Some w" using Cons.IH [of ?L "Some w"] by simp
      moreover have "\<forall>j < length (w # ws). holds_cwd cwd ((w # ws) ! j) \<longrightarrow> byte_len (ws_root ((w # ws) ! j)) \<le> ?L"
        using all by (auto simp: nth_Cons split: nat.split)
      ultimately show ?thesis unfolding e if_not_P [OF no] using True by (auto intro!: exI [of _ 0])
    next
      case ex: False
      then obtain k where k: "k < length ws" "best_workspace cwd ws (Some w) ?L = Some (ws ! k)" "holds_cwd cwd (ws ! k)"
        "?L < byte_len (ws_root (ws ! k))"
        "\<forall>j < length ws. holds_cwd cwd (ws ! j) \<longrightarrow> byte_len (ws_root (ws ! j)) \<le> byte_len (ws_root (ws ! k)) \<and>
           (j < k \<longrightarrow> byte_len (ws_root (ws ! j)) < byte_len (ws_root (ws ! k)))"
        using Cons.IH [of ?L "Some w"] unfolding if_not_P [OF ex] by blast
      have "\<forall>j < length (w # ws). holds_cwd cwd ((w # ws) ! j) \<longrightarrow>
          byte_len (ws_root ((w # ws) ! j)) \<le> byte_len (ws_root ((w # ws) ! Suc k)) \<and>
          (j < Suc k \<longrightarrow> byte_len (ws_root ((w # ws) ! j)) < byte_len (ws_root ((w # ws) ! Suc k)))"
        using k(4,5) by (auto simp: nth_Cons split: nat.split)
      then show ?thesis unfolding e if_not_P [OF no] using True k by (auto intro!: exI [of _ "Suc k"])
    qed
  qed
qed simp

text \<open>
  A local tab belongs to the innermost workspace around its directory: the answer is \<open>None\<close> exactly
  if no local workspace is the directory or one of its ancestors; otherwise it is the id of a workspace that
  is, with the longest path among those, the first of them if there are several. A directory that merely has
  the workspace's path as a string prefix does not count.
\<close>
theorem tab_in_innermost_workspace:
  assumes "cwd \<noteq> []"
  shows "case tab_workspace_id wss (Some cwd) None of
      None \<Rightarrow> \<forall>w \<in> set wss. \<not> holds_cwd cwd w
    | Some i \<Rightarrow> \<exists>k < length wss. ws_id (wss ! k) = i \<and> holds_cwd cwd (wss ! k) \<and>
        (\<forall>j < length wss. holds_cwd cwd (wss ! j) \<longrightarrow>
           byte_len (ws_root (wss ! j)) \<le> byte_len (ws_root (wss ! k)) \<and>
           (j < k \<longrightarrow> byte_len (ws_root (wss ! j)) < byte_len (ws_root (wss ! k))))"
proof -
  have pos: "0 < byte_len s" if "s \<noteq> []" for s :: rstring using that by (cases s) (simp_all add: byte_len_def utf8_len_def)
  have e: "tab_workspace_id wss (Some cwd) None = map_option ws_id (best_workspace cwd wss None 0)"
    using assms by (simp add: tab_workspace_id_def)
  have "(\<forall>w \<in> set wss. holds_cwd cwd w \<longrightarrow> byte_len (ws_root w) \<le> 0) \<longleftrightarrow> (\<forall>w \<in> set wss. \<not> holds_cwd cwd w)"
    using pos by (force simp: holds_cwd_def)
  then show ?thesis using best_spec [of wss cwd 0 None] unfolding e by (auto split: if_splits)
qed

subsection \<open>Reordering\<close>

fun id_pos :: "rstring \<Rightarrow> rstring list \<Rightarrow> nat" where
  "id_pos i [] = 0"
| "id_pos i (x # xs) = (if x = i then 0 else Suc (id_pos i xs))"

lemma id_pos_nth: "distinct xs \<Longrightarrow> k < length xs \<Longrightarrow> id_pos (xs ! k) xs = k"
proof (induction xs arbitrary: k)
  case (Cons x xs)
  then show ?case by (cases k) (auto simp: nth_eq_iff_index_eq)
qed simp

lemma id_pos_less: "i \<in> set xs \<Longrightarrow> id_pos i xs < length xs"
  by (induction xs) auto

lemma update_first_orders:
  "distinct (map ws_id ws) \<Longrightarrow>
     map (\<lambda>w. (ws_id w, ws_order w)) (update_first (\<lambda>w. ws_id w = i) (\<lambda>w. w\<lparr>ws_order := k\<rparr>) ws) =
     map (\<lambda>w. (ws_id w, if ws_id w = i then k else ws_order w)) ws"
  by (induction ws) (auto, metis image_eqI)

lemma assign_orders_spec:
  "distinct (map ws_id ws) \<Longrightarrow> distinct xs \<Longrightarrow>
     map (\<lambda>w. (ws_id w, ws_order w)) (assign_orders n xs ws) =
     map (\<lambda>w. (ws_id w, if ws_id w \<in> set xs then of_nat (n + id_pos (ws_id w) xs) else ws_order w)) ws"
proof (induction n xs ws rule: assign_orders.induct)
  case (2 n i xs ws)
  let ?ws = "update_first (\<lambda>w. ws_id w = i) (\<lambda>w. w\<lparr>ws_order := of_nat n\<rparr>) ws"
  note u = update_first_orders [OF 2(2), of i "of_nat n"]
  have d: "distinct (map ws_id ?ws)"
  proof -
    have "map fst (map (\<lambda>w. (ws_id w, ws_order w)) ?ws) = map ws_id ws" by (simp add: u o_def)
    then show ?thesis using 2(2) by (simp add: o_def)
  qed
  have "map (\<lambda>w. (ws_id w, ws_order w)) (assign_orders n (i # xs) ws) =
      map (\<lambda>(j, k). (j, if j \<in> set xs then of_nat (Suc n + id_pos j xs) else k)) (map (\<lambda>w. (ws_id w, ws_order w)) ?ws)"
    using 2(1) [OF d] 2(3) by (simp add: o_def)
  also have "\<dots> = map (\<lambda>w. (ws_id w, if ws_id w \<in> set (i # xs) then of_nat (n + id_pos (ws_id w) (i # xs)) else ws_order w)) ws"
    unfolding u using 2(3) by (auto simp: o_def)
  finally show ?case .
qed simp

lemma sorted_perm_interval:
  assumes "sorted ns" "mset ns = mset [0..<n]" shows "ns = [0..<n]"
  using assms by (metis mset_eq_setD mset_eq_imp_distinct_iff distinct_upt sorted_distinct_set_unique sorted_upt)

text \<open>
  A complete reordering does what it says: when the request names every workspace once, the stored list
  is afterwards in exactly that order, numbered from zero, with the same workspaces; and every client
  is told the same sequence.
\<close>
theorem reorder_as_requested:
  assumes "distinct (map ws_id (wk_list st))" and "mset xs = mset (map ws_id (wk_list st))"
    and "length xs \<le> 2 ^ 32" and "reorder_workspaces save xs st = (r, st')"
  shows "r = WOk \<and> map ws_id (wk_list st') = xs \<and> map ws_order (wk_list st') = map of_nat [0..<length xs] \<and>
    wk_mgr st' = broadcast_sync (WorkspaceReordered xs) (wk_mgr st)"
proof -
  let ?ws = "wk_list st"
  let ?as = "assign_orders 0 xs ?ws"
  let ?f = "\<lambda>w. unat (ws_order w)"
  have sx: "set xs = ws_id ` set ?ws" using assms(2) by (metis mset_eq_setD set_map)
  have dx: "distinct xs" using assms(1,2) mset_eq_imp_distinct_iff by blast
  have e: "r = WOk" "wk_list st' = sort_key ?f ?as" "wk_mgr st' = broadcast_sync (WorkspaceReordered xs) (wk_mgr st)"
    using assms(4) sx by (auto simp: reorder_workspaces_def Let_def list_ex_iff save_workspaces_def tell_def split: if_splits)
  note spec = assign_orders_spec [OF assms(1) dx, of 0]
  have pairs: "map (\<lambda>w. (ws_id w, ws_order w)) ?as = map (\<lambda>w. (ws_id w, of_nat (id_pos (ws_id w) xs))) ?ws"
    unfolding spec using sx by auto
  have order: "ws_order w = of_nat (id_pos (ws_id w) xs) \<and> ws_id w \<in> set xs" if "w \<in> set ?as" for w
  proof -
    have "(ws_id w, ws_order w) \<in> set (map (\<lambda>w. (ws_id w, ws_order w)) ?as)" using that by auto
    then show ?thesis unfolding pairs using sx by auto
  qed
  have key: "?f w = id_pos (ws_id w) xs" if "w \<in> set ?as" for w
    using order [OF that] id_pos_less [of "ws_id w" xs] assms(3) by (simp add: unat_of_nat)
  let ?s = "sort_key ?f ?as"
  have "mset (map ws_id ?s) = mset (map ws_id ?as)" by (simp only: mset_map mset_sort)
  then have ids': "mset (map ws_id ?s) = mset xs" using assms(2) by (simp only: assign_list(1))
  have fs: "map ?f ?s = map (\<lambda>i. id_pos i xs) (map ws_id ?s)" using key by simp
  have "mset (map ?f ?s) = image_mset (\<lambda>i. id_pos i xs) (mset xs)" unfolding fs mset_map [of _ "map ws_id ?s"] ids' ..
  also have "\<dots> = mset (map (\<lambda>i. id_pos i xs) xs)" by simp
  also have "map (\<lambda>i. id_pos i xs) xs = [0..<length xs]" by (rule nth_equalityI) (simp_all add: id_pos_nth [OF dx])
  finally have f_eq: "map ?f ?s = [0..<length xs]" using sorted_perm_interval [OF sorted_sort_key] by blast
  have len: "length ?as = length xs" using arg_cong [OF f_eq, of length] by simp
  have idk: "ws_id (?s ! k) = xs ! k" if k: "k < length xs" for k
  proof -
    have mem: "?s ! k \<in> set ?as" using k len nth_mem [of k ?s] by simp
    have "id_pos (ws_id (?s ! k)) xs = k" using key [OF mem] nth_map [of k ?s ?f] f_eq k len by simp
    moreover obtain j where j: "j < length xs" "ws_id (?s ! k) = xs ! j" using order [OF mem] by (metis in_set_conv_nth)
    ultimately show ?thesis using id_pos_nth [OF dx j(1)] by simp
  qed
  have "map ws_id ?s = xs" by (rule nth_equalityI) (simp_all add: len idk)
  moreover have "map ws_order ?s = map of_nat [0..<length xs]"
  proof (rule nth_equalityI)
    fix k assume "k < length (map ws_order ?s)"
    then have k: "k < length xs" using len by simp
    have "?s ! k \<in> set ?as" using k len nth_mem [of k ?s] by simp
    then show "map ws_order ?s ! k = map of_nat [0..<length xs] ! k"
      using order idk [OF k] k len id_pos_nth [OF dx k] by simp
  qed (simp add: len)
  ultimately show ?thesis using e by simp
qed

text \<open>A request that names only some workspaces does not even put those first.\<close>

lemma partial_reorder_misplaces:
  "map ws_id (wk_list (snd (reorder_workspaces True [[3]] (st\<lparr>wk_list :=
     [\<lparr>ws_id = [1], ws_name = [], ws_path = [], ws_order = 0, ws_connection = None, ws_abbr = None, ws_color = None\<rparr>,
      \<lparr>ws_id = [2], ws_name = [], ws_path = [], ws_order = 1, ws_connection = None, ws_abbr = None, ws_color = None\<rparr>,
      \<lparr>ws_id = [3], ws_name = [], ws_path = [], ws_order = 2, ws_connection = None, ws_abbr = None, ws_color = None\<rparr>]\<rparr>)))) =
   [[1], [3], [2]]"
  by (simp add: reorder_workspaces_def Let_def)

text \<open>
  A rejected update is not without effect: the connection of the request is stored before the path is
  checked, so a request with a new connection and a blank path is answered with an error while the
  workspace in memory has become a remote one, which is neither saved nor announced to any client.
\<close>
theorem rejected_update_changes_connection:
  assumes "ws_index i (wk_list st) = Some k" and "up_connection req = Some c"
    and "up_path req = Some p" and "trim p = []"
  shows "update_workspace canon is_dir save i req st =
    (WBad ''path cannot be empty'', st\<lparr>wk_list := (wk_list st)[k := (wk_list st ! k)\<lparr>ws_connection := Some c\<rparr>]\<rparr>)"
  using assms ws_index_Some [OF assms(1)] by (simp add: update_workspace_def with_connection_def updated_path_def Let_def)

end
