(* ===== verification/SyncProps.thy ===== *)
theory SyncProps
  imports SyncOps ManagerView WorkspaceProps
begin

section \<open>Properties of the sync protocol\<close>

subsection \<open>The arrow keys of Mission Control\<close>

lemma position_Some: "position c xs = Some i \<Longrightarrow> i < length xs \<and> xs ! i = c"
  by (induction xs arbitrary: i) (auto split: if_splits)

lemma position_nth: "distinct xs \<Longrightarrow> i < length xs \<Longrightarrow> position (xs ! i) xs = Some i"
proof (induction xs arbitrary: i)
  case (Cons x xs)
  then show ?case by (cases i) (auto simp: nth_eq_iff_index_eq)
qed simp

lemma right_step:
  assumes "distinct (tabs_of_workspace tabs wss sel)" "i < length (tabs_of_workspace tabs wss sel)"
  shows "navigate_tab_in_workspace tabs wss sel (Some (tabs_of_workspace tabs wss sel ! i)) NavRight =
    (if Suc i = length (tabs_of_workspace tabs wss sel) then None else Some (tabs_of_workspace tabs wss sel ! Suc i))"
  using assms by (auto simp: navigate_tab_in_workspace_def Let_def position_nth)

lemma left_step:
  assumes "distinct (tabs_of_workspace tabs wss sel)" "i < length (tabs_of_workspace tabs wss sel)"
  shows "navigate_tab_in_workspace tabs wss sel (Some (tabs_of_workspace tabs wss sel ! i)) NavLeft =
    (if i = 0 then None else Some (tabs_of_workspace tabs wss sel ! (i - 1)))"
  using assms by (auto simp: navigate_tab_in_workspace_def Let_def position_nth)

lemma add_card_step:
  "navigate_tab_in_workspace tabs wss sel None dir =
     (let f = tabs_of_workspace tabs wss sel in
      if f = [] then None else Some (f ! (if dir = NavLeft then length f - 1 else 0)))"
  by (simp add: navigate_tab_in_workspace_def Let_def last_conv_nth hd_conv_nth)

text \<open>
  The arrow keys walk the cards of the selected workspace in a circle: pressed \<open>k\<close> times from the
  add card, Right has visited the workspace's tabs in their order, each once per round, and returns to
  the add card (\<open>None\<close>) after the last; Left undoes Right and Right undoes Left wherever the highlight is;
  and the highlight never lands on a tab of another workspace.
\<close>
theorem arrow_keys_cycle:
  assumes "distinct (tabs_of_workspace tabs wss sel)"
  shows "((\<lambda>c. navigate_tab_in_workspace tabs wss sel c NavRight) ^^ k) None =
      (let j = k mod Suc (length (tabs_of_workspace tabs wss sel)) in
       if j = 0 then None else Some (tabs_of_workspace tabs wss sel ! (j - 1))) \<and>
    (cur = None \<or> cur \<in> Some ` set (tabs_of_workspace tabs wss sel) \<longrightarrow>
       navigate_tab_in_workspace tabs wss sel (navigate_tab_in_workspace tabs wss sel cur NavRight) NavLeft = cur \<and>
       navigate_tab_in_workspace tabs wss sel (navigate_tab_in_workspace tabs wss sel cur NavLeft) NavRight = cur)"
proof
  let ?f = "tabs_of_workspace tabs wss sel"
  let ?go = "\<lambda>c. navigate_tab_in_workspace tabs wss sel c NavRight"
  have step: "?go (if j = 0 then None else Some (?f ! (j - 1))) =
      (if Suc j mod Suc (length ?f) = 0 then None else Some (?f ! (Suc j mod Suc (length ?f) - 1)))" if "j \<le> length ?f" for j
  proof (cases "j = length ?f")
    case True
    then show ?thesis using right_step [OF assms, of "j - 1"] by (cases "length ?f") (auto simp: add_card_step Let_def)
  next
    case False
    then show ?thesis using right_step [OF assms, of "j - 1"] that by (cases j) (auto simp: add_card_step Let_def)
  qed
  show "(?go ^^ k) None = (let j = k mod Suc (length ?f) in if j = 0 then None else Some (?f ! (j - 1)))"
  proof (induction k)
    case (Suc k)
    have "k mod Suc (length ?f) \<le> length ?f" by (simp add: less_Suc_eq_le [symmetric])
    from step [OF this] Suc show ?case by (simp add: Let_def mod_Suc_eq)
  qed simp
  show "cur = None \<or> cur \<in> Some ` set ?f \<longrightarrow>
      navigate_tab_in_workspace tabs wss sel (?go cur) NavLeft = cur \<and>
      ?go (navigate_tab_in_workspace tabs wss sel cur NavLeft) = cur"
  proof
    assume "cur = None \<or> cur \<in> Some ` set ?f"
    then consider "cur = None" | i where "i < length ?f" "cur = Some (?f ! i)" by (auto simp: in_set_conv_nth)
    then show "navigate_tab_in_workspace tabs wss sel (?go cur) NavLeft = cur \<and>
        ?go (navigate_tab_in_workspace tabs wss sel cur NavLeft) = cur"
    proof cases
      case 1
      then show ?thesis using left_step [OF assms, of 0] right_step [OF assms, of "length ?f - 1"]
        by (cases ?f) (simp_all add: add_card_step Let_def)
    next
      case 2
      have "navigate_tab_in_workspace tabs wss sel (?go cur) NavLeft = cur"
      proof (cases "Suc i = length ?f")
        case True
        then have "length ?f - 1 = i" "?f \<noteq> []" by auto
        then show ?thesis using 2 True right_step [OF assms, of i] by (simp add: add_card_step Let_def)
      next
        case False
        then show ?thesis using 2 left_step [OF assms, of "Suc i"] right_step [OF assms, of i] by simp
      qed
      moreover have "?go (navigate_tab_in_workspace tabs wss sel cur NavLeft) = cur"
        using 2 left_step [OF assms, of i] right_step [OF assms, of "i - 1"] by (cases i) (auto simp: add_card_step Let_def)
      ultimately show ?thesis ..
    qed
  qed
qed

subsection \<open>Closing a tab\<close>

lemma close_pane_sessions: "map_of (mg_sessions (snd (close_pane recip ev p m))) = (map_of (mg_sessions m))(p := None)"
proof -
  obtain r m1 where r: "remove_session recip p None m = (r, m1)" by force
  note s = remove_session_spec [OF r]
  show ?thesis
  proof (cases r)
    case (Some plan)
    then have e: "snd (close_pane recip ev p m) = execute_close_plan ev p Explicit True None plan m1" using r by (simp add: close_pane_def)
    have "same_sessions m1 (snd (close_pane recip ev p m))" unfolding e by (rule execute_frame)
    then show ?thesis using s Some by (simp add: same_sessions_def map_of_al_del)
  next
    case None
    then have n: "map_of (mg_sessions m) p = None" "m1 = m" using s by auto
    have "same_sessions m (snd (close_pane recip ev p m))"
    proof -
      obtain ch m2 where c: "collect_layout_close recip p False m = (ch, m2)" by force
      have "snd (close_pane recip ev p m) = m2 \<or> snd (close_pane recip ev p m) = broadcast_layout_changes ch m2"
        using r n None c by (simp add: close_pane_def)
      then show ?thesis using collect_close_ok [OF c] broadcast_changes_frame(2) [of m2 ch] same_trans(2) by metis
    qed
    then show ?thesis using n by (simp add: same_sessions_def fun_upd_idem)
  qed
qed

lemma close_panes_sessions:
  "map_of (mg_sessions (close_panes recip evs i ps m)) q = (if q \<in> set ps then None else map_of (mg_sessions m) q)"
  by (induction recip evs i ps m rule: close_panes.induct) (auto simp: close_pane_sessions)

lemma close_panes_ok: "manager_ok m \<Longrightarrow> manager_ok (close_panes recip evs i ps m)"
proof (induction recip evs i ps m rule: close_panes.induct)
  case (2 recip evs i p ps m)
  have "manager_ok (snd (mgr_step recip (MClosePane (evs i) p) m))" by (rule step_ok [OF 2(2)])
  then show ?case using 2(1) by (simp add: mgr_step_def)
qed simp

lemma others_frame: "same_tabs m (broadcast_sync_others msg cid m)" "same_sessions m (broadcast_sync_others msg cid m)"
  by (simp_all add: broadcast_sync_others_def same_tabs_def same_sessions_def)

text \<open>
  Closing a tab from a client leaves nothing of it behind: the tab is gone from the table and from the
  order, Mission Control no longer selects it, every session one of its leaves had is closed, no other
  session is, and the tables still agree.
\<close>
theorem close_tab_closes_everything:
  assumes "manager_ok (hub_mgr h)" and "sync_step recip evs uuid io cid (CCloseTab tab) h = (rs, h')"
  shows "map_of (mg_layouts (hub_mgr h')) tab = None \<and> tab \<notin> set (mg_order (hub_mgr h')) \<and> mc_tab (hb_mc h') \<noteq> Some tab \<and>
    manager_ok (hub_mgr h') \<and>
    map_of (mg_sessions (hub_mgr h')) q =
      (if \<exists>l. tab_view (hub_mgr h) tab = Some l \<and> q \<in> set (collect_leaf_pane_ids l) then None
       else map_of (mg_sessions (hub_mgr h)) q)"
proof -
  let ?m = "hub_mgr h"
  define leaves where "leaves = (case tab_view ?m tab of Some l \<Rightarrow> collect_leaf_pane_ids l | None \<Rightarrow> [])"
  let ?m1 = "close_panes recip evs 0 leaves ?m"
  obtain removed m2 where r: "remove_tab tab ?m1 = (removed, m2)" by force
  define m3 where "m3 = (if removed then broadcast_sync_others (TabClosed tab) cid m2 else m2)"
  have c: "close_tab recip evs cid tab (hb_mc h) ?m =
      (if mc_tab (hb_mc h) = Some tab
       then ((hb_mc h)\<lparr>mc_tab := None\<rparr>, broadcast_sync (SelectionChanged (mc_workspace (hb_mc h)) None None) m3)
       else (hb_mc h, m3))"
    using r by (simp add: close_tab_def Let_def m3_def leaves_def tab_view_def [symmetric] del: close_panes.simps)
  have h': "hb_mc h' = fst (close_tab recip evs cid tab (hb_mc h) ?m)" "hub_mgr h' = snd (close_tab recip evs cid tab (hb_mc h) ?m)"
    using assms(2) by (auto simp: sync_step_def on_mgr_def split: prod.splits)
  have m2: "m2 = snd (remove_tab tab ?m1)" using r by simp
  have ok1: "manager_ok ?m1" by (rule close_panes_ok [OF assms(1)])
  have "manager_ok (snd (mgr_step recip (MRemoveTab tab) ?m1))" by (rule step_ok [OF ok1])
  then have ok2: "manager_ok m2" by (simp add: mgr_step_def m2)
  have "same_tabs m2 m3" "same_sessions m2 m3" using others_frame by (auto simp: m3_def)
  moreover have "same_tabs m3 (hub_mgr h')" "same_sessions m3 (hub_mgr h')" using broadcast_frame by (auto simp: h' c)
  ultimately have same: "same_tabs m2 (hub_mgr h')" "same_sessions m2 (hub_mgr h')" using same_trans by blast+
  have "manager_ok (hub_mgr h')" using ok2 same tabs_ok_same sessions_ok_same by (auto simp: manager_ok_def)
  moreover have "map_of (mg_layouts (hub_mgr h')) tab = None" using same(1) by (simp add: same_tabs_def m2 layouts_remove_tab)
  moreover have "tab \<notin> set (mg_order (hub_mgr h'))" using same(1)
    by (simp add: same_tabs_def m2 remove_tab_def schedule_snapshot_def Let_def)
  moreover have "mc_tab (hb_mc h') \<noteq> Some tab" by (auto simp: h' c)
  moreover have "map_of (mg_sessions (hub_mgr h')) q = (if q \<in> set leaves then None else map_of (mg_sessions ?m) q)"
    using same(2) remove_tab_sessions [of ?m1 tab] by (simp add: same_sessions_def m2 close_panes_sessions)
  moreover have "q \<in> set leaves \<longleftrightarrow> (\<exists>l. tab_view ?m tab = Some l \<and> q \<in> set (collect_leaf_pane_ids l))"
    by (cases "tab_view ?m tab") (auto simp: leaves_def)
  ultimately show ?thesis by simp
qed

subsection \<open>Input\<close>

text \<open>
  Keystrokes from a sync client reach at most the session of the active pane, and nothing at all while
  Mission Control is open: the tabs, their order, the session table, Mission Control and the workspaces
  never change, and every hosted session other than the active pane's is untouched.
\<close>
theorem input_reaches_active_pane_only:
  assumes "sync_step recip evs uuid io cid (CInput data) h = (rs, h')"
  shows "rs = [] \<and> hb_mc h' = hb_mc h \<and> wk_list (hb_ws h') = wk_list (hb_ws h) \<and>
    same_tabs (hub_mgr h) (hub_mgr h') \<and> same_sessions (hub_mgr h) (hub_mgr h') \<and>
    (mc_open (hb_mc h) \<longrightarrow> h' = h) \<and>
    (mg_store (hub_mgr h') a \<noteq> mg_store (hub_mgr h) a \<longrightarrow>
       (\<exists>p. mg_active (hub_mgr h) = Some p \<and> map_of (mg_sessions (hub_mgr h)) p = Some a))"
proof -
  have h': "rs = []" "h' = on_mgr (type_into_active io data (hb_mc h)) h" using assms by (simp_all add: sync_step_def)
  let ?m' = "type_into_active io data (hb_mc h) (hub_mgr h)"
  have m: "hub_mgr h' = ?m'" "hb_mc h' = hb_mc h" "wk_list (hb_ws h') = wk_list (hb_ws h)" by (simp_all add: h' on_mgr_def)
  have "same_tabs (hub_mgr h) ?m' \<and> same_sessions (hub_mgr h) ?m'"
    by (auto simp: type_into_active_def on_hosted_def same_tabs_def same_sessions_def split: option.split)
  moreover have "mg_store ?m' a \<noteq> mg_store (hub_mgr h) a \<Longrightarrow>
      \<exists>p. mg_active (hub_mgr h) = Some p \<and> map_of (mg_sessions (hub_mgr h)) p = Some a"
    by (auto simp: type_into_active_def on_hosted_def bind_eq_Some_conv split: if_splits option.splits)
  moreover have "h' = h" if "mc_open (hb_mc h)" using that by (simp add: h' on_mgr_def type_into_active_def)
  ultimately show ?thesis using h'(1) m by metis
qed

subsection \<open>Switching Mission Control\<close>

lemma no_stale_tab_list:
  assumes "list_all (\<lambda>(_, v). \<not> stale_tab m v) (mg_layouts m)"
  shows "snd (tab_list m) = m"
proof -
  have "filter (\<lambda>(_, v). stale_tab m v) (mg_layouts m) = []" using assms by (auto simp: list_all_iff filter_empty_conv)
  then show ?thesis by (simp add: tab_list_def Let_def)
qed

lemma broadcast_keeps:
  "mg_layouts (broadcast_sync msg m) = mg_layouts m" "mg_order (broadcast_sync msg m) = mg_order m"
  "mg_sessions (broadcast_sync msg m) = mg_sessions m" "mg_active (broadcast_sync msg m) = mg_active m"
  "mg_store (broadcast_sync msg m) = mg_store m"
  by (simp_all add: broadcast_sync_def publish_bus_def split: option.split)

lemma broadcast_tab_list:
  assumes "list_all (\<lambda>(_, v). \<not> stale_tab m v) (mg_layouts m)"
  shows "fst (tab_list (broadcast_sync msg m)) = fst (tab_list m)"
proof -
  have s: "stale_tab (broadcast_sync msg m) v = stale_tab m v" for v
    by (cases "layout_of v") (simp_all add: stale_tab_def broadcast_keeps)
  have i: "tab_info_of (broadcast_sync msg m) = tab_info_of m" by (intro ext) (simp add: tab_info_of_def broadcast_keeps)
  have "filter (\<lambda>(_, v). stale_tab m v) (mg_layouts m) = []" using assms by (auto simp: list_all_iff filter_empty_conv)
  then show ?thesis by (simp add: tab_list_def Let_def broadcast_keeps s i)
qed

text \<open>
  Setting Mission Control is idempotent, which toggling is not: when no tab is stale, repeating the
  request (a retry, a double send) leaves open flag and selection as the first one left them; one toggle
  after another flips the flag back.
\<close>
theorem mission_control_set_idempotent:
  assumes "list_all (\<lambda>(_, v). \<not> stale_tab m v) (mg_layouts m)"
    and "handle_mission_control_op (McSet b) wss snap m = (s1, m1)"
  shows "fst (handle_mission_control_op (McSet b) wss s1 m1) = s1 \<and> mc_open s1 = b \<and>
    mc_open (fst (handle_mission_control_op McToggle wss s1 m1)) = (\<not> b)"
proof -
  have flag: "mc_open (fst (handle_mission_control_op (McSet c) wss s x)) = c" for c s and x :: "('a, 'b) manager"
    by (simp add: handle_mission_control_op_def open_mission_control_def seed_mission_control_selection_def Let_def
      split: prod.split option.split)
  have toggle: "handle_mission_control_op McToggle wss s x = handle_mission_control_op (McSet (\<not> mc_open s)) wss s x"
    for s and x :: "('a, 'b) manager" by (simp add: handle_mission_control_op_def)
  have seed: "\<exists>t w. seed_mission_control_selection b wss snap x = (snap\<lparr>mc_tab := t, mc_workspace := w\<rparr>, x)"
    if "list_all (\<lambda>(_, v). \<not> stale_tab x v) (mg_layouts x)" for snap and x :: "('a, 'b) manager"
  proof -
    have "tab_list x = (fst (tab_list x), x)" using no_stale_tab_list [OF that] by (metis prod.collapse)
    then obtain tabs act where t: "tab_list x = ((tabs, act), x)" by (metis surj_pair)
    have e: "snap = snap\<lparr>mc_tab := mc_tab snap, mc_workspace := mc_workspace snap\<rparr>" by simp
    show ?thesis
    proof (cases "b \<and> mg_active x \<noteq> None")
      case False
      then have "seed_mission_control_selection b wss snap x = (snap, x)" by (auto simp: seed_mission_control_selection_def)
      then show ?thesis using e by metis
    next
      case True
      then obtain a where "b" "mg_active x = Some a" by blast
      show ?thesis
      proof (cases "tab_of_active x a")
        case None
        have "snap\<lparr>mc_tab := None\<rparr> = snap\<lparr>mc_tab := None, mc_workspace := mc_workspace snap\<rparr>" by simp
        moreover have "seed_mission_control_selection b wss snap x = (snap\<lparr>mc_tab := None\<rparr>, x)"
          using \<open>b\<close> \<open>mg_active x = Some a\<close> None by (simp add: seed_mission_control_selection_def)
        ultimately show ?thesis by metis
      qed (use \<open>b\<close> \<open>mg_active x = Some a\<close> in \<open>auto simp: seed_mission_control_selection_def t Let_def\<close>)
    qed
  qed
  have again: "fst (seed_mission_control_selection b wss (fst (seed_mission_control_selection b wss snap m)) (broadcast_sync msg m)) =
      fst (seed_mission_control_selection b wss snap m)" for snap msg
  proof (cases "b \<and> mg_active m \<noteq> None")
    case False
    then show ?thesis by (auto simp: seed_mission_control_selection_def broadcast_keeps)
  next
    case True
    then obtain a where a: "b" "mg_active m = Some a" by blast
    obtain tabs act y where t: "tab_list m = ((tabs, act), y)" by (metis surj_pair)
    obtain y' where t': "tab_list (broadcast_sync msg m) = ((tabs, act), y')"
      using broadcast_tab_list [OF assms(1), of msg] t by (metis fst_conv surj_pair)
    have f: "tab_of_active (broadcast_sync msg m) a = tab_of_active m a" by (simp add: tab_of_active_def broadcast_keeps)
    show ?thesis using a
      by (cases "tab_of_active m a") (simp_all add: seed_mission_control_selection_def broadcast_keeps t t' f Let_def)
  qed
  obtain s x where sx: "seed_mission_control_selection b wss (snap\<lparr>mc_open := b\<rparr>) m = (s, x)" by fastforce
  then have x: "x = m" "mc_open s = b" using seed [OF assms(1), of "snap\<lparr>mc_open := b\<rparr>"] by auto
  have r: "s1 = s" "m1 = broadcast_sync (mc_toggled s) m" using assms(2) sx x
    by (auto simp: handle_mission_control_op_def open_mission_control_def)
  have "s\<lparr>mc_open := b\<rparr> = s" using x(2) by simp
  then have "fst (handle_mission_control_op (McSet b) wss s1 m1) = s1"
    using again [of "snap\<lparr>mc_open := b\<rparr>" "mc_toggled s"] sx
    by (simp add: handle_mission_control_op_def open_mission_control_def r split_beta Let_def)
  moreover have "mc_open s1 = b" using x r by simp
  moreover from this have "mc_open (fst (handle_mission_control_op McToggle wss s1 m1)) = (\<not> b)"
    using flag [of "\<not> b" s1 m1] toggle [of s1 m1] by simp
  ultimately show ?thesis by blast
qed

subsection \<open>Titles\<close>

lemma mk_value_title: "get_str (tab_value l a) ''title'' = None"
  by (simp add: tab_value_def mk_obj_def get_str_def)

text \<open>
  A layout update forgets the tab's title: renaming a tab stores the title with it, but the next layout
  update of any client (a split, a resize of a divider, a change of the active pane) replaces the stored
  value by one without a title, so a client that connects later is never told the name.
\<close>
theorem layout_update_forgets_title:
  assumes "map_of (mg_layouts (hub_mgr h)) tab = Some (JObj kvs)"
    and "sync_step recip evs uuid io c1 (CRenameTab tab title) h = (r1, h1)"
    and "sync_step recip evs uuid io c2 (CUpdateLayout tab l a) h1 = (r2, h2)"
  shows "tab_title_for (hub_mgr h1) tab = Some title \<and> tab_title_for (hub_mgr h2) tab = None"
proof -
  have bo: "mg_layouts (broadcast_sync_others msg c m) = mg_layouts m" for msg c and m :: "('a, 'b) manager"
    by (simp add: broadcast_sync_others_def)
  have h1: "hub_mgr h1 = broadcast_sync_others (TabRenamed tab title) c1 (snd (rename_tab tab title (hub_mgr h)))"
    using assms(1,2) by (auto simp: sync_step_def on_mgr_def rename_tab_def)
  have "tab_title_for (hub_mgr h1) tab = Some title"
    using assms(1) by (simp add: h1 tab_title_for_def bo rename_tab_def schedule_snapshot_def map_of_al_put get_str_def
      map_of_obj_put)
  moreover have h2: "hub_mgr h2 = broadcast_sync_others (LayoutUpdated tab l a) c2 (update_layout tab (tab_value l a) (Some a) (hub_mgr h1))"
    using assms(3) by (auto simp: sync_step_def on_mgr_def)
  then have "tab_title_for (hub_mgr h2) tab = None"
    by (simp add: tab_title_for_def bo update_layout_def insert_tab_def schedule_snapshot_def map_of_al_put Let_def mk_value_title)
  ultimately show ?thesis ..
qed

subsection \<open>Connecting\<close>

text \<open>The last message about a tab decides, so applying a run of messages again changes nothing.\<close>

fun about :: "string \<Rightarrow> 'f sync_msg \<Rightarrow> bool" where
  "about t (TabCreated t' p l c k w) \<longleftrightarrow> t' = t"
| "about t (TabClosed t') \<longleftrightarrow> t' = t"
| "about t (LayoutUpdated t' l a) \<longleftrightarrow> t' = t"
| "about t _ \<longleftrightarrow> False"

lemma apply_about:
  "\<not> about t msg \<Longrightarrow> apply_msg msg v t = v t" "about t msg \<Longrightarrow> apply_msg msg v t = apply_msg msg w t"
  by (cases msg; simp add: apply_msg_def)+

lemma fold_apply_same:
  "v t = w t \<Longrightarrow> fold apply_msg ms v t = fold apply_msg ms w t"
proof (induction ms arbitrary: v w)
  case (Cons msg ms)
  have "apply_msg msg v t = apply_msg msg w t"
  proof (cases "about t msg")
    case True
    then show ?thesis by (rule apply_about(2))
  next
    case False
    then show ?thesis using Cons.prems by (simp add: apply_about(1))
  qed
  then show ?case unfolding fold_simps by (rule Cons.IH)
qed simp

lemma fold_apply_decided:
  "\<exists>msg \<in> set ms. about t msg \<Longrightarrow> fold apply_msg ms v t = fold apply_msg ms w t"
proof (induction ms arbitrary: v w)
  case (Cons msg ms)
  show ?case
  proof (cases "about t msg")
    case True
    then have "apply_msg msg v t = apply_msg msg w t" by (rule apply_about(2))
    then show ?thesis unfolding fold_simps by (rule fold_apply_same)
  next
    case False
    then have "\<exists>msg \<in> set ms. about t msg" using Cons.prems by simp
    then show ?thesis unfolding fold_simps by (rule Cons.IH)
  qed
qed simp

lemma fold_apply_silent: "\<forall>msg \<in> set ms. \<not> about t msg \<Longrightarrow> fold apply_msg ms v t = v t"
  by (induction ms arbitrary: v) (simp_all add: apply_about(1))

lemma replay_harmless: "fold apply_msg (before @ after) (fold apply_msg before v) = fold apply_msg (before @ after) v"
proof
  fix t
  show "fold apply_msg (before @ after) (fold apply_msg before v) t = fold apply_msg (before @ after) v t"
  proof (cases "\<exists>msg \<in> set before. about t msg")
    case True
    then show ?thesis by (intro fold_apply_decided) auto
  next
    case False
    then show ?thesis by (intro fold_apply_same fold_apply_silent) auto
  qed
qed

text \<open>The view a tab list gives.\<close>

definition list_view :: "'f tab_info list \<Rightarrow> string \<Rightarrow> 'f json option" where
  "list_view tabs t = map_of (map (\<lambda>i. (ti_tab i, ti_layout i)) tabs) t \<bind> (\<lambda>l. l)"

lemma map_of_sort_key:
  assumes "distinct (map k xs)"
  shows "map_of (map (\<lambda>i. (k i, g i)) (sort_key f xs)) = map_of (map (\<lambda>i. (k i, g i)) xs)"
proof -
  have "mset (map k (sort_key f xs)) = mset (map k xs)" by simp
  then have d: "distinct (map k (sort_key f xs))" using assms mset_eq_imp_distinct_iff by blast
  have "inj_on fst (set (map (\<lambda>i. (k i, g i)) xs))" using assms by (auto simp: inj_on_def distinct_map)
  moreover have "distinct (map fst (map (\<lambda>i. (k i, g i)) xs))" "distinct (map fst (map (\<lambda>i. (k i, g i)) (sort_key f xs)))"
    using assms d by (simp_all add: o_def)
  ultimately show ?thesis by (subst map_of_inject_set) simp_all
qed

lemma obj_put_twice: "obj_put k v (obj_put k w m) = obj_put k v m"
  by (induction m) auto

lemma jset_twice: "jset k v (jset k w n) = jset k v n"
  by (cases n) (simp_all add: obj_put_twice)

lemma ensure_leaf_kind_twice: "ensure_leaf_kind (ensure_leaf_kind n) = ensure_leaf_kind n"
proof (induction "size n" arbitrary: n rule: less_induct)
  case less
  note unf = ensure_leaf_kind.simps [of n]
  consider (other) "\<forall>t. get_str n ''type'' = Some t \<longrightarrow> t \<noteq> ''leaf'' \<and> t \<noteq> ''split''" | (leaf) "get_str n ''type'' = Some ''leaf''"
    | (bare) "get_str n ''type'' = Some ''split''" "kids n = None"
    | (split) cs where "get_str n ''type'' = Some ''split''" "kids n = Some cs" by auto
  then show ?case
  proof cases
    case other
    then have "ensure_leaf_kind n = n" by (cases "get_str n ''type''") (simp_all add: unf)
    then show ?thesis by simp
  next
    case leaf
    show ?thesis
    proof (cases "jget n ''kind''")
      case None
      let ?m = "jset ''kind'' (JStr ''terminal'') n"
      have "get_str ?m ''type'' = Some ''leaf''" using leaf by (simp add: get_str_def jget_jset_other)
      moreover have "jget ?m ''kind'' = Some (JStr ''terminal'')" using jget_jset_obj [OF leaf] .
      ultimately have "ensure_leaf_kind ?m = ?m" by (simp add: ensure_leaf_kind.simps [of ?m])
      then show ?thesis using leaf None by (simp add: unf)
    next
      case (Some k)
      then have "ensure_leaf_kind n = n" using leaf by (simp add: unf)
      then show ?thesis by simp
    qed
  next
    case bare
    then have "ensure_leaf_kind n = n" by (simp add: unf)
    then show ?thesis by simp
  next
    case (split cs)
    let ?m = "jset ''children'' (JArr (map ensure_leaf_kind cs)) n"
    have m: "ensure_leaf_kind n = ?m" using split by (simp add: unf)
    have "get_str ?m ''type'' = Some ''split''" using children_type [OF split(1)] .
    moreover have "kids ?m = Some (map ensure_leaf_kind cs)" by (rule kids_set [OF split(1)])
    ultimately have "ensure_leaf_kind ?m = jset ''children'' (JArr (map ensure_leaf_kind (map ensure_leaf_kind cs))) ?m"
      by (simp add: ensure_leaf_kind.simps [of ?m])
    also have "map ensure_leaf_kind (map ensure_leaf_kind cs) = map ensure_leaf_kind cs"
      using less kids_smaller [OF split(2)] by simp
    finally show ?thesis by (simp add: m jset_twice)
  qed
qed

lemma tab_list_view:
  assumes "tabs_ok m" "tab_list m = ((tabs, act), m')"
  shows "list_view tabs t = map_option ensure_leaf_kind (tab_view m' t)"
proof -
  let ?k = "\<lambda>i. order_key (mg_order m') (ti_tab i)"
  let ?g = "\<lambda>e. (fst e, map_option ensure_leaf_kind (layout_of (snd e)))"
  have wf: "al_wf (mg_layouts m')" using tab_list_frame [of m] assms by (simp add: tabs_ok_def)
  have tabs: "tabs = sort_key ?k (map (\<lambda>(t, v). tab_info_of m' t v) (mg_layouts m'))"
    using assms(2) by (auto simp: tab_list_def Let_def)
  have tab: "ti_tab (tab_info_of m' t v) = t" "ti_layout (tab_info_of m' t v) = map_option ensure_leaf_kind (layout_of v)" for t v
    by (simp_all add: tab_info_of_def Let_def)
  have "distinct (map ti_tab (map (\<lambda>(t, v). tab_info_of m' t v) (mg_layouts m')))"
    using wf by (simp add: al_wf_def o_def tab split_beta)
  from map_of_sort_key [OF this, of ti_layout ?k]
  have "map_of (map (\<lambda>i. (ti_tab i, ti_layout i)) tabs) = map_of (map ?g (mg_layouts m'))"
    by (simp add: tabs o_def tab split_beta)
  moreover have "map_of (map ?g ls) t = map_option (\<lambda>v. map_option ensure_leaf_kind (layout_of v)) (map_of ls t)" for ls :: "(string, 'a json) amap"
    by (induction ls) auto
  ultimately show ?thesis
    by (cases "map_of (mg_layouts m') t") (simp_all add: list_view_def tab_view_def)
qed


subsection \<open>Examples\<close>

definition demo_ws :: workspace where
  "demo_ws = \<lparr>ws_id = [1], ws_name = lit ''w'', ws_path = lit ''/w'', ws_order = 0, ws_connection = None,
     ws_abbr = None, ws_color = Some (lit ''#E06C75'')\<rparr>"

definition demo_ws_state :: "(nat, unit) ws_state" where
  "demo_ws_state = \<lparr>wk_list = [demo_ws], wk_disk = [], wk_active = None, wk_active_disk = None, wk_mgr = demo_manager\<rparr>"

definition demo_hub :: "(nat, unit, unit) hub" where
  "demo_hub = \<lparr>hb_ws = demo_ws_state, hb_mc = \<lparr>mc_open = False, mc_workspace = None, mc_tab = Some ''t''\<rparr>, hb_marks = [], hb_ssh = []\<rparr>"

definition demo_tabs :: "nat tab_info list" where
  "demo_tabs = map (\<lambda>t. \<lparr>ti_tab = t, ti_pane = t, ti_layout = None, ti_active = None, ti_cwd = Some (lit ''/w/x''),
     ti_connection = None, ti_workspace = None, ti_title = None\<rparr>) [''a'', ''b'']"

lemma demo_hub_simps [simp]:
  "wk_mgr demo_ws_state = demo_manager" "wk_list demo_ws_state = [demo_ws]" "hb_ws demo_hub = demo_ws_state"
  by (simp_all add: demo_hub_def demo_ws_state_def)

lemma demo_ws_parts: "path_parts (ws_path demo_ws) = [lit ''w'']" "is_absolute (ws_path demo_ws)" "ws_root demo_ws = ws_path demo_ws"
  by (simp_all add: demo_ws_def path_parts_def is_absolute_def starts_with_def trim_end_slashes_def lit_def)

lemma demo_workspaces_ok: "workspaces_ok (wk_list demo_ws_state)"
  by (simp add: workspaces_ok_def workspace_ok_def needs_color_def demo_ws_def [THEN arg_cong, of ws_color] valid_hex6_iff
    is_ascii_hexdigit_def is_sensitive_workspace_target_def is_sensitive_def SENSITIVE_DIRS_def path_eq_def path_within_def
    demo_ws_parts path_parts_def [of "[47]"] path_parts_def [of "47 # _"] lit_def)

lemma workspaces_stay_ok_witness:
  "workspaces_ok (wk_list (snd (ws_step (WoReorder True [[1]]) demo_ws_state)))"
  using workspaces_stay_ok [OF demo_workspaces_ok, of "WoReorder True [[1]]"] by simp

lemma tab_in_innermost_workspace_witness:
  "tab_workspace_id [demo_ws] (Some (lit ''/w/x'')) None = Some [1]"
proof -
  have "holds_cwd (lit ''/w/x'') demo_ws"
    by (simp add: holds_cwd_def demo_ws_parts(3)) (simp add: demo_ws_def lit_def)
  then show ?thesis using tab_in_innermost_workspace [of "lit ''/w/x''" "[demo_ws]"]
    by (auto simp: demo_ws_def lit_def split: option.splits)
qed

lemma reorder_as_requested_witness:
  "map ws_id (wk_list (snd (reorder_workspaces True [[1]] demo_ws_state))) = [[1]]"
  using reorder_as_requested [of demo_ws_state "[[1]]" True, OF _ _ _ prod.collapse [symmetric]] by (simp add: demo_ws_def)

lemma rejected_update_changes_connection_witness:
  "fst (update_workspace Inr (\<lambda>_. True) True [1]
     \<lparr>up_name = None, up_path = Some [32], up_connection = Some ''c'', up_abbr = None, up_color = None\<rparr> demo_ws_state) =
   WBad ''path cannot be empty''"
  using rejected_update_changes_connection [of "[1]" demo_ws_state 0
      "\<lparr>up_name = None, up_path = Some [32], up_connection = Some ''c'', up_abbr = None, up_color = None\<rparr>" "''c''" "[32]"]
  by (simp add: demo_ws_def trim_def is_whitespace_def)

lemma arrow_keys_cycle_witness:
  "((\<lambda>c. navigate_tab_in_workspace demo_tabs [demo_ws] (Some [1]) c NavRight) ^^ 3) None = None"
proof -
  have "tabs_of_workspace demo_tabs [demo_ws] (Some [1]) = [''a'', ''b'']"
    using tab_in_innermost_workspace_witness by (simp add: tabs_of_workspace_def demo_tabs_def)
  then show ?thesis using arrow_keys_cycle [of demo_tabs "[demo_ws]" "Some [1]" 3 None] by simp
qed

lemma close_tab_closes_everything_witness:
  "map_of (mg_sessions (hub_mgr (snd (sync_step (\<lambda>n. n) (\<lambda>_. demo_env) ''u'' None ''c'' (CCloseTab ''t'') demo_hub)))) ''q'' = None"
proof -
  have "collect_leaf_pane_ids (terminal_leaf ''q'' ''sh'' :: nat json) = [''q'']"
    by (simp add: terminal_leaf_def mk_obj_def collect_leaf_pane_ids.simps get_str_def)
  then show ?thesis
    using close_tab_closes_everything [of demo_hub, OF _ prod.collapse [symmetric], of "\<lambda>n. n" "\<lambda>_. demo_env" "''u''" None "''c''" "''t''" "''q''"]
    by (simp add: demo_manager_ok demo_views)
qed

lemma input_reaches_active_pane_only_witness:
  "same_tabs demo_manager (hub_mgr (snd (sync_step (\<lambda>n. n) (\<lambda>_. demo_env) ''u'' None ''c'' (CInput [1]) demo_hub)))"
  using input_reaches_active_pane_only [OF prod.collapse [symmetric], of "\<lambda>n. n" "\<lambda>_. demo_env" "''u''" None "''c''" "[1]" demo_hub] by simp

lemma mission_control_set_idempotent_witness:
  "mc_open (fst (handle_mission_control_op (McSet True) [demo_ws] (hb_mc demo_hub) (demo_manager\<lparr>mg_layouts := []\<rparr>)))"
  using mission_control_set_idempotent [of "demo_manager\<lparr>mg_layouts := []\<rparr>", OF _ prod.collapse [symmetric], of True "[demo_ws]" "hb_mc demo_hub"]
  by simp

lemma layout_update_forgets_title_witness:
  "tab_title_for (hub_mgr (snd (sync_step (\<lambda>n. n) (\<lambda>_. demo_env) ''u'' None ''c'' (CUpdateLayout ''t'' JNull ''q'')
     (snd (sync_step (\<lambda>n. n) (\<lambda>_. demo_env) ''u'' None ''c'' (CRenameTab ''t'' ''name'') demo_hub))))) ''t'' = None"
proof -
  have "\<exists>kvs. map_of (mg_layouts (hub_mgr demo_hub)) ''t'' = Some (JObj kvs)"
    by (simp add: demo_manager_def new_session_manager_def mk_obj_def)
  then obtain kvs where "map_of (mg_layouts (hub_mgr demo_hub)) ''t'' = Some (JObj kvs)" by blast
  from layout_update_forgets_title [OF this prod.collapse [symmetric] prod.collapse [symmetric]] show ?thesis by blast
qed


end
