(* ===== verification/TabsProps.thy ===== *)
theory TabsProps
  imports Tabs SyncProps
begin

section \<open>Properties of the requests on tabs\<close>

subsection \<open>All requests\<close>

datatype 'f tab_op =
    TCreate create_tab_req
  | TSshQuick ssh_params
  | TSshProfile string "rstring option"
  | TSplit string split_req
  | TMove string move_req
  | TExtract string string
  | TClosePane string string
  | TCloseTab string
  | TActivate string string
  | TUpdate string "'f json" string
  | TRename string string
  | TList
  | TPluginPane string string string string
  | TFilesPane string string string string
  | TWebPane string string string string
  | TPluginTab plugin_tab_req

definition tab_step :: "('f, 'ps) tab_env \<Rightarrow> ('f, 'ps) others \<Rightarrow> 'f tab_op \<Rightarrow> ('f, 'ps) manager \<Rightarrow> ('f, 'ps) tab_result" where
  "tab_step env others op m =
     (case op of
        TCreate req \<Rightarrow> create_tab env others req m
      | TSshQuick ps \<Rightarrow> create_ssh_quick_tab env others ps m
      | TSshProfile p w \<Rightarrow> create_ssh_tab env others p w m
      | TSplit t req \<Rightarrow> split_pane env others t req m
      | TMove t req \<Rightarrow> move_pane env others t req m
      | TExtract t p \<Rightarrow> extract_pane env others t p m
      | TClosePane t p \<Rightarrow> close_pane_handler env others t p m
      | TCloseTab t \<Rightarrow> close_tab_handler env others t m
      | TActivate t p \<Rightarrow> activate_pane others t p m
      | TUpdate t l a \<Rightarrow> update_layout_handler others t l a m
      | TRename t title \<Rightarrow> rename_tab_handler others t title m
      | TList \<Rightarrow> list_tabs m
      | TPluginPane t plugin target d \<Rightarrow> create_plugin_pane env others t plugin target d m
      | TFilesPane t path target d \<Rightarrow> create_files_pane env others t path target d m
      | TWebPane t url target d \<Rightarrow> create_web_pane env others t url target d m
      | TPluginTab req \<Rightarrow> create_plugin_tab env others req m)"

subsection \<open>What the clients are told\<close>

text \<open>The open clients got the same messages, and these lead from the old table of tabs to the new one.\<close>

definition told :: "('f, 'ps) manager \<Rightarrow> ('f, 'ps) manager \<Rightarrow> bool" where
  "told m m' \<longleftrightarrow> (\<exists>msgs. filter client_open (mg_sync_clients m') = map (push_msgs msgs) (filter client_open (mg_sync_clients m)) \<and>
     fold apply_msg msgs (tab_view m) = tab_view m')"

lemma push_nothing [simp]: "push_msgs [] = (\<lambda>c. c)"
  by (simp add: push_msgs_def fun_eq_iff)

lemma told_same: "mg_sync_clients m' = mg_sync_clients m \<Longrightarrow> tab_view m' = tab_view m \<Longrightarrow> told m m'"
  unfolding told_def by (intro exI [of _ "[]"]) simp

lemma told_trans: "told m1 m2 \<Longrightarrow> told m2 m3 \<Longrightarrow> told m1 m3"
proof -
  assume "told m1 m2" "told m2 m3"
  then obtain a b where "filter client_open (mg_sync_clients m2) = map (push_msgs a) (filter client_open (mg_sync_clients m1))"
    "fold apply_msg a (tab_view m1) = tab_view m2"
    "filter client_open (mg_sync_clients m3) = map (push_msgs b) (filter client_open (mg_sync_clients m2))"
    "fold apply_msg b (tab_view m2) = tab_view m3" unfolding told_def by blast
  then show "told m1 m3" unfolding told_def by (intro exI [of _ "a @ b"]) (simp add: o_def)
qed

lemma open_pushed: "filter client_open (map (push_msgs ms) (filter client_open cs)) = map (push_msgs ms) (filter client_open cs)"
  by (simp add: filter_map o_def)

lemma unbounded_broadcast: "unbounded_clients m \<Longrightarrow> unbounded_clients (broadcast_sync msg m)"
  by (simp add: unbounded_clients_def broadcast_clients list_all_iff)

lemma view_broadcast [simp]: "tab_view (broadcast_sync msg m) = tab_view m"
  by (simp add: tab_view_def broadcast_sync_def publish_bus_def fun_eq_iff split: option.split)

lemma told_broadcast:
  assumes "unbounded_clients m" "mg_sync_clients m1 = mg_sync_clients m" "apply_msg msg (tab_view m) = tab_view m1"
  shows "told m (broadcast_sync msg m1)"
proof -
  have "mg_sync_clients (broadcast_sync msg m1) = map (push_msgs [msg]) (filter client_open (mg_sync_clients m))"
    using broadcast_clients [of m1 msg] assms(1,2) by (simp add: unbounded_clients_def)
  then show ?thesis unfolding told_def using assms(3) by (intro exI [of _ "[msg]"]) (simp add: open_pushed)
qed

lemma told_broadcast2:
  assumes "unbounded_clients m" "mg_sync_clients m1 = mg_sync_clients m" "fold apply_msg [a, b] (tab_view m) = tab_view m1"
  shows "told m (broadcast_sync b (broadcast_sync a m1))"
proof -
  have "mg_sync_clients (fold broadcast_sync [a, b] m1) = map (push_msgs [a, b]) (filter client_open (mg_sync_clients m))"
    using fold_broadcast_clients [of m1 "[a, b]"] assms(1,2) by (simp add: unbounded_clients_def)
  then show ?thesis unfolding told_def using assms(3) by (intro exI [of _ "[a, b]"]) (simp add: open_pushed)
qed

lemma layout_of_value [simp]: "layout_of (tab_value l a) = Some l"
  by (simp add: tab_value_def singleton_value)

lemma view_insert [simp]: "tab_view (insert_tab t v m) = (tab_view m)(t := layout_of v)"
  by (simp add: tab_view_def layouts_insert_tab fun_eq_iff)

lemma view_remove [simp]: "tab_view (snd (remove_tab t m)) = (tab_view m)(t := None)"
  by (simp add: tab_view_def layouts_remove_tab fun_eq_iff)

lemma view_update [simp]: "tab_view (update_layout t v a m) = (tab_view m)(t := layout_of v)"
proof -
  have "mg_layouts (update_layout t v a m) = mg_layouts (insert_tab t v m)"
    by (simp add: update_layout_def Let_def split: option.split)
  then have "tab_view (update_layout t v a m) = tab_view (insert_tab t v m)"
    by (simp add: tab_view_def fun_eq_iff del: view_insert)
  then show ?thesis by simp
qed

lemma clients_kept [simp]:
  "mg_sync_clients (insert_tab t v m) = mg_sync_clients m" "mg_sync_clients (snd (remove_tab t m)) = mg_sync_clients m"
  "mg_sync_clients (update_layout t v a m) = mg_sync_clients m"
  by (simp_all add: insert_tab_def remove_tab_def update_layout_def schedule_snapshot_def Let_def split: option.split)

subsection \<open>Each request tells the clients\<close>

text \<open>Creating a session changes neither the tabs nor the clients, and the session is the pane's current one.\<close>

lemma open_session_spec:
  assumes "open_session others p sp m = (r, m')" "others 0 = (\<lambda>m. m)"
  shows "mg_sync_clients m' = mg_sync_clients m" and "mg_layouts m' = mg_layouts m" and "mg_order m' = mg_order m"
    and "r = Inr (a, sh) \<Longrightarrow> is_current_session p a m'"
proof -
  have "mg_sync_clients m' = mg_sync_clients m \<and> mg_layouts m' = mg_layouts m \<and> mg_order m' = mg_order m \<and>
      (r = Inr (a, sh) \<longrightarrow> is_current_session p a m')"
    using assms
    by (auto simp: open_session_def reserve_session_def drop_reservation_def publish_reserved_def on_hosted_def
        publish_bus_def is_current_session_def map_of_al_put Let_def split: if_splits sum.splits prod.splits)
  then show "mg_sync_clients m' = mg_sync_clients m" "mg_layouts m' = mg_layouts m" "mg_order m' = mg_order m"
    "r = Inr (a, sh) \<Longrightarrow> is_current_session p a m'" by blast+
qed

lemma new_session_spec:
  assumes "create_pty_session env others p cwd argv m = (r, m') \<or> create_ssh_session env others p ps m = (r, m')"
    and quiet: "others 0 = (\<lambda>m. m)"
  shows "mg_sync_clients m' = mg_sync_clients m" and "mg_layouts m' = mg_layouts m" and "mg_order m' = mg_order m"
    and "r = Inr (a, sh) \<Longrightarrow> is_current_session p a m'"
proof -
  have "(r = Inl ''argv must be non-empty when provided'' \<and> m' = m) \<or> (\<exists>sp. open_session others p sp m = (r, m'))"
    using assms(1) by (auto simp: create_pty_session_def create_ssh_session_def split: if_splits)
  then have "mg_sync_clients m' = mg_sync_clients m \<and> mg_layouts m' = mg_layouts m \<and> mg_order m' = mg_order m \<and>
      (r = Inr (a, sh) \<longrightarrow> is_current_session p a m')"
  proof (elim disjE exE)
    fix sp assume o: "open_session others p sp m = (r, m')"
    show ?thesis using open_session_spec(1-3) [OF o quiet] open_session_spec(4) [OF o quiet, of a sh] by blast
  qed simp
  then show "mg_sync_clients m' = mg_sync_clients m" "mg_layouts m' = mg_layouts m" "mg_order m' = mg_order m"
    "r = Inr (a, sh) \<Longrightarrow> is_current_session p a m'" by blast+
qed

lemma alone_quiet: "alone 0 = (\<lambda>m. m)"
  by (simp add: alone_def)

lemma view_of_layouts: "mg_layouts m' = mg_layouts m \<Longrightarrow> tab_view m' = tab_view m"
  by (simp add: tab_view_def fun_eq_iff)

lemma current_kept:
  "is_current_session p a (insert_tab t v m) = is_current_session p a m"
  "is_current_session p a (update_layout t v x m) = is_current_session p a m"
  "is_current_session p a (broadcast_sync msg m) = is_current_session p a m"
  by (simp_all add: is_current_session_def insert_tab_def update_layout_def schedule_snapshot_def broadcast_sync_def
      publish_bus_def Let_def split: option.split)

lemma publish_tab_told:
  assumes "unbounded_clients m" "is_current_session p a m"
  shows "told m (snd (publish_tab alone t p a l shown m)) \<and> fst (publish_tab alone t p a l shown m)"
proof -
  let ?m1 = "update_layout t (tab_value l p) (Some p) m"
  have "told m (broadcast_sync (TabCreated t p (Some l) shown None None) ?m1)"
    by (rule told_broadcast [OF assms(1)]) (simp_all add: apply_msg_def)
  then show ?thesis using assms(2) by (simp add: publish_tab_def insert_tab_for_session_def alone_def current_kept)
qed

lemma create_tab_told:
  assumes "unbounded_clients m"
  shows "told m (snd (create_tab env alone req m))"
proof (cases "validate_create_tab_request (te_is_dir env) req")
  case (Inl e)
  then show ?thesis by (simp add: create_tab_def told_same)
next
  case valid: (Inr requested)
  obtain r m1 where c: "create_pty_session env alone (te_uuid env 1) (start_dir env req requested m) (ct_argv req) m = (r, m1)" by force
  note n = new_session_spec [OF disjI1 [OF c] alone_quiet]
  have same: "told m m1" by (rule told_same [OF n(1) view_of_layouts [OF n(2)]])
  show ?thesis
  proof (cases "if ct_argv req = None then te_shell_error env else None")
    case (Some code)
    then show ?thesis by (simp add: create_tab_def valid told_same del: if_split_asm)
  next
    case None
    show ?thesis
    proof (cases r)
      case (Inl e)
      then show ?thesis using same unfolding create_tab_def valid by (simp only: None sum.case option.case Let_def c prod.case snd_conv)
    next
      case (Inr ok)
      obtain a sh where r: "r = Inr (a, sh)" using Inr by (cases ok) simp
      have u: "unbounded_clients m1" using assms n(1) by (simp add: unbounded_clients_def)
      have "told m1 (snd (publish_tab alone t (te_uuid env 1) a l shown m1))" for t l shown
        using publish_tab_told [OF u n(4) [OF r]] by blast
      from told_trans [OF same this] show ?thesis unfolding create_tab_def valid
        by (simp only: None sum.case option.case Let_def c prod.case r split_beta fst_conv snd_conv)
    qed
  qed
qed

lemma ssh_tab_told:
  assumes "unbounded_clients m"
  shows "told m (snd (create_ssh_tab_with env alone ps m))"
proof -
  obtain r m1 where c: "create_ssh_session env alone (te_uuid env 1) ps m = (r, m1)" by force
  note n = new_session_spec [OF disjI2 [OF c] alone_quiet]
  note same = told_same [OF n(1) view_of_layouts [OF n(2)]]
  show ?thesis
  proof (cases r)
    case (Inl e)
    then show ?thesis using c same by (simp add: create_ssh_tab_with_def Let_def)
  next
    case (Inr ok)
    obtain a sh where r: "r = Inr (a, sh)" using Inr by (cases ok) simp
    let ?l = "titled_leaf (te_uuid env 1) (sh_user ps @ ''@'' @ sh_host ps) ''ssh''"
    let ?m2 = "update_layout (te_uuid env 0) (tab_value ?l (te_uuid env 1)) (Some (te_uuid env 1)) m1"
    have "told m (broadcast_sync (TabCreated (te_uuid env 0) (te_uuid env 1) (Some ?l) None (sh_profile ps) (sh_workspace ps)) ?m2)"
      by (rule told_broadcast [OF assms]) (simp_all add: n(1) view_of_layouts [OF n(2)] apply_msg_def)
    then show ?thesis using c r n(4) [OF r]
      by (simp add: create_ssh_tab_with_def Let_def insert_tab_for_session_def alone_def current_kept recheck_publish_or_correct_def)
  qed
qed

lemma bad_request_told [simp]: "told m m"
  by (rule told_same) simp_all

definition layouts_ok :: "('f, 'ps) manager \<Rightarrow> bool" where
  "layouts_ok m \<longleftrightarrow> (\<forall>t l. tab_view m t = Some l \<longrightarrow> layout_ok l)"

lemma tab_layout_Inr: "tab_layout t e1 e2 m = Inr l \<longleftrightarrow> tab_view m t = Some l"
  by (auto simp: tab_layout_def tab_view_def split: option.splits)

lemma layout_with_pane_Inr: "layout_with_pane t p m = Inr l \<longleftrightarrow> tab_view m t = Some l \<and> p \<in> set (ids l)"
proof (cases "tab_layout t (NoSuch ''tab not found'') (ServerError ''tab has no layout'') m")
  case (Inl e)
  then have "tab_view m t \<noteq> Some l" using tab_layout_Inr [of t _ _ m l] by force
  then show ?thesis using Inl by (simp add: layout_with_pane_def)
next
  case (Inr l')
  then have "tab_view m t = Some l'" by (simp add: tab_layout_Inr)
  then show ?thesis using Inr by (auto simp: layout_with_pane_def)
qed

lemma split_session_spec:
  assumes "split_session env alone req p m = (r, m')"
  shows "mg_sync_clients m' = mg_sync_clients m \<and> mg_layouts m' = mg_layouts m \<and> mg_order m' = mg_order m \<and>
    (\<forall>a. r = Inr a \<longrightarrow> is_current_session p a m')"
proof -
  have one: "mg_sync_clients m1 = mg_sync_clients m \<and> mg_layouts m1 = mg_layouts m \<and> mg_order m1 = mg_order m \<and>
      (\<forall>a sh. x = Inr (a, sh) \<longrightarrow> is_current_session p a m1)"
    if "create_pty_session env alone p cwd None m = (x, m1) \<or> create_ssh_session env alone p ps m = (x, m1)" for x m1 cwd ps
    using new_session_spec [OF that alone_quiet] by blast
  show ?thesis
  proof (cases "if sp_force_local req \<or> host_of m (sp_pane req) \<bind> ssh_params_of = None then te_shell_error env else None")
    case (Some code)
    then show ?thesis using assms unfolding split_session_def Let_def Some by auto
  next
    case None
    obtain x m1 where c: "(if sp_force_local req \<or> host_of m (sp_pane req) \<bind> ssh_params_of = None
        then create_pty_session env alone p (or_else (sp_cwd req) (host_of m (sp_pane req) \<bind> hs_host_cwd)) None m
        else create_ssh_session env alone p (the (host_of m (sp_pane req) \<bind> ssh_params_of)) m) = (x, m1)" by force
    then have s: "mg_sync_clients m1 = mg_sync_clients m \<and> mg_layouts m1 = mg_layouts m \<and> mg_order m1 = mg_order m \<and>
      (\<forall>a sh. x = Inr (a, sh) \<longrightarrow> is_current_session p a m1)" by (intro one) (auto split: if_splits)
    have "(r, m') = (case x of Inl e \<Rightarrow> (Inl (ServerError e), m1) | Inr (a, _) \<Rightarrow> (Inr a, m1))"
      using assms unfolding split_session_def Let_def None c by (simp split: sum.splits)
    then show ?thesis using s by (auto split: sum.splits)
  qed
qed

lemma split_pane_told:
  assumes "unbounded_clients m" "layouts_ok m"
  shows "told m (snd (split_pane env alone t req m))"
proof (cases "layout_with_pane t (sp_pane req) m")
  case (Inr l)
  then have l: "tab_view m t = Some l" "layout_ok l" using assms(2) by (auto simp: layout_with_pane_Inr layouts_ok_def)
  obtain r m1 where c: "split_session env alone req (te_uuid env 0) m = (r, m1)" by force
  note s = split_session_spec [OF c]
  have view: "tab_view m1 = tab_view m" using s by (intro view_of_layouts) simp
  have same: "told m m1" using s view by (intro told_same) simp_all
  show ?thesis
  proof (cases r)
    case (Inr a)
    obtain l' where l': "split_layout env req (te_uuid env 0) l m1 = Some l'"
      using insert_at_ok [OF wrap_pane_wrapper l(2)]
      by (force simp: split_layout_def insert_pane_into_layout_def insert_pane_into_layout_with_info_def
          insert_pane_into_layout_inner_def split: option.splits)
    let ?m2 = "insert_tab t (tab_value l' (te_uuid env 0)) m1"
    have "told m (broadcast_sync (LayoutUpdated t l' (te_uuid env 0)) ?m2)"
      by (rule told_broadcast [OF assms(1)]) (use s in \<open>simp_all add: view apply_msg_def\<close>)
    moreover have "is_current_session (te_uuid env 0) a m1" using s Inr by blast
    ultimately show ?thesis using Inr c l' \<open>layout_with_pane t (sp_pane req) m = Inr l\<close>
      by (simp add: split_pane_def Let_def alone_def recheck_publish_or_correct_def current_kept)
  qed (use Inr c same in \<open>simp add: split_pane_def Let_def\<close>)
qed (simp add: split_pane_def)

lemma move_tree_told:
  assumes "unbounded_clients m" "mv_source_tab req \<noteq> dst"
  shows "told m (snd (move_tree env alone dst req sl dl m))"
proof (cases "insert_subtree_into_layout (te_recip env) (te_split_ids env) dl (mv_target req) (mv_direction req) sl")
  case (Some l')
  let ?a = "first_or (mv_target req) l'"
  let ?m2 = "insert_tab dst (tab_value l' ?a) (snd (remove_tab (mv_source_tab req) m))"
  have "told m (broadcast_sync (TabClosed (mv_source_tab req)) (broadcast_sync (LayoutUpdated dst l' ?a) ?m2))"
    by (rule told_broadcast2 [OF assms(1)]) (use assms(2) in \<open>auto simp: apply_msg_def fun_eq_iff\<close>)
  then show ?thesis using Some by (simp add: move_tree_def Let_def alone_def)
qed (simp add: move_tree_def)

lemma two_updates_told:
  assumes "unbounded_clients m" "msg = LayoutUpdated t2 l2 a2 \<or> (\<exists>p c x w. msg = TabCreated t2 p (Some l2) c x w)"
  shows "told m (broadcast_sync msg (broadcast_sync (LayoutUpdated t1 l1 b1) (insert_tab t2 (tab_value l2 a2) (insert_tab t1 (tab_value l1 a1) m))))"
  by (rule told_broadcast2 [OF assms(1)]) (use assms(2) in \<open>auto simp: apply_msg_def\<close>)

lemma move_leaf_told:
  assumes "unbounded_clients m"
  shows "told m (snd (move_leaf env alone dst req p sl dl m))"
proof (cases "take_leaf env sl p")
  case (Inr x)
  obtain leaf rest where x: "x = (leaf, rest)" by (cases x)
  show ?thesis
    by (cases "insert_subtree_into_layout (te_recip env) (te_split_ids env) dl (mv_target req) (mv_direction req) leaf")
      (simp_all add: move_leaf_def Inr x Let_def alone_def two_updates_told [OF assms])
qed (simp add: move_leaf_def)

lemma extract_pane_told:
  assumes "unbounded_clients m"
  shows "told m (snd (extract_pane env alone t p m))"
proof (cases "tab_layout t (NoSuch ''source tab not found'') (ServerError ''source tab has no layout'') m")
  case l: (Inr l)
  show ?thesis
  proof (cases "take_leaf env l p")
    case (Inr x)
    obtain leaf rest where x: "x = (leaf, rest)" by (cases x)
    show ?thesis by (simp add: extract_pane_def l Inr x Let_def alone_def two_updates_told [OF assms])
  qed (simp add: extract_pane_def l)
qed (simp add: extract_pane_def)

lemma non_terminal_told:
  assumes "unbounded_clients m"
  shows "told m (snd (insert_non_terminal_pane env alone t target d leaf new m))"
proof (cases "layout_with_pane t target m")
  case l: (Inr l)
  show ?thesis
  proof (cases "insert_subtree_into_layout (te_recip env) (te_split_ids env) l target d leaf")
    case (Some l')
    have "told m (broadcast_sync (LayoutUpdated t l' new) (insert_tab t (tab_value l' new) m))"
      by (rule told_broadcast [OF assms]) (simp_all add: apply_msg_def)
    then show ?thesis by (simp add: insert_non_terminal_pane_def l Some alone_def)
  qed (simp add: insert_non_terminal_pane_def l)
qed (simp add: insert_non_terminal_pane_def)

subsection \<open>Closing\<close>

lemma purged_layout: "purged_tab recip p False t v \<bind> layout_of = layout_of v \<bind> (\<lambda>l. remove_pane_from_layout recip l p)"
proof (cases "purge_entry recip p v")
  case (Changed v')
  then show ?thesis using layout_of_changed [OF Changed] by (auto simp: purged_tab_def)
qed (auto simp: purged_tab_def purge_entry_def Let_def split: option.splits if_splits)

lemma purge_tab_view:
  assumes "purge_pane_from_layouts recip p False m = (ch, m')" "al_wf (mg_layouts m)"
  shows "tab_view m' t = tab_view m t \<bind> (\<lambda>l. remove_pane_from_layout recip l p)"
  using purge_map(1) [OF assms, of t] purged_layout [of recip p t]
  by (cases "map_of (mg_layouts m) t") (simp_all add: tab_view_def)

lemma shown_touched:
  assumes "layouts_ok m" "tab_view m t = Some l" "p \<in> set (ids l)"
  shows "touched recip p m"
proof -
  obtain v where v: "map_of (mg_layouts m) t = Some v" "layout_of v = Some l"
    using assms(2) by (auto simp: tab_view_def bind_eq_Some_conv)
  have ok: "layout_ok l" using assms(1,2) by (auto simp: layouts_ok_def)
  have "remove_pane_from_layout recip l p \<noteq> Some l"
  proof
    assume "remove_pane_from_layout recip l p = Some l"
    then have "ids l = filter (\<lambda>q. q \<noteq> p) (ids l)" using remove_pane_ids [OF ok, where recip = recip and p = p] by simp
    then have "p \<in> set (filter (\<lambda>q. q \<noteq> p) (ids l))" using assms(3) by simp
    then show False by simp
  qed
  then have "purge_entry recip p v \<noteq> Untouched" using v by (auto simp: purge_entry_def Let_def split: option.split)
  then show ?thesis using v(1) by (auto simp: touched_def)
qed

definition shown :: "string \<Rightarrow> ('f, 'ps) manager \<Rightarrow> bool" where
  "shown p m \<longleftrightarrow> (\<exists>t l. tab_view m t = Some l \<and> p \<in> set (ids l))"

lemma close_with_view:
  assumes "close_with recip ev p ex reason kills code m = (True, m')" "tabs_ok m"
  shows "tab_view m' t = tab_view m t \<bind> (\<lambda>l. remove_pane_from_layout recip l p)"
proof -
  obtain a where a: "map_of (mg_sessions m) p = Some a" "ex \<in> {None, Some a}"
    using close_with_spec [OF assms(1)] by blast
  let ?m1 = "m\<lparr>mg_sessions := al_del p (mg_sessions m), mg_unowned := al_del p (mg_unowned m)\<rparr>"
  obtain ch m2 where c: "collect_layout_close recip p True ?m1 = (ch, m2)" by force
  obtain ch1 m3 where p: "purge_pane_from_layouts recip p False ?m1 = (ch1, m3)" by force
  have e: "m' = execute_close_plan ev p reason kills code \<lparr>cp_session = a, cp_changes = ch\<rparr> m2"
    using a c assms(1) by (auto simp: close_with_def remove_session_def)
  have "mg_layouts m2 = mg_layouts m3" using c p by (auto simp: collect_layout_close_def)
  then have "tab_view m' = tab_view m3"
    using execute_frame(1) [of m2 ev p reason kills code] by (simp add: e same_tabs_def tab_view_def fun_eq_iff)
  moreover have "tab_view m3 t = tab_view ?m1 t \<bind> (\<lambda>l. remove_pane_from_layout recip l p)"
    by (rule purge_tab_view [OF p]) (use assms(2) in \<open>simp add: tabs_ok_def\<close>)
  ultimately show ?thesis by (simp add: tab_view_def)
qed

lemma removed_view:
  assumes "layouts_ok m" "\<And>t. tab_view m' t = tab_view m t \<bind> (\<lambda>l. remove_pane_from_layout recip l p)"
  shows "layouts_ok m'" and "shown q m' \<longleftrightarrow> q \<noteq> p \<and> shown q m"
proof -
  have r: "case remove_pane_from_layout recip l p of None \<Rightarrow> filter (\<lambda>q. q \<noteq> p) (ids l) = []
      | Some r \<Rightarrow> layout_ok r \<and> ids r = filter (\<lambda>q. q \<noteq> p) (ids l)" if "tab_view m t = Some l" for t l
    using remove_pane_ids [of l, where recip = recip and p = p] assms(1) that by (auto simp: layouts_ok_def)
  show "layouts_ok m'" unfolding layouts_ok_def
  proof (intro allI impI)
    fix t l' assume "tab_view m' t = Some l'"
    then obtain l where "tab_view m t = Some l" "remove_pane_from_layout recip l p = Some l'"
      using assms(2) [of t] by (auto simp: bind_eq_Some_conv)
    then show "layout_ok l'" using r by fastforce
  qed
  have one: "(\<exists>l'. tab_view m' t = Some l' \<and> q \<in> set (ids l')) \<longleftrightarrow> q \<noteq> p \<and> (\<exists>l. tab_view m t = Some l \<and> q \<in> set (ids l))" for t
  proof (cases "tab_view m t")
    case (Some l)
    show ?thesis
    proof (cases "remove_pane_from_layout recip l p")
      case None
      then have "filter (\<lambda>q. q \<noteq> p) (ids l) = []" using r [OF Some] by simp
      then have "\<forall>q \<in> set (ids l). q = p" by (simp add: filter_empty_conv)
      then show ?thesis using Some None assms(2) [of t] by auto
    next
      case l': (Some l')
      then have "ids l' = filter (\<lambda>q. q \<noteq> p) (ids l)" using r [OF Some] by simp
      then show ?thesis using Some l' assms(2) [of t] by auto
    qed
  qed (use assms(2) [of t] in simp)
  then show "shown q m' \<longleftrightarrow> q \<noteq> p \<and> shown q m" unfolding shown_def by blast
qed

lemma pushed_unbounded:
  "unbounded_clients m \<Longrightarrow> mg_sync_clients m' = map (push_msgs ms) (filter client_open (mg_sync_clients m)) \<Longrightarrow> unbounded_clients m'"
  by (simp add: unbounded_clients_def list_all_iff)

lemma kill_told:
  assumes "manager_ok m" "layouts_ok m" "unbounded_clients m" "map_of (mg_sessions m) p = None \<or> shown p m"
    and "kill_and_remove recip ev p m = (ok, m')"
  shows "told m m' \<and> unbounded_clients m' \<and> layouts_ok m' \<and> manager_ok m' \<and>
    map_of (mg_sessions m') = (map_of (mg_sessions m))(p := None) \<and>
    (\<forall>q. q \<noteq> p \<longrightarrow> shown q m' = shown q m)"
proof -
  have c: "close_with recip ev p None Explicit True None m = (ok, m')" using assms(5) by (simp add: kill_and_remove_def close_session_def)
  note s = close_with_spec [OF c]
  show ?thesis
  proof (cases ok)
    case False
    then have "m' = m" "map_of (mg_sessions m) p = None" using s by auto
    then show ?thesis using assms(1-3) by (simp add: fun_eq_iff)
  next
    case True
    have c: "close_with recip ev p None Explicit True None m = (True, m')" using c True by simp
    have "touched recip p m" using True s assms(2,4) shown_touched by (force simp: shown_def)
    then obtain msgs where msgs: "mg_sync_clients m' = map (push_msgs msgs) (filter client_open (mg_sync_clients m))"
      "fold apply_msg msgs (tab_view m) = tab_view m'"
      using close_tells [OF assms(1,3) c] by blast
    then have "told m m'" unfolding told_def by (intro exI [of _ msgs]) (simp add: open_pushed)
    moreover have "manager_ok m'" using step_ok [OF assms(1), of recip "MClose ev p None Explicit True None"] c by (simp add: mgr_step_def)
    moreover have "\<And>t. tab_view m' t = tab_view m t \<bind> (\<lambda>l. remove_pane_from_layout recip l p)"
      using close_with_view [OF c] assms(1) by (simp add: manager_ok_def)
    note rv = removed_view [OF assms(2) this]
    moreover have "map_of (mg_sessions m') = (map_of (mg_sessions m))(p := None)"
      using s True by (simp add: map_of_al_del fun_eq_iff)
    ultimately show ?thesis using pushed_unbounded [OF assms(3) msgs(1)] by blast
  qed
qed

lemma kill_panes_told:
  assumes "manager_ok m" "layouts_ok m" "unbounded_clients m" "\<forall>p \<in> set ps. map_of (mg_sessions m) p = None \<or> shown p m"
  shows "told m (kill_panes env alone i ps m) \<and> unbounded_clients (kill_panes env alone i ps m)"
  using assms
proof (induction ps arbitrary: i m)
  case (Cons p ps)
  obtain ok m1 where k: "kill_and_remove (te_recip env) (te_close env i) p m = (ok, m1)" by force
  have "map_of (mg_sessions m) p = None \<or> shown p m" using Cons.prems(4) by simp
  note s = kill_told [OF Cons.prems(1-3) this k]
  have "\<forall>q \<in> set ps. map_of (mg_sessions m1) q = None \<or> shown q m1" using s Cons.prems(4) by auto
  with Cons.IH [of m1 "Suc i"] s have "told m1 (kill_panes env alone (Suc i) ps m1) \<and> unbounded_clients (kill_panes env alone (Suc i) ps m1)"
    by blast
  then show ?case using s told_trans k by (auto simp: alone_def)
qed simp

lemma close_pane_told:
  assumes "manager_ok m" "layouts_ok m" "unbounded_clients m" "shown p m"
  shows "told m (snd (close_pane recip ev p m))"
proof (cases "map_of (mg_sessions m) p")
  case (Some a)
  obtain ok m' where k: "kill_and_remove recip ev p m = (ok, m')" by force
  have "snd (close_pane recip ev p m) = m'" using Some k
    by (auto simp: close_pane_def kill_and_remove_def close_session_def close_with_def remove_session_def split: prod.splits)
  then show ?thesis using kill_told [OF assms(1-3) disjI2 [OF assms(4)] k] by simp
next
  case None
  obtain ch m1 where p: "purge_pane_from_layouts recip p False m = (ch, m1)" by force
  have wf: "al_wf (mg_layouts m)" using assms(1) by (simp add: manager_ok_def tabs_ok_def)
  note v = purge_view [OF p wf]
  define m2 where "m2 = (if mg_active m1 = Some p then m1\<lparr>mg_active := None\<rparr> else m1)"
  have c: "snd (close_pane recip ev p m) = broadcast_layout_changes ch m2"
    using None p by (simp add: close_pane_def remove_session_def collect_layout_close_def m2_def Let_def broadcast_layout_changes_def)
  have cl: "mg_sync_clients m2 = mg_sync_clients m"
  proof -
    have "mg_sync_clients (fold (\<lambda>t m. snd (remove_tab t m)) ts x) = mg_sync_clients x" for ts and x :: "('a, 'b) manager"
      by (induction ts arbitrary: x) simp_all
    moreover have "mg_sync_clients (fold (\<lambda>(t, v). insert_tab t v) us x) = mg_sync_clients x" for us and x :: "('a, 'b) manager"
      by (induction us arbitrary: x) auto
    ultimately show ?thesis using p by (auto simp: m2_def purge_pane_from_layouts_def Let_def)
  qed
  have w: "tab_view (broadcast_layout_changes ch m2) = tab_view m1"
  proof -
    have "tab_view (fold broadcast_sync ms x) = tab_view x" for ms and x :: "('a, 'b) manager"
      by (induction ms arbitrary: x) simp_all
    then show ?thesis by (simp add: broadcast_changes_msgs m2_def tab_view_def fun_eq_iff)
  qed
  show ?thesis
  proof (cases "changes_msgs ch = []")
    case True
    then show ?thesis unfolding c by (intro told_same) (use cl v(1) w in \<open>simp_all add: broadcast_changes_msgs\<close>)
  next
    case False
    have "mg_sync_clients (fold broadcast_sync (changes_msgs ch) m2) =
        map (push_msgs (changes_msgs ch)) (filter client_open (mg_sync_clients m))"
      using fold_broadcast_clients [of m2, OF _ False] assms(3) cl by (simp add: unbounded_clients_def)
    then show ?thesis unfolding told_def c
      by (intro exI [of _ "changes_msgs ch"]) (use v(1) w in \<open>simp add: broadcast_changes_msgs open_pushed\<close>)
  qed
qed

lemma close_tab_told:
  assumes "manager_ok m" "layouts_ok m" "unbounded_clients m"
  shows "told m (snd (close_tab_handler env alone t m))"
proof -
  define leaves where "leaves = (case tab_view m t of Some l \<Rightarrow> ids l | None \<Rightarrow> [])"
  let ?m1 = "kill_panes env alone 0 leaves m"
  have "\<forall>p \<in> set leaves. map_of (mg_sessions m) p = None \<or> shown p m"
    by (force simp: leaves_def shown_def split: option.splits)
  then have k: "told m ?m1" "unbounded_clients ?m1" using kill_panes_told [OF assms] by blast+
  show ?thesis
  proof (cases "map_of (mg_layouts ?m1) t")
    case None
    have "told ?m1 (snd (remove_tab t ?m1))" by (rule told_same) (auto simp: None tab_view_def [of ?m1] fun_eq_iff)
    from told_trans [OF k(1) this] show ?thesis using None
      by (simp add: close_tab_handler_def Let_def leaves_def tab_view_def remove_tab_def)
  next
    case (Some v)
    have "told ?m1 (broadcast_sync (TabClosed t) (snd (remove_tab t ?m1)))"
      by (rule told_broadcast [OF k(2)]) (simp_all add: apply_msg_def)
    from told_trans [OF k(1) this] show ?thesis using Some
      by (simp add: close_tab_handler_def Let_def leaves_def tab_view_def remove_tab_def)
  qed
qed

subsection \<open>The other requests\<close>

lemma activate_told:
  assumes "unbounded_clients m"
  shows "told m (snd (activate_pane alone t p m))"
proof (cases "map_of (mg_layouts m) t")
  case (Some v)
  show ?thesis
  proof (cases "layout_of v")
    case None
    have "ids (JNull :: 'a json) = []" by (simp add: collect_leaf_pane_ids.simps get_str_def)
    then show ?thesis using Some None by (simp add: activate_pane_def)
  next
    case l: (Some l)
    have "tab_view m t = Some l" using Some l by (simp add: tab_view_def)
    then have "told m (broadcast_sync (TabActivated p) (update_layout t (tab_value l p) (Some p) m))"
      by (intro told_broadcast [OF assms]) (simp_all add: apply_msg_def fun_eq_iff)
    then show ?thesis using Some l by (simp add: activate_pane_def alone_def)
  qed
qed (simp add: activate_pane_def)

lemma rename_told:
  assumes "unbounded_clients m"
  shows "told m (snd (rename_tab_handler alone t title m))"
proof -
  obtain ok m1 where r: "rename_tab t (trim_string title) m = (ok, m1)" by force
  have cl: "mg_sync_clients m1 = mg_sync_clients m"
    using r by (auto simp: rename_tab_def schedule_snapshot_def split: option.splits json.splits)
  have "map_of (mg_layouts m1) x \<bind> layout_of = map_of (mg_layouts m) x \<bind> layout_of" for x
    using r by (auto simp: rename_tab_def schedule_snapshot_def map_of_al_put layout_of_def map_of_obj_put split: option.splits json.splits)
  then have v: "tab_view m1 = tab_view m" by (simp add: tab_view_def fun_eq_iff)
  have "told m (broadcast_sync (TabRenamed t (trim_string title)) m1)"
    by (rule told_broadcast [OF assms cl]) (simp add: apply_msg_def v)
  then show ?thesis using r told_same [OF cl v] by (simp add: rename_tab_handler_def Let_def alone_def)
qed

lemma plugin_tab_told:
  assumes "unbounded_clients m"
  shows "told m (snd (create_plugin_tab env alone req m))"
  unfolding create_plugin_tab_def Let_def snd_conv alone_def
  by (rule told_broadcast [OF assms]) (simp_all add: apply_msg_def)

lemma update_told:
  assumes "unbounded_clients m"
  shows "told m (snd (update_layout_handler alone t l a m))"
proof -
  have "told m (broadcast_sync (LayoutUpdated t l a) (update_layout t (tab_value l a) (Some a) m))"
    by (rule told_broadcast [OF assms]) (simp_all add: apply_msg_def)
  then show ?thesis by (simp add: update_layout_handler_def alone_def)
qed

text \<open>
  C4. Every request on tabs and panes, when it runs alone, keeps the table of every connected client true
  to the server, whether it succeeds or fails: the open clients get the same messages, and these turn the
  old table into the new one. Listing the tabs is the exception: it drops stale tabs without telling anyone,
  so it has to find none.
\<close>
theorem tab_requests_tell_clients:
  assumes "manager_ok m" and "layouts_ok m" and "unbounded_clients m"
    and "op = TList \<Longrightarrow> list_all (\<lambda>(_, v). \<not> stale_tab m v) (mg_layouts m)"
  shows "\<exists>msgs. filter client_open (mg_sync_clients (snd (tab_step env alone op m))) =
      map (push_msgs msgs) (filter client_open (mg_sync_clients m)) \<and>
    fold apply_msg msgs (tab_view m) = tab_view (snd (tab_step env alone op m))"
proof -
  have "told m (snd (tab_step env alone op m))"
  proof (cases op)
    case (TSshProfile p w)
    then show ?thesis by (simp add: tab_step_def create_ssh_tab_def ssh_tab_told [OF assms(3)] split: option.split)
  next
    case (TClosePane t p)
    have "told m (snd (close_pane_handler env alone t p m))"
    proof (cases "layout_with_pane t p m")
      case (Inr l)
      then have "shown p m" by (auto simp: layout_with_pane_Inr shown_def)
      then show ?thesis using Inr close_pane_told [OF assms(1-3)] by (simp add: close_pane_handler_def alone_def)
    qed (simp add: close_pane_handler_def)
    then show ?thesis using TClosePane by (simp add: tab_step_def)
  next
    case (TMove t req)
    have "told m (snd (move_pane env alone t req m))"
      by (auto simp: move_pane_def move_tree_told [OF assms(3)] move_leaf_told [OF assms(3)] split: sum.split option.split)
    then show ?thesis using TMove by (simp add: tab_step_def)
  next
    case TList
    then show ?thesis using no_stale_tab_list [OF assms(4)] by (simp add: tab_step_def list_tabs_def split_beta Let_def)
  qed (simp_all add: tab_step_def create_tab_told create_ssh_quick_tab_def ssh_tab_told split_pane_told extract_pane_told
      close_tab_told activate_told update_told rename_told create_plugin_pane_def create_files_pane_def create_web_pane_def
      non_terminal_told plugin_tab_told assms(1-3))
  then show ?thesis by (simp add: told_def)
qed

end
