(* ===== verification/TabsPanes.thy ===== *)
theory TabsPanes
  imports TabsProps
begin

section \<open>The panes of all tabs\<close>

text \<open>Rearranging panes loses and doubles none of them, over all tabs together.\<close>

definition panes_in :: "'f json option \<Rightarrow> string multiset" where
  "panes_in l = (case l of None \<Rightarrow> {#} | Some l \<Rightarrow> mset (ids l))"

definition all_panes :: "('f, 'ps) manager \<Rightarrow> string multiset" where
  "all_panes m = sum_list (map (\<lambda>(_, v). panes_in (layout_of v)) (mg_layouts m))"

lemma panes_put:
  "sum_list (map (\<lambda>(_, v). f v) (al_put t v m)) + (case map_of m t of None \<Rightarrow> {#} | Some w \<Rightarrow> f w) =
     sum_list (map (\<lambda>(_, v). f v) m) + (f v :: 'b multiset)"
  by (induction t v m rule: al_put.induct) (auto split: option.splits)

lemma panes_del:
  "al_wf m \<Longrightarrow> sum_list (map (\<lambda>(_, v). f v) (al_del t m)) + (case map_of m t of None \<Rightarrow> {#} | Some w \<Rightarrow> f w) =
     (sum_list (map (\<lambda>(_, v). f v) m) :: 'b multiset)"
proof (induction m)
  case (Cons e m)
  obtain k w where e: "e = (k, w)" by force
  have wf: "al_wf m" and k: "k \<notin> fst ` set m" using Cons.prems by (auto simp: al_wf_def e)
  show ?case
  proof (cases "k = t")
    case True
    then have "al_del t m = m" using k by (intro al_del_None) (simp add: map_of_eq_None_iff)
    then show ?thesis using True by (simp add: al_del_def e)
  next
    case False
    then show ?thesis using Cons.IH [OF wf] by (simp add: al_del_def e ac_simps)
  qed
qed (simp add: al_del_def)

lemma all_panes_insert: "all_panes (insert_tab t v m) + panes_in (tab_view m t) = all_panes m + panes_in (layout_of v)"
  using panes_put [of "\<lambda>v. panes_in (layout_of v)" t v "mg_layouts m"]
  by (cases "map_of (mg_layouts m) t") (simp_all add: all_panes_def insert_tab_def schedule_snapshot_def tab_view_def panes_in_def)

lemma all_panes_remove:
  "al_wf (mg_layouts m) \<Longrightarrow> all_panes (snd (remove_tab t m)) + panes_in (tab_view m t) = all_panes m"
  using panes_del [of "mg_layouts m" "\<lambda>v. panes_in (layout_of v)" t]
  by (cases "map_of (mg_layouts m) t")
    (simp_all add: all_panes_def remove_tab_def schedule_snapshot_def tab_view_def panes_in_def Let_def)

lemma all_panes_kept: "mg_layouts m' = mg_layouts m \<Longrightarrow> all_panes m' = all_panes m"
  by (simp add: all_panes_def)

lemma all_panes_broadcast [simp]: "all_panes (broadcast_sync msg m) = all_panes m"
  by (simp add: all_panes_def broadcast_sync_def publish_bus_def split: option.split)

definition panes_distinct :: "('f, 'ps) manager \<Rightarrow> bool" where
  "panes_distinct m \<longleftrightarrow> (\<forall>p. count (all_panes m) p \<le> 1)"

lemma distinct_layout:
  assumes "panes_distinct m" "al_wf (mg_layouts m)" "tab_view m t = Some l"
  shows "distinct (ids l)"
proof -
  have "count (panes_in (tab_view m t)) p \<le> count (all_panes m) p" for p
    unfolding all_panes_remove [OF assms(2), of t, symmetric] by simp
  then have "count (mset (ids l)) p \<le> 1" for p
    using assms(1,3) le_trans by (fastforce simp: panes_distinct_def panes_in_def)
  then show ?thesis by (auto simp: distinct_count_atmost_1 le_Suc_eq count_list_0_iff count_mset)
qed

lemma insert_subtree_panes:
  assumes "layout_ok l" "distinct (ids l)" "t \<in> set (ids l)" "layout_ok s"
  shows "\<exists>r. insert_subtree_into_layout recip uid l t d s = Some r \<and> layout_ok r \<and> mset (ids r) = mset (ids l) + mset (ids s)"
proof -
  define new where "new = (if d = ''left'' \<or> d = ''top'' then ids s @ [t] else t # ids s)"
  from insert_at_ok [OF wrap_subtree_wrapper [OF assms(4), where recip = recip and d = d and t = t] assms(1), where recip = recip and uid = uid] obtain r where
    r: "insert_subtree_into_layout recip uid l t d s = Some r" "layout_ok r" "ids r = replace_id t new (ids l)"
    using assms(3) by (auto simp: insert_subtree_into_layout_def new_def)
  have "mset (ids r) = mset (ids l) - {#t#} + mset new" using assms(2,3) by (simp add: r(3) replace_id_mset)
  also have "mset new = {#t#} + mset (ids s)" by (simp add: new_def)
  finally have "mset (ids r) = mset (ids l) + mset (ids s)" using assms(3) by (simp add: ac_simps)
  then show ?thesis using r by blast
qed

lemma take_leaf_panes:
  assumes "take_leaf env l p = Inr (leaf, rest)" "layout_ok l" "distinct (ids l)"
  shows "layout_ok leaf \<and> ids leaf = [p] \<and> layout_ok rest \<and> mset (ids rest) + {#p#} = mset (ids l)"
proof -
  have t: "p \<in> set (ids l)" "extract_leaf_from_layout l p = Some leaf" "remove_pane_from_layout (te_recip env) l p = Some rest"
    using assms(1) by (auto simp: take_leaf_def split: if_splits option.splits)
  have "ids rest = remove1 p (ids l)" "layout_ok rest"
    using remove_pane_ids [OF assms(2), where recip = "te_recip env" and p = p] t(3) assms(3)
    by (simp_all add: distinct_remove1_removeAll removeAll_filter_not_eq eq_commute)
  then show ?thesis using extract_leaf_ok [OF assms(2), of p] t by simp
qed

lemma two_inserts_panes:
  assumes "t1 \<noteq> t2" "panes_in (tab_view m t1) = panes_in (Some l1) + L" "panes_in (Some l2) = panes_in (tab_view m t2) + L"
  shows "all_panes (insert_tab t2 (tab_value l2 a2) (insert_tab t1 (tab_value l1 a1) m)) = all_panes m"
proof -
  let ?m1 = "insert_tab t1 (tab_value l1 a1) m"
  have "all_panes (insert_tab t2 (tab_value l2 a2) ?m1) + panes_in (tab_view m t2) = all_panes ?m1 + L + panes_in (tab_view m t2)"
    using all_panes_insert [of t2 "tab_value l2 a2" ?m1] assms(1,3) by (simp add: ac_simps)
  then have "all_panes (insert_tab t2 (tab_value l2 a2) ?m1) = all_panes ?m1 + L" by simp
  moreover have "all_panes ?m1 + L + panes_in (Some l1) = all_panes m + panes_in (Some l1)"
    using all_panes_insert [of t1 "tab_value l1 a1" m] assms(2) by (simp add: ac_simps)
  ultimately show ?thesis by simp
qed

text \<open>What stays when a layout is put in place of another one.\<close>

definition kept :: "('f, 'ps) manager \<Rightarrow> string multiset \<Rightarrow> ('f, 'ps) manager \<Rightarrow> bool" where
  "kept m new m' \<longleftrightarrow> all_panes m' = all_panes m + new \<and> layouts_ok m'"

lemma kept_refl [simp]: "kept m {#} m \<longleftrightarrow> layouts_ok m"
  by (simp add: kept_def)

lemma kept_same: "layouts_ok m \<Longrightarrow> mg_layouts m' = mg_layouts m \<Longrightarrow> kept m {#} m'"
  using view_of_layouts [of m' m] all_panes_kept [of m' m] by (simp add: kept_def layouts_ok_def)

lemma kept_broadcast [simp]: "kept m new (broadcast_sync msg m') = kept m new m'"
  by (simp add: kept_def layouts_ok_def)

lemma kept_trans: "kept m a m1 \<Longrightarrow> kept m1 b m2 \<Longrightarrow> kept m (a + b) m2"
  by (simp add: kept_def ac_simps)

lemma grown_kept:
  assumes "layouts_ok m" "tab_view m t = Some l" "layout_ok l'" "mset (ids l') = mset (ids l) + new"
  shows "kept m new (insert_tab t (tab_value l' a) m)"
  using all_panes_insert [of t "tab_value l' a" m] assms by (auto simp: kept_def panes_in_def layouts_ok_def ac_simps)

lemma split_pane_kept:
  assumes "tabs_ok m" "layouts_ok m" "panes_distinct m" "split_pane env alone t req m = (r, m')"
  shows "kept m (case r of Inr (PaneMade p _) \<Rightarrow> {#p#} | _ \<Rightarrow> {#}) m'"
proof (cases "layout_with_pane t (sp_pane req) m")
  case (Inl e)
  then show ?thesis using assms(2,4) by (auto simp: split_pane_def)
next
  case l: (Inr l)
  then have v: "tab_view m t = Some l" "sp_pane req \<in> set (ids l)" "layout_ok l"
    using assms(2) by (auto simp: layout_with_pane_Inr layouts_ok_def)
  have d: "distinct (ids l)" using distinct_layout [OF assms(3) _ v(1)] assms(1) by (simp add: tabs_ok_def)
  obtain x m1 where c: "split_session env alone req (te_uuid env 0) m = (x, m1)" by force
  note s = split_session_spec [OF c]
  have same: "kept m {#} m1" using s assms(2) by (intro kept_same) simp_all
  show ?thesis
  proof (cases x)
    case (Inl e)
    then show ?thesis using assms(4) l c same by (auto simp: split_pane_def Let_def)
  next
    case (Inr a)
    let ?new = "te_uuid env 0"
    obtain l' where l': "split_layout env req ?new l m1 = Some l'" "layout_ok l'" "ids l' = replace_id (sp_pane req) [sp_pane req, ?new] (ids l)"
    proof -
      obtain ti st where e: "split_layout env req ?new l m1 =
          insert_at (te_recip env) (wrap_pane (te_recip env) (sp_direction req) ?new ti st) (sp_pane req) (te_split_ids env) l"
        by (cases "host_of m1 ?new \<bind> hs_login") (auto simp: split_layout_def insert_pane_into_layout_def
            insert_pane_into_layout_with_info_def insert_pane_into_layout_inner_def)
      have "\<exists>r. insert_at (te_recip env) (wrap_pane (te_recip env) (sp_direction req) ?new ti st) (sp_pane req) (te_split_ids env) l = Some r \<and>
          (if sp_pane req \<in> set (ids l) then layout_ok r \<and> ids r = replace_id (sp_pane req) [sp_pane req, ?new] (ids l) else r = l)"
        by (rule insert_at_ok [OF wrap_pane_wrapper v(3)])
      then show thesis using that v(2) unfolding e by auto
    qed
    have "mset (ids l') = mset (ids l) + {#?new#}" using v(2) d by (simp add: l'(3) replace_id_mset)
    moreover have "tab_view m1 t = Some l" "layouts_ok m1"
      using s v(1) same by (simp_all add: tab_view_def kept_def)
    ultimately have "kept m1 {#?new#} (insert_tab t (tab_value l' ?new) m1)" using l'(2) by (intro grown_kept)
    from kept_trans [OF same this] have k: "kept m {#?new#} (insert_tab t (tab_value l' ?new) m1)" by simp
    have "is_current_session ?new a m1" using s Inr by blast
    then show ?thesis using assms(4) l c Inr l'(1) k
      by (auto simp: split_pane_def Let_def alone_def recheck_publish_or_correct_def current_kept)
  qed
qed

lemma move_tree_kept:
  assumes "tabs_ok m" "layouts_ok m" "panes_distinct m" "mv_source_tab req \<noteq> dst"
    and "tab_view m (mv_source_tab req) = Some sl" "tab_view m dst = Some dl" "mv_target req \<in> set (ids dl)"
  shows "kept m {#} (snd (move_tree env alone dst req sl dl m))"
proof -
  have wf: "al_wf (mg_layouts m)" using assms(1) by (simp add: tabs_ok_def)
  have ok: "layout_ok sl" "layout_ok dl" using assms(2,5,6) by (auto simp: layouts_ok_def)
  note d = distinct_layout [OF assms(3) wf assms(6)]
  obtain l' where l': "insert_subtree_into_layout (te_recip env) (te_split_ids env) dl (mv_target req) (mv_direction req) sl = Some l'"
    "layout_ok l'" "mset (ids l') = mset (ids dl) + mset (ids sl)"
    using insert_subtree_panes [OF ok(2) d assms(7) ok(1)] by blast
  let ?m1 = "snd (remove_tab (mv_source_tab req) m)"
  have "layouts_ok ?m1" "tab_view ?m1 dst = Some dl" using assms(2,4,6) by (auto simp: layouts_ok_def)
  from grown_kept [OF this l'(2,3)] have "kept ?m1 (mset (ids sl)) (insert_tab dst (tab_value l' a) ?m1)" for a .
  moreover have "all_panes ?m1 + mset (ids sl) = all_panes m"
    using all_panes_remove [OF wf, of "mv_source_tab req"] assms(5) by (simp add: panes_in_def)
  ultimately have "kept m {#} (insert_tab dst (tab_value l' a) ?m1)" for a by (simp add: kept_def)
  then show ?thesis using l'(1) by (simp add: move_tree_def alone_def Let_def)
qed

lemma two_inserts_kept:
  assumes "layouts_ok m" "layout_ok l1" "layout_ok l2" "t1 \<noteq> t2" "panes_in (tab_view m t1) = panes_in (Some l1) + L"
    "panes_in (Some l2) = panes_in (tab_view m t2) + L"
  shows "kept m {#} (insert_tab t2 (tab_value l2 a2) (insert_tab t1 (tab_value l1 a1) m))"
  using assms(1-3) two_inserts_panes [OF assms(4-6)] by (auto simp: kept_def layouts_ok_def)

lemma move_leaf_kept:
  assumes "tabs_ok m" "layouts_ok m" "panes_distinct m" "mv_source_tab req \<noteq> dst"
    and "tab_view m (mv_source_tab req) = Some sl" "tab_view m dst = Some dl" "mv_target req \<in> set (ids dl)"
  shows "kept m {#} (snd (move_leaf env alone dst req p sl dl m))"
proof (cases "take_leaf env sl p")
  case (Inl e)
  then show ?thesis using assms(2) by (simp add: move_leaf_def)
next
  case (Inr x)
  obtain leaf rest where x: "take_leaf env sl p = Inr (leaf, rest)" using Inr by (cases x) simp
  have wf: "al_wf (mg_layouts m)" using assms(1) by (simp add: tabs_ok_def)
  have ok: "layout_ok sl" "layout_ok dl" using assms(2,5,6) by (auto simp: layouts_ok_def)
  note t = take_leaf_panes [OF x ok(1) distinct_layout [OF assms(3) wf assms(5)]]
  obtain l' where l': "insert_subtree_into_layout (te_recip env) (te_split_ids env) dl (mv_target req) (mv_direction req) leaf = Some l'"
    "layout_ok l'" "mset (ids l') = mset (ids dl) + mset (ids leaf)"
    using insert_subtree_panes [OF ok(2) distinct_layout [OF assms(3) wf assms(6)] assms(7)] t by blast
  have "kept m {#} (insert_tab dst (tab_value l' a2) (insert_tab (mv_source_tab req) (tab_value rest a1) m))" for a1 a2
    by (rule two_inserts_kept [OF assms(2) _ l'(2) assms(4), where L = "{#p#}"]) (use t l'(3) assms(5,6) in \<open>simp_all add: panes_in_def\<close>)
  then show ?thesis using x l'(1) by (simp add: move_leaf_def alone_def Let_def)
qed

lemma extract_kept:
  assumes "tabs_ok m" "layouts_ok m" "panes_distinct m" "map_of (mg_layouts m) (te_uuid env 0) = None"
  shows "kept m {#} (snd (extract_pane env alone t p m))"
proof (cases "tab_layout t (NoSuch ''source tab not found'') (ServerError ''source tab has no layout'') m")
  case (Inl e)
  then show ?thesis using assms(2) by (simp add: extract_pane_def)
next
  case l: (Inr l)
  then have v: "tab_view m t = Some l" by (simp add: tab_layout_Inr)
  show ?thesis
  proof (cases "take_leaf env l p")
    case (Inl e)
    then show ?thesis using l assms(2) by (simp add: extract_pane_def)
  next
    case (Inr x)
    obtain leaf rest where x: "take_leaf env l p = Inr (leaf, rest)" using Inr by (cases x) simp
    have ok: "layout_ok l" using assms(2) v by (auto simp: layouts_ok_def)
    have "distinct (ids l)" using distinct_layout [OF assms(3) _ v] assms(1) by (simp add: tabs_ok_def)
    note t = take_leaf_panes [OF x ok this]
    have new: "tab_view m (te_uuid env 0) = None" "t \<noteq> te_uuid env 0" using assms(4) v by (auto simp: tab_view_def)
    have "kept m {#} (insert_tab (te_uuid env 0) (tab_value leaf a2) (insert_tab t (tab_value rest a1) m))" for a1 a2
      by (rule two_inserts_kept [OF assms(2), where L = "{#p#}"]) (use t new v in \<open>simp_all add: panes_in_def\<close>)
    then show ?thesis using l x by (simp add: extract_pane_def alone_def Let_def)
  qed
qed

lemma plain_leaf_ok:
  assumes "fst ` set extra \<inter> {''type'', ''paneId'', ''children''} = {}"
  shows "layout_ok (plain_leaf kind p title extra :: 'f json) \<and> ids (plain_leaf kind p title extra :: 'f json) = [p]"
proof -
  have n: "map_of (map (\<lambda>(k, v). (k, JStr v :: 'f json)) (rev extra)) k = None" if "k \<in> {''type'', ''paneId'', ''children''}" for k
    using assms that by (force simp: map_of_eq_None_iff)
  let ?n = "plain_leaf kind p title extra :: 'f json"
  have l: "get_str ?n ''type'' = Some ''leaf''" "get_str ?n ''paneId'' = Some p" "kids ?n = None"
    using n [of "''type''"] n [of "''paneId''"] n [of "''children''"]
    by (simp_all add: plain_leaf_def get_str_def kids_def get_mk_obj rev_map map_add_def)
  show ?thesis using layout_ok.leaf [OF l] ids_leaf [OF l(1,2)] by simp
qed

lemma non_terminal_kept:
  assumes "tabs_ok m" "layouts_ok m" "panes_distinct m" "layout_ok leaf" "ids leaf = [new]"
    and "insert_non_terminal_pane env alone t target d leaf new m = (r, m')"
  shows "kept m (case r of Inr (PaneMade p _) \<Rightarrow> {#p#} | _ \<Rightarrow> {#}) m'"
proof (cases "layout_with_pane t target m")
  case (Inl e)
  then show ?thesis using assms(2,6) by (auto simp: insert_non_terminal_pane_def)
next
  case l: (Inr l)
  then have v: "tab_view m t = Some l" "target \<in> set (ids l)" "layout_ok l"
    using assms(2) by (auto simp: layout_with_pane_Inr layouts_ok_def)
  have "distinct (ids l)" using distinct_layout [OF assms(3) _ v(1)] assms(1) by (simp add: tabs_ok_def)
  from insert_subtree_panes [OF v(3) this v(2) assms(4)] obtain l' where
    l': "insert_subtree_into_layout (te_recip env) (te_split_ids env) l target d leaf = Some l'" "layout_ok l'"
      "mset (ids l') = mset (ids l) + mset (ids leaf)" by blast
  have "kept m {#new#} (insert_tab t (tab_value l' new) m)"
    by (rule grown_kept [OF assms(2) v(1) l'(2)]) (simp add: l'(3) assms(5))
  then show ?thesis using assms(6) l l'(1) by (auto simp: insert_non_terminal_pane_def alone_def)
qed

text \<open>The requests that rearrange panes or add one to a tab.\<close>

definition rearranges :: "'f tab_op \<Rightarrow> bool" where
  "rearranges op \<longleftrightarrow>
     (case op of
        TSplit _ _ \<Rightarrow> True | TMove _ _ \<Rightarrow> True | TExtract _ _ \<Rightarrow> True
      | TPluginPane _ _ _ _ \<Rightarrow> True | TFilesPane _ _ _ _ \<Rightarrow> True | TWebPane _ _ _ _ \<Rightarrow> True
      | _ \<Rightarrow> False)"


end
