(* ===== verification/TabsRaces.thy ===== *)
theory TabsRaces
  imports TabsPanes
begin

section \<open>Requests on tabs that overlap\<close>

text \<open>
  What happens when a session ends, or another request comes, between two steps of a handler: new tabs of
  local sessions are taken back cleanly, those of SSH sessions and concurrent layout updates are not.
\<close>

lemma titled_leaf_ok: "layout_ok (titled_leaf p title sh :: 'f json) \<and> ids (titled_leaf p title sh :: 'f json) = [p]"
proof -
  let ?l = "titled_leaf p title sh :: 'f json"
  have "get_str ?l ''type'' = Some ''leaf''" "get_str ?l ''paneId'' = Some p" "kids ?l = None"
    by (simp_all add: titled_leaf_def get_str_def kids_def get_mk_obj)
  then show ?thesis using layout_ok.leaf ids_leaf by blast
qed

lemma terminal_leaf_ok: "layout_ok (terminal_leaf p sh :: 'f json) \<and> ids (terminal_leaf p sh :: 'f json) = [p]"
  using titled_leaf_ok [of p "''Terminal''" sh, where 'f = 'f] by (simp only: titled_leaf_def terminal_leaf_def)

subsection \<open>Sessions that die while their tab is created\<close>

text \<open>At gap \<open>k\<close> of the handler another task sees the end of pane \<open>p\<close>'s session and closes it.\<close>

definition exit_at :: "nat \<Rightarrow> (nat \<Rightarrow> 'f) \<Rightarrow> close_env \<Rightarrow> string \<Rightarrow> int option \<Rightarrow> ('f, 'ps) others" where
  "exit_at k recip ev p code = (\<lambda>i m. if i = k then snd (close_session recip ev p NaturalExit False code m) else m)"

lemma close_told:
  assumes "manager_ok m" "unbounded_clients m" "is_current_session p a m" "touched recip p m \<or> tab_view m p = None"
    and "m' = snd (close_session recip ev p reason kills code m)"
  shows "told m m' \<and> unbounded_clients m' \<and> \<not> is_current_session p b m' \<and>
    (\<forall>t. tab_view m' t = tab_view m t \<bind> (\<lambda>l. remove_pane_from_layout recip l p))"
proof -
  have "fst (close_with recip ev p None reason kills code m)"
    using close_with_spec [OF surjective_pairing [of "close_with recip ev p None reason kills code m"]] assms(3)
    by (simp add: is_current_session_def)
  then have c: "close_with recip ev p None reason kills code m = (True, m')"
    using assms(5) by (simp add: close_session_def prod_eq_iff)
  obtain msgs where msgs: "mg_sync_clients m' = map (push_msgs msgs) (filter client_open (mg_sync_clients m))"
    "fold apply_msg msgs (tab_view m) = tab_view m'"
    using close_tells [OF assms(1,2) c] assms(4) by blast
  then have "told m m'" unfolding told_def by (intro exI [of _ msgs]) (simp add: open_pushed)
  moreover have "\<not> is_current_session p b m'" using close_with_spec [OF c] by (simp add: is_current_session_def map_of_al_del)
  ultimately show ?thesis
    using pushed_unbounded [OF assms(2) msgs(1)] close_with_view [OF c] assms(1) by (simp add: manager_ok_def)
qed

lemma lone_leaf_removed: "layout_ok l \<Longrightarrow> ids l = [p] \<Longrightarrow> remove_pane_from_layout recip l p = None"
  using remove_pane_ids [of l, where recip = recip and p = p] ids_nonempty by (auto split: option.splits)

lemma publish_dying:
  assumes "manager_ok m" "layouts_ok m" "unbounded_clients m" "is_current_session p a m" "tab_view m p = None" "tab_view m t = None"
    and "k \<in> {1, 2, 3}" "layout_ok l" "ids l = [p]" and "publish_tab (exit_at k recip ev p code) t p a l cwd m = (ok, m')"
  shows "\<not> ok \<and> tab_view m' t = None \<and> told m m'"
proof -
  let ?up = "update_layout t (tab_value l p) (Some p) m"
  let ?made = "TabCreated t p (Some l) cwd None None"
  let ?cl = "\<lambda>m. snd (close_session recip ev p NaturalExit False code m)"
  have cur: "is_current_session p a ?up" using assms(4) by (simp add: current_kept)
  have up: "manager_ok ?up" "unbounded_clients ?up" "tab_view ?up t = Some l" "layouts_ok ?up"
    using step_ok [OF assms(1), of recip "MUpdateLayout t (tab_value l p) (Some p)"] assms(2,3,8)
    by (auto simp: mgr_step_def unbounded_clients_def layouts_ok_def)
  have touched: "touched recip p ?up" using shown_touched [OF up(4,3)] assms(9) by simp
  consider "k = 1" | "k = 2" | "k = 3" using assms(7) by blast
  then show ?thesis
  proof cases
    case 1
    note c = close_told [OF assms(1,3,4) disjI2 [OF assms(5)] refl, where ev = ev and reason = NaturalExit and kills = False and code = code]
    have "\<not> is_current_session p a (?cl m)" using c by blast
    then have "(ok, m') = (False, ?cl m)" using assms(10) 1 by (simp add: publish_tab_def exit_at_def insert_tab_for_session_def)
    then show ?thesis using c assms(6) by simp
  next
    case 2
    note c = close_told [OF up(1,2) cur disjI1 [OF touched] refl, where ev = ev and reason = NaturalExit and kills = False and code = code]
    have gone: "tab_view (?cl ?up) t = None" using c up(3) lone_leaf_removed [OF assms(8,9), of recip] by simp
    have "\<not> is_current_session p a (?cl ?up)" using c by blast
    then have m': "(ok, m') = (False, broadcast_sync (TabClosed t) (broadcast_sync ?made (?cl ?up)))"
      using assms(4,10) 2 by (simp add: publish_tab_def exit_at_def insert_tab_for_session_def current_kept)
    have "told m (broadcast_sync (TabClosed t) (broadcast_sync ?made (?cl ?up)))"
    proof -
      obtain ms where ms: "filter client_open (mg_sync_clients (?cl ?up)) = map (push_msgs ms) (filter client_open (mg_sync_clients m))"
        "fold apply_msg ms (tab_view ?up) = tab_view (?cl ?up)" using c by (auto simp: told_def)
      have "mg_sync_clients (fold broadcast_sync [?made, TabClosed t] (?cl ?up)) =
          map (push_msgs [?made, TabClosed t]) (filter client_open (mg_sync_clients (?cl ?up)))"
        by (rule fold_broadcast_clients) (use c in simp_all)
      then have "filter client_open (mg_sync_clients (broadcast_sync (TabClosed t) (broadcast_sync ?made (?cl ?up)))) =
          map (push_msgs (ms @ [?made, TabClosed t])) (filter client_open (mg_sync_clients m))"
        by (simp add: open_pushed ms(1) o_def)
      moreover have "fold apply_msg (ms @ [?made, TabClosed t]) (tab_view m) x = tab_view (?cl ?up) x" for x
      proof (cases "x = t")
        case False
        then have "fold apply_msg ms (tab_view m) x = fold apply_msg ms (tab_view ?up) x" by (intro fold_apply_same) simp
        then show ?thesis using False ms(2) by (simp add: apply_msg_def)
      qed (simp add: apply_msg_def gone)
      ultimately show ?thesis unfolding told_def by (intro exI [of _ "ms @ [?made, TabClosed t]"]) (simp add: fun_eq_iff)
    qed
    then show ?thesis using m' gone by simp
  next
    case 3
    let ?b = "broadcast_sync ?made ?up"
    have mgr_tabs_same: "same_tabs ?up ?b" "same_sessions ?up ?b" by (rule broadcast_frame)+
    then have "manager_ok ?b" using manager_ok_same [OF up(1)] tabs_ok_same by blast
    moreover have "touched recip p ?b" using touched mgr_tabs_same(1) by (simp add: touched_def same_tabs_def)
    moreover have "unbounded_clients ?b" "is_current_session p a ?b" using unbounded_broadcast [OF up(2)] cur by (simp_all add: current_kept)
    ultimately have c: "told ?b (?cl ?b) \<and> unbounded_clients (?cl ?b) \<and> \<not> is_current_session p a (?cl ?b) \<and>
        (\<forall>t. tab_view (?cl ?b) t = tab_view ?b t \<bind> (\<lambda>l. remove_pane_from_layout recip l p))"
      using close_told [OF _ _ _ disjI1 refl] by blast
    have gone: "tab_view (?cl ?b) t = None" using c up(3) lone_leaf_removed [OF assms(8,9), of recip] by simp
    have m': "(ok, m') = (False, broadcast_sync (TabClosed t) (?cl ?b))"
      using assms(4,10) 3 c by (simp add: publish_tab_def exit_at_def insert_tab_for_session_def current_kept)
    have "told m ?b" by (rule told_broadcast [OF assms(3)]) (simp_all add: apply_msg_def)
    moreover have "told (?cl ?b) (broadcast_sync (TabClosed t) (?cl ?b))"
      by (rule told_broadcast) (use c gone in \<open>auto simp: apply_msg_def fun_eq_iff\<close>)
    ultimately have "told m (broadcast_sync (TabClosed t) (?cl ?b))" using c told_trans by blast
    then show ?thesis using m' gone by simp
  qed
qed

text \<open>
  A session that dies while its tab is being created leaves no trace: if its end is seen before the tab is
  inserted, before the tab is announced or right after, the request fails, no tab of that name is left, and the
  clients, whatever order they heard of creation and closing in, agree with the server.
\<close>
theorem dying_session_leaves_no_tab:
  assumes "manager_ok m" and "layouts_ok m" and "unbounded_clients m" and "k \<in> {1, 2, 3}"
    and "tab_view m (te_uuid env 0) = None" and "tab_view m (te_uuid env 1) = None"
    and "create_tab env (exit_at k recip ev (te_uuid env 1) code) req m = (r, m')"
  shows "(\<exists>e. r = Inl e) \<and> tab_view m' (te_uuid env 0) = None \<and> told m m'"
proof (cases "validate_create_tab_request (te_is_dir env) req")
  case (Inl e)
  then show ?thesis using assms(5,7) by (auto simp: create_tab_def)
next
  case valid: (Inr requested)
  let ?others = "exit_at k recip ev (te_uuid env 1) code :: nat \<Rightarrow> ('a, 'b) manager \<Rightarrow> ('a, 'b) manager"
  have quiet: "?others 0 = (\<lambda>m. m)" using assms(4) by (auto simp: exit_at_def fun_eq_iff)
  obtain x m1 where c: "create_pty_session env ?others (te_uuid env 1) (start_dir env req requested m) (ct_argv req) m = (x, m1)" by force
  note n = new_session_spec [OF disjI1 [OF c] quiet]
  have v1: "tab_view m1 = tab_view m" by (rule view_of_layouts [OF n(2)])
  have same: "told m m1" by (rule told_same [OF n(1) v1])
  show ?thesis
  proof (cases "if ct_argv req = None then te_shell_error env else None")
    case (Some code)
    then show ?thesis using assms(5,7) unfolding create_tab_def valid by (simp only: Some sum.case option.case prod.inject) (metis bad_request_told)
  next
    case None
    show ?thesis
    proof (cases x)
      case (Inl e)
      then have "r = Inl (ServerError e)" "m' = m1" using assms(7) unfolding create_tab_def valid
        by (simp_all only: None sum.case option.case Let_def c prod.case prod.inject)
      then show ?thesis using same assms(5) v1 by simp
    next
      case (Inr ok)
      obtain a sh where x: "x = Inr (a, sh)" using Inr by (cases ok) simp
      define l where "l = (titled_leaf (te_uuid env 1) (case ct_title req of Some t \<Rightarrow> t | None \<Rightarrow> ''Terminal'') sh :: 'a json)"
      obtain ok m2 where p: "publish_tab ?others (te_uuid env 0) (te_uuid env 1) a l (hs_cwd (mg_store m1 a)) m1 = (ok, m2)" by force
      have l: "layout_ok l" "ids l = [te_uuid env 1]" by (simp_all add: l_def titled_leaf_ok)
      have ok1: "manager_ok m1"
      proof -
        have t: "tabs_ok m1" using assms(1) n(2,3) by (simp add: manager_ok_def tabs_ok_def)
        have "sessions_ok m1" using c assms(1) quiet
          by (auto simp: create_pty_session_def open_session_def reserve_session_def publish_reserved_def drop_reservation_def
              on_hosted_def publish_bus_def Let_def manager_ok_def sessions_ok_def map_of_al_put al_wf_put al_wf_del
              split: if_splits sum.splits prod.splits)
        then show ?thesis using t by (simp add: manager_ok_def)
      qed
      have "\<not> ok \<and> tab_view m2 (te_uuid env 0) = None \<and> told m1 m2"
        by (rule publish_dying [OF ok1 _ _ n(4) [OF x] _ _ assms(4) l p])
          (use assms(2,3,5,6) v1 n(1) in \<open>simp_all add: layouts_ok_def unbounded_clients_def\<close>)
      moreover have "(\<exists>e. r = Inl e) \<or> ok" "m' = m2" using assms(7) p unfolding create_tab_def valid l_def
        by (auto simp only: None sum.case option.case Let_def c prod.case x prod.inject split: if_splits)
      ultimately show ?thesis using told_trans [OF same] by simp
    qed
  qed
qed

subsection \<open>Ghosts\<close>

lemma touched_view: "touched recip p m \<longleftrightarrow> (\<exists>t l. tab_view m t = Some l \<and> remove_pane_from_layout recip l p \<noteq> Some l)"
proof -
  have "purge_entry recip p v \<noteq> Untouched \<longleftrightarrow> (\<exists>l. layout_of v = Some l \<and> remove_pane_from_layout recip l p \<noteq> Some l)" for v
    by (auto simp: purge_entry_def Let_def split: option.splits)
  then show ?thesis unfolding touched_def tab_view_def by (auto simp: bind_eq_Some_conv)
qed

lemma recheck_untouched:
  assumes "\<not> touched recip p m" "al_wf (mg_layouts m)"
  shows "tab_view (recheck_publish_or_correct recip p a m) = tab_view m \<and>
    mg_sync_clients (recheck_publish_or_correct recip p a m) = mg_sync_clients m"
proof -
  obtain ch m1 where p: "purge_pane_from_layouts recip p True m = (ch, m1)" by force
  note pm = purge_map [OF p assms(2)]
  have u: "purge_entry recip p v = Untouched" if "map_of (mg_layouts m) t = Some v" for t v
    using assms(1) that by (auto simp: touched_def)
  have "set (lc_closed ch) = {}" "set (lc_updates ch) = {}" unfolding pm(2,3) using u by auto
  then have ch: "lc_closed ch = []" "lc_updates ch = []" by simp_all
  have "map_of (mg_layouts m1) t = map_of (mg_layouts m) t" for t
    using pm(1) [of t] u [of t] by (cases "map_of (mg_layouts m) t") (simp_all add: purged_tab_def)
  moreover have "m1 = m"
    using p ch by (auto simp: purge_pane_from_layouts_def Let_def)
  ultimately show ?thesis using p ch by (simp add: recheck_publish_or_correct_def broadcast_layout_changes_def)
qed

text \<open>
  A tab for an SSH session has no such protection: if the session ends after the tab was inserted and before it
  is announced, the request succeeds and the server keeps no tab, but every client is left showing one: the
  announcement comes after the closing message, and the check that follows looks for the pane in the server's
  tabs, where it is gone already, and so corrects nothing.
\<close>
theorem late_exit_leaves_ghost_tab:
  assumes "manager_ok m" and "layouts_ok m" and "unbounded_clients m" and "te_ssh env ps = Inr (a, h)"
    and "map_of (mg_sessions m) (te_uuid env 1) = None" and "te_uuid env 1 \<notin> set (mg_reserved m)"
    and "tab_view m (te_uuid env 0) = None" and "\<not> touched (te_recip env) (te_uuid env 1) m"
  shows "\<exists>l msgs m'. create_ssh_tab_with env (exit_at 2 (te_recip env) ev (te_uuid env 1) code) ps m =
      (Inr (TabMade (te_uuid env 0) (te_uuid env 1) l None (sh_profile ps) (sh_workspace ps)), m') \<and>
    tab_view m' (te_uuid env 0) = None \<and>
    filter client_open (mg_sync_clients m') = map (push_msgs msgs) (filter client_open (mg_sync_clients m)) \<and>
    fold apply_msg msgs (tab_view m) (te_uuid env 0) = Some l"
proof -
  let ?recip = "te_recip env" and ?t = "te_uuid env 0" and ?p = "te_uuid env 1"
  let ?others = "exit_at 2 ?recip ev ?p code :: nat \<Rightarrow> ('a, 'b) manager \<Rightarrow> ('a, 'b) manager"
  have quiet: "?others 0 = (\<lambda>m. m)" "?others 1 = (\<lambda>m. m)" "?others 3 = (\<lambda>m. m)" by (auto simp: exit_at_def fun_eq_iff)
  obtain x m1 where c: "create_ssh_session env ?others ?p ps m = (x, m1)" by force
  have x: "x = Inr (a, ''ssh'')" using c assms(4-6) quiet(1)
    by (auto simp: create_ssh_session_def open_session_def reserve_session_def publish_reserved_def on_hosted_def Let_def)
  note n = new_session_spec [OF disjI2 [OF c] quiet(1)]
  have ok1: "manager_ok m1" using c assms(1) n(2,3) quiet(1)
    by (auto simp: create_ssh_session_def open_session_def reserve_session_def publish_reserved_def drop_reservation_def
        on_hosted_def publish_bus_def Let_def manager_ok_def sessions_ok_def tabs_ok_def map_of_al_put al_wf_put al_wf_del
        split: if_splits sum.splits prod.splits)
  define l where "l = (titled_leaf ?p (sh_user ps @ ''@'' @ sh_host ps) ''ssh'' :: 'a json)"
  have l: "layout_ok l" "ids l = [?p]" by (simp_all add: l_def titled_leaf_ok)
  let ?m2 = "update_layout ?t (tab_value l ?p) (Some ?p) m1"
  have v1: "tab_view m1 = tab_view m" by (rule view_of_layouts [OF n(2)])
  have m2: "manager_ok ?m2" "unbounded_clients ?m2" "layouts_ok ?m2" "is_current_session ?p a ?m2"
    using step_ok [OF ok1, of ?recip "MUpdateLayout ?t (tab_value l ?p) (Some ?p)"] assms(2,3) v1 n(1) n(4) [OF x] l(1)
    by (auto simp: mgr_step_def unbounded_clients_def layouts_ok_def current_kept)
  have touched: "touched ?recip ?p ?m2" by (rule shown_touched [OF m2(3), of ?t l]) (simp_all add: l(2))
  define m3 where "m3 = snd (close_session ?recip ev ?p NaturalExit False code ?m2)"
  note cl = close_told [OF m2(1,2,4) disjI1 [OF touched] m3_def]
  define m4 where "m4 = broadcast_sync (TabCreated ?t ?p (Some l) None (sh_profile ps) (sh_workspace ps)) m3"
  have view3: "tab_view m3 x = (if x = ?t then None else tab_view m x)" for x
  proof (cases "x = ?t")
    case False
    then show ?thesis using cl v1 assms(8) by (cases "tab_view m x") (auto simp: touched_view)
  qed (use cl lone_leaf_removed [OF l, of ?recip] in simp)
  have "manager_ok m3" using step_ok [OF m2(1), of ?recip "MClose ev ?p None NaturalExit False code"]
    by (simp add: mgr_step_def m3_def close_session_def)
  then have wf4: "al_wf (mg_layouts m4)" using broadcast_frame(1) [of m3] by (simp add: manager_ok_def tabs_ok_def m4_def same_tabs_def)
  have "\<not> touched ?recip ?p m4" using assms(7,8) view3 unfolding touched_view by (auto simp: m4_def split: if_splits)
  note rc = recheck_untouched [OF this wf4, of a]
  obtain ms where ms: "filter client_open (mg_sync_clients m3) = map (push_msgs ms) (filter client_open (mg_sync_clients m))"
    using cl n(1) by (auto simp: told_def)
  have "mg_sync_clients m4 = map (push_msgs [TabCreated ?t ?p (Some l) None (sh_profile ps) (sh_workspace ps)]) (filter client_open (mg_sync_clients m3))"
    unfolding m4_def by (rule broadcast_clients) (use cl in simp)
  then have clients: "filter client_open (mg_sync_clients m4) =
      map (push_msgs (ms @ [TabCreated ?t ?p (Some l) None (sh_profile ps) (sh_workspace ps)])) (filter client_open (mg_sync_clients m))"
    by (simp add: open_pushed ms o_def)
  let ?m' = "recheck_publish_or_correct ?recip ?p a m4"
  have "create_ssh_tab_with env ?others ps m = (Inr (TabMade ?t ?p l None (sh_profile ps) (sh_workspace ps)), ?m')"
  proof -
    have "?others 2 ?m2 = m3" by (simp add: exit_at_def m3_def)
    moreover have "titled_leaf ?p (sh_user ps @ CHR ''@'' # sh_host ps) ''ssh'' = l" by (simp add: l_def)
    ultimately show ?thesis using c x n(4) [OF x] quiet
      by (simp add: create_ssh_tab_with_def insert_tab_for_session_def Let_def m4_def)
  qed
  moreover have "tab_view ?m' ?t = None" using rc view3 by (simp add: m4_def)
  moreover have "fold apply_msg (ms @ [TabCreated ?t ?p (Some l) None (sh_profile ps) (sh_workspace ps)]) (tab_view m) ?t = Some l"
    by (simp add: apply_msg_def)
  ultimately show ?thesis using rc clients
    by (intro exI [of _ l] exI [of _ "ms @ [TabCreated ?t ?p (Some l) None (sh_profile ps) (sh_workspace ps)]"] exI [of _ ?m']) simp
qed

text \<open>
  Two clients that change the same tab at the same time can leave all clients with the wrong layout: a
  request stores its layout and announces it in two steps, and if another request comes in between, the server
  keeps the second layout while every client ends up with the first, until the next update of that tab.
\<close>
theorem concurrent_updates_diverge:
  assumes "unbounded_clients m" and "map_of (mg_layouts m) t \<noteq> None"
    and "others = (\<lambda>i m. if i = 1 then snd (update_layout_handler alone t l2 a2 m) else m)"
    and "update_layout_handler others t l1 a1 m = (r, m')"
  shows "r = Inr TabsOk \<and> tab_view m' t = Some l2 \<and>
    (\<exists>msgs. filter client_open (mg_sync_clients m') = map (push_msgs msgs) (filter client_open (mg_sync_clients m)) \<and>
      fold apply_msg msgs (tab_view m) t = Some l1)"
proof -
  let ?m1 = "update_layout t (tab_value l1 a1) (Some a1) m"
  let ?m2 = "update_layout t (tab_value l2 a2) (Some a2) ?m1"
  have "map_of (mg_layouts ?m1) t \<noteq> None"
    by (auto simp: update_layout_def insert_tab_def schedule_snapshot_def map_of_al_put Let_def)
  then have r: "r = Inr TabsOk" "m' = broadcast_sync (LayoutUpdated t l1 a1) (broadcast_sync (LayoutUpdated t l2 a2) ?m2)"
    using assms(2,4) by (auto simp: assms(3) update_layout_handler_def alone_def)
  have "unbounded_clients ?m2" using assms(1) by (simp add: unbounded_clients_def)
  from fold_broadcast_clients [OF this, of "[LayoutUpdated t l2 a2, LayoutUpdated t l1 a1]"]
  have "mg_sync_clients m' = map (push_msgs [LayoutUpdated t l2 a2, LayoutUpdated t l1 a1]) (filter client_open (mg_sync_clients m))"
    by (simp add: r(2))
  then show ?thesis using r
    by (intro conjI exI [of _ "[LayoutUpdated t l2 a2, LayoutUpdated t l1 a1]"]) (simp_all add: open_pushed apply_msg_def)
qed

subsection \<open>Examples\<close>

definition demo_tab_env :: "(nat, unit) tab_env" where
  "demo_tab_env = \<lparr>te_is_dir = (\<lambda>_. True), te_default_root = None, te_shell_error = None,
     te_spawn = (\<lambda>_ _. Inr (7, demo_hosted, ''sh'')), te_ssh = (\<lambda>_. Inr (7, demo_hosted)),
     te_uuid = (\<lambda>i. if i = 0 then ''new0'' else ''new1''), te_split_ids = (\<lambda>_. ''s''), te_recip = (\<lambda>n. n),
     te_close = (\<lambda>_. demo_env), te_profiles = []\<rparr>"

lemma demo_layouts: "layouts_ok demo_manager" "unbounded_clients demo_manager" "all_panes demo_manager = {#''q''#}"
    "panes_distinct demo_manager"
proof -
  show all: "all_panes demo_manager = {#''q''#}"
    by (simp add: all_panes_def demo_manager_def new_session_manager_def panes_in_def singleton_value terminal_leaf_ok)
  show "layouts_ok demo_manager" by (simp add: layouts_ok_def demo_views terminal_leaf_ok)
  show "unbounded_clients demo_manager" by (simp add: unbounded_clients_def demo_facts)
  show "panes_distinct demo_manager" by (simp add: panes_distinct_def all)
qed

lemma tab_requests_tell_clients_witness:
  "\<exists>msgs. fold apply_msg msgs (tab_view demo_manager) =
     tab_view (snd (tab_step demo_tab_env alone (TSplit ''t'' \<lparr>sp_pane = ''q'', sp_direction = ''vertical'', sp_force_local = False, sp_cwd = None\<rparr>) demo_manager))"
  using tab_requests_tell_clients [OF demo_manager_ok demo_layouts(1,2),
      of "TSplit ''t'' \<lparr>sp_pane = ''q'', sp_direction = ''vertical'', sp_force_local = False, sp_cwd = None\<rparr>" demo_tab_env] by auto

lemma demo_fresh: "map_of (mg_layouts demo_manager) ''new0'' = None" "map_of (mg_sessions demo_manager) ''new1'' = None"
  "mg_reserved demo_manager = []"
  by (simp_all add: demo_manager_def new_session_manager_def)


lemma dying_session_leaves_no_tab_witness:
  "tab_view (snd (create_tab demo_tab_env (exit_at 2 (\<lambda>n. n) demo_env ''new1'' None)
     \<lparr>ct_cwd = None, ct_source = None, ct_argv = None, ct_title = None\<rparr> demo_manager)) ''new0'' = None"
  using dying_session_leaves_no_tab [OF demo_manager_ok demo_layouts(1,2) _ _ _ surjective_pairing, where k = 2 and env = demo_tab_env
      and recip = "\<lambda>n. n" and ev = demo_env and code = None and req = "\<lparr>ct_cwd = None, ct_source = None, ct_argv = None, ct_title = None\<rparr>"]
  by (simp add: demo_tab_env_def demo_views)

lemma late_exit_leaves_ghost_tab_witness:
  "\<exists>l msgs m'. tab_view m' ''new0'' = None \<and> fold apply_msg msgs (tab_view demo_manager) ''new0'' = Some l \<and>
     create_ssh_tab_with demo_tab_env (exit_at 2 (\<lambda>n. n) demo_env ''new1'' None)
       \<lparr>sh_user = ''u'', sh_host = ''h'', sh_profile = None, sh_workspace = None\<rparr> demo_manager =
       (Inr (TabMade ''new0'' ''new1'' l None None None), m')"
proof -
  have "remove_pane_from_layout (\<lambda>n. n) (terminal_leaf ''q'' ''sh'' :: nat json) ''new1'' = Some (terminal_leaf ''q'' ''sh'')"
    by (simp add: remove_pane_from_layout.simps terminal_leaf_def get_str_def get_mk_obj)
  then have "\<not> touched (te_recip demo_tab_env) (te_uuid demo_tab_env 1) demo_manager"
    unfolding touched_view by (auto simp: demo_views demo_tab_env_def split: if_splits)
  from late_exit_leaves_ghost_tab [OF demo_manager_ok demo_layouts(1,2) _ _ _ _ this, where a = 7 and h = demo_hosted and ev = demo_env
      and code = None and ps = "\<lparr>sh_user = ''u'', sh_host = ''h'', sh_profile = None, sh_workspace = None\<rparr>"]
  show ?thesis by (auto simp: demo_tab_env_def demo_views demo_fresh)
qed

lemma concurrent_updates_diverge_witness:
  "\<exists>m'. tab_view m' ''t'' = Some (JBool True) \<and> (\<exists>msgs. fold apply_msg msgs (tab_view demo_manager) ''t'' = Some JNull) \<and>
     update_layout_handler (\<lambda>i m. if i = 1 then snd (update_layout_handler alone ''t'' (JBool True) ''q'' m) else m) ''t'' JNull ''q'' demo_manager =
       (Inr TabsOk, m')"
proof -
  have "map_of (mg_layouts demo_manager) ''t'' \<noteq> None" by (simp add: demo_manager_def new_session_manager_def)
  moreover obtain r m' where "update_layout_handler (\<lambda>i m. if i = 1 then snd (update_layout_handler alone ''t'' (JBool True) ''q'' m) else m)
      ''t'' JNull ''q'' demo_manager = (r, m')" by force
  ultimately show ?thesis using concurrent_updates_diverge [OF demo_layouts(2) _ refl] by blast
qed

end
