(* ===== verification/Notify.thy ===== *)
theory Notify
  imports SyncTypes ManagerCore AttentionDedup
begin

section \<open>Notifications\<close>

text \<open>
  \<open>notification/broadcast.rs\<close>, \<open>handler.rs\<close>, \<open>types.rs\<close>, \<open>util.rs\<close>: bells, OSC notifications, posted
  notifications and read marks, from the debounce maps through the attention ledger to the clients, the
  event bus and the user's hooks. \<open>None\<close> is a panic of the ledger (a counter that overflows).
  \<open>free\<close> says whether \<open>try_read\<close> gets the settings at that moment; \<open>hash\<close> is
  the hash of a serialised payload; uuids and clocks are parameters.
\<close>

subsection \<open>State\<close>

record hook =
  hk_enabled :: bool
  hk_type :: "severity option"
  hk_command :: string

record notify_settings =
  ns_config :: notification_config
  ns_hooks :: "hook list"

record hook_run =
  hr_command :: string
  hr_type :: string
  hr_pane :: string
  hr_title :: string
  hr_body :: string

record 'f notifier =
  nf_ledger :: attention_ledger
  nf_clients :: "'f sync_client list"
  nf_bell :: "(string, instant) amap"
  nf_osc :: "(string \<times> nat, instant) amap"
  nf_settings :: "notify_settings option"
  nf_bus :: "'f bus_note list"
  nf_hook_runs :: "hook_run list"

definition new_notifier :: "string \<Rightarrow> 'f sync_client list \<Rightarrow> 'f notifier" where
  "new_notifier epoch clients =
     \<lparr>nf_ledger = with_epoch epoch, nf_clients = clients, nf_bell = [], nf_osc = [], nf_settings = None,
       nf_bus = [], nf_hook_runs = []\<rparr>"

definition set_settings :: "notify_settings \<Rightarrow> 'f notifier \<Rightarrow> 'f notifier" where
  "set_settings s n = n\<lparr>nf_settings := Some s\<rparr>"

text \<open>\<open>NotificationConfig::default()\<close>.\<close>

definition default_config :: notification_config where
  "default_config =
     \<lparr>nc_enabled = True, nc_bell = \<lparr>bell_enabled = True, bell_debounce_ms = 300\<rparr>, nc_osc_notify = True,
       nc_osc_notify_debounce_ms = 2000, nc_idle_reminder = False,
       nc_command_complete = \<lparr>cc_enabled = False, cc_threshold_seconds = 10\<rparr>\<rparr>"

text \<open>While the settings are being written, the defaults count.\<close>

definition current_config :: "bool \<Rightarrow> 'f notifier \<Rightarrow> notification_config" where
  "current_config free n =
     (case nf_settings n of Some s \<Rightarrow> if free then ns_config s else default_config | None \<Rightarrow> default_config)"

subsection \<open>Clients, bus and hooks\<close>

definition announce :: "'f sync_msg \<Rightarrow> 'f notifier \<Rightarrow> 'f notifier" where
  "announce msg n = n\<lparr>nf_clients := all_some (map (send_sync msg) (nf_clients n))\<rparr>"

definition send_to_client :: "string \<Rightarrow> 'f sync_msg \<Rightarrow> 'f notifier \<Rightarrow> 'f notifier" where
  "send_to_client target msg n =
     n\<lparr>nf_clients := update_first (\<lambda>c. sc_id c = target) (\<lambda>c. c\<lparr>sc_tx := snd (try_send msg (sc_tx c))\<rparr>) (nf_clients n)\<rparr>"

definition publish_note :: "'f bus_note \<Rightarrow> 'f notifier \<Rightarrow> 'f notifier" where
  "publish_note e n = n\<lparr>nf_bus := nf_bus n @ [e]\<rparr>"

definition register_client :: "string \<Rightarrow> 'f notifier \<Rightarrow> 'f notifier" where
  "register_client target n = send_to_client target (SnapshotMsg (attention_snapshot (nf_ledger n))) n"

definition hook_wants :: "string \<Rightarrow> hook \<Rightarrow> bool" where
  "hook_wants ty h \<longleftrightarrow> hk_enabled h \<and> hk_command h \<noteq> [] \<and>
     (case hk_type h of None \<Rightarrow> True | Some s \<Rightarrow> severity_str s = ty)"

definition run_hooks :: "bool \<Rightarrow> string \<Rightarrow> string \<Rightarrow> string option \<Rightarrow> string \<Rightarrow> 'f notifier \<Rightarrow> 'f notifier" where
  "run_hooks free ty pane title body n =
     (case nf_settings n of
        None \<Rightarrow> n
      | Some s \<Rightarrow>
          if \<not> free \<or> \<not> nc_enabled (ns_config s) then n
          else n\<lparr>nf_hook_runs := nf_hook_runs n @
            map (\<lambda>h. \<lparr>hr_command = hk_command h, hr_type = ty, hr_pane = pane,
                hr_title = (case title of None \<Rightarrow> [] | Some t \<Rightarrow> t), hr_body = body\<rparr>)
              (filter (hook_wants ty) (ns_hooks s))\<rparr>)"

subsection \<open>Debouncing\<close>

definition as_millis :: "nat \<Rightarrow> nat" where
  "as_millis d = d div (NANOS div 1000)"

definition recent :: "nat \<Rightarrow> 'k \<Rightarrow> instant \<Rightarrow> ('k, instant) amap \<Rightarrow> bool" where
  "recent ms k now m = (case map_of m k of None \<Rightarrow> False | Some t \<Rightarrow> as_millis (duration_since now t) < ms)"

text \<open>Entries older than a minute go; an event that is not a duplicate starts its window.\<close>

definition debounced :: "nat \<Rightarrow> 'k \<Rightarrow> instant \<Rightarrow> ('k, instant) amap \<Rightarrow> bool \<times> ('k, instant) amap" where
  "debounced ms k now m =
     (let dup = recent ms k now m;
          kept = filter (\<lambda>(_, t). as_secs (duration_since now t) < 60) m in
      (dup, if dup then kept else al_put k now kept))"

definition check_osc_debounce :: "string \<times> nat \<Rightarrow> nat \<Rightarrow> instant \<Rightarrow> 'f notifier \<Rightarrow> bool \<times> 'f notifier" where
  "check_osc_debounce k ms now n = (let (dup, m) = debounced ms k now (nf_osc n) in (dup, n\<lparr>nf_osc := m\<rparr>))"

subsection \<open>Requests\<close>

text \<open>\<open>v\<close> and \<open>reason\<close> of a read mark enter the hash only.\<close>

datatype mark_read_reason =
  Focus | TerminalInput | TabActivate | TabClose | PaneClose | Goto | ActiveObserved | Dismiss | ClearAll

record mark_read_request =
  mq_v :: nat
  mq_epoch :: string
  mq_client :: string
  mq_request :: string
  mq_reason :: mark_read_reason
  mq_panes :: "(string \<times> string) list"
  mq_notifs :: "string list"

record notify_request =
  nr_client :: "string option"
  nr_request :: "string option"
  nr_source :: "string option"
  nr_category :: "string option"
  nr_pane :: "string option"
  nr_title :: "string option"
  nr_body :: string
  nr_type :: string

datatype process_result = ProcOutcome producer_outcome | ProcConflict | ProcRetry | ProcMalformed string

datatype payload = PBell | PNotice "string option" string | PMark mark_read_request | PProducer notify_request

definition severity_from_type :: "string \<Rightarrow> severity option" where
  "severity_from_type v =
     (if v = ''info'' \<or> v = ''bell'' then Some Info
      else if v = ''success'' then Some Success
      else if v = ''warning'' then Some Warning
      else if v = ''error'' then Some Error
      else if v = ''urgent'' then Some Urgent
      else None)"

definition conflict_mark_read :: "mark_read_request \<Rightarrow> string \<Rightarrow> mark_read_result" where
  "conflict_mark_read req epoch =
     \<lparr>mr_request_id = mq_request req, mr_epoch = epoch, mr_applied_at_revision = None,
       mr_results = map (\<lambda>(p, _). (TPane p, Conflict)) (mq_panes req) @ map (\<lambda>i. (TNotif i, Conflict)) (mq_notifs req)\<rparr>"

definition MIN_PROTOCOL_VERSION :: nat where
  "MIN_PROTOCOL_VERSION = 1"

definition num_str :: "nat \<Rightarrow> string" where
  "num_str n = map char_of (dec n)"

definition notice_of :: "string \<Rightarrow> string option \<Rightarrow> string \<Rightarrow> string \<Rightarrow> nat \<Rightarrow> nat \<Rightarrow> severity \<Rightarrow> string option \<Rightarrow> notice" where
  "notice_of pane title body ty seq at sev notif =
     \<lparr>no_v = MIN_PROTOCOL_VERSION, no_pane = pane, no_title = title, no_body = body, no_type = ty,
       no_event_seq = num_str seq, no_occurred_at = at, no_severity = sev, no_notif_id = notif\<rparr>"

subsection \<open>Bells and OSC notifications\<close>

text \<open>
  The ledger's lock is released before the messages go out: \<open>other\<close> is what other tasks do meanwhile.
  \<open>bell_messages\<close> and \<open>notify_messages\<close> are what follows it.
\<close>

definition bell_messages :: "bool \<Rightarrow> string \<Rightarrow> nat \<Rightarrow> nat \<Rightarrow> state_delta \<Rightarrow> 'f notifier \<Rightarrow> 'f notifier" where
  "bell_messages free pane now seq delta n =
     run_hooks free ''bell'' pane None ''Bell''
       (publish_note (NotifyEv pane None ''Bell'' ''bell'' (severity_str Info) now)
         (announce (Bell (notice_of pane None ''Bell'' ''bell'' seq now Info None)) (announce (StateDelta delta) n)))"

definition send_bell ::
  "('f notifier \<Rightarrow> 'f notifier) \<Rightarrow> bool \<Rightarrow> bool \<Rightarrow> instant \<Rightarrow> nat \<Rightarrow> string \<Rightarrow> 'f notifier \<Rightarrow> 'f notifier option" where
  "send_bell other free free2 at now pane n =
     (let cfg = current_config free n;
          (dup, m) = debounced (bell_debounce_ms (nc_bell cfg)) pane at (nf_bell n);
          n1 = n\<lparr>nf_bell := m\<rparr> in
      if evaluate_ingest_gate cfg (SBell dup) \<noteq> GAccepted then Some n1
      else do {
        ((seq, delta), l) \<leftarrow> record_pane_event pane now Info now (nf_ledger n1);
        Some (bell_messages free2 pane now seq delta (other (n1\<lparr>nf_ledger := l\<rparr>)))
      })"

definition send_detected_bell ::
  "(payload \<Rightarrow> nat) \<Rightarrow> ('f notifier \<Rightarrow> 'f notifier) \<Rightarrow> bool \<Rightarrow> bool \<Rightarrow> bool \<Rightarrow> instant \<Rightarrow> instant \<Rightarrow> nat \<Rightarrow> string \<Rightarrow>
     'f notifier \<Rightarrow> 'f notifier option" where
  "send_detected_bell hash other free0 free free2 at0 at now pane n =
     (let cfg = current_config free0 n;
          (dup, n1) = check_osc_debounce (pane, hash PBell) (nc_osc_notify_debounce_ms cfg) at0 n in
      if dup then Some n1 else send_bell other free free2 at now pane n1)"

definition notify_messages ::
  "bool \<Rightarrow> string \<Rightarrow> string option \<Rightarrow> string \<Rightarrow> string \<Rightarrow> severity \<Rightarrow> string \<Rightarrow> nat \<Rightarrow> nat \<Rightarrow> state_delta \<Rightarrow> 'f notifier \<Rightarrow> 'f notifier" where
  "notify_messages free pane title body ty sev uuid now seq delta n =
     run_hooks free ty pane title body
       (publish_note (NotifyEv pane title body ty (severity_str sev) now)
         (announce (Notify (notice_of [] title body ty seq now sev (Some uuid)) (Some pane)) (announce (StateDelta delta) n)))"

definition send_notify ::
  "(payload \<Rightarrow> nat) \<Rightarrow> ('f notifier \<Rightarrow> 'f notifier) \<Rightarrow> bool \<Rightarrow> bool \<Rightarrow> instant \<Rightarrow> nat \<Rightarrow> string \<Rightarrow> string \<Rightarrow> string option \<Rightarrow> string \<Rightarrow> string \<Rightarrow>
     'f notifier \<Rightarrow> 'f notifier option" where
  "send_notify hash other free free2 at now uuid pane title body ty n =
     (let cfg = current_config free n;
          (dup, n1) = check_osc_debounce (pane, hash (PNotice title body)) (nc_osc_notify_debounce_ms cfg) at n in
      if evaluate_ingest_gate cfg (SOscNotify dup) \<noteq> GAccepted then Some n1
      else do {
        let sev = (case severity_from_type ty of Some s \<Rightarrow> s | None \<Rightarrow> Info);
        ((seq, delta), l) \<leftarrow> record_notif_event uuid now sev now (nf_ledger n1);
        Some (notify_messages free2 pane title body ty sev uuid now seq delta (other (n1\<lparr>nf_ledger := l\<rparr>)))
      })"

text \<open>\<open>sweep\<close> and \<open>pane_closed\<close>.\<close>

definition announce_delta :: "state_delta option \<Rightarrow> 'f notifier \<Rightarrow> 'f notifier" where
  "announce_delta d n = (case d of None \<Rightarrow> n | Some d \<Rightarrow> announce (StateDelta d) n)"

definition sweep_attention :: "('f notifier \<Rightarrow> 'f notifier) \<Rightarrow> nat \<Rightarrow> 'f notifier \<Rightarrow> 'f notifier option" where
  "sweep_attention other now n =
     map_option (\<lambda>(d, l). announce_delta d (other (n\<lparr>nf_ledger := l\<rparr>))) (sweep now (nf_ledger n))"

definition pane_gone :: "('f notifier \<Rightarrow> 'f notifier) \<Rightarrow> string \<Rightarrow> nat \<Rightarrow> 'f notifier \<Rightarrow> 'f notifier option" where
  "pane_gone other pane now n =
     map_option (\<lambda>(d, l). announce_delta d (other (n\<lparr>nf_ledger := l\<rparr>))) (pane_closed pane now (nf_ledger n))"

subsection \<open>Read marks\<close>

text \<open>A watermark that is not a number is dropped from the request, without a result of its own.\<close>

definition parsed_panes :: "mark_read_request \<Rightarrow> (string \<times> nat) list" where
  "parsed_panes req =
     all_some (map (\<lambda>(p, s). map_option (\<lambda>q. (p, q)) (parse_unsigned u64_limit (lit s))) (mq_panes req))"

definition apply_mark_read ::
  "(payload \<Rightarrow> nat) \<Rightarrow> ('f notifier \<Rightarrow> 'f notifier) \<Rightarrow> nat \<Rightarrow> string \<Rightarrow> mark_read_request \<Rightarrow> 'f notifier \<Rightarrow> 'f notifier option" where
  "apply_mark_read hash other now cid req n = do {
     (r, l1) \<leftarrow> reserve (mq_client req) (mq_request req) (hash (PMark req)) now (nf_ledger n);
     let n1 = n\<lparr>nf_ledger := l1\<rparr>;
     case r of
       Replay (OMarkRead result) \<Rightarrow> Some (send_to_client cid (MarkReadResult result) n1)
     | RInFlight \<Rightarrow> Some n1
     | Replay (OProducer _) \<Rightarrow> Some (send_to_client cid (MarkReadResult (conflict_mark_read req (lg_epoch l1))) (other n1))
     | RConflict \<Rightarrow> Some (send_to_client cid (MarkReadResult (conflict_mark_read req (lg_epoch l1))) (other n1))
     | Reserved g \<Rightarrow> do {
         ((d, results, applied), l2) \<leftarrow> mark_read (mq_epoch req) (parsed_panes req) (mq_notifs req) now l1;
         let result = \<lparr>mr_request_id = mq_request req, mr_epoch = lg_epoch l2, mr_applied_at_revision = applied, mr_results = results\<rparr>;
         let l3 = snd (complete (mq_client req, mq_request req) g (OMarkRead result) now l2);
         Some (send_to_client cid (MarkReadResult result) (other (announce_delta d (n1\<lparr>nf_ledger := l3\<rparr>))))
       }
   }"

subsection \<open>Posted notifications\<close>

text \<open>The checks before the ledger is locked: the severity, the pane, and the ids of client and request.\<close>

definition check_notify ::
  "(string \<Rightarrow> bool) \<Rightarrow> bool \<Rightarrow> (nat \<Rightarrow> string) \<Rightarrow> notify_request \<Rightarrow> 'f notifier \<Rightarrow>
     process_result + severity \<times> string option \<times> string \<times> string" where
  "check_notify is_uuid free uuid req n =
     (case severity_from_type (nr_type req) of
        None \<Rightarrow> Inl (ProcMalformed ''invalid notification type'')
      | Some sev \<Rightarrow>
          let cfg = current_config free n;
              pane = (case nr_pane req of Some p \<Rightarrow> if p = [] then None else Some p | None \<Rightarrow> None);
              client = (case nr_client req of Some c \<Rightarrow> c | None \<Rightarrow> uuid 0);
              request = (case nr_request req of Some r \<Rightarrow> r | None \<Rightarrow> uuid 1) in
          if (case nr_source req of Some s \<Rightarrow> s \<noteq> ''plugin'' | None \<Rightarrow> False) then Inl (ProcMalformed ''invalid source'')
          else if nc_enabled cfg \<and> nr_category req = Some ''idle_reminder'' \<and> \<not> nc_idle_reminder cfg
          then Inl (ProcOutcome (Suppressed ''idle_reminder_disabled''))
          else if (nr_client req \<noteq> None) \<noteq> (nr_request req \<noteq> None)
          then Inl (ProcMalformed ''clientId and requestId must be provided together'')
          else if (case pane of Some p \<Rightarrow> \<not> is_uuid p | None \<Rightarrow> False) then Inl (ProcMalformed ''invalid paneId'')
          else if client = [] \<or> request = [] then Inl (ProcMalformed ''clientId/requestId must not be empty'')
          else Inr (sev, pane, client, request))"

text \<open>What an accepted reservation does, still under the lock; the hooks run later.\<close>

definition produce ::
  "bool \<Rightarrow> (string \<Rightarrow> bool) \<Rightarrow> string \<Rightarrow> nat \<Rightarrow> severity \<Rightarrow> string option \<Rightarrow> notify_request \<Rightarrow> 'f notifier \<Rightarrow>
     (producer_outcome \<times> string option \<times> 'f notifier) option" where
  "produce free live notif now sev pane req n =
     (case evaluate_ingest_gate (current_config free n) SPlugin of
        GSuppressed reason \<Rightarrow> Some (Suppressed reason, None, n)
      | GAccepted \<Rightarrow>
          (case pane of
             Some p \<Rightarrow>
               if \<not> live p then Some (OutcomeNotFound, None, n)
               else do {
                 ((seq, delta), l) \<leftarrow> record_pane_event p now sev now (nf_ledger n);
                 Some (AcceptedPane p seq (sd_revision delta), Some p,
                   publish_note (NotifyEv p (nr_title req) (nr_body req) (nr_type req) (severity_str sev) now)
                     (announce (Notify (notice_of p (nr_title req) (nr_body req) (nr_type req) seq now sev None) (Some p))
                       (announce (StateDelta delta) (n\<lparr>nf_ledger := l\<rparr>))))
               }
           | None \<Rightarrow> do {
               ((seq, delta), l) \<leftarrow> record_notif_event notif now sev now (nf_ledger n);
               Some (AcceptedNotif notif seq (sd_revision delta), Some [],
                 publish_note (NotifyEv [] (nr_title req) (nr_body req) (nr_type req) (severity_str sev) now)
                   (announce (Notify (notice_of [] (nr_title req) (nr_body req) (nr_type req) seq now sev (Some notif)) None)
                     (announce (StateDelta delta) (n\<lparr>nf_ledger := l\<rparr>))))
             }))"

definition process_notify ::
  "(payload \<Rightarrow> nat) \<Rightarrow> (string \<Rightarrow> bool) \<Rightarrow> (nat \<Rightarrow> string) \<Rightarrow> bool \<Rightarrow> bool \<Rightarrow> nat \<Rightarrow> (string \<Rightarrow> bool) \<Rightarrow> notify_request \<Rightarrow>
     'f notifier \<Rightarrow> (process_result \<times> 'f notifier) option" where
  "process_notify hash is_uuid uuid free free2 now live req n =
     (case check_notify is_uuid free uuid req n of
        Inl r \<Rightarrow> Some (r, n)
      | Inr (sev, pane, client, request) \<Rightarrow> do {
          (r, l1) \<leftarrow> reserve client request (hash (PProducer req)) now (nf_ledger n);
          let n1 = n\<lparr>nf_ledger := l1\<rparr>;
          case r of
            Replay (OProducer out) \<Rightarrow> Some (ProcOutcome out, n1)
          | Replay (OMarkRead _) \<Rightarrow> Some (ProcConflict, n1)
          | RConflict \<Rightarrow> Some (ProcConflict, n1)
          | RInFlight \<Rightarrow> Some (ProcRetry, n1)
          | Reserved g \<Rightarrow> do {
              (out, hook, n2) \<leftarrow> produce free live (uuid 2) now sev pane req n1;
              let n3 = n2\<lparr>nf_ledger := snd (complete (client, request) g (OProducer out) now (nf_ledger n2))\<rparr>;
              Some (ProcOutcome out,
                case hook of None \<Rightarrow> n3 | Some p \<Rightarrow> run_hooks free2 (nr_type req) p (nr_title req) (nr_body req) n3)
            }
        })"

text \<open>\<open>post_notify\<close>: a pane is live if some tab shows it and it has a session; the status of the answer.\<close>

definition pane_live :: "('f, 'ps) manager \<Rightarrow> string \<Rightarrow> bool" where
  "pane_live m pane \<longleftrightarrow> is_pane_in_any_tab pane m \<and> map_of (mg_sessions m) pane \<noteq> None"

definition producer_response :: "producer_outcome \<Rightarrow> nat" where
  "producer_response out = (case out of OutcomeNotFound \<Rightarrow> 404 | _ \<Rightarrow> 200)"

definition post_notify ::
  "(payload \<Rightarrow> nat) \<Rightarrow> (string \<Rightarrow> bool) \<Rightarrow> (nat \<Rightarrow> string) \<Rightarrow> bool \<Rightarrow> bool \<Rightarrow> nat \<Rightarrow> ('f, 'ps) manager \<Rightarrow> notify_request option \<Rightarrow>
     'f notifier \<Rightarrow> (nat \<times> 'f notifier) option" where
  "post_notify hash is_uuid uuid free free2 now m payload n =
     (case payload of
        None \<Rightarrow> Some (400, n)
      | Some req \<Rightarrow>
          map_option (\<lambda>(r, n'). (case r of ProcOutcome out \<Rightarrow> producer_response out | ProcConflict \<Rightarrow> 409 | ProcRetry \<Rightarrow> 503 | ProcMalformed _ \<Rightarrow> 400, n'))
            (process_notify hash is_uuid uuid free free2 now (pane_live m) req n))"

end
