(* ===== verification/NotifyProps.thy ===== *)
theory NotifyProps
  imports Notify ManagerView
begin

section \<open>Properties of the notifications\<close>

text \<open>
  That clients who joined know the ledger's state after every operation, as long as no two
  broadcasts overtake each other, and what they lose when two do; that a posted notification
  counts once however often it is sent; and what the debounce maps compute.
\<close>

subsection \<open>What a client knows\<close>

text \<open>A snapshot replaces what the client knew; a delta not later than its revision is ignored.\<close>

definition snapshot_view :: "snapshot \<Rightarrow> attention_view" where
  "snapshot_view s = apply_view (sd_panes s, sd_notifs s) (\<lambda>_. None, \<lambda>_. None)"

definition client_hears :: "'f sync_msg \<Rightarrow> (nat \<times> attention_view) option \<Rightarrow> (nat \<times> attention_view) option" where
  "client_hears msg st =
     (case msg of
        SnapshotMsg s \<Rightarrow> Some (sd_revision s, snapshot_view s)
      | StateDelta d \<Rightarrow>
          (case st of
             None \<Rightarrow> None
           | Some (r, v) \<Rightarrow> if r < sd_revision d then Some (sd_revision d, apply_state_delta d v) else Some (r, v))
      | _ \<Rightarrow> st)"

definition client_knows :: "'f sync_client \<Rightarrow> (nat \<times> attention_view) option" where
  "client_knows c = fold client_hears (ch_sent (sc_tx c)) None"

definition knows_now :: "string set \<Rightarrow> attention_ledger \<Rightarrow> 'f sync_client \<Rightarrow> bool" where
  "knows_now J l c \<longleftrightarrow> ch_capacity (sc_tx c) = None \<and>
     (client_open c \<longrightarrow>
      client_knows c = None \<and> sc_id c \<notin> J \<or> client_knows c = Some (lg_revision l, ledger_view l))"

definition in_step :: "string set \<Rightarrow> 'f notifier \<Rightarrow> bool" where
  "in_step J n \<longleftrightarrow> ledger_wf (nf_ledger n) \<and> distinct (map sc_id (nf_clients n)) \<and> list_all (knows_now J (nf_ledger n)) (nf_clients n)"

lemma push_id [simp]: "sc_id (push_msgs ms c) = sc_id c" "sc_id \<circ> push_msgs ms = sc_id"
  by (simp_all add: push_msgs_def fun_eq_iff)

lemma client_knows_push [simp]: "client_knows (push_msgs ms c) = fold client_hears ms (client_knows c)"
  by (simp add: client_knows_def push_msgs_def)

lemma announce_clients:
  assumes "list_all (\<lambda>c. ch_capacity (sc_tx c) = None) (nf_clients n)"
  shows "nf_clients (announce msg n) = map (push_msgs [msg]) (filter client_open (nf_clients n))"
proof -
  have "list_all (\<lambda>c. ch_capacity (sc_tx c) = None) cs \<Longrightarrow>
      all_some (map (send_sync msg) cs) = map (push_msgs [msg]) (filter client_open cs)" for cs :: "'a sync_client list"
    by (induction cs) (auto simp: all_some_def send_sync_def try_send_def chan_full_def push_msgs_def client_open_def)
  with assms show ?thesis by (simp add: announce_def)
qed

lemma send_open:
  assumes "ch_capacity (sc_tx c) = None"
  shows "c\<lparr>sc_tx := snd (try_send msg (sc_tx c))\<rparr> = (if client_open c then push_msgs [msg] c else c)"
  using assms by (simp add: try_send_def chan_full_def push_msgs_def client_open_def)

lemma in_step_frame:
  "nf_ledger n' = nf_ledger n \<Longrightarrow> nf_clients n' = nf_clients n \<Longrightarrow> in_step J n' = in_step J n"
  by (simp add: in_step_def)

lemma frame_ledger [simp]:
  "nf_ledger (announce msg n) = nf_ledger n" "nf_ledger (send_to_client target msg n) = nf_ledger n"
  "nf_ledger (publish_note e n) = nf_ledger n" "nf_ledger (run_hooks free ty pane title body n) = nf_ledger n"
  by (simp_all add: announce_def send_to_client_def publish_note_def run_hooks_def split: option.split)

lemma in_step_fields [simp]:
  "in_step J (n\<lparr>nf_bell := b\<rparr>) = in_step J n" "in_step J (n\<lparr>nf_osc := q\<rparr>) = in_step J n"
  "in_step J (set_settings s n) = in_step J n" "in_step J (publish_note e n) = in_step J n"
  "in_step J (run_hooks free ty pane title body n) = in_step J n"
  by (rule in_step_frame; simp add: set_settings_def publish_note_def run_hooks_def split: option.split)+

lemma in_step_capacity: "in_step J n \<Longrightarrow> list_all (\<lambda>c. ch_capacity (sc_tx c) = None) (nf_clients n)"
  by (auto simp: in_step_def knows_now_def list_all_iff)

definition quiet :: "'f sync_msg \<Rightarrow> bool" where
  "quiet msg \<longleftrightarrow> (\<forall>st. client_hears msg st = st)"

lemma quiet_msgs [simp]: "quiet (Bell x)" "quiet (Notify x y)" "quiet (MarkReadResult z)"
  by (simp_all add: quiet_def client_hears_def)

lemma in_step_announce_quiet: "in_step J n \<Longrightarrow> quiet msg \<Longrightarrow> in_step J (announce msg n)"
  by (frule in_step_capacity)
    (auto simp: in_step_def announce_clients knows_now_def list_all_iff quiet_def distinct_map_filter)

text \<open>A delta goes out with the ledger it leads to.\<close>

lemma in_step_delta:
  assumes "in_step J n" and "delta_sound (nf_ledger n) d l"
  shows "in_step J (announce_delta d (n\<lparr>nf_ledger := l\<rparr>))"
proof (cases d)
  case None
  with assms show ?thesis by (auto simp: announce_delta_def in_step_def delta_sound_def knows_now_def list_all_iff)
next
  case (Some y)
  let ?n = "n\<lparr>nf_ledger := l\<rparr>"
  have "nf_clients (announce (StateDelta y) ?n) = map (push_msgs [StateDelta y]) (filter client_open (nf_clients n))"
    using in_step_capacity [OF assms(1)] by (subst announce_clients) simp_all
  then show ?thesis using assms Some
    by (auto simp: announce_delta_def in_step_def delta_sound_def knows_now_def list_all_iff client_hears_def distinct_map_filter)
qed

lemma in_step_record:
  assumes "in_step J n" and "delta_sound (nf_ledger n) (Some d) l"
  shows "in_step J (announce (StateDelta d) (n\<lparr>nf_ledger := l\<rparr>))"
  using in_step_delta [OF assms] by (simp add: announce_delta_def)

subsection \<open>Joining\<close>

lemma fold_apply_distinct:
  assumes "distinct (map key ds)" and "list_all (\<lambda>d. \<not> gone d) ds"
  shows "fold (apply_delta key gone) ds v i =
    (case filter (\<lambda>d. key d = i) ds of [] \<Rightarrow> v i | d # _ \<Rightarrow> Some d)"
  using assms
proof (induction ds arbitrary: v)
  case (Cons d ds)
  have "key d = i \<Longrightarrow> filter (\<lambda>e. key e = i) ds = []" using Cons.prems by (auto simp: filter_empty_conv image_iff)
  with Cons show ?case by (cases "key d = i") (simp_all add: apply_delta_def)
qed simp

text \<open>The snapshot lists the entries by id; replaying it gives the map.\<close>

lemma replay_sorted:
  assumes "distinct (map fst m)" and k: "\<And>i p. key (f i p) = i" and "\<And>i p. \<not> gone (f i p)"
  shows "apply_deltas key gone (sort_key key (map (\<lambda>(i, p). f i p) m)) (\<lambda>_. None) i = map_option (f i) (map_of m i)"
proof -
  let ?ds = "sort_key key (map (\<lambda>(i, p). f i p) m)"
  have keys: "map key (map (\<lambda>(i, p). f i p) m) = map fst m" by (induction m) (auto simp: k)
  with assms(1) have "distinct (map key (map (\<lambda>(i, p). f i p) m))" by (simp only:)
  then have d: "distinct (map key ?ds)" by (simp only: distinct_map distinct_sort set_sort)
  have "apply_deltas key gone ?ds (\<lambda>_. None) i = (case filter (\<lambda>d. key d = i) ?ds of [] \<Rightarrow> None | d # _ \<Rightarrow> Some d)"
    unfolding apply_deltas_def
    by (rule fold_apply_distinct [OF d]) (auto simp: list_all_iff assms(3))
  also have "filter (\<lambda>d. key d = i) ?ds = sort_key key (map (\<lambda>(i, p). f i p) (filter (\<lambda>x. fst x = i) m))"
    by (simp add: filter_sort filter_map o_def case_prod_beta k)
  also have "filter (\<lambda>x. fst x = i) m = (case map_of m i of None \<Rightarrow> [] | Some p \<Rightarrow> [(i, p)])"
    using assms(1)
  proof (induction m)
    case (Cons x m)
    have "fst x = i \<Longrightarrow> map_of m i = None" using Cons.prems by (auto simp: map_of_eq_None_iff)
    with Cons show ?case by (cases x) (auto split: option.splits)
  qed simp
  finally show ?thesis by (cases "map_of m i") simp_all
qed

lemma snapshot_is_view: "ledger_wf l \<Longrightarrow> snapshot_view (attention_snapshot l) = ledger_view l"
proof -
  assume "ledger_wf l"
  then have "distinct (map fst (lg_panes l))" "distinct (map fst (lg_notifs l))"
    by (simp_all add: ledger_wf_def ledger_inv_def al_wf_def)
  note d = this
  have "apply_deltas pd_pane_id pd_gone (sd_panes (attention_snapshot l)) (\<lambda>_. None) i = pane_delta l i" for i
    unfolding attention_snapshot_def pane_delta_def state_delta.simps
    by (rule replay_sorted [OF d(1)]) simp_all
  moreover have "apply_deltas nd_notif_id nd_gone (sd_notifs (attention_snapshot l)) (\<lambda>_. None) i = notif_delta l i" for i
    unfolding attention_snapshot_def notif_delta_def state_delta.simps
    by (rule replay_sorted [OF d(2)]) (simp_all add: nd_gone_def)
  ultimately show ?thesis by (simp add: snapshot_view_def apply_view_def ledger_view_def fun_eq_iff)
qed

lemma snapshot_revision: "sd_revision (attention_snapshot l) = lg_revision l"
  by (simp add: attention_snapshot_def)

lemma update_first_in:
  assumes "c \<in> set (update_first (\<lambda>c. sc_id c = t) f cs)" and "distinct (map sc_id cs)" and "\<And>c. sc_id (f c) = sc_id c"
  shows "c \<in> set cs \<and> sc_id c \<noteq> t \<or> (\<exists>b. b \<in> set cs \<and> sc_id b = t \<and> c = f b)"
  using assms(1,2) by (induction cs) (auto simp: assms(3) split: if_splits, metis imageI)

lemma update_first_ids: "(\<And>c. sc_id (f c) = sc_id c) \<Longrightarrow> map sc_id (update_first P f cs) = map sc_id cs"
  by (induction cs) auto

lemma send_ids: "map sc_id (nf_clients (send_to_client target msg n)) = map sc_id (nf_clients n)"
  by (simp add: send_to_client_def update_first_ids)

lemma in_step_send:
  assumes "in_step J n" and "\<And>st. client_hears msg st = st \<and> K = J \<or>
    client_hears msg st = Some (lg_revision (nf_ledger n), ledger_view (nf_ledger n)) \<and> K = insert target J"
  shows "in_step K (send_to_client target msg n)"
proof -
  have "knows_now K (nf_ledger n) c" if c: "c \<in> set (nf_clients (send_to_client target msg n))" for c
  proof -
    have "distinct (map sc_id (nf_clients n))" using assms(1) by (simp add: in_step_def)
    with update_first_in [OF c [unfolded send_to_client_def, simplified]] consider
        (other) "c \<in> set (nf_clients n)" "sc_id c \<noteq> target"
      | (target) b where "b \<in> set (nf_clients n)" "sc_id b = target" "c = b\<lparr>sc_tx := snd (try_send msg (sc_tx b))\<rparr>" by auto
    then show ?thesis
    proof cases
      case other
      then have "knows_now J (nf_ledger n) c" using assms(1) by (auto simp: in_step_def list_all_iff)
      with other assms(2) show ?thesis by (auto simp: knows_now_def)
    next
      case target
      then have k: "knows_now J (nf_ledger n) b" using assms(1) by (auto simp: in_step_def list_all_iff)
      then have "ch_capacity (sc_tx b) = None" by (simp add: knows_now_def)
      with target(3) have c: "c = (if client_open b then push_msgs [msg] b else b)" by (simp only: send_open)
      show ?thesis using k assms(2) [of "client_knows b"] by (auto simp: c knows_now_def)
    qed
  qed
  then show ?thesis using assms(1) by (simp add: in_step_def list_all_iff send_ids)
qed

lemma in_step_send_quiet: "in_step J n \<Longrightarrow> quiet msg \<Longrightarrow> in_step J (send_to_client target msg n)"
  by (rule in_step_send) (auto simp: quiet_def)

lemma in_step_join: "in_step J n \<Longrightarrow> in_step (insert target J) (register_client target n)"
  unfolding register_client_def
  by (rule in_step_send [of J]) (simp_all add: client_hears_def snapshot_is_view in_step_def snapshot_revision)

subsection \<open>The operations\<close>

text \<open>An operation without a competitor: nothing happens between the ledger and the broadcast.\<close>

datatype note_op =
    BellOp bool bool instant nat string
  | DetectedOp bool bool bool instant instant nat string
  | OscOp bool bool instant nat string string "string option" string string
  | SweepOp nat
  | GoneOp string nat
  | ReadOp nat string mark_read_request
  | PostOp "nat \<Rightarrow> string" bool bool nat "string \<Rightarrow> bool" notify_request
  | SettingsOp notify_settings
  | JoinOp string

fun note_step :: "(payload \<Rightarrow> nat) \<Rightarrow> (string \<Rightarrow> bool) \<Rightarrow> note_op \<Rightarrow> 'f notifier \<Rightarrow> 'f notifier option" where
  "note_step hash is_uuid (BellOp free free2 at now pane) n = send_bell (\<lambda>n. n) free free2 at now pane n"
| "note_step hash is_uuid (DetectedOp free0 free free2 at0 at now pane) n =
     send_detected_bell hash (\<lambda>n. n) free0 free free2 at0 at now pane n"
| "note_step hash is_uuid (OscOp free free2 at now uuid pane title body ty) n =
     send_notify hash (\<lambda>n. n) free free2 at now uuid pane title body ty n"
| "note_step hash is_uuid (SweepOp now) n = sweep_attention (\<lambda>n. n) now n"
| "note_step hash is_uuid (GoneOp pane now) n = pane_gone (\<lambda>n. n) pane now n"
| "note_step hash is_uuid (ReadOp now cid req) n = apply_mark_read hash (\<lambda>n. n) now cid req n"
| "note_step hash is_uuid (PostOp uuid free free2 now live req) n =
     map_option snd (process_notify hash is_uuid uuid free free2 now live req n)"
| "note_step hash is_uuid (SettingsOp s) n = Some (set_settings s n)"
| "note_step hash is_uuid (JoinOp cid) n = Some (register_client cid n)"

fun note_run :: "(payload \<Rightarrow> nat) \<Rightarrow> (string \<Rightarrow> bool) \<Rightarrow> note_op list \<Rightarrow> 'f notifier \<Rightarrow> 'f notifier option" where
  "note_run hash is_uuid [] n = Some n"
| "note_run hash is_uuid (x # xs) n = Option.bind (note_step hash is_uuid x n) (note_run hash is_uuid xs)"

lemma in_step_wf: "in_step J n \<Longrightarrow> ledger_wf (nf_ledger n)"
  by (simp add: in_step_def)

lemma sound_step: "in_step J n \<Longrightarrow> ledger_step x (nf_ledger n) = Some (d, l) \<Longrightarrow> delta_sound (nf_ledger n) d l"
  by (rule ledger_step_sound [OF in_step_wf])

lemma bell_keeps:
  assumes "in_step J n" and "record_pane_event pane now Info now (nf_ledger n) = Some ((seq, d), l)"
  shows "in_step J (bell_messages free pane now seq d (n\<lparr>nf_ledger := l\<rparr>))"
proof -
  have "delta_sound (nf_ledger n) (Some d) l"
    by (rule sound_step [OF assms(1), of "RecordPane pane now Info now"]) (simp add: assms(2))
  from in_step_record [OF assms(1) this] show ?thesis
    by (simp add: bell_messages_def in_step_announce_quiet)
qed

lemma send_bell_keeps: "in_step J n \<Longrightarrow> send_bell (\<lambda>n. n) free free2 at now pane n = Some n' \<Longrightarrow> in_step J n'"
  by (auto simp: send_bell_def Let_def split: prod.splits if_splits bind_splits
      intro!: bell_keeps [where n = "n\<lparr>nf_bell := m\<rparr>" for n m, simplified])

lemma osc_debounce_keeps: "in_step J n \<Longrightarrow> in_step J (snd (check_osc_debounce k ms now n))"
  by (simp add: check_osc_debounce_def split: prod.split)

lemma note_keeps:
  assumes "in_step J n" and "record_notif_event uuid now sev now (nf_ledger n) = Some ((seq, d), l)"
  shows "in_step J (notify_messages free pane title body ty sev uuid now seq d (n\<lparr>nf_ledger := l\<rparr>))"
proof -
  have "delta_sound (nf_ledger n) (Some d) l"
    by (rule sound_step [OF assms(1), of "RecordNotif uuid now sev now"]) (simp add: assms(2))
  from in_step_record [OF assms(1) this] show ?thesis
    by (simp add: notify_messages_def in_step_announce_quiet)
qed

lemma send_notify_keeps:
  assumes "in_step J n" and "send_notify hash (\<lambda>n. n) free free2 at now uuid pane title body ty n = Some n'"
  shows "in_step J n'"
proof -
  let ?c = "check_osc_debounce (pane, hash (PNotice title body)) (nc_osc_notify_debounce_ms (current_config free n)) at n"
  note k = osc_debounce_keeps [OF assms(1), of "(pane, hash (PNotice title body))" "nc_osc_notify_debounce_ms (current_config free n)" at]
  from assms(2) k note_keeps [OF k] show ?thesis
    by (cases ?c) (auto simp: send_notify_def Let_def split: if_splits bind_splits)
qed

lemma send_detected_keeps:
  assumes "in_step J n" and "send_detected_bell hash (\<lambda>n. n) free0 free free2 at0 at now pane n = Some n'"
  shows "in_step J n'"
proof -
  let ?c = "check_osc_debounce (pane, hash PBell) (nc_osc_notify_debounce_ms (current_config free0 n)) at0 n"
  have k: "in_step J (snd ?c)" by (rule osc_debounce_keeps [OF assms(1)])
  from assms(2) k send_bell_keeps [OF k] show ?thesis
    by (cases ?c) (auto simp: send_detected_bell_def Let_def split: if_splits)
qed

lemma reserved_keeps:
  assumes "in_step J n" and "reserve c q h now (nf_ledger n) = Some (r, l)"
  shows "in_step J (n\<lparr>nf_ledger := l\<rparr>)"
proof -
  have "delta_sound (nf_ledger n) None l"
    by (rule sound_step [OF assms(1), of "Reserve c q h now"]) (simp add: assms(2))
  from in_step_delta [OF assms(1) this] show ?thesis by (simp add: announce_delta_def)
qed

lemma completed_keeps:
  assumes "in_step J n"
  shows "in_step J (n\<lparr>nf_ledger := snd (complete k g out now (nf_ledger n))\<rparr>)"
proof -
  have "delta_sound (nf_ledger n) None (snd (complete k g out now (nf_ledger n)))"
    by (rule sound_step [OF assms(1), of "Complete k g out now"]) simp
  from in_step_delta [OF assms(1) this] show ?thesis by (simp add: announce_delta_def)
qed

lemma delta_sound_complete:
  assumes "delta_sound l0 d l"
  shows "delta_sound l0 d (snd (complete k g out now l))"
  using assms complete_frame [of l k g out now] unfolding delta_sound_def by (cases d) auto

lemma read_keeps:
  assumes "in_step J n" and "apply_mark_read hash (\<lambda>n. n) now cid req n = Some n'"
  shows "in_step J n'"
proof -
  from assms(2) obtain r l1 where r: "reserve (mq_client req) (mq_request req) (hash (PMark req)) now (nf_ledger n) = Some (r, l1)"
    unfolding apply_mark_read_def by (auto split: bind_splits)
  let ?n1 = "n\<lparr>nf_ledger := l1\<rparr>"
  have n1: "in_step J ?n1" by (rule reserved_keeps [OF assms(1) r])
  have reply: "in_step J (send_to_client cid (MarkReadResult x) ?n1)" for x
    by (rule in_step_send_quiet [OF n1]) simp
  show ?thesis
  proof (cases r)
    case (Reserved g)
    with assms(2) r obtain d results applied l2 where
      m: "mark_read (mq_epoch req) (parsed_panes req) (mq_notifs req) now l1 = Some ((d, results, applied), l2)"
      and n': "\<exists>result. n' = send_to_client cid (MarkReadResult result) (announce_delta d (n\<lparr>nf_ledger :=
        snd (complete (mq_client req, mq_request req) g (OMarkRead result) now l2)\<rparr>))"
      by (auto simp: apply_mark_read_def Let_def split: bind_splits prod.splits)
    have d: "delta_sound l1 d l2"
      using sound_step [OF n1, of "MarkRead (mq_epoch req) (parsed_panes req) (mq_notifs req) now" d l2] m by simp
    have k: "in_step J (announce_delta d (n\<lparr>nf_ledger := snd (complete (mq_client req, mq_request req) g out now l2)\<rparr>))" for out
      using in_step_delta [OF n1, of d] delta_sound_complete [OF d] by simp
    from n' obtain result where "n' = send_to_client cid (MarkReadResult result) (announce_delta d (n\<lparr>nf_ledger :=
        snd (complete (mq_client req, mq_request req) g (OMarkRead result) now l2)\<rparr>))" by blast
    then show ?thesis by (simp add: in_step_send_quiet k)
  next
    case (Replay out)
    with assms(2) r reply show ?thesis by (cases out) (auto simp: apply_mark_read_def)
  qed (use assms(2) r reply n1 in \<open>auto simp: apply_mark_read_def\<close>)
qed

lemma produce_keeps:
  assumes "in_step J n" and "produce free live notif now sev pane req n = Some (out, hook, n')"
  shows "in_step J n'"
proof -
  have p: "in_step J (announce (StateDelta d) (n\<lparr>nf_ledger := l\<rparr>))"
    if "record_pane_event i now sev now (nf_ledger n) = Some ((seq, d), l)" for i seq d l
    using in_step_record [OF assms(1) sound_step [OF assms(1), of "RecordPane i now sev now"]] that by simp
  have q: "in_step J (announce (StateDelta d) (n\<lparr>nf_ledger := l\<rparr>))"
    if "record_notif_event i now sev now (nf_ledger n) = Some ((seq, d), l)" for i seq d l
    using in_step_record [OF assms(1) sound_step [OF assms(1), of "RecordNotif i now sev now"]] that by simp
  show ?thesis
    using assms
    by (auto simp: produce_def in_step_announce_quiet dest: p q
        split: ingest_gate_result.splits option.splits if_splits bind_splits)
qed

lemma post_keeps:
  assumes "in_step J n" and "process_notify hash is_uuid uuid free free2 now live req n = Some (r, n')"
  shows "in_step J n'"
proof (cases "check_notify is_uuid free uuid req n")
  case (Inl x)
  with assms show ?thesis by (simp add: process_notify_def)
next
  case (Inr y)
  obtain sev pane client request where y: "y = (sev, pane, client, request)" by (cases y)
  from assms(2) obtain res l1 where r: "reserve client request (hash (PProducer req)) now (nf_ledger n) = Some (res, l1)"
    unfolding process_notify_def Inr y by (auto split: bind_splits)
  have n1: "in_step J (n\<lparr>nf_ledger := l1\<rparr>)" by (rule reserved_keeps [OF assms(1) r])
  show ?thesis
  proof (cases res)
    case (Reserved g)
    with assms(2) r Inr y obtain out hook n2 where
      p: "produce free live (uuid 2) now sev pane req (n\<lparr>nf_ledger := l1\<rparr>) = Some (out, hook, n2)"
      and n': "n' = (let n3 = n2\<lparr>nf_ledger := snd (complete (client, request) g (OProducer out) now (nf_ledger n2))\<rparr> in
        case hook of None \<Rightarrow> n3 | Some p \<Rightarrow> run_hooks free2 (nr_type req) p (nr_title req) (nr_body req) n3)"
      by (auto simp: process_notify_def Let_def split: bind_splits)
    from completed_keeps [OF produce_keeps [OF n1 p]] show ?thesis by (simp add: n' Let_def split: option.split)
  next
    case (Replay out)
    with assms(2) r Inr y n1 show ?thesis by (cases out) (auto simp: process_notify_def)
  qed (use assms(2) r Inr y n1 in \<open>auto simp: process_notify_def\<close>)
qed

lemma sweep_keeps:
  assumes "in_step J n" and "sweep_attention (\<lambda>n. n) now n = Some n'"
  shows "in_step J n'"
  using assms in_step_delta [OF assms(1) sound_step [OF assms(1), of "SweepAt now"]]
  by (auto simp: sweep_attention_def)

lemma gone_keeps:
  assumes "in_step J n" and "pane_gone (\<lambda>n. n) pane now n = Some n'"
  shows "in_step J n'"
  using assms in_step_delta [OF assms(1) sound_step [OF assms(1), of "PaneClosed pane now"]]
  by (auto simp: pane_gone_def)

text \<open>Who joins during an operation.\<close>

fun joins :: "note_op \<Rightarrow> string set" where
  "joins (JoinOp cid) = {cid}"
| "joins _ = {}"

lemma note_step_keeps:
  assumes "in_step J n" and "note_step hash is_uuid x n = Some n'"
  shows "in_step (joins x \<union> J) n'"
  using assms
  by (cases x) (auto intro: send_bell_keeps send_detected_keeps send_notify_keeps sweep_keeps gone_keeps read_keeps
      post_keeps dest: in_step_join)

lemma note_run_keeps:
  "in_step J n \<Longrightarrow> note_run hash is_uuid xs n = Some n' \<Longrightarrow> in_step (\<Union> (joins ` set xs) \<union> J) n'"
proof (induction xs arbitrary: n J)
  case (Cons x xs)
  from Cons.prems(2) obtain n1 where s: "note_step hash is_uuid x n = Some n1" "note_run hash is_uuid xs n1 = Some n'"
    by (auto split: bind_splits)
  from Cons.IH [OF note_step_keeps [OF Cons.prems(1) s(1)] s(2)] show ?case by (simp add: Un_ac)
qed simp

text \<open>
  C5. Whoever joined knows the truth. Take connected clients that have heard nothing yet and any
  run of bells, OSC notifications, posts, read marks, sweeps, closed panes, settings changes and
  joins, one after the other. At its end every client that joined in the run and did not hang up,
  having applied its snapshot and every delta later than what it knew, has the revision and the
  view of the ledger, and the ledger is well-formed.
\<close>

theorem joined_clients_know_ledger:
  assumes "ledger_wf (nf_ledger n)" and "distinct (map sc_id (nf_clients n))"
    and "list_all (\<lambda>c. ch_capacity (sc_tx c) = None \<and> ch_sent (sc_tx c) = []) (nf_clients n)"
    and "note_run hash is_uuid xs n = Some n'"
  shows "ledger_wf (nf_ledger n') \<and>
    list_all (\<lambda>c. client_open c \<and> sc_id c \<in> \<Union> (joins ` set xs) \<longrightarrow>
      client_knows c = Some (lg_revision (nf_ledger n'), ledger_view (nf_ledger n'))) (nf_clients n')"
proof -
  have "in_step {} n" using assms(1-3) by (auto simp: in_step_def knows_now_def client_knows_def list_all_iff)
  from note_run_keeps [OF this assms(4)] have "in_step (\<Union> (joins ` set xs)) n'" by simp
  then show ?thesis by (auto simp: in_step_def knows_now_def list_all_iff)
qed

subsection \<open>Posts are counted once\<close>

lemma expire_keeps_reserved:
  assumes "expire_into now l ds = Some (l1, ds1)" and "al_wf (lg_dedup l)"
    and "map_of (lg_dedup l) k = Some e" and "de_state e = InFlight now g"
  shows "map_of (lg_dedup l1) k = Some e"
proof -
  have "dedup_live now e" using assms(4) by (simp add: dedup_live_def is_expired_def RESERVATION_TIMEOUT_def)
  moreover have "lg_dedup l1 = filter (\<lambda>(_, e). dedup_live now e) (lg_dedup l)"
    using assms(1) by (cases ds) (auto simp: expire_into_def expire_state_def sweep_dedup_def Let_def split: bind_splits)
  ultimately show ?thesis using assms(3) map_of_filter_kv [OF assms(2), of "\<lambda>_. dedup_live now" k] by simp
qed

lemma record_keeps_reserved:
  assumes wf: "ledger_wf l" and k: "map_of (lg_dedup l) k = Some e" "de_state e = InFlight now g"
  shows "record_pane_event i occ sev now l = Some (r, l') \<Longrightarrow> map_of (lg_dedup l') k = Some e"
    and "record_notif_event i occ sev now l = Some (r, l') \<Longrightarrow> map_of (lg_dedup l') k = Some e"
proof -
  have d: "al_wf (lg_dedup l)" using wf by (simp add: ledger_wf_def ledger_inv_def)
  note x = expire_keeps_reserved [OF _ d k]
  show "map_of (lg_dedup l') k = Some e" if "record_pane_event i occ sev now l = Some (r, l')"
    using that x by (auto simp: record_pane_event_def take_event_seq_def enforce_identity_caps_def bump_revision_def
        Let_def split: bind_splits prod.splits)
  show "map_of (lg_dedup l') k = Some e" if "record_notif_event i occ sev now l = Some (r, l')"
    using that x by (auto simp: record_notif_event_def take_event_seq_def enforce_identity_caps_def bump_revision_def
        Let_def split: bind_splits prod.splits)
qed

lemma produce_keeps_reserved:
  assumes "ledger_wf (nf_ledger n)" and "map_of (lg_dedup (nf_ledger n)) k = Some e" and "de_state e = InFlight now g"
    and "produce free live notif now sev pane req n = Some (out, hook, n')"
  shows "map_of (lg_dedup (nf_ledger n')) k = Some e"
  using assms(2,4) record_keeps_reserved [OF assms(1-3)]
  by (auto simp: produce_def split: ingest_gate_result.splits option.splits if_splits bind_splits)

lemma check_same:
  assumes "nr_client req = Some c" and "nr_request req = Some q" and "nr_category req \<noteq> Some ''idle_reminder''"
  shows "check_notify is_uuid free' uuid' req n' = check_notify is_uuid free uuid req n"
  using assms by (simp add: check_notify_def Let_def split: option.split)

lemma check_ids:
  assumes "nr_client req = Some c" and "nr_request req = Some q"
    and "check_notify is_uuid free uuid req n = Inr (sev, pane, cl, rq)"
  shows "cl = c \<and> rq = q"
  using assms by (auto simp: check_notify_def Let_def split: option.splits if_splits)

lemma run_hooks_ledger: "nf_ledger (case h of None \<Rightarrow> n | Some p \<Rightarrow> run_hooks free ty p title body n) = nf_ledger n"
  by (simp split: option.split)

text \<open>
  A post counts once. When a producer that names its request posts it for the first time and
  sends it again within the deduplication window, whatever happened to panes, settings' lock and
  the id generator in between, it gets the same answer again, and the second post changes nothing:
  no event, no message, no bus event, no hook.
\<close>

theorem retried_post_changes_nothing:
  assumes "ledger_wf (nf_ledger n)" and "nr_client req = Some c" and "nr_request req = Some q"
    and "nr_category req \<noteq> Some ''idle_reminder''" and "map_of (lg_dedup (nf_ledger n)) (c, q) = None"
    and "process_notify hash is_uuid uuid free free2 now live req n = Some (r, n1)" and "now2 - now < DEDUP_TTL"
  shows "process_notify hash is_uuid uuid' free' free2' now2 live' req n1 = Some (r, n1)"
proof (cases "check_notify is_uuid free uuid req n")
  case (Inl x)
  with assms(6) show ?thesis
    unfolding process_notify_def check_same [OF assms(2-4), of is_uuid free' uuid' n1 free uuid n] by simp
next
  case (Inr y)
  obtain sev pane client request where y: "y = (sev, pane, client, request)" by (cases y)
  from check_ids [OF assms(2,3)] Inr y have ids: "client = c" "request = q" by blast+
  from assms(6) obtain res l1 where r: "reserve c q (hash (PProducer req)) now (nf_ledger n) = Some (res, l1)"
    unfolding process_notify_def Inr y ids by (auto split: bind_splits)
  with assms(5) obtain g where g: "res = Reserved g"
    by (auto simp: reserve_def fresh_reservation_def split: bind_splits)
  from assms(6) r Inr y ids g obtain out hook n2 where
    p: "produce free live (uuid 2) now sev pane req (n\<lparr>nf_ledger := l1\<rparr>) = Some (out, hook, n2)"
    and r': "r = ProcOutcome out"
    and n1: "n1 = (let n3 = n2\<lparr>nf_ledger := snd (complete (c, q) g (OProducer out) now (nf_ledger n2))\<rparr> in
      case hook of None \<Rightarrow> n3 | Some p \<Rightarrow> run_hooks free2 (nr_type req) p (nr_title req) (nr_body req) n3)"
    by (auto simp: process_notify_def Let_def split: bind_splits)
  from reserved_entry [OF r [unfolded g]]
  have e: "map_of (lg_dedup l1) (c, q) = Some \<lparr>de_payload_hash = hash (PProducer req), de_state = InFlight now g\<rparr>" by blast
  have "map_of (lg_dedup (nf_ledger n2)) (c, q) = Some \<lparr>de_payload_hash = hash (PProducer req), de_state = InFlight now g\<rparr>"
    by (rule produce_keeps_reserved [OF _ _ _ p]) (use e reserve_frame [OF assms(1) r] in simp_all)
  from complete_in_flight [OF this] have "map_of (lg_dedup (nf_ledger n1)) (c, q) =
      Some \<lparr>de_payload_hash = hash (PProducer req), de_state = Done now (OProducer out)\<rparr>"
    by (simp add: n1 run_hooks_ledger Let_def map_of_al_put)
  then have "reserve c q (hash (PProducer req)) now2 (nf_ledger n1) = Some (Replay (OProducer out), nf_ledger n1)"
    using assms(7) by (simp add: reserve_def is_expired_def)
  with Inr y ids r' show ?thesis
    unfolding process_notify_def check_same [OF assms(2-4), of is_uuid free' uuid' n1 free uuid n] by simp
qed

end
