(* ===== verification/NotifyRaces.thy ===== *)
theory NotifyRaces
  imports NotifyProps
begin

section \<open>Debouncing and overtaking\<close>

text \<open>
  The debounce maps against a reference that remembers every event; the race between two
  broadcasts; and the concrete runs of the properties of the notifications.
\<close>

subsection \<open>Debouncing\<close>

fun debounce_run :: "nat \<Rightarrow> ('k \<times> instant) list \<Rightarrow> ('k, instant) amap \<Rightarrow> bool list" where
  "debounce_run ms [] m = []"
| "debounce_run ms ((k, t) # es) m = fst (debounced ms k t m) # debounce_run ms es (snd (debounced ms k t m))"

text \<open>The reference: an event is suppressed if one of its key went through less than \<open>ms\<close> ago.\<close>

definition too_soon :: "nat \<Rightarrow> 'k \<Rightarrow> instant \<Rightarrow> ('k \<times> instant) list \<Rightarrow> bool" where
  "too_soon ms k t past \<longleftrightarrow> list_ex (\<lambda>(k', t'). k' = k \<and> as_millis (duration_since t t') < ms) past"

fun debounce_spec :: "nat \<Rightarrow> ('k \<times> instant) list \<Rightarrow> ('k \<times> instant) list \<Rightarrow> bool list" where
  "debounce_spec ms [] past = []"
| "debounce_spec ms ((k, t) # es) past =
     too_soon ms k t past # debounce_spec ms es (if too_soon ms k t past then past else (k, t) # past)"

text \<open>The map holds the last event of each key that went through, unless it is a minute old.\<close>

definition covered :: "nat \<Rightarrow> instant \<Rightarrow> instant option \<Rightarrow> instant \<Rightarrow> bool" where
  "covered ms now l t \<longleftrightarrow> t \<le> now \<and> (case l of None \<Rightarrow> ms \<le> as_millis (duration_since now t) | Some t' \<Rightarrow> t \<le> t')"

definition remembers :: "nat \<Rightarrow> instant \<Rightarrow> ('k \<times> instant) list \<Rightarrow> ('k, instant) amap \<Rightarrow> bool" where
  "remembers ms now past m \<longleftrightarrow> al_wf m \<and> (\<forall>k t. map_of m k = Some t \<longrightarrow> (k, t) \<in> set past) \<and>
     (\<forall>k t. (k, t) \<in> set past \<longrightarrow> covered ms now (map_of m k) t)"

lemma as_millis_mono: "a \<le> b \<Longrightarrow> as_millis a \<le> as_millis b"
  by (simp add: as_millis_def div_le_mono)

lemma minute_millis: "\<not> as_secs d < 60 \<Longrightarrow> 60000 \<le> as_millis d"
proof -
  assume "\<not> as_secs d < 60"
  then have "60 * 1000 \<le> d div 1000000000 * 1000" by (simp add: as_secs_def NANOS_def)
  also have "\<dots> \<le> d div 1000000" by linarith
  finally show ?thesis by (simp add: as_millis_def NANOS_def)
qed

lemma remembers_covered: "remembers ms now past m \<Longrightarrow> (k, t) \<in> set past \<Longrightarrow> covered ms now (map_of m k) t"
  by (simp add: remembers_def)

lemma covered_later:
  assumes "covered ms now l t'" and "now \<le> t"
  shows "covered ms t l t'"
proof -
  have "as_millis (duration_since now t') \<le> as_millis (duration_since t t')"
    by (rule as_millis_mono) (simp add: duration_since_def diff_le_mono assms(2))
  with assms show ?thesis by (auto simp: covered_def split: option.splits)
qed

lemma remembers_later: "remembers ms now past m \<Longrightarrow> now \<le> t \<Longrightarrow> remembers ms t past m"
  unfolding remembers_def by (blast intro: covered_later)

lemma covered_millis: "covered ms t (Some l) t' \<Longrightarrow> as_millis (duration_since t l) \<le> as_millis (duration_since t t')"
  by (rule as_millis_mono) (simp add: covered_def duration_since_def diff_le_mono2)

lemma recent_is_too_soon:
  assumes "remembers ms t past m"
  shows "recent ms k t m = too_soon ms k t past"
proof (cases "map_of m k")
  case None
  then have "ms \<le> as_millis (duration_since t t')" if "(k, t') \<in> set past" for t'
    using remembers_covered [OF assms that] by (simp add: covered_def)
  with None show ?thesis by (fastforce simp: recent_def too_soon_def list_ex_iff)
next
  case (Some l)
  with assms have l: "(k, l) \<in> set past" by (simp add: remembers_def)
  have "as_millis (duration_since t l) \<le> as_millis (duration_since t t')" if "(k, t') \<in> set past" for t'
    by (rule covered_millis [of ms]) (use remembers_covered [OF assms that] Some in simp)
  with Some l show ?thesis by (fastforce simp: recent_def too_soon_def list_ex_iff)
qed

lemma covered_kept:
  assumes "covered ms t l t'" and "ms \<le> 60000"
  shows "covered ms t (case l of None \<Rightarrow> None | Some l \<Rightarrow> if as_secs (duration_since t l) < 60 then Some l else None) t'"
proof (cases l)
  case (Some l')
  with assms covered_millis [of ms t l' t'] minute_millis [of "duration_since t l'"] show ?thesis
    by (auto simp: covered_def)
qed (use assms in simp)

lemma remembers_kept:
  assumes "remembers ms t past m" and "ms \<le> 60000"
  shows "remembers ms t past (filter (\<lambda>(_, t'). as_secs (duration_since t t') < 60) m)"
proof -
  let ?m = "filter (\<lambda>(_, t'). as_secs (duration_since t t') < 60) m"
  have wf: "al_wf m" using assms(1) by (simp add: remembers_def)
  have m: "map_of ?m k = (case map_of m k of None \<Rightarrow> None | Some l \<Rightarrow> if as_secs (duration_since t l) < 60 then Some l else None)" for k
    using map_of_filter_kv [OF wf, of "\<lambda>_ l. as_secs (duration_since t l) < 60" k] by simp
  have "al_wf ?m" using wf by (simp add: al_wf_def distinct_map_filter)
  moreover have "(k, t') \<in> set past" if "map_of ?m k = Some t'" for k t'
    using that assms(1) by (auto simp: m remembers_def split: option.splits if_splits)
  moreover have "covered ms t (map_of ?m k) t'" if "(k, t') \<in> set past" for k t'
    unfolding m by (rule covered_kept [OF _ assms(2)]) (use that assms(1) in \<open>simp add: remembers_def\<close>)
  ultimately show ?thesis unfolding remembers_def by blast
qed

lemma remembers_put:
  assumes "remembers ms t past m"
  shows "remembers ms t ((k, t) # past) (al_put k t m)"
  using assms by (auto simp: remembers_def map_of_al_put al_wf_put covered_def)

lemma debounce_agrees:
  assumes "ms \<le> 60000"
  shows "remembers ms now past m \<Longrightarrow> sorted (now # map snd es) \<Longrightarrow> debounce_run ms es m = debounce_spec ms es past"
proof (induction es arbitrary: now past m)
  case (Cons e es)
  obtain k t where e: "e = (k, t)" by (cases e)
  have r: "remembers ms t past m" by (rule remembers_later [OF Cons.prems(1)]) (use Cons.prems(2) e in simp)
  let ?m = "filter (\<lambda>(_, t'). as_secs (duration_since t t') < 60) m"
  have kept: "remembers ms t past ?m" by (rule remembers_kept [OF r assms])
  have d: "debounced ms k t m = (too_soon ms k t past, if too_soon ms k t past then ?m else al_put k t ?m)"
    by (simp add: debounced_def Let_def recent_is_too_soon [OF r])
  have s: "sorted (t # map snd es)" using Cons.prems(2) e by simp
  show ?case
    using Cons.IH [OF kept s] Cons.IH [OF remembers_put [OF kept] s] by (simp add: e d)
qed simp

text \<open>
  The debounce maps, which forget what is a minute old, decide as if they remembered every
  event: for windows up to a minute and times that do not run backwards, an event is suppressed
  exactly if one of the same key went through less than the window ago.
\<close>

theorem debounce_remembers_enough:
  assumes "ms \<le> 60000" and "sorted (map snd es)"
  shows "debounce_run ms es [] = debounce_spec ms es []"
proof (cases es)
  case (Cons e es')
  have "remembers ms 0 [] ([] :: ('a, instant) amap)" by (simp add: remembers_def al_wf_def)
  moreover have "sorted (0 # map snd es)" using assms(2) by simp
  ultimately show ?thesis by (rule debounce_agrees [OF assms(1)])
qed simp

text \<open>A longer window ends early: an event of another key makes the map forget.\<close>

lemma long_window_cut:
  "debounce_run 120000 [(''a'', 0), (''b'', 61 * NANOS), (''a'', 62 * NANOS)] [] = [False, False, False]"
  "debounce_spec 120000 [(''a'', 0), (''b'', 61 * NANOS), (''a'', 62 * NANOS)] [] = [False, False, True]"
  by (simp_all add: debounced_def recent_def too_soon_def as_millis_def as_secs_def duration_since_def NANOS_def Let_def)

subsection \<open>Overtaking\<close>

definition demo_notifier :: "unit notifier" where
  "demo_notifier = new_notifier ''e'' [\<lparr>sc_id = ''c'', sc_tx = \<lparr>ch_sent = [], ch_taken = 0, ch_closed = False, ch_capacity = None\<rparr>\<rparr>]"

text \<open>The second bell rings while the first one has left the ledger and not yet gone out.\<close>

definition overtaken :: "unit notifier" where
  "overtaken = the (send_bell (\<lambda>n. the (send_bell (\<lambda>n. n) True True 0 1000 ''b'' n)) True True 0 1000 ''a''
     (register_client ''c'' demo_notifier))"

lemma overtaken_eval:
  "\<exists>c. nf_clients overtaken = [c] \<and> client_open c \<and> lg_revision (nf_ledger overtaken) = 2 \<and>
     (\<exists>v. client_knows c = Some (2, v) \<and> fst v ''a'' = None \<and> fst v ''b'' \<noteq> None) \<and>
     fst (ledger_view (nf_ledger overtaken)) ''a'' \<noteq> None"
  unfolding overtaken_def demo_notifier_def new_notifier_def register_client_def send_to_client_def attention_snapshot_def
  by (simp add: send_bell_def current_config_def default_config_def debounced_def recent_def evaluate_ingest_gate_def
      bell_messages_def run_hooks_def publish_note_def announce_def send_sync_def try_send_def chan_full_def all_some_def
      client_open_def client_knows_def client_hears_def snapshot_view_def apply_view_def apply_deltas_def apply_delta_def
      apply_state_delta_def ledger_view_def pd_gone_def ledger_eval)

text \<open>
  A delta that is overtaken is lost. The ledger's lock is released before the broadcast, so of
  two bells the one recorded later can reach a client first; the client then ignores the earlier
  delta as old. It ends at the ledger's own revision, up to date as far as it can tell, and
  without the unread mark of the first pane.
\<close>

theorem overtaken_bell_is_lost:
  "\<exists>c v. nf_clients overtaken = [c] \<and> client_open c \<and> client_knows c = Some (lg_revision (nf_ledger overtaken), v) \<and>
     fst v ''a'' = None \<and> fst (ledger_view (nf_ledger overtaken)) ''a'' \<noteq> None"
  using overtaken_eval by auto

subsection \<open>Concrete runs\<close>

lemma debounce_remembers_enough_witness:
  "debounce_run 300 [(''a'', 0), (''a'', NANOS div 10), (''b'', NANOS div 5), (''a'', NANOS)] [] = [False, True, False, False]"
proof -
  have "debounce_run 300 [(''a'', 0), (''a'', NANOS div 10), (''b'', NANOS div 5), (''a'', NANOS)] [] =
      debounce_spec 300 [(''a'', 0), (''a'', NANOS div 10), (''b'', NANOS div 5), (''a'', NANOS)] []"
    by (rule debounce_remembers_enough) (simp_all add: NANOS_def)
  then show ?thesis by (simp add: too_soon_def as_millis_def duration_since_def NANOS_def)
qed

lemma demo_wf: "ledger_wf (nf_ledger demo_notifier)" "map_of (lg_dedup (nf_ledger demo_notifier)) k = None"
  by (simp_all add: demo_notifier_def new_notifier_def with_epoch_wf) (simp add: with_epoch_def)

lemma joined_clients_know_ledger_witness:
  "\<exists>n' c. note_run (\<lambda>_. 0) (\<lambda>_. True) [JoinOp ''c'', BellOp True True 0 1000 ''a''] demo_notifier = Some n' \<and>
     nf_clients n' = [c] \<and> client_knows c = Some (lg_revision (nf_ledger n'), ledger_view (nf_ledger n')) \<and>
     fst (ledger_view (nf_ledger n')) ''a'' \<noteq> None"
proof -
  let ?run = "note_run (\<lambda>_. 0) (\<lambda>_. True) [JoinOp ''c'', BellOp True True 0 1000 ''a''] demo_notifier"
  obtain n' c where r: "?run = Some n'" and c: "nf_clients n' = [c]" "client_open c" "sc_id c = ''c''"
    and a: "fst (ledger_view (nf_ledger n')) ''a'' \<noteq> None"
    unfolding demo_notifier_def new_notifier_def register_client_def
    by (simp add: register_client_def send_to_client_def attention_snapshot_def send_bell_def current_config_def
        default_config_def debounced_def recent_def evaluate_ingest_gate_def
        bell_messages_def run_hooks_def publish_note_def announce_def send_sync_def try_send_def chan_full_def all_some_def
        client_open_def ledger_view_def ledger_eval)
  have "list_all (\<lambda>c. client_open c \<and> sc_id c \<in> \<Union> (joins ` set [JoinOp ''c'', BellOp True True 0 1000 ''a'']) \<longrightarrow>
      client_knows c = Some (lg_revision (nf_ledger n'), ledger_view (nf_ledger n'))) (nf_clients n')"
    by (rule conjunct2 [OF joined_clients_know_ledger [OF demo_wf(1) _ _ r]]) (simp_all add: demo_notifier_def new_notifier_def)
  with r c a show ?thesis by auto
qed

definition demo_post :: notify_request where
  "demo_post = \<lparr>nr_client = Some ''k'', nr_request = Some ''1'', nr_source = Some ''plugin'', nr_category = None,
     nr_pane = None, nr_title = None, nr_body = ''done'', nr_type = ''success''\<rparr>"

lemma retried_post_changes_nothing_witness:
  "\<exists>r n1. process_notify (\<lambda>_. 7) (\<lambda>_. True) (\<lambda>i. replicate i CHR ''u'') True True 1000 (\<lambda>_. True) demo_post demo_notifier = Some (r, n1) \<and>
     nf_bus n1 \<noteq> [] \<and>
     process_notify (\<lambda>_. 7) (\<lambda>_. True) (\<lambda>_. ''v'') False True 5000 (\<lambda>_. False) demo_post n1 = Some (r, n1)"
proof -
  obtain r n1 where r: "process_notify (\<lambda>_. 7) (\<lambda>_. True) (\<lambda>i. replicate i CHR ''u'') True True 1000 (\<lambda>_. True) demo_post demo_notifier = Some (r, n1)"
    and b: "nf_bus n1 \<noteq> []"
    unfolding demo_notifier_def new_notifier_def
    by (simp add: process_notify_def check_notify_def demo_post_def severity_from_type_def current_config_def default_config_def
        reserve_def fresh_reservation_def take_dedup_generation_def produce_def evaluate_ingest_gate_def
        complete_def run_hooks_def publish_note_def announce_def send_sync_def try_send_def chan_full_def all_some_def ledger_eval
        RESERVATION_TIMEOUT_def)
  have "process_notify (\<lambda>_. 7) (\<lambda>_. True) (\<lambda>_. ''v'') False True 5000 (\<lambda>_. False) demo_post n1 = Some (r, n1)"
    by (rule retried_post_changes_nothing [OF demo_wf(1) _ _ _ demo_wf(2) r]) (simp_all add: demo_post_def DEDUP_TTL_def)
  with r b show ?thesis by blast
qed

end
