(* ===== verification/ProxyUrl.thy ===== *)
theory ProxyUrl
  imports AuthAddr
begin

section \<open>The proxy's rewriting of links\<close>

text \<open>
  \<open>proxy/rewrite.rs\<close>: what becomes of URLs in HTML attributes, style sheets, scripts, form bodies and
  cookies of a page shown through the proxy. The URL parser and percent-encoding are parameters
  (\<open>url_lib\<close>). The regular expressions are written out as matchers at a position of the text, driven by
  \<open>replace_all\<close>; walking the HTML is the rewriter library's, the handlers of one element are here.
\<close>

subsection \<open>Text\<close>

fun contains :: "rstring \<Rightarrow> rstring \<Rightarrow> bool" where
  "contains p [] \<longleftrightarrow> p = []"
| "contains p (c # s) \<longleftrightarrow> starts_with (c # s) p \<or> contains p s"

definition join_with :: "rstring \<Rightarrow> rstring list \<Rightarrow> rstring" where
  "join_with sep ps = concat (case ps of [] \<Rightarrow> [] | p # ps \<Rightarrow> p # map (\<lambda>q. sep @ q) ps)"

definition trim_start :: "rstring \<Rightarrow> rstring" where
  "trim_start = dropWhile is_whitespace"

text \<open>
  \<open>replace_all\<close> of the regex crate for a matcher that gives, at a position, the replacement and the text
  after the match; a match is never empty.
\<close>

fun replace_all :: "(rstring \<Rightarrow> (rstring \<times> rstring) option) \<Rightarrow> rstring \<Rightarrow> rstring" where
  "replace_all m [] = []"
| "replace_all m (c # s) =
     (case m (c # s) of
        Some (r, rest) \<Rightarrow> if length rest \<le> length s then r @ replace_all m rest else c # replace_all m s
      | None \<Rightarrow> c # replace_all m s)"

fun find_match :: "(rstring \<Rightarrow> ('a \<times> rstring) option) \<Rightarrow> rstring \<Rightarrow> (rstring \<times> 'a \<times> rstring) option" where
  "find_match m [] = None"
| "find_match m (c # s) =
     (case m (c # s) of
        Some (x, rest) \<Rightarrow> Some ([], x, rest)
      | None \<Rightarrow> map_option (\<lambda>(before, r). (c # before, r)) (find_match m s))"

text \<open>Case folding of the regex crate: besides ASCII, the long s and the Kelvin sign.\<close>

definition fold_case :: "rchar \<Rightarrow> rchar" where
  "fold_case c = (if c = 0x17F then 115 else if c = 0x212A then 107 else to_ascii_lower c)"

fun strip_prefix_ci :: "rstring \<Rightarrow> rstring \<Rightarrow> rstring option" where
  "strip_prefix_ci [] s = Some s"
| "strip_prefix_ci (p # ps) [] = None"
| "strip_prefix_ci (p # ps) (x # s) = (if fold_case x = p then strip_prefix_ci ps s else None)"

subsection \<open>URLs\<close>

record url =
  ur_text :: rstring
  ur_scheme :: rstring
  ur_host :: "rstring option"
  ur_port :: "nat option"
  ur_path :: rstring
  ur_query :: "rstring option"
  ur_fragment :: "rstring option"
  ur_user :: rstring
  ur_password :: "rstring option"
  ur_origin :: rstring

record url_lib =
  ul_parse :: "rstring \<Rightarrow> url option"
  ul_join :: "url \<Rightarrow> rstring \<Rightarrow> url option"
  ul_encode :: "rstring \<Rightarrow> rstring"
  ul_decode :: "rstring \<Rightarrow> rstring option"

datatype rewrite_mode = External rstring | Internal rstring nat

definition LOCALHOST :: rstring where
  "LOCALHOST = lit ''127.0.0.1''"

text \<open>The path under which the proxy shows a server.\<close>

definition preview_prefix :: "rstring \<Rightarrow> nat \<Rightarrow> rstring" where
  "preview_prefix host port =
     (if host = LOCALHOST then lit ''/preview/'' @ dec port else lit ''/preview/'' @ host @ [47] @ dec port)"

definition left_alone :: "rstring \<Rightarrow> bool" where
  "left_alone u \<longleftrightarrow> u = [] \<or> starts_with u (lit ''#'') \<or> starts_with u (lit ''data:'') \<or> starts_with u (lit ''blob:'') \<or>
     starts_with u (lit ''javascript:'') \<or> starts_with u (lit ''mailto:'') \<or>
     contains (lit ''/api/proxy'') u \<or> contains (lit ''/preview/'') u"

definition absolute_url :: "url_lib \<Rightarrow> rstring \<Rightarrow> rstring \<Rightarrow> rstring option" where
  "absolute_url lib base u =
     (if starts_with u (lit ''http://'') \<or> starts_with u (lit ''https://'') \<or>
         starts_with u (lit ''HTTP://'') \<or> starts_with u (lit ''HTTPS://'') then Some u
      else if starts_with u (lit ''//'') then Some (lit ''https:'' @ u)
      else case ul_parse lib base of
             None \<Rightarrow> None
           | Some b \<Rightarrow> map_option ur_text (ul_join lib b u))"

definition rewrite_url :: "url_lib \<Rightarrow> rstring \<Rightarrow> rstring \<Rightarrow> rewrite_mode \<Rightarrow> rstring option" where
  "rewrite_url lib raw base mode =
     (let u = trim raw in
      if left_alone u then None
      else case absolute_url lib base u of
        None \<Rightarrow> None
      | Some a \<Rightarrow>
          (case mode of
             External _ \<Rightarrow> Some (lit ''/api/proxy?url='' @ ul_encode lib a)
           | Internal host port \<Rightarrow>
               (case ul_parse lib a of
                  None \<Rightarrow> None
                | Some p \<Rightarrow>
                    let h = (case ur_host p of Some h \<Rightarrow> h | None \<Rightarrow> []) in
                    if h = LOCALHOST \<or> h = lit ''localhost'' \<or> h = lit ''0.0.0.0'' \<or> h = host then
                      Some (preview_prefix (if h = host then host else LOCALHOST) (case ur_port p of Some q \<Rightarrow> q | None \<Rightarrow> port) @
                        ur_path p @ (case ur_query p of Some q \<Rightarrow> lit ''?'' @ q | None \<Rightarrow> []))
                    else None)))"

subsection \<open>Style sheets and scripts\<close>

definition is_quote :: "rchar \<Rightarrow> bool" where
  "is_quote c \<longleftrightarrow> c = 34 \<or> c = 39"

definition take_quote :: "rstring \<Rightarrow> rstring \<times> rstring" where
  "take_quote s = (case s of [] \<Rightarrow> ([], []) | c # t \<Rightarrow> if is_quote c then ([c], t) else ([], s))"

text \<open>
  \<open>url\(\s*(['"]?)([^)'"]+)['"]?\s*\)\<close>: the quote, the URL and the text after the match. Where only white
  space stands in the parentheses the expression matches too, and is replaced by itself.
\<close>

definition css_match :: "rstring \<Rightarrow> (rstring \<times> rstring \<times> rstring) option" where
  "css_match s =
     (case strip_prefix_ci (lit ''url('') s of
        None \<Rightarrow> None
      | Some t \<Rightarrow>
          let (q, t1) = take_quote (trim_start t);
              run = takeWhile (\<lambda>c. c \<noteq> 41 \<and> \<not> is_quote c) t1;
              t2 = trim_start (snd (take_quote (drop (length run) t1))) in
          if run = [] then None
          else (case t2 of [] \<Rightarrow> None | c # rest \<Rightarrow> if c = 41 then Some (q, run, rest) else None))"

definition rewrite_css_urls :: "url_lib \<Rightarrow> rstring \<Rightarrow> rstring \<Rightarrow> rewrite_mode \<Rightarrow> rstring" where
  "rewrite_css_urls lib css base mode =
     replace_all (\<lambda>s. case css_match s of
        None \<Rightarrow> None
      | Some (q, u, rest) \<Rightarrow>
          (case rewrite_url lib u base mode of
             Some r \<Rightarrow> Some (lit ''url('' @ q @ r @ q @ lit '')'', rest)
           | None \<Rightarrow> Some (take (length s - length rest) s, rest))) css"

text \<open>\<open>((?:from|import)\s*\(?)(["'])/([^/"'])\<close>: what stands before the slash, and the text after it.\<close>

definition js_match :: "rstring \<Rightarrow> (rstring \<times> rstring) option" where
  "js_match s =
     (case (case strip_prefix (lit ''from'') s of Some t \<Rightarrow> Some t | None \<Rightarrow> strip_prefix (lit ''import'') s) of
        None \<Rightarrow> None
      | Some t \<Rightarrow>
          let t1 = trim_start t;
              t2 = (case strip_prefix (lit ''('') t1 of Some r \<Rightarrow> r | None \<Rightarrow> t1) in
          (case t2 of
             q # sl # c # rest \<Rightarrow>
               if is_quote q \<and> sl = 47 \<and> c \<noteq> 47 \<and> \<not> is_quote c
               then Some (take (length s - length t2) s @ [q], c # rest) else None
           | _ \<Rightarrow> None))"

definition rewrite_js_imports :: "rstring \<Rightarrow> rewrite_mode \<Rightarrow> rstring" where
  "rewrite_js_imports js mode =
     (case mode of
        External _ \<Rightarrow> js
      | Internal host port \<Rightarrow>
          replace_all (\<lambda>s. case js_match s of
             None \<Rightarrow> None
           | Some (before, rest) \<Rightarrow> Some (before @ preview_prefix host port @ [47] @ take 1 rest, tl rest)) js)"

subsection \<open>Elements\<close>

text \<open>The attributes of an element, by name in lower case; a handler changes those that are there.\<close>

type_synonym attrs = "(string, rstring) amap"

definition URL_ATTRS :: "string list" where
  "URL_ATTRS = [''href'', ''src'', ''action'', ''poster'', ''data'']"

definition rewrite_attr :: "url_lib \<Rightarrow> rstring \<Rightarrow> rewrite_mode \<Rightarrow> string \<Rightarrow> attrs \<Rightarrow> attrs" where
  "rewrite_attr lib base mode name el =
     (case map_of el name of
        None \<Rightarrow> el
      | Some v \<Rightarrow> (case rewrite_url lib v base mode of Some r \<Rightarrow> al_put name r el | None \<Rightarrow> el))"

text \<open>One entry of a \<open>srcset\<close>: its URL, and what stands after the first white space.\<close>

definition srcset_entry :: "url_lib \<Rightarrow> rstring \<Rightarrow> rewrite_mode \<Rightarrow> rstring \<Rightarrow> rstring" where
  "srcset_entry lib base mode entry =
     (let t = trim entry;
          u = takeWhile (\<lambda>c. \<not> is_whitespace c) t;
          d = tl (drop (length u) t) in
      case rewrite_url lib u base mode of
        Some r \<Rightarrow> if d = [] then r else r @ [32] @ d
      | None \<Rightarrow> t)"

definition attr_handler :: "url_lib \<Rightarrow> rstring \<Rightarrow> rewrite_mode \<Rightarrow> attrs \<Rightarrow> attrs" where
  "attr_handler lib base mode el =
     (let el1 = fold (rewrite_attr lib base mode) URL_ATTRS el in
      case map_of el1 ''srcset'' of
        None \<Rightarrow> el1
      | Some v \<Rightarrow> al_put ''srcset'' (join_with (lit '', '') (map (srcset_entry lib base mode) (split_on 44 v))) el1)"

definition style_handler :: "url_lib \<Rightarrow> rstring \<Rightarrow> rewrite_mode \<Rightarrow> attrs \<Rightarrow> attrs" where
  "style_handler lib base mode el =
     (case map_of el ''style'' of
        None \<Rightarrow> el
      | Some v \<Rightarrow> let r = rewrite_css_urls lib v base mode in if r \<noteq> v then al_put ''style'' r el else el)"

subsection \<open>Form bodies\<close>

definition form_pair :: "url_lib \<Rightarrow> rstring \<Rightarrow> rewrite_mode \<Rightarrow> rstring \<Rightarrow> rstring option" where
  "form_pair lib base mode pair =
     (case split_once 61 pair of
        None \<Rightarrow> None
      | Some (key, val) \<Rightarrow>
          let d = (case ul_decode lib val of Some d \<Rightarrow> d | None \<Rightarrow> val) in
          if starts_with d (lit ''http://'') \<or> starts_with d (lit ''https://'')
          then map_option (\<lambda>r. key @ [61] @ ul_encode lib r) (rewrite_url lib d base mode) else None)"

text \<open>\<open>rewrite_form_urlencoded_body\<close> of a body that is UTF-8.\<close>

definition rewrite_form_body :: "url_lib \<Rightarrow> rstring \<Rightarrow> rstring \<Rightarrow> rewrite_mode \<Rightarrow> rstring option" where
  "rewrite_form_body lib body base mode =
     (let pairs = split_on 38 body in
      if list_ex (\<lambda>p. form_pair lib base mode p \<noteq> None) pairs
      then Some (join_with [38] (map (\<lambda>p. case form_pair lib base mode p of Some r \<Rightarrow> r | None \<Rightarrow> p) pairs))
      else None)"

subsection \<open>Cookies\<close>

text \<open>\<open>;\s*name=[^;]*\<close> at a position: the value and the text after it; and \<open>;\s*secure\<close>.\<close>

definition cookie_attr :: "string \<Rightarrow> rstring \<Rightarrow> (rstring \<times> rstring) option" where
  "cookie_attr name s =
     (case s of
        [] \<Rightarrow> None
      | c # t \<Rightarrow>
          if c \<noteq> 59 then None
          else map_option (\<lambda>r. (takeWhile (\<lambda>c. c \<noteq> 59) r, dropWhile (\<lambda>c. c \<noteq> 59) r))
            (strip_prefix_ci (lit (name @ ''='')) (trim_start t)))"

definition secure_attr :: "rstring \<Rightarrow> (rstring \<times> rstring) option" where
  "secure_attr s =
     (case s of
        [] \<Rightarrow> None
      | c # t \<Rightarrow> if c \<noteq> 59 then None else map_option (\<lambda>r. ([], r)) (strip_prefix_ci (lit ''secure'') (trim_start t)))"

definition drop_attr :: "string \<Rightarrow> rstring \<Rightarrow> rstring" where
  "drop_attr name = replace_all (\<lambda>s. map_option (\<lambda>(_, rest). ([], rest)) (cookie_attr name s))"

text \<open>
  The replacement text of \<open>Regex::replace\<close> is a template: \<open>$name\<close> and \<open>${name}\<close> stand for groups (here 0,
  the match, and 1, the path), \<open>$$\<close> for a dollar sign.
\<close>

definition group_char :: "rchar \<Rightarrow> bool" where
  "group_char c \<longleftrightarrow> c = 95 \<or> (48 \<le> c \<and> c \<le> 57) \<or> (65 \<le> c \<and> c \<le> 90) \<or> (97 \<le> c \<and> c \<le> 122)"

definition group_text :: "rstring \<Rightarrow> rstring \<Rightarrow> rstring \<Rightarrow> rstring" where
  "group_text whole path name =
     (case parse_digits name of Some n \<Rightarrow> if n = 0 then whole else if n = 1 then path else [] | None \<Rightarrow> [])"

function (sequential) expand :: "rstring \<Rightarrow> rstring \<Rightarrow> rstring \<Rightarrow> rstring" where
  "expand whole path [] = []"
| "expand whole path (c # s) =
     (if c \<noteq> 36 then c # expand whole path s
      else case s of
        [] \<Rightarrow> [36]
      | d # t \<Rightarrow>
          if d = 36 then 36 # expand whole path t
          else if d = 123 then
            (if 125 \<in> set t
             then group_text whole path (takeWhile (\<lambda>c. c \<noteq> 125) t) @ expand whole path (tl (dropWhile (\<lambda>c. c \<noteq> 125) t))
             else 36 # expand whole path s)
          else if group_char d then group_text whole path (takeWhile group_char s) @ expand whole path (dropWhile group_char s)
          else 36 # expand whole path s)"
  by pat_completeness auto
termination
  by (relation "measure (\<lambda>(_, _, s). length s)")
    (auto simp: less_Suc_eq_le intro: le_trans [OF diff_le_self] le_trans [OF length_dropWhile_le] le_SucI)

definition rewrite_set_cookie :: "rstring \<Rightarrow> rewrite_mode option \<Rightarrow> rstring" where
  "rewrite_set_cookie cookie mode =
     (let r = drop_attr ''samesite'' (replace_all secure_attr (drop_attr ''domain'' cookie)) in
      case mode of
        None \<Rightarrow> r
      | Some m \<Rightarrow>
          let prefix = (case m of Internal host port \<Rightarrow> preview_prefix host port | External _ \<Rightarrow> lit ''/api/proxy'') in
          (case find_match (cookie_attr ''path'') r of
             None \<Rightarrow> r @ lit ''; Path='' @ prefix @ [47]
           | Some (before, path, rest) \<Rightarrow>
               let whole = take (length r - length before - length rest) (drop (length before) r) in
               before @ expand whole path (lit ''; Path='' @ prefix @ path) @ rest))"

end
