(* ===== verification/Proxy.thy ===== *)
theory Proxy
  imports ProxyUrl AuthGate
begin

section \<open>The preview proxy\<close>

text \<open>
  \<open>proxy/mod.rs\<close>, \<open>proxy/response.rs\<close> and the request side of \<open>proxy/websocket.rs\<close>: who may use
  \<open>/preview/\<close>, which server a path names, what is sent there and what becomes of the answer. The server
  that answers (\<open>net\<close>) and the HTML walker are parameters; a handler's result holds the requests it sent.
\<close>

subsection \<open>Requests and answers\<close>

text \<open>A header value: text, or bytes that are not visible ASCII (\<open>to_str\<close> fails).\<close>

datatype hval = Text rstring | Opaque "u8 list"

type_synonym header_list = "(string \<times> hval) list"

definition to_str :: "hval \<Rightarrow> rstring option" where
  "to_str v = (case v of Text s \<Rightarrow> Some s | Opaque _ \<Rightarrow> None)"

definition as_map :: "header_list \<Rightarrow> headers" where
  "as_map hs = (\<lambda>n. map_option to_str (map_of hs n))"

record web_request =
  wr_method :: string
  wr_path :: rstring
  wr_query :: "rstring option"
  wr_headers :: header_list
  wr_body :: "u8 list"

record upstream_request =
  us_method :: string
  us_url :: rstring
  us_headers :: "(string \<times> rstring) list"
  us_body :: "u8 list"

record answer =
  an_status :: nat
  an_headers :: header_list
  an_body :: "u8 list"

datatype net_error = NoConnection | NetError rstring

text \<open>\<open>html_lib\<close>: walking a page with the handlers for link attributes, \<open>style\<close> and \<open>meta\<close> elements; \<open>base\<close> elements go.\<close>

type_synonym html_lib = "(attrs \<Rightarrow> attrs) \<Rightarrow> (attrs \<Rightarrow> attrs) \<Rightarrow> (attrs \<Rightarrow> attrs) \<Rightarrow> rstring \<Rightarrow> rstring"

definition plain :: "nat \<Rightarrow> string \<Rightarrow> answer" where
  "plain status msg = \<lparr>an_status = status, an_headers = [], an_body = str_bytes (lit msg)\<rparr>"

definition header_text :: "header_list \<Rightarrow> string \<Rightarrow> rstring option" where
  "header_text hs = header_str (as_map hs)"

subsection \<open>HTML\<close>

text \<open>\<open>(?i)(.*?url\s*=\s*)(.+)\<close>: what stands on the line up to the URL, and the URL.\<close>

definition meta_at :: "rstring \<Rightarrow> (rstring \<times> rstring) option" where
  "meta_at s =
     (case strip_prefix_ci (lit ''url'') s of
        None \<Rightarrow> None
      | Some t \<Rightarrow>
          (case strip_prefix [61] (trim_start t) of
             None \<Rightarrow> None
           | Some r \<Rightarrow>
               let u = trim_start r in
               if takeWhile (\<lambda>c. c \<noteq> 10) u = [] then None
               else Some (take (length s - length u) s, takeWhile (\<lambda>c. c \<noteq> 10) u)))"

fun meta_match :: "rstring \<Rightarrow> rstring \<Rightarrow> (rstring \<times> rstring) option" where
  "meta_match before [] = None"
| "meta_match before (c # s) =
     (case meta_at (c # s) of
        Some (pre, u) \<Rightarrow> Some (before @ pre, u)
      | None \<Rightarrow> if c = 10 then meta_match [] s else meta_match (before @ [c]) s)"

definition meta_handler :: "url_lib \<Rightarrow> rstring \<Rightarrow> rewrite_mode \<Rightarrow> attrs \<Rightarrow> attrs" where
  "meta_handler lib base mode el =
     (case map_of el ''http-equiv'' of
        None \<Rightarrow> el
      | Some v \<Rightarrow>
          if \<not> eq_ignore_ascii_case v (lit ''refresh'') then el
          else (case map_of el ''content'' of
             None \<Rightarrow> el
           | Some content \<Rightarrow>
               (case meta_match [] content of
                  None \<Rightarrow> el
                | Some (pre, u) \<Rightarrow>
                    (case rewrite_url lib (trim u) base mode of
                       Some r \<Rightarrow> al_put ''content'' (pre @ r) el
                     | None \<Rightarrow> el))))"

text \<open>\<open>(?is)<style[^>]*>(.*?)</style>\<close>: the tag, the text inside and the text after the match.\<close>

definition style_block :: "rstring \<Rightarrow> (rstring \<times> rstring \<times> rstring) option" where
  "style_block s =
     (case strip_prefix_ci (lit ''<style'') s of
        None \<Rightarrow> None
      | Some t \<Rightarrow>
          (case dropWhile (\<lambda>c. c \<noteq> 62) t of
             [] \<Rightarrow> None
           | _ # r \<Rightarrow>
               map_option (\<lambda>(inner, _, rest). (take (length s - length r) s, inner, rest))
                 (find_match (\<lambda>x. map_option (\<lambda>q. ((), q)) (strip_prefix_ci (lit ''</style>'') x)) r)))"

definition replace_text :: "rstring \<Rightarrow> rstring \<Rightarrow> rstring \<Rightarrow> rstring" where
  "replace_text a b = (if a = [] then (\<lambda>s. s) else replace_all (\<lambda>x. map_option (\<lambda>rest. (b, rest)) (strip_prefix a x)))"

definition rewrite_style_blocks :: "url_lib \<Rightarrow> rstring \<Rightarrow> rstring \<Rightarrow> rewrite_mode \<Rightarrow> rstring" where
  "rewrite_style_blocks lib html base mode =
     replace_all (\<lambda>s. map_option (\<lambda>(tag, inner, rest).
         (replace_text inner (rewrite_css_urls lib inner base mode) (take (length s - length rest) s), rest)) (style_block s)) html"

definition rewrite_html_urls :: "url_lib \<Rightarrow> html_lib \<Rightarrow> rstring \<Rightarrow> rstring \<Rightarrow> rewrite_mode \<Rightarrow> rstring" where
  "rewrite_html_urls lib walk html base mode =
     rewrite_style_blocks lib
       (walk (attr_handler lib base mode) (style_handler lib base mode) (meta_handler lib base mode) html) base mode"

text \<open>\<open>(?i)<base\s[^>]*>\<close> is cut out.\<close>

definition base_tag :: "rstring \<Rightarrow> (rstring \<times> rstring) option" where
  "base_tag s =
     (case strip_prefix_ci (lit ''<base'') s of
        Some (c # t) \<Rightarrow>
          if is_whitespace c then (case dropWhile (\<lambda>c. c \<noteq> 62) t of [] \<Rightarrow> None | _ # r \<Rightarrow> Some ([], r)) else None
      | _ \<Rightarrow> None)"

definition inject_into :: "rstring \<Rightarrow> rstring \<Rightarrow> rstring" where
  "inject_into inject html =
     (let at = (\<lambda>tag. find_match (\<lambda>x. map_option (\<lambda>q. ((), q)) (strip_prefix (lit tag) x)) html) in
      case at ''<head>'' of
        Some (before, _, rest) \<Rightarrow> before @ lit ''<head>'' @ inject @ rest
      | None \<Rightarrow>
          (case at ''</head>'' of
             Some (before, _, rest) \<Rightarrow> before @ inject @ lit ''</head>'' @ rest
           | None \<Rightarrow> inject @ html))"

subsection \<open>Answers\<close>

definition mode_base :: "rewrite_mode \<Rightarrow> rstring" where
  "mode_base mode =
     (case mode of Internal host port \<Rightarrow> lit ''http://'' @ host @ [58] @ dec port | External u \<Rightarrow> u)"

definition BLOCKED_HEADERS :: "string list" where
  "BLOCKED_HEADERS = [''transfer-encoding'', ''connection'', ''x-frame-options'', ''content-security-policy'',
     ''content-security-policy-report-only'', ''content-encoding'']"

definition is_script_type :: "rstring \<Rightarrow> bool" where
  "is_script_type t \<longleftrightarrow> contains (lit ''javascript'') t \<or> contains (lit ''ecmascript'') t"

definition may_rewrite :: "rstring \<Rightarrow> rewrite_mode option \<Rightarrow> bool" where
  "may_rewrite t mode \<longleftrightarrow> contains (lit ''text/html'') t \<or> contains (lit ''text/css'') t \<or> is_script_type t \<or>
     (case mode of Some (Internal _ _) \<Rightarrow> t = [] \<or> starts_with t (lit ''text/'') | _ \<Rightarrow> False)"

definition answer_header :: "url_lib \<Rightarrow> bool \<Rightarrow> rewrite_mode option \<Rightarrow> string \<times> hval \<Rightarrow> (string \<times> hval) option" where
  "answer_header lib rewritten mode h =
     (let (n, v) = h in
      if n \<in> set BLOCKED_HEADERS \<or> (rewritten \<and> n = ''content-length'') then None
      else case (if n = ''location'' then (case (to_str v, mode) of (Some loc, Some m) \<Rightarrow> rewrite_url lib loc (mode_base m) m | _ \<Rightarrow> None) else None) of
        Some r \<Rightarrow> Some (n, Text r)
      | None \<Rightarrow>
          (case (if n = ''set-cookie'' then to_str v else None) of
             Some c \<Rightarrow> Some (n, Text (rewrite_set_cookie c mode))
           | None \<Rightarrow> Some (n, v)))"

definition looks_like_script :: "rstring \<Rightarrow> bool" where
  "looks_like_script t = list_ex (\<lambda>p. starts_with t (lit p))
     [''import '', ''import{'', ''import('', ''export '', ''export{'', ''from '', ''const '', ''var '', ''let '']"

definition answer_body ::
  "url_lib \<Rightarrow> html_lib \<Rightarrow> rstring \<Rightarrow> rewrite_mode option \<Rightarrow> rstring \<Rightarrow> u8 list \<Rightarrow> u8 list" where
  "answer_body lib walk inject mode t body =
     (let str = from_utf8_lossy body in
      if contains (lit ''text/html'') t then
        (let html = replace_all base_tag str;
             html = (case mode of Some m \<Rightarrow> rewrite_html_urls lib walk html (mode_base m) m | None \<Rightarrow> html) in
         str_bytes (inject_into inject html))
      else if contains (lit ''text/css'') t then
        (case mode of Some m \<Rightarrow> str_bytes (rewrite_css_urls lib str (mode_base m) m) | None \<Rightarrow> body)
      else if is_script_type t then
        (case mode of Some m \<Rightarrow> str_bytes (rewrite_js_imports str m) | None \<Rightarrow> body)
      else (case mode of
        Some (Internal host port) \<Rightarrow>
          if (t = [] \<or> starts_with t (lit ''text/'')) \<and> looks_like_script (trim_start str)
          then str_bytes (rewrite_js_imports str (Internal host port)) else body
      | _ \<Rightarrow> body))"

text \<open>A body that may have been rewritten gets a new \<open>content-length\<close>; others are streamed as they are.\<close>

definition build_proxied_response ::
  "url_lib \<Rightarrow> html_lib \<Rightarrow> rstring \<Rightarrow> rstring \<Rightarrow> rewrite_mode option \<Rightarrow> answer \<Rightarrow> answer" where
  "build_proxied_response lib walk inject_base inject_script mode up =
     (let t = (case header_text (an_headers up) ''content-type'' of Some t \<Rightarrow> t | None \<Rightarrow> []);
          rewritten = may_rewrite t mode;
          body = answer_body lib walk (inject_base @ inject_script) mode t (an_body up);
          buffered = (contains (lit ''text/html'') t \<or> (rewritten \<and> mode \<noteq> None)) in
      \<lparr>an_status = an_status up,
        an_headers = List.map_filter (answer_header lib rewritten mode) (an_headers up) @
          (if buffered then [(''content-length'', Text (dec (length body)))] else []),
        an_body = body\<rparr>)"

subsection \<open>Who may use the preview\<close>

datatype denied = Denied nat string

definition check_preview_auth ::
  "headers \<Rightarrow> nat \<Rightarrow> instant \<Rightarrow> ip_addr \<Rightarrow> bool \<Rightarrow> rstring \<Rightarrow> session_store \<Rightarrow> denied option \<times> session_store" where
  "check_preview_auth hs port now real_ip allow_external token s =
     (if is_loopback real_ip then
        (if is_cross_site_browser_request hs then (Some (Denied 403 ''Cross-site requests are not allowed''), s) else (None, s))
      else if \<not> allow_external then (Some (Denied 403 ''Preview proxy is only available from localhost''), s)
      else
        let (ok, s') = has_valid_auth hs port now token s in
        (if ok then None else Some (Denied 401 ''unauthorized''), s'))"

subsection \<open>Which server a path names\<close>

definition is_valid_proxy_host :: "rstring \<Rightarrow> bool" where
  "is_valid_proxy_host host \<longleftrightarrow> host \<noteq> [] \<and> byte_len host \<le> 253 \<and>
     47 \<notin> set host \<and> 64 \<notin> set host \<and> 32 \<notin> set host \<and> 92 \<notin> set host \<and> 58 \<notin> set host"

definition make_base_tag :: "rstring \<Rightarrow> nat \<Rightarrow> rstring" where
  "make_base_tag host port = lit ''<base href='' @ [34] @ preview_prefix host port @ lit ''/'' @ [34] @ lit ''>''"

definition parse_u16 :: "rstring \<Rightarrow> nat option" where
  "parse_u16 = parse_unsigned 65536"

definition parse_preview_path :: "rstring \<Rightarrow> (rstring \<times> nat \<times> rstring) option" where
  "parse_preview_path after =
     (case split_once 47 after of
        None \<Rightarrow> map_option (\<lambda>p. (LOCALHOST, p, [])) (parse_u16 after)
      | Some (a, b) \<Rightarrow>
          (case parse_u16 a of
             Some p \<Rightarrow> Some (LOCALHOST, p, 47 # b)
           | None \<Rightarrow>
               (case split_once 47 b of
                  None \<Rightarrow> map_option (\<lambda>p. (a, p, [])) (parse_u16 b)
                | Some (b1, c) \<Rightarrow> map_option (\<lambda>p. (a, p, 47 # c)) (parse_u16 b1))))"

subsection \<open>What is sent\<close>

definition has_prefix :: "string \<Rightarrow> string \<Rightarrow> bool" where
  "has_prefix p s \<longleftrightarrow> take (length p) s = p"

definition should_forward_header :: "string \<Rightarrow> bool" where
  "should_forward_header n \<longleftrightarrow>
     n \<notin> {''host'', ''connection'', ''upgrade'', ''accept-encoding'', ''origin''} \<and> \<not> has_prefix ''sec-fetch-'' n"

definition same_origin_headers :: "rstring \<Rightarrow> nat \<Rightarrow> (string \<times> rstring) list" where
  "same_origin_headers host port =
     [(''origin'', lit ''http://'' @ host @ [58] @ dec port), (''sec-fetch-site'', lit ''same-origin'')]"

definition forwarded :: "(string \<Rightarrow> bool) \<Rightarrow> header_list \<Rightarrow> (string \<times> rstring) list" where
  "forwarded keep hs = List.map_filter (\<lambda>(n, v). if keep n then map_option (Pair n) (to_str v) else None) hs"

definition is_websocket :: "web_request \<Rightarrow> bool" where
  "is_websocket rq =
     (case header_text (wr_headers rq) ''upgrade'' of Some v \<Rightarrow> eq_ignore_ascii_case v (lit ''websocket'') | None \<Rightarrow> False)"

definition query_part :: "web_request \<Rightarrow> rstring" where
  "query_part rq = (case wr_query rq of Some q \<Rightarrow> lit ''?'' @ q | None \<Rightarrow> [])"

definition path_part :: "rstring \<Rightarrow> rstring" where
  "path_part path = (if path = [] \<or> path = [47] then [47] else if starts_with path [47] then path else 47 # path)"

definition preview_request :: "rstring \<Rightarrow> nat \<Rightarrow> rstring \<Rightarrow> web_request \<Rightarrow> u8 list \<Rightarrow> upstream_request" where
  "preview_request host port path rq body =
     \<lparr>us_method = wr_method rq, us_url = lit ''http://'' @ host @ [58] @ dec port @ path_part path @ query_part rq,
       us_headers = forwarded should_forward_header (wr_headers rq) @ same_origin_headers host port, us_body = body\<rparr>"

subsection \<open>WebSockets\<close>

definition ws_forwarded :: "string \<Rightarrow> bool" where
  "ws_forwarded n \<longleftrightarrow>
     (n = ''cookie'' \<or> n = ''authorization'' \<or> has_prefix ''x-'' n \<or> has_prefix ''sec-websocket-'' n) \<and>
     n \<notin> {''sec-websocket-key'', ''sec-websocket-version'', ''sec-websocket-extensions''}"

definition ws_protocols :: "header_list \<Rightarrow> rstring list" where
  "ws_protocols hs = (case header_text hs ''sec-websocket-protocol'' of None \<Rightarrow> [] | Some s \<Rightarrow> map trim (split_on 44 s))"

text \<open>
  The headers of the upstream handshake, put in one after the other over those the library made from the
  URL (\<open>base\<close>, with its \<open>host\<close>): a later value replaces an earlier one.
\<close>

definition ws_headers ::
  "(string, rstring) amap \<Rightarrow> header_list \<Rightarrow> (string \<times> rstring) list \<Rightarrow> (string, rstring) amap" where
  "ws_headers base hs inject_headers =
     (let h1 = fold (\<lambda>(n, v). al_put n v) (forwarded ws_forwarded hs) base;
          h2 = (if ws_protocols hs = [] then h1 else al_put ''sec-websocket-protocol'' (join_with (lit '', '') (ws_protocols hs)) h1);
          h3 = (case map_of h2 ''host'' of Some h \<Rightarrow> al_put ''origin'' (lit ''http://'' @ h) h2 | None \<Rightarrow> h2) in
      fold (\<lambda>(n, v). al_put n v) inject_headers h3)"

record ws_dial =
  wd_url :: rstring
  wd_headers :: "(string, rstring) amap"

text \<open>The origin check lets everything pass (\<open>check_ws_origin\<close>); \<open>upgrade\<close> says whether the client's handshake is valid.\<close>

definition proxy_websocket ::
  "(rstring \<Rightarrow> (string, rstring) amap option) \<Rightarrow> bool \<Rightarrow> ip_addr \<Rightarrow> rstring list \<Rightarrow> rstring list \<Rightarrow> web_request \<Rightarrow> rstring \<Rightarrow>
     (string \<times> rstring) list \<Rightarrow> answer + ws_dial option" where
  "proxy_websocket client_request upgrade conn_ip allowed trusted rq upstream_url inject_headers =
     (if \<not> check_ws_origin (as_map (wr_headers rq)) allowed (real_client_ip (as_map (wr_headers rq)) conn_ip trusted) trusted
      then Inl (plain 403 ''origin not allowed'')
      else if \<not> upgrade then Inl (plain 400 ''WebSocket upgrade failed'')
      else Inr (map_option (\<lambda>base. \<lparr>wd_url = upstream_url, wd_headers = ws_headers base (wr_headers rq) inject_headers\<rparr>)
        (client_request upstream_url)))"

text \<open>
  One direction of the relayed connection: messages go on until one cannot be sent or the sender closes; raw
  frames are passed over. The result is what was sent and whether the other side was closed.
\<close>

datatype ws_message = WsText rstring | WsBinary "u8 list" | WsPing "u8 list" | WsPong "u8 list" | WsClose | WsFrame

fun ws_pump :: "(ws_message \<Rightarrow> bool) \<Rightarrow> ws_message list \<Rightarrow> ws_message list \<times> bool" where
  "ws_pump fails [] = ([], False)"
| "ws_pump fails (m # ms) =
     (if m = WsClose then ([], True)
      else if m = WsFrame then ws_pump fails ms
      else if fails m then ([], False)
      else let (sent, closed) = ws_pump fails ms in (m # sent, closed))"

subsection \<open>The handlers\<close>

text \<open>What a handler answers (nothing when the connection became a WebSocket), and what it sent and dialled.\<close>

record outcome =
  oc_answer :: "answer option"
  oc_sent :: "upstream_request list"
  oc_dials :: "ws_dial list"

definition reply :: "answer \<Rightarrow> outcome" where
  "reply a = \<lparr>oc_answer = Some a, oc_sent = [], oc_dials = []\<rparr>"

definition ws_outcome :: "answer + ws_dial option \<Rightarrow> outcome" where
  "ws_outcome r =
     (case r of
        Inl a \<Rightarrow> reply a
      | Inr d \<Rightarrow> \<lparr>oc_answer = None, oc_sent = [], oc_dials = (case d of Some d \<Rightarrow> [d] | None \<Rightarrow> [])\<rparr>)"

text \<open>
  The environment of the handlers: the URL and HTML libraries, the text of the injected script, the network
  (an answer for every request) and the library that makes WebSocket handshakes.
\<close>

record proxy_env =
  pe_lib :: url_lib
  pe_walk :: html_lib
  pe_script :: rstring
  pe_net :: "upstream_request \<Rightarrow> net_error + answer"
  pe_ws :: "rstring \<Rightarrow> (string, rstring) amap option"
  pe_upgrade :: bool

definition error_page :: "rstring \<Rightarrow> rstring \<Rightarrow> rstring" where
  \<open>error_page msg url =
     lit ''<!DOCTYPE html><html><head><meta charset="utf-8"><title>Preview Error</title>'' @ [10] @
     lit ''<style>body{font-family:system-ui;display:flex;justify-content:center;align-items:center;height:100vh;margin:0;background:#1a1a1a;color:#ccc}'' @ [10] @
     lit ''.box{text-align:center;max-width:420px}h2{color:#f87171;margin-bottom:8px}'' @ [10] @
     lit ''p{color:#888;font-size:14px}a{color:#89b4fa;text-decoration:none}a:hover{text-decoration:underline}</style></head>'' @ [10] @
     lit ''<body><div class="box"><h2>Cannot connect</h2><p>'' @ msg @ lit ''</p>'' @ [10] @
     lit ''<p><a href="'' @ url @ lit ''" target="_blank">Open in new tab '' @ [0x2197] @ lit ''</a></p></div></body></html>''\<close>

definition gateway_error :: "rstring \<Rightarrow> nat \<Rightarrow> net_error \<Rightarrow> rstring \<Rightarrow> answer" where
  "gateway_error host port e url =
     (let msg = (case e of
        NoConnection \<Rightarrow> lit ''Cannot connect to '' @ host @ [58] @ dec port @ lit '' '' @ [0x2014] @ lit '' is the server running?''
      | NetError m \<Rightarrow> lit ''Proxy error: '' @ m) in
      \<lparr>an_status = 502, an_headers = [(''content-type'', Text (lit ''text/html; charset=utf-8''))],
        an_body = str_bytes (error_page msg url)\<rparr>)"

definition injected_script :: "rstring \<Rightarrow> rstring \<Rightarrow> nat \<Rightarrow> rstring" where
  \<open>injected_script script host port =
     replace_text (lit ''document.currentScript.getAttribute('' @ [39] @ lit ''data-host'' @ [39] @ lit '')'') ([39] @ host @ [39])
       (replace_text (lit ''document.currentScript.getAttribute('' @ [39] @ lit ''data-port'' @ [39] @ lit '')'') ([39] @ dec port @ [39]) script)\<close>

text \<open>\<open>extract_request\<close>: a body of at most ten megabytes.\<close>

definition BODY_LIMIT :: nat where
  "BODY_LIMIT = 10 * 1024 * 1024"

definition extract_request :: "web_request \<Rightarrow> u8 list option" where
  "extract_request rq = (if length (wr_body rq) \<le> BODY_LIMIT then Some (wr_body rq) else None)"

definition proxy_internal ::
  "proxy_env \<Rightarrow> ip_addr \<Rightarrow> rstring list \<Rightarrow> rstring list \<Rightarrow> rstring \<Rightarrow> nat \<Rightarrow> rstring \<Rightarrow> web_request \<Rightarrow> outcome" where
  "proxy_internal env conn_ip allowed trusted host port path rq =
     (if port < 1024 then reply (plain 400 ''Invalid port (must be 1024-65535)'')
      else if \<not> is_valid_proxy_host host then reply (plain 400 ''Invalid host'')
      else if is_websocket rq then
        ws_outcome (proxy_websocket (pe_ws env) (pe_upgrade env) conn_ip allowed trusted rq
          (lit ''ws://'' @ host @ [58] @ dec port @ path_part path @ query_part rq) [])
      else case extract_request rq of
        None \<Rightarrow> reply (plain 400 ''Request body too large'')
      | Some body \<Rightarrow>
          let up = preview_request host port path rq body in
          \<lparr>oc_answer = Some (case pe_net env up of
               Inl e \<Rightarrow> gateway_error host port e (us_url up)
             | Inr a \<Rightarrow> build_proxied_response (pe_lib env) (pe_walk env) (make_base_tag host port)
                 (injected_script (pe_script env) host port) (Some (Internal host port)) a),
            oc_sent = [up], oc_dials = []\<rparr>)"

text \<open>The settings a handler reads, and the hub's own token.\<close>

record preview_cfg =
  pc_allow_external :: bool
  pc_allowed_origins :: "rstring list"
  pc_trusted :: "rstring list"
  pc_token :: rstring
  pc_port :: nat

definition checked ::
  "preview_cfg \<Rightarrow> instant \<Rightarrow> ip_addr \<Rightarrow> web_request \<Rightarrow> session_store \<Rightarrow> denied option \<times> session_store" where
  "checked cfg now conn_ip rq s =
     check_preview_auth (as_map (wr_headers rq)) (pc_port cfg) now
       (real_client_ip (as_map (wr_headers rq)) conn_ip (pc_trusted cfg)) (pc_allow_external cfg) (pc_token cfg) s"

definition deny :: "denied \<Rightarrow> outcome" where
  \<open>deny d =
     (case d of Denied status msg \<Rightarrow>
        if status = 401
        then reply \<lparr>an_status = 401, an_headers = [(''content-type'', Text (lit ''application/json''))],
               an_body = str_bytes (lit (''{"error":"'' @ msg @ ''"}''))\<rparr>
        else reply (plain status msg))\<close>

definition proxy_handler_root ::
  "proxy_env \<Rightarrow> preview_cfg \<Rightarrow> instant \<Rightarrow> ip_addr \<Rightarrow> nat \<Rightarrow> web_request \<Rightarrow> session_store \<Rightarrow> outcome \<times> session_store" where
  "proxy_handler_root env cfg now conn_ip port rq s =
     (case checked cfg now conn_ip rq s of
        (Some d, s') \<Rightarrow> (deny d, s')
      | (None, s') \<Rightarrow> (proxy_internal env conn_ip (pc_allowed_origins cfg) (pc_trusted cfg) LOCALHOST port [] rq, s'))"

definition proxy_handler_wildcard ::
  "proxy_env \<Rightarrow> preview_cfg \<Rightarrow> instant \<Rightarrow> ip_addr \<Rightarrow> web_request \<Rightarrow> session_store \<Rightarrow> outcome \<times> session_store" where
  "proxy_handler_wildcard env cfg now conn_ip rq s =
     (case checked cfg now conn_ip rq s of
        (Some d, s') \<Rightarrow> (deny d, s')
      | (None, s') \<Rightarrow>
          (case parse_preview_path (case strip_prefix (lit ''/preview/'') (wr_path rq) of Some a \<Rightarrow> a | None \<Rightarrow> []) of
             None \<Rightarrow> (reply (plain 400 ''Invalid preview path''), s')
           | Some (host, port, path) \<Rightarrow>
               (proxy_internal env conn_ip (pc_allowed_origins cfg) (pc_trusted cfg) host port path rq, s')))"

end
