(* ===== verification/External.thy ===== *)
theory External
  imports Proxy "HOL-Library.Multiset"
begin

section \<open>The proxy for external pages\<close>

text \<open>
  \<open>proxy/external.rs\<close>: a page named by its URL is fetched for the browser, with every address checked
  before it is connected to, over at most ten redirects; the clients with their pinned addresses are cached.
  The resolver's answers may differ from hop to hop, and the network answers as it likes.
\<close>

subsection \<open>Addresses\<close>

definition ipv4_mapped :: "128 word \<Rightarrow> 32 word option" where
  "ipv4_mapped w = (if drop_bit 32 w = 0xFFFF then Some (ucast w) else None)"

definition is_private_v4 :: "32 word \<Rightarrow> bool" where
  "is_private_v4 w \<longleftrightarrow>
     drop_bit 24 w = 127 \<or>
     drop_bit 24 w = 10 \<or> drop_bit 20 w = 0xAC1 \<or> drop_bit 16 w = 0xC0A8 \<or>
     drop_bit 16 w = 0xA9FE \<or> w = 0xFFFFFFFF \<or> w = 0 \<or> drop_bit 22 w = 0x191"

definition is_private_ip :: "ip_addr \<Rightarrow> bool" where
  "is_private_ip ip =
     (case ip of
        V4 w \<Rightarrow> is_private_v4 w
      | V6 w \<Rightarrow>
          (case ipv4_mapped w of
             Some v \<Rightarrow> is_private_v4 v
           | None \<Rightarrow> w = 1 \<or> w = 0 \<or> drop_bit 121 w = 0x7E \<or> drop_bit 118 w = 0x3FA))"

subsection \<open>Targets\<close>

type_synonym sock_addr = "ip_addr \<times> nat"

record resolved_target =
  rt_domain :: "rstring option"
  rt_addrs :: "sock_addr list"

text \<open>The resolver: no answer, or the addresses of a name.\<close>

type_synonym resolver = "rstring \<Rightarrow> ip_addr list option"

definition default_url_port :: "rstring \<Rightarrow> nat" where
  "default_url_port scheme = (if scheme = lit ''https'' \<or> scheme = lit ''wss'' then 443 else if scheme = lit ''ftp'' then 21 else 80)"

definition url_port :: "url \<Rightarrow> nat" where
  "url_port u = (case ur_port u of Some p \<Rightarrow> p | None \<Rightarrow> default_url_port (ur_scheme u))"

text \<open>IPv6 literals lose their brackets.\<close>

definition bare_host :: "rstring \<Rightarrow> rstring" where
  "bare_host h = rev (dropWhile (\<lambda>c. c = 93) (rev (dropWhile (\<lambda>c. c = 91) h)))"

definition resolve_target :: "resolver \<Rightarrow> url \<Rightarrow> denied + resolved_target" where
  "resolve_target dns u =
     (case ur_host u of
        None \<Rightarrow> Inr \<lparr>rt_domain = None, rt_addrs = []\<rparr>
      | Some h \<Rightarrow>
          let host = bare_host h in
          (case parse_ip host of
             Some ip \<Rightarrow>
               if is_private_ip ip then Inl (Denied 403 ''Access to private/internal addresses is not allowed'')
               else Inr \<lparr>rt_domain = None, rt_addrs = [(ip, url_port u)]\<rparr>
           | None \<Rightarrow>
               (case dns host of
                  None \<Rightarrow> Inl (Denied 502 ''DNS resolution failed'')
                | Some ips \<Rightarrow>
                    if list_ex is_private_ip ips then Inl (Denied 403 ''Access to private/internal addresses is not allowed'')
                    else Inr \<lparr>rt_domain = Some host, rt_addrs = map (\<lambda>ip. (ip, url_port u)) ips\<rparr>)))"

subsection \<open>The cache of pinned clients\<close>

text \<open>A client is the target it was built for; the sorted addresses of a key are the multiset of them.\<close>

type_synonym pinned_key = "rstring \<times> sock_addr multiset"

record pinned_entry =
  pn_client :: resolved_target
  pn_created :: instant

definition CLIENT_CACHE_TTL :: nat where
  "CLIENT_CACHE_TTL = from_secs 300"

definition CLIENT_CACHE_CAP :: nat where
  "CLIENT_CACHE_CAP = 64"

definition proxy_authority :: "url \<Rightarrow> rstring" where
  "proxy_authority u =
     ur_scheme u @ lit ''://'' @ (case ur_host u of Some h \<Rightarrow> h | None \<Rightarrow> []) @
     (case ur_port u of Some p \<Rightarrow> 58 # dec p | None \<Rightarrow> [])"

fun oldest :: "(pinned_key, pinned_entry) amap \<Rightarrow> pinned_key option" where
  "oldest [] = None"
| "oldest [(k, e)] = Some k"
| "oldest ((k, e) # (k', e') # m) =
     (if pn_created e' < pn_created e then oldest ((k', e') # m) else oldest ((k, e) # m))"

text \<open>\<open>while map.len() > cap\<close>: as many turns as there are entries are enough.\<close>

fun drop_oldest :: "nat \<Rightarrow> nat \<Rightarrow> (pinned_key, pinned_entry) amap \<Rightarrow> (pinned_key, pinned_entry) amap" where
  "drop_oldest cap 0 m = m"
| "drop_oldest cap (Suc n) m =
     (if length m \<le> cap then m else case oldest m of None \<Rightarrow> m | Some k \<Rightarrow> drop_oldest cap n (al_del k m))"

definition evict_oldest :: "nat \<Rightarrow> nat \<Rightarrow> instant \<Rightarrow> (pinned_key, pinned_entry) amap \<Rightarrow> (pinned_key, pinned_entry) amap" where
  "evict_oldest ttl cap now m =
     (if length m \<le> cap then m
      else let kept = filter (\<lambda>(_, e). duration_since now (pn_created e) < ttl) m in drop_oldest cap (length kept) kept)"

definition client_for ::
  "nat \<Rightarrow> nat \<Rightarrow> instant \<Rightarrow> rstring \<Rightarrow> resolved_target \<Rightarrow> (pinned_key, pinned_entry) amap \<Rightarrow>
     resolved_target \<times> (pinned_key, pinned_entry) amap" where
  "client_for ttl cap now authority target m =
     (let key = (authority, mset (rt_addrs target));
          build = (\<lambda>m. (target, evict_oldest ttl cap now (al_put key \<lparr>pn_client = target, pn_created = now\<rparr> m))) in
      case map_of m key of
        Some e \<Rightarrow> if duration_since now (pn_created e) < ttl then (pn_client e, m) else build (al_del key m)
      | None \<Rightarrow> build m)"

subsection \<open>Fetching\<close>

definition external_dropped :: "string set" where
  "external_dropped = {''host'', ''connection'', ''upgrade'', ''origin'', ''referer'', ''accept-encoding'', ''content-length''}"

definition external_body :: "url_lib \<Rightarrow> url \<Rightarrow> header_list \<Rightarrow> u8 list \<Rightarrow> u8 list" where
  "external_body lib u hs body =
     (let ct = (case header_text hs ''content-type'' of Some t \<Rightarrow> t | None \<Rightarrow> []) in
      if contains (lit ''application/x-www-form-urlencoded'') ct then
        (case from_utf8 body \<bind> (\<lambda>t. rewrite_form_body lib t (ur_text u) (External (ur_text u))) of
           Some r \<Rightarrow> str_bytes r | None \<Rightarrow> body)
      else body)"

definition external_request :: "url_lib \<Rightarrow> url \<Rightarrow> string \<Rightarrow> header_list \<Rightarrow> u8 list \<Rightarrow> upstream_request" where
  "external_request lib u m hs body =
     \<lparr>us_method = m, us_url = ur_text u, us_headers = forwarded (\<lambda>n. n \<notin> external_dropped) hs,
       us_body = (if body = [] then [] else external_body lib u hs body)\<rparr>"

definition is_redirection :: "nat \<Rightarrow> bool" where
  "is_redirection status \<longleftrightarrow> 300 \<le> status \<and> status < 400"

text \<open>What a hop used: the client, the URL, the request.\<close>

type_synonym hop = "resolved_target \<times> url \<times> upstream_request"

record fetch_env =
  fe_lib :: url_lib
  fe_dns :: "nat \<Rightarrow> resolver"
  fe_net :: "nat \<Rightarrow> hop \<Rightarrow> rstring + answer"
  fe_now :: "nat \<Rightarrow> instant"

text \<open>
  The redirect loop with the hops left. The result is an error answer, or the final URL with an answer
  (none when the redirects did not end); the cache; and the hops made.
\<close>

fun fetch ::
  "fetch_env \<Rightarrow> header_list \<Rightarrow> nat \<Rightarrow> url \<Rightarrow> string \<Rightarrow> u8 list \<Rightarrow> (pinned_key, pinned_entry) amap \<Rightarrow>
     (answer + url \<times> answer option) \<times> (pinned_key, pinned_entry) amap \<times> hop list" where
  "fetch env hs 0 u m body cache = (Inr (u, None), cache, [])"
| "fetch env hs (Suc left) u m body cache =
     (case resolve_target (fe_dns env left) u of
        Inl (Denied status msg) \<Rightarrow> (Inl (plain status msg), cache, [])
      | Inr target \<Rightarrow>
          let (client, cache1) = client_for CLIENT_CACHE_TTL CLIENT_CACHE_CAP (fe_now env left) (proxy_authority u) target cache;
              h = (client, u, external_request (fe_lib env) u m hs body) in
          (case fe_net env left h of
             Inl e \<Rightarrow> (Inl \<lparr>an_status = 502, an_headers = [(''content-type'', Text (lit ''text/plain; charset=utf-8''))],
                 an_body = str_bytes (lit ''Proxy error: '' @ e)\<rparr>, cache1, [h])
           | Inr a \<Rightarrow>
               if \<not> is_redirection (an_status a) then (Inr (u, Some a), cache1, [h])
               else (case header_text (an_headers a) ''location'' \<bind> ul_join (fe_lib env) u of
                  None \<Rightarrow> (Inr (u, Some a), cache1, [h])
                | Some next \<Rightarrow>
                    if ur_scheme next \<noteq> lit ''http'' \<and> ur_scheme next \<noteq> lit ''https''
                    then (Inl (plain 400 ''Only http/https redirects are supported''), cache1, [h])
                    else
                      let again = (an_status a = 303 \<or> (an_status a = 301 \<or> an_status a = 302) \<and> m \<noteq> ''GET'' \<and> m \<noteq> ''HEAD'');
                          (r, cache2, hops) = fetch env hs left next (if again then ''GET'' else m) (if again then [] else body) cache1 in
                      (r, cache2, h # hops))))"

definition escape_attr :: "rstring \<Rightarrow> rstring" where
  "escape_attr s =
     replace_text (lit ''>'') (lit ''&gt;'') (replace_text (lit ''<'') (lit ''&lt;'')
       (replace_text [34] (lit ''&quot;'') (replace_text (lit ''&'') (lit ''&amp;'') s)))"

definition external_script :: "rstring \<Rightarrow> rstring \<Rightarrow> rstring" where
  "external_script script u =
     (case find_match (\<lambda>x. map_option (\<lambda>q. ((), q)) (strip_prefix (lit ''<script>'') x)) script of
        Some (before, _, rest) \<Rightarrow> before @ lit ''<script data-base-url='' @ [34] @ escape_attr u @ [34] @ lit ''>'' @ rest
      | None \<Rightarrow> script)"

definition external_proxy_handler ::
  "fetch_env \<Rightarrow> html_lib \<Rightarrow> rstring \<Rightarrow> resolver \<Rightarrow> rstring \<Rightarrow> web_request \<Rightarrow> (pinned_key, pinned_entry) amap \<Rightarrow>
     answer \<times> (pinned_key, pinned_entry) amap \<times> hop list" where
  "external_proxy_handler env walk script dns0 target_url rq cache =
     (if target_url = [] then (plain 400 ''Missing url parameter'', cache, [])
      else case ul_parse (fe_lib env) target_url of
        None \<Rightarrow> (plain 400 ''Invalid URL'', cache, [])
      | Some u \<Rightarrow>
          if ur_scheme u \<noteq> lit ''http'' \<and> ur_scheme u \<noteq> lit ''https''
          then (plain 400 ''Only http/https URLs are supported'', cache, [])
          else (case resolve_target dns0 u of
             Inl (Denied status msg) \<Rightarrow> (plain status msg, cache, [])
           | Inr _ \<Rightarrow>
               (case extract_request rq of
                  None \<Rightarrow> (plain 400 ''Request body too large'', cache, [])
                | Some body \<Rightarrow>
                    (case fetch env (wr_headers rq) 10 u (wr_method rq) body cache of
                       (Inl a, cache1, hops) \<Rightarrow> (a, cache1, hops)
                     | (Inr (_, None), cache1, hops) \<Rightarrow> (plain 502 ''Too many redirects'', cache1, hops)
                     | (Inr (final, Some a), cache1, hops) \<Rightarrow>
                         (build_proxied_response (fe_lib env) walk [] (external_script script (ur_text final))
                            (Some (External (ur_text final))) a, cache1, hops)))))"

end
