(* ===== verification/ProxyProps.thy ===== *)
theory ProxyProps
  imports Proxy
begin

section \<open>Properties of the preview proxy\<close>

text \<open>
  That a link rewritten for the preview leads back to the server and path it named, that the preview
  sends anything only for callers entitled to it, and where links go wrong.
\<close>

subsection \<open>Headers\<close>

lemma in_forwarded: "(n, v) \<in> set (forwarded keep hs) \<longleftrightarrow> keep n \<and> (n, Text v) \<in> set hs"
proof -
  have "(n, v) \<in> set (List.map_filter f hs) \<longleftrightarrow> (\<exists>h\<in>set hs. f h = Some (n, v))" for f :: "string \<times> hval \<Rightarrow> (string \<times> rstring) option"
    by (induction hs) (auto simp: map_filter_simps split: option.splits)
  moreover have "(case h of (m, x) \<Rightarrow> if keep m then map_option (Pair m) (to_str x) else None) = Some (n, v) \<longleftrightarrow>
      keep n \<and> h = (n, Text v)" for h
    by (cases h; cases "snd h") (auto simp: to_str_def)
  ultimately show ?thesis unfolding forwarded_def by auto
qed

lemma forwarded_none: "\<not> keep n \<Longrightarrow> filter (\<lambda>(m, _). m = n) (forwarded keep hs) = []"
  by (auto simp: filter_empty_conv in_forwarded)

subsection \<open>Paths\<close>

lemma parse_digits_dec: "parse_digits (dec n) = Some n"
proof -
  have "is_digit c" if "c \<in> set (dec n)" for c using dec_digits [OF that] by (simp add: is_digit_def)
  then show ?thesis by (simp add: parse_digits_def list_all_iff)
qed

lemma parse_u16_dec: "n < 65536 \<Longrightarrow> parse_u16 (dec n) = Some n"
proof -
  obtain c t where d: "dec n = c # t" using dec_nonempty [of n] by (cases "dec n") auto
  then have "c \<noteq> 43" using dec_digits [of c n] by auto
  then show "n < 65536 \<Longrightarrow> parse_u16 (dec n) = Some n"
    using parse_digits_dec [of n] d by (simp add: parse_u16_def parse_unsigned_def)
qed

lemma dec_no_slash: "c \<in> set (dec n) \<Longrightarrow> c \<noteq> 47 \<and> c \<noteq> 63"
  using dec_digits [of c n] by auto

lemma localhost_chars: "c \<in> set LOCALHOST \<Longrightarrow> c \<noteq> 47 \<and> c \<noteq> 63"
  by (auto simp: LOCALHOST_def lit_def)

lemma split_once_dec: "split_once 47 (dec p) = None"
proof (rule ccontr)
  assume "split_once 47 (dec p) \<noteq> None"
  then obtain a b where "split_once 47 (dec p) = Some (a, b)" by auto
  then have "47 \<in> set (dec p)" unfolding split_once_Some by auto
  with dec_no_slash [of 47 p] show False by simp
qed

lemma parse_preview_local:
  assumes "p < 65536" and "path = [] \<or> take 1 path = [47]"
  shows "parse_preview_path (dec p @ path) = Some (LOCALHOST, p, path)"
proof (cases path)
  case Nil
  have "split_once 47 (dec p) = None" by (rule split_once_dec)
  with Nil parse_u16_dec [OF assms(1)] show ?thesis by (simp add: parse_preview_path_def)
next
  case (Cons c t)
  with assms(2) have path: "path = 47 # t" by simp
  have "split_once 47 (dec p @ 47 # t) = Some (dec p, t)"
    unfolding split_once_Some using dec_no_slash [of 47 p] by auto
  with parse_u16_dec [OF assms(1)] path show ?thesis by (simp add: parse_preview_path_def)
qed

lemma parse_preview_host:
  assumes "p < 65536" and "path = [] \<or> take 1 path = [47]" and "parse_u16 host = None" and "47 \<notin> set host"
  shows "parse_preview_path (host @ 47 # dec p @ path) = Some (host, p, path)"
proof (cases path)
  case Nil
  have "split_once 47 (host @ 47 # dec p) = Some (host, dec p)"
    unfolding split_once_Some using assms(4) by simp
  moreover have "split_once 47 (dec p) = None"
    by (rule split_once_dec)
  ultimately show ?thesis using parse_u16_dec [OF assms(1)] assms(3) Nil by (simp add: parse_preview_path_def)
next
  case (Cons c t)
  with assms(2) have path: "path = 47 # t" by simp
  have "split_once 47 (host @ 47 # dec p @ 47 # t) = Some (host, dec p @ 47 # t)"
    unfolding split_once_Some using assms(4) by simp
  moreover have "split_once 47 (dec p @ 47 # t) = Some (dec p, t)"
    unfolding split_once_Some using dec_no_slash [of 47 p] by auto
  ultimately show ?thesis using parse_u16_dec [OF assms(1)] assms(3) path by (simp add: parse_preview_path_def)
qed

text \<open>What the URL parser promises for the URLs it accepts here.\<close>

definition url_paths_ok :: "url_lib \<Rightarrow> bool" where
  "url_paths_ok lib \<longleftrightarrow> (\<forall>s u. ul_parse lib s = Some u \<longrightarrow>
     (ur_host u \<noteq> None \<longrightarrow> (ur_path u = [] \<or> take 1 (ur_path u) = [47]) \<and> 63 \<notin> set (ur_path u)) \<and> (\<forall>p. ur_port u = Some p \<longrightarrow> p < 65536))"

lemma split_query:
  assumes "63 \<notin> set a"
  shows "takeWhile (\<lambda>c. c \<noteq> 63) (a @ (case q of Some q \<Rightarrow> lit ''?'' @ q | None \<Rightarrow> [])) = a"
    and "dropWhile (\<lambda>c. c \<noteq> 63) (a @ (case q of Some q \<Rightarrow> lit ''?'' @ q | None \<Rightarrow> [])) =
      (case q of Some q \<Rightarrow> lit ''?'' @ q | None \<Rightarrow> [])"
proof -
  have q: "\<And>c. c \<in> set a \<Longrightarrow> c \<noteq> 63" using assms by auto
  show "takeWhile (\<lambda>c. c \<noteq> 63) (a @ (case q of Some q \<Rightarrow> lit ''?'' @ q | None \<Rightarrow> [])) = a"
    using q by (subst takeWhile_append2) (auto simp: lit_def split: option.split)
  show "dropWhile (\<lambda>c. c \<noteq> 63) (a @ (case q of Some q \<Rightarrow> lit ''?'' @ q | None \<Rightarrow> [])) =
      (case q of Some q \<Rightarrow> lit ''?'' @ q | None \<Rightarrow> [])"
    using q by (subst dropWhile_append2) (auto simp: lit_def split: option.split)
qed

text \<open>
  Links come back. When the preview of a server rewrites a link, the new link's path names, to the
  handler that receives the click, the link's own path on the link's own host (the previewed host, or this
  machine) and port, with the query unchanged. A link without a port gets the previewed server's.
\<close>

theorem rewritten_link_comes_back:
  assumes "url_paths_ok lib" and "rewrite_url lib raw base (Internal host port) = Some r"
    and "port < 65536" and "is_valid_proxy_host host" and "parse_u16 host = None" and "63 \<notin> set host"
  shows "\<exists>a u after. absolute_url lib base (trim raw) = Some a \<and> ul_parse lib a = Some u \<and>
    takeWhile (\<lambda>c. c \<noteq> 63) r = lit ''/preview/'' @ after \<and>
    parse_preview_path after = Some (if ur_host u = Some host then host else LOCALHOST,
      (case ur_port u of Some p \<Rightarrow> p | None \<Rightarrow> port), ur_path u) \<and>
    dropWhile (\<lambda>c. c \<noteq> 63) r = (case ur_query u of Some q \<Rightarrow> lit ''?'' @ q | None \<Rightarrow> [])"
proof -
  from assms(2) obtain a u where a: "absolute_url lib base (trim raw) = Some a" and u: "ul_parse lib a = Some u"
    by (auto simp: rewrite_url_def Let_def split: if_splits option.splits)
  let ?h = "case ur_host u of Some h \<Rightarrow> h | None \<Rightarrow> []"
  let ?p = "case ur_port u of Some p \<Rightarrow> p | None \<Rightarrow> port"
  let ?t = "if ?h = host then host else LOCALHOST"
  let ?q = "case ur_query u of Some q \<Rightarrow> lit ''?'' @ q | None \<Rightarrow> []"
  have h: "?h = LOCALHOST \<or> ?h = lit ''localhost'' \<or> ?h = lit ''0.0.0.0'' \<or> ?h = host"
    and r: "r = (preview_prefix ?t ?p @ ur_path u) @ ?q"
    using assms(2) a u by (auto simp: rewrite_url_def Let_def split: if_splits)
  have "?h \<noteq> []" using h assms(4) by (auto simp: LOCALHOST_def is_valid_proxy_host_def lit_def)
  then have some: "ur_host u \<noteq> None" by (cases "ur_host u") auto
  then have t: "ur_path u = [] \<or> take 1 (ur_path u) = [47]" and noq: "63 \<notin> set (ur_path u)"
    using assms(1) u unfolding url_paths_ok_def by blast+
  have p: "?p < 65536" using assms(1,3) u unfolding url_paths_ok_def by (auto split: option.split)
  have slash: "47 \<notin> set ?t" using assms(4) localhost_chars by (auto simp: is_valid_proxy_host_def)
  have "63 \<notin> set ?t" using assms(6) localhost_chars by auto
  then have q: "63 \<notin> set (preview_prefix ?t ?p @ ur_path u)"
    using noq dec_no_slash [of 63 ?p] by (auto simp: preview_prefix_def lit_def)
  let ?after = "(if ?t = LOCALHOST then dec ?p else ?t @ 47 # dec ?p) @ ur_path u"
  have "preview_prefix ?t ?p @ ur_path u = lit ''/preview/'' @ ?after" by (simp add: preview_prefix_def)
  moreover have "parse_preview_path ?after = Some (?t, ?p, ur_path u)"
  proof (cases "?t = LOCALHOST")
    case True
    then show ?thesis using parse_preview_local [OF p t] by simp
  next
    case False
    then have "parse_u16 ?t = None" using assms(5) by (auto split: if_splits)
    with False parse_preview_host [OF p t _ slash] show ?thesis by simp
  qed
  moreover have "?t = (if ur_host u = Some host then host else LOCALHOST)" using some by auto
  ultimately have "takeWhile (\<lambda>c. c \<noteq> 63) r = lit ''/preview/'' @ ?after \<and>
      parse_preview_path ?after = Some (if ur_host u = Some host then host else LOCALHOST, ?p, ur_path u) \<and>
      dropWhile (\<lambda>c. c \<noteq> 63) r = ?q"
    unfolding r split_query [OF q] by simp
  with a u show ?thesis by blast
qed

text \<open>A parser that knows one address of a development server, and a base page on it.\<close>

definition demo_lib :: url_lib where
  "demo_lib = \<lparr>ul_parse = (\<lambda>s. if s = lit ''http://localhost:5173/a?x=1'' then Some
       \<lparr>ur_text = s, ur_scheme = lit ''http'', ur_host = Some (lit ''localhost''), ur_port = Some 5173,
         ur_path = lit ''/a'', ur_query = Some (lit ''x=1''), ur_fragment = None, ur_user = [], ur_password = None,
         ur_origin = lit ''http://localhost:5173''\<rparr> else None),
     ul_join = (\<lambda>_ _. None), ul_encode = (\<lambda>s. s), ul_decode = Some\<rparr>"

lemma demo_rewrite:
  "rewrite_url demo_lib (lit ''http://localhost:5173/a?x=1'') (lit ''http://dev.box:3000'') (Internal (lit ''dev.box'') 3000) =
     Some (lit ''/preview/5173/a?x=1'')"
  by (simp add: rewrite_url_def left_alone_def absolute_url_def demo_lib_def lit_def Let_def trim_def is_whitespace_def starts_with_def LOCALHOST_def preview_prefix_def dec.simps)

theorem rewritten_link_comes_back_witness:
  "parse_preview_path (lit ''5173/a'') = Some (LOCALHOST, 5173, lit ''/a'')"
proof -
  have ok: "url_paths_ok demo_lib" by (auto simp: url_paths_ok_def demo_lib_def lit_def)
  have split: "takeWhile (\<lambda>c. c \<noteq> 63) (lit ''/preview/5173/a?x=1'') = lit ''/preview/'' @ lit ''5173/a''"
    by (simp add: lit_def)
  have "\<exists>a u after. absolute_url demo_lib (lit ''http://dev.box:3000'') (trim (lit ''http://localhost:5173/a?x=1'')) = Some a \<and>
    ul_parse demo_lib a = Some u \<and>
    takeWhile (\<lambda>c. c \<noteq> 63) (lit ''/preview/5173/a?x=1'') = lit ''/preview/'' @ after \<and>
    parse_preview_path after = Some (if ur_host u = Some (lit ''dev.box'') then lit ''dev.box'' else LOCALHOST,
      (case ur_port u of Some p \<Rightarrow> p | None \<Rightarrow> 3000), ur_path u) \<and>
    dropWhile (\<lambda>c. c \<noteq> 63) (lit ''/preview/5173/a?x=1'') = (case ur_query u of Some q \<Rightarrow> lit ''?'' @ q | None \<Rightarrow> [])"
    by (rule rewritten_link_comes_back [OF ok demo_rewrite])
      (simp_all add: is_valid_proxy_host_def parse_u16_def parse_unsigned_def parse_digits_def is_digit_def lit_def byte_len_simps utf8_len_def)
  then show ?thesis unfolding split by (auto simp: demo_lib_def split: if_splits) (simp_all add: lit_def)
qed

subsection \<open>The guard\<close>

text \<open>The caller: the browser's address as the trusted proxies give it.\<close>

definition caller_ip :: "preview_cfg \<Rightarrow> ip_addr \<Rightarrow> web_request \<Rightarrow> ip_addr" where
  "caller_ip cfg conn_ip rq = real_client_ip (as_map (wr_headers rq)) conn_ip (pc_trusted cfg)"

definition may_preview :: "preview_cfg \<Rightarrow> instant \<Rightarrow> ip_addr \<Rightarrow> web_request \<Rightarrow> session_store \<Rightarrow> bool" where
  "may_preview cfg now conn_ip rq s \<longleftrightarrow>
     (if is_loopback (caller_ip cfg conn_ip rq) then \<not> is_cross_site_browser_request (as_map (wr_headers rq))
      else pc_allow_external cfg \<and> fst (has_valid_auth (as_map (wr_headers rq)) (pc_port cfg) now (pc_token cfg) s))"

lemma checked_passes: "fst (checked cfg now conn_ip rq s) = None \<longleftrightarrow> may_preview cfg now conn_ip rq s"
  by (simp add: checked_def check_preview_auth_def may_preview_def caller_ip_def Let_def split: prod.split)

lemma proxy_internal_effects:
  assumes "proxy_internal env conn_ip allowed trusted host port path rq = oc"
    and "oc_sent oc \<noteq> [] \<or> oc_dials oc \<noteq> []"
  shows "1024 \<le> port \<and> is_valid_proxy_host host \<and> length (oc_sent oc) + length (oc_dials oc) = 1 \<and>
    (\<forall>u\<in>set (oc_sent oc). \<exists>body. u = preview_request host port path rq body \<and> length body \<le> BODY_LIMIT) \<and>
    (\<forall>d\<in>set (oc_dials oc). wd_url d = lit ''ws://'' @ host @ [58] @ dec port @ path_part path @ query_part rq)"
  using assms
  by (auto simp: proxy_internal_def reply_def ws_outcome_def proxy_websocket_def extract_request_def Let_def
      split: if_splits option.splits sum.splits)

lemma proxy_internal_sent:
  assumes "proxy_internal env conn_ip allowed trusted host port path rq = oc" and "u \<in> set (oc_sent oc)"
  obtains body where "u = preview_request host port path rq body" and "length body \<le> BODY_LIMIT"
proof -
  have "oc_sent oc \<noteq> []" using assms(2) by auto
  then have "\<forall>u\<in>set (oc_sent oc). \<exists>body. u = preview_request host port path rq body \<and> length body \<le> BODY_LIMIT"
    using proxy_internal_effects [OF assms(1) disjI1 [OF \<open>oc_sent oc \<noteq> []\<close>]] by (elim conjE)
  from bspec [OF this assms(2)] that show thesis by (elim exE conjE)
qed

lemma deny_silent [simp]: "oc_sent (deny d) = []" "oc_dials (deny d) = []" "oc_sent (reply a) = []" "oc_dials (reply a) = []"
  by (simp_all add: deny_def reply_def split: denied.split)

lemma wildcard_effects:
  assumes "proxy_handler_wildcard env cfg now conn_ip rq s = (oc, s')" and "oc_sent oc \<noteq> [] \<or> oc_dials oc \<noteq> []"
  obtains host port path where
    "parse_preview_path (case strip_prefix (lit ''/preview/'') (wr_path rq) of Some a \<Rightarrow> a | None \<Rightarrow> []) = Some (host, port, path)"
    and "may_preview cfg now conn_ip rq s"
    and "proxy_internal env conn_ip (pc_allowed_origins cfg) (pc_trusted cfg) host port path rq = oc"
proof -
  obtain d s1 where c: "checked cfg now conn_ip rq s = (d, s1)" by fastforce
  then have "d = None" using assms by (cases d) (auto simp: proxy_handler_wildcard_def)
  then have "may_preview cfg now conn_ip rq s" using checked_passes [of cfg now conn_ip rq s] c by simp
  with assms c \<open>d = None\<close> that show ?thesis
    by (auto simp: proxy_handler_wildcard_def split: option.splits prod.splits)
qed

lemma one_origin:
  "filter (\<lambda>(n, _). n = ''origin'') (us_headers (preview_request host port path rq body)) =
     [(''origin'', lit ''http://'' @ host @ [58] @ dec port)]"
proof -
  have "filter (\<lambda>(n, _). n = ''origin'') (forwarded should_forward_header (wr_headers rq)) = []"
    using forwarded_none [of should_forward_header "''origin''"] by (simp add: should_forward_header_def)
  then show ?thesis by (simp add: preview_request_def same_origin_headers_def)
qed

text \<open>
  C14. The preview's guard. When the preview handler sends a request or dials a WebSocket, the caller is this
  machine and not another site's page, or the preview is open to others and the caller has a valid session or
  token; the path named a well-formed host and a port that is not privileged; it is the only thing sent; and the
  request goes to that server, with that server's own origin as its one \<open>origin\<close> header.
\<close>

theorem preview_guard:
  assumes "proxy_handler_wildcard env cfg now conn_ip rq s = (oc, s')" and "oc_sent oc \<noteq> [] \<or> oc_dials oc \<noteq> []"
  shows "may_preview cfg now conn_ip rq s \<and> length (oc_sent oc) + length (oc_dials oc) = 1 \<and>
    (\<exists>host port path.
       parse_preview_path (case strip_prefix (lit ''/preview/'') (wr_path rq) of Some a \<Rightarrow> a | None \<Rightarrow> []) = Some (host, port, path) \<and>
       1024 \<le> port \<and> is_valid_proxy_host host \<and>
       list_all (\<lambda>u. us_url u = lit ''http://'' @ host @ [58] @ dec port @ path_part path @ query_part rq \<and>
         filter (\<lambda>(n, _). n = ''origin'') (us_headers u) = [(''origin'', lit ''http://'' @ host @ [58] @ dec port)] \<and>
         length (us_body u) \<le> BODY_LIMIT) (oc_sent oc) \<and>
       list_all (\<lambda>d. wd_url d = lit ''ws://'' @ host @ [58] @ dec port @ path_part path @ query_part rq) (oc_dials oc))"
  using assms
proof (rule wildcard_effects)
  fix host port path
  assume p: "parse_preview_path (case strip_prefix (lit ''/preview/'') (wr_path rq) of Some a \<Rightarrow> a | None \<Rightarrow> []) = Some (host, port, path)"
    and ok: "may_preview cfg now conn_ip rq s"
    and run: "proxy_internal env conn_ip (pc_allowed_origins cfg) (pc_trusted cfg) host port path rq = oc"
  note eff = proxy_internal_effects [OF run assms(2)]
  have sent: "us_url u = lit ''http://'' @ host @ [58] @ dec port @ path_part path @ query_part rq \<and>
      filter (\<lambda>(n, _). n = ''origin'') (us_headers u) = [(''origin'', lit ''http://'' @ host @ [58] @ dec port)] \<and>
      length (us_body u) \<le> BODY_LIMIT" if "u \<in> set (oc_sent oc)" for u
  proof -
    obtain body where "u = preview_request host port path rq body" and "length body \<le> BODY_LIMIT"
      using proxy_internal_sent [OF run \<open>u \<in> _\<close>] .
    then show ?thesis using one_origin [of host port path rq body] by (simp add: preview_request_def)
  qed
  have dialled: "wd_url d = lit ''ws://'' @ host @ [58] @ dec port @ path_part path @ query_part rq" if "d \<in> set (oc_dials oc)" for d
    by (rule bspec [OF conjunct2 [OF conjunct2 [OF conjunct2 [OF conjunct2 [OF eff]]]] that])
  have "1024 \<le> port" and "is_valid_proxy_host host" and "length (oc_sent oc) + length (oc_dials oc) = 1"
    using conjunct1 [OF eff] conjunct1 [OF conjunct2 [OF eff]] conjunct1 [OF conjunct2 [OF conjunct2 [OF eff]]] .
  moreover have "list_all (\<lambda>u. us_url u = lit ''http://'' @ host @ [58] @ dec port @ path_part path @ query_part rq \<and>
      filter (\<lambda>(n, _). n = ''origin'') (us_headers u) = [(''origin'', lit ''http://'' @ host @ [58] @ dec port)] \<and>
      length (us_body u) \<le> BODY_LIMIT) (oc_sent oc)"
    unfolding list_all_iff by (intro ballI sent)
  moreover have "list_all (\<lambda>d. wd_url d = lit ''ws://'' @ host @ [58] @ dec port @ path_part path @ query_part rq) (oc_dials oc)"
    unfolding list_all_iff by (intro ballI dialled)
  ultimately show ?thesis using p ok by (intro conjI exI [of _ host] exI [of _ port] exI [of _ path])
qed

text \<open>
  The preview hands the hub's session to the previewed server. Headers of the browser's request
  other than those about the connection and the origin go through, so the server that the path names, on
  whatever host, gets the \<open>cookie\<close> and \<open>authorization\<close> headers with which the browser is logged in to the hub.
\<close>

theorem preview_leaks_session_cookie:
  assumes "proxy_handler_wildcard env cfg now conn_ip rq s = (oc, s')" and "u \<in> set (oc_sent oc)"
    and "(n, Text v) \<in> set (wr_headers rq)" and "n = ''cookie'' \<or> n = ''authorization''"
  shows "(n, v) \<in> set (us_headers u)"
proof -
  have "oc_sent oc \<noteq> [] \<or> oc_dials oc \<noteq> []" using assms(2) by auto
  with assms(1) show ?thesis
  proof (rule wildcard_effects)
    fix host port path
    assume run: "proxy_internal env conn_ip (pc_allowed_origins cfg) (pc_trusted cfg) host port path rq = oc"
    obtain body where "u = preview_request host port path rq body"
      using proxy_internal_sent [OF run assms(2)] .
    then show ?thesis
      using assms(3,4) by (auto simp: preview_request_def in_forwarded should_forward_header_def has_prefix_def)
  qed
qed

subsection \<open>A click on this machine\<close>

definition demo_proxy_env :: proxy_env where
  "demo_proxy_env = \<lparr>pe_lib = demo_lib, pe_walk = (\<lambda>_ _ _ h. h), pe_script = [], pe_net = (\<lambda>_. Inl NoConnection),
     pe_ws = (\<lambda>_. Some []), pe_upgrade = True\<rparr>"

definition demo_cfg :: preview_cfg where
  "demo_cfg = \<lparr>pc_allow_external = False, pc_allowed_origins = [], pc_trusted = [], pc_token = lit ''t'', pc_port = 8999\<rparr>"

definition demo_click :: web_request where
  "demo_click = \<lparr>wr_method = ''GET'', wr_path = lit ''/preview/5173/a'', wr_query = None,
     wr_headers = [(''cookie'', Text (lit ''dinotty_session_8999=s''))], wr_body = []\<rparr>"

lemma demo_passes: "checked demo_cfg now (V4 0x7f000001) demo_click s = (None, s)"
  by (simp add: checked_def check_preview_auth_def demo_cfg_def demo_click_def real_client_ip_def 
      is_loopback_def is_cross_site_browser_request_def header_str_def as_map_def)

lemma demo_click_path:
  "parse_preview_path (case strip_prefix (lit ''/preview/'') (wr_path demo_click) of Some a \<Rightarrow> a | None \<Rightarrow> []) = Some (LOCALHOST, 5173, lit ''/a'')"
  by (simp add: demo_click_def parse_preview_path_def  parse_u16_def parse_unsigned_def parse_digits_def undec_def
      is_digit_def lit_def)

lemma demo_sends:
  "\<exists>oc. proxy_handler_wildcard demo_proxy_env demo_cfg now (V4 0x7f000001) demo_click s = (oc, s) \<and>
     oc_sent oc = [preview_request LOCALHOST 5173 (lit ''/a'') demo_click []]"
proof -
  have "is_valid_proxy_host LOCALHOST" by (simp add: is_valid_proxy_host_def LOCALHOST_def lit_def utf8_len_def)
  moreover have "\<not> is_websocket demo_click" by (simp add: is_websocket_def demo_click_def header_text_def header_str_def as_map_def)
  moreover have "extract_request demo_click = Some []" by (simp add: extract_request_def demo_click_def)
  ultimately show ?thesis
    by (simp add: proxy_handler_wildcard_def demo_passes demo_click_path proxy_internal_def Let_def)
qed

theorem preview_guard_witness: "may_preview demo_cfg 0 (V4 0x7f000001) demo_click \<lparr>ss_sessions = [], ss_ttl_secs = 0, ss_throttle = 0\<rparr>"
proof -
  obtain oc where run: "proxy_handler_wildcard demo_proxy_env demo_cfg 0 (V4 0x7f000001) demo_click \<lparr>ss_sessions = [], ss_ttl_secs = 0, ss_throttle = 0\<rparr> = (oc, \<lparr>ss_sessions = [], ss_ttl_secs = 0, ss_throttle = 0\<rparr>)"
    and "oc_sent oc = [preview_request LOCALHOST 5173 (lit ''/a'') demo_click []]" using demo_sends by blast
  then show ?thesis using preview_guard [OF run] by simp
qed

theorem preview_leaks_session_cookie_witness:
  "(''cookie'', lit ''dinotty_session_8999=s'') \<in> set (us_headers (preview_request LOCALHOST 5173 (lit ''/a'') demo_click []))"
proof -
  obtain oc where run: "proxy_handler_wildcard demo_proxy_env demo_cfg 0 (V4 0x7f000001) demo_click \<lparr>ss_sessions = [], ss_ttl_secs = 0, ss_throttle = 0\<rparr> = (oc, \<lparr>ss_sessions = [], ss_ttl_secs = 0, ss_throttle = 0\<rparr>)"
    and sent: "oc_sent oc = [preview_request LOCALHOST 5173 (lit ''/a'') demo_click []]" using demo_sends by blast
  show ?thesis by (rule preview_leaks_session_cookie [OF run]) (simp_all add: sent demo_click_def)
qed

subsection \<open>Cookies\<close>

text \<open>Only the first \<open>Path\<close> of a cookie is moved under the preview; a browser goes by the last one.\<close>

lemma second_cookie_path_escapes:
  "rewrite_set_cookie (lit ''a=b;Path=/x;Path=/'') (Some (Internal LOCALHOST 5173)) = lit ''a=b; Path=/preview/5173/x;Path=/''"
  by (simp add: rewrite_set_cookie_def drop_attr_def cookie_attr_def secure_attr_def fold_case_def to_ascii_lower_def
      trim_start_def is_whitespace_def preview_prefix_def LOCALHOST_def dec.simps lit_def Let_def)

text \<open>A dollar sign in a cookie's path is read as a reference to a group of the expression, and vanishes.\<close>

lemma cookie_path_template:
  "rewrite_set_cookie (lit ''a=b;Path=/$x/y'') (Some (Internal LOCALHOST 5173)) = lit ''a=b; Path=/preview/5173//y''"
  by (simp add: rewrite_set_cookie_def drop_attr_def cookie_attr_def secure_attr_def fold_case_def to_ascii_lower_def
      trim_start_def is_whitespace_def preview_prefix_def LOCALHOST_def dec.simps lit_def Let_def group_char_def group_text_def
      parse_digits_def is_digit_def)

subsection \<open>Event streams\<close>

text \<open>An event stream is text, so it is read to its end before it is passed on, with its length.\<close>

lemma event_stream_is_buffered:
  assumes "header_text (an_headers a) ''content-type'' = Some (lit ''text/event-stream'')"
  shows "(''content-length'', Text (dec (length (an_body (build_proxied_response lib walk b s (Some (Internal h p)) a)))))
    \<in> set (an_headers (build_proxied_response lib walk b s (Some (Internal h p)) a))"
  using assms by (simp add: build_proxied_response_def may_rewrite_def starts_with_def lit_def Let_def)

end
