(* ===== verification/ExternalProps.thy ===== *)
theory ExternalProps
  imports External ProxyProps
begin

section \<open>Properties of the proxy for external pages\<close>

text \<open>
  That no request the proxy makes, over redirects and with clients from the cache, can connect to a
  private address; the bound on the cache; and what the requests carry.
\<close>

subsection \<open>Where a client connects to\<close>

text \<open>
  The address in the URL, the addresses pinned for its name (\<open>pinned_client\<close> pins a name only to addresses
  there are), or, with \<open>None\<close>, whatever the system's resolver says by then.
\<close>

definition reaches :: "resolved_target \<Rightarrow> url \<Rightarrow> ip_addr list option" where
  "reaches c u =
     (case ur_host u of
        None \<Rightarrow> Some []
      | Some h \<Rightarrow>
          (case parse_ip (bare_host h) of
             Some ip \<Rightarrow> Some [ip]
           | None \<Rightarrow> if rt_domain c = Some (bare_host h) \<and> rt_addrs c \<noteq> [] then Some (map fst (rt_addrs c)) else None))"

definition only_public :: "hop \<Rightarrow> bool" where
  "only_public h =
     (case h of (c, u, _) \<Rightarrow>
        (case reaches c u of Some ips \<Rightarrow> list_all (\<lambda>ip. \<not> is_private_ip ip) ips | None \<Rightarrow> False))"

text \<open>A client made for a host: its addresses are public, and it is pinned unless the host is an address.\<close>

definition made_for :: "rstring option \<Rightarrow> resolved_target \<Rightarrow> bool" where
  "made_for host c \<longleftrightarrow> list_all (\<lambda>(ip, _). \<not> is_private_ip ip) (rt_addrs c) \<and>
     (case host of
        None \<Rightarrow> True
      | Some h \<Rightarrow>
          (case parse_ip (bare_host h) of
             Some ip \<Rightarrow> \<not> is_private_ip ip
           | None \<Rightarrow> rt_domain c = Some (bare_host h) \<and> rt_addrs c \<noteq> []))"

lemma made_for_public: "made_for (ur_host u) c \<Longrightarrow> only_public (c, u, q)"
  by (auto simp: made_for_def only_public_def reaches_def list_all_iff split: option.splits)

text \<open>The resolver promises at least one address when it answers.\<close>

definition answers :: "resolver \<Rightarrow> bool" where
  "answers dns \<longleftrightarrow> (\<forall>h. dns h \<noteq> Some [])"

lemma resolve_target_made_for: "resolve_target dns u = Inr t \<Longrightarrow> answers dns \<Longrightarrow> made_for (ur_host u) t"
  by (auto simp: resolve_target_def made_for_def answers_def Let_def list_all_iff list_ex_iff split: option.splits if_splits)

subsection \<open>Authorities\<close>

text \<open>
  What the URL parser promises of web addresses: a host, and no colon in it but inside the brackets of an
  address.
\<close>

definition bracketed :: "rstring \<Rightarrow> bool" where
  "bracketed h \<longleftrightarrow> (\<exists>t. h = 91 # t @ [93] \<and> 93 \<notin> set t)"

definition host_ok :: "rstring \<Rightarrow> bool" where
  "host_ok h \<longleftrightarrow> 58 \<notin> set h \<and> take 1 h \<noteq> [91] \<or> bracketed h"

definition url_ok :: "url \<Rightarrow> bool" where
  "url_ok u \<longleftrightarrow> 58 \<notin> set (ur_scheme u) \<and> (\<forall>h. ur_host u = Some h \<longrightarrow> h \<noteq> [] \<and> host_ok h)"

definition is_web :: "url \<Rightarrow> bool" where
  "is_web u \<longleftrightarrow> ur_scheme u = lit ''http'' \<or> ur_scheme u = lit ''https''"

definition urls_ok :: "url_lib \<Rightarrow> bool" where
  "urls_ok lib \<longleftrightarrow> (\<forall>s u. ul_parse lib s = Some u \<longrightarrow> is_web u \<longrightarrow> url_ok u) \<and>
     (\<forall>b s u. ul_join lib b s = Some u \<longrightarrow> is_web u \<longrightarrow> url_ok u)"

definition env_ok :: "fetch_env \<Rightarrow> bool" where
  "env_ok env \<longleftrightarrow> urls_ok (fe_lib env) \<and> (\<forall>n. answers (fe_dns env n))"

lemma takeWhile_stop: "x \<notin> set a \<Longrightarrow> takeWhile (\<lambda>c. c \<noteq> x) (a @ x # b) = a"
  by (induction a) auto

lemma takeWhile_all: "x \<notin> set a \<Longrightarrow> takeWhile (\<lambda>c. c \<noteq> x) a = a"
  by (induction a) auto

definition authority_host :: "rstring \<Rightarrow> rstring" where
  "authority_host a =
     (let t = drop 3 (dropWhile (\<lambda>c. c \<noteq> 58) a) in
      if take 1 t = [91] then takeWhile (\<lambda>c. c \<noteq> 93) t @ [93] else takeWhile (\<lambda>c. c \<noteq> 58) t)"

lemma authority_host: "url_ok u \<Longrightarrow> authority_host (proxy_authority u) = (case ur_host u of Some h \<Rightarrow> h | None \<Rightarrow> [])"
proof -
  assume ok: "url_ok u"
  let ?h = "case ur_host u of Some h \<Rightarrow> h | None \<Rightarrow> []"
  let ?p = "case ur_port u of Some p \<Rightarrow> 58 # dec p | None \<Rightarrow> []"
  have "dropWhile (\<lambda>c. c \<noteq> 58) (ur_scheme u @ 58 # x) = 58 # x" for x
    using ok by (subst dropWhile_append2) (auto simp: url_ok_def)
  moreover have "lit ''://'' = [58, 47, 47]" by (simp add: lit_def)
  ultimately have t: "drop 3 (dropWhile (\<lambda>c. c \<noteq> 58) (proxy_authority u)) = ?h @ ?p"
    by (simp add: proxy_authority_def)
  have h: "host_ok ?h" using ok by (auto simp: url_ok_def host_ok_def split: option.split)
  show ?thesis
  proof (cases "bracketed ?h")
    case True
    then obtain b where "?h = 91 # b @ [93]" "93 \<notin> set b" unfolding bracketed_def by blast
    then show ?thesis using takeWhile_stop [of 93 b] unfolding authority_host_def t by simp
  next
    case False
    then have n: "58 \<notin> set ?h" and "take 1 ?h \<noteq> [91]" using h by (auto simp: host_ok_def)
    then have "take 1 (?h @ ?p) \<noteq> [91]" by (cases ?h) (auto split: option.splits)
    moreover have "takeWhile (\<lambda>c. c \<noteq> 58) (?h @ ?p) = ?h"
      using takeWhile_stop [OF n] takeWhile_all [OF n] by (cases "ur_port u") auto
    ultimately show ?thesis unfolding authority_host_def t by simp
  qed
qed

lemma same_authority:
  assumes "url_ok u" and "url_ok v" and "proxy_authority u = proxy_authority v"
  shows "ur_host u = ur_host v"
proof -
  have "(case ur_host u of Some h \<Rightarrow> h | None \<Rightarrow> []) = (case ur_host v of Some h \<Rightarrow> h | None \<Rightarrow> [])"
    using authority_host [OF assms(1)] authority_host [OF assms(2)] assms(3) by simp
  with assms(1,2) show ?thesis by (auto simp: url_ok_def split: option.splits)
qed

subsection \<open>The cache\<close>

definition cache_ok :: "(pinned_key, pinned_entry) amap \<Rightarrow> bool" where
  "cache_ok m \<longleftrightarrow> length m \<le> CLIENT_CACHE_CAP \<and>
     (\<forall>k e. (k, e) \<in> set m \<longrightarrow> (\<exists>u. url_ok u \<and> proxy_authority u = fst k \<and> made_for (ur_host u) (pn_client e)))"

lemma oldest_in: "m \<noteq> [] \<Longrightarrow> \<exists>k e. oldest m = Some k \<and> (k, e) \<in> set m"
  by (induction m rule: oldest.induct) (auto split: if_splits)

lemma al_del_shrinks: "(k, e) \<in> set m \<Longrightarrow> length (al_del k m) < length m"
  unfolding al_del_def by (rule length_filter_less) auto

lemma drop_oldest_bounded: "length m \<le> n \<Longrightarrow> length (drop_oldest cap n m) \<le> cap"
proof (induction cap n m rule: drop_oldest.induct)
  case (2 cap n m)
  show ?case
  proof (cases "length m \<le> cap")
    case False
    then have "m \<noteq> []" by auto
    then obtain k e where k: "oldest m = Some k" "(k, e) \<in> set m" using oldest_in by blast
    with al_del_shrinks [OF k(2)] 2 False show ?thesis by simp
  qed simp
qed simp

lemma drop_oldest_subset: "set (drop_oldest cap n m) \<subseteq> set m"
  by (induction cap n m rule: drop_oldest.induct) (auto simp: al_del_def split: option.splits)

lemma evict_oldest_bounded: "length (evict_oldest ttl cap now m) \<le> cap"
  unfolding evict_oldest_def Let_def using drop_oldest_bounded [OF order_refl] by simp

lemma evict_oldest_subset: "set (evict_oldest ttl cap now m) \<subseteq> set m"
proof -
  let ?kept = "filter (\<lambda>(_, e). duration_since now (pn_created e) < ttl) m"
  have "set (drop_oldest cap (length ?kept) ?kept) \<subseteq> set m"
    using drop_oldest_subset [of cap "length ?kept" ?kept] by auto
  then show ?thesis by (simp add: evict_oldest_def Let_def)
qed

lemma in_al_put: "(k, e) \<in> set (al_put k0 e0 m) \<Longrightarrow> (k, e) = (k0, e0) \<or> (k, e) \<in> set m"
  by (induction k0 e0 m rule: al_put.induct) (auto split: if_splits)

lemma cache_ok_made_for:
  assumes "cache_ok m" and "map_of m (proxy_authority u, a) = Some e" and "url_ok u"
  shows "made_for (ur_host u) (pn_client e)"
proof -
  have "((proxy_authority u, a), e) \<in> set m" using assms(2) by (rule map_of_SomeD)
  then obtain v where v: "url_ok v" "proxy_authority v = proxy_authority u" "made_for (ur_host v) (pn_client e)"
    using assms(1) unfolding cache_ok_def by fastforce
  with same_authority [OF v(1) assms(3)] show ?thesis by simp
qed

lemma client_for_ok:
  assumes "client_for CLIENT_CACHE_TTL CLIENT_CACHE_CAP now (proxy_authority u) target m = (c, m')"
    and "cache_ok m" and "url_ok u" and "made_for (ur_host u) target"
  shows "made_for (ur_host u) c \<and> cache_ok m'"
proof -
  let ?k = "(proxy_authority u, mset (rt_addrs target))"
  let ?e = "\<lparr>pn_client = target, pn_created = now\<rparr>"
  have built: "cache_ok (evict_oldest CLIENT_CACHE_TTL CLIENT_CACHE_CAP now (al_put ?k ?e m0))" if sub: "set m0 \<subseteq> set m" for m0
  proof -
    have "\<exists>v. url_ok v \<and> proxy_authority v = fst k \<and> made_for (ur_host v) (pn_client e)"
      if "(k, e) \<in> set (evict_oldest CLIENT_CACHE_TTL CLIENT_CACHE_CAP now (al_put ?k ?e m0))" for k e
    proof -
      have "(k, e) = (?k, ?e) \<or> (k, e) \<in> set m"
        using in_al_put [OF subsetD [OF evict_oldest_subset that]] sub by blast
      then show ?thesis
      proof
        assume "(k, e) = (?k, ?e)"
        then show ?thesis using assms(3,4) by (intro exI [of _ u]) simp
      next
        assume "(k, e) \<in> set m"
        then show ?thesis using assms(2) unfolding cache_ok_def by blast
      qed
    qed
    then show ?thesis using evict_oldest_bounded unfolding cache_ok_def by blast
  qed
  have del: "set (al_del ?k m) \<subseteq> set m" by (auto simp: al_del_def)
  show ?thesis
  proof (cases "map_of m ?k")
    case None
    with assms(1,4) built [OF order_refl] show ?thesis by (auto simp: client_for_def Let_def)
  next
    case (Some e)
    with assms(1,2,4) built [OF del] cache_ok_made_for [OF assms(2) Some assms(3)] show ?thesis
      by (auto simp: client_for_def Let_def split: if_splits)
  qed
qed

subsection \<open>Hops\<close>

text \<open>What one turn of the redirect loop does: it ends with at most one hop, or goes on from the URL of a redirect.\<close>

lemma fetch_cases:
  assumes "fetch env hs (Suc left) u m body cache = (r, cache', hops)"
  obtains (refused) "hops = []" and "cache' = cache"
  | (stopped) target c where "resolve_target (fe_dns env left) u = Inr target"
      and "client_for CLIENT_CACHE_TTL CLIENT_CACHE_CAP (fe_now env left) (proxy_authority u) target cache = (c, cache')"
      and "hops = [(c, u, external_request (fe_lib env) u m hs body)]"
  | (redirected) target c m1 nxt m' body' rest where "resolve_target (fe_dns env left) u = Inr target"
      and "client_for CLIENT_CACHE_TTL CLIENT_CACHE_CAP (fe_now env left) (proxy_authority u) target cache = (c, m1)"
      and "hops = (c, u, external_request (fe_lib env) u m hs body) # rest"
      and "\<exists>l. ul_join (fe_lib env) u l = Some nxt" and "is_web nxt" and "fetch env hs left nxt m' body' m1 = (r, cache', rest)"
proof (cases "resolve_target (fe_dns env left) u")
  case (Inl d)
  with assms refused show ?thesis by (cases d) auto
next
  case (Inr target)
  obtain c m1 where cl: "client_for CLIENT_CACHE_TTL CLIENT_CACHE_CAP (fe_now env left) (proxy_authority u) target cache = (c, m1)"
    by fastforce
  let ?h = "(c, u, external_request (fe_lib env) u m hs body)"
  show ?thesis
  proof (cases "fe_net env left ?h")
    case (Inl e)
    with assms Inr cl stopped show ?thesis by (auto simp: Let_def)
  next
    case net: (Inr a)
    show ?thesis
    proof (cases "is_redirection (an_status a) \<and> header_text (an_headers a) ''location'' \<bind> ul_join (fe_lib env) u \<noteq> None")
      case False
      with assms Inr cl net stopped show ?thesis by (auto simp: Let_def split: if_splits)
    next
      case True
      then obtain l nxt where l: "ul_join (fe_lib env) u l = Some nxt"
        and nxt: "header_text (an_headers a) ''location'' \<bind> ul_join (fe_lib env) u = Some nxt"
        by (auto split: bind_splits)
      show ?thesis
      proof (cases "ur_scheme nxt \<noteq> lit ''http'' \<and> ur_scheme nxt \<noteq> lit ''https''")
        case bad: True
        with assms Inr cl net nxt stopped show ?thesis by (auto simp: Let_def split: if_splits)
      next
        case False
        let ?again = "an_status a = 303 \<or> (an_status a = 301 \<or> an_status a = 302) \<and> m \<noteq> ''GET'' \<and> m \<noteq> ''HEAD''"
        obtain rest where "fetch env hs left nxt (if ?again then ''GET'' else m) (if ?again then [] else body) m1 = (r, cache', rest)"
            and "hops = ?h # rest"
          using False assms Inr cl net nxt \<open>is_redirection _ \<and> _\<close> by (auto simp: Let_def split: prod.splits)
        moreover have "is_web nxt" using False by (auto simp: is_web_def)
        ultimately show ?thesis using redirected [OF Inr cl] l by blast
      qed
    qed
  qed
qed

lemma fetch_safe:
  assumes "fetch env hs n u m body cache = (r, cache', hops)" and "env_ok env" and "cache_ok cache" and "url_ok u"
  shows "cache_ok cache' \<and> length hops \<le> n \<and> list_all only_public hops"
  using assms
proof (induction n arbitrary: u m body cache hops)
  case 0
  then show ?case by simp
next
  case (Suc n)
  have made: "made_for (ur_host u) c" and kept: "cache_ok m1"
    if "resolve_target (fe_dns env n) u = Inr t"
      and "client_for CLIENT_CACHE_TTL CLIENT_CACHE_CAP (fe_now env n) (proxy_authority u) t cache = (c, m1)" for t c m1
    using client_for_ok [OF that(2) Suc.prems(3,4) resolve_target_made_for [OF that(1)]] Suc.prems(2) by (auto simp: env_ok_def)
  from Suc.prems(1) show ?case
  proof (cases rule: fetch_cases)
    case refused
    with Suc.prems show ?thesis by simp
  next
    case stopped
    with made [OF stopped(1,2)] kept [OF stopped(1,2)] show ?thesis by (simp add: made_for_public)
  next
    case (redirected target c m1 nxt m' body' rest)
    have "url_ok nxt" using redirected(4,5) Suc.prems(2) by (auto simp: urls_ok_def env_ok_def)
    with Suc.IH [OF redirected(6) Suc.prems(2) kept [OF redirected(1,2)]] redirected(3) made [OF redirected(1,2)]
    show ?thesis by (simp add: made_for_public)
  qed
qed

subsection \<open>Requests\<close>

lemma handler_hops:
  assumes "external_proxy_handler env walk script dns t rq cache = (a, cache', hops)"
  shows "hops = [] \<and> cache' = cache \<or>
    (\<exists>u body r. ul_parse (fe_lib env) t = Some u \<and> is_web u \<and> fetch env (wr_headers rq) 10 u (wr_method rq) body cache = (r, cache', hops))"
  using assms by (auto simp: external_proxy_handler_def is_web_def split: if_splits option.splits sum.splits denied.splits prod.splits)

lemma handler_safe:
  assumes "external_proxy_handler env walk script dns t rq cache = (a, cache', hops)"
    and "env_ok env" and "cache_ok cache"
  shows "cache_ok cache' \<and> length hops \<le> 10 \<and> list_all only_public hops"
  using handler_hops [OF assms(1)]
proof (elim disjE exE conjE)
  fix u body r
  assume "ul_parse (fe_lib env) t = Some u" and "is_web u" and f: "fetch env (wr_headers rq) 10 u (wr_method rq) body cache = (r, cache', hops)"
  then have "url_ok u" using assms(2) by (auto simp: urls_ok_def env_ok_def)
  then show ?thesis by (rule fetch_safe [OF f assms(2,3)])
qed (use assms(3) in simp)

text \<open>Pages asked for one after the other, with the cache they share.\<close>

type_synonym page = "fetch_env \<times> html_lib \<times> rstring \<times> resolver \<times> rstring \<times> web_request"

fun external_run :: "page list \<Rightarrow> (pinned_key, pinned_entry) amap \<Rightarrow> hop list" where
  "external_run [] cache = []"
| "external_run ((env, walk, script, dns, t, rq) # pages) cache =
     (let (_, cache', hops) = external_proxy_handler env walk script dns t rq cache in hops @ external_run pages cache')"

lemma external_run_safe:
  "list_all (\<lambda>(env, _). env_ok env) pages \<Longrightarrow> cache_ok cache \<Longrightarrow>
     list_all only_public (external_run pages cache) \<and> length (external_run pages cache) \<le> 10 * length pages"
proof (induction pages cache rule: external_run.induct)
  case (2 env walk script dns t rq pages cache)
  obtain a cache' hops where h: "external_proxy_handler env walk script dns t rq cache = (a, cache', hops)"
    by (cases "external_proxy_handler env walk script dns t rq cache") auto
  have "cache_ok cache' \<and> length hops \<le> 10 \<and> list_all only_public hops"
    using handler_safe [OF h] 2(2,3) by simp
  with 2(1) [OF h [symmetric] refl] 2(2) h show ?case by simp
qed simp

lemma cache_ok_Nil: "cache_ok []"
  by (simp add: cache_ok_def)

text \<open>A library that knows one page of a public server, which redirects to this machine.\<close>

definition demo_page :: url where
  "demo_page = \<lparr>ur_text = lit ''http://a.b/'', ur_scheme = lit ''http'', ur_host = Some (lit ''a.b''), ur_port = None,
     ur_path = lit ''/'', ur_query = None, ur_fragment = None, ur_user = [], ur_password = None, ur_origin = lit ''http://a.b''\<rparr>"

definition demo_env :: fetch_env where
  "demo_env = \<lparr>fe_lib = \<lparr>ul_parse = (\<lambda>s. if s = lit ''http://a.b/'' then Some demo_page else None),
       ul_join = (\<lambda>_ _. Some (demo_page\<lparr>ur_host := Some (lit ''127.0.0.1'')\<rparr>)), ul_encode = (\<lambda>s. s), ul_decode = Some\<rparr>,
     fe_dns = (\<lambda>_ _. Some [V4 0x01020304]),
     fe_net = (\<lambda>_ _. Inr \<lparr>an_status = 302, an_headers = [(''location'', Text [47])], an_body = []\<rparr>), fe_now = (\<lambda>_. 0)\<rparr>"

definition demo_request :: web_request where
  "demo_request = \<lparr>wr_method = ''GET'', wr_path = [], wr_query = None,
     wr_headers = [(''cookie'', Text (lit ''dinotty_session_8999=s''))], wr_body = []\<rparr>"

lemma demo_env_ok: "env_ok demo_env"
  by (auto simp: env_ok_def answers_def urls_ok_def demo_env_def demo_page_def url_ok_def host_ok_def lit_def)

lemma demo_names:
  "parse_ip (lit ''a.b'') = None" "parse_ip (bare_host (lit ''127.0.0.1'')) = Some (V4 0x7F000001)"
  "is_private_ip (V4 0x7F000001)" "\<not> is_private_ip (V4 0x01020304)" "bare_host (lit ''a.b'') = lit ''a.b''"
  by (simp_all add: bare_host_def is_private_ip_def is_private_v4_def parse_eval read_ipv6_def read_groups_numeral replicate_num)

abbreviation demo_client :: resolved_target where
  "demo_client \<equiv> \<lparr>rt_domain = Some (lit ''a.b''), rt_addrs = [(V4 0x01020304, 80)]\<rparr>"

lemma demo_resolves: "resolve_target (fe_dns demo_env n) demo_page = Inr demo_client"
proof -
  have "url_port demo_page = 80" by code_simp
  moreover have "ur_host demo_page = Some (lit ''a.b'')" by (simp add: demo_page_def)
  moreover have "fe_dns demo_env n = (\<lambda>_. Some [V4 0x01020304])" by (simp add: demo_env_def)
  ultimately show ?thesis by (simp add: resolve_target_def Let_def demo_names)
qed

lemma demo_redirects:
  "fetch demo_env hs (Suc n) (demo_page\<lparr>ur_host := Some (lit ''127.0.0.1'')\<rparr>) m body cache =
     (Inl (plain 403 ''Access to private/internal addresses is not allowed''), cache, [])"
  by (simp add: resolve_target_def demo_names)

lemma demo_fetch:
  "\<exists>r c. fetch demo_env hs 10 demo_page ''GET'' [] [] =
     (r, c, [(demo_client, demo_page, external_request (fe_lib demo_env) demo_page ''GET'' hs [])])"
proof -
  let ?k = "(proxy_authority demo_page, mset (rt_addrs demo_client))"
  have cl: "client_for CLIENT_CACHE_TTL CLIENT_CACHE_CAP now (proxy_authority demo_page) demo_client [] =
      (demo_client, evict_oldest CLIENT_CACHE_TTL CLIENT_CACHE_CAP now [(?k, \<lparr>pn_client = demo_client, pn_created = now\<rparr>)])" for now
    by (simp add: client_for_def Let_def)
  have net: "fe_net demo_env n h = Inr \<lparr>an_status = 302, an_headers = [(''location'', Text [47])], an_body = []\<rparr>" for n h
    by (simp add: demo_env_def)
  have loc: "header_text [(''location'', Text [47])] ''location'' = Some [47]"
    by (simp add: header_text_def header_str_def as_map_def to_str_def)
  have join: "ul_join (fe_lib demo_env) demo_page [47] = Some (demo_page\<lparr>ur_host := Some (lit ''127.0.0.1'')\<rparr>)"
    by (simp add: demo_env_def)
  have scheme: "ur_scheme demo_page = lit ''http''" by (simp add: demo_page_def)
  have "\<exists>r c. fetch demo_env hs (Suc (Suc 8)) demo_page ''GET'' [] [] =
     (r, c, [(demo_client, demo_page, external_request (fe_lib demo_env) demo_page ''GET'' hs [])])"
    using demo_redirects [of hs 8]
    by (subst fetch.simps(2)) (simp add: demo_resolves cl net loc join scheme is_redirection_def del: fetch.simps)
  then show ?thesis by simp
qed

lemma demo_page_run:
  "\<exists>r c. external_proxy_handler demo_env (\<lambda>_ _ _ h. h) [] (\<lambda>_. Some [V4 0x01020304]) (lit ''http://a.b/'') demo_request [] =
     (r, c, [(demo_client, demo_page, external_request (fe_lib demo_env) demo_page ''GET'' (wr_headers demo_request) [])])"
proof -
  have "ul_parse (fe_lib demo_env) (lit ''http://a.b/'') = Some demo_page" by (simp add: demo_env_def)
  moreover have "lit ''http://a.b/'' \<noteq> []" by (simp add: lit_def)
  moreover have "ur_scheme demo_page = lit ''http''" by (simp add: demo_page_def)
  moreover have "resolve_target (\<lambda>_. Some [V4 0x01020304]) demo_page = Inr demo_client"
    using demo_resolves by (simp add: demo_env_def)
  moreover have "extract_request demo_request = Some []" and "wr_method demo_request = ''GET''"
    by (simp_all add: extract_request_def demo_request_def)
  moreover obtain r c where "fetch demo_env (wr_headers demo_request) 10 demo_page ''GET'' [] [] =
     (r, c, [(demo_client, demo_page, external_request (fe_lib demo_env) demo_page ''GET'' (wr_headers demo_request) [])])"
    using demo_fetch by blast
  ultimately show ?thesis by (cases r) (auto simp: external_proxy_handler_def split: prod.split option.split)
qed



subsection \<open>What the requests carry\<close>

lemma fetch_headers:
  "fetch env hs n u m body cache = (r, cache', hops) \<Longrightarrow> (c, v, q) \<in> set hops \<Longrightarrow>
     us_headers q = forwarded (\<lambda>x. x \<notin> external_dropped) hs"
proof (induction n arbitrary: u m body cache hops)
  case (Suc n)
  from Suc.prems(1) show ?case
    by (cases rule: fetch_cases) (use Suc.prems(2) Suc.IH in \<open>auto simp: external_request_def\<close>)
qed simp

text \<open>
  The proxy for external pages gives the user's credentials away. Whatever server a page is fetched
  from, and every server it redirects to, gets the \<open>cookie\<close> and \<open>authorization\<close> headers of the browser's
  request to the hub unchanged: the session cookie and the token that the hub itself accepts.
\<close>

theorem external_proxy_leaks_session_cookie:
  assumes "external_proxy_handler env walk script dns t rq cache = (a, cache', hops)" and "(c, u, q) \<in> set hops"
    and "(n, Text v) \<in> set (wr_headers rq)" and "n = ''cookie'' \<or> n = ''authorization''"
  shows "(n, v) \<in> set (us_headers q)"
  using handler_hops [OF assms(1)]
proof (elim disjE exE conjE)
  fix u0 body r
  assume "fetch env (wr_headers rq) 10 u0 (wr_method rq) body cache = (r, cache', hops)"
  from fetch_headers [OF this assms(2)] assms(3,4) show ?thesis by (auto simp: in_forwarded external_dropped_def)
qed (use assms(2) in simp)

theorem external_proxy_leaks_session_cookie_witness:
  "(''cookie'', lit ''dinotty_session_8999=s'') \<in> set (us_headers (external_request (fe_lib demo_env) demo_page ''GET'' (wr_headers demo_request) []))"
proof -
  obtain r c where run: "external_proxy_handler demo_env (\<lambda>_ _ _ h. h) [] (\<lambda>_. Some [V4 0x01020304]) (lit ''http://a.b/'') demo_request [] =
     (r, c, [(demo_client, demo_page, external_request (fe_lib demo_env) demo_page ''GET'' (wr_headers demo_request) [])])"
    using demo_page_run by blast
  show ?thesis by (rule external_proxy_leaks_session_cookie [OF run]) (simp_all add: demo_request_def)
qed

end
