(* ===== verification/Relay.thy ===== *)
theory Relay
  imports Proxy
begin

section \<open>Remote servers and the relay\<close>

text \<open>
  \<open>settings/remote_servers.rs\<close> with the token inheritance of \<open>settings/handlers.rs\<close>, and
  \<open>proxy/relay.rs\<close>: the roster of other servers, and the relay that serves them under
  \<open>/__srv/<id>/\<close> with the roster's tokens. The network and the parser of JSON answers are parameters.
\<close>

subsection \<open>The roster\<close>

record remote_server =
  rs_id :: rstring
  rs_name :: rstring
  rs_url :: rstring
  rs_token :: "rstring option"
  rs_group :: "rstring option"
  rs_last_version :: "rstring option"
  rs_has_token :: bool

definition refresh_has_token :: "remote_server \<Rightarrow> remote_server" where
  "refresh_has_token s = s\<lparr>rs_has_token := (case rs_token s of Some t \<Rightarrow> t \<noteq> [] | None \<Rightarrow> False)\<rparr>"

definition scrub_secrets :: "remote_server \<Rightarrow> remote_server" where
  "scrub_secrets s = (refresh_has_token s)\<lparr>rs_token := None\<rparr>"

definition get_remote_servers :: "remote_server list \<Rightarrow> remote_server list" where
  "get_remote_servers = map scrub_secrets"

definition normalize_origin :: "url_lib \<Rightarrow> rstring \<Rightarrow> string + rstring" where
  "normalize_origin lib raw =
     (if trim raw = [] then Inl ''url is empty''
      else case ul_parse lib (trim raw) of
        None \<Rightarrow> Inl ''invalid url''
      | Some u \<Rightarrow>
          if ur_scheme u \<noteq> lit ''http'' \<and> ur_scheme u \<noteq> lit ''https'' then Inl ''unsupported scheme''
          else if ur_user u \<noteq> [] \<or> ur_password u \<noteq> None then Inl ''url must not embed credentials''
          else if ur_query u \<noteq> None \<or> ur_fragment u \<noteq> None then Inl ''url must not carry a query string or fragment''
          else if ur_path u \<noteq> [] \<and> ur_path u \<noteq> [47] then Inl ''url must be an origin with no path''
          else if ur_origin u = lit ''null'' then Inl ''url must name a host''
          else Inr (ur_origin u))"

definition inherit_token :: "remote_server list \<Rightarrow> remote_server \<Rightarrow> remote_server" where
  "inherit_token existing s =
     refresh_has_token (if rs_token s = None then s\<lparr>rs_token := find (\<lambda>e. rs_id e = rs_id s) existing \<bind> rs_token\<rparr> else s)"

definition inherit_remote_server_tokens :: "remote_server list \<Rightarrow> remote_server list \<Rightarrow> remote_server list" where
  "inherit_remote_server_tokens incoming existing = map (inherit_token existing) incoming"

fun normalize_roster :: "url_lib \<Rightarrow> remote_server list \<Rightarrow> (rstring \<times> string) + remote_server list" where
  "normalize_roster lib [] = Inr []"
| "normalize_roster lib (s # ss) =
     (case normalize_origin lib (rs_url s) of
        Inl reason \<Rightarrow> Inl (rs_id s, reason)
      | Inr origin \<Rightarrow> map_sum id (\<lambda>r. s\<lparr>rs_url := origin\<rparr> # r) (normalize_roster lib ss))"

text \<open>\<open>put_remote_servers\<close>: the status, and the roster afterwards; \<open>saved\<close> says whether the file was written.\<close>

definition put_remote_servers :: "url_lib \<Rightarrow> bool \<Rightarrow> remote_server list \<Rightarrow> remote_server list \<Rightarrow> nat \<times> remote_server list" where
  "put_remote_servers lib saved roster stored =
     (case normalize_roster lib roster of
        Inl _ \<Rightarrow> (400, stored)
      | Inr r \<Rightarrow> if saved then (200, inherit_remote_server_tokens r stored) else (500, stored))"

definition remember_version :: "rstring \<Rightarrow> rstring \<Rightarrow> remote_server list \<Rightarrow> remote_server list" where
  "remember_version i version =
     update_first (\<lambda>s. rs_id s = i) (\<lambda>s. s\<lparr>rs_last_version := Some version\<rparr>)"

subsection \<open>Probing\<close>

record probe_req =
  pq_id :: "rstring option"
  pq_url :: rstring
  pq_token :: "rstring option"

record probe_reply =
  pb_reachable :: bool
  pb_token_configured :: bool
  pb_server_mode :: "string option"
  pb_settings_version :: "nat option"
  pb_version :: "rstring option"
  pb_token_valid :: "bool option"

definition no_probe :: probe_reply where
  "no_probe = \<lparr>pb_reachable = False, pb_token_configured = False, pb_server_mode = None, pb_settings_version = None,
     pb_version = None, pb_token_valid = None\<rparr>"

text \<open>The fields of a JSON answer, if it is one; numbers that do not fit 32 bits are left out.\<close>

record json_info =
  ji_configured :: "bool option"
  ji_server_mode :: "bool option"
  ji_settings_version :: "nat option"
  ji_version :: "rstring option"

text \<open>With an id the target and the token are the roster's, whatever the request says.\<close>

definition probe_target :: "probe_req \<Rightarrow> remote_server list \<Rightarrow> (rstring \<times> rstring option) option" where
  "probe_target req roster =
     (case pq_id req of
        Some i \<Rightarrow> map_option (\<lambda>s. (rs_url s, rs_token s)) (find (\<lambda>s. rs_id s = i) roster)
      | None \<Rightarrow> Some (pq_url req, pq_token req))"

definition get_request :: "rstring \<Rightarrow> (string \<times> rstring) list \<Rightarrow> upstream_request" where
  "get_request u hs = \<lparr>us_method = ''GET'', us_url = u, us_headers = hs, us_body = []\<rparr>"

definition bearer_header :: "rstring \<Rightarrow> string \<times> rstring" where
  "bearer_header t = (''authorization'', lit ''Bearer '' @ t)"

definition is_success :: "nat \<Rightarrow> bool" where
  "is_success status \<longleftrightarrow> 200 \<le> status \<and> status < 300"

text \<open>The answer, the roster afterwards and the requests sent.\<close>

definition probe_remote_server ::
  "url_lib \<Rightarrow> (upstream_request \<Rightarrow> net_error + answer) \<Rightarrow> (u8 list \<Rightarrow> json_info option) \<Rightarrow> probe_req \<Rightarrow> remote_server list \<Rightarrow>
     probe_reply \<times> remote_server list \<times> upstream_request list" where
  "probe_remote_server lib net json req roster =
     (case probe_target req roster of
        None \<Rightarrow> (no_probe, roster, [])
      | Some (u, token) \<Rightarrow>
          (case normalize_origin lib u of
             Inl _ \<Rightarrow> (no_probe, roster, [])
           | Inr origin \<Rightarrow>
               let q1 = get_request (origin @ lit ''/api/token-configured'') [] in
               (case net q1 of
                  Inl _ \<Rightarrow> (no_probe, roster, [q1])
                | Inr a \<Rightarrow>
                    (case (if is_success (an_status a) then json (an_body a) \<bind> (\<lambda>i. map_option (Pair i) (ji_configured i)) else None) of
                       None \<Rightarrow> (no_probe, roster, [q1])
                     | Some (i, configured) \<Rightarrow>
                         let probe = no_probe\<lparr>pb_reachable := True, pb_token_configured := configured,
                               pb_server_mode := Some (if ji_server_mode i = Some True then ''server'' else ''embedded'')\<rparr> in
                         (case (if token = Some [] then None else token) of
                            None \<Rightarrow> (probe, roster, [q1])
                          | Some t \<Rightarrow>
                              let q2 = get_request (origin @ lit ''/api/info'') [bearer_header t] in
                              (case net q2 of
                                 Inl _ \<Rightarrow> (probe, roster, [q1, q2])
                               | Inr b \<Rightarrow>
                                   if is_success (an_status b) then
                                     (case json (an_body b) of
                                        None \<Rightarrow> (probe\<lparr>pb_token_valid := Some True\<rparr>, roster, [q1, q2])
                                      | Some i \<Rightarrow>
                                          (probe\<lparr>pb_token_valid := Some True, pb_settings_version := ji_settings_version i,
                                             pb_version := ji_version i\<rparr>,
                                           (case (pq_id req, ji_version i) of
                                              (Some d, Some v) \<Rightarrow> remember_version d v roster | _ \<Rightarrow> roster),
                                           [q1, q2]))
                                   else (probe\<lparr>pb_token_valid := (if an_status b = 401 then Some False else None)\<rparr>,
                                         roster, [q1, q2])))))))"

subsection \<open>The relay's gate\<close>

definition RELAY_PREFIX :: rstring where
  "RELAY_PREFIX = lit ''/__srv''"

definition RELAY_CSRF_HEADER :: string where
  "RELAY_CSRF_HEADER = ''x-dinotty-relay''"

definition parse_relay_path :: "rstring \<Rightarrow> (rstring \<times> rstring) option" where
  "parse_relay_path path =
     (case strip_prefix RELAY_PREFIX path \<bind> strip_prefix [47] of
        None \<Rightarrow> None
      | Some after \<Rightarrow>
          if after = [] then None
          else (case split_once 47 after of
             Some (i, rest) \<Rightarrow> if i \<noteq> [] then Some (i, rest) else None
           | None \<Rightarrow> Some (after, [])))"

definition is_hop_by_hop :: "string \<Rightarrow> bool" where
  "is_hop_by_hop n \<longleftrightarrow>
     n \<in> {''connection'', ''keep-alive'', ''te'', ''trailer'', ''transfer-encoding'', ''upgrade''} \<or> has_prefix ''proxy-'' n"

definition relay_forward_header :: "string \<Rightarrow> bool" where
  "relay_forward_header n \<longleftrightarrow>
     \<not> is_hop_by_hop n \<and> n \<noteq> RELAY_CSRF_HEADER \<and> n \<notin> {''authorization'', ''cookie'', ''content-length''} \<and>
     should_forward_header n"

definition needs_csrf_header :: "string \<Rightarrow> bool" where
  "needs_csrf_header m \<longleftrightarrow> m \<notin> {''GET'', ''HEAD'', ''OPTIONS''}"

definition has_csrf_header :: "headers \<Rightarrow> bool" where
  "has_csrf_header hs = (case header_str hs RELAY_CSRF_HEADER of Some v \<Rightarrow> trim v \<noteq> [] | None \<Rightarrow> False)"

definition is_hub_only_path :: "rstring \<Rightarrow> bool" where
  "is_hub_only_path rest =
     (let path = rev (dropWhile (\<lambda>c. c = 47) (rev rest)) in
      path = lit ''api/auth'' \<or> starts_with path (lit ''api/auth/'') \<or> path = lit ''api/token'' \<or>
      starts_with path (lit ''api/token/'') \<or> path = lit ''api/auto-token'' \<or> path = lit ''api/token-configured'' \<or>
      starts_with path (lit ''api/tokens''))"

definition normalized_relay_path :: "url_lib \<Rightarrow> rstring \<Rightarrow> rstring option" where
  "normalized_relay_path lib rest =
     map_option (\<lambda>u. dropWhile (\<lambda>c. c = 47) (ur_path u)) (ul_parse lib (lit ''http://relay.invalid/'' @ rest))"

definition authorized_target ::
  "url_lib \<Rightarrow> web_request \<Rightarrow> ip_addr \<Rightarrow> nat \<Rightarrow> instant \<Rightarrow> rstring \<Rightarrow> remote_server list \<Rightarrow> rstring \<Rightarrow> rstring \<Rightarrow> session_store \<Rightarrow>
     (denied + remote_server) \<times> session_store" where
  "authorized_target lib rq real_ip port now token servers i rest s =
     (let hs = as_map (wr_headers rq);
          (ok, s') = (if is_loopback real_ip then (True, s) else has_valid_auth hs port now token s) in
      (if \<not> ok then Inl (Denied 401 ''relay: unauthorized'')
       else if is_cross_site_browser_request hs then Inl (Denied 403 ''Cross-site requests are not allowed'')
       else case normalized_relay_path lib rest of
         None \<Rightarrow> Inl (Denied 400 ''malformed relay path'')
       | Some resolved \<Rightarrow>
           if is_hub_only_path resolved then Inl (Denied 403 ''This endpoint is not relayed; use it on the hub'')
           else if needs_csrf_header (wr_method rq) \<and> \<not> has_csrf_header hs then Inl (Denied 403 ''Missing X-Dinotty-Relay header'')
           else (case find (\<lambda>v. rs_id v = i) servers of
              Some v \<Rightarrow> Inr v
            | None \<Rightarrow> Inl (Denied 404 ''Unknown server'')), s'))"

subsection \<open>Forwarding\<close>

definition upstream_origin :: "url_lib \<Rightarrow> rstring \<Rightarrow> rstring option" where
  "upstream_origin lib raw =
     (case ul_parse lib (trim raw) of
        None \<Rightarrow> None
      | Some u \<Rightarrow>
          if ur_scheme u \<noteq> lit ''http'' \<and> ur_scheme u \<noteq> lit ''https'' then None
          else if ur_host u = None \<or> ur_host u = Some [] then None
          else Some (ur_origin u))"

definition upstream_ws_url :: "rstring \<Rightarrow> rstring \<Rightarrow> rstring \<Rightarrow> rstring option" where
  "upstream_ws_url origin rest query =
     (case strip_prefix (lit ''http://'') origin of
        Some h \<Rightarrow> Some (lit ''ws://'' @ h @ [47] @ rest @ query)
      | None \<Rightarrow> map_option (\<lambda>h. lit ''wss://'' @ h @ [47] @ rest @ query) (strip_prefix (lit ''https://'') origin))"

definition relay_response :: "answer \<Rightarrow> answer" where
  "relay_response a = a\<lparr>an_headers := filter (\<lambda>(n, _). \<not> is_hop_by_hop n) (an_headers a)\<rparr>"

text \<open>The body is left out only when its length is given as zero.\<close>

definition relay_request :: "url \<Rightarrow> web_request \<Rightarrow> rstring \<Rightarrow> upstream_request" where
  "relay_request u rq token =
     \<lparr>us_method = wr_method rq, us_url = ur_text u,
       us_headers = forwarded relay_forward_header (wr_headers rq) @ (if token = [] then [] else [bearer_header token]),
       us_body = (if map_of (wr_headers rq) ''content-length'' = Some (Text (lit ''0'')) then [] else wr_body rq)\<rparr>"

definition forward_http :: "proxy_env \<Rightarrow> web_request \<Rightarrow> rstring \<Rightarrow> rstring \<Rightarrow> rstring \<Rightarrow> outcome" where
  "forward_http env rq origin rest token =
     (case ul_parse (pe_lib env) (origin @ [47] @ rest @ query_part rq) of
        None \<Rightarrow> reply (plain 400 ''Cannot build the upstream url'')
      | Some u \<Rightarrow>
          let up = relay_request u rq token in
          \<lparr>oc_answer = Some (case pe_net env up of Inl _ \<Rightarrow> plain 502 ''cannot reach the upstream'' | Inr a \<Rightarrow> relay_response a),
            oc_sent = [up], oc_dials = []\<rparr>)"

definition token_of :: "remote_server \<Rightarrow> rstring" where
  "token_of s = (case rs_token s of Some t \<Rightarrow> t | None \<Rightarrow> [])"

definition refused :: "denied \<Rightarrow> outcome" where
  "refused d = (case d of Denied status msg \<Rightarrow> reply (plain status msg))"

definition relay_http_handler ::
  "proxy_env \<Rightarrow> preview_cfg \<Rightarrow> remote_server list \<Rightarrow> instant \<Rightarrow> ip_addr \<Rightarrow> rstring \<Rightarrow> web_request \<Rightarrow> session_store \<Rightarrow> outcome \<times> session_store" where
  "relay_http_handler env cfg servers now conn_ip i rq s =
     (case parse_relay_path (wr_path rq) of
        None \<Rightarrow> (reply (plain 400 ''Malformed relay path''), s)
      | Some (_, rest) \<Rightarrow>
          let (r, s') = authorized_target (pe_lib env) rq (real_client_ip (as_map (wr_headers rq)) conn_ip (pc_trusted cfg))
                (pc_port cfg) now (pc_token cfg) servers i rest s in
          (case r of
             Inl d \<Rightarrow> refused d
           | Inr target \<Rightarrow>
               (case upstream_origin (pe_lib env) (rs_url target) of
                  None \<Rightarrow> reply (plain 502 ''server has no usable http(s) url'')
                | Some origin \<Rightarrow> forward_http env rq origin rest (token_of target)), s'))"

text \<open>The hub's cookies are taken out of a WebSocket request; the roster's token goes in last.\<close>

definition relay_ws_handler ::
  "proxy_env \<Rightarrow> preview_cfg \<Rightarrow> remote_server list \<Rightarrow> instant \<Rightarrow> ip_addr \<Rightarrow> rstring \<Rightarrow> web_request \<Rightarrow> session_store \<Rightarrow> outcome \<times> session_store" where
  "relay_ws_handler env cfg servers now conn_ip i rq s =
     (case parse_relay_path (wr_path rq) of
        None \<Rightarrow> (reply (plain 400 ''Malformed relay path''), s)
      | Some (_, rest) \<Rightarrow>
          let (r, s') = authorized_target (pe_lib env) rq (real_client_ip (as_map (wr_headers rq)) conn_ip (pc_trusted cfg))
                (pc_port cfg) now (pc_token cfg) servers i rest s in
          (case r of
             Inl d \<Rightarrow> refused d
           | Inr target \<Rightarrow>
               (case upstream_origin (pe_lib env) (rs_url target) of
                  None \<Rightarrow> reply (plain 502 ''server has no usable http(s) url'')
                | Some origin \<Rightarrow>
                    (case upstream_ws_url origin rest (query_part rq) of
                       None \<Rightarrow> reply (plain 502 ''cannot build a websocket url'')
                     | Some u \<Rightarrow>
                         ws_outcome (proxy_websocket (pe_ws env) (pe_upgrade env) conn_ip (pc_allowed_origins cfg) (pc_trusted cfg)
                           (rq\<lparr>wr_headers := filter (\<lambda>(n, _). n \<noteq> ''cookie'') (wr_headers rq)\<rparr>) u
                           (if token_of target = [] then [] else [bearer_header (token_of target)])))), s'))"

definition relay_dispatch_handler ::
  "proxy_env \<Rightarrow> preview_cfg \<Rightarrow> remote_server list \<Rightarrow> instant \<Rightarrow> ip_addr \<Rightarrow> web_request \<Rightarrow> session_store \<Rightarrow> outcome \<times> session_store" where
  "relay_dispatch_handler env cfg servers now conn_ip rq s =
     (case parse_relay_path (wr_path rq) of
        None \<Rightarrow> (reply (plain 400 ''malformed relay path''), s)
      | Some (i, _) \<Rightarrow>
          if is_websocket rq then relay_ws_handler env cfg servers now conn_ip i rq s
          else relay_http_handler env cfg servers now conn_ip i rq s)"

end
