(* ===== verification/Settings.thy ===== *)
theory Settings
  imports Relay Complex_Main
begin

section \<open>Settings\<close>

text \<open>
  \<open>settings/normalize.rs\<close>, \<open>settings/io.rs\<close>, \<open>settings/handlers.rs\<close> and the types they work on: what
  becomes of settings a client writes or a file holds before they are used. Fields the code only stores and
  gives back are the extension of the record \<open>settings\<close>. Floating-point numbers are rationals or not finite;
  Unicode lower case is a parameter (\<open>lower\<close>). A normaliser returns its value and whether anything changed.
\<close>

datatype flt = Fin rat | NonFinite

definition is_finite :: "flt \<Rightarrow> bool" where
  "is_finite f = (case f of Fin _ \<Rightarrow> True | NonFinite \<Rightarrow> False)"

definition clamp_flt :: "rat \<Rightarrow> rat \<Rightarrow> flt \<Rightarrow> flt" where
  "clamp_flt lo hi f = (case f of Fin x \<Rightarrow> Fin (if x < lo then lo else if hi < x then hi else x) | NonFinite \<Rightarrow> NonFinite)"

text \<open>\<open>f64::round\<close>: halves away from zero.\<close>

definition round_flt :: "flt \<Rightarrow> flt" where
  "round_flt f = (case f of Fin x \<Rightarrow> Fin (of_int (if x < 0 then - \<lfloor>1/2 - x\<rfloor> else \<lfloor>x + 1/2\<rfloor>)) | NonFinite \<Rightarrow> NonFinite)"

subsection \<open>Fonts\<close>

definition FONT_ANCHORS :: "rstring list" where
  "FONT_ANCHORS = [lit ''Menlo'', lit ''Consolas'', lit ''Courier New'', lit ''DejaVu Sans Mono'', lit ''monospace'']"

text \<open>\<open>char::is_control\<close>: the general category Cc.\<close>

definition is_control :: "rchar \<Rightarrow> bool" where
  "is_control c \<longleftrightarrow> c < 32 \<or> (127 \<le> c \<and> c < 160)"

definition font_space :: "rchar \<Rightarrow> bool" where
  "font_space c \<longleftrightarrow> is_whitespace c \<or> c = 0xFEFF"

definition trim_font :: "rstring \<Rightarrow> rstring" where
  "trim_font s = rev (dropWhile font_space (rev (dropWhile font_space s)))"

definition primary_family :: "rstring \<Rightarrow> rstring" where
  "primary_family v =
     (let first = trim_font (hd (split_on 44 v)) in
      if 2 \<le> length first \<and> (hd first = 34 \<or> hd first = 39) \<and> hd first = last first
      then trim_font (butlast (tl first)) else first)"

text \<open>Characters that could leave the value of a CSS property.\<close>

definition css_breaker :: "rchar \<Rightarrow> bool" where
  "css_breaker c \<longleftrightarrow> is_control c \<or> c = 60 \<or> c = 62 \<or> c = 59 \<or> c = 123 \<or> c = 125"

definition bad_font_char :: "rchar \<Rightarrow> bool" where
  "bad_font_char c \<longleftrightarrow> c = 34 \<or> c = 92 \<or> css_breaker c"

fun sanitize_fonts :: "(rstring \<Rightarrow> rstring) \<Rightarrow> rstring list \<Rightarrow> rstring list \<Rightarrow> rstring list \<Rightarrow> rstring list" where
  "sanitize_fonts lower seen out [] = out"
| "sanitize_fonts lower seen out (entry # rest) =
     (let t = trim_font (primary_family entry) in
      if t = [] \<or> 100 < length t \<or> list_ex bad_font_char t then sanitize_fonts lower seen out rest
      else if lower t \<in> set (map lower FONT_ANCHORS) \<or> lower t \<in> set seen then sanitize_fonts lower seen out rest
      else if length out + 1 = 20 then out @ [t]
      else sanitize_fonts lower (seen @ [lower t]) (out @ [t]) rest)"

definition clamp_custom_fonts :: "(rstring \<Rightarrow> rstring) \<Rightarrow> rstring list \<Rightarrow> rstring list \<times> bool" where
  "clamp_custom_fonts lower v = (let r = sanitize_fonts lower [] [] v in (r, r \<noteq> v))"

definition font_family_is_unsafe :: "rstring \<Rightarrow> bool" where
  "font_family_is_unsafe s = list_ex css_breaker s"

subsection \<open>Text\<close>

record text_config =
  tx_font_size :: nat
  tx_font_family :: rstring
  tx_line_height :: flt
  tx_letter_spacing :: flt
  tx_cursor_style :: rstring
  tx_cursor_blink :: bool
  tx_scrollback :: nat
  tx_scroll_sensitivity :: flt
  tx_scroll_acceleration :: flt
  tx_scrollbar_width :: nat
  tx_custom_fonts :: "rstring list option"

text \<open>The single-precision values of 0.1 and 1.2.\<close>

definition default_text :: text_config where
  "default_text = \<lparr>tx_font_size = 14, tx_font_family = [], tx_line_height = Fin (10066330 / 8388608), tx_letter_spacing = Fin 0,
     tx_cursor_style = lit ''block'', tx_cursor_blink = True, tx_scrollback = 10000, tx_scroll_sensitivity = Fin 1,
     tx_scroll_acceleration = Fin 0, tx_scrollbar_width = 8, tx_custom_fonts = None\<rparr>"

definition clamp_text_config :: "(rstring \<Rightarrow> rstring) \<Rightarrow> text_config \<Rightarrow> text_config \<times> bool" where
  "clamp_text_config lower t =
     (let sens = (if is_finite (tx_scroll_sensitivity t) then clamp_flt (13421773 / 134217728) 2 (tx_scroll_sensitivity t) else Fin 1);
          acc = (if is_finite (tx_scroll_acceleration t) then clamp_flt 0 5 (tx_scroll_acceleration t) else Fin 0);
          width = max 4 (min 16 (tx_scrollbar_width t));
          t1 = t\<lparr>tx_scroll_sensitivity := sens, tx_scroll_acceleration := acc, tx_scrollbar_width := width\<rparr>;
          c1 = (sens \<noteq> tx_scroll_sensitivity t \<or> acc \<noteq> tx_scroll_acceleration t \<or> width \<noteq> tx_scrollbar_width t);
          (t2, c2) = (case tx_custom_fonts t1 of
              None \<Rightarrow> (t1, False)
            | Some v \<Rightarrow> (case clamp_custom_fonts lower v of (r, c) \<Rightarrow> (t1\<lparr>tx_custom_fonts := Some r\<rparr>, c))) in
      if font_family_is_unsafe (tx_font_family t2) then (t2\<lparr>tx_font_family := lit ''monospace''\<rparr>, True)
      else (t2, c1 \<or> c2))"

definition clamp_text_on_load :: "(rstring \<Rightarrow> rstring) \<Rightarrow> text_config \<Rightarrow> text_config \<times> bool" where
  "clamp_text_on_load = clamp_text_config"

subsection \<open>Themes\<close>

record theme_colors =
  tc_foreground :: rstring
  tc_background :: rstring
  tc_cursor :: rstring
  tc_ansi :: "rstring list"

record saved_theme =
  th_uuid :: rstring
  th_name :: rstring
  th_colors :: theme_colors

definition BASE_THEME_NAMES :: "rstring list" where
  "BASE_THEME_NAMES = [lit ''dark'', lit ''light'', lit ''dracula'']"

definition THEME_CUSTOM_CAP :: nat where
  "THEME_CUSTOM_CAP = 15"

definition is_hexdigit :: "rchar \<Rightarrow> bool" where
  "is_hexdigit c \<longleftrightarrow> (48 \<le> c \<and> c \<le> 57) \<or> (65 \<le> c \<and> c \<le> 70) \<or> (97 \<le> c \<and> c \<le> 102)"

definition hex_color :: "rstring \<Rightarrow> rstring \<Rightarrow> rstring" where
  "hex_color c fallback =
     (case strip_prefix [35] (trim c) of
        None \<Rightarrow> fallback
      | Some hex \<Rightarrow>
          let h = map to_ascii_lower hex in
          if byte_len h = 6 \<and> list_all is_hexdigit h then 35 # h
          else if byte_len h = 3 \<and> list_all is_hexdigit h then 35 # concat (map (\<lambda>x. [x, x]) h)
          else fallback)"

definition normalize_hex_color :: "rstring \<Rightarrow> rstring \<Rightarrow> rstring \<times> bool" where
  "normalize_hex_color c fallback = (let r = hex_color c fallback in (r, r \<noteq> c))"

definition normalize_theme_colors :: "theme_colors \<Rightarrow> theme_colors \<times> bool" where
  "normalize_theme_colors t =
     (let (f, c1) = normalize_hex_color (tc_foreground t) (lit ''#ffffff'');
          (b, c2) = normalize_hex_color (tc_background t) (lit ''#000000'');
          (u, c3) = normalize_hex_color (tc_cursor t) (lit ''#ffffff'');
          a = map (\<lambda>x. normalize_hex_color x (lit ''#000000'')) (tc_ansi t) in
      (\<lparr>tc_foreground = f, tc_background = b, tc_cursor = u, tc_ansi = map fst a\<rparr>, c1 \<or> c2 \<or> c3 \<or> list_ex snd a))"

fun keep_themes :: "rstring list \<Rightarrow> saved_theme list \<Rightarrow> saved_theme list \<times> bool" where
  "keep_themes seen [] = ([], False)"
| "keep_themes seen (t # ts) =
     (if th_uuid t \<in> set seen then (fst (keep_themes seen ts), True)
      else let (colors, c) = normalize_theme_colors (th_colors t);
               (kept, c') = keep_themes (seen @ [th_uuid t]) ts in
           (t\<lparr>th_colors := colors\<rparr> # kept, c \<or> c'))"

fun keep_hidden :: "rstring list \<Rightarrow> rstring list \<Rightarrow> rstring list \<times> bool" where
  "keep_hidden seen [] = ([], False)"
| "keep_hidden seen (n # ns) =
     (if n \<in> set BASE_THEME_NAMES \<or> n \<in> set seen then (fst (keep_hidden seen ns), True)
      else let (kept, c) = keep_hidden (seen @ [n]) ns in (n # kept, c))"

definition clamp_theme_library ::
  "saved_theme list \<Rightarrow> rstring list \<Rightarrow> saved_theme list \<times> rstring list \<times> bool" where
  "clamp_theme_library themes hidden =
     (let (kept, c1) = keep_themes [] themes; (names, c2) = keep_hidden [] hidden in
      (take THEME_CUSTOM_CAP kept, names, c1 \<or> c2 \<or> THEME_CUSTOM_CAP < length kept))"

subsection \<open>Keyboards\<close>

record action_key =
  ky_label :: rstring
  ky_kind :: "rstring option"
  ky_action :: "rstring option"
  ky_display :: "rstring option"
  ky_send :: rstring
  ky_style :: "rstring option"
  ky_shape :: "rstring option"
  ky_repeat :: bool
  ky_special :: "rstring option"
  ky_auto_enter :: "bool option"
  ky_grow :: "flt option"

record action_bottom =
  ab_rows :: "action_key list list"
  ab_enter :: "action_key option"
  ab_enter_width :: "flt option"

record action_keyboard =
  kb_rows :: "action_key list list"
  kb_bottom :: "action_bottom option"

record system_keyboard =
  sk_upper :: "action_key list"
  sk_pages :: "action_key list list"
  sk_lower_enabled :: bool
  sk_upper_pinned :: nat
  sk_lower_pinned :: nat

definition blank_key :: action_key where
  "blank_key = \<lparr>ky_label = [], ky_kind = None, ky_action = None, ky_display = None, ky_send = [], ky_style = None,
     ky_shape = None, ky_repeat = False, ky_special = None, ky_auto_enter = None, ky_grow = None\<rparr>"

definition is_valid_action :: "action_key \<Rightarrow> bool" where
  "is_valid_action k \<longleftrightarrow> ky_kind k = Some (lit ''action'') \<and> (case ky_action k of Some a \<Rightarrow> trim a \<noteq> [] | None \<Rightarrow> False)"

definition is_paste :: "action_key \<Rightarrow> bool" where
  "is_paste k \<longleftrightarrow> ky_action k = Some (lit ''pasteTerminal'')"

definition finite_or_none :: "(flt \<Rightarrow> flt) \<Rightarrow> flt option \<Rightarrow> flt option" where
  "finite_or_none f g = (case g of Some x \<Rightarrow> if is_finite x then Some (f x) else None | None \<Rightarrow> None)"

definition normalize_action_key :: "action_key \<Rightarrow> action_key" where
  "normalize_action_key k =
     (let k1 = k\<lparr>ky_grow := finite_or_none (clamp_flt (1/2) 12) (ky_grow k),
           ky_kind := (case ky_kind k of
               Some d \<Rightarrow> Some (if d \<noteq> lit ''send'' \<and> d \<noteq> lit ''action'' then lit ''send'' else d) | None \<Rightarrow> None),
           ky_display := (if ky_display k \<in> {Some (lit ''icon''), Some (lit ''text'')} then ky_display k else None),
           ky_shape := (if ky_shape k \<in> {Some (lit ''arrow''), Some (lit ''button'')} then ky_shape k else None)\<rparr> in
      if is_valid_action k1 then
        k1\<lparr>ky_send := [], ky_special := None,
          ky_auto_enter := (if is_paste k1 then Some (case ky_auto_enter k1 of Some b \<Rightarrow> b | None \<Rightarrow> True) else None)\<rparr>
      else k1)"

definition default_action_enter :: "rstring \<Rightarrow> action_key" where
  "default_action_enter label = blank_key\<lparr>ky_label := label, ky_kind := Some (lit ''send''), ky_send := [13]\<rparr>"

definition round_grow :: "rat \<Rightarrow> action_key \<Rightarrow> action_key" where
  "round_grow hi k = k\<lparr>ky_grow := map_option (\<lambda>g. clamp_flt 1 hi (round_flt g)) (ky_grow k)\<rparr>"

definition one_page :: "action_key list list \<Rightarrow> action_key list list" where
  "one_page pages = (if pages = [] then [[]] else if 1 < length pages then [concat pages] else pages)"

definition normalize_system_keyboard :: "system_keyboard \<Rightarrow> system_keyboard" where
  "normalize_system_keyboard c =
     (let upper = map (round_grow 9 \<circ> normalize_action_key) (sk_upper c);
          pages = one_page (map (map (round_grow 10 \<circ> normalize_action_key)) (sk_pages c)) in
      c\<lparr>sk_upper := upper, sk_pages := pages,
        sk_upper_pinned := min (min (sk_upper_pinned c) 5) (length upper),
        sk_lower_pinned := min (min (sk_lower_pinned c) 5) (case pages of p # _ \<Rightarrow> length p | [] \<Rightarrow> 0)\<rparr>)"

definition normalize_bottom :: "action_bottom \<Rightarrow> action_bottom" where
  "normalize_bottom b =
     (let enter = map_option normalize_action_key (ab_enter b);
          ok = (case enter of Some e \<Rightarrow> ky_kind e = Some (lit ''send'') \<and> ky_send e = [13] | None \<Rightarrow> False);
          label = (case enter of Some e \<Rightarrow> if trim (ky_label e) \<noteq> [] then ky_label e else [0x21B5] | None \<Rightarrow> [0x21B5]) in
      b\<lparr>ab_rows := map (map normalize_action_key) (ab_rows b),
        ab_enter := (if ok then enter else Some (default_action_enter label)),
        ab_enter_width := finite_or_none (clamp_flt (5404319552844595 / 36028797018963968) (1/2)) (ab_enter_width b)\<rparr>)"

definition normalize_action_keyboard :: "action_keyboard \<Rightarrow> action_keyboard" where
  "normalize_action_keyboard c =
     c\<lparr>kb_rows := map (map normalize_action_key) (kb_rows c), kb_bottom := map_option normalize_bottom (kb_bottom c)\<rparr>"

subsection \<open>The settings\<close>

datatype guard_mode = GuardOff | CollapseOnly | OpenOnly | GuardBoth

datatype toolbar_mode = FollowIme | PersistentMobile

datatype badge_mode = BadgeOff | BadgeTab | BadgeIcon | BadgeBoth

definition CURRENT_SETTINGS_VERSION :: nat where
  "CURRENT_SETTINGS_VERSION = 15"

definition LEGACY_UPLOAD_DIR :: rstring where
  "LEGACY_UPLOAD_DIR = lit ''~/.dinotty/uploads''"

definition default_upload_dir :: rstring where
  "default_upload_dir = lit ''$TMPDIR/dinotty''"

text \<open>
  The fields the code reads or writes; the others (bookmarks, notification and authentication settings,
  profiles and so on) are the record's extension.
\<close>

record settings =
  st_version :: nat
  st_client_version :: "nat option"
  st_text :: text_config
  st_action_keyboard :: "action_keyboard option"
  st_action_keyboard_default :: "action_keyboard option"
  st_upload_dir :: rstring
  st_workspace_root :: "rstring option"
  st_toolbar_keys :: "action_key list"
  st_system_toolbar_keys :: "action_key list"
  st_system_keyboard :: "system_keyboard option"
  st_system_keyboard_default :: "system_keyboard option"
  st_toolbar_mode :: toolbar_mode
  st_quick_send :: nat
  st_guard_mode :: guard_mode
  st_ime_overlap :: "nat option"
  st_keep_on_scroll :: bool
  st_badge_on_tab :: "bool option"
  st_badge_mode :: "badge_mode option"
  st_inherit_cwd :: bool
  st_has_image :: bool
  st_log_path :: rstring
  st_servers :: "remote_server list"
  st_workspace :: "rstring option"
  st_themes :: "saved_theme list"
  st_hidden :: "rstring list"

definition default_settings :: "'a \<Rightarrow> 'a settings_scheme" where
  "default_settings x = \<lparr>st_version = CURRENT_SETTINGS_VERSION, st_client_version = None, st_text = default_text,
     st_action_keyboard = None, st_action_keyboard_default = None, st_upload_dir = default_upload_dir, st_workspace_root = None,
     st_toolbar_keys = [], st_system_toolbar_keys = [], st_system_keyboard = None, st_system_keyboard_default = None,
     st_toolbar_mode = FollowIme, st_quick_send = 63, st_guard_mode = GuardOff, st_ime_overlap = None,
     st_keep_on_scroll = False, st_badge_on_tab = None, st_badge_mode = None, st_inherit_cwd = False, st_has_image = False,
     st_log_path = [], st_servers = [], st_workspace = None, st_themes = [], st_hidden = [], \<dots> = x\<rparr>"

definition IME_KEYBOARD_OVERLAP_MAX :: nat where
  "IME_KEYBOARD_OVERLAP_MAX = 300"

definition clamp_ime_keyboard_overlap_px :: "'a settings_scheme \<Rightarrow> 'a settings_scheme \<times> bool" where
  "clamp_ime_keyboard_overlap_px s =
     (case st_ime_overlap s of
        None \<Rightarrow> (s, False)
      | Some v \<Rightarrow> let c = min v IME_KEYBOARD_OVERLAP_MAX in (s\<lparr>st_ime_overlap := Some c\<rparr>, c \<noteq> v))"

definition clamp_quick_send_threshold :: "'a settings_scheme \<Rightarrow> 'a settings_scheme \<times> bool" where
  "clamp_quick_send_threshold s =
     (let c = min (st_quick_send s) 5000 in (s\<lparr>st_quick_send := c\<rparr>, c \<noteq> st_quick_send s))"

definition clamp_theme_on_put :: "'a settings_scheme \<Rightarrow> 'a settings_scheme \<times> bool" where
  "clamp_theme_on_put s =
     (let (t, h, c) = clamp_theme_library (st_themes s) (st_hidden s) in (s\<lparr>st_themes := t, st_hidden := h\<rparr>, c))"

definition normalize_action_keyboards :: "'a settings_scheme \<Rightarrow> 'a settings_scheme \<times> bool" where
  "normalize_action_keyboards s =
     (let s' = s\<lparr>st_action_keyboard := map_option normalize_action_keyboard (st_action_keyboard s),
           st_action_keyboard_default := map_option normalize_action_keyboard (st_action_keyboard_default s),
           st_system_keyboard := map_option normalize_system_keyboard (st_system_keyboard s),
           st_system_keyboard_default := map_option normalize_system_keyboard (st_system_keyboard_default s)\<rparr> in
      (s', st_action_keyboard s' \<noteq> st_action_keyboard s \<or> st_action_keyboard_default s' \<noteq> st_action_keyboard_default s \<or>
         st_system_keyboard s' \<noteq> st_system_keyboard s \<or> st_system_keyboard_default s' \<noteq> st_system_keyboard_default s))"

definition resolved_default_workspace_root :: "(rstring \<Rightarrow> bool) \<Rightarrow> 'a settings_scheme \<Rightarrow> rstring option" where
  "resolved_default_workspace_root is_dir s =
     (case map_option trim (st_workspace_root s) of
        Some p \<Rightarrow> if p \<noteq> [] \<and> is_dir p then Some p else None
      | None \<Rightarrow> None)"

subsection \<open>Old versions\<close>

definition system_action :: "string \<Rightarrow> string \<Rightarrow> action_key" where
  "system_action label action = blank_key\<lparr>ky_label := lit label, ky_kind := Some (lit ''action''), ky_action := Some (lit action)\<rparr>"

definition system_send :: "string \<Rightarrow> rstring \<Rightarrow> action_key" where
  "system_send label send = blank_key\<lparr>ky_label := lit label, ky_kind := Some (lit ''send''), ky_send := send\<rparr>"

definition factory_system_keyboard :: system_keyboard where
  "factory_system_keyboard =
     \<lparr>sk_upper = [system_action ''History'' ''system.history'', system_action ''Bookmarks'' ''openBookmarks'',
         system_action ''Extended'' ''system.extended'', system_action ''Actions'' ''system.actions''],
       sk_pages =
         [[system_send ''Esc'' [0x1B], system_send ''Tab'' [9],
           (system_send ''Ctrl'' [])\<lparr>ky_special := Some (lit ''ctrl''), ky_display := Some (lit ''text'')\<rparr>,
           (system_send ''Alt'' [])\<lparr>ky_special := Some (lit ''alt''), ky_display := Some (lit ''text'')\<rparr>,
           system_send ''/'' (lit ''/''), system_send ''|'' (lit ''|'')],
          [system_send ''~'' (lit ''~''), system_send ''-'' (lit ''-''), system_send ''^C'' [3], system_send ''^I'' [9],
           system_send ''^S'' [0x13], system_send ''^Z'' [0x1A]]],
       sk_lower_enabled = True, sk_upper_pinned = 0, sk_lower_pinned = 0\<rparr>"

definition flatten_keyboard :: "system_keyboard \<Rightarrow> system_keyboard" where
  "flatten_keyboard c =
     (let g = (\<lambda>k. k\<lparr>ky_grow := finite_or_none (\<lambda>x. clamp_flt 1 10 (round_flt x)) (ky_grow k)\<rparr>) in
      c\<lparr>sk_upper := map g (sk_upper c), sk_pages := [map g (concat (sk_pages c))], sk_lower_enabled := True,
        sk_upper_pinned := 0, sk_lower_pinned := 0\<rparr>)"

text \<open>\<open>temp\<close> is the upload directory earlier versions resolved in the system's temporary directory.\<close>

definition migrate_upload_dir :: "rstring \<Rightarrow> 'a settings_scheme \<Rightarrow> 'a settings_scheme" where
  "migrate_upload_dir temp s =
     (if st_upload_dir s = [] \<or> st_upload_dir s = LEGACY_UPLOAD_DIR \<or> st_upload_dir s = temp
      then s\<lparr>st_upload_dir := default_upload_dir\<rparr> else s)"

definition migrate_v4 :: "'a settings_scheme \<Rightarrow> 'a settings_scheme" where
  "migrate_v4 s = (if st_version s < 4 \<and> st_badge_on_tab s = Some True then s\<lparr>st_badge_on_tab := None\<rparr> else s)"

definition migrate_v5 :: "'a settings_scheme \<Rightarrow> 'a settings_scheme" where
  "migrate_v5 s =
     (if st_version s < 5 then
        s\<lparr>st_badge_mode := (if st_badge_mode s = None
            then map_option (\<lambda>b. if b then BadgeTab else BadgeOff) (st_badge_on_tab s) else st_badge_mode s),
          st_badge_on_tab := None\<rparr>
      else s)"

definition migrate_v7 :: "'a settings_scheme \<Rightarrow> 'a settings_scheme" where
  "migrate_v7 s =
     (if st_version s < 7 then s\<lparr>st_guard_mode := (if st_keep_on_scroll s then CollapseOnly else GuardOff)\<rparr> else s)"

definition migrate_v8 :: "'a settings_scheme \<Rightarrow> 'a settings_scheme" where
  "migrate_v8 s = (if st_version s < 8 then s\<lparr>st_system_toolbar_keys := st_toolbar_keys s\<rparr> else s)"

definition migrate_v9 :: "'a settings_scheme \<Rightarrow> 'a settings_scheme" where
  "migrate_v9 s =
     (if st_version s < 9 then
        (if st_system_toolbar_keys s = [] then s\<lparr>st_toolbar_mode := FollowIme, st_system_keyboard := None\<rparr>
         else s\<lparr>st_toolbar_mode := FollowIme,
             st_system_keyboard := Some (factory_system_keyboard\<lparr>sk_upper := sk_upper factory_system_keyboard @ st_system_toolbar_keys s\<rparr>),
             st_system_toolbar_keys := []\<rparr>)
      else s)"

definition migrate_v10 :: "'a settings_scheme \<Rightarrow> 'a settings_scheme" where
  "migrate_v10 s =
     (if st_version s < 10 then s\<lparr>st_system_keyboard := map_option flatten_keyboard (st_system_keyboard s)\<rparr> else s)"

definition migrate_settings :: "rstring \<Rightarrow> 'a settings_scheme \<Rightarrow> 'a settings_scheme \<times> bool" where
  "migrate_settings temp s =
     (if CURRENT_SETTINGS_VERSION \<le> st_version s then (s, False)
      else ((migrate_v10 (migrate_v9 (migrate_v8 (migrate_v7 (migrate_v5 (migrate_v4 (migrate_upload_dir temp s)))))))
        \<lparr>st_version := CURRENT_SETTINGS_VERSION\<rparr>, True))"

subsection \<open>Loading and saving\<close>

text \<open>What is on disk: no file, one that cannot be read or parsed, or settings.\<close>

datatype 'a settings_file = NoFile | Unreadable | Unparsable | Stored "'a settings_scheme"

text \<open>The clamping steps of a load, after the migration.\<close>

definition clamp_loaded :: "(rstring \<Rightarrow> rstring) \<Rightarrow> 'a settings_scheme \<times> bool \<Rightarrow> 'a settings_scheme \<times> bool" where
  "clamp_loaded lower p =
     (let (s, c0) = p;
          (t, c1) = clamp_text_config lower (st_text s);
          (s1, c2) = clamp_quick_send_threshold (s\<lparr>st_text := t\<rparr>);
          (s2, c3) = clamp_ime_keyboard_overlap_px s1;
          (s3, c4) = normalize_action_keyboards s2 in
      (s3, c0 \<or> c1 \<or> c2 \<or> c3 \<or> c4))"

text \<open>The settings in force, and what was written back, if anything changed.\<close>

definition load_settings ::
  "(rstring \<Rightarrow> rstring) \<Rightarrow> rstring \<Rightarrow> 'a \<Rightarrow> 'a settings_file \<Rightarrow> 'a settings_scheme \<times> 'a settings_scheme option" where
  "load_settings lower temp x file =
     (let (s, changed) =
        (case file of
           Stored s \<Rightarrow>
             (case migrate_settings temp s of (s1, c) \<Rightarrow>
                clamp_loaded lower (if trim (st_upload_dir s1) = [] then (s1\<lparr>st_upload_dir := default_upload_dir\<rparr>, True) else (s1, c)))
         | _ \<Rightarrow> clamp_loaded lower (migrate_settings temp (default_settings x))) in
      (s, if changed then Some s else None))"

subsection \<open>The handlers\<close>

text \<open>What is left of settings after they were written out and read again: the fields \<open>skip_serializing\<close> names, and the parts
  \<open>ActionKey\<close> leaves out of an action.\<close>

definition wire_key :: "action_key \<Rightarrow> action_key" where
  "wire_key k =
     (let k1 = k\<lparr>ky_grow := finite_or_none (\<lambda>x. x) (ky_grow k)\<rparr> in
      if is_valid_action k then
        k1\<lparr>ky_send := [], ky_special := None, ky_auto_enter := (if is_paste k then ky_auto_enter k else None)\<rparr>
      else k1)"

definition wire_action_keyboard :: "action_keyboard \<Rightarrow> action_keyboard" where
  "wire_action_keyboard c =
     c\<lparr>kb_rows := map (map wire_key) (kb_rows c),
       kb_bottom := map_option (\<lambda>b. b\<lparr>ab_rows := map (map wire_key) (ab_rows b), ab_enter := map_option wire_key (ab_enter b),
           ab_enter_width := finite_or_none (\<lambda>x. x) (ab_enter_width b)\<rparr>) (kb_bottom c)\<rparr>"

definition wire_system_keyboard :: "system_keyboard \<Rightarrow> system_keyboard" where
  "wire_system_keyboard c = c\<lparr>sk_upper := map wire_key (sk_upper c), sk_pages := map (map wire_key) (sk_pages c)\<rparr>"

definition wire_settings :: "'a settings_scheme \<Rightarrow> 'a settings_scheme" where
  "wire_settings s =
     s\<lparr>st_client_version := None, st_system_toolbar_keys := [], st_keep_on_scroll := False, st_badge_on_tab := None,
       st_toolbar_keys := map wire_key (st_toolbar_keys s),
       st_action_keyboard := map_option wire_action_keyboard (st_action_keyboard s),
       st_action_keyboard_default := map_option wire_action_keyboard (st_action_keyboard_default s),
       st_system_keyboard := map_option wire_system_keyboard (st_system_keyboard s),
       st_system_keyboard_default := map_option wire_system_keyboard (st_system_keyboard_default s)\<rparr>"

definition scrub_settings :: "'a settings_scheme \<Rightarrow> 'a settings_scheme" where
  "scrub_settings s = s\<lparr>st_servers := map scrub_secrets (st_servers s)\<rparr>"

definition get_settings :: "rstring \<Rightarrow> 'a settings_scheme \<Rightarrow> 'a settings_scheme" where
  "get_settings log_path s =
     scrub_settings (if st_log_path s = [] then s\<lparr>st_log_path := log_path\<rparr> else s)"

definition older_than :: "nat \<Rightarrow> nat option \<Rightarrow> bool" where
  "older_than n v \<longleftrightarrow> (case v of None \<Rightarrow> True | Some k \<Rightarrow> k < n)"

definition preserve_current_settings_on_legacy_put ::
  "nat option \<Rightarrow> 'a settings_scheme \<Rightarrow> 'a settings_scheme \<Rightarrow> 'a settings_scheme" where
  "preserve_current_settings_on_legacy_put client incoming existing =
     (let i1 = (if older_than 12 client \<and> 12 \<le> st_version existing then
            incoming\<lparr>st_system_keyboard := st_system_keyboard existing,
              st_system_keyboard_default := st_system_keyboard_default existing, st_toolbar_mode := st_toolbar_mode existing\<rparr>
            else incoming);
          i2 = (if older_than 13 client \<and> 13 \<le> st_version existing \<and> st_ime_overlap existing \<noteq> None
            then i1\<lparr>st_ime_overlap := st_ime_overlap existing\<rparr> else i1) in
      if older_than 14 client \<and> 14 \<le> st_version existing then i2\<lparr>st_inherit_cwd := st_inherit_cwd existing\<rparr> else i2)"

definition normalize_put :: "(rstring \<Rightarrow> rstring) \<Rightarrow> rstring \<Rightarrow> 'a settings_scheme \<Rightarrow> 'a settings_scheme" where
  "normalize_put lower temp s =
     (let s1 = (fst (migrate_settings temp (s\<lparr>st_client_version := None\<rparr>)))\<lparr>st_version := CURRENT_SETTINGS_VERSION\<rparr>;
          s2 = s1\<lparr>st_text := fst (clamp_text_config lower (st_text s1))\<rparr>;
          s3 = fst (clamp_quick_send_threshold s2);
          s4 = fst (clamp_ime_keyboard_overlap_px s3);
          s5 = fst (clamp_theme_on_put s4) in
      fst (normalize_action_keyboards s5))"

definition merge_remote_server_tokens :: "'a settings_scheme \<Rightarrow> 'a settings_scheme \<Rightarrow> 'a settings_scheme" where
  "merge_remote_server_tokens incoming existing =
     incoming\<lparr>st_servers := inherit_remote_server_tokens (st_servers incoming) (st_servers existing)\<rparr>"

definition put_settings ::
  "(rstring \<Rightarrow> rstring) \<Rightarrow> rstring \<Rightarrow> bool \<Rightarrow> 'a settings_scheme \<Rightarrow> 'a settings_scheme \<Rightarrow> nat \<times> 'a settings_scheme" where
  "put_settings lower temp saved new existing =
     (let s1 = preserve_current_settings_on_legacy_put (st_client_version new) (normalize_put lower temp new) existing;
          s2 = merge_remote_server_tokens (s1\<lparr>st_workspace := st_workspace existing\<rparr>) existing in
      if saved then (200, s2) else (500, existing))"

text \<open>
  An upload is its form fields: whether each is named \<open>file\<close>, and its bytes if they arrive. \<open>store\<close> says
  whether the image, re-encoded or as it is, was written; saving the settings may fail unnoticed.
\<close>

fun upload_background :: "('b \<Rightarrow> bool) \<Rightarrow> (bool \<times> 'b option) list \<Rightarrow> 'a settings_scheme \<Rightarrow> nat \<times> 'a settings_scheme" where
  "upload_background store [] s = (400, s)"
| "upload_background store ((is_file, data) # fs) s =
     (if \<not> is_file then upload_background store fs s
      else case data of
        None \<Rightarrow> (400, s)
      | Some d \<Rightarrow>
          if store d then (200, s\<lparr>st_has_image := True, st_version := CURRENT_SETTINGS_VERSION\<rparr>) else (500, s))"

definition get_background :: "bool \<Rightarrow> 'b option \<Rightarrow> nat \<times> 'b option" where
  "get_background exists data =
     (if \<not> exists then (404, None) else case data of Some d \<Rightarrow> (200, Some d) | None \<Rightarrow> (500, None))"

end
