(* ===== verification/RelayProps.thy ===== *)
theory RelayProps
  imports Relay ProxyProps
begin

section \<open>Properties of the roster and the relay\<close>

text \<open>
  What a client that reads the roster and writes it back keeps, where a stored token goes when an entry's
  address changes, what the relay lets through and with which credentials.
\<close>

subsection \<open>The roster\<close>

definition roster_stored :: "url_lib \<Rightarrow> remote_server list \<Rightarrow> bool" where
  "roster_stored lib r \<longleftrightarrow> distinct (map rs_id r) \<and>
     list_all (\<lambda>s. normalize_origin lib (rs_url s) = Inr (rs_url s) \<and> refresh_has_token s = s) r"

lemma scrub_simps [simp]: "rs_id (scrub_secrets s) = rs_id s" "rs_url (scrub_secrets s) = rs_url s" "rs_token (scrub_secrets s) = None"
  by (simp_all add: scrub_secrets_def refresh_has_token_def)

lemma scrub_inverse: "refresh_has_token s = s \<Longrightarrow> refresh_has_token ((scrub_secrets s)\<lparr>rs_token := rs_token s\<rparr>) = s"
  by (cases s) (simp add: scrub_secrets_def refresh_has_token_def)

lemma normalize_roster_fixed:
  "list_all (\<lambda>s. normalize_origin lib (rs_url s) = Inr (rs_url s)) r \<Longrightarrow> normalize_roster lib r = Inr r"
  by (induction r) simp_all

lemma find_by_id: "distinct (map rs_id r) \<Longrightarrow> s \<in> set r \<Longrightarrow> find (\<lambda>e. rs_id e = rs_id s) r = Some s"
  by (induction r) (auto simp: inj_on_def)

lemma inherit_scrubbed:
  assumes "distinct (map rs_id r)" and "s \<in> set r" and "refresh_has_token s = s"
  shows "inherit_token r (scrub_secrets s) = s"
  using find_by_id [OF assms(1,2)] scrub_inverse [OF assms(3)] by (simp add: inherit_token_def)

lemma put_get:
  assumes "roster_stored lib r"
  shows "put_remote_servers lib True (get_remote_servers r) r = (200, r)"
proof -
  have "normalize_roster lib (get_remote_servers r) = Inr (get_remote_servers r)"
    using assms by (intro normalize_roster_fixed) (auto simp: roster_stored_def get_remote_servers_def list_all_iff)
  moreover have "inherit_remote_server_tokens (get_remote_servers r) r = r"
    unfolding inherit_remote_server_tokens_def get_remote_servers_def map_map
    using assms inherit_scrubbed [of r] by (intro map_idI) (auto simp: roster_stored_def list_all_iff)
  ultimately show ?thesis by (simp add: put_remote_servers_def)
qed

text \<open>
  Reading the roster gives no token away, and writing back what was read loses none. What a client
  gets has no tokens in it, only whether there is one; putting it back unchanged leaves the stored roster as it was.
\<close>

theorem roster_read_write:
  assumes "roster_stored lib r"
  shows "list_all (\<lambda>s. rs_token s = None) (get_remote_servers r) \<and>
    map rs_has_token (get_remote_servers r) = map (\<lambda>s. case rs_token s of Some t \<Rightarrow> t \<noteq> [] | None \<Rightarrow> False) r \<and>
    put_remote_servers lib True (get_remote_servers r) r = (200, r)"
  using put_get [OF assms]
  by (simp add: get_remote_servers_def list_all_iff scrub_secrets_def refresh_has_token_def)

definition demo_origin_lib :: url_lib where
  "demo_origin_lib = \<lparr>ul_parse = (\<lambda>s. Some \<lparr>ur_text = s, ur_scheme = lit ''http'', ur_host = Some (lit ''a''), ur_port = None,
       ur_path = lit ''/'', ur_query = None, ur_fragment = None, ur_user = [], ur_password = None, ur_origin = s\<rparr>),
     ul_join = (\<lambda>_ _. None), ul_encode = (\<lambda>s. s), ul_decode = Some\<rparr>"

definition demo_server :: remote_server where
  "demo_server = \<lparr>rs_id = lit ''i'', rs_name = [], rs_url = lit ''http://a'', rs_token = Some (lit ''t''), rs_group = None,
     rs_last_version = None, rs_has_token = True\<rparr>"

theorem roster_read_write_witness:
  "put_remote_servers demo_origin_lib True (get_remote_servers [demo_server]) [demo_server] = (200, [demo_server])"
proof -
  have "trim (lit ''http://a'') = lit ''http://a''" by (simp add: trim_def is_whitespace_def lit_def)
  then have "roster_stored demo_origin_lib [demo_server]"
    by (simp add: roster_stored_def demo_server_def normalize_origin_def demo_origin_lib_def refresh_has_token_def) (simp add: lit_def)
  then show ?thesis using roster_read_write by blast
qed

text \<open>
  A stored token follows the id, not the address. An entry written without a token, under a stored
  id but with another address, gets the stored token: the relay and the probe will send it to the new address.
\<close>

theorem token_follows_id_to_new_address:
  assumes "find (\<lambda>e. rs_id e = rs_id s) stored = Some old" and "rs_token s = None" and "rs_token old = Some t" and "t \<noteq> []"
    and "normalize_origin lib (rs_url s) = Inr origin" and "origin \<noteq> rs_url old"
  shows "\<exists>new. put_remote_servers lib True [s] stored = (200, [new]) \<and> rs_url new = origin \<and> token_of new = t \<and>
    probe_target \<lparr>pq_id = Some (rs_id s), pq_url = [], pq_token = None\<rparr> [new] = Some (origin, Some t)"
  using assms by (simp add: put_remote_servers_def inherit_remote_server_tokens_def inherit_token_def refresh_has_token_def
      token_of_def probe_target_def)

theorem token_follows_id_to_new_address_witness:
  "\<exists>new. put_remote_servers demo_origin_lib True [demo_server\<lparr>rs_url := lit ''http://b'', rs_token := None\<rparr>] [demo_server] = (200, [new]) \<and>
     rs_url new = lit ''http://b'' \<and> token_of new = lit ''t''"
proof -
  have "trim (lit ''http://b'') = lit ''http://b''" by (simp add: trim_def is_whitespace_def lit_def)
  then have "normalize_origin demo_origin_lib (lit ''http://b'') = Inr (lit ''http://b'')"
    by (simp add: normalize_origin_def demo_origin_lib_def) (simp add: lit_def)
  then show ?thesis
    using token_follows_id_to_new_address [of "demo_server\<lparr>rs_url := lit ''http://b'', rs_token := None\<rparr>" "[demo_server]" demo_server
        "lit ''t''" demo_origin_lib "lit ''http://b''"]
    by (auto simp: demo_server_def lit_def)
qed

subsection \<open>The gate of the relay\<close>

text \<open>
  What the URL parser promises: the path of an http(s) URL depends on neither the origin before it nor the
  query after it.
\<close>

definition path_stable :: "url_lib \<Rightarrow> bool" where
  "path_stable lib \<longleftrightarrow> (\<forall>raw origin rest q u v. upstream_origin lib raw = Some origin \<longrightarrow>
     63 \<notin> set rest \<longrightarrow> (q = [] \<or> take 1 q = [63]) \<longrightarrow> ul_parse lib (lit ''http://relay.invalid/'' @ rest) = Some u \<longrightarrow>
     ul_parse lib (origin @ [47] @ rest @ q) = Some v \<longrightarrow> ur_path v = ur_path u)"

definition entitled :: "preview_cfg \<Rightarrow> instant \<Rightarrow> ip_addr \<Rightarrow> web_request \<Rightarrow> session_store \<Rightarrow> bool" where
  "entitled cfg now conn_ip rq s \<longleftrightarrow>
     (is_loopback (caller_ip cfg conn_ip rq) \<or> fst (has_valid_auth (as_map (wr_headers rq)) (pc_port cfg) now (pc_token cfg) s)) \<and>
     \<not> is_cross_site_browser_request (as_map (wr_headers rq)) \<and>
     (needs_csrf_header (wr_method rq) \<longrightarrow> has_csrf_header (as_map (wr_headers rq)))"

lemma authorized_target_entitled:
  assumes "authorized_target lib rq (caller_ip cfg conn_ip rq) (pc_port cfg) now (pc_token cfg) servers i rest s = (Inr target, s')"
  shows "entitled cfg now conn_ip rq s"
    and "\<exists>p. normalized_relay_path lib rest = Some p \<and> \<not> is_hub_only_path p"
    and "find (\<lambda>v. rs_id v = i) servers = Some target"
  using assms by (auto simp: authorized_target_def entitled_def Let_def split: if_splits option.splits prod.splits)

lemma refused_silent [simp]: "oc_sent (refused d) = []" "oc_dials (refused d) = []"
  by (simp_all add: refused_def split: denied.split)

lemma forward_http_sent:
  assumes "up \<in> set (oc_sent (forward_http env rq origin rest token))"
  obtains u where "ul_parse (pe_lib env) (origin @ [47] @ rest @ query_part rq) = Some u" and "up = relay_request u rq token"
  using assms by (auto simp: forward_http_def Let_def split: option.splits)

lemma relay_http_sent:
  assumes "relay_http_handler env cfg servers now conn_ip i rq s = (oc, s')" and "up \<in> set (oc_sent oc)"
  obtains j rest target origin u where "parse_relay_path (wr_path rq) = Some (j, rest)" and "entitled cfg now conn_ip rq s"
    and "\<exists>p. normalized_relay_path (pe_lib env) rest = Some p \<and> \<not> is_hub_only_path p"
    and "find (\<lambda>v. rs_id v = i) servers = Some target"
    and "upstream_origin (pe_lib env) (rs_url target) = Some origin"
    and "ul_parse (pe_lib env) (origin @ [47] @ rest @ query_part rq) = Some u" and "up = relay_request u rq (token_of target)"
proof -
  obtain j rest where p: "parse_relay_path (wr_path rq) = Some (j, rest)"
    using assms by (cases "parse_relay_path (wr_path rq)") (auto simp: relay_http_handler_def)
  obtain r s1 where a: "authorized_target (pe_lib env) rq (caller_ip cfg conn_ip rq) (pc_port cfg) now (pc_token cfg) servers i rest s = (r, s1)"
    by fastforce
  have oc: "oc = (case r of Inl d \<Rightarrow> refused d
      | Inr target \<Rightarrow> (case upstream_origin (pe_lib env) (rs_url target) of
            None \<Rightarrow> reply (plain 502 ''server has no usable http(s) url'')
          | Some origin \<Rightarrow> forward_http env rq origin rest (token_of target)))"
    using assms(1) p a by (auto simp: relay_http_handler_def caller_ip_def)
  obtain target where r: "r = Inr target" using assms(2) oc by (cases r) auto
  obtain origin where u: "upstream_origin (pe_lib env) (rs_url target) = Some origin"
    using assms(2) oc r by (cases "upstream_origin (pe_lib env) (rs_url target)") auto
  have "up \<in> set (oc_sent (forward_http env rq origin rest (token_of target)))" using assms(2) oc r u by simp
  then obtain v where "ul_parse (pe_lib env) (origin @ [47] @ rest @ query_part rq) = Some v" and "up = relay_request v rq (token_of target)"
    by (rule forward_http_sent)
  then show thesis by (rule that [OF p authorized_target_entitled [OF a [unfolded r]] u])
qed

text \<open>Credentials of a relayed request: no cookie, and the roster's token or none.\<close>

lemma relay_request_credentials:
  "filter (\<lambda>(n, _). n = ''cookie'') (us_headers (relay_request u rq t)) = []"
  "filter (\<lambda>(n, _). n = ''authorization'') (us_headers (relay_request u rq t)) = (if t = [] then [] else [bearer_header t])"
  using forwarded_none [of relay_forward_header "''cookie''" "wr_headers rq"]
    forwarded_none [of relay_forward_header "''authorization''" "wr_headers rq"]
  by (simp_all add: relay_request_def relay_forward_header_def bearer_header_def)

lemma relay_path_rest: "parse_relay_path path = Some (j, rest) \<Longrightarrow> set rest \<subseteq> set path"
proof -
  assume "parse_relay_path path = Some (j, rest)"
  then have "\<exists>t. strip_prefix RELAY_PREFIX path \<bind> strip_prefix [47] = Some t \<and> set rest \<subseteq> set t"
    by (fastforce simp: parse_relay_path_def split_once_Some split: option.splits if_splits)
  then show ?thesis by (auto simp: strip_prefix_Some split: bind_splits)
qed

lemma hub_only_closed:
  assumes "path_stable lib" and "upstream_origin lib raw = Some origin" and "63 \<notin> set rest" and "normalized_relay_path lib rest = Some p"
    and "ul_parse lib (origin @ [47] @ rest @ query_part rq) = Some v"
  shows "dropWhile (\<lambda>c. c = 47) (ur_path v) = p"
proof -
  obtain u where u: "ul_parse lib (lit ''http://relay.invalid/'' @ rest) = Some u" and p: "p = dropWhile (\<lambda>c. c = 47) (ur_path u)"
    using assms(4) by (auto simp: normalized_relay_path_def)
  have "query_part rq = [] \<or> take 1 (query_part rq) = [63]" by (auto simp: query_part_def lit_def split: option.split)
  then have "ur_path v = ur_path u" using assms(1,2,3,5) u unfolding path_stable_def by blast
  with p show ?thesis by simp
qed


definition demo_relay_env :: proxy_env where
  "demo_relay_env = demo_proxy_env\<lparr>pe_lib := demo_origin_lib\<rparr>"

definition demo_relayed :: web_request where
  "demo_relayed = \<lparr>wr_method = ''GET'', wr_path = lit ''/__srv/i/api/x'', wr_query = None,
     wr_headers = [(''cookie'', Text (lit ''dinotty_session_8999=s'')), (''authorization'', Text (lit ''Bearer hub''))], wr_body = []\<rparr>"

lemma demo_relay_path: "parse_relay_path (wr_path demo_relayed) = Some (lit ''i'', lit ''api/x'')"
  by (simp add: parse_relay_path_def RELAY_PREFIX_def demo_relayed_def lit_def)

lemma demo_relay_target:
  assumes "rs_id v = lit ''i''"
  shows "authorized_target (pe_lib demo_relay_env) demo_relayed (V4 0x7f000001) port now token [v] (lit ''i'') (lit ''api/x'') s = (Inr v, s)"
  using assms
  by (simp add: authorized_target_def demo_relay_env_def demo_relayed_def demo_origin_lib_def is_loopback_def
      is_cross_site_browser_request_def header_str_def as_map_def normalized_relay_path_def is_hub_only_path_def needs_csrf_header_def
      to_str_def) (simp add: lit_def starts_with_def)

lemma demo_relay_ip: "real_client_ip (as_map (wr_headers rq)) (V4 0x7f000001) (pc_trusted demo_cfg) = V4 0x7f000001"
  by (simp add: real_client_ip_def demo_cfg_def)

lemma demo_relay_origin: "upstream_origin (pe_lib demo_relay_env) (lit ''http://a'') = Some (lit ''http://a'')"
  by (simp add: upstream_origin_def demo_relay_env_def demo_origin_lib_def trim_def is_whitespace_def lit_def)

lemma demo_relay_run:
  "\<exists>oc u. relay_http_handler demo_relay_env demo_cfg [demo_server] now (V4 0x7f000001) (lit ''i'') demo_relayed s = (oc, s) \<and>
     oc_sent oc = [relay_request u demo_relayed (lit ''t'')]"
proof -
  have "rs_id demo_server = lit ''i''" and "rs_url demo_server = lit ''http://a''" and "token_of demo_server = lit ''t''"
    by (simp_all add: demo_server_def token_of_def)
  moreover have "\<exists>u. ul_parse (pe_lib demo_relay_env) x = Some u" for x by (simp add: demo_relay_env_def demo_origin_lib_def)
  ultimately show ?thesis
    by (simp add: relay_http_handler_def demo_relay_path demo_relay_ip demo_relay_target demo_relay_origin forward_http_def Let_def
        split: option.split) fastforce
qed


subsection \<open>WebSockets through the relay\<close>

lemma map_of_fold_put:
  "map_of (fold (\<lambda>(n, v). al_put n v) hs m) k = (case map_of (rev hs) k of Some v \<Rightarrow> Some v | None \<Rightarrow> map_of m k)"
  by (induction hs arbitrary: m) (auto simp: map_of_al_put map_add_def split: option.splits)

text \<open>Headers of the handshake other than the three that it sets itself are the last ones forwarded.\<close>

lemma ws_headers_forwarded:
  assumes "k \<noteq> ''sec-websocket-protocol''" and "k \<noteq> ''origin''" and "map_of (rev inject) k = None"
  shows "map_of (ws_headers base hs inject) k =
    (case map_of (rev (forwarded ws_forwarded hs)) k of Some v \<Rightarrow> Some v | None \<Rightarrow> map_of base k)"
  using assms by (simp add: ws_headers_def Let_def map_of_fold_put map_of_al_put split: option.split)

lemma map_of_rev_only: "(k, v) \<in> set xs \<Longrightarrow> (\<And>w. (k, w) \<in> set xs \<Longrightarrow> w = v) \<Longrightarrow> map_of (rev xs) k = Some v"
  by (metis map_of_SomeD set_rev weak_map_of_SomeI)

lemma ws_authorization:
  assumes "filter (\<lambda>(n, _). n = ''authorization'') hs = [(''authorization'', Text v)]"
  shows "map_of (rev (forwarded ws_forwarded (filter (\<lambda>(n, _). n \<noteq> ''cookie'') hs))) ''authorization'' = Some v"
proof (rule map_of_rev_only)
  have only: "(''authorization'', x) \<in> set hs \<longleftrightarrow> x = Text v" for x
    using arg_cong [OF assms, of set] by fastforce
  then show "(''authorization'', v) \<in> set (forwarded ws_forwarded (filter (\<lambda>(n, _). n \<noteq> ''cookie'') hs))"
    by (simp add: in_forwarded ws_forwarded_def)
  show "w = v" if "(''authorization'', w) \<in> set (forwarded ws_forwarded (filter (\<lambda>(n, _). n \<noteq> ''cookie'') hs))" for w
    using that only by (simp add: in_forwarded)
qed

lemma relay_ws_dialled:
  assumes "relay_ws_handler env cfg servers now conn_ip i rq s = (oc, s')" and "d \<in> set (oc_dials oc)"
    and "find (\<lambda>v. rs_id v = i) servers = Some target"
  shows "\<exists>base. wd_headers d = ws_headers base (filter (\<lambda>(n, _). n \<noteq> ''cookie'') (wr_headers rq))
      (if token_of target = [] then [] else [bearer_header (token_of target)])"
proof -
  obtain j rest where p: "parse_relay_path (wr_path rq) = Some (j, rest)"
    using assms by (cases "parse_relay_path (wr_path rq)") (auto simp: relay_ws_handler_def)
  obtain r s1 where a: "authorized_target (pe_lib env) rq (caller_ip cfg conn_ip rq) (pc_port cfg) now (pc_token cfg) servers i rest s = (r, s1)"
    by fastforce
  note run = assms(1,2) p a [unfolded caller_ip_def]
  obtain v where r: "r = Inr v" using run by (cases r) (auto simp: relay_ws_handler_def)
  have v: "v = target" using authorized_target_entitled(3) [OF a [unfolded r]] assms(3) by simp
  show ?thesis using run r v
    by (auto simp: relay_ws_handler_def ws_outcome_def proxy_websocket_def split: option.splits if_splits)
qed

text \<open>
  The token of a WebSocket through the relay. With a token in the roster, that is what the other server
  gets, whatever the caller sent. Without one, the caller's own \<open>authorization\<close> header goes through: the
  token of the hub, to the other server.
\<close>

theorem relay_ws_leaks_callers_token:
  assumes "relay_ws_handler env cfg servers now conn_ip i rq s = (oc, s')" and "d \<in> set (oc_dials oc)"
    and "find (\<lambda>v. rs_id v = i) servers = Some target"
    and "filter (\<lambda>(n, _). n = ''authorization'') (wr_headers rq) = [(''authorization'', Text v)]"
  shows "map_of (wd_headers d) ''authorization'' = Some (if token_of target = [] then v else lit ''Bearer '' @ token_of target)"
proof -
  obtain base where d: "wd_headers d = ws_headers base (filter (\<lambda>(n, _). n \<noteq> ''cookie'') (wr_headers rq))
      (if token_of target = [] then [] else [bearer_header (token_of target)])"
    using relay_ws_dialled [OF assms(1,2,3)] by blast
  show ?thesis
  proof (cases "token_of target = []")
    case True
    with ws_authorization [OF assms(4)] show ?thesis by (simp add: d ws_headers_forwarded)
  next
    case False
    then show ?thesis by (simp add: d ws_headers_def Let_def bearer_header_def map_of_al_put)
  qed
qed

text \<open>A server of the roster that has no token.\<close>

definition demo_open_server :: remote_server where
  "demo_open_server = demo_server\<lparr>rs_token := None, rs_has_token := False\<rparr>"

lemma demo_ws_run:
  "\<exists>oc d. relay_ws_handler demo_relay_env demo_cfg [demo_open_server] now (V4 0x7f000001) (lit ''i'') demo_relayed s = (oc, s) \<and>
     oc_dials oc = [d]"
proof -
  have "rs_id demo_open_server = lit ''i''" and "rs_url demo_open_server = lit ''http://a''"
    by (simp_all add: demo_open_server_def demo_server_def)
  moreover have "\<exists>u. upstream_ws_url (lit ''http://a'') (lit ''api/x'') (query_part demo_relayed) = Some u"
    by (simp add: upstream_ws_url_def lit_def)
  moreover have "pe_ws demo_relay_env u = Some []" and "pe_upgrade demo_relay_env" for u
    by (simp_all add: demo_relay_env_def demo_proxy_env_def)
  ultimately show ?thesis
    by (auto simp: relay_ws_handler_def demo_relay_path demo_relay_ip demo_relay_target demo_relay_origin Let_def
        proxy_websocket_def check_ws_origin_def ws_outcome_def)
qed

theorem relay_ws_leaks_callers_token_witness:
  "\<exists>oc d. relay_ws_handler demo_relay_env demo_cfg [demo_open_server] 0 (V4 0x7f000001) (lit ''i'') demo_relayed
       \<lparr>ss_sessions = [], ss_ttl_secs = 0, ss_throttle = 0\<rparr> = (oc, \<lparr>ss_sessions = [], ss_ttl_secs = 0, ss_throttle = 0\<rparr>) \<and>
     oc_dials oc = [d] \<and> map_of (wd_headers d) ''authorization'' = Some (lit ''Bearer hub'')"
proof -
  obtain oc d where run: "relay_ws_handler demo_relay_env demo_cfg [demo_open_server] 0 (V4 0x7f000001) (lit ''i'') demo_relayed
      \<lparr>ss_sessions = [], ss_ttl_secs = 0, ss_throttle = 0\<rparr> = (oc, \<lparr>ss_sessions = [], ss_ttl_secs = 0, ss_throttle = 0\<rparr>)"
    and d: "oc_dials oc = [d]" using demo_ws_run by blast
  have "find (\<lambda>v. rs_id v = lit ''i'') [demo_open_server] = Some demo_open_server" and "token_of demo_open_server = []"
    by (simp_all add: demo_open_server_def demo_server_def token_of_def)
  then have "map_of (wd_headers d) ''authorization'' = Some (lit ''Bearer hub'')"
    using relay_ws_leaks_callers_token [OF run, of d demo_open_server "lit ''Bearer hub''"] d by (simp add: demo_relayed_def)
  with run d show ?thesis by blast
qed

end
