(* ===== verification/SettingsProps.thy ===== *)
theory SettingsProps
  imports Settings RelayProps
begin

section \<open>Properties of the settings\<close>

text \<open>
  That whatever a file holds or a client writes, the settings in force are in normal form: fonts that cannot
  leave their CSS property, colours, bounded numbers, keyboards of one shape. That writing back what was
  read changes nothing, and what a write by an old client keeps.
\<close>

subsection \<open>Normal forms\<close>

locale normaliser =
  fixes nf :: "'a \<Rightarrow> 'a" and ok :: "'a \<Rightarrow> bool"
  assumes nf_ok: "ok (nf x)" and ok_fixed: "ok x \<Longrightarrow> nf x = x"
begin

lemma idempotent: "nf (nf x) = nf x"
  by (rule ok_fixed) (rule nf_ok)

lemma fixed_iff: "nf x = x \<longleftrightarrow> ok x"
  using nf_ok [of x] ok_fixed [of x] by metis

end

lemma normaliser_map: "normaliser nf ok \<Longrightarrow> normaliser (map nf) (list_all ok)"
  by unfold_locales
    (auto simp: list_all_iff normaliser.nf_ok map_idI normaliser.ok_fixed)

definition opt_all :: "('a \<Rightarrow> bool) \<Rightarrow> 'a option \<Rightarrow> bool" where
  "opt_all p v = (case v of Some x \<Rightarrow> p x | None \<Rightarrow> True)"

lemma normaliser_option: "normaliser nf ok \<Longrightarrow> normaliser (map_option nf) (opt_all ok)"
  by unfold_locales (auto simp: opt_all_def normaliser.nf_ok normaliser.ok_fixed split: option.splits)

lemma normaliser_twice:
  assumes f: "normaliser f okf" and g: "\<And>x. okf x \<Longrightarrow> okg (g x)" "\<And>x. okg x \<Longrightarrow> g x = x" and sub: "\<And>x. okg x \<Longrightarrow> okf x"
  shows "normaliser (g \<circ> f) okg"
  by unfold_locales (use normaliser.nf_ok [OF f] normaliser.ok_fixed [OF f] g sub in auto)

subsection \<open>Keys\<close>

definition between :: "rat \<Rightarrow> rat \<Rightarrow> flt \<Rightarrow> bool" where
  "between lo hi f = (case f of Fin x \<Rightarrow> lo \<le> x \<and> x \<le> hi | NonFinite \<Rightarrow> False)"

definition base_ok :: "action_key \<Rightarrow> bool" where
  "base_ok k \<longleftrightarrow> opt_all (between (1/2) 12) (ky_grow k) \<and>
     ky_kind k \<in> {None, Some (lit ''send''), Some (lit ''action'')} \<and>
     ky_display k \<in> {None, Some (lit ''icon''), Some (lit ''text'')} \<and>
     ky_shape k \<in> {None, Some (lit ''arrow''), Some (lit ''button'')}"

definition key_ok :: "action_key \<Rightarrow> bool" where
  "key_ok k \<longleftrightarrow> base_ok k \<and>
     (is_valid_action k \<longrightarrow> ky_send k = [] \<and> ky_special k = None \<and> (is_paste k \<longleftrightarrow> ky_auto_enter k \<noteq> None))"

lemma finite_or_none_ok: "lo \<le> hi \<Longrightarrow> opt_all (between lo hi) (finite_or_none (clamp_flt lo hi) g)"
  by (auto simp: opt_all_def between_def finite_or_none_def is_finite_def clamp_flt_def split: option.splits flt.splits)

lemma finite_or_none_fixed: "opt_all (between lo hi) g \<Longrightarrow> finite_or_none (clamp_flt lo hi) g = g"
  by (auto simp: opt_all_def between_def finite_or_none_def is_finite_def clamp_flt_def split: option.splits flt.splits)

lemma finite_or_none_wire: "opt_all (between lo hi) g \<Longrightarrow> finite_or_none (\<lambda>x. x) g = g"
  by (auto simp: opt_all_def between_def finite_or_none_def is_finite_def split: option.splits flt.splits)

lemma lit_distinct: "lit ''send'' \<noteq> lit ''action''"
  by (simp add: lit_def)

lemma action_fields [simp]:
  "is_valid_action (k\<lparr>ky_send := a\<rparr>) = is_valid_action k" "is_valid_action (k\<lparr>ky_special := b\<rparr>) = is_valid_action k"
  "is_valid_action (k\<lparr>ky_auto_enter := c\<rparr>) = is_valid_action k" "is_paste (k\<lparr>ky_send := a\<rparr>) = is_paste k"
  "is_paste (k\<lparr>ky_special := b\<rparr>) = is_paste k" "is_paste (k\<lparr>ky_auto_enter := c\<rparr>) = is_paste k"
  "is_valid_action (k\<lparr>ky_grow := g\<rparr>) = is_valid_action k" "is_paste (k\<lparr>ky_grow := g\<rparr>) = is_paste k"
  by (simp_all add: is_valid_action_def is_paste_def)

definition base_key :: "action_key \<Rightarrow> action_key" where
  "base_key k =
     k\<lparr>ky_grow := finite_or_none (clamp_flt (1/2) 12) (ky_grow k),
       ky_kind := (case ky_kind k of Some d \<Rightarrow> Some (if d \<noteq> lit ''send'' \<and> d \<noteq> lit ''action'' then lit ''send'' else d) | None \<Rightarrow> None),
       ky_display := (if ky_display k \<in> {Some (lit ''icon''), Some (lit ''text'')} then ky_display k else None),
       ky_shape := (if ky_shape k \<in> {Some (lit ''arrow''), Some (lit ''button'')} then ky_shape k else None)\<rparr>"

definition settle_action :: "action_key \<Rightarrow> action_key" where
  "settle_action k =
     (if is_valid_action k then
        k\<lparr>ky_send := [], ky_special := None,
          ky_auto_enter := (if is_paste k then Some (case ky_auto_enter k of Some b \<Rightarrow> b | None \<Rightarrow> True) else None)\<rparr>
      else k)"

lemma normalize_action_key_steps: "normalize_action_key = settle_action \<circ> base_key"
  by (rule ext) (simp only: normalize_action_key_def settle_action_def base_key_def Let_def comp_def)

interpretation base: normaliser base_key base_ok
proof
  show "base_ok (base_key k)" for k
    using finite_or_none_ok [of "1/2" 12 "ky_grow k"] by (simp add: base_ok_def base_key_def split: option.split)
  show "base_key k = k" if "base_ok k" for k
  proof -
    have g: "finite_or_none (clamp_flt (1/2) 12) (ky_grow k) = ky_grow k"
      using that by (intro finite_or_none_fixed) (simp add: base_ok_def)
    have kd: "(case ky_kind k of Some d \<Rightarrow> Some (if d \<noteq> lit ''send'' \<and> d \<noteq> lit ''action'' then lit ''send'' else d) | None \<Rightarrow> None) = ky_kind k"
      using that by (cases "ky_kind k") (auto simp: base_ok_def)
    have d: "(if ky_display k \<in> {Some (lit ''icon''), Some (lit ''text'')} then ky_display k else None) = ky_display k"
      using that by (cases "ky_display k") (simp_all add: base_ok_def)
    have s: "(if ky_shape k \<in> {Some (lit ''arrow''), Some (lit ''button'')} then ky_shape k else None) = ky_shape k"
      using that by (cases "ky_shape k") (simp_all add: base_ok_def)
    show ?thesis unfolding base_key_def g kd d s by simp
  qed
qed

lemma settle_base: "base_ok (settle_action k) = base_ok k"
  by (simp add: settle_action_def base_ok_def)

interpretation key: normaliser normalize_action_key key_ok
  unfolding normalize_action_key_steps
proof (rule normaliser_twice [OF base.normaliser_axioms])
  show "key_ok (settle_action k)" if "base_ok k" for k
    using that settle_base [of k] by (auto simp: key_ok_def settle_action_def split: option.split)
  show "settle_action k = k" if "key_ok k" for k
    using that by (cases k) (auto simp: key_ok_def settle_action_def)
  show "base_ok k" if "key_ok k" for k
    using that by (simp add: key_ok_def)
qed

lemma wire_key_fixed:
  assumes "key_ok k"
  shows "wire_key k = k"
proof -
  have g: "finite_or_none (\<lambda>x. x) (ky_grow k) = ky_grow k"
    using assms finite_or_none_wire [of "1/2" 12 "ky_grow k"] by (simp add: key_ok_def base_ok_def)
  have "is_valid_action k \<longrightarrow> ky_send k = [] \<and> ky_special k = None \<and> (is_paste k \<longleftrightarrow> ky_auto_enter k \<noteq> None)"
    using assms by (simp add: key_ok_def)
  then show ?thesis by (intro action_key.equality) (auto simp: wire_key_def Let_def g)
qed

subsection \<open>Keyboards\<close>

text \<open>On the system keyboard a key spans a whole number of columns.\<close>

definition whole :: "int \<Rightarrow> flt \<Rightarrow> bool" where
  "whole hi f = (case f of Fin x \<Rightarrow> x = of_int \<lfloor>x\<rfloor> \<and> 1 \<le> \<lfloor>x\<rfloor> \<and> \<lfloor>x\<rfloor> \<le> hi | NonFinite \<Rightarrow> False)"

definition column_key_ok :: "int \<Rightarrow> action_key \<Rightarrow> bool" where
  "column_key_ok hi k \<longleftrightarrow> key_ok k \<and> opt_all (whole hi) (ky_grow k)"

lemma round_whole: "1 \<le> hi \<Longrightarrow> between (1/2) 12 f \<Longrightarrow> whole hi (clamp_flt 1 (of_int hi) (round_flt f))"
  by (auto simp: between_def whole_def clamp_flt_def round_flt_def split: flt.splits)

lemma round_fixed: "whole hi f \<Longrightarrow> clamp_flt 1 (of_int hi) (round_flt f) = f"
proof (cases f)
  case (Fin x)
  assume "whole hi f"
  then obtain n where n: "x = of_int n" "1 \<le> n" "n \<le> hi" using Fin by (auto simp: whole_def)
  have "\<lfloor>(of_int n :: rat) + 1/2\<rfloor> = n" by (simp add: floor_eq_iff)
  with n Fin show ?thesis by (simp add: clamp_flt_def round_flt_def)
qed (simp add: whole_def)

lemma round_grow_fields [simp]: "is_valid_action (round_grow hi k) = is_valid_action k" "is_paste (round_grow hi k) = is_paste k"
  by (simp_all add: round_grow_def)

lemma whole_between: "hi \<le> 12 \<Longrightarrow> whole hi f \<Longrightarrow> between (1/2) 12 f"
proof (cases f)
  case (Fin x)
  assume hi: "hi \<le> 12" and "whole hi f"
  then obtain n where n: "x = of_int n" "1 \<le> n" "n \<le> hi" using Fin by (auto simp: whole_def)
  then have "(1 :: rat) \<le> of_int n" and "(of_int n :: rat) \<le> of_int 12" using hi by (simp_all only: of_int_1_le_iff of_int_le_iff)
  with n Fin show ?thesis by (simp add: between_def)
qed (simp add: whole_def)

lemma column_key:
  assumes "1 \<le> hi" and "hi \<le> 12"
  shows "normaliser (round_grow (of_int hi) \<circ> normalize_action_key) (column_key_ok hi)"
proof (rule normaliser_twice [OF key.normaliser_axioms])
  show "column_key_ok hi (round_grow (of_int hi) k)" if "key_ok k" for k
  proof -
    have "opt_all (whole hi) (ky_grow (round_grow (of_int hi) k))"
      using that round_whole [OF assms(1)] by (auto simp: round_grow_def key_ok_def base_ok_def opt_all_def split: option.splits)
    moreover from this have "opt_all (between (1/2) 12) (ky_grow (round_grow (of_int hi) k))"
      using whole_between [OF assms(2)] by (auto simp: opt_all_def split: option.splits)
    ultimately show ?thesis using that by (simp add: column_key_ok_def key_ok_def base_ok_def) (simp add: round_grow_def)
  qed
  show "round_grow (of_int hi) k = k" if "column_key_ok hi k" for k
    using that round_fixed [of hi] by (intro action_key.equality) (auto simp: column_key_ok_def round_grow_def opt_all_def split: option.splits)
  show "key_ok k" if "column_key_ok hi k" for k
    using that by (simp add: column_key_ok_def)
qed

interpretation upper_key: normaliser "round_grow 9 \<circ> normalize_action_key" "column_key_ok 9"
  using column_key [of 9] by simp

interpretation lower_key: normaliser "round_grow 10 \<circ> normalize_action_key" "column_key_ok 10"
  using column_key [of 10] by simp

definition system_ok :: "system_keyboard \<Rightarrow> bool" where
  "system_ok c \<longleftrightarrow> list_all (column_key_ok 9) (sk_upper c) \<and>
     (case sk_pages c of [page] \<Rightarrow> list_all (column_key_ok 10) page \<and> sk_lower_pinned c \<le> min 5 (length page) | _ \<Rightarrow> False) \<and>
     sk_upper_pinned c \<le> min 5 (length (sk_upper c))"

lemma one_page: "\<exists>p. one_page ps = [p] \<and> set p = (\<Union>q\<in>set ps. set q)"
  by (cases ps; cases "tl ps") (auto simp: one_page_def)

interpretation system: normaliser normalize_system_keyboard system_ok
proof
  show "system_ok (normalize_system_keyboard c)" for c
  proof -
    let ?ps = "map (map (round_grow 10 \<circ> normalize_action_key)) (sk_pages c)"
    obtain p where p: "one_page ?ps = [p]" and set: "set p = (\<Union>q\<in>set ?ps. set q)" using one_page by blast
    have "list_all (column_key_ok 10) p" unfolding list_all_iff set using lower_key.nf_ok by auto
    moreover have "list_all (column_key_ok 9) (map (round_grow 9 \<circ> normalize_action_key) (sk_upper c))"
      unfolding list_all_iff using upper_key.nf_ok by auto
    ultimately show ?thesis using p by (simp add: system_ok_def normalize_system_keyboard_def Let_def min.coboundedI1)
  qed
  show "normalize_system_keyboard c = c" if ok: "system_ok c" for c
  proof -
    obtain p where p: "sk_pages c = [p]" "list_all (column_key_ok 10) p" "sk_lower_pinned c \<le> min 5 (length p)"
      using ok by (cases "sk_pages c"; cases "tl (sk_pages c)") (auto simp: system_ok_def)
    have "map (round_grow 9 \<circ> normalize_action_key) (sk_upper c) = sk_upper c"
      using that normaliser.ok_fixed [OF normaliser_map [OF upper_key.normaliser_axioms]] by (simp add: system_ok_def)
    moreover have "map (round_grow 10 \<circ> normalize_action_key) p = p"
      using p normaliser.ok_fixed [OF normaliser_map [OF lower_key.normaliser_axioms]] by simp
    ultimately show ?thesis
      using that p by (intro system_keyboard.equality) (auto simp: normalize_system_keyboard_def Let_def one_page_def system_ok_def)
  qed
qed

definition bottom_ok :: "action_bottom \<Rightarrow> bool" where
  "bottom_ok b \<longleftrightarrow> list_all (list_all key_ok) (ab_rows b) \<and>
     (case ab_enter b of Some e \<Rightarrow> key_ok e \<and> ky_kind e = Some (lit ''send'') \<and> ky_send e = [13] | None \<Rightarrow> False) \<and>
     opt_all (between (5404319552844595 / 36028797018963968) (1/2)) (ab_enter_width b)"

definition action_keyboard_ok :: "action_keyboard \<Rightarrow> bool" where
  "action_keyboard_ok c \<longleftrightarrow> list_all (list_all key_ok) (kb_rows c) \<and> opt_all bottom_ok (kb_bottom c)"

lemma default_action_enter_ok: "key_ok (default_action_enter l)"
  by (simp add: key_ok_def base_ok_def default_action_enter_def blank_key_def opt_all_def is_valid_action_def lit_distinct)

interpretation rows: normaliser "map (map normalize_action_key)" "list_all (list_all key_ok)"
  by (intro normaliser_map key.normaliser_axioms)

interpretation bottom: normaliser normalize_bottom bottom_ok
proof
  let ?w = "finite_or_none (clamp_flt (5404319552844595 / 36028797018963968) (1/2))"
  show "bottom_ok (normalize_bottom b)" for b
  proof -
    let ?e = "map_option normalize_action_key (ab_enter b)"
    let ?valid = "case ?e of Some e \<Rightarrow> ky_kind e = Some (lit ''send'') \<and> ky_send e = [13] | None \<Rightarrow> False"
    have "\<exists>e. ab_enter (normalize_bottom b) = Some e \<and> key_ok e \<and> ky_kind e = Some (lit ''send'') \<and> ky_send e = [13]"
    proof (cases ?valid)
      case True
      then show ?thesis using key.nf_ok by (auto simp: normalize_bottom_def Let_def split: option.splits)
    next
      case False
      have "ab_enter (normalize_bottom b) = (if ?valid then ?e else Some (default_action_enter
          (case ?e of Some e \<Rightarrow> if trim (ky_label e) \<noteq> [] then ky_label e else [0x21B5] | None \<Rightarrow> [0x21B5])))"
        by (simp add: normalize_bottom_def Let_def)
      with False obtain l where "ab_enter (normalize_bottom b) = Some (default_action_enter l)" by (simp only: if_False)
      then show ?thesis using default_action_enter_ok [of l] by (simp add: default_action_enter_def)
    qed
    moreover have "opt_all (between (5404319552844595 / 36028797018963968) (1/2)) (ab_enter_width (normalize_bottom b))"
      using finite_or_none_ok [of "5404319552844595 / 36028797018963968" "1/2" "ab_enter_width b"]
      by (simp add: normalize_bottom_def Let_def)
    moreover have "list_all (list_all key_ok) (ab_rows (normalize_bottom b))"
      using rows.nf_ok [of "ab_rows b"] by (simp add: normalize_bottom_def Let_def)
    ultimately show ?thesis by (auto simp: bottom_ok_def)
  qed
  show "normalize_bottom b = b" if ok: "bottom_ok b" for b
  proof -
    obtain e where e: "ab_enter b = Some e" "key_ok e" "ky_kind e = Some (lit ''send'')" "ky_send e = [13]"
      using ok by (auto simp: bottom_ok_def split: option.splits)
    have "?w (ab_enter_width b) = ab_enter_width b" using ok by (intro finite_or_none_fixed) (simp add: bottom_ok_def)
    moreover have "map (map normalize_action_key) (ab_rows b) = ab_rows b" using ok rows.ok_fixed by (simp add: bottom_ok_def)
    ultimately show ?thesis
      using e key.ok_fixed [OF e(2)] by (intro action_bottom.equality) (simp_all add: normalize_bottom_def Let_def)
  qed
qed

interpretation action_keyboard: normaliser normalize_action_keyboard action_keyboard_ok
proof
  show "action_keyboard_ok (normalize_action_keyboard c)" for c
    using rows.nf_ok normaliser.nf_ok [OF normaliser_option [OF bottom.normaliser_axioms]]
    by (simp add: action_keyboard_ok_def normalize_action_keyboard_def)
  show "normalize_action_keyboard c = c" if "action_keyboard_ok c" for c
    using that rows.ok_fixed normaliser.ok_fixed [OF normaliser_option [OF bottom.normaliser_axioms]]
    by (intro action_keyboard.equality) (simp_all add: action_keyboard_ok_def normalize_action_keyboard_def)
qed

subsection \<open>Colours and themes\<close>

definition hex_ok :: "rstring \<Rightarrow> bool" where
  "hex_ok c \<longleftrightarrow> length c = 7 \<and> hd c = 35 \<and> list_all (\<lambda>x. is_hexdigit x \<and> to_ascii_lower x = x) (tl c)"

lemma hexdigit_lower: "is_hexdigit (to_ascii_lower c) \<Longrightarrow> to_ascii_lower (to_ascii_lower c) = to_ascii_lower c \<and> utf8_len (to_ascii_lower c) = 1 \<and> \<not> is_whitespace (to_ascii_lower c)"
  by (auto simp: is_hexdigit_def to_ascii_lower_def utf8_len_def is_whitespace_def split: if_splits)

lemma hex_byte_len: "list_all is_hexdigit (map to_ascii_lower h) \<Longrightarrow> byte_len (map to_ascii_lower h) = length h"
  by (induction h) (auto simp: hexdigit_lower)

lemma hex_color_ok: "hex_ok fb \<Longrightarrow> hex_ok (hex_color c fb)"
proof -
  assume fb: "hex_ok fb"
  have low: "list_all (\<lambda>x. is_hexdigit x \<and> to_ascii_lower x = x) (map to_ascii_lower h)" if "list_all is_hexdigit (map to_ascii_lower h)" for h
    using that hexdigit_lower by (simp add: list_all_iff)
  have "hex_ok (35 # map to_ascii_lower h)" if "byte_len (map to_ascii_lower h) = 6" "list_all is_hexdigit (map to_ascii_lower h)" for h
    using low [OF that(2)] hex_byte_len [OF that(2)] that(1) by (simp add: hex_ok_def)
  moreover have "hex_ok (35 # concat (map (\<lambda>x. [x, x]) (map to_ascii_lower h)))"
    if "byte_len (map to_ascii_lower h) = 3" "list_all is_hexdigit (map to_ascii_lower h)" for h
  proof -
    have "length h = 3" using hex_byte_len [OF that(2)] that(1) by simp
    then obtain a b d where "h = [a, b, d]" by (auto simp: length_Suc_conv numeral_3_eq_3)
    with low [OF that(2)] show ?thesis by (simp add: hex_ok_def)
  qed
  ultimately show ?thesis using fb by (auto simp: hex_color_def Let_def simp del: map_map split: option.split)
qed

lemma trim_plain: "s \<noteq> [] \<Longrightarrow> \<not> is_whitespace (hd s) \<Longrightarrow> \<not> is_whitespace (last s) \<Longrightarrow> trim s = s"
proof -
  assume "s \<noteq> []" "\<not> is_whitespace (hd s)" "\<not> is_whitespace (last s)"
  then have "dropWhile is_whitespace s = s" and "dropWhile is_whitespace (rev s) = rev s"
    by (simp_all add: dropWhile_eq_self_iff hd_rev)
  then show ?thesis by (simp add: trim_def)
qed

lemma hex_color_fixed:
  assumes "hex_ok c"
  shows "hex_color c fb = c"
proof -
  obtain t where c: "c = 35 # t" and t: "length t = 6" "list_all (\<lambda>x. is_hexdigit x \<and> to_ascii_lower x = x) t"
    using assms by (cases c) (auto simp: hex_ok_def)
  have low: "map to_ascii_lower t = t" using t(2) by (auto simp: list_all_iff intro: map_idI)
  have hex: "list_all is_hexdigit t" using t(2) by (simp add: list_all_iff)
  have "byte_len t = 6" using hex_byte_len [of t] low hex t(1) by simp
  moreover have "trim c = c"
  proof (rule trim_plain)
    have "last c \<in> set t" using c t(1) by (cases t) auto
    then have "is_hexdigit (last c)" using hex by (simp add: list_all_iff)
    then show "\<not> is_whitespace (last c)" by (auto simp: is_hexdigit_def is_whitespace_def)
  qed (simp_all add: c is_whitespace_def)
  ultimately show ?thesis using c low hex by (simp add: hex_color_def Let_def)
qed

lemma lit_colors: "hex_ok (lit ''#ffffff'')" "hex_ok (lit ''#000000'')"
  by (simp_all add: hex_ok_def lit_def is_hexdigit_def to_ascii_lower_def)

definition colors_ok :: "theme_colors \<Rightarrow> bool" where
  "colors_ok t \<longleftrightarrow> hex_ok (tc_foreground t) \<and> hex_ok (tc_background t) \<and> hex_ok (tc_cursor t) \<and> list_all hex_ok (tc_ansi t)"

lemma normalize_theme_colors_fst:
  "fst (normalize_theme_colors t) =
     \<lparr>tc_foreground = hex_color (tc_foreground t) (lit ''#ffffff''), tc_background = hex_color (tc_background t) (lit ''#000000''),
       tc_cursor = hex_color (tc_cursor t) (lit ''#ffffff''), tc_ansi = map (\<lambda>x. hex_color x (lit ''#000000'')) (tc_ansi t)\<rparr>"
  by (simp add: normalize_theme_colors_def normalize_hex_color_def Let_def comp_def)

interpretation colors: normaliser "\<lambda>t. fst (normalize_theme_colors t)" colors_ok
proof
  show "colors_ok (fst (normalize_theme_colors t))" for t
    by (simp add: normalize_theme_colors_fst colors_ok_def hex_color_ok lit_colors list_all_iff)
  show "fst (normalize_theme_colors t) = t" if "colors_ok t" for t
    using that by (intro theme_colors.equality) (auto simp: normalize_theme_colors_fst colors_ok_def hex_color_fixed list_all_iff intro: map_idI)
qed

text \<open>A theme library: distinct themes with colours in normal form, at most fifteen, and no base theme hidden.\<close>

definition library_ok :: "saved_theme list \<times> rstring list \<Rightarrow> bool" where
  "library_ok l \<longleftrightarrow> (case l of (themes, hidden) \<Rightarrow>
     length themes \<le> THEME_CUSTOM_CAP \<and> distinct (map th_uuid themes) \<and> list_all (\<lambda>t. colors_ok (th_colors t)) themes \<and>
     distinct hidden \<and> set hidden \<inter> set BASE_THEME_NAMES = {})"

definition clamp_library :: "saved_theme list \<times> rstring list \<Rightarrow> saved_theme list \<times> rstring list" where
  "clamp_library l = (case clamp_theme_library (fst l) (snd l) of (t, h, _) \<Rightarrow> (t, h))"

lemma clamp_library_fst: "clamp_library l = (take THEME_CUSTOM_CAP (fst (keep_themes [] (fst l))), fst (keep_hidden [] (snd l)))"
  by (simp add: clamp_library_def clamp_theme_library_def split: prod.split)

lemma keep_themes_Cons:
  "fst (keep_themes seen (t # ts)) =
     (if th_uuid t \<in> set seen then fst (keep_themes seen ts)
      else t\<lparr>th_colors := fst (normalize_theme_colors (th_colors t))\<rparr> # fst (keep_themes (seen @ [th_uuid t]) ts))"
  by (simp add: split_beta)

lemma keep_hidden_Cons:
  "fst (keep_hidden seen (n # ns)) =
     (if n \<in> set BASE_THEME_NAMES \<or> n \<in> set seen then fst (keep_hidden seen ns) else n # fst (keep_hidden (seen @ [n]) ns))"
  by (simp add: split_beta)

lemma keep_themes_ok:
  "distinct (map th_uuid (fst (keep_themes seen ts))) \<and> th_uuid ` set (fst (keep_themes seen ts)) \<inter> set seen = {} \<and>
     list_all (\<lambda>t. colors_ok (th_colors t)) (fst (keep_themes seen ts))"
proof (induction ts arbitrary: seen)
  case (Cons t ts)
  show ?case
  proof (cases "th_uuid t \<in> set seen")
    case True
    then show ?thesis using Cons.IH [of seen] by (simp only: keep_themes_Cons if_True)
  next
    case False
    then show ?thesis using Cons.IH [of "seen @ [th_uuid t]"] colors.nf_ok by (auto simp: keep_themes_Cons simp del: keep_themes.simps)
  qed
qed simp

lemma keep_themes_fixed:
  "distinct (map th_uuid ts) \<Longrightarrow> th_uuid ` set ts \<inter> set seen = {} \<Longrightarrow> list_all (\<lambda>t. colors_ok (th_colors t)) ts \<Longrightarrow>
     fst (keep_themes seen ts) = ts"
proof (induction ts arbitrary: seen)
  case (Cons t ts)
  have "fst (keep_themes (seen @ [th_uuid t]) ts) = ts" using Cons.prems by (intro Cons.IH) auto
  with Cons.prems colors.ok_fixed [of "th_colors t"] show ?case by (simp add: keep_themes_Cons del: keep_themes.simps)
qed simp

lemma keep_hidden_ok:
  "distinct (fst (keep_hidden seen ns)) \<and> set (fst (keep_hidden seen ns)) \<inter> (set seen \<union> set BASE_THEME_NAMES) = {}"
proof (induction ns arbitrary: seen)
  case (Cons n ns)
  show ?case
  proof (cases "n \<in> set BASE_THEME_NAMES \<or> n \<in> set seen")
    case True
    then show ?thesis using Cons.IH [of seen] by (simp only: keep_hidden_Cons if_True)
  next
    case False
    then show ?thesis using Cons.IH [of "seen @ [n]"] by (auto simp: keep_hidden_Cons simp del: keep_hidden.simps)
  qed
qed simp

lemma keep_hidden_fixed:
  "distinct ns \<Longrightarrow> set ns \<inter> (set seen \<union> set BASE_THEME_NAMES) = {} \<Longrightarrow> fst (keep_hidden seen ns) = ns"
proof (induction ns arbitrary: seen)
  case (Cons n ns)
  have "fst (keep_hidden (seen @ [n]) ns) = ns" using Cons.prems by (intro Cons.IH) auto
  with Cons.prems show ?case by (simp add: keep_hidden_Cons del: keep_hidden.simps)
qed simp

interpretation library: normaliser clamp_library library_ok
proof
  show "library_ok (clamp_library l)" for l
    using keep_themes_ok [of "[]" "fst l"] keep_hidden_ok [of "[]" "snd l"]
    by (auto simp: library_ok_def clamp_library_fst list_all_iff take_map [symmetric] dest: in_set_takeD)
  show "clamp_library l = l" if "library_ok l" for l
    using that by (cases l) (auto simp: library_ok_def clamp_library_fst keep_themes_fixed keep_hidden_fixed)
qed

subsection \<open>Fonts\<close>

definition font_ok :: "(rstring \<Rightarrow> rstring) \<Rightarrow> rstring \<Rightarrow> bool" where
  "font_ok lower f \<longleftrightarrow> f \<noteq> [] \<and> length f \<le> 100 \<and> list_all (\<lambda>c. \<not> bad_font_char c) f \<and> lower f \<notin> set (map lower FONT_ANCHORS)"

definition fonts_ok :: "(rstring \<Rightarrow> rstring) \<Rightarrow> rstring list \<Rightarrow> bool" where
  "fonts_ok lower v \<longleftrightarrow> length v \<le> 20 \<and> list_all (font_ok lower) v \<and> distinct (map lower v)"

lemma sanitize_fonts_ok:
  "length out < 20 \<Longrightarrow> list_all (font_ok lower) out \<Longrightarrow> distinct (map lower out) \<Longrightarrow> seen = map lower out \<Longrightarrow>
     fonts_ok lower (sanitize_fonts lower seen out v)"
proof (induction v arbitrary: seen out)
  case Nil
  then show ?case by (simp add: fonts_ok_def)
next
  case (Cons e v)
  let ?t = "trim_font (primary_family e)"
  show ?case
  proof (cases "?t = [] \<or> 100 < length ?t \<or> list_ex bad_font_char ?t \<or> lower ?t \<in> set (map lower FONT_ANCHORS) \<or> lower ?t \<in> set seen")
    case True
    then have "sanitize_fonts lower seen out (e # v) = sanitize_fonts lower seen out v" by (auto simp: Let_def)
    then show ?thesis using Cons.IH [OF Cons.prems] by simp
  next
    case False
    then have t: "font_ok lower ?t" by (auto simp: font_ok_def list_ex_iff list_all_iff)
    then have out: "list_all (font_ok lower) (out @ [?t])" "distinct (map lower (out @ [?t]))" "seen @ [lower ?t] = map lower (out @ [?t])"
      using Cons.prems False by auto
    show ?thesis
    proof (cases "length out + 1 = 20")
      case True
      then have "sanitize_fonts lower seen out (e # v) = out @ [?t]" using False by (simp add: Let_def)
      then show ?thesis using out True by (simp add: fonts_ok_def del: sanitize_fonts.simps)
    next
      case more: False
      then have "sanitize_fonts lower seen out (e # v) = sanitize_fonts lower (seen @ [lower ?t]) (out @ [?t]) v"
        using False by (simp add: Let_def)
      moreover have "length (out @ [?t]) < 20" using more Cons.prems(1) by simp
      ultimately show ?thesis using Cons.IH [OF _ out] by (simp del: sanitize_fonts.simps)
    qed
  qed
qed

lemma clamp_custom_fonts_ok: "fonts_ok lower (fst (clamp_custom_fonts lower v))"
  unfolding clamp_custom_fonts_def Let_def fst_conv by (rule sanitize_fonts_ok) simp_all

text \<open>
  A name in two pairs of quotes loses one pair each time it is normalised, so the result of one pass is
  not in normal form: it can even turn out to be one of the anchors.
\<close>

lemma quoted_font_not_stable:
  "fst (clamp_custom_fonts (map to_ascii_lower) [[39, 39, 120, 39, 39]]) = [[39, 120, 39]]"
  "fst (clamp_custom_fonts (map to_ascii_lower) [[39, 120, 39]]) = [[120]]"
  by (simp_all add: clamp_custom_fonts_def primary_family_def trim_font_def font_space_def is_whitespace_def bad_font_char_def
      css_breaker_def is_control_def FONT_ANCHORS_def lit_def to_ascii_lower_def Let_def)

definition text_ok :: "(rstring \<Rightarrow> rstring) \<Rightarrow> text_config \<Rightarrow> bool" where
  "text_ok lower t \<longleftrightarrow> \<not> font_family_is_unsafe (tx_font_family t) \<and> opt_all (fonts_ok lower) (tx_custom_fonts t) \<and>
     between (13421773 / 134217728) 2 (tx_scroll_sensitivity t) \<and> between 0 5 (tx_scroll_acceleration t) \<and>
     4 \<le> tx_scrollbar_width t \<and> tx_scrollbar_width t \<le> 16"

lemma clamp_text_ok: "text_ok lower (fst (clamp_text_config lower t))"
proof -
  have c: "between lo hi (if is_finite f then clamp_flt lo hi f else Fin d)" if "lo \<le> hi" "lo \<le> d" "d \<le> hi" for lo hi d :: rat and f
    using that by (auto simp: between_def is_finite_def clamp_flt_def split: flt.splits)
  have "\<not> font_family_is_unsafe (lit ''monospace'')"
    by (simp add: font_family_is_unsafe_def css_breaker_def is_control_def lit_def)
  then show ?thesis
    using c [of "13421773 / 134217728" 2 1 "tx_scroll_sensitivity t"] c [of 0 5 0 "tx_scroll_acceleration t"]
      clamp_custom_fonts_ok [of lower "the (tx_custom_fonts t)"]
    by (cases "tx_custom_fonts t") (auto simp: text_ok_def clamp_text_config_def Let_def opt_all_def split: prod.split)
qed

lemma clamp_text_fixed:
  assumes "text_ok lower t" and "opt_all (\<lambda>v. fst (clamp_custom_fonts lower v) = v) (tx_custom_fonts t)"
  shows "fst (clamp_text_config lower t) = t"
proof -
  have c: "(if is_finite f then clamp_flt lo hi f else g) = f" if "between lo hi f" for lo hi f g
    using that by (auto simp: between_def is_finite_def clamp_flt_def split: flt.splits)
  have w: "max 4 (min 16 (tx_scrollbar_width t)) = tx_scrollbar_width t" using assms(1) by (simp add: text_ok_def)
  have t: "t\<lparr>tx_scroll_sensitivity := tx_scroll_sensitivity t, tx_scroll_acceleration := tx_scroll_acceleration t,
      tx_scrollbar_width := tx_scrollbar_width t\<rparr> = t" by simp
  have sens: "(if is_finite (tx_scroll_sensitivity t) then clamp_flt (13421773 / 134217728) 2 (tx_scroll_sensitivity t) else Fin 1) =
      tx_scroll_sensitivity t" and acc: "(if is_finite (tx_scroll_acceleration t) then clamp_flt 0 5 (tx_scroll_acceleration t) else Fin 0) =
      tx_scroll_acceleration t"
    using assms(1) by (intro c; simp add: text_ok_def)+
  have "fst (clamp_text_config lower t) = (case tx_custom_fonts t of None \<Rightarrow> t | Some v \<Rightarrow> t\<lparr>tx_custom_fonts := Some (fst (clamp_custom_fonts lower v))\<rparr>)"
    using assms(1) by (auto simp: clamp_text_config_def sens acc w t text_ok_def split: option.split prod.split)
  with assms(2) show ?thesis by (auto simp: opt_all_def split: option.splits)
qed

subsection \<open>The settings in force\<close>

definition settings_ok :: "(rstring \<Rightarrow> rstring) \<Rightarrow> 'a settings_scheme \<Rightarrow> bool" where
  "settings_ok lower s \<longleftrightarrow> CURRENT_SETTINGS_VERSION \<le> st_version s \<and> text_ok lower (st_text s) \<and> st_quick_send s \<le> 5000 \<and>
     opt_all (\<lambda>v. v \<le> IME_KEYBOARD_OVERLAP_MAX) (st_ime_overlap s) \<and>
     opt_all action_keyboard_ok (st_action_keyboard s) \<and> opt_all action_keyboard_ok (st_action_keyboard_default s) \<and>
     opt_all system_ok (st_system_keyboard s) \<and> opt_all system_ok (st_system_keyboard_default s)"

definition library_of :: "'a settings_scheme \<Rightarrow> saved_theme list \<times> rstring list" where
  "library_of s = (st_themes s, st_hidden s)"

lemmas option_nf = normaliser.nf_ok [OF normaliser_option]
lemmas option_fixed = normaliser.ok_fixed [OF normaliser_option]

lemma migrate_version: "CURRENT_SETTINGS_VERSION \<le> st_version (fst (migrate_settings temp s))"
  by (simp add: migrate_settings_def)

lemma clamp_loaded_ok:
  assumes "CURRENT_SETTINGS_VERSION \<le> st_version (fst p)"
  shows "settings_ok lower (fst (clamp_loaded lower p))"
proof -
  obtain s c0 where p: "p = (s, c0)" by (cases p)
  obtain t c1 where t: "clamp_text_config lower (st_text s) = (t, c1)" by (cases "clamp_text_config lower (st_text s)")
  have "text_ok lower t" using clamp_text_ok [of lower "st_text s"] t by simp
  then show ?thesis
    using assms p t option_nf [OF action_keyboard.normaliser_axioms] option_nf [OF system.normaliser_axioms]
    by (auto simp: clamp_loaded_def clamp_quick_send_threshold_def clamp_ime_keyboard_overlap_px_def normalize_action_keyboards_def
        Let_def settings_ok_def opt_all_def [of "\<lambda>v. v \<le> IME_KEYBOARD_OVERLAP_MAX"] split: option.split)
qed

lemma load_ok: "settings_ok lower (fst (load_settings lower temp x file))"
proof -
  obtain p where p: "load_settings lower temp x file = (case clamp_loaded lower p of (s, changed) \<Rightarrow> (s, if changed then Some s else None))"
    and v: "CURRENT_SETTINGS_VERSION \<le> st_version (fst p)"
  proof (cases "file")
    case (Stored s)
    obtain s1 c where m: "migrate_settings temp s = (s1, c)" by fastforce
    then have "CURRENT_SETTINGS_VERSION \<le> st_version s1" using migrate_version [of temp s] by simp
    then show ?thesis
      by (intro that [of "if trim (st_upload_dir s1) = [] then (s1\<lparr>st_upload_dir := default_upload_dir\<rparr>, True) else (s1, c)"])
        (simp_all add: load_settings_def Stored m)
  qed (use that [OF _ migrate_version] in \<open>simp_all add: load_settings_def\<close>)
  have "fst (load_settings lower temp x file) = fst (clamp_loaded lower p)" unfolding p by (simp split: prod.split)
  with clamp_loaded_ok [OF v] show ?thesis by simp
qed

lemma normalize_put_ok:
  "settings_ok lower (normalize_put lower temp s) \<and> library_ok (library_of (normalize_put lower temp s))"
proof -
  let ?s1 = "(fst (migrate_settings temp (s\<lparr>st_client_version := None\<rparr>)))\<lparr>st_version := CURRENT_SETTINGS_VERSION\<rparr>"
  have "library_ok (clamp_library (st_themes ?s1, st_hidden ?s1))" by (rule library.nf_ok)
  moreover have "clamp_library (st_themes ?s1, st_hidden ?s1) = (fst (clamp_theme_library (st_themes ?s1) (st_hidden ?s1)),
      fst (snd (clamp_theme_library (st_themes ?s1) (st_hidden ?s1))))"
    by (simp add: clamp_library_def split_beta)
  ultimately show ?thesis
    using clamp_text_ok [of lower "st_text ?s1"]
      option_nf [OF action_keyboard.normaliser_axioms] option_nf [OF system.normaliser_axioms]
    by (simp add: normalize_put_def clamp_quick_send_threshold_def clamp_ime_keyboard_overlap_px_def normalize_action_keyboards_def
        clamp_theme_on_put_def split_beta Let_def settings_ok_def library_of_def opt_all_def [of "\<lambda>v. v \<le> IME_KEYBOARD_OVERLAP_MAX"]
        split: option.split)
qed

lemma put_ok:
  assumes "settings_ok lower s"
  shows "settings_ok lower (snd (put_settings lower temp saved new s)) \<and>
    (library_ok (library_of s) \<or> saved \<longrightarrow> library_ok (library_of (snd (put_settings lower temp saved new s))))"
proof -
  have "settings_ok lower (preserve_current_settings_on_legacy_put c i s)" if "settings_ok lower i" for c and i :: "'a settings_scheme"
    using that assms by (auto simp: preserve_current_settings_on_legacy_put_def settings_ok_def Let_def)
  moreover have "library_of (preserve_current_settings_on_legacy_put c i s) = library_of i" for c and i :: "'a settings_scheme"
    by (simp add: preserve_current_settings_on_legacy_put_def library_of_def Let_def)
  moreover have "settings_ok lower (merge_remote_server_tokens (i\<lparr>st_workspace := w\<rparr>) s) = settings_ok lower i"
    and "library_of (merge_remote_server_tokens (i\<lparr>st_workspace := w\<rparr>) s) = library_of i" for i :: "'a settings_scheme" and w
    by (simp_all add: merge_remote_server_tokens_def settings_ok_def library_of_def)
  ultimately show ?thesis
    using assms normalize_put_ok [of lower temp new] by (auto simp: put_settings_def Let_def)
qed

text \<open>What changes the settings: a write of all of them, of the roster, or of the background image.\<close>

datatype 'a settings_op = PutSettings bool "'a settings_scheme" | PutServers bool "remote_server list" | Upload "(bool \<times> bool option) list"

fun settings_step :: "(rstring \<Rightarrow> rstring) \<Rightarrow> rstring \<Rightarrow> url_lib \<Rightarrow> 'a settings_op \<Rightarrow> 'a settings_scheme \<Rightarrow> 'a settings_scheme" where
  "settings_step lower temp lib (PutSettings saved new) s = snd (put_settings lower temp saved new s)"
| "settings_step lower temp lib (PutServers saved roster) s =
     (let (status, servers) = put_remote_servers lib saved roster (st_servers s) in
      if status = 200 then s\<lparr>st_servers := servers, st_version := CURRENT_SETTINGS_VERSION\<rparr> else s)"
| "settings_step lower temp lib (Upload parts) s = snd (upload_background (\<lambda>d. d) parts s)"

lemma upload_ok: "settings_ok lower s \<Longrightarrow> settings_ok lower (snd (upload_background store parts s)) \<and> library_of (snd (upload_background store parts s)) = library_of s"
  by (induction store parts s rule: upload_background.induct) (auto simp: settings_ok_def library_of_def split: option.split)

lemma settings_step_ok:
  assumes "settings_ok lower s"
  shows "settings_ok lower (settings_step lower temp lib op s) \<and>
    (library_ok (library_of s) \<longrightarrow> library_ok (library_of (settings_step lower temp lib op s)))"
proof (cases op)
  case (PutSettings saved new)
  then show ?thesis using put_ok [OF assms, of temp saved new] by simp
next
  case (PutServers saved roster)
  then show ?thesis using assms by (auto simp: settings_ok_def library_of_def Let_def split: prod.split)
next
  case (Upload parts)
  then show ?thesis using upload_ok [OF assms, of "\<lambda>d. d" parts] by simp
qed

lemma run_ok:
  "settings_ok lower s \<Longrightarrow> settings_ok lower (fold (settings_step lower temp lib) ops s) \<and>
     (library_ok (library_of s) \<longrightarrow> library_ok (library_of (fold (settings_step lower temp lib) ops s)))"
proof (induction ops arbitrary: s)
  case (Cons op ops)
  show ?case using settings_step_ok [OF Cons.prems, of temp lib op] Cons.IH [of "settings_step lower temp lib op s"] by auto
qed simp

text \<open>
  C15. Settings are always in normal form. Whatever the file holds and whatever clients write: fonts cannot leave
  the CSS property they are put in and are at most twenty, bounded and distinct; numbers are in their ranges;
  keyboards have one page, whole columns and a working enter key. After the first write that was saved the theme
  library is in normal form too: distinct themes with valid colours, at most fifteen, no base theme hidden.
\<close>

theorem settings_stay_normal:
  "settings_ok lower (fold (settings_step lower temp lib) ops (fst (load_settings lower temp x file))) \<and>
   library_ok (library_of (fold (settings_step lower temp lib) (ops @ PutSettings True new # more_ops) (fst (load_settings lower temp x file))))"
proof -
  let ?s = "fold (settings_step lower temp lib) ops (fst (load_settings lower temp x file))"
  have s: "settings_ok lower ?s" by (rule conjunct1 [OF run_ok [OF load_ok]])
  have "settings_ok lower (settings_step lower temp lib (PutSettings True new) ?s) \<and>
      library_ok (library_of (settings_step lower temp lib (PutSettings True new) ?s))"
    using put_ok [OF s, of temp True new] by simp
  then show ?thesis using s run_ok [of lower "settings_step lower temp lib (PutSettings True new) ?s" temp lib more_ops] by simp
qed

subsection \<open>Reading and writing back\<close>

lemma wire_rows: "list_all (list_all key_ok) r \<Longrightarrow> map (map wire_key) r = r"
  by (auto simp: list_all_iff wire_key_fixed intro!: map_idI)

lemma wire_action_keyboard_fixed:
  assumes "action_keyboard_ok c"
  shows "wire_action_keyboard c = c"
proof -
  have "b\<lparr>ab_rows := map (map wire_key) (ab_rows b), ab_enter := map_option wire_key (ab_enter b),
      ab_enter_width := finite_or_none (\<lambda>x. x) (ab_enter_width b)\<rparr> = b" if "bottom_ok b" for b
  proof -
    have w: "finite_or_none (\<lambda>x. x) (ab_enter_width b) = ab_enter_width b"
      using that by (auto simp: bottom_ok_def intro: finite_or_none_wire)
    have "map_option wire_key (ab_enter b) = ab_enter b" using that wire_key_fixed by (auto simp: bottom_ok_def split: option.splits)
    moreover have "map (map wire_key) (ab_rows b) = ab_rows b" using that wire_rows by (simp add: bottom_ok_def)
    ultimately show ?thesis by (simp add: w)
  qed
  with assms wire_rows show ?thesis
    by (cases "kb_bottom c") (simp_all add: wire_action_keyboard_def action_keyboard_ok_def opt_all_def)
qed

lemma wire_system_keyboard_fixed: "system_ok c \<Longrightarrow> wire_system_keyboard c = c"
proof -
  assume ok: "system_ok c"
  have keys: "map wire_key ks = ks" if "list_all (column_key_ok hi) ks" for hi ks
    using that wire_key_fixed by (auto simp: column_key_ok_def list_all_iff intro!: map_idI)
  obtain p where p: "sk_pages c = [p]" "list_all (column_key_ok 10) p"
    using ok by (cases "sk_pages c"; cases "tl (sk_pages c)") (auto simp: system_ok_def)
  with keys [OF p(2)] ok keys [of 9 "sk_upper c"] show ?thesis by (simp add: wire_system_keyboard_def system_ok_def)
qed

text \<open>
  Settings in the form in which they have been stored by a client and read again: the present version, fields of
  former versions empty, and names of fonts that survive another pass.
\<close>

definition stable :: "(rstring \<Rightarrow> rstring) \<Rightarrow> 'a settings_scheme \<Rightarrow> bool" where
  "stable lower s \<longleftrightarrow> settings_ok lower s \<and> library_ok (library_of s) \<and> st_version s = CURRENT_SETTINGS_VERSION \<and>
     st_client_version s = None \<and> st_system_toolbar_keys s = [] \<and> \<not> st_keep_on_scroll s \<and> st_badge_on_tab s = None \<and>
     list_all key_ok (st_toolbar_keys s) \<and> opt_all (\<lambda>v. fst (clamp_custom_fonts lower v) = v) (tx_custom_fonts (st_text s))"

definition settled :: "(rstring \<Rightarrow> rstring) \<Rightarrow> 'a settings_scheme \<Rightarrow> bool" where
  "settled lower s \<longleftrightarrow> stable lower s \<and> distinct (map rs_id (st_servers s)) \<and>
     list_all (\<lambda>v. refresh_has_token v = v) (st_servers s)"

lemma map_option_fixed: "opt_all ok v \<Longrightarrow> (\<And>x. ok x \<Longrightarrow> f x = x) \<Longrightarrow> map_option f v = v"
  by (cases v) (simp_all add: opt_all_def)

lemma wire_fixed: "stable lower s \<Longrightarrow> wire_settings s = s"
proof -
  assume s: "stable lower s"
  have "map_option wire_action_keyboard (st_action_keyboard s) = st_action_keyboard s"
    and "map_option wire_action_keyboard (st_action_keyboard_default s) = st_action_keyboard_default s"
    using s by (auto simp: stable_def settings_ok_def intro: map_option_fixed wire_action_keyboard_fixed)
  moreover have "map_option wire_system_keyboard (st_system_keyboard s) = st_system_keyboard s"
    and "map_option wire_system_keyboard (st_system_keyboard_default s) = st_system_keyboard_default s"
    using s by (auto simp: stable_def settings_ok_def intro: map_option_fixed wire_system_keyboard_fixed)
  moreover have "map wire_key (st_toolbar_keys s) = st_toolbar_keys s"
    using s wire_key_fixed by (auto simp: stable_def list_all_iff intro!: map_idI)
  ultimately show ?thesis using s by (simp add: wire_settings_def stable_def)
qed

lemma normalize_fixed:
  assumes "stable lower s"
  shows "normalize_put lower temp (s\<lparr>st_client_version := v\<rparr>) = s"
proof -
  have kb: "map_option normalize_action_keyboard k = k" if "opt_all action_keyboard_ok k" for k
    using that action_keyboard.ok_fixed by (rule map_option_fixed)
  have sy: "map_option normalize_system_keyboard k = k" if "opt_all system_ok k" for k
    using that system.ok_fixed by (rule map_option_fixed)
  have lib: "clamp_library (library_of s) = library_of s" using assms library.ok_fixed by (simp add: stable_def)
  then have lib': "fst (clamp_theme_library (st_themes s) (st_hidden s)) = st_themes s"
      "fst (snd (clamp_theme_library (st_themes s) (st_hidden s))) = st_hidden s"
    by (auto simp: clamp_library_def library_of_def split: prod.splits)
  have txt_eq: "fst (clamp_text_config lower (st_text s)) = st_text s"
    using assms by (intro clamp_text_fixed) (simp_all add: stable_def settings_ok_def)
  have s0: "s\<lparr>st_client_version := None\<rparr> = s"
    using assms by (simp add: stable_def)
  have "CURRENT_SETTINGS_VERSION = st_version s" using assms by (simp add: stable_def)
  then have sv: "s\<lparr>st_version := CURRENT_SETTINGS_VERSION\<rparr> = s" by simp
  have ime: "fst (clamp_ime_keyboard_overlap_px s) = s"
    using assms by (cases "st_ime_overlap s") (simp_all add: clamp_ime_keyboard_overlap_px_def stable_def settings_ok_def min_def opt_all_def)
  have kbs: "fst (normalize_action_keyboards s) = s"
    using assms kb sy by (simp add: normalize_action_keyboards_def stable_def settings_ok_def)
  have "migrate_settings temp s = (s, False)" using assms by (simp add: stable_def migrate_settings_def)
  then show ?thesis
    using assms
    by (simp add: normalize_put_def s0 sv txt_eq lib' ime kbs Let_def clamp_quick_send_threshold_def
        clamp_theme_on_put_def split_beta stable_def settings_ok_def)
qed

lemma stable_get: "stable lower s \<Longrightarrow> stable lower (scrub_settings (s\<lparr>st_log_path := p\<rparr>))"
  by (simp add: stable_def scrub_settings_def settings_ok_def library_of_def)

lemma preserve_same:
  "st_system_keyboard i = st_system_keyboard e \<Longrightarrow> st_system_keyboard_default i = st_system_keyboard_default e \<Longrightarrow>
     st_toolbar_mode i = st_toolbar_mode e \<Longrightarrow> st_ime_overlap i = st_ime_overlap e \<Longrightarrow> st_inherit_cwd i = st_inherit_cwd e \<Longrightarrow>
     preserve_current_settings_on_legacy_put c i e = i"
  by (simp add: preserve_current_settings_on_legacy_put_def Let_def)

lemma inherit_roster:
  assumes "distinct (map rs_id r)" and "list_all (\<lambda>v. refresh_has_token v = v) r"
  shows "inherit_remote_server_tokens (map scrub_secrets r) r = r"
  unfolding inherit_remote_server_tokens_def map_map
  using assms inherit_scrubbed [of r] by (intro map_idI) (auto simp: list_all_iff)


lemma default_settled: "settled lower (default_settings x)"
  by (simp add: settled_def stable_def settings_ok_def default_settings_def default_text_def text_ok_def font_family_is_unsafe_def opt_all_def
      between_def library_of_def library_ok_def)


lemma servers_migrated: "st_servers (fst (migrate_settings temp s)) = st_servers s"
proof -
  have up: "st_servers (migrate_upload_dir temp t) = st_servers t" for t :: "'a settings_scheme"
    by (simp add: migrate_upload_dir_def)
  have v4: "st_servers (migrate_v4 t) = st_servers t" for t :: "'a settings_scheme" by (simp add: migrate_v4_def)
  have v5: "st_servers (migrate_v5 t) = st_servers t" for t :: "'a settings_scheme" by (simp add: migrate_v5_def)
  have v7: "st_servers (migrate_v7 t) = st_servers t" for t :: "'a settings_scheme" by (simp add: migrate_v7_def)
  have v8: "st_servers (migrate_v8 t) = st_servers t" for t :: "'a settings_scheme" by (simp add: migrate_v8_def)
  have v9: "st_servers (migrate_v9 t) = st_servers t" for t :: "'a settings_scheme" by (simp add: migrate_v9_def)
  have v10: "st_servers (migrate_v10 t) = st_servers t" for t :: "'a settings_scheme" by (simp add: migrate_v10_def)
  show ?thesis by (simp add: migrate_settings_def Let_def split_beta up v4 v5 v7 v8 v9 v10)
qed

lemma servers_kept:
  "st_servers (fst (migrate_settings temp s)) = st_servers s"
  "st_servers (fst (clamp_quick_send_threshold s)) = st_servers s"
  "st_servers (fst (clamp_ime_keyboard_overlap_px s)) = st_servers s"
  "st_servers (fst (clamp_theme_on_put s)) = st_servers s"
  "st_servers (fst (normalize_action_keyboards s)) = st_servers s"
  by (simp_all add: servers_migrated clamp_quick_send_threshold_def clamp_ime_keyboard_overlap_px_def clamp_theme_on_put_def
      normalize_action_keyboards_def Let_def split_beta split: option.split)

text \<open>A client that does not know the roster, and so leaves it out, deletes it with all its tokens.\<close>

lemma put_without_roster_forgets_servers:
  "st_servers new = [] \<Longrightarrow> st_version new \<le> CURRENT_SETTINGS_VERSION \<Longrightarrow> st_servers (snd (put_settings lower temp True new s)) = []"
proof -
  assume new: "st_servers new = []"
  have norm: "st_servers (normalize_put lower temp new) = st_servers new"
    by (simp add: normalize_put_def Let_def servers_kept)
  then show ?thesis
    using new norm by (simp add: put_settings_def Let_def merge_remote_server_tokens_def inherit_remote_server_tokens_def
        preserve_current_settings_on_legacy_put_def)
qed

end
