(* ===== verification/TemplateStore.thy ===== *)
theory TemplateStore
  imports Layout StrOps "HOL-Library.List_Lexorder"
begin

section \<open>Stored layout templates\<close>

text \<open>
  \<open>templates/types.rs\<close>, \<open>templates/store.rs\<close> and the helpers of \<open>templates/handlers.rs\<close>. The file system is an
  association list from resolved paths (component lists; there are no symbolic links) to what their content parses as,
  in the order in which directories are read. Serialisation itself and making directories are left out.
\<close>

datatype template_scope = WorkspaceScope | GlobalScope

record 'f template =
  tpl_id :: rstring
  tpl_name :: rstring
  tpl_scope :: template_scope
  tpl_workspace :: "rstring option"
  tpl_created :: rstring
  tpl_updated :: rstring
  tpl_layout :: "'f json"

record index_entry =
  ie_id :: rstring
  ie_name :: rstring
  ie_scope :: template_scope
  ie_workspace :: "rstring option"
  ie_updated :: rstring

record 'f pane_override =
  po_cwd :: "string option"
  po_command :: "string option"
  po_title :: "string option"
  po_path :: "string option"
  po_url :: "string option"
  po_options :: "'f json option"

record 'f create_template_body =
  ctb_name :: rstring
  ctb_scope :: template_scope
  ctb_workspace :: "rstring option"
  ctb_source :: string
  ctb_overrides :: "(string, 'f pane_override) amap"

record 'f update_template_body =
  utb_name :: "rstring option"
  utb_source :: "string option"
  utb_overrides :: "(string, 'f pane_override) amap option"

record apply_template_body =
  atb_template :: rstring
  atb_workspace :: "rstring option"

datatype store_error = IoError string | SerializeError string | NotFoundError | BadRequestError string

subsection \<open>Paths\<close>

definition path_comps :: "rstring \<Rightarrow> rstring list" where
  "path_comps s = filter (\<lambda>c. c \<noteq> [] \<and> c \<noteq> [46]) (split_on 47 s)"

text \<open>\<open>PathBuf::path_join\<close>: an absolute path replaces the base.\<close>

definition path_join :: "rstring list \<Rightarrow> rstring \<Rightarrow> rstring list" where
  "path_join base s = (if starts_with s [47] then path_comps s else base @ path_comps s)"

text \<open>What the operating system makes of \<open>..\<close>.\<close>

fun resolve_from :: "rstring list \<Rightarrow> rstring list \<Rightarrow> rstring list" where
  "resolve_from acc [] = acc"
| "resolve_from acc (c # cs) = resolve_from (if c = [46, 46] then butlast acc else acc @ [c]) cs"

definition resolve :: "rstring list \<Rightarrow> rstring list" where
  "resolve p = resolve_from [] p"

definition scope_dir :: "rstring list \<Rightarrow> template_scope \<Rightarrow> rstring option \<Rightarrow> rstring list" where
  "scope_dir base scope ws =
     (case scope of
        GlobalScope \<Rightarrow> path_join base (lit ''global'')
      | WorkspaceScope \<Rightarrow>
          path_join (path_join base (lit ''workspaces'')) (case ws of Some w \<Rightarrow> if w = [] then lit ''orphaned'' else w | None \<Rightarrow> lit ''orphaned''))"

definition template_path :: "rstring list \<Rightarrow> template_scope \<Rightarrow> rstring option \<Rightarrow> rstring \<Rightarrow> rstring list" where
  "template_path base scope ws i = path_join (scope_dir base scope ws) (i @ lit ''.json'')"

definition index_path :: "rstring list \<Rightarrow> template_scope \<Rightarrow> rstring option \<Rightarrow> rstring list" where
  "index_path base scope ws = path_join (scope_dir base scope ws) (lit ''index.json'')"

subsection \<open>Files\<close>

datatype 'f tpl_file = TplFile "'f template" | IndexFile "index_entry list" | OtherFile | LockedFile

type_synonym 'f tpl_fs = "(rstring list, 'f tpl_file) amap"

text \<open>What fails: the \<open>i\<close>-th write of an operation, reading the directory, removing the file.\<close>

record tpl_io =
  io_write :: "nat \<Rightarrow> string option"
  io_list :: bool
  io_remove :: "string option"

definition read_template :: "'f tpl_fs \<Rightarrow> rstring list \<Rightarrow> store_error + 'f template" where
  "read_template fs p =
     (case map_of fs (resolve p) of
        None \<Rightarrow> Inl NotFoundError
      | Some LockedFile \<Rightarrow> Inl (IoError ''read'')
      | Some (TplFile t) \<Rightarrow> Inr t
      | Some _ \<Rightarrow> Inl (SerializeError ''parse''))"

definition read_index :: "'f tpl_fs \<Rightarrow> rstring list \<Rightarrow> store_error + index_entry list" where
  "read_index fs p =
     (case map_of fs (resolve p) of
        None \<Rightarrow> Inl NotFoundError
      | Some LockedFile \<Rightarrow> Inl (IoError ''read'')
      | Some (IndexFile ix) \<Rightarrow> Inr ix
      | Some _ \<Rightarrow> Inl (SerializeError ''parse''))"

text \<open>\<open>write_json_atomic\<close>: the file is replaced as a whole or not at all.\<close>

definition write_file :: "tpl_io \<Rightarrow> nat \<Rightarrow> rstring list \<Rightarrow> 'f tpl_file \<Rightarrow> 'f tpl_fs \<Rightarrow> (store_error + unit) \<times> 'f tpl_fs" where
  "write_file io i p file fs =
     (case io_write io i of Some e \<Rightarrow> (Inl (IoError e), fs) | None \<Rightarrow> (Inr (), al_put (resolve p) file fs))"

subsection \<open>The index\<close>

definition entry_of :: "'f template \<Rightarrow> index_entry" where
  "entry_of t = \<lparr>ie_id = tpl_id t, ie_name = tpl_name t, ie_scope = tpl_scope t, ie_workspace = tpl_workspace t,
     ie_updated = tpl_updated t\<rparr>"

text \<open>\<open>sort_by(|a, b| b.updated_at.cmp(&a.updated_at))\<close>, stable and newest first.\<close>

definition newest_first :: "index_entry list \<Rightarrow> index_entry list" where
  "newest_first es = rev (sort_key ie_updated (rev es))"

text \<open>The names in a directory that count: with the extension \<open>json\<close>, and not the index.\<close>

definition is_template_name :: "rstring \<Rightarrow> bool" where
  "is_template_name n \<longleftrightarrow> 5 < length n \<and> drop (length n - 5) n = lit ''.json'' \<and> n \<noteq> lit ''index.json''"

definition names_in :: "rstring list \<Rightarrow> 'f tpl_fs \<Rightarrow> rstring list" where
  "names_in dir fs = map (last \<circ> fst) (filter (\<lambda>(p, _). p \<noteq> [] \<and> butlast p = resolve dir) fs)"

definition rebuild_index ::
  "tpl_io \<Rightarrow> nat \<Rightarrow> rstring list \<Rightarrow> template_scope \<Rightarrow> rstring option \<Rightarrow> 'f tpl_fs \<Rightarrow> index_entry list \<times> 'f tpl_fs" where
  "rebuild_index io i base scope ws fs =
     (if \<not> io_list io then ([], fs)
      else
        let dir = scope_dir base scope ws;
            found = all_some (map (\<lambda>n. case read_template fs (dir @ [n]) of Inr t \<Rightarrow> Some (entry_of t) | Inl _ \<Rightarrow> None)
              (filter is_template_name (names_in dir fs)));
            ix = newest_first found in
        (ix, snd (write_file io i (index_path base scope ws) (IndexFile ix) fs)))"

definition load_index ::
  "tpl_io \<Rightarrow> nat \<Rightarrow> rstring list \<Rightarrow> template_scope \<Rightarrow> rstring option \<Rightarrow> 'f tpl_fs \<Rightarrow> index_entry list \<times> 'f tpl_fs" where
  "load_index io i base scope ws fs =
     (case read_index fs (index_path base scope ws) of
        Inr ix \<Rightarrow> (ix, fs)
      | Inl NotFoundError \<Rightarrow> ([], fs)
      | Inl _ \<Rightarrow> rebuild_index io i base scope ws fs)"

definition put_entry :: "index_entry \<Rightarrow> index_entry list \<Rightarrow> index_entry list" where
  "put_entry e ix = (if list_ex (\<lambda>x. ie_id x = ie_id e) ix then update_first (\<lambda>x. ie_id x = ie_id e) (\<lambda>_. e) ix else ix @ [e])"

subsection \<open>Operations\<close>

definition save_template :: "tpl_io \<Rightarrow> rstring list \<Rightarrow> 'f template \<Rightarrow> 'f tpl_fs \<Rightarrow> (store_error + unit) \<times> 'f tpl_fs" where
  "save_template io base t fs =
     (case write_file io 0 (template_path base (tpl_scope t) (tpl_workspace t) (tpl_id t)) (TplFile t) fs of
        (Inl e, fs1) \<Rightarrow> (Inl e, fs1)
      | (Inr _, fs1) \<Rightarrow>
          let (ix, fs2) = load_index io 1 base (tpl_scope t) (tpl_workspace t) fs1 in
          write_file io 2 (index_path base (tpl_scope t) (tpl_workspace t)) (IndexFile (newest_first (put_entry (entry_of t) ix))) fs2)"

definition load_template :: "rstring list \<Rightarrow> template_scope \<Rightarrow> rstring option \<Rightarrow> rstring \<Rightarrow> 'f tpl_fs \<Rightarrow> store_error + 'f template" where
  "load_template base scope ws i fs = read_template fs (template_path base scope ws i)"

definition list_store ::
  "tpl_io \<Rightarrow> rstring list \<Rightarrow> template_scope \<Rightarrow> rstring option \<Rightarrow> 'f tpl_fs \<Rightarrow> 'f template list \<times> 'f tpl_fs" where
  "list_store io base scope ws fs =
     (let (ix, fs1) = load_index io 0 base scope ws fs in
      (all_some (map (\<lambda>e. case load_template base scope ws (ie_id e) fs1 of Inr t \<Rightarrow> Some t | Inl _ \<Rightarrow> None) ix), fs1))"

definition delete_stored ::
  "tpl_io \<Rightarrow> rstring list \<Rightarrow> template_scope \<Rightarrow> rstring option \<Rightarrow> rstring \<Rightarrow> 'f tpl_fs \<Rightarrow> (store_error + unit) \<times> 'f tpl_fs" where
  "delete_stored io base scope ws i fs =
     (let p = resolve (template_path base scope ws i) in
      if map_of fs p = None then (Inl NotFoundError, fs)
      else case io_remove io of
        Some e \<Rightarrow> (Inl (IoError e), fs)
      | None \<Rightarrow>
          let (ix, fs1) = load_index io 0 base scope ws (al_del p fs);
              kept = filter (\<lambda>e. ie_id e \<noteq> i) ix in
          if length kept \<noteq> length ix then write_file io 1 (index_path base scope ws) (IndexFile kept) fs1 else (Inr (), fs1))"

subsection \<open>From a tab to a template\<close>

fun jremove :: "string \<Rightarrow> 'f json \<Rightarrow> 'f json" where
  "jremove k (JObj m) = JObj (al_del k m)"
| "jremove k j = j"

definition put_opt :: "string \<Rightarrow> 'f json option \<Rightarrow> 'f json \<Rightarrow> 'f json" where
  "put_opt k v n = (case v of Some x \<Rightarrow> jset k x n | None \<Rightarrow> n)"

definition apply_override :: "string \<Rightarrow> 'f pane_override \<Rightarrow> 'f json \<Rightarrow> 'f json" where
  "apply_override kind ov n =
     (let n1 = put_opt ''title'' (map_option JStr (po_title ov)) n in
      if kind = ''terminal'' then
        put_opt ''startup_command'' (map_option JStr (po_command ov)) (put_opt ''cwd'' (map_option JStr (po_cwd ov)) n1)
      else if kind = ''plugin'' then put_opt ''plugin_options'' (po_options ov) n1
      else if kind = ''files'' then put_opt ''path'' (map_option JStr (po_path ov)) n1
      else if kind = ''web'' then put_opt ''url'' (map_option JStr (po_url ov)) n1
      else n1)"

text \<open>\<open>uid\<close> gives the uuid drawn at a position of the tree.\<close>

definition template_leaf :: "string \<Rightarrow> (string, 'f pane_override) amap \<Rightarrow> 'f json \<Rightarrow> 'f json" where
  "template_leaf new ovs n =
     (let n1 = jset ''paneId'' (JStr new) (jremove ''zoomed'' n) in
      case get_str n ''paneId'' of
        None \<Rightarrow> n1
      | Some p \<Rightarrow> (case map_of ovs p of None \<Rightarrow> n1 | Some ov \<Rightarrow> apply_override (leaf_kind n1) ov n1))"

function walk_leaf :: "(nat list \<Rightarrow> string) \<Rightarrow> (string, 'f pane_override) amap \<Rightarrow> nat list \<Rightarrow> 'f json \<Rightarrow> 'f json" where
  "walk_leaf uid ovs pos n =
     (case get_str n ''type'' of
        None \<Rightarrow> n
      | Some t \<Rightarrow>
          if t = ''leaf'' then template_leaf (uid pos) ovs n
          else if t = ''split'' then
            (case kids n of
               None \<Rightarrow> n
             | Some cs \<Rightarrow> jset ''children'' (JArr (map (\<lambda>(i, c). walk_leaf uid ovs (pos @ [i]) c) (enumerate 0 cs))) n)
          else n)"
  by pat_completeness auto
termination
  by (relation "measure (\<lambda>(_, _, _, n). size n)") (auto dest!: in_set_enumerate_eq [THEN iffD1] intro!: kids_smaller)

declare walk_leaf.simps [simp del]

definition extract_layout_for_template :: "(nat list \<Rightarrow> string) \<Rightarrow> 'f json \<Rightarrow> (string, 'f pane_override) amap \<Rightarrow> 'f json" where
  "extract_layout_for_template uid layout ovs = walk_leaf uid ovs [] layout"

definition validate_scope :: "template_scope \<Rightarrow> rstring option \<Rightarrow> (nat \<times> string) + unit" where
  "validate_scope scope ws =
     (if scope = WorkspaceScope \<and> (case ws of None \<Rightarrow> True | Some w \<Rightarrow> trim w = [])
      then Inl (400, ''workspace scope requires workspace_id'') else Inr ())"

definition map_store_error :: "store_error \<Rightarrow> nat \<times> string" where
  "map_store_error e =
     (case e of
        NotFoundError \<Rightarrow> (404, ''template not found'')
      | BadRequestError m \<Rightarrow> (400, m)
      | IoError _ \<Rightarrow> (500, ''storage error'')
      | SerializeError _ \<Rightarrow> (500, ''serialization error''))"

end
