(* ===== verification/Cwd.thy ===== *)
theory Cwd
  imports Utf8 StrOps
begin

section \<open>The working directory in a terminal's title\<close>

text \<open>
  \<open>session/cwd.rs\<close> and \<open>on_pty_output\<close> of \<open>session/mod.rs\<close>: shells put \<open>user@host:path\<close> in the title, and
  the directory is read from there. Paths are strings; \<open>canon\<close> is \<open>dunce::canonicalize\<close>.
\<close>

definition OSC_SNIFF_CAP :: nat where
  "OSC_SNIFF_CAP = 32768"

definition OSC_TITLE :: "u8 list" where
  "OSC_TITLE = [27, 93, 48, 59]"

text \<open>Only used with a needle that is not empty (\<open>windows\<close> panics otherwise).\<close>

fun find_subslice :: "u8 list \<Rightarrow> u8 list \<Rightarrow> nat option" where
  "find_subslice [] needle = (if needle = [] then Some 0 else None)"
| "find_subslice (b # bs) needle =
     (if take (length needle) (b # bs) = needle then Some 0 else map_option Suc (find_subslice bs needle))"

subsection \<open>Titles\<close>

text \<open>The text after the last occurrence, and after the first.\<close>

fun rsplit_after :: "rchar \<Rightarrow> rstring \<Rightarrow> rstring option" where
  "rsplit_after c [] = None"
| "rsplit_after c (x # xs) = (case rsplit_after c xs of Some t \<Rightarrow> Some t | None \<Rightarrow> if x = c then Some xs else None)"

text \<open>\<open>Path::join\<close>: an absolute path replaces the one before it.\<close>

definition join_path :: "rstring \<Rightarrow> rstring \<Rightarrow> rstring" where
  "join_path base p =
     (if starts_with p [47] then p else if base = [] \<or> last base = 47 then base @ p else base @ 47 # p)"

definition parse_title_cwd :: "rstring \<Rightarrow> rstring \<Rightarrow> rstring option" where
  "parse_title_cwd title home =
     (case rsplit_after 64 title of
        None \<Rightarrow> None
      | Some tail \<Rightarrow>
          (case split_once 58 tail of
             None \<Rightarrow> None
           | Some (_, p) \<Rightarrow>
               let path = trim p in
               if path = [] then None
               else Some (case strip_prefix [126, 47] path of
                   Some rest \<Rightarrow> join_path home rest
                 | None \<Rightarrow> if path = [126] then home else join_path home path)))"

subsection \<open>Sniffing\<close>

text \<open>Where a title ends: at BEL or ESC backslash, whichever is first, and how long that terminator is.\<close>

definition title_end :: "u8 list \<Rightarrow> (nat \<times> nat) option" where
  "title_end bs =
     (let bel = find_subslice bs [7]; st = find_subslice bs [27, 92];
          rel = (case (bel, st) of
                   (Some a, Some b) \<Rightarrow> Some (min a b)
                 | (Some a, None) \<Rightarrow> Some a
                 | (None, Some b) \<Rightarrow> Some b
                 | (None, None) \<Rightarrow> None) in
      map_option (\<lambda>r. (r, if st = Some r then 2 else 1)) rel)"

definition title_cwd :: "(rstring \<Rightarrow> rstring option) \<Rightarrow> bool \<Rightarrow> rstring \<Rightarrow> u8 list \<Rightarrow> rstring \<Rightarrow> rstring" where
  "title_cwd canon local home title cwd =
     (case parse_title_cwd (from_utf8_lossy title) home of
        None \<Rightarrow> cwd
      | Some p \<Rightarrow> if local then (case canon p of Some q \<Rightarrow> q | None \<Rightarrow> p) else p)"

lemma find_subslice_bound: "find_subslice h n = Some i \<Longrightarrow> i + length n \<le> length h"
proof (induction h n arbitrary: i rule: find_subslice.induct)
  case (2 b bs n)
  show ?case
  proof (cases "take (length n) (b # bs) = n")
    case True
    then have "length n \<le> length (b # bs)" by (metis length_take min.cobounded1)
    with 2 True show ?thesis by simp
  next
    case False
    with 2 obtain j where "i = Suc j" "find_subslice bs n = Some j" by auto
    with 2 False show ?thesis by auto
  qed
qed (auto split: if_splits)

text \<open>The loop: take complete titles off the buffer, one after the other.\<close>

function sniff_titles ::
  "(rstring \<Rightarrow> rstring option) \<Rightarrow> bool \<Rightarrow> rstring \<Rightarrow> u8 list \<Rightarrow> rstring \<Rightarrow> u8 list \<times> rstring" where
  "sniff_titles canon local home buf cwd =
     (case find_subslice buf OSC_TITLE of
        None \<Rightarrow> (buf, cwd)
      | Some i \<Rightarrow>
          let start = i + length OSC_TITLE in
          case title_end (drop start buf) of
            None \<Rightarrow> (buf, cwd)
          | Some (rel, k) \<Rightarrow>
              sniff_titles canon local home (drop (start + rel + k) buf)
                (title_cwd canon local home (take rel (drop start buf)) cwd))"
  by pat_completeness auto
termination
proof (relation "measure (\<lambda>(_, _, _, buf, _). length buf)", goal_cases)
  case (2 canon local home buf cwd i start e rel k)
  with find_subslice_bound [of buf OSC_TITLE i] show ?case by (simp add: OSC_TITLE_def)
qed simp

declare sniff_titles.simps [simp del]

definition sniff_cwd_from_title_osc ::
  "(rstring \<Rightarrow> rstring option) \<Rightarrow> bool \<Rightarrow> rstring \<Rightarrow> u8 list \<Rightarrow> u8 list \<times> rstring \<Rightarrow> u8 list \<times> rstring" where
  "sniff_cwd_from_title_osc canon local home chunk st =
     (let buf = fst st @ chunk in
      sniff_titles canon local home (if OSC_SNIFF_CAP < length buf then drop (length buf - OSC_SNIFF_CAP) buf else buf) (snd st))"

record cwd_state =
  cs_cwd :: rstring
  cs_host_cwd :: "rstring option"
  cs_sniff :: "u8 list"

text \<open>\<open>ssh\<close>: the session is a remote one; \<open>wsl\<close>: its shell runs in WSL.\<close>

definition on_pty_output ::
  "(rstring \<Rightarrow> rstring option) \<Rightarrow> bool \<Rightarrow> bool \<Rightarrow> rstring option \<Rightarrow> rstring \<Rightarrow> u8 list \<Rightarrow> cwd_state \<Rightarrow> cwd_state" where
  "on_pty_output canon wsl ssh remote_home default_home chunk s =
     (if wsl then s
      else
        let home = (case remote_home of Some h \<Rightarrow> h | None \<Rightarrow> default_home);
            (buf, cwd) = sniff_cwd_from_title_osc canon (\<not> ssh) home chunk (cs_sniff s, cs_cwd s);
            s1 = s\<lparr>cs_sniff := buf, cs_cwd := cwd\<rparr> in
        if ssh then s1 else s1\<lparr>cs_host_cwd := Some cwd\<rparr>)"

definition cwd_for_workspace :: "bool \<Rightarrow> cwd_state \<Rightarrow> rstring option" where
  "cwd_for_workspace ssh s = (if ssh then Some (cs_cwd s) else cs_host_cwd s)"

subsection \<open>Splitting the output does not matter\<close>

lemma find_subslice_append: "find_subslice a n = Some i \<Longrightarrow> find_subslice (a @ b) n = Some i"
proof (induction a n arbitrary: i rule: find_subslice.induct)
  case (2 x xs n)
  show ?case
  proof (cases "take (length n) (x # xs) = n")
    case True
    then have "length n \<le> length (x # xs)" by (metis length_take min.cobounded1)
    then have "take (length n) ((x # xs) @ b) = take (length n) (x # xs)" by (simp add: take_append del: append_Cons)
    with True 2 show ?thesis by simp
  next
    case False
    with 2(2) obtain j where j: "i = Suc j" "find_subslice xs n = Some j" by auto
    have "j + length n \<le> length xs" by (rule find_subslice_bound [OF j(2)])
    then have "length n \<le> length (x # xs)" by simp
    then have "take (length n) ((x # xs) @ b) = take (length n) (x # xs)" by (simp add: take_append del: append_Cons)
    with False have "take (length n) (x # xs @ b) \<noteq> n" by simp
    with 2(1) [OF False j(2)] j(1) show ?thesis by simp
  qed
next
  case (1 n)
  then show ?case by (cases b) (auto split: if_splits)
qed

lemma find_subslice_late: "find_subslice a n = None \<Longrightarrow> find_subslice (a @ b) n = Some i \<Longrightarrow> length a < i + length n"
proof (induction a n arbitrary: i rule: find_subslice.induct)
  case (1 n)
  then show ?case by (cases n) (auto split: if_splits)
next
  case (2 x xs n)
  have ne: "take (length n) (x # xs) \<noteq> n" and no: "find_subslice xs n = None" using 2(2) by (auto split: if_splits)
  show ?case
  proof (cases "take (length n) (x # xs @ b) = n")
    case True
    show ?thesis
    proof (rule ccontr)
      assume "\<not> length (x # xs) < i + length n"
      then have "length n \<le> length (x # xs)" by simp
      then have "take (length n) ((x # xs) @ b) = take (length n) (x # xs)" by (simp add: take_append del: append_Cons)
      with True ne show False by simp
    qed
  next
    case False
    with 2(3) obtain j where "i = Suc j" "find_subslice (xs @ b) n = Some j" by auto
    with 2(1) [OF ne no] show ?thesis by auto
  qed
qed

lemma find_subslice_there: "find_subslice h n = Some i \<Longrightarrow> take (length n) (drop i h) = n"
  by (induction h n arbitrary: i rule: find_subslice.induct) (auto split: if_splits)

lemma title_end_append: "title_end a = Some r \<Longrightarrow> title_end (a @ b) = Some r"
proof -
  assume r: "title_end a = Some r"
  let ?bel = "find_subslice a [7]" and ?st = "find_subslice a [27, 92]"
  show ?thesis
  proof (cases ?bel)
    case None
    with r obtain s where s: "?st = Some s" "r = (s, 2)" by (auto simp: title_end_def Let_def split: option.splits)
    have "find_subslice (a @ b) [27, 92] = Some s" by (rule find_subslice_append [OF s(1)])
    moreover have "s + 2 \<le> length a" using find_subslice_bound [OF s(1)] by simp
    ultimately show ?thesis
      using s find_subslice_late [OF None, of b] by (cases "find_subslice (a @ b) [7]") (auto simp: title_end_def min_def)
  next
    case (Some p)
    have p: "find_subslice (a @ b) [7] = Some p" by (rule find_subslice_append [OF Some])
    have "p + 1 \<le> length a" using find_subslice_bound [OF Some] by simp
    show ?thesis
    proof (cases ?st)
      case None
      with r Some have "r = (p, 1)" by (simp add: title_end_def)
      moreover have "q = p \<or> p < q" if "find_subslice (a @ b) [27, 92] = Some q" for q
        using find_subslice_late [OF None that] \<open>p + 1 \<le> length a\<close> by auto
      moreover have "q \<noteq> p" if "find_subslice (a @ b) [27, 92] = Some q" for q
        using find_subslice_there [OF that] find_subslice_there [OF p] by (cases "drop q (a @ b)") (auto simp del: drop_append take_append)
      ultimately show ?thesis
        using p by (cases "find_subslice (a @ b) [27, 92]") (auto simp: title_end_def min_def)
    next
      case (Some q)
      from find_subslice_append [OF this] show ?thesis using r \<open>?bel = Some p\<close> p Some by (simp add: title_end_def)
    qed
  qed
qed

lemma title_end_bound: "title_end a = Some (r, k) \<Longrightarrow> r + k \<le> length a"
proof -
  assume r: "title_end a = Some (r, k)"
  have b: "p + 1 \<le> length a" if "find_subslice a [7] = Some p" for p using find_subslice_bound [OF that] by simp
  have st: "p + 2 \<le> length a" if "find_subslice a [27, 92] = Some p" for p using find_subslice_bound [OF that] by simp
  from r show ?thesis
    by (cases "find_subslice a [7]"; cases "find_subslice a [27, 92]") (auto simp: title_end_def min_def dest!: b st split: if_splits)
qed

lemma sniff_titles_append:
  "sniff_titles canon local home (buf @ b) cwd =
     (let (rest, c) = sniff_titles canon local home buf cwd in sniff_titles canon local home (rest @ b) c)"
proof (induction canon local home buf cwd rule: sniff_titles.induct)
  case (1 canon local home buf cwd)
  show ?case
  proof (cases "find_subslice buf OSC_TITLE")
    case None
    then show ?thesis by (simp add: sniff_titles.simps [of canon local home buf cwd])
  next
    case (Some i)
    let ?start = "i + length OSC_TITLE"
    have i: "?start \<le> length buf" by (rule find_subslice_bound [OF Some])
    show ?thesis
    proof (cases "title_end (drop ?start buf)")
      case None
      with Some show ?thesis by (simp add: sniff_titles.simps [of canon local home buf cwd])
    next
      case end_: (Some e)
      obtain rel k where e: "e = (rel, k)" by force
      have bound: "rel + k \<le> length buf - ?start" using title_end_bound [OF end_ [unfolded e]] by simp
      have d: "drop ?start (buf @ b) = drop ?start buf @ b" using i by simp
      have t: "take rel (drop ?start (buf @ b)) = take rel (drop ?start buf)" using i bound by simp
      have d2: "drop (?start + rel + k) (buf @ b) = drop (?start + rel + k) buf @ b" using i bound by simp
      have "sniff_titles canon local home (buf @ b) cwd =
          sniff_titles canon local home (drop (?start + rel + k) buf @ b) (title_cwd canon local home (take rel (drop ?start buf)) cwd)"
        by (subst sniff_titles.simps)
          (simp only: find_subslice_append [OF Some] option.case Let_def d title_end_append [OF end_] e prod.case t [unfolded d] d2)
      also have "\<dots> = (let (rest, c) = sniff_titles canon local home (drop (?start + rel + k) buf) (title_cwd canon local home (take rel (drop ?start buf)) cwd)
          in sniff_titles canon local home (rest @ b) c)"
        by (rule 1 [OF Some refl end_ [unfolded e] refl])
      also have "sniff_titles canon local home (drop (?start + rel + k) buf) (title_cwd canon local home (take rel (drop ?start buf)) cwd) =
          sniff_titles canon local home buf cwd"
        by (subst (2) sniff_titles.simps) (simp only: Some option.case Let_def end_ e prod.case)
      finally show ?thesis .
    qed
  qed
qed

lemma sniff_titles_length: "length (fst (sniff_titles canon local home buf cwd)) \<le> length buf"
proof (induction canon local home buf cwd rule: sniff_titles.induct)
  case (1 canon local home buf cwd)
  show ?case
  proof (cases "find_subslice buf OSC_TITLE")
    case None
    then show ?thesis by (simp add: sniff_titles.simps [of canon local home buf cwd])
  next
    case (Some i)
    show ?thesis
    proof (cases "title_end (drop (i + length OSC_TITLE) buf)")
      case None
      with Some show ?thesis by (simp add: sniff_titles.simps [of canon local home buf cwd])
    next
      case end_: (Some e)
      obtain rel k where e: "e = (rel, k)" by force
      show ?thesis
        using 1 [OF Some refl end_ [unfolded e] refl] by (subst sniff_titles.simps) (simp add: Some end_ e Let_def)
    qed
  qed
qed

definition sniff_all ::
  "(rstring \<Rightarrow> rstring option) \<Rightarrow> bool \<Rightarrow> rstring \<Rightarrow> u8 list list \<Rightarrow> u8 list \<times> rstring \<Rightarrow> u8 list \<times> rstring" where
  "sniff_all canon local home chunks st = fold (sniff_cwd_from_title_osc canon local home) chunks st"

lemma sniff_all_concat:
  "length (fst st) + length (concat chunks) \<le> OSC_SNIFF_CAP \<Longrightarrow> sniff_titles canon local home (fst st) (snd st) = st \<Longrightarrow>
     sniff_all canon local home chunks st = sniff_titles canon local home (fst st @ concat chunks) (snd st)"
proof (induction chunks arbitrary: st)
  case Nil
  then show ?case by (simp add: sniff_all_def)
next
  case (Cons a chunks)
  let ?st = "sniff_titles canon local home (fst st @ a) (snd st)"
  have one: "sniff_cwd_from_title_osc canon local home a st = ?st"
    using Cons.prems by (simp add: sniff_cwd_from_title_osc_def Let_def)
  have len: "length (fst ?st) \<le> length (fst st) + length a" using sniff_titles_length [of canon local home "fst st @ a" "snd st"] by simp
  have fixed: "sniff_titles canon local home (fst ?st) (snd ?st) = ?st"
    using sniff_titles_append [of canon local home "fst st @ a" "[]" "snd st"] by (simp add: split_beta)
  have "sniff_all canon local home (a # chunks) st = sniff_all canon local home chunks ?st" by (simp add: sniff_all_def one)
  also have "\<dots> = sniff_titles canon local home (fst ?st @ concat chunks) (snd ?st)"
    using Cons.prems len by (intro Cons.IH fixed) simp
  also have "\<dots> = sniff_titles canon local home ((fst st @ a) @ concat chunks) (snd st)"
    by (simp add: sniff_titles_append [of canon local home "fst st @ a" "concat chunks"] split_beta del: append_assoc)
  finally show ?case by simp
qed

text \<open>
  C36. The directory shown does not depend on how the output was cut. Titles are found whether the terminal's output
  arrives in one piece or in many, cut anywhere, as long as it fits into the buffer; what is left in the buffer is the
  same too.
\<close>

theorem title_survives_chunking:
  assumes "length (concat chunks) \<le> OSC_SNIFF_CAP"
  shows "sniff_all canon local home chunks ([], cwd) = sniff_cwd_from_title_osc canon local home (concat chunks) ([], cwd)"
proof -
  have "sniff_titles canon local home [] cwd = ([], cwd)" by (simp add: sniff_titles.simps OSC_TITLE_def)
  then show ?thesis
    using sniff_all_concat [of "([], cwd)" chunks canon local home] assms by (simp add: sniff_cwd_from_title_osc_def)
qed

text \<open>A title cut in the middle of its escape sequence: \<open>ESC ]\<close> and \<open>0;u@h:/x BEL\<close>.\<close>

theorem title_survives_chunking_witness:
  "sniff_all (\<lambda>p. None) True (lit ''/home'') [[27, 93], [48, 59, 117, 64, 104, 58, 47, 120, 7]] ([], lit ''/'') =
     sniff_cwd_from_title_osc (\<lambda>p. None) True (lit ''/home'') ([27, 93] @ [48, 59, 117, 64, 104, 58, 47, 120, 7]) ([], lit ''/'')"
  using title_survives_chunking [of "[[27, 93], [48, 59, 117, 64, 104, 58, 47, 120, 7]]" "\<lambda>p. None" True "lit ''/home''" "lit ''/''"]
  by (simp add: OSC_SNIFF_CAP_def)

text \<open>An instance of the parser: the last \<open>@\<close>, the colon after it, \<open>~\<close> as the home directory.\<close>

lemma parse_title_cwd_example:
  "parse_title_cwd (lit ''a@b: c@d:~/e'') (lit ''/home/u'') = Some (lit ''/home/u/e'')"
  by (simp add: lit_def parse_title_cwd_def trim_def is_whitespace_def join_path_def starts_with_def)

end
