(* ===== verification/Restore.thy ===== *)
theory Restore
  imports Tabs Cwd
begin

section \<open>Saving the session and starting it again\<close>

text \<open>
  \<open>session/snapshot.rs\<close> and \<open>session/restore.rs\<close>: the tabs are written to \<open>session.json\<close>, and the next start
  spawns a shell for each of their terminals. Serialisation is left out; \<open>text\<close> is \<open>to_string_lossy\<close>, from paths to
  JSON strings.
\<close>

definition SNAPSHOT_VERSION :: nat where
  "SNAPSHOT_VERSION = 1"

definition MAX_RESTORE_TABS :: nat where
  "MAX_RESTORE_TABS = 20"

record 'f tab_snapshot =
  sn_tab :: string
  sn_pane :: string
  sn_layout :: "'f json"
  sn_active :: "string option"
  sn_connection :: "string option"
  sn_workspace :: "string option"
  sn_title :: "string option"
  sn_mode :: "string option"

record 'f session_snapshot =
  ss_version :: nat
  ss_saved_at :: nat
  ss_active :: "string option"
  ss_order :: "string list"
  ss_tabs :: "'f tab_snapshot list"

text \<open>\<open>Default\<close> and \<open>new_now\<close>; the clock's milliseconds are cut to a \<open>u64\<close> or count as zero.\<close>

definition empty_snapshot :: "'f session_snapshot" where
  "empty_snapshot = \<lparr>ss_version = 0, ss_saved_at = 0, ss_active = None, ss_order = [], ss_tabs = []\<rparr>"

definition new_now :: "nat option \<Rightarrow> 'f session_snapshot" where
  "new_now now =
     empty_snapshot\<lparr>ss_version := SNAPSHOT_VERSION,
       ss_saved_at := (case now of Some ms \<Rightarrow> if ms < u64_limit then ms else 0 | None \<Rightarrow> 0)\<rparr>"

subsection \<open>The file\<close>

datatype 'f snapshot_file = NoSnapshot | UnreadableSnapshot | CorruptSnapshot | SavedSnapshot "'f session_snapshot"

text \<open>A corrupt file is removed, if it can be.\<close>

definition load_snapshot :: "bool \<Rightarrow> 'f snapshot_file \<Rightarrow> 'f session_snapshot \<times> 'f snapshot_file" where
  "load_snapshot removed f =
     (case f of
        NoSnapshot \<Rightarrow> (empty_snapshot, NoSnapshot)
      | UnreadableSnapshot \<Rightarrow> (empty_snapshot, UnreadableSnapshot)
      | CorruptSnapshot \<Rightarrow> (empty_snapshot, if removed then NoSnapshot else CorruptSnapshot)
      | SavedSnapshot s \<Rightarrow> (s, SavedSnapshot s))"

text \<open>
  The steps of the atomic write that can fail: making the directory, serialising, the temporary file, writing,
  flushing, renaming. The file changes only when all of them worked.
\<close>

definition atomic_write_json :: "(string + unit) list \<Rightarrow> 'f session_snapshot \<Rightarrow> 'f snapshot_file \<Rightarrow> (string + unit) \<times> 'f snapshot_file" where
  "atomic_write_json steps s f =
     (case filter (\<lambda>r. r \<noteq> Inr ()) steps of
        e # _ \<Rightarrow> (e, f)
      | [] \<Rightarrow> (Inr (), SavedSnapshot s))"

subsection \<open>Taking a snapshot\<close>

text \<open>\<open>live p\<close> is the working directory of pane \<open>p\<close>'s session, if it has one.\<close>

function enrich_leaf_cwd :: "(string \<Rightarrow> string option) \<Rightarrow> 'f json \<Rightarrow> 'f json" where
  "enrich_leaf_cwd live n =
     (if get_str n ''type'' = Some ''leaf'' then
        (if leaf_kind n \<noteq> ''terminal'' then n
         else case get_str n ''paneId'' of
           None \<Rightarrow> n
         | Some p \<Rightarrow> (case live p of None \<Rightarrow> n | Some c \<Rightarrow> jset ''cwd'' (JStr c) n))
      else case kids n of
        None \<Rightarrow> n
      | Some cs \<Rightarrow> jset ''children'' (JArr (map (enrich_leaf_cwd live) cs)) n)"
  by pat_completeness auto
termination by (relation "measure (size o snd)") (auto dest: kids_smaller)

declare enrich_leaf_cwd.simps [simp del]

definition live_cwd :: "(rstring \<Rightarrow> string) \<Rightarrow> ('f, 'ps) manager \<Rightarrow> string \<Rightarrow> string option" where
  "live_cwd text m pane = map_option text (host_of m pane \<bind> hs_cwd)"

definition snapshot_tab :: "(rstring \<Rightarrow> string) \<Rightarrow> ('f, 'ps) manager \<Rightarrow> string \<Rightarrow> 'f tab_snapshot option" where
  "snapshot_tab text m tab =
     (case map_of (mg_layouts m) tab of
        None \<Rightarrow> None
      | Some v \<Rightarrow>
          let layout = (case layout_of v of Some l \<Rightarrow> l | None \<Rightarrow> JNull); active = get_str v ''active_pane_id'' in
          Some \<lparr>sn_tab = tab, sn_pane = (case active of Some a \<Rightarrow> a | None \<Rightarrow> tab),
            sn_layout = enrich_leaf_cwd (live_cwd text m) layout, sn_active = active, sn_connection = None,
            sn_workspace = None, sn_title = None, sn_mode = None\<rparr>)"

definition build_snapshot :: "(rstring \<Rightarrow> string) \<Rightarrow> nat option \<Rightarrow> ('f, 'ps) manager \<Rightarrow> 'f session_snapshot" where
  "build_snapshot text now m =
     (new_now now)\<lparr>ss_active := mg_active m, ss_order := mg_order m, ss_tabs := all_some (map (snapshot_tab text m) (mg_order m))\<rparr>"

definition build_and_save ::
  "(string + unit) list \<Rightarrow> (rstring \<Rightarrow> string) \<Rightarrow> nat option \<Rightarrow> ('f, 'ps) manager \<Rightarrow> 'f snapshot_file \<Rightarrow> (string + unit) \<times> 'f snapshot_file" where
  "build_and_save steps text now m f = atomic_write_json steps (build_snapshot text now m) f"

subsection \<open>Restoring\<close>

function collect_terminal_leaves_with_cwd :: "'f json \<Rightarrow> (string \<times> string option) list" where
  "collect_terminal_leaves_with_cwd n =
     (case get_str n ''type'' of
        None \<Rightarrow> []
      | Some t \<Rightarrow>
          if t = ''leaf'' then
            (if leaf_kind n = ''terminal''
             then (case get_str n ''paneId'' of None \<Rightarrow> [] | Some p \<Rightarrow> [(p, get_str n ''cwd'')]) else [])
          else if t = ''split'' then
            (case kids n of None \<Rightarrow> [] | Some cs \<Rightarrow> concat (map collect_terminal_leaves_with_cwd cs))
          else [])"
  by pat_completeness auto
termination by (relation "measure size") (auto dest: kids_smaller)

declare collect_terminal_leaves_with_cwd.simps [simp del]

text \<open>
  Spawning a shell for a pane in a directory (the shell of the settings; a directory that does not exist is the home
  directory), and what happens while sessions are closed.
\<close>

record ('f, 'ps) boot_env =
  be_spawn :: "string \<Rightarrow> rstring option \<Rightarrow> string + addr \<times> 'ps hosted \<times> string"
  be_recip :: "nat \<Rightarrow> 'f"
  be_close :: "nat \<Rightarrow> close_env"

definition spawn_session ::
  "('f, 'ps) boot_env \<Rightarrow> (('f, 'ps) manager \<Rightarrow> ('f, 'ps) manager) \<Rightarrow> string \<Rightarrow> rstring option \<Rightarrow> ('f, 'ps) manager \<Rightarrow>
     (string + addr \<times> string) \<times> ('f, 'ps) manager" where
  "spawn_session env other pane cwd m =
     open_session (\<lambda>_. other) pane
       (map_sum id (\<lambda>(a, h, sh). (a, h\<lparr>hs_login := None, hs_profile := None, hs_workspace := None\<rparr>, sh)) (be_spawn env pane cwd)) m"

definition spawn_pane ::
  "('f, 'ps) boot_env \<Rightarrow> (('f, 'ps) manager \<Rightarrow> ('f, 'ps) manager) \<Rightarrow> string \<Rightarrow> string option \<Rightarrow> ('f, 'ps) manager \<Rightarrow>
     bool \<times> ('f, 'ps) manager" where
  "spawn_pane env other pane cwd m =
     (case spawn_session env other pane (if cwd = Some [] then None else map_option lit cwd) m of (Inl _, m') \<Rightarrow> (False, m') | (Inr _, m') \<Rightarrow> (True, m'))"

fun roll_back :: "('f, 'ps) boot_env \<Rightarrow> nat \<Rightarrow> string list \<Rightarrow> ('f, 'ps) manager \<Rightarrow> ('f, 'ps) manager" where
  "roll_back env i [] m = m"
| "roll_back env i (p # ps) m = roll_back env (Suc i) ps (snd (kill_and_remove (be_recip env) (be_close env i) p m))"

text \<open>The panes spawned, and whether all of them were. \<open>others i\<close> is what other tasks do during the \<open>i\<close>-th step.\<close>

fun spawn_leaves ::
  "('f, 'ps) boot_env \<Rightarrow> ('f, 'ps) others \<Rightarrow> nat \<Rightarrow> (string \<times> string option) list \<Rightarrow> string list \<Rightarrow> ('f, 'ps) manager \<Rightarrow>
     bool \<times> string list \<times> ('f, 'ps) manager" where
  "spawn_leaves env others i [] spawned m = (True, spawned, m)"
| "spawn_leaves env others i ((p, cwd) # ls) spawned m =
     (case spawn_pane env (others i) p cwd m of
        (False, m1) \<Rightarrow> (False, spawned, m1)
      | (True, m1) \<Rightarrow> spawn_leaves env others (Suc i) ls (spawned @ [p]) m1)"

definition restored_value :: "'f json \<Rightarrow> string option \<Rightarrow> 'f json" where
  "restored_value layout active =
     mk_obj [(''layout'', layout), (''active_pane_id'', case active of Some a \<Rightarrow> JStr a | None \<Rightarrow> JNull)]"

definition restore_single_tab ::
  "('f, 'ps) boot_env \<Rightarrow> ('f, 'ps) others \<Rightarrow> 'f tab_snapshot \<Rightarrow> ('f, 'ps) manager \<Rightarrow> bool \<times> ('f, 'ps) manager" where
  "restore_single_tab env others tab m =
     (let leaves = collect_terminal_leaves_with_cwd (sn_layout tab);
          v = restored_value (sn_layout tab) (sn_active tab) in
      if leaves = [] then (True, insert_tab (sn_tab tab) v m)
      else case spawn_leaves env others 0 leaves [] m of
        (False, spawned, m1) \<Rightarrow> (False, roll_back env 0 spawned m1)
      | (True, _, m1) \<Rightarrow> (True, insert_tab (sn_tab tab) v (others (length leaves) m1)))"

fun restore_tabs ::
  "('f, 'ps) boot_env \<Rightarrow> (nat \<Rightarrow> ('f, 'ps) others) \<Rightarrow> nat \<Rightarrow> 'f tab_snapshot list \<Rightarrow> ('f, 'ps) manager \<Rightarrow> ('f, 'ps) manager" where
  "restore_tabs env others i [] m = m"
| "restore_tabs env others i (t # ts) m = restore_tabs env others (Suc i) ts (snd (restore_single_tab env (others i) t m))"

definition restore_session ::
  "('f, 'ps) boot_env \<Rightarrow> (nat \<Rightarrow> ('f, 'ps) others) \<Rightarrow> 'f session_snapshot \<Rightarrow> ('f, 'ps) manager \<Rightarrow> ('f, 'ps) manager" where
  "restore_session env others s m =
     (let m1 = restore_tabs env others 0 (take MAX_RESTORE_TABS (filter (\<lambda>t. sn_connection t = None) (ss_tabs s))) m in
      case ss_active s of
        None \<Rightarrow> m1
      | Some a \<Rightarrow> if map_of (mg_sessions m1) a \<noteq> None then set_active_pane_id (Some a) m1 else m1)"

text \<open>The start of the server, \<open>main.rs\<close>.\<close>

definition start_restored ::
  "('f, 'ps) boot_env \<Rightarrow> (nat \<Rightarrow> ('f, 'ps) others) \<Rightarrow> bool \<Rightarrow> bool \<Rightarrow> 'f snapshot_file \<Rightarrow> ('f, 'ps) manager \<Rightarrow>
     ('f, 'ps) manager \<times> 'f snapshot_file" where
  "start_restored env others enabled removed f m =
     (if \<not> enabled then (m, f)
      else let (s, f') = load_snapshot removed f in
        (if ss_tabs s = [] then m else restore_session env others s m, f'))"

end
