(* ===== verification/Templates.thy ===== *)
theory Templates
  imports TemplateStore Restore
begin

section \<open>The requests on templates\<close>

text \<open>
  \<open>templates/handlers.rs\<close> and \<open>templates/apply.rs\<close>: making a template of a tab and a tab of a template. What other
  tasks do between accesses to the manager is the parameter \<open>others\<close>, as for the requests on tabs.
\<close>

datatype 'f template_reply =
    TplError nat string
  | TplList "'f template list"
  | TplOne "'f template"
  | TplCreated rstring
  | TplOk
  | TplShellError string nat
  | TplApplied string "'f json" "string list" "rstring option" "string option" "rstring option"

subsection \<open>Handlers\<close>

definition list_templates ::
  "tpl_io \<Rightarrow> rstring list \<Rightarrow> template_scope \<Rightarrow> rstring option \<Rightarrow> 'f tpl_fs \<Rightarrow> 'f template_reply \<times> 'f tpl_fs" where
  "list_templates io base scope ws fs =
     (case validate_scope scope ws of
        Inl (st, msg) \<Rightarrow> (TplError st msg, fs)
      | Inr _ \<Rightarrow> let (ts, fs1) = list_store io base scope ws fs in (TplList ts, fs1))"

definition get_template ::
  "rstring list \<Rightarrow> template_scope \<Rightarrow> rstring option \<Rightarrow> rstring \<Rightarrow> 'f tpl_fs \<Rightarrow> 'f template_reply" where
  "get_template base scope ws i fs =
     (case validate_scope scope ws of
        Inl (st, msg) \<Rightarrow> TplError st msg
      | Inr _ \<Rightarrow> (case load_template base scope ws i fs of
          Inl e \<Rightarrow> (let (st, msg) = map_store_error e in TplError st msg)
        | Inr t \<Rightarrow> TplOne t))"

text \<open>The layout of the source tab.\<close>

definition source_layout :: "string \<Rightarrow> ('f, 'ps) manager \<Rightarrow> (nat \<times> string) + 'f json" where
  "source_layout tab m =
     (case map_of (mg_layouts m) tab of
        None \<Rightarrow> Inl (404, ''source tab not found'')
      | Some v \<Rightarrow> (case jget v ''layout'' of None \<Rightarrow> Inl (500, ''tab layout missing'') | Some l \<Rightarrow> Inr l))"

definition create_template ::
  "tpl_io \<Rightarrow> rstring list \<Rightarrow> (nat list \<Rightarrow> string) \<Rightarrow> rstring \<Rightarrow> rstring \<Rightarrow> ('f, 'ps) manager \<Rightarrow> 'f create_template_body \<Rightarrow> 'f tpl_fs \<Rightarrow>
     'f template_reply \<times> 'f tpl_fs" where
  "create_template io base uid new_id now m req fs =
     (if trim (ctb_name req) = [] then (TplError 400 ''name is required'', fs)
      else case validate_scope (ctb_scope req) (ctb_workspace req) of
        Inl (st, msg) \<Rightarrow> (TplError st msg, fs)
      | Inr _ \<Rightarrow>
          (case source_layout (ctb_source req) m of
             Inl (st, msg) \<Rightarrow> (TplError st msg, fs)
           | Inr l \<Rightarrow>
               let t = \<lparr>tpl_id = new_id, tpl_name = trim (ctb_name req), tpl_scope = ctb_scope req,
                     tpl_workspace = (if ctb_workspace req = Some [] then None else ctb_workspace req),
                     tpl_created = now, tpl_updated = now,
                     tpl_layout = extract_layout_for_template uid l (ctb_overrides req)\<rparr> in
               case save_template io base t fs of
                 (Inl e, fs1) \<Rightarrow> (let (st, msg) = map_store_error e in TplError st msg, fs1)
               | (Inr _, fs1) \<Rightarrow> (TplCreated new_id, fs1)))"

text \<open>A name that is blank counts as none.\<close>

definition updated_template ::
  "(nat list \<Rightarrow> string) \<Rightarrow> rstring \<Rightarrow> ('f, 'ps) manager \<Rightarrow> 'f update_template_body \<Rightarrow> 'f template \<Rightarrow> (nat \<times> string) + 'f template" where
  "updated_template uid now m req old =
     (let name = (case map_option trim (utb_name req) of Some n \<Rightarrow> if n = [] then tpl_name old else n | None \<Rightarrow> tpl_name old) in
      case (case utb_source req of
              None \<Rightarrow> Inr (tpl_layout old)
            | Some tab \<Rightarrow> map_sum id (\<lambda>l. extract_layout_for_template uid l (case utb_overrides req of Some o' \<Rightarrow> o' | None \<Rightarrow> []))
                (source_layout tab m)) of
        Inl e \<Rightarrow> Inl e
      | Inr l \<Rightarrow> Inr (old\<lparr>tpl_name := name, tpl_updated := now, tpl_layout := l\<rparr>))"

definition update_template ::
  "tpl_io \<Rightarrow> rstring list \<Rightarrow> (nat list \<Rightarrow> string) \<Rightarrow> rstring \<Rightarrow> ('f, 'ps) manager \<Rightarrow> template_scope \<Rightarrow> rstring option \<Rightarrow> rstring \<Rightarrow>
     'f update_template_body \<Rightarrow> 'f tpl_fs \<Rightarrow> 'f template_reply \<times> 'f tpl_fs" where
  "update_template io base uid now m scope ws i req fs =
     (case validate_scope scope ws of
        Inl (st, msg) \<Rightarrow> (TplError st msg, fs)
      | Inr _ \<Rightarrow>
          (case load_template base scope ws i fs of
             Inl e \<Rightarrow> (let (st, msg) = map_store_error e in TplError st msg, fs)
           | Inr old \<Rightarrow>
               (case updated_template uid now m req old of
                  Inl (st, msg) \<Rightarrow> (TplError st msg, fs)
                | Inr t \<Rightarrow>
                    (case save_template io base t fs of
                       (Inl e, fs1) \<Rightarrow> (let (st, msg) = map_store_error e in TplError st msg, fs1)
                     | (Inr _, fs1) \<Rightarrow> (TplOk, fs1)))))"

definition delete_template ::
  "tpl_io \<Rightarrow> rstring list \<Rightarrow> template_scope \<Rightarrow> rstring option \<Rightarrow> rstring \<Rightarrow> 'f tpl_fs \<Rightarrow> 'f template_reply \<times> 'f tpl_fs" where
  "delete_template io base scope ws i fs =
     (case validate_scope scope ws of
        Inl (st, msg) \<Rightarrow> (TplError st msg, fs)
      | Inr _ \<Rightarrow> (case delete_stored io base scope ws i fs of
          (Inl e, fs1) \<Rightarrow> (let (st, msg) = map_store_error e in TplError st msg, fs1)
        | (Inr _, fs1) \<Rightarrow> (TplOk, fs1)))"

subsection \<open>Applying a template: the leaves\<close>

definition any_child :: "('f json \<Rightarrow> bool) \<Rightarrow> 'f json \<Rightarrow> bool" where
  "any_child f n = (case kids n of None \<Rightarrow> False | Some cs \<Rightarrow> list_ex f cs)"

lemma any_child_cong [fundef_cong]:
  "n = n' \<Longrightarrow> (\<And>cs c. kids n' = Some cs \<Longrightarrow> c \<in> set cs \<Longrightarrow> f c = g c) \<Longrightarrow> any_child f n = any_child g n'"
  by (auto simp: any_child_def list_ex_iff split: option.split)

function layout_contains_terminal :: "'f json \<Rightarrow> bool" where
  "layout_contains_terminal n \<longleftrightarrow>
     (case get_str n ''type'' of
        None \<Rightarrow> False
      | Some t \<Rightarrow>
          if t = ''leaf'' then leaf_kind n = ''terminal''
          else if t = ''split'' then any_child layout_contains_terminal n
          else False)"
  by pat_completeness auto
termination by (relation "measure size") (auto dest: kids_smaller)

declare layout_contains_terminal.simps [simp del]

text \<open>Running over the children until one fails.\<close>

fun try_map :: "('a \<Rightarrow> 's \<Rightarrow> ('e + 'b) \<times> 's) \<Rightarrow> 'a list \<Rightarrow> 's \<Rightarrow> ('e + 'b list) \<times> 's" where
  "try_map f [] s = (Inr [], s)"
| "try_map f (x # xs) s =
     (case f x s of
        (Inl e, s1) \<Rightarrow> (Inl e, s1)
      | (Inr y, s1) \<Rightarrow> (case try_map f xs s1 of (Inl e, s2) \<Rightarrow> (Inl e, s2) | (Inr ys, s2) \<Rightarrow> (Inr (y # ys), s2)))"

lemma try_map_same: "(\<And>x t. x \<in> set xs \<Longrightarrow> f x t = g x t) \<Longrightarrow> try_map f xs s = try_map g xs s"
proof (induction xs arbitrary: s)
  case (Cons x xs)
  from Cons.prems have one: "f x s = g x s" by simp
  have rest: "try_map f xs = try_map g xs" using Cons.IH Cons.prems by (simp add: fun_eq_iff)
  show ?case unfolding try_map.simps one rest by (rule refl)
qed simp

lemma try_map_cong [fundef_cong]:
  "xs = ys \<Longrightarrow> s = s' \<Longrightarrow> (\<And>x t. x \<in> set ys \<Longrightarrow> f x t = g x t) \<Longrightarrow> try_map f xs s = try_map g ys s'"
  by hypsubst (rule try_map_same)

text \<open>
  What is collected on the way: the panes with a session, the commands to type, the warnings. The environment: the file
  system's answers, the installed plugins, the home directory, uuids by position, and how shells start.
\<close>

record ('f, 'ps) prepared =
  pr_created :: "string list"
  pr_commands :: "(string \<times> string) list"
  pr_warnings :: "string list"
  pr_manager :: "('f, 'ps) manager"

record ('f, 'ps) apply_env =
  ap_boot :: "('f, 'ps) boot_env"
  ap_is_dir :: "rstring \<Rightarrow> bool"
  ap_exists :: "string \<Rightarrow> bool"
  ap_home :: string
  ap_plugins :: "string list"
  ap_uuid :: "nat list \<Rightarrow> string"
  ap_tab :: string
  ap_fallback :: string
  ap_shell_error :: "string option"
  ap_write :: "string \<Rightarrow> bool \<times> (string \<times> nat) option"

definition warn :: "string \<Rightarrow> ('f, 'ps) prepared \<Rightarrow> ('f, 'ps) prepared" where
  "warn msg s = s\<lparr>pr_warnings := pr_warnings s @ [msg]\<rparr>"

text \<open>The directory of the leaf if it exists, else the workspace's, if that exists.\<close>

definition leaf_cwd ::
  "('f, 'ps) apply_env \<Rightarrow> workspace option \<Rightarrow> 'f json \<Rightarrow> ('f, 'ps) prepared \<Rightarrow> rstring option \<times> ('f, 'ps) prepared" where
  "leaf_cwd env ws n s =
     (let wp = map_option ws_path ws;
          (c, s1) = (case get_str n ''cwd'' of
              Some p \<Rightarrow>
                if p = [] then (wp, s)
                else if ap_is_dir env (lit p) then (Some (lit p), s)
                else (wp, warn (''cwd '' @ [CHR 0x27] @ p @ [CHR 0x27] @ '' not found, using workspace root'') s)
            | None \<Rightarrow> (wp, s)) in
      (case c of Some p \<Rightarrow> if ap_is_dir env p then Some p else None | None \<Rightarrow> None, s1))"

text \<open>A pane that was remote becomes a local one. The source contains this step twice.\<close>

definition downgrade_ssh :: "'f json \<times> ('f, 'ps) prepared \<Rightarrow> 'f json \<times> ('f, 'ps) prepared" where
  "downgrade_ssh p =
     (if get_str (fst p) ''shell_type'' = Some ''ssh''
      then (jremove ''shell_type'' (fst p), warn ''SSH pane downgraded to local terminal (reconnect manually)'' (snd p))
      else p)"

definition terminal_pane ::
  "('f, 'ps) apply_env \<Rightarrow> ('f, 'ps) others \<Rightarrow> bool \<Rightarrow> workspace option \<Rightarrow> string \<Rightarrow> 'f json \<Rightarrow> ('f, 'ps) prepared \<Rightarrow>
     ((nat \<times> string) + 'f json) \<times> ('f, 'ps) prepared" where
  "terminal_pane env others shell ws new n s =
     (if \<not> shell then (Inl (500, ''terminal layout is missing a resolved shell''), s)
      else
        let (cwd, s1) = leaf_cwd env ws n s;
            (n1, s2) = downgrade_ssh (downgrade_ssh (n, s1));
            (r, m1) = spawn_session (ap_boot env) (others (length (pr_created s2))) new cwd (pr_manager s2);
            s3 = s2\<lparr>pr_manager := m1\<rparr> in
        case r of
          Inl e \<Rightarrow> (Inl (500, ''failed to create PTY: '' @ e), s3)
        | Inr _ \<Rightarrow>
            let n2 = jset ''paneId'' (JStr new) n1;
                s4 = s3\<lparr>pr_created := pr_created s3 @ [new]\<rparr> in
            (Inr n2, case get_str n2 ''startup_command'' of
               Some cmd \<Rightarrow> if cmd = [] then s4 else s4\<lparr>pr_commands := pr_commands s4 @ [(new, cmd)]\<rparr>
             | None \<Rightarrow> s4))"

definition plugin_pane :: "('f, 'ps) apply_env \<Rightarrow> string \<Rightarrow> 'f json \<Rightarrow> ('f, 'ps) prepared \<Rightarrow> 'f json \<times> ('f, 'ps) prepared" where
  "plugin_pane env new n s =
     (let i = (case get_str n ''pluginId'' of Some x \<Rightarrow> x | None \<Rightarrow> []);
          missing = (i \<noteq> [] \<and> i \<notin> set (ap_plugins env));
          n1 = (if missing then jset ''title'' (JStr (''Plugin '' @ i @ '' (not installed)''))
                  (jset ''load_error'' (JStr ''not_installed'') n) else n);
          s1 = (if missing then warn (''plugin '' @ [CHR 0x27] @ i @ [CHR 0x27] @ '' not installed, showing placeholder'') s else s) in
      (jset ''paneId'' (JStr new) n1, s1))"

definition files_pane :: "('f, 'ps) apply_env \<Rightarrow> string \<Rightarrow> 'f json \<Rightarrow> ('f, 'ps) prepared \<Rightarrow> 'f json \<times> ('f, 'ps) prepared" where
  "files_pane env new n s =
     (let p = (case get_str n ''path'' of Some x \<Rightarrow> x | None \<Rightarrow> []);
          missing = (p \<noteq> [] \<and> \<not> ap_exists env p) in
      (jset ''paneId'' (JStr new) (if missing then jset ''path'' (JStr (ap_home env)) n else n),
       if missing then warn (''files path '' @ [CHR 0x27] @ p @ [CHR 0x27] @ '' not found'') s else s))"

definition prepare_leaf ::
  "('f, 'ps) apply_env \<Rightarrow> ('f, 'ps) others \<Rightarrow> bool \<Rightarrow> workspace option \<Rightarrow> string \<Rightarrow> 'f json \<Rightarrow> ('f, 'ps) prepared \<Rightarrow>
     ((nat \<times> string) + 'f json) \<times> ('f, 'ps) prepared" where
  "prepare_leaf env others shell ws new n s =
     (let kind = leaf_kind n in
      if kind = ''terminal'' then terminal_pane env others shell ws new n s
      else if kind = ''plugin'' then (let (n1, s1) = plugin_pane env new n s in (Inr n1, s1))
      else if kind = ''files'' then (let (n1, s1) = files_pane env new n s in (Inr n1, s1))
      else (Inr (jset ''paneId'' (JStr new) n), s))"

function prepare_layout_with_shell ::
  "('f, 'ps) apply_env \<Rightarrow> ('f, 'ps) others \<Rightarrow> bool \<Rightarrow> workspace option \<Rightarrow> nat list \<Rightarrow> 'f json \<Rightarrow> ('f, 'ps) prepared \<Rightarrow>
     ((nat \<times> string) + 'f json) \<times> ('f, 'ps) prepared" where
  "prepare_layout_with_shell env others shell ws pos n s =
     (case get_str n ''type'' of
        None \<Rightarrow> (Inr n, s)
      | Some t \<Rightarrow>
          if t = ''leaf'' then prepare_leaf env others shell ws (ap_uuid env pos) n s
          else if t = ''split'' then
            (case kids n of
               None \<Rightarrow> (Inr n, s)
             | Some cs \<Rightarrow>
                 (case try_map (\<lambda>(i, c). prepare_layout_with_shell env others shell ws (pos @ [i]) c) (enumerate 0 cs) s of
                    (Inl e, s1) \<Rightarrow> (Inl e, s1)
                  | (Inr ns, s1) \<Rightarrow> (Inr (jset ''children'' (JArr ns) n), s1)))
          else (Inr n, s))"
  by pat_completeness auto
termination
  by (relation "measure (\<lambda>(_, _, _, _, _, n, _). size n)") (auto dest!: in_set_enumerate_eq [THEN iffD1] intro!: kids_smaller)

declare prepare_layout_with_shell.simps [simp del]

subsection \<open>Applying a template: the tab\<close>

function collect_first_pane_id :: "'f json \<Rightarrow> string option" where
  "collect_first_pane_id n =
     (if get_str n ''type'' = Some ''leaf'' then get_str n ''paneId''
      else case kids n of None \<Rightarrow> None | Some cs \<Rightarrow> first_some (map collect_first_pane_id cs))"
  by pat_completeness auto
termination by (relation "measure size") (auto dest: kids_smaller)

function collect_first_terminal_cwd :: "'f json \<Rightarrow> string option" where
  "collect_first_terminal_cwd n =
     (if get_str n ''type'' = Some ''leaf'' then (if leaf_kind n = ''terminal'' then get_str n ''cwd'' else None)
      else case kids n of None \<Rightarrow> None | Some cs \<Rightarrow> first_some (map collect_first_terminal_cwd cs))"
  by pat_completeness auto
termination by (relation "measure size") (auto dest: kids_smaller)

declare collect_first_pane_id.simps [simp del]
declare collect_first_terminal_cwd.simps [simp del]

definition load_template_any_scope :: "rstring list \<Rightarrow> apply_template_body \<Rightarrow> 'f tpl_fs \<Rightarrow> (nat \<times> string) + 'f template" where
  "load_template_any_scope base req fs =
     (let global = (case load_template base GlobalScope None (atb_template req) fs of
          Inr t \<Rightarrow> Inr t
        | Inl NotFoundError \<Rightarrow> Inl (404, ''template not found'')
        | Inl _ \<Rightarrow> Inl (500, ''load template'')) in
      case atb_workspace req of
        None \<Rightarrow> global
      | Some w \<Rightarrow>
          if w = [] then global
          else (case load_template base WorkspaceScope (Some w) (atb_template req) fs of Inr t \<Rightarrow> Inr t | Inl _ \<Rightarrow> global))"

definition request_workspace :: "apply_template_body \<Rightarrow> workspace list \<Rightarrow> workspace option" where
  "request_workspace req wss =
     (case atb_workspace req of
        Some i \<Rightarrow> if i = [] then None else find (\<lambda>w. ws_id w = i) wss
      | None \<Rightarrow> None)"

text \<open>The commands are typed into the sessions that still exist.\<close>

definition type_commands ::
  "('f, 'ps) apply_env \<Rightarrow> (string \<times> string) list \<Rightarrow> ('f, 'ps) manager \<Rightarrow> ('f, 'ps) manager" where
  "type_commands env cmds m =
     fold (\<lambda>(p, cmd) m.
        case map_of (mg_sessions m) p of
          None \<Rightarrow> m
        | Some a \<Rightarrow>
            (let (held, io) = ap_write env p in
             on_hosted a (\<lambda>h. h\<lparr>hs_session := snd (write_input_sync held io (str_bytes (lit cmd @ [10])) (hs_session h))\<rparr>) m)) cmds m"

definition commit_template ::
  "('f, 'ps) apply_env \<Rightarrow> ('f, 'ps) others \<Rightarrow> workspace option \<Rightarrow> 'f json \<Rightarrow> ('f, 'ps) prepared \<Rightarrow>
     'f template_reply \<times> ('f, 'ps) manager" where
  "commit_template env others ws layout s =
     (let k = length (pr_created s);
          active = (case collect_first_pane_id layout of Some p \<Rightarrow> p | None \<Rightarrow> ap_fallback env);
          cwd = (case ws of Some w \<Rightarrow> Some (ws_path w) | None \<Rightarrow> map_option lit (collect_first_terminal_cwd layout));
          connection = ws \<bind> ws_connection;
          m1 = insert_tab (ap_tab env) (tab_value layout active) (others k (pr_manager s));
          m2 = (others (k + 1) m1)\<lparr>mg_active := Some active\<rparr>;
          m3 = broadcast_sync (TabCreated (ap_tab env) active (Some layout) cwd connection (map_option ws_id ws)) (others (k + 2) m2);
          m4 = broadcast_sync (LayoutUpdated (ap_tab env) layout active) (others (k + 3) m3) in
      (TplApplied (ap_tab env) layout (pr_warnings s) cwd connection (map_option ws_id ws),
       type_commands env (pr_commands s) (others (k + 4) m4)))"

definition shell_err_response :: "string \<Rightarrow> 'f template_reply" where
  "shell_err_response code = TplShellError code (if code = ''wsl_timeout'' \<or> code = ''wsl_list_failed'' then 503 else 409)"

definition apply_template ::
  "('f, 'ps) apply_env \<Rightarrow> ('f, 'ps) others \<Rightarrow> rstring list \<Rightarrow> workspace list \<Rightarrow> apply_template_body \<Rightarrow> 'f tpl_fs \<Rightarrow> ('f, 'ps) manager \<Rightarrow>
     'f template_reply \<times> ('f, 'ps) manager" where
  "apply_template env others base wss req fs m =
     (case load_template_any_scope base req fs of
        Inl (st, msg) \<Rightarrow> (TplError st msg, m)
      | Inr t \<Rightarrow>
          let ws = request_workspace req wss; shell = layout_contains_terminal (tpl_layout t) in
          case (if shell then ap_shell_error env else None) of
            Some code \<Rightarrow> (shell_err_response code, m)
          | None \<Rightarrow>
              (case prepare_layout_with_shell env others shell ws [] (tpl_layout t)
                  \<lparr>pr_created = [], pr_commands = [], pr_warnings = [], pr_manager = m\<rparr> of
                 (Inl (st, msg), s) \<Rightarrow> (TplError st msg, roll_back (ap_boot env) 0 (pr_created s) (pr_manager s))
               | (Inr layout, s) \<Rightarrow> commit_template env others ws layout s))"

end
