(* ===== verification/RestoreProps.thy ===== *)
theory RestoreProps
  imports Restore TabsProps
begin

section \<open>What a restart brings back\<close>

subsection \<open>Working directories in the saved layout\<close>

lemma get_str_jset_other: "k' \<noteq> k \<Longrightarrow> get_str (jset k v n) k' = get_str n k'"
  by (simp add: get_str_def jget_jset_other)

lemma leaf_kind_jset: "k \<noteq> ''kind'' \<Longrightarrow> leaf_kind (jset k v n) = leaf_kind n"
  by (simp add: leaf_kind_def get_str_jset_other)

lemma kids_jset_children: "get_str n t = Some s \<Longrightarrow> kids (jset ''children'' (JArr cs) n) = Some cs"
  by (simp add: kids_def jget_jset_obj)

definition moved :: "(string \<Rightarrow> string option) \<Rightarrow> string \<times> string option \<Rightarrow> string \<times> string option" where
  "moved live = (\<lambda>(p, c). (p, or_else (live p) c))"

lemma fst_moved [simp]: "fst (moved live x) = fst x"
  by (cases x) (simp add: moved_def)

text \<open>The directories of live sessions replace those in the layout; nothing else changes about its terminals.\<close>

lemma leaves_of_enriched:
  "collect_terminal_leaves_with_cwd (enrich_leaf_cwd live n) = map (moved live) (collect_terminal_leaves_with_cwd n)"
proof (induction n rule: collect_terminal_leaves_with_cwd.induct)
  case (1 n)
  note leaves = collect_terminal_leaves_with_cwd.simps
  show ?case
  proof (cases "get_str n ''type''")
    case None
    then have "get_str (enrich_leaf_cwd live n) ''type'' = None"
      by (simp add: enrich_leaf_cwd.simps [of live n] get_str_jset_other split: option.split)
    with None show ?thesis by (simp add: leaves [of n] leaves [of "enrich_leaf_cwd live n"])
  next
    case (Some t)
    show ?thesis
    proof (cases "t = ''leaf''")
      case True
      show ?thesis
      proof (cases "leaf_kind n = ''terminal'' \<and> get_str n ''paneId'' \<noteq> None")
        case True
        then obtain p where p: "get_str n ''paneId'' = Some p" by auto
        show ?thesis
        proof (cases "live p")
          case None
          then have "enrich_leaf_cwd live n = n" using Some \<open>t = ''leaf''\<close> True p by (simp add: enrich_leaf_cwd.simps [of live n])
          then show ?thesis using Some \<open>t = ''leaf''\<close> True p None by (simp add: leaves [of n] moved_def or_else_def)
        next
          case d: (Some d)
          have e: "enrich_leaf_cwd live n = jset ''cwd'' (JStr d) n"
            using Some \<open>t = ''leaf''\<close> True p d by (simp add: enrich_leaf_cwd.simps [of live n])
          have "get_str (jset ''cwd'' (JStr d) n) ''cwd'' = Some d" using jget_jset_obj [OF Some] by (simp add: get_str_def)
          then show ?thesis
            using Some \<open>t = ''leaf''\<close> True p d
            by (simp add: e leaves [of n] leaves [of "jset ''cwd'' (JStr d) n"] get_str_jset_other leaf_kind_jset moved_def or_else_def)
        qed
      next
        case False
        then have "enrich_leaf_cwd live n = n"
          using Some \<open>t = ''leaf''\<close> by (auto simp: enrich_leaf_cwd.simps [of live n] split: option.split)
        with False Some \<open>t = ''leaf''\<close> show ?thesis by (auto simp: leaves [of n] split: option.split)
      qed
    next
      case False
      show ?thesis
      proof (cases "kids n")
        case None
        then have "enrich_leaf_cwd live n = n" using Some False by (simp add: enrich_leaf_cwd.simps [of live n])
        with None Some False show ?thesis by (simp add: leaves [of n])
      next
        case cs: (Some cs)
        let ?n = "jset ''children'' (JArr (map (enrich_leaf_cwd live) cs)) n"
        have e: "enrich_leaf_cwd live n = ?n" using Some False cs by (simp add: enrich_leaf_cwd.simps [of live n])
        have k: "kids ?n = Some (map (enrich_leaf_cwd live) cs)" by (rule kids_jset_children [OF Some])
        have "map collect_terminal_leaves_with_cwd (map (enrich_leaf_cwd live) cs) =
            map (\<lambda>c. map (moved live) (collect_terminal_leaves_with_cwd c)) cs" if "t = ''split''"
          using 1 [OF Some False that cs] by simp
        then show ?thesis
          using Some False cs k
          by (auto simp: e leaves [of n] leaves [of ?n] get_str_jset_other map_concat o_def intro!: arg_cong [where f = concat])
      qed
    qed
  qed
qed

lemma leaves_panes: "map fst (collect_terminal_leaves_with_cwd n) = collect_terminal_leaf_pane_ids n"
proof (induction n rule: collect_terminal_leaves_with_cwd.induct)
  case (1 n)
  show ?case
    using 1 by (auto simp: collect_terminal_leaves_with_cwd.simps [of n] collect_terminal_leaf_pane_ids.simps [of n] map_concat o_def
        split: option.split intro!: arg_cong [where f = concat])
qed

subsection \<open>Spawning\<close>

definition asked :: "string option \<Rightarrow> rstring option" where
  "asked cwd = (if cwd = Some [] then None else map_option lit cwd)"

text \<open>The session a pane gets.\<close>

definition spawned_at :: "('f, 'ps) boot_env \<Rightarrow> string \<Rightarrow> string option \<Rightarrow> addr" where
  "spawned_at env p cwd = fst (projr (be_spawn env p (asked cwd)))"

definition spawns :: "('f, 'ps) boot_env \<Rightarrow> bool" where
  "spawns env \<longleftrightarrow> (\<forall>p c. \<exists>s. be_spawn env p c = Inr s)"

text \<open>All sessions are local ones.\<close>

definition all_local :: "('f, 'ps) manager \<Rightarrow> bool" where
  "all_local m \<longleftrightarrow> (\<forall>a \<in> ran (map_of (mg_sessions m)). hs_login (mg_store m a) = None)"

definition vacant :: "string \<Rightarrow> ('f, 'ps) manager \<Rightarrow> bool" where
  "vacant p m \<longleftrightarrow> map_of (mg_sessions m) p = None \<and> p \<notin> set (mg_reserved m)"

text \<open>\<open>adds env ls m m'\<close>: the sessions of \<open>ls\<close> were added, and nothing else happened to the tables.\<close>

definition adds :: "('f, 'ps) boot_env \<Rightarrow> (string \<times> string option) list \<Rightarrow> ('f, 'ps) manager \<Rightarrow> ('f, 'ps) manager \<Rightarrow> bool" where
  "adds env ls m m' \<longleftrightarrow>
     map_of (mg_sessions m') = map_of (mg_sessions m) ++ map_of (map (\<lambda>(p, c). (p, spawned_at env p c)) ls) \<and>
     mg_reserved m' = mg_reserved m \<and> mg_layouts m' = mg_layouts m \<and> mg_order m' = mg_order m \<and> mg_active m' = mg_active m \<and>
     (all_local m \<longrightarrow> all_local m')"

lemma spawn_pane_spec:
  assumes "vacant p m"
  shows "case spawn_pane env (\<lambda>m. m) p c m of
    (ok, m') \<Rightarrow> (if ok then adds env [(p, c)] m m' else adds env [] m m') \<and> (spawns env \<longrightarrow> ok)"
proof (cases "be_spawn env p (asked c)")
  case (Inl e)
  then have "\<not> spawns env" unfolding spawns_def by (metis sum.distinct(1))
  with Inl show ?thesis
    using assms by (auto simp: spawn_pane_def spawn_session_def open_session_def reserve_session_def vacant_def asked_def [symmetric]
        drop_reservation_def adds_def all_local_def)
next
  case (Inr s)
  obtain a h sh where s: "s = (a, h, sh)" by (cases s) auto
  let ?h = "h\<lparr>hs_login := None, hs_profile := None, hs_workspace := None\<rparr>"
  have a: "spawned_at env p c = a" by (simp add: spawned_at_def Inr s)
  have "spawn_pane env (\<lambda>m. m) p c m =
      (True, publish_bus (Some (SessionCreatedEv p sh)) ((on_hosted a (\<lambda>_. ?h) m)\<lparr>mg_sessions := al_put p a (mg_sessions m),
        mg_unowned := al_del p (mg_unowned m), mg_reserved := mg_reserved m\<rparr>))"
    using assms by (simp add: spawn_pane_def spawn_session_def asked_def [symmetric] Inr s open_session_def reserve_session_def vacant_def
        publish_reserved_def on_hosted_def Let_def)
  then show ?thesis
    by (auto simp: adds_def a publish_bus_def on_hosted_def map_of_al_put all_local_def ran_def fun_eq_iff map_add_def split: if_splits option.splits)
qed

lemma adds_trans: "adds env ls m m1 \<Longrightarrow> adds env ls' m1 m2 \<Longrightarrow> distinct (map fst (ls @ ls')) \<Longrightarrow> adds env (ls @ ls') m m2"
proof -
  assume a: "adds env ls m m1" "adds env ls' m1 m2" "distinct (map fst (ls @ ls'))"
  let ?g = "\<lambda>(p, c). (p, spawned_at env p c)"
  have "dom (map_of (map ?g ls)) \<inter> dom (map_of (map ?g ls')) = {}"
    using a(3) by (auto simp: dom_map_of_conv_image_fst image_image split_beta)
  then have "map_of (map ?g ls) ++ map_of (map ?g ls') = map_of (map ?g ls') ++ map_of (map ?g ls)" by (rule map_add_comm)
  then have "map_of (mg_sessions m) ++ map_of (map ?g ls) ++ map_of (map ?g ls') =
      map_of (mg_sessions m) ++ map_of (map ?g ls') ++ map_of (map ?g ls)" by (metis map_add_assoc)
  with a(1,2) show ?thesis by (simp add: adds_def map_of_append)
qed

lemma vacant_adds: "adds env ls m m' \<Longrightarrow> vacant p m \<Longrightarrow> p \<notin> fst ` set ls \<Longrightarrow> vacant p m'"
proof -
  assume a: "adds env ls m m'" "vacant p m" "p \<notin> fst ` set ls"
  from a(3) have "map_of (map (\<lambda>(p, c). (p, spawned_at env p c)) ls) p = None" by (force simp: map_of_eq_None_iff)
  with a(1,2) show ?thesis by (simp add: adds_def vacant_def map_add_def)
qed

lemma spawn_leaves_spec:
  "distinct (map fst ls) \<Longrightarrow> list_all (\<lambda>l. vacant (fst l) m) ls \<Longrightarrow> spawn_leaves env alone i ls sp m = (ok, sp', m') \<Longrightarrow>
     (\<exists>done rest. ls = done @ rest \<and> sp' = sp @ map fst done \<and> adds env done m m' \<and> (ok \<longleftrightarrow> rest = [])) \<and> (spawns env \<longrightarrow> ok)"
proof (induction ls arbitrary: i sp m)
  case Nil
  then show ?case by (auto simp: adds_def)
next
  case (Cons l ls)
  obtain p c where l: "l = (p, c)" by force
  obtain ok1 m1 where s: "spawn_pane env (alone i) p c m = (ok1, m1)" by force
  have v: "vacant p m" using Cons.prems(2) l by simp
  note spec = spawn_pane_spec [OF v, of env c]
  show ?case
  proof (cases ok1)
    case False
    then have "ok = False" "sp' = sp" "m' = m1" using Cons.prems(3) s l by simp_all
    then show ?thesis using spec s False by (auto simp: alone_def intro!: exI [of _ "[]"])
  next
    case True
    have a: "adds env [(p, c)] m m1" using spec s True by (simp add: alone_def)
    have rest: "spawn_leaves env alone (Suc i) ls (sp @ [p]) m1 = (ok, sp', m')" using Cons.prems(3) s l True by simp
    have "list_all (\<lambda>l. vacant (fst l) m1) ls"
      using Cons.prems(1,2) l vacant_adds [OF a] by (auto simp: list_all_iff)
    from Cons.IH [OF _ this rest] Cons.prems(1)
    obtain d r where d: "ls = d @ r" "sp' = (sp @ [p]) @ map fst d" "adds env d m1 m'" "ok \<longleftrightarrow> r = []" and "spawns env \<longrightarrow> ok" by auto
    moreover have "adds env ([(p, c)] @ d) m m'" using Cons.prems(1) l d(1) by (intro adds_trans [OF a d(3)]) auto
    ultimately show ?thesis using l by (intro conjI exI [of _ "l # d"] exI [of _ r]) auto
  qed
qed

subsection \<open>All tabs\<close>

definition tab_panes :: "'f tab_snapshot list \<Rightarrow> (string \<times> string option) list" where
  "tab_panes ts = concat (map (\<lambda>t. collect_terminal_leaves_with_cwd (sn_layout t)) ts)"

definition tab_values :: "'f tab_snapshot list \<Rightarrow> (string \<times> 'f json) list" where
  "tab_values ts = map (\<lambda>t. (sn_tab t, restored_value (sn_layout t) (sn_active t))) ts"

lemma restore_single_ok:
  assumes "spawns env" "distinct (map fst (collect_terminal_leaves_with_cwd (sn_layout t)))"
    and "list_all (\<lambda>l. vacant (fst l) m) (collect_terminal_leaves_with_cwd (sn_layout t))"
  shows "\<exists>m1. adds env (collect_terminal_leaves_with_cwd (sn_layout t)) m m1 \<and>
    restore_single_tab env alone t m = (True, insert_tab (sn_tab t) (restored_value (sn_layout t) (sn_active t)) m1)"
proof (cases "collect_terminal_leaves_with_cwd (sn_layout t) = []")
  case True
  then show ?thesis by (intro exI [of _ m]) (simp add: restore_single_tab_def adds_def)
next
  case False
  obtain ok sp m1 where s: "spawn_leaves env alone 0 (collect_terminal_leaves_with_cwd (sn_layout t)) [] m = (ok, sp, m1)"
    by (cases "spawn_leaves env alone 0 (collect_terminal_leaves_with_cwd (sn_layout t)) [] m") auto
  from spawn_leaves_spec [OF assms(2,3) s] assms(1)
  have "ok" "adds env (collect_terminal_leaves_with_cwd (sn_layout t)) m m1" by auto
  with s False show ?thesis by (intro exI [of _ m1]) (simp add: restore_single_tab_def Let_def alone_def)
qed

lemma restore_tabs_ok:
  "spawns env \<Longrightarrow> distinct (map fst (tab_panes ts)) \<Longrightarrow> list_all (\<lambda>l. vacant (fst l) m) (tab_panes ts) \<Longrightarrow>
     distinct (map sn_tab ts) \<Longrightarrow> set (map sn_tab ts) \<inter> set (mg_order m) = {} \<Longrightarrow>
     \<exists>m1. adds env (tab_panes ts) m m1 \<and> mg_sessions (restore_tabs env (\<lambda>_. alone) i ts m) = mg_sessions m1 \<and>
       mg_store (restore_tabs env (\<lambda>_. alone) i ts m) = mg_store m1 \<and>
       mg_active (restore_tabs env (\<lambda>_. alone) i ts m) = mg_active m \<and>
       mg_order (restore_tabs env (\<lambda>_. alone) i ts m) = mg_order m @ map sn_tab ts \<and>
       map_of (mg_layouts (restore_tabs env (\<lambda>_. alone) i ts m)) = map_of (mg_layouts m) ++ map_of (tab_values ts)"
proof (induction ts arbitrary: i m)
  case Nil
  then show ?case by (intro exI [of _ m]) (simp add: tab_panes_def tab_values_def adds_def)
next
  case (Cons t ts)
  let ?ls = "collect_terminal_leaves_with_cwd (sn_layout t)"
  let ?v = "restored_value (sn_layout t) (sn_active t)"
  have p: "tab_panes (t # ts) = ?ls @ tab_panes ts" by (simp add: tab_panes_def)
  from Cons.prems p have d: "distinct (map fst ?ls)" "list_all (\<lambda>l. vacant (fst l) m) ?ls" by simp_all
  obtain m1 where a: "adds env ?ls m m1" and r: "restore_single_tab env alone t m = (True, insert_tab (sn_tab t) ?v m1)"
    using restore_single_ok [OF Cons.prems(1) d] by blast
  let ?m = "insert_tab (sn_tab t) ?v m1"
  have new: "sn_tab t \<notin> set (mg_order m1)" "mg_order m1 = mg_order m" "mg_layouts m1 = mg_layouts m" "mg_active m1 = mg_active m"
    using a Cons.prems(5) by (auto simp: adds_def)
  have o: "mg_order ?m = mg_order m @ [sn_tab t]" using new by (simp add: insert_tab_def schedule_snapshot_def)
  have same: "mg_sessions ?m = mg_sessions m1" "mg_reserved ?m = mg_reserved m1" "mg_store ?m = mg_store m1" "mg_active ?m = mg_active m1"
    by (simp_all add: insert_tab_def schedule_snapshot_def)
  have "list_all (\<lambda>l. vacant (fst l) ?m) (tab_panes ts)"
  proof (unfold list_all_iff, intro ballI)
    fix l assume l: "l \<in> set (tab_panes ts)"
    then have "vacant (fst l) m" "fst l \<notin> fst ` set ?ls" using Cons.prems(2,3) p by (auto simp: list_all_iff)
    from vacant_adds [OF a this] show "vacant (fst l) ?m" by (simp add: vacant_def same)
  qed
  moreover have "set (map sn_tab ts) \<inter> set (mg_order ?m) = {}" using Cons.prems(4,5) o by auto
  ultimately obtain m2 where m2: "adds env (tab_panes ts) ?m m2"
    "mg_sessions (restore_tabs env (\<lambda>_. alone) (Suc i) ts ?m) = mg_sessions m2"
    "mg_store (restore_tabs env (\<lambda>_. alone) (Suc i) ts ?m) = mg_store m2"
    "mg_active (restore_tabs env (\<lambda>_. alone) (Suc i) ts ?m) = mg_active ?m"
    "mg_order (restore_tabs env (\<lambda>_. alone) (Suc i) ts ?m) = mg_order ?m @ map sn_tab ts"
    "map_of (mg_layouts (restore_tabs env (\<lambda>_. alone) (Suc i) ts ?m)) = map_of (mg_layouts ?m) ++ map_of (tab_values ts)"
    using Cons.IH [OF Cons.prems(1), of ?m "Suc i"] Cons.prems(2,4) p by auto
  let ?m3 = "m2\<lparr>mg_layouts := mg_layouts m1, mg_order := mg_order m1\<rparr>"
  have "adds env (tab_panes ts) m1 ?m3" using m2(1) same by (auto simp: adds_def all_local_def)
  then have "adds env (?ls @ tab_panes ts) m ?m3" using Cons.prems(2) p by (intro adds_trans [OF a]) simp_all
  moreover have "sn_tab t \<notin> dom (map_of (tab_values ts))"
    using Cons.prems(4) by (auto simp: tab_values_def dom_map_of_conv_image_fst image_image)
  then have "(map_of (mg_layouts m))(sn_tab t \<mapsto> ?v) ++ map_of (tab_values ts) = map_of (mg_layouts m) ++ map_of (tab_values (t # ts))"
    by (simp add: tab_values_def fun_eq_iff map_add_def domIff split: option.split)
  ultimately show ?case
    using m2 o new same r by (intro exI [of _ ?m3]) (simp add: p layouts_insert_tab)
qed

definition tab_layout_of :: "('f, 'ps) manager \<Rightarrow> string \<Rightarrow> 'f json" where
  "tab_layout_of m t = (case map_of (mg_layouts m) t \<bind> layout_of of Some l \<Rightarrow> l | None \<Rightarrow> JNull)"

definition tab_active_of :: "('f, 'ps) manager \<Rightarrow> string \<Rightarrow> string option" where
  "tab_active_of m t = map_of (mg_layouts m) t \<bind> (\<lambda>v. get_str v ''active_pane_id'')"

text \<open>The terminals shown, with the directory the layout has for each.\<close>

definition terminals :: "('f, 'ps) manager \<Rightarrow> (string \<times> string option) list" where
  "terminals m = concat (map (\<lambda>t. collect_terminal_leaves_with_cwd (tab_layout_of m t)) (mg_order m))"

lemma all_some_map: "(\<And>x. x \<in> set xs \<Longrightarrow> f x = Some (g x)) \<Longrightarrow> all_some (map f xs) = map g xs"
  by (induction xs) (simp_all add: all_some_def)

lemma saved_tabs:
  assumes "tabs_ok m"
  shows "\<exists>ts. ss_tabs (build_snapshot text now m) = ts \<and> map sn_tab ts = mg_order m \<and> list_all (\<lambda>t. sn_connection t = None) ts \<and>
    tab_panes ts = map (moved (live_cwd text m)) (terminals m) \<and>
    tab_values ts = map (\<lambda>t. (t, restored_value (enrich_leaf_cwd (live_cwd text m) (tab_layout_of m t)) (tab_active_of m t))) (mg_order m)"
proof -
  have "\<exists>s. snapshot_tab text m t = Some s \<and> sn_tab s = t \<and> sn_connection s = None \<and>
      sn_layout s = enrich_leaf_cwd (live_cwd text m) (tab_layout_of m t) \<and> sn_active s = tab_active_of m t" if "t \<in> set (mg_order m)" for t
  proof -
    have "t \<in> fst ` set (mg_layouts m)" using that assms by (simp add: tabs_ok_def)
    then obtain v where "map_of (mg_layouts m) t = Some v" by (cases "map_of (mg_layouts m) t") (auto simp: map_of_eq_None_iff)
    then show ?thesis by (simp add: snapshot_tab_def tab_layout_of_def tab_active_of_def Let_def)
  qed
  then obtain g where g: "\<And>t. t \<in> set (mg_order m) \<Longrightarrow> snapshot_tab text m t = Some (g t) \<and> sn_tab (g t) = t \<and> sn_connection (g t) = None \<and>
      sn_layout (g t) = enrich_leaf_cwd (live_cwd text m) (tab_layout_of m t) \<and> sn_active (g t) = tab_active_of m t" by metis
  have "ss_tabs (build_snapshot text now m) = map g (mg_order m)"
    using g by (simp add: build_snapshot_def all_some_map [of _ _ g])
  moreover have "map sn_tab (map g (mg_order m)) = mg_order m" using g by (simp add: map_idI)
  moreover have "tab_panes (map g (mg_order m)) = map (moved (live_cwd text m)) (terminals m)"
    using g by (simp add: tab_panes_def terminals_def map_concat o_def leaves_of_enriched cong: map_cong)
  moreover have "tab_values (map g (mg_order m)) =
      map (\<lambda>t. (t, restored_value (enrich_leaf_cwd (live_cwd text m) (tab_layout_of m t)) (tab_active_of m t))) (mg_order m)"
    using g by (simp add: tab_values_def)
  moreover have "list_all (\<lambda>t. sn_connection t = None) (map g (mg_order m))" using g by (simp add: list_all_iff)
  ultimately show ?thesis by (intro exI [of _ "map g (mg_order m)"]) simp
qed


definition demo_boot :: "(nat, unit) boot_env" where
  "demo_boot = \<lparr>be_spawn = (\<lambda>_ _. Inr (3, demo_hosted, ''sh'')), be_recip = (\<lambda>n. n), be_close = (\<lambda>_. demo_env)\<rparr>"

lemma demo_terminals: "terminals demo_manager = [(''q'', None)]"
  by (simp add: terminals_def tab_layout_of_def demo_manager_def new_session_manager_def layout_of_def terminal_leaf_def mk_obj_def
      collect_terminal_leaves_with_cwd.simps get_str_def leaf_kind_def)


subsection \<open>A tab that cannot be restored\<close>

lemma roll_back_sessions:
  "list_all (\<lambda>p. map_of (mg_sessions m) p \<noteq> None) ps \<Longrightarrow> distinct ps \<Longrightarrow>
     map_of (mg_sessions (roll_back env i ps m)) = (\<lambda>q. if q \<in> set ps then None else map_of (mg_sessions m) q) \<and>
     mg_reserved (roll_back env i ps m) = mg_reserved m \<and> (tabs_ok m \<longrightarrow> tabs_ok (roll_back env i ps m))"
proof (induction ps arbitrary: i m)
  case (Cons p ps)
  obtain ok m1 where k: "kill_and_remove (be_recip env) (be_close env i) p m = (ok, m1)" by force
  have "ok" and s: "mg_sessions m1 = al_del p (mg_sessions m)" "mg_reserved m1 = mg_reserved m" "tabs_ok m \<longrightarrow> tabs_ok m1"
    using close_with_spec [OF k [unfolded kill_and_remove_def close_session_def]] Cons.prems(1) by auto
  have "list_all (\<lambda>p. map_of (mg_sessions m1) p \<noteq> None) ps" using Cons.prems by (auto simp: s map_of_al_del list_all_iff)
  from Cons.IH [OF this] Cons.prems(2) show ?case by (auto simp: k s map_of_al_del fun_eq_iff)
qed simp

text \<open>
  A tab whose shells do not all start leaves nothing behind: the sessions spawned before the failure are killed
  and removed, and the other tabs' sessions are as they were.
\<close>

theorem failed_tab_is_rolled_back:
  assumes "distinct (map fst (collect_terminal_leaves_with_cwd (sn_layout t)))"
    and "list_all (\<lambda>l. vacant (fst l) m) (collect_terminal_leaves_with_cwd (sn_layout t))"
    and "restore_single_tab env alone t m = (False, m')"
  shows "map_of (mg_sessions m') = map_of (mg_sessions m) \<and> mg_reserved m' = mg_reserved m \<and> (tabs_ok m \<longrightarrow> tabs_ok m')"
proof -
  let ?ls = "collect_terminal_leaves_with_cwd (sn_layout t)"
  obtain ok sp m1 where s: "spawn_leaves env alone 0 ?ls [] m = (ok, sp, m1)" by (cases "spawn_leaves env alone 0 ?ls [] m") auto
  with assms(3) have m': "\<not> ok" "m' = roll_back env 0 sp m1" by (auto simp: restore_single_tab_def Let_def split: if_splits bool.splits)
  obtain ds rest where d: "?ls = ds @ rest" "sp = map fst ds" "adds env ds m m1"
    using spawn_leaves_spec [OF assms(1,2) s] by auto
  let ?g = "map_of (map (\<lambda>(p, c). (p, spawned_at env p c)) ds)"
  have g: "?g q \<noteq> None \<longleftrightarrow> q \<in> set sp" for q by (force simp: d(2) map_of_eq_None_iff)
  have m1: "map_of (mg_sessions m1) = map_of (mg_sessions m) ++ ?g" "mg_reserved m1 = mg_reserved m" "tabs_ok m1 = tabs_ok m"
    using d(3) by (simp_all add: adds_def tabs_ok_def)
  have vac: "map_of (mg_sessions m) q = None" if "q \<in> set sp" for q
    using that assms(2) d(1,2) by (auto simp: list_all_iff vacant_def)
  have "distinct sp" using assms(1) d(1,2) by simp
  moreover have "list_all (\<lambda>p. map_of (mg_sessions m1) p \<noteq> None) sp"
  proof (unfold list_all_iff, intro ballI)
    fix p assume "p \<in> set sp"
    then have "?g p \<noteq> None" using g by blast
    then show "map_of (mg_sessions m1) p \<noteq> None" by (auto simp: m1 map_add_def)
  qed
  ultimately have "map_of (mg_sessions m') = (\<lambda>q. if q \<in> set sp then None else (map_of (mg_sessions m) ++ ?g) q)"
    and r: "mg_reserved m' = mg_reserved m1" "tabs_ok m1 \<longrightarrow> tabs_ok m'"
    unfolding m1(1) [symmetric] using roll_back_sessions [of m1 sp env 0] by (simp_all add: m')
  moreover have "(map_of (mg_sessions m) ++ ?g) q = map_of (mg_sessions m) q" if "q \<notin> set sp" for q
    using g [of q] that by (simp add: map_add_def split: option.split)
  ultimately have "map_of (mg_sessions m') = map_of (mg_sessions m)" using vac by (simp add: fun_eq_iff)
  with r m1 show ?thesis by simp
qed

end
