(* ===== verification/TemplateProps.thy ===== *)
theory TemplateProps
  imports Templates RestoreProps
begin

section \<open>Templates: the store and the tabs made of them\<close>

subsection \<open>The store as a map\<close>

text \<open>Names as the server makes them (uuids): no slash, and not the index's.\<close>

definition plain :: "rstring \<Rightarrow> bool" where
  "plain i \<longleftrightarrow> 47 \<notin> set i \<and> i \<noteq> lit ''index''"

definition file_of :: "rstring \<Rightarrow> rstring" where
  "file_of i = i @ lit ''.json''"

lemma file_of_inject [simp]: "file_of i = file_of j \<longleftrightarrow> i = j"
  by (simp add: file_of_def)

lemma file_of_index: "plain i \<Longrightarrow> file_of i \<noteq> lit ''index.json''"
proof -
  assume "plain i"
  moreover have "lit ''index.json'' = file_of (lit ''index'')" by (simp add: file_of_def lit_def)
  ultimately show ?thesis by (simp add: plain_def)
qed

lemma split_on_none: "c \<notin> set s \<Longrightarrow> split_on c s = [s]"
  by (induction c s rule: split_on.induct) auto

lemma resolve_from_append: "resolve_from acc (a @ b) = resolve_from (resolve_from acc a) b"
  by (induction acc a rule: resolve_from.induct) simp_all

lemma resolve_last: "c \<noteq> [46, 46] \<Longrightarrow> resolve (p @ [c]) = resolve p @ [c]"
  by (simp add: resolve_def resolve_from_append)

lemma join_file: "47 \<notin> set i \<Longrightarrow> path_join p (file_of i) = p @ [file_of i]"
proof -
  assume i: "47 \<notin> set i"
  then have s: "47 \<notin> set (file_of i)" by (simp add: file_of_def lit_def)
  have "file_of i \<noteq> []" "length (file_of i) > 1" by (simp_all add: file_of_def lit_def)
  moreover from this have "file_of i \<noteq> [46]" by auto
  moreover have "\<not> starts_with (file_of i) [47]" using s by (cases "file_of i") (auto simp: starts_with_def)
  ultimately show ?thesis by (simp add: path_join_def path_comps_def split_on_none [OF s])
qed

lemma resolved_template: "plain i \<Longrightarrow> resolve (template_path base scope ws i) = resolve (scope_dir base scope ws) @ [file_of i]"
proof -
  assume i: "plain i"
  have "length (file_of i) > 2" by (simp add: file_of_def lit_def)
  then have "file_of i \<noteq> [46, 46]" by auto
  then show ?thesis using join_file [of i "scope_dir base scope ws"] i by (simp add: template_path_def plain_def resolve_last flip: file_of_def)
qed

lemma resolved_index: "resolve (index_path base scope ws) = resolve (scope_dir base scope ws) @ [lit ''index.json'']"
proof -
  have e: "lit ''index.json'' = file_of (lit ''index'')" by (simp add: file_of_def lit_def)
  have "path_join (scope_dir base scope ws) (lit ''index.json'') = scope_dir base scope ws @ [lit ''index.json'']"
    unfolding e by (rule join_file) (simp add: lit_def)
  moreover have "lit ''index.json'' \<noteq> [46, 46]" by (simp add: lit_def)
  ultimately show ?thesis by (simp add: index_path_def resolve_last)
qed

type_synonym 'f tpl_map = "rstring list \<times> rstring \<Rightarrow> 'f template option"

text \<open>The ids an index names; a directory without one has no templates.\<close>

definition indexed :: "'f tpl_file option \<Rightarrow> rstring set \<Rightarrow> bool" where
  "indexed f names = (case f of None \<Rightarrow> names = {} | Some (IndexFile ix) \<Rightarrow> ie_id ` set ix = names | Some _ \<Rightarrow> False)"

text \<open>The files hold the map: one file per template, and each directory's index names what is there.\<close>

definition holds_map :: "'f tpl_fs \<Rightarrow> 'f tpl_map \<Rightarrow> bool" where
  "holds_map fs M \<longleftrightarrow>
     (\<forall>d i. plain i \<longrightarrow> map_of fs (d @ [file_of i]) = map_option TplFile (M (d, i))) \<and>
     (\<forall>d i. M (d, i) \<noteq> None \<longrightarrow> plain i) \<and>
     (\<forall>d. indexed (map_of fs (d @ [lit ''index.json''])) {i. M (d, i) \<noteq> None})"

lemma holds_empty: "holds_map [] (\<lambda>_. None)"
  by (simp add: holds_map_def indexed_def)

definition io_works :: "tpl_io \<Rightarrow> bool" where
  "io_works io \<longleftrightarrow> (\<forall>i. io_write io i = None) \<and> io_remove io = None"

lemma holds_index_in:
  assumes "holds_map fs M"
    and "map_of fs1 (resolve (scope_dir base scope ws) @ [lit ''index.json'']) = map_of fs (resolve (scope_dir base scope ws) @ [lit ''index.json''])"
  shows "\<exists>ix. load_index io k base scope ws fs1 = (ix, fs1) \<and> ie_id ` set ix = {i. M (resolve (scope_dir base scope ws), i) \<noteq> None}"
proof -
  let ?d = "resolve (scope_dir base scope ws)"
  have "indexed (map_of fs (?d @ [lit ''index.json''])) {i. M (?d, i) \<noteq> None}" using assms(1) by (simp add: holds_map_def)
  then show ?thesis
    by (auto simp: indexed_def load_index_def read_index_def resolved_index assms(2) split: option.splits tpl_file.splits)
qed

lemmas holds_index = holds_index_in [OF _ refl]

lemma newest_first_set [simp]: "set (newest_first es) = set es"
  by (simp add: newest_first_def)

lemma put_entry_ids: "ie_id ` set (put_entry e ix) = insert (ie_id e) (ie_id ` set ix)"
proof (cases "list_ex (\<lambda>x. ie_id x = ie_id e) ix")
  case True
  have "list_ex (\<lambda>x. ie_id x = ie_id e) ix \<Longrightarrow> ie_id ` set (update_first (\<lambda>x. ie_id x = ie_id e) (\<lambda>_. e) ix) = ie_id ` set ix"
    by (induction ix) auto
  moreover have "ie_id e \<in> ie_id ` set ix" using True by (simp add: list_ex_iff image_iff) (metis)
  ultimately show ?thesis using True by (simp add: put_entry_def insert_absorb)
qed (simp add: put_entry_def)

lemma save_holds:
  assumes "holds_map fs M" "io_works io" "plain (tpl_id t)"
  shows "\<exists>fs'. save_template io base t fs = (Inr (), fs') \<and>
    holds_map fs' (M((resolve (scope_dir base (tpl_scope t) (tpl_workspace t)), tpl_id t) \<mapsto> t))"
proof -
  let ?d = "resolve (scope_dir base (tpl_scope t) (tpl_workspace t))" and ?i = "tpl_id t"
  let ?M = "M((?d, ?i) \<mapsto> t)"
  let ?fs1 = "al_put (?d @ [file_of ?i]) (TplFile t) fs"
  note H = assms(1) [unfolded holds_map_def]
  have w: "io_write io k = None" for k using assms(2) by (simp add: io_works_def)
  have ne: "?d @ [lit ''index.json''] \<noteq> ?d @ [file_of ?i]" using file_of_index [OF assms(3)] by simp
  then have same: "map_of ?fs1 (?d @ [lit ''index.json'']) = map_of fs (?d @ [lit ''index.json''])" by (simp add: map_of_al_put)
  obtain ix where ix: "load_index io 1 base (tpl_scope t) (tpl_workspace t) ?fs1 = (ix, ?fs1)" "ie_id ` set ix = {i. M (?d, i) \<noteq> None}"
    using holds_index_in [OF assms(1) same, of io 1] by blast
  from ix(1) have s: "save_template io base t fs =
      (Inr (), al_put (?d @ [lit ''index.json'']) (IndexFile (newest_first (put_entry (entry_of t) ix))) ?fs1)"
    by (simp add: save_template_def write_file_def w resolved_template [OF assms(3)] resolved_index)
  have "holds_map (al_put (?d @ [lit ''index.json'']) (IndexFile (newest_first (put_entry (entry_of t) ix))) ?fs1) ?M"
    unfolding holds_map_def
  proof (intro conjI allI impI)
    fix d i assume "plain i"
    then show "map_of (al_put (?d @ [lit ''index.json'']) (IndexFile (newest_first (put_entry (entry_of t) ix))) ?fs1) (d @ [file_of i]) =
        map_option TplFile (?M (d, i))"
      using H file_of_index by (auto simp: map_of_al_put)
  next
    fix d i assume "?M (d, i) \<noteq> None"
    then show "plain i" using H assms(3) by (auto split: if_splits)
  next
    fix d
    have "ie_id ` set (newest_first (put_entry (entry_of t) ix)) = {i. ?M (?d, i) \<noteq> None}"
      using ix(2) by (auto simp: put_entry_ids entry_of_def)
    moreover have "d \<noteq> ?d \<Longrightarrow> d @ [lit ''index.json''] \<noteq> ?d @ [file_of ?i]" by simp
    ultimately show "indexed (map_of (al_put (?d @ [lit ''index.json'']) (IndexFile (newest_first (put_entry (entry_of t) ix))) ?fs1) (d @ [lit ''index.json''])) {i. ?M (d, i) \<noteq> None}"
      using H by (cases "d = ?d") (simp_all add: map_of_al_put indexed_def [of "Some (IndexFile _)"])
  qed
  with s show ?thesis by blast
qed

lemma delete_holds:
  assumes "holds_map fs M" "io_works io" "plain i"
  shows "holds_map (snd (delete_stored io base scope ws i fs)) (M((resolve (scope_dir base scope ws), i) := None))"
proof -
  let ?d = "resolve (scope_dir base scope ws)"
  let ?M = "M((?d, i) := None)"
  let ?fs1 = "al_del (?d @ [file_of i]) fs"
  note H = assms(1) [unfolded holds_map_def]
  have w: "io_write io k = None" "io_remove io = None" for k using assms(2) by (simp_all add: io_works_def)
  show ?thesis
  proof (cases "M (?d, i)")
    case None
    then have "?M = M" by auto
    moreover have "map_of fs (?d @ [file_of i]) = None" using H None assms(3) by simp
    ultimately show ?thesis using assms(1) by (simp add: delete_stored_def Let_def resolved_template [OF assms(3)])
  next
    case (Some t)
    have ne: "?d @ [lit ''index.json''] \<noteq> ?d @ [file_of i]" using file_of_index [OF assms(3)] by simp
    then have same: "map_of ?fs1 (?d @ [lit ''index.json'']) = map_of fs (?d @ [lit ''index.json''])" by (simp add: map_of_al_del)
    obtain ix where l: "load_index io 0 base scope ws ?fs1 = (ix, ?fs1)" and ix: "ie_id ` set ix = {i. M (?d, i) \<noteq> None}"
      using holds_index_in [OF assms(1) same, of io 0] by blast
    let ?kept = "filter (\<lambda>e. ie_id e \<noteq> i) ix"
    have "i \<in> ie_id ` set ix" using ix Some by simp
    then have "length ?kept < length ix" by (metis (mono_tags, lifting) imageE length_filter_less)
    moreover have "map_of fs (?d @ [file_of i]) \<noteq> None" using H Some assms(3) by simp
    ultimately have s: "delete_stored io base scope ws i fs = (Inr (), al_put (?d @ [lit ''index.json'']) (IndexFile ?kept) ?fs1)"
      by (simp add: delete_stored_def Let_def resolved_template [OF assms(3)] w l write_file_def resolved_index)
    have "holds_map (al_put (?d @ [lit ''index.json'']) (IndexFile ?kept) ?fs1) ?M"
      unfolding holds_map_def
    proof (intro conjI allI impI)
      fix d j assume "plain j"
      then show "map_of (al_put (?d @ [lit ''index.json'']) (IndexFile ?kept) ?fs1) (d @ [file_of j]) = map_option TplFile (?M (d, j))"
        using H file_of_index by (auto simp: map_of_al_put map_of_al_del)
    next
      fix d j assume "?M (d, j) \<noteq> None"
      then show "plain j" using H by (auto split: if_splits)
    next
      fix d
      have "ie_id ` set ?kept = {j. ?M (?d, j) \<noteq> None}" using ix by auto
      then show "indexed (map_of (al_put (?d @ [lit ''index.json'']) (IndexFile ?kept) ?fs1) (d @ [lit ''index.json''])) {i. ?M (d, i) \<noteq> None}"
        using H by (cases "d = ?d") (simp_all add: map_of_al_put map_of_al_del indexed_def [of "Some (IndexFile _)"])
    qed
    with s show ?thesis by simp
  qed
qed

text \<open>What clients do to the store, and what it means for the map.\<close>

datatype 'f store_op = SaveOp "'f template" | DeleteOp template_scope "rstring option" rstring

fun store_step :: "tpl_io \<Rightarrow> rstring list \<Rightarrow> 'f store_op \<Rightarrow> 'f tpl_fs \<Rightarrow> 'f tpl_fs" where
  "store_step io base (SaveOp t) fs = snd (save_template io base t fs)"
| "store_step io base (DeleteOp scope ws i) fs = snd (delete_stored io base scope ws i fs)"

fun map_step :: "rstring list \<Rightarrow> 'f store_op \<Rightarrow> 'f tpl_map \<Rightarrow> 'f tpl_map" where
  "map_step base (SaveOp t) M = M((resolve (scope_dir base (tpl_scope t) (tpl_workspace t)), tpl_id t) \<mapsto> t)"
| "map_step base (DeleteOp scope ws i) M = M((resolve (scope_dir base scope ws), i) := None)"

fun op_plain :: "'f store_op \<Rightarrow> bool" where
  "op_plain (SaveOp t) = plain (tpl_id t)"
| "op_plain (DeleteOp scope ws i) = plain i"

lemma run_holds:
  "holds_map fs M \<Longrightarrow> io_works io \<Longrightarrow> list_all op_plain ops \<Longrightarrow> holds_map (fold (store_step io base) ops fs) (fold (map_step base) ops M)"
proof (induction ops arbitrary: fs M)
  case (Cons op ops)
  have "holds_map (store_step io base op fs) (map_step base op M)"
  proof (cases op)
    case (SaveOp t)
    with save_holds [OF Cons.prems(1,2), of t base] Cons.prems(3) show ?thesis by auto
  next
    case (DeleteOp scope ws i)
    with delete_holds [OF Cons.prems(1,2)] Cons.prems(3) show ?thesis by simp
  qed
  from Cons.IH [OF this Cons.prems(2)] Cons.prems(3) show ?case by simp
qed simp

lemma listed_of_map:
  assumes "holds_map fs M"
  shows "set (fst (list_store io base scope ws fs)) = {t. \<exists>i. M (resolve (scope_dir base scope ws), i) = Some t}"
proof -
  let ?d = "resolve (scope_dir base scope ws)"
  obtain ix where ix: "load_index io 0 base scope ws fs = (ix, fs)" "ie_id ` set ix = {i. M (?d, i) \<noteq> None}"
    using holds_index [OF assms] by blast
  have load: "load_template base scope ws (ie_id e) fs = Inr t \<longleftrightarrow> M (?d, ie_id e) = Some t" if "e \<in> set ix" for e t
  proof -
    have "M (?d, ie_id e) \<noteq> None" using ix(2) that by auto
    then have "plain (ie_id e)" "map_of fs (?d @ [file_of (ie_id e)]) = map_option TplFile (M (?d, ie_id e))"
      using assms by (auto simp: holds_map_def)
    with \<open>M (?d, ie_id e) \<noteq> None\<close> show ?thesis by (auto simp: load_template_def read_template_def resolved_template)
  qed
  have "set (all_some (map (\<lambda>e. case load_template base scope ws (ie_id e) fs of Inr t \<Rightarrow> Some t | Inl _ \<Rightarrow> None) ix)) =
      {t. \<exists>e \<in> set ix. load_template base scope ws (ie_id e) fs = Inr t}"
    by (force simp: all_some_def split: sum.splits)
  also have "\<dots> = {t. \<exists>i. M (?d, i) = Some t}" using load ix(2) by (auto simp: set_eq_iff) (metis (mono_tags) imageE mem_Collect_eq option.distinct(1))
  finally show ?thesis by (simp add: list_store_def ix(1))
qed

text \<open>
  C26. The files behave like a map. After any saves and deletions that reach the disk, under the ids the server makes,
  loading a template gives what was saved last under its scope and id, and listing a scope gives exactly the templates
  in it, once the files, the index and their order are forgotten.
\<close>

theorem template_store_refines_map:
  assumes "io_works io" and "list_all op_plain ops"
  shows "(plain i \<longrightarrow> load_template base scope ws i (fold (store_step io base) ops []) =
      (case fold (map_step base) ops (\<lambda>_. None) (resolve (scope_dir base scope ws), i) of Some t \<Rightarrow> Inr t | None \<Rightarrow> Inl NotFoundError)) \<and>
    set (fst (list_store io base scope ws (fold (store_step io base) ops []))) =
      {t. \<exists>i. fold (map_step base) ops (\<lambda>_. None) (resolve (scope_dir base scope ws), i) = Some t}"
proof -
  have H: "holds_map (fold (store_step io base) ops []) (fold (map_step base) ops (\<lambda>_. None))"
    by (rule run_holds [OF holds_empty assms])
  then have "plain i \<Longrightarrow> map_of (fold (store_step io base) ops []) (resolve (scope_dir base scope ws) @ [file_of i]) =
      map_option TplFile (fold (map_step base) ops (\<lambda>_. None) (resolve (scope_dir base scope ws), i))"
    by (simp add: holds_map_def)
  then show ?thesis
    using listed_of_map [OF H] by (simp add: load_template_def read_template_def resolved_template split: option.split)
qed

definition demo_tpl :: "nat template" where
  "demo_tpl = \<lparr>tpl_id = lit ''t1'', tpl_name = lit ''T'', tpl_scope = GlobalScope, tpl_workspace = None, tpl_created = [], tpl_updated = [],
     tpl_layout = JNull\<rparr>"

definition demo_io :: tpl_io where
  "demo_io = \<lparr>io_write = (\<lambda>_. None), io_list = True, io_remove = None\<rparr>"

lemma demo_plain: "plain (lit ''t1'')"
  by (simp add: plain_def lit_def)

theorem template_store_refines_map_witness:
  "load_template [] GlobalScope None (lit ''t1'') (fold (store_step demo_io []) [SaveOp demo_tpl] []) = Inr demo_tpl"
proof -
  have io: "io_works demo_io" by (simp add: io_works_def demo_io_def)
  have ops: "list_all op_plain [SaveOp demo_tpl]" using demo_plain by (simp add: demo_tpl_def)
  have i: "tpl_id demo_tpl = lit ''t1''" "tpl_scope demo_tpl = GlobalScope" "tpl_workspace demo_tpl = None" by (simp_all add: demo_tpl_def)
  from conjunct1 [OF template_store_refines_map [OF io ops, of "lit ''t1''" "[]" GlobalScope None]] demo_plain
  show ?thesis by (simp add: i)
qed

subsection \<open>Ids the server did not make\<close>

text \<open>
  An id or a workspace is taken from the request as it is: with dots and slashes it names any file ending in
  \<open>.json\<close>, such as the settings two directories up.
\<close>

lemma escaping_path:
  "resolve (template_path (cfg @ [lit ''templates'']) GlobalScope None (lit ''../../settings'')) = resolve cfg @ [lit ''settings.json'']"
proof -
  have "path_comps (lit ''../../settings'' @ lit ''.json'') = [[46, 46], [46, 46], lit ''settings.json'']"
    by (simp add: path_comps_def lit_def)
  moreover have "path_comps (lit ''global'') = [lit ''global'']" by (simp add: path_comps_def lit_def)
  moreover have "\<not> starts_with (lit ''../../settings'' @ lit ''.json'') [47]" "\<not> starts_with (lit ''global'') [47]"
    by (simp_all add: starts_with_def lit_def)
  ultimately have p: "template_path (cfg @ [lit ''templates'']) GlobalScope None (lit ''../../settings'') =
      (((cfg @ [lit ''templates'']) @ [lit ''global'']) @ [[46, 46], [46, 46]]) @ [lit ''settings.json'']"
    by (simp add: template_path_def scope_dir_def path_join_def)
  have n: "lit ''templates'' \<noteq> [46, 46]" "lit ''global'' \<noteq> [46, 46]" "lit ''settings.json'' \<noteq> [46, 46]" by (simp_all add: lit_def)
  have up: "resolve (q @ [[46, 46], [46, 46]]) = butlast (butlast (resolve q))" for q by (simp add: resolve_def resolve_from_append)
  show ?thesis by (simp add: p resolve_last [OF n(3)] up resolve_last [OF n(2)] resolve_last [OF n(1)] del: append_assoc)
qed

lemma write_file_other: "p \<noteq> resolve q \<Longrightarrow> map_of (snd (write_file io k q f fs)) p = map_of fs p"
  by (simp add: write_file_def map_of_al_put split: option.split)

lemma load_index_other:
  "p \<noteq> resolve (index_path base scope ws) \<Longrightarrow> load_index io k base scope ws fs = (ix, fs1) \<Longrightarrow> map_of fs1 p = map_of fs p"
  by (auto simp: load_index_def rebuild_index_def Let_def write_file_other split: sum.splits store_error.splits if_splits)

text \<open>
  Deleting a template can delete the settings. The id of a request names a file below the templates' directory only
  if it has no dots and slashes, which nothing checks: the request to delete the template \<open>../../settings\<close> removes
  \<open>settings.json\<close> from the configuration directory.
\<close>

theorem template_id_escapes:
  assumes "map_of fs (resolve cfg @ [lit ''settings.json'']) \<noteq> None" and "io_remove io = None"
  shows "map_of (snd (delete_template io (cfg @ [lit ''templates'']) GlobalScope None (lit ''../../settings'') fs))
    (resolve cfg @ [lit ''settings.json'']) = None"
proof -
  let ?base = "cfg @ [lit ''templates'']" and ?p = "resolve cfg @ [lit ''settings.json'']"
  obtain ix fs1 where ix: "load_index io 0 ?base GlobalScope None (al_del ?p fs) = (ix, fs1)" by force
  have ne: "?p \<noteq> resolve (index_path ?base GlobalScope None)" by (simp add: resolved_index lit_def)
  have "map_of fs1 ?p = None" using load_index_other [OF ne ix] by (simp add: map_of_al_del)
  then have "map_of (snd (delete_stored io ?base GlobalScope None (lit ''../../settings'') fs)) ?p = None"
    using assms ix by (simp add: delete_stored_def Let_def escaping_path write_file_other [OF ne])
  then show ?thesis
    by (cases "delete_stored io ?base GlobalScope None (lit ''../../settings'') fs")
      (auto simp: delete_template_def validate_scope_def split: sum.split)
qed

theorem template_id_escapes_witness:
  "map_of (snd (delete_template demo_io [lit ''cfg'', lit ''templates''] GlobalScope None (lit ''../../settings'')
     [([lit ''cfg'', lit ''settings.json''], OtherFile)])) [lit ''cfg'', lit ''settings.json''] = (None :: nat tpl_file option)"
proof -
  have r: "resolve [lit ''cfg''] = [lit ''cfg'']" by (simp add: resolve_def lit_def)
  show ?thesis
    using template_id_escapes [of "[([lit ''cfg'', lit ''settings.json''], OtherFile :: nat tpl_file)]" "[lit ''cfg'']" demo_io]
    by (simp add: r demo_io_def)
qed

text \<open>The template called \<open>index\<close> is the index itself: deleting it empties the list, and a missing index is not rebuilt.\<close>

lemma missing_index_lists_nothing:
  "map_of fs (resolve (index_path base scope ws)) = None \<Longrightarrow> list_store io base scope ws fs = ([], fs)"
  by (simp add: list_store_def load_index_def read_index_def all_some_def)

text \<open>A name that is blank is refused for a new template, but ignored in an update.\<close>

lemma blank_name_ignored:
  "utb_name req = Some n \<Longrightarrow> trim n = [] \<Longrightarrow> utb_source req = None \<Longrightarrow>
     updated_template uid now m req old = Inr (old\<lparr>tpl_updated := now, tpl_name := tpl_name old, tpl_layout := tpl_layout old\<rparr>)"
  by (simp add: updated_template_def)

subsection \<open>Applying a template\<close>

text \<open>\<open>grown ps m m'\<close>: the vacant panes \<open>ps\<close> have got sessions, and the other tables are as before.\<close>

definition grown :: "string list \<Rightarrow> ('f, 'ps) manager \<Rightarrow> ('f, 'ps) manager \<Rightarrow> bool" where
  "grown ps m m' \<longleftrightarrow>
     distinct ps \<and> (\<forall>p \<in> set ps. map_of (mg_sessions m) p = None \<and> map_of (mg_sessions m') p \<noteq> None) \<and>
     (\<forall>q. q \<notin> set ps \<longrightarrow> map_of (mg_sessions m') q = map_of (mg_sessions m) q) \<and>
     mg_reserved m' = mg_reserved m \<and> mg_layouts m' = mg_layouts m \<and> mg_order m' = mg_order m \<and>
     mg_sync_clients m' = mg_sync_clients m"

lemma grown_refl [simp]: "grown [] m m"
  by (simp add: grown_def)

lemma grown_trans: "grown ps m m1 \<Longrightarrow> grown qs m1 m2 \<Longrightarrow> grown (ps @ qs) m m2"
proof -
  assume a: "grown ps m m1" "grown qs m1 m2"
  have "p \<notin> set qs" if "p \<in> set ps" for p using that a by (auto simp: grown_def)
  moreover have "map_of (mg_sessions m2) p \<noteq> None" if "p \<in> set ps" for p
    using that a calculation [OF that] by (simp add: grown_def)
  moreover have "map_of (mg_sessions m) q = None" if "q \<in> set qs" for q
    using that a calculation(1) [of q] by (cases "q \<in> set ps") (auto simp: grown_def)
  ultimately show ?thesis using a by (auto simp: grown_def)
qed

lemma spawn_session_grown:
  assumes "spawn_session env (\<lambda>m. m) p c m = (r, m')"
  shows "case r of Inl _ \<Rightarrow> grown [] m m' | Inr _ \<Rightarrow> grown [p] m m'"
proof (cases "map_of (mg_sessions m) p \<noteq> None \<or> p \<in> set (mg_reserved m)")
  case True
  with assms show ?thesis by (auto simp: spawn_session_def open_session_def reserve_session_def)
next
  case False
  show ?thesis
  proof (cases "be_spawn env p c")
    case (Inl e)
    with False assms show ?thesis
      by (auto simp: spawn_session_def open_session_def reserve_session_def drop_reservation_def grown_def)
  next
    case (Inr s)
    obtain a h sh where "s = (a, h, sh)" by (cases s) auto
    with Inr False assms show ?thesis
      by (auto simp: spawn_session_def open_session_def reserve_session_def publish_reserved_def on_hosted_def publish_bus_def
          grown_def map_of_al_put Let_def)
  qed
qed

lemma type_jset [simp]: "k \<noteq> ''type'' \<Longrightarrow> get_str (jset k v n) ''type'' = get_str n ''type''"
  by (simp add: get_str_jset_other)

lemma get_str_jremove: "k' \<noteq> k \<Longrightarrow> get_str (jremove k n) k' = get_str n k'"
  by (cases n) (simp_all add: get_str_def map_of_al_del)

lemma pane_id_set: "get_str n ''type'' = Some t \<Longrightarrow> get_str (jset ''paneId'' (JStr p) n) ''paneId'' = Some p"
  using jget_jset_obj [of n "''type''" t "''paneId''"] by (simp add: get_str_def)

lemma downgrade_kept:
  "get_str (fst (downgrade_ssh p)) ''type'' = get_str (fst p) ''type''"
  "leaf_kind (fst (downgrade_ssh p)) = leaf_kind (fst p)"
  "pr_created (snd (downgrade_ssh p)) = pr_created (snd p)"
  "pr_manager (snd (downgrade_ssh p)) = pr_manager (snd p)"
  by (simp_all add: downgrade_ssh_def get_str_jremove leaf_kind_def warn_def)

lemma leaf_cwd_kept:
  "pr_created (snd (leaf_cwd env ws n s)) = pr_created s" "pr_manager (snd (leaf_cwd env ws n s)) = pr_manager s"
  by (simp_all add: leaf_cwd_def warn_def Let_def split_beta split: option.split)

text \<open>What preparing a subtree does: panes for exactly its terminal leaves.\<close>

definition prepares :: "('f, 'ps) prepared \<Rightarrow> 'f json \<Rightarrow> ((nat \<times> string) + 'f json) \<times> ('f, 'ps) prepared \<Rightarrow> bool" where
  "prepares s n r \<longleftrightarrow>
     (\<exists>new. pr_created (snd r) = pr_created s @ new \<and> grown new (pr_manager s) (pr_manager (snd r)) \<and>
        (\<forall>n'. fst r = Inr n' \<longrightarrow> collect_terminal_leaf_pane_ids n' = new))"

lemma terminal_prepares:
  assumes "get_str n ''type'' = Some ''leaf''" and "leaf_kind n = ''terminal''"
  shows "prepares s n (terminal_pane env alone shell ws new n s)"
proof (cases shell)
  case True
  obtain c s1 where c: "leaf_cwd env ws n s = (c, s1)" by force
  obtain n1 s2 where d: "downgrade_ssh (downgrade_ssh (n, s1)) = (n1, s2)" by force
  have n1: "get_str n1 ''type'' = Some ''leaf''" "leaf_kind n1 = ''terminal''"
    using assms downgrade_kept(1,2) [of "downgrade_ssh (n, s1)"] downgrade_kept(1,2) [of "(n, s1)"] by (simp_all add: d)
  have s2: "pr_created s2 = pr_created s" "pr_manager s2 = pr_manager s"
    using downgrade_kept(3,4) [of "downgrade_ssh (n, s1)"] downgrade_kept(3,4) [of "(n, s1)"] leaf_cwd_kept [of env ws n s] by (simp_all add: d c)
  obtain r m1 where r: "spawn_session (ap_boot env) (\<lambda>m. m) new c (pr_manager s) = (r, m1)" by force
  note g = spawn_session_grown [OF r]
  show ?thesis
  proof (cases r)
    case (Inl e)
    then show ?thesis using g r True by (auto simp: terminal_pane_def c d alone_def s2 prepares_def)
  next
    case (Inr x)
    have "collect_terminal_leaf_pane_ids (jset ''paneId'' (JStr new) n1) = [new]"
      using n1 pane_id_set [OF n1(1), of new]
      by (simp add: collect_terminal_leaf_pane_ids.simps [of "jset ''paneId'' (JStr new) n1"] leaf_kind_jset)
    then show ?thesis using Inr g r True by (auto simp: terminal_pane_def c d alone_def s2 prepares_def Let_def split: option.split)
  qed
qed (simp add: terminal_pane_def prepares_def)

lemma leaf_prepares:
  assumes "get_str n ''type'' = Some ''leaf''"
  shows "prepares s n (prepare_leaf env alone shell ws new n s)"
proof (cases "leaf_kind n = ''terminal''")
  case True
  then show ?thesis using terminal_prepares [OF assms True] by (simp add: prepare_leaf_def)
next
  case False
  have no: "collect_terminal_leaf_pane_ids n' = []" if "get_str n' ''type'' = Some ''leaf''" "leaf_kind n' = leaf_kind n" for n' :: "'a json"
    using that False by (simp add: collect_terminal_leaf_pane_ids.simps [of n'])
  have kept: "prepares s n (Inr n', s1)" if "get_str n' ''type'' = Some ''leaf''" "leaf_kind n' = leaf_kind n"
    "pr_created s1 = pr_created s" "pr_manager s1 = pr_manager s" for n' s1
    using that no by (simp add: prepares_def)
  show ?thesis
    using False assms
    by (auto simp: prepare_leaf_def Let_def plugin_pane_def files_pane_def warn_def leaf_kind_jset intro!: kept)
qed

lemma try_map_prepares:
  "(\<And>x s. x \<in> set xs \<Longrightarrow> prepares s (h x) (f x s)) \<Longrightarrow> try_map f xs s = (r, s') \<Longrightarrow>
     \<exists>new. pr_created s' = pr_created s @ new \<and> grown new (pr_manager s) (pr_manager s') \<and>
       (\<forall>ns. r = Inr ns \<longrightarrow> concat (map collect_terminal_leaf_pane_ids ns) = new)"
proof (induction xs arbitrary: s r s')
  case (Cons x xs)
  obtain r1 s1 where f: "f x s = (r1, s1)" by force
  have "prepares s (h x) (r1, s1)" using Cons.prems(1) [of x s] f by simp
  then obtain new where new: "pr_created s1 = pr_created s @ new" "grown new (pr_manager s) (pr_manager s1)"
    "\<And>n'. r1 = Inr n' \<Longrightarrow> collect_terminal_leaf_pane_ids n' = new" by (auto simp: prepares_def)
  show ?case
  proof (cases r1)
    case (Inl e)
    then show ?thesis using Cons.prems(2) f new by auto
  next
    case (Inr y)
    obtain r2 s2 where t: "try_map f xs s1 = (r2, s2)" by force
    from Cons.IH [OF Cons.prems(1) this] obtain more where more: "pr_created s2 = pr_created s1 @ more" "grown more (pr_manager s1) (pr_manager s2)"
      "\<And>ns. r2 = Inr ns \<Longrightarrow> concat (map collect_terminal_leaf_pane_ids ns) = more" by auto
    have g: "grown (new @ more) (pr_manager s) (pr_manager s2)" by (rule grown_trans [OF new(2) more(2)])
    have p: "pr_created s2 = pr_created s @ new @ more" by (simp add: new(1) more(1))
    have eq: "try_map f (x # xs) s = (case r2 of Inl e \<Rightarrow> Inl e | Inr ys \<Rightarrow> Inr (y # ys), s2)"
      by (cases r2) (simp_all add: f Inr t)
    have s': "s' = s2" "r = (case r2 of Inl e \<Rightarrow> Inl e | Inr ys \<Rightarrow> Inr (y # ys))" using Cons.prems(2) unfolding eq by simp_all
    have "concat (map collect_terminal_leaf_pane_ids ns) = new @ more" if "r = Inr ns" for ns
      using that new(3) [OF Inr] more(3) by (cases r2) (auto simp: s'(2))
    with g p show ?thesis unfolding s'(1) by blast
  qed
qed simp

lemma prepare_prepares: "prepares s n (prepare_layout_with_shell env alone shell ws pos n s)"
proof (induction n arbitrary: pos s rule: collect_terminal_leaf_pane_ids.induct)
  case (1 n)
  show ?case
  proof (cases "get_str n ''type''")
    case None
    then show ?thesis by (simp add: prepare_layout_with_shell.simps prepares_def collect_terminal_leaf_pane_ids.simps [of n])
  next
    case (Some t)
    show ?thesis
    proof (cases "t = ''leaf''")
      case True
      with Some leaf_prepares [of n s] show ?thesis by (simp add: prepare_layout_with_shell.simps)
    next
      case leaf: False
      show ?thesis
      proof (cases "t = ''split'' \<and> kids n \<noteq> None")
        case False
        with Some leaf show ?thesis
          by (auto simp: prepare_layout_with_shell.simps prepares_def collect_terminal_leaf_pane_ids.simps [of n])
      next
        case True
        then obtain cs where cs: "t = ''split''" "kids n = Some cs" by auto
        let ?f = "\<lambda>(i, c). prepare_layout_with_shell env alone shell ws (pos @ [i]) c"
        obtain r s1 where m: "try_map ?f (enumerate 0 cs) s = (r, s1)" by force
        have "prepares s (snd x) (?f x s)" if "x \<in> set (enumerate 0 cs)" for x s
        proof -
          have "snd x \<in> set cs" using that by (metis in_set_enumerate_eq add.right_neutral diff_zero nth_mem add_0)
          from 1 [OF Some leaf cs this] show ?thesis by (simp add: split_beta)
        qed
        from try_map_prepares [of "enumerate 0 cs" snd ?f, OF this m] obtain new where new:
          "pr_created s1 = pr_created s @ new" "grown new (pr_manager s) (pr_manager s1)"
          "\<And>ns. r = Inr ns \<Longrightarrow> concat (map collect_terminal_leaf_pane_ids ns) = new" by auto
        have e: "prepare_layout_with_shell env alone shell ws pos n s =
            (case r of Inl e \<Rightarrow> Inl e | Inr ns \<Rightarrow> Inr (jset ''children'' (JArr ns) n), s1)"
          using Some leaf cs m by (simp add: prepare_layout_with_shell.simps [of env alone shell ws pos n s] split: sum.split)
        have "collect_terminal_leaf_pane_ids (jset ''children'' (JArr ns) n) = concat (map collect_terminal_leaf_pane_ids ns)" for ns
          using Some cs kids_jset_children [OF Some, of ns]
          by (simp add: collect_terminal_leaf_pane_ids.simps [of "jset ''children'' (JArr ns) n"])
        with new e show ?thesis by (auto simp: prepares_def split: sum.splits)
      qed
    qed
  qed
qed

lemma grown_sessions:
  "grown ps m m' \<Longrightarrow> map_of (mg_sessions m') |` (- set ps) = map_of (mg_sessions m) \<and>
     dom (map_of (mg_sessions m')) = dom (map_of (mg_sessions m)) \<union> set ps \<and> dom (map_of (mg_sessions m)) \<inter> set ps = {} \<and> distinct ps"
  by (auto simp: grown_def restrict_map_def fun_eq_iff)

lemma roll_back_grown:
  assumes "grown ps m m1"
  shows "map_of (mg_sessions (roll_back env i ps m1)) = map_of (mg_sessions m) \<and> mg_reserved (roll_back env i ps m1) = mg_reserved m"
proof -
  have "list_all (\<lambda>p. map_of (mg_sessions m1) p \<noteq> None) ps" "distinct ps" using assms by (simp_all add: grown_def list_all_iff)
  note r = roll_back_sessions [OF this, of env i]
  have "(if q \<in> set ps then None else map_of (mg_sessions m1) q) = map_of (mg_sessions m) q" for q
    using assms by (simp add: grown_def)
  with r assms show ?thesis by (simp add: grown_def)
qed

lemma type_commands_kept:
  "mg_sessions (type_commands env cmds m) = mg_sessions m \<and> mg_layouts (type_commands env cmds m) = mg_layouts m"
proof (induction cmds arbitrary: m)
  case (Cons c cmds)
  obtain p cmd where c: "c = (p, cmd)" by force
  let ?m = "case map_of (mg_sessions m) p of None \<Rightarrow> m
    | Some a \<Rightarrow> (let (held, io) = ap_write env p in
        on_hosted a (\<lambda>h. h\<lparr>hs_session := snd (write_input_sync held io (str_bytes (lit cmd @ [10])) (hs_session h))\<rparr>) m)"
  have "type_commands env (c # cmds) m = type_commands env cmds ?m" by (simp add: type_commands_def c)
  moreover have "mg_sessions ?m = mg_sessions m" "mg_layouts ?m = mg_layouts m" by (simp_all add: on_hosted_def split_beta split: option.split)
  ultimately show ?case using Cons.IH [of ?m] by simp
qed (simp add: type_commands_def)

lemma tables_kept:
  "mg_sessions (broadcast_sync msg m) = mg_sessions m" "mg_layouts (broadcast_sync msg m) = mg_layouts m"
  "mg_sessions (insert_tab t v m) = mg_sessions m"
  using broadcast_frame [of m msg] by (simp_all add: same_tabs_def same_sessions_def insert_tab_def schedule_snapshot_def)

lemma commit_alone:
  assumes "commit_template env alone ws layout s = (reply, m')"
  shows "mg_sessions m' = mg_sessions (pr_manager s) \<and>
    map_of (mg_layouts m') = (map_of (mg_layouts (pr_manager s)))(ap_tab env \<mapsto>
      tab_value layout (case collect_first_pane_id layout of Some p \<Rightarrow> p | None \<Rightarrow> ap_fallback env)) \<and>
    (\<exists>cwd conn i. reply = TplApplied (ap_tab env) layout (pr_warnings s) cwd conn i)"
  using assms by (auto simp: commit_template_def Let_def alone_def type_commands_kept tables_kept layouts_insert_tab)


text \<open>
  A shell that dies while the other leaves are prepared: the tab is made and announced all the same, with a pane that
  has no session, whereas creating a tab checks for this.
\<close>

lemma dead_pane_is_committed:
  assumes "others (length (pr_created s)) = (\<lambda>m. m\<lparr>mg_sessions := al_del p (mg_sessions m)\<rparr>)"
    and "\<And>i. length (pr_created s) < i \<Longrightarrow> others i = (\<lambda>m. m)"
    and "p \<in> set (collect_terminal_leaf_pane_ids layout)"
    and "commit_template env others ws layout s = (reply, m')"
  shows "map_of (mg_sessions m') p = None \<and> map_of (mg_layouts m') (ap_tab env) \<bind> layout_of = Some layout \<and>
    (\<exists>cwd conn i. reply = TplApplied (ap_tab env) layout (pr_warnings s) cwd conn i)"
  using assms(4) by (auto simp: commit_template_def Let_def assms(1,2) type_commands_kept tables_kept layouts_insert_tab map_of_al_del)

end
