(* ===== verification/FileTree.thy ===== *)
theory FileTree
  imports Workspaces "HOL-Library.Sublist"
begin

section \<open>The file system under the workspace handlers\<close>

text \<open>
  What \<open>std::fs\<close> and \<open>Path\<close> do on Unix, as far as \<open>workspace/\<close> uses them. A path is the list of its components
  below \<open>/\<close>; a tree maps paths to directories, files (content and modification time) and symbolic links (target
  text), in the order in which directories are read. Whether a path ended in a slash is not kept. An error is its
  number; the errors the tree does not explain come from two lists of upcoming faults, one for removals.
\<close>

type_synonym fpath = "rstring list"
type_synonym err_no = nat

datatype fnode = DirNode | FileNode "u8 list" nat | LinkNode rstring

type_synonym file_tree = "(fpath, fnode) amap"

definition DOTDOT :: rstring where "DOTDOT = [46, 46]"

definition ENOENT :: err_no where "ENOENT = 2"
definition EEXIST :: err_no where "EEXIST = 17"
definition ENOTDIR :: err_no where "ENOTDIR = 20"
definition EISDIR :: err_no where "EISDIR = 21"
definition EINVAL :: err_no where "EINVAL = 22"
definition ENOTEMPTY :: err_no where "ENOTEMPTY = 39"
definition ELOOP :: err_no where "ELOOP = 40"

lemmas errnos = ENOENT_def EEXIST_def ENOTDIR_def EISDIR_def EINVAL_def ENOTEMPTY_def ELOOP_def

definition node_at :: "file_tree \<Rightarrow> fpath \<Rightarrow> fnode option" where
  "node_at t p = (if p = [] then Some DirNode else map_of t p)"

text \<open>\<open>PathBuf::join\<close>: an absolute path replaces the base.\<close>

definition push_path :: "fpath \<Rightarrow> rstring \<Rightarrow> fpath" where
  "push_path base s = (if is_absolute s then path_parts s else base @ path_parts s)"

definition path_text :: "fpath \<Rightarrow> rstring" where
  "path_text p = (if p = [] then [47] else concat (map (\<lambda>c. 47 # c) p))"

subsection \<open>Looking paths up\<close>

text \<open>
  Resolution from \<open>cur\<close> with at most \<open>n\<close> more links. With \<open>mk\<close> the last component may be missing, as for a
  file that is about to be created.
\<close>

fun walk :: "bool \<Rightarrow> file_tree \<Rightarrow> nat \<Rightarrow> fpath \<Rightarrow> fpath \<Rightarrow> err_no + fpath" where
  "walk mk t n cur [] = Inr cur"
| "walk mk t n cur (c # cs) =
     (if node_at t cur \<noteq> Some DirNode then Inl ENOTDIR
      else if c = DOTDOT then walk mk t n (butlast cur) cs
      else case node_at t (cur @ [c]) of
        None \<Rightarrow> if mk \<and> cs = [] then Inr (cur @ [c]) else Inl ENOENT
      | Some (LinkNode s) \<Rightarrow>
          (case n of
             0 \<Rightarrow> Inl ELOOP
           | Suc n' \<Rightarrow> walk mk t n' (if is_absolute s then [] else cur) (path_parts s @ cs))
      | Some _ \<Rightarrow> walk mk t n (cur @ [c]) cs)"

declare walk.simps(2) [simp del]

definition MAX_LINKS :: nat where "MAX_LINKS = 40"

definition canonicalize :: "file_tree \<Rightarrow> fpath \<Rightarrow> err_no + fpath" where
  "canonicalize t p = walk False t MAX_LINKS [] p"

definition stat :: "file_tree \<Rightarrow> fpath \<Rightarrow> fnode option" where
  "stat t p = (case canonicalize t p of Inr q \<Rightarrow> node_at t q | Inl _ \<Rightarrow> None)"

definition path_exists :: "file_tree \<Rightarrow> fpath \<Rightarrow> bool" where
  "path_exists t p \<longleftrightarrow> stat t p \<noteq> None"

definition path_is_dir :: "file_tree \<Rightarrow> fpath \<Rightarrow> bool" where
  "path_is_dir t p \<longleftrightarrow> stat t p = Some DirNode"

definition path_is_file :: "file_tree \<Rightarrow> fpath \<Rightarrow> bool" where
  "path_is_file t p \<longleftrightarrow> (case stat t p of Some (FileNode _ _) \<Rightarrow> True | _ \<Rightarrow> False)"

text \<open>Where the entry itself is: the links before the last component are followed, it is not.\<close>

definition entry_loc :: "file_tree \<Rightarrow> fpath \<Rightarrow> err_no + fpath" where
  "entry_loc t p =
     (if p = [] \<or> last p = DOTDOT then Inl EINVAL
      else case canonicalize t (butlast p) of
        Inl e \<Rightarrow> Inl e
      | Inr q \<Rightarrow> if node_at t q = Some DirNode then Inr (q @ [last p]) else Inl ENOTDIR)"

text \<open>\<open>Metadata::len\<close> of what is not a file depends on the file system; it is 0 here.\<close>

fun node_len :: "fnode \<Rightarrow> nat" where
  "node_len (FileNode b _) = length b"
| "node_len _ = 0"

subsection \<open>Changing the tree\<close>

record disk =
  dk_tree :: file_tree
  dk_faults :: "(err_no \<times> nat) option list"
  dk_rm_faults :: "err_no option list"
  dk_clock :: nat

type_synonym 'a io = "disk \<Rightarrow> (err_no + 'a) \<times> disk"

definition faulty :: "'a io \<Rightarrow> 'a io" where
  "faulty f d =
     (case dk_faults d of
        [] \<Rightarrow> f d
      | None # xs \<Rightarrow> f (d\<lparr>dk_faults := xs\<rparr>)
      | Some (e, _) # xs \<Rightarrow> (Inl e, d\<lparr>dk_faults := xs\<rparr>))"

definition rm_faulty :: "'a io \<Rightarrow> 'a io" where
  "rm_faulty f d =
     (case dk_rm_faults d of
        [] \<Rightarrow> f d
      | None # xs \<Rightarrow> f (d\<lparr>dk_rm_faults := xs\<rparr>)
      | Some e # xs \<Rightarrow> (Inl e, d\<lparr>dk_rm_faults := xs\<rparr>))"

definition set_node :: "fpath \<Rightarrow> fnode \<Rightarrow> disk \<Rightarrow> disk" where
  "set_node p v d = d\<lparr>dk_tree := al_put p v (dk_tree d)\<rparr>"

definition put_new :: "fpath \<Rightarrow> fnode \<Rightarrow> unit io" where
  "put_new p v d =
     (case entry_loc (dk_tree d) p of
        Inl e \<Rightarrow> (Inl e, d)
      | Inr q \<Rightarrow> if node_at (dk_tree d) q \<noteq> None then (Inl EEXIST, d) else (Inr (), set_node q v d))"

definition fs_create_dir :: "fpath \<Rightarrow> unit io" where
  "fs_create_dir p = faulty (put_new p DirNode)"

text \<open>\<open>OpenOptions::new().write(true).create_new(true)\<close>.\<close>

definition fs_create_new :: "fpath \<Rightarrow> unit io" where
  "fs_create_new p = faulty (\<lambda>d. put_new p (FileNode [] (dk_clock d)) d)"

text \<open>\<open>File::create\<close>: follows links, truncates; what is opened stays the same file when the path changes.\<close>

definition fs_create :: "fpath \<Rightarrow> fpath io" where
  "fs_create p = faulty (\<lambda>d.
     case walk True (dk_tree d) MAX_LINKS [] p of
       Inl e \<Rightarrow> (Inl e, d)
     | Inr q \<Rightarrow> if node_at (dk_tree d) q = Some DirNode then (Inl EISDIR, d) else (Inr q, set_node q (FileNode [] (dk_clock d)) d))"

definition append_bytes :: "fpath \<Rightarrow> u8 list \<Rightarrow> disk \<Rightarrow> disk" where
  "append_bytes q bs d =
     (case node_at (dk_tree d) q of
        Some (FileNode b _) \<Rightarrow> (set_node q (FileNode (b @ bs) (dk_clock d)) d)\<lparr>dk_clock := Suc (dk_clock d)\<rparr>
      | _ \<Rightarrow> d)"

text \<open>\<open>write_all\<close> on an open file: a fault lets the bytes it names through.\<close>

definition fs_append :: "fpath \<Rightarrow> u8 list \<Rightarrow> unit io" where
  "fs_append q bs d =
     (case dk_faults d of
        [] \<Rightarrow> (Inr (), append_bytes q bs d)
      | None # xs \<Rightarrow> (Inr (), append_bytes q bs (d\<lparr>dk_faults := xs\<rparr>))
      | Some (e, k) # xs \<Rightarrow> (Inl e, append_bytes q (take k bs) (d\<lparr>dk_faults := xs\<rparr>)))"

definition fs_write :: "fpath \<Rightarrow> u8 list \<Rightarrow> unit io" where
  "fs_write p bs d = (case fs_create p d of (Inl e, d1) \<Rightarrow> (Inl e, d1) | (Inr q, d1) \<Rightarrow> fs_append q bs d1)"

definition fs_metadata :: "fpath \<Rightarrow> fnode io" where
  "fs_metadata p = faulty (\<lambda>d. (case stat (dk_tree d) p of Some v \<Rightarrow> Inr v | None \<Rightarrow> Inl ENOENT, d))"

definition fs_read :: "fpath \<Rightarrow> (u8 list) io" where
  "fs_read p = faulty (\<lambda>d. (case stat (dk_tree d) p of Some (FileNode b _) \<Rightarrow> Inr b | Some _ \<Rightarrow> Inl EISDIR | None \<Rightarrow> Inl ENOENT, d))"

text \<open>The names in a directory, in the order of the tree.\<close>

definition names_under :: "file_tree \<Rightarrow> fpath \<Rightarrow> rstring list" where
  "names_under t q = map (last \<circ> fst) (filter (\<lambda>(p, _). p \<noteq> [] \<and> butlast p = q) t)"

definition fs_read_dir :: "fpath \<Rightarrow> (rstring list) io" where
  "fs_read_dir p = faulty (\<lambda>d.
     (case canonicalize (dk_tree d) p of
        Inl e \<Rightarrow> Inl e
      | Inr q \<Rightarrow> if node_at (dk_tree d) q = Some DirNode then Inr (names_under (dk_tree d) q) else Inl ENOTDIR, d))"

text \<open>
  \<open>create_dir_all\<close>: the parents are made when the directory cannot be made for want of them; one that is there
  already is no error.
\<close>

definition made_dir :: "fpath \<Rightarrow> (err_no + unit) \<times> disk \<Rightarrow> (err_no + unit) \<times> disk" where
  "made_dir p r = (case r of (Inl e, d) \<Rightarrow> if path_is_dir (dk_tree d) p then (Inr (), d) else (Inl e, d) | ok \<Rightarrow> ok)"

function fs_create_dir_all :: "fpath \<Rightarrow> unit io" where
  "fs_create_dir_all p d =
     (case fs_create_dir p d of
        (Inl e, d1) \<Rightarrow>
          if e \<noteq> ENOENT then made_dir p (Inl e, d1)
          else if p = [] then (Inl ENOENT, d1)
          else (case fs_create_dir_all (butlast p) d1 of
             (Inl e', d2) \<Rightarrow> (Inl e', d2)
           | (Inr _, d2) \<Rightarrow> made_dir p (fs_create_dir p d2))
      | (Inr _, d1) \<Rightarrow> (Inr (), d1))"
  by pat_completeness auto
termination by (relation "measure (\<lambda>(p, _). length p)") auto

declare fs_create_dir_all.simps [simp del]

definition cut_tree :: "fpath \<Rightarrow> disk \<Rightarrow> disk" where
  "cut_tree q d = d\<lparr>dk_tree := filter (\<lambda>(p, _). \<not> prefix q p) (dk_tree d)\<rparr>"

definition fs_remove_file :: "fpath \<Rightarrow> unit io" where
  "fs_remove_file p = rm_faulty (\<lambda>d.
     case entry_loc (dk_tree d) p of
       Inl e \<Rightarrow> (Inl e, d)
     | Inr q \<Rightarrow>
         (case node_at (dk_tree d) q of
            None \<Rightarrow> (Inl ENOENT, d)
          | Some DirNode \<Rightarrow> (Inl EISDIR, d)
          | Some _ \<Rightarrow> (Inr (), d\<lparr>dk_tree := al_del q (dk_tree d)\<rparr>)))"

text \<open>A link is removed itself. (That a removal may stop half-way is left out.)\<close>

definition fs_remove_dir_all :: "fpath \<Rightarrow> unit io" where
  "fs_remove_dir_all p = rm_faulty (\<lambda>d.
     case entry_loc (dk_tree d) p of
       Inl e \<Rightarrow> (Inl e, d)
     | Inr q \<Rightarrow>
         (case node_at (dk_tree d) q of
            None \<Rightarrow> (Inl ENOENT, d)
          | Some (FileNode _ _) \<Rightarrow> (Inl ENOTDIR, d)
          | Some _ \<Rightarrow> (Inr (), cut_tree q d)))"

definition move_nodes :: "fpath \<Rightarrow> fpath \<Rightarrow> file_tree \<Rightarrow> file_tree" where
  "move_nodes a b t =
     map (\<lambda>(p, v). (if prefix a p then b @ drop (length a) p else p, v)) (filter (\<lambda>(p, _). \<not> prefix b p) t)"

definition rename_entry :: "fpath \<Rightarrow> fpath \<Rightarrow> file_tree \<Rightarrow> err_no + file_tree" where
  "rename_entry a b t =
     (case node_at t a of
        None \<Rightarrow> Inl ENOENT
      | Some v \<Rightarrow>
          if a = b then Inr t
          else if prefix a b then (if v = DirNode then Inl EINVAL else Inl ENOTDIR)
          else (case node_at t b of
             None \<Rightarrow> Inr (move_nodes a b t)
           | Some DirNode \<Rightarrow>
               if v \<noteq> DirNode then Inl EISDIR
               else if list_ex (\<lambda>(p, _). strict_prefix b p) t then Inl ENOTEMPTY
               else Inr (move_nodes a b t)
           | Some _ \<Rightarrow> if v = DirNode then Inl ENOTDIR else Inr (move_nodes a b t)))"

definition fs_rename :: "fpath \<Rightarrow> fpath \<Rightarrow> unit io" where
  "fs_rename p p' = faulty (\<lambda>d.
     case entry_loc (dk_tree d) p of
       Inl e \<Rightarrow> (Inl e, d)
     | Inr a \<Rightarrow>
         (case entry_loc (dk_tree d) p' of
            Inl e \<Rightarrow> (Inl e, d)
          | Inr b \<Rightarrow>
              (case rename_entry a b (dk_tree d) of
                 Inl e \<Rightarrow> (Inl e, d)
               | Inr t \<Rightarrow> (Inr (), d\<lparr>dk_tree := t\<rparr>))))"

end
