(* ===== verification/WorkspaceUtil.thy ===== *)
theory WorkspaceUtil
  imports FileTree Layout Tabs
begin

section \<open>Helpers of the workspace handlers\<close>

text \<open>
  \<open>workspace/util.rs\<close> and \<open>workspace/types.rs\<close>: paths below the workspace root, names, upload directories, kinds of
  files, byte ranges, and ripgrep's output. A refusal is a status with its message. \<open>lower\<close> is \<open>str::to_lowercase\<close>.
\<close>

type_synonym 'a tried = "(nat \<times> string) + 'a"

definition MAX_TEXT_PREVIEW :: nat where "MAX_TEXT_PREVIEW = 512 * 1024"
definition MAX_DOWNLOAD :: nat where "MAX_DOWNLOAD = 500 * 1024 * 1024"

subsection \<open>Sessions and their roots\<close>

definition pane_root :: "file_tree \<Rightarrow> ('f, 'ps) manager \<Rightarrow> string \<Rightarrow> fpath tried" where
  "pane_root t m pane =
     (case host_of m pane of
        None \<Rightarrow> Inl (404, ''unknown pane'')
      | Some h \<Rightarrow>
          (case hs_cwd h of
             None \<Rightarrow> Inl (409, ''cwd_unavailable_for_backend'')
           | Some cwd \<Rightarrow>
               let p = push_path [] cwd in
               Inr (case canonicalize t p of Inr q \<Rightarrow> q | Inl _ \<Rightarrow> p)))"

definition ssh_session :: "('f, 'ps) manager \<Rightarrow> string \<Rightarrow> bool" where
  "ssh_session m pane \<longleftrightarrow> (case host_of m pane of None \<Rightarrow> False | Some h \<Rightarrow> hs_login h \<noteq> None)"

subsection \<open>Paths in the workspace\<close>

definition trim_slashes :: "rstring \<Rightarrow> rstring" where
  "trim_slashes s = dropWhile (\<lambda>c. c = 47) s"

definition normalize_join :: "fpath \<Rightarrow> rstring \<Rightarrow> fpath tried" where
  "normalize_join root rel =
     (let r = trim_slashes (trim rel) in
      if DOTDOT \<in> set (split_on 47 r) then Inl (400, ''invalid path'')
      else Inr (root @ filter (\<lambda>s. s \<noteq> [] \<and> s \<noteq> [46]) (split_on 47 r)))"

definition path_must_be_under :: "file_tree \<Rightarrow> fpath \<Rightarrow> fpath \<Rightarrow> unit tried" where
  "path_must_be_under t root candidate =
     (case canonicalize t root of
        Inl _ \<Rightarrow> Inl (404, ''cwd'')
      | Inr r \<Rightarrow>
          (case canonicalize t candidate of
             Inl _ \<Rightarrow> Inl (404, ''path'')
           | Inr c \<Rightarrow> if prefix r c then Inr () else Inl (403, ''outside workspace'')))"

fun slashed :: "rstring list \<Rightarrow> rstring" where
  "slashed [] = []"
| "slashed [c] = c"
| "slashed (c # cs) = c @ 47 # slashed cs"

definition rel_from_root :: "fpath \<Rightarrow> fpath \<Rightarrow> rstring option" where
  "rel_from_root root full =
     (if prefix root full then Some (map (\<lambda>c. if c = 92 then 47 else c) (slashed (drop (length root) full))) else None)"

definition validate_entry_name :: "rstring \<Rightarrow> rstring tried" where
  "validate_entry_name raw =
     (let name = trim raw in
      if name = [] \<or> name = [46] \<or> name = DOTDOT then Inl (400, ''invalid name'')
      else if 47 \<in> set name \<or> 92 \<in> set name then Inl (400, ''invalid name'')
      else Inr name)"

definition parent_dir_must_be_in_workspace :: "file_tree \<Rightarrow> fpath \<Rightarrow> fpath \<Rightarrow> unit tried" where
  "parent_dir_must_be_in_workspace t root file_path =
     (case canonicalize t root of
        Inl _ \<Rightarrow> Inl (404, ''cwd'')
      | Inr r \<Rightarrow>
          if file_path = [] then Inl (400, ''invalid path'')
          else if \<not> path_exists t (butlast file_path) then Inl (404, ''parent not found'')
          else (case canonicalize t (butlast file_path) of
             Inl _ \<Rightarrow> Inl (404, ''parent not found'')
           | Inr p \<Rightarrow> if prefix r p then Inr () else Inl (403, ''outside workspace'')))"

subsection \<open>Paths a user writes\<close>

text \<open>The home directory, the variable \<open>TMPDIR\<close>, \<open>temp_dir()\<close> and the directory of the process.\<close>

record user_env =
  ue_home :: "fpath option"
  ue_tmpdir :: "rstring option"
  ue_temp :: fpath
  ue_cwd :: fpath

definition env_path :: "user_env \<Rightarrow> fpath" where
  "env_path env =
     (case ue_tmpdir env of Some v \<Rightarrow> if v = [] then ue_temp env else push_path (ue_cwd env) v | None \<Rightarrow> ue_temp env)"

definition token_remainder :: "rstring \<Rightarrow> rstring \<Rightarrow> rstring option" where
  "token_remainder raw token =
     (case strip_prefix token raw of
        None \<Rightarrow> None
      | Some [] \<Rightarrow> Some []
      | Some (c # rest) \<Rightarrow> if c = 47 \<or> c = 92 then Some (dropWhile (\<lambda>x. x = 47 \<or> x = 92) (c # rest)) else None)"

definition TEMP_TOKENS :: "rstring list" where
  "TEMP_TOKENS = [lit ''$TMPDIR'', lit ''${TMPDIR}'']"

definition expand_temp_token :: "user_env \<Rightarrow> rstring \<Rightarrow> fpath option" where
  "expand_temp_token env raw =
     map_option (\<lambda>rest. if rest = [] then env_path env else push_path (env_path env) rest)
       (first_some (map (token_remainder raw) TEMP_TOKENS))"

definition resolve_user_path :: "user_env \<Rightarrow> rstring \<Rightarrow> fpath" where
  "resolve_user_path env text =
     (let raw = trim text in
      case expand_temp_token env raw of
        Some p \<Rightarrow> p
      | None \<Rightarrow>
          (case (strip_prefix (lit ''~/'') raw, ue_home env) of
             (Some rest, Some h) \<Rightarrow> push_path h rest
           | _ \<Rightarrow>
               if raw = lit ''~'' then (case ue_home env of Some h \<Rightarrow> h | None \<Rightarrow> [])
               else push_path (ue_cwd env) raw))"

definition path_contains_parent_dir :: "fpath \<Rightarrow> bool" where
  "path_contains_parent_dir p \<longleftrightarrow> DOTDOT \<in> set p"

subsection \<open>Kinds of files\<close>

text \<open>\<open>Path::file_stem\<close> and \<open>Path::extension\<close> of a name: a leading dot starts no extension.\<close>

definition split_ext :: "rstring \<Rightarrow> rstring \<times> rstring option" where
  "split_ext name =
     (let ext = rev (takeWhile (\<lambda>c. c \<noteq> 46) (rev name));
          stem = take (length name - length ext - 1) name in
      if name = DOTDOT \<or> length ext = length name \<or> stem = [] then (name, None) else (stem, Some ext))"

text \<open>\<open>Path::file_name\<close>.\<close>

definition last_name :: "fpath \<Rightarrow> rstring option" where
  "last_name p = (if p = [] \<or> last p = DOTDOT then None else Some (last p))"

definition path_ext :: "(rstring \<Rightarrow> rstring) \<Rightarrow> fpath \<Rightarrow> rstring option" where
  "path_ext lower p = map_option lower (last_name p \<bind> (\<lambda>n. snd (split_ext n)))"

text \<open>The value of the first group that has the key.\<close>

fun in_table :: "(string list \<times> 'v) list \<Rightarrow> rstring \<Rightarrow> 'v option" where
  "in_table [] k = None"
| "in_table ((ks, v) # rows) k = (if k \<in> lit ` set ks then Some v else in_table rows k)"

definition LANGUAGES :: "(string list \<times> string) list" where
  "LANGUAGES =
     [([''rs''], ''rust''), ([''js'', ''mjs'', ''cjs'', ''jsx''], ''javascript''),
      ([''ts'', ''mts'', ''cts'', ''tsx''], ''typescript''), ([''py''], ''python''), ([''go''], ''go''),
      ([''java''], ''java''), ([''c'', ''h''], ''c''), ([''cpp'', ''cc'', ''cxx'', ''hpp''], ''cpp''), ([''json''], ''json''),
      ([''yaml'', ''yml''], ''yaml''), ([''toml''], ''toml''), ([''xml'', ''vue''], ''xml''), ([''html'', ''htm''], ''html''),
      ([''css'', ''scss'', ''sass''], ''css''), ([''md'', ''markdown''], ''markdown''), ([''sh'', ''bash'', ''zsh''], ''bash''),
      ([''sql''], ''sql'')]"

definition detect_language :: "(rstring \<Rightarrow> rstring) \<Rightarrow> fpath \<Rightarrow> string" where
  "detect_language lower p =
     (case in_table LANGUAGES (case path_ext lower p of Some e \<Rightarrow> e | None \<Rightarrow> lower []) of Some l \<Rightarrow> l | None \<Rightarrow> ''plaintext'')"

definition MEDIA :: "(string list \<times> (string \<times> string)) list" where
  "MEDIA =
     [([''png''], ''image'', ''image/png''), ([''jpg'', ''jpeg''], ''image'', ''image/jpeg''), ([''gif''], ''image'', ''image/gif''),
      ([''webp''], ''image'', ''image/webp''), ([''svg''], ''image'', ''image/svg+xml''), ([''mp4'', ''m4v''], ''video'', ''video/mp4''),
      ([''webm''], ''video'', ''video/webm''), ([''mov''], ''video'', ''video/quicktime''), ([''ogv''], ''video'', ''video/ogg''),
      ([''3gp'', ''3gpp''], ''video'', ''video/3gpp''), ([''mkv''], ''video'', ''video/x-matroska''), ([''mp3''], ''audio'', ''audio/mpeg''),
      ([''wav''], ''audio'', ''audio/wav''), ([''ogg'', ''oga''], ''audio'', ''audio/ogg''), ([''m4a''], ''audio'', ''audio/mp4''),
      ([''flac''], ''audio'', ''audio/flac''), ([''pdf''], ''pdf'', ''application/pdf'')]"

definition media_kind :: "(rstring \<Rightarrow> rstring) \<Rightarrow> fpath \<Rightarrow> (string \<times> string) option" where
  "media_kind lower p = path_ext lower p \<bind> in_table MEDIA"

definition skip_text_preview :: "(rstring \<Rightarrow> rstring) \<Rightarrow> fpath \<Rightarrow> bool" where
  "skip_text_preview lower p \<longleftrightarrow>
     (case path_ext lower p of Some e \<Rightarrow> e | None \<Rightarrow> lower []) \<in> lit ` {''cube'', ''lut'', ''3dl'', ''dat''}"

definition OFFICE :: "(string list \<times> (string \<times> string)) list" where
  "OFFICE =
     [([''doc''], ''office'', ''application/msword''),
      ([''docx''], ''office'', ''application/vnd.openxmlformats-officedocument.wordprocessingml.document''),
      ([''xls''], ''office'', ''application/vnd.ms-excel''),
      ([''xlsx''], ''office'', ''application/vnd.openxmlformats-officedocument.spreadsheetml.sheet'')]"

definition office_kind :: "(rstring \<Rightarrow> rstring) \<Rightarrow> fpath \<Rightarrow> (string \<times> string) option" where
  "office_kind lower p = path_ext lower p \<bind> in_table OFFICE"

subsection \<open>Byte ranges\<close>

datatype byte_range = FullRange | PartialRange nat nat | NotSatisfiable

text \<open>The bounds of \<open>from-to\<close>; \<open>None\<close> when one is no number.\<close>

definition explicit_range :: "rstring \<Rightarrow> rstring \<Rightarrow> nat \<Rightarrow> (nat \<times> nat) option" where
  "explicit_range from_s to_s len =
     (case (if from_s = [] then Some 0 else parse_unsigned u64_limit from_s) of
        None \<Rightarrow> None
      | Some a \<Rightarrow> map_option (\<lambda>b. (a, b)) (if to_s = [] then Some (len - 1) else parse_unsigned u64_limit to_s))"

definition resolve_byte_range :: "rstring \<Rightarrow> nat \<Rightarrow> byte_range" where
  "resolve_byte_range header len =
     (if len = 0 then FullRange
      else case strip_prefix (lit ''bytes='') (trim header) of
        None \<Rightarrow> FullRange
      | Some spec \<Rightarrow>
          let first = trim (hd (split_on 44 spec)) in
          (case first of
             [] \<Rightarrow> FullRange
           | c # digits \<Rightarrow>
               if c = 45 then
                 if digits = [] then FullRange
                 else (case parse_unsigned u64_limit digits of
                    None \<Rightarrow> FullRange
                  | Some n \<Rightarrow> if n = 0 then NotSatisfiable else PartialRange (len - n) (len - 1))
               else (case split_once 45 first of
                  None \<Rightarrow> FullRange
                | Some (from_s, to_s) \<Rightarrow>
                    (case explicit_range from_s to_s len of
                       None \<Rightarrow> FullRange
                     | Some (a, b) \<Rightarrow>
                         let b' = min b (len - 1) in
                         if len \<le> a then NotSatisfiable else if b' < a then NotSatisfiable else PartialRange a b'))))"

subsection \<open>Ripgrep's output\<close>

text \<open>Strings in JSON are their UTF-8 bytes.\<close>

record search_match =
  sm_file :: string
  sm_line :: u32
  sm_column :: u32
  sm_text :: string

fun column_loop :: "u8 list \<Rightarrow> nat \<Rightarrow> u32 \<Rightarrow> u32" where
  "column_loop bs 0 col = col"
| "column_loop [] (Suc n) col = col"
| "column_loop (b # bs) (Suc n) col = column_loop bs n (if and b 0xC0 \<noteq> 0x80 then col + 1 else col)"

definition byte_offset_to_column :: "u8 list \<Rightarrow> nat \<Rightarrow> u32" where
  "byte_offset_to_column bs off = column_loop bs (min off (length bs)) 1"

fun json_u64 :: "'f json \<Rightarrow> nat option" where
  "json_u64 (JInt i) = (if 0 \<le> i \<and> i < 2 ^ 64 then Some (nat i) else None)"
| "json_u64 _ = None"

fun trim_dot_slash :: "string \<Rightarrow> string" where
  "trim_dot_slash (a # b # s) = (if a = CHR ''.'' \<and> b = CHR ''/'' then trim_dot_slash s else a # b # s)"
| "trim_dot_slash s = s"

definition trim_newlines :: "string \<Rightarrow> string" where
  "trim_newlines s = rev (dropWhile (\<lambda>c. c = CHR 0x0A) (rev s))"

definition str_or_empty :: "'f json option \<Rightarrow> string" where
  "str_or_empty v = (case v \<bind> as_str of Some s \<Rightarrow> s | None \<Rightarrow> [])"

text \<open>\<open>pointer("/submatches/0/start")\<close>.\<close>

definition first_start :: "'f json \<Rightarrow> nat" where
  "first_start data =
     (case jget data ''submatches'' \<bind> as_array of
        Some (x # _) \<Rightarrow> (case jget x ''start'' \<bind> json_u64 of Some n \<Rightarrow> n | None \<Rightarrow> 0)
      | _ \<Rightarrow> 0)"

definition rg_match :: "'f json \<Rightarrow> search_match option" where
  "rg_match v =
     (if get_str v ''type'' \<noteq> Some ''match'' then None
      else map_option (\<lambda>data.
        let line = trim_newlines (str_or_empty (jget data ''lines'' \<bind> (\<lambda>x. jget x ''text''))) in
        \<lparr>sm_file = trim_dot_slash (str_or_empty (jget data ''path'' \<bind> (\<lambda>x. jget x ''text''))),
         sm_line = of_nat (case jget data ''line_number'' \<bind> json_u64 of Some n \<Rightarrow> n | None \<Rightarrow> 0),
         sm_column = byte_offset_to_column (map of_char line) (first_start data),
         sm_text = line\<rparr>) (jget v ''data''))"

text \<open>\<open>str::lines\<close>.\<close>

definition strip_cr :: "rstring \<Rightarrow> rstring" where
  "strip_cr s = (if s \<noteq> [] \<and> last s = 13 then butlast s else s)"

definition text_lines :: "rstring \<Rightarrow> rstring list" where
  "text_lines s = (let ps = split_on 10 s in map strip_cr (butlast ps) @ (if last ps = [] then [] else [last ps]))"

fun rg_loop :: "(rstring \<Rightarrow> 'f json option) \<Rightarrow> nat \<Rightarrow> rstring list \<Rightarrow> search_match list \<Rightarrow> search_match list" where
  "rg_loop from_json limit [] acc = acc"
| "rg_loop from_json limit (l # ls) acc =
     (if limit \<le> length acc then acc
      else case from_json l \<bind> rg_match of
        None \<Rightarrow> rg_loop from_json limit ls acc
      | Some m \<Rightarrow> rg_loop from_json limit ls (acc @ [m]))"

definition parse_rg_json :: "(rstring \<Rightarrow> 'f json option) \<Rightarrow> rstring \<Rightarrow> nat \<Rightarrow> search_match list" where
  "parse_rg_json from_json stdout limit = rg_loop from_json limit (text_lines stdout) []"

end
