(* ===== verification/WorkspaceFiles.thy ===== *)
theory WorkspaceFiles
  imports WorkspaceUtil "HOL-Library.Product_Lexorder"
begin

section \<open>The workspace handlers\<close>

text \<open>
  \<open>workspace/handlers.rs\<close>, one function per handler. A pane of an SSH session is served by \<open>remote/\<close>, which is
  left out (\<open>Remote\<close>). Nothing else touches the disk while a handler runs.
\<close>

datatype 'r file_outcome = Refused nat string | Remote | Answer 'r

text \<open>What is read from outside: lower-casing, the text of an I/O error, and the type \<open>mime_guess\<close> gives.\<close>

record file_env = user_env +
  fe_lower :: "rstring \<Rightarrow> rstring"
  fe_os :: "err_no \<Rightarrow> string"
  fe_mime :: "fpath \<Rightarrow> rstring"

text \<open>\<open>try_res!\<close>, and the early return with 500 on an I/O error.\<close>

definition attempt :: "'a tried \<Rightarrow> 's \<Rightarrow> ('a \<Rightarrow> 'r file_outcome \<times> 's) \<Rightarrow> 'r file_outcome \<times> 's" where
  "attempt r d k = (case r of Inl (code, msg) \<Rightarrow> (Refused code msg, d) | Inr v \<Rightarrow> k v)"

definition attempt_io ::
  "'a file_env_scheme \<Rightarrow> (err_no + 'v) \<times> disk \<Rightarrow> ('v \<Rightarrow> disk \<Rightarrow> 'r file_outcome \<times> disk) \<Rightarrow> 'r file_outcome \<times> disk" where
  "attempt_io env r k = (case r of (Inl e, d) \<Rightarrow> (Refused 500 (fe_os env e), d) | (Inr v, d) \<Rightarrow> k v d)"

subsection \<open>Resolving and listing\<close>

definition resolved_path :: "'a user_env_scheme \<Rightarrow> file_tree \<Rightarrow> fpath \<Rightarrow> rstring \<Rightarrow> fpath tried" where
  "resolved_path env t root path =
     (case (if is_absolute path then Inr (resolve_user_path (user_env.truncate env) path) else normalize_join root path) of
        Inl e \<Rightarrow> Inl e
      | Inr joined \<Rightarrow> (case canonicalize t joined of Inl _ \<Rightarrow> Inl (404, ''path not found'') | Inr c \<Rightarrow> Inr c))"

definition workspace_resolve ::
  "'a user_env_scheme \<Rightarrow> ('f, 'ps) manager \<Rightarrow> string \<Rightarrow> rstring \<Rightarrow> file_tree \<Rightarrow> rstring file_outcome" where
  "workspace_resolve env m pane path t =
     (if ssh_session m pane then Remote
      else fst (attempt (pane_root t m pane) () (\<lambda>root.
        attempt (resolved_path env t root path) () (\<lambda>canon.
        attempt (path_must_be_under t root canon) () (\<lambda>_.
          (case rel_from_root root canon of None \<Rightarrow> Refused 400 ''bad path'' | Some rel \<Rightarrow> Answer rel, ()))))))"

definition workspace_resolve_abs ::
  "'a user_env_scheme \<Rightarrow> ('f, 'ps) manager \<Rightarrow> string \<Rightarrow> rstring \<Rightarrow> file_tree \<Rightarrow> rstring file_outcome" where
  "workspace_resolve_abs env m pane path t =
     (if ssh_session m pane then Refused 400 ''not supported for SSH sessions''
      else fst (attempt (pane_root t m pane) () (\<lambda>root.
        attempt (resolved_path env t root path) () (\<lambda>canon. (Answer (path_text canon), ())))))"

record list_query =
  lq_pane :: string
  lq_path :: rstring
  lq_root :: "rstring option"
  lq_free :: bool

record dir_entry =
  de_name :: rstring
  de_is_dir :: bool
  de_size :: nat

record list_response =
  lr_cwd :: rstring
  lr_path :: rstring
  lr_entries :: "dir_entry list"

definition outside_pane_jail :: "list_query \<Rightarrow> bool" where
  "outside_pane_jail q \<longleftrightarrow> lq_free q \<or> lq_root q = Some [47]"

definition list_root :: "'a user_env_scheme \<Rightarrow> ('f, 'ps) manager \<Rightarrow> file_tree \<Rightarrow> list_query \<Rightarrow> fpath tried" where
  "list_root env m t q =
     (if lq_root q = Some [47] then Inr []
      else if lq_root q = Some [126] then Inr (case ue_home env of Some h \<Rightarrow> h | None \<Rightarrow> [])
      else pane_root t m (lq_pane q))"

text \<open>The path as it was named, the directory to read, and the root that is shown.\<close>

definition list_target :: "'a user_env_scheme \<Rightarrow> ('f, 'ps) manager \<Rightarrow> file_tree \<Rightarrow> list_query \<Rightarrow> (fpath \<times> fpath \<times> rstring) tried" where
  "list_target env m t q =
     (if lq_free q then
        let requested = trim (lq_path q); raw = path_parts requested in
        if \<not> is_absolute requested then Inl (400, ''path must be absolute'')
        else (case canonicalize t raw of
           Inl _ \<Rightarrow> Inl (404, ''not found'')
         | Inr target \<Rightarrow> Inr (raw, target, path_text target))
      else case list_root env m t q of
        Inl e \<Rightarrow> Inl e
      | Inr root \<Rightarrow>
          (case normalize_join root (lq_path q) of
             Inl e \<Rightarrow> Inl e
           | Inr raw \<Rightarrow>
               if \<not> path_exists t raw then Inl (404, ''not found'')
               else (case path_must_be_under t root raw of
                  Inl e \<Rightarrow> Inl e
                | Inr _ \<Rightarrow>
                    if outside_pane_jail q then
                      (case canonicalize t raw of Inl _ \<Rightarrow> Inl (404, ''not found'') | Inr target \<Rightarrow> Inr (raw, target, path_text root))
                    else Inr (raw, raw, path_text root))))"

definition sensitive_path :: "fpath \<Rightarrow> bool" where
  "sensitive_path p \<longleftrightarrow> is_sensitive (path_text p)"

definition list_entry :: "bool \<Rightarrow> file_tree \<Rightarrow> fpath \<Rightarrow> rstring \<Rightarrow> dir_entry option" where
  "list_entry outside t target name =
     (let raw = target @ [name] in
      map_option (\<lambda>v. \<lparr>de_name = name, de_is_dir = (v = DirNode), de_size = node_len v\<rparr>)
        (if outside then
           if sensitive_path raw then None
           else (case canonicalize t raw of
              Inl _ \<Rightarrow> None
            | Inr c \<Rightarrow> if sensitive_path c then None else stat t c)
         else stat t raw))"

definition entry_key :: "(rstring \<Rightarrow> rstring) \<Rightarrow> dir_entry \<Rightarrow> bool \<times> rstring" where
  "entry_key lower e = (\<not> de_is_dir e, lower (de_name e))"

definition list_dirs_blocking ::
  "'a file_env_scheme \<Rightarrow> ('f, 'ps) manager \<Rightarrow> list_query \<Rightarrow> disk \<Rightarrow> list_response file_outcome \<times> disk" where
  "list_dirs_blocking env m q d =
     (let t = dk_tree d; outside = outside_pane_jail q in
      attempt (list_target env m t q) d (\<lambda>(raw, target, cwd).
        if outside \<and> (sensitive_path raw \<or> sensitive_path target) then (Refused 403 ''sensitive system directory'', d)
        else if \<not> path_is_dir t target then (Refused 400 ''not a directory'', d)
        else attempt_io env (fs_read_dir target d) (\<lambda>names d1.
          (Answer \<lparr>lr_cwd = cwd, lr_path = trim_slashes (trim (lq_path q)),
             lr_entries = sort_key (entry_key (fe_lower env)) (all_some (map (list_entry outside t target) names))\<rparr>, d1))))"

definition workspace_list ::
  "'a file_env_scheme \<Rightarrow> ('f, 'ps) manager \<Rightarrow> list_query \<Rightarrow> disk \<Rightarrow> list_response file_outcome \<times> disk" where
  "workspace_list env m q d = (if ssh_session m (lq_pane q) then (Remote, d) else list_dirs_blocking env m q d)"

subsection \<open>Searching\<close>

record search_body =
  sb_pane :: string
  sb_path :: rstring
  sb_query :: rstring
  sb_pattern :: "rstring option"
  sb_max :: "nat option"

datatype rg_result = RgMissing | RgFailed string | RgTimeout | RgOutput rstring

definition rg_args :: "rstring \<Rightarrow> rstring \<Rightarrow> rstring option \<Rightarrow> rstring list" where
  "rg_args query path pattern =
     map lit [''--json'', ''--word-regexp'', ''-F''] @ [query, path] @
     (case pattern of Some p \<Rightarrow> [lit ''--glob'', p] | None \<Rightarrow> [])"

text \<open>\<open>rg\<close> runs ripgrep in a directory with arguments.\<close>

definition workspace_search ::
  "(rstring \<Rightarrow> 'j json option) \<Rightarrow> (fpath \<Rightarrow> rstring list \<Rightarrow> rg_result) \<Rightarrow> ('f, 'ps) manager \<Rightarrow> search_body \<Rightarrow> file_tree \<Rightarrow>
     search_match list file_outcome" where
  "workspace_search from_json rg m b t =
     (if ssh_session m (sb_pane b) then Refused 400 ''search not supported for SSH sessions''
      else if is_absolute (sb_path b) then Refused 400 ''path must be relative to workspace''
      else fst (attempt (pane_root t m (sb_pane b)) () (\<lambda>root.
        attempt (normalize_join root (sb_path b)) () (\<lambda>target.
        attempt (path_must_be_under t root target) () (\<lambda>_.
          (if \<not> path_exists t target then Refused 404 ''path not found''
           else if \<not> path_is_dir t target then Refused 400 ''not a directory''
           else if trim (sb_query b) = [] then Answer []
           else (case rg root (rg_args (trim (sb_query b)) (trim_slashes (trim (sb_path b))) (sb_pattern b)) of
              RgMissing \<Rightarrow> Refused 502 ''ripgrep not installed''
            | RgFailed e \<Rightarrow> Refused 500 e
            | RgTimeout \<Rightarrow> Refused 504 ''search timeout''
            | RgOutput out \<Rightarrow>
                Answer (parse_rg_json from_json out (min 500 (max 1 (case sb_max b of Some n \<Rightarrow> n | None \<Rightarrow> 100))))), ()))))))"

subsection \<open>Reading\<close>

record meta_response =
  mr_kind :: string
  mr_content :: "rstring option"
  mr_language :: "string option"
  mr_truncated :: bool
  mr_mime :: "string option"
  mr_message :: "string option"

definition meta_media :: "string \<times> string \<Rightarrow> meta_response" where
  "meta_media km =
     \<lparr>mr_kind = fst km, mr_content = None, mr_language = None, mr_truncated = False, mr_mime = Some (snd km), mr_message = None\<rparr>"

definition meta_unsupported :: meta_response where
  "meta_unsupported =
     \<lparr>mr_kind = ''unsupported'', mr_content = None, mr_language = None, mr_truncated = False, mr_mime = None,
      mr_message = Some ''binary file''\<rparr>"

definition text_kind :: "string \<Rightarrow> string" where
  "text_kind lang = (if lang = ''markdown'' then ''markdown'' else if lang = ''html'' then ''html'' else ''text'')"

definition text_meta :: "string \<Rightarrow> u8 list \<Rightarrow> meta_response" where
  "text_meta lang bytes =
     (let truncated = MAX_TEXT_PREVIEW < length bytes in
      case from_utf8 (if truncated then take MAX_TEXT_PREVIEW bytes else bytes) of
        None \<Rightarrow> meta_unsupported
      | Some s \<Rightarrow>
          \<lparr>mr_kind = text_kind lang, mr_content = Some s, mr_language = Some lang, mr_truncated = truncated, mr_mime = None,
           mr_message = (if truncated then Some ''truncated'' else None)\<rparr>)"

definition size_checked ::
  "'a file_env_scheme \<Rightarrow> fpath \<Rightarrow> disk \<Rightarrow> (fpath \<Rightarrow> nat \<Rightarrow> disk \<Rightarrow> 'r file_outcome \<times> disk) \<Rightarrow> 'r file_outcome \<times> disk" where
  "size_checked env target d k =
     attempt_io env (fs_metadata target d) (\<lambda>v d1.
       if MAX_DOWNLOAD < node_len v then (Refused 400 ''file too large'', d1) else k target (node_len v) d1)"

text \<open>The first steps of both reading handlers: a file of the workspace, and its metadata.\<close>

definition readable_file ::
  "'a file_env_scheme \<Rightarrow> ('f, 'ps) manager \<Rightarrow> string \<Rightarrow> rstring \<Rightarrow> disk \<Rightarrow> (fpath \<Rightarrow> nat \<Rightarrow> disk \<Rightarrow> 'r file_outcome \<times> disk) \<Rightarrow>
     'r file_outcome \<times> disk" where
  "readable_file env m pane path d k =
     (let t = dk_tree d in
      attempt (pane_root t m pane) d (\<lambda>root.
      attempt (normalize_join root path) d (\<lambda>target.
        if \<not> path_is_file t target then (Refused 400 ''not a file'', d)
        else attempt (path_must_be_under t root target) d (\<lambda>_. size_checked env target d k))))"

definition meta_answer :: "'a file_env_scheme \<Rightarrow> fpath \<Rightarrow> nat \<Rightarrow> disk \<Rightarrow> meta_response file_outcome \<times> disk" where
  "meta_answer env target len d =
     (case media_kind (fe_lower env) target of
        Some km \<Rightarrow> (Answer (meta_media km), d)
      | None \<Rightarrow>
          (case office_kind (fe_lower env) target of
             Some km \<Rightarrow> (Answer (meta_media km), d)
           | None \<Rightarrow>
               if skip_text_preview (fe_lower env) target then (Answer meta_unsupported, d)
               else attempt_io env (fs_read target d) (\<lambda>bytes d1.
                 (Answer (text_meta (detect_language (fe_lower env) target) bytes), d1))))"

definition workspace_meta ::
  "'a file_env_scheme \<Rightarrow> ('f, 'ps) manager \<Rightarrow> string \<Rightarrow> rstring \<Rightarrow> disk \<Rightarrow> meta_response file_outcome \<times> disk" where
  "workspace_meta env m pane path d =
     (if ssh_session m pane then (Remote, d) else readable_file env m pane path d (meta_answer env))"

record raw_reply =
  rr_status :: nat
  rr_headers :: "(string \<times> rstring) list"
  rr_body :: "u8 list"

definition content_range :: "nat \<Rightarrow> nat \<Rightarrow> nat \<Rightarrow> rstring" where
  "content_range a b len = lit ''bytes '' @ dec a @ [45] @ dec b @ [47] @ dec len"

text \<open>\<open>rng\<close> is the \<open>Range\<close> header, if it is there and is text.\<close>

definition raw_headers :: "'a file_env_scheme \<Rightarrow> fpath \<Rightarrow> (string \<times> rstring) list" where
  "raw_headers env target =
     [(''content-type'', case media_kind (fe_lower env) target of Some (_, x) \<Rightarrow> lit x | None \<Rightarrow> fe_mime env target),
      (''accept-ranges'', lit ''bytes'')]"

definition raw_answer ::
  "'a file_env_scheme \<Rightarrow> rstring option \<Rightarrow> fpath \<Rightarrow> nat \<Rightarrow> disk \<Rightarrow> raw_reply file_outcome \<times> disk" where
  "raw_answer env rng target len d =
     (let headers = raw_headers env target in
      if len = 0 then (Answer \<lparr>rr_status = 200, rr_headers = headers @ [(''content-length'', dec 0)], rr_body = []\<rparr>, d)
      else case (case rng of None \<Rightarrow> FullRange | Some r \<Rightarrow> resolve_byte_range r len) of
        PartialRange a b \<Rightarrow>
          attempt_io env (fs_read target d) (\<lambda>bytes d1.
            (Answer \<lparr>rr_status = 206,
               rr_headers = headers @ [(''content-range'', content_range a b len), (''content-length'', dec (b - a + 1))],
               rr_body = take (b - a + 1) (drop a bytes)\<rparr>, d1))
      | NotSatisfiable \<Rightarrow>
          (Answer \<lparr>rr_status = 416, rr_headers = headers @ [(''content-range'', lit ''bytes */'' @ dec len)], rr_body = []\<rparr>, d)
      | FullRange \<Rightarrow>
          attempt_io env (fs_read target d) (\<lambda>bytes d1.
            (Answer \<lparr>rr_status = 200, rr_headers = headers @ [(''content-length'', dec len)], rr_body = bytes\<rparr>, d1)))"

definition workspace_raw ::
  "'a file_env_scheme \<Rightarrow> ('f, 'ps) manager \<Rightarrow> string \<Rightarrow> rstring \<Rightarrow> rstring option \<Rightarrow> disk \<Rightarrow> raw_reply file_outcome \<times> disk" where
  "workspace_raw env m pane path rng d =
     (if ssh_session m pane then (Remote, d) else readable_file env m pane path d (raw_answer env rng))"

section \<open>The workspace handlers that change files\<close>

text \<open>The second half of \<open>workspace/handlers.rs\<close>.\<close>

definition workspace_create_entry ::
  "'a file_env_scheme \<Rightarrow> ('f, 'ps) manager \<Rightarrow> string \<Rightarrow> rstring \<Rightarrow> rstring \<Rightarrow> rstring \<Rightarrow> disk \<Rightarrow> rstring file_outcome \<times> disk" where
  "workspace_create_entry env m pane parent raw_kind raw_name d =
     (let t = dk_tree d; kind = fe_lower env raw_kind in
      if ssh_session m pane then (Remote, d)
      else attempt (validate_entry_name raw_name) d (\<lambda>name.
        if kind \<noteq> lit ''file'' \<and> kind \<noteq> lit ''dir'' then (Refused 400 ''invalid kind'', d)
        else attempt (pane_root t m pane) d (\<lambda>root.
        attempt (normalize_join root parent) d (\<lambda>parent_dir.
          if \<not> path_is_dir t parent_dir then (Refused 400 ''parent not a directory'', d)
          else attempt (path_must_be_under t root parent_dir) d (\<lambda>_.
            let dest = parent_dir @ [name] in
            if path_exists t dest then (Refused 409 ''already exists'', d)
            else attempt_io env ((if kind = lit ''dir'' then fs_create_dir dest else fs_create_new dest) d) (\<lambda>_ d1.
              (case rel_from_root root dest of None \<Rightarrow> Refused 400 ''bad path'' | Some rel \<Rightarrow> Answer rel, d1)))))))"

definition workspace_put_file ::
  "'a file_env_scheme \<Rightarrow> ('f, 'ps) manager \<Rightarrow> string \<Rightarrow> rstring \<Rightarrow> rstring \<Rightarrow> disk \<Rightarrow> unit file_outcome \<times> disk" where
  "workspace_put_file env m pane path content d =
     (let t = dk_tree d in
      if ssh_session m pane then (Remote, d)
      else if MAX_DOWNLOAD < byte_len content then (Refused 400 ''content too large'', d)
      else attempt (pane_root t m pane) d (\<lambda>root.
        attempt (normalize_join root path) d (\<lambda>target.
          if path_exists t target \<and> path_is_dir t target then (Refused 400 ''is directory'', d)
          else attempt (parent_dir_must_be_in_workspace t root target) d (\<lambda>_.
            attempt_io env (fs_write target (str_bytes content) d) (\<lambda>_ d1. (Answer (), d1))))))"

text \<open>On Linux the directory of the entry is opened; \<open>spawn\<close> says whether the file manager starts.\<close>

definition reveal_command :: "fpath \<Rightarrow> string \<times> fpath" where
  "reveal_command p = (''xdg-open'', if p = [] then p else butlast p)"

definition workspace_reveal ::
  "(string \<times> fpath \<Rightarrow> string option) \<Rightarrow> ('f, 'ps) manager \<Rightarrow> string \<Rightarrow> rstring \<Rightarrow> file_tree \<Rightarrow> unit file_outcome" where
  "workspace_reveal spawn m pane path t =
     (if ssh_session m pane then Refused 400 ''reveal not supported for SSH sessions''
      else fst (attempt (pane_root t m pane) () (\<lambda>root.
        attempt (normalize_join root path) () (\<lambda>target.
          if \<not> path_exists t target then (Refused 404 ''not found'', ())
          else attempt (path_must_be_under t root target) () (\<lambda>_.
            (case spawn (reveal_command target) of Some e \<Rightarrow> Refused 500 e | None \<Rightarrow> Answer (), ()))))))"

definition workspace_delete ::
  "'a file_env_scheme \<Rightarrow> ('f, 'ps) manager \<Rightarrow> string \<Rightarrow> rstring \<Rightarrow> disk \<Rightarrow> unit file_outcome \<times> disk" where
  "workspace_delete env m pane path d =
     (let t = dk_tree d in
      if ssh_session m pane then (Remote, d)
      else attempt (pane_root t m pane) d (\<lambda>root.
        attempt (normalize_join root path) d (\<lambda>target.
          if \<not> path_exists t target then (Refused 404 ''not found'', d)
          else attempt (path_must_be_under t root target) d (\<lambda>_.
            (case (canonicalize t root, canonicalize t target) of
               (Inl _, _) \<Rightarrow> (Refused 404 ''cwd'', d)
             | (Inr _, Inl _) \<Rightarrow> (Refused 404 ''not found'', d)
             | (Inr root_canon, Inr cand_canon) \<Rightarrow>
                 if cand_canon = root_canon then (Refused 400 ''cannot delete workspace root'', d)
                 else if path_is_file t target then attempt_io env (fs_remove_file target d) (\<lambda>_ d1. (Answer (), d1))
                 else if path_is_dir t target then attempt_io env (fs_remove_dir_all target d) (\<lambda>_ d1. (Answer (), d1))
                 else (Refused 400 ''not a file or directory'', d))))))"

definition rel_or_empty :: "fpath \<Rightarrow> fpath \<Rightarrow> rstring" where
  "rel_or_empty root p = (case rel_from_root root p of Some r \<Rightarrow> r | None \<Rightarrow> [])"

definition workspace_rename ::
  "'a file_env_scheme \<Rightarrow> ('f, 'ps) manager \<Rightarrow> string \<Rightarrow> rstring \<Rightarrow> rstring \<Rightarrow> disk \<Rightarrow> rstring file_outcome \<times> disk" where
  "workspace_rename env m pane path raw_name d =
     (let t = dk_tree d in
      if ssh_session m pane then (Remote, d)
      else attempt (pane_root t m pane) d (\<lambda>root.
        attempt (normalize_join root path) d (\<lambda>target.
          if \<not> path_exists t target then (Refused 404 ''not found'', d)
          else attempt (path_must_be_under t root target) d (\<lambda>_.
            attempt (validate_entry_name raw_name) d (\<lambda>name.
              if target = [] then (Refused 400 ''invalid path'', d)
              else
                let dest = butlast target @ [name] in
                if path_exists t dest then (Refused 409 ''already exists'', d)
                else attempt_io env (fs_rename target dest d) (\<lambda>_ d1. (Answer (rel_or_empty root dest), d1)))))))"

definition canonical_or_self :: "file_tree \<Rightarrow> fpath \<Rightarrow> fpath" where
  "canonical_or_self t p = (case canonicalize t p of Inr q \<Rightarrow> q | Inl _ \<Rightarrow> p)"

definition workspace_move ::
  "'a file_env_scheme \<Rightarrow> ('f, 'ps) manager \<Rightarrow> string \<Rightarrow> rstring \<Rightarrow> rstring \<Rightarrow> disk \<Rightarrow> rstring file_outcome \<times> disk" where
  "workspace_move env m pane path dest_text d =
     (let t = dk_tree d in
      if ssh_session m pane then (Remote, d)
      else attempt (pane_root t m pane) d (\<lambda>root.
        attempt (normalize_join root path) d (\<lambda>source.
          if \<not> path_exists t source then (Refused 404 ''source not found'', d)
          else attempt (path_must_be_under t root source) d (\<lambda>_.
            attempt (normalize_join root dest_text) d (\<lambda>dest_dir.
              if \<not> path_is_dir t dest_dir then (Refused 400 ''dest is not a directory'', d)
              else attempt (path_must_be_under t root dest_dir) d (\<lambda>_.
                (case last_name source of
                   None \<Rightarrow> (Refused 400 ''invalid source path'', d)
                 | Some name \<Rightarrow>
                     let dest = dest_dir @ [name] in
                     if path_exists t dest then (Refused 409 ''already exists in destination'', d)
                     else if path_is_dir t source \<and> prefix (canonical_or_self t source) (canonical_or_self t dest_dir)
                     then (Refused 400 ''cannot move into itself'', d)
                     else attempt_io env (fs_rename source dest d) (\<lambda>_ d1. (Answer (rel_or_empty root dest), d1)))))))))"

definition workspace_cwd :: "('f, 'ps) manager \<Rightarrow> string \<Rightarrow> rstring file_outcome" where
  "workspace_cwd m pane =
     (case host_of m pane of
        None \<Rightarrow> Refused 404 ''unknown pane''
      | Some h \<Rightarrow> (case hs_cwd h of None \<Rightarrow> Refused 409 ''cwd_unavailable_for_backend'' | Some cwd \<Rightarrow> Answer cwd))"

text \<open>The requests that change files in the workspace, and their service.\<close>

datatype file_request =
    CreateEntry rstring rstring rstring
  | PutFile rstring rstring
  | DeleteEntry rstring
  | RenameEntry rstring rstring
  | MoveEntry rstring rstring

definition drop_answer :: "'r file_outcome \<times> disk \<Rightarrow> unit file_outcome \<times> disk" where
  "drop_answer r = (map_file_outcome (\<lambda>_. ()) (fst r), snd r)"

fun serve_file :: "'a file_env_scheme \<Rightarrow> ('f, 'ps) manager \<Rightarrow> string \<Rightarrow> file_request \<Rightarrow> disk \<Rightarrow> unit file_outcome \<times> disk" where
  "serve_file env m pane (CreateEntry parent kind name) d = drop_answer (workspace_create_entry env m pane parent kind name d)"
| "serve_file env m pane (PutFile path content) d = workspace_put_file env m pane path content d"
| "serve_file env m pane (DeleteEntry path) d = workspace_delete env m pane path d"
| "serve_file env m pane (RenameEntry path name) d = drop_answer (workspace_rename env m pane path name d)"
| "serve_file env m pane (MoveEntry path dest) d = drop_answer (workspace_move env m pane path dest d)"

end
