(* ===== verification/Uploads.thy ===== *)
theory Uploads
  imports WorkspaceFiles
begin

section \<open>Uploads\<close>

text \<open>
  \<open>workspace/upload.rs\<close>. A form is the list of what \<open>next_field\<close> yields; a field has the pieces its stream yields. A
  refusal with status 0 stands for a panic of the handler, which sends no answer.
\<close>

record upload_limits =
  ul_dir :: rstring
  ul_file_cap_mb :: nat
  ul_cap_mb :: nat
  ul_cap_count :: nat

record form_field =
  ff_name :: "string option"
  ff_file :: "rstring option"
  ff_text :: "string + rstring"
  ff_chunks :: "(string + u8 list) list"

type_synonym form = "(string + form_field) list"

definition UPLOAD_MARKER :: rstring where "UPLOAD_MARKER = lit ''.dinotty-uploads''"

definition and_then :: "('e + 'v) \<times> 's \<Rightarrow> ('v \<Rightarrow> 's \<Rightarrow> ('e + 'w) \<times> 's) \<Rightarrow> ('e + 'w) \<times> 's" where
  "and_then r k = (case r of (Inl e, d) \<Rightarrow> (Inl e, d) | (Inr v, d) \<Rightarrow> k v d)"

definition map_err :: "('e \<Rightarrow> 'e') \<Rightarrow> ('e + 'v) \<times> 's \<Rightarrow> ('e' + 'v) \<times> 's" where
  "map_err f r = (case r of (Inl e, d) \<Rightarrow> (Inl (f e), d) | (Inr v, d) \<Rightarrow> (Inr v, d))"

definition upload_io_err :: "'a file_env_scheme \<Rightarrow> err_no \<Rightarrow> nat \<times> string" where
  "upload_io_err env e =
     (if e \<in> {28, 39, 112} then (507, ''Not enough disk space to store the upload.'') else (500, fe_os env e))"

definition io_500 :: "'a file_env_scheme \<Rightarrow> err_no \<Rightarrow> nat \<times> string" where
  "io_500 env e = (500, fe_os env e)"

text \<open>Text as its UTF-8 bytes.\<close>

definition utf8_text :: "rstring \<Rightarrow> string" where
  "utf8_text s = map (\<lambda>b. char_of (unat b)) (str_bytes s)"

definition upload_cap_label_bytes :: "nat \<Rightarrow> rstring" where
  "upload_cap_label_bytes cap =
     (let mb = 1024 * 1024; gb = 1024 * mb in
      if gb \<le> cap then dec (cap div gb) @ lit '' GB''
      else if mb \<le> cap then dec (cap div mb) @ lit '' MB''
      else dec (cap div 1024) @ lit '' KB'')"

subsection \<open>The upload directory\<close>

definition lstat :: "file_tree \<Rightarrow> fpath \<Rightarrow> fnode option" where
  "lstat t p = (case entry_loc t p of Inr q \<Rightarrow> node_at t q | Inl _ \<Rightarrow> None)"

definition upload_marker_present :: "file_tree \<Rightarrow> fpath \<Rightarrow> bool" where
  "upload_marker_present t base \<longleftrightarrow> (case lstat t (base @ [UPLOAD_MARKER]) of Some (FileNode _ _) \<Rightarrow> True | _ \<Rightarrow> False)"

definition uploads_dir_has_any_entry :: "'a file_env_scheme \<Rightarrow> fpath \<Rightarrow> disk \<Rightarrow> bool tried \<times> disk" where
  "uploads_dir_has_any_entry env base d = and_then (map_err (io_500 env) (fs_read_dir base d)) (\<lambda>names d1. (Inr (names \<noteq> []), d1))"

definition uploads_dir_is_empty :: "'a file_env_scheme \<Rightarrow> fpath \<Rightarrow> disk \<Rightarrow> bool tried \<times> disk" where
  "uploads_dir_is_empty env base d =
     and_then (map_err (io_500 env) (fs_read_dir base d)) (\<lambda>names d1. (Inr (list_all (\<lambda>n. n = UPLOAD_MARKER) names), d1))"

definition write_upload_marker :: "'a file_env_scheme \<Rightarrow> fpath \<Rightarrow> disk \<Rightarrow> unit tried \<times> disk" where
  "write_upload_marker env base d =
     and_then (path_must_be_under (dk_tree d) base base, d) (\<lambda>_ d0.
       case fs_create_new (base @ [UPLOAD_MARKER]) d0 of
         (Inr _, d1) \<Rightarrow> (Inr (), d1)
       | (Inl e, d1) \<Rightarrow>
           if e = EEXIST \<and> upload_marker_present (dk_tree d1) base then (Inr (), d1)
           else if e = EEXIST then (Inl (409, ''uploads marker is not a regular file''), d1)
           else (Inl (upload_io_err env e), d1))"

record upload_status =
  ud_managed :: bool
  ud_foreign :: bool
  ud_empty :: bool

definition upload_dir_status :: "'a file_env_scheme \<Rightarrow> fpath \<Rightarrow> disk \<Rightarrow> upload_status tried \<times> disk" where
  "upload_dir_status env base d =
     (let managed = upload_marker_present (dk_tree d) base in
      and_then (uploads_dir_is_empty env base d) (\<lambda>empty d1.
        (Inr \<lparr>ud_managed = managed, ud_foreign = (\<not> managed \<and> \<not> empty), ud_empty = empty\<rparr>, d1)))"

definition dir_error :: "'a file_env_scheme \<Rightarrow> err_no \<Rightarrow> nat \<times> string" where
  "dir_error env e = (if e \<in> {28, 39, 112} then upload_io_err env e else (400, ''upload dir is invalid or unavailable''))"

text \<open>The directory and whether it is managed.\<close>

definition mark_and_check :: "'a file_env_scheme \<Rightarrow> bool \<Rightarrow> fpath \<Rightarrow> disk \<Rightarrow> (fpath \<times> bool) tried \<times> disk" where
  "mark_and_check env existed base d =
     and_then (path_must_be_under (dk_tree d) base base, d) (\<lambda>_ d1.
     and_then (if existed then uploads_dir_has_any_entry env base d1 else (Inr False, d1)) (\<lambda>had_entries d2.
     and_then (if \<not> upload_marker_present (dk_tree d2) base \<and> (\<not> existed \<or> \<not> had_entries)
               then write_upload_marker env base d2 else (Inr (), d2)) (\<lambda>_ d3.
     and_then (upload_dir_status env base d3) (\<lambda>st d4. (Inr (base, ud_managed st), d4)))))"

definition prepare_upload_base :: "'a file_env_scheme \<Rightarrow> upload_limits \<Rightarrow> disk \<Rightarrow> (fpath \<times> bool) tried \<times> disk" where
  "prepare_upload_base env s d =
     (let raw = trim (ul_dir s); base = resolve_user_path (user_env.truncate env) raw in
      if raw = [] then (Inl (400, ''upload dir is empty''), d)
      else if path_contains_parent_dir base then (Inl (400, ''upload dir must not contain ..''), d)
      else
        let existed = path_exists (dk_tree d) base in
        if existed \<and> \<not> path_is_dir (dk_tree d) base then (Inl (400, ''upload dir is not a directory''), d)
        else and_then (map_err (dir_error env) (fs_create_dir_all base d)) (\<lambda>_ d1.
          (case canonicalize (dk_tree d1) base of
             Inl _ \<Rightarrow> (Inl (400, ''upload dir is invalid or unavailable''), d1)
           | Inr c \<Rightarrow> mark_and_check env existed c d1)))"

subsection \<open>Names\<close>

definition is_ascii_control :: "rchar \<Rightarrow> bool" where
  "is_ascii_control c \<longleftrightarrow> c < 32 \<or> c = 127"

text \<open>A root, a leading \<open>.\<close> or a \<open>..\<close> among the components.\<close>

definition odd_component :: "rstring \<Rightarrow> bool" where
  "odd_component raw \<longleftrightarrow> is_absolute raw \<or> hd (split_on 47 raw) = [46] \<or> DOTDOT \<in> set (split_on 47 raw)"

definition sanitize_upload_basename :: "rstring \<Rightarrow> rstring tried" where
  "sanitize_upload_basename raw =
     (if raw = [] \<or> raw = [46] \<or> raw = DOTDOT \<or> raw = UPLOAD_MARKER then Inl (400, ''invalid filename'')
      else if 47 \<in> set raw \<or> 92 \<in> set raw \<or> list_ex is_ascii_control raw then Inl (400, ''invalid filename'')
      else if odd_component raw then Inl (400, ''invalid filename'')
      else Inr raw)"

definition ends_with :: "rstring \<Rightarrow> rstring \<Rightarrow> bool" where
  "ends_with s p \<longleftrightarrow> length p \<le> length s \<and> drop (length s - length p) s = p"

definition COMPOUND_EXTENSIONS :: "rstring list" where
  "COMPOUND_EXTENSIONS = map lit [''.tar.gz'', ''.tar.bz2'', ''.tar.xz'', ''.tar.zst'']"

definition numbered :: "rstring \<Rightarrow> nat \<Rightarrow> rstring \<Rightarrow> rstring" where
  "numbered stem n ext = stem @ lit '' ('' @ dec n @ lit '')'' @ ext"

text \<open>Stem and extension (with its dot) of a name; \<open>file\<close> when the path has no name.\<close>

definition name_parts :: "rstring \<Rightarrow> rstring \<times> rstring" where
  "name_parts base =
     (case last_name (path_parts base) of
        None \<Rightarrow> (lit ''file'', [])
      | Some n \<Rightarrow> (fst (split_ext n), case snd (split_ext n) of Some e \<Rightarrow> 46 # e | None \<Rightarrow> []))"

text \<open>The loop over the compound extensions ends at the first that fits, even if nothing is left before it.\<close>

fun compound_parts :: "rstring \<Rightarrow> rstring list \<Rightarrow> (rstring \<times> rstring) option" where
  "compound_parts base [] = None"
| "compound_parts base (c # cs) =
     (if ends_with (map to_ascii_lower base) c then
        let k = length base - length c in if 0 < k then Some (take k base, drop k base) else None
      else compound_parts base cs)"

definition suffixed_upload_name :: "rstring \<Rightarrow> nat \<Rightarrow> rstring" where
  "suffixed_upload_name base n =
     (let (stem, ext) = (case compound_parts base COMPOUND_EXTENSIONS of Some p \<Rightarrow> p | None \<Rightarrow> name_parts base) in
      numbered stem n ext)"

definition upload_name :: "rstring \<Rightarrow> nat \<Rightarrow> rstring" where
  "upload_name base n = (if n = 0 then base else suffixed_upload_name base n)"

function new_file_loop :: "'a file_env_scheme \<Rightarrow> fpath \<Rightarrow> rstring \<Rightarrow> nat \<Rightarrow> disk \<Rightarrow> fpath tried \<times> disk" where
  "new_file_loop env dir base n d =
     (let path = push_path dir (upload_name base n) in
      if path = [] then (Inl (400, ''invalid filename''), d)
      else case path_must_be_under (dk_tree d) dir (butlast path) of
        Inl e \<Rightarrow> (Inl e, d)
      | Inr _ \<Rightarrow>
          (case fs_create_new path d of
             (Inr _, d1) \<Rightarrow> (Inr path, d1)
           | (Inl e, d1) \<Rightarrow>
               if e \<noteq> EEXIST then (Inl (upload_io_err env e), d1)
               else if Suc n < u32_limit then new_file_loop env dir base (Suc n) d1
               else (Inl (409, ''too many filename collisions''), d1)))"
  by pat_completeness auto
termination by (relation "measure (\<lambda>(_, _, _, n, _). u32_limit - n)") auto

declare new_file_loop.simps [simp del]

definition create_new_upload_file :: "'a file_env_scheme \<Rightarrow> fpath \<Rightarrow> rstring \<Rightarrow> disk \<Rightarrow> fpath tried \<times> disk" where
  "create_new_upload_file env dir base d = new_file_loop env dir base 0 d"

text \<open>\<open>n += 1\<close> on \<open>u32\<close> panics at the limit (\<open>None\<close>).\<close>

function unique_loop :: "file_tree \<Rightarrow> fpath \<Rightarrow> rstring \<Rightarrow> rstring \<Rightarrow> nat \<Rightarrow> fpath option" where
  "unique_loop t dir stem ext n =
     (let cand = push_path dir (numbered stem n ext) in
      if \<not> path_exists t cand then Some cand
      else if Suc n < u32_limit then unique_loop t dir stem ext (Suc n)
      else None)"
  by pat_completeness auto
termination by (relation "measure (\<lambda>(_, _, _, _, n). u32_limit - n)") auto

declare unique_loop.simps [simp del]

definition unique_path :: "file_tree \<Rightarrow> fpath \<Rightarrow> rstring \<Rightarrow> fpath option" where
  "unique_path t dir base =
     (let dest = push_path dir base in
      if \<not> path_exists t dest then Some dest
      else unique_loop t dir (fst (name_parts base)) (snd (name_parts base)) 1)"

section \<open>Trimming, clearing and receiving uploads\<close>

text \<open>The rest of \<open>workspace/upload.rs\<close>: the loops over the upload directory and over a form, and the handlers.\<close>

record upload_file =
  uf_path :: fpath
  uf_name :: rstring
  uf_size :: nat
  uf_modified :: nat

definition upload_entry :: "file_tree \<Rightarrow> fpath \<Rightarrow> rstring \<Rightarrow> upload_file option" where
  "upload_entry t base name =
     (if name = UPLOAD_MARKER then None
      else case lstat t (base @ [name]) of
        Some (FileNode b mt) \<Rightarrow> Some \<lparr>uf_path = base @ [name], uf_name = name, uf_size = length b, uf_modified = mt\<rparr>
      | _ \<Rightarrow> None)"

definition collect_upload_files :: "'a file_env_scheme \<Rightarrow> fpath \<Rightarrow> disk \<Rightarrow> upload_file list tried \<times> disk" where
  "collect_upload_files env base d =
     and_then (map_err (io_500 env) (fs_read_dir base d)) (\<lambda>names d1.
       (Inr (all_some (map (upload_entry (dk_tree d1) base) names)), d1))"

text \<open>\<open>saturating_mul\<close> on \<open>u64\<close>.\<close>

definition u64_sat :: "nat \<Rightarrow> nat" where
  "u64_sat n = min n (u64_limit - 1)"

fun trim_loop :: "'a file_env_scheme \<Rightarrow> nat \<Rightarrow> nat \<Rightarrow> upload_file list \<Rightarrow> nat \<Rightarrow> nat \<Rightarrow> disk \<Rightarrow> unit tried \<times> disk" where
  "trim_loop env cap_bytes cap_count [] bytes count d = (Inr (), d)"
| "trim_loop env cap_bytes cap_count (f # fs) bytes count d =
     (if bytes \<le> cap_bytes \<and> count \<le> cap_count then (Inr (), d)
      else case fs_remove_file (uf_path f) d of
        (Inl e, d1) \<Rightarrow>
          if e = ENOENT then trim_loop env cap_bytes cap_count fs (bytes - uf_size f) (count - 1) d1 else (Inl (io_500 env e), d1)
      | (Inr _, d1) \<Rightarrow> trim_loop env cap_bytes cap_count fs (bytes - uf_size f) (count - 1) d1)"

definition trim_uploads_dir :: "'a file_env_scheme \<Rightarrow> fpath \<Rightarrow> fpath list \<Rightarrow> nat \<Rightarrow> nat \<Rightarrow> disk \<Rightarrow> unit tried \<times> disk" where
  "trim_uploads_dir env base keep cap_mb cap_count d =
     (if \<not> upload_marker_present (dk_tree d) base then (Inr (), d)
      else and_then (collect_upload_files env base d) (\<lambda>files d1.
        trim_loop env (u64_sat (u64_sat (cap_mb * 1024) * 1024)) cap_count
          (sort_key (\<lambda>f. (uf_modified f, uf_name f)) (filter (\<lambda>f. uf_path f \<notin> set keep) files))
          (sum_list (map uf_size files)) (length files) d1))"

fun clear_loop :: "'a file_env_scheme \<Rightarrow> upload_file list \<Rightarrow> nat \<Rightarrow> disk \<Rightarrow> nat tried \<times> disk" where
  "clear_loop env [] deleted d = (Inr deleted, d)"
| "clear_loop env (f # fs) deleted d =
     (case fs_remove_file (uf_path f) d of
        (Inr _, d1) \<Rightarrow> clear_loop env fs (Suc deleted) d1
      | (Inl e, d1) \<Rightarrow> if e = ENOENT then clear_loop env fs deleted d1 else (Inl (io_500 env e), d1))"

definition clear_uploads_dir :: "'a file_env_scheme \<Rightarrow> fpath \<Rightarrow> disk \<Rightarrow> nat tried \<times> disk" where
  "clear_uploads_dir env base d =
     (if \<not> upload_marker_present (dk_tree d) base then (Inl (409, ''uploads dir is not managed''), d)
      else and_then (collect_upload_files env base d) (\<lambda>files d1. clear_loop env files 0 d1))"

definition rollback_uploads :: "fpath list \<Rightarrow> fpath option \<Rightarrow> disk \<Rightarrow> disk" where
  "rollback_uploads written current d =
     fold (\<lambda>p d. snd (fs_remove_file p d)) (written @ (case current of Some p \<Rightarrow> [p] | None \<Rightarrow> [])) d"

subsection \<open>Receiving a file\<close>

text \<open>
  The loop both upload handlers run over the pieces of a file, with the final flush; a cap of 0 is none.
\<close>

datatype receive_error = TooBig | WriteFailed err_no | ReadFailed string

fun receive_chunks :: "nat \<Rightarrow> fpath \<Rightarrow> (string + u8 list) list \<Rightarrow> nat \<Rightarrow> disk \<Rightarrow> (receive_error + nat) \<times> disk" where
  "receive_chunks cap q [] written d = map_err WriteFailed (and_then (fs_append q [] d) (\<lambda>_ d1. (Inr written, d1)))"
| "receive_chunks cap q (Inl e # cs) written d = (Inl (ReadFailed e), d)"
| "receive_chunks cap q (Inr c # cs) written d =
     (if 0 < cap \<and> cap < written + length c then (Inl TooBig, d)
      else case fs_append q c d of
        (Inl e, d1) \<Rightarrow> (Inl (WriteFailed e), d1)
      | (Inr _, d1) \<Rightarrow> receive_chunks cap q cs (written + length c) d1)"

definition file_cap :: "upload_limits \<Rightarrow> nat" where
  "file_cap s = u64_sat (ul_file_cap_mb s * (1024 * 1024))"

subsection \<open>Uploads into the workspace\<close>

record upload_reply =
  ur_saved :: "rstring list"
  ur_errors :: "string list"

text \<open>\<open>Path::parent\<close> of the relative path, as text, unless it is empty.\<close>

definition parent_text :: "rstring \<Rightarrow> rstring option" where
  "parent_text rel =
     (let comps = path_parts rel;
          lead = (if is_absolute rel then [47] else if hd (split_on 47 rel) = [46] then [46, 47] else []);
          parent = lead @ slashed (butlast comps) in
      if comps = [] \<or> parent = [] then None else Some parent)"

definition upload_too_big :: "nat \<Rightarrow> rstring \<Rightarrow> nat \<times> string" where
  "upload_too_big cap rel =
     (413, ''file '' @ [CHR 0x27] @ utf8_text rel @ [CHR 0x27] @ '' exceeds upload size limit of '' @ utf8_text (upload_cap_label_bytes cap))"

definition receive_refusal :: "'a file_env_scheme \<Rightarrow> nat \<times> string \<Rightarrow> receive_error \<Rightarrow> nat \<times> string" where
  "receive_refusal env too_big e =
     (case e of TooBig \<Rightarrow> too_big | WriteFailed n \<Rightarrow> upload_io_err env n | ReadFailed m \<Rightarrow> (400, m))"

text \<open>The directory a file goes to; it is checked before it is made.\<close>

definition upload_dest :: "'a file_env_scheme \<Rightarrow> fpath \<Rightarrow> fpath \<Rightarrow> rstring \<Rightarrow> disk \<Rightarrow> fpath tried \<times> disk" where
  "upload_dest env root dest_dir rel d =
     (case parent_text rel of
        None \<Rightarrow> (Inr dest_dir, d)
      | Some parent \<Rightarrow>
          and_then (normalize_join dest_dir parent, d) (\<lambda>sub d.
          and_then (path_must_be_under (dk_tree d) root sub, d) (\<lambda>_ d.
          and_then (map_err (upload_io_err env) (fs_create_dir_all sub d)) (\<lambda>_ d. (Inr sub, d)))))"

definition store_file ::
  "'a file_env_scheme \<Rightarrow> nat \<Rightarrow> rstring \<Rightarrow> fpath \<Rightarrow> (string + u8 list) list \<Rightarrow> disk \<Rightarrow> fpath tried \<times> disk" where
  "store_file env cap rel dir chunks d =
     (case unique_path (dk_tree d) dir (case last_name (path_parts rel) of Some n \<Rightarrow> n | None \<Rightarrow> lit ''file'') of
        None \<Rightarrow> (Inl (0, ''panic''), d)
      | Some path \<Rightarrow>
          and_then (map_err (upload_io_err env) (fs_create path d)) (\<lambda>q d1.
            case receive_chunks cap q chunks 0 d1 of
              (Inr _, d2) \<Rightarrow> (Inr path, d2)
            | (Inl e, d2) \<Rightarrow> (Inl (receive_refusal env (upload_too_big cap rel) e), snd (fs_remove_file path d2))))"

fun upload_parts ::
  "'a file_env_scheme \<Rightarrow> nat \<Rightarrow> fpath \<Rightarrow> fpath \<Rightarrow> form \<Rightarrow> rstring option \<Rightarrow> rstring list \<Rightarrow> disk \<Rightarrow> upload_reply tried \<times> disk" where
  "upload_parts env cap root dest_dir [] pending saved d = (Inr \<lparr>ur_saved = saved, ur_errors = []\<rparr>, d)"
| "upload_parts env cap root dest_dir (Inl e # ps) pending saved d =
     (Inr \<lparr>ur_saved = saved, ur_errors = [''multipart read error: '' @ e]\<rparr>, d)"
| "upload_parts env cap root dest_dir (Inr p # ps) pending saved d =
     (if ff_name p = Some ''path'' then
        (case ff_text p of
           Inl e \<Rightarrow> (Inl (400, e), d)
         | Inr s \<Rightarrow> upload_parts env cap root dest_dir ps (if s \<noteq> [] \<and> s \<noteq> [46] then Some s else pending) saved d)
      else case ff_file p of
        None \<Rightarrow> upload_parts env cap root dest_dir ps pending saved d
      | Some filename \<Rightarrow>
          let rel = (case pending of Some r \<Rightarrow> r | None \<Rightarrow> filename) in
          if DOTDOT \<in> set (path_parts rel) then (Inl (400, ''path must not contain ..''), d)
          else and_then (upload_dest env root dest_dir rel d) (\<lambda>dir d1.
            and_then (store_file env cap rel dir (ff_chunks p) d1) (\<lambda>path d2.
              upload_parts env cap root dest_dir ps None
                (case rel_from_root root path of Some r \<Rightarrow> saved @ [r] | None \<Rightarrow> saved) d2)))"

definition workspace_upload ::
  "'a file_env_scheme \<Rightarrow> upload_limits \<Rightarrow> ('f, 'ps) manager \<Rightarrow> string \<Rightarrow> rstring \<Rightarrow> form \<Rightarrow> disk \<Rightarrow> upload_reply file_outcome \<times> disk" where
  "workspace_upload env s m pane dir parts d =
     (let t = dk_tree d in
      if ssh_session m pane then (Remote, d)
      else attempt (pane_root t m pane) d (\<lambda>root.
        attempt (normalize_join root dir) d (\<lambda>dest_dir.
          if \<not> path_is_dir t dest_dir then (Refused 400 ''target not a directory'', d)
          else attempt (path_must_be_under t root dest_dir) d (\<lambda>_.
            (case upload_parts env (file_cap s) root dest_dir parts None [] d of
               (r, d1) \<Rightarrow> attempt r d1 (\<lambda>reply. (Answer reply, d1)))))))"

subsection \<open>The upload directory's handlers\<close>

record upload_op_response =
  uo_saved :: "rstring list option"
  uo_deleted :: "nat option"
  uo_status :: upload_status

text \<open>Every refusal takes back what the request has written; otherwise the paths written, in order.\<close>

fun uploads_parts ::
  "'a file_env_scheme \<Rightarrow> nat \<Rightarrow> fpath \<Rightarrow> form \<Rightarrow> fpath list \<Rightarrow> disk \<Rightarrow> fpath list tried \<times> disk" where
  "uploads_parts env cap base [] written d = (Inr written, d)"
| "uploads_parts env cap base (Inl e # ps) written d = (Inl (400, e), rollback_uploads written None d)"
| "uploads_parts env cap base (Inr p # ps) written d =
     (if ff_name p = Some ''path'' then (Inl (400, ''path field is not supported''), rollback_uploads written None d)
      else case ff_file p of
        None \<Rightarrow> uploads_parts env cap base ps written d
      | Some raw \<Rightarrow>
          (case sanitize_upload_basename raw of
             Inl e \<Rightarrow> (Inl e, rollback_uploads written None d)
           | Inr filename \<Rightarrow>
               (case create_new_upload_file env base filename d of
                  (Inl e, d1) \<Rightarrow> (Inl e, rollback_uploads written None d1)
                | (Inr path, d1) \<Rightarrow>
                    (case receive_chunks cap path (ff_chunks p) 0 d1 of
                       (Inl e, d2) \<Rightarrow>
                         (Inl (receive_refusal env (413, ''upload file too large'') e), rollback_uploads written (Some path) d2)
                     | (Inr _, d2) \<Rightarrow> uploads_parts env cap base ps (written @ [path]) d2))))"

definition answer_status ::
  "'a file_env_scheme \<Rightarrow> rstring list option \<Rightarrow> nat option \<Rightarrow> fpath \<Rightarrow> disk \<Rightarrow> upload_op_response tried \<times> disk" where
  "answer_status env saved deleted base d =
     and_then (upload_dir_status env base d) (\<lambda>st d1. (Inr \<lparr>uo_saved = saved, uo_deleted = deleted, uo_status = st\<rparr>, d1))"

definition workspace_uploads :: "'a file_env_scheme \<Rightarrow> upload_limits \<Rightarrow> form \<Rightarrow> disk \<Rightarrow> upload_op_response tried \<times> disk" where
  "workspace_uploads env s parts d =
     and_then (prepare_upload_base env s d) (\<lambda>(base, managed) d1.
     and_then (uploads_parts env (file_cap s) base parts [] d1) (\<lambda>written d2.
     and_then (if managed then trim_uploads_dir env base written (ul_cap_mb s) (ul_cap_count s) d2 else (Inr (), d2)) (\<lambda>_ d3.
       answer_status env (Some (map path_text written)) None base d3)))"

definition uploads_status :: "'a file_env_scheme \<Rightarrow> upload_limits \<Rightarrow> disk \<Rightarrow> upload_op_response tried \<times> disk" where
  "uploads_status env s d = and_then (prepare_upload_base env s d) (\<lambda>(base, _) d1. answer_status env None None base d1)"

definition uploads_clear :: "'a file_env_scheme \<Rightarrow> upload_limits \<Rightarrow> disk \<Rightarrow> upload_op_response tried \<times> disk" where
  "uploads_clear env s d =
     and_then (prepare_upload_base env s d) (\<lambda>(base, _) d1.
     and_then (clear_uploads_dir env base d1) (\<lambda>deleted d2. answer_status env None (Some deleted) base d2))"

definition uploads_adopt :: "'a file_env_scheme \<Rightarrow> upload_limits \<Rightarrow> disk \<Rightarrow> upload_op_response tried \<times> disk" where
  "uploads_adopt env s d =
     and_then (prepare_upload_base env s d) (\<lambda>(base, _) d1.
     and_then (write_upload_marker env base d1) (\<lambda>_ d2. answer_status env None None base d2))"

end
