(* ===== verification/FileTreeProps.thy ===== *)
theory FileTreeProps
  imports FileTree
begin

section \<open>Facts about the file system\<close>

text \<open>
  Well-formed trees, resolution without links, and for each operation what it may change: only paths at or below the
  entry it works on.
\<close>

subsection \<open>Well-formed trees\<close>

definition good_name :: "rstring \<Rightarrow> bool" where
  "good_name c \<longleftrightarrow> c \<noteq> [] \<and> c \<noteq> [46] \<and> c \<noteq> DOTDOT \<and> 47 \<notin> set c"

definition tree_wf :: "file_tree \<Rightarrow> bool" where
  "tree_wf t \<longleftrightarrow> al_wf t \<and>
     list_all (\<lambda>(p, _). p \<noteq> [] \<and> good_name (last p) \<and> node_at t (butlast p) = Some DirNode) t"

fun is_link :: "fnode \<Rightarrow> bool" where
  "is_link (LinkNode s) = True"
| "is_link _ = False"

definition no_links :: "file_tree \<Rightarrow> fpath \<Rightarrow> bool" where
  "no_links t r \<longleftrightarrow> list_all (\<lambda>(p, v). prefix r p \<longrightarrow> \<not> is_link v) t"

definition solid :: "file_tree \<Rightarrow> fpath \<Rightarrow> bool" where
  "solid t p \<longleftrightarrow> (case node_at t p of None \<Rightarrow> False | Some v \<Rightarrow> \<not> is_link v)"

lemma node_at_Nil [simp]: "node_at t [] = Some DirNode"
  by (simp add: node_at_def)

lemma node_at_in: "node_at t p = Some v \<Longrightarrow> p \<noteq> [] \<Longrightarrow> (p, v) \<in> set t"
  by (simp add: node_at_def map_of_SomeD)

lemma wf_entry: "tree_wf t \<Longrightarrow> node_at t p = Some v \<Longrightarrow> p \<noteq> [] \<Longrightarrow> good_name (last p) \<and> node_at t (butlast p) = Some DirNode"
  using node_at_in [of t p v] by (auto simp: tree_wf_def list_all_iff)

lemma wf_snoc: "tree_wf t \<Longrightarrow> node_at t (p @ [c]) = Some v \<Longrightarrow> good_name c \<and> node_at t p = Some DirNode"
  using wf_entry [of t "p @ [c]" v] by simp

lemma wf_above: "tree_wf t \<Longrightarrow> node_at t p = Some v \<Longrightarrow> strict_prefix q p \<Longrightarrow> node_at t q = Some DirNode"
proof (induction p arbitrary: v rule: rev_induct)
  case (snoc c p)
  then have dir: "node_at t p = Some DirNode" using wf_snoc by blast
  show ?case
  proof (cases "q = p")
    case False
    then have "strict_prefix q p" using snoc.prems(3) by (auto simp: strict_prefix_def)
    then show ?thesis using snoc.IH snoc.prems(1) dir by blast
  qed (simp add: dir)
qed simp

lemma wf_names: "tree_wf t \<Longrightarrow> node_at t p = Some v \<Longrightarrow> c \<in> set p \<Longrightarrow> good_name c"
proof (induction p arbitrary: v rule: rev_induct)
  case (snoc x p)
  then show ?case using wf_snoc [of t p x v] by auto
qed simp

lemma no_links_node: "no_links t r \<Longrightarrow> node_at t p = Some v \<Longrightarrow> prefix r p \<Longrightarrow> \<not> is_link v"
  using node_at_in [of t p v] by (cases "p = []") (auto simp: no_links_def list_all_iff)

subsection \<open>Resolution\<close>

lemma walk_cases:
  "node_at t cur \<noteq> Some DirNode \<Longrightarrow> walk mk t n cur (c # cs) = Inl ENOTDIR"
  "node_at t cur = Some DirNode \<Longrightarrow> walk mk t n cur (DOTDOT # cs) = walk mk t n (butlast cur) cs"
  "node_at t cur = Some DirNode \<Longrightarrow> c \<noteq> DOTDOT \<Longrightarrow> node_at t (cur @ [c]) = None \<Longrightarrow>
     walk mk t n cur (c # cs) = (if mk \<and> cs = [] then Inr (cur @ [c]) else Inl ENOENT)"
  "node_at t cur = Some DirNode \<Longrightarrow> c \<noteq> DOTDOT \<Longrightarrow> node_at t (cur @ [c]) = Some (LinkNode s) \<Longrightarrow>
     walk mk t n cur (c # cs) =
       (case n of 0 \<Rightarrow> Inl ELOOP | Suc n' \<Rightarrow> walk mk t n' (if is_absolute s then [] else cur) (path_parts s @ cs))"
  "node_at t cur = Some DirNode \<Longrightarrow> c \<noteq> DOTDOT \<Longrightarrow> node_at t (cur @ [c]) = Some v \<Longrightarrow> \<not> is_link v \<Longrightarrow>
     walk mk t n cur (c # cs) = walk mk t n (cur @ [c]) cs"
  by (simp_all add: walk.simps(2)) (cases v; simp)

lemma solid_dir: "node_at t p = Some DirNode \<Longrightarrow> solid t p"
  by (simp add: solid_def)

lemma solid_butlast: "tree_wf t \<Longrightarrow> node_at t p = Some DirNode \<Longrightarrow> solid t (butlast p)"
  using wf_entry [of t p DirNode] by (cases "p = []") (simp_all add: solid_def)

lemma walk_solid_steps:
  assumes wf: "tree_wf t"
  shows "solid t cur \<Longrightarrow> walk False t n cur cs = Inr q \<Longrightarrow> solid t q"
proof (induction n arbitrary: cur cs rule: less_induct)
  case (less n)
  then show ?case
  proof (induction cs arbitrary: cur)
    case (Cons c cs)
    have dir: "node_at t cur = Some DirNode" using Cons.prems(3) walk_cases(1) by fastforce
    show ?case
    proof (cases "c = DOTDOT")
      case True
      then show ?thesis using Cons.IH [of "butlast cur"] Cons.prems solid_butlast [OF wf dir] by (simp add: walk_cases(2) dir)
    next
      case c: False
      show ?thesis
      proof (cases "node_at t (cur @ [c])")
        case None
        then show ?thesis using Cons.prems(3) by (simp add: walk_cases(3) dir c)
      next
        case (Some v)
        show ?thesis
        proof (cases "is_link v")
          case True
          then obtain s where v: "v = LinkNode s" by (cases v) auto
          obtain n' where n: "n = Suc n'" and w: "walk False t n' (if is_absolute s then [] else cur) (path_parts s @ cs) = Inr q"
            using Cons.prems(3) Some by (auto simp: walk_cases(4) dir c v split: nat.splits)
          have "solid t (if is_absolute s then [] else cur)" using dir by (simp add: solid_def)
          then show ?thesis using Cons.prems(1) n w by blast
        next
          case False
          then have "solid t (cur @ [c])" using Some by (simp add: solid_def)
          then show ?thesis using Cons.IH Cons.prems Some False by (simp add: walk_cases(5) dir c)
        qed
      qed
    qed
  qed simp
qed

lemma walk_solid: "tree_wf t \<Longrightarrow> solid t cur \<Longrightarrow> walk False t n cur cs = Inr q \<Longrightarrow> solid t q"
  by (rule walk_solid_steps)

lemma solid_Nil [simp]: "solid t []"
  by (simp add: solid_def)

lemma canonicalize_solid: "tree_wf t \<Longrightarrow> canonicalize t p = Inr q \<Longrightarrow> solid t q"
  unfolding canonicalize_def by (rule walk_solid) auto

lemma walk_from:
  "tree_wf t \<Longrightarrow> solid t r \<Longrightarrow> walk mk t n [] (r @ cs) = walk mk t n r cs"
proof (induction r arbitrary: cs rule: rev_induct)
  case (snoc c r)
  obtain v where v: "node_at t (r @ [c]) = Some v" "\<not> is_link v"
    using snoc.prems(2) by (auto simp: solid_def split: option.splits)
  have up: "good_name c" "node_at t r = Some DirNode" using wf_snoc [OF snoc.prems(1) v(1)] by auto
  have "walk mk t n [] ((r @ [c]) @ cs) = walk mk t n r (c # cs)"
    using snoc.IH [of "c # cs"] snoc.prems(1) up(2) by (simp add: solid_def)
  also have "\<dots> = walk mk t n (r @ [c]) cs"
    using up v by (cases v) (simp_all add: walk.simps(2) good_name_def)
  finally show ?case .
qed simp

lemma canonicalize_self: "tree_wf t \<Longrightarrow> solid t r \<Longrightarrow> canonicalize t r = Inr r"
  using walk_from [of t r False MAX_LINKS "[]"] by (simp add: canonicalize_def)

lemma walk_inside:
  "no_links t r \<Longrightarrow> prefix r cur \<Longrightarrow> DOTDOT \<notin> set cs \<Longrightarrow> walk mk t n cur cs = Inr q \<Longrightarrow> q = cur @ cs"
proof (induction cs arbitrary: cur)
  case (Cons c cs)
  from Cons.prems have dir: "node_at t cur = Some DirNode" and c: "c \<noteq> DOTDOT"
    by (auto simp: walk.simps(2) split: if_splits)
  have p: "prefix r (cur @ [c])" using Cons.prems(2) by (rule prefix_prefix) 
  show ?case
  proof (cases "node_at t (cur @ [c])")
    case None
    then show ?thesis using Cons.prems dir c by (auto simp: walk.simps(2) split: if_splits)
  next
    case (Some v)
    have "\<not> is_link v" by (rule no_links_node [OF Cons.prems(1) Some p])
    then have "walk mk t n (cur @ [c]) cs = Inr q"
      using Cons.prems(4) dir c Some by (cases v) (simp_all add: walk.simps(2))
    then show ?thesis using Cons.IH [OF Cons.prems(1) p] Cons.prems(3) by simp
  qed
qed simp

lemma walk_under:
  "tree_wf t \<Longrightarrow> no_links t r \<Longrightarrow> solid t r \<Longrightarrow> DOTDOT \<notin> set cs \<Longrightarrow> walk mk t n [] (r @ cs) = Inr q \<Longrightarrow> q = r @ cs"
  using walk_inside [of t r r cs mk n q] by (simp add: walk_from)

lemma canonicalize_under:
  "tree_wf t \<Longrightarrow> no_links t r \<Longrightarrow> solid t r \<Longrightarrow> DOTDOT \<notin> set cs \<Longrightarrow> canonicalize t (r @ cs) = Inr q \<Longrightarrow> q = r @ cs"
  unfolding canonicalize_def by (rule walk_under)

lemma stat_under:
  assumes "tree_wf t" and "no_links t r" and "solid t r" and "DOTDOT \<notin> set cs"
  shows "stat t (r @ cs) = node_at t (r @ cs)"
proof (cases "canonicalize t (r @ cs)")
  case (Inr q)
  then show ?thesis using canonicalize_under [OF assms Inr] by (simp add: stat_def)
next
  case (Inl e)
  have "node_at t (r @ cs) = None"
  proof (rule ccontr)
    assume "node_at t (r @ cs) \<noteq> None"
    then obtain v where v: "node_at t (r @ cs) = Some v" by auto
    have "\<not> is_link v" by (rule no_links_node [OF assms(2) v]) simp
    then have "solid t (r @ cs)" using v by (simp add: solid_def)
    then show False using canonicalize_self [OF assms(1)] Inl by simp
  qed
  then show ?thesis using Inl by (simp add: stat_def)
qed

lemma entry_under:
  assumes "tree_wf t" and "no_links t r" and "solid t r" and "DOTDOT \<notin> set cs" and "cs \<noteq> []"
    and "entry_loc t (r @ cs) = Inr q"
  shows "q = r @ cs"
proof -
  from assms(6) obtain x where x: "canonicalize t (butlast (r @ cs)) = Inr x" and q: "q = x @ [last (r @ cs)]"
    by (auto simp: entry_loc_def split: if_splits sum.splits)
  have "butlast (r @ cs) = r @ butlast cs" using assms(5) by (simp add: butlast_append)
  moreover have "DOTDOT \<notin> set (butlast cs)" using assms(4) by (meson in_set_butlastD)
  ultimately have "x = r @ butlast cs" using canonicalize_under [OF assms(1-3), of "butlast cs" x] x by simp
  then show ?thesis using q assms(5) by simp
qed

lemma entry_solid_dir:
  assumes "tree_wf t" and "node_at t r = Some DirNode" and "c \<noteq> DOTDOT"
  shows "entry_loc t (r @ [c]) = Inr (r @ [c])"
  using assms canonicalize_self [of t r] by (simp add: entry_loc_def solid_def)


subsection \<open>What operations change\<close>

text \<open>Outside the paths below \<open>r\<close> both trees are the same.\<close>

definition same_outside :: "fpath \<Rightarrow> file_tree \<Rightarrow> file_tree \<Rightarrow> bool" where
  "same_outside r t t' \<longleftrightarrow> (\<forall>p. \<not> strict_prefix r p \<longrightarrow> node_at t' p = node_at t p)"

lemma same_outside_refl [simp]: "same_outside r t t"
  by (simp add: same_outside_def)

lemma same_outside_trans: "same_outside r t t' \<Longrightarrow> same_outside r t' t'' \<Longrightarrow> same_outside r t t''"
  by (simp add: same_outside_def)

lemma same_outside_deeper: "same_outside q t t' \<Longrightarrow> prefix r q \<Longrightarrow> same_outside r t t'"
  unfolding same_outside_def using prefix_order.le_less_trans by blast

lemma node_at_put: "p \<noteq> [] \<Longrightarrow> node_at (al_put p v t) q = (if q = p then Some v else node_at t q)"
  by (simp add: node_at_def map_of_al_put)

lemma node_at_del: "p \<noteq> [] \<Longrightarrow> node_at (al_del p t) q = (if q = p then None else node_at t q)"
  by (simp add: node_at_def map_of_al_del)

lemma map_of_cut: "map_of (filter (\<lambda>(p, _). \<not> P p) t) q = (if P q then None else map_of t q)"
  by (induction t) auto

lemma node_at_cut: "p \<noteq> [] \<Longrightarrow> node_at (filter (\<lambda>(q, _). \<not> prefix p q) t) x = (if prefix p x then None else node_at t x)"
  by (simp add: node_at_def map_of_cut)

lemma moved_key: "(if prefix a k then b @ drop (length a) k else k) = q \<longleftrightarrow>
    (if prefix a k then prefix b q \<and> k = a @ drop (length b) q else k = q)"
  by (auto simp: prefix_def)

lemma map_of_move:
  assumes "parallel a b"
  shows "map_of (move_nodes a b t) q =
    (if prefix b q then map_of t (a @ drop (length b) q) else if prefix a q then None else map_of t q)"
proof (induction t)
  case (Cons kv t)
  obtain k v where kv: "kv = (k, v)" by fastforce
  have clash: "\<not> (prefix a x \<and> prefix b x)" for x
    using assms prefix_same_cases by (auto simp: parallel_def)
  show ?case
  proof (cases "prefix b k")
    case True
    then have "a @ drop (length b) q \<noteq> k" using clash [of k] by auto
    moreover have "move_nodes a b (kv # t) = move_nodes a b t" using True by (simp add: move_nodes_def kv)
    ultimately show ?thesis using Cons.IH True kv by auto
  next
    case False
    have "move_nodes a b (kv # t) = (if prefix a k then b @ drop (length a) k else k, v) # move_nodes a b t"
      using False by (simp add: move_nodes_def kv)
    then have m: "map_of (move_nodes a b (kv # t)) q =
      (if (if prefix a k then b @ drop (length a) k else k) = q then Some v else map_of (move_nodes a b t) q)" by simp
    show ?thesis
      unfolding m moved_key using Cons.IH clash [of q] False by (auto simp: kv)
  qed
qed (simp add: move_nodes_def)

lemma node_at_move:
  assumes "parallel a b"
  shows "node_at (move_nodes a b t) q =
    (if prefix b q then node_at t (a @ drop (length b) q) else if prefix a q then None else node_at t q)"
proof -
  have "a \<noteq> []" "b \<noteq> []" using assms by (auto simp: parallel_def)
  then show ?thesis by (simp add: node_at_def map_of_move [OF assms])
qed

text \<open>A rename that is no error moves between entries neither of which contains the other.\<close>

lemma rename_entry_moves:
  assumes wf: "tree_wf t" and r: "rename_entry a b t = Inr t'" and ne: "a \<noteq> b"
  shows "t' = move_nodes a b t \<and> parallel a b"
proof -
  obtain v where v: "node_at t a = Some v" and ab: "\<not> prefix a b"
    using r ne by (auto simp: rename_entry_def split: option.splits if_splits)
  have ba: "\<not> prefix b a"
  proof
    assume "prefix b a"
    then have sp: "strict_prefix b a" using ne by (simp add: strict_prefix_def)
    then have dir: "node_at t b = Some DirNode" using wf_above [OF wf v] by blast
    have "a \<noteq> []" using sp by auto
    then have "(a, v) \<in> set t" using node_at_in v by blast
    then have "list_ex (\<lambda>(p, _). strict_prefix b p) t" using sp by (force simp: list_ex_iff)
    then show False using r v ne ab dir by (auto simp: rename_entry_def split: if_splits)
  qed
  have "t' = move_nodes a b t"
    using r v ne ab by (auto simp: rename_entry_def split: option.splits if_splits fnode.splits)
  then show ?thesis using ab ba by (simp add: parallel_def)
qed

lemma rename_entry_outside:
  assumes "tree_wf t" and "rename_entry a b t = Inr t'" and "strict_prefix r a" and "strict_prefix r b"
  shows "same_outside r t t'"
proof (cases "a = b")
  case True
  then show ?thesis using assms(2) by (auto simp: rename_entry_def split: option.splits)
next
  case False
  note m = rename_entry_moves [OF assms(1,2) False]
  show ?thesis unfolding same_outside_def
    using node_at_move [of a b] m assms(3,4) by (metis prefix_order.less_le_trans)
qed

subsection \<open>Well-formed trees stay so\<close>

lemma tree_wfI:
  "al_wf t \<Longrightarrow> (\<And>p v. (p, v) \<in> set t \<Longrightarrow> p \<noteq> [] \<and> good_name (last p) \<and> node_at t (butlast p) = Some DirNode) \<Longrightarrow> tree_wf t"
  by (auto simp: tree_wf_def list_all_iff)

lemma tree_wfD:
  "tree_wf t \<Longrightarrow> (p, v) \<in> set t \<Longrightarrow> p \<noteq> [] \<and> good_name (last p) \<and> node_at t (butlast p) = Some DirNode"
  by (auto simp: tree_wf_def list_all_iff)

lemma tree_wf_al: "tree_wf t \<Longrightarrow> al_wf t"
  by (simp add: tree_wf_def)

lemma wf_put:
  assumes "tree_wf t" and "p \<noteq> []" and "good_name (last p)" and "node_at t (butlast p) = Some DirNode"
    and "\<And>w. node_at t p = Some w \<Longrightarrow> w \<noteq> DirNode \<or> v = DirNode"
  shows "tree_wf (al_put p v t)"
proof -
  have keep: "node_at (al_put p v t) q = Some DirNode" if "node_at t q = Some DirNode" for q
    using assms(5) that by (auto simp: node_at_put assms(2))
  have "set (al_put p v t) \<subseteq> insert (p, v) (set t)"
    by (induction p v t rule: al_put.induct) auto
  then show ?thesis
    using assms(2-4) keep tree_wfD [OF assms(1)] by (intro tree_wfI al_wf_put tree_wf_al [OF assms(1)]) blast
qed

lemma wf_del:
  assumes "tree_wf t" and "node_at t p \<noteq> Some DirNode" and "p \<noteq> []"
  shows "tree_wf (al_del p t)"
proof -
  have "node_at (al_del p t) q = Some DirNode" if "node_at t q = Some DirNode" for q
    using assms(2) that by (auto simp: node_at_del assms(3))
  moreover have "set (al_del p t) \<subseteq> set t" by (auto simp: al_del_def)
  ultimately show ?thesis
    using tree_wfD [OF assms(1)] by (intro tree_wfI al_wf_del tree_wf_al [OF assms(1)]) blast
qed

lemma wf_cut:
  assumes "tree_wf t" and "p \<noteq> []"
  shows "tree_wf (filter (\<lambda>(q, _). \<not> prefix p q) t)"
proof -
  have "node_at (filter (\<lambda>(q, _). \<not> prefix p q) t) (butlast q) = Some DirNode"
    if "node_at t (butlast q) = Some DirNode" "\<not> prefix p q" for q
  proof -
    have "\<not> prefix p (butlast q)" using that(2) prefixeq_butlast prefix_order.trans by blast
    then show ?thesis using that(1) by (simp add: node_at_cut assms(2))
  qed
  then show ?thesis using assms(1) by (auto simp: tree_wf_def list_all_iff al_wf_def distinct_map_filter)
qed

lemma wf_move:
  assumes wf: "tree_wf t" and par: "parallel a b" and b: "good_name (last b)" "node_at t (butlast b) = Some DirNode"
    and above: "\<not> prefix a (butlast b)"
  shows "tree_wf (move_nodes a b t)"
proof -
  have ne: "a \<noteq> []" "b \<noteq> []" using par by (auto simp: parallel_def)
  have sb: "\<not> prefix b (butlast b)"
    using ne(2) by (metis append_butlast_last_id not_Cons_self2 prefix_order.antisym prefixI self_append_conv)
  have "al_wf (move_nodes a b t)"
    unfolding al_wf_def move_nodes_def
  proof (simp add: distinct_map comp_def case_prod_unfold, intro conjI)
    have "distinct (map fst t)" using wf by (simp add: tree_wf_def al_wf_def)
    then show "distinct (filter (\<lambda>p. \<not> prefix b (fst p)) t)" by (simp add: distinct_map)
    show "inj_on (\<lambda>x. if prefix a (fst x) then b @ drop (length a) (fst x) else fst x) {x \<in> set t. \<not> prefix b (fst x)}"
    proof (rule inj_onI)
      fix x y
      assume x: "x \<in> {x \<in> set t. \<not> prefix b (fst x)}" and y: "y \<in> {x \<in> set t. \<not> prefix b (fst x)}"
        and e: "(if prefix a (fst x) then b @ drop (length a) (fst x) else fst x) =
          (if prefix a (fst y) then b @ drop (length a) (fst y) else fst y)"
      have "fst x = fst y" using e x y by (metis (mono_tags, lifting) append_eq_conv_conj mem_Collect_eq prefixI prefix_def same_append_eq)
      then show "x = y" using x y \<open>distinct (map fst t)\<close> by (auto simp: distinct_map inj_on_def)
    qed
  qed
  moreover have "q \<noteq> [] \<and> good_name (last q) \<and> node_at (move_nodes a b t) (butlast q) = Some DirNode"
    if "(q, v) \<in> set (move_nodes a b t)" for q v
  proof -
    obtain k where k: "(k, v) \<in> set t" "\<not> prefix b k" and q: "q = (if prefix a k then b @ drop (length a) k else k)"
      using \<open>(q, v) \<in> set (move_nodes a b t)\<close> by (auto simp: move_nodes_def)
    have kk: "k \<noteq> []" "good_name (last k)" "node_at t (butlast k) = Some DirNode"
      using wf k(1) by (auto simp: tree_wf_def list_all_iff)
    show ?thesis
    proof (cases "prefix a k")
      case False
      have "\<not> prefix a (butlast k)" "\<not> prefix b (butlast k)"
        using False k(2) prefixeq_butlast prefix_order.trans by blast+
      then show ?thesis using q False kk by (simp add: node_at_move [OF par])
    next
      case True
      then obtain ks where ks: "k = a @ ks" by (auto simp: prefix_def)
      show ?thesis
      proof (cases "ks = []")
        case True
        then show ?thesis using q ks ne b above sb by (simp add: node_at_move [OF par])
      next
        case False
        then show ?thesis using q ks ne kk by (simp add: node_at_move [OF par] butlast_append)
      qed
    qed
  qed
  ultimately show ?thesis by (auto simp: tree_wf_def list_all_iff)
qed


subsection \<open>Steps inside a directory\<close>

text \<open>
  A directory tree without links, a path that can be named below it, and a step that stays inside: the rest of the
  tree is untouched, and no link appears.
\<close>

definition workspace_at :: "file_tree \<Rightarrow> fpath \<Rightarrow> bool" where
  "workspace_at t r \<longleftrightarrow> tree_wf t \<and> no_links t r \<and> solid t r"

definition below :: "fpath \<Rightarrow> fpath \<Rightarrow> bool" where
  "below r p \<longleftrightarrow> strict_prefix r p \<and> list_all good_name (drop (length r) p)"

definition inside_step :: "fpath \<Rightarrow> file_tree \<Rightarrow> file_tree \<Rightarrow> bool" where
  "inside_step r t t' \<longleftrightarrow> workspace_at t' r \<and> same_outside r t t'"

lemma belowE:
  assumes "below r p"
  obtains cs c where "p = r @ cs @ [c]" "list_all good_name cs" "good_name c"
proof -
  have "\<exists>xs. p = r @ xs \<and> xs \<noteq> [] \<and> list_all good_name xs"
    using assms by (auto simp: below_def strict_prefix_def prefix_def)
  then obtain xs where p: "p = r @ xs" and ne: "xs \<noteq> []" and g: "list_all good_name xs" by blast
  from ne have x: "xs = butlast xs @ [last xs]" by simp
  obtain ys y where xs: "xs = ys @ [y]" using x by blast
  show thesis by (rule that [of ys y]) (use g p xs in simp_all)
qed

lemma good_no_dots: "list_all good_name cs \<Longrightarrow> DOTDOT \<notin> set cs"
  by (auto simp: list_all_iff good_name_def)

lemma inside_refl: "workspace_at t r \<Longrightarrow> inside_step r t t"
  by (simp add: inside_step_def)

lemma inside_trans: "inside_step r t t' \<Longrightarrow> inside_step r t' t'' \<Longrightarrow> inside_step r t t''"
  using same_outside_trans by (auto simp: inside_step_def)

lemma no_links_of_nodes:
  assumes "al_wf t" and "\<And>p v. node_at t p = Some v \<Longrightarrow> prefix r p \<Longrightarrow> \<not> is_link v" and "[] \<notin> fst ` set t"
  shows "no_links t r"
  unfolding no_links_def list_all_iff
proof (clarify, goal_cases)
  case (1 p v)
  have "map_of t p = Some v" using assms(1) 1(1) by (simp add: al_wf_def)
  moreover have "p \<noteq> []" using 1(1) assms(3) by force
  ultimately have "node_at t p = Some v" by (simp add: node_at_def)
  then show ?case using assms(2) 1 by blast
qed

lemma inside_stepI:
  assumes "tree_wf t'" and "same_outside r t t'" and "solid t r"
    and "\<And>p v. node_at t' p = Some v \<Longrightarrow> prefix r p \<Longrightarrow> \<not> is_link v"
  shows "inside_step r t t'"
proof -
  have "[] \<notin> fst ` set t'" using tree_wfD [OF assms(1)] by force
  then have "no_links t' r" using no_links_of_nodes [OF tree_wf_al [OF assms(1)]] assms(4) by blast
  moreover have "solid t' r" using assms(2,3) by (simp add: same_outside_def solid_def)
  ultimately show ?thesis using assms(1,2) by (simp add: inside_step_def workspace_at_def)
qed

lemma entry_below:
  assumes "workspace_at t r" and "below r p" and "entry_loc t p = Inr q"
  shows "q = p \<and> node_at t (butlast p) = Some DirNode \<and> p \<noteq> [] \<and> good_name (last p)"
proof -
  obtain cs c where p: "p = r @ cs @ [c]" and g: "list_all good_name cs" "good_name c" using belowE [OF assms(2)] .
  have d: "DOTDOT \<notin> set (cs @ [c])" using good_no_dots [of "cs @ [c]"] g by simp
  have wf: "tree_wf t" "no_links t r" "solid t r" using assms(1) by (simp_all add: workspace_at_def)
  have q: "q = p" using entry_under [OF wf d, of q] assms(3) p by simp
  moreover have "node_at t (butlast p) = Some DirNode"
    using assms(3) q p by (auto simp: entry_loc_def butlast_append split: if_splits sum.splits)
  ultimately show ?thesis using p g by simp
qed

lemma below_ne: "below r p \<Longrightarrow> p \<noteq> [] \<and> strict_prefix r p"
  by (auto simp: below_def)

lemma workspace_links: "workspace_at t r \<Longrightarrow> node_at t p = Some v \<Longrightarrow> prefix r p \<Longrightarrow> \<not> is_link v"
  using no_links_node by (auto simp: workspace_at_def)

lemma put_inside:
  assumes w: "workspace_at t r" and p: "below r p" and up: "node_at t (butlast p) = Some DirNode" "good_name (last p)"
    and v: "\<not> is_link v" and keep: "\<And>w. node_at t p = Some w \<Longrightarrow> w \<noteq> DirNode \<or> v = DirNode"
  shows "inside_step r t (al_put p v t)"
proof (rule inside_stepI)
  note ne = below_ne [OF p]
  show "tree_wf (al_put p v t)" using wf_put [of t p v] w up keep ne by (simp add: workspace_at_def)
  show "same_outside r t (al_put p v t)" using ne by (auto simp: same_outside_def node_at_put)
  show "solid t r" using w by (simp add: workspace_at_def)
  show "\<not> is_link w" if "node_at (al_put p v t) q = Some w" "prefix r q" for q w
    using that ne v workspace_links [OF w] by (auto simp: node_at_put split: if_splits)
qed

lemma del_inside:
  assumes w: "workspace_at t r" and p: "below r p" and "node_at t p \<noteq> Some DirNode"
  shows "inside_step r t (al_del p t)"
proof (rule inside_stepI)
  note ne = below_ne [OF p]
  show "tree_wf (al_del p t)" using wf_del [of t p] w assms(3) ne by (simp add: workspace_at_def)
  show "same_outside r t (al_del p t)" using ne by (auto simp: same_outside_def node_at_del)
  show "solid t r" using w by (simp add: workspace_at_def)
  show "\<not> is_link v" if "node_at (al_del p t) q = Some v" "prefix r q" for q v
    using that ne workspace_links [OF w] by (auto simp: node_at_del split: if_splits)
qed

lemma cut_inside:
  assumes w: "workspace_at t r" and p: "below r p"
  shows "inside_step r t (filter (\<lambda>(q, _). \<not> prefix p q) t)"
proof (rule inside_stepI)
  note ne = below_ne [OF p]
  show "tree_wf (filter (\<lambda>(q, _). \<not> prefix p q) t)" using wf_cut [of t p] w ne by (simp add: workspace_at_def)
  show "same_outside r t (filter (\<lambda>(q, _). \<not> prefix p q) t)"
    using ne prefix_order.less_le_trans by (auto simp: same_outside_def node_at_cut)
  show "solid t r" using w by (simp add: workspace_at_def)
  show "\<not> is_link v" if "node_at (filter (\<lambda>(q, _). \<not> prefix p q) t) x = Some v" "prefix r x" for x v
    using that ne workspace_links [OF w] by (auto simp: node_at_cut split: if_splits)
qed

lemma rename_inside:
  assumes w: "workspace_at t r" and a: "below r a" and b: "below r b" "good_name (last b)" "node_at t (butlast b) = Some DirNode"
    and r: "rename_entry a b t = Inr t'"
  shows "inside_step r t t'"
proof (cases "a = b")
  case True
  then have "t' = t" using r by (auto simp: rename_entry_def split: option.splits)
  then show ?thesis using inside_refl [OF w] by simp
next
  case False
  have wf: "tree_wf t" using w by (simp add: workspace_at_def)
  note m = rename_entry_moves [OF wf r False]
  note na = below_ne [OF a] and nb = below_ne [OF b(1)]
  have up: "\<not> prefix a (butlast b)" using m prefixeq_butlast prefix_order.trans by (auto simp: parallel_def)
  show ?thesis
  proof (rule inside_stepI)
    show "tree_wf t'" using wf_move [OF wf _ b(2,3) up] m by simp
    show "same_outside r t t'" using rename_entry_outside [OF wf r] na nb by simp
    show "solid t r" using w by (simp add: workspace_at_def)
    show "\<not> is_link v" if v: "node_at t' q = Some v" "prefix r q" for q v
    proof -
      have "prefix r (a @ drop (length b) q)" using na by (auto simp: strict_prefix_def intro: prefix_prefix)
      then show ?thesis
        using v m workspace_links [OF w] node_at_move [of a b t q] by (auto split: if_splits)
    qed
  qed
qed


subsection \<open>The operations stay inside\<close>

named_theorems inside_intros \<open>operations on a path below a directory change the tree only there\<close>

lemma faulty_inside:
  assumes "\<And>d'. dk_tree d' = dk_tree d \<Longrightarrow> inside_step r (dk_tree d) (dk_tree (snd (f d')))" and "workspace_at (dk_tree d) r"
  shows "inside_step r (dk_tree d) (dk_tree (snd (faulty f d)))"
  using assms inside_refl by (auto simp: faulty_def split: list.splits option.splits)

lemma rm_faulty_inside:
  assumes "\<And>d'. dk_tree d' = dk_tree d \<Longrightarrow> inside_step r (dk_tree d) (dk_tree (snd (f d')))" and "workspace_at (dk_tree d) r"
  shows "inside_step r (dk_tree d) (dk_tree (snd (rm_faulty f d)))"
  using assms inside_refl by (auto simp: rm_faulty_def split: list.splits option.splits)

lemma set_node_tree [simp]: "dk_tree (set_node p v d) = al_put p v (dk_tree d)"
  by (simp add: set_node_def)

lemma put_new_inside:
  assumes "workspace_at (dk_tree d) r" and "below r p" and "\<not> is_link v"
  shows "inside_step r (dk_tree d) (dk_tree (snd (put_new p v d)))"
proof (cases "entry_loc (dk_tree d) p")
  case (Inr q)
  note e = entry_below [OF assms(1,2) Inr]
  then show ?thesis
    using put_inside [OF assms(1,2), of v] assms(3) inside_refl [OF assms(1)] by (auto simp: put_new_def Inr)
qed (simp add: put_new_def inside_refl [OF assms(1)])

lemma put_new_inside_eq:
  "dk_tree d' = dk_tree d \<Longrightarrow> workspace_at (dk_tree d) r \<Longrightarrow> below r p \<Longrightarrow> \<not> is_link v \<Longrightarrow>
     inside_step r (dk_tree d) (dk_tree (snd (put_new p v d')))"
  using put_new_inside [of d' r p v] by simp

lemma faulty_cases:
  assumes "faulty f d = (x, d')"
  obtains (Fault) e where "x = Inl e" "dk_tree d' = dk_tree d" "dk_faults d \<noteq> []"
    | (Runs) fs where "f (d\<lparr>dk_faults := fs\<rparr>) = (x, d')"
proof (cases "dk_faults d")
  case Nil
  have e: "d\<lparr>dk_faults := []\<rparr> = d" using Nil by (cases d) simp
  show ?thesis by (rule Runs [of "[]"], unfold e) (use assms Nil in \<open>simp add: faulty_def\<close>)
next
  case (Cons y ys)
  show ?thesis
  proof (cases y)
    case None
    then show ?thesis using assms Cons Runs [of ys] by (simp add: faulty_def)
  next
    case (Some ek)
    obtain e k where ek: "ek = (e, k)" by fastforce
    show ?thesis by (rule Fault [of e]) (use assms Cons Some ek in \<open>auto simp: faulty_def\<close>)
  qed
qed

lemma fs_create_dir_inside [inside_intros]:
  "workspace_at (dk_tree d) r \<Longrightarrow> below r p \<Longrightarrow> inside_step r (dk_tree d) (dk_tree (snd (fs_create_dir p d)))"
  unfolding fs_create_dir_def by (rule faulty_inside [OF put_new_inside_eq]) auto

lemma fs_create_new_inside [inside_intros]:
  "workspace_at (dk_tree d) r \<Longrightarrow> below r p \<Longrightarrow> inside_step r (dk_tree d) (dk_tree (snd (fs_create_new p d)))"
  unfolding fs_create_new_def by (rule faulty_inside [OF put_new_inside_eq]) auto

lemma walk_below:
  assumes "workspace_at t r" and "below r p" and "walk mk t n [] p = Inr q"
  shows "q = p"
proof -
  obtain cs c where p: "p = r @ cs @ [c]" and g: "list_all good_name cs" "good_name c" using belowE [OF assms(2)] .
  have "DOTDOT \<notin> set (cs @ [c])" using good_no_dots [of "cs @ [c]"] g by simp
  then show ?thesis using walk_under [of t r "cs @ [c]"] assms(1,3) p by (simp add: workspace_at_def)
qed

lemma walk_parent:
  "no_links t r \<Longrightarrow> prefix r cur \<Longrightarrow> DOTDOT \<notin> set (cs @ [c]) \<Longrightarrow> walk mk t n cur (cs @ [c]) = Inr q \<Longrightarrow>
     node_at t (cur @ cs) = Some DirNode"
proof (induction cs arbitrary: cur)
  case Nil
  then show ?case by (auto simp: walk.simps(2) split: if_splits)
next
  case (Cons x cs)
  from Cons.prems(4) have dir: "node_at t cur = Some DirNode" by (auto simp: walk.simps(2) split: if_splits)
  have x: "x \<noteq> DOTDOT" using Cons.prems(3) by auto
  obtain v where v: "node_at t (cur @ [x]) = Some v"
    using Cons.prems(4) dir x by (cases "node_at t (cur @ [x])") (auto simp: walk_cases(3))
  have p: "prefix r (cur @ [x])" using Cons.prems(2) by (rule prefix_prefix)
  have "\<not> is_link v" by (rule no_links_node [OF Cons.prems(1) v p])
  then have "walk mk t n (cur @ [x]) (cs @ [c]) = Inr q" using Cons.prems(4) dir x v by (simp add: walk_cases(5))
  then show ?case using Cons.IH [of "cur @ [x]"] Cons.prems(1,3) p by simp
qed

lemma walk_below_parent:
  assumes "workspace_at t r" and "below r p" and "walk mk t n [] p = Inr q"
  shows "node_at t (butlast p) = Some DirNode \<and> good_name (last p)"
proof -
  obtain cs c where p: "p = r @ cs @ [c]" and g: "list_all good_name cs" "good_name c" using belowE [OF assms(2)] .
  have d: "DOTDOT \<notin> set (cs @ [c])" using good_no_dots [of "cs @ [c]"] g by simp
  have w: "tree_wf t" "no_links t r" "solid t r" using assms(1) by (simp_all add: workspace_at_def)
  have "walk mk t n r (cs @ [c]) = Inr q" using assms(3) walk_from [OF w(1,3)] p by simp
  then have "node_at t (r @ cs) = Some DirNode" using walk_parent [OF w(2) _ d] by simp
  then show ?thesis using p g by (simp add: butlast_append)
qed

lemma fs_create_cases:
  assumes "fs_create p d = (r, d')"
  obtains (Failed) e where "r = Inl e" "dk_tree d' = dk_tree d"
    | (Opened) q where "r = Inr q" "walk True (dk_tree d) MAX_LINKS [] p = Inr q" "node_at (dk_tree d) q \<noteq> Some DirNode"
        "dk_tree d' = al_put q (FileNode [] (dk_clock d)) (dk_tree d)"
proof -
  let ?f = "\<lambda>d. case walk True (dk_tree d) MAX_LINKS [] p of
      Inl e \<Rightarrow> (Inl e, d)
    | Inr q \<Rightarrow> if node_at (dk_tree d) q = Some DirNode then (Inl EISDIR, d) else (Inr q, set_node q (FileNode [] (dk_clock d)) d)"
  have "faulty ?f d = (r, d')" using assms by (simp add: fs_create_def)
  then show thesis
  proof (cases rule: faulty_cases)
    case (Fault e)
    show ?thesis by (rule that(1) [of e]) (use Fault in simp_all)
  next
    case (Runs fs)
    show ?thesis
    proof (cases "walk True (dk_tree d) MAX_LINKS [] p")
      case (Inl e)
      show ?thesis by (rule that(1) [of e]) (use Runs Inl in auto)
    next
      case (Inr q)
      show ?thesis
      proof (cases "node_at (dk_tree d) q = Some DirNode")
        case True
        show ?thesis by (rule that(1) [of EISDIR]) (use Runs Inr True in auto)
      next
        case False
        show ?thesis by (rule that(2) [of q]) (use Runs Inr False in auto)
      qed
    qed
  qed
qed

lemma fs_create_inside [inside_intros]:
  assumes w: "workspace_at (dk_tree d) r" and p: "below r p"
  shows "inside_step r (dk_tree d) (dk_tree (snd (fs_create p d)))"
proof -
  obtain x d' where e: "fs_create p d = (x, d')" by fastforce
  from e show ?thesis
  proof (cases rule: fs_create_cases)
    case (Opened q)
    then have q: "q = p" using walk_below [OF w p] by simp
    show ?thesis
      using put_inside [OF w p, of "FileNode [] (dk_clock d)"] walk_below_parent [OF w p Opened(2)] Opened(3,4) e q by auto
  qed (simp add: e inside_refl [OF w])
qed

lemma fs_create_at: "workspace_at (dk_tree d) r \<Longrightarrow> below r p \<Longrightarrow> fs_create p d = (Inr q, d') \<Longrightarrow> q = p"
  by (erule fs_create_cases) (use walk_below in auto)

lemma append_inside [inside_intros]:
  assumes "workspace_at (dk_tree d) r" and "below r p"
  shows "inside_step r (dk_tree d) (dk_tree (append_bytes p bs d))"
proof (cases "\<exists>b m. node_at (dk_tree d) p = Some (FileNode b m)")
  case True
  then obtain b m where n: "node_at (dk_tree d) p = Some (FileNode b m)" by blast
  have "good_name (last p) \<and> node_at (dk_tree d) (butlast p) = Some DirNode"
    using wf_entry [of "dk_tree d" p] n assms below_ne by (simp add: workspace_at_def)
  then show ?thesis using put_inside [OF assms, of "FileNode (b @ bs) (dk_clock d)"] n by (simp add: append_bytes_def)
next
  case False
  then have "append_bytes p bs d = d" by (auto simp: append_bytes_def split: option.splits fnode.splits)
  then show ?thesis by (simp add: inside_refl [OF assms(1)])
qed

lemma append_faults [simp]: "dk_tree (append_bytes p bs (d\<lparr>dk_faults := xs\<rparr>)) = dk_tree (append_bytes p bs d)"
  by (auto simp: append_bytes_def set_node_def split: option.splits fnode.splits)

lemma fs_append_inside [inside_intros]:
  "workspace_at (dk_tree d) r \<Longrightarrow> below r p \<Longrightarrow> inside_step r (dk_tree d) (dk_tree (snd (fs_append p bs d)))"
  using append_inside by (auto simp: fs_append_def split: list.splits option.splits)

lemma fs_write_inside [inside_intros]:
  assumes "workspace_at (dk_tree d) r" and "below r p"
  shows "inside_step r (dk_tree d) (dk_tree (snd (fs_write p bs d)))"
proof -
  obtain x d' where c: "fs_create p d = (x, d')" by fastforce
  have s: "inside_step r (dk_tree d) (dk_tree d')" using fs_create_inside [OF assms] c by simp
  show ?thesis
  proof (cases x)
    case (Inr q)
    then have "q = p" using fs_create_at [OF assms] c by simp
    then show ?thesis
      using inside_trans [OF s] fs_append_inside [of d' r p bs] s assms(2) c Inr by (simp add: fs_write_def inside_step_def)
  qed (simp add: fs_write_def c s)
qed

lemma fs_remove_file_inside [inside_intros]:
  assumes "workspace_at (dk_tree d) r" and "below r p"
  shows "inside_step r (dk_tree d) (dk_tree (snd (fs_remove_file p d)))"
  unfolding fs_remove_file_def
  by (rule rm_faulty_inside [OF _ assms(1)])
    (use entry_below [OF assms] del_inside [OF assms] inside_refl [OF assms(1)] in
      \<open>auto split: sum.splits option.splits fnode.splits\<close>)

lemma fs_remove_dir_all_inside [inside_intros]:
  assumes "workspace_at (dk_tree d) r" and "below r p"
  shows "inside_step r (dk_tree d) (dk_tree (snd (fs_remove_dir_all p d)))"
  unfolding fs_remove_dir_all_def
  by (rule rm_faulty_inside [OF _ assms(1)])
    (use entry_below [OF assms] cut_inside [OF assms] inside_refl [OF assms(1)] in
      \<open>auto simp: cut_tree_def split: sum.splits option.splits fnode.splits\<close>)

lemma fs_rename_inside [inside_intros]:
  assumes "workspace_at (dk_tree d) r" and "below r p" and "below r p'"
  shows "inside_step r (dk_tree d) (dk_tree (snd (fs_rename p p' d)))"
  unfolding fs_rename_def
  by (rule faulty_inside [OF _ assms(1)])
    (use entry_below [OF assms(1,2)] entry_below [OF assms(1,3)] rename_inside [OF assms(1,2,3)] inside_refl [OF assms(1)] in
      \<open>auto split: sum.splits\<close>)

end
