(* ===== verification/WorkspaceFilesProps.thy ===== *)
theory WorkspaceFilesProps
  imports WorkspaceFiles FileTreeProps PtyProps ManagerRuns
begin

section \<open>What requests do to the workspace\<close>

text \<open>
  Requests stay inside the workspace as long as no symbolic link lies in it; what renaming and moving change exactly;
  reading back what was written; byte ranges; listings.
\<close>

subsection \<open>Names and paths\<close>

lemma split_on_pieces: "p \<in> set (split_on c s) \<Longrightarrow> c \<notin> set p"
  by (induction c s arbitrary: p rule: split_on.induct) (auto split: if_splits list.splits)

lemma normalize_join_good:
  assumes "normalize_join root rel = Inr p"
  shows "\<exists>cs. p = root @ cs \<and> list_all good_name cs"
proof -
  let ?r = "trim_slashes (trim rel)"
  have "DOTDOT \<notin> set (split_on 47 ?r)" and p: "p = root @ filter (\<lambda>s. s \<noteq> [] \<and> s \<noteq> [46]) (split_on 47 ?r)"
    using assms by (auto simp: normalize_join_def Let_def split: if_splits)
  then have "list_all good_name (filter (\<lambda>s. s \<noteq> [] \<and> s \<noteq> [46]) (split_on 47 ?r))"
    using split_on_pieces by (auto simp: list_all_iff good_name_def)
  then show ?thesis using p by blast
qed

lemma validate_entry_name_good: "validate_entry_name raw = Inr n \<Longrightarrow> good_name n"
  by (auto simp: validate_entry_name_def good_name_def Let_def split: if_splits)

lemma pane_root_solid:
  assumes "tree_wf t" and "pane_root t m pane = Inr root"
  shows "solid t root \<or> (\<exists>e. canonicalize t root = Inl e)"
  using assms canonicalize_solid [OF assms(1)]
  by (auto simp: pane_root_def Let_def split: option.splits sum.splits)

lemma must_be_under:
  "path_must_be_under t root c = Inr u \<Longrightarrow> \<exists>r q. canonicalize t root = Inr r \<and> canonicalize t c = Inr q \<and> prefix r q"
  by (auto simp: path_must_be_under_def split: sum.splits if_splits)

lemma parent_must_be:
  "parent_dir_must_be_in_workspace t root p = Inr u \<Longrightarrow>
     p \<noteq> [] \<and> (\<exists>r q. canonicalize t root = Inr r \<and> canonicalize t (butlast p) = Inr q \<and> prefix r q)"
  by (auto simp: parent_dir_must_be_in_workspace_def split: sum.splits if_splits)

lemma below_append: "list_all good_name cs \<Longrightarrow> cs \<noteq> [] \<Longrightarrow> below r (r @ cs)"
  by (simp add: below_def strict_prefix_def)

lemma below_snoc: "list_all good_name cs \<Longrightarrow> good_name c \<Longrightarrow> below r (r @ cs @ [c])"
  by (simp add: below_append)

subsection \<open>Requests stay inside\<close>

definition stays_in :: "fpath \<Rightarrow> disk \<Rightarrow> disk \<Rightarrow> bool" where
  "stays_in root d d' \<longleftrightarrow> dk_tree d' = dk_tree d \<or> inside_step root (dk_tree d) (dk_tree d')"

lemma stays_refl [simp]: "stays_in root d d"
  by (simp add: stays_in_def)

lemma attempt_stays: "(\<And>v. r = Inr v \<Longrightarrow> stays_in root d (snd (k v))) \<Longrightarrow> stays_in root d (snd (attempt r d k))"
  by (auto simp: attempt_def split: sum.splits prod.splits)

lemma if_stays: "(c \<Longrightarrow> stays_in root d (snd x)) \<Longrightarrow> (\<not> c \<Longrightarrow> stays_in root d (snd y)) \<Longrightarrow> stays_in root d (snd (if c then x else y))"
  by simp

lemma refused_stays: "stays_in root d (snd (x, d))"
  by simp

lemmas stays_intros = attempt_stays if_stays refused_stays

lemma attempt_io_const: "stays_in root d (snd r) \<Longrightarrow> stays_in root d (snd (attempt_io env r (\<lambda>v d. (g v d, d))))"
  by (auto simp: attempt_io_def split: sum.splits prod.splits)

lemma staysI: "workspace_at (dk_tree d) root \<Longrightarrow> inside_step root (dk_tree d) (dk_tree d') \<Longrightarrow> stays_in root d d'"
  by (simp add: stays_in_def)

text \<open>A pane whose workspace has no symbolic link in it.\<close>

definition pane_at :: "disk \<Rightarrow> ('f, 'ps) manager \<Rightarrow> string \<Rightarrow> fpath \<Rightarrow> bool" where
  "pane_at d m pane root \<longleftrightarrow>
     tree_wf (dk_tree d) \<and> pane_root (dk_tree d) m pane = Inr root \<and> no_links (dk_tree d) root"

lemma pane_root_at: "pane_at d m pane root \<Longrightarrow> pane_root (dk_tree d) m pane = Inr root"
  by (simp add: pane_at_def)

lemma at: "pane_at d m pane root \<Longrightarrow> canonicalize (dk_tree d) root = Inr r \<Longrightarrow> workspace_at (dk_tree d) root"
  using pane_root_solid [of "dk_tree d" m pane root] by (auto simp: workspace_at_def pane_at_def)

lemma at_under: "pane_at d m pane root \<Longrightarrow> path_must_be_under (dk_tree d) root c = Inr u \<Longrightarrow> workspace_at (dk_tree d) root"
  using must_be_under at by blast

lemma op_stays:
  "workspace_at (dk_tree d) root \<Longrightarrow> inside_step root (dk_tree d) (dk_tree (snd r)) \<Longrightarrow>
     stays_in root d (snd (attempt_io env r (\<lambda>v d. (g v d, d))))"
  by (intro attempt_io_const staysI)

lemma create_stays:
  assumes P: "pane_at d m pane root"
  shows "stays_in root d (snd (workspace_create_entry env m pane parent kind name d))"
proof -
  have "stays_in root d (snd (attempt_io env ((if c then fs_create_dir (p @ [n]) else fs_create_new (p @ [n])) d)
      (\<lambda>_ d1. (g d1, d1))))"
    if n: "validate_entry_name name = Inr n" and p: "normalize_join root parent = Inr p" and u: "path_must_be_under (dk_tree d) root p = Inr u"
    for n p u c and g :: "disk \<Rightarrow> rstring file_outcome"
  proof -
    obtain cs where cs: "p = root @ cs" "list_all good_name cs" using normalize_join_good [OF p] by blast
    have b: "below root (p @ [n])" using below_snoc [OF cs(2) validate_entry_name_good [OF n]] cs by simp
    note w = at_under [OF P u]
    show ?thesis
      by (rule op_stays [OF w]) (use fs_create_dir_inside [OF w b] fs_create_new_inside [OF w b] in simp_all)
  qed
  note op = this
  show ?thesis
    unfolding workspace_create_entry_def Let_def pane_root_at [OF P]
    by (intro stays_intros op) (auto simp: attempt_def)
qed

lemma put_below:
  assumes P: "pane_at d m pane root" and p: "normalize_join root path = Inr p"
    and u: "parent_dir_must_be_in_workspace (dk_tree d) root p = Inr u"
  shows "below root p"
proof -
  obtain cs where cs: "p = root @ cs" "list_all good_name cs" using normalize_join_good [OF p] by blast
  obtain r q where r: "canonicalize (dk_tree d) root = Inr r" "canonicalize (dk_tree d) (butlast p) = Inr q" "prefix r q" "p \<noteq> []"
    using parent_must_be [OF u] by blast
  note w = at [OF P r(1)]
  have wf: "tree_wf (dk_tree d)" "solid (dk_tree d) root" using w by (simp_all add: workspace_at_def)
  have "r = root" using canonicalize_self [OF wf] r(1) by simp
  have "cs \<noteq> []"
  proof
    assume "cs = []"
    then have "p = root" using cs by simp
    moreover have "root \<noteq> []" using \<open>p = root\<close> r(4) by simp
    moreover obtain v where "node_at (dk_tree d) root = Some v" using wf(2) by (auto simp: solid_def split: option.splits)
    ultimately have "solid (dk_tree d) (butlast root)" using wf_entry [OF wf(1), of root v] by (simp add: solid_def)
    then have "q = butlast root" using canonicalize_self [OF wf(1)] r(2) \<open>p = root\<close> by simp
    then have "prefix root (butlast root)" using r(3) \<open>r = root\<close> by simp
    then show False using \<open>root \<noteq> []\<close> by (metis append_butlast_last_id not_Cons_self2 prefix_order.antisym prefixI self_append_conv)
  qed
  then show ?thesis using below_append [OF cs(2)] cs(1) by simp
qed

lemma put_stays:
  assumes P: "pane_at d m pane root"
  shows "stays_in root d (snd (workspace_put_file env m pane path content d))"
proof -
  have "stays_in root d (snd (attempt_io env (fs_write p bs d) (\<lambda>_ d1. (Answer (), d1))))"
    if p: "normalize_join root path = Inr p" and u: "parent_dir_must_be_in_workspace (dk_tree d) root p = Inr u" for p u bs
  proof -
    obtain r where r: "canonicalize (dk_tree d) root = Inr r" using parent_must_be [OF u] by blast
    note w = at [OF P r]
    show ?thesis by (rule op_stays [OF w]) (use fs_write_inside [OF w put_below [OF P p u]] in simp_all)
  qed
  note op = this
  show ?thesis
    unfolding workspace_put_file_def Let_def pane_root_at [OF P] by (intro stays_intros op) auto
qed

lemma delete_stays:
  assumes P: "pane_at d m pane root"
  shows "stays_in root d (snd (workspace_delete env m pane path d))"
proof -
  have op: "stays_in root d (snd (attempt_io env (fs_remove_file p d) (\<lambda>_ d1. (Answer (), d1))))"
      "stays_in root d (snd (attempt_io env (fs_remove_dir_all p d) (\<lambda>_ d1. (Answer (), d1))))"
    if p: "normalize_join root path = Inr p" and u: "path_must_be_under (dk_tree d) root p = Inr u"
      and r: "canonicalize (dk_tree d) root = Inr r" "canonicalize (dk_tree d) p = Inr q" "q \<noteq> r" for p u r q
  proof -
    obtain cs where cs: "p = root @ cs" "list_all good_name cs" using normalize_join_good [OF p] by blast
    have "cs \<noteq> []" using r cs(1) by auto
    then have b: "below root p" using below_append [OF cs(2)] cs(1) by simp
    note w = at_under [OF P u]
    show "stays_in root d (snd (attempt_io env (fs_remove_file p d) (\<lambda>_ d1. (Answer (), d1))))"
      by (rule op_stays [OF w]) (use fs_remove_file_inside [OF w b] in simp_all)
    show "stays_in root d (snd (attempt_io env (fs_remove_dir_all p d) (\<lambda>_ d1. (Answer (), d1))))"
      by (rule op_stays [OF w]) (use fs_remove_dir_all_inside [OF w b] in simp_all)
  qed
  show ?thesis
    unfolding workspace_delete_def Let_def pane_root_at [OF P]
    by (intro stays_intros) (auto intro!: if_stays op split: sum.splits)
qed

lemma rename_stays:
  assumes P: "pane_at d m pane root" and ne: "normalize_join root path \<noteq> Inr root"
  shows "stays_in root d (snd (workspace_rename env m pane path name d))"
proof -
  have "stays_in root d (snd (attempt_io env (fs_rename p (butlast p @ [n]) d) (\<lambda>_ d1. (g, d1))))"
    if p: "normalize_join root path = Inr p" and u: "path_must_be_under (dk_tree d) root p = Inr u"
      and n: "validate_entry_name name = Inr n" for p u n and g :: "rstring file_outcome"
  proof -
    obtain cs where cs: "p = root @ cs" "list_all good_name cs" using normalize_join_good [OF p] by blast
    have ne: "cs \<noteq> []" using ne p cs(1) by auto
    then have b: "below root p" using below_append [OF cs(2)] cs(1) by simp
    have "butlast p @ [n] = root @ butlast cs @ [n]" using cs(1) ne by (simp add: butlast_append)
    moreover have "list_all good_name (butlast cs)" using cs(2) by (auto simp: list_all_iff dest: in_set_butlastD)
    ultimately have b': "below root (butlast p @ [n])" using below_snoc validate_entry_name_good [OF n] by simp
    note w = at_under [OF P u]
    show ?thesis by (rule op_stays [OF w]) (use fs_rename_inside [OF w b b'] in simp_all)
  qed
  note op = this
  show ?thesis
    unfolding workspace_rename_def Let_def pane_root_at [OF P] by (intro stays_intros op) auto
qed

lemma move_stays:
  assumes P: "pane_at d m pane root"
  shows "stays_in root d (snd (workspace_move env m pane path dest d))"
proof -
  have "stays_in root d (snd (attempt_io env (fs_rename p (q @ [n]) d) (\<lambda>_ d1. (g, d1))))"
    if p: "normalize_join root path = Inr p" and u: "path_must_be_under (dk_tree d) root p = Inr u"
      and q: "normalize_join root dest = Inr q" "path_must_be_under (dk_tree d) root q = Inr u'" "path_is_dir (dk_tree d) q"
      and n: "last_name p = Some n" and ok: "path_is_dir (dk_tree d) p \<longrightarrow> \<not> prefix (canonical_or_self (dk_tree d) p) (canonical_or_self (dk_tree d) q)"
    for p u q u' n and g :: "rstring file_outcome"
  proof -
    obtain cs where cs: "p = root @ cs" "list_all good_name cs" using normalize_join_good [OF p] by blast
    obtain ds where ds: "q = root @ ds" "list_all good_name ds" using normalize_join_good [OF q(1)] by blast
    note w = at_under [OF P u]
    have wf: "tree_wf (dk_tree d)" "no_links (dk_tree d) root" "solid (dk_tree d) root" using w by (simp_all add: workspace_at_def)
    obtain r x y where r: "canonicalize (dk_tree d) p = Inr x" "canonicalize (dk_tree d) q = Inr y"
      using must_be_under [OF u] must_be_under [OF q(2)] by blast
    have xy: "x = p" "y = q"
      using canonicalize_under [OF wf good_no_dots [OF cs(2)], of x] canonicalize_under [OF wf good_no_dots [OF ds(2)], of y] r cs ds by simp_all
    have ne: "cs \<noteq> []"
    proof
      assume c: "cs = []"
      have root: "node_at (dk_tree d) root \<noteq> None" using wf(3) by (auto simp: solid_def split: option.splits)
      have qd: "node_at (dk_tree d) q = Some DirNode"
        using q(3) stat_under [OF wf good_no_dots [OF ds(2)]] ds by (simp add: path_is_dir_def)
      have "node_at (dk_tree d) root = Some DirNode"
        using qd wf_above [OF wf(1) qd, of root] ds by (cases "ds = []") (auto simp: strict_prefix_def)
      then have "path_is_dir (dk_tree d) p" using c cs stat_under [OF wf, of "[]"] by (simp add: path_is_dir_def)
      then show False using ok r xy c cs ds by (simp add: canonical_or_self_def)
    qed
    have "good_name n" using n cs ne by (auto simp: last_name_def list_all_iff split: if_splits)
    then have b: "below root p" "below root (q @ [n])" using below_append [OF cs(2) ne] cs below_snoc [OF ds(2)] ds by simp_all
    show ?thesis by (rule op_stays [OF w]) (use fs_rename_inside [OF w b] in simp_all)
  qed
  note op = this
  show ?thesis
    unfolding workspace_move_def Let_def pane_root_at [OF P]
    by (intro stays_intros) (auto intro!: if_stays op split: option.splits)
qed

subsection \<open>Requests stay in the workspace\<close>

lemma serve_stays:
  assumes P: "pane_at d m pane root" and "\<And>path name. req = RenameEntry path name \<Longrightarrow> normalize_join root path \<noteq> Inr root"
  shows "stays_in root d (snd (serve_file env m pane req d))"
  using create_stays [OF P] put_stays [OF P] delete_stays [OF P] move_stays [OF P] rename_stays [OF P] assms(2)
  by (cases req) (simp_all add: drop_answer_def)

text \<open>
  C27. A request that changes files leaves everything outside the pane's workspace, and its root, as it was, if no symbolic
  link lies in the workspace and the request does not rename the root itself: no path, name or destination, however it
  is written, reaches outside, and no failure of the disk half-way does.
\<close>

theorem requests_stay_inside:
  assumes "pane_at d m pane root" and "\<forall>path name. req = RenameEntry path name \<longrightarrow> normalize_join root path \<noteq> Inr root"
    and "\<not> strict_prefix root p"
  shows "node_at (dk_tree (snd (serve_file env m pane req d))) p = node_at (dk_tree d) p"
  using serve_stays [of d m pane root req env] assms by (auto simp: stays_in_def inside_step_def same_outside_def)

subsection \<open>Reading\<close>

lemma fs_metadata_ok: "fs_metadata p d = (Inr v, d') \<Longrightarrow> stat (dk_tree d) p = Some v \<and> dk_tree d' = dk_tree d"
  unfolding fs_metadata_def by (erule faulty_cases) (auto split: option.splits)

lemma fs_read_ok:
  "fs_read p d = (Inr b, d') \<Longrightarrow> (\<exists>mt. stat (dk_tree d) p = Some (FileNode b mt)) \<and> dk_tree d' = dk_tree d"
  unfolding fs_read_def by (erule faulty_cases) (auto split: option.splits fnode.splits)

lemma attempt_answer: "attempt r d k = (Answer x, d') \<Longrightarrow> \<exists>v. r = Inr v \<and> k v = (Answer x, d')"
  by (auto simp: attempt_def split: sum.splits prod.splits)

lemma attempt_io_answer: "attempt_io env r k = (Answer x, d') \<Longrightarrow> \<exists>v d1. r = (Inr v, d1) \<and> k v d1 = (Answer x, d')"
  by (auto simp: attempt_io_def split: sum.splits prod.splits)

text \<open>The file a reading request is about: named in the workspace, lying in it, with this content.\<close>

definition file_read :: "disk \<Rightarrow> ('f, 'ps) manager \<Rightarrow> string \<Rightarrow> rstring \<Rightarrow> fpath \<Rightarrow> u8 list \<Rightarrow> bool" where
  "file_read d m pane path target content \<longleftrightarrow>
     (\<exists>root u mt. pane_root (dk_tree d) m pane = Inr root \<and> normalize_join root path = Inr target \<and>
        path_must_be_under (dk_tree d) root target = Inr u \<and> stat (dk_tree d) target = Some (FileNode content mt) \<and>
        length content \<le> MAX_DOWNLOAD)"

lemma size_checked_answer:
  assumes "size_checked env target d k = (Answer x, d')" and "path_is_file (dk_tree d) target"
  shows "\<exists>content mt d1. stat (dk_tree d) target = Some (FileNode content mt) \<and> length content \<le> MAX_DOWNLOAD \<and>
    dk_tree d1 = dk_tree d \<and> k target (length content) d1 = (Answer x, d')"
proof -
  from attempt_io_answer [OF assms(1) [unfolded size_checked_def]] obtain v d1 where v: "fs_metadata target d = (Inr v, d1)"
    and k: "node_len v \<le> MAX_DOWNLOAD" "k target (node_len v) d1 = (Answer x, d')" by (auto split: if_splits)
  note s = fs_metadata_ok [OF v]
  with assms(2) obtain content mt where "v = FileNode content mt" by (auto simp: path_is_file_def split: fnode.splits)
  then show ?thesis using s k by auto
qed

lemma readable_file_answer:
  assumes "readable_file env m pane path d k = (Answer x, d')"
  shows "\<exists>target content d1. file_read d m pane path target content \<and> dk_tree d1 = dk_tree d \<and>
    k target (length content) d1 = (Answer x, d')"
proof -
  from attempt_answer [OF assms [unfolded readable_file_def Let_def]] obtain root where root: "pane_root (dk_tree d) m pane = Inr root"
    and a: "attempt (normalize_join root path) d (\<lambda>target.
        if \<not> path_is_file (dk_tree d) target then (Refused 400 ''not a file'', d)
        else attempt (path_must_be_under (dk_tree d) root target) d (\<lambda>_. size_checked env target d k)) = (Answer x, d')" by blast
  from attempt_answer [OF a] obtain target where target: "normalize_join root path = Inr target"
    and f: "path_is_file (dk_tree d) target"
    and b: "attempt (path_must_be_under (dk_tree d) root target) d (\<lambda>_. size_checked env target d k) = (Answer x, d')"
    by (auto split: if_splits)
  from attempt_answer [OF b] obtain u where u: "path_must_be_under (dk_tree d) root target = Inr u"
    and c: "size_checked env target d k = (Answer x, d')" by blast
  from size_checked_answer [OF c f] root target u show ?thesis unfolding file_read_def by blast
qed

lemma byte_range_bounds:
  "resolve_byte_range h len = PartialRange a b \<Longrightarrow> a \<le> b \<and> b < len"
  by (auto simp: resolve_byte_range_def Let_def split: if_splits option.splits list.splits prod.splits)


subsection \<open>Reading what was written\<close>

text \<open>A tree in which files were added or rewritten resolves what the old one did.\<close>

definition grows :: "file_tree \<Rightarrow> file_tree \<Rightarrow> bool" where
  "grows t t' \<longleftrightarrow> (\<forall>p v. node_at t p = Some v \<longrightarrow>
     (\<exists>w. node_at t' p = Some w \<and> (w = v \<or> (\<exists>b m b' m'. v = FileNode b m \<and> w = FileNode b' m'))))"

lemma grows_node: "grows t t' \<Longrightarrow> node_at t p = Some v \<Longrightarrow>
    \<exists>w. node_at t' p = Some w \<and> (w = v \<or> (\<exists>b m b' m'. v = FileNode b m \<and> w = FileNode b' m'))"
  by (simp add: grows_def)

lemma grows_dir: "grows t t' \<Longrightarrow> node_at t p = Some DirNode \<Longrightarrow> node_at t' p = Some DirNode"
  using grows_node by fastforce

lemma grows_trans: "grows t t' \<Longrightarrow> grows t' t'' \<Longrightarrow> grows t t''"
  unfolding grows_def by metis

lemma walk_grows:
  assumes g: "grows t t'"
  shows "walk False t n cur cs = Inr q \<Longrightarrow> walk False t' n cur cs = Inr q"
proof (induction n arbitrary: cur cs rule: less_induct)
  case (less n)
  then show ?case
  proof (induction cs arbitrary: cur)
    case (Cons c cs)
    have dir: "node_at t cur = Some DirNode" using Cons.prems(2) walk_cases(1) by fastforce
    note dir' = grows_dir [OF g dir]
    show ?case
    proof (cases "c = DOTDOT")
      case True
      then show ?thesis using Cons.IH [of "butlast cur"] Cons.prems by (simp add: walk_cases(2) dir dir')
    next
      case c: False
      obtain v where v: "node_at t (cur @ [c]) = Some v"
        using Cons.prems(2) by (cases "node_at t (cur @ [c])") (auto simp: walk_cases(3) dir c)
      obtain w where w: "node_at t' (cur @ [c]) = Some w" "w = v \<or> (\<exists>b m b' m'. v = FileNode b m \<and> w = FileNode b' m')"
        using grows_node [OF g v] by blast
      show ?thesis
      proof (cases "is_link v")
        case True
        then obtain s where s: "v = LinkNode s" by (cases v) auto
        have ws: "node_at t' (cur @ [c]) = Some (LinkNode s)" using w s by simp
        obtain n' where n: "n = Suc n'" and wk: "walk False t n' (if is_absolute s then [] else cur) (path_parts s @ cs) = Inr q"
          using Cons.prems(2) v by (auto simp: walk_cases(4) dir c s split: nat.splits)
        have "walk False t' n' (if is_absolute s then [] else cur) (path_parts s @ cs) = Inr q"
          using Cons.prems(1) n wk by blast
        then show ?thesis by (simp add: walk_cases(4) [OF dir' c ws] n)
      next
        case False
        have lw: "\<not> is_link w" using w(2) False by auto
        have "walk False t n (cur @ [c]) cs = Inr q" using Cons.prems(2) by (simp add: walk_cases(5) [OF dir c v False])
        then show ?thesis using Cons.IH Cons.prems(1) by (simp add: walk_cases(5) [OF dir' c w(1) lw])
      qed
    qed
  qed simp
qed

lemma canonicalize_grows: "grows t t' \<Longrightarrow> canonicalize t p = Inr q \<Longrightarrow> canonicalize t' p = Inr q"
  by (simp add: canonicalize_def walk_grows)

lemma grows_put_file: "p \<noteq> [] \<Longrightarrow> (\<And>v. node_at t p = Some v \<Longrightarrow> \<exists>b m. v = FileNode b m) \<Longrightarrow> grows t (al_put p (FileNode b' m') t)"
  by (auto simp: grows_def node_at_put)

lemma pane_root_canonical:
  "pane_root t m pane = Inr root \<Longrightarrow> canonicalize t root = Inr r \<Longrightarrow>
     \<exists>h cwd. host_of m pane = Some h \<and> hs_cwd h = Some cwd \<and> (\<exists>q. canonicalize t (push_path [] cwd) = Inr q)"
  by (auto simp: pane_root_def Let_def split: option.splits sum.splits)

lemma pane_root_grows:
  "grows t t' \<Longrightarrow> pane_root t m pane = Inr root \<Longrightarrow> canonicalize t root = Inr r \<Longrightarrow> pane_root t' m pane = Inr root"
  using pane_root_canonical [of t m pane root r] canonicalize_grows [of t t']
  by (auto simp: pane_root_def Let_def split: option.splits)

lemma fs_write_ok:
  assumes w: "workspace_at (dk_tree d) r" and p: "below r p" and ok: "fs_write p bs d = (Inr u, d')"
  shows "(\<exists>m. node_at (dk_tree d') p = Some (FileNode bs m)) \<and> grows (dk_tree d) (dk_tree d') \<and> workspace_at (dk_tree d') r"
proof -
  from ok obtain q d1 where c: "fs_create p d = (Inr q, d1)" and a: "fs_append q bs d1 = (Inr u, d')"
    by (auto simp: fs_write_def split: prod.splits sum.splits)
  have q: "q = p" by (rule fs_create_at [OF w p c])
  note ne = below_ne [OF p]
  from c have t1: "dk_tree d1 = al_put p (FileNode [] (dk_clock d)) (dk_tree d)" and nd: "node_at (dk_tree d) p \<noteq> Some DirNode"
    by (auto elim!: fs_create_cases simp: q)
  have a': "dk_tree d' = dk_tree (append_bytes p bs d1)" using a q by (auto simp: fs_append_def split: list.splits option.splits)
  have n1: "node_at (dk_tree d1) p = Some (FileNode [] (dk_clock d))" using ne by (simp add: t1 node_at_put)
  have t2: "dk_tree d' = al_put p (FileNode bs (dk_clock d1)) (dk_tree d1)" using n1 a' by (simp add: append_bytes_def)
  have old: "\<exists>b m. v = FileNode b m" if "node_at (dk_tree d) p = Some v" for v
    using that nd workspace_links [OF w that] ne by (cases v) (auto simp: strict_prefix_def)
  have "grows (dk_tree d) (dk_tree d1)" unfolding t1 by (rule grows_put_file) (use ne old in auto)
  moreover have "grows (dk_tree d1) (dk_tree d')" unfolding t2 by (rule grows_put_file) (use ne n1 in auto)
  moreover have "workspace_at (dk_tree d') r" using fs_write_inside [OF w p, of bs] ok by (simp add: inside_step_def)
  ultimately show ?thesis using ne by (auto simp: t2 node_at_put intro: grows_trans)
qed

lemma decode_encoded: "scalars s \<Longrightarrow> decode_bytes (enc s @ p) = map Some s @ decode_bytes p"
proof (induction s)
  case (Cons c s)
  obtain b bs where b: "utf8_nats c = b # bs" by (cases "utf8_nats c") simp_all
  have "decode_step b (bs @ enc s @ p) = (Some c, enc s @ p)"
    using decode_step_encoded [OF _ b] Cons.prems by (simp add: scalars_def del: decode_step.simps)
  then show ?case using Cons b by (simp add: scalars_def del: decode_step.simps)
qed simp

lemma unat_str_bytes: "scalars s \<Longrightarrow> map unat (str_bytes s) = enc s"
  using unat_text_bytes [of s] by (simp add: str_bytes_def text_bytes_def)

lemma those_map_Some: "those (map Some s) = Some s"
  by (induction s) simp_all

lemma from_utf8_encoded: "scalars s \<Longrightarrow> from_utf8 (str_bytes s) = Some s"
  using decode_encoded [of s "[]"] by (simp add: from_utf8_def unat_str_bytes those_map_Some)

text \<open>The file's name asks for no special treatment: no picture, document or table of numbers.\<close>

definition shown_as_text :: "(rstring \<Rightarrow> rstring) \<Rightarrow> fpath \<Rightarrow> bool" where
  "shown_as_text lower p \<longleftrightarrow> media_kind lower p = None \<and> office_kind lower p = None \<and> \<not> skip_text_preview lower p"

lemma put_lands:
  assumes P: "pane_at d m pane root" and target: "normalize_join root path = Inr target"
    and put: "workspace_put_file env m pane path content d = (Answer u, d')"
  shows "(\<exists>mt. node_at (dk_tree d') target = Some (FileNode (str_bytes content) mt)) \<and> workspace_at (dk_tree d') root \<and>
    pane_root (dk_tree d') m pane = Inr root \<and> below root target \<and> \<not> ssh_session m pane \<and> byte_len content \<le> MAX_DOWNLOAD"
proof -
  have ssh: "\<not> ssh_session m pane" "byte_len content \<le> MAX_DOWNLOAD"
    using put by (auto simp: workspace_put_file_def Let_def split: if_splits)
  from put obtain p u' d1 where p: "parent_dir_must_be_in_workspace (dk_tree d) root target = Inr p"
    and w: "fs_write target (str_bytes content) d = (Inr u', d1)" and d1: "d1 = d'"
    by (auto simp: workspace_put_file_def Let_def pane_root_at [OF P] target dest!: attempt_answer attempt_io_answer split: if_splits)
  obtain r q where r: "canonicalize (dk_tree d) root = Inr r" using parent_must_be [OF p] by blast
  note at = at [OF P r]
  have b: "below root target" using put_below [OF P target p] .
  show ?thesis using fs_write_ok [OF at b w] d1 b ssh pane_root_grows [OF _ pane_root_at [OF P] r] by blast
qed


text \<open>
  A big text file is not shown when the preview ends inside a character: the code cuts the bytes, not the text, and then
  takes the file for a binary one.
\<close>

theorem preview_cut_inside_character:
  assumes "scalars s" and "scalar c" and "byte_len s < MAX_TEXT_PREVIEW" and "MAX_TEXT_PREVIEW < byte_len s + utf8_len c"
  shows "text_meta lang (str_bytes (s @ c # rest)) = meta_unsupported"
proof -
  let ?k = "MAX_TEXT_PREVIEW - byte_len s"
  have e: "str_bytes (s @ c # rest) = str_bytes s @ map of_nat (utf8_nats c) @ str_bytes rest" by (simp add: str_bytes_def)
  have lc: "length (utf8_nats c) = utf8_len c" by (simp add: utf8_nats_def utf8_len_def)
  have k: "0 < ?k" "?k < utf8_len c" using assms(3,4) by auto
  have cut: "take MAX_TEXT_PREVIEW (str_bytes (s @ c # rest)) = str_bytes s @ map of_nat (take ?k (utf8_nats c))"
    using assms(3) k(2) lc by (simp add: e length_str_bytes take_map)
  have "map unat (map of_nat (utf8_nats c) :: u8 list) = utf8_nats c"
    using unat_str_bytes [of "[c]"] assms(2) by (simp add: scalars_def str_bytes_def)
  then have un: "map unat (map of_nat (take ?k (utf8_nats c)) :: u8 list) = take ?k (utf8_nats c)"
    by (metis take_map)
  obtain b bs where b: "take ?k (utf8_nats c) = b # bs" using k lc by (cases "take ?k (utf8_nats c)") auto
  have "utf8_nats c = (b # bs) @ drop ?k (utf8_nats c)" using b by (metis append_take_drop_id)
  moreover have "drop ?k (utf8_nats c) \<noteq> []" using k lc by simp
  ultimately have "fst (decode_step b bs) = None" using decode_step_cut [OF assms(2)] by blast
  then have "decode_bytes (b # bs) = None # decode_bytes (snd (decode_step b bs))"
    by (simp add: split_beta del: decode_step.simps)
  then have "decode_bytes (map unat (take MAX_TEXT_PREVIEW (str_bytes (s @ c # rest)))) =
      map Some s @ None # decode_bytes (snd (decode_step b bs))"
    using decode_encoded [OF assms(1), of "take ?k (utf8_nats c)"] un b by (simp add: cut unat_str_bytes [OF assms(1)])
  moreover have "those (map Some s @ None # xs) = None" for xs :: "rchar option list" by (induction s) simp_all
  ultimately have "from_utf8 (take MAX_TEXT_PREVIEW (str_bytes (s @ c # rest))) = None" by (simp add: from_utf8_def)
  moreover have "MAX_TEXT_PREVIEW < length (str_bytes (s @ c # rest))" using assms(4) by (simp add: length_str_bytes)
  ultimately show ?thesis by (simp add: text_meta_def)
qed

subsection \<open>Renaming and moving\<close>

text \<open>Where a renaming or moving request takes what, if it is well-formed.\<close>

fun move_ends :: "fpath \<Rightarrow> file_request \<Rightarrow> (fpath \<times> fpath) option" where
  "move_ends root (RenameEntry path name) =
     (case (normalize_join root path, validate_entry_name name) of
        (Inr p, Inr n) \<Rightarrow> Some (p, butlast p @ [n])
      | _ \<Rightarrow> None)"
| "move_ends root (MoveEntry path dest) =
     (case (normalize_join root path, normalize_join root dest) of
        (Inr p, Inr q) \<Rightarrow> map_option (\<lambda>n. (p, q @ [n])) (last_name p)
      | _ \<Rightarrow> None)"
| "move_ends root _ = None"

lemma fs_rename_cases:
  "fs_rename p p' d = (Inr u, d') \<Longrightarrow>
     \<exists>a b t. entry_loc (dk_tree d) p = Inr a \<and> entry_loc (dk_tree d) p' = Inr b \<and> rename_entry a b (dk_tree d) = Inr t \<and> dk_tree d' = t"
  unfolding fs_rename_def by (erule faulty_cases) (auto split: sum.splits)

lemma fs_rename_ok:
  assumes w: "workspace_at (dk_tree d) r" and p: "below r p" "below r p'" and ok: "fs_rename p p' d = (Inr u, d')"
    and new: "node_at (dk_tree d) p' = None"
  shows "node_at (dk_tree d) p \<noteq> None \<and> parallel p p' \<and> dk_tree d' = move_nodes p p' (dk_tree d)"
proof -
  from fs_rename_cases [OF ok] obtain a b where e: "entry_loc (dk_tree d) p = Inr a" "entry_loc (dk_tree d) p' = Inr b"
    and r: "rename_entry a b (dk_tree d) = Inr (dk_tree d')" by blast
  have ab: "a = p" "b = p'" using entry_below [OF w p(1) e(1)] entry_below [OF w p(2) e(2)] by simp_all
  have old: "node_at (dk_tree d) p \<noteq> None" using r by (auto simp: ab rename_entry_def split: option.splits)
  then have "p \<noteq> p'" using new by auto
  then show ?thesis using rename_entry_moves [of "dk_tree d" p p'] w r old by (simp add: ab workspace_at_def)
qed

lemma not_there:
  assumes "workspace_at t r" and "below r p" and "\<not> path_exists t p"
  shows "node_at t p = None"
proof -
  obtain cs c where p: "p = r @ cs @ [c]" and g: "list_all good_name cs" "good_name c" using belowE [OF assms(2)] .
  have "DOTDOT \<notin> set (cs @ [c])" using good_no_dots [of "cs @ [c]"] g by simp
  then show ?thesis using stat_under [of t r "cs @ [c]"] assms(1,3) p by (simp add: workspace_at_def path_exists_def)
qed

lemma rename_core:
  assumes P: "pane_at d m pane root" and p: "normalize_join root path = Inr p" "p \<noteq> root" and n: "validate_entry_name name = Inr n"
    and ok: "workspace_rename env m pane path name d = (Answer rel, d')"
  shows "node_at (dk_tree d) p \<noteq> None \<and> node_at (dk_tree d) (butlast p @ [n]) = None \<and> parallel p (butlast p @ [n]) \<and>
    dk_tree d' = move_nodes p (butlast p @ [n]) (dk_tree d)"
proof -
  from ok obtain u u' where u: "path_must_be_under (dk_tree d) root p = Inr u" and new: "\<not> path_exists (dk_tree d) (butlast p @ [n])"
    and r: "fs_rename p (butlast p @ [n]) d = (Inr u', d')"
    by (auto simp: workspace_rename_def Let_def pane_root_at [OF P] p(1) n dest!: attempt_answer attempt_io_answer split: if_splits)
  obtain cs where cs: "p = root @ cs" "list_all good_name cs" using normalize_join_good [OF p(1)] by blast
  have ne: "cs \<noteq> []" using p(2) cs(1) by auto
  then have b: "below root p" using below_append [OF cs(2)] cs(1) by simp
  have "butlast p @ [n] = root @ butlast cs @ [n]" using cs(1) ne by (simp add: butlast_append)
  moreover have "list_all good_name (butlast cs)" using cs(2) by (auto simp: list_all_iff dest: in_set_butlastD)
  ultimately have b': "below root (butlast p @ [n])" using below_snoc validate_entry_name_good [OF n] by simp
  note w = at_under [OF P u]
  note none = not_there [OF w b' new]
  show ?thesis using fs_rename_ok [OF w b b' r none] none by simp
qed

lemma move_core:
  assumes P: "pane_at d m pane root" and p: "normalize_join root path = Inr p" "p \<noteq> root" and q: "normalize_join root dest = Inr q"
    and n: "last_name p = Some n" and ok: "workspace_move env m pane path dest d = (Answer rel, d')"
  shows "node_at (dk_tree d) p \<noteq> None \<and> node_at (dk_tree d) (q @ [n]) = None \<and> parallel p (q @ [n]) \<and>
    dk_tree d' = move_nodes p (q @ [n]) (dk_tree d)"
proof -
  from ok obtain u u' where u: "path_must_be_under (dk_tree d) root p = Inr u" and new: "\<not> path_exists (dk_tree d) (q @ [n])"
    and r: "fs_rename p (q @ [n]) d = (Inr u', d')"
    by (auto simp: workspace_move_def Let_def pane_root_at [OF P] p(1) q n dest!: attempt_answer attempt_io_answer split: if_splits)
  obtain cs where cs: "p = root @ cs" "list_all good_name cs" using normalize_join_good [OF p(1)] by blast
  obtain ds where ds: "q = root @ ds" "list_all good_name ds" using normalize_join_good [OF q] by blast
  have ne: "cs \<noteq> []" using p(2) cs(1) by auto
  have "good_name n" using n cs ne by (auto simp: last_name_def list_all_iff split: if_splits)
  then have b: "below root p" "below root (q @ [n])" using below_append [OF cs(2) ne] cs below_snoc [OF ds(2)] ds by simp_all
  note w = at_under [OF P u]
  note none = not_there [OF w b(2) new]
  show ?thesis using fs_rename_ok [OF w b r none] none by simp
qed

lemma drop_answer_answer: "drop_answer r = (Answer u, d') \<Longrightarrow> \<exists>x. r = (Answer x, d')"
  by (cases r; cases "fst r") (auto simp: drop_answer_def)


lemma entry_free:
  assumes "tree_wf t" and "node_at t p = Some DirNode" and "good_name c" and "node_at t (p @ [c]) = None"
  shows "\<not> path_exists t (p @ [c])"
proof -
  have "walk False t MAX_LINKS [] (p @ [c]) = Inl ENOENT"
    using assms walk_from [of t p False MAX_LINKS "[c]"] by (simp add: solid_dir walk_cases(3) good_name_def)
  then show ?thesis by (simp add: path_exists_def stat_def canonicalize_def)
qed

text \<open>
  Nothing keeps a client from renaming the workspace's root, which deleting refuses: a rename of the empty path moves
  the whole directory to another name beside it, outside the workspace, and the pane's directory is gone.
\<close>

theorem rename_moves_the_root:
  assumes "tree_wf (dk_tree d)" and "pane_root (dk_tree d) m pane = Inr root" and "node_at (dk_tree d) root = Some DirNode"
    and "root \<noteq> []" and "normalize_join root path = Inr root" and "validate_entry_name name = Inr n"
    and "node_at (dk_tree d) (butlast root @ [n]) = None" and "dk_faults d = []" and "\<not> ssh_session m pane"
  shows "\<exists>rel d'. workspace_rename env m pane path name d = (Answer rel, d') \<and> node_at (dk_tree d') root = None \<and>
    (\<forall>cs. node_at (dk_tree d') (butlast root @ n # cs) = node_at (dk_tree d) (root @ cs))"
proof -
  let ?t = "dk_tree d" and ?b = "butlast root @ [n]"
  note g = validate_entry_name_good [OF assms(6)]
  have up: "node_at ?t (butlast root) = Some DirNode" "good_name (last root)" using wf_entry [OF assms(1,3,4)] by simp_all
  have root: "butlast root @ [last root] = root" using assms(4) by simp
  have e: "entry_loc ?t root = Inr root" "entry_loc ?t ?b = Inr ?b"
    using entry_solid_dir [OF assms(1) up(1), of "last root"] entry_solid_dir [OF assms(1) up(1), of n] up(2) g root
    by (simp_all add: good_name_def)
  have ne: "root \<noteq> ?b" using assms(3,7) by auto
  have len: "length root = length ?b" using assms(4) by simp
  have npre: "\<not> prefix root ?b"
    using ne len by (metis append_eq_conv_conj order_refl prefix_def take_all)
  have r: "rename_entry root ?b ?t = Inr (move_nodes root ?b ?t)" using assms(3,7) ne npre by (simp add: rename_entry_def)
  note mv = rename_entry_moves [OF assms(1) r ne]
  have fs: "fs_rename root ?b d = (Inr (), d\<lparr>dk_tree := move_nodes root ?b ?t\<rparr>)"
    using assms(8) e r by (simp add: fs_rename_def faulty_def)
  have sol: "solid ?t root" using assms(3) by (simp add: solid_def)
  have c: "canonicalize ?t root = Inr root" by (rule canonicalize_self [OF assms(1) sol])
  have "path_exists ?t root" using c assms(3) by (simp add: path_exists_def stat_def)
  moreover have "path_must_be_under ?t root root = Inr ()" by (simp add: path_must_be_under_def c)
  moreover have "\<not> path_exists ?t ?b" by (rule entry_free [OF assms(1) up(1) g assms(7)])
  ultimately have "workspace_rename env m pane path name d = (Answer (rel_or_empty root ?b), d\<lparr>dk_tree := move_nodes root ?b ?t\<rparr>)"
    using assms(2,4,5,6,9) fs by (simp add: workspace_rename_def attempt_def attempt_io_def Let_def)
  moreover have "node_at (move_nodes root ?b ?t) root = None"
    using node_at_move [of root ?b ?t root] mv by (auto simp: parallel_def)
  moreover have "node_at (move_nodes root ?b ?t) (butlast root @ n # cs) = node_at ?t (root @ cs)" for cs
  proof -
    have "prefix ?b (butlast root @ n # cs)" by (simp add: prefix_def)
    moreover have "drop (length ?b) (butlast root @ n # cs) = cs" by simp
    ultimately show ?thesis using node_at_move [of root ?b ?t "butlast root @ n # cs"] mv by simp
  qed
  ultimately show ?thesis by simp
qed

subsection \<open>Listings\<close>

lemma list_entry_some:
  "list_entry True t target name = Some e \<Longrightarrow>
     de_name e = name \<and> \<not> sensitive_path (target @ [name]) \<and>
     (\<exists>c v. canonicalize t (target @ [name]) = Inr c \<and> \<not> sensitive_path c \<and> stat t c = Some v \<and> de_is_dir e = (v = DirNode))"
  by (auto simp: list_entry_def Let_def split: if_splits sum.splits)

lemma all_some_set: "set (all_some xs) = {x. Some x \<in> set xs}"
  by (induction xs) (force simp: all_some_def)+


subsection \<open>Links\<close>


subsection \<open>Examples\<close>

definition files_manager :: "(nat, unit) manager" where
  "files_manager = demo_manager\<lparr>mg_store := (\<lambda>_. demo_hosted\<lparr>hs_cwd := Some [47, 119]\<rparr>)\<rparr>"

definition files_env :: file_env where
  "files_env = \<lparr>ue_home = None, ue_tmpdir = None, ue_temp = [], ue_cwd = [], fe_lower = (\<lambda>s. s), fe_os = (\<lambda>_. ''error''), fe_mime = (\<lambda>_. [])\<rparr>"

definition disk_of :: "file_tree \<Rightarrow> disk" where
  "disk_of t = \<lparr>dk_tree = t, dk_faults = [], dk_rm_faults = [], dk_clock = 1\<rparr>"

text \<open>A file in the workspace \<open>/w\<close> and a directory beside it; and a link to a file there.\<close>

definition files_disk :: disk where
  "files_disk = disk_of [([[119]], DirNode), ([[119], [97]], FileNode [1, 2, 3] 0), ([[120]], DirNode)]"

definition linked_disk :: disk where
  "linked_disk = disk_of [([[119]], DirNode), ([[119], [97]], LinkNode [47, 120]), ([[120]], FileNode [] 0)]"

lemmas files_defs = disk_of_def files_disk_def linked_disk_def files_manager_def demo_manager_def new_session_manager_def
  demo_hosted_def host_of_def

lemmas path_defs = is_absolute_def starts_with_def path_parts_def push_path_def DOTDOT_def good_name_def

lemma files_pane: "pane_at files_disk files_manager ''p'' [[119]]"
  by (simp add: pane_at_def files_defs path_defs tree_wf_def al_wf_def no_links_def pane_root_def
      canonicalize_def MAX_LINKS_def walk.simps(2) node_at_def)

lemma linked_root: "pane_root (dk_tree linked_disk) files_manager ''p'' = Inr [[119]]"
  by (simp add: files_defs path_defs pane_root_def canonicalize_def MAX_LINKS_def walk.simps(2) node_at_def)

lemma files_not_ssh: "\<not> ssh_session files_manager ''p''"
  by (simp add: ssh_session_def files_defs)

lemma join_a: "normalize_join [[119]] [97] = Inr [[119], [97]]" "normalize_join [[119]] [] = Inr [[119]]"
    "normalize_join [[119]] [46, 46, 47, 120] = Inl (400, ''invalid path'')"
  by (simp_all add: normalize_join_def trim_slashes_def trim_def is_whitespace_def DOTDOT_def Let_def)

lemma name_b: "validate_entry_name [98] = Inr [98]"
  by (simp add: validate_entry_name_def trim_def is_whitespace_def DOTDOT_def)

lemma requests_stay_inside_witness:
  "node_at (dk_tree (snd (serve_file files_env files_manager ''p'' (DeleteEntry [97]) files_disk))) [[120]] = Some DirNode"
  using requests_stay_inside [OF files_pane, of "DeleteEntry [97]" "[[120]]" files_env]
  by (simp add: files_disk_def disk_of_def node_at_def)

lemma raw_files: "workspace_raw files_env files_manager ''p'' [97] None files_disk =
  (Answer \<lparr>rr_status = 200, rr_headers = raw_headers files_env [[119], [97]] @ [(''content-length'', dec 3)], rr_body = [1, 2, 3]\<rparr>, files_disk)"
proof -
  have w: "tree_wf (dk_tree files_disk)" "no_links (dk_tree files_disk) [[119]]" "pane_root (dk_tree files_disk) files_manager ''p'' = Inr [[119]]"
    using files_pane by (simp_all add: pane_at_def)
  have st: "stat (dk_tree files_disk) [[119], [97]] = Some (FileNode [1, 2, 3] 0)"
    by (simp add: stat_def canonicalize_def MAX_LINKS_def walk.simps(2) node_at_def files_defs path_defs)
  have u: "path_must_be_under (dk_tree files_disk) [[119]] [[119], [97]] = Inr ()"
    by (simp add: path_must_be_under_def canonicalize_def MAX_LINKS_def walk.simps(2) node_at_def files_defs path_defs)
  have f: "dk_faults files_disk = []" by (simp add: files_defs)
  show ?thesis
    using w(3) st u f files_not_ssh
    by (simp add: workspace_raw_def readable_file_def attempt_def size_checked_def attempt_io_def raw_answer_def fs_metadata_def
        fs_read_def faulty_def path_is_file_def join_a MAX_DOWNLOAD_def Let_def numeral_3_eq_3)
qed


lemma saved_file: "\<exists>d'. workspace_put_file files_env files_manager ''p'' [97] [104] files_disk = (Answer (), d') \<and> dk_faults d' = []"
proof -
  have w: "pane_root (dk_tree files_disk) files_manager ''p'' = Inr [[119]]" using files_pane by (simp add: pane_at_def)
  have st: "stat (dk_tree files_disk) [[119], [97]] = Some (FileNode [1, 2, 3] 0)"
    by (simp add: stat_def canonicalize_def MAX_LINKS_def walk.simps(2) node_at_def files_defs path_defs)
  have u: "parent_dir_must_be_in_workspace (dk_tree files_disk) [[119]] [[119], [97]] = Inr ()"
    by (simp add: parent_dir_must_be_in_workspace_def path_exists_def stat_def canonicalize_def MAX_LINKS_def walk.simps(2) node_at_def
        files_defs path_defs)
  have c: "walk True (dk_tree files_disk) MAX_LINKS [] [[119], [97]] = Inr [[119], [97]]"
    by (simp add: MAX_LINKS_def walk.simps(2) node_at_def files_defs path_defs)
  show ?thesis
    using w st u c files_not_ssh
    by (simp add: workspace_put_file_def attempt_def attempt_io_def join_a path_is_dir_def path_exists_def MAX_DOWNLOAD_def utf8_len_def
        fs_write_def fs_create_def faulty_def fs_append_def append_bytes_def set_node_def node_at_def Let_def files_disk_def disk_of_def
        map_of_al_put)
qed


lemma preview_cut_inside_character_witness:
  "text_meta ''plaintext'' (str_bytes (replicate (MAX_TEXT_PREVIEW - 1) 97 @ [233])) = meta_unsupported"
proof (rule preview_cut_inside_character)
  have b: "byte_len (replicate n 97) = n" for n by (induction n) (simp_all add: utf8_len_def)
  show "scalars (replicate (MAX_TEXT_PREVIEW - 1) 97)" by (simp add: scalars_def scalar_def list_all_iff)
  show "scalar 233" by (simp add: scalar_def)
  show "byte_len (replicate (MAX_TEXT_PREVIEW - 1) 97) < MAX_TEXT_PREVIEW" unfolding b by (simp add: MAX_TEXT_PREVIEW_def)
  show "MAX_TEXT_PREVIEW < byte_len (replicate (MAX_TEXT_PREVIEW - 1) 97) + utf8_len 233"
    unfolding b by (simp add: MAX_TEXT_PREVIEW_def utf8_len_def)
qed

lemma renamed_file: "\<exists>u d'. serve_file files_env files_manager ''p'' (RenameEntry [97] [98]) files_disk = (Answer u, d')"
proof -
  have w: "pane_root (dk_tree files_disk) files_manager ''p'' = Inr [[119]]" using files_pane by (simp add: pane_at_def)
  have st: "path_exists (dk_tree files_disk) [[119], [97]]" "\<not> path_exists (dk_tree files_disk) [[119], [98]]"
    by (simp_all add: path_exists_def stat_def canonicalize_def MAX_LINKS_def walk.simps(2) node_at_def files_defs path_defs)
  have u: "path_must_be_under (dk_tree files_disk) [[119]] [[119], [97]] = Inr ()"
    by (simp add: path_must_be_under_def canonicalize_def MAX_LINKS_def walk.simps(2) node_at_def files_defs path_defs)
  have e: "entry_loc (dk_tree files_disk) [[119], [97]] = Inr [[119], [97]]" "entry_loc (dk_tree files_disk) [[119], [98]] = Inr [[119], [98]]"
    by (simp_all add: entry_loc_def canonicalize_def MAX_LINKS_def walk.simps(2) node_at_def files_defs path_defs)
  have r: "rename_entry [[119], [97]] [[119], [98]] (dk_tree files_disk) =
      Inr (move_nodes [[119], [97]] [[119], [98]] (dk_tree files_disk))"
    by (simp add: rename_entry_def node_at_def files_defs)
  have f: "dk_faults files_disk = []" by (simp add: files_defs)
  show ?thesis
    using w st u e r f files_not_ssh
    by (simp add: drop_answer_def workspace_rename_def attempt_def attempt_io_def join_a name_b fs_rename_def faulty_def Let_def)
qed


lemma rename_moves_the_root_witness:
  "\<exists>rel d'. workspace_rename files_env files_manager ''p'' [] [98] files_disk = (Answer rel, d') \<and> node_at (dk_tree d') [[119]] = None"
proof -
  have w: "tree_wf (dk_tree files_disk)" "pane_root (dk_tree files_disk) files_manager ''p'' = Inr [[119]]"
    using files_pane by (simp_all add: pane_at_def)
  have n: "node_at (dk_tree files_disk) [[119]] = Some DirNode" "node_at (dk_tree files_disk) (butlast [[119]] @ [[98]]) = None"
      "dk_faults files_disk = []" by (simp_all add: node_at_def files_disk_def disk_of_def)
  from rename_moves_the_root [OF w n(1) _ join_a(2) name_b n(2,3) files_not_ssh, of files_env] show ?thesis by auto
qed


lemma listed_root: "\<exists>r d'. list_dirs_blocking files_env files_manager \<lparr>lq_pane = [], lq_path = [], lq_root = Some [47], lq_free = False\<rparr> files_disk =
    (Answer r, d')"
  by (simp add: list_dirs_blocking_def list_target_def list_root_def outside_pane_jail_def normalize_join_def trim_slashes_def trim_def
      path_exists_def stat_def path_must_be_under_def canonicalize_def attempt_def attempt_io_def path_is_dir_def sensitive_path_def
      is_sensitive_def SENSITIVE_DIRS_def lit_def path_eq_def path_within_def path_text_def path_defs fs_read_dir_def faulty_def
      files_disk_def disk_of_def DOTDOT_def Let_def)


end
