(* ===== verification/UploadProps.thy ===== *)
theory UploadProps
  imports Uploads WorkspaceFilesProps
begin

section \<open>What uploads do\<close>

text \<open>
  The upload directory: a request leaves all its files or none, never touches a file that was there, and trimming
  takes the oldest files first. Names that collide get a number, and one is always found. Uploads into the workspace.
\<close>

subsection \<open>Names\<close>

lemma sanitize_good: "sanitize_upload_basename raw = Inr n \<Longrightarrow> n = raw \<and> good_name n \<and> n \<noteq> UPLOAD_MARKER"
  by (auto simp: sanitize_upload_basename_def good_name_def split: if_splits)

lemma numbered_inj: "numbered stem n ext = numbered stem m ext \<Longrightarrow> n = m"
  by (simp add: numbered_def) (metis undec_dec)

lemma suffixed_inj: "suffixed_upload_name base n = suffixed_upload_name base m \<Longrightarrow> n = m"
  by (auto simp: suffixed_upload_name_def split: prod.splits dest: numbered_inj)

lemma paren_in_numbered: "40 \<in> set (numbered stem n ext)"
  by (simp add: numbered_def lit_def)

lemma no_slash_dec: "47 \<notin> set (dec n)"
  using dec_digits [of 47 n] by auto

lemma numbered_slash: "47 \<in> set (numbered stem n ext) \<longleftrightarrow> 47 \<in> set stem \<or> 47 \<in> set ext"
  by (auto simp: numbered_def lit_def no_slash_dec)

lemma split_ext_stem: "set (fst (split_ext b)) \<subseteq> set b"
proof -
  have "fst (split_ext b) = b \<or> (\<exists>k. fst (split_ext b) = take k b)" by (auto simp: split_ext_def Let_def)
  then show ?thesis by (metis order_refl set_take_subset)
qed

lemma split_ext_ext: "snd (split_ext b) = Some e \<Longrightarrow> set e \<subseteq> set b"
proof -
  assume "snd (split_ext b) = Some e"
  then have "e = rev (takeWhile (\<lambda>c. c \<noteq> 46) (rev b))" by (auto simp: split_ext_def Let_def split: if_splits)
  then show "set e \<subseteq> set b" using set_takeWhileD by fastforce
qed

lemma name_parts_sub: "good_name b \<Longrightarrow> 47 \<notin> set (fst (name_parts b)) \<and> 47 \<notin> set (snd (name_parts b))"
proof -
  assume g: "good_name b"
  have "path_parts b = [b]" using g by (simp add: path_parts_def good_name_def split_on_no_sep)
  then have l: "last_name (path_parts b) = Some b" using g by (simp add: last_name_def good_name_def)
  have b: "47 \<notin> set b" using g by (simp add: good_name_def)
  have "47 \<notin> set e" if "snd (split_ext b) = Some e" for e using split_ext_ext [OF that] b by blast
  then show ?thesis using b split_ext_stem [of b] by (cases "snd (split_ext b)") (auto simp: name_parts_def l)
qed

lemma compound_sub: "compound_parts b cs = Some (s, e) \<Longrightarrow> set s \<subseteq> set b \<and> set e \<subseteq> set b"
  by (induction cs) (auto simp: Let_def split: if_splits dest: in_set_takeD in_set_dropD)

lemma suffixed_parts:
  obtains s e where "\<And>n. suffixed_upload_name b n = numbered s n e" "good_name b \<Longrightarrow> 47 \<notin> set s \<and> 47 \<notin> set e"
proof (cases "compound_parts b COMPOUND_EXTENSIONS")
  case None
  show thesis
    by (rule that [of "fst (name_parts b)" "snd (name_parts b)"])
      (use None name_parts_sub in \<open>simp_all add: suffixed_upload_name_def split_beta\<close>)
next
  case (Some p)
  obtain s e where p: "p = (s, e)" by fastforce
  show thesis
  proof (rule that [of s e])
    show "suffixed_upload_name b n = numbered s n e" for n using Some p by (simp add: suffixed_upload_name_def)
    show "47 \<notin> set s \<and> 47 \<notin> set e" if "good_name b"
      using that compound_sub [of b COMPOUND_EXTENSIONS s e] Some p by (auto simp: good_name_def)
  qed
qed

lemma numbered_good: "47 \<notin> set s \<Longrightarrow> 47 \<notin> set e \<Longrightarrow> good_name (numbered s n e)"
  using paren_in_numbered [of s n e] by (auto simp: good_name_def numbered_slash DOTDOT_def)

lemma upload_name_good: "good_name b \<Longrightarrow> good_name (upload_name b n)"
  by (rule suffixed_parts [of b]) (simp add: upload_name_def numbered_good)

lemma upload_name_not_marker: "b \<noteq> UPLOAD_MARKER \<Longrightarrow> upload_name b n \<noteq> UPLOAD_MARKER"
proof -
  assume b: "b \<noteq> UPLOAD_MARKER"
  have "40 \<notin> set UPLOAD_MARKER" by (simp add: UPLOAD_MARKER_def lit_def)
  moreover have "40 \<in> set (suffixed_upload_name b n)"
    by (rule suffixed_parts [of b]) (simp add: paren_in_numbered)
  ultimately show ?thesis using b by (auto simp: upload_name_def)
qed

lemma push_good: "good_name n \<Longrightarrow> push_path dir n = dir @ [n]"
  by (cases n) (auto simp: push_path_def is_absolute_def starts_with_def path_parts_def good_name_def split_on_no_sep)

subsection \<open>Creating, writing and removing one file\<close>

text \<open>An upload directory: a directory at its own canonical path.\<close>

definition upload_dir :: "file_tree \<Rightarrow> fpath \<Rightarrow> bool" where
  "upload_dir t base \<longleftrightarrow> tree_wf t \<and> node_at t base = Some DirNode"

lemma upload_entry_loc: "upload_dir t base \<Longrightarrow> good_name n \<Longrightarrow> entry_loc t (base @ [n]) = Inr (base @ [n])"
  by (intro entry_solid_dir) (auto simp: upload_dir_def good_name_def)

lemma upload_under: "upload_dir t base \<Longrightarrow> path_must_be_under t base base = Inr ()"
  using canonicalize_self [of t base] by (simp add: upload_dir_def solid_dir path_must_be_under_def)

lemma upload_dir_put:
  assumes "upload_dir t base" and "good_name n" and "node_at t (base @ [n]) \<noteq> Some DirNode" and "v \<noteq> DirNode"
  shows "upload_dir (al_put (base @ [n]) v t) base"
  using assms wf_put [of t "base @ [n]" v] by (auto simp: upload_dir_def node_at_put)

lemma upload_dir_del:
  assumes "upload_dir t base" and "node_at t (base @ [n]) \<noteq> Some DirNode"
  shows "upload_dir (al_del (base @ [n]) t) base"
  using assms wf_del [of t "base @ [n]"] by (auto simp: upload_dir_def node_at_del)

lemma fs_create_new_result:
  assumes "fs_create_new p d = (r, d')"
  shows "dk_tree d' = dk_tree d \<and> (\<exists>e. r = Inl e) \<or>
    (\<exists>q. r = Inr () \<and> entry_loc (dk_tree d) p = Inr q \<and> node_at (dk_tree d) q = None \<and>
      dk_tree d' = al_put q (FileNode [] (dk_clock d)) (dk_tree d))"
  using assms unfolding fs_create_new_def
  by (elim faulty_cases) (auto simp: put_new_def split: sum.splits if_splits)

lemma fs_create_new_rm: "dk_rm_faults (snd (fs_create_new p d)) = dk_rm_faults d"
  by (auto simp: fs_create_new_def faulty_def put_new_def set_node_def split: list.splits option.splits sum.splits)

lemma new_file_result:
  assumes "upload_dir (dk_tree d) base" and "good_name b" and "new_file_loop env base b n d = (r, d')"
  shows "dk_rm_faults d' = dk_rm_faults d \<and>
    ((\<exists>e. r = Inl e) \<and> dk_tree d' = dk_tree d \<or>
     (\<exists>k mt. r = Inr (base @ [upload_name b k]) \<and> node_at (dk_tree d) (base @ [upload_name b k]) = None \<and>
       dk_tree d' = al_put (base @ [upload_name b k]) (FileNode [] mt) (dk_tree d)))"
  using assms
proof (induction "u32_limit - n" arbitrary: n d rule: less_induct)
  case less
  note g = upload_name_good [OF less.prems(2), of n]
  let ?p = "base @ [upload_name b n]"
  obtain x d1 where c: "fs_create_new ?p d = (x, d1)" by fastforce
  have rm: "dk_rm_faults d1 = dk_rm_faults d" using fs_create_new_rm [of ?p d] c by simp
  have step: "new_file_loop env base b n d = (case x of Inr _ \<Rightarrow> (Inr ?p, d1)
      | Inl e \<Rightarrow> if e \<noteq> EEXIST then (Inl (upload_io_err env e), d1)
          else if Suc n < u32_limit then new_file_loop env base b (Suc n) d1
          else (Inl (409, ''too many filename collisions''), d1))"
    by (subst new_file_loop.simps)
      (simp add: push_good [OF g] upload_under [OF less.prems(1)] c butlast_append Let_def split: sum.split)
  show ?case
  proof (cases x)
    case (Inr u)
    have "entry_loc (dk_tree d) ?p = Inr ?p" by (rule upload_entry_loc [OF less.prems(1) g])
    then have "node_at (dk_tree d) ?p = None \<and> dk_tree d1 = al_put ?p (FileNode [] (dk_clock d)) (dk_tree d)"
      using fs_create_new_result [OF c] Inr by auto
    then show ?thesis using less.prems(3) step Inr rm by auto
  next
    case (Inl e)
    then have t: "dk_tree d1 = dk_tree d" using fs_create_new_result [OF c] by auto
    show ?thesis
    proof (cases "e = EEXIST \<and> Suc n < u32_limit")
      case True
      have "new_file_loop env base b (Suc n) d1 = (r, d')" using less.prems(3) step Inl True by simp
      from less.hyps [OF _ _ less.prems(2) this] show ?thesis using True t rm less.prems(1) by auto
    next
      case False
      then show ?thesis using less.prems(3) step Inl t rm by (auto split: if_splits)
    qed
  qed
qed

lemma append_rm [simp]: "dk_rm_faults (append_bytes q bs d) = dk_rm_faults d"
  by (auto simp: append_bytes_def set_node_def split: option.splits fnode.splits)

lemma fs_append_rm: "dk_rm_faults (snd (fs_append q bs d)) = dk_rm_faults d"
  by (auto simp: fs_append_def split: list.splits option.splits)

text \<open>An open file in the upload directory, and what the rest of the tree is compared to.\<close>

definition open_file :: "fpath \<Rightarrow> fpath \<Rightarrow> u8 list \<Rightarrow> file_tree \<Rightarrow> disk \<Rightarrow> bool" where
  "open_file base p content t0 d \<longleftrightarrow>
     upload_dir (dk_tree d) base \<and> (\<exists>n. p = base @ [n] \<and> good_name n) \<and>
     (\<exists>mt. node_at (dk_tree d) p = Some (FileNode content mt)) \<and> (\<forall>q. q \<noteq> p \<longrightarrow> node_at (dk_tree d) q = node_at t0 q)"

lemma open_append: "open_file base p content t0 d \<Longrightarrow> open_file base p (content @ bs) t0 (append_bytes p bs d)"
proof -
  assume o: "open_file base p content t0 d"
  then obtain n mt where p: "p = base @ [n]" "good_name n" and f: "node_at (dk_tree d) p = Some (FileNode content mt)"
    and u: "upload_dir (dk_tree d) base" by (auto simp: open_file_def)
  have t: "dk_tree (append_bytes p bs d) = al_put p (FileNode (content @ bs) (dk_clock d)) (dk_tree d)"
    by (simp add: append_bytes_def f)
  have "upload_dir (al_put (base @ [n]) (FileNode (content @ bs) (dk_clock d)) (dk_tree d)) base"
    by (rule upload_dir_put [OF u p(2)]) (use f p(1) in simp_all)
  then have "upload_dir (dk_tree (append_bytes p bs d)) base" using t [unfolded p(1)] p(1) by simp
  then show ?thesis using o p t [unfolded p(1)] by (auto simp: open_file_def node_at_put)
qed

lemma open_faults [simp]: "open_file base p content t0 (d\<lparr>dk_faults := xs\<rparr>) = open_file base p content t0 d"
  by (simp add: open_file_def)

lemma fs_append_open:
  assumes "open_file base p content t0 d" and "fs_append p bs d = (r, d')"
  shows "\<exists>k. open_file base p (content @ take k bs) t0 d' \<and> (r = Inr () \<longrightarrow> take k bs = bs)"
proof (cases "dk_faults d")
  case Nil
  then show ?thesis using assms open_append [OF assms(1), of bs] by (auto simp: fs_append_def intro!: exI [of _ "length bs"])
next
  case (Cons x xs)
  have o: "open_file base p content t0 (d\<lparr>dk_faults := xs\<rparr>)" using assms(1) by simp
  show ?thesis
  proof (cases x)
    case None
    then show ?thesis using assms(2) Cons open_append [OF o, of bs] by (auto simp: fs_append_def intro!: exI [of _ "length bs"])
  next
    case (Some ek)
    obtain e k where "ek = (e, k)" by fastforce
    then show ?thesis using assms(2) Cons Some open_append [OF o, of "take k bs"] by (auto simp: fs_append_def intro!: exI [of _ k])
  qed
qed

fun chunk_bytes :: "string + u8 list \<Rightarrow> u8 list" where
  "chunk_bytes (Inl e) = []"
| "chunk_bytes (Inr b) = b"

lemma receive_result:
  assumes "open_file base p content t0 d" and "receive_chunks cap p cs (length content) d = (r, d')" and "0 < cap \<longrightarrow> length content \<le> cap"
  shows "dk_rm_faults d' = dk_rm_faults d \<and> (\<exists>content'. open_file base p content' t0 d' \<and>
    ((\<exists>n. r = Inr n) \<longrightarrow> content' = content @ concat (map chunk_bytes cs) \<and> (0 < cap \<longrightarrow> length content' \<le> cap)))"
  using assms
proof (induction cs arbitrary: content d)
  case Nil
  obtain x d1 where a: "fs_append p [] d = (x, d1)" by fastforce
  from fs_append_open [OF Nil.prems(1) a] have o: "open_file base p content t0 d1" by auto
  have "dk_rm_faults d1 = dk_rm_faults d" using fs_append_rm [of p "[]" d] a by simp
  then show ?case using Nil.prems(2,3) a o
    by (cases x) (auto simp: map_err_def and_then_def intro!: exI [of _ content])
next
  case (Cons ch cs)
  show ?case
  proof (cases ch)
    case (Inl e)
    then show ?thesis using Cons.prems by (auto intro!: exI [of _ content])
  next
    case c: (Inr c)
    show ?thesis
    proof (cases "0 < cap \<and> cap < length content + length c")
      case True
      then show ?thesis using Cons.prems c by (auto intro!: exI [of _ content])
    next
      case False
      obtain x d1 where a: "fs_append p c d = (x, d1)" by fastforce
      from fs_append_open [OF Cons.prems(1) a] obtain k where
        k: "open_file base p (content @ take k c) t0 d1" "x = Inr () \<longrightarrow> take k c = c" by blast
      have rm: "dk_rm_faults d1 = dk_rm_faults d" using fs_append_rm [of p c d] a by simp
      show ?thesis
      proof (cases x)
        case (Inl e)
        then show ?thesis using Cons.prems(2) False a c k(1) rm by (auto intro!: exI [of _ "content @ take k c"])
      next
        case (Inr u)
        have o: "open_file base p (content @ c) t0 d1" using k Inr by simp
        have r: "receive_chunks cap p cs (length (content @ c)) d1 = (r, d')" using Cons.prems(2) False a c Inr by auto
        from Cons.IH [OF o r] False show ?thesis using rm c by auto
      qed
    qed
  qed
qed

subsection \<open>All files of a request or none\<close>

text \<open>What the request has written so far, with the contents, against the tree it started from.\<close>

definition written_so_far :: "fpath \<Rightarrow> file_tree \<Rightarrow> (fpath \<times> u8 list) list \<Rightarrow> disk \<Rightarrow> bool" where
  "written_so_far base t0 ws d \<longleftrightarrow>
     upload_dir (dk_tree d) base \<and> dk_rm_faults d = [] \<and> distinct (map fst ws) \<and>
     (\<forall>(p, b) \<in> set ws. (\<exists>n. p = base @ [n] \<and> good_name n) \<and> node_at t0 p = None \<and> (\<exists>mt. node_at (dk_tree d) p = Some (FileNode b mt))) \<and>
     (\<forall>q. q \<notin> fst ` set ws \<longrightarrow> node_at (dk_tree d) q = node_at t0 q)"

lemma written_name: "written_so_far base t0 ws d \<Longrightarrow> p \<in> fst ` set ws \<Longrightarrow> \<exists>n. p = base @ [n] \<and> good_name n"
  by (fastforce simp: written_so_far_def)

lemma written_new: "written_so_far base t0 ws d \<Longrightarrow> p \<in> fst ` set ws \<Longrightarrow> node_at t0 p = None"
  by (fastforce simp: written_so_far_def)

lemma written_dir: "written_so_far base t0 ws d \<Longrightarrow> upload_dir (dk_tree d) base \<and> dk_rm_faults d = []"
  by (simp add: written_so_far_def)

lemma remove_uploaded:
  assumes "upload_dir (dk_tree d) base" and "dk_rm_faults d = []" and "good_name n" and "node_at (dk_tree d) (base @ [n]) = Some (FileNode b mt)"
  shows "fs_remove_file (base @ [n]) d = (Inr (), d\<lparr>dk_tree := al_del (base @ [n]) (dk_tree d)\<rparr>)"
  using assms upload_entry_loc [OF assms(1,3)] by (simp add: fs_remove_file_def rm_faulty_def)

lemma rollback_result:
  assumes "upload_dir (dk_tree d) base" and "dk_rm_faults d = []" and "distinct ps"
    and "\<forall>p \<in> set ps. (\<exists>n. p = base @ [n] \<and> good_name n) \<and> (\<exists>b mt. node_at (dk_tree d) p = Some (FileNode b mt))"
  shows "node_at (dk_tree (fold (\<lambda>p d. snd (fs_remove_file p d)) ps d)) q = (if q \<in> set ps then None else node_at (dk_tree d) q)"
  using assms
proof (induction ps arbitrary: d)
  case (Cons p ps)
  from Cons.prems(4) obtain n b mt where p: "p = base @ [n]" "good_name n" "node_at (dk_tree d) p = Some (FileNode b mt)" by auto
  let ?d = "d\<lparr>dk_tree := al_del (base @ [n]) (dk_tree d)\<rparr>"
  have r: "snd (fs_remove_file p d) = ?d" using remove_uploaded [OF Cons.prems(1,2) p(2)] p by simp
  have n: "node_at (dk_tree ?d) x = (if x = p then None else node_at (dk_tree d) x)" for x by (simp add: node_at_del p(1))
  have "upload_dir (dk_tree ?d) base" using upload_dir_del [OF Cons.prems(1), of n] p by simp
  moreover have "\<forall>x \<in> set ps. (\<exists>n. x = base @ [n] \<and> good_name n) \<and> (\<exists>b mt. node_at (dk_tree ?d) x = Some (FileNode b mt))"
  proof
    fix x assume x: "x \<in> set ps"
    then have "x \<noteq> p" using Cons.prems(3) by auto
    then show "(\<exists>n. x = base @ [n] \<and> good_name n) \<and> (\<exists>b mt. node_at (dk_tree ?d) x = Some (FileNode b mt))"
      using Cons.prems(4) x unfolding n by simp
  qed
  moreover have "dk_rm_faults ?d = []" "distinct ps" using Cons.prems(2,3) by simp_all
  ultimately have "node_at (dk_tree (fold (\<lambda>p d. snd (fs_remove_file p d)) ps ?d)) q =
      (if q \<in> set ps then None else node_at (dk_tree ?d) q)"
    by (intro Cons.IH)
  moreover have "fold (\<lambda>p d. snd (fs_remove_file p d)) (p # ps) d = fold (\<lambda>p d. snd (fs_remove_file p d)) ps ?d" by (simp add: r)
  ultimately show ?case unfolding n by simp
qed simp

lemma rollback_restores:
  assumes "written_so_far base t0 ws d"
  shows "node_at (dk_tree (rollback_uploads (map fst ws) None d)) q = node_at t0 q"
proof -
  have "rollback_uploads (map fst ws) None d = fold (\<lambda>p d. snd (fs_remove_file p d)) (map fst ws) d"
    by (simp add: rollback_uploads_def)
  moreover have "\<forall>p \<in> set (map fst ws). (\<exists>n. p = base @ [n] \<and> good_name n) \<and> (\<exists>b mt. node_at (dk_tree d) p = Some (FileNode b mt))"
    using assms by (fastforce simp: written_so_far_def)
  ultimately have "node_at (dk_tree (rollback_uploads (map fst ws) None d)) q =
      (if q \<in> set (map fst ws) then None else node_at (dk_tree d) q)"
    using rollback_result [of d base "map fst ws" q] assms by (simp add: written_so_far_def)
  then show ?thesis using written_new [OF assms, of q] assms by (auto simp: written_so_far_def)
qed

lemma written_extend:
  assumes w: "written_so_far base t0 ws d" and o: "open_file base p content (dk_tree d) d'" and rm: "dk_rm_faults d' = []"
    and new: "node_at (dk_tree d) p = None"
  shows "written_so_far base t0 (ws @ [(p, content)]) d'"
proof -
  obtain n where p: "p = base @ [n]" "good_name n" using o by (auto simp: open_file_def)
  have other: "p \<notin> fst ` set ws" using w new by (fastforce simp: written_so_far_def)
  then have new0: "node_at t0 p = None" using w new by (auto simp: written_so_far_def)
  have same: "node_at (dk_tree d') x = node_at (dk_tree d) x" if "x \<noteq> p" for x using o that by (simp add: open_file_def)
  have mine: "\<exists>mt. node_at (dk_tree d') p = Some (FileNode content mt)" "upload_dir (dk_tree d') base" using o by (auto simp: open_file_def)
  have "(\<exists>n. x = base @ [n] \<and> good_name n) \<and> node_at t0 x = None \<and> (\<exists>mt. node_at (dk_tree d') x = Some (FileNode b mt))"
    if x: "(x, b) \<in> set ws" for x b
  proof -
    have "x \<noteq> p" using x other by force
    moreover have "(\<exists>n. x = base @ [n] \<and> good_name n) \<and> node_at t0 x = None \<and> (\<exists>mt. node_at (dk_tree d) x = Some (FileNode b mt))"
      using w x by (auto simp: written_so_far_def)
    ultimately show ?thesis using same by simp
  qed
  moreover have "node_at (dk_tree d') q = node_at t0 q" if "q \<notin> fst ` set ws" "q \<noteq> p" for q
    using w same [OF that(2)] that(1) by (simp add: written_so_far_def)
  moreover have "distinct (map fst ws)" using w by (simp add: written_so_far_def)
  ultimately show ?thesis using new0 mine rm p other by (auto simp: written_so_far_def)
qed

text \<open>What a form uploads: the contents of its file fields, in order.\<close>

fun file_contents :: "form \<Rightarrow> u8 list list" where
  "file_contents [] = []"
| "file_contents (Inl e # ps) = file_contents ps"
| "file_contents (Inr p # ps) =
     (if ff_file p = None then file_contents ps else concat (map chunk_bytes (ff_chunks p)) # file_contents ps)"

definition capped :: "nat \<Rightarrow> (fpath \<times> u8 list) list \<Rightarrow> bool" where
  "capped cap ws \<longleftrightarrow> 0 < cap \<longrightarrow> (\<forall>(p, b) \<in> set ws. length b \<le> cap)"

definition uploaded ::
  "nat \<Rightarrow> fpath \<Rightarrow> file_tree \<Rightarrow> (fpath \<times> u8 list) list \<Rightarrow> form \<Rightarrow> fpath list tried \<times> disk \<Rightarrow> bool" where
  "uploaded cap base t0 ws parts res \<longleftrightarrow>
     (case res of
        (Inl e, d') \<Rightarrow> \<forall>q. node_at (dk_tree d') q = node_at t0 q
      | (Inr paths, d') \<Rightarrow> \<exists>ws'. paths = map fst (ws @ ws') \<and> written_so_far base t0 (ws @ ws') d' \<and>
          map snd ws' = file_contents parts \<and> capped cap ws')"

lemma uploaded_refused: "written_so_far base t0 ws d \<Longrightarrow> uploaded cap base t0 ws parts (Inl e, rollback_uploads (map fst ws) None d)"
  using rollback_restores by (simp add: uploaded_def)

lemma uploaded_step:
  assumes w: "written_so_far base t0 ws d" and g: "good_name b"
    and c: "create_new_upload_file env base b d = (x, d1)"
  shows "(\<exists>e. x = Inl e) \<and> written_so_far base t0 ws d1 \<or>
    (\<exists>p. x = Inr p \<and> open_file base p [] (dk_tree d) d1 \<and> node_at (dk_tree d) p = None \<and> dk_rm_faults d1 = [])"
proof -
  note u = written_dir [OF w]
  from new_file_result [OF u [THEN conjunct1] g c [unfolded create_new_upload_file_def]] u
  have rm: "dk_rm_faults d1 = []" by simp
  from new_file_result [OF u [THEN conjunct1] g c [unfolded create_new_upload_file_def]]
  show ?thesis
  proof (elim conjE disjE exE)
    fix e assume "x = Inl e" "dk_tree d1 = dk_tree d"
    then show ?thesis using w rm by (simp add: written_so_far_def)
  next
    fix k mt
    assume x: "x = Inr (base @ [upload_name b k])" and new: "node_at (dk_tree d) (base @ [upload_name b k]) = None"
      and t: "dk_tree d1 = al_put (base @ [upload_name b k]) (FileNode [] mt) (dk_tree d)"
    note gk = upload_name_good [OF g, of k]
    have "upload_dir (dk_tree d1) base" unfolding t by (rule upload_dir_put [OF u [THEN conjunct1] gk]) (use new in simp_all)
    then have "open_file base (base @ [upload_name b k]) [] (dk_tree d) d1" using gk by (auto simp: open_file_def t node_at_put)
    then show ?thesis using x new rm by blast
  qed
qed

lemma rollback_current:
  assumes w: "written_so_far base t0 ws d" and o: "open_file base p content (dk_tree d) d'" and rm: "dk_rm_faults d' = []"
    and new: "node_at (dk_tree d) p = None"
  shows "node_at (dk_tree (rollback_uploads (map fst ws) (Some p) d')) q = node_at t0 q"
proof -
  note e = written_extend [OF assms]
  have "rollback_uploads (map fst ws) (Some p) d' = rollback_uploads (map fst (ws @ [(p, content)])) None d'"
    by (simp add: rollback_uploads_def)
  then show ?thesis using rollback_restores [OF e] by simp
qed

lemma uploaded_cons:
  assumes u: "uploaded cap base t0 (ws @ [(q, content)]) parts res" and cap: "0 < cap \<longrightarrow> length content \<le> cap"
    and f: "file_contents (part # parts) = content # file_contents parts"
  shows "uploaded cap base t0 ws (part # parts) res"
proof -
  obtain x d' where res: "res = (x, d')" by fastforce
  show ?thesis
  proof (cases x)
    case (Inl e)
    then show ?thesis using u by (simp add: uploaded_def res)
  next
    case (Inr paths)
    then obtain ws' where ws': "paths = map fst ((ws @ [(q, content)]) @ ws')" "written_so_far base t0 ((ws @ [(q, content)]) @ ws') d'"
        "map snd ws' = file_contents parts" "capped cap ws'" using u by (auto simp: uploaded_def res)
    have "capped cap ((q, content) # ws')" using ws'(4) cap by (simp add: capped_def)
    moreover have "map snd ((q, content) # ws') = file_contents (part # parts)" using ws'(3) f by simp
    moreover have "paths = map fst (ws @ ((q, content) # ws'))" "written_so_far base t0 (ws @ ((q, content) # ws')) d'"
      using ws'(1,2) by simp_all
    ultimately show ?thesis unfolding uploaded_def res Inr by (simp only: prod.case sum.case) blast
  qed
qed

lemma uploads_parts_result:
  "written_so_far base t0 ws d \<Longrightarrow> uploaded cap base t0 ws parts (uploads_parts env cap base parts (map fst ws) d)"
proof (induction parts arbitrary: ws d)
  case Nil
  then show ?case by (auto simp: uploaded_def capped_def intro!: exI [of _ "[]"])
next
  case (Cons part parts)
  note w = Cons.prems
  show ?case
  proof (cases part)
    case (Inl e)
    then show ?thesis using uploaded_refused [OF w] by simp
  next
    case part: (Inr p)
    show ?thesis
    proof (cases "ff_name p = Some ''path''")
      case True
      then show ?thesis using part uploaded_refused [OF w] by simp
    next
      case np: False
      show ?thesis
      proof (cases "ff_file p")
        case None
        then show ?thesis using part np Cons.IH [OF w] by (simp add: uploaded_def split: prod.splits sum.splits)
      next
        case (Some raw)
        show ?thesis
        proof (cases "sanitize_upload_basename raw")
          case (Inl e)
          then show ?thesis using part np Some uploaded_refused [OF w] by simp
        next
          case (Inr b)
          have g: "good_name b" using sanitize_good [OF Inr] by blast
          obtain x d1 where c: "create_new_upload_file env base b d = (x, d1)" by fastforce
          from uploaded_step [OF w g c] show ?thesis
          proof (elim disjE conjE exE)
            fix e assume "x = Inl e" "written_so_far base t0 ws d1"
            then show ?thesis using part np Some Inr c uploaded_refused by simp
          next
            fix q assume x: "x = Inr q" and o: "open_file base q [] (dk_tree d) d1" and new: "node_at (dk_tree d) q = None"
              and rm: "dk_rm_faults d1 = []"
            obtain y d2 where r: "receive_chunks cap q (ff_chunks p) 0 d1 = (y, d2)" by fastforce
            from receive_result [OF o, of cap "ff_chunks p" y d2] r rm obtain content where rm2: "dk_rm_faults d2 = []"
              and o2: "open_file base q content (dk_tree d) d2"
              and good: "(\<exists>n. y = Inr n) \<longrightarrow> content = concat (map chunk_bytes (ff_chunks p)) \<and> (0 < cap \<longrightarrow> length content \<le> cap)"
              by auto
            show ?thesis
            proof (cases y)
              case (Inl e)
              then show ?thesis using part np Some \<open>sanitize_upload_basename raw = Inr b\<close> c x r rollback_current [OF w o2 rm2 new]
                by (simp add: uploaded_def)
            next
              case y: (Inr n)
              note w2 = written_extend [OF w o2 rm2 new]
              have e: "uploads_parts env cap base (part # parts) (map fst ws) d = uploads_parts env cap base parts (map fst (ws @ [(q, content)])) d2"
                using part np Some \<open>sanitize_upload_basename raw = Inr b\<close> c x r y by simp
              have f: "file_contents (part # parts) = content # file_contents parts" using part Some good y by simp
              have cap: "0 < cap \<longrightarrow> length content \<le> cap" using good y by blast
              show ?thesis unfolding e by (rule uploaded_cons [OF Cons.IH [OF w2] cap f])
            qed
          qed
        qed
      qed
    qed
  qed
qed

text \<open>
  C31. Uploading files to the upload directory is all or nothing. When the form is refused at any point (a bad name, a field
  that is not allowed, a file over the cap, a stream that breaks, a write that fails), the tree is as it was before, provided files
  can be removed. Otherwise each file field has become one new file with exactly its bytes, within the cap, under a
  name that was free, and nothing else has changed.
\<close>

theorem uploads_all_or_nothing:
  assumes "upload_dir (dk_tree d) base" and "dk_rm_faults d = []"
  shows "case uploads_parts env cap base parts [] d of
      (Inl e, d') \<Rightarrow> \<forall>q. node_at (dk_tree d') q = node_at (dk_tree d) q
    | (Inr paths, d') \<Rightarrow> \<exists>ws. paths = map fst ws \<and> distinct paths \<and> map snd ws = file_contents parts \<and>
        (\<forall>(p, b) \<in> set ws. butlast p = base \<and> node_at (dk_tree d) p = None \<and> (\<exists>mt. node_at (dk_tree d') p = Some (FileNode b mt)) \<and>
          (0 < cap \<longrightarrow> length b \<le> cap)) \<and>
        (\<forall>q. q \<notin> set paths \<longrightarrow> node_at (dk_tree d') q = node_at (dk_tree d) q)"
proof -
  have "written_so_far base (dk_tree d) [] d" using assms by (simp add: written_so_far_def)
  from uploads_parts_result [OF this, of cap parts env] show ?thesis
    by (auto simp: uploaded_def written_so_far_def capped_def split: prod.splits sum.splits) fastforce+
qed

subsection \<open>A free name is found\<close>

lemma no_fault_create:
  assumes "upload_dir (dk_tree d) base" and "good_name n" and "dk_faults d = []"
  shows "fs_create_new (base @ [n]) d =
    (if node_at (dk_tree d) (base @ [n]) = None then (Inr (), set_node (base @ [n]) (FileNode [] (dk_clock d)) d) else (Inl EEXIST, d))"
  using assms upload_entry_loc [OF assms(1,2)] by (simp add: fs_create_new_def faulty_def put_new_def)

lemma new_file_found:
  assumes "upload_dir (dk_tree d) base" and "good_name b" and "dk_faults d = []"
    and "n \<le> k" and "k < u32_limit" and "node_at (dk_tree d) (base @ [upload_name b k]) = None"
  shows "\<exists>p d'. new_file_loop env base b n d = (Inr p, d')"
  using assms(4)
proof (induction "k - n" arbitrary: n)
  case 0
  then have n: "n = k" by simp
  note g = upload_name_good [OF assms(2), of k]
  show ?case unfolding n
    by (subst new_file_loop.simps)
      (simp add: push_good [OF g] upload_under [OF assms(1)] no_fault_create [OF assms(1) g assms(3)] assms(6) butlast_append Let_def)
next
  case (Suc x)
  note g = upload_name_good [OF assms(2), of n]
  have lt: "n < k" "Suc n < u32_limit" using Suc.hyps(2) assms(5) by linarith+
  have "\<exists>p d'. new_file_loop env base b (Suc n) d = (Inr p, d')" using Suc.hyps lt by simp
  then show ?case
    by (subst new_file_loop.simps)
      (simp add: push_good [OF g] upload_under [OF assms(1)] no_fault_create [OF assms(1) g assms(3)] lt butlast_append Let_def)
qed

lemma some_name_free:
  assumes "length t < u32_limit - 1"
  shows "\<exists>k < u32_limit. node_at t (base @ [upload_name b k]) = None"
proof (rule ccontr)
  assume no: "\<not> (\<exists>k < u32_limit. node_at t (base @ [upload_name b k]) = None)"
  let ?f = "\<lambda>k. base @ [upload_name b k]"
  have "inj_on ?f {1..<u32_limit}" by (auto intro!: inj_onI simp: upload_name_def dest: suffixed_inj)
  moreover have "?f ` {1..<u32_limit} \<subseteq> fst ` set t"
  proof
    fix p assume "p \<in> ?f ` {1..<u32_limit}"
    then obtain k where k: "p = ?f k" "k < u32_limit" by auto
    then obtain v where "node_at t p = Some v" using no by auto
    moreover have "p \<noteq> []" using k by simp
    ultimately show "p \<in> fst ` set t" using node_at_in by force
  qed
  ultimately have "card {1..<u32_limit} \<le> card (fst ` set t)" by (metis List.finite_set card_image card_mono finite_imageI)
  also have "\<dots> \<le> length t" by (metis card_image_le card_length finite_set le_trans)
  finally show False using assms by simp
qed

text \<open>
  C33. An upload is never refused for its name being taken, unless the disk holds four billion entries: the numbered names of
  a file all differ, so one of them is free, and the search finds it.
\<close>

theorem upload_finds_a_name:
  assumes "upload_dir (dk_tree d) base" and "sanitize_upload_basename raw = Inr b" and "dk_faults d = []"
    and "length (dk_tree d) < u32_limit - 1"
  shows "\<exists>p d'. create_new_upload_file env base b d = (Inr p, d') \<and> node_at (dk_tree d) p = None \<and> butlast p = base"
proof -
  have g: "good_name b" using sanitize_good [OF assms(2)] by blast
  obtain k where "k < u32_limit" "node_at (dk_tree d) (base @ [upload_name b k]) = None" using some_name_free [OF assms(4)] by blast
  from new_file_found [OF assms(1) g assms(3) _ this] obtain p d' where n: "new_file_loop env base b 0 d = (Inr p, d')" by blast
  from new_file_result [OF assms(1) g n] show ?thesis using n by (auto simp: create_new_upload_file_def)
qed

subsection \<open>Trimming\<close>

definition uploads_in :: "file_tree \<Rightarrow> fpath \<Rightarrow> upload_file list" where
  "uploads_in t base = all_some (map (upload_entry t base) (names_under t base))"

definition oldest_first :: "upload_file list \<Rightarrow> upload_file list" where
  "oldest_first = sort_key (\<lambda>f. (uf_modified f, uf_name f))"

definition within :: "nat \<Rightarrow> nat \<Rightarrow> upload_file list \<Rightarrow> upload_file list \<Rightarrow> bool" where
  "within cap_bytes cap_count files gone \<longleftrightarrow>
     sum_list (map uf_size files) - sum_list (map uf_size gone) \<le> cap_bytes \<and> length files - length gone \<le> cap_count"

text \<open>A file that is there, directly in the directory.\<close>

definition present :: "file_tree \<Rightarrow> fpath \<Rightarrow> upload_file \<Rightarrow> bool" where
  "present t base f \<longleftrightarrow> (\<exists>n b mt. uf_path f = base @ [n] \<and> good_name n \<and> node_at t (uf_path f) = Some (FileNode b mt))"

lemma trim_loop_result:
  assumes "upload_dir (dk_tree d) base" and "dk_rm_faults d = []" and "distinct (map uf_path fs)" and "\<forall>f \<in> set fs. present (dk_tree d) base f"
    and "trim_loop env cap_b cap_c fs bytes cnt d = (r, d')"
  shows "\<exists>k \<le> length fs. r = Inr () \<and>
    (\<forall>q. node_at (dk_tree d') q = (if q \<in> uf_path ` set (take k fs) then None else node_at (dk_tree d) q)) \<and>
    (k < length fs \<longrightarrow> bytes - sum_list (map uf_size (take k fs)) \<le> cap_b \<and> cnt - k \<le> cap_c) \<and>
    (\<forall>j < k. \<not> (bytes - sum_list (map uf_size (take j fs)) \<le> cap_b \<and> cnt - j \<le> cap_c))"
  using assms
proof (induction fs arbitrary: bytes cnt d)
  case Nil
  then show ?case by simp
next
  case (Cons f fs)
  show ?case
  proof (cases "bytes \<le> cap_b \<and> cnt \<le> cap_c")
    case True
    then show ?thesis using Cons.prems(5) by (auto intro!: exI [of _ 0])
  next
    case False
    from Cons.prems(4) obtain n b mt where f: "uf_path f = base @ [n]" "good_name n" "node_at (dk_tree d) (base @ [n]) = Some (FileNode b mt)"
      by (auto simp: present_def)
    let ?d = "d\<lparr>dk_tree := al_del (base @ [n]) (dk_tree d)\<rparr>"
    have n: "node_at (dk_tree ?d) q = (if q = uf_path f then None else node_at (dk_tree d) q)" for q by (simp add: node_at_del f(1))
    have step: "trim_loop env cap_b cap_c fs (bytes - uf_size f) (cnt - 1) ?d = (r, d')"
      using Cons.prems(5) False remove_uploaded [OF Cons.prems(1,2) f(2,3)] f(1) by auto
    have u: "upload_dir (dk_tree ?d) base" using upload_dir_del [OF Cons.prems(1), of n] f(3) by simp
    have "present (dk_tree ?d) base x" if "x \<in> set fs" for x
    proof -
      have "uf_path f \<notin> uf_path ` set fs" using Cons.prems(3) by simp
      then have "uf_path x \<noteq> uf_path f" using that by (metis imageI)
      then show ?thesis using Cons.prems(4) that unfolding present_def n by simp
    qed
    then obtain k where k: "k \<le> length fs" "r = Inr ()"
      "\<forall>q. node_at (dk_tree d') q = (if q \<in> uf_path ` set (take k fs) then None else node_at (dk_tree ?d) q)"
      "k < length fs \<longrightarrow> bytes - uf_size f - sum_list (map uf_size (take k fs)) \<le> cap_b \<and> cnt - 1 - k \<le> cap_c"
      "\<forall>j < k. \<not> (bytes - uf_size f - sum_list (map uf_size (take j fs)) \<le> cap_b \<and> cnt - 1 - j \<le> cap_c)"
      using Cons.IH [OF u _ _ _ step] Cons.prems(2,3) by auto
    have "\<not> (bytes - sum_list (map uf_size (take j (f # fs))) \<le> cap_b \<and> cnt - j \<le> cap_c)" if "j < Suc k" for j
      using that False k(5) by (cases j) (auto simp: less_Suc_eq_0_disj)
    moreover have "node_at (dk_tree d') q = (if q \<in> uf_path ` set (take (Suc k) (f # fs)) then None else node_at (dk_tree d) q)" for q
      using k(3) unfolding n by auto
    ultimately show ?thesis using k(1,2,4) by (intro exI [of _ "Suc k"]) auto
  qed
qed

lemma names_distinct: "tree_wf t \<Longrightarrow> distinct (names_under t q)"
proof -
  assume wf: "tree_wf t"
  let ?l = "filter (\<lambda>(p, _). p \<noteq> [] \<and> butlast p = q) t"
  have "distinct (map fst ?l)" using wf by (simp add: tree_wf_def al_wf_def distinct_map_filter)
  moreover have "inj_on last (set (map fst ?l))"
    by (rule inj_onI) (auto, metis append_butlast_last_id)
  ultimately have "distinct (map last (map fst ?l))" by (simp add: distinct_map del: map_map)
  then show ?thesis by (simp add: names_under_def)
qed

lemma names_good: "tree_wf t \<Longrightarrow> n \<in> set (names_under t q) \<Longrightarrow> good_name n"
  using tree_wfD by (fastforce simp: names_under_def)

lemma upload_entry_some:
  "upload_dir t base \<Longrightarrow> good_name n \<Longrightarrow> upload_entry t base n = Some f \<Longrightarrow>
     n \<noteq> UPLOAD_MARKER \<and> uf_path f = base @ [n] \<and> present t base f"
  using upload_entry_loc [of t base n]
  by (auto simp: upload_entry_def lstat_def present_def split: if_splits option.splits fnode.splits)

lemma uploads_in_facts:
  assumes "upload_dir t base"
  shows "distinct (map uf_path (uploads_in t base)) \<and> (\<forall>f \<in> set (uploads_in t base). present t base f \<and> uf_path f \<noteq> base @ [UPLOAD_MARKER])"
proof -
  have wf: "tree_wf t" using assms by (simp add: upload_dir_def)
  have "distinct (map uf_path (all_some (map (upload_entry t base) ns))) \<and>
      (\<forall>f \<in> set (all_some (map (upload_entry t base) ns)). \<exists>n \<in> set ns. uf_path f = base @ [n] \<and> present t base f \<and> n \<noteq> UPLOAD_MARKER)"
    if "distinct ns" "\<forall>n \<in> set ns. good_name n" for ns
    using that
  proof (induction ns)
    case (Cons n ns)
    show ?case
    proof (cases "upload_entry t base n")
      case None
      then show ?thesis using Cons by (auto simp: all_some_def)
    next
      case (Some f)
      have f: "n \<noteq> UPLOAD_MARKER" "uf_path f = base @ [n]" "present t base f" using upload_entry_some [OF assms _ Some] Cons.prems(2) by auto
      then show ?thesis using Cons Some by (fastforce simp: all_some_def)
    qed
  qed (simp add: all_some_def)
  from this [OF names_distinct [OF wf]] names_good [OF wf] show ?thesis by (fastforce simp: uploads_in_def)
qed

text \<open>
  C32. Trimming removes the oldest uploads first and no more than needed. What goes is a beginning of the list of the files that
  the request did not just write, oldest first; it is the shortest one after which size and number are within the caps,
  and all of it if none is; the marker, directories and links stay.
\<close>

theorem trimming_removes_the_oldest:
  assumes "upload_dir (dk_tree d) base" and "dk_rm_faults d = []" and "upload_marker_present (dk_tree d) base"
    and "trim_uploads_dir env base keep cap_mb cap_count d = (Inr u, d')"
  shows "\<exists>k. let files = uploads_in (dk_tree d) base; old = oldest_first (filter (\<lambda>f. uf_path f \<notin> set keep) files);
       cap = u64_sat (u64_sat (cap_mb * 1024) * 1024) in
     k \<le> length old \<and>
     (\<forall>q. node_at (dk_tree d') q = (if q \<in> uf_path ` set (take k old) then None else node_at (dk_tree d) q)) \<and>
     (k < length old \<longrightarrow> within cap cap_count files (take k old)) \<and> (\<forall>j < k. \<not> within cap cap_count files (take j old))"
proof -
  let ?files = "uploads_in (dk_tree d) base"
  let ?old = "oldest_first (filter (\<lambda>f. uf_path f \<notin> set keep) ?files)"
  from assms(3,4) obtain names d1 where rd: "fs_read_dir base d = (Inr names, d1)"
    and t: "trim_loop env (u64_sat (u64_sat (cap_mb * 1024) * 1024)) cap_count
          (sort_key (\<lambda>f. (uf_modified f, uf_name f)) (filter (\<lambda>f. uf_path f \<notin> set keep) (all_some (map (upload_entry (dk_tree d1) base) names))))
          (sum_list (map uf_size (all_some (map (upload_entry (dk_tree d1) base) names)))) (length (all_some (map (upload_entry (dk_tree d1) base) names))) d1
        = (Inr u, d')"
    by (auto simp: trim_uploads_dir_def collect_upload_files_def and_then_def map_err_def split: prod.splits sum.splits)
  have c: "canonicalize (dk_tree d) base = Inr base"
    using canonicalize_self assms(1) by (simp add: upload_dir_def solid_dir)
  from rd have d1: "dk_tree d1 = dk_tree d" "names = names_under (dk_tree d) base" "dk_rm_faults d1 = dk_rm_faults d"
    using assms(1) unfolding fs_read_dir_def
    by (auto simp: faulty_def c upload_dir_def split: list.splits option.splits)
  have t: "trim_loop env (u64_sat (u64_sat (cap_mb * 1024) * 1024)) cap_count ?old (sum_list (map uf_size ?files)) (length ?files) d1 = (Inr u, d')"
    using t by (simp add: d1 uploads_in_def oldest_first_def)
  note facts = uploads_in_facts [OF assms(1)]
  have dist: "distinct (map uf_path ?old)"
    using facts by (auto simp: oldest_first_def distinct_map intro: inj_on_subset)
  have pres: "\<forall>f \<in> set ?old. present (dk_tree d1) base f" using facts by (simp add: oldest_first_def d1(1))
  have up: "upload_dir (dk_tree d1) base" "dk_rm_faults d1 = []" using assms(1,2) d1 by simp_all
  from trim_loop_result [OF up dist pres t] obtain k where k: "k \<le> length ?old"
    "\<forall>q. node_at (dk_tree d') q = (if q \<in> uf_path ` set (take k ?old) then None else node_at (dk_tree d1) q)"
    "k < length ?old \<longrightarrow> sum_list (map uf_size ?files) - sum_list (map uf_size (take k ?old)) \<le> u64_sat (u64_sat (cap_mb * 1024) * 1024) \<and> length ?files - k \<le> cap_count"
    "\<forall>j < k. \<not> (sum_list (map uf_size ?files) - sum_list (map uf_size (take j ?old)) \<le> u64_sat (u64_sat (cap_mb * 1024) * 1024) \<and> length ?files - j \<le> cap_count)"
    by blast
  then show ?thesis unfolding Let_def within_def d1(1) by (intro exI [of _ k]) auto
qed

subsection \<open>Uploads into the workspace\<close>

text \<open>
  A file cannot be uploaded into a directory that does not exist, although the code is there to make it: the path is resolved
  before, and the request is refused.
\<close>

theorem upload_needs_its_directory:
  assumes "parent_text rel = Some parent" and "normalize_join dest_dir parent = Inr sub"
    and "canonicalize (dk_tree d) root = Inr root" and "canonicalize (dk_tree d) sub = Inl e"
  shows "upload_dest env root dest_dir rel d = (Inl (404, ''path''), d)"
  using assms by (simp add: upload_dest_def and_then_def path_must_be_under_def)

subsection \<open>Examples\<close>

definition uploads_disk :: disk where
  "uploads_disk = disk_of [([[117]], DirNode), ([[117], UPLOAD_MARKER], FileNode [] 0), ([[117], [97]], FileNode [1, 2] 1),
     ([[117], [98]], FileNode [3] 2)]"

lemma uploads_disk_dir: "upload_dir (dk_tree uploads_disk) [[117]]"
  by (simp add: upload_dir_def uploads_disk_def disk_of_def tree_wf_def al_wf_def node_at_def good_name_def DOTDOT_def UPLOAD_MARKER_def lit_def)

lemma uploads_disk_faults: "dk_faults uploads_disk = []" "dk_rm_faults uploads_disk = []"
  by (simp_all add: uploads_disk_def disk_of_def)

lemma uploads_disk_marker: "upload_marker_present (dk_tree uploads_disk) [[117]]"
proof -
  have "good_name UPLOAD_MARKER" by (simp add: good_name_def DOTDOT_def UPLOAD_MARKER_def lit_def)
  from upload_entry_loc [OF uploads_disk_dir this] show ?thesis
    by (simp add: upload_marker_present_def lstat_def uploads_disk_def disk_of_def node_at_def)
qed

definition one_file :: form where
  "one_file = [Inr \<lparr>ff_name = Some ''file'', ff_file = Some [97], ff_text = Inr [], ff_chunks = [Inr [7], Inr [8, 9]]\<rparr>]"

lemma uploads_all_or_nothing_witness:
  "case uploads_parts files_env 2 [[117]] one_file [] uploads_disk of
      (Inl e, d') \<Rightarrow> node_at (dk_tree d') [[117], [97]] = Some (FileNode [1, 2] 1)
    | (Inr paths, d') \<Rightarrow> length paths = 1"
proof -
  obtain r d' where e: "uploads_parts files_env 2 [[117]] one_file [] uploads_disk = (r, d')" by fastforce
  have n: "node_at (dk_tree uploads_disk) [[117], [97]] = Some (FileNode [1, 2] 1)"
    by (simp add: uploads_disk_def disk_of_def node_at_def UPLOAD_MARKER_def lit_def)
  have c: "file_contents one_file = [[7, 8, 9]]" by (simp add: one_file_def)
  note u = uploads_all_or_nothing [OF uploads_disk_dir uploads_disk_faults(2), where env = files_env and cap = 2 and parts = one_file, unfolded e c]
  show ?thesis
  proof (cases r)
    case (Inl x)
    then show ?thesis using u n by (simp add: e)
  next
    case (Inr paths)
    then obtain ws where "paths = map fst ws" "map snd ws = [[7, 8, 9]]" using u by auto
    then have "length paths = 1" by auto
    then show ?thesis by (simp add: e Inr)
  qed
qed

lemma upload_finds_a_name_witness:
  "\<exists>p d'. create_new_upload_file files_env [[117]] [97] uploads_disk = (Inr p, d') \<and> node_at (dk_tree uploads_disk) p = None"
proof -
  have "sanitize_upload_basename [97] = Inr [97]"
    by (simp add: sanitize_upload_basename_def DOTDOT_def UPLOAD_MARKER_def lit_def is_ascii_control_def odd_component_def is_absolute_def
        starts_with_def)
  moreover have "length (dk_tree uploads_disk) < u32_limit - 1" by (simp add: uploads_disk_def disk_of_def u32_limit_def)
  ultimately show ?thesis using upload_finds_a_name [OF uploads_disk_dir _ uploads_disk_faults(1)] by blast
qed

lemma trim_succeeds:
  assumes "upload_dir (dk_tree d) base" and "dk_faults d = []" and "dk_rm_faults d = []"
  shows "\<exists>d'. trim_uploads_dir env base keep cap_mb cap_count d = (Inr (), d')"
proof (cases "upload_marker_present (dk_tree d) base")
  case True
  have c: "canonicalize (dk_tree d) base = Inr base"
    using canonicalize_self assms(1) by (simp add: upload_dir_def solid_dir)
  have rd: "fs_read_dir base d = (Inr (names_under (dk_tree d) base), d)"
    using assms(1,2) by (simp add: fs_read_dir_def faulty_def c upload_dir_def)
  let ?old = "oldest_first (filter (\<lambda>f. uf_path f \<notin> set keep) (uploads_in (dk_tree d) base))"
  note facts = uploads_in_facts [OF assms(1)]
  have dist: "distinct (map uf_path ?old)" using facts by (auto simp: oldest_first_def distinct_map intro: inj_on_subset)
  have pres: "\<forall>f \<in> set ?old. present (dk_tree d) base f" using facts by (simp add: oldest_first_def)
  obtain r d' where t: "trim_loop env (u64_sat (u64_sat (cap_mb * 1024) * 1024)) cap_count ?old
      (sum_list (map uf_size (uploads_in (dk_tree d) base))) (length (uploads_in (dk_tree d) base)) d = (r, d')" by fastforce
  from trim_loop_result [OF assms(1,3) dist pres t] have "r = Inr ()" by blast
  then show ?thesis
    using t True by (simp add: trim_uploads_dir_def collect_upload_files_def and_then_def map_err_def rd uploads_in_def oldest_first_def)
qed (simp add: trim_uploads_dir_def)

lemma trimming_removes_the_oldest_witness:
  "\<exists>d' k. trim_uploads_dir files_env [[117]] [[[117], [98]]] 0 0 uploads_disk = (Inr (), d') \<and>
     (\<forall>j < k. \<not> within (u64_sat (u64_sat (0 * 1024) * 1024)) 0 (uploads_in (dk_tree uploads_disk) [[117]])
        (take j (oldest_first (filter (\<lambda>f. uf_path f \<notin> set [[[117], [98]]]) (uploads_in (dk_tree uploads_disk) [[117]])))))"
proof -
  obtain d' where t: "trim_uploads_dir files_env [[117]] [[[117], [98]]] 0 0 uploads_disk = (Inr (), d')"
    using trim_succeeds [OF uploads_disk_dir uploads_disk_faults] by blast
  from trimming_removes_the_oldest [OF uploads_disk_dir uploads_disk_faults(2) uploads_disk_marker t] show ?thesis
    using t unfolding Let_def by blast
qed

lemma upload_needs_its_directory_witness:
  "upload_dest files_env [[119]] [[119]] [98, 47, 97] files_disk = (Inl (404, ''path''), files_disk)"
proof (rule upload_needs_its_directory)
  show "parent_text [98, 47, 97] = Some [98]" by (simp add: parent_text_def path_parts_def is_absolute_def starts_with_def)
  show "normalize_join [[119]] [98] = Inr [[119], [98]]"
    by (simp add: normalize_join_def trim_slashes_def trim_def is_whitespace_def DOTDOT_def Let_def)
  show "canonicalize (dk_tree files_disk) [[119]] = Inr [[119]]"
    by (simp add: canonicalize_def MAX_LINKS_def walk.simps(2) node_at_def files_defs path_defs)
  show "canonicalize (dk_tree files_disk) [[119], [98]] = Inl ENOENT"
    by (simp add: canonicalize_def MAX_LINKS_def walk.simps(2) node_at_def files_defs path_defs)
qed

end
