(* ===== verification/Spec2Isabelle.thy ===== *)
theory Spec2Isabelle
  imports VtReplay VtChunking VtText AttentionDedup LayoutProps AuthProps TokenProps ProcLedgerProps PtyProps
    TabsRaces NotifyRaces ExternalProps SettingsProps TemplateProps UploadProps
begin

text \<open>
  Dinotty is a web terminal: a Rust server (\<open>src/src/\<close>) that runs shells, mirrors each terminal
  in a virtual screen, arranges panes in layout trees, keeps the unread state of notifications, and
  guards its HTTP and WebSocket routes with a master token, browser sessions, verification codes
  and scoped agent tokens. This library models the parts whose behaviour is the program's own.

  Theories and the code they model:

  \<^item> \<open>Prelude\<close>, \<open>Utf8\<close>, \<open>StrOps\<close>, \<open>Expiry\<close>: the vocabulary. Strings are lists of code points, vector
    accesses that panic out of range are \<open>option\<close>-valued, hash maps are association lists with distinct
    keys, clocks are numbers. Interfaces as locales: \<open>total_machine\<close> (steps never panic on states with
    the invariant), \<open>keyed_store\<close> (insert, remove, look up), \<open>revocable\<close> (withdrawn credentials stay
    withdrawn). \<open>constant_time_eq\<close> of \<open>auth/mod.rs\<close> is here, with the proof that it decides equality.
  \<^item> \<open>VtData\<close>, \<open>VtRender\<close>, \<open>VtPerformer\<close>, \<open>VtDispatch\<close>, \<open>VtScreen\<close>: \<open>vt_screen/data.rs\<close>, \<open>render.rs\<close>,
    \<open>performer.rs\<close>, \<open>screen.rs\<close>. The terminal is one record; each CSI, ESC and OSC sequence is a function.
    \<open>VtSafety\<close> and \<open>VtScreenWf\<close> hold the invariant and its preservation, \<open>VtProps\<close>, \<open>VtText\<close>, \<open>VtChunking\<close>,
    \<open>VtReplay\<close> the properties: no panic, text placement, resize, chunked feeding, replay.
  \<^item> \<open>Attention\<close>: \<open>attention/types.rs\<close> and \<open>ledger.rs\<close>, the ledger of unread events. \<open>AttentionSync\<close>,
    \<open>AttentionOps\<close>, \<open>AttentionProps\<close>, \<open>AttentionRead\<close>, \<open>AttentionDedup\<close> show that deltas keep clients in
    step (locales \<open>delta_list\<close> and \<open>synced_source\<close>), that nothing panics, and what reading, eviction,
    deduplication and the ingest gate do.
  \<^item> \<open>Layout\<close>, \<open>LayoutProps\<close>: \<open>session/layout.rs\<close>, the functions over JSON layout trees.
  \<^item> \<open>AuthAddr\<close>, \<open>AuthGate\<close>: \<open>auth/mod.rs\<close>, addresses and whitelists, then cookies, lockout and the
    middleware. \<open>AuthSession\<close>: \<open>auth/session.rs\<close>. \<open>AuthCode\<close>: \<open>auth/verification_code.rs\<close>.
    \<open>AuthHandlers\<close>: \<open>auth/handlers.rs\<close>. \<open>AuthStoreProps\<close> and \<open>AuthProps\<close> hold the properties.
  \<^item> \<open>AgentToken\<close>, \<open>AgentGate\<close>, \<open>TokenProps\<close>: \<open>token.rs\<close>.
  \<^item> \<open>ProcLedger\<close>, \<open>ProcLedgerProps\<close>: \<open>session/ledger.rs\<close>, the file of running process groups and the
    sweep at the next start, which may only kill processes the ledger identifies.
  \<^item> \<open>SessionCore\<close>, \<open>SessionRun\<close>, \<open>SessionProps\<close>: \<open>session/mod.rs\<close>, one session's output path, synchronized
    updates, joining clients and exit. \<open>PtyStream\<close>, \<open>PtyProps\<close>: the reader and broadcaster of \<open>pty.rs\<close>.
  \<^item> \<open>SyncTypes\<close>: the messages of \<open>session/types.rs\<close>, the events of \<open>events/bus.rs\<close> and \<open>events/bridge.rs\<close>.
    \<open>ManagerCore\<close>: \<open>session/manager.rs\<close> as one record (tabs, order, sessions by pane, a store of session
    objects, reservations, sync clients, bus). Its runs are lists of operations, one per critical section,
    so interleavings of tasks are lists. \<open>ManagerProps\<close>: the tables agree. \<open>ManagerRuns\<close>: reservations and
    closing once. \<open>ManagerReap\<close>: the clean-up task. \<open>ManagerView\<close>: what the clients see.
  \<^item> \<open>Workspaces\<close>, \<open>WorkspaceProps\<close>: \<open>workspace_mgmt/mod.rs\<close>.
  \<^item> \<open>SyncOps\<close>, \<open>SyncProps\<close>: \<open>ws/sync.rs\<close>, \<open>ws/types.rs\<close> and \<open>mission_control/mod.rs\<close> over the manager and
    the workspaces: the greeting, each client message, Mission Control.
  \<^item> \<open>Tabs\<close>: \<open>tabs/service.rs\<close>, \<open>tabs/ssh.rs\<close>, \<open>tabs/handlers/\<close>, the HTTP requests on tabs and panes; what
    other tasks do between two accesses to the manager is a parameter (\<open>others\<close>). \<open>TabsProps\<close>: what the
    clients are told. \<open>TabsPanes\<close>: moving and extracting keeps the panes. \<open>TabsRaces\<close>: sessions that die
    meanwhile and concurrent requests.
  \<^item> \<open>Notify\<close>: \<open>notification/\<close>, bells, OSC notifications, posts and read marks through the debounce maps
    and the ledger to clients, bus and hooks. \<open>NotifyProps\<close>: clients that joined know the ledger, posts
    count once. \<open>NotifyRaces\<close>: the debounce maps against a reference, and overtaking broadcasts.
  \<^item> \<open>ProxyUrl\<close>: \<open>proxy/rewrite.rs\<close>, links in pages, style sheets, scripts, forms and cookies. \<open>Proxy\<close>:
    \<open>proxy/mod.rs\<close>, \<open>response.rs\<close> and \<open>websocket.rs\<close>, the preview of local servers. \<open>External\<close>:
    \<open>proxy/external.rs\<close>, pages of other sites. \<open>Relay\<close>: \<open>proxy/relay.rs\<close> with the roster of
    \<open>settings/remote_servers.rs\<close>. A handler's outcome lists the requests it sent. \<open>ProxyProps\<close>,
    \<open>ExternalProps\<close>, \<open>RelayProps\<close>: who may use them, what they connect to, which credentials they carry.
  \<^item> \<open>Cwd\<close>: \<open>session/cwd.rs\<close>, the directory read from terminal titles. \<open>Restore\<close>, \<open>RestoreProps\<close>:
    \<open>session/snapshot.rs\<close> and \<open>session/restore.rs\<close>, what a restart brings back. \<open>TemplateStore\<close>, \<open>Templates\<close>,
    \<open>TemplateProps\<close>: \<open>templates/\<close>, the files as a map and the tabs made of them, all or nothing. Both spawn
    one shell per terminal leaf and remove them again on failure.
  \<^item> \<open>Settings\<close>, \<open>SettingsProps\<close>: \<open>settings/\<close>, the settings as loaded and migrated, normalised, read and
    written by clients. Fields that nothing here looks at are the record's extension. The contract of a
    normaliser (its results are accepted, what is accepted is left alone) is a locale with an instance per part.
  \<^item> \<open>FileTree\<close>: what \<open>std::fs\<close> does on Unix, over a tree with symbolic links, with faults; \<open>FileTreeProps\<close>: each
    operation changes only what lies at or below its path. \<open>WorkspaceUtil\<close>, \<open>WorkspaceFiles\<close>: \<open>workspace/util.rs\<close>
    and \<open>workspace/handlers.rs\<close>, one function per handler; \<open>WorkspaceFilesProps\<close>: requests stay in the workspace,
    what a move moves, reading back what was saved, byte ranges, listings. \<open>Uploads\<close>, \<open>UploadProps\<close>:
    \<open>workspace/upload.rs\<close>: all files of a form or none, numbered names, trimming.

  Conventions. A panic is \<open>None\<close>: an index out of range, an underflow of \<open>usize\<close> subtraction, an
  \<open>expect\<close> on nothing. (In a release build an underflow wraps and the index after it is out of
  range; the model stops at the subtraction.) Fixed-width arithmetic whose wrap-around matters is
  written out (\<open>u64_add\<close>, \<open>u64_sub\<close>, words for masks and failure counters). Iteration order of a hash
  map is the order of the association list, about which nothing is assumed. Clocks are read once per
  operation unless a definition takes several readings. Parameters stand for code outside the
  repository: the \<open>vte\<close> parser, character widths, regular expressions, random numbers and uuids,
  SHA-256, ripgrep, files other than those of workspaces, floating-point ratios, URL parsing, HTML walking and the name resolver.

  Not modelled: sockets, processes and HTTP clients; serialisation; logging; the frontend.
  The terminal's socket, git and remote files, plugins, history, webhooks, the SSH client, platform code, MCP and updates are not
  modelled yet.
\<close>

end
